(* ===== verification/Prelude.thy ===== *)
theory Prelude
  imports Main "HOL-Library.AList" "HOL-Library.Char_ord" "HOL-Library.List_Lexorder"
begin

text \<open>
  Shared vocabulary of the development.

  Python text is a \<^typ>\<open>string\<close>; the classification and case functions below are the ones of
  \<^verbatim>\<open>str\<close> for code points below 128 (\<^verbatim>\<open>strip\<close> also knows the two Latin-1 blanks), other
  characters are left alone.  A Python dictionary is an association list in insertion order,
  written with \<open>AList.update\<close> and \<open>AList.delete\<close>, or a map where the order is never observed.
  A relational table is the list of its rows in \<^verbatim>\<open>rowid\<close> order; the combinators
  \<open>sql_update\<close>, \<open>sql_delete\<close>, \<open>rowcount\<close> and \<open>find\<close> are the statements the stores issue.
  Fallible code returns \<open>exc + 'a\<close>, where the left summand is the raised exception.
\<close>

named_theorems sql_simps \<open>rewriting of the table combinators\<close>
named_theorems str_simps \<open>rewriting of the string operations\<close>

text \<open>Texts with a fixed role in the interfaces of the stores.\<close>

type_synonym org_id = string
type_synonym env_name = string
type_synonym policy_version = string
type_synonym subject_id = string
type_synonym agent_name = string
type_synonym utc_text = string
type_synonym uuid_text = string

section \<open>Strings\<close>

definition py_space :: "char \<Rightarrow> bool" where
  "py_space c \<longleftrightarrow> (let n = of_char c :: nat in
     (9 \<le> n \<and> n \<le> 13) \<or> (28 \<le> n \<and> n \<le> 32) \<or> n = 133 \<or> n = 160)"

definition lstrip :: "string \<Rightarrow> string" where
  "lstrip s = dropWhile py_space s"

definition rstrip :: "string \<Rightarrow> string" where
  "rstrip s = rev (dropWhile py_space (rev s))"

definition strip :: "string \<Rightarrow> string" where
  "strip s = rstrip (lstrip s)"

definition blank :: "string \<Rightarrow> bool" where
  "blank s \<longleftrightarrow> strip s = []"

definition lower_char :: "char \<Rightarrow> char" where
  "lower_char c = (let n = of_char c :: nat in if 65 \<le> n \<and> n \<le> 90 then char_of (n + 32) else c)"

definition upper_char :: "char \<Rightarrow> char" where
  "upper_char c = (let n = of_char c :: nat in if 97 \<le> n \<and> n \<le> 122 then char_of (n - 32) else c)"

definition lower :: "string \<Rightarrow> string" where
  "lower s = map lower_char s"

definition upper :: "string \<Rightarrow> string" where
  "upper s = map upper_char s"

definition alpha_char :: "char \<Rightarrow> bool" where
  "alpha_char c \<longleftrightarrow> (let n = of_char c :: nat in (65 \<le> n \<and> n \<le> 90) \<or> (97 \<le> n \<and> n \<le> 122))"

definition digit_char :: "char \<Rightarrow> bool" where
  "digit_char c \<longleftrightarrow> (let n = of_char c :: nat in 48 \<le> n \<and> n \<le> 57)"

definition starts_with :: "string \<Rightarrow> string \<Rightarrow> bool" where
  "starts_with s p \<longleftrightarrow> take (length p) s = p"

lemma hd_dropWhile_stop: "xs = [] \<or> \<not> P (hd xs) \<Longrightarrow> dropWhile P xs = xs"
  by (cases xs) auto

lemma dropWhile_all_Nil [simp]: "dropWhile P xs = [] \<longleftrightarrow> (\<forall>x\<in>set xs. P x)"
  by (induction xs) auto

lemma strip_Nil [simp]: "strip [] = []"
  by (simp add: strip_def lstrip_def rstrip_def)

lemma strip_eq_Nil [str_simps]: "strip s = [] \<longleftrightarrow> (\<forall>c\<in>set s. py_space c)"
proof
  assume "strip s = []"
  then have "\<forall>c\<in>set (lstrip s). py_space c"
    by (simp add: strip_def rstrip_def)
  then have "dropWhile py_space (dropWhile py_space s) = []"
    by (simp only: lstrip_def dropWhile_all_Nil)
  then show "\<forall>c\<in>set s. py_space c"
    by simp
next
  assume "\<forall>c\<in>set s. py_space c"
  then have "lstrip s = []"
    by (simp add: lstrip_def)
  then show "strip s = []"
    by (simp add: strip_def rstrip_def)
qed

lemma rstrip_head:
  assumes "xs \<noteq> []" and "\<not> py_space (hd xs)"
  shows "rstrip xs \<noteq> [] \<and> hd (rstrip xs) = hd xs"
proof -
  obtain y ys where xs: "xs = y # ys"
    using assms(1) by (cases xs) auto
  have "rev (dropWhile py_space (rev ys @ [y])) = y # rev (dropWhile py_space (rev ys))"
    using assms(2) xs by (auto simp: dropWhile_append)
  then show ?thesis
    using xs by (simp add: rstrip_def)
qed

lemma lstrip_head: "lstrip s = [] \<or> \<not> py_space (hd (lstrip s))"
  using hd_dropWhile [of py_space s] by (auto simp: lstrip_def)

lemma strip_idem [simp]: "strip (strip s) = strip s"
proof (cases "lstrip s = []")
  case True
  then have "strip s = []"
    by (simp add: strip_def rstrip_def)
  then show ?thesis by simp
next
  case False
  then have "\<not> py_space (hd (lstrip s))"
    using lstrip_head by auto
  then have "rstrip (lstrip s) \<noteq> []" "hd (rstrip (lstrip s)) = hd (lstrip s)"
    using rstrip_head False by auto
  then have "lstrip (rstrip (lstrip s)) = rstrip (lstrip s)"
    using \<open>\<not> py_space (hd (lstrip s))\<close> unfolding lstrip_def
    by (intro hd_dropWhile_stop) auto
  then show ?thesis
    by (simp add: strip_def) (simp add: rstrip_def)
qed

lemma blank_strip [simp]: "blank (strip s) \<longleftrightarrow> blank s"
  by (simp add: blank_def)

lemma blank_Nil [simp]: "blank []"
  by (simp add: blank_def)

lemma not_blank_not_Nil: "\<not> blank s \<Longrightarrow> s \<noteq> []"
  by auto

lemma not_blank_strip: "\<not> blank s \<Longrightarrow> strip s \<noteq> []"
  by (simp add: blank_def)

section \<open>Decimal numerals\<close>

fun show_nat :: "nat \<Rightarrow> string" where
  "show_nat n = (if n < 10 then [char_of (48 + n)] else show_nat (n div 10) @ [char_of (48 + n mod 10)])"

declare show_nat.simps [simp del]

definition show_int :: "int \<Rightarrow> string" where
  "show_int i = (if i < 0 then CHR ''-'' # show_nat (nat (- i)) else show_nat (nat i))"

text \<open>The value of a digit string, used to show that \<open>show_nat\<close> loses nothing.\<close>

definition digits_value :: "string \<Rightarrow> nat" where
  "digits_value s = foldl (\<lambda>a c. 10 * a + (of_char c - 48)) 0 s"

lemma digit_char_show [simp]: "n < 10 \<Longrightarrow> digit_char (char_of (48 + n :: nat))"
  by (simp add: digit_char_def)

lemma of_char_digit [simp]: "n < 10 \<Longrightarrow> (of_char (char_of (48 + n :: nat)) :: nat) = 48 + n"
  by simp

lemma show_nat_not_Nil [simp]: "show_nat n \<noteq> []"
  by (subst show_nat.simps) simp

lemma show_nat_digits: "c \<in> set (show_nat n) \<Longrightarrow> digit_char c"
proof (induction n rule: show_nat.induct)
  case (1 n)
  then show ?case
    by (subst (asm) show_nat.simps) (auto split: if_splits)
qed

lemma digits_value_show [simp]: "digits_value (show_nat n) = n"
proof (induction n rule: show_nat.induct)
  case (1 n)
  show ?case
  proof (cases "n < 10")
    case True
    then show ?thesis by (subst show_nat.simps) (simp add: digits_value_def)
  next
    case False
    then have "digits_value (show_nat n) = 10 * digits_value (show_nat (n div 10)) + n mod 10"
      by (subst show_nat.simps) (simp add: digits_value_def)
    with 1 False show ?thesis by simp
  qed
qed

lemma show_nat_inject [simp]: "show_nat m = show_nat n \<longleftrightarrow> m = n"
  by (metis digits_value_show)

lemma minus_not_digit [simp]: "\<not> digit_char CHR ''-''"
  by (simp add: digit_char_def)

lemma show_nat_no_minus [simp]: "show_nat n \<noteq> CHR ''-'' # s" "CHR ''-'' # s \<noteq> show_nat n"
  using show_nat_digits [of "CHR ''-''" n] minus_not_digit by (metis list.set_intros(1))+

lemma show_int_inject [simp]: "show_int i = show_int j \<longleftrightarrow> i = j"
  by (auto simp: show_int_def split: if_splits)

lemma show_int_not_Nil [simp]: "show_int i \<noteq> []"
  by (simp add: show_int_def)

section \<open>Dictionaries\<close>

lemma map_of_update [simp]: "map_of (AList.update k v d) = (map_of d)(k \<mapsto> v)"
  by (simp add: update_conv')

lemma map_of_delete [simp]: "map_of (AList.delete k d) = (map_of d)(k := None)"
  by (simp add: delete_conv')

section \<open>Relational tables\<close>

definition sql_update :: "('r \<Rightarrow> bool) \<Rightarrow> ('r \<Rightarrow> 'r) \<Rightarrow> 'r list \<Rightarrow> 'r list" where
  "sql_update p f t = map (\<lambda>r. if p r then f r else r) t"

definition sql_delete :: "('r \<Rightarrow> bool) \<Rightarrow> 'r list \<Rightarrow> 'r list" where
  "sql_delete p t = filter (\<lambda>r. \<not> p r) t"

definition rowcount :: "('r \<Rightarrow> bool) \<Rightarrow> 'r list \<Rightarrow> nat" where
  "rowcount p t = length (filter p t)"

definition sql_limit :: "int \<Rightarrow> int \<Rightarrow> 'r list \<Rightarrow> 'r list" where
  "sql_limit limit offset t = take (nat limit) (drop (nat offset) t)"

lemma sql_update_Nil [simp]: "sql_update p f [] = []"
  by (simp add: sql_update_def)

lemma sql_update_Cons [simp]:
  "sql_update p f (r # t) = (if p r then f r else r) # sql_update p f t"
  by (simp add: sql_update_def)

lemma length_sql_update [simp]: "length (sql_update p f t) = length t"
  by (simp add: sql_update_def)

lemma set_sql_update: "set (sql_update p f t) = f ` {r \<in> set t. p r} \<union> {r \<in> set t. \<not> p r}"
  by (auto simp: sql_update_def image_iff)

lemma map_sql_update [sql_simps]:
  "(\<And>r. p r \<Longrightarrow> k (f r) = k r) \<Longrightarrow> map k (sql_update p f t) = map k t"
  by (simp add: sql_update_def)

lemma bex_sql_update [sql_simps]:
  "(\<And>r. p r \<Longrightarrow> Q (f r) = Q r) \<Longrightarrow> (\<exists>r\<in>set (sql_update p f t). Q r) \<longleftrightarrow> (\<exists>r\<in>set t. Q r)"
  by (induction t) auto

lemma set_sql_delete [simp]: "set (sql_delete p t) = {r \<in> set t. \<not> p r}"
  by (auto simp: sql_delete_def)

lemma rowcount_zero [sql_simps]: "rowcount p t = 0 \<longleftrightarrow> (\<forall>r\<in>set t. \<not> p r)"
  by (simp add: rowcount_def filter_empty_conv)

lemma rowcount_pos [sql_simps]: "0 < rowcount p t \<longleftrightarrow> (\<exists>r\<in>set t. p r)"
  by (auto simp: rowcount_def filter_empty_conv)

lemma find_None_conv: "find p t = None \<longleftrightarrow> (\<forall>r\<in>set t. \<not> p r)"
  by (auto simp: find_None_iff)

lemma find_Some_prop: "find p t = Some r \<Longrightarrow> r \<in> set t \<and> p r"
  by (induction t) (auto split: if_splits)

lemma find_append: "find p (xs @ ys) = (case find p xs of None \<Rightarrow> find p ys | Some x \<Rightarrow> Some x)"
  by (induction xs) auto

lemma find_ex: "r \<in> set t \<Longrightarrow> p r \<Longrightarrow> \<exists>r'. find p t = Some r'"
  by (induction t) auto

lemma find_sql_update:
  assumes "\<And>r. r \<in> set t \<Longrightarrow> p r \<Longrightarrow> q (f r) = q r"
  shows "find q (sql_update p f t) = map_option (\<lambda>r. if p r then f r else r) (find q t)"
  using assms by (induction t) auto

text \<open>A key that is distinct over the table (a primary key) selects one row at most.\<close>

lemma distinct_key_unique:
  "distinct (map k t) \<Longrightarrow> r \<in> set t \<Longrightarrow> r' \<in> set t \<Longrightarrow> k r = k r' \<Longrightarrow> r = r'"
  by (induction t) (auto simp: image_iff)

lemma find_key_eq:
  assumes "distinct (map k t)" and "r \<in> set t"
  shows "find (\<lambda>x. k x = k r) t = Some r"
proof -
  obtain r' where r': "find (\<lambda>x. k x = k r) t = Some r'"
    using find_ex [OF assms(2), of "\<lambda>x. k x = k r"] by auto
  from find_Some_prop [OF this] have "r' = r"
    using distinct_key_unique [OF assms(1)] assms(2) by auto
  with r' show ?thesis by simp
qed

lemma rowcount_key_le_one:
  assumes "distinct (map k t)" and "\<And>r. p r \<Longrightarrow> k r = v"
  shows "rowcount p t \<le> 1"
  using assms
proof (induction t)
  case Nil
  then show ?case by (simp add: rowcount_def)
next
  case (Cons a t)
  show ?case
  proof (cases "p a")
    case True
    with Cons.prems have "\<forall>r\<in>set t. \<not> p r"
      by (auto simp: image_iff)
    with True show ?thesis
      by (simp add: rowcount_def)
  next
    case False
    with Cons show ?thesis by (simp add: rowcount_def)
  qed
qed

lemma rowcount_eq_one:
  assumes "distinct (map k t)" and "\<And>r. p r \<Longrightarrow> k r = v"
  shows "rowcount p t = 1 \<longleftrightarrow> (\<exists>r\<in>set t. p r)"
  using rowcount_key_le_one [OF assms] rowcount_pos [of p t] by (metis One_nat_def le_antisym less_one not_le not_less_eq_eq zero_less_one)

section \<open>Reachable states\<close>

text \<open>Components with an evolving state have a step relation; its reachable states are
  \<^const>\<open>rtranclp\<close> of that relation, and an invariant is shown once per kind of step.\<close>

lemma rtranclp_invariant:
  assumes "rtranclp step s t" and "P s" and "\<And>x y. P x \<Longrightarrow> step x y \<Longrightarrow> P y"
  shows "P t"
  using assms by (induction rule: rtranclp_induct) auto

section \<open>Dictionaries\<close>

text \<open>A later entry of a dictionary display replaces the value of an earlier one with the same key.\<close>

definition dict_merge :: "(string \<times> 'v) list \<Rightarrow> (string \<times> 'v) list \<Rightarrow> (string \<times> 'v) list" where
  "dict_merge d upd = foldl (\<lambda>d (k, v). AList.update k v d) d upd"

lemma map_of_dict_merge: "map_of (dict_merge d upd) k = (case map_of (rev upd) k of None \<Rightarrow> map_of d k | Some v \<Rightarrow> Some v)"
proof -
  have "map_of (foldl (\<lambda>d (k, v). AList.update k v d) d upd) = map_of d ++ map_of (rev upd)"
    by (induction upd arbitrary: d) (auto simp: update_conv' map_add_def fun_eq_iff split: option.splits)
  then show ?thesis by (simp add: dict_merge_def map_add_def split: option.splits)
qed

end
