(* ===== verification/Pyfloat.thy ===== *)
theory Pyfloat
  imports Prelude "HOL-Library.Log_Nat" Complex_Main
begin

text \<open>
  Python's \<^verbatim>\<open>float\<close>: IEEE-754 binary64.  A finite value is the rational it denotes (the two
  zeros are one value), an operation is the exact rational operation followed by \<open>rnd\<close>,
  round-to-nearest, ties-to-even, with gradual underflow and overflow to infinity.  The facts the
  components use are that rounding is monotone (\<open>rnd_mono\<close>), exact on representable values
  (\<open>rnd_exact\<close>, \<open>rnd_idem\<close>) and that an addition of a nonnegative amount never loses value
  (\<open>fadd_ge\<close>).
\<close>

named_theorems float_simps \<open>rewriting of float comparisons and operations\<close>

section \<open>Values and rounding\<close>

datatype pyfloat = Fin rat | PInf | NInf | NaN

text \<open>The exponent of the binade of a positive rational.\<close>

definition flog2 :: "rat \<Rightarrow> int" where
  "flog2 x = (let (a, b) = quotient_of x; k = bitlen a - bitlen b
              in if 2 powi k \<le> x then k else k - 1)"

text \<open>Round half to even.\<close>

definition rne :: "rat \<Rightarrow> int" where
  "rne y = (let f = \<lfloor>y\<rfloor>; d = y - of_int f
            in if d < 1 / 2 then f else if 1 / 2 < d then f + 1 else if even f then f else f + 1)"

definition ulp_exp :: "rat \<Rightarrow> int" where
  "ulp_exp x = max (flog2 x - 52) (-1074)"

definition rnd_pos :: "rat \<Rightarrow> rat" where
  "rnd_pos x = of_int (rne (x / 2 powi ulp_exp x)) * 2 powi ulp_exp x"

definition dbl_limit :: rat where
  "dbl_limit = 2 ^ 1024"

definition rnd :: "rat \<Rightarrow> pyfloat" where
  "rnd x = (if x = 0 then Fin 0
            else if 0 < x then (if dbl_limit \<le> rnd_pos x then PInf else Fin (rnd_pos x))
            else (if dbl_limit \<le> rnd_pos (- x) then NInf else Fin (- rnd_pos (- x))))"

definition is_double :: "rat \<Rightarrow> bool" where
  "is_double q \<longleftrightarrow> rnd q = Fin q"

definition wf_float :: "pyfloat \<Rightarrow> bool" where
  "wf_float x \<longleftrightarrow> (case x of Fin q \<Rightarrow> is_double q | _ \<Rightarrow> True)"

section \<open>Operations\<close>

fun is_finite :: "pyfloat \<Rightarrow> bool" where
  "is_finite (Fin _) = True"
| "is_finite _ = False"

fun flt :: "pyfloat \<Rightarrow> pyfloat \<Rightarrow> bool" where
  "flt NaN _ = False"
| "flt _ NaN = False"
| "flt (Fin a) (Fin b) = (a < b)"
| "flt (Fin _) PInf = True"
| "flt (Fin _) NInf = False"
| "flt PInf _ = False"
| "flt NInf b = (b \<noteq> NInf)"

definition fle :: "pyfloat \<Rightarrow> pyfloat \<Rightarrow> bool" where
  "fle a b \<longleftrightarrow> flt a b \<or> (a = b \<and> a \<noteq> NaN)"

fun fneg :: "pyfloat \<Rightarrow> pyfloat" where
  "fneg (Fin a) = Fin (- a)"
| "fneg PInf = NInf"
| "fneg NInf = PInf"
| "fneg NaN = NaN"

fun fadd :: "pyfloat \<Rightarrow> pyfloat \<Rightarrow> pyfloat" where
  "fadd (Fin a) (Fin b) = rnd (a + b)"
| "fadd NaN _ = NaN"
| "fadd _ NaN = NaN"
| "fadd PInf NInf = NaN"
| "fadd NInf PInf = NaN"
| "fadd PInf _ = PInf"
| "fadd _ PInf = PInf"
| "fadd NInf _ = NInf"
| "fadd _ NInf = NInf"

definition fsub :: "pyfloat \<Rightarrow> pyfloat \<Rightarrow> pyfloat" where
  "fsub a b = fadd a (fneg b)"

fun finf :: "bool \<Rightarrow> pyfloat" where
  "finf True = PInf"
| "finf False = NInf"

fun fmul :: "pyfloat \<Rightarrow> pyfloat \<Rightarrow> pyfloat" where
  "fmul (Fin a) (Fin b) = rnd (a * b)"
| "fmul NaN _ = NaN"
| "fmul _ NaN = NaN"
| "fmul (Fin a) b = (if a = 0 then NaN else finf ((0 < a) = (b = PInf)))"
| "fmul a (Fin b) = (if b = 0 then NaN else finf ((0 < b) = (a = PInf)))"
| "fmul a b = finf (a = b)"

text \<open>\<^verbatim>\<open>/\<close> raises \<^verbatim>\<open>ZeroDivisionError\<close> on a zero divisor: \<open>None\<close>.\<close>

fun fdiv :: "pyfloat \<Rightarrow> pyfloat \<Rightarrow> pyfloat option" where
  "fdiv a (Fin b) = (if b = 0 then None
     else Some (case a of Fin x \<Rightarrow> rnd (x / b) | NaN \<Rightarrow> NaN | _ \<Rightarrow> finf ((0 < b) = (a = PInf))))"
| "fdiv NaN _ = Some NaN"
| "fdiv _ NaN = Some NaN"
| "fdiv (Fin _) _ = Some (Fin 0)"
| "fdiv _ _ = Some NaN"

text \<open>Python's \<^verbatim>\<open>max(a, b)\<close> and \<^verbatim>\<open>min(a, b)\<close> keep the first argument unless the second compares
  strictly beyond it.\<close>

definition fmax :: "pyfloat \<Rightarrow> pyfloat \<Rightarrow> pyfloat" where
  "fmax a b = (if flt a b then b else a)"

definition fmin :: "pyfloat \<Rightarrow> pyfloat \<Rightarrow> pyfloat" where
  "fmin a b = (if flt b a then b else a)"

section \<open>The binade of a rational\<close>

lemma powi2_pos [simp]: "(0::rat) < 2 powi n"
  by (simp add: zero_less_power_int)

lemma powi2_ge_zero [simp]: "(0::rat) \<le> 2 powi n"
  by (simp add: less_imp_le)

lemma powi2_le_iff [simp]: "(2::rat) powi m \<le> 2 powi n \<longleftrightarrow> m \<le> n"
proof
  assume *: "(2::rat) powi m \<le> 2 powi n"
  show "m \<le> n"
  proof (rule ccontr)
    assume "\<not> m \<le> n"
    then have "(2::rat) powi n < 2 powi m"
      by (intro power_int_strict_increasing) auto
    with * show False by simp
  qed
qed (rule power_int_increasing, auto)

lemma powi2_less_iff [simp]: "(2::rat) powi m < 2 powi n \<longleftrightarrow> m < n"
  by (meson linorder_not_le powi2_le_iff)

lemma powi2_add: "(2::rat) powi (m + n) = 2 powi m * 2 powi n"
  by (simp add: power_int_add)

lemma powi2_diff: "(2::rat) powi (m - n) = 2 powi m / 2 powi n"
  by (simp add: power_int_diff)

lemma powi2_int:
  assumes "0 \<le> n" shows "(2::rat) powi n = of_int (2 ^ nat n)"
  using assms by (simp add: power_int_def)

lemma bitlen_powi:
  assumes "0 < a"
  shows "(2::rat) powi (bitlen a - 1) \<le> of_int a" and "of_int a < (2::rat) powi bitlen a"
proof -
  have pos: "0 < bitlen a"
    using assms bitlen_nonneg [of a] by (metis bitlen_eq_zero_iff linorder_neqE_linordered_idom not_le)
  have b: "2 ^ nat (bitlen a - 1) \<le> a" "a < 2 ^ nat (bitlen a)"
    using bitlen_bounds [OF assms] by auto
  have "(of_int (2 ^ nat (bitlen a - 1)) :: rat) \<le> of_int a"
    using b(1) by (simp only: of_int_le_iff)
  then show "(2::rat) powi (bitlen a - 1) \<le> of_int a"
    using pos by (simp add: powi2_int)
  have "(of_int a :: rat) < of_int (2 ^ nat (bitlen a))"
    using b(2) by (simp only: of_int_less_iff)
  then show "of_int a < (2::rat) powi bitlen a"
    using pos by (simp add: powi2_int)
qed

lemma flog2_bounds:
  assumes "0 < x"
  shows "2 powi flog2 x \<le> x" and "x < 2 powi (flog2 x + 1)"
proof -
  obtain a b where q: "quotient_of x = (a, b)"
    by (cases "quotient_of x")
  have b: "0 < b" using quotient_of_denom_pos [OF q] .
  have x: "x = of_int a / of_int b" using quotient_of_div [OF q] .
  have a: "0 < a" using assms x b by (simp add: zero_less_divide_iff)
  define k where "k = bitlen a - bitlen b"
  have flog: "flog2 x = (if 2 powi k \<le> x then k else k - 1)"
    by (simp add: flog2_def q k_def)
  note A = bitlen_powi [OF a] and B = bitlen_powi [OF b]
  have bpos: "(0::rat) < of_int b" using b by simp
  have "(2::rat) powi (k - 1) * of_int b \<le> 2 powi (k - 1) * 2 powi bitlen b"
    using B(2) by (intro mult_left_mono) auto
  also have "\<dots> = 2 powi (bitlen a - 1)"
    by (simp add: k_def flip: powi2_add)
  also have "\<dots> \<le> of_int a" by (rule A(1))
  finally have low: "2 powi (k - 1) \<le> x"
    using bpos by (simp add: x pos_le_divide_eq)
  have "of_int a < (2::rat) powi bitlen a" by (rule A(2))
  also have "\<dots> = 2 powi (k + 1) * 2 powi (bitlen b - 1)"
    by (simp add: k_def flip: powi2_add)
  also have "\<dots> \<le> 2 powi (k + 1) * of_int b"
    using B(1) by (intro mult_left_mono) auto
  finally have high: "x < 2 powi (k + 1)"
    using bpos by (simp add: x pos_divide_less_eq)
  show "2 powi flog2 x \<le> x" using low by (auto simp: flog)
  show "x < 2 powi (flog2 x + 1)" using high by (auto simp: flog)
qed

lemma flog2_mono: "0 < x \<Longrightarrow> x \<le> y \<Longrightarrow> flog2 x \<le> flog2 y"
proof -
  assume "0 < x" "x \<le> y"
  have "2 powi flog2 x \<le> x"
    using \<open>0 < x\<close> by (rule flog2_bounds)
  also have "x < 2 powi (flog2 y + 1)"
    using flog2_bounds(2) [of y] \<open>0 < x\<close> \<open>x \<le> y\<close> by simp
  finally show ?thesis by simp
qed

lemma flog2_less: "0 < x \<Longrightarrow> x < 2 powi n \<Longrightarrow> flog2 x < n"
  using flog2_bounds(1) [of x] by (meson le_less_trans powi2_less_iff)

section \<open>Rounding to an integer\<close>

lemma rne_of_int [simp]: "rne (of_int n) = n"
  by (simp add: rne_def)

lemma rne_cases: "rne y = \<lfloor>y\<rfloor> \<and> y - of_int \<lfloor>y\<rfloor> \<le> 1 / 2 \<or> rne y = \<lfloor>y\<rfloor> + 1 \<and> 1 / 2 \<le> y - of_int \<lfloor>y\<rfloor>"
  by (auto simp: rne_def Let_def)

lemma rne_mono:
  assumes "y \<le> z" shows "rne y \<le> rne z"
proof (cases "\<lfloor>y\<rfloor> = \<lfloor>z\<rfloor>")
  case True
  then show ?thesis using assms by (auto simp: rne_def Let_def)
next
  case False
  then have "\<lfloor>y\<rfloor> + 1 \<le> \<lfloor>z\<rfloor>" using floor_mono [OF assms] by linarith
  then show ?thesis using rne_cases [of y] rne_cases [of z] by linarith
qed

lemma rne_nonneg: "0 \<le> y \<Longrightarrow> 0 \<le> rne y"
  using rne_mono [of 0 y] rne_of_int [of 0] by simp

section \<open>Rounding to a double\<close>

lemma dyadic_scaled:
  assumes "e \<le> f" shows "\<exists>n. (of_int m * 2 powi f) / 2 powi e = (of_int n :: rat)"
proof
  have "(of_int m * 2 powi f) / (2::rat) powi e = of_int m * 2 powi (f - e)"
    by (simp add: powi2_diff)
  also have "\<dots> = of_int (m * 2 ^ nat (f - e))"
    using assms by (simp add: powi2_int)
  finally show "(of_int m * 2 powi f) / (2::rat) powi e = of_int (m * 2 ^ nat (f - e))" .
qed

lemma rnd_pos_exact_scaled:
  assumes "x = of_int m * 2 powi f" and "ulp_exp x \<le> f"
  shows "rnd_pos x = x"
proof -
  obtain n where "x / 2 powi ulp_exp x = of_int n"
    using dyadic_scaled [OF assms(2), of m] assms(1) by auto
  then have "of_int n * 2 powi ulp_exp x = x"
    by (metis nonzero_eq_divide_eq order_less_irrefl powi2_pos)
  with \<open>x / 2 powi ulp_exp x = of_int n\<close> show ?thesis
    by (simp add: rnd_pos_def)
qed

lemma rnd_pos_exact:
  assumes "x = of_int m * 2 powi f" and "0 < m" and "m \<le> 2 ^ 53" and "-1074 \<le> f"
  shows "rnd_pos x = x"
proof (cases "m = 2 ^ 53")
  case False
  have x: "0 < x" using assms by simp
  have "of_int m < (2::rat) ^ 53"
    using False assms(3) by (metis less_le of_int_less_iff of_int_numeral of_int_power)
  then have "x < 2 ^ 53 * 2 powi f"
    using assms(1) by simp
  also have "\<dots> = 2 powi (f + 53)"
    by (simp add: powi2_add)
  finally have "flog2 x < f + 53"
    using flog2_less [OF x] by simp
  then have "ulp_exp x \<le> f"
    using assms(4) by (simp add: ulp_exp_def)
  then show ?thesis
    using assms(1) by (rule rnd_pos_exact_scaled [rotated])
next
  case True
  have x: "0 < x" using assms by simp
  have x': "x = of_int (2 ^ 52) * 2 powi (f + 1)"
    using assms(1) True by (simp add: powi2_add)
  have "x < 2 powi (f + 54)"
    using x' by (simp add: powi2_add)
  then have "ulp_exp x \<le> f + 1"
    using flog2_less [OF x, of "f + 54"] assms(4) by (simp add: ulp_exp_def)
  then show ?thesis
    using x' by (rule rnd_pos_exact_scaled [rotated])
qed

lemma rnd_pos_form:
  assumes "0 < x"
  shows "\<exists>m. rnd_pos x = of_int m * 2 powi ulp_exp x \<and> 0 \<le> m \<and> m \<le> 2 ^ 53"
proof -
  let ?e = "ulp_exp x"
  have "x < 2 powi (flog2 x + 1)" by (rule flog2_bounds(2) [OF assms])
  also have "\<dots> \<le> 2 powi (?e + 53)" by (simp add: ulp_exp_def)
  finally have "x / 2 powi ?e \<le> of_int (2 ^ 53)"
    by (simp add: powi2_add divide_le_eq mult.commute)
  then have "rne (x / 2 powi ?e) \<le> 2 ^ 53"
    using rne_mono rne_of_int by metis
  moreover have "0 \<le> rne (x / 2 powi ?e)"
    using assms by (intro rne_nonneg) simp
  ultimately show ?thesis by (auto simp: rnd_pos_def)
qed

lemma rnd_pos_nonneg: "0 < x \<Longrightarrow> 0 \<le> rnd_pos x"
  using rnd_pos_form by force

lemma rnd_pos_le_pow:
  assumes "0 < x" "x \<le> 2 powi n" "ulp_exp x \<le> n" shows "rnd_pos x \<le> 2 powi n"
proof -
  obtain k where k: "(2::rat) powi n / 2 powi ulp_exp x = of_int k"
    using dyadic_scaled [OF assms(3), of 1] by auto
  have "x / 2 powi ulp_exp x \<le> of_int k"
    using assms(2) by (simp add: divide_right_mono flip: k)
  then have "(of_int (rne (x / 2 powi ulp_exp x)) :: rat) \<le> of_int k"
    using rne_mono rne_of_int of_int_le_iff by metis
  then have "rnd_pos x \<le> of_int k * 2 powi ulp_exp x"
    by (simp add: rnd_pos_def mult_right_mono)
  also have "\<dots> = 2 powi n"
    by (simp flip: k)
  finally show ?thesis .
qed

lemma rnd_pos_ge_pow:
  assumes "0 < x" "2 powi n \<le> x" "ulp_exp x \<le> n" shows "2 powi n \<le> rnd_pos x"
proof -
  obtain k where k: "(2::rat) powi n / 2 powi ulp_exp x = of_int k"
    using dyadic_scaled [OF assms(3), of 1] by auto
  have "of_int k \<le> x / 2 powi ulp_exp x"
    using assms(2) by (simp add: divide_right_mono flip: k)
  then have "of_int k \<le> (of_int (rne (x / 2 powi ulp_exp x)) :: rat)"
    using rne_mono rne_of_int of_int_le_iff by metis
  then have "of_int k * 2 powi ulp_exp x \<le> rnd_pos x"
    by (simp add: rnd_pos_def mult_right_mono)
  then show ?thesis by (simp flip: k)
qed

lemma rnd_pos_mono:
  assumes "0 < x" "x \<le> y" shows "rnd_pos x \<le> rnd_pos y"
proof (cases "ulp_exp x = ulp_exp y")
  case True
  have "x / 2 powi ulp_exp y \<le> y / 2 powi ulp_exp y"
    using assms(2) by (simp add: divide_right_mono)
  then have "rne (x / 2 powi ulp_exp y) \<le> rne (y / 2 powi ulp_exp y)"
    by (rule rne_mono)
  then have "(of_int (rne (x / 2 powi ulp_exp y)) :: rat) \<le> of_int (rne (y / 2 powi ulp_exp y))"
    by (simp only: of_int_le_iff)
  then show ?thesis
    by (simp add: rnd_pos_def True mult_right_mono)
next
  case False
  have y: "0 < y" using assms by simp
  have log: "flog2 x \<le> flog2 y" by (rule flog2_mono [OF assms])
  with False have lt: "flog2 x < flog2 y" and ey: "ulp_exp y = flog2 y - 52"
    by (auto simp: ulp_exp_def)
  have ex: "ulp_exp x \<le> flog2 y" and ey': "ulp_exp y \<le> flog2 y"
    using log ey by (auto simp: ulp_exp_def)
  have "x < 2 powi (flog2 x + 1)" by (rule flog2_bounds(2) [OF assms(1)])
  also have "\<dots> \<le> 2 powi flog2 y" using lt by simp
  finally have "rnd_pos x \<le> 2 powi flog2 y"
    using rnd_pos_le_pow [OF assms(1) _ ex] by simp
  also have "\<dots> \<le> rnd_pos y"
    using rnd_pos_ge_pow [OF y flog2_bounds(1) [OF y] ey'] .
  finally show ?thesis .
qed

section \<open>Facts for the components\<close>

lemma rnd_zero [simp]: "rnd 0 = Fin 0"
  by (simp add: rnd_def)

lemma rnd_uminus: "rnd (- x) = fneg (rnd x)"
  by (auto simp: rnd_def)

lemma rnd_not_NaN [simp]: "rnd x \<noteq> NaN"
  by (simp add: rnd_def)

lemma rnd_exact:
  assumes "x = of_int m * 2 powi f" and "\<bar>m\<bar> \<le> 2 ^ 53" and "-1074 \<le> f" and "f \<le> 970"
  shows "rnd x = Fin x"
proof -
  have bound: "of_int k * 2 powi f < dbl_limit" if "0 < k" "k \<le> 2 ^ 53" for k
  proof -
    have "(of_int k :: rat) \<le> 2 ^ 53"
      using that(2) by (metis of_int_le_iff of_int_numeral of_int_power)
    then have "(of_int k :: rat) \<le> 2 powi 53" by simp
    moreover have "(2::rat) powi f \<le> 2 powi 970"
      using assms(4) by (simp only: powi2_le_iff)
    ultimately have "of_int k * 2 powi f \<le> (2::rat) powi 53 * 2 powi 970"
      using that(1) by (intro mult_mono) (simp_all only: powi2_ge_zero of_int_0_le_iff)
    also have "\<dots> = 2 powi (53 + 970)" by (simp only: powi2_add)
    also have "\<dots> < 2 powi 1024" by (simp only: powi2_less_iff)
    finally show ?thesis by (simp only: dbl_limit_def power_int_numeral)
  qed
  have pos: "rnd (of_int k * 2 powi f) = Fin (of_int k * 2 powi f)" if "0 < k" "k \<le> 2 ^ 53" for k
    using rnd_pos_exact [OF refl that assms(3)] bound [OF that] that by (simp add: rnd_def)
  show ?thesis
  proof (cases m "0::int" rule: linorder_cases)
    case less
    then have "rnd (- (of_int (- m) * 2 powi f)) = fneg (Fin (of_int (- m) * 2 powi f))"
      using pos [of "- m"] assms(2) by (simp only: rnd_uminus)
    then show ?thesis using assms(1) by simp
  qed (use pos [of m] assms(1,2) in auto)
qed

lemma rnd_of_int [simp]: "\<bar>n\<bar> \<le> 2 ^ 53 \<Longrightarrow> rnd (of_int n) = Fin (of_int n)"
  by (rule rnd_exact [where m = n and f = 0]) auto

lemma rnd_pos_idem: "0 < x \<Longrightarrow> 0 < rnd_pos x \<Longrightarrow> rnd_pos (rnd_pos x) = rnd_pos x"
proof -
  assume "0 < x" "0 < rnd_pos x"
  obtain m where m: "rnd_pos x = of_int m * 2 powi ulp_exp x" "0 \<le> m" "m \<le> 2 ^ 53"
    using rnd_pos_form [OF \<open>0 < x\<close>] by auto
  then have "0 < m" using \<open>0 < rnd_pos x\<close> by (cases "m = 0") auto
  then show ?thesis
    using rnd_pos_exact [OF m(1) _ m(3)] by (simp add: ulp_exp_def)
qed

lemma rnd_idem: "rnd x = Fin r \<Longrightarrow> is_double r"
proof -
  have pos: "rnd r = Fin r" if "0 < x" "rnd x = Fin r" for x r
  proof -
    have r: "r = rnd_pos x" "r < dbl_limit"
      using that by (auto simp: rnd_def split: if_splits)
    show ?thesis
    proof (cases "r = 0")
      case False
      then have "0 < r" using rnd_pos_nonneg [OF that(1)] r by auto
      then show ?thesis
        using rnd_pos_idem [OF that(1)] r by (simp add: rnd_def)
    qed simp
  qed
  assume x: "rnd x = Fin r"
  show ?thesis
  proof (cases x "0::rat" rule: linorder_cases)
    case less
    then have "rnd (- x) = Fin (- r)" using x rnd_uminus [of x] by simp
    then have "rnd (- r) = Fin (- r)" using pos [of "- x" "- r"] less by simp
    then show ?thesis using rnd_uminus [of "- r"] by (simp add: is_double_def)
  qed (use x pos in \<open>auto simp: is_double_def\<close>)
qed

lemma wf_rnd [simp]: "wf_float (rnd x)"
  by (auto simp: wf_float_def split: pyfloat.splits dest: rnd_idem)

lemma fle_Fin [simp, float_simps]: "fle (Fin a) (Fin b) \<longleftrightarrow> a \<le> b"
  by (auto simp: fle_def)

lemma fle_PInf [simp]: "fle (Fin a) PInf" "fle PInf PInf" "\<not> fle PInf (Fin a)"
  by (auto simp: fle_def)

lemma fle_NInf [simp]: "fle NInf (Fin a)" "fle NInf NInf" "fle NInf PInf" "\<not> fle (Fin a) NInf" "\<not> fle PInf NInf"
  by (auto simp: fle_def)

lemma fle_NaN [simp]: "\<not> fle NaN a" "\<not> fle a NaN"
  by (cases a; simp add: fle_def)+

lemma fle_trans: "fle a b \<Longrightarrow> fle b c \<Longrightarrow> fle a c"
  by (cases a; cases b; cases c) auto

lemma not_flt: "a \<noteq> NaN \<Longrightarrow> b \<noteq> NaN \<Longrightarrow> \<not> flt a b \<longleftrightarrow> fle b a"
  by (cases a; cases b) auto

lemma rnd_le_PInf [simp]: "fle (rnd x) PInf"
  by (simp add: rnd_def)

lemma rnd_mono_pos:
  assumes "0 < x" "x \<le> y" shows "fle (rnd x) (rnd y)"
  using rnd_pos_mono [OF assms] assms by (auto simp: rnd_def)

lemma fle_fneg: "fle (fneg a) (fneg b) \<longleftrightarrow> fle b a"
  by (cases a; cases b) auto

lemma rnd_nonneg: "0 \<le> x \<Longrightarrow> fle (Fin 0) (rnd x)"
  using rnd_pos_nonneg [of x] by (auto simp: rnd_def)

lemma rnd_mono:
  assumes "x \<le> y" shows "fle (rnd x) (rnd y)"
proof -
  consider "0 < x" | "x \<le> 0" "0 \<le> y" | "y < 0" using assms by linarith
  then show ?thesis
  proof cases
    case 1
    then show ?thesis using rnd_mono_pos assms by blast
  next
    case 2
    have "fle (fneg (Fin 0)) (fneg (rnd x))"
      using rnd_nonneg [of "- x"] 2 by (simp add: rnd_uminus)
    then have "fle (rnd x) (Fin 0)"
      by (simp only: fle_fneg)
    then show ?thesis using rnd_nonneg [of y] 2 fle_trans by blast
  next
    case 3
    then have "fle (rnd (- y)) (rnd (- x))"
      using rnd_mono_pos assms by simp
    then show ?thesis by (simp only: rnd_uminus fle_fneg)
  qed
qed

lemma rnd_is_double [simp]: "is_double q \<Longrightarrow> rnd q = Fin q"
  by (simp add: is_double_def)

lemma is_double_zero [simp]: "is_double 0"
  by (simp add: is_double_def)

lemma is_double_dyadic:
  "x = of_int m * 2 powi f \<Longrightarrow> \<bar>m\<bar> \<le> 2 ^ 53 \<Longrightarrow> -1074 \<le> f \<Longrightarrow> f \<le> 970 \<Longrightarrow> is_double x"
  by (simp add: is_double_def rnd_exact)

lemma is_double_one [simp]: "is_double 1"
  by (rule is_double_dyadic [where m = 1 and f = 0]) auto

lemma fadd_ge:
  assumes "is_double c" and "0 \<le> a"
  shows "fle (Fin c) (fadd (Fin c) (Fin a))"
proof -
  have "fle (rnd c) (rnd (c + a))" using assms(2) by (intro rnd_mono) simp
  then show ?thesis using assms(1) by simp
qed

lemma fadd_mono: "a \<le> b \<Longrightarrow> fle (fadd (Fin c) (Fin a)) (fadd (Fin c) (Fin b))"
  by (simp add: rnd_mono)

lemma wf_fadd [simp]: "wf_float (fadd a b)"
  by (cases a; cases b; simp) (simp_all add: wf_float_def)

lemma rnd_le_double:
  assumes "is_double b" and "x \<le> b" shows "fle (rnd x) (Fin b)"
  using rnd_mono [OF assms(2)] assms(1) by simp

lemma rnd_ge_double:
  assumes "is_double b" and "b \<le> x" shows "fle (Fin b) (rnd x)"
  using rnd_mono [OF assms(2)] assms(1) by simp

text \<open>A rounded value between two finite doubles is finite and stays between them.\<close>

lemma rnd_between:
  assumes "is_double a" "is_double b" "a \<le> x" "x \<le> b"
  obtains r where "rnd x = Fin r" "a \<le> r" "r \<le> b" "is_double r"
proof -
  have "fle (Fin a) (rnd x)" "fle (rnd x) (Fin b)"
    using rnd_ge_double rnd_le_double assms by auto
  then show ?thesis
    using that by (cases "rnd x") (auto dest: rnd_idem)
qed

lemma rnd_between_ex:
  assumes "is_double a" "is_double b" "a \<le> x" "x \<le> b"
  shows "\<exists>r. rnd x = Fin r \<and> a \<le> r \<and> r \<le> b \<and> is_double r"
  using rnd_between [OF assms] by blast

lemma is_double_uminus [simp]: "is_double (- q) \<longleftrightarrow> is_double q"
proof -
  have neg: "is_double (- x)" if "is_double x" for x
    using that by (simp add: is_double_def rnd_uminus)
  show ?thesis using neg [of q] neg [of "- q"] by auto
qed

end
