(* ===== verification/Pyval.thy ===== *)
theory Pyval
  imports Pyfloat
begin

text \<open>
  Python values as the package handles them when it does not know their type
  (\<^verbatim>\<open>typing.Any\<close>), the exceptions the package raises or lets through, and \<^verbatim>\<open>float()\<close>.
\<close>

section \<open>Values\<close>

text \<open>
  \<open>PStr\<close> also stands for members of \<^verbatim>\<open>str\<close>-based enums, which are strings;
  \<open>PEnum\<close> is a member of any other enum, by its value; \<open>PIso\<close> a \<^verbatim>\<open>date\<close>, \<^verbatim>\<open>time\<close> or
  \<^verbatim>\<open>datetime\<close>, by its ISO text; \<open>PDecimal\<close> and \<open>PPath\<close> by their \<^verbatim>\<open>str\<close>; \<open>PObj\<close> any
  other object, by its qualified type name and its \<^verbatim>\<open>repr\<close> (\<open>None\<close> when \<^verbatim>\<open>repr\<close> raises).
\<close>

datatype pyval =
    PNone
  | PBool bool
  | PInt int
  | PFloat pyfloat
  | PStr string
  | PBytes string
  | PDecimal string
  | PEnum pyval
  | PIso string
  | PPath string
  | PDataclass "(string \<times> pyval) list"
  | PDict "(pyval \<times> pyval) list"
  | PList "pyval list"
  | PTuple "pyval list"
  | PSet "pyval list"
  | PObj string "string option"

section \<open>Exceptions\<close>

text \<open>The payload-bound approval checkpoint carried by \<^verbatim>\<open>HumanApprovalRequired\<close>.\<close>

record checkpoint =
  checkpoint_id :: string
  ck_correlation_id :: string
  ck_run_id :: string
  ck_tool_name :: string
  ck_tool_version :: string
  ck_risk :: string
  ck_estimated_cost_usd :: pyfloat
  ck_action_digest :: string
  ck_policy_digest :: string
  ck_arguments_digest :: string
  ck_created_at_epoch_ms :: int
  ck_expires_at_epoch_ms :: int
  ck_principal_subject :: string
  ck_organization_id :: string
  ck_environment :: string
  ck_agent_id :: string

text \<open>
  The message is the literal text of the source; values interpolated into a message are kept
  when they are strings and dropped when they are numbers.  \<open>OtherExc\<close> is an exception raised by
  code outside the package (a tool handler, a transport), with the names of its classes, most
  specific first.
\<close>

datatype exc =
    ValueError string
  | TypeError string
  | KeyError string
  | AttributeError string
  | OverflowError string
  | ZeroDivisionError string
  | AssertionError string
  | PermissionError string
  | RuntimeError string
  | SqliteIntegrityError string
  | GuardrailViolation string
  | ToolRegistrationError string
  | HumanApprovalRequired checkpoint
  | CircuitOpenError string
  | IdempotencyConflict string
  | IdempotencyInProgress string
  | AuditIntegrityError string
  | AuthenticationError string
  | AuthorizationError string
  | ControlPlaneError string
  | PolicySignatureError string
  | PolicyValidationError string
  | OtherExc "string list" string

text \<open>The classes an exception is an instance of.\<close>

fun exc_classes :: "exc \<Rightarrow> string list" where
  "exc_classes (ValueError _) = [''ValueError'', ''Exception'', ''BaseException'']"
| "exc_classes (TypeError _) = [''TypeError'', ''Exception'', ''BaseException'']"
| "exc_classes (KeyError _) = [''KeyError'', ''LookupError'', ''Exception'', ''BaseException'']"
| "exc_classes (AttributeError _) = [''AttributeError'', ''Exception'', ''BaseException'']"
| "exc_classes (OverflowError _) = [''OverflowError'', ''ArithmeticError'', ''Exception'', ''BaseException'']"
| "exc_classes (ZeroDivisionError _) = [''ZeroDivisionError'', ''ArithmeticError'', ''Exception'', ''BaseException'']"
| "exc_classes (AssertionError _) = [''AssertionError'', ''Exception'', ''BaseException'']"
| "exc_classes (PermissionError _) = [''PermissionError'', ''OSError'', ''Exception'', ''BaseException'']"
| "exc_classes (RuntimeError _) = [''RuntimeError'', ''Exception'', ''BaseException'']"
| "exc_classes (SqliteIntegrityError _) = [''IntegrityError'', ''Exception'', ''BaseException'']"
| "exc_classes (GuardrailViolation _) = [''GuardrailViolation'', ''RuntimeError'', ''Exception'', ''BaseException'']"
| "exc_classes (ToolRegistrationError _) = [''ToolRegistrationError'', ''ValueError'', ''Exception'', ''BaseException'']"
| "exc_classes (HumanApprovalRequired _) = [''HumanApprovalRequired'', ''RuntimeError'', ''Exception'', ''BaseException'']"
| "exc_classes (CircuitOpenError _) = [''CircuitOpenError'', ''RuntimeError'', ''Exception'', ''BaseException'']"
| "exc_classes (IdempotencyConflict _) = [''IdempotencyConflict'', ''RuntimeError'', ''Exception'', ''BaseException'']"
| "exc_classes (IdempotencyInProgress _) = [''IdempotencyInProgress'', ''RuntimeError'', ''Exception'', ''BaseException'']"
| "exc_classes (AuditIntegrityError _) = [''AuditIntegrityError'', ''RuntimeError'', ''Exception'', ''BaseException'']"
| "exc_classes (AuthenticationError _) = [''AuthenticationError'', ''RuntimeError'', ''Exception'', ''BaseException'']"
| "exc_classes (AuthorizationError _) = [''AuthorizationError'', ''PermissionError'', ''OSError'', ''Exception'', ''BaseException'']"
| "exc_classes (ControlPlaneError _) = [''ControlPlaneError'', ''RuntimeError'', ''Exception'', ''BaseException'']"
| "exc_classes (PolicySignatureError _) = [''PolicySignatureError'', ''ControlPlaneError'', ''RuntimeError'', ''Exception'', ''BaseException'']"
| "exc_classes (PolicyValidationError _) = [''PolicyValidationError'', ''ValueError'', ''Exception'', ''BaseException'']"
| "exc_classes (OtherExc cs _) = cs @ [''BaseException'']"

definition exc_isinstance :: "exc \<Rightarrow> string list \<Rightarrow> bool" where
  "exc_isinstance e cs \<longleftrightarrow> (\<exists>c\<in>set cs. c \<in> set (exc_classes e))"

text \<open>What \<^verbatim>\<open>except Exception\<close> catches.\<close>

definition is_Exception :: "exc \<Rightarrow> bool" where
  "is_Exception e \<longleftrightarrow> ''Exception'' \<in> set (exc_classes e)"

fun exc_message :: "exc \<Rightarrow> string" where
  "exc_message (ValueError m) = m"
| "exc_message (TypeError m) = m"
| "exc_message (KeyError m) = m"
| "exc_message (AttributeError m) = m"
| "exc_message (OverflowError m) = m"
| "exc_message (ZeroDivisionError m) = m"
| "exc_message (AssertionError m) = m"
| "exc_message (PermissionError m) = m"
| "exc_message (RuntimeError m) = m"
| "exc_message (SqliteIntegrityError m) = m"
| "exc_message (GuardrailViolation m) = m"
| "exc_message (ToolRegistrationError m) = m"
| "exc_message (HumanApprovalRequired ck) =
     ''Human approval is required before executing tool '' @ ck_tool_name ck"
| "exc_message (CircuitOpenError m) = m"
| "exc_message (IdempotencyConflict m) = m"
| "exc_message (IdempotencyInProgress m) = m"
| "exc_message (AuditIntegrityError m) = m"
| "exc_message (AuthenticationError m) = m"
| "exc_message (AuthorizationError m) = m"
| "exc_message (ControlPlaneError m) = m"
| "exc_message (PolicySignatureError m) = m"
| "exc_message (PolicyValidationError m) = m"
| "exc_message (OtherExc _ m) = m"

text \<open>\<^verbatim>\<open>type(exc).__name__\<close>.\<close>

definition exc_type_name :: "exc \<Rightarrow> string" where
  "exc_type_name e = hd (exc_classes e)"

section \<open>The float conversion\<close>

text \<open>An underscore in a numeric string stands between two digits.\<close>

fun underscores_ok :: "bool \<Rightarrow> string \<Rightarrow> bool" where
  "underscores_ok p [] = True"
| "underscores_ok p (c # cs) =
     (if c = CHR ''_'' then p \<and> cs \<noteq> [] \<and> digit_char (hd cs) \<and> underscores_ok False cs
      else underscores_ok (digit_char c) cs)"

definition split_sign :: "string \<Rightarrow> bool \<times> string" where
  "split_sign s = (case s of [] \<Rightarrow> (False, [])
     | c # cs \<Rightarrow> if c = CHR ''-'' then (True, cs) else if c = CHR ''+'' then (False, cs) else (False, s))"

definition exponent_of :: "string \<Rightarrow> int option" where
  "exponent_of s = (case s of [] \<Rightarrow> Some 0
     | c # cs \<Rightarrow> if c \<noteq> CHR ''e'' \<and> c \<noteq> CHR ''E'' then None
         else let (neg, ds) = split_sign cs in
           if ds = [] \<or> \<not> list_all digit_char ds then None
           else Some (if neg then - int (digits_value ds) else int (digits_value ds)))"

definition decimal_of :: "string \<Rightarrow> rat option" where
  "decimal_of s =
     (let ip = takeWhile digit_char s; r1 = dropWhile digit_char s;
          fp = (if r1 \<noteq> [] \<and> hd r1 = CHR ''.'' then takeWhile digit_char (tl r1) else []);
          r2 = (if r1 \<noteq> [] \<and> hd r1 = CHR ''.'' then dropWhile digit_char (tl r1) else r1)
      in if ip @ fp = [] then None
         else map_option (\<lambda>e. of_nat (digits_value (ip @ fp)) * 10 powi (e - int (length fp)))
                (exponent_of r2))"

definition float_of_string :: "string \<Rightarrow> pyfloat option" where
  "float_of_string s =
     (let t = strip s in
      if \<not> underscores_ok False t then None
      else let (neg, v) = split_sign (filter (\<lambda>c. c \<noteq> CHR ''_'') t);
               sgn = (if neg then fneg else id) in
        if lower v = ''inf'' \<or> lower v = ''infinity'' then Some (sgn PInf)
        else if lower v = ''nan'' then Some NaN
        else map_option (\<lambda>q. sgn (rnd q)) (decimal_of v))"

text \<open>An integer too large for a double raises \<^verbatim>\<open>OverflowError\<close>; strings and bytes are parsed;
  \<^verbatim>\<open>Decimal\<close> converts through its text; every other type raises \<^verbatim>\<open>TypeError\<close>.\<close>

definition float_parsed :: "string \<Rightarrow> exc + pyfloat" where
  "float_parsed s = (case float_of_string s of
      Some x \<Rightarrow> Inr x | None \<Rightarrow> Inl (ValueError ''could not convert string to float''))"

fun py_float :: "pyval \<Rightarrow> exc + pyfloat" where
  "py_float (PFloat x) = Inr x"
| "py_float (PInt i) = (if is_finite (rnd (of_int i)) then Inr (rnd (of_int i))
     else Inl (OverflowError ''int too large to convert to float''))"
| "py_float (PBool b) = Inr (Fin (if b then 1 else 0))"
| "py_float (PStr s) = float_parsed s"
| "py_float (PBytes s) = float_parsed s"
| "py_float (PDecimal s) = float_parsed s"
| "py_float _ = Inl (TypeError ''float() argument must be a string or a real number'')"

lemma py_float_exc:
  "py_float v = Inl e \<Longrightarrow> (\<exists>m. e = ValueError m) \<or> (\<exists>m. e = TypeError m) \<or> (\<exists>m. e = OverflowError m)"
  by (cases v rule: py_float.cases) (auto simp: float_parsed_def split: option.splits if_splits)

text \<open>\<^verbatim>\<open>isinstance(value, bool)\<close>, \<^verbatim>\<open>isinstance(value, int)\<close> (which accepts booleans) and
  \<^verbatim>\<open>isinstance(value, str)\<close>.\<close>

fun is_bool :: "pyval \<Rightarrow> bool" where
  "is_bool (PBool _) = True"
| "is_bool _ = False"

fun is_int :: "pyval \<Rightarrow> bool" where
  "is_int (PInt _) = True"
| "is_int (PBool _) = True"
| "is_int _ = False"

fun is_str :: "pyval \<Rightarrow> bool" where
  "is_str (PStr _) = True"
| "is_str _ = False"

text \<open>The integer an \<^verbatim>\<open>int\<close> instance denotes.\<close>

fun int_of_pyval :: "pyval \<Rightarrow> int" where
  "int_of_pyval (PInt i) = i"
| "int_of_pyval (PBool b) = (if b then 1 else 0)"
| "int_of_pyval _ = 0"

section \<open>Results\<close>

text \<open>A step that may raise after another, one step for every element of a list, and a list of calls on a state.\<close>

definition ebind :: "exc + 'a \<Rightarrow> ('a \<Rightarrow> exc + 'b) \<Rightarrow> exc + 'b" where
  "ebind r f = (case r of Inl e \<Rightarrow> Inl e | Inr x \<Rightarrow> f x)"

lemma ebind_simps [simp]: "ebind (Inl e) f = Inl e" "ebind (Inr x) f = f x"
  by (simp_all add: ebind_def)

lemma ebind_Inr: "ebind r f = Inr y \<longleftrightarrow> (\<exists>x. r = Inr x \<and> f x = Inr y)"
  by (cases r) auto

fun collect :: "('a \<Rightarrow> exc + 'b) \<Rightarrow> 'a list \<Rightarrow> exc + 'b list" where
  "collect f [] = Inr []"
| "collect f (x # xs) = ebind (f x) (\<lambda>y. ebind (collect f xs) (\<lambda>ys. Inr (y # ys)))"

lemma collect_Inr_iff: "collect f xs = Inr ys \<longleftrightarrow> list_all2 (\<lambda>x y. f x = Inr y) xs ys"
  by (induction xs arbitrary: ys) (auto simp: ebind_Inr list_all2_Cons1)

fun record_all :: "('q \<Rightarrow> 's \<Rightarrow> (exc + 'e) \<times> 's) \<Rightarrow> 'q list \<Rightarrow> 's \<Rightarrow> (exc + 'e) list \<times> 's" where
  "record_all f [] st = ([], st)"
| "record_all f (q # qs) st = (let (r, st') = f q st; (rs, st'') = record_all f qs st' in (r # rs, st''))"

end
