(* ===== verification/Serialization.thy ===== *)
theory Serialization
  imports Pyval
begin

text \<open>
  \<^verbatim>\<open>agent_roi/_serialization.py\<close>: the deterministic JSON form of Python values, its canonical
  text and the digests taken of it, and the two output escapes.  The decimal text of a finite
  float (\<^verbatim>\<open>float.__repr__\<close>) and the hash function are arguments; \<open>float_repr_ok\<close> is what the
  development relies on about the former, nothing is assumed about the latter.
\<close>

section \<open>JSON values\<close>

datatype json =
    JNull
  | JBool bool
  | JInt int
  | JFloat pyfloat
  | JStr string
  | JList "json list"
  | JObj "(string \<times> json) list"

type_synonym json_object = "(string \<times> json) list"

section \<open>Conversion of Python values\<close>

text \<open>\<^verbatim>\<open>base64.b64encode\<close>.\<close>

definition b64_char :: "nat \<Rightarrow> char" where
  "b64_char n = ''ABCDEFGHIJKLMNOPQRSTUVWXYZabcdefghijklmnopqrstuvwxyz0123456789+/'' ! (n mod 64)"

fun b64encode :: "string \<Rightarrow> string" where
  "b64encode [] = []"
| "b64encode [a] = (let n = of_char a * 16 in [b64_char (n div 64), b64_char n] @ ''=='')"
| "b64encode [a, b] = (let n = (of_char a * 256 + of_char b) * 4 in
     [b64_char (n div 4096), b64_char (n div 64), b64_char n] @ ''='')"
| "b64encode (a # b # c # rest) = (let n = (of_char a * 256 + of_char b) * 256 + of_char c in
     [b64_char (n div 262144), b64_char (n div 4096), b64_char (n div 64), b64_char n] @ b64encode rest)"

text \<open>\<^verbatim>\<open>str()\<close> of a non-finite float.\<close>

fun nonfinite_str :: "pyfloat \<Rightarrow> string" where
  "nonfinite_str PInf = ''inf''"
| "nonfinite_str NInf = ''-inf''"
| "nonfinite_str _ = ''nan''"

text \<open>\<^verbatim>\<open>str()\<close> of a dictionary key: the text of scalars is computed, that of other hashable
  objects is given by the interpreter (\<open>orepr\<close>).\<close>

fun str_of :: "(pyfloat \<Rightarrow> string) \<Rightarrow> (pyval \<Rightarrow> string) \<Rightarrow> pyval \<Rightarrow> string" where
  "str_of frepr orepr (PStr s) = s"
| "str_of frepr orepr (PInt i) = show_int i"
| "str_of frepr orepr (PBool b) = (if b then ''True'' else ''False'')"
| "str_of frepr orepr PNone = ''None''"
| "str_of frepr orepr (PFloat x) = (if is_finite x then frepr x else nonfinite_str x)"
| "str_of frepr orepr (PDecimal s) = s"
| "str_of frepr orepr (PPath s) = s"
| "str_of frepr orepr v = orepr v"

definition bounded_repr :: "string option \<Rightarrow> string" where
  "bounded_repr r = (let rendered = (case r of Some s \<Rightarrow> s | None \<Rightarrow> ''<unreprable>'') in
     if length rendered > 1000 then take (1000 - 3) rendered @ ''...'' else rendered)"

section \<open>Canonical text\<close>

definition hex_digit :: "nat \<Rightarrow> char" where
  "hex_digit n = char_of (if n mod 16 < 10 then 48 + n mod 16 else 87 + n mod 16)"

text \<open>The two-character escapes: quote, backslash, newline, return, tab, form feed, backspace.\<close>

definition short_escape :: "char \<Rightarrow> char option" where
  "short_escape = map_of [(CHR 0x22, CHR 0x22), (CHR 0x5C, CHR 0x5C), (CHR 0x0A, CHR ''n''),
     (CHR 0x0D, CHR ''r''), (CHR 0x09, CHR ''t''), (CHR 0x0C, CHR ''f''), (CHR 0x08, CHR ''b'')]"

definition escape_char :: "char \<Rightarrow> string" where
  "escape_char c = (case short_escape c of
       Some d \<Rightarrow> [CHR 0x5C, d]
     | None \<Rightarrow> if (of_char c :: nat) < 32
         then [CHR 0x5C, CHR ''u'', CHR ''0'', CHR ''0'', hex_digit (of_char c div 16), hex_digit (of_char c)]
         else [c])"

definition json_string :: "string \<Rightarrow> string" where
  "json_string s = CHR 0x22 # concat (map escape_char s) @ [CHR 0x22]"

fun join :: "string \<Rightarrow> string list \<Rightarrow> string" where
  "join sep [] = []"
| "join sep [x] = x"
| "join sep (x # y # xs) = x @ sep @ join sep (y # xs)"

fun print_json :: "(pyfloat \<Rightarrow> string) \<Rightarrow> json \<Rightarrow> string" where
  "print_json frepr JNull = ''null''"
| "print_json frepr (JBool b) = (if b then ''true'' else ''false'')"
| "print_json frepr (JInt i) = show_int i"
| "print_json frepr (JFloat x) = frepr x"
| "print_json frepr (JStr s) = json_string s"
| "print_json frepr (JList xs) = ''['' @ join '','' (map (print_json frepr) xs) @ '']''"
| "print_json frepr (JObj kvs) =
     ''{'' @ join '','' (map (\<lambda>(k, v). json_string k @ '':'' @ print_json frepr v) kvs) @ ''}''"

fun sort_keys :: "json \<Rightarrow> json" where
  "sort_keys (JList xs) = JList (map sort_keys xs)"
| "sort_keys (JObj kvs) = JObj (sort_key fst (map (\<lambda>(k, v). (k, sort_keys v)) kvs))"
| "sort_keys j = j"

text \<open>\<^verbatim>\<open>json.dumps(..., sort_keys=True, separators=(",", ":"), ensure_ascii=False)\<close> of a JSON value.\<close>

definition json_dumps :: "(pyfloat \<Rightarrow> string) \<Rightarrow> json \<Rightarrow> string" where
  "json_dumps frepr j = print_json frepr (sort_keys j)"

text \<open>
  \<^verbatim>\<open>to_jsonable\<close>, one equation per \<^verbatim>\<open>isinstance\<close> test.  A dictionary is read in the order of the
  texts of its keys and rebuilt under those texts, so of two keys with the same text the later
  wins; the elements of a set are ordered by their canonical text.
\<close>

fun to_jsonable :: "(pyfloat \<Rightarrow> string) \<Rightarrow> (pyval \<Rightarrow> string) \<Rightarrow> pyval \<Rightarrow> json" where
  "to_jsonable fr orr PNone = JNull"
| "to_jsonable fr orr (PStr s) = JStr s"
| "to_jsonable fr orr (PBool b) = JBool b"
| "to_jsonable fr orr (PInt i) = JInt i"
| "to_jsonable fr orr (PFloat x) = (if is_finite x then JFloat x else JStr (nonfinite_str x))"
| "to_jsonable fr orr (PDecimal s) = JStr s"
| "to_jsonable fr orr (PEnum v) = to_jsonable fr orr v"
| "to_jsonable fr orr (PIso s) = JStr s"
| "to_jsonable fr orr (PPath s) = JStr s"
| "to_jsonable fr orr (PBytes s) = JObj [(''__type__'', JStr ''bytes''), (''base64'', JStr (b64encode s))]"
| "to_jsonable fr orr (PDataclass fs) = JObj (map (\<lambda>(n, v). (n, to_jsonable fr orr v)) fs)"
| "to_jsonable fr orr (PDict kvs) = JObj (foldl (\<lambda>d (k, j). AList.update k j d) []
     (sort_key fst (map (\<lambda>(k, v). (str_of fr orr k, to_jsonable fr orr v)) kvs)))"
| "to_jsonable fr orr (PList xs) = JList (map (to_jsonable fr orr) xs)"
| "to_jsonable fr orr (PTuple xs) = JList (map (to_jsonable fr orr) xs)"
| "to_jsonable fr orr (PSet xs) = JList (sort_key (json_dumps fr) (map (to_jsonable fr orr) xs))"
| "to_jsonable fr orr (PObj ty r) = JObj [(''__type__'', JStr ty), (''repr'', JStr (bounded_repr r))]"

definition canonical_json :: "(pyfloat \<Rightarrow> string) \<Rightarrow> (pyval \<Rightarrow> string) \<Rightarrow> pyval \<Rightarrow> string" where
  "canonical_json fr orr v = json_dumps fr (to_jsonable fr orr v)"

definition digest_value ::
    "(string \<Rightarrow> string) \<Rightarrow> (pyfloat \<Rightarrow> string) \<Rightarrow> (pyval \<Rightarrow> string) \<Rightarrow> pyval \<Rightarrow> string" where
  "digest_value sha fr orr v = sha (canonical_json fr orr v)"

text \<open>The Python value \<^verbatim>\<open>json.loads\<close> gives for a JSON text, by its structure.\<close>

fun py_of_json :: "json \<Rightarrow> pyval" where
  "py_of_json JNull = PNone"
| "py_of_json (JBool b) = PBool b"
| "py_of_json (JInt i) = PInt i"
| "py_of_json (JFloat x) = PFloat x"
| "py_of_json (JStr s) = PStr s"
| "py_of_json (JList xs) = PList (map py_of_json xs)"
| "py_of_json (JObj kvs) = PDict (map (\<lambda>(k, v). (PStr k, py_of_json v)) kvs)"

text \<open>Two different texts with the same digest.\<close>

definition collision :: "('a \<Rightarrow> 'b) \<Rightarrow> 'a \<Rightarrow> 'a \<Rightarrow> bool" where
  "collision sha u v \<longleftrightarrow> u \<noteq> v \<and> sha u = sha v"

section \<open>Output escapes\<close>

fun csv_safe :: "pyval \<Rightarrow> pyval" where
  "csv_safe (PStr s) =
     (let stripped = lstrip s in
      if stripped \<noteq> [] \<and> hd stripped \<in> {CHR ''='', CHR ''+'', CHR ''-'', CHR ''@''}
      then PStr (CHR 0x27 # s) else PStr s)"
| "csv_safe v = v"

text \<open>The chain of single-character \<^verbatim>\<open>str.replace\<close> calls, in the source's order.\<close>

definition replace_char :: "char \<Rightarrow> string \<Rightarrow> string \<Rightarrow> string" where
  "replace_char c r s = concat (map (\<lambda>x. if x = c then r else [x]) s)"

definition markdown_escape :: "string \<Rightarrow> string" where
  "markdown_escape text = strip (replace_char CHR 0x0A '' '' (replace_char CHR 0x0D '' ''
     (replace_char CHR 0x60 [CHR 0x5C, CHR 0x60] (replace_char CHR ''|'' [CHR 0x5C, CHR ''|'']
       (replace_char CHR 0x5C [CHR 0x5C, CHR 0x5C] text)))))"

section \<open>The canonical text determines the value\<close>

text \<open>What the development relies on about \<^verbatim>\<open>float.__repr__\<close>: on doubles it is one-to-one (it
  round-trips through \<^verbatim>\<open>float()\<close>), it is written with the characters of a decimal numeral, and it
  never looks like an integer.\<close>

definition num_char :: "char \<Rightarrow> bool" where
  "num_char c \<longleftrightarrow> digit_char c \<or> c \<in> {CHR ''-'', CHR ''+'', CHR ''.'', CHR ''e''}"

definition float_repr_ok :: "(pyfloat \<Rightarrow> string) \<Rightarrow> bool" where
  "float_repr_ok fr \<longleftrightarrow>
     (\<forall>a b. is_double a \<and> is_double b \<and> fr (Fin a) = fr (Fin b) \<longrightarrow> a = b) \<and>
     (\<forall>a. is_double a \<longrightarrow> fr (Fin a) \<noteq> [] \<and> (digit_char (hd (fr (Fin a))) \<or> hd (fr (Fin a)) = CHR ''-'')
        \<and> list_all num_char (fr (Fin a)) \<and> (\<exists>c\<in>set (fr (Fin a)). \<not> digit_char c \<and> c \<noteq> CHR ''-''))"

text \<open>The values \<^verbatim>\<open>to_jsonable\<close> produces: finite floats, distinct keys.\<close>

fun wf_json :: "json \<Rightarrow> bool" where
  "wf_json (JFloat x) = (case x of Fin q \<Rightarrow> is_double q | _ \<Rightarrow> False)"
| "wf_json (JList xs) = list_all wf_json xs"
| "wf_json (JObj kvs) = (distinct (map fst kvs) \<and> list_all (\<lambda>(k, v). wf_json v) kvs)"
| "wf_json _ = True"

definition delim :: "string \<Rightarrow> bool" where
  "delim r \<longleftrightarrow> r = [] \<or> hd r \<in> {CHR '','', CHR '']'', CHR ''}''}"

lemma delim_simps [simp]: "delim []" "delim (CHR '','' # r)" "delim (CHR '']'' # r)" "delim (CHR ''}'' # r)"
  by (simp_all add: delim_def)

lemma of_char_hex_digit:
  "(of_char (hex_digit k) :: nat) = (if k mod 16 < 10 then 48 + k mod 16 else 87 + k mod 16)"
  by (simp add: hex_digit_def)

lemma hex_digit_inject: "hex_digit m = hex_digit n \<Longrightarrow> m mod 16 = n mod 16"
proof -
  assume "hex_digit m = hex_digit n"
  then have "(if m mod 16 < 10 then 48 + m mod 16 else 87 + m mod 16)
      = (if n mod 16 < 10 then 48 + n mod 16 else 87 + n mod (16::nat))"
    unfolding of_char_hex_digit [symmetric] by (rule arg_cong)
  then show ?thesis
    by (auto split: if_splits)
qed

lemma control_hex:
  fixes a b :: nat
  assumes "a < 32" "b < 32" "(a div 16) mod 16 = (b div 16) mod 16" "a mod 16 = b mod 16"
  shows "a = b"
proof -
  have "a div 16 < 16" "b div 16 < 16" using assms(1,2) by auto
  then have "a div 16 = b div 16" using assms(3) by simp
  then show ?thesis using assms(4) by (metis div_mult_mod_eq)
qed

lemma short_escape_inject: "short_escape c = Some x \<Longrightarrow> short_escape d = Some x \<Longrightarrow> c = d"
  by (auto simp: short_escape_def split: if_splits)

lemma short_escape_not_u: "short_escape c \<noteq> Some CHR ''u''"
  by (simp add: short_escape_def)

lemma short_escape_quote: "short_escape c = None \<Longrightarrow> c \<noteq> CHR 0x22 \<and> c \<noteq> CHR 0x5C"
  by (auto simp: short_escape_def)

lemma control_prefix:
  assumes "(of_char c :: nat) < 32" "(of_char d :: nat) < 32"
    and "hex_digit (of_char c div 16) = hex_digit (of_char d div 16)"
    and "hex_digit (of_char c) = hex_digit (of_char d)"
  shows "c = d"
proof -
  have "(of_char c :: nat) = of_char d"
    by (rule control_hex [OF assms(1,2) hex_digit_inject [OF assms(3)] hex_digit_inject [OF assms(4)]])
  then show ?thesis by simp
qed

lemma escape_char_prefix:
  assumes "escape_char c @ x = escape_char d @ y"
  shows "c = d \<and> x = y"
  using assms short_escape_not_u short_escape_quote [of c] short_escape_quote [of d]
  by (auto simp: escape_char_def split: option.splits if_splits dest: short_escape_inject control_prefix)

lemma escape_char_no_quote: "escape_char c @ x \<noteq> CHR 0x22 # y"
  using short_escape_quote [of c] by (auto simp: escape_char_def split: option.splits if_splits)

lemma json_string_prefix:
  assumes "json_string s @ x = json_string t @ y"
  shows "s = t \<and> x = y"
proof -
  have "concat (map escape_char s) @ CHR 0x22 # x = concat (map escape_char t) @ CHR 0x22 # y"
    using assms by (simp add: json_string_def)
  then show ?thesis
  proof (induction s arbitrary: t)
    case Nil
    show ?case
    proof (cases t)
      case (Cons b t')
      then have "escape_char b @ (concat (map escape_char t') @ CHR 0x22 # y) = CHR 0x22 # x"
        using Nil by simp
      then show ?thesis using escape_char_no_quote by blast
    qed (use Nil in simp)
  next
    case (Cons a s)
    show ?case
    proof (cases t)
      case Nil
      then have "escape_char a @ (concat (map escape_char s) @ CHR 0x22 # x) = CHR 0x22 # y"
        using Cons.prems by simp
      then show ?thesis using escape_char_no_quote by blast
    next
      case t: (Cons b t')
      then have "escape_char a @ (concat (map escape_char s) @ CHR 0x22 # x)
          = escape_char b @ (concat (map escape_char t') @ CHR 0x22 # y)"
        using Cons.prems by simp
      from escape_char_prefix [OF this] show ?thesis
        using Cons.IH [of t'] t by simp
    qed
  qed
qed

lemma join_Cons: "join sep (x # xs) = x @ concat (map (\<lambda>y. sep @ y) xs)"
  by (induction xs arbitrary: x) auto

text \<open>Items separated by commas and closed by a bracket can be read back one by one.\<close>

lemma items_prefix:
  assumes "\<And>x y r s. x \<in> set xs \<Longrightarrow> y \<in> set ys \<Longrightarrow> delim r \<Longrightarrow> delim s \<Longrightarrow> p x @ r = p y @ s \<Longrightarrow> x = y \<and> r = s"
    and "c = CHR '']'' \<or> c = CHR ''}''"
    and "concat (map (\<lambda>y. '','' @ p y) xs) @ c # r = concat (map (\<lambda>y. '','' @ p y) ys) @ c # s"
  shows "xs = ys \<and> r = s"
  using assms(1,3)
proof (induction xs arbitrary: ys)
  case Nil
  then show ?case using assms(2) by (cases ys) auto
next
  case (Cons x xs)
  then obtain y ys' where ys: "ys = y # ys'"
    using assms(2) by (cases ys) auto
  have d: "delim (concat (map (\<lambda>y. '','' @ p y) zs) @ c # t)" for zs t
    using assms(2) by (cases zs) auto
  have "x = y \<and> concat (map (\<lambda>y. '','' @ p y) xs) @ c # r = concat (map (\<lambda>y. '','' @ p y) ys') @ c # s"
    using Cons.prems(2) ys by (intro Cons.prems(1) d) auto
  moreover have "xs = ys' \<and> r = s"
  proof (rule Cons.IH)
    show "u = v \<and> t = w" if "u \<in> set xs" "v \<in> set ys'" "delim t" "delim w" "p u @ t = p v @ w" for u v t w
      using that ys by (intro Cons.prems(1)) auto
  qed (use calculation in simp)
  ultimately show ?case using ys by simp
qed

lemma join_prefix:
  assumes "\<And>x y r s. x \<in> set xs \<Longrightarrow> y \<in> set ys \<Longrightarrow> delim r \<Longrightarrow> delim s \<Longrightarrow> p x @ r = p y @ s \<Longrightarrow> x = y \<and> r = s"
    and "\<And>x. x \<in> set xs \<union> set ys \<Longrightarrow> p x \<noteq> [] \<and> hd (p x) \<noteq> c"
    and "c = CHR '']'' \<or> c = CHR ''}''"
    and "join '','' (map p xs) @ c # r = join '','' (map p ys) @ c # s"
  shows "xs = ys \<and> r = s"
proof (cases xs)
  case Nil
  show ?thesis
  proof (cases ys)
    case (Cons y ys')
    then have "c # r = p y @ (concat (map (\<lambda>y. '','' @ y) (map p ys')) @ c # s)"
      using assms(4) Nil by (simp only: list.map join.simps join_Cons append.assoc append.left_neutral)
    then have False
      using assms(2) [of y] Cons by (cases "p y") auto
    then show ?thesis ..
  qed (use Nil assms(4) in simp)
next
  case (Cons x xs')
  then have ne: "join '','' (map p xs) @ c # r = p x @ (concat (map (\<lambda>y. '','' @ y) (map p xs')) @ c # r)"
    by (simp only: list.map join_Cons append.assoc)
  obtain y ys' where ys: "ys = y # ys'"
    using assms(2) [of x] assms(4) ne Cons by (cases ys; cases "p x") auto
  have "concat (map (\<lambda>y. '','' @ p y) (x # xs')) @ c # r = concat (map (\<lambda>y. '','' @ p y) (y # ys')) @ c # s"
    using assms(4) Cons ys by (simp add: join_Cons comp_def)
  then have "x # xs' = y # ys' \<and> r = s"
  proof (rule items_prefix [rotated 2])
    show "u = v \<and> t = w"
      if "u \<in> set (x # xs')" "v \<in> set (y # ys')" "delim t" "delim w" "p u @ t = p v @ w" for u v t w
      using that Cons ys by (intro assms(1)) auto
  qed (rule assms(3))
  then show ?thesis using Cons ys by simp
qed

lemma num_prefix:
  assumes "list_all num_char a" "list_all num_char b" "delim r" "delim s" "a @ r = b @ s"
  shows "a = b \<and> r = s"
proof -
  have stop: "takeWhile num_char (a @ r) = a" if "list_all num_char a" "delim r" for a r
    using that by (cases r) (auto simp: delim_def num_char_def digit_char_def list_all_iff takeWhile_append)
  have "a = b"
    using stop [OF assms(1,3)] stop [OF assms(2,4)] assms(5) by metis
  then show ?thesis using assms(5) by simp
qed

lemma show_int_num: "list_all num_char (show_int i)"
  using show_nat_digits by (auto simp: show_int_def list_all_iff num_char_def)

lemma show_int_plain: "c \<in> set (show_int i) \<Longrightarrow> digit_char c \<or> c = CHR ''-''"
  using show_nat_digits by (auto simp: show_int_def split: if_splits)

lemma show_int_head: "digit_char (hd (show_int i)) \<or> hd (show_int i) = CHR ''-''"
  using show_int_plain [of "hd (show_int i)" i] by simp

lemma digit_char_distinct:
  "digit_char c \<Longrightarrow> c \<notin> {CHR ''n'', CHR ''t'', CHR ''f'', CHR 0x22, CHR ''['', CHR ''{'', CHR '']'', CHR ''}'', CHR '',''}"
  by (auto simp: digit_char_def)

text \<open>The first character tells the kind of a value.\<close>

lemma print_json_head:
  assumes "float_repr_ok fr" and "wf_json j"
  shows "print_json fr j \<noteq> [] \<and> (case j of
      JNull \<Rightarrow> hd (print_json fr j) = CHR ''n''
    | JBool b \<Rightarrow> hd (print_json fr j) = (if b then CHR ''t'' else CHR ''f'')
    | JInt i \<Rightarrow> digit_char (hd (print_json fr j)) \<or> hd (print_json fr j) = CHR ''-''
    | JFloat x \<Rightarrow> digit_char (hd (print_json fr j)) \<or> hd (print_json fr j) = CHR ''-''
    | JStr s \<Rightarrow> hd (print_json fr j) = CHR 0x22
    | JList xs \<Rightarrow> hd (print_json fr j) = CHR ''[''
    | JObj kvs \<Rightarrow> hd (print_json fr j) = CHR ''{'')"
  using assms show_int_head
  by (cases j) (auto simp: json_string_def float_repr_ok_def split: pyfloat.splits)

lemma print_json_not_close:
  assumes "float_repr_ok fr" and "wf_json j"
  shows "print_json fr j \<noteq> [] \<and> hd (print_json fr j) \<notin> {CHR '']'', CHR ''}'', CHR '',''}"
  using print_json_head [OF assms] digit_char_distinct [of "hd (print_json fr j)"]
  by (cases j) (auto split: if_splits)

lemma object_item_prefix:
  assumes "\<And>r s. delim r \<Longrightarrow> delim s \<Longrightarrow> print_json fr (snd x) @ r = print_json fr (snd y) @ s \<Longrightarrow> snd x = snd y \<and> r = s"
    and "delim r" "delim s"
    and "(\<lambda>(k, v). json_string k @ '':'' @ print_json fr v) x @ r = (\<lambda>(k, v). json_string k @ '':'' @ print_json fr v) y @ s"
  shows "x = y \<and> r = s"
proof -
  have "json_string (fst x) @ ('':'' @ print_json fr (snd x) @ r) = json_string (fst y) @ ('':'' @ print_json fr (snd y) @ s)"
    using assms(4) by (simp add: case_prod_beta)
  from json_string_prefix [OF this] show ?thesis
    using assms(1) [OF assms(2,3)] by (auto simp: prod_eq_iff)
qed

lemma list_body_prefix:
  assumes ok: "float_repr_ok fr" and wf: "list_all wf_json xs" "list_all wf_json ys"
    and IH: "\<And>x y r s. x \<in> set xs \<Longrightarrow> wf_json x \<Longrightarrow> wf_json y \<Longrightarrow> delim r \<Longrightarrow> delim s \<Longrightarrow>
        print_json fr x @ r = print_json fr y @ s \<Longrightarrow> x = y \<and> r = s"
    and eq: "join '','' (map (print_json fr) xs) @ CHR '']'' # r = join '','' (map (print_json fr) ys) @ CHR '']'' # s"
  shows "xs = ys \<and> r = s"
  using eq
proof (rule join_prefix [rotated 3])
  show "x = y \<and> t = u" if "x \<in> set xs" "y \<in> set ys" "delim t" "delim u"
      "print_json fr x @ t = print_json fr y @ u" for x y t u
    using that wf by (intro IH) (auto simp: list_all_iff)
  show "print_json fr x \<noteq> [] \<and> hd (print_json fr x) \<noteq> CHR '']''" if "x \<in> set xs \<union> set ys" for x
    using print_json_not_close [OF ok, of x] wf that by (auto simp: list_all_iff)
qed simp

lemma object_body_prefix:
  assumes wf: "list_all (\<lambda>(k, v). wf_json v) xs" "list_all (\<lambda>(k, v). wf_json v) ys"
    and IH: "\<And>x v r s. x \<in> set xs \<Longrightarrow> wf_json (snd x) \<Longrightarrow> wf_json v \<Longrightarrow> delim r \<Longrightarrow> delim s \<Longrightarrow>
        print_json fr (snd x) @ r = print_json fr v @ s \<Longrightarrow> snd x = v \<and> r = s"
    and eq: "join '','' (map (\<lambda>(k, v). json_string k @ '':'' @ print_json fr v) xs) @ CHR ''}'' # r
      = join '','' (map (\<lambda>(k, v). json_string k @ '':'' @ print_json fr v) ys) @ CHR ''}'' # s"
  shows "xs = ys \<and> r = s"
  using eq
proof (rule join_prefix [rotated 3])
  show "x = y \<and> t = u" if "x \<in> set xs" "y \<in> set ys" "delim t" "delim u"
      "(\<lambda>(k, v). json_string k @ '':'' @ print_json fr v) x @ t = (\<lambda>(k, v). json_string k @ '':'' @ print_json fr v) y @ u"
      for x y t u
    using that wf IH [of x "snd y"] by (intro object_item_prefix [of fr x y]) (auto simp: list_all_iff case_prod_beta)
  show "(\<lambda>(k, v). json_string k @ '':'' @ print_json fr v) x \<noteq> []
      \<and> hd ((\<lambda>(k, v). json_string k @ '':'' @ print_json fr v) x) \<noteq> CHR ''}''" if "x \<in> set xs \<union> set ys" for x
    by (simp add: json_string_def case_prod_beta)
qed simp

text \<open>Values of different kinds have different texts.\<close>

definition json_kind :: "json \<Rightarrow> nat" where
  "json_kind j = (case j of JNull \<Rightarrow> 0 | JBool b \<Rightarrow> (if b then 1 else 2) | JInt _ \<Rightarrow> 3 | JFloat _ \<Rightarrow> 3
     | JStr _ \<Rightarrow> 4 | JList _ \<Rightarrow> 5 | JObj _ \<Rightarrow> 6)"

definition head_kind :: "char \<Rightarrow> nat" where
  "head_kind c = (if c = CHR ''n'' then 0 else if c = CHR ''t'' then 1 else if c = CHR ''f'' then 2
     else if c = CHR 0x22 then 4 else if c = CHR ''['' then 5 else if c = CHR ''{'' then 6 else 3)"

lemma head_kind_print:
  assumes "float_repr_ok fr" "wf_json j"
  shows "head_kind (hd (print_json fr j)) = json_kind j"
  using print_json_head [OF assms] digit_char_distinct [of "hd (print_json fr j)"]
  by (cases j) (auto simp: head_kind_def json_kind_def)

lemma same_kind:
  assumes "float_repr_ok fr" "wf_json a" "wf_json b" "print_json fr a @ r = print_json fr b @ s"
  shows "json_kind a = json_kind b"
proof -
  have "hd (print_json fr a @ r) = hd (print_json fr b @ s)" using assms(4) by simp
  then have "hd (print_json fr a) = hd (print_json fr b)"
    using print_json_not_close [OF assms(1)] assms(2,3) by simp
  then show ?thesis using head_kind_print assms(1-3) by metis
qed

lemma number_prefix:
  assumes ok: "float_repr_ok fr" and wf: "wf_json a" "wf_json b"
    and kind: "json_kind a = 3" "json_kind b = 3"
    and d: "delim r" "delim s" and eq: "print_json fr a @ r = print_json fr b @ s"
  shows "a = b \<and> r = s"
proof -
  have num: "list_all num_char (print_json fr j)" if "wf_json j" "json_kind j = 3" for j
    using that ok show_int_num
    by (cases j) (auto simp: json_kind_def float_repr_ok_def split: pyfloat.splits if_splits)
  have eqs: "print_json fr a = print_json fr b \<and> r = s"
    using num_prefix [OF num num d eq] wf kind by simp
  have mixed: "show_int i \<noteq> fr (Fin q)" if "is_double q" for i q
    using ok that show_int_plain [of _ i] unfolding float_repr_ok_def by metis
  have "a = b"
    using eqs wf kind ok mixed mixed [symmetric]
    by (cases a; cases b) (auto simp: json_kind_def float_repr_ok_def split: pyfloat.splits if_splits)
  then show ?thesis using eqs by simp
qed

lemma print_json_prefix:
  assumes ok: "float_repr_ok fr"
  shows "wf_json a \<Longrightarrow> wf_json b \<Longrightarrow> delim r \<Longrightarrow> delim s \<Longrightarrow> print_json fr a @ r = print_json fr b @ s \<Longrightarrow> a = b \<and> r = s"
proof (induction a arbitrary: b r s)
  case JNull
  then show ?case
    using same_kind [OF ok JNull(1,2,5)] by (cases b) (auto simp: json_kind_def split: if_splits)
next
  case (JBool x)
  then show ?case
    using same_kind [OF ok JBool(1,2,5)] by (cases b) (auto simp: json_kind_def split: if_splits)
next
  case (JInt x)
  show ?case
    using number_prefix [OF ok JInt(1-2) _ _ JInt(3-5)] same_kind [OF ok JInt(1,2,5)]
    by (simp add: json_kind_def)
next
  case (JFloat x)
  show ?case
    using number_prefix [OF ok JFloat(1-2) _ _ JFloat(3-5)] same_kind [OF ok JFloat(1,2,5)]
    by (simp add: json_kind_def)
next
  case (JStr x)
  then show ?case
    using same_kind [OF ok JStr(1,2,5)]
    by (cases b) (auto simp: json_kind_def split: if_splits dest!: json_string_prefix)
next
  case (JList xs)
  obtain ys where b: "b = JList ys"
    using same_kind [OF ok JList.prems(1,2,5)] by (cases b) (auto simp: json_kind_def split: if_splits)
  have "xs = ys \<and> r = s"
    using JList.prems b by (intro list_body_prefix [OF ok _ _ JList.IH]) auto
  then show ?case using b by simp
next
  case (JObj xs)
  obtain ys where b: "b = JObj ys"
    using same_kind [OF ok JObj.prems(1,2,5)] by (cases b) (auto simp: json_kind_def split: if_splits)
  have "xs = ys \<and> r = s"
    using JObj.prems b JObj.IH [of _ "snd _"] by (intro object_body_prefix [of xs ys fr r s]) (auto simp: snds.simps)
  then show ?case using b by simp
qed

lemma print_json_inject:
  assumes "float_repr_ok fr" "wf_json a" "wf_json b" "print_json fr a = print_json fr b"
  shows "a = b"
  using print_json_prefix [OF assms(1-3), of "[]" "[]"] assms(4) by simp

section \<open>What the conversion produces\<close>

lemma distinct_map_sort_key: "distinct (map f (sort_key g xs)) \<longleftrightarrow> distinct (map f xs)"
  by (simp add: distinct_map)

lemma wf_sort_keys [simp]: "wf_json j \<Longrightarrow> wf_json (sort_keys j)"
proof (induction j)
  case (JObj kvs)
  have "map fst (map (\<lambda>(k, v). (k, sort_keys v)) kvs) = map fst kvs"
    by (induction kvs) auto
  then have "distinct (map fst (sort_key fst (map (\<lambda>(k, v). (k, sort_keys v)) kvs)))"
    using JObj.prems by (simp only: distinct_map_sort_key wf_json.simps)
  then show ?case
    using JObj by (fastforce simp: list_all_iff snds.simps)
qed (auto simp: list_all_iff)

fun wf_pyval :: "pyval \<Rightarrow> bool" where
  "wf_pyval (PFloat x) = wf_float x"
| "wf_pyval (PEnum v) = wf_pyval v"
| "wf_pyval (PDataclass fs) = (distinct (map fst fs) \<and> list_all (\<lambda>(n, v). wf_pyval v) fs)"
| "wf_pyval (PDict kvs) = list_all (\<lambda>(k, v). wf_pyval v) kvs"
| "wf_pyval (PList xs) = list_all wf_pyval xs"
| "wf_pyval (PTuple xs) = list_all wf_pyval xs"
| "wf_pyval (PSet xs) = list_all wf_pyval xs"
| "wf_pyval _ = True"

lemma wf_float_of_string: "float_of_string s = Some x \<Longrightarrow> wf_float x"
proof -
  have neg: "wf_float (fneg y)" if "wf_float y" for y
    using that by (cases y) (auto simp: wf_float_def)
  assume "float_of_string s = Some x"
  then show ?thesis
    by (auto simp: float_of_string_def Let_def neg split: if_splits prod.splits) (auto simp: wf_float_def)
qed

lemma wf_py_float: "wf_pyval v \<Longrightarrow> py_float v = Inr x \<Longrightarrow> wf_float x"
  by (cases v rule: py_float.cases)
     (auto simp: float_parsed_def wf_float_of_string split: if_splits option.splits, auto simp: wf_float_def)

lemma dict_build_wf:
  assumes "distinct (map fst d)" "list_all (\<lambda>(k, j). wf_json j) d" "list_all (\<lambda>(k, j). wf_json j) kvs"
  shows "wf_json (JObj (foldl (\<lambda>d (k, j). AList.update k j d) d kvs))"
  using assms
proof (induction kvs arbitrary: d)
  case (Cons p kvs)
  obtain k j where p: "p = (k, j)" by (cases p)
  have "set (AList.update k j d) \<subseteq> insert (k, j) (set d)"
    by (induction d) auto
  then have "list_all (\<lambda>(k, j). wf_json j) (AList.update k j d)"
    using Cons.prems p by (auto simp: list_all_iff)
  then show ?case
    using Cons p by (simp add: distinct_update)
qed simp

lemma wf_to_jsonable [simp]: "wf_pyval v \<Longrightarrow> wf_json (to_jsonable fr orr v)"
proof (induction v)
  case (PFloat x)
  then show ?case by (cases x) (auto simp: wf_float_def)
next
  case (PDataclass fs)
  have "map fst (map (\<lambda>(n, v). (n, to_jsonable fr orr v)) fs) = map fst fs"
    by (induction fs) auto
  moreover have "list_all (\<lambda>(k, j). wf_json j) (map (\<lambda>(n, v). (n, to_jsonable fr orr v)) fs)"
    using PDataclass by (auto simp: list_all_iff case_prod_beta snds.simps)
  ultimately show ?case using PDataclass.prems
    by (simp only: to_jsonable.simps wf_json.simps wf_pyval.simps)
next
  case (PDict kvs)
  then have "list_all (\<lambda>(k, j). wf_json j) (sort_key fst (map (\<lambda>(k, v). (str_of fr orr k, to_jsonable fr orr v)) kvs))"
    by (auto simp: list_all_iff case_prod_beta snds.simps)
  then show ?case
    by (simp only: to_jsonable.simps) (intro dict_build_wf, simp_all)
qed (auto simp: list_all_iff)

text \<open>Converting a JSON value again only sorts its keys, so that its canonical text does not change.\<close>

lemma foldl_update_distinct:
  "distinct (map fst xs) \<Longrightarrow> fst ` set xs \<inter> fst ` set d = {} \<Longrightarrow> foldl (\<lambda>d (k, j). AList.update k j d) d xs = d @ xs"
proof (induction xs arbitrary: d)
  case (Cons a xs)
  obtain k j where a: "a = (k, j)" by (cases a)
  have "k \<notin> fst ` set d" using Cons.prems a by auto
  then have "AList.update k j d = d @ [(k, j)]" by (induction d) auto
  then show ?case using Cons a by auto
qed simp

lemma sort_key_fst_map: "sort_key fst (map (\<lambda>(k, v). (k, f v)) xs) = map (\<lambda>(k, v). (k, f v)) (sort_key fst xs)"
proof (induction xs)
  case (Cons a xs)
  have "insort_key fst (fst x, f (snd x)) (map (\<lambda>(k, v). (k, f v)) ys)
      = map (\<lambda>(k, v). (k, f v)) (insort_key fst x ys)" for x ys
    by (induction ys) (auto simp: case_prod_beta)
  from this [of a "sort_key fst xs"] Cons show ?case by (cases a) simp
qed simp

lemma sort_key_twice: "sort_key f (sort_key f xs) = sort_key f xs"
  by (rule sort_key_id_if_sorted) simp

lemma sorted_keys_unique:
  assumes "distinct (map fst xs)" "distinct (map fst ys)" "map_of xs = map_of ys"
  shows "sort_key fst xs = sort_key fst ys"
proof -
  have "set xs = set ys" using assms by (metis map_of_inject_set)
  moreover have "distinct (map fst (sort_key fst xs))" "distinct (map fst (sort_key fst ys))"
    using assms by (auto simp: distinct_map_sort_key)
  ultimately show ?thesis
    by (intro map_sorted_distinct_set_unique [where f = fst]) (auto simp: distinct_map)
qed

lemma map_of_sort_key: "distinct (map fst xs) \<Longrightarrow> map_of (sort_key fst xs) = map_of xs"
  by (simp add: map_of_inject_set distinct_map_sort_key)

lemma sort_keys_idem [simp]: "sort_keys (sort_keys j) = sort_keys j"
proof (induction j rule: sort_keys.induct)
  case (2 kvs)
  have "map (\<lambda>(k, v). (k, sort_keys v)) (map (\<lambda>(k, v). (k, sort_keys v)) (sort_key fst kvs)) = map (\<lambda>(k, v). (k, sort_keys v)) (sort_key fst kvs)"
    using 2 by auto
  then show ?case by (simp only: sort_keys.simps sort_key_fst_map sort_key_twice)
qed auto

lemma sort_keys_again:
  "wf_json j \<Longrightarrow> sort_keys (to_jsonable fr orr (py_of_json j)) = sort_keys j"
proof (induction j rule: wf_json.induct)
  case (3 kvs)
  let ?T = "\<lambda>v. to_jsonable fr orr (py_of_json v)"
  let ?conv = "map (\<lambda>(k, v). (k, ?T v)) kvs"
  have conv: "map (\<lambda>(k, v). (str_of fr orr k, to_jsonable fr orr v)) (map (\<lambda>(k, v). (PStr k, py_of_json v)) kvs) = ?conv"
    by auto
  have keys: "map fst ?conv = map fst kvs" by (induction kvs) auto
  have "distinct (map fst (sort_key fst ?conv))"
    using 3 keys by (simp only: distinct_map_sort_key wf_json.simps)
  then have "to_jsonable fr orr (py_of_json (JObj kvs)) = JObj (sort_key fst ?conv)"
    using foldl_update_distinct [of "sort_key fst ?conv" "[]"] conv by (simp del: map_map)
  then have "sort_keys (to_jsonable fr orr (py_of_json (JObj kvs)))
      = JObj (sort_key fst (map (\<lambda>(k, v). (k, sort_keys v)) (sort_key fst ?conv)))"
    by simp
  also have "\<dots> = JObj (sort_key fst (map (\<lambda>(k, v). (k, sort_keys v)) ?conv))"
    by (simp only: sort_key_fst_map sort_key_twice)
  also have "map (\<lambda>(k, v). (k, sort_keys v)) ?conv = map (\<lambda>(k, v). (k, sort_keys v)) kvs"
    using 3 by (auto simp: list_all_iff)
  finally show ?case by simp
qed (auto simp: list_all_iff split: pyfloat.splits)

lemma canonical_json_again:
  "wf_pyval v \<Longrightarrow> canonical_json fr orr (py_of_json (to_jsonable fr orr v)) = canonical_json fr orr v"
  by (simp add: canonical_json_def json_dumps_def sort_keys_again)

lemma canonical_json_determines:
  assumes "float_repr_ok fr" "wf_pyval v" "wf_pyval w"
    and "canonical_json fr orr v = canonical_json fr orr w"
  shows "sort_keys (to_jsonable fr orr v) = sort_keys (to_jsonable fr orr w)"
  using assms unfolding canonical_json_def json_dumps_def
  by (intro print_json_inject [OF assms(1)]) auto

lemma sort_keys_map_of:
  assumes "distinct (map fst d)" "distinct (map fst d')" "sort_keys (JObj d) = sort_keys (JObj d')"
  shows "map_option sort_keys (map_of d k) = map_option sort_keys (map_of d' k)"
proof -
  have "map_of (map (\<lambda>(k, v). (k, sort_keys v)) d) = map_of (map (\<lambda>(k, v). (k, sort_keys v)) d')"
  proof -
    have keys: "map fst (map (\<lambda>(k, v). (k, sort_keys v)) x) = map fst x" for x :: json_object by auto
    have "map_of (sort_key fst (map (\<lambda>(k, v). (k, sort_keys v)) x)) = map_of (map (\<lambda>(k, v). (k, sort_keys v)) x)"
      if "distinct (map fst x)" for x :: json_object
      by (rule map_of_sort_key) (simp only: keys that)
    moreover have "sort_key fst (map (\<lambda>(k, v). (k, sort_keys v)) d) = sort_key fst (map (\<lambda>(k, v). (k, sort_keys v)) d')"
      using assms(3) by (simp only: sort_keys.simps json.inject)
    ultimately show ?thesis using assms(1,2) by metis
  qed
  moreover have "map_of (map (\<lambda>(k, v). (k, sort_keys v)) x) k = map_option sort_keys (map_of x k)" for x :: json_object
    by (induction x) (auto simp: fun_upd_apply)
  ultimately show ?thesis by metis
qed

lemma sort_keys_scalar: "sort_keys x = JNull \<longleftrightarrow> x = JNull" "sort_keys x = JStr s \<longleftrightarrow> x = JStr s"
  by (cases x; auto)+

text \<open>What \<^verbatim>\<open>json.loads\<close> returns for any text: every number with a point or an exponent is a double, \<^verbatim>\<open>NaN\<close> and the
  infinities among them.\<close>

fun json_doubles :: "json \<Rightarrow> bool" where
  "json_doubles (JFloat x) \<longleftrightarrow> wf_float x"
| "json_doubles (JList xs) \<longleftrightarrow> list_all json_doubles xs"
| "json_doubles (JObj d) \<longleftrightarrow> list_all (\<lambda>(k, v). json_doubles v) d"
| "json_doubles _ \<longleftrightarrow> True"

lemma wf_doubles: "wf_json j \<Longrightarrow> json_doubles j"
  by (induction j) (auto simp: list_all_iff wf_float_def split: pyfloat.splits)

lemma doubles_wf: "json_doubles j \<Longrightarrow> wf_pyval (py_of_json j)"
  by (induction j) (auto simp: list_all_iff)

text \<open>The members of an object, read and converted again.\<close>

lemma to_jsonable_object:
  assumes "distinct (map fst d)"
  obtains d' where "to_jsonable fr orr (py_of_json (JObj d)) = JObj d'" "distinct (map fst d')"
    "\<And>k. map_of d' k = map_option (\<lambda>v. to_jsonable fr orr (py_of_json v)) (map_of d k)"
proof -
  define kvs where "kvs = map (\<lambda>(k, v). (k, to_jsonable fr orr (py_of_json v))) d"
  have conv: "map (\<lambda>(k, v). (str_of fr orr k, to_jsonable fr orr v)) (map (\<lambda>(k, v). (PStr k, py_of_json v)) d) = kvs"
    by (simp add: kvs_def split_def)
  have "map fst kvs = map fst d" by (simp add: kvs_def split_def)
  then have keys: "distinct (map fst kvs)" using assms by simp
  then have dist: "distinct (map fst (sort_key fst kvs))" by (simp only: distinct_map_sort_key)
  have "to_jsonable fr orr (py_of_json (JObj d)) = JObj (sort_key fst kvs)"
    using foldl_update_distinct [of "sort_key fst kvs" "[]"] dist by (simp add: conv del: map_map)
  moreover have "map_of (sort_key fst kvs) = map_of kvs" using map_of_sort_key keys by blast
  moreover have "map_of kvs k = map_option (\<lambda>v. to_jsonable fr orr (py_of_json v)) (map_of d k)" for k
    by (simp add: kvs_def map_of_map)
  ultimately show ?thesis using dist that by simp
qed

text \<open>A JSON value, read and converted again, is the value with its keys in order.\<close>

lemma to_jsonable_json: "wf_json j \<Longrightarrow> to_jsonable fr orr (py_of_json j) = sort_keys j"
proof (induction j rule: wf_json.induct)
  case (3 kvs)
  let ?conv = "map (\<lambda>(k, v). (k, sort_keys v)) kvs"
  have conv: "map (\<lambda>(k, v). (str_of fr orr k, to_jsonable fr orr v)) (map (\<lambda>(k, v). (PStr k, py_of_json v)) kvs) = ?conv"
    using 3 by (auto simp: list_all_iff)
  have keys: "map fst ?conv = map fst kvs" by (induction kvs) auto
  have "distinct (map fst (sort_key fst ?conv))"
    using 3 keys by (simp only: distinct_map_sort_key wf_json.simps)
  then show ?case using foldl_update_distinct [of "sort_key fst ?conv" "[]"] conv by (simp del: map_map)
qed (auto simp: list_all_iff split: pyfloat.splits)

lemma canonical_json_of_json: "wf_json j \<Longrightarrow> canonical_json fr orr (py_of_json j) = json_dumps fr j"
  by (simp add: canonical_json_def json_dumps_def to_jsonable_json)

section \<open>Properties\<close>

text \<open>C35: A digest binds its payload.  Two values with the same digest have the same JSON form, up to
  the order of object keys, unless they exhibit a collision of the hash function itself.\<close>

theorem digest_binds:
  assumes "float_repr_ok fr" and "wf_pyval v" and "wf_pyval w"
    and "digest_value sha fr orr v = digest_value sha fr orr w"
  shows "sort_keys (to_jsonable fr orr v) = sort_keys (to_jsonable fr orr w)
    \<or> (\<exists>s t. s = canonical_json fr orr v \<and> t = canonical_json fr orr w \<and> s \<noteq> t \<and> sha s = sha t)"
  using assms canonical_json_determines unfolding digest_value_def by blast

text \<open>A concrete float text that satisfies \<open>float_repr_ok\<close>: numerator and denominator.\<close>

definition ratio_repr :: "pyfloat \<Rightarrow> string" where
  "ratio_repr x = (case x of Fin q \<Rightarrow> show_int (fst (quotient_of q)) @ ''.'' @ show_int (snd (quotient_of q)) | _ \<Rightarrow> [])"

lemma ratio_repr_ok: "float_repr_ok ratio_repr"
proof -
  have dot: "CHR ''.'' \<notin> set (show_int i)" for i
    using show_int_plain [of "CHR ''.''" i] by (auto simp: digit_char_def)
  have inj: "a = b" if "ratio_repr (Fin a) = ratio_repr (Fin b)" for a b
  proof -
    have "takeWhile (\<lambda>c. c \<noteq> CHR ''.'') (ratio_repr (Fin q)) = show_int (fst (quotient_of q))"
      and "dropWhile (\<lambda>c. c \<noteq> CHR ''.'') (ratio_repr (Fin q)) = ''.'' @ show_int (snd (quotient_of q))" for q
      using dot [of "fst (quotient_of q)"] by (auto simp: ratio_repr_def takeWhile_append dropWhile_append)
    with that have "show_int (fst (quotient_of a)) = show_int (fst (quotient_of b))"
      "''.'' @ show_int (snd (quotient_of a)) = ''.'' @ show_int (snd (quotient_of b))"
      by metis+
    then show ?thesis
      by (intro quotient_of_inject) (simp add: prod_eq_iff)
  qed
  have num: "list_all num_char (show_int i)" for i
    by (rule show_int_num)
  show ?thesis
    unfolding float_repr_ok_def
    using inj num show_int_head by (auto simp: ratio_repr_def num_char_def hd_append digit_char_def)
qed

theorem digest_binds_witness:
  "sort_keys (to_jsonable ratio_repr (\<lambda>_. []) (PDict [(PStr ''b'', PInt 1), (PStr ''a'', PNone)]))
     = sort_keys (to_jsonable ratio_repr (\<lambda>_. []) (PDict [(PStr ''a'', PNone), (PStr ''b'', PInt 1)]))
   \<or> (\<exists>s t. s = canonical_json ratio_repr (\<lambda>_. []) (PDict [(PStr ''b'', PInt 1), (PStr ''a'', PNone)])
         \<and> t = canonical_json ratio_repr (\<lambda>_. []) (PDict [(PStr ''a'', PNone), (PStr ''b'', PInt 1)])
         \<and> s \<noteq> t \<and> id s = id t)"
  by (rule digest_binds [OF ratio_repr_ok]) (simp_all add: digest_value_def canonical_json_def)

text \<open>A cell that a spreadsheet would evaluate.\<close>

definition formula_cell :: "string \<Rightarrow> bool" where
  "formula_cell s \<longleftrightarrow> lstrip s \<noteq> [] \<and> hd (lstrip s) \<in> {CHR ''='', CHR ''+'', CHR ''-'', CHR ''@''}"

text \<open>\<^verbatim>\<open>csv_safe\<close> neutralises every formula: the exported text is never one, it is the
  original text with at most an apostrophe in front, and text that was harmless is not changed.\<close>

theorem csv_safe_neutralises:
  "\<exists>t. csv_safe (PStr s) = PStr t \<and> \<not> formula_cell t \<and> t = (if formula_cell s then CHR 0x27 # s else s)"
  by (auto simp: formula_cell_def Let_def lstrip_def py_space_def)

end
