(* ===== verification/Guardrails.thy ===== *)
theory Guardrails
  imports Pyval
begin

text \<open>
  \<^verbatim>\<open>agent_roi/control/guardrails.py\<close>: the execution limits and their checks.  The constructor
  takes the values as the caller passes them, of any type, and either raises or yields a record
  whose fields are in range (\<open>wf_guardrails\<close>).
\<close>

record guardrails =
  max_steps :: int
  max_tool_calls :: int
  max_cost_usd :: pyfloat
  deterministic :: bool
  allowed_tools :: "string set option"
  require_registered_tools :: bool
  require_bound_approval_grants :: bool

text \<open>Iteration over a value: the items of a sequence or set, the keys of a dictionary, the
  characters of a string.\<close>

fun py_iter :: "pyval \<Rightarrow> exc + pyval list" where
  "py_iter (PList xs) = Inr xs"
| "py_iter (PTuple xs) = Inr xs"
| "py_iter (PSet xs) = Inr xs"
| "py_iter (PDict kvs) = Inr (map fst kvs)"
| "py_iter (PStr s) = Inr (map (\<lambda>c. PStr [c]) s)"
| "py_iter (PBytes s) = Inr (map (\<lambda>c. PInt (of_char c)) s)"
| "py_iter _ = Inl (TypeError ''object is not iterable'')"

fun normalize_tool_names :: "pyval list \<Rightarrow> exc + string list" where
  "normalize_tool_names [] = Inr []"
| "normalize_tool_names (v # vs) =
     (case v of
        PStr s \<Rightarrow> if blank s then Inl (ValueError ''allowed_tools must contain only non-empty strings'')
          else (case normalize_tool_names vs of Inl e \<Rightarrow> Inl e | Inr names \<Rightarrow> Inr (strip s # names))
      | _ \<Rightarrow> Inl (ValueError ''allowed_tools must contain only non-empty strings''))"

definition init_allowed_tools :: "pyval \<Rightarrow> exc + string set option" where
  "init_allowed_tools v =
     (if v = PNone then Inr None
      else if is_str v then Inl (ValueError ''allowed_tools must be an iterable of non-empty tool names'')
      else case py_iter v of Inl e \<Rightarrow> Inl e
        | Inr vs \<Rightarrow> (case normalize_tool_names vs of Inl e \<Rightarrow> Inl e | Inr names \<Rightarrow> Inr (Some (set names))))"

text \<open>\<^verbatim>\<open>Guardrails.__post_init__\<close>.\<close>

definition guardrails_init ::
    "pyval \<Rightarrow> pyval \<Rightarrow> pyval \<Rightarrow> pyval \<Rightarrow> pyval \<Rightarrow> pyval \<Rightarrow> pyval \<Rightarrow> exc + guardrails" where
  "guardrails_init steps calls cost det tools reg bound =
     (if is_bool steps \<or> \<not> is_int steps \<or> int_of_pyval steps < 1
        then Inl (ValueError ''max_steps must be an integer >= 1'')
      else if is_bool calls \<or> \<not> is_int calls \<or> int_of_pyval calls < 0
        then Inl (ValueError ''max_tool_calls must be an integer >= 0'')
      else if \<not> is_bool det then Inl (ValueError ''deterministic must be a boolean'')
      else if \<not> is_bool reg then Inl (ValueError ''require_registered_tools must be a boolean'')
      else if \<not> is_bool bound then Inl (ValueError ''require_bound_approval_grants must be a boolean'')
      else case py_float cost of Inl e \<Rightarrow> Inl e
        | Inr max_cost \<Rightarrow>
            if \<not> is_finite max_cost \<or> flt max_cost (Fin 0)
            then Inl (ValueError ''max_cost_usd must be finite and >= 0'')
            else case init_allowed_tools tools of Inl e \<Rightarrow> Inl e
              | Inr names \<Rightarrow> Inr \<lparr>max_steps = int_of_pyval steps, max_tool_calls = int_of_pyval calls,
                  max_cost_usd = max_cost, deterministic = (det = PBool True), allowed_tools = names,
                  require_registered_tools = (reg = PBool True),
                  require_bound_approval_grants = (bound = PBool True)\<rparr>)"

text \<open>Only \<^verbatim>\<open>TypeError\<close> and \<^verbatim>\<open>ValueError\<close> of the conversion become a violation; an
  \<^verbatim>\<open>OverflowError\<close> (an integer too large for a float) passes through.\<close>

definition validate_cost_amount :: "pyval \<Rightarrow> exc + pyfloat" where
  "validate_cost_amount v =
     (case py_float v of
        Inl (OverflowError m) \<Rightarrow> Inl (OverflowError m)
      | Inl _ \<Rightarrow> Inl (GuardrailViolation ''Cost must be numeric'')
      | Inr amount \<Rightarrow> if \<not> is_finite amount \<or> flt amount (Fin 0)
          then Inl (GuardrailViolation ''Cost must be finite and nonnegative'')
          else Inr amount)"

definition validate_tool_allowed :: "guardrails \<Rightarrow> pyval \<Rightarrow> exc + unit" where
  "validate_tool_allowed g v =
     (case v of
        PStr name \<Rightarrow>
          if blank name then Inl (GuardrailViolation ''Tool name must be a non-empty string'')
          else (case allowed_tools g of
              None \<Rightarrow> Inr ()
            | Some names \<Rightarrow> if name \<notin> names then Inl (GuardrailViolation (''Tool is not allowlisted: '' @ name))
                else Inr ())
      | _ \<Rightarrow> Inl (GuardrailViolation ''Tool name must be a non-empty string''))"

definition validate_limits :: "guardrails \<Rightarrow> int \<Rightarrow> int \<Rightarrow> pyfloat \<Rightarrow> exc + unit" where
  "validate_limits g steps tool_calls cost_usd =
     (if steps < 0 \<or> tool_calls < 0 then Inl (GuardrailViolation ''Execution counters cannot be negative'')
      else case validate_cost_amount (PFloat cost_usd) of Inl e \<Rightarrow> Inl e
        | Inr cost \<Rightarrow>
            if steps > max_steps g then Inl (GuardrailViolation ''Max steps exceeded'')
            else if tool_calls > max_tool_calls g then Inl (GuardrailViolation ''Max tool calls exceeded'')
            else if flt (max_cost_usd g) cost then Inl (GuardrailViolation ''Max cost exceeded'')
            else Inr ())"

section \<open>What the checks establish\<close>

definition wf_guardrails :: "guardrails \<Rightarrow> bool" where
  "wf_guardrails g \<longleftrightarrow> 1 \<le> max_steps g \<and> 0 \<le> max_tool_calls g
     \<and> is_finite (max_cost_usd g) \<and> fle (Fin 0) (max_cost_usd g)
     \<and> (case allowed_tools g of None \<Rightarrow> True | Some names \<Rightarrow> finite names \<and> (\<forall>n\<in>names. \<not> blank n \<and> strip n = n))"

text \<open>The counters the limits admit.\<close>

definition within_limits :: "guardrails \<Rightarrow> int \<Rightarrow> int \<Rightarrow> pyfloat \<Rightarrow> bool" where
  "within_limits g steps calls cost \<longleftrightarrow> 0 \<le> steps \<and> steps \<le> max_steps g \<and> 0 \<le> calls \<and> calls \<le> max_tool_calls g
     \<and> is_finite cost \<and> fle (Fin 0) cost \<and> fle cost (max_cost_usd g)"

lemma normalize_tool_names_ok:
  "normalize_tool_names vs = Inr names \<Longrightarrow> n \<in> set names \<Longrightarrow> \<not> blank n \<and> strip n = n"
  by (induction vs arbitrary: names) (auto split: pyval.splits if_splits sum.splits)

lemma init_allowed_tools_ok:
  "init_allowed_tools v = Inr (Some names) \<Longrightarrow> finite names \<and> (\<forall>n\<in>names. \<not> blank n \<and> strip n = n)"
  using normalize_tool_names_ok by (auto simp: init_allowed_tools_def split: if_splits sum.splits)

lemma guardrails_init_wf:
  "guardrails_init a b c d e f h = Inr g \<Longrightarrow> wf_guardrails g"
proof -
  assume init: "guardrails_init a b c d e f h = Inr g"
  obtain q names where q: "\<not> q < 0" and names: "init_allowed_tools e = Inr names"
    and g: "1 \<le> max_steps g" "0 \<le> max_tool_calls g" "max_cost_usd g = Fin q" "allowed_tools g = names"
    using init by (cases "py_float c") (auto simp: guardrails_init_def split: if_splits sum.splits elim!: is_finite.elims)
  then show ?thesis
    using init_allowed_tools_ok [of e] by (cases names) (auto simp: wf_guardrails_def)
qed

lemma validate_cost_amount_Inr:
  "validate_cost_amount v = Inr c \<longleftrightarrow> py_float v = Inr c \<and> is_finite c \<and> fle (Fin 0) c"
  by (cases c) (auto simp: validate_cost_amount_def split: sum.splits exc.splits if_splits)

lemma validate_cost_amount_float:
  "validate_cost_amount (PFloat c) = Inr d \<longleftrightarrow> d = c \<and> is_finite c \<and> fle (Fin 0) c"
  by (auto simp: validate_cost_amount_Inr)

lemma validate_limits_Inr:
  assumes "is_finite (max_cost_usd g)"
  shows "validate_limits g steps calls cost = Inr u \<longleftrightarrow> within_limits g steps calls cost"
  using assms
  by (cases cost; cases "max_cost_usd g")
     (auto simp: validate_limits_def within_limits_def validate_cost_amount_def split: sum.splits if_splits)

lemma validate_tool_allowed_Inr:
  "validate_tool_allowed g (PStr n) = Inr u \<longleftrightarrow>
     \<not> blank n \<and> (case allowed_tools g of None \<Rightarrow> True | Some names \<Rightarrow> n \<in> names)"
  by (auto simp: validate_tool_allowed_def split: option.splits)

section \<open>Properties\<close>

text \<open>The limit check is exact.  On limits the constructor accepted, \<^verbatim>\<open>validate_limits\<close> succeeds
  precisely when the step and call counters and the (finite, nonnegative) cost are within them.\<close>

theorem validate_limits_exact:
  assumes "guardrails_init a b c d e f h = Inr g"
  shows "validate_limits g steps calls cost = Inr () \<longleftrightarrow> within_limits g steps calls cost"
  using guardrails_init_wf [OF assms] by (simp add: validate_limits_Inr wf_guardrails_def)

theorem validate_limits_exact_witness:
  "\<exists>g. guardrails_init (PInt 10) (PInt 20) (PInt 1) (PBool True) (PList [PStr '' lookup '']) (PBool False) (PBool False) = Inr g
     \<and> (validate_limits g 3 20 (Fin 1) = Inr () \<longleftrightarrow> within_limits g 3 20 (Fin 1))
     \<and> validate_limits g 3 20 (Fin 1) = Inr () \<and> allowed_tools g = Some {''lookup''}"
proof -
  define g where "g = \<lparr>max_steps = 10, max_tool_calls = 20, max_cost_usd = Fin 1, deterministic = True,
    allowed_tools = Some {''lookup''}, require_registered_tools = False, require_bound_approval_grants = False\<rparr>"
  have one: "rnd (of_int 1) = Fin 1" by (subst rnd_of_int) auto
  have init: "guardrails_init (PInt 10) (PInt 20) (PInt 1) (PBool True) (PList [PStr '' lookup '']) (PBool False) (PBool False) = Inr g"
    using one by (simp add: guardrails_init_def init_allowed_tools_def g_def blank_def strip_def lstrip_def rstrip_def py_space_def)
  have "within_limits g 3 20 (Fin 1)" by (simp add: within_limits_def g_def)
  then show ?thesis
    using init validate_limits_exact [OF init, of 3 20 "Fin 1"] by (intro exI [of _ g]) (simp add: g_def)
qed

end
