(* ===== verification/Decision.thy ===== *)
theory Decision
  imports Serialization
begin

text \<open>
  \<^verbatim>\<open>agent_roi/control/decision.py\<close>: the confidence score of a run and the decision taken on it, in
  IEEE arithmetic, operation by operation.  The exponential of \<^verbatim>\<open>math.exp\<close> is an argument
  (\<open>pexp\<close>); \<open>exp_ok\<close> is what is used about it on the nonpositive arguments it receives.
\<close>

datatype decision_outcome = ACCEPT | ABSTAIN | HUMAN_REVIEW | RETRY

record confidence_inputs =
  prob :: pyval
  margin :: pyval
  z_score :: pyval
  entropy :: pyval
  llm_self_score :: pyval

record decision_policy =
  min_confidence :: pyfloat
  abstain_action :: decision_outcome
  w_prob :: pyfloat
  w_margin :: pyfloat
  w_z :: pyfloat
  w_entropy :: pyfloat
  w_llm :: pyfloat

definition outcome_of_string :: "string \<Rightarrow> exc + decision_outcome" where
  "outcome_of_string s =
     (if s = ''accept'' then Inr ACCEPT else if s = ''abstain'' then Inr ABSTAIN
      else if s = ''human_review'' then Inr HUMAN_REVIEW else if s = ''retry'' then Inr RETRY
      else Inl (ValueError ''abstain_action must be one of: accept, abstain, human_review, retry''))"

definition finite_number :: "pyval \<Rightarrow> string \<Rightarrow> exc + pyfloat" where
  "finite_number v name =
     (case py_float v of
        Inl (OverflowError m) \<Rightarrow> Inl (OverflowError m)
      | Inl _ \<Rightarrow> Inl (ValueError (name @ '' must be numeric''))
      | Inr x \<Rightarrow> if is_finite x then Inr x else Inl (ValueError (name @ '' must be finite'')))"

definition weight_denominator :: "decision_policy \<Rightarrow> pyfloat" where
  "weight_denominator p = fadd (fadd (fadd (fadd (w_prob p) (w_margin p)) (w_z p)) (w_entropy p)) (w_llm p)"

definition init_weight :: "pyval \<Rightarrow> string \<Rightarrow> exc + pyfloat" where
  "init_weight v name = (case finite_number v name of Inl e \<Rightarrow> Inl e
     | Inr x \<Rightarrow> if flt x (Fin 0) then Inl (ValueError (name @ '' must be >= 0'')) else Inr x)"

text \<open>\<^verbatim>\<open>DecisionPolicy.__post_init__\<close>, the weights in the source's order.\<close>

definition decision_policy_init ::
    "pyval \<Rightarrow> string \<Rightarrow> pyval \<Rightarrow> pyval \<Rightarrow> pyval \<Rightarrow> pyval \<Rightarrow> pyval \<Rightarrow> exc + decision_policy" where
  "decision_policy_init minc action wp wm wz we wl =
     (case finite_number minc ''min_confidence'' of Inl e \<Rightarrow> Inl e | Inr minimum \<Rightarrow>
      if \<not> (fle (Fin 0) minimum \<and> fle minimum (Fin 1))
      then Inl (ValueError ''min_confidence must be between 0 and 1'')
      else case outcome_of_string action of Inl e \<Rightarrow> Inl e | Inr outcome \<Rightarrow>
      (case init_weight wp ''w_prob'' of Inl e \<Rightarrow> Inl e | Inr p \<Rightarrow>
      (case init_weight wm ''w_margin'' of Inl e \<Rightarrow> Inl e | Inr m \<Rightarrow>
      (case init_weight wz ''w_z'' of Inl e \<Rightarrow> Inl e | Inr z \<Rightarrow>
      (case init_weight we ''w_entropy'' of Inl e \<Rightarrow> Inl e | Inr n \<Rightarrow>
      (case init_weight wl ''w_llm'' of Inl e \<Rightarrow> Inl e | Inr l \<Rightarrow>
        let policy = \<lparr>min_confidence = minimum, abstain_action = outcome, w_prob = p, w_margin = m,
                      w_z = z, w_entropy = n, w_llm = l\<rparr>
        in if fle (weight_denominator policy) (Fin 0)
           then Inl (ValueError ''At least one confidence weight must be > 0'')
           else Inr policy))))))"

definition clamp01 :: "pyfloat \<Rightarrow> pyfloat" where
  "clamp01 v = fmax (Fin 0) (fmin (Fin 1) v)"

text \<open>The division cannot fail: the divisor is at least one.\<close>

definition stable_sigmoid :: "(pyfloat \<Rightarrow> pyfloat) \<Rightarrow> pyfloat \<Rightarrow> exc + pyfloat" where
  "stable_sigmoid pexp v =
     (if fle (Fin 0) v
      then let z = pexp (fneg v) in
        (case fdiv (Fin 1) (fadd (Fin 1) z) of Some r \<Rightarrow> Inr r | None \<Rightarrow> Inl (ZeroDivisionError ''float division by zero''))
      else let z = pexp v in
        (case fdiv z (fadd (Fin 1) z) of Some r \<Rightarrow> Inr r | None \<Rightarrow> Inl (ZeroDivisionError ''float division by zero'')))"

text \<open>One optional signal: skipped when absent, otherwise checked and folded into the sum.\<close>

definition score_signal ::
    "pyval \<Rightarrow> string \<Rightarrow> (pyfloat \<Rightarrow> pyfloat \<Rightarrow> exc + pyfloat) \<Rightarrow> exc + pyfloat \<Rightarrow> exc + pyfloat" where
  "score_signal v name f acc = (case acc of Inl e \<Rightarrow> Inl e | Inr s \<Rightarrow>
     if v = PNone then Inr s
     else case finite_number v name of Inl e \<Rightarrow> Inl e | Inr x \<Rightarrow> f s x)"

definition entropy_normalized :: "pyfloat \<Rightarrow> pyfloat" where
  "entropy_normalized x = (case fdiv x (Fin (5/2)) of Some r \<Rightarrow> clamp01 r | None \<Rightarrow> NaN)"

text \<open>The five optional signals, in the source's order; the entropy is a penalty.\<close>

definition prob_signal :: "decision_policy \<Rightarrow> confidence_inputs \<Rightarrow> exc + pyfloat \<Rightarrow> exc + pyfloat" where
  "prob_signal p x = score_signal (prob x) ''prob'' (\<lambda>s v. Inr (fadd s (fmul (w_prob p) (clamp01 v))))"

definition margin_signal :: "decision_policy \<Rightarrow> confidence_inputs \<Rightarrow> exc + pyfloat \<Rightarrow> exc + pyfloat" where
  "margin_signal p x = score_signal (margin x) ''margin'' (\<lambda>s v. Inr (fadd s (fmul (w_margin p) (clamp01 v))))"

definition z_signal ::
    "(pyfloat \<Rightarrow> pyfloat) \<Rightarrow> decision_policy \<Rightarrow> confidence_inputs \<Rightarrow> exc + pyfloat \<Rightarrow> exc + pyfloat" where
  "z_signal pexp p x = score_signal (z_score x) ''z_score''
     (\<lambda>s v. case stable_sigmoid pexp v of Inl e \<Rightarrow> Inl e | Inr g \<Rightarrow> Inr (fadd s (fmul (w_z p) g)))"

definition entropy_signal :: "decision_policy \<Rightarrow> confidence_inputs \<Rightarrow> exc + pyfloat \<Rightarrow> exc + pyfloat" where
  "entropy_signal p x = score_signal (entropy x) ''entropy''
     (\<lambda>s v. Inr (fsub s (fmul (w_entropy p) (entropy_normalized v))))"

definition llm_signal :: "decision_policy \<Rightarrow> confidence_inputs \<Rightarrow> exc + pyfloat \<Rightarrow> exc + pyfloat" where
  "llm_signal p x = score_signal (llm_self_score x) ''llm_self_score''
     (\<lambda>s v. Inr (fadd s (fmul (w_llm p) (clamp01 v))))"

definition score_sum :: "(pyfloat \<Rightarrow> pyfloat) \<Rightarrow> decision_policy \<Rightarrow> confidence_inputs \<Rightarrow> exc + pyfloat" where
  "score_sum pexp p x =
     llm_signal p x (entropy_signal p x (z_signal pexp p x (margin_signal p x (prob_signal p x (Inr (Fin 0))))))"

definition score :: "(pyfloat \<Rightarrow> pyfloat) \<Rightarrow> decision_policy \<Rightarrow> confidence_inputs \<Rightarrow> exc + pyfloat" where
  "score pexp p x = (case score_sum pexp p x of Inl e \<Rightarrow> Inl e
     | Inr s \<Rightarrow> (case fdiv s (weight_denominator p) of
         None \<Rightarrow> Inl (ZeroDivisionError ''float division by zero'') | Some q \<Rightarrow> Inr (clamp01 q)))"

definition decide :: "(pyfloat \<Rightarrow> pyfloat) \<Rightarrow> decision_policy \<Rightarrow> confidence_inputs \<Rightarrow> exc + decision_outcome" where
  "decide pexp p x = (case score pexp p x of Inl e \<Rightarrow> Inl e
     | Inr s \<Rightarrow> Inr (if fle (min_confidence p) s then ACCEPT else abstain_action p))"

section \<open>Bounds and monotonicity of the arithmetic\<close>

definition exp_ok :: "(pyfloat \<Rightarrow> pyfloat) \<Rightarrow> bool" where
  "exp_ok pexp \<longleftrightarrow> (\<forall>q\<le>0. \<exists>r. pexp (Fin q) = Fin r \<and> 0 \<le> r \<and> r \<le> 1)"

definition wf_policy :: "decision_policy \<Rightarrow> bool" where
  "wf_policy p \<longleftrightarrow> (\<forall>w\<in>{w_prob p, w_margin p, w_z p, w_entropy p, w_llm p}. is_finite w \<and> fle (Fin 0) w)
     \<and> flt (Fin 0) (weight_denominator p)"

lemma clamp01_range: "\<exists>r. clamp01 v = Fin r \<and> 0 \<le> r \<and> r \<le> 1"
  by (cases v) (auto simp: clamp01_def fmax_def fmin_def)

lemma clamp01_mono: "fle v v' \<Longrightarrow> fle (clamp01 v) (clamp01 v')"
  by (cases v; cases v') (auto simp: clamp01_def fmax_def fmin_def)

lemma nonneg_cases: "fle (Fin 0) v \<Longrightarrow> (\<exists>q. v = Fin q \<and> 0 \<le> q) \<or> v = PInf"
  by (cases v) auto

lemma fadd_nonneg: "fle (Fin 0) a \<Longrightarrow> fle (Fin 0) b \<Longrightarrow> fle (Fin 0) (fadd a b)"
  using rnd_nonneg by (auto dest!: nonneg_cases)

lemma fmul_nonneg: "is_finite a \<Longrightarrow> is_finite b \<Longrightarrow> fle (Fin 0) a \<Longrightarrow> fle (Fin 0) b \<Longrightarrow> fle (Fin 0) (fmul a b)"
  using rnd_nonneg by (auto elim!: is_finite.elims)

lemma fmul_mono:
  "is_finite w \<Longrightarrow> fle (Fin 0) w \<Longrightarrow> is_finite a \<Longrightarrow> is_finite b \<Longrightarrow> fle a b \<Longrightarrow> fle (fmul w a) (fmul w b)"
  by (auto elim!: is_finite.elims intro!: rnd_mono mult_left_mono)

text \<open>Addition is monotone where both arguments are bounded below.\<close>

lemma fadd_mono2:
  assumes "fle (Fin u) a" "fle a a'" "fle (Fin v) b" "fle b b'"
  shows "fle (fadd a b) (fadd a' b')"
  using assms by (cases a; cases a'; cases b; cases b') (auto intro!: rnd_mono)

lemma fadd_bounded: "fle (Fin u) a \<Longrightarrow> fle (Fin v) b \<Longrightarrow> fle (rnd (u + v)) (fadd a b)"
  by (cases a; cases b) (auto intro!: rnd_mono)

lemma finite_number_finite: "finite_number v n = Inr x \<Longrightarrow> is_finite x"
  by (auto simp: finite_number_def split: sum.splits exc.splits if_splits)

lemma init_weight_ok: "init_weight v n = Inr x \<Longrightarrow> is_finite x \<and> fle (Fin 0) x"
  using finite_number_finite [of v n]
  by (fastforce simp: init_weight_def split: sum.splits if_splits elim!: is_finite.elims)

lemma decision_policy_init_wf:
  assumes "decision_policy_init a b c d e f g = Inr p"
  shows "wf_policy p"
proof -
  obtain wp wm wz we wl where w: "init_weight c ''w_prob'' = Inr wp" "init_weight d ''w_margin'' = Inr wm"
      "init_weight e ''w_z'' = Inr wz" "init_weight f ''w_entropy'' = Inr we" "init_weight g ''w_llm'' = Inr wl"
    and p: "w_prob p = wp" "w_margin p = wm" "w_z p = wz" "w_entropy p = we" "w_llm p = wl"
    and den: "\<not> fle (weight_denominator p) (Fin 0)"
    using assms by (auto simp: decision_policy_init_def Let_def split: sum.splits if_splits)
  have "fle (Fin 0) (weight_denominator p)"
    using w [THEN init_weight_ok] p by (simp add: weight_denominator_def fadd_nonneg)
  then have "flt (Fin 0) (weight_denominator p)"
    using den by (cases "weight_denominator p") auto
  then show ?thesis
    using w [THEN init_weight_ok] p by (simp add: wf_policy_def)
qed

lemma stable_sigmoid_ok:
  assumes "exp_ok pexp" and "is_finite v"
  shows "\<exists>r. stable_sigmoid pexp v = Inr (Fin r) \<and> 0 \<le> r \<and> r \<le> 1"
proof -
  have arg: "\<exists>z. pexp (Fin q) = Fin z \<and> 0 \<le> z \<and> z \<le> 1" if "q \<le> 0" for q
    using assms(1) that by (simp add: exp_ok_def)
  have two: "is_double 2"
    by (rule is_double_dyadic [where m = 2 and f = 0]) auto
  have sum: "\<exists>s. fadd (Fin 1) (Fin z) = Fin s \<and> 1 \<le> s \<and> z \<le> s" if z: "0 \<le> z" "z \<le> 1" for z
  proof -
    obtain s where "rnd (1 + z) = Fin s" "1 \<le> s"
      using rnd_between_ex [OF is_double_one two, of "1 + z"] z by auto
    then show ?thesis using z by auto
  qed
  have quot: "\<exists>r. fdiv (Fin a) (Fin s) = Some (Fin r) \<and> 0 \<le> r \<and> r \<le> 1" if as: "0 \<le> a" "a \<le> s" "1 \<le> s" for a s
  proof -
    obtain r where "rnd (a / s) = Fin r" "0 \<le> r" "r \<le> 1"
      using rnd_between_ex [OF is_double_zero is_double_one, of "a / s"] as by auto
    then show ?thesis using as by auto
  qed
  obtain q where q: "v = Fin q" using assms(2) by (auto elim: is_finite.elims)
  obtain z where z: "pexp (Fin (if 0 \<le> q then - q else q)) = Fin z" "0 \<le> z" "z \<le> 1"
    using arg [of "if 0 \<le> q then - q else q"] by (cases "0 \<le> q") auto
  obtain s where s: "fadd (Fin 1) (Fin z) = Fin s" "1 \<le> s" "z \<le> s" using sum z by auto
  show ?thesis
    using quot [of 1 s] quot [of z s] z s q by (auto simp: stable_sigmoid_def Let_def)
qed

lemma entropy_normalized_range: "is_finite v \<Longrightarrow> \<exists>r. entropy_normalized v = Fin r \<and> 0 \<le> r \<and> r \<le> 1"
  using clamp01_range by (auto simp: entropy_normalized_def elim!: is_finite.elims)

text \<open>A signal whose contribution is bounded below keeps the order of two sums, and a lower bound.\<close>

lemma score_signal_step:
  assumes "fle (Fin b) s" "fle s s'"
    and "\<And>x. is_finite x \<Longrightarrow> (\<exists>c. (\<forall>t. f t x = Inr (fadd t c)) \<and> fle (Fin d) c)"
    and "rnd (b + d) = Fin e" "e \<le> b"
    and "score_signal v n f (Inr s) = Inr t" "score_signal v n f (Inr s') = Inr t'"
  shows "fle t t' \<and> fle (Fin e) t"
proof (cases "v = PNone")
  case False
  then obtain x where x: "finite_number v n = Inr x" "f s x = Inr t" "f s' x = Inr t'"
    using assms(6,7) by (auto simp: score_signal_def split: sum.splits)
  obtain c where c: "\<And>t. f t x = Inr (fadd t c)" "fle (Fin d) c"
    using assms(3) [OF finite_number_finite [OF x(1)]] by auto
  have "fle c c" using c(2) by (cases c) auto
  then have "fle (fadd s c) (fadd s' c)"
    using fadd_mono2 [OF assms(1,2) c(2)] by simp
  moreover have "fle (Fin e) (fadd s c)"
    using fadd_bounded [OF assms(1) c(2)] assms(4) by simp
  ultimately show ?thesis using x c by auto
next
  case True
  then have "t = s" "t' = s'" using assms(6,7) by (auto simp: score_signal_def)
  moreover have "fle (Fin e) s" using assms(1,5) fle_trans [of "Fin e" "Fin b" s] by simp
  ultimately show ?thesis using assms(2) by simp
qed

lemma score_signal_Inr: "score_signal v n f acc = Inr t \<Longrightarrow> \<exists>s. acc = Inr s"
  by (cases acc) (auto simp: score_signal_def)

text \<open>The finite weights of a policy built from well-formed values are doubles.\<close>

lemma init_weight_double: "wf_pyval v \<Longrightarrow> init_weight v n = Inr x \<Longrightarrow> \<exists>q. x = Fin q \<and> is_double q \<and> 0 \<le> q"
  using init_weight_ok [of v n x] wf_py_float [of v x]
  by (auto simp: init_weight_def finite_number_def wf_float_def split: sum.splits exc.splits if_splits elim!: is_finite.elims)

lemma weighted_nonneg: "is_finite w \<Longrightarrow> fle (Fin 0) w \<Longrightarrow> 0 \<le> r \<Longrightarrow> fle (Fin 0) (fmul w (Fin r))"
  by (rule fmul_nonneg) auto

lemma quotient_mono:
  assumes "fle (Fin b) s" "fle s s'" "flt (Fin 0) d" "fdiv s d = Some q" "fdiv s' d = Some q'"
  shows "fle (clamp01 q) (clamp01 q')"
proof (cases d)
  case (Fin x)
  then have "fle q q'"
    using assms by (cases s; cases s') (auto intro!: rnd_mono divide_right_mono)
  then show ?thesis by (rule clamp01_mono)
next
  case PInf
  then show ?thesis
    using assms clamp01_range [of q'] by (cases s; cases s') (auto simp: clamp01_def fmax_def fmin_def)
qed (use assms in auto)

lemma weighted_clamp: "is_finite w \<Longrightarrow> fle (Fin 0) w \<Longrightarrow> fle (Fin 0) (fmul w (clamp01 v))"
  using clamp01_range [of v] weighted_nonneg by fastforce

lemma margin_signal_mono:
  "wf_policy p \<Longrightarrow> fle (Fin 0) s \<Longrightarrow> fle s s' \<Longrightarrow> margin_signal p x (Inr s) = Inr t \<Longrightarrow> margin_signal p x (Inr s') = Inr t' \<Longrightarrow>
     fle t t' \<and> fle (Fin 0) t"
  unfolding margin_signal_def
  by (rule score_signal_step [where b = 0 and d = 0 and e = 0]) (auto simp: wf_policy_def intro!: weighted_clamp)

lemma llm_signal_mono:
  "wf_policy p \<Longrightarrow> is_double b \<Longrightarrow> fle (Fin b) s \<Longrightarrow> fle s s' \<Longrightarrow> llm_signal p x (Inr s) = Inr t \<Longrightarrow> llm_signal p x (Inr s') = Inr t' \<Longrightarrow>
     fle t t' \<and> fle (Fin b) t"
  unfolding llm_signal_def
  by (rule score_signal_step [where b = b and d = 0 and e = b]) (auto simp: wf_policy_def intro!: weighted_clamp)

lemma z_signal_mono:
  assumes "wf_policy p" "exp_ok pexp" "fle (Fin 0) s" "fle s s'"
    and "z_signal pexp p x (Inr s) = Inr t" "z_signal pexp p x (Inr s') = Inr t'"
  shows "fle t t' \<and> fle (Fin 0) t"
proof (rule score_signal_step [OF assms(3,4) _ _ _ assms(5,6) [unfolded z_signal_def], where d = 0 and e = 0])
  fix v assume "is_finite v"
  then obtain r where "stable_sigmoid pexp v = Inr (Fin r)" "0 \<le> r"
    using stable_sigmoid_ok [OF assms(2)] by blast
  then show "\<exists>c. (\<forall>t. (case stable_sigmoid pexp v of Inl e \<Rightarrow> Inl e | Inr g \<Rightarrow> Inr (fadd t (fmul (w_z p) g))) = Inr (fadd t c))
      \<and> fle (Fin 0) c"
    using assms(1) by (auto simp: wf_policy_def intro!: weighted_nonneg)
qed auto

lemma entropy_signal_mono:
  assumes "w_entropy p = Fin we" "is_double we" "0 \<le> we" "fle (Fin 0) s" "fle s s'"
    and "entropy_signal p x (Inr s) = Inr t" "entropy_signal p x (Inr s') = Inr t'"
  shows "fle t t' \<and> fle (Fin (- we)) t"
proof (rule score_signal_step [OF assms(4,5) _ _ _ assms(6,7) [unfolded entropy_signal_def], where d = "- we" and e = "- we"])
  fix v assume "is_finite v"
  then obtain r where r: "entropy_normalized v = Fin r" "0 \<le> r" "r \<le> 1"
    using entropy_normalized_range by blast
  then have "fle (rnd (we * r)) (Fin we)"
    using assms(2,3) by (intro rnd_le_double) (auto intro: mult_left_le)
  then have "fle (Fin (- we)) (fneg (rnd (we * r)))"
    by (metis fle_fneg fneg.simps(1))
  then show "\<exists>c. (\<forall>t. Inr (fsub t (fmul (w_entropy p) (entropy_normalized v))) = Inr (fadd t c)) \<and> fle (Fin (- we)) c"
    using r assms(1) by (auto simp: fsub_def)
qed (use assms in auto)

lemma prob_signal_mono:
  assumes "wf_policy p" "a \<le> b"
    and "prob_signal p (x\<lparr>prob := PFloat (Fin a)\<rparr>) (Inr (Fin 0)) = Inr t"
    and "prob_signal p (x\<lparr>prob := PFloat (Fin b)\<rparr>) (Inr (Fin 0)) = Inr t'"
  shows "fle t t' \<and> fle (Fin 0) t"
proof -
  have w: "is_finite (w_prob p)" "fle (Fin 0) (w_prob p)" using assms(1) by (auto simp: wf_policy_def)
  have t: "t = fadd (Fin 0) (fmul (w_prob p) (clamp01 (Fin a)))" "t' = fadd (Fin 0) (fmul (w_prob p) (clamp01 (Fin b)))"
    using assms(3,4) by (auto simp: prob_signal_def score_signal_def finite_number_def)
  obtain ra rb where r: "clamp01 (Fin a) = Fin ra" "clamp01 (Fin b) = Fin rb" "0 \<le> ra"
    using clamp01_range by blast
  have "fle (Fin ra) (Fin rb)" using clamp01_mono [of "Fin a" "Fin b"] assms(2) r by simp
  then have m: "fle (fmul (w_prob p) (Fin ra)) (fmul (w_prob p) (Fin rb))"
    using w by (intro fmul_mono) auto
  have z: "fle (Fin 0) (fmul (w_prob p) (Fin ra))" using w r by (intro weighted_nonneg) auto
  show ?thesis
    using t r fadd_mono2 [of 0 "Fin 0" "Fin 0", OF _ _ z m] fadd_nonneg [OF _ z, of "Fin 0"] by simp
qed

lemmas signal_defs = prob_signal_def margin_signal_def z_signal_def entropy_signal_def llm_signal_def

text \<open>The signals after the first read the inputs other than \<^verbatim>\<open>prob\<close>.\<close>

lemma signals_prob_update [simp]:
  "margin_signal p (x\<lparr>prob := v\<rparr>) = margin_signal p x" "z_signal pexp p (x\<lparr>prob := v\<rparr>) = z_signal pexp p x"
  "entropy_signal p (x\<lparr>prob := v\<rparr>) = entropy_signal p x" "llm_signal p (x\<lparr>prob := v\<rparr>) = llm_signal p x"
  by (simp_all add: signal_defs)

lemma score_sum_stages:
  assumes "score_sum pexp p x = Inr t"
  obtains a b c d where "prob_signal p x (Inr (Fin 0)) = Inr a" "margin_signal p x (Inr a) = Inr b"
    "z_signal pexp p x (Inr b) = Inr c" "entropy_signal p x (Inr c) = Inr d" "llm_signal p x (Inr d) = Inr t"
  using assms unfolding score_sum_def signal_defs by (metis score_signal_Inr)

lemma decision_policy_init_entropy:
  "decision_policy_init a b c d e f g = Inr p \<Longrightarrow> wf_pyval f \<Longrightarrow> \<exists>q. w_entropy p = Fin q \<and> is_double q \<and> 0 \<le> q"
  using init_weight_double [of f "''w_entropy''"]
  by (auto simp: decision_policy_init_def Let_def split: sum.splits if_splits)

section \<open>Properties\<close>

text \<open>Every score is a finite number between 0 and 1, and the decision is taken on it: accept when
  it reaches the configured minimum, the configured fallback otherwise.\<close>

theorem decide_on_bounded_score:
  assumes "score pexp p x = Inr s"
  shows "(\<exists>r. s = Fin r \<and> 0 \<le> r \<and> r \<le> 1)
    \<and> decide pexp p x = Inr (if fle (min_confidence p) s then ACCEPT else abstain_action p)"
  using assms clamp01_range by (auto simp: score_def decide_def split: sum.splits option.splits)

text \<open>C33: More evidence never lowers the confidence: for a policy the constructor accepted, raising the
  probability signal (everything else equal) cannot decrease the score, in floating point and
  whatever the other weights, including weights whose sum overflows.\<close>

theorem score_monotone_in_prob:
  assumes init: "decision_policy_init m act wp wm wz we wl = Inr p" and wf: "wf_pyval we"
    and ex: "exp_ok pexp" and ab: "a \<le> b"
    and s: "score pexp p (x\<lparr>prob := PFloat (Fin a)\<rparr>) = Inr s"
    and s': "score pexp p (x\<lparr>prob := PFloat (Fin b)\<rparr>) = Inr s'"
  shows "fle s s'"
proof -
  have p: "wf_policy p" by (rule decision_policy_init_wf [OF init])
  obtain w where w: "w_entropy p = Fin w" "is_double w" "0 \<le> w"
    using decision_policy_init_entropy [OF init wf] by auto
  obtain t where t: "score_sum pexp p (x\<lparr>prob := PFloat (Fin a)\<rparr>) = Inr t"
    using s by (auto simp: score_def split: sum.splits)
  obtain t' where t': "score_sum pexp p (x\<lparr>prob := PFloat (Fin b)\<rparr>) = Inr t'"
    using s' by (auto simp: score_def split: sum.splits)
  obtain a1 b1 c1 d1 where A: "prob_signal p (x\<lparr>prob := PFloat (Fin a)\<rparr>) (Inr (Fin 0)) = Inr a1"
    "margin_signal p x (Inr a1) = Inr b1" "z_signal pexp p x (Inr b1) = Inr c1"
    "entropy_signal p x (Inr c1) = Inr d1" "llm_signal p x (Inr d1) = Inr t"
    by (rule score_sum_stages [OF t, unfolded signals_prob_update])
  obtain a2 b2 c2 d2 where B: "prob_signal p (x\<lparr>prob := PFloat (Fin b)\<rparr>) (Inr (Fin 0)) = Inr a2"
    "margin_signal p x (Inr a2) = Inr b2" "z_signal pexp p x (Inr b2) = Inr c2"
    "entropy_signal p x (Inr c2) = Inr d2" "llm_signal p x (Inr d2) = Inr t'"
    by (rule score_sum_stages [OF t', unfolded signals_prob_update])
  note 1 = prob_signal_mono [OF p ab A(1) B(1)]
  note 2 = margin_signal_mono [OF p conjunct2 [OF 1] conjunct1 [OF 1] A(2) B(2)]
  note 3 = z_signal_mono [OF p ex conjunct2 [OF 2] conjunct1 [OF 2] A(3) B(3)]
  note 4 = entropy_signal_mono [OF w conjunct2 [OF 3] conjunct1 [OF 3] A(4) B(4)]
  have "is_double (- w)" using w by simp
  note 5 = llm_signal_mono [OF p this conjunct2 [OF 4] conjunct1 [OF 4] A(5) B(5)]
  show ?thesis
    using s s' t t' quotient_mono [OF conjunct2 [OF 5] conjunct1 [OF 5]] p
    by (auto simp: score_def wf_policy_def split: option.splits)
qed

text \<open>A policy that weighs the probability alone, and inputs without other signals.\<close>

definition prob_policy :: decision_policy where
  "prob_policy = \<lparr>min_confidence = Fin (1/2), abstain_action = HUMAN_REVIEW, w_prob = Fin 1,
     w_margin = Fin 0, w_z = Fin 0, w_entropy = Fin 0, w_llm = Fin 0\<rparr>"

definition prob_only :: "rat \<Rightarrow> confidence_inputs" where
  "prob_only q = \<lparr>prob = PFloat (Fin q), margin = PNone, z_score = PNone, entropy = PNone, llm_self_score = PNone\<rparr>"

lemma prob_policy_init:
  "decision_policy_init (PFloat (Fin (1/2))) ''human_review'' (PFloat (Fin 1)) (PFloat (Fin 0)) (PFloat (Fin 0))
     (PFloat (Fin 0)) (PFloat (Fin 0)) = Inr prob_policy"
  by (simp add: decision_policy_init_def outcome_of_string_def finite_number_def init_weight_def
      weight_denominator_def prob_policy_def)

lemma prob_only_score: "score pexp prob_policy (prob_only q) = Inr (clamp01 (rnd (if 1 < q then 1 else if 0 < q then q else 0)))"
  if "is_double q"
  using that by (simp add: score_def score_sum_def signal_defs score_signal_def prob_only_def prob_policy_def finite_number_def
      weight_denominator_def clamp01_def fmax_def fmin_def)

theorem decide_on_bounded_score_witness:
  "(\<exists>r. Fin 1 = Fin r \<and> 0 \<le> r \<and> r \<le> (1::rat))
    \<and> decide (\<lambda>_. Fin 1) prob_policy (prob_only 1) = Inr ACCEPT"
proof -
  have "score (\<lambda>_. Fin 1) prob_policy (prob_only 1) = Inr (Fin 1)"
    by (simp add: prob_only_score clamp01_def fmax_def fmin_def)
  from decide_on_bounded_score [OF this] show ?thesis
    by (simp add: prob_policy_def)
qed

theorem score_monotone_in_prob_witness:
  "fle (clamp01 (rnd 0)) (clamp01 (rnd 1))"
proof -
  have 0: "score (\<lambda>_. Fin 1) prob_policy ((prob_only 0)\<lparr>prob := PFloat (Fin 0)\<rparr>) = Inr (clamp01 (rnd 0))"
    using prob_only_score [of 0] by (simp add: prob_only_def)
  have 1: "score (\<lambda>_. Fin 1) prob_policy ((prob_only 0)\<lparr>prob := PFloat (Fin 1)\<rparr>) = Inr (clamp01 (rnd 1))"
    using prob_only_score [of 1] by (simp add: prob_only_def)
  show ?thesis
    by (rule score_monotone_in_prob [OF prob_policy_init _ _ _ 0 1]) (auto simp: wf_float_def exp_ok_def)
qed

end
