(* ===== verification/Retry_Breaker.thy ===== *)
theory Retry_Breaker
  imports Pyval
begin

text \<open>
  \<^verbatim>\<open>agent_roi/runtime/resilience.py\<close>, first half: retries with jittered exponential back-off, and
  the circuit breaker.  The code that is retried or protected is a state transformer
  \<open>'s \<Rightarrow> (exc + 'a) \<times> 's\<close>.  Readings of the clock and of the random generator are arguments, one
  per reading; \<^verbatim>\<open>float ** int\<close> (\<open>fpow\<close>) is an argument because its rounding is the platform's.
  The asynchronous twins \<^verbatim>\<open>aretry_call\<close> and \<^verbatim>\<open>acall\<close> have the same text with \<^verbatim>\<open>await\<close> in front of
  the protected call and are modelled by the same definitions.
\<close>

section \<open>Retries\<close>

record retry_policy =
  max_attempts :: int
  initial_backoff_seconds :: pyfloat
  multiplier :: pyfloat
  max_backoff_seconds :: pyfloat
  jitter_ratio :: pyfloat
  retry_exceptions :: "string list"

definition retry_policy_init :: "retry_policy \<Rightarrow> exc + retry_policy" where
  "retry_policy_init p =
     (if max_attempts p < 1 then Inl (ValueError ''max_attempts must be an integer >= 1'')
      else if \<not> is_finite (initial_backoff_seconds p) \<or> flt (initial_backoff_seconds p) (Fin 0)
        then Inl (ValueError ''initial_backoff_seconds must be finite and nonnegative'')
      else if \<not> is_finite (multiplier p) \<or> flt (multiplier p) (Fin 0)
        then Inl (ValueError ''multiplier must be finite and nonnegative'')
      else if \<not> is_finite (max_backoff_seconds p) \<or> flt (max_backoff_seconds p) (Fin 0)
        then Inl (ValueError ''max_backoff_seconds must be finite and nonnegative'')
      else if \<not> is_finite (jitter_ratio p) \<or> flt (jitter_ratio p) (Fin 0)
        then Inl (ValueError ''jitter_ratio must be finite and nonnegative'')
      else if flt (multiplier p) (Fin 1) then Inl (ValueError ''multiplier must be >= 1'')
      else if flt (Fin 1) (jitter_ratio p) then Inl (ValueError ''jitter_ratio must be <= 1'')
      else if retry_exceptions p = [] then Inl (ValueError ''retry_exceptions must contain exception classes'')
      else Inr p)"

definition should_retry :: "retry_policy \<Rightarrow> exc \<Rightarrow> bool" where
  "should_retry p e \<longleftrightarrow> exc_isinstance e (retry_exceptions p)"

definition retry_delay ::
    "(pyfloat \<Rightarrow> int \<Rightarrow> exc + pyfloat) \<Rightarrow> retry_policy \<Rightarrow> int \<Rightarrow> pyfloat \<Rightarrow> exc + pyfloat" where
  "retry_delay fpow p attempt_number sample =
     (case fpow (multiplier p) (max 0 (attempt_number - 1)) of Inl e \<Rightarrow> Inl e
      | Inr growth \<Rightarrow>
          let base = fmin (max_backoff_seconds p) (fmul (initial_backoff_seconds p) growth) in
          if base = Fin 0 \<or> jitter_ratio p = Fin 0 then Inr base
          else let factor = fadd (fsub (Fin 1) (jitter_ratio p)) (fmul (fmul (Fin 2) (jitter_ratio p)) sample)
               in Inr (fmax (Fin 0) (fmul base factor)))"

text \<open>The loop of \<^verbatim>\<open>retry_call\<close>, from a given attempt on; the attempt after the last one is the
  \<^verbatim>\<open>AssertionError("unreachable")\<close> below the loop.\<close>

function retry_from ::
    "(pyfloat \<Rightarrow> int \<Rightarrow> exc + pyfloat) \<Rightarrow> (int \<Rightarrow> pyfloat) \<Rightarrow> ('s \<Rightarrow> (exc + 'a) \<times> 's) \<Rightarrow> retry_policy
     \<Rightarrow> int \<Rightarrow> 's \<Rightarrow> (exc + 'a) \<times> 's" where
  "retry_from fpow rand fn p attempt s =
     (if attempt > max_attempts p then (Inl (AssertionError ''unreachable''), s)
      else case fn s of
          (Inr v, s') \<Rightarrow> (Inr v, s')
        | (Inl e, s') \<Rightarrow>
            if attempt \<ge> max_attempts p \<or> \<not> should_retry p e then (Inl e, s')
            else (case retry_delay fpow p attempt (rand attempt) of
                Inl e' \<Rightarrow> (Inl e', s')
              | Inr _ \<Rightarrow> retry_from fpow rand fn p (attempt + 1) s'))"
  by pat_completeness auto
termination
  by (relation "measure (\<lambda>(fpow, rand, fn, p, attempt, s). nat (max_attempts p + 1 - attempt))") auto

declare retry_from.simps [simp del]

definition retry_call ::
    "(pyfloat \<Rightarrow> int \<Rightarrow> exc + pyfloat) \<Rightarrow> (int \<Rightarrow> pyfloat) \<Rightarrow> ('s \<Rightarrow> (exc + 'a) \<times> 's) \<Rightarrow> retry_policy
     \<Rightarrow> 's \<Rightarrow> (exc + 'a) \<times> 's" where
  "retry_call fpow rand fn p s = retry_from fpow rand fn p 1 s"

section \<open>Circuit breaker\<close>

datatype circuit_state = CLOSED | OPEN | HALF_OPEN

record circuit_breaker =
  failure_threshold :: int
  recovery_timeout_seconds :: pyfloat
  success_threshold :: int
  cb_state :: circuit_state
  cb_failures :: int
  cb_successes :: int
  opened_at :: pyfloat
  probe_in_flight :: bool

definition circuit_breaker_init :: "int \<Rightarrow> pyfloat \<Rightarrow> int \<Rightarrow> exc + circuit_breaker" where
  "circuit_breaker_init ft rt st =
     (if ft < 1 then Inl (ValueError ''failure_threshold must be >= 1'')
      else if fle rt (Fin 0) then Inl (ValueError ''recovery_timeout_seconds must be > 0'')
      else if st < 1 then Inl (ValueError ''success_threshold must be >= 1'')
      else Inr \<lparr>failure_threshold = ft, recovery_timeout_seconds = rt, success_threshold = st,
        cb_state = CLOSED, cb_failures = 0, cb_successes = 0, opened_at = Fin 0, probe_in_flight = False\<rparr>)"

text \<open>Reading the \<^verbatim>\<open>state\<close> property half-opens a breaker whose recovery time is over.\<close>

definition cb_refresh :: "pyfloat \<Rightarrow> circuit_breaker \<Rightarrow> circuit_breaker" where
  "cb_refresh now b =
     (if cb_state b = OPEN \<and> fle (recovery_timeout_seconds b) (fsub now (opened_at b))
      then b\<lparr>cb_state := HALF_OPEN, probe_in_flight := False\<rparr> else b)"

definition before_call :: "pyfloat \<Rightarrow> circuit_breaker \<Rightarrow> (exc + unit) \<times> circuit_breaker" where
  "before_call now b0 =
     (let b = cb_refresh now b0 in
      case cb_state b of
        OPEN \<Rightarrow> (Inl (CircuitOpenError ''Circuit breaker is open''), b)
      | HALF_OPEN \<Rightarrow>
          if probe_in_flight b
          then (Inl (CircuitOpenError ''Circuit breaker half-open probe is already in progress''), b)
          else (Inr (), b\<lparr>probe_in_flight := True\<rparr>)
      | CLOSED \<Rightarrow> (Inr (), b))"

definition record_success :: "circuit_breaker \<Rightarrow> circuit_breaker" where
  "record_success b =
     (if cb_state b = HALF_OPEN
      then let b1 = b\<lparr>cb_successes := cb_successes b + 1, probe_in_flight := False\<rparr> in
        if cb_successes b1 \<ge> success_threshold b1
        then b1\<lparr>cb_state := CLOSED, cb_failures := 0, cb_successes := 0\<rparr> else b1
      else b\<lparr>cb_failures := 0\<rparr>)"

definition record_failure :: "pyfloat \<Rightarrow> circuit_breaker \<Rightarrow> circuit_breaker" where
  "record_failure now b =
     (let b1 = b\<lparr>probe_in_flight := False, cb_successes := 0, cb_failures := cb_failures b + 1\<rparr> in
      if cb_state b1 = HALF_OPEN \<or> cb_failures b1 \<ge> failure_threshold b1
      then b1\<lparr>cb_state := OPEN, opened_at := now\<rparr> else b1)"

text \<open>\<^verbatim>\<open>call\<close>, with the clock readings before and after the protected call.\<close>

definition cb_call ::
    "pyfloat \<Rightarrow> pyfloat \<Rightarrow> ('s \<Rightarrow> (exc + 'a) \<times> 's) \<Rightarrow> circuit_breaker \<times> 's \<Rightarrow> (exc + 'a) \<times> (circuit_breaker \<times> 's)" where
  "cb_call t1 t2 fn bs =
     (case before_call t1 (fst bs) of
        (Inl e, b) \<Rightarrow> (Inl e, (b, snd bs))
      | (Inr _, b) \<Rightarrow> (case fn (snd bs) of
            (Inl e, s) \<Rightarrow> (Inl e, (record_failure t2 b, s))
          | (Inr v, s) \<Rightarrow> (Inr v, (record_success b, s))))"

section \<open>Correctness of the retry loop\<close>

text \<open>The protected code with a counter of its invocations.\<close>

definition counted :: "('s \<Rightarrow> (exc + 'a) \<times> 's) \<Rightarrow> 's \<times> int \<Rightarrow> (exc + 'a) \<times> ('s \<times> int)" where
  "counted fn sn = (case fn (fst sn) of (r, s') \<Rightarrow> (r, (s', snd sn + 1)))"

lemma retry_from_counted:
  assumes "retry_from fpow rand (counted fn) p attempt (s, n) = (r, (s', m))" and "attempt \<le> max_attempts p"
  shows "n + 1 \<le> m \<and> m \<le> n + (max_attempts p - attempt + 1)
     \<and> (\<forall>v. r = Inr v \<longrightarrow> (\<exists>s0. fn s0 = (Inr v, s')))
     \<and> (\<forall>e. r = Inl e \<longrightarrow> (\<exists>s0. fn s0 = (Inl e, s')) \<and> (should_retry p e \<longrightarrow> m = n + (max_attempts p - attempt + 1))
          \<or> (\<exists>a. attempt \<le> a \<and> a < max_attempts p \<and> retry_delay fpow p a (rand a) = Inl e))"
  using assms
proof (induction "nat (max_attempts p - attempt)" arbitrary: attempt s n)
  case 0
  then have last: "attempt = max_attempts p" by simp
  then show ?case
    using 0 by (subst (asm) retry_from.simps) (auto simp: counted_def split: prod.splits sum.splits)
next
  case (Suc k)
  then have lt: "attempt < max_attempts p" by simp
  obtain r1 s1 where fn: "fn s = (r1, s1)" by (cases "fn s")
  show ?case
  proof (cases r1)
    case (Inr v)
    then show ?thesis
      using Suc.prems lt fn by (subst (asm) retry_from.simps) (auto simp: counted_def)
  next
    case (Inl e)
    show ?thesis
    proof (cases "should_retry p e \<and> (\<exists>d. retry_delay fpow p attempt (rand attempt) = Inr d)")
      case True
      then have "retry_from fpow rand (counted fn) p (attempt + 1) (s1, n + 1) = (r, (s', m))"
        using Suc.prems(1) lt fn Inl by (subst (asm) retry_from.simps) (auto simp: counted_def)
      moreover have k: "k = nat (max_attempts p - (attempt + 1))"
        using Suc.hyps(2) lt by linarith
      ultimately show ?thesis using Suc.hyps(1) [OF k] lt by fastforce
    next
      case False
      then show ?thesis
        using Suc.prems(1) lt fn Inl
        by (subst (asm) retry_from.simps) (auto simp: counted_def split: sum.splits if_splits)
    qed
  qed
qed

text \<open>A quantity that one run of the protected code raises by at most one is raised by at most the number
  of attempts, and a reflexive and transitive relation kept by one run is kept by the loop.\<close>

lemma retry_from_measure:
  fixes \<mu> :: "'s \<Rightarrow> nat"
  assumes step: "\<And>s. \<mu> (snd (fn s)) \<le> \<mu> s + 1" and "attempt \<le> max_attempts p"
  shows "\<mu> (snd (retry_from fpow rand fn p attempt s)) \<le> \<mu> s + nat (max_attempts p - attempt + 1)"
  using assms(2)
proof (induction "nat (max_attempts p - attempt)" arbitrary: attempt s)
  case 0
  then have "attempt = max_attempts p" by simp
  then show ?case using step [of s]
    by (subst retry_from.simps) (auto split: prod.splits sum.splits)
next
  case (Suc k)
  then have lt: "attempt < max_attempts p" by simp
  have k: "k = nat (max_attempts p - (attempt + 1))" using Suc.hyps(2) lt by linarith
  obtain r s1 where fn: "fn s = (r, s1)" by (cases "fn s")
  have s1: "\<mu> s1 \<le> \<mu> s + 1" using step [of s] fn by simp
  have "\<mu> (snd (retry_from fpow rand fn p (attempt + 1) s1)) \<le> \<mu> s1 + nat (max_attempts p - (attempt + 1) + 1)"
    using Suc.hyps(1) [OF k] lt by simp
  then show ?case using s1 lt fn
    by (subst retry_from.simps) (auto split: sum.splits)
qed

lemma retry_from_keeps:
  assumes refl: "\<And>s. R s s" and trans: "\<And>a b c. R a b \<Longrightarrow> R b c \<Longrightarrow> R a c" and step: "\<And>s. R s (snd (fn s))"
  shows "R s (snd (retry_from fpow rand fn p attempt s))"
proof (induction "nat (max_attempts p + 1 - attempt)" arbitrary: attempt s)
  case 0
  then show ?case by (subst retry_from.simps) (simp add: refl)
next
  case (Suc k)
  obtain r s1 where fn: "fn s = (r, s1)" by (cases "fn s")
  have s1: "R s s1" using step [of s] fn by simp
  have k: "k = nat (max_attempts p + 1 - (attempt + 1))" using Suc.hyps(2) by linarith
  have "R s (snd (retry_from fpow rand fn p (attempt + 1) s1))"
    using trans [OF s1 Suc.hyps(1) [OF k]] .
  then show ?case using s1 fn refl by (subst retry_from.simps) (auto split: sum.splits)
qed

section \<open>Delay bounds\<close>

text \<open>What is used about \<^verbatim>\<open>float ** int\<close>: a base of at least 1 to a nonnegative power, when it
  does not raise, is at least 1.\<close>

definition pow_ok :: "(pyfloat \<Rightarrow> int \<Rightarrow> exc + pyfloat) \<Rightarrow> bool" where
  "pow_ok fpow \<longleftrightarrow> (\<forall>m n r. fle (Fin 1) m \<and> 0 \<le> n \<and> fpow m n = Inr r \<longrightarrow> fle (Fin 1) r)"

definition wf_retry_policy :: "retry_policy \<Rightarrow> bool" where
  "wf_retry_policy p \<longleftrightarrow> 1 \<le> max_attempts p
     \<and> (\<exists>q. initial_backoff_seconds p = Fin q \<and> 0 \<le> q) \<and> (\<exists>q. multiplier p = Fin q \<and> 1 \<le> q)
     \<and> (\<exists>q. max_backoff_seconds p = Fin q \<and> 0 \<le> q) \<and> (\<exists>q. jitter_ratio p = Fin q \<and> 0 \<le> q \<and> q \<le> 1)"

lemma retry_policy_init_wf: "retry_policy_init p = Inr p' \<Longrightarrow> p' = p \<and> wf_retry_policy p"
  by (auto simp: retry_policy_init_def wf_retry_policy_def split: if_splits elim!: is_finite.elims)

lemma is_double_two [simp]: "is_double 2"
  by (rule is_double_dyadic [where m = 2 and f = 0]) auto

text \<open>The subtraction \<^verbatim>\<open>1 - jitter_ratio\<close> is exact when the ratio is at least one half, so that the
  jitter factor never rounds above 2.\<close>

lemma one_minus_exact:
  assumes "is_double j" "1 / 2 \<le> j" "j \<le> 1"
  shows "is_double (1 - j)"
proof -
  define e where "e = ulp_exp j"
  have pos: "0 < j" using assms by simp
  have lo: "-1 \<le> flog2 j"
    using flog2_bounds [OF pos] assms(2) powi2_less_iff [of "-1" "flog2 j + 1"] by (simp add: power_int_minus)
  have "2 powi flog2 j \<le> (2 :: rat) powi 0" using flog2_bounds [OF pos] assms(3) by simp
  then have hi: "flog2 j \<le> 0" by (simp only: powi2_le_iff)
  have e: "-53 \<le> e" "e \<le> -52" using lo hi by (auto simp: e_def ulp_exp_def)
  obtain n where n: "j = of_int n * 2 powi e"
    using assms(1) pos unfolding is_double_def rnd_def rnd_pos_def e_def by (metis order_less_irrefl pyfloat.distinct(1) pyfloat.inject)
  have "(2 :: rat) powi (- e) * 2 powi e = 1"
    by (simp flip: powi2_add)
  moreover have "(2 :: rat) powi (- e) = of_int (2 ^ nat (- e))"
    using e by (subst powi2_int) auto
  ultimately have "1 = of_int (2 ^ nat (- e)) * (2 :: rat) powi e" by metis
  then have eq: "1 - j = of_int (2 ^ nat (- e) - n) * 2 powi e"
    using n by (simp add: algebra_simps)
  have "0 < n" using n pos powi2_pos [of e] by (metis of_int_0_less_iff zero_less_mult_pos2)
  moreover have "n \<le> 2 ^ nat (- e)"
  proof -
    have "0 \<le> of_int (2 ^ nat (- e) - n) * (2 :: rat) powi e" using eq assms(3) by linarith
    then have "0 \<le> (of_int (2 ^ nat (- e) - n) :: rat)"
      using powi2_pos [of e] by (metis mult_le_cancel_right_pos mult_zero_left)
    then show ?thesis by (simp only: of_int_0_le_iff diff_ge_0_iff_ge)
  qed
  ultimately have "\<bar>2 ^ nat (- e) - n\<bar> \<le> 2 ^ nat (- e)" by simp
  also have "\<dots> \<le> (2 :: int) ^ 53" using e by (intro power_increasing) auto
  finally show ?thesis using e eq by (intro is_double_dyadic [OF eq]) auto
qed

lemma jitter_sum_le_2:
  assumes "0 \<le> j" "j \<le> 1" "is_double j" "rnd (1 - j) = Fin a" "a \<le> 1" "c \<le> 2 * j"
  shows "a + c \<le> 2"
proof (cases "1 / 2 \<le> j")
  case True
  then have "a = 1 - j" using one_minus_exact [OF assms(3) True] assms(2,4) by simp
  then show ?thesis using assms by simp
qed (use assms in auto)

lemma is_double_twice: "is_double j \<Longrightarrow> 0 \<le> j \<Longrightarrow> j \<le> 1 \<Longrightarrow> is_double (2 * j)"
proof (cases "j = 0")
  case False
  assume j: "is_double j" "0 \<le> j" "j \<le> 1"
  with False have pos: "0 < j" and eq: "rnd_pos j = j"
    by (auto simp: is_double_def rnd_def split: if_splits)
  obtain n where n: "rnd_pos j = of_int n * 2 powi ulp_exp j" "0 \<le> n" "n \<le> 2 ^ 53"
    using rnd_pos_form [OF pos] by blast
  have "-1074 \<le> ulp_exp j" by (simp add: ulp_exp_def)
  moreover
  have "2 powi flog2 j \<le> (2 :: rat) powi 0" using flog2_bounds [OF pos] j by simp
  then have "flog2 j \<le> 0" by (simp only: powi2_le_iff)
  then have "ulp_exp j \<le> 0" by (simp add: ulp_exp_def)
  moreover have two: "2 * j = of_int n * 2 powi (ulp_exp j + 1)"
    using n eq by (simp add: powi2_add)
  ultimately show "is_double (2 * j)" using n by (intro is_double_dyadic [OF two]) auto
qed simp

lemma jitter_factor_range:
  assumes j: "0 \<le> j" "j \<le> 1" "is_double j" and s: "0 \<le> s" "s \<le> 1"
  shows "\<exists>f. fadd (fsub (Fin 1) (Fin j)) (fmul (fmul (Fin 2) (Fin j)) (Fin s)) = Fin f \<and> 0 \<le> f \<and> f \<le> 2"
proof -
  obtain a where a: "rnd (1 - j) = Fin a" "0 \<le> a" "a \<le> 1"
    using rnd_between_ex [of 0 1 "1 - j"] j by auto
  have b: "rnd (2 * j) = Fin (2 * j)" using is_double_twice j by simp
  have "2 * j * s \<le> 2 * j" using j s by (simp add: mult_left_le)
  then obtain c where c: "rnd (2 * j * s) = Fin c" "0 \<le> c" "c \<le> 2 * j"
    using rnd_between_ex [of 0 "2 * j" "2 * j * s"] is_double_twice j s by auto
  obtain f where "rnd (a + c) = Fin f" "0 \<le> f" "f \<le> 2"
    using rnd_between_ex [of 0 2 "a + c"] jitter_sum_le_2 [OF j a(1,3) c(3)] a c by auto
  then show ?thesis using a b c by (simp add: fsub_def)
qed

lemma fmin_base:
  assumes "0 \<le> x" "fle (Fin 0) g" "0 \<le> m"
  shows "\<exists>q. fmin (Fin m) (fmul (Fin x) g) = Fin q \<and> 0 \<le> q \<and> q \<le> m"
proof -
  have "fmul (Fin x) g = NaN \<or> fle (Fin 0) (fmul (Fin x) g)"
    using assms rnd_nonneg by (cases g) auto
  then show ?thesis
    using assms(3) by (cases "fmul (Fin x) g") (auto simp: fmin_def)
qed

lemma delay_bounded:
  assumes wf: "wf_retry_policy p" and ok: "pow_ok fpow" and sample: "0 \<le> s" "s \<le> 1"
    and j: "wf_float (jitter_ratio p)" "wf_float (max_backoff_seconds p)"
    and d: "retry_delay fpow p n (Fin s) = Inr d"
  shows "fle (Fin 0) d \<and> fle d (fmul (Fin 2) (max_backoff_seconds p))"
proof -
  obtain x m b r where p: "initial_backoff_seconds p = Fin x" "0 \<le> x" "multiplier p = Fin m" "1 \<le> m"
      "max_backoff_seconds p = Fin b" "0 \<le> b" "jitter_ratio p = Fin r" "0 \<le> r" "r \<le> 1"
    using wf by (auto simp: wf_retry_policy_def)
  obtain g where g: "fpow (Fin m) (max 0 (n - 1)) = Inr g"
    using d p by (auto simp: retry_delay_def split: sum.splits)
  have "fle (Fin 1) g"
    using ok g p(4) unfolding pow_ok_def by (metis fle_Fin max.cobounded1)
  then have "fle (Fin 0) g" by (cases g) auto
  from fmin_base [OF p(2) this p(6)]
  obtain q where q: "fmin (Fin b) (fmul (Fin x) g) = Fin q" "0 \<le> q" "q \<le> b" by auto
  have r: "is_double r" using j p by (simp add: wf_float_def)
  have bd: "is_double b" using j p by (simp add: wf_float_def)
  obtain f where f: "fadd (fsub (Fin 1) (Fin r)) (fmul (fmul (Fin 2) (Fin r)) (Fin s)) = Fin f" "0 \<le> f" "f \<le> 2"
    using jitter_factor_range [OF p(8,9) r sample] by auto
  have "q * f \<le> b * 2" using q f p(6) by (intro mult_mono) auto
  then have le: "fle (rnd (q * f)) (fmul (Fin 2) (Fin b))" by (simp add: rnd_mono mult.commute)
  show ?thesis
  proof (cases "q = 0 \<or> r = 0")
    case True
    then have "d = Fin q" using d p g q by (auto simp: retry_delay_def)
    moreover have "fle (Fin q) (rnd (2 * b))"
      using rnd_mono [of b "2 * b"] p(6) bd q(3) by (auto intro: fle_trans [of _ "Fin b"])
    ultimately show ?thesis using q p by simp
  next
    case False
    then have "d = fmax (Fin 0) (rnd (q * f))" using d p g q f by (auto simp: retry_delay_def Let_def)
    then show ?thesis using le p rnd_nonneg [of "q * f"] rnd_nonneg [of "2 * b"] q f
      by (auto simp: fmax_def)
  qed
qed

section \<open>Breaker invariant\<close>

definition wf_breaker :: "circuit_breaker \<Rightarrow> bool" where
  "wf_breaker b \<longleftrightarrow> 1 \<le> failure_threshold b \<and> 1 \<le> success_threshold b \<and> 0 \<le> cb_failures b
     \<and> (case cb_state b of
          CLOSED \<Rightarrow> cb_failures b < failure_threshold b \<and> cb_successes b = 0
        | OPEN \<Rightarrow> cb_successes b = 0
        | HALF_OPEN \<Rightarrow> 0 \<le> cb_successes b \<and> cb_successes b < success_threshold b)"

lemma wf_breaker_init: "circuit_breaker_init ft rt st = Inr b \<Longrightarrow> wf_breaker b"
  by (auto simp: circuit_breaker_init_def wf_breaker_def split: if_splits)

lemma wf_cb_refresh [intro]: "wf_breaker b \<Longrightarrow> wf_breaker (cb_refresh t b)"
  by (auto simp: cb_refresh_def wf_breaker_def)

lemma wf_before_call [intro]: "wf_breaker b \<Longrightarrow> wf_breaker (snd (before_call t b))"
  using wf_cb_refresh [of b t]
  by (auto simp: before_call_def Let_def wf_breaker_def split: circuit_state.splits)

lemma wf_before_call_eq: "before_call t b = (r, b') \<Longrightarrow> wf_breaker b \<Longrightarrow> wf_breaker b'"
  using wf_before_call [of b t] by simp

lemma wf_record_success [intro]: "wf_breaker b \<Longrightarrow> wf_breaker (record_success b)"
  by (auto simp: record_success_def Let_def wf_breaker_def split: circuit_state.splits)

lemma wf_record_failure [intro]: "wf_breaker b \<Longrightarrow> wf_breaker (record_failure t b)"
  by (auto simp: record_failure_def Let_def wf_breaker_def split: circuit_state.splits)

lemma before_call_OPEN:
  assumes "cb_state b = OPEN" and "\<not> fle (recovery_timeout_seconds b) (fsub t (opened_at b))"
  shows "before_call t b = (Inl (CircuitOpenError ''Circuit breaker is open''), b)"
  using assms by (simp add: before_call_def cb_refresh_def)

lemma record_failure_closed:
  assumes "cb_state b = CLOSED" and "cb_failures b + 1 < failure_threshold b"
  shows "cb_state (record_failure t b) = CLOSED" "cb_failures (record_failure t b) = cb_failures b + 1"
    "failure_threshold (record_failure t b) = failure_threshold b"
  using assms by (auto simp: record_failure_def)

lemma before_call_CLOSED: "cb_state b = CLOSED \<Longrightarrow> before_call t b = (Inr (), b)"
  by (simp add: before_call_def cb_refresh_def)

section \<open>Concurrent callers\<close>

text \<open>
  The lock makes \<open>before_call\<close>, \<open>record_success\<close> and \<open>record_failure\<close> atomic; the protected calls
  of different threads overlap.  A system state is the breaker with, for every call in flight,
  whether it was admitted as the half-open probe (\<open>probes\<close>) or while the breaker was closed
  (\<open>normals\<close>).  The flag \<open>stale\<close> says whether a call admitted while the breaker was closed may come
  back when it is half open.
\<close>

record cb_sys =
  brk :: circuit_breaker
  probes :: nat
  normals :: nat

inductive cb_step :: "bool \<Rightarrow> cb_sys \<Rightarrow> cb_sys \<Rightarrow> bool" for stale :: bool where
  admit_probe: "before_call t (brk s) = (Inr (), b) \<Longrightarrow> cb_state b = HALF_OPEN
    \<Longrightarrow> cb_step stale s (s\<lparr>brk := b, probes := probes s + 1\<rparr>)"
| admit_normal: "before_call t (brk s) = (Inr (), b) \<Longrightarrow> cb_state b = CLOSED
    \<Longrightarrow> cb_step stale s (s\<lparr>brk := b, normals := normals s + 1\<rparr>)"
| reject: "before_call t (brk s) = (Inl e, b) \<Longrightarrow> cb_step stale s (s\<lparr>brk := b\<rparr>)"
| probe_ok: "0 < probes s
    \<Longrightarrow> cb_step stale s (s\<lparr>brk := record_success (brk s), probes := probes s - 1\<rparr>)"
| probe_fails: "0 < probes s
    \<Longrightarrow> cb_step stale s (s\<lparr>brk := record_failure t (brk s), probes := probes s - 1\<rparr>)"
| normal_ok: "0 < normals s \<Longrightarrow> stale \<or> cb_state (brk s) \<noteq> HALF_OPEN
    \<Longrightarrow> cb_step stale s (s\<lparr>brk := record_success (brk s), normals := normals s - 1\<rparr>)"
| normal_fails: "0 < normals s \<Longrightarrow> stale \<or> cb_state (brk s) \<noteq> HALF_OPEN
    \<Longrightarrow> cb_step stale s (s\<lparr>brk := record_failure t (brk s), normals := normals s - 1\<rparr>)"

inductive_simps cb_step_simps: "cb_step stale s s'"

definition cb_start :: "circuit_breaker \<Rightarrow> cb_sys" where
  "cb_start b = \<lparr>brk = b, probes = 0, normals = 0\<rparr>"

definition probe_inv :: "cb_sys \<Rightarrow> bool" where
  "probe_inv s \<longleftrightarrow> probes s \<le> 1 \<and> (probes s = 1 \<longrightarrow> cb_state (brk s) = HALF_OPEN \<and> probe_in_flight (brk s))"

lemma wf_breaker_step: "cb_step stale s s' \<Longrightarrow> wf_breaker (brk s) \<Longrightarrow> wf_breaker (brk s')"
  by (induction rule: cb_step.cases) (auto intro: wf_before_call_eq)

lemma before_call_probe:
  assumes "before_call t b = (r, b')" and "cb_state b = HALF_OPEN" and "probe_in_flight b"
  shows "(\<exists>e. r = Inl e) \<and> b' = b"
  using assms by (auto simp: before_call_def cb_refresh_def)

lemma before_call_admits_probe:
  assumes "before_call t b = (Inr (), b')" and "cb_state b' = HALF_OPEN"
  shows "probe_in_flight b'"
  using assms by (auto simp: before_call_def Let_def split: circuit_state.splits if_splits)

lemma probe_inv_step: "cb_step False s s' \<Longrightarrow> probe_inv s \<Longrightarrow> probe_inv s'"
proof (induction rule: cb_step.cases)
  case (admit_probe t s b)
  then show ?case
    using before_call_admits_probe [of t "brk s" b] before_call_probe [of t "brk s" "Inr ()" b]
    by (auto simp: probe_inv_def)
next
  case (admit_normal t s b)
  then show ?case
    using before_call_probe [of t "brk s" "Inr ()" b] by (auto simp: probe_inv_def)
next
  case (reject t s e b)
  then show ?case
    using before_call_probe [of t "brk s" "Inl e" b] by (auto simp: probe_inv_def)
qed (auto simp: probe_inv_def record_success_def record_failure_def Let_def)

lemma cb_call_fails_closed:
  assumes "cb_state b = CLOSED" and "fn s = (Inl e, s')"
  shows "cb_call t1 t2 fn (b, s) = (Inl e, (record_failure t2 b, s'))"
  using assms by (simp add: cb_call_def before_call_CLOSED)

text \<open>\<open>n\<close> protected calls one after the other, call \<open>i\<close> with clock readings \<open>ts i\<close>.\<close>

primrec cb_run :: "nat \<Rightarrow> (nat \<Rightarrow> pyfloat \<times> pyfloat) \<Rightarrow> ('s \<Rightarrow> (exc + 'a) \<times> 's) \<Rightarrow> circuit_breaker \<times> 's
    \<Rightarrow> circuit_breaker \<times> 's" where
  "cb_run 0 ts fn bs = bs"
| "cb_run (Suc n) ts fn bs =
     (let bs' = cb_run n ts fn bs in snd (cb_call (fst (ts n)) (snd (ts n)) fn bs'))"

lemma cb_run_failures:
  assumes "circuit_breaker_init ft rt st = Inr b" and "\<forall>s. \<exists>e s'. fn s = (Inl e, s')" and "int n < ft"
  shows "cb_state (fst (cb_run n ts fn (b, s))) = CLOSED
     \<and> cb_failures (fst (cb_run n ts fn (b, s))) = int n \<and> failure_threshold (fst (cb_run n ts fn (b, s))) = ft
     \<and> recovery_timeout_seconds (fst (cb_run n ts fn (b, s))) = rt"
  using assms(3)
proof (induction n)
  case 0
  then show ?case using assms(1) by (auto simp: circuit_breaker_init_def split: if_splits)
next
  case (Suc n)
  obtain b1 s1 where r: "cb_run n ts fn (b, s) = (b1, s1)" by (cases "cb_run n ts fn (b, s)")
  obtain e s2 where e: "fn s1 = (Inl e, s2)" using assms(2) by blast
  from Suc r have "cb_state b1 = CLOSED" "cb_failures b1 = int n" "failure_threshold b1 = ft"
      "recovery_timeout_seconds b1 = rt" by auto
  then show ?case
    using r cb_call_fails_closed [where fn = fn and s = s1, OF _ e] Suc.prems by (auto simp: record_failure_def Let_def)
qed

section \<open>Theorems\<close>

text \<open>C37: The retry loop runs the protected code at least once and at most \<^verbatim>\<open>max_attempts\<close> times; a returned value is the value of its last run; and
  an exception that leaves it is the one of the last run, which is either not retryable or comes after all attempts are used, or else it was raised by
  the computation of the back-off after an earlier attempt.\<close>

theorem retry_call_attempts:
  assumes "retry_policy_init p0 = Inr p" and "retry_call fpow rand (counted fn) p (s, 0) = (r, (s', m))"
  shows "1 \<le> m \<and> m \<le> max_attempts p
     \<and> (\<forall>v. r = Inr v \<longrightarrow> (\<exists>s0. fn s0 = (Inr v, s')))
     \<and> (\<forall>e. r = Inl e \<longrightarrow> (\<exists>s0. fn s0 = (Inl e, s')) \<and> (should_retry p e \<longrightarrow> m = max_attempts p)
          \<or> (\<exists>a. 1 \<le> a \<and> a < max_attempts p \<and> retry_delay fpow p a (rand a) = Inl e))"
  using retry_from_counted [OF assms(2) [unfolded retry_call_def]] retry_policy_init_wf [OF assms(1)]
  by (auto simp: wf_retry_policy_def)

text \<open>\<^verbatim>\<open>float ** int\<close> with correct rounding, for the witnesses.\<close>

definition rounded_pow :: "pyfloat \<Rightarrow> int \<Rightarrow> exc + pyfloat" where
  "rounded_pow x n = (case x of
     Fin q \<Rightarrow> let y = rnd (q ^ nat n) in if is_finite y then Inr y else Inl (OverflowError ''Numerical result out of range'')
   | _ \<Rightarrow> Inr x)"

definition demo_policy :: retry_policy where
  "demo_policy = \<lparr>max_attempts = 3, initial_backoff_seconds = Fin 1, multiplier = Fin 2,
     max_backoff_seconds = Fin 8, jitter_ratio = Fin (1 / 2), retry_exceptions = [''OSError'']\<rparr>"

text \<open>Fails twice with a retryable error, then succeeds.\<close>

definition demo_flaky :: "int \<Rightarrow> (exc + string) \<times> int" where
  "demo_flaky n = (if n < 2 then Inl (OtherExc [''TimeoutError'', ''OSError'', ''Exception''] []) else Inr ''ok'', n + 1)"

lemma demo_policy_init: "retry_policy_init demo_policy = Inr demo_policy"
  by (simp add: retry_policy_init_def demo_policy_def)

lemma rounded_pow_two: "0 \<le> n \<Longrightarrow> n \<le> 53 \<Longrightarrow> rounded_pow (Fin 2) n = Inr (Fin (2 ^ nat n))"
  using rnd_of_int [of "2 ^ nat n"] power_increasing [of "nat n" 53 "2 :: int"] by (simp add: rounded_pow_def)

lemma demo_retry_run:
  "retry_call rounded_pow (\<lambda>_. Fin 0) (counted demo_flaky) demo_policy (0, 0) = (Inr ''ok'', (3, 3))"
  by (simp add: retry_call_def retry_from.simps counted_def demo_flaky_def demo_policy_def should_retry_def
      exc_isinstance_def retry_delay_def rounded_pow_two Let_def)

theorem retry_call_attempts_witness:
  "\<exists>m. retry_call rounded_pow (\<lambda>_. Fin 0) (counted demo_flaky) demo_policy (0, 0) = (Inr ''ok'', (3, m))
     \<and> 1 \<le> m \<and> m \<le> max_attempts demo_policy"
  using retry_call_attempts [OF demo_policy_init demo_retry_run] demo_retry_run by blast

text \<open>The back-off between two attempts is nonnegative and at most twice the configured maximum,
  whatever the jitter: \<^verbatim>\<open>max_backoff_seconds\<close> itself is not an upper bound.\<close>

theorem retry_delay_bounded:
  assumes "retry_policy_init p0 = Inr p" and "pow_ok fpow" and "0 \<le> s" and "s \<le> 1"
    and "wf_float (jitter_ratio p)" and "wf_float (max_backoff_seconds p)"
    and "retry_delay fpow p n (Fin s) = Inr d"
  shows "fle (Fin 0) d \<and> fle d (fmul (Fin 2) (max_backoff_seconds p))"
  using delay_bounded [OF _ assms(2,3,4,5,6,7)] retry_policy_init_wf [OF assms(1)] by simp

theorem retry_delay_bounded_witness:
  "fle (Fin 0) (Fin 2) \<and> fle (Fin 2) (fmul (Fin 2) (max_backoff_seconds (demo_policy\<lparr>jitter_ratio := Fin 0\<rparr>)))"
proof (rule retry_delay_bounded [where p = "demo_policy\<lparr>jitter_ratio := Fin 0\<rparr>" and fpow = "\<lambda>m n. Inr m" and s = 0 and n = 0])
  show "retry_policy_init (demo_policy\<lparr>jitter_ratio := Fin 0\<rparr>) = Inr (demo_policy\<lparr>jitter_ratio := Fin 0\<rparr>)"
    by (simp add: retry_policy_init_def demo_policy_def)
  show "wf_float (max_backoff_seconds (demo_policy\<lparr>jitter_ratio := Fin 0\<rparr>))"
    using is_double_dyadic [of 8 8 0] by (simp add: wf_float_def demo_policy_def)
qed (auto simp: pow_ok_def wf_float_def demo_policy_def retry_delay_def fmin_def)

text \<open>Under any interleaving of concurrent callers, late completions included, the breaker's
  counters stay in range: while closed fewer failures than the threshold are counted, while half
  open fewer successes than the threshold, and no success is left over from an earlier probe phase.\<close>

theorem breaker_counters_in_range:
  assumes "circuit_breaker_init ft rt st = Inr b" and "rtranclp (cb_step stale) (cb_start b) s"
  shows "wf_breaker (brk s)"
  using assms(2)
  by (rule rtranclp_invariant [where P = "\<lambda>s. wf_breaker (brk s)"])
     (auto simp: cb_start_def intro: wf_breaker_init [OF assms(1)] wf_breaker_step)

definition demo_breaker :: circuit_breaker where
  "demo_breaker = \<lparr>failure_threshold = 1, recovery_timeout_seconds = Fin 1, success_threshold = 2,
     cb_state = CLOSED, cb_failures = 0, cb_successes = 0, opened_at = Fin 0, probe_in_flight = False\<rparr>"

lemma demo_breaker_init: "circuit_breaker_init 1 (Fin 1) 2 = Inr demo_breaker"
  by (simp add: circuit_breaker_init_def demo_breaker_def)

theorem breaker_counters_in_range_witness: "wf_breaker (brk (cb_start demo_breaker))"
  by (rule breaker_counters_in_range [OF demo_breaker_init rtranclp.rtrancl_refl])

text \<open>The breaker trips on exactly \<^verbatim>\<open>failure_threshold\<close> failing calls in a row: before that it
  is closed, then it is open, and until the recovery time is over it rejects calls without running
  the protected code or touching any state.\<close>

theorem breaker_trips_at_threshold:
  assumes "circuit_breaker_init ft rt st = Inr b" and "\<forall>s. \<exists>e s'. fn s = (Inl e, s')"
  shows "(\<forall>n. int n < ft \<longrightarrow> cb_state (fst (cb_run n ts fn (b, s))) = CLOSED)
     \<and> cb_state (fst (cb_run (nat ft) ts fn (b, s))) = OPEN
     \<and> (\<forall>t1 t2. \<not> fle rt (fsub t1 (opened_at (fst (cb_run (nat ft) ts fn (b, s))))) \<longrightarrow>
          cb_call t1 t2 fn (cb_run (nat ft) ts fn (b, s))
          = (Inl (CircuitOpenError ''Circuit breaker is open''), cb_run (nat ft) ts fn (b, s)))"
proof -
  have ft: "1 \<le> ft" using assms(1) by (auto simp: circuit_breaker_init_def split: if_splits)
  then obtain n where n: "nat ft = Suc n" "ft = int n + 1"
    by (metis Suc_diff_le diff_Suc_1 int_nat_eq nat_int of_nat_Suc add.commute not0_implies_Suc nat_0_iff int_one_le_iff_zero_less leD order_less_imp_le)
  obtain b1 s1 where r: "cb_run n ts fn (b, s) = (b1, s1)" by (cases "cb_run n ts fn (b, s)")
  obtain e s2 where e: "fn s1 = (Inl e, s2)" using assms(2) by blast
  have closed: "cb_state b1 = CLOSED" "cb_failures b1 = int n" "failure_threshold b1 = ft" "recovery_timeout_seconds b1 = rt"
    using cb_run_failures [OF assms, where n = n and ts = ts and s = s] r n by auto
  have last: "cb_run (nat ft) ts fn (b, s) = (record_failure (snd (ts n)) b1, s2)"
    using n r cb_call_fails_closed [where fn = fn and s = s1, OF closed(1) e] by simp
  have opened: "cb_state (record_failure (snd (ts n)) b1) = OPEN"
      "recovery_timeout_seconds (record_failure (snd (ts n)) b1) = rt"
    using closed n by (auto simp: record_failure_def Let_def)
  show ?thesis
    using cb_run_failures [OF assms] last opened before_call_OPEN [OF opened(1)]
    by (auto simp: cb_call_def)
qed

theorem breaker_trips_at_threshold_witness:
  "cb_state (fst (cb_run 1 (\<lambda>_. (Fin 0, Fin 0)) (\<lambda>s. (Inl (RuntimeError ''x'') :: exc + int, s)) (demo_breaker, ()))) = OPEN"
  using breaker_trips_at_threshold [OF demo_breaker_init, where fn = "\<lambda>s. (Inl (RuntimeError ''x'') :: exc + int, s)" and ts = "\<lambda>_. (Fin 0, Fin 0)" and s = "()"]
  by simp

text \<open>As long as no call admitted while the breaker was closed completes while it is half open, at
  most one half-open probe is in flight under any interleaving of callers.\<close>

theorem breaker_single_probe:
  assumes "circuit_breaker_init ft rt st = Inr b" and "rtranclp (cb_step False) (cb_start b) s"
  shows "probes s \<le> 1"
proof -
  have "probe_inv s"
    using assms(2) by (rule rtranclp_invariant) (simp add: cb_start_def probe_inv_def, rule probe_inv_step)
  then show ?thesis by (simp add: probe_inv_def)
qed

theorem breaker_single_probe_witness: "probes (cb_start demo_breaker) \<le> 1"
  by (rule breaker_single_probe [OF demo_breaker_init rtranclp.rtrancl_refl])

text \<open>Without that restriction the documented single half-open probe does not hold: a call that was
  admitted while the breaker was closed and comes back while a probe is running clears
  \<^verbatim>\<open>_probe_in_flight\<close>, and a second probe is admitted beside the first.\<close>

theorem breaker_stale_completion_two_probes:
  "\<exists>s. rtranclp (cb_step True) (cb_start demo_breaker) s \<and> probes s = 2"
proof -
  let ?b1 = "record_failure (Fin 0) demo_breaker"
  let ?b2 = "?b1\<lparr>cb_state := HALF_OPEN, probe_in_flight := True\<rparr>"
  let ?b3 = "record_success ?b2"
  let ?b4 = "?b3\<lparr>probe_in_flight := True\<rparr>"
  let ?s = "\<lambda>b p n. \<lparr>brk = b, probes = p, normals = n\<rparr>"
  have closed: "before_call (Fin 0) demo_breaker = (Inr (), demo_breaker)"
    by (simp add: demo_breaker_def before_call_CLOSED)
  have half: "before_call (Fin 1) ?b1 = (Inr (), ?b2)"
    by (simp add: demo_breaker_def before_call_def cb_refresh_def record_failure_def fsub_def)
  have again: "before_call (Fin 1) ?b3 = (Inr (), ?b4)"
    by (simp add: demo_breaker_def before_call_def cb_refresh_def record_failure_def record_success_def)
  have "cb_step True (?s demo_breaker 0 0) (?s demo_breaker 0 1)"
    using admit_normal [where s = "?s demo_breaker 0 0", of "Fin 0" demo_breaker True] closed by (simp add: demo_breaker_def)
  moreover have "cb_step True (?s demo_breaker 0 1) (?s demo_breaker 0 2)"
    using admit_normal [where s = "?s demo_breaker 0 1", of "Fin 0" demo_breaker True] closed by (simp add: demo_breaker_def numeral_2_eq_2)
  moreover have "cb_step True (?s demo_breaker 0 2) (?s ?b1 0 1)"
    using normal_fails [where s = "?s demo_breaker 0 2", of True "Fin 0"] by simp
  moreover have "cb_step True (?s ?b1 0 1) (?s ?b2 1 1)"
    using admit_probe [where s = "?s ?b1 0 1", of "Fin 1" ?b2 True] half by simp
  moreover have "cb_step True (?s ?b2 1 1) (?s ?b3 1 0)"
    using normal_ok [where s = "?s ?b2 1 1", of True] by simp
  moreover have "cb_step True (?s ?b3 1 0) (?s ?b4 2 0)"
    using admit_probe [where s = "?s ?b3 1 0", of "Fin 1" ?b4 True] again
    by (simp add: record_success_def demo_breaker_def record_failure_def numeral_2_eq_2)
  ultimately have "rtranclp (cb_step True) (cb_start demo_breaker) (?s ?b4 2 0)"
    unfolding cb_start_def by (meson converse_rtranclp_into_rtranclp rtranclp.rtrancl_refl)
  then show ?thesis by (intro exI [of _ "?s ?b4 2 0"]) simp
qed

end
