(* ===== verification/Idempotency.thy ===== *)
theory Idempotency
  imports Serialization
begin

text \<open>
  \<^verbatim>\<open>agent_roi/runtime/resilience.py\<close>, second half: the idempotency records that make a retried
  request replay its first answer.  Two stores implement the protocol, on SQLite and on PostgreSQL.
  Both are modelled on their table; \<open>idem_spec_*\<close> is the contract they share, stated on a map from
  keys to entries, and the locale \<open>idempotency_store\<close> collects it as the interface of the callers.
  Times are microseconds.  \<^verbatim>\<open>json.loads\<close> is the argument \<open>loads\<close>.
\<close>

section \<open>Records\<close>

record idem_row =
  ir_namespace :: string
  ir_key :: string
  ir_digest :: string
  ir_status :: string
  ir_error :: string
  ir_created :: int
  ir_expires :: int

text \<open>SQLite keeps the response as text, PostgreSQL as a JSON value and with a revision.\<close>

record sqlite_idem_row = idem_row +
  ir_response_text :: "string option"

record pg_idem_row = idem_row +
  ir_response_json :: "json option"
  ir_revision :: int

record idempotency_result =
  idem_status :: string
  idem_response :: json
  idem_error :: string

abbreviation started_result :: idempotency_result where
  "started_result \<equiv> \<lparr>idem_status = ''started'', idem_response = JNull, idem_error = []\<rparr>"

abbreviation completed_result :: "json \<Rightarrow> idempotency_result" where
  "completed_result j \<equiv> \<lparr>idem_status = ''completed'', idem_response = j, idem_error = []\<rparr>"

abbreviation failed_result :: "string \<Rightarrow> idempotency_result" where
  "failed_result e \<equiv> \<lparr>idem_status = ''failed'', idem_response = JNull, idem_error = e\<rparr>"

definition row_is :: "string \<Rightarrow> string \<Rightarrow> 'a idem_row_scheme \<Rightarrow> bool" where
  "row_is ns k r \<longleftrightarrow> ir_namespace r = ns \<and> ir_key r = k"

definition idem_expiry :: "int \<Rightarrow> int \<Rightarrow> int" where
  "idem_expiry now ttl_seconds = now + max 1 ttl_seconds * 1000000"

section \<open>The SQLite store\<close>

text \<open>An exception inside the connection block rolls the purge back.\<close>

definition sqlite_begin ::
    "(string \<Rightarrow> exc + json) \<Rightarrow> int \<Rightarrow> string \<Rightarrow> string \<Rightarrow> string \<Rightarrow> int \<Rightarrow> sqlite_idem_row list
     \<Rightarrow> (exc + idempotency_result) \<times> sqlite_idem_row list" where
  "sqlite_begin loads now ns key request_digest ttl t =
     (if blank ns \<or> blank key then (Inl (ValueError ''namespace and key are required''), t)
      else let t1 = sql_delete (\<lambda>r. ir_expires r < now) t in
      case find (row_is ns key) t1 of
        Some row \<Rightarrow>
          if ir_digest row \<noteq> request_digest
          then (Inl (IdempotencyConflict ''Idempotency key was used for a different request''), t)
          else if ir_status row = ''completed''
          then (case ir_response_text row of
                  None \<Rightarrow> (Inl (TypeError ''the JSON object must be str, bytes or bytearray, not NoneType''), t)
                | Some text \<Rightarrow> (case loads text of Inl e \<Rightarrow> (Inl e, t) | Inr j \<Rightarrow> (Inr (completed_result j), t1)))
          else if ir_status row = ''failed'' then (Inr (failed_result (ir_error row)), t1)
          else (Inl (IdempotencyInProgress ''An idempotent request is already in progress''), t)
      | None \<Rightarrow> (Inr started_result,
          t1 @ [\<lparr>ir_namespace = ns, ir_key = key, ir_digest = request_digest, ir_status = ''pending'',
                 ir_error = [], ir_created = now, ir_expires = idem_expiry now ttl, ir_response_text = None\<rparr>]))"

definition pending_row :: "string \<Rightarrow> string \<Rightarrow> 'a idem_row_scheme \<Rightarrow> bool" where
  "pending_row ns key r \<longleftrightarrow> row_is ns key r \<and> ir_status r = ''pending''"

definition sqlite_complete ::
    "(pyval \<Rightarrow> string) \<Rightarrow> string \<Rightarrow> string \<Rightarrow> pyval \<Rightarrow> sqlite_idem_row list \<Rightarrow> (exc + unit) \<times> sqlite_idem_row list" where
  "sqlite_complete canon ns key response t =
     (if rowcount (pending_row ns key) t \<noteq> 1 then (Inl (KeyError key), t)
      else (Inr (), sql_update (pending_row ns key)
        (\<lambda>r. r\<lparr>ir_status := ''completed'', ir_response_text := Some (canon response), ir_error := []\<rparr>) t))"

definition sqlite_fail ::
    "string \<Rightarrow> string \<Rightarrow> string \<Rightarrow> sqlite_idem_row list \<Rightarrow> (exc + unit) \<times> sqlite_idem_row list" where
  "sqlite_fail ns key error t =
     (if rowcount (pending_row ns key) t \<noteq> 1 then (Inl (KeyError key), t)
      else (Inr (), sql_update (pending_row ns key) (\<lambda>r. r\<lparr>ir_status := ''failed'', ir_error := error\<rparr>) t))"

text \<open>What \<^verbatim>\<open>complete\<close> writes: the canonical text of the converted response.\<close>

definition response_text :: "(pyfloat \<Rightarrow> string) \<Rightarrow> (pyval \<Rightarrow> string) \<Rightarrow> pyval \<Rightarrow> string" where
  "response_text fr orr response = canonical_json fr orr (py_of_json (to_jsonable fr orr response))"

section \<open>The PostgreSQL store\<close>

text \<open>The driver hands a \<^verbatim>\<open>jsonb\<close> value back parsed; a value that is a string is parsed a second time.\<close>

definition pg_response :: "(string \<Rightarrow> exc + json) \<Rightarrow> json option \<Rightarrow> exc + json" where
  "pg_response loads r = (case r of None \<Rightarrow> Inr JNull | Some (JStr s) \<Rightarrow> loads s | Some j \<Rightarrow> Inr j)"

text \<open>The branches on the row stand after the connection block: the purge is committed also when
  one of them raises.\<close>

definition pg_begin ::
    "(string \<Rightarrow> exc + json) \<Rightarrow> int \<Rightarrow> string \<Rightarrow> string \<Rightarrow> string \<Rightarrow> int \<Rightarrow> pg_idem_row list
     \<Rightarrow> (exc + idempotency_result) \<times> pg_idem_row list" where
  "pg_begin loads now ns key request_digest ttl t =
     (let t1 = sql_delete (\<lambda>r. ir_expires r < now) t;
          inserted = (find (row_is ns key) t1 = None);
          t2 = (if inserted then t1 @ [\<lparr>ir_namespace = ns, ir_key = key, ir_digest = request_digest,
                  ir_status = ''pending'', ir_error = [], ir_created = now, ir_expires = idem_expiry now ttl,
                  ir_response_json = None, ir_revision = 1\<rparr>] else t1)
      in case find (row_is ns key) t2 of
           None \<Rightarrow> (Inl (RuntimeError ''Idempotency record could not be read''), t2)
         | Some row \<Rightarrow>
             if ir_digest row \<noteq> request_digest
             then (Inl (IdempotencyConflict ''Idempotency key was used for a different request''), t2)
             else if inserted then (Inr started_result, t2)
             else if ir_status row = ''completed''
             then (case pg_response loads (ir_response_json row) of Inl e \<Rightarrow> (Inl e, t2)
                   | Inr j \<Rightarrow> (Inr (completed_result j), t2))
             else if ir_status row = ''failed'' then (Inr (failed_result (ir_error row)), t2)
             else (Inl (IdempotencyInProgress ''An idempotent request is already in progress''), t2))"

definition pg_complete ::
    "(pyval \<Rightarrow> json) \<Rightarrow> string \<Rightarrow> string \<Rightarrow> pyval \<Rightarrow> pg_idem_row list \<Rightarrow> (exc + unit) \<times> pg_idem_row list" where
  "pg_complete conv ns key response t =
     (if rowcount (pending_row ns key) t \<noteq> 1 then (Inl (KeyError key), t)
      else (Inr (), sql_update (pending_row ns key)
        (\<lambda>r. r\<lparr>ir_status := ''completed'', ir_response_json := Some (conv response), ir_error := [],
               ir_revision := ir_revision r + 1\<rparr>) t))"

definition pg_fail ::
    "string \<Rightarrow> string \<Rightarrow> string \<Rightarrow> pg_idem_row list \<Rightarrow> (exc + unit) \<times> pg_idem_row list" where
  "pg_fail ns key error t =
     (if rowcount (pending_row ns key) t \<noteq> 1 then (Inl (KeyError key), t)
      else (Inr (), sql_update (pending_row ns key)
        (\<lambda>r. r\<lparr>ir_status := ''failed'', ir_error := error, ir_revision := ir_revision r + 1\<rparr>) t))"

section \<open>The policy in front of a store\<close>

record idempotency_policy =
  ip_namespace :: string
  ip_key_factory :: "pyval list \<Rightarrow> (string \<times> pyval) list \<Rightarrow> exc + string"
  ip_ttl_seconds :: int

definition idempotency_policy_init :: "idempotency_policy \<Rightarrow> exc + idempotency_policy" where
  "idempotency_policy_init p =
     (if blank (ip_namespace p) then Inl (ValueError ''Idempotency namespace is required'')
      else if ip_ttl_seconds p < 1 then Inl (ValueError ''ttl_seconds must be >= 1'')
      else Inr p)"

definition request_value :: "pyval list \<Rightarrow> (string \<times> pyval) list \<Rightarrow> pyval" where
  "request_value args kwargs = PDict [(PStr ''args'', PTuple args),
     (PStr ''kwargs'', PDict (map (\<lambda>(k, v). (PStr k, v)) kwargs))]"

definition prepare ::
    "(string \<Rightarrow> string \<Rightarrow> string \<Rightarrow> int \<Rightarrow> 't \<Rightarrow> (exc + idempotency_result) \<times> 't) \<Rightarrow> (pyval \<Rightarrow> string)
     \<Rightarrow> idempotency_policy \<Rightarrow> pyval list \<Rightarrow> (string \<times> pyval) list \<Rightarrow> 't
     \<Rightarrow> (exc + string \<times> string \<times> idempotency_result) \<times> 't" where
  "prepare begin_op digest p args kwargs t =
     (case ip_key_factory p args kwargs of Inl e \<Rightarrow> (Inl e, t)
      | Inr raw \<Rightarrow>
          let key = strip raw in
          if key = [] then (Inl (ValueError ''Idempotency key factory returned an empty key''), t)
          else let request_digest = digest (request_value args kwargs) in
            (case begin_op (ip_namespace p) key request_digest (ip_ttl_seconds p) t of
               (Inl e, t') \<Rightarrow> (Inl e, t')
             | (Inr result, t') \<Rightarrow> (Inr (key, request_digest, result), t')))"

section \<open>The contract\<close>

datatype idem_phase = Pending | Completed "exc + json" | Failed string

record idem_entry =
  ie_digest :: string
  ie_phase :: idem_phase
  ie_expires :: int

type_synonym idem_map = "string \<times> string \<rightharpoonup> idem_entry"

definition idem_purge :: "int \<Rightarrow> idem_map \<Rightarrow> idem_map" where
  "idem_purge now m x = (case m x of Some e \<Rightarrow> if ie_expires e < now then None else Some e | None \<Rightarrow> None)"

definition idem_spec_begin ::
    "int \<Rightarrow> string \<Rightarrow> string \<Rightarrow> string \<Rightarrow> int \<Rightarrow> idem_map \<Rightarrow> (exc + idempotency_result) \<times> idem_map" where
  "idem_spec_begin now ns key d ttl m =
     (let m1 = idem_purge now m in
      case m1 (ns, key) of
        None \<Rightarrow> (Inr started_result,
          m1((ns, key) \<mapsto> \<lparr>ie_digest = d, ie_phase = Pending, ie_expires = idem_expiry now ttl\<rparr>))
      | Some e \<Rightarrow>
          (if ie_digest e \<noteq> d then Inl (IdempotencyConflict ''Idempotency key was used for a different request'')
           else case ie_phase e of
               Pending \<Rightarrow> Inl (IdempotencyInProgress ''An idempotent request is already in progress'')
             | Completed (Inl x) \<Rightarrow> Inl x
             | Completed (Inr j) \<Rightarrow> Inr (completed_result j)
             | Failed x \<Rightarrow> Inr (failed_result x), m1))"

definition idem_spec_finish :: "idem_phase \<Rightarrow> string \<Rightarrow> string \<Rightarrow> idem_map \<Rightarrow> (exc + unit) \<times> idem_map" where
  "idem_spec_finish ph ns key m =
     (case m (ns, key) of
        Some e \<Rightarrow> if ie_phase e = Pending then (Inr (), m((ns, key) \<mapsto> e\<lparr>ie_phase := ph\<rparr>)) else (Inl (KeyError key), m)
      | None \<Rightarrow> (Inl (KeyError key), m))"

text \<open>A sequence of requests to a store, of any callers and on any keys.\<close>

datatype idem_op =
    OpBegin int string string string int
  | OpComplete string string pyval
  | OpFail string string string

fun idem_exec where
  "idem_exec bg cp fl [] t = ([], t)"
| "idem_exec bg cp fl (OpBegin now ns k d ttl # ops) t =
     (let (r, t') = bg now ns k d ttl t; (rs, t'') = idem_exec bg cp fl ops t' in ((ns, k, Some r) # rs, t''))"
| "idem_exec bg cp fl (OpComplete ns k v # ops) t =
     (let (r, t') = cp ns k v t; (rs, t'') = idem_exec bg cp fl ops t' in ((ns, k, None) # rs, t''))"
| "idem_exec bg cp fl (OpFail ns k e # ops) t =
     (let (r, t') = fl ns k e t; (rs, t'') = idem_exec bg cp fl ops t' in ((ns, k, None) # rs, t''))"

fun op_before :: "int \<Rightarrow> idem_op \<Rightarrow> bool" where
  "op_before T (OpBegin now ns k d ttl) \<longleftrightarrow> \<not> blank ns \<and> \<not> blank k \<and> now \<le> T"
| "op_before T _ \<longleftrightarrow> True"

locale idempotency_store =
  fixes begin_op :: "int \<Rightarrow> string \<Rightarrow> string \<Rightarrow> string \<Rightarrow> int \<Rightarrow> 't \<Rightarrow> (exc + idempotency_result) \<times> 't"
    and complete_op :: "string \<Rightarrow> string \<Rightarrow> pyval \<Rightarrow> 't \<Rightarrow> (exc + unit) \<times> 't"
    and fail_op :: "string \<Rightarrow> string \<Rightarrow> string \<Rightarrow> 't \<Rightarrow> (exc + unit) \<times> 't"
    and payload :: "pyval \<Rightarrow> exc + json"
    and view :: "'t \<Rightarrow> idem_map"
    and wf :: "'t \<Rightarrow> bool"
  assumes begin_wf: "wf t \<Longrightarrow> wf (snd (begin_op now ns k d ttl t))"
    and complete_wf: "wf t \<Longrightarrow> wf (snd (complete_op ns k v t))"
    and fail_wf: "wf t \<Longrightarrow> wf (snd (fail_op ns k e t))"
    and begin_result: "wf t \<Longrightarrow> \<not> blank ns \<Longrightarrow> \<not> blank k
      \<Longrightarrow> fst (begin_op now ns k d ttl t) = fst (idem_spec_begin now ns k d ttl (view t))"
    and begin_view: "wf t \<Longrightarrow> \<not> blank ns \<Longrightarrow> \<not> blank k \<Longrightarrow>
      view (snd (begin_op now ns k d ttl t)) = snd (idem_spec_begin now ns k d ttl (view t))
      \<or> (\<exists>e. fst (begin_op now ns k d ttl t) = Inl e) \<and> view (snd (begin_op now ns k d ttl t)) = view t"
    and complete_spec: "wf t \<Longrightarrow> fst (complete_op ns k v t) = fst (idem_spec_finish (Completed (payload v)) ns k (view t))
      \<and> view (snd (complete_op ns k v t)) = snd (idem_spec_finish (Completed (payload v)) ns k (view t))"
    and fail_spec: "wf t \<Longrightarrow> fst (fail_op ns k e t) = fst (idem_spec_finish (Failed e) ns k (view t))
      \<and> view (snd (fail_op ns k e t)) = snd (idem_spec_finish (Failed e) ns k (view t))"
begin

definition held :: "string \<Rightarrow> string \<Rightarrow> string \<Rightarrow> int \<Rightarrow> 't \<Rightarrow> bool" where
  "held ns k dg T t \<longleftrightarrow> (\<exists>e. view t (ns, k) = Some e \<and> ie_digest e = dg \<and> T \<le> ie_expires e)"

lemma held_not_started:
  assumes "wf t" "held ns k dg T t" "now \<le> T" "\<not> blank ns" "\<not> blank k"
  shows "fst (begin_op now ns k d ttl t) \<noteq> Inr started_result"
  using assms by (auto simp: begin_result held_def idem_spec_begin_def idem_purge_def Let_def
      split: idem_phase.splits sum.splits if_splits)

lemma held_begin:
  assumes "wf t" "held ns k dg T t" "now \<le> T" "\<not> blank ns'" "\<not> blank k'"
  shows "held ns k dg T (snd (begin_op now ns' k' d ttl t))"
proof -
  obtain e where e: "view t (ns, k) = Some e" "ie_digest e = dg" "T \<le> ie_expires e" using assms(2) by (auto simp: held_def)
  then have "snd (idem_spec_begin now ns' k' d ttl (view t)) (ns, k) = Some e"
    using assms(3) by (auto simp: idem_spec_begin_def idem_purge_def Let_def split: option.splits if_splits)
  then show ?thesis
    using begin_view [OF assms(1,4,5), of now d ttl] e by (auto simp: held_def)
qed

lemma held_finish:
  "held ns k dg T t \<Longrightarrow> view t' = snd (idem_spec_finish ph ns' k' (view t)) \<Longrightarrow> held ns k dg T t'"
  by (auto simp: held_def idem_spec_finish_def split: option.splits if_splits)

lemma held_exec:
  assumes "wf t" "held ns k dg T t" "list_all (op_before T) ops"
  shows "(ns, k, Some (Inr started_result)) \<notin> set (fst (idem_exec begin_op complete_op fail_op ops t))
    \<and> wf (snd (idem_exec begin_op complete_op fail_op ops t)) \<and> held ns k dg T (snd (idem_exec begin_op complete_op fail_op ops t))"
  using assms
proof (induction ops arbitrary: t)
  case (Cons op ops)
  show ?case
  proof (cases op)
    case (OpBegin now ns' k' d ttl)
    then show ?thesis
      using Cons.prems Cons.IH [of "snd (begin_op now ns' k' d ttl t)"] held_not_started [of t ns k dg T now d ttl] held_begin [of t ns k dg T now ns' k' d ttl]
        begin_wf [of t now ns' k' d ttl]
      by (auto simp: Let_def split: prod.splits)
  next
    case (OpComplete ns' k' v)
    then show ?thesis
      using Cons.prems Cons.IH [of "snd (complete_op ns' k' v t)"] held_finish [of ns k dg T t] complete_spec [of t ns' k' v] complete_wf [of t ns' k' v]
      by (auto simp: Let_def split: prod.splits)
  next
    case (OpFail ns' k' e)
    then show ?thesis
      using Cons.prems Cons.IH [of "snd (fail_op ns' k' e t)"] held_finish [of ns k dg T t] fail_spec [of t ns' k' e] fail_wf [of t ns' k' e]
      by (auto simp: Let_def split: prod.splits)
  qed
qed simp

lemma started_held:
  assumes "wf t" "\<not> blank ns" "\<not> blank k" "fst (begin_op now ns k d ttl t) = Inr started_result"
  shows "view (snd (begin_op now ns k d ttl t)) (ns, k)
    = Some \<lparr>ie_digest = d, ie_phase = Pending, ie_expires = idem_expiry now ttl\<rparr>"
proof -
  have "fst (idem_spec_begin now ns k d ttl (view t)) = Inr started_result"
    using assms begin_result by simp
  then have "snd (idem_spec_begin now ns k d ttl (view t)) (ns, k)
      = Some \<lparr>ie_digest = d, ie_phase = Pending, ie_expires = idem_expiry now ttl\<rparr>"
    by (auto simp: idem_spec_begin_def Let_def split: option.splits if_splits idem_phase.splits sum.splits)
  then show ?thesis using begin_view [OF assms(1-3), of now d ttl] assms(4) by auto
qed

lemma at_most_one_start:
  assumes "wf t" "\<not> blank ns" "\<not> blank k" "fst (begin_op now ns k d ttl t) = Inr started_result"
    and "list_all (op_before (idem_expiry now ttl)) ops"
  shows "(ns, k, Some (Inr started_result))
    \<notin> set (fst (idem_exec begin_op complete_op fail_op ops (snd (begin_op now ns k d ttl t))))"
proof -
  have "held ns k d (idem_expiry now ttl) (snd (begin_op now ns k d ttl t))"
    using started_held [OF assms(1-4)] by (simp add: held_def)
  then show ?thesis using held_exec [OF begin_wf [OF assms(1)] _ assms(5)] by blast
qed

lemma replay_result:
  assumes "wf t" "\<not> blank ns" "\<not> blank k" "fst (begin_op now ns k d ttl t) = Inr started_result"
    and "t1 = snd (begin_op now ns k d ttl t)" and "later \<le> idem_expiry now ttl"
  shows "fst (complete_op ns k v t1) = Inr ()
    \<and> fst (begin_op later ns k d' ttl' (snd (complete_op ns k v t1)))
      = (if d' = d then (case payload v of Inl e \<Rightarrow> Inl e | Inr j \<Rightarrow> Inr (completed_result j))
         else Inl (IdempotencyConflict ''Idempotency key was used for a different request''))"
proof -
  have v1: "view t1 (ns, k) = Some \<lparr>ie_digest = d, ie_phase = Pending, ie_expires = idem_expiry now ttl\<rparr>"
    using started_held [OF assms(1-4)] assms(5) by simp
  have wf1: "wf t1" using begin_wf [OF assms(1)] assms(5) by simp
  have "view (snd (complete_op ns k v t1)) (ns, k)
      = Some \<lparr>ie_digest = d, ie_phase = Completed (payload v), ie_expires = idem_expiry now ttl\<rparr>"
    using complete_spec [OF wf1, of ns k v] v1 by (simp add: idem_spec_finish_def)
  then show ?thesis
    using complete_spec [OF wf1, of ns k v] v1 assms(6)
      begin_result [OF complete_wf [OF wf1, of ns k v] assms(2,3), of later d' ttl']
    by (auto simp: idem_spec_finish_def idem_spec_begin_def idem_purge_def split: sum.splits)
qed

end

section \<open>Both stores implement it\<close>

definition idem_keys_distinct :: "'a idem_row_scheme list \<Rightarrow> bool" where
  "idem_keys_distinct t \<longleftrightarrow> distinct (map (\<lambda>r. (ir_namespace r, ir_key r)) t)
     \<and> (\<forall>r\<in>set t. ir_status r \<in> {''pending'', ''completed'', ''failed''})"

definition idem_view :: "('a idem_row_scheme \<Rightarrow> exc + json) \<Rightarrow> 'a idem_row_scheme list \<Rightarrow> idem_map" where
  "idem_view resp t x = map_option (\<lambda>r. \<lparr>ie_digest = ir_digest r,
     ie_phase = (if ir_status r = ''completed'' then Completed (resp r)
                 else if ir_status r = ''failed'' then Failed (ir_error r) else Pending),
     ie_expires = ir_expires r\<rparr>) (find (row_is (fst x) (snd x)) t)"

definition sqlite_wf :: "sqlite_idem_row list \<Rightarrow> bool" where
  "sqlite_wf t \<longleftrightarrow> idem_keys_distinct t"

definition sqlite_response :: "(string \<Rightarrow> exc + json) \<Rightarrow> sqlite_idem_row \<Rightarrow> exc + json" where
  "sqlite_response loads r = (case ir_response_text r of
     None \<Rightarrow> Inl (TypeError ''the JSON object must be str, bytes or bytearray, not NoneType'') | Some text \<Rightarrow> loads text)"

lemma row_is_unique:
  "idem_keys_distinct t \<Longrightarrow> r \<in> set t \<Longrightarrow> r' \<in> set t \<Longrightarrow> row_is ns k r \<Longrightarrow> row_is ns k r' \<Longrightarrow> r = r'"
  unfolding idem_keys_distinct_def row_is_def by (rule distinct_key_unique [where k = "\<lambda>r. (ir_namespace r, ir_key r)" and t = t]) auto

lemma find_sql_delete_key:
  assumes "idem_keys_distinct t"
  shows "find (row_is ns k) (sql_delete p t) = (case find (row_is ns k) t of
     None \<Rightarrow> None | Some r \<Rightarrow> if p r then None else Some r)"
proof (cases "find (row_is ns k) t")
  case None
  then have "find (row_is ns k) (sql_delete p t) = None" by (simp add: find_None_conv)
  then show ?thesis using None by simp
next
  case (Some r)
  then have r: "r \<in> set t" "row_is ns k r" using find_Some_prop [OF Some] by auto
  show ?thesis
  proof (cases "find (row_is ns k) (sql_delete p t)")
    case None
    then show ?thesis using Some r by (auto simp: find_None_conv)
  next
    case (Some r')
    then have "r' \<in> set t" "row_is ns k r'" "\<not> p r'" using find_Some_prop by fastforce+
    then have "r' = r" using row_is_unique [OF assms] r by blast
    then show ?thesis using Some \<open>find (row_is ns k) t = Some r\<close> \<open>\<not> p r'\<close> by simp
  qed
qed

lemma idem_view_delete:
  "idem_keys_distinct t \<Longrightarrow> idem_view resp (sql_delete (\<lambda>r. ir_expires r < now) t) = idem_purge now (idem_view resp t)"
  by (rule ext) (simp add: idem_view_def idem_purge_def find_sql_delete_key split: option.splits)

lemma idem_keys_delete [intro]: "idem_keys_distinct t \<Longrightarrow> idem_keys_distinct (sql_delete p t)"
  by (auto simp: idem_keys_distinct_def sql_delete_def distinct_map_filter)

lemma idem_keys_append [intro]:
  "idem_keys_distinct t \<Longrightarrow> find (row_is (ir_namespace r) (ir_key r)) t = None \<Longrightarrow> ir_status r = ''pending''
   \<Longrightarrow> idem_keys_distinct (t @ [r])"
  by (auto simp: idem_keys_distinct_def find_None_conv row_is_def)

lemma idem_view_append:
  "find (row_is (ir_namespace r) (ir_key r)) t = None \<Longrightarrow> ir_status r = ''pending'' \<Longrightarrow>
   idem_view resp (t @ [r]) = (idem_view resp t)((ir_namespace r, ir_key r)
     \<mapsto> \<lparr>ie_digest = ir_digest r, ie_phase = Pending, ie_expires = ir_expires r\<rparr>)"
  by (rule ext) (auto simp: idem_view_def find_append row_is_def split: option.splits)

lemma pending_count:
  assumes "idem_keys_distinct t"
  shows "rowcount (pending_row ns k) t = 1 \<longleftrightarrow> (\<exists>r\<in>set t. pending_row ns k r)"
  by (rule rowcount_eq_one [where k = "\<lambda>r. (ir_namespace r, ir_key r)" and v = "(ns, k)"])
     (use assms in \<open>auto simp: idem_keys_distinct_def pending_row_def row_is_def\<close>)

lemma pending_find:
  assumes "idem_keys_distinct t"
  shows "(\<exists>r\<in>set t. pending_row ns k r) \<longleftrightarrow> (\<exists>r. find (row_is ns k) t = Some r \<and> ir_status r = ''pending'')"
proof
  assume "\<exists>r\<in>set t. pending_row ns k r"
  then obtain r where r: "r \<in> set t" "row_is ns k r" "ir_status r = ''pending''" by (auto simp: pending_row_def)
  obtain r' where "find (row_is ns k) t = Some r'" using find_ex [where p = "row_is ns k", OF r(1,2)] by auto
  then show "\<exists>r. find (row_is ns k) t = Some r \<and> ir_status r = ''pending''"
    using r row_is_unique [OF assms] find_Some_prop by metis
next
  assume "\<exists>r. find (row_is ns k) t = Some r \<and> ir_status r = ''pending''"
  then show "\<exists>r\<in>set t. pending_row ns k r"
    using find_Some_prop by (fastforce simp: pending_row_def)
qed

text \<open>An update of the pending row of a key, as \<^verbatim>\<open>complete\<close> and \<^verbatim>\<open>fail\<close> make it.\<close>

definition finishes :: "('a idem_row_scheme \<Rightarrow> exc + json) \<Rightarrow> idem_phase \<Rightarrow> ('a idem_row_scheme \<Rightarrow> 'a idem_row_scheme) \<Rightarrow> bool" where
  "finishes resp ph f \<longleftrightarrow> (\<forall>r. ir_namespace (f r) = ir_namespace r \<and> ir_key (f r) = ir_key r
     \<and> ir_digest (f r) = ir_digest r \<and> ir_expires (f r) = ir_expires r
     \<and> (ir_status (f r) = ''completed'' \<and> ph = Completed (resp (f r)) \<or> ir_status (f r) = ''failed'' \<and> ph = Failed (ir_error (f r))))"

lemma finish_keys:
  assumes "idem_keys_distinct t" "finishes resp ph f"
  shows "idem_keys_distinct (sql_update (pending_row ns k) f t)"
proof -
  have "map (\<lambda>r. (ir_namespace r, ir_key r)) (sql_update (pending_row ns k) f t) = map (\<lambda>r. (ir_namespace r, ir_key r)) t"
    by (rule map_sql_update) (use assms in \<open>auto simp: finishes_def\<close>)
  moreover have "\<forall>r\<in>set (sql_update (pending_row ns k) f t). ir_status r \<in> {''pending'', ''completed'', ''failed''}"
    using assms by (auto simp: set_sql_update idem_keys_distinct_def finishes_def)
  ultimately show ?thesis using assms(1) by (simp add: idem_keys_distinct_def)
qed

lemma finish_view:
  assumes "idem_keys_distinct t" "finishes resp ph f"
  shows "(if rowcount (pending_row ns k) t \<noteq> 1 then (Inl (KeyError k), idem_view resp t)
      else (Inr (), idem_view resp (sql_update (pending_row ns k) f t))) = idem_spec_finish ph ns k (idem_view resp t)"
proof (cases "\<exists>r. find (row_is ns k) t = Some r \<and> ir_status r = ''pending''")
  case False
  then have "rowcount (pending_row ns k) t \<noteq> 1"
    using pending_count [OF assms(1)] pending_find [OF assms(1)] by metis
  moreover have "ir_status r \<noteq> ''pending'' \<and> ir_status r \<in> {''pending'', ''completed'', ''failed''}"
    if "find (row_is ns k) t = Some r" for r
    using that False find_Some_prop [OF that] assms(1) by (auto simp: idem_keys_distinct_def)
  ultimately show ?thesis
    by (auto simp: idem_spec_finish_def idem_view_def split: option.splits)
next
  case True
  then obtain r where r: "find (row_is ns k) t = Some r" "ir_status r = ''pending''" by blast
  have one: "rowcount (pending_row ns k) t = 1"
    using True pending_count [OF assms(1)] pending_find [OF assms(1)] by metis
  have upd: "find (row_is a b) (sql_update (pending_row ns k) f t)
      = map_option (\<lambda>r. if pending_row ns k r then f r else r) (find (row_is a b) t)" for a b
    by (rule find_sql_update) (use assms(2) in \<open>auto simp: finishes_def row_is_def\<close>)
  have "idem_view resp (sql_update (pending_row ns k) f t) x
      = ((idem_view resp t)((ns, k) \<mapsto> \<lparr>ie_digest = ir_digest r, ie_phase = ph, ie_expires = ir_expires r\<rparr>)) x" for x
  proof (cases "x = (ns, k)")
    case True
    have "pending_row ns k r" using r find_Some_prop [OF r(1)] by (simp add: pending_row_def)
    moreover have "ir_status (f r) = ''completed'' \<and> ph = Completed (resp (f r)) \<or> ir_status (f r) = ''failed'' \<and> ph = Failed (ir_error (f r))"
      "ir_digest (f r) = ir_digest r" "ir_expires (f r) = ir_expires r" using assms(2) by (auto simp: finishes_def)
    ultimately show ?thesis using True r upd [of ns k] by (auto simp: idem_view_def)
  next
    case False
    have "\<not> pending_row ns k r'" if "find (row_is (fst x) (snd x)) t = Some r'" for r'
      using that False find_Some_prop [OF that] by (auto simp: pending_row_def row_is_def)
    then show ?thesis using False upd [of "fst x" "snd x"]
      by (cases "find (row_is (fst x) (snd x)) t") (auto simp: idem_view_def)
  qed
  then show ?thesis
    using one r by (auto simp: idem_spec_finish_def idem_view_def [of resp t] intro: ext)
qed

lemma finish_op:
  assumes "idem_keys_distinct t" "finishes resp ph f"
    and "res = (if rowcount (pending_row ns k) t \<noteq> 1 then (Inl (KeyError k), t) else (Inr (), sql_update (pending_row ns k) f t))"
  shows "idem_keys_distinct (snd res)" "fst res = fst (idem_spec_finish ph ns k (idem_view resp t))"
    "idem_view resp (snd res) = snd (idem_spec_finish ph ns k (idem_view resp t))"
  using finish_view [OF assms(1,2), of ns k, symmetric] finish_keys [OF assms(1,2), of ns k] assms
  by (auto split: if_splits)

text \<open>The reading half of \<^verbatim>\<open>begin\<close> on the view.\<close>

lemma idem_spec_begin_None:
  "idem_purge now m (ns, k) = None \<Longrightarrow> idem_spec_begin now ns k d ttl m = (Inr started_result,
     (idem_purge now m)((ns, k) \<mapsto> \<lparr>ie_digest = d, ie_phase = Pending, ie_expires = idem_expiry now ttl\<rparr>))"
  by (simp add: idem_spec_begin_def)

lemma idem_view_find:
  "idem_view resp t (ns, k) = map_option (\<lambda>r. \<lparr>ie_digest = ir_digest r,
     ie_phase = (if ir_status r = ''completed'' then Completed (resp r)
                 else if ir_status r = ''failed'' then Failed (ir_error r) else Pending),
     ie_expires = ir_expires r\<rparr>) (find (row_is ns k) t)"
  by (simp add: idem_view_def)

lemma sqlite_begin_refines:
  fixes loads
  assumes "idem_keys_distinct t" "\<not> blank ns" "\<not> blank k"
  defines "m \<equiv> idem_view (sqlite_response loads) t"
  shows "idem_keys_distinct (snd (sqlite_begin loads now ns k d ttl t))
    \<and> fst (sqlite_begin loads now ns k d ttl t) = fst (idem_spec_begin now ns k d ttl m)
    \<and> (idem_view (sqlite_response loads) (snd (sqlite_begin loads now ns k d ttl t)) = snd (idem_spec_begin now ns k d ttl m)
       \<or> (\<exists>e. fst (sqlite_begin loads now ns k d ttl t) = Inl e)
          \<and> idem_view (sqlite_response loads) (snd (sqlite_begin loads now ns k d ttl t)) = m)"
proof -
  let ?t1 = "sql_delete (\<lambda>r. ir_expires r < now) t"
  have m1: "idem_purge now m = idem_view (sqlite_response loads) ?t1"
    using idem_view_delete [OF assms(1)] m_def by simp
  show ?thesis
  proof (cases "find (row_is ns k) ?t1")
    case None
    then show ?thesis
      using assms(1-3) m1 idem_spec_begin_None [of now m ns k d ttl]
      by (auto simp: sqlite_begin_def idem_view_append intro!: idem_keys_append) (simp_all add: idem_view_find)
  next
    case (Some r)
    then show ?thesis
      using assms(1-3) m1 m_def
      by (auto simp: sqlite_begin_def idem_spec_begin_def idem_view_find sqlite_response_def split: option.splits sum.splits)
  qed
qed

lemma pg_begin_refines:
  fixes loads
  assumes "idem_keys_distinct t"
  defines "resp \<equiv> \<lambda>r. pg_response loads (ir_response_json r)"
  defines "m \<equiv> idem_view resp t"
  shows "idem_keys_distinct (snd (pg_begin loads now ns k d ttl t))
    \<and> fst (pg_begin loads now ns k d ttl t) = fst (idem_spec_begin now ns k d ttl m)
    \<and> idem_view resp (snd (pg_begin loads now ns k d ttl t)) = snd (idem_spec_begin now ns k d ttl m)"
proof -
  let ?t1 = "sql_delete (\<lambda>r. ir_expires r < now) t"
  have m1: "idem_purge now m = idem_view resp ?t1"
    using idem_view_delete [OF assms(1)] m_def by simp
  show ?thesis
  proof (cases "find (row_is ns k) ?t1")
    case None
    then show ?thesis
      using assms(1) m1 idem_spec_begin_None [of now m ns k d ttl]
      by (auto simp: pg_begin_def Let_def find_append row_is_def idem_view_append intro!: idem_keys_append) (simp_all add: idem_view_find row_is_def)
  next
    case (Some r)
    then show ?thesis
      using assms(1) m1
      by (auto simp: pg_begin_def idem_spec_begin_def idem_view_find resp_def split: sum.splits)
  qed
qed

lemma sqlite_complete_finishes:
  "finishes (sqlite_response loads) (Completed (loads (canon v)))
     (\<lambda>r. r\<lparr>ir_status := ''completed'', ir_response_text := Some (canon v), ir_error := []\<rparr>)"
  by (simp add: finishes_def sqlite_response_def)

lemma fail_finishes: "finishes resp (Failed e) (\<lambda>r. r\<lparr>ir_status := ''failed'', ir_error := e\<rparr>)"
  by (simp add: finishes_def)

lemma pg_complete_finishes:
  "finishes (\<lambda>r. pg_response loads (ir_response_json r)) (Completed (pg_response loads (Some (conv v))))
     (\<lambda>r. r\<lparr>ir_status := ''completed'', ir_response_json := Some (conv v), ir_error := [], ir_revision := ir_revision r + 1\<rparr>)"
  by (simp add: finishes_def)

lemma pg_fail_finishes:
  "finishes (\<lambda>r. pg_response loads (ir_response_json r)) (Failed e) (\<lambda>r. r\<lparr>ir_status := ''failed'', ir_error := e, ir_revision := ir_revision r + 1\<rparr>)"
  by (simp add: finishes_def)

interpretation sqlite_idem: idempotency_store
  "sqlite_begin loads" "sqlite_complete canon" sqlite_fail "\<lambda>v. loads (canon v)" "idem_view (sqlite_response loads)" idem_keys_distinct
  for loads canon
proof unfold_locales
  fix t :: "sqlite_idem_row list" and now ns k d ttl v e
  assume wf: "idem_keys_distinct t"
  show "idem_keys_distinct (snd (sqlite_begin loads now ns k d ttl t))"
  proof (cases "blank ns \<or> blank k")
    case True
    then show ?thesis using wf by (simp add: sqlite_begin_def)
  next
    case False
    then show ?thesis using sqlite_begin_refines [OF wf] by blast
  qed
  note c = finish_op [OF wf sqlite_complete_finishes [of loads canon v] sqlite_complete_def [of canon ns k v t]]
  note f = finish_op [OF wf fail_finishes [of "sqlite_response loads" e] sqlite_fail_def [of ns k e t]]
  show "idem_keys_distinct (snd (sqlite_complete canon ns k v t))" by (rule c(1))
  show "idem_keys_distinct (snd (sqlite_fail ns k e t))" by (rule f(1))
  show "fst (sqlite_complete canon ns k v t) = fst (idem_spec_finish (Completed (loads (canon v))) ns k (idem_view (sqlite_response loads) t))
    \<and> idem_view (sqlite_response loads) (snd (sqlite_complete canon ns k v t)) = snd (idem_spec_finish (Completed (loads (canon v))) ns k (idem_view (sqlite_response loads) t))"
    using c(2,3) by simp
  show "fst (sqlite_fail ns k e t) = fst (idem_spec_finish (Failed e) ns k (idem_view (sqlite_response loads) t))
    \<and> idem_view (sqlite_response loads) (snd (sqlite_fail ns k e t)) = snd (idem_spec_finish (Failed e) ns k (idem_view (sqlite_response loads) t))"
    using f(2,3) by simp
qed (use sqlite_begin_refines in blast)+

interpretation pg_idem: idempotency_store
  "pg_begin loads" "pg_complete conv" pg_fail "\<lambda>v. pg_response loads (Some (conv v))"
  "idem_view (\<lambda>r. pg_response loads (ir_response_json r))" idem_keys_distinct
  for loads conv
proof unfold_locales
  fix t :: "pg_idem_row list" and now ns k d ttl v e
  assume wf: "idem_keys_distinct t"
  let ?resp = "\<lambda>r. pg_response loads (ir_response_json r)"
  note c = finish_op [OF wf pg_complete_finishes [of loads conv v] pg_complete_def [of conv ns k v t]]
  note f = finish_op [OF wf pg_fail_finishes [of loads e] pg_fail_def [of ns k e t]]
  show "idem_keys_distinct (snd (pg_begin loads now ns k d ttl t))" using pg_begin_refines [OF wf] by blast
  show "idem_keys_distinct (snd (pg_complete conv ns k v t))" by (rule c(1))
  show "idem_keys_distinct (snd (pg_fail ns k e t))" by (rule f(1))
  show "fst (pg_complete conv ns k v t) = fst (idem_spec_finish (Completed (pg_response loads (Some (conv v)))) ns k (idem_view ?resp t))
    \<and> idem_view ?resp (snd (pg_complete conv ns k v t)) = snd (idem_spec_finish (Completed (pg_response loads (Some (conv v)))) ns k (idem_view ?resp t))"
    using c(2,3) by simp
  show "fst (pg_fail ns k e t) = fst (idem_spec_finish (Failed e) ns k (idem_view ?resp t))
    \<and> idem_view ?resp (snd (pg_fail ns k e t)) = snd (idem_spec_finish (Failed e) ns k (idem_view ?resp t))"
    using f(2,3) by simp
qed (use pg_begin_refines in blast)+

section \<open>Theorems\<close>

text \<open>C14: Once a request has been started under a key of either store, no sequence of later requests,
  completions and failures, of any caller and on any key, starts it again before its record
  expires: the protected call runs at most once per key and time to live.\<close>

theorem idempotent_at_most_one_start:
  assumes "\<not> blank ns" "\<not> blank k" "list_all (op_before (idem_expiry now ttl)) ops"
  shows "(idem_keys_distinct t \<and> fst (sqlite_begin loads now ns k d ttl t) = Inr started_result \<longrightarrow>
      (ns, k, Some (Inr started_result))
      \<notin> set (fst (idem_exec (sqlite_begin loads) (sqlite_complete canon) sqlite_fail ops (snd (sqlite_begin loads now ns k d ttl t)))))
    \<and> (idem_keys_distinct u \<and> fst (pg_begin loads now ns k d ttl u) = Inr started_result \<longrightarrow>
      (ns, k, Some (Inr started_result))
      \<notin> set (fst (idem_exec (pg_begin loads) (pg_complete conv) pg_fail ops (snd (pg_begin loads now ns k d ttl u)))))"
  using sqlite_idem.at_most_one_start [OF _ assms(1,2) _ assms(3)] pg_idem.at_most_one_start [OF _ assms(1,2) _ assms(3)]
  by blast

definition demo_ops :: "idem_op list" where
  "demo_ops = [OpBegin 1 ''ns'' ''k'' ''d'' 60, OpFail ''ns'' ''k'' ''boom'', OpBegin 2 ''ns'' ''k'' ''d'' 60]"

theorem idempotent_at_most_one_start_witness:
  "(''ns'', ''k'', Some (Inr started_result)) \<notin> set (fst (idem_exec (sqlite_begin (\<lambda>_. Inr JNull)) (sqlite_complete (\<lambda>_. [])) sqlite_fail
     demo_ops (snd (sqlite_begin (\<lambda>_. Inr JNull) 0 ''ns'' ''k'' ''d'' 60 []))))"
  using idempotent_at_most_one_start [of "''ns''" "''k''" 0 60 demo_ops "[]" "\<lambda>_. Inr JNull" "''d''" "\<lambda>_. []"]
  by (simp add: demo_ops_def idem_expiry_def idem_keys_distinct_def sqlite_begin_def sql_delete_def blank_def strip_def lstrip_def rstrip_def py_space_def)

text \<open>After a started request has completed, the same request under the same key replays the
  stored response (its canonical JSON form) and a different request is refused, until the record
  expires.\<close>

theorem sqlite_replays_response:
  assumes "idem_keys_distinct t" "\<not> blank ns" "\<not> blank k" "later \<le> idem_expiry now ttl"
    and "sqlite_begin loads now ns k d ttl t = (Inr started_result, t1)"
    and "wf_pyval v" "loads (canonical_json fr orr v) = Inr (sort_keys (to_jsonable fr orr v))"
  shows "\<exists>t2. sqlite_complete (response_text fr orr) ns k v t1 = (Inr (), t2)
    \<and> fst (sqlite_begin loads later ns k d ttl' t2) = Inr (completed_result (sort_keys (to_jsonable fr orr v)))
    \<and> (\<forall>d'. d' \<noteq> d \<longrightarrow> fst (sqlite_begin loads later ns k d' ttl' t2)
         = Inl (IdempotencyConflict ''Idempotency key was used for a different request''))"
proof -
  have stored: "loads (response_text fr orr v) = Inr (sort_keys (to_jsonable fr orr v))"
    using assms(6,7) by (simp add: response_text_def canonical_json_again)
  have start: "fst (sqlite_begin loads now ns k d ttl t) = Inr started_result"
      "t1 = snd (sqlite_begin loads now ns k d ttl t)" using assms(5) by simp_all
  note r = sqlite_idem.replay_result [OF assms(1-3) start assms(4), where canon = "response_text fr orr" and v = v and ttl' = ttl']
  obtain t2 where t2: "sqlite_complete (response_text fr orr) ns k v t1 = (Inr (), t2)"
    using r by (cases "sqlite_complete (response_text fr orr) ns k v t1") auto
  have "fst (sqlite_begin loads later ns k d' ttl' t2)
      = (if d' = d then Inr (completed_result (sort_keys (to_jsonable fr orr v)))
         else Inl (IdempotencyConflict ''Idempotency key was used for a different request''))" for d'
    using r [where d' = d'] t2 stored by simp
  then show ?thesis using t2 by simp
qed

text \<open>The row a first request leaves in an empty SQLite table.\<close>

definition demo_row :: sqlite_idem_row where
  "demo_row = \<lparr>ir_namespace = ''ns'', ir_key = ''k'', ir_digest = ''d'', ir_status = ''pending'', ir_error = [],
     ir_created = 0, ir_expires = 60000000, ir_response_text = None\<rparr>"

definition demo_loads :: "string \<Rightarrow> exc + json" where
  "demo_loads s = (if s = [CHR 0x22, CHR ''o'', CHR ''k'', CHR 0x22] then Inr (JStr ''ok'') else Inl (ValueError ''Expecting value''))"

lemma not_blank_demo [simp]: "\<not> blank ''ns''" "\<not> blank ''k''"
  by (simp_all add: blank_def strip_def lstrip_def rstrip_def py_space_def)

lemma demo_begin: "sqlite_begin demo_loads 0 ''ns'' ''k'' ''d'' 60 [] = (Inr started_result, [demo_row])"
  by (simp add: sqlite_begin_def sql_delete_def demo_row_def idem_expiry_def)

lemma demo_text: "canonical_json fr orr (PStr ''ok'') = [CHR 0x22, CHR ''o'', CHR ''k'', CHR 0x22]"
  by (simp add: canonical_json_def json_dumps_def json_string_def escape_char_def short_escape_def)

theorem sqlite_replays_response_witness:
  "\<exists>t2. sqlite_complete (response_text ratio_repr (\<lambda>_. [])) ''ns'' ''k'' (PStr ''ok'') [demo_row] = (Inr (), t2)
    \<and> fst (sqlite_begin demo_loads 5 ''ns'' ''k'' ''d'' 60 t2) = Inr (completed_result (JStr ''ok''))"
  using sqlite_replays_response [of "[]" "''ns''" "''k''" 5 0 60 demo_loads "''d''" "[demo_row]" "PStr ''ok''" ratio_repr "\<lambda>_. []" 60]
  by (auto simp: demo_begin demo_text idem_keys_distinct_def demo_loads_def idem_expiry_def)

text \<open>The PostgreSQL store parses a replayed response a second time when the response is a string:
  a completed call that returned a string replays \<^verbatim>\<open>json.loads\<close> of that string, an exception for an
  ordinary text.\<close>

theorem pg_replay_of_string_parses_again:
  assumes "idem_keys_distinct t" "\<not> blank ns" "\<not> blank k" "later \<le> idem_expiry now ttl"
    and "pg_begin loads now ns k d ttl t = (Inr started_result, t1)" "loads s = Inl e"
  shows "\<exists>t2. pg_complete (to_jsonable fr orr) ns k (PStr s) t1 = (Inr (), t2)
    \<and> fst (pg_begin loads later ns k d ttl' t2) = Inl e"
proof -
  have start: "fst (pg_begin loads now ns k d ttl t) = Inr started_result"
      "t1 = snd (pg_begin loads now ns k d ttl t)" using assms(5) by simp_all
  note r = pg_idem.replay_result [OF assms(1-3) start assms(4), where conv = "to_jsonable fr orr" and v = "PStr s"
      and ttl' = ttl' and d' = d]
  obtain t2 where t2: "pg_complete (to_jsonable fr orr) ns k (PStr s) t1 = (Inr (), t2)"
    using r by (cases "pg_complete (to_jsonable fr orr) ns k (PStr s) t1") auto
  then show ?thesis using r assms(6) by (simp add: pg_response_def)
qed

theorem pg_replay_of_string_parses_again_witness:
  "\<exists>t1 t2. pg_begin demo_loads 0 ''ns'' ''k'' ''d'' 60 [] = (Inr started_result, t1)
    \<and> pg_complete (to_jsonable ratio_repr (\<lambda>_. [])) ''ns'' ''k'' (PStr ''hello'') t1 = (Inr (), t2)
    \<and> fst (pg_begin demo_loads 5 ''ns'' ''k'' ''d'' 60 t2) = Inl (ValueError ''Expecting value'')"
proof -
  obtain t1 where t1: "pg_begin demo_loads 0 ''ns'' ''k'' ''d'' 60 [] = (Inr started_result, t1)"
    by (simp add: pg_begin_def sql_delete_def row_is_def)
  from pg_replay_of_string_parses_again [OF _ _ _ _ t1, of 5 "''hello''" "ValueError ''Expecting value''" ratio_repr "\<lambda>_. []" 60]
  show ?thesis using t1 by (auto simp: idem_keys_distinct_def idem_expiry_def demo_loads_def)
qed

text \<open>Through the policy, a key answers only the request it was first used for: when a later
  \<^verbatim>\<open>prepare\<close> under the same key is answered before the record expires, whatever happened in between,
  its arguments have the same canonical form as those of the first, unless the two digests collide.\<close>

theorem prepare_answers_same_request:
  assumes "idem_keys_distinct t" "\<not> blank (ip_namespace p)" "later \<le> idem_expiry now (ip_ttl_seconds p)"
    and "prepare (sqlite_begin loads now) (digest_value sha fr orr) p args kwargs t = (Inr (key, d, started_result), t1)"
    and "list_all (op_before (idem_expiry now (ip_ttl_seconds p))) ops"
    and "prepare (sqlite_begin loads later) (digest_value sha fr orr) p args' kwargs'
           (snd (idem_exec (sqlite_begin loads) (sqlite_complete canon) sqlite_fail ops t1)) = (Inr (key, d', res), t2)"
  shows "canonical_json fr orr (request_value args' kwargs') = canonical_json fr orr (request_value args kwargs)
    \<or> collision sha (canonical_json fr orr (request_value args' kwargs')) (canonical_json fr orr (request_value args kwargs))"
proof -
  let ?ns = "ip_namespace p" and ?T = "idem_expiry now (ip_ttl_seconds p)"
  let ?u = "snd (idem_exec (sqlite_begin loads) (sqlite_complete canon) sqlite_fail ops t1)"
  have first: "sqlite_begin loads now ?ns key d (ip_ttl_seconds p) t = (Inr started_result, t1)"
      "d = digest_value sha fr orr (request_value args kwargs)" "\<exists>raw. key = strip raw \<and> strip raw \<noteq> []"
    using assms(4) by (auto simp: prepare_def Let_def split: sum.splits if_splits prod.splits)
  have second: "sqlite_begin loads later ?ns key d' (ip_ttl_seconds p) ?u = (Inr res, t2)"
      "d' = digest_value sha fr orr (request_value args' kwargs')"
    using assms(6) by (auto simp: prepare_def Let_def split: sum.splits if_splits prod.splits)
  have key: "\<not> blank key" using first(3) by (auto simp: blank_def)
  have "sqlite_idem.held loads ?ns key d ?T t1"
    using sqlite_idem.started_held [OF assms(1,2) key, of loads now d "ip_ttl_seconds p"] first(1)
    by (simp add: sqlite_idem.held_def)
  moreover have "idem_keys_distinct t1"
    using sqlite_idem.begin_wf [OF assms(1), of loads now ?ns key d "ip_ttl_seconds p"] first(1) by simp
  ultimately have "idem_keys_distinct ?u \<and> sqlite_idem.held loads ?ns key d ?T ?u"
    using sqlite_idem.held_exec [OF _ _ assms(5), of t1 loads ?ns key d canon] by blast
  then have "d' = d"
    using sqlite_idem.begin_result [OF _ assms(2) key, of ?u loads later d' "ip_ttl_seconds p"] second(1) assms(3)
    by (auto simp: idem_spec_begin_def idem_purge_def sqlite_idem.held_def split: if_splits)
  then show ?thesis using first(2) second(2) by (auto simp: digest_value_def collision_def)
qed

definition demo_idem_policy :: idempotency_policy where
  "demo_idem_policy = \<lparr>ip_namespace = ''ns'', ip_key_factory = (\<lambda>_ _. Inr ''k''), ip_ttl_seconds = 60\<rparr>"

definition demo_request_digest :: string where
  "demo_request_digest = digest_value (\<lambda>s. s) ratio_repr (\<lambda>_. []) (request_value [] [])"

theorem prepare_answers_same_request_witness:
  "\<exists>t1 t2 d. prepare (sqlite_begin demo_loads 0) (digest_value (\<lambda>s. s) ratio_repr (\<lambda>_. [])) demo_idem_policy [] [] []
      = (Inr (''k'', d, started_result), t1)
    \<and> prepare (sqlite_begin demo_loads 5) (digest_value (\<lambda>s. s) ratio_repr (\<lambda>_. [])) demo_idem_policy [] []
       (snd (idem_exec (sqlite_begin demo_loads) (sqlite_complete (\<lambda>_. [])) sqlite_fail [OpFail ''ns'' ''k'' ''boom''] t1))
      = (Inr (''k'', d, failed_result ''boom''), t2)
    \<and> (canonical_json ratio_repr (\<lambda>_. []) (request_value [] []) = canonical_json ratio_repr (\<lambda>_. []) (request_value [] [])
       \<or> collision (\<lambda>s. s) (canonical_json ratio_repr (\<lambda>_. []) (request_value [] [])) (canonical_json ratio_repr (\<lambda>_. []) (request_value [] [])))"
proof -
  let ?D = "digest_value (\<lambda>s. s) ratio_repr (\<lambda>_. [])"
  have sk: "strip ''k'' = ''k''" by (simp add: strip_def lstrip_def rstrip_def py_space_def)
  let ?r = "demo_row\<lparr>ir_digest := demo_request_digest\<rparr>"
  have p1: "prepare (sqlite_begin demo_loads 0) ?D demo_idem_policy [] [] [] = (Inr (''k'', demo_request_digest, started_result), [?r])"
    by (simp add: Let_def prepare_def demo_idem_policy_def sk sqlite_begin_def sql_delete_def demo_row_def idem_expiry_def demo_request_digest_def)
  have ex: "snd (idem_exec (sqlite_begin demo_loads) (sqlite_complete (\<lambda>_. [])) sqlite_fail [OpFail ''ns'' ''k'' ''boom''] [?r])
      = [?r\<lparr>ir_status := ''failed'', ir_error := ''boom''\<rparr>]"
    by (simp add: sqlite_fail_def rowcount_def pending_row_def row_is_def demo_row_def)
  have p2: "prepare (sqlite_begin demo_loads 5) ?D demo_idem_policy [] [] [?r\<lparr>ir_status := ''failed'', ir_error := ''boom''\<rparr>]
      = (Inr (''k'', demo_request_digest, failed_result ''boom''), [?r\<lparr>ir_status := ''failed'', ir_error := ''boom''\<rparr>])"
    by (simp add: Let_def prepare_def demo_idem_policy_def sk sqlite_begin_def sql_delete_def demo_row_def row_is_def demo_request_digest_def)
  show ?thesis
    using prepare_answers_same_request [of "[]" demo_idem_policy 5 0 demo_loads "\<lambda>s. s" ratio_repr "\<lambda>_. []" "[]" "[]" "''k''"
        demo_request_digest "[?r]" "[OpFail ''ns'' ''k'' ''boom'']" "[]" "[]" "\<lambda>_. []" demo_request_digest "failed_result ''boom''"
        "[?r\<lparr>ir_status := ''failed'', ir_error := ''boom''\<rparr>]"] p1 p2 ex
    by (auto simp: idem_keys_distinct_def demo_idem_policy_def idem_expiry_def)
qed

end
