(* ===== verification/Tools.thy ===== *)
theory Tools
  imports Guardrails Retry_Breaker Idempotency
begin

text \<open>
  \<^verbatim>\<open>agent_roi/runtime/tools.py\<close>: tool specifications, approval grants and the registry that binds
  tool names to handlers.  A handler is a first-order reference: its identity, the module and
  qualified name Python reports for it and whether it is a coroutine function; what it does when it
  runs is an argument of the execution context.  Circuit breakers and idempotency stores are shared
  objects, referred to by number.
\<close>

section \<open>Approval grants\<close>

record approval_grant =
  ag_action_digest :: string
  ag_approved_by :: string
  ag_expires_at_epoch_ms :: int
  ag_checkpoint_id :: "string option"
  ag_reason :: string

definition hex_char :: "char \<Rightarrow> bool" where
  "hex_char c \<longleftrightarrow> c \<in> set ''0123456789abcdefABCDEF''"

definition approval_grant_init :: "approval_grant \<Rightarrow> exc + approval_grant" where
  "approval_grant_init g =
     (if length (ag_action_digest g) \<noteq> 64 \<or> \<not> list_all hex_char (ag_action_digest g)
        then Inl (ValueError ''action_digest must be a SHA-256 hex digest'')
      else if blank (ag_approved_by g) then Inl (ValueError ''approved_by must be a non-empty string'')
      else Inr (g\<lparr>ag_approved_by := strip (ag_approved_by g)\<rparr>))"

definition approval_grant_validate :: "int \<Rightarrow> approval_grant \<Rightarrow> checkpoint \<Rightarrow> exc + unit" where
  "approval_grant_validate now_ms g ck =
     (if ag_action_digest g \<noteq> ck_action_digest ck
        then Inl (ValueError ''Approval grant does not match the requested action'')
      else if (case ag_checkpoint_id g of None \<Rightarrow> False | Some i \<Rightarrow> i \<noteq> [] \<and> i \<noteq> checkpoint_id ck)
        then Inl (ValueError ''Approval grant does not match the checkpoint'')
      else if now_ms > ag_expires_at_epoch_ms g then Inl (ValueError ''Approval grant has expired'')
      else Inr ())"

section \<open>Tool specifications\<close>

record handler =
  h_id :: nat
  h_module :: string
  h_qualname :: string
  h_async :: bool

record tool_spec =
  ts_name :: string
  ts_handler :: handler
  ts_description :: string
  ts_risk :: string
  ts_requires_approval :: bool
  ts_default_cost_usd :: pyfloat
  ts_version :: string
  ts_approval_ttl_seconds :: int
  ts_cost_estimator :: "(pyval list \<Rightarrow> (string \<times> pyval) list \<Rightarrow> exc + pyval) option"
  ts_timeout_seconds :: "pyfloat option"
  ts_retry_policy :: "retry_policy option"
  ts_circuit_breaker :: "nat option"
  ts_idempotency_policy :: "(nat \<times> idempotency_policy) option"

definition init_timeout :: "pyval option \<Rightarrow> exc + pyfloat option" where
  "init_timeout t = (case t of None \<Rightarrow> Inr None
     | Some v \<Rightarrow> (case py_float v of Inl e \<Rightarrow> Inl e
         | Inr x \<Rightarrow> if \<not> is_finite x \<or> fle x (Fin 0)
             then Inl (ToolRegistrationError ''timeout_seconds must be finite and > 0'') else Inr (Some x)))"

text \<open>The default cost and the timeout come as the caller passes them; the other fields of \<open>s\<close> are at
  their annotated types.\<close>

definition tool_spec_init :: "tool_spec \<Rightarrow> pyval \<Rightarrow> pyval option \<Rightarrow> exc + tool_spec" where
  "tool_spec_init s default_cost timeout =
     (if blank (ts_name s) then Inl (ToolRegistrationError ''Tool name must be a non-empty string'')
      else case py_float default_cost of Inl e \<Rightarrow> Inl e
      | Inr cost \<Rightarrow>
          if \<not> is_finite cost \<or> flt cost (Fin 0)
            then Inl (ToolRegistrationError ''default_cost_usd must be finite and nonnegative'')
          else if blank (ts_version s) then Inl (ToolRegistrationError ''version must be a non-empty string'')
          else if ts_approval_ttl_seconds s < 1
            then Inl (ToolRegistrationError ''approval_ttl_seconds must be an integer >= 1'')
          else case init_timeout timeout of Inl e \<Rightarrow> Inl e
          | Inr tmo \<Rightarrow> Inr (s\<lparr>ts_name := strip (ts_name s),
              ts_risk := lower (strip (if ts_risk s = [] then ''unknown'' else ts_risk s)),
              ts_default_cost_usd := cost, ts_version := strip (ts_version s), ts_timeout_seconds := tmo\<rparr>))"

definition ts_is_async :: "tool_spec \<Rightarrow> bool" where
  "ts_is_async s = h_async (ts_handler s)"

section \<open>Registry\<close>

record tool_registry =
  tr_tools :: "(string \<times> tool_spec) list"
  tr_frozen :: bool

definition tool_registry_init :: tool_registry where
  "tool_registry_init = \<lparr>tr_tools = [], tr_frozen = False\<rparr>"

definition register :: "tool_spec \<Rightarrow> bool \<Rightarrow> tool_registry \<Rightarrow> (exc + tool_spec) \<times> tool_registry" where
  "register spec replace r =
     (if tr_frozen r then (Inl (ToolRegistrationError ''ToolRegistry is frozen and cannot be modified''), r)
      else if map_of (tr_tools r) (ts_name spec) \<noteq> None \<and> \<not> replace
        then (Inl (ToolRegistrationError (''Tool '' @ ts_name spec @ '' is already registered'')), r)
      else (Inr spec, r\<lparr>tr_tools := AList.update (ts_name spec) spec (tr_tools r)\<rparr>))"

definition registry_add ::
    "tool_spec \<Rightarrow> pyval \<Rightarrow> pyval option \<Rightarrow> bool \<Rightarrow> tool_registry \<Rightarrow> (exc + tool_spec) \<times> tool_registry" where
  "registry_add s default_cost timeout replace r =
     (case tool_spec_init s default_cost timeout of Inl e \<Rightarrow> (Inl e, r)
      | Inr spec \<Rightarrow> register spec replace r)"

definition registry_get :: "string \<Rightarrow> tool_registry \<Rightarrow> tool_spec option" where
  "registry_get name r = map_of (tr_tools r) name"

definition registry_require :: "string \<Rightarrow> tool_registry \<Rightarrow> exc + tool_spec" where
  "registry_require name r = (case registry_get name r of
     None \<Rightarrow> Inl (ToolRegistrationError (''Tool '' @ name @ '' is not registered'')) | Some spec \<Rightarrow> Inr spec)"

definition registry_names :: "tool_registry \<Rightarrow> string set" where
  "registry_names r = fst ` set (tr_tools r)"

definition freeze :: "tool_registry \<Rightarrow> tool_registry" where
  "freeze r = r\<lparr>tr_frozen := True\<rparr>"

definition manifest_entry :: "tool_spec \<Rightarrow> (string \<times> pyval) list" where
  "manifest_entry s =
    [(''name'', PStr (ts_name s)), (''version'', PStr (ts_version s)), (''risk'', PStr (ts_risk s)),
     (''requires_approval'', PBool (ts_requires_approval s)), (''default_cost_usd'', PFloat (ts_default_cost_usd s)),
     (''timeout_seconds'', case ts_timeout_seconds s of None \<Rightarrow> PNone | Some x \<Rightarrow> PFloat x),
     (''retry_max_attempts'', PInt (case ts_retry_policy s of None \<Rightarrow> 1 | Some p \<Rightarrow> max_attempts p)),
     (''circuit_breaker'', PBool (ts_circuit_breaker s \<noteq> None)), (''idempotent'', PBool (ts_idempotency_policy s \<noteq> None)),
     (''handler_module'', PStr (h_module (ts_handler s))), (''handler_qualname'', PStr (h_qualname (ts_handler s)))]"

definition manifest :: "tool_registry \<Rightarrow> (string \<times> pyval) list list" where
  "manifest r = map (\<lambda>(_, s). manifest_entry s) (sort_key fst (tr_tools r))"

section \<open>Registry laws\<close>

definition wf_registry :: "tool_registry \<Rightarrow> bool" where
  "wf_registry r \<longleftrightarrow> distinct (map fst (tr_tools r)) \<and> (\<forall>(n, s)\<in>set (tr_tools r). ts_name s = n)"

text \<open>The operations of a registry, as one sequence of requests.\<close>

datatype registry_op = Register tool_spec bool | Add tool_spec pyval "pyval option" bool | Freeze

fun registry_step :: "registry_op \<Rightarrow> tool_registry \<Rightarrow> tool_registry" where
  "registry_step (Register s b) r = snd (register s b r)"
| "registry_step (Add s c t b) r = snd (registry_add s c t b r)"
| "registry_step Freeze r = freeze r"

definition registry_run :: "registry_op list \<Rightarrow> tool_registry \<Rightarrow> tool_registry" where
  "registry_run ops r = fold registry_step ops r"

lemma wf_registry_init: "wf_registry tool_registry_init"
  by (simp add: wf_registry_def tool_registry_init_def)

lemma set_update_subset: "set (AList.update k v d) \<subseteq> insert (k, v) (set d)"
  by (induction d) auto

lemma wf_register: "wf_registry r \<Longrightarrow> wf_registry (snd (register s b r))"
  using set_update_subset [of "ts_name s" s "tr_tools r"]
  by (auto simp: wf_registry_def register_def distinct_update)

lemma wf_freeze: "wf_registry (freeze r) \<longleftrightarrow> wf_registry r"
  by (simp add: wf_registry_def freeze_def)

lemma wf_registry_step: "wf_registry r \<Longrightarrow> wf_registry (registry_step op r)"
  by (cases op) (auto simp: registry_add_def wf_freeze wf_register split: sum.splits)

lemma wf_registry_run: "wf_registry r \<Longrightarrow> wf_registry (registry_run ops r)"
  by (induction ops arbitrary: r) (auto simp: registry_run_def wf_registry_step)

lemma registry_get_name: "wf_registry r \<Longrightarrow> registry_get n r = Some s \<Longrightarrow> ts_name s = n"
  by (auto simp: wf_registry_def registry_get_def dest!: map_of_SomeD)

lemma frozen_step: "tr_frozen r \<Longrightarrow> registry_step op r = r"
  by (cases op) (auto simp: register_def registry_add_def freeze_def split: sum.splits)

lemma frozen_run: "tr_frozen r \<Longrightarrow> registry_run ops r = r"
  by (induction ops) (auto simp: registry_run_def frozen_step)

section \<open>Theorems\<close>

text \<open>A frozen registry never changes, whatever is registered, replaced or added afterwards; before
  that a registration without \<^verbatim>\<open>replace\<close> never changes an existing binding, so a name keeps the
  handler it was first bound to.\<close>

theorem registry_bindings_stable:
  "registry_run ops (freeze r) = freeze r
   \<and> (registry_get n r = Some s \<longrightarrow> registry_get n (snd (register s' False r)) = Some s)"
proof -
  have "registry_run ops (freeze r) = freeze r" by (rule frozen_run) (simp add: freeze_def)
  then show ?thesis by (auto simp: register_def registry_get_def)
qed

text \<open>The manifest, whose digest is part of every run's evidence, lists every registered tool once,
  under the name it is called by, and depends only on the bindings, not on the order in which they
  were made.\<close>

theorem manifest_canonical:
  assumes "r1 = registry_run ops1 tool_registry_init" "r2 = registry_run ops2 tool_registry_init"
    and "\<forall>n. registry_get n r1 = registry_get n r2"
  shows "manifest r1 = manifest r2 \<and> map (\<lambda>e. map_of e ''name'') (manifest r1) = map (\<lambda>n. Some (PStr n)) (sorted_list_of_set (registry_names r1))"
proof -
  have wf: "wf_registry r1" "wf_registry r2"
    using assms(1,2) wf_registry_run wf_registry_init by auto
  have "sort_key fst (tr_tools r1) = sort_key fst (tr_tools r2)"
    using wf assms(3) by (intro sorted_keys_unique) (auto simp: wf_registry_def registry_get_def)
  moreover have "map (\<lambda>e. map_of e ''name'') (manifest r1) = map (\<lambda>(n, s). Some (PStr n)) (sort_key fst (tr_tools r1))"
    using wf(1) by (auto simp: manifest_def manifest_entry_def wf_registry_def)
  moreover have "map fst (sort_key fst (tr_tools r1)) = sorted_list_of_set (registry_names r1)"
    using wf(1) by (intro sorted_distinct_set_unique) (auto simp: wf_registry_def registry_names_def distinct_map_sort_key)
  moreover have "map (\<lambda>(n, s). Some (PStr n)) xs = map (\<lambda>n. Some (PStr n)) (map fst xs)" for xs :: "(string \<times> tool_spec) list"
    by auto
  ultimately have "map (\<lambda>e. map_of e ''name'') (manifest r1) = map (\<lambda>n. Some (PStr n)) (sorted_list_of_set (registry_names r1))"
    by metis
  with \<open>sort_key fst (tr_tools r1) = sort_key fst (tr_tools r2)\<close> show ?thesis by (simp add: manifest_def)
qed

text \<open>Two tools registered in either order.\<close>

definition demo_tool :: "string \<Rightarrow> tool_spec" where
  "demo_tool n = \<lparr>ts_name = n, ts_handler = \<lparr>h_id = 1, h_module = ''m'', h_qualname = ''f'', h_async = False\<rparr>,
     ts_description = [], ts_risk = ''low'', ts_requires_approval = True, ts_default_cost_usd = Fin 1, ts_version = ''1'',
     ts_approval_ttl_seconds = 900, ts_cost_estimator = None, ts_timeout_seconds = None, ts_retry_policy = None,
     ts_circuit_breaker = None, ts_idempotency_policy = None\<rparr>"

theorem manifest_canonical_witness:
  "manifest (registry_run [Register (demo_tool ''a'') False, Register (demo_tool ''b'') False] tool_registry_init)
   = manifest (registry_run [Register (demo_tool ''b'') False, Register (demo_tool ''a'') False] tool_registry_init)"
proof -
  have "\<forall>n. registry_get n (registry_run [Register (demo_tool ''a'') False, Register (demo_tool ''b'') False] tool_registry_init)
      = registry_get n (registry_run [Register (demo_tool ''b'') False, Register (demo_tool ''a'') False] tool_registry_init)"
    by (simp add: registry_run_def tool_registry_init_def register_def registry_get_def demo_tool_def)
  then show ?thesis using manifest_canonical [OF refl refl] by blast
qed

theorem registry_bindings_stable_witness:
  "registry_get ''a'' (snd (register (demo_tool ''a'') False
     (registry_run [Register (demo_tool ''a'') False] tool_registry_init))) = Some (demo_tool ''a'')"
proof -
  have "registry_get ''a'' (registry_run [Register (demo_tool ''a'') False] tool_registry_init) = Some (demo_tool ''a'')"
    by (simp add: registry_run_def tool_registry_init_def register_def registry_get_def demo_tool_def)
  then show ?thesis
    using registry_bindings_stable [of "[]" "registry_run [Register (demo_tool ''a'') False] tool_registry_init"] by blast
qed

end
