(* ===== verification/Context.thy ===== *)
theory Context
  imports Tools
begin

text \<open>
  \<^verbatim>\<open>agent_roi/runtime/context.py\<close>: the facade through which an agent calls tools.  Its configuration,
  which the source makes read-only, is the record \<open>ctx\<close>; its counters together with everything the
  calls can change is the state \<open>sys\<close>: the outside world of the handlers and callbacks, the
  idempotency stores, the circuit breakers, a counter of the nondeterministic readings taken so
  far, and the trace, the sequence of audit events given to the emitter, accepted or not, and of
  handler invocations.  An operation is a state transformer that returns a value or raises.  Handlers and
  callbacks see the outside world only: the counters have no public setter, and a handler that calls
  back into the same context is not modelled.  An approval callback that returns anything but a
  grant or \<^verbatim>\<open>True\<close> is \<open>Answer False\<close>.
\<close>

section \<open>Operations with exceptions\<close>

type_synonym ('a, 's) eff = "'s \<Rightarrow> (exc + 'a) \<times> 's"

definition ret :: "'a \<Rightarrow> ('a, 's) eff" where
  "ret x s = (Inr x, s)"

definition raise :: "exc \<Rightarrow> ('a, 's) eff" where
  "raise e s = (Inl e, s)"

definition bnd :: "('a, 's) eff \<Rightarrow> ('a \<Rightarrow> ('b, 's) eff) \<Rightarrow> ('b, 's) eff" where
  "bnd m f s = (case m s of (Inl e, s') \<Rightarrow> (Inl e, s') | (Inr x, s') \<Rightarrow> f x s')"

definition lift :: "exc + 'a \<Rightarrow> ('a, 's) eff" where
  "lift r s = (r, s)"

section \<open>Configuration and state\<close>

datatype approval_response = Answer bool | Granted approval_grant

text \<open>A callback takes the checkpoint when its signature has room for it.\<close>

datatype 'w approval_callback =
    WithCheckpoint "tool_spec \<Rightarrow> pyval list \<Rightarrow> (string \<times> pyval) list \<Rightarrow> checkpoint option \<Rightarrow> ('w \<Rightarrow> (exc + approval_response) \<times> 'w)"
  | WithoutCheckpoint "tool_spec \<Rightarrow> pyval list \<Rightarrow> (string \<times> pyval) list \<Rightarrow> ('w \<Rightarrow> (exc + approval_response) \<times> 'w)"

type_synonym payload = "(string \<times> pyval) list"

record 'w ctx =
  cx_correlation_id :: string
  cx_run_id :: string
  cx_started_at_epoch_ms :: int
  cx_metadata :: payload
  cx_guardrails :: "guardrails option"
  cx_tool_registry :: "tool_registry option"
  cx_approval_callback :: "'w approval_callback option"
  cx_audit_emitter :: bool
  cx_policy_digest :: string
  cx_principal :: "string option"
  cx_authorizer :: "(string \<Rightarrow> string \<Rightarrow> string \<Rightarrow> payload \<Rightarrow> exc + bool) option"
  cx_organization_id :: string
  cx_environment :: string
  cx_agent_id :: string

text \<open>What a handler hands back: a value or an awaitable.\<close>

datatype tool_result = Value pyval | Awaitable

datatype observation =
    Emitted string payload
  | EmitFailed string payload
  | HandlerRun nat "pyval list" payload

record ('w, 't) sys =
  steps :: int
  tool_calls :: int
  cost_usd :: pyfloat
  s_ext :: 'w
  s_idem :: "nat \<Rightarrow> 't"
  s_breakers :: "nat \<Rightarrow> circuit_breaker"
  s_ticks :: nat
  s_trace :: "observation list"

text \<open>
  The parameters of the model: the behaviour of handlers (called, or awaited under a timeout), the
  operations of the idempotency store, the digest, powers of floats, the readings of clocks and of the
  random generator, by number of the reading, and the emitter: the exception it raises, if any, on an
  event, given the trace of what it was called with before.
\<close>

record ('w, 't) env =
  e_call :: "nat \<Rightarrow> pyval list \<Rightarrow> payload \<Rightarrow> 'w \<Rightarrow> (exc + tool_result) \<times> 'w"
  e_await :: "nat \<Rightarrow> pyfloat option \<Rightarrow> pyval list \<Rightarrow> payload \<Rightarrow> 'w \<Rightarrow> (exc + tool_result) \<times> 'w"
  e_begin :: "int \<Rightarrow> string \<Rightarrow> string \<Rightarrow> string \<Rightarrow> int \<Rightarrow> 't \<Rightarrow> (exc + idempotency_result) \<times> 't"
  e_complete :: "string \<Rightarrow> string \<Rightarrow> pyval \<Rightarrow> 't \<Rightarrow> (exc + unit) \<times> 't"
  e_fail :: "string \<Rightarrow> string \<Rightarrow> string \<Rightarrow> 't \<Rightarrow> (exc + unit) \<times> 't"
  e_digest :: "pyval \<Rightarrow> string"
  e_fpow :: "pyfloat \<Rightarrow> int \<Rightarrow> exc + pyfloat"
  e_epoch_ms :: "nat \<Rightarrow> int"
  e_utc_us :: "nat \<Rightarrow> int"
  e_monotonic :: "nat \<Rightarrow> pyfloat"
  e_random :: "nat \<Rightarrow> pyfloat"
  e_emit_fault :: "observation list \<Rightarrow> string \<Rightarrow> payload \<Rightarrow> exc option"

definition tick :: "(nat \<Rightarrow> 'a) \<Rightarrow> ('a, ('w, 't) sys) eff" where
  "tick f s = (Inr (f (s_ticks s)), s\<lparr>s_ticks := s_ticks s + 1\<rparr>)"

definition emit :: "('w, 't) env \<Rightarrow> 'w ctx \<Rightarrow> string \<Rightarrow> payload \<Rightarrow> (unit, ('w, 't) sys) eff" where
  "emit env c event_type p s =
     (if \<not> cx_audit_emitter c then (Inr (), s)
      else case e_emit_fault env (s_trace s) event_type p of
          Some e \<Rightarrow> (Inl e, s\<lparr>s_trace := s_trace s @ [EmitFailed event_type p]\<rparr>)
        | None \<Rightarrow> (Inr (), s\<lparr>s_trace := s_trace s @ [Emitted event_type p]\<rparr>))"

section \<open>Counters\<close>

text \<open>The limits, checked when guardrails are set.\<close>

definition check_limits :: "'w ctx \<Rightarrow> int \<Rightarrow> int \<Rightarrow> pyfloat \<Rightarrow> (unit, ('w, 't) sys) eff" where
  "check_limits c st calls cost =
     (case cx_guardrails c of None \<Rightarrow> ret () | Some g \<Rightarrow> lift (validate_limits g st calls cost))"

definition bump_step :: "'w ctx \<Rightarrow> (unit, ('w, 't) sys) eff" where
  "bump_step c s = (let prospective = steps s + 1 in
     bnd (check_limits c prospective (tool_calls s) (cost_usd s)) (\<lambda>_ s. (Inr (), s\<lparr>steps := prospective\<rparr>)) s)"

definition bump_tool_call :: "'w ctx \<Rightarrow> (unit, ('w, 't) sys) eff" where
  "bump_tool_call c s = (let prospective = tool_calls s + 1 in
     bnd (check_limits c (steps s) prospective (cost_usd s)) (\<lambda>_ s. (Inr (), s\<lparr>tool_calls := prospective\<rparr>)) s)"

definition add_cost :: "'w ctx \<Rightarrow> pyval \<Rightarrow> (unit, ('w, 't) sys) eff" where
  "add_cost c amount_usd =
     bnd (lift (validate_cost_amount amount_usd)) (\<lambda>amount s. let prospective = fadd (cost_usd s) amount in
       bnd (check_limits c (steps s) (tool_calls s) prospective) (\<lambda>_ s. (Inr (), s\<lparr>cost_usd := prospective\<rparr>)) s)"

section \<open>Preparing a call\<close>

datatype first_arg = Missing | Callable handler | Argument pyval

definition callable_identity :: "handler \<Rightarrow> pyval" where
  "callable_identity h = PDict [(PStr ''module'', PStr (h_module h)), (PStr ''qualname'', PStr (h_qualname h))]"

definition resolve_tool ::
    "'w ctx \<Rightarrow> string \<Rightarrow> first_arg \<Rightarrow> pyval list \<Rightarrow> exc + handler \<times> pyval list \<times> tool_spec option" where
  "resolve_tool c tool_name fn_or_first_arg remaining_args =
     (case (case cx_tool_registry c of None \<Rightarrow> None | Some r \<Rightarrow> registry_get tool_name r) of
        Some spec \<Rightarrow>
          (case fn_or_first_arg of
             Callable h \<Rightarrow> if h \<noteq> ts_handler spec
               then Inl (GuardrailViolation (''Tool '' @ tool_name @ '' callable does not match its registered handler''))
               else Inr (ts_handler spec, remaining_args, Some spec)
           | Missing \<Rightarrow> Inr (ts_handler spec, remaining_args, Some spec)
           | Argument v \<Rightarrow> Inr (ts_handler spec, v # remaining_args, Some spec))
      | None \<Rightarrow>
          if (case cx_guardrails c of None \<Rightarrow> False | Some g \<Rightarrow> require_registered_tools g)
          then Inl (GuardrailViolation (''Tool '' @ tool_name @ '' is not registered''))
          else (case fn_or_first_arg of
             Callable h \<Rightarrow> Inr (h, remaining_args, None)
           | _ \<Rightarrow> Inl (TypeError ''Unregistered tools require the legacy form ctx.call_tool(name, callable, *args)'')))"

definition registered_minimum :: "tool_spec option \<Rightarrow> pyval list \<Rightarrow> payload \<Rightarrow> exc + pyfloat" where
  "registered_minimum spec call_args kwargs =
     (case spec of None \<Rightarrow> Inr (Fin 0)
      | Some t \<Rightarrow> (case ts_cost_estimator t of None \<Rightarrow> Inr (ts_default_cost_usd t)
          | Some est \<Rightarrow> (case est call_args kwargs of Inl e \<Rightarrow> Inl e
              | Inr v \<Rightarrow> (case validate_cost_amount v of Inl e \<Rightarrow> Inl e
                  | Inr estimated \<Rightarrow> Inr (fmax (ts_default_cost_usd t) estimated)))))"

definition estimated_cost :: "tool_spec option \<Rightarrow> pyval list \<Rightarrow> payload \<Rightarrow> pyval option \<Rightarrow> exc + pyfloat" where
  "estimated_cost spec call_args kwargs caller_cost =
     (case registered_minimum spec call_args kwargs of Inl e \<Rightarrow> Inl e
      | Inr minimum \<Rightarrow>
          (case caller_cost of None \<Rightarrow> Inr minimum
           | Some v \<Rightarrow> (case validate_cost_amount v of Inl e \<Rightarrow> Inl e
               | Inr requested \<Rightarrow>
                   if spec \<noteq> None \<and> flt requested minimum
                   then Inl (GuardrailViolation (''Tool '' @ ts_name (the spec) @ '' cost cannot be lower than the registered estimate''))
                   else Inr (fmax minimum requested))))"

text \<open>The action an approval is bound to.\<close>

definition approval_action ::
    "'w ctx \<Rightarrow> string \<Rightarrow> tool_spec \<Rightarrow> pyval list \<Rightarrow> payload \<Rightarrow> pyfloat \<Rightarrow> pyval \<Rightarrow> pyval" where
  "approval_action c tool_name spec call_args kwargs selected_cost identity = PDict
     [(PStr ''tool_name'', PStr tool_name), (PStr ''tool_version'', PStr (ts_version spec)),
      (PStr ''handler'', identity), (PStr ''risk'', PStr (ts_risk spec)), (PStr ''cost_usd'', PFloat selected_cost),
      (PStr ''args'', PTuple call_args), (PStr ''kwargs'', PDict (map (\<lambda>(k, v). (PStr k, v)) kwargs)),
      (PStr ''policy_digest'', PStr (cx_policy_digest c)),
      (PStr ''principal_subject'', PStr (case cx_principal c of None \<Rightarrow> [] | Some p \<Rightarrow> p)),
      (PStr ''organization_id'', PStr (cx_organization_id c)), (PStr ''environment'', PStr (cx_environment c)),
      (PStr ''agent_id'', PStr (cx_agent_id c))]"

definition approval_checkpoint ::
    "('w, 't) env \<Rightarrow> 'w ctx \<Rightarrow> string \<Rightarrow> tool_spec \<Rightarrow> pyval list \<Rightarrow> payload \<Rightarrow> pyfloat \<Rightarrow> pyval
     \<Rightarrow> (checkpoint, ('w, 't) sys) eff" where
  "approval_checkpoint env c tool_name spec call_args kwargs selected_cost identity =
     (let action_digest = e_digest env (approval_action c tool_name spec call_args kwargs selected_cost identity) in
      bnd (tick (e_epoch_ms env)) (\<lambda>now1.
      let expires = now1 + ts_approval_ttl_seconds spec * 1000;
          ck_id = e_digest env (PDict [(PStr ''correlation_id'', PStr (cx_correlation_id c)),
            (PStr ''run_id'', PStr (cx_run_id c)), (PStr ''action_digest'', PStr action_digest),
            (PStr ''expires_at_epoch_ms'', PInt expires)]) in
      bnd (tick (e_epoch_ms env)) (\<lambda>now2.
      ret \<lparr>checkpoint_id = ck_id, ck_correlation_id = cx_correlation_id c, ck_run_id = cx_run_id c,
        ck_tool_name = tool_name, ck_tool_version = ts_version spec, ck_risk = ts_risk spec,
        ck_estimated_cost_usd = selected_cost, ck_action_digest = action_digest,
        ck_policy_digest = cx_policy_digest c, ck_arguments_digest = e_digest env (request_value call_args kwargs),
        ck_created_at_epoch_ms = now2, ck_expires_at_epoch_ms = expires,
        ck_principal_subject = (case cx_principal c of None \<Rightarrow> [] | Some p \<Rightarrow> p),
        ck_organization_id = cx_organization_id c, ck_environment = cx_environment c, ck_agent_id = cx_agent_id c\<rparr>)))"

definition access_context :: "'w ctx \<Rightarrow> tool_spec option \<Rightarrow> payload" where
  "access_context c spec =
     [(''organization_id'', PStr (cx_organization_id c)), (''environment'', PStr (cx_environment c)),
      (''agent_id'', PStr (cx_agent_id c)),
      (''risk'', PStr (case spec of None \<Rightarrow> ''unclassified'' | Some t \<Rightarrow> ts_risk t)),
      (''tool_version'', PStr (case spec of None \<Rightarrow> ''legacy'' | Some t \<Rightarrow> ts_version t))]"

definition authorize_access ::
    "('w, 't) env \<Rightarrow> 'w ctx \<Rightarrow> string \<Rightarrow> tool_spec option \<Rightarrow> (unit, ('w, 't) sys) eff" where
  "authorize_access env c tool_name spec =
     (case cx_authorizer c of None \<Rightarrow> ret ()
      | Some authorize \<Rightarrow>
          (case cx_principal c of
             None \<Rightarrow> bnd (emit env c ''authorization_denied''
                 [(''tool_name'', PStr tool_name), (''reason'', PStr ''missing_principal'')])
               (\<lambda>_. raise (GuardrailViolation ''An authenticated principal is required''))
           | Some subject \<Rightarrow>
               bnd (lift (authorize subject ''tool.execute'' tool_name (access_context c spec))) (\<lambda>allowed.
               let p = [(''tool_name'', PStr tool_name), (''allowed'', PBool allowed), (''principal_subject'', PStr subject)]
                       @ access_context c spec in
               bnd (emit env c ''authorization_decision'' p) (\<lambda>_.
               if allowed then ret ()
               else bnd (emit env c ''authorization_denied'' p)
                 (\<lambda>_. raise (GuardrailViolation (''Principal is not authorized to execute tool '' @ tool_name)))))))"

text \<open>The pieces of \<^verbatim>\<open>_authorize\<close>: asking the callback, and acting on its answer.\<close>

definition ask_approval ::
    "'w ctx \<Rightarrow> tool_spec \<Rightarrow> pyval list \<Rightarrow> payload \<Rightarrow> checkpoint option \<Rightarrow> (approval_response, ('w, 't) sys) eff" where
  "ask_approval c spec call_args kwargs ck s =
     (case cx_approval_callback c of None \<Rightarrow> (Inr (Answer False), s)
      | Some cb \<Rightarrow>
          (case (case cb of WithCheckpoint f \<Rightarrow> f spec call_args kwargs ck (s_ext s)
                 | WithoutCheckpoint f \<Rightarrow> f spec call_args kwargs (s_ext s)) of
             (r, w) \<Rightarrow> (r, s\<lparr>s_ext := w\<rparr>)))"

definition granted_payload :: "tool_spec \<Rightarrow> checkpoint \<Rightarrow> string \<Rightarrow> payload" where
  "granted_payload spec ck by = [(''tool_name'', PStr (ts_name spec)), (''risk'', PStr (ts_risk spec)),
     (''action_digest'', PStr (ck_action_digest ck)), (''checkpoint_id'', PStr (checkpoint_id ck)), (''approved_by'', PStr by)]"

definition checkpoint_payload :: "checkpoint \<Rightarrow> payload" where
  "checkpoint_payload ck = [(''checkpoint_id'', PStr (checkpoint_id ck)), (''correlation_id'', PStr (ck_correlation_id ck)),
     (''run_id'', PStr (ck_run_id ck)), (''tool_name'', PStr (ck_tool_name ck)), (''tool_version'', PStr (ck_tool_version ck)),
     (''risk'', PStr (ck_risk ck)), (''estimated_cost_usd'', PFloat (ck_estimated_cost_usd ck)),
     (''action_digest'', PStr (ck_action_digest ck)), (''policy_digest'', PStr (ck_policy_digest ck)),
     (''arguments_digest'', PStr (ck_arguments_digest ck)), (''created_at_epoch_ms'', PInt (ck_created_at_epoch_ms ck)),
     (''expires_at_epoch_ms'', PInt (ck_expires_at_epoch_ms ck)), (''principal_subject'', PStr (ck_principal_subject ck)),
     (''organization_id'', PStr (ck_organization_id ck)), (''environment'', PStr (ck_environment ck)),
     (''agent_id'', PStr (ck_agent_id ck))]"

definition with_checkpoint :: "checkpoint option \<Rightarrow> (checkpoint \<Rightarrow> ('a, 's) eff) \<Rightarrow> ('a, 's) eff" where
  "with_checkpoint ck_opt k = (case ck_opt of None \<Rightarrow> raise (AssertionError []) | Some ck \<Rightarrow> k ck)"

definition authorize ::
    "('w, 't) env \<Rightarrow> 'w ctx \<Rightarrow> tool_spec option \<Rightarrow> pyval list \<Rightarrow> payload \<Rightarrow> checkpoint option \<Rightarrow> (unit, ('w, 't) sys) eff" where
  "authorize env c spec_opt call_args kwargs ck_opt =
     (case spec_opt of None \<Rightarrow> ret ()
      | Some spec \<Rightarrow>
          if \<not> ts_requires_approval spec then ret ()
          else bnd (ask_approval c spec call_args kwargs ck_opt) (\<lambda>response.
            case response of
              Granted g \<Rightarrow> with_checkpoint ck_opt (\<lambda>ck.
                bnd (tick (e_epoch_ms env)) (\<lambda>now.
                case approval_grant_validate now g ck of
                  Inl e \<Rightarrow> raise (GuardrailViolation (exc_message e))
                | Inr _ \<Rightarrow> emit env c ''approval_granted''
                    (granted_payload spec ck (ag_approved_by g) @ [(''reason'', PStr (ag_reason g))])))
            | Answer True \<Rightarrow>
                if (case cx_guardrails c of None \<Rightarrow> False | Some gr \<Rightarrow> require_bound_approval_grants gr)
                then raise (GuardrailViolation ''This policy requires a payload-bound ApprovalGrant; boolean approval is not sufficient'')
                else with_checkpoint ck_opt (\<lambda>ck. emit env c ''approval_granted'' (granted_payload spec ck ''synchronous_callback''))
            | Answer False \<Rightarrow> with_checkpoint ck_opt (\<lambda>ck.
                bnd (emit env c ''approval_required'' (checkpoint_payload ck)) (\<lambda>_. raise (HumanApprovalRequired ck)))))"

definition event_base ::
    "('w, 't) env \<Rightarrow> 'w ctx \<Rightarrow> string \<Rightarrow> tool_spec option \<Rightarrow> handler \<Rightarrow> pyval list \<Rightarrow> payload \<Rightarrow> pyfloat \<Rightarrow> checkpoint option \<Rightarrow> payload" where
  "event_base env c tool_name spec h call_args kwargs selected_cost ck =
     [(''tool_name'', PStr tool_name),
      (''tool_version'', PStr (case spec of None \<Rightarrow> ''legacy'' | Some t \<Rightarrow> ts_version t)),
      (''risk'', PStr (case spec of None \<Rightarrow> ''unclassified'' | Some t \<Rightarrow> ts_risk t)),
      (''requires_approval'', PBool (case spec of None \<Rightarrow> False | Some t \<Rightarrow> ts_requires_approval t)),
      (''cost_usd'', PFloat selected_cost), (''arguments_digest'', PStr (e_digest env (request_value call_args kwargs))),
      (''action_digest'', case ck of None \<Rightarrow> PNone | Some k \<Rightarrow> PStr (ck_action_digest k)),
      (''handler'', callable_identity h),
      (''principal_subject'', PStr (case cx_principal c of None \<Rightarrow> [] | Some p \<Rightarrow> p)),
      (''organization_id'', PStr (cx_organization_id c)), (''environment'', PStr (cx_environment c)),
      (''agent_id'', PStr (cx_agent_id c)),
      (''retry_max_attempts'', PInt (case spec of None \<Rightarrow> 1 | Some t \<Rightarrow> (case ts_retry_policy t of None \<Rightarrow> 1 | Some p \<Rightarrow> max_attempts p))),
      (''circuit_breaker'', PBool (case spec of None \<Rightarrow> False | Some t \<Rightarrow> ts_circuit_breaker t \<noteq> None)),
      (''idempotent'', PBool (case spec of None \<Rightarrow> False | Some t \<Rightarrow> ts_idempotency_policy t \<noteq> None))]"

text \<open>The checks between resolving the tool and pricing the call: a handler that cannot be run in the
  requested mode, a timeout that could not be enforced.\<close>

definition mode_check :: "string \<Rightarrow> bool \<Rightarrow> handler \<Rightarrow> tool_spec option \<Rightarrow> exc + unit" where
  "mode_check tool_name async_mode h spec =
     (let timed = (case spec of None \<Rightarrow> False | Some t \<Rightarrow> ts_timeout_seconds t \<noteq> None) in
      if \<not> async_mode \<and> h_async h
        then Inl (GuardrailViolation (''Tool '' @ tool_name @ '' is asynchronous; use ctx.acall_tool() and SentinelRunner.arun()''))
      else if \<not> async_mode \<and> timed
        then Inl (GuardrailViolation (''Tool '' @ tool_name @ '' declares timeout_seconds; execute it through acall_tool/arun or enforce a timeout inside the synchronous handler''))
      else if async_mode \<and> timed \<and> \<not> h_async h
        then Inl (GuardrailViolation (''Tool '' @ tool_name @ '' is synchronous; an asyncio timeout cannot cancel its worker thread. Use an async handler or enforce the timeout inside the handler.''))
      else Inr ())"

text \<open>The last stretch of \<^verbatim>\<open>_prepare_call\<close>: approval, limits, counters, events.\<close>

definition charge_call ::
    "('w, 't) env \<Rightarrow> 'w ctx \<Rightarrow> tool_spec option \<Rightarrow> pyval list \<Rightarrow> payload \<Rightarrow> pyfloat \<Rightarrow> checkpoint option \<Rightarrow> payload
     \<Rightarrow> (unit, ('w, 't) sys) eff" where
  "charge_call env c spec call_args kwargs selected_cost ck base =
     bnd (emit env c ''tool_requested'' base) (\<lambda>_.
     bnd (authorize env c spec call_args kwargs ck) (\<lambda>_ s.
       let prospective_calls = tool_calls s + 1; prospective_cost = fadd (cost_usd s) selected_cost in
       bnd (check_limits c (steps s) prospective_calls prospective_cost) (\<lambda>_ s.
         bnd (emit env c ''tool_authorized'' base) (\<lambda>_. emit env c ''tool_started'' base)
           (s\<lparr>tool_calls := prospective_calls, cost_usd := prospective_cost\<rparr>)) s))"

definition check_allowed :: "'w ctx \<Rightarrow> string \<Rightarrow> (unit, ('w, 't) sys) eff" where
  "check_allowed c tool_name =
     (case cx_guardrails c of None \<Rightarrow> ret () | Some g \<Rightarrow> lift (validate_tool_allowed g (PStr tool_name)))"

definition maybe_checkpoint ::
    "('w, 't) env \<Rightarrow> 'w ctx \<Rightarrow> string \<Rightarrow> handler \<Rightarrow> tool_spec option \<Rightarrow> pyval list \<Rightarrow> payload \<Rightarrow> pyfloat
     \<Rightarrow> (checkpoint option, ('w, 't) sys) eff" where
  "maybe_checkpoint env c tool_name h spec call_args kwargs selected_cost =
     (case spec of
        Some t \<Rightarrow> if ts_requires_approval t
          then bnd (approval_checkpoint env c tool_name t call_args kwargs selected_cost (callable_identity h)) (\<lambda>ck. ret (Some ck))
          else ret None
      | None \<Rightarrow> ret None)"

definition prepare_call ::
    "('w, 't) env \<Rightarrow> 'w ctx \<Rightarrow> string \<Rightarrow> first_arg \<Rightarrow> pyval list \<Rightarrow> payload \<Rightarrow> pyval option \<Rightarrow> bool
     \<Rightarrow> (handler \<times> pyval list \<times> tool_spec option \<times> pyfloat \<times> payload, ('w, 't) sys) eff" where
  "prepare_call env c tool_name fn_or_first_arg args kwargs cost async_mode =
     bnd (check_allowed c tool_name) (\<lambda>_.
     bnd (lift (resolve_tool c tool_name fn_or_first_arg args)) (\<lambda>(h, call_args, spec).
     bnd (authorize_access env c tool_name spec) (\<lambda>_.
     bnd (lift (mode_check tool_name async_mode h spec)) (\<lambda>_.
     bnd (lift (estimated_cost spec call_args kwargs cost)) (\<lambda>selected_cost.
     bnd (maybe_checkpoint env c tool_name h spec call_args kwargs selected_cost) (\<lambda>ck.
     let base = event_base env c tool_name spec h call_args kwargs selected_cost ck in
     bnd (charge_call env c spec call_args kwargs selected_cost ck base) (\<lambda>_.
     ret (h, call_args, spec, selected_cost, base))))))))"

section \<open>Executing\<close>

text \<open>One invocation of the handler; it is recorded in the trace before it runs.\<close>

definition run_handler ::
    "(pyval list \<Rightarrow> payload \<Rightarrow> 'w \<Rightarrow> (exc + tool_result) \<times> 'w) \<Rightarrow> handler \<Rightarrow> pyval list \<Rightarrow> payload
     \<Rightarrow> (tool_result, ('w, 't) sys) eff" where
  "run_handler behaviour h call_args kwargs s =
     (case behaviour call_args kwargs (s_ext s) of
        (r, w) \<Rightarrow> (r, s\<lparr>s_ext := w, s_trace := s_trace s @ [HandlerRun (h_id h) call_args kwargs]\<rparr>))"

definition raw_call ::
    "('w, 't) env \<Rightarrow> bool \<Rightarrow> handler \<Rightarrow> pyval list \<Rightarrow> payload \<Rightarrow> tool_spec option \<Rightarrow> (tool_result, ('w, 't) sys) eff" where
  "raw_call env async_mode h call_args kwargs spec =
     (if async_mode
      then run_handler (e_await env (h_id h) (case spec of None \<Rightarrow> None | Some t \<Rightarrow> ts_timeout_seconds t)) h call_args kwargs
      else run_handler (e_call env (h_id h)) h call_args kwargs)"

text \<open>The circuit breaker in front of it, an object shared through the state.\<close>

definition protected_call ::
    "('w, 't) env \<Rightarrow> bool \<Rightarrow> handler \<Rightarrow> pyval list \<Rightarrow> payload \<Rightarrow> tool_spec option \<Rightarrow> (tool_result, ('w, 't) sys) eff" where
  "protected_call env async_mode h call_args kwargs spec =
     (case (case spec of None \<Rightarrow> None | Some t \<Rightarrow> ts_circuit_breaker t) of
        None \<Rightarrow> raw_call env async_mode h call_args kwargs spec
      | Some b \<Rightarrow> bnd (tick (e_monotonic env)) (\<lambda>t1. bnd (tick (e_monotonic env)) (\<lambda>t2 s.
          case cb_call t1 t2 (raw_call env async_mode h call_args kwargs spec) (s_breakers s b, s) of
            (r, (br, s')) \<Rightarrow> (r, s'\<lparr>s_breakers := (s_breakers s')(b := br)\<rparr>))))"

definition retried_call ::
    "('w, 't) env \<Rightarrow> bool \<Rightarrow> handler \<Rightarrow> pyval list \<Rightarrow> payload \<Rightarrow> tool_spec option \<Rightarrow> (tool_result, ('w, 't) sys) eff" where
  "retried_call env async_mode h call_args kwargs spec =
     (let protected = protected_call env async_mode h call_args kwargs spec in
      case (case spec of None \<Rightarrow> None | Some t \<Rightarrow> ts_retry_policy t) of
        None \<Rightarrow> protected
      | Some p \<Rightarrow> (\<lambda>s. retry_call (e_fpow env) (\<lambda>n. e_random env (s_ticks s + nat n)) protected p s))"

text \<open>A synchronous call refuses an awaitable result.\<close>

definition checked_call ::
    "('w, 't) env \<Rightarrow> bool \<Rightarrow> handler \<Rightarrow> pyval list \<Rightarrow> payload \<Rightarrow> tool_spec option \<Rightarrow> (tool_result, ('w, 't) sys) eff" where
  "checked_call env async_mode h call_args kwargs spec =
     bnd (retried_call env async_mode h call_args kwargs spec) (\<lambda>r.
       if \<not> async_mode \<and> r = Awaitable
       then raise (GuardrailViolation (''Tool '' @ (case spec of None \<Rightarrow> ''legacy'' | Some t \<Rightarrow> ts_name t) @ '' returned an awaitable; use ctx.acall_tool()''))
       else ret r)"

definition on_store :: "nat \<Rightarrow> ('t \<Rightarrow> (exc + 'a) \<times> 't) \<Rightarrow> ('a, ('w, 't) sys) eff" where
  "on_store i f s = (case f (s_idem s i) of (r, t) \<Rightarrow> (r, s\<lparr>s_idem := (s_idem s)(i := t)\<rparr>))"

definition result_value :: "tool_result \<Rightarrow> pyval" where
  "result_value r = (case r of Value v \<Rightarrow> v | Awaitable \<Rightarrow> PObj ''coroutine'' None)"

text \<open>The attempts with their outcome recorded under the idempotency key; an exception that is not an
  \<^verbatim>\<open>Exception\<close> leaves the record pending.\<close>

definition settled_call ::
    "('w, 't) env \<Rightarrow> bool \<Rightarrow> handler \<Rightarrow> pyval list \<Rightarrow> payload \<Rightarrow> tool_spec option \<Rightarrow> nat \<Rightarrow> string \<Rightarrow> string
     \<Rightarrow> (pyval, ('w, 't) sys) eff" where
  "settled_call env async_mode h call_args kwargs spec i ns key s =
     (case checked_call env async_mode h call_args kwargs spec s of
        (Inl e, s') \<Rightarrow>
          if is_Exception e
          then bnd (on_store i (e_fail env ns key (exc_type_name e @ '': '' @ exc_message e))) (\<lambda>_. raise e) s'
          else (Inl e, s')
      | (Inr r, s') \<Rightarrow>
          bnd (on_store i (e_complete env ns key (result_value r))) (\<lambda>_. ret (result_value r)) s')"

text \<open>\<^verbatim>\<open>_execute_sync\<close> and \<^verbatim>\<open>_execute_async\<close>, which differ in \<open>async_mode\<close> only.\<close>

definition execute ::
    "('w, 't) env \<Rightarrow> bool \<Rightarrow> handler \<Rightarrow> pyval list \<Rightarrow> payload \<Rightarrow> tool_spec option \<Rightarrow> (pyval, ('w, 't) sys) eff" where
  "execute env async_mode h call_args kwargs spec =
     (case (case spec of None \<Rightarrow> None | Some t \<Rightarrow> ts_idempotency_policy t) of
        None \<Rightarrow> bnd (checked_call env async_mode h call_args kwargs spec) (\<lambda>r. ret (result_value r))
      | Some (i, p) \<Rightarrow>
          bnd (tick (e_utc_us env)) (\<lambda>now.
          bnd (on_store i (prepare (e_begin env now) (e_digest env) p call_args kwargs)) (\<lambda>(key, _, res).
          if idem_status res = ''completed'' then ret (py_of_json (idem_response res))
          else if idem_status res = ''failed''
            then raise (GuardrailViolation (''Previous idempotent execution failed: '' @ idem_error res))
          else settled_call env async_mode h call_args kwargs spec i (ip_namespace p) key)))"

definition py_type_name :: "pyval \<Rightarrow> string" where
  "py_type_name v = (case v of PNone \<Rightarrow> ''NoneType'' | PBool _ \<Rightarrow> ''bool'' | PInt _ \<Rightarrow> ''int'' | PFloat _ \<Rightarrow> ''float''
     | PStr _ \<Rightarrow> ''str'' | PBytes _ \<Rightarrow> ''bytes'' | PDict _ \<Rightarrow> ''dict'' | PList _ \<Rightarrow> ''list'' | PTuple _ \<Rightarrow> ''tuple''
     | PSet _ \<Rightarrow> ''set'' | PDecimal _ \<Rightarrow> ''Decimal'' | PObj t _ \<Rightarrow> t | _ \<Rightarrow> ''object'')"

text \<open>The event that closes a call; the elapsed milliseconds are one more reading.\<close>

definition close_call :: "('w, 't) env \<Rightarrow> 'w ctx \<Rightarrow> payload \<Rightarrow> exc + pyval \<Rightarrow> (pyval, ('w, 't) sys) eff" where
  "close_call env c base r =
     (case r of
        Inl e \<Rightarrow>
          if is_Exception e
          then bnd (tick (e_epoch_ms env)) (\<lambda>elapsed.
            bnd (emit env c ''tool_failed'' (base @ [(''elapsed_ms'', PInt elapsed), (''error_type'', PStr (exc_type_name e))]))
              (\<lambda>_. raise e))
          else raise e
      | Inr v \<Rightarrow>
          bnd (tick (e_epoch_ms env)) (\<lambda>elapsed.
            bnd (emit env c ''tool_completed'' (base @ [(''elapsed_ms'', PInt elapsed), (''result_type'', PStr (py_type_name v))]))
              (\<lambda>_. ret v)))"

text \<open>\<^verbatim>\<open>call_tool\<close> and \<^verbatim>\<open>acall_tool\<close>.\<close>

definition call_tool ::
    "('w, 't) env \<Rightarrow> 'w ctx \<Rightarrow> bool \<Rightarrow> string \<Rightarrow> first_arg \<Rightarrow> pyval list \<Rightarrow> payload \<Rightarrow> pyval option \<Rightarrow> (pyval, ('w, 't) sys) eff" where
  "call_tool env c async_mode tool_name fn_or_first_arg args kwargs cost =
     bnd (prepare_call env c tool_name fn_or_first_arg args kwargs cost async_mode) (\<lambda>(h, call_args, spec, _, base) s.
       case execute env async_mode h call_args kwargs spec s of (r, s') \<Rightarrow> close_call env c base r s')"

definition snapshot :: "'w ctx \<Rightarrow> ('w, 't) sys \<Rightarrow> payload" where
  "snapshot c s =
     [(''correlation_id'', PStr (cx_correlation_id c)), (''run_id'', PStr (cx_run_id c)),
      (''started_at_epoch_ms'', PInt (cx_started_at_epoch_ms c)),
      (''metadata'', PDict (map (\<lambda>(k, v). (PStr k, v)) (cx_metadata c))),
      (''principal_subject'', PStr (case cx_principal c of None \<Rightarrow> [] | Some p \<Rightarrow> p)),
      (''organization_id'', PStr (cx_organization_id c)), (''environment'', PStr (cx_environment c)),
      (''agent_id'', PStr (cx_agent_id c)),
      (''state'', PDict [(PStr ''steps'', PInt (steps s)), (PStr ''tool_calls'', PInt (tool_calls s)),
         (PStr ''cost_usd'', PFloat (cost_usd s))])]"

section \<open>The operations an agent has\<close>

datatype ctx_op =
    BumpStep
  | BumpToolCall
  | AddCost pyval
  | CallTool bool string first_arg "pyval list" payload "pyval option"

fun ctx_do :: "('w, 't) env \<Rightarrow> 'w ctx \<Rightarrow> ctx_op \<Rightarrow> (pyval, ('w, 't) sys) eff" where
  "ctx_do env c BumpStep = bnd (bump_step c) (\<lambda>_. ret PNone)"
| "ctx_do env c BumpToolCall = bnd (bump_tool_call c) (\<lambda>_. ret PNone)"
| "ctx_do env c (AddCost v) = bnd (add_cost c v) (\<lambda>_. ret PNone)"
| "ctx_do env c (CallTool am n f args k cost) = call_tool env c am n f args k cost"

end
