(* ===== verification/Context_Laws.thy ===== *)
theory Context_Laws
  imports Context
begin

text \<open>
  What the execution context guarantees: counters never leave their limits, a handler runs only
  behind every guard, an approval binds the exact action, each call is charged once, and the events
  around a call are complete.
\<close>

section \<open>Relations kept by an operation\<close>

definition keeps :: "('s \<Rightarrow> 's \<Rightarrow> bool) \<Rightarrow> ('a, 's) eff \<Rightarrow> bool" where
  "keeps R m \<longleftrightarrow> (\<forall>s. R s (snd (m s)))"

named_theorems keeps_intros \<open>operations that keep a relation\<close>

text \<open>Nothing but events and readings: the counters, the outside world and the stores are unchanged and no
  handler ran.\<close>

fun is_run :: "observation \<Rightarrow> bool" where
  "is_run (HandlerRun _ _ _) = True"
| "is_run (Emitted _ _) = False"
| "is_run (EmitFailed _ _) = False"

definition runs :: "('w, 't) sys \<Rightarrow> nat" where
  "runs s = length (filter is_run (s_trace s))"

definition same_counters :: "('w, 't) sys \<Rightarrow> ('w, 't) sys \<Rightarrow> bool" where
  "same_counters s s' \<longleftrightarrow> steps s' = steps s \<and> tool_calls s' = tool_calls s \<and> cost_usd s' = cost_usd s"

definition quiet :: "('w, 't) sys \<Rightarrow> ('w, 't) sys \<Rightarrow> bool" where
  "quiet s s' \<longleftrightarrow> same_counters s s' \<and> (\<exists>ys. s_trace s' = s_trace s @ ys \<and> list_all (\<lambda>x. \<not> is_run x) ys)"

text \<open>The same, with handler invocations of one kind allowed.\<close>

definition only_runs :: "observation \<Rightarrow> ('w, 't) sys \<Rightarrow> ('w, 't) sys \<Rightarrow> bool" where
  "only_runs x s s' \<longleftrightarrow> same_counters s s' \<and> (\<exists>ys. s_trace s' = s_trace s @ ys \<and> set ys \<subseteq> {x})"

lemma same_counters_refl [simp]: "same_counters s s"
  by (simp add: same_counters_def)

lemma same_counters_trans: "same_counters a b \<Longrightarrow> same_counters b c \<Longrightarrow> same_counters a c"
  by (simp add: same_counters_def)

lemma quiet_refl [simp]: "quiet s s"
  by (simp add: quiet_def)

lemma quiet_trans: "quiet a b \<Longrightarrow> quiet b c \<Longrightarrow> quiet a c"
  by (fastforce simp: quiet_def same_counters_def)

lemma only_runs_refl [simp]: "only_runs x s s"
  by (simp add: only_runs_def)

lemma only_runs_trans: "only_runs x a b \<Longrightarrow> only_runs x b c \<Longrightarrow> only_runs x a c"
  by (fastforce simp: only_runs_def same_counters_def)

lemma bnd_cases:
  assumes "bnd m f s = (r, s')"
  obtains e where "m s = (Inl e, s')" "r = Inl e" | x s1 where "m s = (Inr x, s1)" "f x s1 = (r, s')"
  using assms by (auto simp: bnd_def split: prod.splits sum.splits)

lemma keeps_bnd:
  assumes "\<And>a b c. R a b \<Longrightarrow> R b c \<Longrightarrow> R a c" "keeps R m" "\<And>x. keeps R (f x)"
  shows "keeps R (bnd m f)"
  using assms by (auto simp: keeps_def bnd_def split: prod.splits sum.splits) (metis snd_conv)+

lemma keeps_ret: "(\<And>s. R s s) \<Longrightarrow> keeps R (ret x)" "(\<And>s. R s s) \<Longrightarrow> keeps R (raise e)" "(\<And>s. R s s) \<Longrightarrow> keeps R (lift r)"
  by (simp_all add: keeps_def ret_def raise_def lift_def)

lemmas quiet_bnd [keeps_intros] = keeps_bnd [where R = quiet, OF quiet_trans]
lemmas quiet_ret [keeps_intros] = keeps_ret [where R = quiet, OF quiet_refl]

lemma quiet_tick [keeps_intros]: "keeps quiet (tick f)"
  by (simp add: keeps_def tick_def quiet_def same_counters_def)

lemma quiet_emit [keeps_intros]: "keeps quiet (emit env c ty p)"
  by (auto simp: keeps_def emit_def quiet_def same_counters_def split: option.splits)

lemma quiet_check_limits [keeps_intros]: "keeps quiet (check_limits c a b x)"
  by (auto simp: check_limits_def intro: keeps_intros split: option.splits)

lemma quiet_checkpoint [keeps_intros]: "keeps quiet (approval_checkpoint env c n t a k x i)"
  unfolding approval_checkpoint_def Let_def by (intro keeps_intros)

lemma quiet_access [keeps_intros]: "keeps quiet (authorize_access env c n spec)"
  unfolding authorize_access_def Let_def by (auto intro!: keeps_intros split: option.splits)

lemma quiet_ask [keeps_intros]: "keeps quiet (ask_approval c t a k ck)"
  by (auto simp: keeps_def ask_approval_def quiet_def same_counters_def split: option.splits prod.splits)

lemma quiet_authorize [keeps_intros]: "keeps quiet (authorize env c spec a k ck)"
  unfolding authorize_def with_checkpoint_def
  by (auto intro!: keeps_intros split: option.splits approval_response.splits bool.splits sum.splits)

lemma quiet_snd: "keeps quiet m \<Longrightarrow> m s = (r, s') \<Longrightarrow> quiet s s'"
  by (auto simp: keeps_def dest: spec [of _ s])

section \<open>The execution half\<close>

text \<open>Both facts about one attempt: it changes nothing but by invoking the handler, and invokes it at most
  once.\<close>

definition one_run :: "observation \<Rightarrow> ('w, 't) sys \<Rightarrow> ('w, 't) sys \<Rightarrow> bool" where
  "one_run x s s' \<longleftrightarrow> same_counters s s' \<and> (s_trace s' = s_trace s \<or> s_trace s' = s_trace s @ [x])"

lemma one_run_handler: "one_run (HandlerRun (h_id h) a k) s (snd (run_handler b h a k s))"
  by (auto simp: run_handler_def one_run_def same_counters_def split: prod.splits)

lemma one_run_raw: "one_run (HandlerRun (h_id h) a k) s (snd (raw_call env am h a k spec s))"
  by (auto simp: raw_call_def one_run_handler)

lemma cb_call_state: "snd (snd (cb_call t1 t2 fn (b, s))) = s \<or> snd (snd (cb_call t1 t2 fn (b, s))) = snd (fn s)"
  by (auto simp: cb_call_def split: prod.splits sum.splits)

lemma one_run_cb:
  "one_run (HandlerRun (h_id h) a k) s (snd (snd (cb_call t1 t2 (raw_call env am h a k spec) (b, s))))"
  using cb_call_state [of t1 t2 "raw_call env am h a k spec" b s] one_run_raw [of h a k s env am spec]
  by (auto simp: one_run_def)

lemma one_run_protected: "one_run (HandlerRun (h_id h) a k) s (snd (protected_call env am h a k spec s))"
proof (cases "case spec of None \<Rightarrow> None | Some t \<Rightarrow> ts_circuit_breaker t")
  case None
  then show ?thesis by (simp add: protected_call_def one_run_raw)
next
  case (Some b)
  let ?s2 = "s\<lparr>s_ticks := s_ticks s + 2\<rparr>"
  let ?r = "cb_call (e_monotonic env (s_ticks s)) (e_monotonic env (s_ticks s + 1)) (raw_call env am h a k spec) (s_breakers s b, ?s2)"
  have "snd (protected_call env am h a k spec s) = (snd (snd ?r))\<lparr>s_breakers := (s_breakers (snd (snd ?r)))(b := fst (snd ?r))\<rparr>"
    using Some by (simp add: protected_call_def bnd_def tick_def split: prod.splits)
  moreover have "one_run (HandlerRun (h_id h) a k) ?s2 (snd (snd ?r))" by (rule one_run_cb)
  ultimately show ?thesis by (simp add: one_run_def same_counters_def)
qed

lemma one_run_only: "one_run x s s' \<Longrightarrow> only_runs x s s'"
  by (auto simp: one_run_def only_runs_def)

lemma one_run_count: "one_run x s s' \<Longrightarrow> runs s' \<le> runs s + 1"
  by (auto simp: one_run_def runs_def)

definition attempts_of :: "tool_spec option \<Rightarrow> int" where
  "attempts_of spec = (case spec of None \<Rightarrow> 1 | Some t \<Rightarrow> (case ts_retry_policy t of None \<Rightarrow> 1 | Some p \<Rightarrow> max_attempts p))"

lemma retried_only_runs: "only_runs (HandlerRun (h_id h) a k) s (snd (retried_call env am h a k spec s))"
proof (cases "case spec of None \<Rightarrow> None | Some t \<Rightarrow> ts_retry_policy t")
  case None
  then show ?thesis by (simp add: retried_call_def one_run_only one_run_protected)
next
  case (Some p)
  have "only_runs (HandlerRun (h_id h) a k) s (snd (retry_from (e_fpow env) rand (protected_call env am h a k spec) p 1 s))" for rand
    by (rule retry_from_keeps) (auto intro: only_runs_trans one_run_only one_run_protected)
  then show ?thesis using Some by (simp add: retried_call_def retry_call_def)
qed

lemma retried_count:
  "runs (snd (retried_call env am h a k spec s)) \<le> runs s + nat (attempts_of spec)"
proof (cases "case spec of None \<Rightarrow> None | Some t \<Rightarrow> ts_retry_policy t")
  case None
  then have "attempts_of spec = 1" by (auto simp: attempts_of_def split: option.splits)
  then show ?thesis using None one_run_count [OF one_run_protected] by (simp add: retried_call_def)
next
  case (Some p)
  then have p: "attempts_of spec = max_attempts p" by (auto simp: attempts_of_def split: option.splits)
  have "runs (snd (retry_from (e_fpow env) rand (protected_call env am h a k spec) p 1 s)) \<le> runs s + nat (max_attempts p - 1 + 1)" for rand
  proof (cases "1 \<le> max_attempts p")
    case True
    then show ?thesis by (intro retry_from_measure) (use one_run_count [OF one_run_protected] in auto)
  next
    case False
    then show ?thesis by (subst retry_from.simps) simp
  qed
  then show ?thesis using Some p by (simp add: retried_call_def retry_call_def)
qed

text \<open>At most \<open>n\<close> invocations of one kind, and no other change of counters or trace.\<close>

definition spends :: "nat \<Rightarrow> observation \<Rightarrow> ('w, 't) sys \<Rightarrow> ('w, 't) sys \<Rightarrow> bool" where
  "spends n x s s' \<longleftrightarrow> same_counters s s' \<and> (\<exists>m\<le>n. s_trace s' = s_trace s @ replicate m x)"

lemma spends_trans: "spends m x a b \<Longrightarrow> spends n x b c \<Longrightarrow> spends (m + n) x a c"
  unfolding spends_def by (metis add_mono append_assoc replicate_add same_counters_trans)

lemma spends_mono: "spends m x a b \<Longrightarrow> m \<le> n \<Longrightarrow> spends n x a b"
  by (auto simp: spends_def)

lemma spends_0 [simp]: "spends 0 x s s' \<longleftrightarrow> same_counters s s' \<and> s_trace s' = s_trace s"
  by (auto simp: spends_def)

lemma only_runs_spends:
  assumes "only_runs x s s'" "is_run x" "runs s' \<le> runs s + n"
  shows "spends n x s s'"
proof -
  obtain ys where ys: "same_counters s s'" "s_trace s' = s_trace s @ ys" "set ys \<subseteq> {x}"
    using assms(1) by (auto simp: only_runs_def)
  then have rep: "ys = replicate (length ys) x" by (metis replicate_eqI insertE empty_iff subsetD)
  then have "filter is_run ys = ys" using assms(2) by (metis filter_replicate)
  then have "length ys \<le> n" using ys assms(3) by (simp add: runs_def)
  then show ?thesis using ys rep unfolding spends_def by metis
qed

lemma spends_bnd:
  assumes "spends n x s (snd (m s))" "\<And>v s1. spends 0 x s1 (snd (f v s1))"
  shows "spends n x s (snd (bnd m f s))"
proof (cases "m s")
  case (Pair r s1)
  then show ?thesis
    using assms(1) assms(2) [where v = "projr r" and ?s1.0 = s1] spends_trans [of n x s s1 0]
    by (cases r) (auto simp: bnd_def simp del: spends_0)
qed

lemma spends_bnd_0:
  assumes "spends 0 x s (snd (m s))" "\<And>v s1. spends n x s1 (snd (f v s1))"
  shows "spends n x s (snd (bnd m f s))"
proof (cases "m s")
  case (Pair r s1)
  then show ?thesis
    using assms(1) assms(2) [where v = "projr r" and ?s1.0 = s1] spends_trans [of 0 x s s1 n] spends_mono [of 0 x s s1 n]
    by (cases r) (auto simp: bnd_def simp del: spends_0)
qed

lemma spends_simple:
  "spends n x s (snd (ret v s))" "spends n x s (snd (raise e s))" "spends n x s (snd (lift r s))"
  "spends n x s (snd (tick f s))" "spends n x s (snd (on_store i g s))"
  by (auto simp: ret_def raise_def lift_def tick_def on_store_def spends_def same_counters_def split: prod.splits)

lemma spends_retried:
  "spends (nat (attempts_of spec)) (HandlerRun (h_id h) a k) s (snd (retried_call env am h a k spec s))"
  by (rule only_runs_spends [OF retried_only_runs]) (auto intro: retried_count)

lemma spends_checked:
  "spends (nat (attempts_of spec)) (HandlerRun (h_id h) a k) s (snd (checked_call env am h a k spec s))"
  unfolding checked_call_def by (rule spends_bnd [OF spends_retried]) (auto simp: spends_simple simp del: spends_0)

lemma spends_settled:
  "spends (nat (attempts_of spec)) (HandlerRun (h_id h) a k) s (snd (settled_call env am h a k spec i ns key s))"
proof -
  let ?n = "nat (attempts_of spec)" and ?x = "HandlerRun (h_id h) a k"
  obtain r s1 where c: "checked_call env am h a k spec s = (r, s1)" by (cases "checked_call env am h a k spec s")
  have s1: "spends ?n ?x s s1" using spends_checked [of spec h a k s env am] c by simp
  have more: "spends 0 ?x s1 (snd (bnd (on_store i f) g s1))" if "\<And>v s2. spends 0 ?x s2 (snd (g v s2))" for f and g :: "unit \<Rightarrow> (pyval, ('a, 'b) sys) eff"
    by (rule spends_bnd) (auto simp: spends_simple that simp del: spends_0)
  show ?thesis
    using c s1 spends_trans [OF s1 more] by (auto simp: settled_call_def spends_simple split: sum.splits simp del: spends_0)
qed

lemma spends_execute:
  "spends (nat (attempts_of spec)) (HandlerRun (h_id h) a k) s (snd (execute env am h a k spec s))"
proof (cases "case spec of None \<Rightarrow> None | Some t \<Rightarrow> ts_idempotency_policy t")
  case None
  then show ?thesis unfolding execute_def
    by (auto intro!: spends_bnd spends_checked simp: spends_simple simp del: spends_0)
next
  case (Some ip)
  then show ?thesis unfolding execute_def
    by (auto intro!: spends_bnd_0 spends_settled simp: spends_simple simp del: spends_0 split: prod.splits)
qed

section \<open>The guards in front\<close>

text \<open>The answer to an approval request counts when it is a grant for this very action that has not
  expired, or a plain yes where the policy accepts one.\<close>

definition good_answer :: "'w ctx \<Rightarrow> checkpoint \<Rightarrow> int \<Rightarrow> approval_response \<Rightarrow> bool" where
  "good_answer c ck now r \<longleftrightarrow> (case r of
     Granted g \<Rightarrow> ag_action_digest g = ck_action_digest ck \<and> now \<le> ag_expires_at_epoch_ms g
   | Answer b \<Rightarrow> b \<and> \<not> (case cx_guardrails c of None \<Rightarrow> False | Some gr \<Rightarrow> require_bound_approval_grants gr))"

definition approved ::
    "('w, 't) env \<Rightarrow> 'w ctx \<Rightarrow> string \<Rightarrow> handler \<Rightarrow> tool_spec option \<Rightarrow> pyval list \<Rightarrow> payload \<Rightarrow> pyfloat \<Rightarrow> 'w \<Rightarrow> bool" where
  "approved env c n h spec a k x w \<longleftrightarrow> (\<forall>t. spec = Some t \<and> ts_requires_approval t \<longrightarrow>
     (\<exists>ck response now cb. ck_action_digest ck = e_digest env (approval_action c n t a k x (callable_identity h))
        \<and> cx_approval_callback c = Some cb
        \<and> fst (case cb of WithCheckpoint f \<Rightarrow> f t a k (Some ck) w | WithoutCheckpoint f \<Rightarrow> f t a k w) = Inr response
        \<and> good_answer c ck now response))"

definition access_allowed :: "'w ctx \<Rightarrow> string \<Rightarrow> tool_spec option \<Rightarrow> bool" where
  "access_allowed c n spec \<longleftrightarrow> (\<forall>f. cx_authorizer c = Some f \<longrightarrow>
     (\<exists>p. cx_principal c = Some p \<and> f p ''tool.execute'' n (access_context c spec) = Inr True))"

lemma bnd_Inr: "bnd m f s = (Inr y, s') \<longleftrightarrow> (\<exists>x s1. m s = (Inr x, s1) \<and> f x s1 = (Inr y, s'))"
  by (auto simp: bnd_def split: prod.splits sum.splits)

lemma eff_Inr [simp]:
  "ret x s = (Inr y, s') \<longleftrightarrow> y = x \<and> s' = s" "raise e s = (Inr z, s') \<longleftrightarrow> False"
  "lift r s = (Inr v, s') \<longleftrightarrow> r = Inr v \<and> s' = s"
  by (auto simp: ret_def raise_def lift_def)

lemma authorize_access_Inr: "authorize_access env c n spec s = (Inr u, s') \<Longrightarrow> access_allowed c n spec"
  by (auto simp: authorize_access_def access_allowed_def bnd_Inr Let_def split: option.splits if_splits)

lemma emit_ext [simp]: "s_ext (snd (emit env c ty p s)) = s_ext s"
  by (auto simp: emit_def split: option.splits if_splits)

lemma emit_Inr: "emit env c ty p s = (Inr u, s') \<Longrightarrow> s_ext s' = s_ext s
    \<and> s_trace s' = s_trace s @ (if cx_audit_emitter c then [Emitted ty p] else [])"
  by (auto simp: emit_def split: option.splits if_splits)

lemma access_ext: "authorize_access env c n spec s = (Inr u, s') \<Longrightarrow> s_ext s' = s_ext s"
  by (auto simp: authorize_access_def bnd_Inr Let_def split: option.splits if_splits dest!: emit_Inr)

lemma checkpoint_Inr:
  "approval_checkpoint env c n t a k x i s = (Inr ck, s') \<Longrightarrow> s_ext s' = s_ext s
     \<and> ck_action_digest ck = e_digest env (approval_action c n t a k x i)"
  by (auto simp: approval_checkpoint_def bnd_Inr Let_def tick_def)

lemma authorize_Inr:
  assumes "authorize env c (Some t) a k (Some ck) s = (Inr u, s')" "ts_requires_approval t"
  shows "\<exists>response now cb. cx_approval_callback c = Some cb
     \<and> fst (case cb of WithCheckpoint f \<Rightarrow> f t a k (Some ck) (s_ext s) | WithoutCheckpoint f \<Rightarrow> f t a k (s_ext s)) = Inr response
     \<and> good_answer c ck now response"
proof -
  obtain response s1 where r: "ask_approval c t a k (Some ck) s = (Inr response, s1)"
    and rest: "(case response of
              Granted g \<Rightarrow> with_checkpoint (Some ck) (\<lambda>ck.
                bnd (tick (e_epoch_ms env)) (\<lambda>now.
                case approval_grant_validate now g ck of
                  Inl e \<Rightarrow> raise (GuardrailViolation (exc_message e))
                | Inr _ \<Rightarrow> emit env c ''approval_granted''
                    (granted_payload t ck (ag_approved_by g) @ [(''reason'', PStr (ag_reason g))])))
            | Answer True \<Rightarrow>
                if (case cx_guardrails c of None \<Rightarrow> False | Some gr \<Rightarrow> require_bound_approval_grants gr)
                then raise (GuardrailViolation ''This policy requires a payload-bound ApprovalGrant; boolean approval is not sufficient'')
                else with_checkpoint (Some ck) (\<lambda>ck. emit env c ''approval_granted'' (granted_payload t ck ''synchronous_callback''))
            | Answer False \<Rightarrow> with_checkpoint (Some ck) (\<lambda>ck.
                bnd (emit env c ''approval_required'' (checkpoint_payload ck)) (\<lambda>_. raise (HumanApprovalRequired ck)))) s1 = (Inr u, s')"
    using assms by (auto simp: authorize_def bnd_Inr)
  have "\<exists>now. good_answer c ck now response"
  proof (cases response)
    case (Granted g)
    then show ?thesis using rest
      by (auto simp: with_checkpoint_def bnd_Inr tick_def good_answer_def approval_grant_validate_def split: sum.splits if_splits)
  next
    case (Answer b)
    then show ?thesis using rest
      by (cases b) (auto simp: with_checkpoint_def bnd_Inr good_answer_def split: if_splits)
  qed
  moreover have "\<exists>cb. cx_approval_callback c = Some cb
      \<and> fst (case cb of WithCheckpoint f \<Rightarrow> f t a k (Some ck) (s_ext s) | WithoutCheckpoint f \<Rightarrow> f t a k (s_ext s)) = Inr response"
  proof (cases "cx_approval_callback c")
    case None
    then have "response = Answer False" using r by (simp add: ask_approval_def)
    then show ?thesis using calculation by (simp add: good_answer_def)
  next
    case (Some cb)
    then show ?thesis using r
      by (cases cb) (auto simp: ask_approval_def split: prod.splits)
  qed
  ultimately show ?thesis by blast
qed

text \<open>The counters after a call was charged.\<close>

definition charged :: "pyfloat \<Rightarrow> ('w, 't) sys \<Rightarrow> ('w, 't) sys \<Rightarrow> bool" where
  "charged x s s' \<longleftrightarrow> steps s' = steps s \<and> tool_calls s' = tool_calls s + 1 \<and> cost_usd s' = fadd (cost_usd s) x"

definition limits_ok :: "'w ctx \<Rightarrow> int \<Rightarrow> int \<Rightarrow> pyfloat \<Rightarrow> bool" where
  "limits_ok c st n x \<longleftrightarrow> (\<forall>g. cx_guardrails c = Some g \<longrightarrow> validate_limits g st n x = Inr ())"

definition silent :: "('w, 't) sys \<Rightarrow> ('w, 't) sys \<Rightarrow> observation list \<Rightarrow> bool" where
  "silent s s' zs \<longleftrightarrow> (\<exists>ys. s_trace s' = s_trace s @ ys @ zs \<and> list_all (\<lambda>x. \<not> is_run x) ys)"

lemma quiet_silent: "quiet s s' \<Longrightarrow> silent s s' []"
  by (auto simp: quiet_def silent_def)

lemma silent_trans: "silent s s1 [] \<Longrightarrow> silent s1 s2 zs \<Longrightarrow> silent s s2 zs"
  by (fastforce simp: silent_def)

lemma check_limits_Inr: "check_limits c a b x s = (Inr u, s') \<longleftrightarrow> s' = s \<and> limits_ok c a b x"
  by (auto simp: check_limits_def limits_ok_def split: option.splits)

lemma check_limits_state: "check_limits c a b x s = (r, s') \<Longrightarrow> s' = s"
  by (auto simp: check_limits_def ret_def lift_def split: option.splits)

definition started_events :: "'w ctx \<Rightarrow> payload \<Rightarrow> observation list" where
  "started_events c base = (if cx_audit_emitter c then [Emitted ''tool_authorized'' base, Emitted ''tool_started'' base] else [])"

lemma charge_call_Inr:
  assumes "charge_call env c spec a k x ck base s = (Inr u, s')"
  shows "limits_ok c (steps s) (tool_calls s + 1) (fadd (cost_usd s) x) \<and> charged x s s' \<and> silent s s' (started_events c base)
     \<and> (\<exists>s1 s2. s_ext s1 = s_ext s \<and> authorize env c spec a k ck s1 = (Inr (), s2))"
proof -
  obtain s1 s2 where 1: "emit env c ''tool_requested'' base s = (Inr (), s1)"
    and 2: "authorize env c spec a k ck s1 = (Inr (), s2)"
    and lim: "limits_ok c (steps s2) (tool_calls s2 + 1) (fadd (cost_usd s2) x)"
    and 3: "bnd (emit env c ''tool_authorized'' base) (\<lambda>_. emit env c ''tool_started'' base)
        (s2\<lparr>tool_calls := tool_calls s2 + 1, cost_usd := fadd (cost_usd s2) x\<rparr>) = (Inr u, s')"
    using assms by (auto simp: charge_call_def bnd_Inr Let_def check_limits_Inr)
  have q: "quiet s s2" using quiet_snd [OF quiet_emit 1] quiet_snd [OF quiet_authorize 2] by (rule quiet_trans)
  then have sc: "steps s2 = steps s" "tool_calls s2 = tool_calls s" "cost_usd s2 = cost_usd s"
    by (auto simp: quiet_def same_counters_def)
  obtain s3 where 4: "emit env c ''tool_authorized'' base (s2\<lparr>tool_calls := tool_calls s2 + 1, cost_usd := fadd (cost_usd s2) x\<rparr>) = (Inr (), s3)"
    and 5: "emit env c ''tool_started'' base s3 = (Inr (), s')"
    using 3 by (auto simp: bnd_Inr)
  have "s_trace s' = s_trace s2 @ started_events c base"
    using emit_Inr [OF 4] emit_Inr [OF 5] by (auto simp: started_events_def)
  moreover have "silent s s2 []" using q by (rule quiet_silent)
  ultimately have "silent s s' (started_events c base)" by (auto simp: silent_def)
  moreover have "charged x s s'"
    using quiet_snd [OF quiet_emit 4] quiet_snd [OF quiet_emit 5] sc by (auto simp: charged_def quiet_def same_counters_def)
  ultimately show ?thesis using lim sc 2 emit_Inr [OF 1] by auto
qed

lemma charge_call_any:
  assumes "charge_call env c spec a k x ck base s = (r, s')"
  shows "silent s s' [] \<and> (same_counters s s' \<or> charged x s s' \<and> limits_ok c (steps s) (tool_calls s + 1) (fadd (cost_usd s) x))"
proof (cases r)
  case (Inr u)
  have "list_all (\<lambda>x. \<not> is_run x) (started_events c base)" by (simp add: started_events_def)
  then show ?thesis using charge_call_Inr [of env c spec a k x ck base s u s'] assms Inr
    by (auto simp: silent_def)
next
  case (Inl e)
  let ?after = "\<lambda>s2. bnd (emit env c ''tool_authorized'' base) (\<lambda>_. emit env c ''tool_started'' base)
        (s2\<lparr>tool_calls := tool_calls s2 + 1, cost_usd := fadd (cost_usd s2) x\<rparr>)"
  have "quiet s s' \<or> (\<exists>s2. quiet s s2 \<and> limits_ok c (steps s2) (tool_calls s2 + 1) (fadd (cost_usd s2) x) \<and> ?after s2 = (r, s'))"
  proof -
    from assms show ?thesis unfolding charge_call_def
    proof (cases rule: bnd_cases)
      case (1 e')
      then show ?thesis using quiet_snd [OF quiet_emit] by blast
    next
      case (2 u s1)
      have q1: "quiet s s1" using quiet_snd [OF quiet_emit 2(1)] .
      from 2(2) show ?thesis
      proof (cases rule: bnd_cases)
        case (1 e')
        then show ?thesis using quiet_trans [OF q1 quiet_snd [OF quiet_authorize]] by blast
      next
        case (2 u s2)
        have q2: "quiet s s2" using quiet_trans [OF q1 quiet_snd [OF quiet_authorize 2(1)]] .
        from 2(2) show ?thesis unfolding Let_def
        proof (cases rule: bnd_cases)
          case (1 e')
          then show ?thesis using q2 check_limits_state by metis
        next
          case (2 u s3)
          then show ?thesis using q2 by (auto simp: check_limits_Inr)
        qed
      qed
    qed
  qed
  moreover have "silent s s' [] \<and> charged x s s' \<and> limits_ok c (steps s) (tool_calls s + 1) (fadd (cost_usd s) x)"
    if "quiet s s2" "limits_ok c (steps s2) (tool_calls s2 + 1) (fadd (cost_usd s2) x)" "?after s2 = (r, s')" for s2
  proof -
    have "keeps quiet (bnd (emit env c ''tool_authorized'' base) (\<lambda>_. emit env c ''tool_started'' base))"
      by (intro keeps_intros)
    then have "quiet (s2\<lparr>tool_calls := tool_calls s2 + 1, cost_usd := fadd (cost_usd s2) x\<rparr>) s'"
      using quiet_snd that(3) by blast
    then show ?thesis using that(1,2)
      by (fastforce simp: quiet_def same_counters_def charged_def silent_def)
  qed
  ultimately show ?thesis using quiet_silent by (auto simp: quiet_def)
qed

text \<open>Whatever happens in front of a handler: no handler runs, and the counters are unchanged or those of one
  charged call within the limits.\<close>

definition fronted :: "'w ctx \<Rightarrow> ('w, 't) sys \<Rightarrow> ('w, 't) sys \<Rightarrow> bool" where
  "fronted c s s' \<longleftrightarrow> silent s s' [] \<and> (same_counters s s'
     \<or> (\<exists>x. charged x s s' \<and> limits_ok c (steps s) (tool_calls s + 1) (fadd (cost_usd s) x)))"

lemma quiet_fronted: "quiet s s' \<Longrightarrow> fronted c s s'"
  using quiet_silent by (auto simp: fronted_def quiet_def)

lemma fronted_after_quiet: "quiet s s1 \<Longrightarrow> fronted c s1 s2 \<Longrightarrow> fronted c s s2"
  using silent_trans [OF quiet_silent, of s s1 s2 "[]"]
  by (auto simp: fronted_def quiet_def same_counters_def charged_def)

lemma fronted_bnd:
  assumes "keeps quiet m" "\<And>x s1. fronted c s1 (snd (f x s1))"
  shows "fronted c s (snd (bnd m f s))"
proof (cases "m s")
  case (Pair r s1)
  then have "quiet s s1" using quiet_snd [OF assms(1)] by blast
  then show ?thesis
    using Pair assms(2) [of s1 "projr r"] fronted_after_quiet [of s s1 c "snd (f (projr r) s1)"] quiet_fronted
    by (cases r) (auto simp: bnd_def)
qed

lemma fronted_charge: "fronted c s (snd (bnd (charge_call env c spec a k x ck base) (\<lambda>_. ret v) s))"
proof (cases "charge_call env c spec a k x ck base s")
  case (Pair r s1)
  then have "fronted c s s1" using charge_call_any [OF Pair] by (auto simp: fronted_def)
  then show ?thesis using Pair by (cases r) (auto simp: bnd_def ret_def)
qed

lemma quiet_check_allowed [keeps_intros]: "keeps quiet (check_allowed c n)"
  by (auto simp: check_allowed_def intro: keeps_intros split: option.splits)

lemma quiet_maybe_checkpoint [keeps_intros]: "keeps quiet (maybe_checkpoint env c n h spec a k x)"
  unfolding maybe_checkpoint_def by (auto intro!: keeps_intros split: option.splits)

lemma fronted_prepare: "fronted c s (snd (prepare_call env c n f args k cost am s))"
  unfolding prepare_call_def Let_def
  apply (rule fronted_bnd, rule keeps_intros)
  apply (rule fronted_bnd, rule keeps_intros)
  apply (simp only: split_paired_all prod.case)
  apply ((rule fronted_charge | (rule fronted_bnd, rule keeps_intros))+)
  done

lemma check_allowed_Inr:
  "check_allowed c n s = (Inr u, s') \<longleftrightarrow> s' = s \<and> (\<forall>g. cx_guardrails c = Some g \<longrightarrow> validate_tool_allowed g (PStr n) = Inr ())"
  by (auto simp: check_allowed_def split: option.splits)

lemma maybe_checkpoint_Inr:
  assumes "maybe_checkpoint env c n h spec a k x s = (Inr ck, s')"
  shows "s_ext s' = s_ext s \<and> (\<forall>t. spec = Some t \<and> ts_requires_approval t \<longrightarrow>
    (\<exists>ck'. ck = Some ck' \<and> ck_action_digest ck' = e_digest env (approval_action c n t a k x (callable_identity h))))"
  using assms by (auto simp: maybe_checkpoint_def bnd_Inr split: option.splits if_splits dest!: checkpoint_Inr)

definition admitted ::
    "('w, 't) env \<Rightarrow> 'w ctx \<Rightarrow> bool \<Rightarrow> string \<Rightarrow> first_arg \<Rightarrow> pyval list \<Rightarrow> payload \<Rightarrow> pyval option \<Rightarrow> ('w, 't) sys
     \<Rightarrow> handler \<Rightarrow> pyval list \<Rightarrow> tool_spec option \<Rightarrow> pyfloat \<Rightarrow> bool" where
  "admitted env c am n f args k cost s h a spec x \<longleftrightarrow>
     (\<forall>g. cx_guardrails c = Some g \<longrightarrow> validate_tool_allowed g (PStr n) = Inr ())
     \<and> resolve_tool c n f args = Inr (h, a, spec) \<and> access_allowed c n spec \<and> mode_check n am h spec = Inr ()
     \<and> estimated_cost spec a k cost = Inr x \<and> approved env c n h spec a k x (s_ext s)
     \<and> limits_ok c (steps s) (tool_calls s + 1) (fadd (cost_usd s) x)"

lemma prepare_call_Inr:
  assumes "prepare_call env c n f args k cost am s = (Inr (h, a, spec, x, base), s')"
  shows "admitted env c am n f args k cost s h a spec x \<and> charged x s s' \<and> silent s s' (started_events c base)"
proof -
  obtain s1 ck s2 where g: "\<forall>gr. cx_guardrails c = Some gr \<longrightarrow> validate_tool_allowed gr (PStr n) = Inr ()"
    and r: "resolve_tool c n f args = Inr (h, a, spec)" and 1: "authorize_access env c n spec s = (Inr (), s1)"
    and m: "mode_check n am h spec = Inr ()" and x: "estimated_cost spec a k cost = Inr x"
    and 2: "maybe_checkpoint env c n h spec a k x s1 = (Inr ck, s2)" and 3: "charge_call env c spec a k x ck base s2 = (Inr (), s')"
    using assms by (auto simp: prepare_call_def bnd_Inr check_allowed_Inr Let_def)
  have q: "quiet s s2" using quiet_trans [OF quiet_snd [OF quiet_access 1] quiet_snd [OF quiet_maybe_checkpoint 2]] .
  have ext: "s_ext s2 = s_ext s" using access_ext [OF 1] maybe_checkpoint_Inr [OF 2] by simp
  note ch = charge_call_Inr [OF 3]
  obtain s3 s4 where au: "s_ext s3 = s_ext s2" "authorize env c spec a k ck s3 = (Inr (), s4)" using ch by blast
  have "approved env c n h spec a k x (s_ext s)"
    unfolding approved_def
  proof (intro allI impI, elim conjE)
    fix t assume t: "spec = Some t" "ts_requires_approval t"
    then obtain ck' where ck': "ck = Some ck'" "ck_action_digest ck' = e_digest env (approval_action c n t a k x (callable_identity h))"
      using maybe_checkpoint_Inr [OF 2] by blast
    show "\<exists>ck response now cb. ck_action_digest ck = e_digest env (approval_action c n t a k x (callable_identity h))
        \<and> cx_approval_callback c = Some cb
        \<and> fst (case cb of WithCheckpoint f \<Rightarrow> f t a k (Some ck) (s_ext s) | WithoutCheckpoint f \<Rightarrow> f t a k (s_ext s)) = Inr response
        \<and> good_answer c ck now response"
      using authorize_Inr [of env c t a k ck' s3 "()" s4] au ck' t ext by metis
  qed
  moreover have "same_counters s s2" using q by (simp add: quiet_def)
  ultimately show ?thesis
    using ch g r m x authorize_access_Inr [OF 1] silent_trans [OF quiet_silent [OF q]]
    by (auto simp: admitted_def same_counters_def charged_def)
qed

section \<open>Whole calls\<close>

lemma quiet_close [keeps_intros]: "keeps quiet (close_call env c base r)"
  unfolding close_call_def by (auto intro!: keeps_intros split: sum.splits)

lemma call_tool_cases:
  assumes "call_tool env c am n f args k cost s = (r, s')"
  obtains (refused) e where "prepare_call env c n f args k cost am s = (Inl e, s')" "r = Inl e"
  | (run) h a spec x base s1 r2 s2 where "prepare_call env c n f args k cost am s = (Inr (h, a, spec, x, base), s1)"
      "execute env am h a k spec s1 = (r2, s2)" "close_call env c base r2 s2 = (r, s')"
proof -
  from assms [unfolded call_tool_def] show thesis
  proof (cases rule: bnd_cases)
    case (1 e)
    then show thesis by (rule refused)
  next
    case (2 y s1)
    obtain h a spec x base where y: "y = (h, a, spec, x, base)" by (cases y) auto
    obtain r2 s2 where "execute env am h a k spec s1 = (r2, s2)" by (cases "execute env am h a k spec s1")
    with 2 y show thesis by (intro run) auto
  qed
qed

text \<open>The trace a call adds, when its handler may have run.\<close>

definition call_trace :: "'w ctx \<Rightarrow> ('w, 't) sys \<Rightarrow> ('w, 't) sys \<Rightarrow> payload \<Rightarrow> nat \<Rightarrow> observation \<Rightarrow> bool" where
  "call_trace c s s' base m x \<longleftrightarrow> (\<exists>pre post. s_trace s' = s_trace s @ pre @ started_events c base @ replicate m x @ post
     \<and> list_all (\<lambda>y. \<not> is_run y) (pre @ post))"

lemma call_tool_run:
  assumes "prepare_call env c n f args k cost am s = (Inr (h, a, spec, x, base), s1)"
    and "execute env am h a k spec s1 = (r2, s2)" and "close_call env c base r2 s2 = (r, s')"
  shows "admitted env c am n f args k cost s h a spec x \<and> charged x s s'
    \<and> (\<exists>m\<le>nat (attempts_of spec). call_trace c s s' base m (HandlerRun (h_id h) a k))"
proof -
  note p = prepare_call_Inr [OF assms(1)]
  have e: "spends (nat (attempts_of spec)) (HandlerRun (h_id h) a k) s1 s2"
    using spends_execute [of spec h a k s1 env am] assms(2) by simp
  have q: "quiet s2 s'" using quiet_snd [OF quiet_close assms(3)] .
  obtain pre where pre: "s_trace s1 = s_trace s @ pre @ started_events c base" "list_all (\<lambda>y. \<not> is_run y) pre"
    using p by (auto simp: silent_def)
  obtain m where m: "m \<le> nat (attempts_of spec)" "s_trace s2 = s_trace s1 @ replicate m (HandlerRun (h_id h) a k)"
    using e by (auto simp: spends_def)
  obtain post where post: "s_trace s' = s_trace s2 @ post" "list_all (\<lambda>y. \<not> is_run y) post"
    using q by (auto simp: quiet_def)
  have "call_trace c s s' base m (HandlerRun (h_id h) a k)"
    unfolding call_trace_def using pre m post by (intro exI [of _ pre] exI [of _ post]) simp
  moreover have "charged x s s'"
    using p e q by (auto simp: charged_def spends_def quiet_def same_counters_def)
  ultimately show ?thesis using p m by blast
qed

lemma call_trace_runs: "call_trace c s s' base m x \<Longrightarrow> is_run x \<Longrightarrow> runs s' = runs s + m"
  by (auto simp: call_trace_def runs_def started_events_def filter_replicate list_all_iff filter_empty_conv)

lemma started_events_no_run: "list_all (\<lambda>y. \<not> is_run y) (started_events c base)"
  by (simp add: started_events_def)

text \<open>A call that ran its handler.\<close>

lemma call_tool_ran:
  assumes "call_tool env c am n f args k cost s = (r, s')" and "runs s < runs s'"
  shows "\<exists>h a spec x base m. admitted env c am n f args k cost s h a spec x \<and> charged x s s'
    \<and> 0 < m \<and> m \<le> nat (attempts_of spec) \<and> call_trace c s s' base m (HandlerRun (h_id h) a k)"
  using assms(1)
proof (cases rule: call_tool_cases)
  case (refused e)
  have "silent s s' []" using fronted_prepare [of c s env n f args k cost am] refused(1) by (simp add: fronted_def)
  then have "runs s' = runs s" by (auto simp: silent_def runs_def list_all_iff filter_empty_conv)
  then show ?thesis using assms(2) by simp
next
  case (run h a spec x base s1 r2 s2)
  obtain m where "m \<le> nat (attempts_of spec)" and tr: "call_trace c s s' base m (HandlerRun (h_id h) a k)"
    using call_tool_run [OF run] by blast
  moreover have "0 < m" using call_trace_runs [OF tr] assms(2) by simp
  ultimately show ?thesis using call_tool_run [OF run] by blast
qed

lemma call_tool_counters:
  assumes "call_tool env c am n f args k cost s = (r, s')"
  shows "same_counters s s' \<or> (\<exists>x. charged x s s' \<and> limits_ok c (steps s) (tool_calls s + 1) (fadd (cost_usd s) x))"
  using assms
proof (cases rule: call_tool_cases)
  case (refused e)
  then show ?thesis using fronted_prepare [of c s env n f args k cost am] by (auto simp: fronted_def)
next
  case (run h a spec x base s1 r2 s2)
  then show ?thesis using call_tool_run [OF run] by (auto simp: admitted_def)
qed

section \<open>Sequences of operations\<close>

text \<open>An agent may catch any exception and go on.\<close>

definition ctx_step :: "('w, 't) env \<Rightarrow> 'w ctx \<Rightarrow> ctx_op \<Rightarrow> ('w, 't) sys \<Rightarrow> ('w, 't) sys" where
  "ctx_step env c x s = snd (ctx_do env c x s)"

lemma snd_bnd_ret: "snd (bnd m (\<lambda>_. ret v) s) = snd (m s)"
  by (simp add: bnd_def ret_def split: prod.splits sum.splits)

lemma ctx_step_simps [simp]:
  "ctx_step env c BumpStep s = snd (bump_step c s)"
  "ctx_step env c BumpToolCall s = snd (bump_tool_call c s)"
  "ctx_step env c (AddCost v) s = snd (add_cost c v s)"
  "ctx_step env c (CallTool am n f args k cost) s = snd (call_tool env c am n f args k cost s)"
  by (simp_all add: ctx_step_def snd_bnd_ret)

definition in_limits :: "guardrails \<Rightarrow> ('w, 't) sys \<Rightarrow> bool" where
  "in_limits g s \<longleftrightarrow> within_limits g (steps s) (tool_calls s) (cost_usd s)"

lemma limits_ok_within:
  "wf_guardrails g \<Longrightarrow> cx_guardrails c = Some g \<Longrightarrow> limits_ok c st n x \<longleftrightarrow> within_limits g st n x"
  using validate_limits_Inr [of g st n x "()"] by (auto simp: limits_ok_def wf_guardrails_def)

lemma after_check:
  "bnd (check_limits c a b x) (\<lambda>_ s. (Inr (), f s)) s = (r, s') \<Longrightarrow> s' = s \<or> s' = f s \<and> limits_ok c a b x"
  by (auto elim!: bnd_cases simp: check_limits_Inr dest: check_limits_state)

lemma ctx_step_limits:
  assumes g: "wf_guardrails g" "cx_guardrails c = Some g" and s: "in_limits g s"
  shows "in_limits g (ctx_step env c op s)"
proof (cases op)
  case BumpStep
  obtain r s' where "bump_step c s = (r, s')" by (cases "bump_step c s")
  then show ?thesis using after_check [of c "steps s + 1" "tool_calls s" "cost_usd s" "\<lambda>s. s\<lparr>steps := _\<rparr>" s r s'] BumpStep s
    by (auto simp: bump_step_def Let_def in_limits_def limits_ok_within [OF g] dest!: after_check)
next
  case BumpToolCall
  obtain r s' where "bump_tool_call c s = (r, s')" by (cases "bump_tool_call c s")
  then show ?thesis using BumpToolCall s
    by (auto simp: bump_tool_call_def Let_def in_limits_def limits_ok_within [OF g] dest!: after_check)
next
  case (AddCost v)
  obtain r s' where "add_cost c v s = (r, s')" by (cases "add_cost c v s")
  then show ?thesis using AddCost s
    by (auto simp: add_cost_def Let_def in_limits_def limits_ok_within [OF g] lift_def dest!: after_check elim!: bnd_cases)
next
  case (CallTool am n f args k cost)
  obtain r s' where c: "call_tool env c am n f args k cost s = (r, s')" by (cases "call_tool env c am n f args k cost s")
  then show ?thesis using CallTool s call_tool_counters [OF c]
    by (auto simp: in_limits_def limits_ok_within [OF g] same_counters_def charged_def)
qed

section \<open>Theorems\<close>

text \<open>C13: No sequence of operations of an agent, whichever of them fail and are caught, takes the step
  counter, the tool-call counter or the accumulated cost of a run outside the guardrails.\<close>

theorem context_within_limits:
  assumes "guardrails_init p1 p2 p3 p4 p5 p6 p7 = Inr g" and "cx_guardrails c = Some g"
    and "steps s0 = 0" "tool_calls s0 = 0" "cost_usd s0 = Fin 0" and "s = fold (ctx_step env c) ops s0"
  shows "within_limits g (steps s) (tool_calls s) (cost_usd s)"
proof -
  have wf: "wf_guardrails g" using guardrails_init_wf [OF assms(1)] .
  have "in_limits g s0" using wf assms(3-5) by (simp add: in_limits_def within_limits_def wf_guardrails_def)
  then have "in_limits g (fold (ctx_step env c) ops s0)"
    by (induction ops arbitrary: s0) (auto intro: ctx_step_limits [OF wf assms(2)])
  then show ?thesis using assms(6) by (simp add: in_limits_def)
qed

text \<open>C1: A handler runs only behind every guard: when a call of a tool invoked a handler, the tool is
  allowlisted, the handler is the registered one with the arguments of the call, the principal was
  authorised, an approval for this very action was given where one is required, the call was within
  the limits and has been charged, the events \<^verbatim>\<open>tool_authorized\<close> and \<^verbatim>\<open>tool_started\<close> precede the first
  invocation, and it was invoked at most as often as the retry policy allows.\<close>

theorem handler_runs_only_admitted:
  assumes "call_tool env c am n f args k cost s = (r, s')" and "HandlerRun i a k' \<in> set (drop (length (s_trace s)) (s_trace s'))"
  shows "\<exists>h spec x base m. i = h_id h \<and> k' = k \<and> admitted env c am n f args k cost s h a spec x \<and> charged x s s'
    \<and> 0 < m \<and> m \<le> nat (attempts_of spec) \<and> call_trace c s s' base m (HandlerRun (h_id h) a k)"
proof -
  have more: "runs s < runs s'"
  proof -
    have "\<exists>ys. s_trace s' = s_trace s @ ys"
      using assms(1)
    proof (cases rule: call_tool_cases)
      case (refused e)
      then show ?thesis using fronted_prepare [of c s env n f args k cost am] by (auto simp: fronted_def silent_def)
    next
      case (run h a spec x base s1 r2 s2)
      then show ?thesis using call_tool_run [OF run] by (auto simp: call_trace_def)
    qed
    then obtain ys where ys: "s_trace s' = s_trace s @ ys" by blast
    then have "filter is_run ys \<noteq> []" using assms(2) by (force simp: filter_empty_conv)
    then show ?thesis using ys by (simp add: runs_def)
  qed
  from call_tool_ran [OF assms(1) more]
  obtain h a1 spec x base m where ad: "admitted env c am n f args k cost s h a1 spec x" "charged x s s'" "0 < m" "m \<le> nat (attempts_of spec)"
    and tr: "call_trace c s s' base m (HandlerRun (h_id h) a1 k)" by blast
  have "HandlerRun i a k' = HandlerRun (h_id h) a1 k"
  proof -
    obtain pre post where "s_trace s' = s_trace s @ pre @ started_events c base @ replicate m (HandlerRun (h_id h) a1 k) @ post"
      and quiet: "list_all (\<lambda>y. \<not> is_run y) (pre @ post)" using tr by (auto simp: call_trace_def)
    then have "HandlerRun i a k' \<in> set (pre @ post) \<union> set (started_events c base) \<union> {HandlerRun (h_id h) a1 k}"
      using assms(2) by auto
    moreover have "is_run (HandlerRun i a k')" by simp
    ultimately show ?thesis using quiet started_events_no_run [of c base] unfolding list_all_iff by blast
  qed
  then show ?thesis using ad tr by (intro exI [of _ h] exI [of _ spec] exI [of _ x] exI [of _ base] exI [of _ m]) auto
qed

lemma is_finite_Fin: "is_finite x \<longleftrightarrow> (\<exists>q. x = Fin q)"
  by (cases x) auto

lemma registered_minimum_ge:
  assumes "registered_minimum (Some t) a k = Inr m" "is_finite (ts_default_cost_usd t)"
  shows "fle (ts_default_cost_usd t) m \<and> is_finite m"
proof -
  obtain d where d: "ts_default_cost_usd t = Fin d" using assms(2) by (cases "ts_default_cost_usd t") auto
  show ?thesis using assms(1) unfolding registered_minimum_def d option.case
    by (auto simp: validate_cost_amount_Inr fmax_def is_finite_Fin split: option.splits sum.splits if_splits)
qed

lemma estimated_cost_ge:
  assumes "estimated_cost (Some t) a k cost = Inr x" "is_finite (ts_default_cost_usd t)"
  shows "fle (ts_default_cost_usd t) x"
proof -
  obtain m where m: "registered_minimum (Some t) a k = Inr m"
    using assms(1) by (auto simp: estimated_cost_def split: sum.splits)
  have "fle m x" using assms(1) m registered_minimum_ge [OF m assms(2)]
    by (cases m) (auto simp: estimated_cost_def validate_cost_amount_Inr fmax_def split: option.splits sum.splits if_splits elim!: is_finite.elims)
  then show ?thesis using registered_minimum_ge [OF m assms(2)] fle_trans by blast
qed

text \<open>C28: A call is charged exactly once however often its handler is retried, a refused call does not run
  the handler, and no caller pays less than the registered default cost of the tool.\<close>

theorem call_charged_once:
  assumes "call_tool env c am n f args k cost s = (r, s')"
  shows "(same_counters s s' \<longrightarrow> runs s' = runs s)
    \<and> (runs s < runs s' \<longrightarrow> (\<exists>h a spec x. charged x s s' \<and> resolve_tool c n f args = Inr (h, a, spec)
         \<and> (\<forall>t. spec = Some t \<and> is_finite (ts_default_cost_usd t) \<longrightarrow> fle (ts_default_cost_usd t) x)
         \<and> runs s' \<le> runs s + nat (attempts_of spec)))"
proof -
  have run_charged: "\<exists>h a spec x. charged x s s' \<and> resolve_tool c n f args = Inr (h, a, spec)
         \<and> (\<forall>t. spec = Some t \<and> is_finite (ts_default_cost_usd t) \<longrightarrow> fle (ts_default_cost_usd t) x)
         \<and> runs s' \<le> runs s + nat (attempts_of spec)" if more: "runs s < runs s'"
  proof -
    from call_tool_ran [OF assms more]
    obtain h a spec x base m where *: "admitted env c am n f args k cost s h a spec x" "charged x s s'" "m \<le> nat (attempts_of spec)"
      and tr: "call_trace c s s' base m (HandlerRun (h_id h) a k)" by blast
    have "runs s' \<le> runs s + nat (attempts_of spec)" using call_trace_runs [OF tr] *(3) by simp
    then show ?thesis using * estimated_cost_ge by (auto simp: admitted_def intro!: exI [of _ h] exI [of _ a] exI [of _ spec] exI [of _ x])
  qed
  have mono: "runs s \<le> runs s'"
    using assms
  proof (cases rule: call_tool_cases)
    case (refused e)
    then show ?thesis using fronted_prepare [of c s env n f args k cost am] by (auto simp: fronted_def silent_def runs_def)
  next
    case (run h a spec x base s1 r2 s2)
    then show ?thesis using call_tool_run [OF run] by (auto dest!: call_trace_runs)
  qed
  have "runs s' = runs s" if "same_counters s s'"
    using that run_charged mono by (cases "runs s < runs s'") (auto simp: same_counters_def charged_def)
  then show ?thesis using run_charged by blast
qed

text \<open>C6: Under a policy that requires bound grants, a tool that requires approval runs only for an action
  someone approved: if every grant the callback ever returns was issued for an action of \<open>S\<close>, the
  canonical form of the executed action (tool, version, handler, arguments, cost, policy, principal
  and scope) is that of an action of \<open>S\<close>, or collides with it under the digest function.\<close>

theorem bound_approval_binds_action:
  assumes "call_tool env c am n f args k cost s = (r, s')" and "runs s < runs s'"
    and "cx_guardrails c = Some g" "require_bound_approval_grants g"
    and "resolve_tool c n f args = Inr (h, a, Some t)" "ts_requires_approval t"
    and "e_digest env = digest_value sha fr orr"
    and "\<forall>t a k ck w gr. (\<exists>cb. cx_approval_callback c = Some cb \<and>
           fst (case cb of WithCheckpoint q \<Rightarrow> q t a k ck w | WithoutCheckpoint q \<Rightarrow> q t a k w) = Inr (Granted gr))
         \<longrightarrow> (\<exists>act\<in>S. ag_action_digest gr = digest_value sha fr orr act)"
  shows "\<exists>x. estimated_cost (Some t) a k cost = Inr x \<and> (\<exists>act\<in>S.
      canonical_json fr orr act = canonical_json fr orr (approval_action c n t a k x (callable_identity h))
      \<or> collision sha (canonical_json fr orr act) (canonical_json fr orr (approval_action c n t a k x (callable_identity h))))"
proof -
  from call_tool_ran [OF assms(1,2)] assms(5)
  obtain x where x: "estimated_cost (Some t) a k cost = Inr x" and ap: "approved env c n h (Some t) a k x (s_ext s)"
    by (auto simp: admitted_def)
  obtain ck response now cb where ck: "ck_action_digest ck = e_digest env (approval_action c n t a k x (callable_identity h))"
    and cb: "cx_approval_callback c = Some cb"
    and resp: "fst (case cb of WithCheckpoint q \<Rightarrow> q t a k (Some ck) (s_ext s) | WithoutCheckpoint q \<Rightarrow> q t a k (s_ext s)) = Inr response"
    and good: "good_answer c ck now response"
    using ap assms(6) unfolding approved_def by blast
  obtain gr where gr: "response = Granted gr" "ag_action_digest gr = ck_action_digest ck"
    using good assms(3,4) by (cases response) (auto simp: good_answer_def)
  obtain act where act: "act \<in> S" "ag_action_digest gr = digest_value sha fr orr act"
    using assms(8) cb resp gr(1) by blast
  have "sha (canonical_json fr orr act) = sha (canonical_json fr orr (approval_action c n t a k x (callable_identity h)))"
    using act(2) gr(2) ck assms(7) by (simp add: digest_value_def)
  then show ?thesis using x act(1) unfolding collision_def by blast
qed

text \<open>With an emitter that does not fail, the audit trail of a call that ran its handler is complete: it
  ends with \<^verbatim>\<open>tool_completed\<close> when the call returned and with \<^verbatim>\<open>tool_failed\<close> when it raised an
  \<^verbatim>\<open>Exception\<close>, for the same call the \<^verbatim>\<open>tool_started\<close> event announced.\<close>

theorem call_trail_complete:
  assumes "call_tool env c am n f args k cost s = (r, s')" and "runs s < runs s'"
    and "cx_audit_emitter c" "\<forall>tr ty p. e_emit_fault env tr ty p = None"
  shows "\<exists>base extra. Emitted ''tool_started'' base \<in> set (drop (length (s_trace s)) (s_trace s'))
    \<and> (case r of Inr _ \<Rightarrow> last (s_trace s') = Emitted ''tool_completed'' (base @ extra)
       | Inl e \<Rightarrow> is_Exception e \<longrightarrow> last (s_trace s') = Emitted ''tool_failed'' (base @ extra))"
  using assms(1)
proof (cases rule: call_tool_cases)
  case (refused e)
  have "silent s s' []" using fronted_prepare [of c s env n f args k cost am] refused(1) by (simp add: fronted_def)
  then have "runs s' = runs s" by (auto simp: silent_def runs_def list_all_iff filter_empty_conv)
  then show ?thesis using assms(2) by simp
next
  case (run h a spec x base s1 r2 s2)
  have em: "emit env c ty p u = (Inr (), u\<lparr>s_trace := s_trace u @ [Emitted ty p]\<rparr>)" for ty p u
    using assms(3,4) by (simp add: emit_def)
  have started: "Emitted ''tool_started'' base \<in> set (drop (length (s_trace s)) (s_trace s'))"
    using call_tool_run [OF run] assms(3) by (auto simp: call_trace_def started_events_def)
  show ?thesis
  proof (cases r2)
    case (Inl e)
    then show ?thesis using run(3) started em
      by (cases "is_Exception e") (auto simp: close_call_def bnd_def tick_def raise_def)
  next
    case (Inr v)
    then show ?thesis using run(3) started em
      by (auto simp: close_call_def bnd_def tick_def ret_def)
  qed
qed

section \<open>Replay of an idempotent call\<close>

definition same_stores :: "('w, 't) sys \<Rightarrow> ('w, 't) sys \<Rightarrow> bool" where
  "same_stores s s' \<longleftrightarrow> s_idem s' = s_idem s"

lemma stores_raw: "same_stores s (snd (raw_call env am h a k spec s))"
  by (auto simp: raw_call_def run_handler_def same_stores_def split: prod.splits)

lemma stores_protected: "same_stores s (snd (protected_call env am h a k spec s))"
proof (cases "case spec of None \<Rightarrow> None | Some t \<Rightarrow> ts_circuit_breaker t")
  case None
  then show ?thesis by (simp add: protected_call_def stores_raw)
next
  case (Some b)
  let ?s2 = "s\<lparr>s_ticks := s_ticks s + 2\<rparr>"
  let ?t1 = "e_monotonic env (s_ticks s)" and ?t2 = "e_monotonic env (s_ticks s + 1)"
  have "same_stores ?s2 (snd (snd (cb_call ?t1 ?t2 (raw_call env am h a k spec) (s_breakers s b, ?s2))))"
    using cb_call_state [of ?t1 ?t2 "raw_call env am h a k spec" "s_breakers s b" ?s2] stores_raw [of ?s2]
    by (auto simp: same_stores_def)
  then show ?thesis using Some
    by (auto simp: protected_call_def bnd_def tick_def same_stores_def split: prod.splits)
qed

lemma stores_retried: "same_stores s (snd (retried_call env am h a k spec s))"
proof (cases "case spec of None \<Rightarrow> None | Some t \<Rightarrow> ts_retry_policy t")
  case None
  then show ?thesis by (simp add: retried_call_def stores_protected)
next
  case (Some p)
  have "same_stores s (snd (retry_from (e_fpow env) rand (protected_call env am h a k spec) p 1 s))" for rand
    by (rule retry_from_keeps [where R = same_stores, OF _ _ stores_protected]) (auto simp: same_stores_def)
  then show ?thesis using Some by (simp add: retried_call_def retry_call_def)
qed

lemma stores_checked: "checked_call env am h a k spec s = (r, s') \<Longrightarrow> s_idem s' = s_idem s"
  using stores_retried [of s env am h a k spec]
  by (auto simp: checked_call_def same_stores_def ret_def raise_def split: if_splits elim!: bnd_cases)

text \<open>A first execution that ran the handler: the store was asked, started the request and recorded the
  result.\<close>

lemma execute_fresh:
  assumes ip: "ts_idempotency_policy t = Some (i, p)"
    and ex: "execute env am h a k (Some t) s = (Inr v, s1)" and fresh: "runs s < runs s1"
  obtains key d res u where
    "prepare (e_begin env (e_utc_us env (s_ticks s))) (e_digest env) p a k (s_idem s i) = (Inr (key, d, res), u)"
    "idem_status res \<noteq> ''completed''" "idem_status res \<noteq> ''failed''"
    "e_complete env (ip_namespace p) key v u = (Inr (), s_idem s1 i)"
proof -
  let ?s0 = "s\<lparr>s_ticks := s_ticks s + 1\<rparr>"
  let ?P = "prepare (e_begin env (e_utc_us env (s_ticks s))) (e_digest env) p a k"
  obtain key d res u where p: "?P (s_idem s i) = (Inr (key, d, res), u)"
    and rest: "(if idem_status res = ''completed'' then ret (py_of_json (idem_response res))
          else if idem_status res = ''failed''
            then raise (GuardrailViolation (''Previous idempotent execution failed: '' @ idem_error res))
          else settled_call env am h a k (Some t) i (ip_namespace p) key) (?s0\<lparr>s_idem := (s_idem ?s0)(i := u)\<rparr>) = (Inr v, s1)"
    using ex ip by (auto simp: execute_def bnd_Inr tick_def on_store_def split: prod.splits sum.splits)
  have started: "idem_status res \<noteq> ''completed''" "idem_status res \<noteq> ''failed''"
    using rest fresh by (auto simp: runs_def split: if_splits)
  let ?s2 = "?s0\<lparr>s_idem := (s_idem ?s0)(i := u)\<rparr>"
  have st: "settled_call env am h a k (Some t) i (ip_namespace p) key ?s2 = (Inr v, s1)" using rest started by simp
  obtain r s3 where c: "checked_call env am h a k (Some t) ?s2 = (r, s3)" by (cases "checked_call env am h a k (Some t) ?s2")
  have s3: "s_idem s3 i = u" using stores_checked [OF c] by simp
  obtain y where y: "r = Inr y" using st c by (cases r) (auto simp: settled_call_def bnd_Inr split: if_splits)
  have "v = result_value y" "e_complete env (ip_namespace p) key v u = (Inr (), s_idem s1 i)"
    using st c y s3 by (auto simp: settled_call_def bnd_Inr on_store_def split: prod.splits sum.splits)
  then show thesis using that [OF p started] by blast
qed

text \<open>C29: An idempotent tool runs once per key: after an execution that ran its handler and returned, the
  same call, made before the record expires, returns the recorded response (the JSON form of the
  value) without invoking the handler, on the SQLite store.\<close>

theorem idempotent_call_replays:
  assumes "ts_idempotency_policy t = Some (i, p)" "\<not> blank (ip_namespace p)"
    and "e_begin env = sqlite_begin loads" "e_complete env = sqlite_complete (response_text fr orr)"
    and "idem_keys_distinct (s_idem s i)"
    and "execute env am h a k (Some t) s = (Inr v, s1)" "runs s < runs s1"
    and "s_idem s2 i = s_idem s1 i" "e_utc_us env (s_ticks s2) \<le> idem_expiry (e_utc_us env (s_ticks s)) (ip_ttl_seconds p)"
    and "wf_pyval v" "loads (canonical_json fr orr v) = Inr (sort_keys (to_jsonable fr orr v))"
  shows "\<exists>s3. execute env am h a k (Some t) s2 = (Inr (py_of_json (sort_keys (to_jsonable fr orr v))), s3) \<and> s_trace s3 = s_trace s2"
proof -
  let ?now = "e_utc_us env (s_ticks s)" and ?later = "e_utc_us env (s_ticks s2)" and ?ns = "ip_namespace p" and ?ttl = "ip_ttl_seconds p"
  obtain key d res u where
    pr: "prepare (sqlite_begin loads ?now) (e_digest env) p a k (s_idem s i) = (Inr (key, d, res), u)"
    and st: "idem_status res \<noteq> ''completed''" "idem_status res \<noteq> ''failed''"
    and co: "sqlite_complete (response_text fr orr) ?ns key v u = (Inr (), s_idem s1 i)"
    using execute_fresh [OF assms(1,6,7)] assms(3,4) by metis
  have bg: "sqlite_begin loads ?now ?ns key d ?ttl (s_idem s i) = (Inr res, u)" and key: "\<not> blank key"
    and fac: "\<exists>raw. ip_key_factory p a k = Inr raw \<and> strip raw = key \<and> key \<noteq> []" and d: "d = e_digest env (request_value a k)"
    using pr by (auto simp: prepare_def Let_def blank_def split: sum.splits if_splits prod.splits)
  have "res = started_result"
    using bg st key assms(2) by (auto simp: sqlite_begin_def Let_def split: option.splits if_splits sum.splits)
  then have start: "fst (sqlite_begin loads ?now ?ns key d ?ttl (s_idem s i)) = Inr started_result"
      "u = snd (sqlite_begin loads ?now ?ns key d ?ttl (s_idem s i))" using bg by simp_all
  have "fst (sqlite_begin loads ?later ?ns key d ?ttl (s_idem s2 i)) = Inr (completed_result (sort_keys (to_jsonable fr orr v)))"
    using sqlite_idem.replay_result [OF assms(5,2) key start assms(9), where canon = "response_text fr orr" and v = v and d' = d and ttl' = ?ttl]
      co assms(8,10,11) by (simp add: response_text_def canonical_json_again)
  then obtain u2 where "sqlite_begin loads ?later ?ns key d ?ttl (s_idem s2 i) = (Inr (completed_result (sort_keys (to_jsonable fr orr v))), u2)"
    by (cases "sqlite_begin loads ?later ?ns key d ?ttl (s_idem s2 i)") auto
  then have "prepare (sqlite_begin loads ?later) (e_digest env) p a k (s_idem s2 i)
      = (Inr (key, d, completed_result (sort_keys (to_jsonable fr orr v))), u2)"
    using fac d by (auto simp: prepare_def Let_def)
  then show ?thesis
    using assms(1,3) by (auto simp: execute_def bnd_def tick_def on_store_def ret_def)
qed

section \<open>An example run\<close>

definition demo_guardrails :: guardrails where
  "demo_guardrails = \<lparr>max_steps = 2, max_tool_calls = 2, max_cost_usd = Fin 2, deterministic = True,
     allowed_tools = None, require_registered_tools = True, require_bound_approval_grants = True\<rparr>"

definition demo_base :: "unit ctx" where
  "demo_base = \<lparr>cx_correlation_id = ''c'', cx_run_id = ''r'', cx_started_at_epoch_ms = 0, cx_metadata = [],
     cx_guardrails = Some demo_guardrails,
     cx_tool_registry = Some \<lparr>tr_tools = [(''a'', demo_tool ''a'')], tr_frozen = True\<rparr>,
     cx_approval_callback = None, cx_audit_emitter = True, cx_policy_digest = ''p'', cx_principal = None, cx_authorizer = None,
     cx_organization_id = [], cx_environment = [], cx_agent_id = []\<rparr>"

text \<open>The one action that is approved.\<close>

definition demo_action :: pyval where
  "demo_action = approval_action demo_base ''a'' (demo_tool ''a'') [] [] (Fin 1) (callable_identity (ts_handler (demo_tool ''a'')))"

definition demo_ctx :: "unit ctx" where
  "demo_ctx = demo_base\<lparr>cx_approval_callback := Some (WithCheckpoint (\<lambda>t a k ck w.
     (Inr (Granted \<lparr>ag_action_digest = digest_value (\<lambda>s. s) ratio_repr (\<lambda>_. []) demo_action,
        ag_approved_by = ''x'', ag_expires_at_epoch_ms = 10, ag_checkpoint_id = None, ag_reason = []\<rparr>), w)))\<rparr>"

lemma demo_action_eq:
  "approval_action demo_ctx ''a'' (demo_tool ''a'') [] [] (Fin 1) (callable_identity (ts_handler (demo_tool ''a''))) = demo_action"
  by (simp add: demo_action_def approval_action_def demo_ctx_def)

lemma demo_ctx_simps [simp]:
  "cx_guardrails demo_ctx = Some demo_guardrails" "cx_audit_emitter demo_ctx" "cx_authorizer demo_ctx = None"
  "cx_tool_registry demo_ctx = Some \<lparr>tr_tools = [(''a'', demo_tool ''a'')], tr_frozen = True\<rparr>"
  "cx_approval_callback demo_ctx = Some (WithCheckpoint (\<lambda>t a k ck w.
     (Inr (Granted \<lparr>ag_action_digest = digest_value (\<lambda>s. s) ratio_repr (\<lambda>_. []) demo_action,
        ag_approved_by = ''x'', ag_expires_at_epoch_ms = 10, ag_checkpoint_id = None, ag_reason = []\<rparr>), w)))"
  by (simp_all add: demo_ctx_def demo_base_def)

lemma demo_tool_simps [simp]:
  "ts_requires_approval (demo_tool n)" "ts_default_cost_usd (demo_tool n) = Fin 1" "ts_cost_estimator (demo_tool n) = None"
  "ts_timeout_seconds (demo_tool n) = None" "ts_retry_policy (demo_tool n) = None" "ts_circuit_breaker (demo_tool n) = None"
  "ts_idempotency_policy (demo_tool n) = None" "h_async (ts_handler (demo_tool n)) = False" "h_id (ts_handler (demo_tool n)) = 1"
  by (simp_all add: demo_tool_def)

definition demo_env :: "(unit, sqlite_idem_row list) env" where
  "demo_env = \<lparr>e_call = (\<lambda>_ _ _ w. (Inr (Value (PInt 7)), w)), e_await = (\<lambda>_ _ _ _ w. (Inr (Value (PInt 7)), w)),
     e_begin = sqlite_begin demo_loads, e_complete = sqlite_complete (response_text ratio_repr (\<lambda>_. [])), e_fail = sqlite_fail,
     e_digest = digest_value (\<lambda>s. s) ratio_repr (\<lambda>_. []), e_fpow = (\<lambda>x n. Inr x), e_epoch_ms = (\<lambda>_. 0), e_utc_us = (\<lambda>_. 0),
     e_monotonic = (\<lambda>_. Fin 0), e_random = (\<lambda>_. Fin 0), e_emit_fault = (\<lambda>_ _ _. None)\<rparr>"

definition demo_sys :: "(unit, sqlite_idem_row list) sys" where
  "demo_sys = \<lparr>steps = 0, tool_calls = 0, cost_usd = Fin 0, s_ext = (), s_idem = (\<lambda>_. []), s_breakers = (\<lambda>_. demo_breaker),
     s_ticks = 0, s_trace = []\<rparr>"

lemma demo_guardrails_init:
  "guardrails_init (PInt 2) (PInt 2) (PFloat (Fin 2)) (PBool True) PNone (PBool True) (PBool True) = Inr demo_guardrails"
  by (simp add: guardrails_init_def init_allowed_tools_def demo_guardrails_def)

lemma demo_call:
  "\<exists>s'. call_tool demo_env demo_ctx False ''a'' Missing [] [] None demo_sys = (Inr (PInt 7), s')
     \<and> HandlerRun 1 [] [] \<in> set (s_trace s')"
proof -
  have lim: "validate_limits demo_guardrails 0 1 (Fin 1) = Inr ()"
    by (subst validate_limits_Inr) (simp_all add: demo_guardrails_def within_limits_def)
  have allow: "validate_tool_allowed demo_guardrails (PStr ''a'') = Inr ()"
    by (simp add: validate_tool_allowed_Inr demo_guardrails_def blank_def strip_def lstrip_def rstrip_def py_space_def)
  show ?thesis
    using lim allow
    by (simp add: call_tool_def prepare_call_def bnd_def check_allowed_def lift_def resolve_tool_def registry_get_def
        authorize_access_def ret_def mode_check_def estimated_cost_def registered_minimum_def maybe_checkpoint_def
        approval_checkpoint_def tick_def Let_def charge_call_def emit_def authorize_def ask_approval_def with_checkpoint_def
        approval_grant_validate_def check_limits_def execute_def checked_call_def retried_call_def protected_call_def raw_call_def
        run_handler_def result_value_def close_call_def demo_env_def demo_sys_def demo_action_eq)
qed

lemma demo_run:
  obtains s' where "call_tool demo_env demo_ctx False ''a'' Missing [] [] None demo_sys = (Inr (PInt 7), s')"
    "HandlerRun 1 [] [] \<in> set (drop (length (s_trace demo_sys)) (s_trace s'))" "runs demo_sys < runs s'"
proof -
  obtain s' where s': "call_tool demo_env demo_ctx False ''a'' Missing [] [] None demo_sys = (Inr (PInt 7), s')"
      "HandlerRun 1 [] [] \<in> set (s_trace s')" using demo_call by blast
  have "filter is_run (s_trace s') \<noteq> []" using s'(2) by (force simp: filter_empty_conv)
  then have "runs demo_sys < runs s'" by (simp add: runs_def demo_sys_def)
  then show thesis using that s' by (simp add: demo_sys_def)
qed

theorem context_within_limits_witness:
  "within_limits demo_guardrails (steps (fold (ctx_step demo_env demo_ctx) [BumpStep, BumpStep, BumpStep] demo_sys))
     (tool_calls (fold (ctx_step demo_env demo_ctx) [BumpStep, BumpStep, BumpStep] demo_sys))
     (cost_usd (fold (ctx_step demo_env demo_ctx) [BumpStep, BumpStep, BumpStep] demo_sys))"
  by (rule context_within_limits [OF demo_guardrails_init _ _ _ _ refl]) (simp_all add: demo_sys_def)

theorem handler_runs_only_admitted_witness:
  "\<exists>s' h spec x. call_tool demo_env demo_ctx False ''a'' Missing [] [] None demo_sys = (Inr (PInt 7), s')
     \<and> h_id h = 1 \<and> admitted demo_env demo_ctx False ''a'' Missing [] [] None demo_sys h [] spec x \<and> charged x demo_sys s'"
proof -
  obtain s' where s': "call_tool demo_env demo_ctx False ''a'' Missing [] [] None demo_sys = (Inr (PInt 7), s')"
    "HandlerRun 1 [] [] \<in> set (drop (length (s_trace demo_sys)) (s_trace s'))" by (rule demo_run)
  from handler_runs_only_admitted [OF this] s'(1) show ?thesis by metis
qed

theorem call_charged_once_witness:
  "\<exists>s' h a spec x. call_tool demo_env demo_ctx False ''a'' Missing [] [] None demo_sys = (Inr (PInt 7), s')
     \<and> charged x demo_sys s' \<and> resolve_tool demo_ctx ''a'' Missing [] = Inr (h, a, spec)"
proof -
  obtain s' where s': "call_tool demo_env demo_ctx False ''a'' Missing [] [] None demo_sys = (Inr (PInt 7), s')" "runs demo_sys < runs s'"
    by (rule demo_run)
  from call_charged_once [OF s'(1)] s' show ?thesis by metis
qed

lemma demo_resolve: "resolve_tool demo_ctx ''a'' Missing [] = Inr (ts_handler (demo_tool ''a''), [], Some (demo_tool ''a''))"
  by (simp add: resolve_tool_def registry_get_def)

theorem bound_approval_binds_action_witness:
  "\<exists>x. estimated_cost (Some (demo_tool ''a'')) [] [] None = Inr x
    \<and> (\<exists>act\<in>{demo_action}. canonical_json ratio_repr (\<lambda>_. []) act = canonical_json ratio_repr (\<lambda>_. [])
          (approval_action demo_ctx ''a'' (demo_tool ''a'') [] [] x (callable_identity (ts_handler (demo_tool ''a''))))
       \<or> collision (\<lambda>s. s) (canonical_json ratio_repr (\<lambda>_. []) act) (canonical_json ratio_repr (\<lambda>_. [])
          (approval_action demo_ctx ''a'' (demo_tool ''a'') [] [] x (callable_identity (ts_handler (demo_tool ''a''))))))"
proof -
  obtain s' where s': "call_tool demo_env demo_ctx False ''a'' Missing [] [] None demo_sys = (Inr (PInt 7), s')" "runs demo_sys < runs s'"
    by (rule demo_run)
  show ?thesis
    by (rule bound_approval_binds_action [OF s' _ _ demo_resolve, of demo_guardrails "\<lambda>s. s" ratio_repr "\<lambda>_. []"])
       (auto simp: demo_guardrails_def demo_env_def)
qed

theorem call_trail_complete_witness:
  "\<exists>s' base extra. call_tool demo_env demo_ctx False ''a'' Missing [] [] None demo_sys = (Inr (PInt 7), s')
     \<and> last (s_trace s') = Emitted ''tool_completed'' (base @ extra)"
proof -
  obtain s' where s': "call_tool demo_env demo_ctx False ''a'' Missing [] [] None demo_sys = (Inr (PInt 7), s')" "runs demo_sys < runs s'"
    by (rule demo_run)
  have "cx_audit_emitter demo_ctx" "\<forall>tr ty p. e_emit_fault demo_env tr ty p = None" by (simp_all add: demo_env_def)
  from call_trail_complete [OF s' this] s'(1) show ?thesis by auto
qed

definition demo_idem_tool :: tool_spec where
  "demo_idem_tool = (demo_tool ''a'')\<lparr>ts_idempotency_policy := Some (0, demo_idem_policy)\<rparr>"

definition demo_env_ok :: "(unit, sqlite_idem_row list) env" where
  "demo_env_ok = demo_env\<lparr>e_call := (\<lambda>_ _ _ w. (Inr (Value (PStr ''ok'')), w))\<rparr>"

lemma demo_execute:
  "\<exists>s1. execute demo_env_ok False (ts_handler demo_idem_tool) [] [] (Some demo_idem_tool) demo_sys = (Inr (PStr ''ok''), s1)
     \<and> s_trace s1 = [HandlerRun 1 [] []]"
proof -
  have sk: "strip ''k'' = ''k''" by (simp add: strip_def lstrip_def rstrip_def py_space_def)
  show ?thesis
    by (simp add: execute_def demo_idem_tool_def demo_env_ok_def demo_env_def demo_sys_def bnd_def tick_def on_store_def
        prepare_def demo_idem_policy_def sk Let_def sqlite_begin_def sql_delete_def settled_call_def checked_call_def
        retried_call_def protected_call_def raw_call_def run_handler_def ret_def result_value_def sqlite_complete_def
        rowcount_def pending_row_def row_is_def)
qed

theorem idempotent_call_replays_witness:
  "\<exists>s1 s3. execute demo_env_ok False (ts_handler demo_idem_tool) [] [] (Some demo_idem_tool) demo_sys = (Inr (PStr ''ok''), s1)
     \<and> execute demo_env_ok False (ts_handler demo_idem_tool) [] [] (Some demo_idem_tool) s1 = (Inr (PStr ''ok''), s3)
     \<and> s_trace s3 = s_trace s1"
proof -
  obtain s1 where s1: "execute demo_env_ok False (ts_handler demo_idem_tool) [] [] (Some demo_idem_tool) demo_sys = (Inr (PStr ''ok''), s1)"
    "s_trace s1 = [HandlerRun 1 [] []]" using demo_execute by blast
  have "\<exists>s3. execute demo_env_ok False (ts_handler demo_idem_tool) [] [] (Some demo_idem_tool) s1
      = (Inr (py_of_json (sort_keys (to_jsonable ratio_repr (\<lambda>_. []) (PStr ''ok'')))), s3) \<and> s_trace s3 = s_trace s1"
    by (rule idempotent_call_replays [where i = 0 and p = demo_idem_policy and loads = demo_loads, OF _ _ _ _ _ s1(1)])
       (use s1(2) in \<open>auto simp: demo_idem_tool_def demo_idem_policy_def demo_env_ok_def demo_env_def idem_keys_distinct_def
          demo_sys_def runs_def idem_expiry_def demo_text demo_loads_def\<close>)
  then show ?thesis using s1 by auto
qed

end
