(* ===== verification/Audit_Log.thy ===== *)
theory Audit_Log
  imports Serialization
begin

text \<open>
  \<^verbatim>\<open>agent_roi/audit/event.py\<close>, \<^verbatim>\<open>redact.py\<close> and \<^verbatim>\<open>store.py\<close>: hash-chained audit events and the three local
  stores that hold them.  Event identifiers, clock readings, the hash function and the text of floats
  are arguments.  The \<open>prev_hash\<close> and \<open>hash\<close> of an event are \<open>JNull\<close> or a string where the package
  writes them and any JSON value where they are read back.  A line of a file or a text column is
  what \<^verbatim>\<open>json.loads\<close> makes of it: blank, malformed, or a JSON value; writing the canonical text of a
  value leaves that value with sorted keys.
\<close>

section \<open>Events\<close>

record audit_event =
  ae_event_id :: string
  ae_correlation_id :: string
  ae_run_id :: string
  ae_ts_epoch_ms :: int
  ae_event_type :: string
  ae_payload :: json_object
  ae_prev_hash :: json
  ae_hash :: json

definition hash_base :: "audit_event \<Rightarrow> json_object" where
  "hash_base e =
     [(''event_id'', JStr (ae_event_id e)), (''correlation_id'', JStr (ae_correlation_id e)),
      (''run_id'', JStr (ae_run_id e)), (''ts_epoch_ms'', JInt (ae_ts_epoch_ms e)),
      (''event_type'', JStr (ae_event_type e)), (''payload'', JObj (ae_payload e)), (''prev_hash'', ae_prev_hash e)]"

definition event_to_dict :: "audit_event \<Rightarrow> json_object" where
  "event_to_dict e = hash_base e @ [(''hash'', ae_hash e)]"

definition stable_json :: "(pyfloat \<Rightarrow> string) \<Rightarrow> (pyval \<Rightarrow> string) \<Rightarrow> json_object \<Rightarrow> string" where
  "stable_json fr orr d = canonical_json fr orr (py_of_json (JObj d))"

definition safe_payload :: "(pyfloat \<Rightarrow> string) \<Rightarrow> (pyval \<Rightarrow> string) \<Rightarrow> pyval \<Rightarrow> json_object" where
  "safe_payload fr orr p = (case to_jsonable fr orr p of JObj d \<Rightarrow> d | j \<Rightarrow> [(''value'', j)])"

definition audit_event_create ::
    "(string \<Rightarrow> string) \<Rightarrow> (pyfloat \<Rightarrow> string) \<Rightarrow> (pyval \<Rightarrow> string) \<Rightarrow> string \<Rightarrow> int \<Rightarrow> string \<Rightarrow> string \<Rightarrow> string \<Rightarrow> pyval
     \<Rightarrow> json \<Rightarrow> bool \<Rightarrow> audit_event" where
  "audit_event_create sha fr orr eid ts correlation_id run_id event_type p prev hash_chain =
     (let e = \<lparr>ae_event_id = eid, ae_correlation_id = correlation_id, ae_run_id = run_id, ae_ts_epoch_ms = ts,
                ae_event_type = event_type, ae_payload = safe_payload fr orr p, ae_prev_hash = prev, ae_hash = JNull\<rparr>
      in if hash_chain then e\<lparr>ae_hash := JStr (sha (stable_json fr orr (hash_base e)))\<rparr> else e)"

section \<open>Redaction\<close>

definition default_redacted_keys :: "string list" where
  "default_redacted_keys = [''authorization'', ''api_key'', ''apikey'', ''access_token'', ''refresh_token'', ''token'',
     ''password'', ''passwd'', ''secret'', ''client_secret'', ''ssn'']"

text \<open>A set is replaced by the list of its walked elements in the order of their \<^verbatim>\<open>repr\<close>.\<close>

fun redact :: "(pyfloat \<Rightarrow> string) \<Rightarrow> (pyval \<Rightarrow> string) \<Rightarrow> string list \<Rightarrow> pyval \<Rightarrow> pyval" where
  "redact fr orr blocked (PDict kvs) = PDict (map (\<lambda>(k, v).
     (k, if lower (str_of fr orr k) \<in> lower ` set blocked then PStr ''[REDACTED]'' else redact fr orr blocked v)) kvs)"
| "redact fr orr blocked (PList xs) = PList (map (redact fr orr blocked) xs)"
| "redact fr orr blocked (PTuple xs) = PTuple (map (redact fr orr blocked) xs)"
| "redact fr orr blocked (PSet xs) = PList (sort_key orr (map (redact fr orr blocked) xs))"
| "redact fr orr blocked v = v"

section \<open>Reading JSON back\<close>

datatype jline = BlankLine | Malformed | Parsed json

definition jget :: "string \<Rightarrow> json_object \<Rightarrow> json" where
  "jget k d = (case map_of d k of None \<Rightarrow> JNull | Some v \<Rightarrow> v)"

fun truthy :: "json \<Rightarrow> bool" where
  "truthy JNull = False"
| "truthy (JBool b) = b"
| "truthy (JInt i) = (i \<noteq> 0)"
| "truthy (JFloat x) = (x \<noteq> Fin 0)"
| "truthy (JStr s) = (s \<noteq> [])"
| "truthy (JList xs) = (xs \<noteq> [])"
| "truthy (JObj d) = (d \<noteq> [])"

definition jstr :: "(pyfloat \<Rightarrow> string) \<Rightarrow> (pyval \<Rightarrow> string) \<Rightarrow> json \<Rightarrow> string" where
  "jstr fr orr j = str_of fr orr (py_of_json j)"

section \<open>The in-memory store\<close>

record mem_audit =
  ma_hash_chain :: bool
  ma_events :: "audit_event list"
  ma_last_hash_cache :: "string \<rightharpoonup> json"

definition mem_audit_init :: "bool \<Rightarrow> mem_audit" where
  "mem_audit_init hc = \<lparr>ma_hash_chain = hc, ma_events = [], ma_last_hash_cache = Map.empty\<rparr>"

definition cached :: "(string \<rightharpoonup> json) \<Rightarrow> string \<Rightarrow> json" where
  "cached m k = (case m k of None \<Rightarrow> JNull | Some j \<Rightarrow> j)"

definition mem_add :: "audit_event \<Rightarrow> mem_audit \<Rightarrow> mem_audit" where
  "mem_add e st = st\<lparr>ma_events := ma_events st @ [e],
     ma_last_hash_cache := (if truthy (ae_hash e) then (ma_last_hash_cache st)(ae_correlation_id e \<mapsto> ae_hash e)
       else ma_last_hash_cache st)\<rparr>"

definition mem_record ::
    "(string \<Rightarrow> string) \<Rightarrow> (pyfloat \<Rightarrow> string) \<Rightarrow> (pyval \<Rightarrow> string) \<Rightarrow> string \<Rightarrow> int \<Rightarrow> string \<Rightarrow> string \<Rightarrow> string \<Rightarrow> pyval
     \<Rightarrow> mem_audit \<Rightarrow> (exc + audit_event) \<times> mem_audit" where
  "mem_record sha fr orr eid ts corr run ty p st =
     (let previous = cached (ma_last_hash_cache st) corr;
          event = audit_event_create sha fr orr eid ts corr run ty p previous (ma_hash_chain st)
      in (Inr event, mem_add event st))"

definition mem_append :: "audit_event \<Rightarrow> mem_audit \<Rightarrow> (exc + unit) \<times> mem_audit" where
  "mem_append e st =
     (let expected_prev = cached (ma_last_hash_cache st) (ae_correlation_id e) in
      if ae_prev_hash e \<noteq> expected_prev
      then (Inl (AuditIntegrityError ''Audit append rejected because prev_hash is stale or invalid''), st)
      else (Inr (), mem_add e st))"

definition mem_last_hash :: "string \<Rightarrow> mem_audit \<Rightarrow> json" where
  "mem_last_hash corr st = cached (ma_last_hash_cache st) corr"

text \<open>The loop of \<^verbatim>\<open>verify\<close> over events, as the in-memory and the SQLite store have it; \<open>need_str\<close> is the
  SQLite store's additional test that the hash is a non-empty string.\<close>

fun verify_events ::
    "(string \<Rightarrow> string) \<Rightarrow> (pyfloat \<Rightarrow> string) \<Rightarrow> (pyval \<Rightarrow> string) \<Rightarrow> bool \<Rightarrow> bool \<Rightarrow> (string \<rightharpoonup> json) \<Rightarrow> audit_event list \<Rightarrow> exc + unit" where
  "verify_events sha fr orr need_str hc lst [] = Inr ()"
| "verify_events sha fr orr need_str hc lst (e # es) =
     (if ae_prev_hash e \<noteq> cached lst (ae_correlation_id e)
        then Inl (AuditIntegrityError ''Audit event has an invalid prev_hash'')
      else if hc then
        (if need_str \<and> (case ae_hash e of JStr s \<Rightarrow> s = [] | _ \<Rightarrow> True)
           then Inl (AuditIntegrityError ''Audit event is missing its hash'')
         else if JStr (sha (stable_json fr orr (hash_base e))) \<noteq> ae_hash e
           then Inl (AuditIntegrityError ''Audit event has an invalid hash'')
         else verify_events sha fr orr need_str hc (lst(ae_correlation_id e \<mapsto> ae_hash e)) es)
      else if ae_hash e \<noteq> JNull then Inl (AuditIntegrityError ''Audit event unexpectedly contains a hash'')
      else verify_events sha fr orr need_str hc lst es)"

definition mem_verify ::
    "(string \<Rightarrow> string) \<Rightarrow> (pyfloat \<Rightarrow> string) \<Rightarrow> (pyval \<Rightarrow> string) \<Rightarrow> mem_audit \<Rightarrow> exc + nat" where
  "mem_verify sha fr orr st =
     (case verify_events sha fr orr False (ma_hash_chain st) Map.empty (ma_events st) of
        Inl e \<Rightarrow> Inl e | Inr _ \<Rightarrow> Inr (length (ma_events st)))"

section \<open>The JSONL store\<close>

text \<open>A file is its list of lines; the path is taken to be a regular file the process may lock and write.\<close>

fun read_objects :: "jline list \<Rightarrow> exc + json_object list" where
  "read_objects [] = Inr []"
| "read_objects (BlankLine # ls) = read_objects ls"
| "read_objects (Malformed # ls) = Inl (AuditIntegrityError ''Malformed audit JSON on line'')"
| "read_objects (Parsed (JObj d) # ls) = (case read_objects ls of Inl e \<Rightarrow> Inl e | Inr ds \<Rightarrow> Inr (d # ds))"
| "read_objects (Parsed _ # ls) = Inl (AuditIntegrityError ''Audit line must contain a JSON object'')"

fun last_hash_from_objects ::
    "(pyfloat \<Rightarrow> string) \<Rightarrow> (pyval \<Rightarrow> string) \<Rightarrow> json_object list \<Rightarrow> string \<Rightarrow> json \<Rightarrow> json" where
  "last_hash_from_objects fr orr [] corr lst = lst"
| "last_hash_from_objects fr orr (d # ds) corr lst = last_hash_from_objects fr orr ds corr
     (if (case map_of d ''correlation_id'' of None \<Rightarrow> [] | Some v \<Rightarrow> jstr fr orr v) = corr \<and> truthy (jget ''hash'' d)
      then JStr (jstr fr orr (jget ''hash'' d)) else lst)"

definition written_line :: "json_object \<Rightarrow> jline" where
  "written_line d = Parsed (sort_keys (JObj d))"

definition jsonl_record ::
    "(string \<Rightarrow> string) \<Rightarrow> (pyfloat \<Rightarrow> string) \<Rightarrow> (pyval \<Rightarrow> string) \<Rightarrow> bool \<Rightarrow> string \<Rightarrow> int \<Rightarrow> string \<Rightarrow> string \<Rightarrow> string \<Rightarrow> pyval
     \<Rightarrow> jline list \<Rightarrow> (exc + audit_event) \<times> jline list" where
  "jsonl_record sha fr orr hc eid ts corr run ty p file =
     (case read_objects file of Inl e \<Rightarrow> (Inl e, file)
      | Inr objects \<Rightarrow>
          let previous = last_hash_from_objects fr orr objects corr JNull;
              event = audit_event_create sha fr orr eid ts corr run ty p previous hc
          in (Inr event, file @ [written_line (event_to_dict event)]))"

definition jsonl_append ::
    "(pyfloat \<Rightarrow> string) \<Rightarrow> (pyval \<Rightarrow> string) \<Rightarrow> audit_event \<Rightarrow> jline list \<Rightarrow> (exc + unit) \<times> jline list" where
  "jsonl_append fr orr e file =
     (case read_objects file of Inl ex \<Rightarrow> (Inl ex, file)
      | Inr objects \<Rightarrow>
          if ae_prev_hash e \<noteq> last_hash_from_objects fr orr objects (ae_correlation_id e) JNull
          then (Inl (AuditIntegrityError ''Audit append rejected because prev_hash is stale or invalid''), file)
          else (Inr (), file @ [written_line (event_to_dict e)]))"

definition jsonl_last_hash :: "(pyfloat \<Rightarrow> string) \<Rightarrow> (pyval \<Rightarrow> string) \<Rightarrow> string \<Rightarrow> jline list \<Rightarrow> exc + json" where
  "jsonl_last_hash fr orr corr file = (case read_objects file of Inl e \<Rightarrow> Inl e
     | Inr objects \<Rightarrow> Inr (last_hash_from_objects fr orr objects corr JNull))"

fun verify_objects ::
    "(string \<Rightarrow> string) \<Rightarrow> (pyfloat \<Rightarrow> string) \<Rightarrow> (pyval \<Rightarrow> string) \<Rightarrow> bool \<Rightarrow> (string \<rightharpoonup> json) \<Rightarrow> json_object list \<Rightarrow> exc + unit" where
  "verify_objects sha fr orr hc lst [] = Inr ()"
| "verify_objects sha fr orr hc lst (d # ds) =
     (let corr = (case map_of d ''correlation_id'' of None \<Rightarrow> [] | Some v \<Rightarrow> jstr fr orr v); event_hash = jget ''hash'' d in
      if corr = [] then Inl (AuditIntegrityError ''Audit event is missing correlation_id'')
      else if jget ''prev_hash'' d \<noteq> cached lst corr
        then Inl (AuditIntegrityError ''Audit event has an invalid prev_hash'')
      else if hc then
        (if (case event_hash of JStr s \<Rightarrow> s = [] | _ \<Rightarrow> True)
           then Inl (AuditIntegrityError ''Audit event is missing its hash'')
         else if JStr (sha (stable_json fr orr (filter (\<lambda>(k, v). k \<noteq> ''hash'') d))) \<noteq> event_hash
           then Inl (AuditIntegrityError ''Audit event has an invalid hash'')
         else verify_objects sha fr orr hc (lst(corr \<mapsto> event_hash)) ds)
      else if event_hash \<noteq> JNull then Inl (AuditIntegrityError ''Audit event unexpectedly contains a hash'')
      else verify_objects sha fr orr hc lst ds)"

definition jsonl_verify ::
    "(string \<Rightarrow> string) \<Rightarrow> (pyfloat \<Rightarrow> string) \<Rightarrow> (pyval \<Rightarrow> string) \<Rightarrow> bool \<Rightarrow> jline list \<Rightarrow> exc + nat" where
  "jsonl_verify sha fr orr hc file =
     (case read_objects file of Inl e \<Rightarrow> Inl e
      | Inr objects \<Rightarrow> (case verify_objects sha fr orr hc Map.empty objects of Inl e \<Rightarrow> Inl e | Inr _ \<Rightarrow> Inr (length objects)))"

section \<open>The SQLite store\<close>

record audit_row =
  ar_event_id :: string
  ar_correlation_id :: string
  ar_run_id :: string
  ar_event_type :: string
  ar_event_json :: jline
  ar_event_hash :: json

text \<open>\<^verbatim>\<open>int()\<close> and \<^verbatim>\<open>dict()\<close> of a JSON value; a list of pairs is a dictionary when its keys are strings.\<close>

definition int_of_string :: "string \<Rightarrow> int option" where
  "int_of_string s =
     (let t = strip s in
      if \<not> underscores_ok False (snd (split_sign t)) then None
      else let (neg, v) = split_sign t; ds = filter (\<lambda>c. c \<noteq> CHR ''_'') v in
        if ds = [] \<or> \<not> list_all digit_char ds then None
        else Some (if neg then - int (digits_value ds) else int (digits_value ds)))"

fun json_int :: "json \<Rightarrow> int option" where
  "json_int (JInt i) = Some i"
| "json_int (JBool b) = Some (if b then 1 else 0)"
| "json_int (JFloat (Fin q)) = Some (if 0 \<le> q then \<lfloor>q\<rfloor> else \<lceil>q\<rceil>)"
| "json_int (JStr s) = int_of_string s"
| "json_int _ = None"

text \<open>\<^verbatim>\<open>int(x)\<close> of an infinity is an \<^verbatim>\<open>OverflowError\<close>, which the readers do not catch; every other failure is a
  \<^verbatim>\<open>TypeError\<close> or a \<^verbatim>\<open>ValueError\<close>.\<close>

definition int_overflows :: "json option \<Rightarrow> bool" where
  "int_overflows j \<longleftrightarrow> j = Some (JFloat PInf) \<or> j = Some (JFloat NInf)"

lemma int_overflows_int [simp]: "\<not> int_overflows (Some (JInt i))"
  by (simp add: int_overflows_def)

text \<open>\<^verbatim>\<open>dict(x)\<close> of a list takes its elements as pairs: lists of two values, texts of two characters, objects of two
  keys.  A pair whose key is not a text is refused here.\<close>

fun dict_pairs :: "json list \<Rightarrow> json_object option" where
  "dict_pairs [] = Some []"
| "dict_pairs (JList [JStr k, v] # xs) = map_option (\<lambda>d. AList.update k v d) (dict_pairs xs)"
| "dict_pairs (JStr [a, b] # xs) = map_option (\<lambda>d. AList.update [a] (JStr [b]) d) (dict_pairs xs)"
| "dict_pairs (JObj [(k, _), (l, _)] # xs) = map_option (\<lambda>d. AList.update k (JStr l) d) (dict_pairs xs)"
| "dict_pairs _ = None"

fun json_dict :: "json \<Rightarrow> json_object option" where
  "json_dict (JObj d) = Some d"
| "json_dict (JList xs) = dict_pairs (rev xs)"
| "json_dict (JStr []) = Some []"
| "json_dict _ = None"

definition event_from_json :: "(pyfloat \<Rightarrow> string) \<Rightarrow> (pyval \<Rightarrow> string) \<Rightarrow> jline \<Rightarrow> exc + audit_event" where
  "event_from_json fr orr l =
     (case l of
        Parsed (JObj d) \<Rightarrow>
          if map_of d ''event_id'' \<noteq> None \<and> map_of d ''correlation_id'' \<noteq> None \<and> map_of d ''run_id'' \<noteq> None
             \<and> int_overflows (map_of d ''ts_epoch_ms'')
          then Inl (OverflowError ''cannot convert float infinity to integer'') else
          (case (map_of d ''event_id'', map_of d ''correlation_id'', map_of d ''run_id'',
                 Option.bind (map_of d ''ts_epoch_ms'') json_int, map_of d ''event_type'', Option.bind (map_of d ''payload'') json_dict) of
             (Some eid, Some corr, Some run, Some ts, Some ty, Some p) \<Rightarrow>
               Inr \<lparr>ae_event_id = jstr fr orr eid, ae_correlation_id = jstr fr orr corr, ae_run_id = jstr fr orr run,
                 ae_ts_epoch_ms = ts, ae_event_type = jstr fr orr ty, ae_payload = p,
                 ae_prev_hash = jget ''prev_hash'' d, ae_hash = jget ''hash'' d\<rparr>
           | _ \<Rightarrow> Inl (AuditIntegrityError ''Malformed audit event fields in SQLite''))
      | Parsed _ \<Rightarrow> Inl (AuditIntegrityError ''SQLite audit event must be a JSON object'')
      | _ \<Rightarrow> Inl (AuditIntegrityError ''Malformed audit event JSON in SQLite''))"

definition row_of_event :: "audit_event \<Rightarrow> audit_row" where
  "row_of_event e = \<lparr>ar_event_id = ae_event_id e, ar_correlation_id = ae_correlation_id e, ar_run_id = ae_run_id e,
     ar_event_type = ae_event_type e, ar_event_json = written_line (event_to_dict e), ar_event_hash = ae_hash e\<rparr>"

text \<open>The hash of the row of a correlation with the highest sequence number.\<close>

definition sqlite_tail ::
    "(pyfloat \<Rightarrow> string) \<Rightarrow> (pyval \<Rightarrow> string) \<Rightarrow> string \<Rightarrow> audit_row list \<Rightarrow> exc + json" where
  "sqlite_tail fr orr corr rows =
     (case find (\<lambda>r. ar_correlation_id r = corr) (rev rows) of None \<Rightarrow> Inr JNull
      | Some r \<Rightarrow> (case event_from_json fr orr (ar_event_json r) of Inl e \<Rightarrow> Inl e | Inr ev \<Rightarrow> Inr (ae_hash ev)))"

definition sqlite_insert :: "audit_event \<Rightarrow> audit_row list \<Rightarrow> exc + audit_row list" where
  "sqlite_insert e rows =
     (if ae_event_id e \<in> ar_event_id ` set rows then Inl (SqliteIntegrityError ''UNIQUE constraint failed: audit_events.event_id'')
      else Inr (rows @ [row_of_event e]))"

definition sqlite_record ::
    "(string \<Rightarrow> string) \<Rightarrow> (pyfloat \<Rightarrow> string) \<Rightarrow> (pyval \<Rightarrow> string) \<Rightarrow> bool \<Rightarrow> string \<Rightarrow> int \<Rightarrow> string \<Rightarrow> string \<Rightarrow> string \<Rightarrow> pyval
     \<Rightarrow> audit_row list \<Rightarrow> (exc + audit_event) \<times> audit_row list" where
  "sqlite_record sha fr orr hc eid ts corr run ty p rows =
     (case sqlite_tail fr orr corr rows of Inl e \<Rightarrow> (Inl e, rows)
      | Inr previous \<Rightarrow>
          let event = audit_event_create sha fr orr eid ts corr run ty p previous hc in
          (case sqlite_insert event rows of Inl e \<Rightarrow> (Inl e, rows) | Inr rows' \<Rightarrow> (Inr event, rows')))"

definition sqlite_append ::
    "(pyfloat \<Rightarrow> string) \<Rightarrow> (pyval \<Rightarrow> string) \<Rightarrow> audit_event \<Rightarrow> audit_row list \<Rightarrow> (exc + unit) \<times> audit_row list" where
  "sqlite_append fr orr e rows =
     (case sqlite_tail fr orr (ae_correlation_id e) rows of Inl ex \<Rightarrow> (Inl ex, rows)
      | Inr previous \<Rightarrow>
          if ae_prev_hash e \<noteq> previous
          then (Inl (AuditIntegrityError ''Audit append rejected because prev_hash is stale or invalid''), rows)
          else (case sqlite_insert e rows of Inl ex \<Rightarrow> (Inl ex, rows) | Inr rows' \<Rightarrow> (Inr (), rows')))"

fun sqlite_events :: "(pyfloat \<Rightarrow> string) \<Rightarrow> (pyval \<Rightarrow> string) \<Rightarrow> audit_row list \<Rightarrow> exc + audit_event list" where
  "sqlite_events fr orr [] = Inr []"
| "sqlite_events fr orr (r # rs) =
     (case event_from_json fr orr (ar_event_json r) of Inl e \<Rightarrow> Inl e
      | Inr ev \<Rightarrow>
          if ae_event_id ev \<noteq> ar_event_id r \<or> ae_correlation_id ev \<noteq> ar_correlation_id r \<or> ae_run_id ev \<noteq> ar_run_id r
             \<or> ae_event_type ev \<noteq> ar_event_type r \<or> ae_hash ev \<noteq> ar_event_hash r
          then Inl (AuditIntegrityError ''SQLite audit row metadata does not match event_json'')
          else (case sqlite_events fr orr rs of Inl e \<Rightarrow> Inl e | Inr evs \<Rightarrow> Inr (ev # evs)))"

definition sqlite_audit_verify ::
    "(string \<Rightarrow> string) \<Rightarrow> (pyfloat \<Rightarrow> string) \<Rightarrow> (pyval \<Rightarrow> string) \<Rightarrow> bool \<Rightarrow> audit_row list \<Rightarrow> exc + nat" where
  "sqlite_audit_verify sha fr orr hc rows =
     (case sqlite_events fr orr rows of Inl e \<Rightarrow> Inl e
      | Inr evs \<Rightarrow> (case verify_events sha fr orr True hc Map.empty evs of Inl e \<Rightarrow> Inl e | Inr _ \<Rightarrow> Inr (length evs)))"

text \<open>The lines of the exported file.\<close>

definition export_jsonl :: "(pyfloat \<Rightarrow> string) \<Rightarrow> (pyval \<Rightarrow> string) \<Rightarrow> audit_row list \<Rightarrow> exc + jline list" where
  "export_jsonl fr orr rows = (case sqlite_events fr orr rows of Inl e \<Rightarrow> Inl e
     | Inr evs \<Rightarrow> Inr (map (\<lambda>e. written_line (event_to_dict e)) evs))"

end
