(* ===== verification/Audit_Laws.thy ===== *)
theory Audit_Laws
  imports Audit_Log "HOL-Library.Word"
begin

text \<open>
  What the audit trail guarantees.  \<open>hash_chain\<close> is the reason a verified log is tamper evident, for any
  items that carry their predecessor's hash in what is hashed; it is interpreted for events and for
  the raw objects of a JSONL file.  \<open>audit_store\<close> is the interface the package's recorders rely on; it
  is interpreted for the three local stores, which therefore produce the same events for the same
  requests.
\<close>

declare fun_upd_apply [simp del]

section \<open>Hash chains\<close>

text \<open>The last hash of each correlation, and the check of one item.\<close>

fun verify_items ::
    "('i \<Rightarrow> string) \<Rightarrow> ('i \<Rightarrow> json) \<Rightarrow> ('i \<Rightarrow> json) \<Rightarrow> ('i \<Rightarrow> string) \<Rightarrow> (string \<rightharpoonup> json) \<Rightarrow> 'i list \<Rightarrow> bool" where
  "verify_items corr prev hsh digest m [] = True"
| "verify_items corr prev hsh digest m (x # xs) \<longleftrightarrow>
     prev x = cached m (corr x) \<and> hsh x = JStr (digest x) \<and> verify_items corr prev hsh digest (m(corr x \<mapsto> hsh x)) xs"

fun linked :: "('i \<Rightarrow> json) \<Rightarrow> ('i \<Rightarrow> json) \<Rightarrow> ('i \<Rightarrow> string) \<Rightarrow> json \<Rightarrow> 'i list \<Rightarrow> bool" where
  "linked prev hsh digest p [] = True"
| "linked prev hsh digest p (x # xs) \<longleftrightarrow> prev x = p \<and> hsh x = JStr (digest x) \<and> linked prev hsh digest (hsh x) xs"

definition end_hash :: "('i \<Rightarrow> json) \<Rightarrow> json \<Rightarrow> 'i list \<Rightarrow> json" where
  "end_hash hsh p xs = (if xs = [] then p else hsh (last xs))"

lemma linked_append: "linked prev hsh digest p (xs @ [x]) \<longleftrightarrow>
    linked prev hsh digest p xs \<and> prev x = end_hash hsh p xs \<and> hsh x = JStr (digest x)"
  by (induction xs arbitrary: p) (auto simp: end_hash_def)

text \<open>What stands in the place of the previous hash: nothing, or a digest.\<close>

definition chain_mark :: "json \<Rightarrow> bool" where
  "chain_mark j \<longleftrightarrow> j = JNull \<or> (\<exists>s. j = JStr s)"

lemma end_hash_mark: "linked prev hsh digest JNull xs \<Longrightarrow> chain_mark (end_hash hsh JNull xs)"
  by (cases xs rule: rev_cases) (auto simp: linked_append end_hash_def chain_mark_def)

lemma chain_mark_sorted: "chain_mark j \<Longrightarrow> sort_keys j = j"
  by (auto simp: chain_mark_def)

lemma cached_upd [simp]: "cached (m(k \<mapsto> v)) c = (if c = k then v else cached m c)"
  by (simp add: cached_def fun_upd_apply)

lemma cached_empty [simp]: "cached Map.empty c = JNull"
  by (simp add: cached_def)

lemma verify_items_linked:
  "verify_items corr prev hsh digest m xs \<Longrightarrow> linked prev hsh digest (cached m c) (filter (\<lambda>x. corr x = c) xs)"
proof (induction xs arbitrary: m)
  case (Cons x xs)
  have "linked prev hsh digest (cached (m(corr x \<mapsto> hsh x)) c) (filter (\<lambda>x. corr x = c) xs)"
    using Cons.prems unfolding verify_items.simps by (intro Cons.IH) blast
  then show ?case using Cons.prems by (auto split: if_splits)
qed simp

locale hash_chain =
  fixes prev hsh :: "'i \<Rightarrow> json" and base :: "'i \<Rightarrow> json"
  assumes base_prev: "wf_json (base x) \<Longrightarrow> wf_json (base y) \<Longrightarrow> sort_keys (base x) = sort_keys (base y)
    \<Longrightarrow> chain_mark (prev x) \<Longrightarrow> chain_mark (prev y) \<Longrightarrow> prev x = prev y"
begin

lemma chain_determined:
  assumes "linked prev hsh (\<lambda>x. sha (json_dumps fr (base x))) JNull xs"
    and "linked prev hsh (\<lambda>x. sha (json_dumps fr (base x))) JNull ys"
    and "end_hash hsh JNull xs = end_hash hsh JNull ys" and "float_repr_ok fr" and "\<forall>x\<in>set xs \<union> set ys. wf_json (base x)"
  shows "map (\<lambda>x. sort_keys (base x)) xs = map (\<lambda>x. sort_keys (base x)) ys
    \<or> (\<exists>x\<in>set xs. \<exists>y\<in>set ys. collision sha (json_dumps fr (base x)) (json_dumps fr (base y)))"
  using assms(1-3,5)
proof (induction xs arbitrary: ys rule: rev_induct)
  case Nil
  then show ?case by (cases ys rule: rev_cases) (auto simp: linked_append end_hash_def)
next
  case (snoc x xs)
  then obtain zs y where ys: "ys = zs @ [y]"
    by (cases ys rule: rev_cases) (auto simp: linked_append end_hash_def)
  have same: "sha (json_dumps fr (base x)) = sha (json_dumps fr (base y))"
    using snoc.prems ys by (simp add: linked_append end_hash_def)
  show ?case
  proof (cases "json_dumps fr (base x) = json_dumps fr (base y)")
    case False
    then show ?thesis using same ys by (auto simp: collision_def)
  next
    case True
    then have eq: "sort_keys (base x) = sort_keys (base y)"
      using print_json_inject [OF assms(4)] snoc.prems(4) ys unfolding json_dumps_def by simp
    moreover have "chain_mark (prev x)" "chain_mark (prev y)"
      using snoc.prems(1,2) ys end_hash_mark [of prev hsh _ xs] end_hash_mark [of prev hsh _ zs] by (auto simp: linked_append)
    ultimately have "prev x = prev y" using base_prev snoc.prems(4) ys by simp
    then have "map (\<lambda>x. sort_keys (base x)) xs = map (\<lambda>x. sort_keys (base x)) zs
        \<or> (\<exists>x\<in>set xs. \<exists>y\<in>set zs. collision sha (json_dumps fr (base x)) (json_dumps fr (base y)))"
      using snoc.prems ys by (intro snoc.IH) (auto simp: linked_append)
    then show ?thesis using eq ys by auto
  qed
qed

end

section \<open>The chain of events and of raw objects\<close>

lemma distinct_base [simp]: "distinct (map fst (hash_base e))"
  by (simp add: hash_base_def)

lemma distinct_dict [simp]: "distinct (map fst (event_to_dict e))"
  by (simp add: event_to_dict_def hash_base_def)

text \<open>What is hashed: the JSON form of the event without its hash, which \<^verbatim>\<open>_stable_json\<close> then prints.  It differs from
  the event itself only where the event holds a number that JSON does not have.\<close>

definition hashed_form :: "(pyfloat \<Rightarrow> string) \<Rightarrow> (pyval \<Rightarrow> string) \<Rightarrow> audit_event \<Rightarrow> json" where
  "hashed_form fr orr e = to_jsonable fr orr (py_of_json (JObj (hash_base e)))"

lemma hashed_form_prev:
  obtains d where "hashed_form fr orr e = JObj d" "distinct (map fst d)"
    "map_of d ''prev_hash'' = Some (to_jsonable fr orr (py_of_json (ae_prev_hash e)))"
proof -
  obtain d where d: "hashed_form fr orr e = JObj d" "distinct (map fst d)"
      "\<And>k. map_of d k = map_option (\<lambda>v. to_jsonable fr orr (py_of_json v)) (map_of (hash_base e) k)"
    using to_jsonable_object [OF distinct_base, of fr orr e] unfolding hashed_form_def by blast
  have "map_of (hash_base e) ''prev_hash'' = Some (ae_prev_hash e)" by (simp add: hash_base_def fun_upd_apply)
  then have "map_of d ''prev_hash'' = Some (to_jsonable fr orr (py_of_json (ae_prev_hash e)))" unfolding d(3) by (simp only: option.map)
  then show ?thesis by (rule that [OF d(1,2)])
qed

interpretation event_chain: hash_chain ae_prev_hash ae_hash "hashed_form fr orr" for fr orr
proof
  fix x y :: audit_event
  assume eq: "sort_keys (hashed_form fr orr x) = sort_keys (hashed_form fr orr y)"
    and marks: "chain_mark (ae_prev_hash x)" "chain_mark (ae_prev_hash y)"
  obtain d where d: "hashed_form fr orr x = JObj d" "distinct (map fst d)"
    "map_of d ''prev_hash'' = Some (to_jsonable fr orr (py_of_json (ae_prev_hash x)))" by (rule hashed_form_prev)
  obtain d' where d': "hashed_form fr orr y = JObj d'" "distinct (map fst d')"
    "map_of d' ''prev_hash'' = Some (to_jsonable fr orr (py_of_json (ae_prev_hash y)))" by (rule hashed_form_prev)
  have same: "to_jsonable fr orr (py_of_json j) = j" "sort_keys j = j" if "chain_mark j" for j using that by (auto simp: chain_mark_def)
  show "ae_prev_hash x = ae_prev_hash y"
    using sort_keys_map_of [OF d(2) d'(2) eq [unfolded d(1) d'(1)], of "''prev_hash''"] d(3) d'(3) same marks by simp
qed

definition object_base :: "json_object \<Rightarrow> json_object" where
  "object_base d = filter (\<lambda>(k, v). k \<noteq> ''hash'') d"

lemma map_of_object_base: "k \<noteq> ''hash'' \<Longrightarrow> map_of (object_base d) k = map_of d k"
  by (induction d) (auto simp: object_base_def fun_upd_apply)

lemma distinct_object_base: "distinct (map fst d) \<Longrightarrow> distinct (map fst (object_base d))"
  by (simp add: object_base_def distinct_map_filter)

interpretation object_chain: hash_chain "jget ''prev_hash''" "jget ''hash''" "\<lambda>d. JObj (object_base d)"
proof
  fix x y :: json_object
  assume marks: "chain_mark (jget ''prev_hash'' x)" "chain_mark (jget ''prev_hash'' y)"
    and "wf_json (JObj (object_base x))" "wf_json (JObj (object_base y))" "sort_keys (JObj (object_base x)) = sort_keys (JObj (object_base y))"
  then have "map_option sort_keys (map_of x ''prev_hash'') = map_option sort_keys (map_of y ''prev_hash'')"
    using sort_keys_map_of [of "object_base x" "object_base y" "''prev_hash''"] by (simp add: map_of_object_base)
  then have "sort_keys (jget ''prev_hash'' x) = sort_keys (jget ''prev_hash'' y)"
    by (auto simp: jget_def split: option.splits)
  then show "jget ''prev_hash'' x = jget ''prev_hash'' y" using chain_mark_sorted marks by metis
qed

definition wf_event :: "audit_event \<Rightarrow> bool" where
  "wf_event e \<longleftrightarrow> wf_json (JObj (hash_base e))"

lemma wf_event_iff: "wf_event e \<longleftrightarrow> wf_json (JObj (ae_payload e)) \<and> wf_json (ae_prev_hash e)"
  by (simp add: wf_event_def hash_base_def)

lemma stable_json_eq: "wf_json (JObj d) \<Longrightarrow> stable_json fr orr d = json_dumps fr (JObj d)"
  unfolding stable_json_def canonical_json_def json_dumps_def by (simp only: sort_keys_again)

abbreviation event_digest :: "(string \<Rightarrow> string) \<Rightarrow> (pyfloat \<Rightarrow> string) \<Rightarrow> audit_event \<Rightarrow> string" where
  "event_digest sha fr e \<equiv> sha (json_dumps fr (JObj (hash_base e)))"

lemma verify_events_items:
  assumes "\<forall>e\<in>set es. wf_event e" "\<And>s. sha s \<noteq> []"
  shows "verify_events sha fr orr b True m es = Inr () \<longleftrightarrow>
    verify_items ae_correlation_id ae_prev_hash ae_hash (event_digest sha fr) m es"
  using assms(1)
proof (induction es arbitrary: m)
  case (Cons e es)
  have "stable_json fr orr (hash_base e) = json_dumps fr (JObj (hash_base e))"
    using Cons.prems by (intro stable_json_eq) (simp add: wf_event_def)
  then show ?case using Cons assms(2) by (auto split: json.splits)
qed simp

section \<open>The honest log\<close>

text \<open>A request to record an event, with the identifier and time it is given.\<close>

record request =
  rq_event_id :: string
  rq_ts :: int
  rq_correlation_id :: string
  rq_run_id :: string
  rq_event_type :: string
  rq_payload :: pyval

definition tails :: "audit_event list \<Rightarrow> string \<rightharpoonup> json" where
  "tails es = fold (\<lambda>e m. m(ae_correlation_id e \<mapsto> ae_hash e)) es Map.empty"

definition log_event ::
    "(string \<Rightarrow> string) \<Rightarrow> (pyfloat \<Rightarrow> string) \<Rightarrow> (pyval \<Rightarrow> string) \<Rightarrow> request \<Rightarrow> audit_event list \<Rightarrow> audit_event" where
  "log_event sha fr orr q es = audit_event_create sha fr orr (rq_event_id q) (rq_ts q) (rq_correlation_id q) (rq_run_id q)
     (rq_event_type q) (rq_payload q) (cached (tails es) (rq_correlation_id q)) True"

definition honest :: "(string \<Rightarrow> string) \<Rightarrow> (pyfloat \<Rightarrow> string) \<Rightarrow> audit_event list \<Rightarrow> bool" where
  "honest sha fr es \<longleftrightarrow> (\<forall>e\<in>set es. wf_event e \<and> ae_correlation_id e \<noteq> [])
     \<and> verify_items ae_correlation_id ae_prev_hash ae_hash (event_digest sha fr) Map.empty es"

definition good_request :: "audit_event list \<Rightarrow> request \<Rightarrow> bool" where
  "good_request es q \<longleftrightarrow> rq_correlation_id q \<noteq> [] \<and> wf_pyval (rq_payload q) \<and> rq_event_id q \<notin> ae_event_id ` set es"

lemma tails_snoc [simp]: "tails (es @ [e]) = (tails es)(ae_correlation_id e \<mapsto> ae_hash e)"
  by (simp add: tails_def)

lemma tails_Nil [simp]: "tails [] = Map.empty"
  by (simp add: tails_def)

lemma verify_items_fold:
  "verify_items ae_correlation_id ae_prev_hash ae_hash dg m (es @ [e]) \<longleftrightarrow>
     verify_items ae_correlation_id ae_prev_hash ae_hash dg m es
     \<and> ae_prev_hash e = cached (fold (\<lambda>e m. m(ae_correlation_id e \<mapsto> ae_hash e)) es m) (ae_correlation_id e) \<and> ae_hash e = JStr (dg e)"
  by (induction es arbitrary: m) auto

lemma honest_snoc:
  "honest sha fr (es @ [e]) \<longleftrightarrow> honest sha fr es \<and> wf_event e \<and> ae_correlation_id e \<noteq> []
     \<and> ae_prev_hash e = cached (tails es) (ae_correlation_id e) \<and> ae_hash e = JStr (event_digest sha fr e)"
  by (auto simp: honest_def verify_items_fold tails_def)

lemma honest_Nil [simp]: "honest sha fr []"
  by (simp add: honest_def)

lemma tails_string:
  "honest sha fr es \<Longrightarrow> cached (tails es) c = JNull \<or> (\<exists>s. cached (tails es) c = JStr (sha s))"
  by (induction es rule: rev_induct) (auto simp: honest_snoc)

lemma wf_safe_payload: "wf_pyval p \<Longrightarrow> wf_json (JObj (safe_payload fr orr p))"
  using wf_to_jsonable [of p fr orr]
  by (cases "to_jsonable fr orr p") (auto simp: safe_payload_def simp del: wf_to_jsonable)

lemma log_event_fields [simp]:
  "ae_event_id (log_event sha fr orr q es) = rq_event_id q" "ae_correlation_id (log_event sha fr orr q es) = rq_correlation_id q"
  "ae_prev_hash (log_event sha fr orr q es) = cached (tails es) (rq_correlation_id q)"
  by (simp_all add: log_event_def audit_event_create_def Let_def)

lemma create_hash:
  "ae_hash (audit_event_create sha fr orr i ts c r ty p prev True)
   = JStr (sha (stable_json fr orr (hash_base (audit_event_create sha fr orr i ts c r ty p prev True))))"
  by (simp add: audit_event_create_def Let_def hash_base_def)

lemma honest_log_event:
  assumes "honest sha fr es" "good_request es q"
  shows "honest sha fr (es @ [log_event sha fr orr q es])"
proof -
  let ?e = "log_event sha fr orr q es"
  have prev: "wf_json (cached (tails es) (rq_correlation_id q))" using tails_string [OF assms(1)] by (metis wf_json.simps(4,7))
  have wf: "wf_event ?e"
    using assms(2) prev wf_safe_payload by (simp add: wf_event_iff log_event_def audit_event_create_def Let_def good_request_def)
  moreover have "ae_hash ?e = JStr (event_digest sha fr ?e)"
  proof -
    have "ae_hash ?e = JStr (sha (stable_json fr orr (hash_base ?e)))"
      unfolding log_event_def by (rule create_hash)
    then show ?thesis using wf stable_json_eq by (simp add: wf_event_def)
  qed
  ultimately show ?thesis using assms by (simp add: honest_snoc good_request_def)
qed

section \<open>The interface of a store\<close>

locale audit_recorder =
  fixes sha :: "string \<Rightarrow> string" and fr :: "pyfloat \<Rightarrow> string" and orr :: "pyval \<Rightarrow> string"
    and record_op :: "request \<Rightarrow> 's \<Rightarrow> (exc + audit_event) \<times> 's"
    and append_op :: "audit_event \<Rightarrow> 's \<Rightarrow> (exc + unit) \<times> 's"
    and empty_store :: 's
    and admits :: "request \<Rightarrow> bool"
    and holds :: "'s \<Rightarrow> audit_event list \<Rightarrow> bool"
  assumes holds_empty: "holds empty_store []"
    and holds_honest: "holds st es \<Longrightarrow> honest sha fr es"
    and record_step: "holds st es \<Longrightarrow> good_request es q \<Longrightarrow> admits q
      \<Longrightarrow> \<exists>st'. record_op q st = (Inr (log_event sha fr orr q es), st') \<and> holds st' (es @ [log_event sha fr orr q es])"
    and append_stale: "holds st es \<Longrightarrow> ae_prev_hash e \<noteq> cached (tails es) (ae_correlation_id e)
      \<Longrightarrow> append_op e st = (Inl (AuditIntegrityError ''Audit append rejected because prev_hash is stale or invalid''), st)"

locale audit_store = audit_recorder +
  fixes verify_op :: "'a \<Rightarrow> exc + nat"
  assumes verify_holds: "holds st es \<Longrightarrow> verify_op st = Inr (length es)"

text \<open>The events an honest log gets for a list of requests.\<close>

fun log_all ::
    "(string \<Rightarrow> string) \<Rightarrow> (pyfloat \<Rightarrow> string) \<Rightarrow> (pyval \<Rightarrow> string) \<Rightarrow> request list \<Rightarrow> audit_event list \<Rightarrow> audit_event list" where
  "log_all sha fr orr [] es = es"
| "log_all sha fr orr (q # qs) es = log_all sha fr orr qs (es @ [log_event sha fr orr q es])"

definition good_requests :: "request list \<Rightarrow> bool" where
  "good_requests qs \<longleftrightarrow> distinct (map rq_event_id qs) \<and> (\<forall>q\<in>set qs. rq_correlation_id q \<noteq> [] \<and> wf_pyval (rq_payload q))"

lemma log_all_prefix: "\<exists>ys. log_all sha fr orr qs es = es @ ys \<and> length ys = length qs"
proof (induction qs arbitrary: es)
  case (Cons q qs)
  obtain ys where "log_all sha fr orr qs (es @ [log_event sha fr orr q es]) = (es @ [log_event sha fr orr q es]) @ ys"
      "length ys = length qs" using Cons.IH by blast
  then show ?case by (intro exI [of _ "log_event sha fr orr q es # ys"]) simp
qed simp

context audit_recorder
begin

lemma record_all_holds:
  assumes "holds st es" "good_requests qs" "\<forall>q\<in>set qs. admits q" "rq_event_id ` set qs \<inter> ae_event_id ` set es = {}"
  shows "\<exists>st'. record_all record_op qs st = (map Inr (drop (length es) (log_all sha fr orr qs es)), st') \<and> holds st' (log_all sha fr orr qs es)"
  using assms
proof (induction qs arbitrary: st es)
  case (Cons q qs)
  let ?e = "log_event sha fr orr q es"
  have "good_request es q" "admits q" using Cons.prems by (auto simp: good_request_def good_requests_def)
  then obtain st1 where st1: "record_op q st = (Inr ?e, st1)" "holds st1 (es @ [?e])"
    using record_step [OF Cons.prems(1)] by blast
  have "good_requests qs" "\<forall>q\<in>set qs. admits q" "rq_event_id ` set qs \<inter> ae_event_id ` set (es @ [?e]) = {}"
    using Cons.prems by (auto simp: good_requests_def)
  then obtain st2 where st2: "record_all record_op qs st1 = (map Inr (drop (length (es @ [?e])) (log_all sha fr orr qs (es @ [?e]))), st2)"
      "holds st2 (log_all sha fr orr qs (es @ [?e]))"
    using Cons.IH [OF st1(2)] by blast
  obtain ys where "log_all sha fr orr qs (es @ [?e]) = (es @ [?e]) @ ys" using log_all_prefix by blast
  then show ?case using st1 st2 by simp
qed simp

end

context audit_store
begin

lemma recorded_log_verifies:
  assumes "good_requests qs" "\<forall>q\<in>set qs. admits q"
  shows "\<exists>st. record_all record_op qs empty_store = (map Inr (log_all sha fr orr qs []), st) \<and> verify_op st = Inr (length qs)"
proof -
  obtain st where "record_all record_op qs empty_store = (map Inr (log_all sha fr orr qs []), st)" "holds st (log_all sha fr orr qs [])"
    using record_all_holds [OF holds_empty assms] by auto
  moreover have "length (log_all sha fr orr qs []) = length qs" using log_all_prefix [of sha fr orr qs "[]"] by auto
  ultimately show ?thesis using verify_holds by metis
qed

end

section \<open>The three stores implement it\<close>

text \<open>\<^verbatim>\<open>hexdigest()\<close> of a 256-bit hash.\<close>

definition hexdigest :: "(string \<Rightarrow> 256 word) \<Rightarrow> string \<Rightarrow> string" where
  "hexdigest h s = map (\<lambda>i. hex_digit (unat (h s) div 16 ^ (63 - i))) [0..<64]"

lemma hexdigest_not_Nil [simp]: "hexdigest h s \<noteq> []"
  by (simp add: hexdigest_def)

definition mem_record_req where
  "mem_record_req sha fr orr q = mem_record sha fr orr (rq_event_id q) (rq_ts q) (rq_correlation_id q) (rq_run_id q) (rq_event_type q) (rq_payload q)"

definition jsonl_record_req where
  "jsonl_record_req sha fr orr q = jsonl_record sha fr orr True (rq_event_id q) (rq_ts q) (rq_correlation_id q) (rq_run_id q) (rq_event_type q) (rq_payload q)"

definition sqlite_record_req where
  "sqlite_record_req sha fr orr q = sqlite_record sha fr orr True (rq_event_id q) (rq_ts q) (rq_correlation_id q) (rq_run_id q) (rq_event_type q) (rq_payload q)"

definition mem_holds :: "(string \<Rightarrow> string) \<Rightarrow> (pyfloat \<Rightarrow> string) \<Rightarrow> mem_audit \<Rightarrow> audit_event list \<Rightarrow> bool" where
  "mem_holds sha fr st es \<longleftrightarrow> ma_hash_chain st \<and> ma_events st = es \<and> ma_last_hash_cache st = tails es \<and> honest sha fr es"

definition jsonl_holds :: "(string \<Rightarrow> string) \<Rightarrow> (pyfloat \<Rightarrow> string) \<Rightarrow> jline list \<Rightarrow> audit_event list \<Rightarrow> bool" where
  "jsonl_holds sha fr file es \<longleftrightarrow> file = map (\<lambda>e. written_line (event_to_dict e)) es \<and> honest sha fr es"

definition sqlite_holds :: "(string \<Rightarrow> string) \<Rightarrow> (pyfloat \<Rightarrow> string) \<Rightarrow> audit_row list \<Rightarrow> audit_event list \<Rightarrow> bool" where
  "sqlite_holds sha fr rows es \<longleftrightarrow> rows = map row_of_event es \<and> honest sha fr es"

lemma log_event_truthy: "truthy (ae_hash (log_event (hexdigest h) fr orr q es))"
  by (simp add: log_event_def audit_event_create_def Let_def)

interpretation mem_store: audit_store "hexdigest h" fr orr "mem_record_req (hexdigest h) fr orr" mem_append
  "mem_audit_init True" "\<lambda>_. True" "mem_holds (hexdigest h) fr" "mem_verify (hexdigest h) fr orr"
  for h fr orr
proof
  fix st es q e
  show "mem_holds (hexdigest h) fr (mem_audit_init True) []" by (simp add: mem_holds_def mem_audit_init_def)
  assume m: "mem_holds (hexdigest h) fr st es"
  then show ho: "honest (hexdigest h) fr es" by (simp add: mem_holds_def)
  show "mem_verify (hexdigest h) fr orr st = Inr (length es)"
    using m ho verify_events_items [of es "hexdigest h" fr orr False Map.empty] by (simp add: mem_holds_def mem_verify_def honest_def)
  show "\<exists>st'. mem_record_req (hexdigest h) fr orr q st = (Inr (log_event (hexdigest h) fr orr q es), st')
      \<and> mem_holds (hexdigest h) fr st' (es @ [log_event (hexdigest h) fr orr q es])" if "good_request es q"
    using m honest_log_event [OF ho that, of orr] log_event_truthy [of h fr orr q es]
    by (auto simp: mem_holds_def mem_record_req_def mem_record_def log_event_def Let_def mem_add_def)
  show "mem_append e st = (Inl (AuditIntegrityError ''Audit append rejected because prev_hash is stale or invalid''), st)"
    if "ae_prev_hash e \<noteq> cached (tails es) (ae_correlation_id e)"
    using m that by (simp add: mem_holds_def mem_append_def)
qed

text \<open>What is read back of a written event.\<close>

definition sorted_dict :: "json_object \<Rightarrow> json_object" where
  "sorted_dict d = sort_key fst (map (\<lambda>(k, v). (k, sort_keys v)) d)"

lemma written_line_sorted: "written_line d = Parsed (JObj (sorted_dict d))"
  by (simp add: written_line_def sorted_dict_def)

lemma map_fst_sorted: "map fst (map (\<lambda>(k, v). (k, sort_keys v)) d) = map fst d"
  by auto

lemma distinct_sorted_dict: "distinct (map fst d) \<Longrightarrow> distinct (map fst (sorted_dict d))"
  unfolding sorted_dict_def by (simp only: distinct_map_sort_key map_fst_sorted)

lemma map_of_sorted_dict:
  assumes "distinct (map fst d)" shows "map_of (sorted_dict d) k = map_option sort_keys (map_of d k)"
proof -
  have "map_of (sorted_dict d) = map_of (map (\<lambda>(k, v). (k, sort_keys v)) d)"
    unfolding sorted_dict_def by (rule map_of_sort_key) (simp only: map_fst_sorted assms)
  moreover have "map_of (map (\<lambda>(k, v). (k, sort_keys v)) d) k = map_option sort_keys (map_of d k)" by (induction d) (auto simp: fun_upd_apply)
  ultimately show ?thesis by simp
qed

lemma written_fields:
  "map_of (sorted_dict (event_to_dict e)) ''event_id'' = Some (JStr (ae_event_id e))"
  "map_of (sorted_dict (event_to_dict e)) ''correlation_id'' = Some (JStr (ae_correlation_id e))"
  "map_of (sorted_dict (event_to_dict e)) ''run_id'' = Some (JStr (ae_run_id e))"
  "map_of (sorted_dict (event_to_dict e)) ''ts_epoch_ms'' = Some (JInt (ae_ts_epoch_ms e))"
  "map_of (sorted_dict (event_to_dict e)) ''event_type'' = Some (JStr (ae_event_type e))"
  "map_of (sorted_dict (event_to_dict e)) ''payload'' = Some (sort_keys (JObj (ae_payload e)))"
  "jget ''prev_hash'' (sorted_dict (event_to_dict e)) = sort_keys (ae_prev_hash e)"
  "jget ''hash'' (sorted_dict (event_to_dict e)) = sort_keys (ae_hash e)"
  by (simp_all add: map_of_sorted_dict jget_def) (simp_all add: event_to_dict_def hash_base_def fun_upd_apply)

lemma sort_keys_object_base:
  assumes "distinct (map fst d)"
  shows "sort_keys (JObj (object_base (sorted_dict d))) = sort_keys (JObj (object_base d))"
proof -
  let ?f = "\<lambda>(k, v). (k, sort_keys v)"
  have "sort_key fst (map ?f (object_base (sorted_dict d))) = sort_key fst (map ?f (object_base d))"
  proof (rule sorted_keys_unique)
    have 1: "distinct (map fst (object_base (sorted_dict d)))" by (intro distinct_object_base distinct_sorted_dict assms)
    then show d1: "distinct (map fst (map ?f (object_base (sorted_dict d))))" by (simp only: map_fst_sorted)
    have 2: "distinct (map fst (object_base d))" by (intro distinct_object_base assms)
    then show d2: "distinct (map fst (map ?f (object_base d)))" by (simp only: map_fst_sorted)
    have "set (map ?f (object_base (sorted_dict d))) = set (map ?f (object_base d))"
      by (force simp: object_base_def sorted_dict_def image_iff)
    then show "map_of (map ?f (object_base (sorted_dict d))) = map_of (map ?f (object_base d))"
      using d1 d2 by (simp only: map_of_inject_set)
  qed
  then show ?thesis by simp
qed

lemma object_base_event: "object_base (event_to_dict e) = hash_base e"
  by (simp add: object_base_def event_to_dict_def hash_base_def)

lemma wf_written:
  assumes "wf_event e" shows "wf_json (JObj (object_base (sorted_dict (event_to_dict e))))"
proof -
  have v: "wf_json v" if "(k, v) \<in> set (hash_base e)" for k v
    using assms that by (auto simp: wf_event_def list_all_iff)
  have "wf_json v" if "(k, v) \<in> set (object_base (sorted_dict (event_to_dict e)))" for k v
    using that v by (auto simp: object_base_def sorted_dict_def event_to_dict_def)
  then show ?thesis
    using distinct_object_base [OF distinct_sorted_dict [OF distinct_dict]] by (auto simp: list_all_iff)
qed

lemma stable_json_written:
  "wf_event e \<Longrightarrow> stable_json fr orr (object_base (sorted_dict (event_to_dict e))) = json_dumps fr (JObj (hash_base e))"
  using sort_keys_object_base [OF distinct_dict, of e]
  by (simp only: stable_json_eq [OF wf_written] json_dumps_def object_base_event)

lemma read_written: "read_objects (map (\<lambda>e. written_line (event_to_dict e)) es) = Inr (map (\<lambda>e. sorted_dict (event_to_dict e)) es)"
  by (induction es) (auto simp: written_line_sorted)

lemma last_hash_objects:
  "\<forall>e\<in>set es. \<exists>s. ae_hash e = JStr s \<and> s \<noteq> [] \<Longrightarrow>
   last_hash_from_objects fr orr (map (\<lambda>e. sorted_dict (event_to_dict e)) es) c (cached m c)
   = cached (fold (\<lambda>e m. m(ae_correlation_id e \<mapsto> ae_hash e)) es m) c"
proof (induction es arbitrary: m)
  case (Cons e es)
  obtain s where s: "ae_hash e = JStr s" "s \<noteq> []" using Cons.prems by auto
  have "last_hash_from_objects fr orr (map (\<lambda>e. sorted_dict (event_to_dict e)) (e # es)) c (cached m c)
      = last_hash_from_objects fr orr (map (\<lambda>e. sorted_dict (event_to_dict e)) es) c (cached (m(ae_correlation_id e \<mapsto> ae_hash e)) c)"
    using s by (auto simp: written_fields jstr_def)
  also have "\<dots> = cached (fold (\<lambda>e m. m(ae_correlation_id e \<mapsto> ae_hash e)) es (m(ae_correlation_id e \<mapsto> ae_hash e))) c"
    using Cons.prems by (intro Cons.IH) auto
  finally show ?case unfolding fold_simps .
qed simp

lemma honest_hash: "honest sha fr es \<Longrightarrow> e \<in> set es \<Longrightarrow> ae_hash e = JStr (event_digest sha fr e)"
  by (induction es rule: rev_induct) (auto simp: honest_snoc)

lemma jsonl_tail:
  assumes "honest (hexdigest h) fr es"
  shows "last_hash_from_objects fr orr (map (\<lambda>e. sorted_dict (event_to_dict e)) es) c JNull = cached (tails es) c"
  using last_hash_objects [of es fr orr c Map.empty] honest_hash [OF assms] by (simp add: tails_def)

lemma verify_objects_items:
  assumes "\<forall>e\<in>set es. wf_event e \<and> ae_correlation_id e \<noteq> []"
    and "verify_items ae_correlation_id ae_prev_hash ae_hash (event_digest (hexdigest h) fr) m es" and "\<forall>c. sort_keys (cached m c) = cached m c"
  shows "verify_objects (hexdigest h) fr orr True m (map (\<lambda>e. sorted_dict (event_to_dict e)) es) = Inr ()"
  using assms
proof (induction es arbitrary: m)
  case (Cons e es)
  have e: "wf_event e" "ae_correlation_id e \<noteq> []" "ae_prev_hash e = cached m (ae_correlation_id e)"
      "ae_hash e = JStr (event_digest (hexdigest h) fr e)" using Cons.prems(1,2) by auto
  have "verify_objects (hexdigest h) fr orr True (m(ae_correlation_id e \<mapsto> ae_hash e)) (map (\<lambda>e. sorted_dict (event_to_dict e)) es) = Inr ()"
  proof (rule Cons.IH)
    show "verify_items ae_correlation_id ae_prev_hash ae_hash (event_digest (hexdigest h) fr) (m(ae_correlation_id e \<mapsto> ae_hash e)) es"
      using Cons.prems(2) unfolding verify_items.simps by blast
    show "\<forall>c. sort_keys (cached (m(ae_correlation_id e \<mapsto> ae_hash e)) c) = cached (m(ae_correlation_id e \<mapsto> ae_hash e)) c"
      using Cons.prems(3) e(4) unfolding cached_upd by simp
  qed (use Cons.prems(1) in simp)
  moreover have "stable_json fr orr (filter (\<lambda>(k, v). k \<noteq> ''hash'') (sorted_dict (event_to_dict e))) = json_dumps fr (JObj (hash_base e))"
    using stable_json_written [OF e(1)] by (simp add: object_base_def)
  ultimately show ?case using e Cons.prems(3)
    by (simp add: written_fields jstr_def Let_def)
qed simp

interpretation jsonl_store: audit_store "hexdigest h" fr orr "jsonl_record_req (hexdigest h) fr orr" "jsonl_append fr orr"
  "[]" "\<lambda>_. True" "jsonl_holds (hexdigest h) fr" "jsonl_verify (hexdigest h) fr orr True"
  for h fr orr
proof
  fix ls es q e
  show "jsonl_holds (hexdigest h) fr [] []" by (simp add: jsonl_holds_def)
  assume m: "jsonl_holds (hexdigest h) fr ls es"
  then show ho: "honest (hexdigest h) fr es" by (simp add: jsonl_holds_def)
  have objs: "read_objects ls = Inr (map (\<lambda>e. sorted_dict (event_to_dict e)) es)"
    using m read_written by (simp add: jsonl_holds_def)
  show "jsonl_verify (hexdigest h) fr orr True ls = Inr (length es)"
    using verify_objects_items [of es h fr Map.empty orr] ho objs by (simp add: jsonl_verify_def honest_def)
  show "\<exists>st'. jsonl_record_req (hexdigest h) fr orr q ls = (Inr (log_event (hexdigest h) fr orr q es), st')
      \<and> jsonl_holds (hexdigest h) fr st' (es @ [log_event (hexdigest h) fr orr q es])" if "good_request es q"
    using m objs honest_log_event [OF ho that, of orr]
    by (simp add: jsonl_holds_def jsonl_record_req_def jsonl_record_def jsonl_tail [OF ho] log_event_def Let_def)
  show "jsonl_append fr orr e ls = (Inl (AuditIntegrityError ''Audit append rejected because prev_hash is stale or invalid''), ls)"
    if "ae_prev_hash e \<noteq> cached (tails es) (ae_correlation_id e)"
    using objs that by (simp add: jsonl_append_def jsonl_tail [OF ho])
qed

text \<open>The event read back from a written row: the same, with the keys of the payload sorted.\<close>

definition canon_event :: "audit_event \<Rightarrow> audit_event" where
  "canon_event e = e\<lparr>ae_payload := sorted_dict (ae_payload e)\<rparr>"

lemma event_from_written:
  assumes "sort_keys (ae_prev_hash e) = ae_prev_hash e" "sort_keys (ae_hash e) = ae_hash e"
  shows "event_from_json fr orr (written_line (event_to_dict e)) = Inr (canon_event e)"
  using assms by (simp add: event_from_json_def int_overflows_def written_line_sorted written_fields jstr_def canon_event_def) (simp add: sorted_dict_def)

lemma hash_base_canon: "sort_keys (JObj (hash_base (canon_event e))) = sort_keys (JObj (hash_base e))"
proof -
  have "sort_keys (JObj (sorted_dict d)) = sort_keys (JObj d)" for d
    using sort_keys_idem [of "JObj d"] by (simp add: sorted_dict_def)
  then show ?thesis by (simp add: hash_base_def canon_event_def)
qed

lemma wf_canon: "wf_event e \<Longrightarrow> wf_event (canon_event e)"
  using wf_sort_keys [of "JObj (ae_payload e)"] by (simp add: wf_event_iff canon_event_def sorted_dict_def del: wf_sort_keys)

lemma canon_fields [simp]:
  "ae_correlation_id (canon_event e) = ae_correlation_id e" "ae_prev_hash (canon_event e) = ae_prev_hash e"
  "ae_hash (canon_event e) = ae_hash e" "ae_event_id (canon_event e) = ae_event_id e" "ae_run_id (canon_event e) = ae_run_id e"
  "ae_event_type (canon_event e) = ae_event_type e"
  by (simp_all add: canon_event_def)

lemma digest_canon: "event_digest sha fr (canon_event e) = event_digest sha fr e"
  by (simp only: json_dumps_def hash_base_canon)

lemma verify_items_canon:
  "verify_items ae_correlation_id ae_prev_hash ae_hash (event_digest sha fr) m (map canon_event es)
   \<longleftrightarrow> verify_items ae_correlation_id ae_prev_hash ae_hash (event_digest sha fr) m es"
  by (induction es arbitrary: m) (auto simp: digest_canon)

lemma honest_scalar:
  assumes "honest sha fr es" "e \<in> set es"
  shows "sort_keys (ae_prev_hash e) = ae_prev_hash e \<and> sort_keys (ae_hash e) = ae_hash e"
  using assms
proof (induction es rule: rev_induct)
  case (snoc x es)
  show ?case
  proof (cases "e = x")
    case True
    then show ?thesis using snoc.prems tails_string [of sha fr es "ae_correlation_id x"] by (auto simp: honest_snoc)
  next
    case False
    then show ?thesis using snoc by (auto simp: honest_snoc)
  qed
qed simp

lemma sqlite_events_written:
  "\<forall>e\<in>set es. sort_keys (ae_prev_hash e) = ae_prev_hash e \<and> sort_keys (ae_hash e) = ae_hash e
   \<Longrightarrow> sqlite_events fr orr (map row_of_event es) = Inr (map canon_event es)"
  by (induction es) (auto simp: row_of_event_def event_from_written)

lemma sqlite_tail_written:
  assumes "honest sha fr es" shows "sqlite_tail fr orr c (map row_of_event es) = Inr (cached (tails es) c)"
  using assms
proof (induction es rule: rev_induct)
  case (snoc e es)
  have sc: "sort_keys (ae_prev_hash e) = ae_prev_hash e" "sort_keys (ae_hash e) = ae_hash e"
    using honest_scalar [OF snoc.prems, of e] by auto
  show ?case
  proof (cases "ae_correlation_id e = c")
    case True
    then show ?thesis using event_from_written [OF sc] by (simp add: sqlite_tail_def row_of_event_def)
  next
    case False
    then show ?thesis using snoc by (simp add: sqlite_tail_def honest_snoc row_of_event_def)
  qed
qed (simp add: sqlite_tail_def)

interpretation sqlite_store: audit_store "hexdigest h" fr orr "sqlite_record_req (hexdigest h) fr orr" "sqlite_append fr orr"
  "[]" "\<lambda>_. True" "sqlite_holds (hexdigest h) fr" "sqlite_audit_verify (hexdigest h) fr orr True"
  for h fr orr
proof
  fix rows es q e
  show "sqlite_holds (hexdigest h) fr [] []" by (simp add: sqlite_holds_def)
  assume m: "sqlite_holds (hexdigest h) fr rows es"
  then show ho: "honest (hexdigest h) fr es" by (simp add: sqlite_holds_def)
  have tail: "sqlite_tail fr orr c rows = Inr (cached (tails es) c)" for c
    using m sqlite_tail_written [OF ho] by (simp add: sqlite_holds_def)
  have evs: "sqlite_events fr orr rows = Inr (map canon_event es)"
    using m sqlite_events_written [of es fr orr] honest_scalar [OF ho] by (simp add: sqlite_holds_def)
  have "verify_events (hexdigest h) fr orr True True Map.empty (map canon_event es) = Inr ()"
    using ho wf_canon by (subst verify_events_items) (auto simp: verify_items_canon honest_def)
  then show "sqlite_audit_verify (hexdigest h) fr orr True rows = Inr (length es)"
    using evs by (simp add: sqlite_audit_verify_def)
  show "\<exists>st'. sqlite_record_req (hexdigest h) fr orr q rows = (Inr (log_event (hexdigest h) fr orr q es), st')
      \<and> sqlite_holds (hexdigest h) fr st' (es @ [log_event (hexdigest h) fr orr q es])" if good: "good_request es q"
  proof -
    let ?e = "log_event (hexdigest h) fr orr q es"
    have "ae_event_id ?e \<notin> ar_event_id ` set rows"
      using m good by (auto simp: sqlite_holds_def good_request_def row_of_event_def image_image)
    then have "sqlite_record_req (hexdigest h) fr orr q rows = (Inr ?e, rows @ [row_of_event ?e])"
      unfolding sqlite_record_req_def sqlite_record_def tail sum.case Let_def log_event_def [symmetric] sqlite_insert_def by simp
    then show ?thesis using m honest_log_event [OF ho good, of orr] by (simp add: sqlite_holds_def)
  qed
  show "sqlite_append fr orr e rows = (Inl (AuditIntegrityError ''Audit append rejected because prev_hash is stale or invalid''), rows)"
    if "ae_prev_hash e \<noteq> cached (tails es) (ae_correlation_id e)"
    using tail that by (simp add: sqlite_append_def)
qed

section \<open>Tampering\<close>

abbreviation hashed_digest :: "(string \<Rightarrow> string) \<Rightarrow> (pyfloat \<Rightarrow> string) \<Rightarrow> (pyval \<Rightarrow> string) \<Rightarrow> audit_event \<Rightarrow> string" where
  "hashed_digest sha fr orr e \<equiv> sha (json_dumps fr (hashed_form fr orr e))"

lemma verify_events_hashed:
  "verify_events (hexdigest h) fr orr b True m es = Inr () \<Longrightarrow>
     verify_items ae_correlation_id ae_prev_hash ae_hash (hashed_digest (hexdigest h) fr orr) m es"
proof (induction es arbitrary: m)
  case (Cons e es)
  have "stable_json fr orr (hash_base e) = json_dumps fr (hashed_form fr orr e)"
    by (simp add: stable_json_def canonical_json_def hashed_form_def)
  then show ?case using Cons by (auto split: json.splits if_splits)
qed simp

lemma verify_events_linked:
  assumes "verify_events (hexdigest h) fr orr b True Map.empty es = Inr ()"
  shows "linked ae_prev_hash ae_hash (hashed_digest (hexdigest h) fr orr) JNull (filter (\<lambda>e. ae_correlation_id e = c) es)"
  using verify_items_linked [OF verify_events_hashed [OF assms], of c] by simp

definition loaded_row :: "audit_row \<Rightarrow> bool" where
  "loaded_row r \<longleftrightarrow> (\<forall>j. ar_event_json r = Parsed j \<longrightarrow> json_doubles j)"

lemma doubles_get: "json_doubles (JObj d) \<Longrightarrow> map_of d k = Some v \<Longrightarrow> json_doubles v"
  by (auto simp: list_all_iff dest!: map_of_SomeD)

lemma doubles_update: "json_doubles (JObj d) \<Longrightarrow> json_doubles v \<Longrightarrow> json_doubles (JObj (AList.update k v d))"
  by (induction d) auto

lemma doubles_pairs: "list_all json_doubles xs \<Longrightarrow> dict_pairs xs = Some d \<Longrightarrow> json_doubles (JObj d)"
  by (induction xs arbitrary: d rule: dict_pairs.induct) (auto simp del: json_doubles.simps(3) intro!: doubles_update, auto)

lemma doubles_dict: "json_doubles j \<Longrightarrow> json_dict j = Some d \<Longrightarrow> json_doubles (JObj d)"
proof (induction j rule: json_dict.induct)
  case (2 xs)
  then show ?case using doubles_pairs [of "rev xs" d] by simp
qed simp_all

lemma loaded_event:
  assumes "event_from_json fr orr (Parsed j) = Inr e" "json_doubles j"
  shows "wf_json (hashed_form fr orr e)"
proof -
  obtain d where j: "j = JObj d" using assms(1) by (cases j) (auto simp: event_from_json_def)
  obtain p v where e: "map_of d ''payload'' = Some v" "json_dict v = Some p" "ae_payload e = p" "ae_prev_hash e = jget ''prev_hash'' d"
    using assms(1) by (auto simp: event_from_json_def j bind_eq_Some_conv split: if_splits option.splits)
  have "json_doubles (JObj p)" using doubles_dict [OF doubles_get [OF assms(2) [unfolded j] e(1)] e(2)] .
  moreover have "json_doubles (ae_prev_hash e)"
    using doubles_get [OF assms(2) [unfolded j], of "''prev_hash''"] e(4) by (simp add: jget_def split: option.splits)
  ultimately have "json_doubles (JObj (hash_base e))" using e(3) by (simp add: hash_base_def)
  then show ?thesis unfolding hashed_form_def using doubles_wf by (intro wf_to_jsonable)
qed

lemma loaded_events:
  "sqlite_events fr orr rows = Inr es \<Longrightarrow> \<forall>r\<in>set rows. loaded_row r \<Longrightarrow> e \<in> set es \<Longrightarrow> wf_json (hashed_form fr orr e)"
proof (induction rows arbitrary: es)
  case (Cons r rows)
  obtain ev evs where ev: "event_from_json fr orr (ar_event_json r) = Inr ev" "sqlite_events fr orr rows = Inr evs" "es = ev # evs"
    using Cons.prems(1) by (auto split: sum.splits if_splits)
  obtain j where j: "ar_event_json r = Parsed j" using ev(1) by (cases "ar_event_json r") (auto simp: event_from_json_def)
  have "wf_json (hashed_form fr orr ev)" using loaded_event [OF ev(1) [unfolded j]] Cons.prems(2) j by (simp add: loaded_row_def)
  then show ?case using Cons.IH [OF ev(2)] Cons.prems(2,3) ev(3) by auto
qed simp

lemma sqlite_events_append:
  "sqlite_events fr orr (xs @ [r]) = Inr es \<Longrightarrow> \<exists>es0 e. sqlite_events fr orr xs = Inr es0
     \<and> event_from_json fr orr (ar_event_json r) = Inr e \<and> es = es0 @ [e] \<and> ae_correlation_id e = ar_correlation_id r"
  by (induction xs arbitrary: es) (force split: sum.splits if_splits)+

lemma sqlite_tail_end_hash:
  "sqlite_events fr orr rows = Inr es \<Longrightarrow>
   sqlite_tail fr orr c rows = Inr (end_hash ae_hash JNull (filter (\<lambda>e. ae_correlation_id e = c) es))"
proof (induction rows arbitrary: es rule: rev_induct)
  case (snoc r rows)
  obtain es0 e where e: "sqlite_events fr orr rows = Inr es0" "event_from_json fr orr (ar_event_json r) = Inr e"
      "es = es0 @ [e]" "ae_correlation_id e = ar_correlation_id r"
    using sqlite_events_append [OF snoc.prems] by blast
  show ?case using snoc.IH [OF e(1)] e by (auto simp: sqlite_tail_def end_hash_def)
qed (simp add: sqlite_tail_def end_hash_def)

lemma read_objects_wf: "read_objects ls = Inr ds \<Longrightarrow> d \<in> set ds \<Longrightarrow> Parsed (JObj d) \<in> set ls"
  by (induction ls arbitrary: ds rule: read_objects.induct) (auto split: sum.splits)

definition object_corr :: "(pyfloat \<Rightarrow> string) \<Rightarrow> (pyval \<Rightarrow> string) \<Rightarrow> json_object \<Rightarrow> string" where
  "object_corr fr orr d = (case map_of d ''correlation_id'' of None \<Rightarrow> [] | Some v \<Rightarrow> jstr fr orr v)"

lemma wf_object_base: "wf_json (JObj d) \<Longrightarrow> wf_json (JObj (object_base d))"
  by (auto simp: object_base_def distinct_map_filter list_all_iff)

lemma verify_objects_linked:
  assumes "verify_objects (hexdigest h) fr orr True m ds = Inr ()" "\<forall>d\<in>set ds. wf_json (JObj d)"
  shows "verify_items (object_corr fr orr) (jget ''prev_hash'') (jget ''hash'')
     (\<lambda>d. hexdigest h (json_dumps fr (JObj (object_base d)))) m ds"
  using assms
proof (induction ds arbitrary: m)
  case (Cons d ds)
  have st: "stable_json fr orr (filter (\<lambda>(k, v). k \<noteq> ''hash'') d) = json_dumps fr (JObj (object_base d))"
    using stable_json_eq [OF wf_object_base, of d fr orr] Cons.prems(2) by (simp add: object_base_def)
  show ?case using Cons st by (auto simp: Let_def object_corr_def split: if_splits json.splits)
qed simp

lemma last_hash_end_hash:
  assumes "verify_items (object_corr fr orr) (jget ''prev_hash'') (jget ''hash'') dg m ds" "\<And>d. dg d \<noteq> []"
  shows "last_hash_from_objects fr orr ds c p = end_hash (jget ''hash'') p (filter (\<lambda>d. object_corr fr orr d = c) ds)"
  using assms(1)
proof (induction ds arbitrary: m p)
  case (Cons d ds)
  have h: "jget ''hash'' d = JStr (dg d)" using Cons.prems by simp
  have rest: "last_hash_from_objects fr orr ds c p' = end_hash (jget ''hash'') p' (filter (\<lambda>d. object_corr fr orr d = c) ds)" for p'
    using Cons.IH [of "m(object_corr fr orr d \<mapsto> jget ''hash'' d)"] Cons.prems unfolding verify_items.simps by blast
  show ?case using h assms(2) by (auto simp: rest jstr_def end_hash_def object_corr_def)
qed (simp add: end_hash_def)

section \<open>Theorems\<close>

text \<open>C16: The three local stores are interchangeable: for the same requests (with distinct event identifiers)
  each of them records the same events, the ones of the hash-chained log specification, and
  afterwards verifies, reporting their number.\<close>

theorem audit_stores_agree_and_verify:
  assumes "good_requests qs"
  shows "\<exists>m f r. record_all (mem_record_req (hexdigest h) fr orr) qs (mem_audit_init True) = (map Inr (log_all (hexdigest h) fr orr qs []), m)
      \<and> mem_verify (hexdigest h) fr orr m = Inr (length qs)
    \<and> record_all (jsonl_record_req (hexdigest h) fr orr) qs [] = (map Inr (log_all (hexdigest h) fr orr qs []), f)
      \<and> jsonl_verify (hexdigest h) fr orr True f = Inr (length qs)
    \<and> record_all (sqlite_record_req (hexdigest h) fr orr) qs [] = (map Inr (log_all (hexdigest h) fr orr qs []), r)
      \<and> sqlite_audit_verify (hexdigest h) fr orr True r = Inr (length qs)"
  using mem_store.recorded_log_verifies [OF assms, simplified, of h fr orr] jsonl_store.recorded_log_verifies [OF assms, simplified, of h fr orr]
    sqlite_store.recorded_log_verifies [OF assms, simplified, of h fr orr] by blast

definition demo_request :: request where
  "demo_request = \<lparr>rq_event_id = ''e1'', rq_ts = 0, rq_correlation_id = ''c'', rq_run_id = ''r'', rq_event_type = ''t'', rq_payload = PDict []\<rparr>"

theorem audit_stores_agree_and_verify_witness:
  "\<exists>f. record_all (jsonl_record_req (hexdigest (\<lambda>_. 0)) ratio_repr (\<lambda>_. [])) [demo_request] []
       = (map Inr (log_all (hexdigest (\<lambda>_. 0)) ratio_repr (\<lambda>_. []) [demo_request] []), f)
     \<and> jsonl_verify (hexdigest (\<lambda>_. 0)) ratio_repr (\<lambda>_. []) True f = Inr 1"
proof -
  have "good_requests [demo_request]" by (simp add: good_requests_def demo_request_def)
  from audit_stores_agree_and_verify [OF this, of "\<lambda>_. 0" ratio_repr "\<lambda>_. []"] show ?thesis by auto
qed

text \<open>C15: A verified log is tamper evident: two SQLite audit tables that both verify and have the same last hash
  for a correlation hold, in the same order, events of that correlation with the same JSON form, or two of their events are a
  collision of the hash function.  Events without \<^verbatim>\<open>NaN\<close>, infinities or repeated keys are then the same field by field
  up to the order of the payload's keys; the JSON form does not tell a \<^verbatim>\<open>NaN\<close> from the text \<^verbatim>\<open>"nan"\<close>.  So a change, removal,
  insertion or reordering before a known last hash is detected by \<^verbatim>\<open>verify\<close>.  The columns hold any texts; of
  their numbers it is only used that \<^verbatim>\<open>json.loads\<close> makes them doubles.\<close>

theorem sqlite_audit_tamper_evident:
  assumes "float_repr_ok fr" and "\<forall>r\<in>set rows \<union> set rows'. loaded_row r"
    and "sqlite_audit_verify (hexdigest h) fr orr True rows = Inr n" "sqlite_events fr orr rows = Inr es"
    and "sqlite_audit_verify (hexdigest h) fr orr True rows' = Inr n'" "sqlite_events fr orr rows' = Inr es'"
    and "sqlite_tail fr orr c rows = sqlite_tail fr orr c rows'"
  shows "list_all2 (\<lambda>x y. sort_keys (hashed_form fr orr x) = sort_keys (hashed_form fr orr y)
         \<and> (wf_event x \<and> wf_event y \<longrightarrow> sort_keys (JObj (hash_base x)) = sort_keys (JObj (hash_base y))))
       (filter (\<lambda>e. ae_correlation_id e = c) es) (filter (\<lambda>e. ae_correlation_id e = c) es')
     \<or> (\<exists>x\<in>set es. \<exists>y\<in>set es'. collision (hexdigest h) (stable_json fr orr (hash_base x)) (stable_json fr orr (hash_base y)))"
    (is "list_all2 ?same ?xs ?ys \<or> _")
proof -
  have v: "verify_events (hexdigest h) fr orr True True Map.empty es = Inr ()"
      "verify_events (hexdigest h) fr orr True True Map.empty es' = Inr ()"
    using assms(3-6) by (auto simp: sqlite_audit_verify_def split: sum.splits)
  have eh: "end_hash ae_hash JNull ?xs = end_hash ae_hash JNull ?ys"
    using sqlite_tail_end_hash [OF assms(4), of c] sqlite_tail_end_hash [OF assms(6), of c] assms(7) by simp
  have wf: "\<forall>e\<in>set ?xs \<union> set ?ys. wf_json (hashed_form fr orr e)"
    using loaded_events [OF assms(4)] loaded_events [OF assms(6)] assms(2) by auto
  have printed: "json_dumps fr (hashed_form fr orr e) = stable_json fr orr (hash_base e)" for e
    by (simp add: stable_json_def canonical_json_def hashed_form_def)
  have pair: "?same x y" if "sort_keys (hashed_form fr orr x) = sort_keys (hashed_form fr orr y)" for x y
    using that sort_keys_again [of "JObj (hash_base x)" fr orr] sort_keys_again [of "JObj (hash_base y)" fr orr]
    by (auto simp: hashed_form_def wf_event_def simp del: sort_keys.simps py_of_json.simps to_jsonable.simps wf_json.simps)
  from event_chain.chain_determined [OF verify_events_linked [OF v(1)] verify_events_linked [OF v(2)] eh assms(1) wf]
  show ?thesis
  proof (elim disjE)
    assume "map (\<lambda>e. sort_keys (hashed_form fr orr e)) ?xs = map (\<lambda>e. sort_keys (hashed_form fr orr e)) ?ys"
    then have "list_all2 (\<lambda>x y. sort_keys (hashed_form fr orr x) = sort_keys (hashed_form fr orr y)) ?xs ?ys"
      by (simp add: list_eq_iff_nth_eq list_all2_conv_all_nth)
    then have "list_all2 ?same ?xs ?ys" by (rule list_all2_mono) (rule pair)
    then show ?thesis ..
  qed (auto simp: printed)
qed

text \<open>The same for JSONL files: two files that both verify and report the same last hash for a correlation
  contain the same objects of that correlation, in the same order, or two of their objects are a
  collision of the hash function.\<close>

theorem jsonl_audit_tamper_evident:
  assumes "float_repr_ok fr"
    and "jsonl_verify (hexdigest h) fr orr True ls = Inr n" "read_objects ls = Inr ds" "\<forall>d\<in>set ds. wf_json (JObj d)"
    and "jsonl_verify (hexdigest h) fr orr True ls' = Inr n'" "read_objects ls' = Inr ds'" "\<forall>d\<in>set ds'. wf_json (JObj d)"
    and "jsonl_last_hash fr orr c ls = jsonl_last_hash fr orr c ls'"
  shows "map (\<lambda>d. sort_keys (JObj (object_base d))) (filter (\<lambda>d. object_corr fr orr d = c) ds)
       = map (\<lambda>d. sort_keys (JObj (object_base d))) (filter (\<lambda>d. object_corr fr orr d = c) ds')
     \<or> (\<exists>x\<in>set ds. \<exists>y\<in>set ds'. collision (hexdigest h) (json_dumps fr (JObj (object_base x))) (json_dumps fr (JObj (object_base y))))"
proof -
  let ?dg = "\<lambda>d. hexdigest h (json_dumps fr (JObj (object_base d)))"
  have v: "verify_items (object_corr fr orr) (jget ''prev_hash'') (jget ''hash'') ?dg Map.empty ds"
      "verify_items (object_corr fr orr) (jget ''prev_hash'') (jget ''hash'') ?dg Map.empty ds'"
    using assms(2-7) by (auto simp: jsonl_verify_def intro!: verify_objects_linked split: sum.splits)
  have l: "linked (jget ''prev_hash'') (jget ''hash'') ?dg JNull (filter (\<lambda>d. object_corr fr orr d = c) ds)"
      "linked (jget ''prev_hash'') (jget ''hash'') ?dg JNull (filter (\<lambda>d. object_corr fr orr d = c) ds')"
    using verify_items_linked [OF v(1), of c] verify_items_linked [OF v(2), of c] by simp_all
  have eh: "end_hash (jget ''hash'') JNull (filter (\<lambda>d. object_corr fr orr d = c) ds)
      = end_hash (jget ''hash'') JNull (filter (\<lambda>d. object_corr fr orr d = c) ds')"
    using last_hash_end_hash [OF v(1), of c JNull] last_hash_end_hash [OF v(2), of c JNull] assms(3,6,8)
    by (simp add: jsonl_last_hash_def)
  have "\<forall>d\<in>set (filter (\<lambda>d. object_corr fr orr d = c) ds) \<union> set (filter (\<lambda>d. object_corr fr orr d = c) ds'). wf_json (JObj (object_base d))"
    using wf_object_base assms(4,7) unfolding set_filter by blast
  from object_chain.chain_determined [OF l eh assms(1) this] show ?thesis unfolding set_filter by blast
qed

text \<open>Two tables that differ in the order of a payload's keys.\<close>

definition demo_audit_event :: audit_event where
  "demo_audit_event = log_event (hexdigest (\<lambda>_. 0)) ratio_repr (\<lambda>_. []) demo_request []"

lemma demo_audit_table:
  "sqlite_holds (hexdigest (\<lambda>_. 0)) ratio_repr [row_of_event demo_audit_event] [demo_audit_event]"
proof -
  have "good_request [] demo_request" by (simp add: good_request_def demo_request_def)
  then show ?thesis
    using honest_log_event [of "hexdigest (\<lambda>_. 0)" ratio_repr "[]" demo_request "\<lambda>_. []"]
    by (simp add: sqlite_holds_def demo_audit_event_def)
qed

lemma demo_audit_read:
  "sqlite_audit_verify (hexdigest (\<lambda>_. 0)) ratio_repr (\<lambda>_. []) True [row_of_event demo_audit_event] = Inr 1"
  "sqlite_events ratio_repr (\<lambda>_. []) [row_of_event demo_audit_event] = Inr [canon_event demo_audit_event]"
  "wf_event (canon_event demo_audit_event)"
proof -
  note h = sqlite_store.holds_honest [OF demo_audit_table]
  show "sqlite_audit_verify (hexdigest (\<lambda>_. 0)) ratio_repr (\<lambda>_. []) True [row_of_event demo_audit_event] = Inr 1"
    using sqlite_store.verify_holds [OF demo_audit_table] by simp
  show "sqlite_events ratio_repr (\<lambda>_. []) [row_of_event demo_audit_event] = Inr [canon_event demo_audit_event]"
    using sqlite_events_written [of "[demo_audit_event]"] honest_scalar [OF h] by simp
  show "wf_event (canon_event demo_audit_event)" using h by (intro wf_canon) (simp add: honest_def)
qed

lemma demo_dict_wf: "wf_json (JObj (sorted_dict (event_to_dict demo_audit_event)))"
proof -
  have "honest (hexdigest (\<lambda>_. 0)) ratio_repr [demo_audit_event]" using sqlite_store.holds_honest [OF demo_audit_table] .
  then have "wf_event demo_audit_event" "\<exists>s. ae_hash demo_audit_event = JStr s" by (auto simp: honest_def)
  then have "wf_json (JObj (event_to_dict demo_audit_event))" by (auto simp: wf_event_def event_to_dict_def hash_base_def)
  from wf_sort_keys [OF this] show ?thesis by (simp add: sorted_dict_def)
qed

lemma demo_loaded: "loaded_row (row_of_event demo_audit_event)"
  using wf_doubles [OF demo_dict_wf] by (simp add: loaded_row_def row_of_event_def written_line_sorted del: json_doubles.simps)

theorem sqlite_audit_tamper_evident_witness:
  "list_all2 (\<lambda>x y. sort_keys (hashed_form ratio_repr (\<lambda>_. []) x) = sort_keys (hashed_form ratio_repr (\<lambda>_. []) y)
       \<and> (wf_event x \<and> wf_event y \<longrightarrow> sort_keys (JObj (hash_base x)) = sort_keys (JObj (hash_base y))))
     (filter (\<lambda>e. ae_correlation_id e = ''c'') [canon_event demo_audit_event])
     (filter (\<lambda>e. ae_correlation_id e = ''c'') [canon_event demo_audit_event])
   \<or> (\<exists>x\<in>set [canon_event demo_audit_event]. \<exists>y\<in>set [canon_event demo_audit_event].
        collision (hexdigest (\<lambda>_. 0)) (stable_json ratio_repr (\<lambda>_. []) (hash_base x)) (stable_json ratio_repr (\<lambda>_. []) (hash_base y)))"
  by (rule sqlite_audit_tamper_evident [OF ratio_repr_ok _ demo_audit_read(1,2) demo_audit_read(1,2) refl]) (simp add: demo_loaded)

lemma demo_jsonl:
  "jsonl_verify (hexdigest (\<lambda>_. 0)) ratio_repr (\<lambda>_. []) True [written_line (event_to_dict demo_audit_event)] = Inr 1"
  "read_objects [written_line (event_to_dict demo_audit_event)] = Inr [sorted_dict (event_to_dict demo_audit_event)]"
  using jsonl_store.verify_holds [of "\<lambda>_. 0" ratio_repr "[written_line (event_to_dict demo_audit_event)]" "[demo_audit_event]" "\<lambda>_. []"]
    demo_audit_table read_written [of "[demo_audit_event]"]
  by (simp_all add: jsonl_holds_def sqlite_holds_def)

theorem jsonl_audit_tamper_evident_witness:
  "map (\<lambda>d. sort_keys (JObj (object_base d))) (filter (\<lambda>d. object_corr ratio_repr (\<lambda>_. []) d = ''c'') [sorted_dict (event_to_dict demo_audit_event)])
   = map (\<lambda>d. sort_keys (JObj (object_base d))) (filter (\<lambda>d. object_corr ratio_repr (\<lambda>_. []) d = ''c'') [sorted_dict (event_to_dict demo_audit_event)])
   \<or> (\<exists>x\<in>set [sorted_dict (event_to_dict demo_audit_event)]. \<exists>y\<in>set [sorted_dict (event_to_dict demo_audit_event)].
        collision (hexdigest (\<lambda>_. 0)) (json_dumps ratio_repr (JObj (object_base x))) (json_dumps ratio_repr (JObj (object_base y))))"
  by (rule jsonl_audit_tamper_evident [OF ratio_repr_ok demo_jsonl _ demo_jsonl _ refl])
     (use demo_dict_wf in \<open>simp_all\<close>)

section \<open>Redaction\<close>

text \<open>No member of an object, at any depth, keeps its value under a blocked key.\<close>

fun secrets_hidden :: "string list \<Rightarrow> json \<Rightarrow> bool" where
  "secrets_hidden blocked (JObj d) \<longleftrightarrow>
     (\<forall>(k, v)\<in>set d. if lower k \<in> lower ` set blocked then v = JStr ''[REDACTED]'' else secrets_hidden blocked v)"
| "secrets_hidden blocked (JList xs) \<longleftrightarrow> (\<forall>x\<in>set xs. secrets_hidden blocked x)"
| "secrets_hidden blocked j \<longleftrightarrow> True"

text \<open>Values built of dictionaries, lists, tuples, sets and scalars: what the walk descends into.\<close>

fun plain :: "pyval \<Rightarrow> bool" where
  "plain (PDict kvs) \<longleftrightarrow> (\<forall>(k, v)\<in>set kvs. plain v)"
| "plain (PList xs) \<longleftrightarrow> (\<forall>x\<in>set xs. plain x)"
| "plain (PTuple xs) \<longleftrightarrow> (\<forall>x\<in>set xs. plain x)"
| "plain (PSet xs) \<longleftrightarrow> (\<forall>x\<in>set xs. plain x)"
| "plain (PDataclass _) \<longleftrightarrow> False"
| "plain (PEnum _) \<longleftrightarrow> False"
| "plain _ \<longleftrightarrow> True"

lemma foldl_update_set: "set (foldl (\<lambda>d (k, j). AList.update k j d) d xs) \<subseteq> set d \<union> set xs"
proof (induction xs arbitrary: d)
  case (Cons a xs)
  obtain k j where a: "a = (k, j)" by (cases a)
  have "set (AList.update k j d) \<subseteq> insert (k, j) (set d)" by (induction d) auto
  then show ?case using Cons.IH [of "AList.update k j d"] a by auto
qed simp

lemma base64_not_blocked: "lower ''__type__'' \<notin> lower ` set default_redacted_keys" "lower ''base64'' \<notin> lower ` set default_redacted_keys"
    "lower ''repr'' \<notin> lower ` set default_redacted_keys"
  by (simp_all add: default_redacted_keys_def lower_def lower_char_def)

lemma redact_hides:
  "plain v \<Longrightarrow> secrets_hidden default_redacted_keys (to_jsonable fr orr (redact fr orr default_redacted_keys v))"
proof (induction v rule: plain.induct)
  case (1 kvs)
  let ?R = "redact fr orr default_redacted_keys"
  let ?h = "\<lambda>k v. if lower (str_of fr orr k) \<in> lower ` set default_redacted_keys then PStr ''[REDACTED]'' else ?R v"
  let ?xs = "sort_key fst (map (\<lambda>(k, v). (str_of fr orr k, to_jsonable fr orr v)) (map (\<lambda>(k, v). (k, ?h k v)) kvs))"
  have "to_jsonable fr orr (?R (PDict kvs)) = JObj (foldl (\<lambda>d (k, j). AList.update k j d) [] ?xs)"
    by (simp only: redact.simps to_jsonable.simps)
  moreover have "if lower k \<in> lower ` set default_redacted_keys then j = JStr ''[REDACTED]'' else secrets_hidden default_redacted_keys j"
    if "(k, j) \<in> set (foldl (\<lambda>d (k, j). AList.update k j d) [] ?xs)" for k j
  proof -
    have "(k, j) \<in> set ?xs" using that foldl_update_set [of "[]" ?xs] by auto
    then obtain k0 v0 where k0: "(k0, v0) \<in> set kvs" "k = str_of fr orr k0" "j = to_jsonable fr orr (?h k0 v0)" by auto
    have "secrets_hidden default_redacted_keys (to_jsonable fr orr (?R v0))"
      using 1 k0(1) by auto
    then show ?thesis using k0 by simp
  qed
  ultimately show ?case by (auto simp: case_prod_beta)
qed (auto simp: base64_not_blocked split: if_splits)

text \<open>C34: Redaction is complete on plain data: in the JSON form of a redacted value built of dictionaries, lists,
  tuples, sets and scalars, every member under a blocked key, compared without regard to case and at
  any depth, reads \<^verbatim>\<open>[REDACTED]\<close>.\<close>

theorem redact_hides_secrets:
  assumes "plain v"
  shows "secrets_hidden default_redacted_keys (to_jsonable fr orr (redact fr orr default_redacted_keys v))"
  by (rule redact_hides [OF assms])

theorem redact_hides_secrets_witness:
  "secrets_hidden default_redacted_keys (to_jsonable ratio_repr (\<lambda>_. [])
     (redact ratio_repr (\<lambda>_. []) default_redacted_keys (PList [PDict [(PStr ''API_Key'', PStr ''k''), (PStr ''n'', PInt 1)]])))"
  by (rule redact_hides_secrets) simp

text \<open>The walk does not descend into dataclasses, which the JSON conversion then spells out.\<close>

lemma redact_misses_dataclass:
  "to_jsonable fr orr (redact fr orr default_redacted_keys (PDataclass [(''password'', PStr ''hunter2'')]))
   = JObj [(''password'', JStr ''hunter2'')]"
  by simp

end
