(* ===== verification/Money.thy ===== *)
theory Money
  imports Serialization
begin

text \<open>
  The monetary conversions of \<^verbatim>\<open>agent_roi/roi/ledger.py\<close>.  Amounts enter as any Python value, go
  through \<^verbatim>\<open>Decimal(str(value))\<close>, are kept as integer cents and leave as floats.  The arithmetic of
  \<^verbatim>\<open>decimal\<close> is the default context: 28 significant digits, half-even for division.
\<close>

section \<open>Decimal values\<close>

text \<open>A decimal is a finite number or one of the infinities and not-a-numbers.\<close>

datatype decimal = DFinite rat | DSpecial

text \<open>The constructor from text: surrounding blanks and all underscores are dropped.\<close>

definition special_text :: "string \<Rightarrow> bool" where
  "special_text v \<longleftrightarrow> v = ''inf'' \<or> v = ''infinity''
     \<or> (starts_with v ''nan'' \<and> list_all digit_char (drop 3 v)) \<or> (starts_with v ''snan'' \<and> list_all digit_char (drop 4 v))"

definition parse_decimal :: "string \<Rightarrow> decimal option" where
  "parse_decimal s =
     (let (neg, v) = split_sign (filter (\<lambda>c. c \<noteq> CHR ''_'') (strip s)) in
      if special_text (lower v) then Some DSpecial
      else map_option (\<lambda>q. DFinite (if neg then - q else q)) (decimal_of v))"

section \<open>Cents\<close>

text \<open>\<^verbatim>\<open>quantize\<close> to two places refuses a coefficient of more than 28 digits.\<close>

definition half_up :: "rat \<Rightarrow> int" where
  "half_up q = \<lfloor>q + 1 / 2\<rfloor>"

definition money_to_cents :: "(pyfloat \<Rightarrow> string) \<Rightarrow> (pyval \<Rightarrow> string) \<Rightarrow> pyval \<Rightarrow> exc + int" where
  "money_to_cents fr orr v =
     (case parse_decimal (str_of fr orr v) of
        None \<Rightarrow> Inl (ValueError ''Money values must be numeric'')
      | Some DSpecial \<Rightarrow> Inl (ValueError ''Money values must be finite and nonnegative'')
      | Some (DFinite amount) \<Rightarrow>
          if amount < 0 then Inl (ValueError ''Money values must be finite and nonnegative'')
          else if 10 ^ 28 \<le> half_up (amount * 100) then Inl (ValueError ''Money values must be numeric'')
          else Inr (half_up (amount * 100)))"

text \<open>An integer rounded to 28 significant digits, as the division of decimals does.\<close>

definition digits28 :: "int \<Rightarrow> int" where
  "digits28 c = (let n = length (show_nat (nat \<bar>c\<bar>)) in
     if n \<le> 28 then c else rne (of_int c / 10 ^ (n - 28)) * 10 ^ (n - 28))"

definition cents_to_money :: "int \<Rightarrow> pyfloat" where
  "cents_to_money cents = rnd (of_int (digits28 cents) / 100)"

section \<open>Rounding errors\<close>

lemma show_nat_length: "n < 10 ^ k \<Longrightarrow> 0 < k \<Longrightarrow> length (show_nat n) \<le> k"
proof (induction k arbitrary: n)
  case (Suc k)
  show ?case
  proof (cases "n < 10")
    case True
    then show ?thesis by (subst show_nat.simps) simp
  next
    case False
    then have k: "0 < k" using Suc.prems by (cases k) auto
    have "n div 10 < 10 ^ k" using Suc.prems by (simp add: less_mult_imp_div_less mult.commute)
    with Suc.IH k have "length (show_nat (n div 10)) \<le> k" by blast
    then show ?thesis using False by (subst show_nat.simps) simp
  qed
qed simp

lemma digits28_small: "\<bar>c\<bar> < 10 ^ 28 \<Longrightarrow> digits28 c = c"
proof -
  assume "\<bar>c\<bar> < 10 ^ 28"
  then have "nat \<bar>c\<bar> < 10 ^ 28" by (simp add: nat_less_iff)
  then have "length (show_nat (nat \<bar>c\<bar>)) \<le> 28" by (rule show_nat_length) simp
  then show ?thesis by (simp add: digits28_def)
qed

lemma rne_error: "\<bar>of_int (rne y) - y\<bar> \<le> 1 / 2"
  using rne_cases [of y] by linarith

lemma rnd_pos_error: "0 < x \<Longrightarrow> \<bar>rnd_pos x - x\<bar> \<le> 2 powi ulp_exp x / 2"
proof -
  assume "0 < x"
  let ?u = "(2::rat) powi ulp_exp x"
  have "rnd_pos x - x = (of_int (rne (x / ?u)) - x / ?u) * ?u"
    by (simp add: rnd_pos_def field_simps)
  then have "\<bar>rnd_pos x - x\<bar> = \<bar>of_int (rne (x / ?u)) - x / ?u\<bar> * ?u"
    by (simp add: abs_mult)
  also have "\<dots> \<le> 1 / 2 * ?u"
    by (rule mult_right_mono [OF rne_error]) simp
  finally show ?thesis by simp
qed

lemma rnd_pos_error_cents:
  assumes "0 < x" and "x < 2 powi 45"
  shows "\<bar>rnd_pos x - x\<bar> \<le> 1 / 512"
proof -
  have "flog2 x < 45" using flog2_less assms by blast
  then have "ulp_exp x \<le> -8" by (simp add: ulp_exp_def)
  then have "(2::rat) powi ulp_exp x \<le> 2 powi (-8)" by (simp only: powi2_le_iff)
  then have "(2::rat) powi ulp_exp x \<le> 1 / 256" by (simp add: power_int_minus field_simps)
  then show ?thesis using rnd_pos_error [OF assms(1)] by linarith
qed

text \<open>Two nonnegative numbers below the bound that round to the same double are closer than half a cent.\<close>

lemma same_double_close:
  assumes "0 \<le> c" "c \<le> 2 powi 44" "0 \<le> d" "rnd d = rnd c"
  shows "\<bar>d - c\<bar> \<le> 1 / 256"
proof -
  have p44: "is_double (2 powi 44)" by (rule is_double_dyadic [where m = 1 and f = 44]) auto
  have p45: "is_double (2 powi 45)" by (rule is_double_dyadic [where m = 1 and f = 45]) auto
  obtain r where r: "rnd c = Fin r" "0 \<le> r" "r \<le> 2 powi 44"
    using rnd_between [OF is_double_zero p44 assms(1,2)] by blast
  have "d < 2 powi 45"
  proof (rule ccontr)
    assume "\<not> ?thesis"
    then have "fle (Fin (2 powi 45)) (rnd d)" using rnd_ge_double [OF p45] by simp
    with r assms(4) have "(2::rat) powi 45 \<le> r" by simp
    then have "(2::rat) powi 45 \<le> 2 powi 44" using r(3) by (rule order_trans)
    then show False by (simp only: powi2_le_iff)
  qed
  moreover have "c < 2 powi 45" using assms(2) by (rule le_less_trans) simp
  moreover have err: "\<bar>r - x\<bar> \<le> 1 / 512" if "0 \<le> x" "x < 2 powi 45" "rnd x = Fin r" for x
    using rnd_pos_error_cents [of x] that by (cases "x = 0") (auto simp: rnd_def split: if_splits)
  ultimately have "\<bar>r - d\<bar> \<le> 1 / 512" "\<bar>r - c\<bar> \<le> 1 / 512" using assms r by auto
  then show ?thesis by linarith
qed

section \<open>The round trip\<close>

text \<open>What \<^verbatim>\<open>repr\<close> promises of a nonnegative finite float: a decimal numeral that reads back as it.\<close>

definition repr_reads_back :: "(pyfloat \<Rightarrow> string) \<Rightarrow> bool" where
  "repr_reads_back fr \<longleftrightarrow> (\<forall>q. is_double q \<longrightarrow> 0 \<le> q \<longrightarrow>
     (\<exists>d\<ge>0. parse_decimal (fr (Fin q)) = Some (DFinite d) \<and> rnd d = Fin q))"

lemma half_up_close: "\<bar>x - of_int n\<bar> < 1 / 2 \<Longrightarrow> half_up x = n"
  unfolding half_up_def by (subst floor_eq_iff) linarith

lemma cents_roundtrip:
  assumes "repr_reads_back fr" and "0 \<le> c" and "c \<le> 100 * 2 ^ 44"
  shows "money_to_cents fr orr (PFloat (cents_to_money c)) = Inr c"
proof -
  let ?x = "of_int c / 100 :: rat"
  have x: "0 \<le> ?x" "?x \<le> 2 powi 44"
  proof -
    have "(of_int c :: rat) \<le> of_int (100 * 2 ^ 44)" using assms(3) by (simp only: of_int_le_iff)
    then show "?x \<le> 2 powi 44" by simp
  qed (use assms(2) in simp)
  have p44: "is_double (2 powi 44)" by (rule is_double_dyadic [where m = 1 and f = 44]) auto
  obtain q where q: "rnd ?x = Fin q" "0 \<le> q" "is_double q"
    using rnd_between [OF is_double_zero p44 x] by blast
  obtain d where d: "0 \<le> d" "parse_decimal (fr (Fin q)) = Some (DFinite d)" "rnd d = Fin q"
    using assms(1) q(2,3) unfolding repr_reads_back_def by blast
  have "\<bar>d - ?x\<bar> \<le> 1 / 256"
    using same_double_close [OF x d(1)] d(3) q(1) by simp
  then have "\<bar>d * 100 - of_int c\<bar> < 1 / 2" by linarith
  then have hu: "half_up (d * 100) = c" by (rule half_up_close)
  have "cents_to_money c = Fin q"
    using digits28_small [of c] assms(2,3) q(1) by (simp add: cents_to_money_def)
  then show ?thesis using d hu assms(3) by (simp add: money_to_cents_def)
qed

text \<open>A representation of that kind: the exact decimal expansion of the double.\<close>

definition exact_repr :: "pyfloat \<Rightarrow> string" where
  "exact_repr x = (case x of
      Fin q \<Rightarrow> (let k = nat (- ulp_exp q); m = nat \<lfloor>q * 2 ^ k\<rfloor> in show_nat (m * 5 ^ k) @ ''e-'' @ show_nat k)
    | _ \<Rightarrow> [])"

lemma strip_no_space: "list_all (\<lambda>c. \<not> py_space c) s \<Longrightarrow> strip s = s"
proof -
  assume "list_all (\<lambda>c. \<not> py_space c) s"
  then have "\<forall>c\<in>set s. \<not> py_space c" by (simp add: list_all_iff)
  then have "dropWhile py_space s = s" "dropWhile py_space (rev s) = rev s"
    by (metis hd_dropWhile_stop hd_in_set) (metis \<open>\<forall>c\<in>set s. \<not> py_space c\<close> hd_dropWhile_stop hd_in_set set_rev)
  then show ?thesis by (simp add: strip_def lstrip_def rstrip_def)
qed

lemma digit_char_plain: "digit_char c \<Longrightarrow> \<not> py_space c \<and> c \<noteq> CHR ''_'' \<and> c \<noteq> CHR ''-'' \<and> c \<noteq> CHR ''+'' \<and> lower_char c = c"
  by (auto simp: digit_char_def py_space_def lower_char_def Let_def)

lemma takeWhile_digits_append:
  "takeWhile digit_char (show_nat n @ CHR ''e'' # r) = show_nat n"
  "dropWhile digit_char (show_nat n @ CHR ''e'' # r) = CHR ''e'' # r"
proof -
  have "\<not> digit_char CHR ''e''" by (simp add: digit_char_def)
  then show "takeWhile digit_char (show_nat n @ CHR ''e'' # r) = show_nat n"
    "dropWhile digit_char (show_nat n @ CHR ''e'' # r) = CHR ''e'' # r"
    by (simp_all add: takeWhile_append2 dropWhile_append2 show_nat_digits)
qed

lemma decimal_of_scientific:
  "decimal_of (show_nat m @ ''e-'' @ show_nat k) = Some (of_nat m * 10 powi (- int k))"
proof -
  have "list_all digit_char (show_nat k)" by (simp add: list_all_iff show_nat_digits)
  then have "exponent_of (''e-'' @ show_nat k) = Some (- int k)"
    by (simp add: exponent_of_def split_sign_def)
  then show ?thesis
    by (simp add: decimal_of_def takeWhile_digits_append)
qed

lemma parse_scientific:
  "parse_decimal (show_nat m @ ''e-'' @ show_nat k) = Some (DFinite (of_nat m * 10 powi (- int k)))"
proof -
  let ?s = "show_nat m @ ''e-'' @ show_nat k"
  have e: "\<not> py_space CHR ''e''" "\<not> py_space CHR ''-''" by (simp_all add: py_space_def)
  have all: "list_all (\<lambda>c. \<not> py_space c \<and> c \<noteq> CHR ''_'') ?s"
    using e by (auto simp: list_all_iff dest: show_nat_digits digit_char_plain)
  have strip: "strip ?s = ?s" by (rule strip_no_space) (use all in \<open>auto simp: list_all_iff\<close>)
  have filt: "filter (\<lambda>c. c \<noteq> CHR ''_'') ?s = ?s"
    by (rule filter_True) (use all in \<open>auto simp: list_all_iff\<close>)
  obtain c cs where c: "show_nat m = c # cs" "digit_char c"
    using show_nat_digits [of _ m] show_nat_not_Nil [of m] by (metis list.exhaust list.set_intros(1))
  have sign: "split_sign ?s = (False, ?s)"
    using c digit_char_plain [OF c(2)] by (simp add: split_sign_def)
  have "lower ?s = c # lower (cs @ ''e-'' @ show_nat k)"
    using c digit_char_plain [OF c(2)] by (simp add: lower_def)
  moreover have "c \<notin> {CHR ''i'', CHR ''n'', CHR ''s''}" using c(2) by (auto simp: digit_char_def)
  ultimately have "\<not> special_text (lower ?s)"
    by (simp add: special_text_def starts_with_def)
  then show ?thesis
    unfolding parse_decimal_def strip filt sign Let_def prod.case
    using decimal_of_scientific [of m k] by simp
qed

lemma exact_repr_reads_back: "repr_reads_back exact_repr"
proof -
  have "parse_decimal (exact_repr (Fin q)) = Some (DFinite q)" if q: "is_double q" "0 \<le> q" for q
  proof -
    let ?k = "nat (- ulp_exp q)"
    obtain n where n: "q * 2 ^ ?k = of_nat n"
    proof (cases "q = 0")
      case False
      then have "rnd_pos q = q" using q by (auto simp: is_double_def rnd_def split: if_splits)
      moreover have "0 < q" using q(2) False by simp
      ultimately obtain m where m: "q = of_int m * 2 powi ulp_exp q" "0 \<le> m"
        using rnd_pos_form [of q] by auto
      have "(2::rat) powi ulp_exp q * 2 ^ ?k = of_int (2 ^ nat (ulp_exp q))"
      proof (cases "0 \<le> ulp_exp q")
        case True
        then show ?thesis by (simp add: powi2_int)
      next
        case False
        then show ?thesis by (simp add: power_int_def flip: power_mult_distrib)
      qed
      then have "q * 2 ^ ?k = of_int (m * 2 ^ nat (ulp_exp q))"
        by (subst m(1)) (simp only: mult.assoc of_int_mult)
      then have "q * 2 ^ ?k = of_nat (nat (m * 2 ^ nat (ulp_exp q)))"
        using m(2) by (simp only: of_nat_nat zero_le_mult_iff zero_le_power) simp
      then show ?thesis using that by blast
    qed (use that [of 0] in simp)
    have "of_nat (n * 5 ^ ?k) * (10::rat) powi (- int ?k) = q"
    proof -
      have "of_nat (n * 5 ^ ?k) = q * 2 ^ ?k * (5::rat) ^ ?k" using n by simp
      also have "\<dots> = q * 10 ^ ?k" by (simp flip: power_mult_distrib)
      finally show ?thesis by (simp only: power_int_minus power_int_of_nat) simp
    qed
    moreover have "exact_repr (Fin q) = show_nat (n * 5 ^ ?k) @ ''e-'' @ show_nat ?k"
      using n by (simp add: exact_repr_def Let_def)
    ultimately show ?thesis by (simp only: parse_scientific)
  qed
  then show ?thesis by (auto simp: repr_reads_back_def)
qed

end
