(* ===== verification/Ledger.thy ===== *)
theory Ledger
  imports Money
begin

text \<open>
  \<^verbatim>\<open>agent_roi/roi/ledger.py\<close>: the ledger of value opportunities, measured values, costs and status
  changes.  The four tables are lists of rows with the constraints of their schema; a column that
  holds an enum value is typed by the enum, and \<^verbatim>\<open>metadata_json\<close> is the JSON value its text denotes.
  Identifiers drawn from \<^verbatim>\<open>uuid4\<close>, the texts of the current time and day, and the text of floats
  are arguments.  Timestamps are compared as the texts they are stored as.
\<close>

section \<open>Enumerations\<close>

datatype value_type = Cost_Savings | Cost_Avoidance | Revenue | Productivity | Risk_Reduction

fun value_type_value :: "value_type \<Rightarrow> string" where
  "value_type_value Cost_Savings = ''cost_savings''"
| "value_type_value Cost_Avoidance = ''cost_avoidance''"
| "value_type_value Revenue = ''revenue''"
| "value_type_value Productivity = ''productivity''"
| "value_type_value Risk_Reduction = ''risk_reduction''"

datatype value_period = One_Time | Monthly | Annual

fun value_period_value :: "value_period \<Rightarrow> string" where
  "value_period_value One_Time = ''one_time''"
| "value_period_value Monthly = ''monthly''"
| "value_period_value Annual = ''annual''"

datatype opportunity_status = Proposed | Approved | In_Progress | Realizing | Validated | Rejected | Closed

fun status_value :: "opportunity_status \<Rightarrow> string" where
  "status_value Proposed = ''proposed''"
| "status_value Approved = ''approved''"
| "status_value In_Progress = ''in_progress''"
| "status_value Realizing = ''realizing''"
| "status_value Validated = ''validated''"
| "status_value Rejected = ''rejected''"
| "status_value Closed = ''closed''"

definition all_statuses :: "opportunity_status list" where
  "all_statuses = [Proposed, Approved, In_Progress, Realizing, Validated, Rejected, Closed]"

datatype value_stage = Potential | Forecast | Realized | Validated_Value

fun stage_value :: "value_stage \<Rightarrow> string" where
  "stage_value Potential = ''potential''"
| "stage_value Forecast = ''forecast''"
| "stage_value Realized = ''realized''"
| "stage_value Validated_Value = ''validated''"

datatype cost_type = Model_Cost | Infrastructure | Human_Review | Implementation | Support | Other_Cost

fun cost_type_value :: "cost_type \<Rightarrow> string" where
  "cost_type_value Model_Cost = ''model''"
| "cost_type_value Infrastructure = ''infrastructure''"
| "cost_type_value Human_Review = ''human_review''"
| "cost_type_value Implementation = ''implementation''"
| "cost_type_value Support = ''support''"
| "cost_type_value Other_Cost = ''other''"

text \<open>The enum constructors: the member with a value, or \<^verbatim>\<open>ValueError\<close>.\<close>

definition enum_of :: "('e \<Rightarrow> string) \<Rightarrow> 'e list \<Rightarrow> string \<Rightarrow> exc + 'e" where
  "enum_of val members s = (case find (\<lambda>m. val m = s) members of
     Some m \<Rightarrow> Inr m | None \<Rightarrow> Inl (ValueError (s @ '' is not a valid value'')))"

definition value_type_of :: "string \<Rightarrow> exc + value_type" where
  "value_type_of = enum_of value_type_value [Cost_Savings, Cost_Avoidance, Revenue, Productivity, Risk_Reduction]"

definition value_period_of :: "string \<Rightarrow> exc + value_period" where
  "value_period_of = enum_of value_period_value [One_Time, Monthly, Annual]"

definition status_of :: "string \<Rightarrow> exc + opportunity_status" where
  "status_of = enum_of status_value all_statuses"

definition stage_of :: "string \<Rightarrow> exc + value_stage" where
  "stage_of = enum_of stage_value [Potential, Forecast, Realized, Validated_Value]"

definition cost_type_of :: "string \<Rightarrow> exc + cost_type" where
  "cost_type_of = enum_of cost_type_value [Model_Cost, Infrastructure, Human_Review, Implementation, Support, Other_Cost]"

fun allowed_transitions :: "opportunity_status \<Rightarrow> opportunity_status list" where
  "allowed_transitions Proposed = [Approved, Rejected]"
| "allowed_transitions Approved = [In_Progress, Rejected]"
| "allowed_transitions In_Progress = [Realizing, Closed]"
| "allowed_transitions Realizing = [Validated, Closed]"
| "allowed_transitions Validated = [Closed]"
| "allowed_transitions Rejected = [Closed]"
| "allowed_transitions Closed = []"

section \<open>Rows and values\<close>

record opp_base =
  op_id :: string
  op_organization_id :: string
  op_agent_id :: string
  op_business_unit :: string
  op_business_owner :: string
  op_title :: string
  op_value_type :: value_type
  op_value_period :: value_period
  op_status :: opportunity_status
  op_currency_code :: string
  op_confidence :: pyfloat
  op_source_key :: string
  op_measurement_start :: string
  op_measurement_end :: string
  op_created_at_utc :: string
  op_created_by :: string
  op_metadata :: json
  op_revision :: int

record opp_row = opp_base +
  op_baseline_cents :: int
  op_forecast_cents :: int

record value_opportunity = opp_base +
  op_baseline_usd :: pyfloat
  op_forecast_value_usd :: pyfloat

definition opportunity_to_dict :: "value_opportunity \<Rightarrow> (string \<times> pyval) list" where
  "opportunity_to_dict p =
     [(''opportunity_id'', PStr (op_id p)), (''organization_id'', PStr (op_organization_id p)),
      (''agent_id'', PStr (op_agent_id p)), (''business_unit'', PStr (op_business_unit p)),
      (''business_owner'', PStr (op_business_owner p)), (''title'', PStr (op_title p)),
      (''value_type'', PStr (value_type_value (op_value_type p))), (''value_period'', PStr (value_period_value (op_value_period p))),
      (''status'', PStr (status_value (op_status p))), (''currency_code'', PStr (op_currency_code p)),
      (''baseline_usd'', PFloat (op_baseline_usd p)), (''forecast_value_usd'', PFloat (op_forecast_value_usd p)),
      (''confidence'', PFloat (op_confidence p)), (''source_key'', PStr (op_source_key p)),
      (''measurement_start'', PStr (op_measurement_start p)), (''measurement_end'', PStr (op_measurement_end p)),
      (''created_at_utc'', PStr (op_created_at_utc p)), (''created_by'', PStr (op_created_by p)),
      (''metadata'', py_of_json (op_metadata p)), (''revision'', PInt (op_revision p))]"

record value_row =
  vr_measurement_id :: string
  vr_organization_id :: string
  vr_opportunity_id :: string
  vr_stage :: value_stage
  vr_amount_cents :: int
  vr_currency_code :: string
  vr_evidence_key :: string
  vr_evidence_uri :: string
  vr_measurement_date :: string
  vr_recorded_at_utc :: string
  vr_recorded_by :: string
  vr_notes :: string

record cost_row =
  cr_cost_id :: string
  cr_organization_id :: string
  cr_agent_id :: string
  cr_opportunity_id :: "string option"
  cr_cost_type :: cost_type
  cr_amount_cents :: int
  cr_currency_code :: string
  cr_evidence_key :: string
  cr_incurred_date :: string
  cr_recorded_at_utc :: string
  cr_recorded_by :: string
  cr_notes :: string

record history_row =
  hr_history_id :: string
  hr_opportunity_id :: string
  hr_old_status :: opportunity_status
  hr_new_status :: opportunity_status
  hr_changed_at_utc :: string
  hr_changed_by :: string
  hr_reason :: string

record ledger =
  ld_opportunities :: "opp_row list"
  ld_values :: "value_row list"
  ld_costs :: "cost_row list"
  ld_history :: "history_row list"

definition ledger_init :: ledger where
  "ledger_init = \<lparr>ld_opportunities = [], ld_values = [], ld_costs = [], ld_history = []\<rparr>"

text \<open>SQLite integers have 64 bits; the driver refuses larger ones.\<close>

definition sqlite_int :: "int \<Rightarrow> exc + int" where
  "sqlite_int i = (if - (2 ^ 63) \<le> i \<and> i < 2 ^ 63 then Inr i
     else Inl (OverflowError ''Python int too large to convert to SQLite INTEGER''))"

section \<open>Opportunities\<close>

text \<open>The keyword arguments of \<^verbatim>\<open>create_opportunity\<close>.\<close>

record new_opportunity =
  no_organization_id :: string
  no_agent_id :: string
  no_business_unit :: string
  no_business_owner :: string
  no_title :: string
  no_value_type :: string
  no_value_period :: string
  no_baseline_usd :: pyval
  no_forecast_value_usd :: pyval
  no_confidence :: pyval
  no_source_key :: string
  no_created_by :: string
  no_currency_code :: string
  no_measurement_start :: string
  no_measurement_end :: string
  no_metadata :: "(pyval \<times> pyval) list"
  no_opportunity_id :: string

definition row_to_opportunity :: "opp_row \<Rightarrow> value_opportunity" where
  "row_to_opportunity r = \<lparr>op_id = op_id r, op_organization_id = op_organization_id r, op_agent_id = op_agent_id r,
     op_business_unit = op_business_unit r, op_business_owner = op_business_owner r, op_title = op_title r,
     op_value_type = op_value_type r, op_value_period = op_value_period r, op_status = op_status r,
     op_currency_code = op_currency_code r, op_confidence = op_confidence r, op_source_key = op_source_key r,
     op_measurement_start = op_measurement_start r, op_measurement_end = op_measurement_end r,
     op_created_at_utc = op_created_at_utc r, op_created_by = op_created_by r, op_metadata = op_metadata r,
     op_revision = op_revision r, op_baseline_usd = cents_to_money (op_baseline_cents r),
     op_forecast_value_usd = cents_to_money (op_forecast_cents r)\<rparr>"

definition get_opportunity :: "string \<Rightarrow> ledger \<Rightarrow> exc + value_opportunity" where
  "get_opportunity oid led = (case find (\<lambda>r. op_id r = oid) (ld_opportunities led) of
     None \<Rightarrow> Inl (KeyError oid) | Some r \<Rightarrow> Inr (row_to_opportunity r))"

definition required_fields :: "new_opportunity \<Rightarrow> (string \<times> string) list" where
  "required_fields a =
     [(''organization_id'', no_organization_id a), (''agent_id'', no_agent_id a), (''business_unit'', no_business_unit a),
      (''business_owner'', no_business_owner a), (''title'', no_title a), (''source_key'', no_source_key a),
      (''created_by'', no_created_by a)]"

text \<open>The checks before the table is touched, and the row they lead to.\<close>

definition opportunity_row ::
    "(pyfloat \<Rightarrow> string) \<Rightarrow> (pyval \<Rightarrow> string) \<Rightarrow> uuid_text \<Rightarrow> utc_text \<Rightarrow> new_opportunity \<Rightarrow> exc + opp_row" where
  "opportunity_row fr orr uid now a =
     (case find (\<lambda>(n, v). blank v) (required_fields a) of
        Some (n, _) \<Rightarrow> Inl (ValueError (n @ '' must be a non-empty string''))
      | None \<Rightarrow> (case py_float (no_confidence a) of Inl e \<Rightarrow> Inl e
      | Inr conf \<Rightarrow>
          if \<not> (fle (Fin 0) conf \<and> fle conf (Fin 1)) then Inl (ValueError ''confidence must be between 0 and 1'')
          else let currency = upper (strip (no_currency_code a)) in
            if length currency \<noteq> 3 \<or> \<not> list_all alpha_char currency
            then Inl (ValueError ''currency_code must be a three-letter code'')
            else (case (value_type_of (no_value_type a), value_period_of (no_value_period a)) of
              (Inr vt, Inr vp) \<Rightarrow>
                (case (money_to_cents fr orr (no_baseline_usd a), money_to_cents fr orr (no_forecast_value_usd a)) of
                   (Inl e, _) \<Rightarrow> Inl e
                 | (Inr _, Inl e) \<Rightarrow> Inl e
                 | (Inr b, Inr f) \<Rightarrow> (case (sqlite_int b, sqlite_int f) of
                   (Inl e, _) \<Rightarrow> Inl e
                 | (Inr _, Inl e) \<Rightarrow> Inl e
                 | (Inr baseline, Inr forecast) \<Rightarrow>
                     Inr \<lparr>op_id = (if no_opportunity_id a = [] then uid else no_opportunity_id a),
                       op_organization_id = strip (no_organization_id a), op_agent_id = strip (no_agent_id a),
                       op_business_unit = strip (no_business_unit a), op_business_owner = strip (no_business_owner a),
                       op_title = strip (no_title a), op_value_type = vt, op_value_period = vp, op_status = Proposed,
                       op_currency_code = currency, op_confidence = conf, op_source_key = strip (no_source_key a),
                       op_measurement_start = no_measurement_start a, op_measurement_end = no_measurement_end a,
                       op_created_at_utc = now, op_created_by = strip (no_created_by a),
                       op_metadata = sort_keys (to_jsonable fr orr (PDict (no_metadata a))), op_revision = 1,
                       op_baseline_cents = baseline, op_forecast_cents = forecast\<rparr>))
            | _ \<Rightarrow> Inl (ValueError ''Invalid value_type or value_period''))))"

definition create_opportunity ::
    "(pyfloat \<Rightarrow> string) \<Rightarrow> (pyval \<Rightarrow> string) \<Rightarrow> uuid_text \<Rightarrow> utc_text \<Rightarrow> new_opportunity \<Rightarrow> ledger
     \<Rightarrow> (exc + value_opportunity) \<times> ledger" where
  "create_opportunity fr orr uid now a led =
     (case opportunity_row fr orr uid now a of Inl e \<Rightarrow> (Inl e, led)
      | Inr row \<Rightarrow>
          if list_ex (\<lambda>r. op_id r = op_id row \<or> op_organization_id r = op_organization_id row \<and> op_source_key r = op_source_key row)
               (ld_opportunities led)
          then (Inl (ValueError ''An ROI opportunity with this source_key already exists for the organization''), led)
          else let led' = led\<lparr>ld_opportunities := ld_opportunities led @ [row]\<rparr> in
            (get_opportunity (op_id row) led', led'))"

definition list_rows :: "org_id \<Rightarrow> agent_name \<Rightarrow> opportunity_status option \<Rightarrow> ledger \<Rightarrow> opp_row list" where
  "list_rows org agent st led = sort_key op_created_at_utc (filter (\<lambda>r. op_organization_id r = org
     \<and> (agent \<noteq> [] \<longrightarrow> op_agent_id r = agent) \<and> (case st of None \<Rightarrow> True | Some s \<Rightarrow> op_status r = s)) (ld_opportunities led))"

definition list_opportunities ::
    "org_id \<Rightarrow> agent_name \<Rightarrow> string option \<Rightarrow> int \<Rightarrow> int \<Rightarrow> ledger \<Rightarrow> exc + value_opportunity list" where
  "list_opportunities org agent status limit offset led =
     (let query = (\<lambda>st. map row_to_opportunity (sql_limit (max 1 (min limit 500)) (max 0 offset) (list_rows org agent st led))) in
      case status of None \<Rightarrow> Inr (query None)
      | Some s \<Rightarrow> (case status_of s of Inl e \<Rightarrow> Inl e | Inr st \<Rightarrow> Inr (query (Some st))))"

text \<open>\<^verbatim>\<open>transition\<close> reads the row first and updates it in a second transaction, guarded by the status it
  read; other processes may act in between.\<close>

definition transition_read ::
    "string \<Rightarrow> string \<Rightarrow> ledger \<Rightarrow> exc + opportunity_status \<times> opportunity_status" where
  "transition_read oid new_status led =
     (case status_of new_status of Inl e \<Rightarrow> Inl e
      | Inr new \<Rightarrow> (case get_opportunity oid led of Inl e \<Rightarrow> Inl e
          | Inr current \<Rightarrow>
              if new \<notin> set (allowed_transitions (op_status current))
              then Inl (ValueError (''Invalid ROI status transition: '' @ status_value (op_status current) @ '' -> '' @ status_value new))
              else Inr (op_status current, new)))"

definition transition_write ::
    "uuid_text \<Rightarrow> utc_text \<Rightarrow> string \<Rightarrow> opportunity_status \<times> opportunity_status \<Rightarrow> subject_id \<Rightarrow> string \<Rightarrow> int option \<Rightarrow> ledger
     \<Rightarrow> (exc + unit) \<times> ledger" where
  "transition_write uid now oid ticket changed_by reason expected led =
     (let (old, new) = ticket;
          hit = (\<lambda>r. op_id r = oid \<and> op_status r = old \<and> (case expected of None \<Rightarrow> True | Some n \<Rightarrow> op_revision r = n)) in
      if rowcount hit (ld_opportunities led) \<noteq> 1 then (Inl (ValueError ''ROI opportunity revision conflict''), led)
      else if list_ex (\<lambda>h. hr_history_id h = uid) (ld_history led)
        then (Inl (SqliteIntegrityError ''UNIQUE constraint failed: roi_status_history.history_id''), led)
      else (Inr (), led\<lparr>ld_opportunities := sql_update hit (\<lambda>r. r\<lparr>op_status := new, op_revision := op_revision r + 1\<rparr>) (ld_opportunities led),
          ld_history := ld_history led @ [\<lparr>hr_history_id = uid, hr_opportunity_id = oid, hr_old_status = old, hr_new_status = new,
            hr_changed_at_utc = now, hr_changed_by = changed_by, hr_reason = reason\<rparr>]\<rparr>))"

definition transition ::
    "uuid_text \<Rightarrow> utc_text \<Rightarrow> string \<Rightarrow> string \<Rightarrow> subject_id \<Rightarrow> string \<Rightarrow> int option \<Rightarrow> ledger \<Rightarrow> (exc + value_opportunity) \<times> ledger" where
  "transition uid now oid new_status changed_by reason expected led =
     (case transition_read oid new_status led of Inl e \<Rightarrow> (Inl e, led)
      | Inr ticket \<Rightarrow> (case transition_write uid now oid ticket changed_by reason expected led of
          (Inl e, led') \<Rightarrow> (Inl e, led')
        | (Inr _, led') \<Rightarrow> (get_opportunity oid led', led')))"

section \<open>Values and costs\<close>

type_synonym receipt = "(string \<times> pyval) list"

text \<open>\<^verbatim>\<open>record_value\<close>, likewise in two transactions: the opportunity is read, the value inserted.\<close>

definition value_read :: "string \<Rightarrow> string \<Rightarrow> string \<Rightarrow> subject_id \<Rightarrow> ledger \<Rightarrow> exc + value_opportunity \<times> value_stage" where
  "value_read oid stage evidence_key recorded_by led =
     (case get_opportunity oid led of Inl e \<Rightarrow> Inl e
      | Inr opportunity \<Rightarrow> (case stage_of stage of Inl e \<Rightarrow> Inl e
          | Inr st \<Rightarrow>
              if st \<in> {Realized, Validated_Value} \<and> op_status opportunity \<notin> {In_Progress, Realizing, Validated}
              then Inl (ValueError ''Realized or validated value requires an in-progress opportunity'')
              else if blank evidence_key \<or> blank recorded_by
              then Inl (ValueError ''evidence_key and recorded_by are required'')
              else Inr (opportunity, st)))"

definition value_insert :: "value_row \<Rightarrow> ledger \<Rightarrow> (exc + unit) \<times> ledger" where
  "value_insert row led =
     (if list_ex (\<lambda>v. vr_measurement_id v = vr_measurement_id row
           \<or> vr_organization_id v = vr_organization_id row \<and> vr_evidence_key v = vr_evidence_key row) (ld_values led)
         \<or> \<not> list_ex (\<lambda>r. op_id r = vr_opportunity_id row) (ld_opportunities led)
      then (Inl (ValueError ''This evidence_key has already been counted''), led)
      else (Inr (), led\<lparr>ld_values := ld_values led @ [row]\<rparr>))"

definition value_write ::
    "(pyfloat \<Rightarrow> string) \<Rightarrow> (pyval \<Rightarrow> string) \<Rightarrow> uuid_text \<Rightarrow> utc_text \<Rightarrow> string \<Rightarrow> string \<Rightarrow> value_opportunity \<times> value_stage
     \<Rightarrow> pyval \<Rightarrow> string \<Rightarrow> subject_id \<Rightarrow> string \<Rightarrow> string \<Rightarrow> ledger \<Rightarrow> (exc + receipt) \<times> ledger" where
  "value_write fr orr uid now date_value oid ticket amount evidence_key recorded_by evidence_uri notes led =
     (let (opportunity, st) = ticket in
      case money_to_cents fr orr amount of Inl e \<Rightarrow> (Inl e, led)
      | Inr cents \<Rightarrow> (case sqlite_int cents of Inl e \<Rightarrow> (Inl e, led)
      | Inr _ \<Rightarrow>
        (case value_insert \<lparr>vr_measurement_id = uid, vr_organization_id = op_organization_id opportunity, vr_opportunity_id = oid,
                vr_stage = st, vr_amount_cents = cents, vr_currency_code = op_currency_code opportunity,
                vr_evidence_key = strip evidence_key, vr_evidence_uri = evidence_uri, vr_measurement_date = date_value,
                vr_recorded_at_utc = now, vr_recorded_by = strip recorded_by, vr_notes = notes\<rparr> led of
           (Inl e, led') \<Rightarrow> (Inl e, led')
         | (Inr _, led') \<Rightarrow>
             (Inr [(''measurement_id'', PStr uid), (''opportunity_id'', PStr oid), (''stage'', PStr (stage_value st)),
                (''amount_usd'', PFloat (cents_to_money cents)), (''currency_code'', PStr (op_currency_code opportunity)),
                (''evidence_key'', PStr evidence_key), (''evidence_uri'', PStr evidence_uri),
                (''measurement_date'', PStr date_value)], led'))))"

definition record_value ::
    "(pyfloat \<Rightarrow> string) \<Rightarrow> (pyval \<Rightarrow> string) \<Rightarrow> uuid_text \<Rightarrow> utc_text \<Rightarrow> utc_text \<Rightarrow> string \<Rightarrow> string \<Rightarrow> pyval \<Rightarrow> string \<Rightarrow> subject_id \<Rightarrow> string
     \<Rightarrow> string \<Rightarrow> string \<Rightarrow> ledger \<Rightarrow> (exc + receipt) \<times> ledger" where
  "record_value fr orr uid now today oid stage amount evidence_key recorded_by evidence_uri measurement_date notes led =
     (case value_read oid stage evidence_key recorded_by led of Inl e \<Rightarrow> (Inl e, led)
      | Inr ticket \<Rightarrow> value_write fr orr uid now (if measurement_date = [] then today else measurement_date) oid ticket
          amount evidence_key recorded_by evidence_uri notes led)"

definition cost_insert :: "cost_row \<Rightarrow> ledger \<Rightarrow> (exc + unit) \<times> ledger" where
  "cost_insert row led =
     (if list_ex (\<lambda>c. cr_cost_id c = cr_cost_id row
           \<or> cr_organization_id c = cr_organization_id row \<and> cr_evidence_key c = cr_evidence_key row) (ld_costs led)
         \<or> (case cr_opportunity_id row of None \<Rightarrow> False
              | Some oid \<Rightarrow> \<not> list_ex (\<lambda>r. op_id r = oid) (ld_opportunities led))
      then (Inl (ValueError ''This cost evidence_key has already been counted''), led)
      else (Inr (), led\<lparr>ld_costs := ld_costs led @ [row]\<rparr>))"

definition cost_check :: "org_id \<Rightarrow> agent_name \<Rightarrow> string \<Rightarrow> ledger \<Rightarrow> exc + unit" where
  "cost_check org agent oid led =
     (if oid = [] then Inr ()
      else (case get_opportunity oid led of Inl e \<Rightarrow> Inl e
        | Inr opportunity \<Rightarrow>
            if op_organization_id opportunity \<noteq> org \<or> op_agent_id opportunity \<noteq> agent
            then Inl (ValueError ''Cost opportunity does not match organization and agent'') else Inr ()))"

definition record_cost ::
    "(pyfloat \<Rightarrow> string) \<Rightarrow> (pyval \<Rightarrow> string) \<Rightarrow> uuid_text \<Rightarrow> utc_text \<Rightarrow> utc_text \<Rightarrow> org_id \<Rightarrow> agent_name \<Rightarrow> string \<Rightarrow> pyval \<Rightarrow> string \<Rightarrow> string
     \<Rightarrow> subject_id \<Rightarrow> string \<Rightarrow> string \<Rightarrow> string \<Rightarrow> ledger \<Rightarrow> (exc + receipt) \<times> ledger" where
  "record_cost fr orr uid now today org agent cost_type amount currency_code evidence_key recorded_by oid incurred_date notes led =
     (case cost_check org agent oid led of Inl e \<Rightarrow> (Inl e, led)
      | Inr _ \<Rightarrow>
        if blank evidence_key \<or> blank recorded_by then (Inl (ValueError ''evidence_key and recorded_by are required''), led)
        else let currency = upper (strip currency_code); date_value = (if incurred_date = [] then today else incurred_date) in
          (case cost_type_of cost_type of Inl e \<Rightarrow> (Inl e, led)
           | Inr ct \<Rightarrow> (case money_to_cents fr orr amount of Inl e \<Rightarrow> (Inl e, led)
           | Inr cents \<Rightarrow> (case sqlite_int cents of Inl e \<Rightarrow> (Inl e, led)
           | Inr _ \<Rightarrow>
             (case cost_insert \<lparr>cr_cost_id = uid, cr_organization_id = org, cr_agent_id = agent,
                 cr_opportunity_id = (if oid = [] then None else Some oid), cr_cost_type = ct, cr_amount_cents = cents,
                 cr_currency_code = currency, cr_evidence_key = strip evidence_key, cr_incurred_date = date_value,
                 cr_recorded_at_utc = now, cr_recorded_by = strip recorded_by, cr_notes = notes\<rparr> led of
                (Inl e, led') \<Rightarrow> (Inl e, led')
              | (Inr _, led') \<Rightarrow>
                  (Inr [(''cost_id'', PStr uid), (''organization_id'', PStr org), (''agent_id'', PStr agent),
                     (''cost_type'', PStr (cost_type_value ct)), (''amount_usd'', PFloat (cents_to_money cents)),
                     (''currency_code'', PStr currency), (''evidence_key'', PStr evidence_key),
                     (''incurred_date'', PStr date_value)], led'))))))"

section \<open>Portfolio summary\<close>

record portfolio =
  pf_organization_id :: string
  pf_agent_id :: "string option"
  pf_currency_code :: string
  pf_opportunity_count :: nat
  pf_baseline_usd :: pyfloat
  pf_forecast_value_usd :: pyfloat
  pf_realized_value_usd :: pyfloat
  pf_validated_value_usd :: pyfloat
  pf_total_cost_usd :: pyfloat
  pf_net_validated_value_usd :: pyfloat
  pf_validated_roi_multiple :: "pyfloat option"
  pf_status_counts :: "(string \<times> nat) list"

text \<open>\<^verbatim>\<open>sum(_money_to_cents(...) for ...)\<close>: the first amount that is refused raises.\<close>

fun sum_cents :: "(pyfloat \<Rightarrow> string) \<Rightarrow> (pyval \<Rightarrow> string) \<Rightarrow> pyfloat list \<Rightarrow> exc + int" where
  "sum_cents fr orr [] = Inr 0"
| "sum_cents fr orr (x # xs) = (case money_to_cents fr orr (PFloat x) of Inl e \<Rightarrow> Inl e
     | Inr c \<Rightarrow> (case sum_cents fr orr xs of Inl e \<Rightarrow> Inl e | Inr cs \<Rightarrow> Inr (c + cs)))"

text \<open>\<^verbatim>\<open>round(x, 4)\<close>, and the quotient of two integers.\<close>

definition round4 :: "pyfloat \<Rightarrow> pyfloat" where
  "round4 x = (case x of Fin q \<Rightarrow> rnd (of_int (rne (q * 10000)) / 10000) | _ \<Rightarrow> x)"

definition roi_multiple :: "int \<Rightarrow> int \<Rightarrow> exc + pyfloat option" where
  "roi_multiple validated cost =
     (if cost = 0 then Inr None
      else let x = rnd (of_int validated / of_int cost) in
        if is_finite x then Inr (Some (round4 x)) else Inl (OverflowError ''integer division result too large for a float''))"

definition select_currency :: "string \<Rightarrow> value_opportunity list \<Rightarrow> exc + string" where
  "select_currency currency_code ops =
     (let currencies = remdups (map op_currency_code ops) in
      if currency_code \<noteq> [] then Inr (upper currency_code)
      else if length currencies \<le> 1 then Inr (case currencies of [] \<Rightarrow> ''USD'' | c # _ \<Rightarrow> c)
      else Inl (ValueError ''Portfolio contains multiple currencies; select currency_code''))"

definition values_total :: "org_id \<Rightarrow> string \<Rightarrow> string set \<Rightarrow> value_stage \<Rightarrow> ledger \<Rightarrow> int" where
  "values_total org cur ids st led = sum_list (map vr_amount_cents (filter (\<lambda>v. vr_organization_id v = org
     \<and> vr_currency_code v = cur \<and> vr_opportunity_id v \<in> ids \<and> vr_stage v = st) (ld_values led)))"

definition costs_total :: "org_id \<Rightarrow> string \<Rightarrow> agent_name \<Rightarrow> string set \<Rightarrow> ledger \<Rightarrow> int" where
  "costs_total org cur agent ids led = sum_list (map cr_amount_cents (filter (\<lambda>c. cr_organization_id c = org
     \<and> cr_currency_code c = cur \<and> (agent = [] \<or> cr_agent_id c = agent)
     \<and> (case cr_opportunity_id c of None \<Rightarrow> True | Some oid \<Rightarrow> oid = [] \<or> oid \<in> ids)) (ld_costs led)))"

definition portfolio_summary ::
    "(pyfloat \<Rightarrow> string) \<Rightarrow> (pyval \<Rightarrow> string) \<Rightarrow> org_id \<Rightarrow> string \<Rightarrow> agent_name \<Rightarrow> ledger \<Rightarrow> exc + portfolio" where
  "portfolio_summary fr orr org currency_code agent led =
     (case list_opportunities org agent None 100 0 led of Inl e \<Rightarrow> Inl e
      | Inr listed \<Rightarrow> (case select_currency currency_code listed of Inl e \<Rightarrow> Inl e
      | Inr selected \<Rightarrow>
        let ops = filter (\<lambda>p. op_currency_code p = selected) listed; ids = set (map op_id ops) in
        (case sum_cents fr orr (map op_forecast_value_usd ops) of Inl e \<Rightarrow> Inl e
         | Inr forecast \<Rightarrow> (case sum_cents fr orr (map op_baseline_usd ops) of Inl e \<Rightarrow> Inl e
         | Inr baseline \<Rightarrow>
           let realized = values_total org selected ids Realized led;
               validated = values_total org selected ids Validated_Value led;
               cost = costs_total org selected agent ids led in
           (case roi_multiple validated cost of Inl e \<Rightarrow> Inl e
            | Inr multiple \<Rightarrow> Inr \<lparr>pf_organization_id = org, pf_agent_id = (if agent = [] then None else Some agent),
                pf_currency_code = selected, pf_opportunity_count = length ops,
                pf_baseline_usd = cents_to_money baseline, pf_forecast_value_usd = cents_to_money forecast,
                pf_realized_value_usd = cents_to_money realized, pf_validated_value_usd = cents_to_money validated,
                pf_total_cost_usd = cents_to_money cost, pf_net_validated_value_usd = cents_to_money (validated - cost),
                pf_validated_roi_multiple = multiple,
                pf_status_counts = map (\<lambda>st. (status_value st, length (filter (\<lambda>p. op_status p = st) ops))) all_statuses\<rparr>)))))"

end
