(* ===== verification/Ledger_Laws.thy ===== *)
theory Ledger_Laws
  imports Ledger
begin

text \<open>
  What the ledger keeps under any interleaving of processes.  \<^verbatim>\<open>transition\<close> and \<^verbatim>\<open>record_value\<close> read
  and write in separate transactions, so a read leaves a ticket and the write may happen at any
  later moment, on a ledger other processes have changed.  The invariant ties every opportunity to
  its history and every value to an opportunity; the summary is compared with exact sums.
\<close>

section \<open>Interleavings\<close>

datatype ticket =
    TransitionTicket string "opportunity_status \<times> opportunity_status"
  | ValueTicket string "value_opportunity \<times> value_stage"

inductive ledger_step :: "(pyfloat \<Rightarrow> string) \<Rightarrow> (pyval \<Rightarrow> string) \<Rightarrow> ledger \<times> ticket list \<Rightarrow> ledger \<times> ticket list \<Rightarrow> bool"
  for fr orr where
  create: "ledger_step fr orr (L, F) (snd (create_opportunity fr orr uid now a L), F)"
| transition_begin: "transition_read oid new_status L = Inr t
    \<Longrightarrow> ledger_step fr orr (L, F) (L, TransitionTicket oid t # F)"
| transition_end: "TransitionTicket oid t \<in> set F
    \<Longrightarrow> ledger_step fr orr (L, F) (snd (transition_write uid now oid t changed_by reason expected L), F)"
| value_begin: "value_read oid stage evidence_key recorded_by L = Inr t
    \<Longrightarrow> ledger_step fr orr (L, F) (L, ValueTicket oid t # F)"
| value_end: "ValueTicket oid t \<in> set F
    \<Longrightarrow> ledger_step fr orr (L, F) (snd (value_write fr orr uid now day oid t amount evidence_key recorded_by uri nt L), F)"
| cost: "ledger_step fr orr (L, F) (snd (record_cost fr orr uid now day org agent ct amount cur evidence_key recorded_by oid incurred nt L), F)"

section \<open>The invariant\<close>

definition history_of :: "string \<Rightarrow> ledger \<Rightarrow> history_row list" where
  "history_of oid L = filter (\<lambda>h. hr_opportunity_id h = oid) (ld_history L)"

fun status_path :: "opportunity_status \<Rightarrow> history_row list \<Rightarrow> opportunity_status \<Rightarrow> bool" where
  "status_path s [] t \<longleftrightarrow> s = t"
| "status_path s (h # hs) t \<longleftrightarrow> hr_old_status h = s \<and> hr_new_status h \<in> set (allowed_transitions s)
     \<and> status_path (hr_new_status h) hs t"

definition counts_as_earned :: "value_stage \<Rightarrow> bool" where
  "counts_as_earned st \<longleftrightarrow> st \<in> {Realized, Validated_Value}"

definition was_in_progress :: "string \<Rightarrow> ledger \<Rightarrow> bool" where
  "was_in_progress oid L \<longleftrightarrow> In_Progress \<in> hr_new_status ` set (history_of oid L)"

definition row_ok :: "ledger \<Rightarrow> opp_row \<Rightarrow> bool" where
  "row_ok L r \<longleftrightarrow> status_path Proposed (history_of (op_id r) L) (op_status r)
     \<and> op_revision r = 1 + int (length (history_of (op_id r) L))"

text \<open>The opportunity a value or a ticket refers to exists, with that organization and currency, and
  was in progress when the value counts as earned.\<close>

definition backed :: "ledger \<Rightarrow> string \<Rightarrow> string \<Rightarrow> string \<Rightarrow> value_stage \<Rightarrow> bool" where
  "backed L oid org cur st \<longleftrightarrow> (\<exists>r\<in>set (ld_opportunities L). op_id r = oid \<and> op_organization_id r = org
     \<and> op_currency_code r = cur) \<and> (counts_as_earned st \<longrightarrow> was_in_progress oid L)"

fun ticket_ok :: "ledger \<Rightarrow> ticket \<Rightarrow> bool" where
  "ticket_ok L (TransitionTicket oid (old, new)) \<longleftrightarrow> new \<in> set (allowed_transitions old)"
| "ticket_ok L (ValueTicket oid (p, st)) \<longleftrightarrow> backed L oid (op_organization_id p) (op_currency_code p) st"

definition amounts_ok :: "ledger \<Rightarrow> bool" where
  "amounts_ok L \<longleftrightarrow> (\<forall>r\<in>set (ld_opportunities L). 0 \<le> op_baseline_cents r \<and> 0 \<le> op_forecast_cents r)
     \<and> (\<forall>v\<in>set (ld_values L). 0 \<le> vr_amount_cents v) \<and> (\<forall>c\<in>set (ld_costs L). 0 \<le> cr_amount_cents c)"

definition ledger_ok :: "ledger \<Rightarrow> bool" where
  "ledger_ok L \<longleftrightarrow> distinct (map op_id (ld_opportunities L))
     \<and> distinct (map (\<lambda>r. (op_organization_id r, op_source_key r)) (ld_opportunities L))
     \<and> (\<forall>r\<in>set (ld_opportunities L). row_ok L r)
     \<and> hr_opportunity_id ` set (ld_history L) \<subseteq> op_id ` set (ld_opportunities L)
     \<and> (\<forall>v\<in>set (ld_values L). backed L (vr_opportunity_id v) (vr_organization_id v) (vr_currency_code v) (vr_stage v))
     \<and> distinct (map (\<lambda>v. (vr_organization_id v, vr_evidence_key v)) (ld_values L))
     \<and> distinct (map (\<lambda>c. (cr_organization_id c, cr_evidence_key c)) (ld_costs L))
     \<and> amounts_ok L"

lemmas ledger_frame = history_of_def was_in_progress_def row_ok_def backed_def amounts_ok_def

section \<open>Each operation keeps it\<close>

lemma money_to_cents_nonneg: "money_to_cents fr orr v = Inr c \<Longrightarrow> 0 \<le> c"
  by (auto simp: money_to_cents_def half_up_def split: option.splits decimal.splits if_splits)

lemma sqlite_int_same: "sqlite_int i = Inr j \<Longrightarrow> j = i"
  by (simp add: sqlite_int_def split: if_splits)

lemma status_path_append:
  "status_path s (hs @ [h]) t \<longleftrightarrow> status_path s hs (hr_old_status h)
     \<and> hr_new_status h \<in> set (allowed_transitions (hr_old_status h)) \<and> hr_new_status h = t"
  by (induction hs arbitrary: s) auto

text \<open>The only way into the working statuses is through \<open>In_Progress\<close>.\<close>

lemma status_path_in_progress:
  assumes "status_path s hs t" "s \<notin> {In_Progress, Realizing, Validated}" "t \<in> {In_Progress, Realizing, Validated}"
  shows "In_Progress \<in> hr_new_status ` set hs"
  using assms
proof (induction hs arbitrary: s)
  case (Cons h hs)
  then show ?case by (cases s; cases "hr_new_status h = In_Progress") auto
qed simp

lemma create_cases:
  obtains (same) "snd (create_opportunity fr orr uid now a L) = L"
  | (added) row where "snd (create_opportunity fr orr uid now a L) = L\<lparr>ld_opportunities := ld_opportunities L @ [row]\<rparr>"
      "op_status row = Proposed" "op_revision row = 1" "0 \<le> op_baseline_cents row" "0 \<le> op_forecast_cents row"
      "op_organization_id row = strip (no_organization_id a)"
      "\<forall>r\<in>set (ld_opportunities L). op_id r \<noteq> op_id row
        \<and> (op_organization_id r, op_source_key r) \<noteq> (op_organization_id row, op_source_key row)"
proof (cases "opportunity_row fr orr uid now a")
  case (Inr row)
  have "op_status row = Proposed" "op_revision row = 1" "0 \<le> op_baseline_cents row" "0 \<le> op_forecast_cents row"
      "op_organization_id row = strip (no_organization_id a)"
    using Inr by (auto simp: opportunity_row_def Let_def split: option.splits sum.splits if_splits
        dest!: sqlite_int_same money_to_cents_nonneg)
  then show ?thesis
    using Inr same added [of row]
    by (cases "list_ex (\<lambda>r. op_id r = op_id row \<or> op_organization_id r = op_organization_id row \<and> op_source_key r = op_source_key row)
          (ld_opportunities L)")
      (simp_all add: create_opportunity_def Let_def list_ex_iff)
qed (use that in \<open>simp add: create_opportunity_def\<close>)

lemma create_ok:
  assumes "ledger_ok L" shows "ledger_ok (snd (create_opportunity fr orr uid now a L))"
proof (cases fr orr uid now a L rule: create_cases)
  case (added row)
  have none: "history_of (op_id row) L = []"
    using assms added(7) by (fastforce simp: ledger_ok_def history_of_def filter_empty_conv)
  then have "row_ok (L\<lparr>ld_opportunities := ld_opportunities L @ [row]\<rparr>) row"
    using added(2,3) by (simp add: row_ok_def history_of_def)
  then show ?thesis
    using assms added unfolding added(1) ledger_ok_def by (auto simp: ledger_frame)
qed (use assms in simp)

lemma backed_create:
  "backed L oid org cur st \<Longrightarrow> backed (snd (create_opportunity fr orr uid now a L)) oid org cur st"
  by (cases fr orr uid now a L rule: create_cases) (auto simp: ledger_frame)

lemma transition_cases:
  assumes "distinct (map op_id (ld_opportunities L))"
  obtains (same) "snd (transition_write uid now oid (old, new) who why expected L) = L"
  | (moved) r h where "r \<in> set (ld_opportunities L)" "op_id r = oid" "op_status r = old"
      "snd (transition_write uid now oid (old, new) who why expected L) =
        L\<lparr>ld_opportunities := sql_update (\<lambda>x. op_id x = oid) (\<lambda>x. x\<lparr>op_status := new, op_revision := op_revision x + 1\<rparr>) (ld_opportunities L),
          ld_history := ld_history L @ [h]\<rparr>"
      "hr_opportunity_id h = oid" "hr_old_status h = old" "hr_new_status h = new"
proof (cases "fst (transition_write uid now oid (old, new) who why expected L)")
  case Inl
  then show ?thesis using that by (auto simp: transition_write_def Let_def split: if_splits)
next
  case (Inr u)
  let ?hit = "\<lambda>r. op_id r = oid \<and> op_status r = old \<and> (case expected of None \<Rightarrow> True | Some n \<Rightarrow> op_revision r = n)"
  have "rowcount ?hit (ld_opportunities L) = 1"
    using Inr by (auto simp: transition_write_def Let_def split: if_splits)
  then obtain r where r: "r \<in> set (ld_opportunities L)" "?hit r"
    using rowcount_pos [of ?hit "ld_opportunities L"] by auto
  have "?hit x \<longleftrightarrow> op_id x = oid" if "x \<in> set (ld_opportunities L)" for x
    using distinct_key_unique [OF assms] that r by metis
  then have "sql_update ?hit f (ld_opportunities L) = sql_update (\<lambda>x. op_id x = oid) f (ld_opportunities L)" for f
    by (simp add: sql_update_def)
  then show ?thesis
    using Inr r moved [OF r(1)] by (auto simp: transition_write_def Let_def split: if_splits)
qed

lemma transition_ok:
  assumes "ledger_ok L" and "new \<in> set (allowed_transitions old)"
  shows "ledger_ok (snd (transition_write uid now oid (old, new) who why expected L))"
proof -
  have d: "distinct (map op_id (ld_opportunities L))" using assms(1) by (simp add: ledger_ok_def)
  then show ?thesis
  proof (cases rule: transition_cases [where uid = uid and now = now and oid = oid and old = old and new = new and who = who and why = why and expected = expected])
    case (moved r h)
    let ?f = "\<lambda>x. x\<lparr>op_status := new, op_revision := op_revision x + 1\<rparr>"
    let ?L = "L\<lparr>ld_opportunities := sql_update (\<lambda>x. op_id x = oid) ?f (ld_opportunities L), ld_history := ld_history L @ [h]\<rparr>"
    have hist: "history_of i ?L = history_of i L @ (if i = oid then [h] else [])" for i
      using moved by (simp add: history_of_def)
    have rows: "row_ok ?L x" if "x \<in> set (ld_opportunities ?L)" for x
    proof -
      from that consider y where "y \<in> set (ld_opportunities L)" "op_id y = oid" "x = ?f y"
        | "x \<in> set (ld_opportunities L)" "op_id x \<noteq> oid"
        by (auto simp: set_sql_update)
      then show ?thesis
      proof cases
        case 1
        then have "y = r" using distinct_key_unique [OF d] moved by auto
        moreover have "row_ok L y" using assms(1) 1 by (simp add: ledger_ok_def)
        ultimately show ?thesis
          using 1 moved assms(2) unfolding row_ok_def hist by (simp add: status_path_append)
      next
        case 2
        then show ?thesis using assms(1) hist by (simp add: row_ok_def ledger_ok_def)
      qed
    qed
    have keep: "backed L i org cur st \<Longrightarrow> backed ?L i org cur st" for i org cur st
      unfolding backed_def was_in_progress_def hist by (auto simp: bex_sql_update)
    have ids: "map op_id (ld_opportunities ?L) = map op_id (ld_opportunities L)"
      "map (\<lambda>r. (op_organization_id r, op_source_key r)) (ld_opportunities ?L) = map (\<lambda>r. (op_organization_id r, op_source_key r)) (ld_opportunities L)"
      by (simp_all add: sql_update_def)
    have idset: "op_id ` set (ld_opportunities ?L) = op_id ` set (ld_opportunities L)"
      using arg_cong [OF ids(1), of set] by (simp only: set_map)
    have "hr_opportunity_id ` set (ld_history ?L) \<subseteq> op_id ` set (ld_opportunities ?L)"
      using assms(1) moved(1,2,5) unfolding idset ledger_ok_def by auto
    moreover have "\<forall>x\<in>set (ld_opportunities ?L). 0 \<le> op_baseline_cents x \<and> 0 \<le> op_forecast_cents x"
      using assms(1) by (auto simp: ledger_ok_def amounts_ok_def set_sql_update)
    ultimately show ?thesis
      using assms(1) rows keep ids unfolding moved(4) ledger_ok_def amounts_ok_def by simp
  qed (use assms(1) in simp)
qed

lemma backed_transition:
  assumes "distinct (map op_id (ld_opportunities L))" "backed L i org cur st"
  shows "backed (snd (transition_write uid now oid (old, new) who why expected L)) i org cur st"
  using assms(1)
proof (cases rule: transition_cases [where uid = uid and now = now and oid = oid and old = old and new = new and who = who and why = why and expected = expected])
  case (moved r h)
  then show ?thesis using assms(2) unfolding moved(4) by (auto simp: ledger_frame bex_sql_update)
qed (use assms in simp)

lemma value_write_cases:
  obtains (same) "snd (value_write fr orr uid now day oid (p, st) am ek rb uri nt L) = L"
  | (added) v where "snd (value_write fr orr uid now day oid (p, st) am ek rb uri nt L) = L\<lparr>ld_values := ld_values L @ [v]\<rparr>"
      "vr_opportunity_id v = oid" "vr_organization_id v = op_organization_id p" "vr_currency_code v = op_currency_code p" "vr_stage v = st"
      "0 \<le> vr_amount_cents v"
      "(vr_organization_id v, vr_evidence_key v) \<notin> (\<lambda>v. (vr_organization_id v, vr_evidence_key v)) ` set (ld_values L)"
proof (cases "snd (value_write fr orr uid now day oid (p, st) am ek rb uri nt L) = L")
  case False
  then show ?thesis
    by (auto simp: value_write_def value_insert_def Let_def list_ex_iff split: sum.splits if_splits
        dest: money_to_cents_nonneg intro!: added)
qed (rule same)

lemma value_ok:
  assumes "ledger_ok L" and "backed L oid (op_organization_id p) (op_currency_code p) st"
  shows "ledger_ok (snd (value_write fr orr uid now day oid (p, st) am ek rb uri nt L))"
proof (cases fr orr uid now day oid p st am ek rb uri nt L rule: value_write_cases)
  case (added v)
  then show ?thesis using assms unfolding added(1) ledger_ok_def by (auto simp: ledger_frame)
qed (use assms in simp)

lemma backed_value:
  "backed L i org cur s \<Longrightarrow> backed (snd (value_write fr orr uid now day oid (p, st) am ek rb uri nt L)) i org cur s"
  by (cases fr orr uid now day oid p st am ek rb uri nt L rule: value_write_cases) (auto simp: ledger_frame)

lemma cost_insert_cases:
  obtains (same) "snd (cost_insert c L) = L"
  | (added) "snd (cost_insert c L) = L\<lparr>ld_costs := ld_costs L @ [c]\<rparr>"
      "(cr_organization_id c, cr_evidence_key c) \<notin> (\<lambda>c. (cr_organization_id c, cr_evidence_key c)) ` set (ld_costs L)"
proof (cases "snd (cost_insert c L) = L")
  case False
  then show ?thesis by (auto simp: cost_insert_def list_ex_iff split: if_splits option.splits intro!: added)
qed (rule same)

lemma record_cost_insert:
  assumes "snd (record_cost fr orr uid now day org agent ct am cur ek rb oid inc nt L) \<noteq> L"
  shows "\<exists>c. snd (record_cost fr orr uid now day org agent ct am cur ek rb oid inc nt L) = snd (cost_insert c L) \<and> 0 \<le> cr_amount_cents c
    \<and> cr_organization_id c = org"
proof -
  have keep: "snd (case p of (Inl e, l) \<Rightarrow> (Inl e, l) | (Inr u, l) \<Rightarrow> (Inr x, l)) = snd p" for p :: "(exc + unit) \<times> ledger" and x :: receipt
    by (simp split: prod.split sum.split)
  show ?thesis
  proof (cases "cost_check org agent oid L")
    case (Inr u)
    then have "\<not> (blank ek \<or> blank rb)" using assms by (auto simp: record_cost_def)
    moreover obtain k where "cost_type_of ct = Inr k" using assms Inr by (cases "cost_type_of ct") (auto simp: record_cost_def Let_def)
    moreover obtain cents where "money_to_cents fr orr am = Inr cents"
      using assms Inr calculation by (cases "money_to_cents fr orr am") (auto simp: record_cost_def Let_def)
    moreover have "0 \<le> cents" using money_to_cents_nonneg calculation(3) .
    moreover obtain i where "sqlite_int cents = Inr i"
      using assms Inr calculation by (cases "sqlite_int cents") (auto simp: record_cost_def Let_def)
    ultimately show ?thesis
      using Inr by (intro exI conjI) (simp add: record_cost_def Let_def keep, simp, simp)
  qed (use assms in \<open>simp add: record_cost_def\<close>)
qed

lemma record_cost_cases:
  obtains (same) "snd (record_cost fr orr uid now day org agent ct am cur ek rb oid inc nt L) = L"
  | (added) c where "snd (record_cost fr orr uid now day org agent ct am cur ek rb oid inc nt L) = L\<lparr>ld_costs := ld_costs L @ [c]\<rparr>"
      "0 \<le> cr_amount_cents c" "cr_organization_id c = org"
      "(cr_organization_id c, cr_evidence_key c) \<notin> (\<lambda>c. (cr_organization_id c, cr_evidence_key c)) ` set (ld_costs L)"
proof (cases "snd (record_cost fr orr uid now day org agent ct am cur ek rb oid inc nt L) = L")
  case False
  then obtain c where c: "snd (record_cost fr orr uid now day org agent ct am cur ek rb oid inc nt L) = snd (cost_insert c L)" "0 \<le> cr_amount_cents c"
      "cr_organization_id c = org"
    using record_cost_insert by blast
  show ?thesis
  proof (cases c L rule: cost_insert_cases)
    case same
    then show ?thesis using False c(1) by simp
  next
    case added
    then show ?thesis using that(2) c by simp
  qed
qed (rule same)

lemma cost_ok:
  assumes "ledger_ok L"
  shows "ledger_ok (snd (record_cost fr orr uid now day org agent ct am cur ek rb oid inc nt L))"
proof (cases fr orr uid now day org agent ct am cur ek rb oid inc nt L rule: record_cost_cases)
  case (added c)
  then show ?thesis using assms unfolding added(1) ledger_ok_def by (auto simp: ledger_frame)
qed (use assms in simp)

lemma backed_cost:
  "backed L i o' c' s \<Longrightarrow> backed (snd (record_cost fr orr uid now day org agent ct am cur ek rb oid inc nt L)) i o' c' s"
  by (cases fr orr uid now day org agent ct am cur ek rb oid inc nt L rule: record_cost_cases) (auto simp: ledger_frame)

section \<open>Reachable ledgers\<close>

definition sys_ok :: "ledger \<times> ticket list \<Rightarrow> bool" where
  "sys_ok = (\<lambda>(L, F). ledger_ok L \<and> list_all (ticket_ok L) F)"

lemma ticket_ok_mono:
  assumes "\<And>i org cur st. backed L i org cur st \<Longrightarrow> backed L' i org cur st" and "list_all (ticket_ok L) F"
  shows "list_all (ticket_ok L') F"
  using assms(2)
proof (rule list.pred_mono_strong)
  fix t assume "ticket_ok L t"
  then show "ticket_ok L' t"
    by (cases t; cases "case t of TransitionTicket _ p \<Rightarrow> p | _ \<Rightarrow> undefined") (auto intro: assms(1))
qed

lemma read_backed:
  assumes "ledger_ok L" and "value_read oid stage ek rb L = Inr (p, st)"
  shows "backed L oid (op_organization_id p) (op_currency_code p) st"
proof -
  obtain r where r: "find (\<lambda>r. op_id r = oid) (ld_opportunities L) = Some r" "p = row_to_opportunity r"
    and st: "st \<notin> {Realized, Validated_Value} \<or> op_status r \<in> {In_Progress, Realizing, Validated}"
    using assms(2) by (auto simp: value_read_def get_opportunity_def row_to_opportunity_def split: option.splits sum.splits if_splits)
  from find_Some_prop [OF r(1)] have "r \<in> set (ld_opportunities L)" "op_id r = oid" by auto
  moreover from this have "status_path Proposed (history_of oid L) (op_status r)"
    using assms(1) by (auto simp: ledger_ok_def row_ok_def)
  ultimately show ?thesis
    using r(2) st status_path_in_progress [of Proposed _ "op_status r"]
    by (auto simp: backed_def was_in_progress_def counts_as_earned_def row_to_opportunity_def)
qed

lemma read_allowed:
  "transition_read oid ns L = Inr (old, new) \<Longrightarrow> new \<in> set (allowed_transitions old)"
  by (auto simp: transition_read_def split: sum.splits if_splits)

lemma ledger_step_ok:
  assumes "ledger_step fr orr s s'" and "sys_ok s" shows "sys_ok s'"
  using assms
proof cases
  case (create L F uid now a)
  then show ?thesis
    using assms(2) ticket_ok_mono [OF backed_create] by (auto simp: sys_ok_def create_ok)
next
  case (transition_begin oid ns L t F)
  then show ?thesis using assms(2) by (cases t) (auto simp: sys_ok_def read_allowed)
next
  case (transition_end oid t F L uid now who why expected)
  obtain old new where t: "t = (old, new)" by fastforce
  have ok: "ledger_ok L" "list_all (ticket_ok L) F" using assms(2) transition_end by (simp_all add: sys_ok_def)
  then have "new \<in> set (allowed_transitions old)"
    using transition_end(3) t by (auto simp: list_all_iff)
  moreover have "distinct (map op_id (ld_opportunities L))" using ok by (simp add: ledger_ok_def)
  ultimately show ?thesis
    using ok transition_end t ticket_ok_mono [OF backed_transition] by (auto simp: sys_ok_def transition_ok)
next
  case (value_begin oid stage ek rb L t F)
  then show ?thesis using assms(2) by (cases t) (auto simp: sys_ok_def dest: read_backed)
next
  case (value_end oid t F L uid now day am ek rb uri nt)
  obtain p st where t: "t = (p, st)" by fastforce
  have ok: "ledger_ok L" "list_all (ticket_ok L) F" using assms(2) value_end by (simp_all add: sys_ok_def)
  then have "backed L oid (op_organization_id p) (op_currency_code p) st"
    using value_end(3) t by (auto simp: list_all_iff)
  then show ?thesis
    using ok value_end t ticket_ok_mono [OF backed_value] by (auto simp: sys_ok_def value_ok)
next
  case (cost L F uid now day org agent ct am cur ek rb oid inc nt)
  then show ?thesis
    using assms(2) ticket_ok_mono [OF backed_cost] by (auto simp: sys_ok_def cost_ok)
qed

lemma ledger_reachable_ok:
  assumes "(ledger_step fr orr)\<^sup>*\<^sup>* (ledger_init, []) (L, F)" shows "ledger_ok L"
proof -
  have "sys_ok (ledger_init, [])" by (simp add: sys_ok_def ledger_ok_def amounts_ok_def ledger_init_def)
  with assms have "sys_ok (L, F)" by (rule rtranclp_invariant) (rule ledger_step_ok)
  then show ?thesis by (simp add: sys_ok_def)
qed

section \<open>The summary\<close>

lemma list_rows_set:
  "set (list_rows org agent None L) = {r \<in> set (ld_opportunities L). op_organization_id r = org \<and> (agent \<noteq> [] \<longrightarrow> op_agent_id r = agent)}"
  by (auto simp: list_rows_def)

lemma listed_all:
  "length (list_rows org agent None L) \<le> 100
    \<Longrightarrow> list_opportunities org agent None 100 0 L = Inr (map row_to_opportunity (list_rows org agent None L))"
  by (simp add: list_opportunities_def sql_limit_def)

text \<open>A summary never looks at more than one hundred opportunities.\<close>

lemma summary_sees_at_most_100:
  assumes "portfolio_summary fr orr org cur agent L = Inr s" shows "pf_opportunity_count s \<le> 100"
proof -
  obtain listed where l: "list_opportunities org agent None 100 0 L = Inr listed" "length listed \<le> 100"
    by (simp add: list_opportunities_def sql_limit_def)
  obtain sel where "pf_opportunity_count s = length (filter (\<lambda>p. op_currency_code p = sel) listed)"
    using assms l(1) by (auto simp: portfolio_summary_def Let_def split: sum.splits)
  then show ?thesis using l(2) length_filter_le order_trans by metis
qed

lemma sum_cents_rows:
  assumes "repr_reads_back fr" and "\<forall>r\<in>set rs. 0 \<le> f r \<and> f r \<le> 100 * 2 ^ 44"
  shows "sum_cents fr orr (map (\<lambda>r. cents_to_money (f r)) rs) = Inr (sum_list (map f rs))"
  using assms(2) by (induction rs) (auto simp: cents_roundtrip [OF assms(1)])

lemma roi_multiple_defined:
  assumes "0 \<le> validated" "validated \<le> 10 ^ 28" "0 \<le> cost"
  shows "\<exists>m. roi_multiple validated cost = Inr m"
proof (cases "cost = 0")
  case False
  let ?q = "of_int validated / of_int cost :: rat"
  have "is_double (2 powi 100)" by (rule is_double_dyadic [where m = 1 and f = 100]) auto
  moreover have "0 \<le> ?q" using assms by simp
  moreover have "?q \<le> 2 powi 100"
  proof -
    have "validated \<le> 2 ^ 100 * cost" using assms False by (intro order_trans [OF assms(2)]) simp
    then have "(of_int validated :: rat) \<le> of_int (2 ^ 100 * cost)" by (simp only: of_int_le_iff)
    then show ?thesis using assms False by (simp add: pos_divide_le_eq)
  qed
  ultimately obtain r where "rnd ?q = Fin r" using rnd_between [OF is_double_zero] by blast
  then show ?thesis using False by (simp add: roi_multiple_def)
qed (simp add: roi_multiple_def)

lemma row_to_opportunity_simps [simp]:
  "op_id (row_to_opportunity r) = op_id r" "op_currency_code (row_to_opportunity r) = op_currency_code r"
  "op_status (row_to_opportunity r) = op_status r" "op_organization_id (row_to_opportunity r) = op_organization_id r"
  "op_baseline_usd (row_to_opportunity r) = cents_to_money (op_baseline_cents r)"
  "op_forecast_value_usd (row_to_opportunity r) = cents_to_money (op_forecast_cents r)"
  by (simp_all add: row_to_opportunity_def)

definition selected_rows :: "string \<Rightarrow> string \<Rightarrow> string \<Rightarrow> ledger \<Rightarrow> opp_row list" where
  "selected_rows org agent cur L = filter (\<lambda>r. op_currency_code r = cur) (list_rows org agent None L)"

text \<open>Every value of the organization in the currency belongs to a selected opportunity.\<close>

lemma values_total_all:
  assumes "ledger_ok L"
  shows "values_total org cur (op_id ` set (selected_rows org [] cur L)) st L
    = (\<Sum>v\<leftarrow>ld_values L. if vr_organization_id v = org \<and> vr_currency_code v = cur \<and> vr_stage v = st then vr_amount_cents v else 0)"
proof -
  have "vr_opportunity_id v \<in> op_id ` set (selected_rows org [] cur L)"
    if "v \<in> set (ld_values L)" "vr_organization_id v = org" "vr_currency_code v = cur" for v
  proof -
    have "backed L (vr_opportunity_id v) org cur (vr_stage v)" using assms that by (auto simp: ledger_ok_def)
    then show ?thesis by (auto simp: backed_def selected_rows_def list_rows_set image_iff)
  qed
  then show ?thesis
    unfolding values_total_def sum_list_map_filter' [symmetric]
    by (intro arg_cong [where f = sum_list] map_cong filter_cong) auto
qed

lemma values_total_nonneg: "ledger_ok L \<Longrightarrow> 0 \<le> values_total org cur ids st L"
  unfolding values_total_def by (intro sum_list_nonneg) (auto simp: ledger_ok_def amounts_ok_def)

lemma costs_total_nonneg: "ledger_ok L \<Longrightarrow> 0 \<le> costs_total org cur agent ids L"
  unfolding costs_total_def by (intro sum_list_nonneg) (auto simp: ledger_ok_def amounts_ok_def)

section \<open>A ledger\<close>

text \<open>One opportunity, approved, put in progress, with a realized value and a cost in another currency.\<close>

lemmas text_eval = strip_def lstrip_def rstrip_def py_space_def digit_char_def lower_def lower_char_def upper_def upper_char_def
  alpha_char_def starts_with_def blank_def split_sign_def exponent_of_def digits_value_def

lemma demo_amount: "money_to_cents fr orr (PStr ''10.005'') = Inr 1001"
  by (simp add: money_to_cents_def parse_decimal_def special_text_def decimal_of_def text_eval half_up_def power_int_def power3_eq_cube)

definition demo_opportunity :: new_opportunity where
  "demo_opportunity = \<lparr>no_organization_id = ''acme'', no_agent_id = ''bot'', no_business_unit = ''ops'', no_business_owner = ''ann'',
     no_title = ''Fewer tickets'', no_value_type = ''productivity'', no_value_period = ''annual'', no_baseline_usd = PStr ''10.005'',
     no_forecast_value_usd = PStr ''10.005'', no_confidence = PFloat (Fin 1), no_source_key = ''k1'', no_created_by = ''bob'',
     no_currency_code = '' USD '', no_measurement_start = [], no_measurement_end = [], no_metadata = [], no_opportunity_id = ''o1''\<rparr>"

definition demo_opp_row :: "opportunity_status \<Rightarrow> int \<Rightarrow> opp_row" where
  "demo_opp_row st n = \<lparr>op_id = ''o1'', op_organization_id = ''acme'', op_agent_id = ''bot'', op_business_unit = ''ops'',
     op_business_owner = ''ann'', op_title = ''Fewer tickets'', op_value_type = Productivity, op_value_period = Annual, op_status = st,
     op_currency_code = ''USD'', op_confidence = Fin 1, op_source_key = ''k1'', op_measurement_start = [], op_measurement_end = [],
     op_created_at_utc = ''t0'', op_created_by = ''bob'', op_metadata = JObj [], op_revision = n,
     op_baseline_cents = 1001, op_forecast_cents = 1001\<rparr>"

definition demo_change :: "string \<Rightarrow> opportunity_status \<Rightarrow> opportunity_status \<Rightarrow> history_row" where
  "demo_change hid old new = \<lparr>hr_history_id = hid, hr_opportunity_id = ''o1'', hr_old_status = old, hr_new_status = new,
     hr_changed_at_utc = ''t1'', hr_changed_by = ''ann'', hr_reason = []\<rparr>"

definition demo_value :: value_row where
  "demo_value = \<lparr>vr_measurement_id = ''m1'', vr_organization_id = ''acme'', vr_opportunity_id = ''o1'', vr_stage = Realized,
     vr_amount_cents = 1001, vr_currency_code = ''USD'', vr_evidence_key = ''e1'', vr_evidence_uri = [],
     vr_measurement_date = ''d1'', vr_recorded_at_utc = ''t1'', vr_recorded_by = ''ann'', vr_notes = []\<rparr>"

definition demo_ledger :: ledger where
  "demo_ledger = \<lparr>ld_opportunities = [demo_opp_row In_Progress 3], ld_values = [demo_value], ld_costs = [],
     ld_history = [demo_change ''h1'' Proposed Approved, demo_change ''h2'' Approved In_Progress]\<rparr>"

lemma demo_created:
  "snd (create_opportunity fr orr ''u'' ''t0'' demo_opportunity ledger_init) = ledger_init\<lparr>ld_opportunities := [demo_opp_row Proposed 1]\<rparr>"
proof -
  have "opportunity_row fr orr ''u'' ''t0'' demo_opportunity = Inr (demo_opp_row Proposed 1)"
    by (simp add: opportunity_row_def demo_opportunity_def demo_opp_row_def demo_amount required_fields_def text_eval
        value_type_of_def value_period_of_def enum_of_def sqlite_int_def)
  then show ?thesis by (simp add: create_opportunity_def ledger_init_def Let_def)
qed

lemma demo_moved:
  "list_all (\<lambda>h. hr_history_id h \<noteq> hid) H \<Longrightarrow>
   snd (transition_write hid ''t1'' ''o1'' (old, new) ''ann'' [] None \<lparr>ld_opportunities = [demo_opp_row old n], ld_values = V, ld_costs = C, ld_history = H\<rparr>)
   = \<lparr>ld_opportunities = [demo_opp_row new (n + 1)], ld_values = V, ld_costs = C, ld_history = H @ [demo_change hid old new]\<rparr>"
  by (simp add: transition_write_def rowcount_def demo_opp_row_def demo_change_def list_all_iff list_ex_iff)

lemma demo_valued:
  "snd (value_write fr orr ''m1'' ''t1'' ''d1'' ''o1'' (row_to_opportunity (demo_opp_row In_Progress 3), Realized) (PStr ''10.005'') ''e1'' ''ann'' [] []
     (demo_ledger\<lparr>ld_values := []\<rparr>)) = demo_ledger"
  by (simp add: value_write_def demo_amount sqlite_int_def value_insert_def demo_ledger_def demo_value_def demo_opp_row_def text_eval)

lemma demo_reachable:
  "(ledger_step fr orr)\<^sup>*\<^sup>* (ledger_init, [])
     (demo_ledger, [ValueTicket ''o1'' (row_to_opportunity (demo_opp_row In_Progress 3), Realized),
        TransitionTicket ''o1'' (Approved, In_Progress), TransitionTicket ''o1'' (Proposed, Approved)])"
proof -
  let ?L = "\<lambda>st n H. \<lparr>ld_opportunities = [demo_opp_row st n], ld_values = [], ld_costs = [], ld_history = H\<rparr>"
  let ?H1 = "[demo_change ''h1'' Proposed Approved]" and ?H2 = "[demo_change ''h1'' Proposed Approved, demo_change ''h2'' Approved In_Progress]"
  have id: "op_id (demo_opp_row st n) = ''o1''" "op_status (demo_opp_row st n) = st" for st n by (simp_all add: demo_opp_row_def)
  have 1: "ledger_step fr orr (ledger_init, []) (?L Proposed 1 [], [])"
    using ledger_step.create [of fr orr ledger_init "[]" "''u''" "''t0''" demo_opportunity]
    by (simp add: demo_created) (simp add: ledger_init_def)
  have 2: "ledger_step fr orr (?L Proposed 1 [], F) (?L Proposed 1 [], TransitionTicket ''o1'' (Proposed, Approved) # F)" for F
    by (rule ledger_step.transition_begin [of _ "''approved''"])
      (simp add: transition_read_def status_of_def enum_of_def all_statuses_def get_opportunity_def id)
  have 3: "ledger_step fr orr (?L Approved 2 ?H1, F) (?L Approved 2 ?H1, TransitionTicket ''o1'' (Approved, In_Progress) # F)" for F
    by (rule ledger_step.transition_begin [of _ "''in_progress''"])
      (simp add: transition_read_def status_of_def enum_of_def all_statuses_def get_opportunity_def id)
  have 4: "ledger_step fr orr (?L In_Progress 3 ?H2, F)
      (?L In_Progress 3 ?H2, ValueTicket ''o1'' (row_to_opportunity (demo_opp_row In_Progress 3), Realized) # F)" for F
    by (rule ledger_step.value_begin [of _ "''realized''" "''e1''" "''ann''"])
      (simp add: value_read_def get_opportunity_def id stage_of_def enum_of_def text_eval)
  have 5: "ledger_step fr orr (?L Proposed 1 [], F) (?L Approved 2 ?H1, F)" if "TransitionTicket ''o1'' (Proposed, Approved) \<in> set F" for F
    using ledger_step.transition_end [OF that, of fr orr "?L Proposed 1 []" "''h1''" "''t1''" "''ann''" "[]" None] demo_moved [of "''h1''" "[]"] by simp
  have 6: "ledger_step fr orr (?L Approved 2 ?H1, F) (?L In_Progress 3 ?H2, F)" if "TransitionTicket ''o1'' (Approved, In_Progress) \<in> set F" for F
    using ledger_step.transition_end [OF that, of fr orr "?L Approved 2 ?H1" "''h2''" "''t1''" "''ann''" "[]" None] demo_moved [of "''h2''" ?H1]
    by (simp add: demo_change_def)
  have 7: "ledger_step fr orr (?L In_Progress 3 ?H2, F) (demo_ledger, F)"
    if "ValueTicket ''o1'' (row_to_opportunity (demo_opp_row In_Progress 3), Realized) \<in> set F" for F
    using ledger_step.value_end [OF that, of fr orr "demo_ledger\<lparr>ld_values := []\<rparr>" "''m1''" "''t1''" "''d1''" "PStr ''10.005''" "''e1''" "''ann''" "[]" "[]"]
    by (simp add: demo_valued) (simp add: demo_ledger_def)
  have a: "(ledger_step fr orr)\<^sup>*\<^sup>* (ledger_init, []) (?L Proposed 1 [], [])" using 1 by (rule r_into_rtranclp)
  let ?F1 = "[TransitionTicket ''o1'' (Proposed, Approved)]"
  let ?F2 = "TransitionTicket ''o1'' (Approved, In_Progress) # ?F1"
  let ?F3 = "ValueTicket ''o1'' (row_to_opportunity (demo_opp_row In_Progress 3), Realized) # ?F2"
  have "(ledger_step fr orr)\<^sup>*\<^sup>* (ledger_init, []) (?L Proposed 1 [], ?F1)" by (rule rtranclp.rtrancl_into_rtrancl [OF a 2])
  then have "(ledger_step fr orr)\<^sup>*\<^sup>* (ledger_init, []) (?L Approved 2 ?H1, ?F1)" by (rule rtranclp.rtrancl_into_rtrancl) (rule 5, simp)
  then have "(ledger_step fr orr)\<^sup>*\<^sup>* (ledger_init, []) (?L Approved 2 ?H1, ?F2)" by (rule rtranclp.rtrancl_into_rtrancl) (rule 3)
  then have "(ledger_step fr orr)\<^sup>*\<^sup>* (ledger_init, []) (?L In_Progress 3 ?H2, ?F2)" by (rule rtranclp.rtrancl_into_rtrancl) (rule 6, simp)
  then have "(ledger_step fr orr)\<^sup>*\<^sup>* (ledger_init, []) (?L In_Progress 3 ?H2, ?F3)" by (rule rtranclp.rtrancl_into_rtrancl) (rule 4)
  then show ?thesis by (rule rtranclp.rtrancl_into_rtrancl) (rule 7, simp)
qed

section \<open>Properties\<close>

text \<open>C9: Under any interleaving of processes, every opportunity's recorded status changes are a path of
  allowed transitions from \<open>proposed\<close> to its current status, its revision counts them, and value is
  recorded as realized or validated only for an opportunity that was put in progress.\<close>

theorem ledger_history_faithful:
  assumes "(ledger_step fr orr)\<^sup>*\<^sup>* (ledger_init, []) (L, F)" and "r \<in> set (ld_opportunities L)"
  shows "status_path Proposed (history_of (op_id r) L) (op_status r)
    \<and> op_revision r = 1 + int (length (history_of (op_id r) L))
    \<and> (\<forall>v\<in>set (ld_values L). vr_opportunity_id v = op_id r \<and> vr_stage v \<in> {Realized, Validated_Value}
        \<longrightarrow> (\<exists>h\<in>set (history_of (op_id r) L). hr_new_status h = In_Progress))"
proof -
  have ok: "ledger_ok L" using assms(1) by (rule ledger_reachable_ok)
  then have "backed L (vr_opportunity_id v) (vr_organization_id v) (vr_currency_code v) (vr_stage v)" if "v \<in> set (ld_values L)" for v
    using that by (simp add: ledger_ok_def)
  then have "\<exists>h\<in>set (history_of (op_id r) L). hr_new_status h = In_Progress"
    if "v \<in> set (ld_values L)" "vr_opportunity_id v = op_id r" "vr_stage v \<in> {Realized, Validated_Value}" for v
    using that by (force simp: backed_def was_in_progress_def counts_as_earned_def)
  then show ?thesis using ok assms(2) by (auto simp: ledger_ok_def row_ok_def)
qed

lemma record_value_refused:
  assumes "v \<in> set (ld_values L)" "strip ek = vr_evidence_key v" "get_opportunity oid L = Inr p"
    "op_organization_id p = vr_organization_id v"
  shows "\<exists>e. record_value fr orr uid now day oid st am ek rb uri md nt L = (Inl e, L)"
proof -
  have ex: "list_ex (\<lambda>w. vr_measurement_id w = uid \<or> vr_organization_id w = op_organization_id p \<and> vr_evidence_key w = strip ek) (ld_values L)"
    using assms by (auto simp: list_ex_iff)
  have ins: "value_insert row L = (Inl (ValueError ''This evidence_key has already been counted''), L)"
    if "vr_measurement_id row = uid" "vr_organization_id row = op_organization_id p" "vr_evidence_key row = strip ek" for row
    using ex that by (simp add: value_insert_def)
  have wr: "\<exists>e. value_write fr orr uid now d oid (p, stg) am ek rb uri nt L = (Inl e, L)" for d stg
    by (simp add: value_write_def ins split: sum.splits)
  show ?thesis
    using assms(3) wr by (auto simp: record_value_def value_read_def split: sum.splits)
qed

theorem ledger_history_faithful_witness:
  "status_path Proposed (history_of ''o1'' demo_ledger) In_Progress \<and> length (history_of ''o1'' demo_ledger) = 2
    \<and> (\<exists>h\<in>set (history_of ''o1'' demo_ledger). hr_new_status h = In_Progress)"
  using ledger_history_faithful [OF demo_reachable [where fr = exact_repr and orr = "\<lambda>_. []"], of "demo_opp_row In_Progress 3"]
  by (simp add: demo_ledger_def demo_opp_row_def demo_value_def)

text \<open>No benefit and no cost is counted twice: in every reachable ledger an organization's evidence keys
  are distinct among values and among costs, and a value whose evidence key is already there is
  refused without any change.\<close>

theorem evidence_counted_once:
  assumes "(ledger_step fr orr)\<^sup>*\<^sup>* (ledger_init, []) (L, F)"
  shows "distinct (map (\<lambda>v. (vr_organization_id v, vr_evidence_key v)) (ld_values L))
    \<and> distinct (map (\<lambda>c. (cr_organization_id c, cr_evidence_key c)) (ld_costs L))
    \<and> (\<forall>v\<in>set (ld_values L). \<forall>uid now day oid st am ek rb uri md nt. strip ek = vr_evidence_key v
        \<longrightarrow> (\<exists>p. get_opportunity oid L = Inr p \<and> op_organization_id p = vr_organization_id v)
        \<longrightarrow> (\<exists>e. record_value fr orr uid now day oid st am ek rb uri md nt L = (Inl e, L)))"
proof -
  have "ledger_ok L" using assms by (rule ledger_reachable_ok)
  then show ?thesis
    by (intro conjI ballI allI impI) (auto simp: ledger_ok_def intro: record_value_refused)
qed

theorem evidence_counted_once_witness:
  "\<exists>e. record_value exact_repr (\<lambda>_. []) ''m2'' ''t2'' ''d2'' ''o1'' ''realized'' (PInt 5) '' e1'' ''ann'' [] [] [] demo_ledger = (Inl e, demo_ledger)"
proof -
  note once = evidence_counted_once [OF demo_reachable [where fr = exact_repr and orr = "\<lambda>_. []"]]
  have v: "demo_value \<in> set (ld_values demo_ledger)" and ek: "strip '' e1'' = vr_evidence_key demo_value"
    by (simp_all add: demo_ledger_def demo_value_def text_eval)
  have "\<exists>p. get_opportunity ''o1'' demo_ledger = Inr p \<and> op_organization_id p = vr_organization_id demo_value"
    by (simp add: get_opportunity_def demo_ledger_def demo_opp_row_def demo_value_def)
  then show ?thesis using once v ek by blast
qed

text \<open>What a summary should add up: the values of a stage, and the costs that are booked on no opportunity or on one
  of the organization in that currency.\<close>

definition earned :: "org_id \<Rightarrow> string \<Rightarrow> value_stage \<Rightarrow> ledger \<Rightarrow> int" where
  "earned org cur st L = (\<Sum>v\<leftarrow>ld_values L.
     if vr_organization_id v = org \<and> vr_currency_code v = cur \<and> vr_stage v = st then vr_amount_cents v else 0)"

definition spent :: "org_id \<Rightarrow> string \<Rightarrow> ledger \<Rightarrow> int" where
  "spent org cur L = (\<Sum>c\<leftarrow>ld_costs L. if cr_organization_id c = org \<and> cr_currency_code c = cur
     \<and> (case cr_opportunity_id c of None \<Rightarrow> True | Some oid \<Rightarrow> oid = []
          \<or> (\<exists>r\<in>set (ld_opportunities L). op_id r = oid \<and> op_organization_id r = org \<and> op_currency_code r = cur))
     then cr_amount_cents c else 0)"

lemma costs_total_all: "costs_total org cur [] (op_id ` set (selected_rows org [] cur L)) L = spent org cur L"
proof -
  have "oid \<in> op_id ` set (selected_rows org [] cur L)
      \<longleftrightarrow> (\<exists>r\<in>set (ld_opportunities L). op_id r = oid \<and> op_organization_id r = org \<and> op_currency_code r = cur)" for oid
    by (auto simp: selected_rows_def list_rows_set)
  then show ?thesis by (simp add: costs_total_def spent_def sum_list_map_filter' cong: option.case_cong)
qed

text \<open>C23: The summary of an organization, asked for in a currency, is exact: it is
  returned, it counts every opportunity in the currency, in total and by status, its baseline and forecast are the sums of
  the stored cents although each amount passes through a float, its realized and validated
  values are the sums of all values of the organization in that currency, its cost the sum of the costs booked on no opportunity or on
  one in that currency, its net value their difference, and its multiple their quotient, rounded, where there is a cost.  The
  organization has at most one hundred opportunities, no amount of one exceeds \<^verbatim>\<open>2**44\<close> dollars and the values together are at most \<^verbatim>\<open>10**28\<close> cents.\<close>

theorem portfolio_summary_exact:
  assumes "(ledger_step fr orr)\<^sup>*\<^sup>* (ledger_init, []) (L, F)" and "repr_reads_back fr" and "currency \<noteq> []"
    and "length (list_rows org [] None L) \<le> 100"
    and "\<forall>r\<in>set (ld_opportunities L). op_baseline_cents r \<le> 100 * 2 ^ 44 \<and> op_forecast_cents r \<le> 100 * 2 ^ 44"
    and "(\<Sum>v\<leftarrow>ld_values L. vr_amount_cents v) \<le> 10 ^ 28"
  shows "\<exists>s. portfolio_summary fr orr org currency [] L = Inr s
    \<and> pf_opportunity_count s = length (selected_rows org [] (upper currency) L)
    \<and> pf_status_counts s = map (\<lambda>st. (status_value st, length (filter (\<lambda>r. op_status r = st) (selected_rows org [] (upper currency) L)))) all_statuses
    \<and> pf_baseline_usd s = cents_to_money (\<Sum>r\<leftarrow>selected_rows org [] (upper currency) L. op_baseline_cents r)
    \<and> pf_forecast_value_usd s = cents_to_money (\<Sum>r\<leftarrow>selected_rows org [] (upper currency) L. op_forecast_cents r)
    \<and> pf_realized_value_usd s = cents_to_money (earned org (upper currency) Realized L)
    \<and> pf_validated_value_usd s = cents_to_money (earned org (upper currency) Validated_Value L)
    \<and> pf_total_cost_usd s = cents_to_money (spent org (upper currency) L)
    \<and> pf_net_validated_value_usd s = cents_to_money (earned org (upper currency) Validated_Value L - spent org (upper currency) L)
    \<and> pf_validated_roi_multiple s = (if spent org (upper currency) L = 0 then None
        else Some (round4 (rnd (of_int (earned org (upper currency) Validated_Value L) / of_int (spent org (upper currency) L)))))"
proof -
  let ?sel = "selected_rows org [] (upper currency) L"
  let ?ids = "op_id ` set ?sel"
  have ok: "ledger_ok L" using assms(1) by (rule ledger_reachable_ok)
  have sel: "filter (\<lambda>p. op_currency_code p = upper currency) (map row_to_opportunity (list_rows org [] None L)) = map row_to_opportunity ?sel"
    by (simp add: selected_rows_def filter_map comp_def)
  have bounds: "\<forall>r\<in>set ?sel. 0 \<le> op_baseline_cents r \<and> op_baseline_cents r \<le> 100 * 2 ^ 44"
    "\<forall>r\<in>set ?sel. 0 \<le> op_forecast_cents r \<and> op_forecast_cents r \<le> 100 * 2 ^ 44"
    using assms(5) ok by (auto simp: selected_rows_def list_rows_set ledger_ok_def amounts_ok_def)
  note sums = sum_cents_rows [OF assms(2) bounds(1), of orr] sum_cents_rows [OF assms(2) bounds(2), of orr]
  have "values_total org (upper currency) ?ids Validated_Value L \<le> (\<Sum>v\<leftarrow>ld_values L. vr_amount_cents v)"
    unfolding values_total_all [OF ok] using ok by (intro sum_list_mono) (auto simp: ledger_ok_def amounts_ok_def)
  then obtain m where m: "roi_multiple (values_total org (upper currency) ?ids Validated_Value L) (costs_total org (upper currency) [] ?ids L) = Inr m"
    using roi_multiple_defined values_total_nonneg [OF ok] costs_total_nonneg [OF ok] assms(6) by (meson order_trans)
  have tot: "values_total org (upper currency) ?ids st L = earned org (upper currency) st L" for st
    by (simp add: values_total_all [OF ok] earned_def)
  have counts: "length (filter (\<lambda>p. op_status p = st) (map row_to_opportunity ?sel)) = length (filter (\<lambda>r. op_status r = st) ?sel)" for st
    by (simp add: filter_map comp_def)
  have m': "m = (if spent org (upper currency) L = 0 then None
      else Some (round4 (rnd (of_int (earned org (upper currency) Validated_Value L) / of_int (spent org (upper currency) L)))))"
    using m by (auto simp: roi_multiple_def tot costs_total_all Let_def split: if_splits)
  show ?thesis
    unfolding portfolio_summary_def listed_all [OF assms(4)] select_currency_def sum.case Let_def
    using assms(3) sums m unfolding m' [symmetric] by (simp add: sel comp_def tot costs_total_all counts)
qed

theorem portfolio_summary_exact_witness:
  "\<exists>s. portfolio_summary exact_repr (\<lambda>_. []) ''acme'' ''USD'' [] demo_ledger = Inr s \<and> pf_opportunity_count s = 1
    \<and> pf_baseline_usd s = cents_to_money 1001 \<and> pf_realized_value_usd s = cents_to_money 1001 \<and> pf_validated_value_usd s = cents_to_money 0
    \<and> pf_total_cost_usd s = cents_to_money 0 \<and> pf_validated_roi_multiple s = None"
proof -
  have "list_rows ''acme'' [] None demo_ledger = [demo_opp_row In_Progress 3]" by (simp add: list_rows_def demo_ledger_def demo_opp_row_def)
  moreover from this have "selected_rows ''acme'' [] ''USD'' demo_ledger = [demo_opp_row In_Progress 3]"
    by (simp add: selected_rows_def demo_opp_row_def)
  moreover have "upper ''USD'' = ''USD''" by (simp add: text_eval)
  ultimately show ?thesis
    using portfolio_summary_exact [OF demo_reachable exact_repr_reads_back, of "''USD''" "''acme''" "\<lambda>_. []"]
    by (auto simp: demo_ledger_def demo_value_def demo_opp_row_def earned_def spent_def)
qed

text \<open>A cost booked against an opportunity in a currency other than the opportunity's is accepted and
  then ignored by every portfolio summary, whatever currency, agent or organization is selected.\<close>

theorem mismatched_cost_invisible:
  assumes "(ledger_step fr orr)\<^sup>*\<^sup>* (ledger_init, []) (L, F)"
    and "get_opportunity oid L = Inr p" and "oid \<noteq> []" and "op_currency_code p \<noteq> upper (strip cur)"
    and "record_cost fr orr uid now day org agent ct am cur ek rb oid inc nt L = (Inr rc, L')"
  shows "L' \<noteq> L \<and> portfolio_summary fr orr org' cur' agent' L' = portfolio_summary fr orr org' cur' agent' L"
proof -
  obtain c where c: "L' = L\<lparr>ld_costs := ld_costs L @ [c]\<rparr>" "cr_currency_code c = upper (strip cur)" "cr_opportunity_id c = Some oid"
    using assms(3,5) by (auto simp: record_cost_def cost_insert_def Let_def split: sum.splits if_splits option.splits)
  obtain r where r: "r \<in> set (ld_opportunities L)" "op_id r = oid" "op_currency_code r = op_currency_code p"
    using assms(2) by (auto simp: get_opportunity_def dest: find_Some_prop split: option.splits)
  have d: "distinct (map op_id (ld_opportunities L))" using ledger_reachable_ok [OF assms(1)] by (simp add: ledger_ok_def)
  have lists: "list_opportunities org' agent' None 100 0 L' = list_opportunities org' agent' None 100 0 L"
    by (simp add: list_opportunities_def list_rows_def c(1))
  have costs: "costs_total org' sel agent' (op_id ` set (filter (\<lambda>p. op_currency_code p = sel) listed)) L'
      = costs_total org' sel agent' (op_id ` set (filter (\<lambda>p. op_currency_code p = sel) listed)) L"
    if "list_opportunities org' agent' None 100 0 L = Inr listed" for sel listed
  proof -
    have "x \<in> row_to_opportunity ` set (ld_opportunities L)" if "x \<in> set listed" for x
      using that \<open>list_opportunities _ _ _ _ _ L = _\<close>
      by (auto simp: list_opportunities_def sql_limit_def list_rows_def dest!: in_set_takeD in_set_dropD)
    then have "op_currency_code x = op_currency_code p" if "x \<in> set listed" "op_id x = oid" for x
      using that r distinct_key_unique [OF d] by (fastforce simp: image_iff)
    then show ?thesis
      using c(2,3) assms(3,4) unfolding c(1) costs_total_def by auto
  qed
  have "L' \<noteq> L" using c(1) by (metis append_self_conv ledger.ext_inject ledger.surjective ledger.update_convs(3) not_Cons_self2)
  moreover have "portfolio_summary fr orr org' cur' agent' L' = portfolio_summary fr orr org' cur' agent' L"
  proof (cases "list_opportunities org' agent' None 100 0 L")
    case (Inr listed)
    have "values_total o' s i st L' = values_total o' s i st L" for o' s i st by (simp add: values_total_def c(1))
    then show ?thesis
      unfolding portfolio_summary_def lists Inr sum.case by (simp only: Let_def set_map costs [OF Inr])
  qed (simp add: portfolio_summary_def lists)
  ultimately show ?thesis by blast
qed

theorem mismatched_cost_invisible_witness:
  "\<exists>rc L'. record_cost exact_repr (\<lambda>_. []) ''c1'' ''t2'' ''d2'' ''acme'' ''bot'' ''model'' (PStr ''10.005'') ''EUR'' ''e2'' ''ann'' ''o1'' [] [] demo_ledger
      = (Inr rc, L') \<and> ld_costs L' \<noteq> []
    \<and> portfolio_summary exact_repr (\<lambda>_. []) ''acme'' ''EUR'' [] L' = portfolio_summary exact_repr (\<lambda>_. []) ''acme'' ''EUR'' [] demo_ledger"
proof -
  have get: "get_opportunity ''o1'' demo_ledger = Inr (row_to_opportunity (demo_opp_row In_Progress 3))"
    by (simp add: get_opportunity_def demo_ledger_def demo_opp_row_def)
  have "cost_check ''acme'' ''bot'' ''o1'' demo_ledger = Inr ()"
    by (simp add: cost_check_def get) (simp add: row_to_opportunity_def demo_opp_row_def)
  then obtain rc L' where rc: "record_cost exact_repr (\<lambda>_. []) ''c1'' ''t2'' ''d2'' ''acme'' ''bot'' ''model'' (PStr ''10.005'') ''EUR'' ''e2'' ''ann'' ''o1'' [] [] demo_ledger
      = (Inr rc, L')" and ne: "ld_costs L' \<noteq> []"
    by (simp add: record_cost_def demo_amount sqlite_int_def cost_insert_def cost_type_of_def enum_of_def text_eval Let_def)
      (simp add: demo_ledger_def demo_opp_row_def)
  have "op_currency_code (row_to_opportunity (demo_opp_row In_Progress 3)) \<noteq> upper (strip ''EUR'')"
    by (simp add: demo_opp_row_def text_eval)
  from mismatched_cost_invisible [OF demo_reachable get _ this rc] rc ne show ?thesis by blast
qed

end
