(* ===== verification/Approvals.thy ===== *)
theory Approvals
  imports Context Audit_Log
begin

text \<open>
  \<^verbatim>\<open>agent_roi/approvals/base.py\<close> and \<^verbatim>\<open>postgres.py\<close>: approval requests and the two repositories
  that keep them.  Clock readings and identifiers are arguments.  A JSON column is the value its
  text denotes.
\<close>

section \<open>Requests and records\<close>

datatype approval_status = Pending_Approval | Approved_Request | Denied | Expired | Cancelled

fun approval_status_value :: "approval_status \<Rightarrow> string" where
  "approval_status_value Pending_Approval = ''pending''"
| "approval_status_value Approved_Request = ''approved''"
| "approval_status_value Denied = ''denied''"
| "approval_status_value Expired = ''expired''"
| "approval_status_value Cancelled = ''cancelled''"

record approval_request =
  rq_request_id :: string
  rq_checkpoint_id :: string
  rq_action_digest :: string
  rq_organization_id :: string
  rq_environment :: string
  rq_agent_id :: string
  rq_correlation_id :: string
  rq_run_id :: string
  rq_tool_name :: string
  rq_tool_version :: string
  rq_risk :: string
  rq_estimated_cost_usd :: pyfloat
  rq_arguments_digest :: string
  rq_policy_digest :: string
  rq_created_at_epoch_ms :: int
  rq_expires_at_epoch_ms :: int
  rq_requested_by :: string
  rq_summary :: string
  rq_metadata :: json_object

definition from_checkpoint ::
    "string \<Rightarrow> checkpoint \<Rightarrow> org_id \<Rightarrow> env_name \<Rightarrow> agent_name \<Rightarrow> string \<Rightarrow> string \<Rightarrow> json_object \<Rightarrow> approval_request" where
  "from_checkpoint rid ck org environ agent requested_by summary metadata =
     \<lparr>rq_request_id = rid, rq_checkpoint_id = checkpoint_id ck, rq_action_digest = ck_action_digest ck,
      rq_organization_id = org, rq_environment = environ, rq_agent_id = agent,
      rq_correlation_id = ck_correlation_id ck, rq_run_id = ck_run_id ck, rq_tool_name = ck_tool_name ck,
      rq_tool_version = ck_tool_version ck, rq_risk = ck_risk ck, rq_estimated_cost_usd = ck_estimated_cost_usd ck,
      rq_arguments_digest = ck_arguments_digest ck, rq_policy_digest = ck_policy_digest ck,
      rq_created_at_epoch_ms = ck_created_at_epoch_ms ck, rq_expires_at_epoch_ms = ck_expires_at_epoch_ms ck,
      rq_requested_by = requested_by,
      rq_summary = (if summary = [] then ''Approve '' @ ck_tool_name ck @ '' execution'' else summary),
      rq_metadata = metadata\<rparr>"

text \<open>The dictionary of a request, by its JSON value; a float that is not finite is written as text.\<close>

definition request_to_dict :: "(pyfloat \<Rightarrow> string) \<Rightarrow> (pyval \<Rightarrow> string) \<Rightarrow> approval_request \<Rightarrow> json_object" where
  "request_to_dict fr orr q =
     [(''request_id'', JStr (rq_request_id q)), (''checkpoint_id'', JStr (rq_checkpoint_id q)),
      (''action_digest'', JStr (rq_action_digest q)), (''organization_id'', JStr (rq_organization_id q)),
      (''environment'', JStr (rq_environment q)), (''agent_id'', JStr (rq_agent_id q)),
      (''correlation_id'', JStr (rq_correlation_id q)), (''run_id'', JStr (rq_run_id q)),
      (''tool_name'', JStr (rq_tool_name q)), (''tool_version'', JStr (rq_tool_version q)), (''risk'', JStr (rq_risk q)),
      (''estimated_cost_usd'', to_jsonable fr orr (PFloat (rq_estimated_cost_usd q))),
      (''arguments_digest'', JStr (rq_arguments_digest q)), (''policy_digest'', JStr (rq_policy_digest q)),
      (''created_at_epoch_ms'', JInt (rq_created_at_epoch_ms q)), (''expires_at_epoch_ms'', JInt (rq_expires_at_epoch_ms q)),
      (''requested_by'', JStr (rq_requested_by q)), (''summary'', JStr (rq_summary q)), (''metadata'', JObj (rq_metadata q))]"

record approval_record =
  rc_request :: approval_request
  rc_status :: approval_status
  rc_external_id :: string
  rc_decided_by :: string
  rc_reason :: string
  rc_decided_at_epoch_ms :: int

section \<open>Reading requests back\<close>

definition jitem :: "string \<Rightarrow> json_object \<Rightarrow> exc + json" where
  "jitem k d = (case map_of d k of None \<Rightarrow> Inl (KeyError k) | Some v \<Rightarrow> Inr v)"

definition jget_or :: "json \<Rightarrow> string \<Rightarrow> json_object \<Rightarrow> json" where
  "jget_or dflt k d = (case map_of d k of None \<Rightarrow> dflt | Some v \<Rightarrow> v)"

definition jint_of :: "json \<Rightarrow> exc + int" where
  "jint_of j = (if int_overflows (Some j) then Inl (OverflowError ''cannot convert float infinity to integer'') else case json_int j of Some i \<Rightarrow> Inr i | None \<Rightarrow> Inl (ValueError ''invalid literal for int()''))"

definition jdict_of :: "json \<Rightarrow> exc + json_object" where
  "jdict_of j = (case json_dict j of Some d \<Rightarrow> Inr d | None \<Rightarrow> Inl (TypeError ''object is not iterable''))"

definition request_from_dict :: "(pyfloat \<Rightarrow> string) \<Rightarrow> (pyval \<Rightarrow> string) \<Rightarrow> json_object \<Rightarrow> exc + approval_request" where
  "request_from_dict fr orr d =
     (let s = (\<lambda>k. jstr fr orr (jget_or (JStr []) k d)) in
      ebind (jitem ''request_id'' d) (\<lambda>rid. ebind (jitem ''checkpoint_id'' d) (\<lambda>cid.
      ebind (jitem ''action_digest'' d) (\<lambda>dig. ebind (jitem ''tool_name'' d) (\<lambda>tool.
      ebind (py_float (py_of_json (jget_or (JFloat (Fin 0)) ''estimated_cost_usd'' d))) (\<lambda>cost.
      ebind (ebind (jitem ''created_at_epoch_ms'' d) jint_of) (\<lambda>created.
      ebind (ebind (jitem ''expires_at_epoch_ms'' d) jint_of) (\<lambda>expires.
      ebind (jdict_of (jget_or (JObj []) ''metadata'' d)) (\<lambda>metadata.
      Inr \<lparr>rq_request_id = jstr fr orr rid, rq_checkpoint_id = jstr fr orr cid, rq_action_digest = jstr fr orr dig,
        rq_organization_id = s ''organization_id'', rq_environment = s ''environment'', rq_agent_id = s ''agent_id'',
        rq_correlation_id = s ''correlation_id'', rq_run_id = s ''run_id'', rq_tool_name = jstr fr orr tool,
        rq_tool_version = s ''tool_version'', rq_risk = jstr fr orr (jget_or (JStr ''unknown'') ''risk'' d),
        rq_estimated_cost_usd = cost, rq_arguments_digest = s ''arguments_digest'', rq_policy_digest = s ''policy_digest'',
        rq_created_at_epoch_ms = created, rq_expires_at_epoch_ms = expires, rq_requested_by = s ''requested_by'',
        rq_summary = s ''summary'', rq_metadata = metadata\<rparr>)))))))))"

section \<open>The SQLite repository\<close>

record approval_row =
  aw_checkpoint_id :: string
  aw_action_digest :: string
  aw_request_json :: json
  aw_status :: approval_status
  aw_external_id :: string
  aw_decided_by :: string
  aw_reason :: string
  aw_decided_at_epoch_ms :: int

record grant_row =
  gw_action_digest :: string
  gw_grant_json :: json
  gw_updated_at_epoch_ms :: int

record approval_db =
  adb_records :: "approval_row list"
  adb_grants :: "grant_row list"

text \<open>\<^verbatim>\<open>INSERT ... ON CONFLICT DO UPDATE\<close>.\<close>

definition upsert :: "('r \<Rightarrow> 'k) \<Rightarrow> ('r \<Rightarrow> 'r \<Rightarrow> 'r) \<Rightarrow> 'r \<Rightarrow> 'r list \<Rightarrow> 'r list" where
  "upsert key merge row t = (if list_ex (\<lambda>r. key r = key row) t
     then sql_update (\<lambda>r. key r = key row) (\<lambda>r. merge r row) t else t @ [row])"

definition stored_request :: "(pyfloat \<Rightarrow> string) \<Rightarrow> (pyval \<Rightarrow> string) \<Rightarrow> approval_request \<Rightarrow> json" where
  "stored_request fr orr q = sort_keys (JObj (request_to_dict fr orr q))"

definition sqlite_save_record ::
    "(pyfloat \<Rightarrow> string) \<Rightarrow> (pyval \<Rightarrow> string) \<Rightarrow> approval_record \<Rightarrow> approval_db \<Rightarrow> (exc + unit) \<times> approval_db" where
  "sqlite_save_record fr orr r db =
     (let q = rc_request r in (Inr (), db\<lparr>adb_records := upsert aw_checkpoint_id
        (\<lambda>old new. old\<lparr>aw_status := aw_status new, aw_external_id := aw_external_id new, aw_decided_by := aw_decided_by new,
           aw_reason := aw_reason new, aw_decided_at_epoch_ms := aw_decided_at_epoch_ms new\<rparr>)
        \<lparr>aw_checkpoint_id = rq_checkpoint_id q, aw_action_digest = rq_action_digest q, aw_request_json = stored_request fr orr q,
         aw_status = rc_status r, aw_external_id = rc_external_id r, aw_decided_by = rc_decided_by r, aw_reason = rc_reason r,
         aw_decided_at_epoch_ms = rc_decided_at_epoch_ms r\<rparr> (adb_records db)\<rparr>))"

definition request_of_json :: "(pyfloat \<Rightarrow> string) \<Rightarrow> (pyval \<Rightarrow> string) \<Rightarrow> json \<Rightarrow> exc + approval_request" where
  "request_of_json fr orr j = (case j of JObj d \<Rightarrow> request_from_dict fr orr d
     | _ \<Rightarrow> Inl (TypeError ''indices must be integers or slices''))"

definition sqlite_get_record ::
    "(pyfloat \<Rightarrow> string) \<Rightarrow> (pyval \<Rightarrow> string) \<Rightarrow> string \<Rightarrow> approval_db \<Rightarrow> exc + approval_record" where
  "sqlite_get_record fr orr cid db =
     (case find (\<lambda>r. aw_checkpoint_id r = cid) (adb_records db) of None \<Rightarrow> Inl (KeyError cid)
      | Some row \<Rightarrow> ebind (request_of_json fr orr (aw_request_json row)) (\<lambda>q.
          Inr \<lparr>rc_request = q, rc_status = aw_status row, rc_external_id = aw_external_id row, rc_decided_by = aw_decided_by row,
            rc_reason = aw_reason row, rc_decided_at_epoch_ms = aw_decided_at_epoch_ms row\<rparr>))"

definition sqlite_pending ::
    "(pyfloat \<Rightarrow> string) \<Rightarrow> (pyval \<Rightarrow> string) \<Rightarrow> approval_db \<Rightarrow> exc + approval_record list" where
  "sqlite_pending fr orr db = collect (\<lambda>cid. sqlite_get_record fr orr cid db)
     (map aw_checkpoint_id (filter (\<lambda>r. aw_status r = Pending_Approval) (adb_records db)))"

definition grant_json :: "approval_grant \<Rightarrow> json_object" where
  "grant_json g = [(''action_digest'', JStr (ag_action_digest g)), (''approved_by'', JStr (ag_approved_by g)),
     (''expires_at_epoch_ms'', JInt (ag_expires_at_epoch_ms g)),
     (''checkpoint_id'', case ag_checkpoint_id g of None \<Rightarrow> JNull | Some i \<Rightarrow> JStr i), (''reason'', JStr (ag_reason g))]"

definition sqlite_save_grant :: "int \<Rightarrow> approval_grant \<Rightarrow> approval_db \<Rightarrow> (exc + unit) \<times> approval_db" where
  "sqlite_save_grant now g db = (Inr (), db\<lparr>adb_grants := upsert gw_action_digest
     (\<lambda>old new. old\<lparr>gw_grant_json := gw_grant_json new, gw_updated_at_epoch_ms := gw_updated_at_epoch_ms new\<rparr>)
     \<lparr>gw_action_digest = ag_action_digest g, gw_grant_json = sort_keys (JObj (grant_json g)), gw_updated_at_epoch_ms = now\<rparr>
     (adb_grants db)\<rparr>)"

text \<open>The constructor of the grant checks what the JSON holds.\<close>

definition grant_of_json :: "json \<Rightarrow> exc + approval_grant" where
  "grant_of_json j =
     (case j of
        JObj d \<Rightarrow> ebind (jitem ''action_digest'' d) (\<lambda>dig. ebind (jitem ''approved_by'' d) (\<lambda>who.
          ebind (ebind (jitem ''expires_at_epoch_ms'' d) jint_of) (\<lambda>expires.
          case dig of JStr ds \<Rightarrow>
            (case who of JStr ws \<Rightarrow>
               approval_grant_init \<lparr>ag_action_digest = ds, ag_approved_by = ws, ag_expires_at_epoch_ms = expires,
                 ag_checkpoint_id = (case jget ''checkpoint_id'' d of JStr i \<Rightarrow> Some i | _ \<Rightarrow> None),
                 ag_reason = (case jget ''reason'' d of JStr r \<Rightarrow> r | _ \<Rightarrow> [])\<rparr>
             | _ \<Rightarrow> Inl (ValueError ''approved_by must be a non-empty string''))
          | _ \<Rightarrow> Inl (ValueError ''action_digest must be a SHA-256 hex digest''))))
      | _ \<Rightarrow> Inl (TypeError ''indices must be integers or slices''))"

definition sqlite_get_grant :: "string \<Rightarrow> approval_db \<Rightarrow> exc + approval_grant" where
  "sqlite_get_grant digest db = (case find (\<lambda>r. gw_action_digest r = digest) (adb_grants db) of
     None \<Rightarrow> Inl (KeyError digest) | Some row \<Rightarrow> grant_of_json (gw_grant_json row))"

section \<open>The PostgreSQL repository\<close>

text \<open>The tables have one row per key; \<^verbatim>\<open>CURRENT_TIMESTAMP\<close> is the argument \<open>now_ts\<close>.\<close>

record pg_approval_row = approval_row +
  pa_organization_id :: string
  pa_environment :: string
  pa_agent_id :: string
  pa_updated_at_utc :: int
  pa_revision :: int

record pg_grant_row =
  pg_action_digest :: string
  pg_checkpoint_id :: string
  pg_approved_by :: string
  pg_expires_at_epoch_ms :: int
  pg_reason :: string
  pg_consumed_at_utc :: "int option"
  pg_revision :: int

record pg_approval_db =
  pdb_records :: "pg_approval_row list"
  pdb_grants :: "pg_grant_row list"

text \<open>\<^verbatim>\<open>RETURNING revision\<close>: the revision of the row after the statement.\<close>

definition record_revision :: "string \<Rightarrow> pg_approval_row list \<Rightarrow> exc + int" where
  "record_revision cid t = (case find (\<lambda>r. aw_checkpoint_id r = cid) t of
     Some r \<Rightarrow> Inr (pa_revision r) | None \<Rightarrow> Inl (ValueError ''Approval record revision conflict''))"

definition pg_settle :: "int \<Rightarrow> approval_record \<Rightarrow> pg_approval_row \<Rightarrow> pg_approval_row" where
  "pg_settle now_ts r row = row\<lparr>aw_status := rc_status r, aw_external_id := rc_external_id r, aw_decided_by := rc_decided_by r,
     aw_reason := rc_reason r, aw_decided_at_epoch_ms := rc_decided_at_epoch_ms r, pa_updated_at_utc := now_ts,
     pa_revision := pa_revision row + 1\<rparr>"

definition pg_save_record ::
    "(pyfloat \<Rightarrow> string) \<Rightarrow> (pyval \<Rightarrow> string) \<Rightarrow> int \<Rightarrow> approval_record \<Rightarrow> int option \<Rightarrow> pg_approval_db
     \<Rightarrow> (exc + int) \<times> pg_approval_db" where
  "pg_save_record fr orr now_ts r expected db =
     (let q = rc_request r; cid = rq_checkpoint_id q in
      case expected of
        None \<Rightarrow>
          (let t = upsert aw_checkpoint_id (\<lambda>old new. pg_settle now_ts r old)
             \<lparr>aw_checkpoint_id = cid, aw_action_digest = rq_action_digest q, aw_request_json = stored_request fr orr q,
              aw_status = rc_status r, aw_external_id = rc_external_id r, aw_decided_by = rc_decided_by r, aw_reason = rc_reason r,
              aw_decided_at_epoch_ms = rc_decided_at_epoch_ms r, pa_organization_id = rq_organization_id q,
              pa_environment = rq_environment q, pa_agent_id = rq_agent_id q, pa_updated_at_utc = now_ts, pa_revision = 1\<rparr>
             (pdb_records db)
           in (record_revision cid t, db\<lparr>pdb_records := t\<rparr>))
      | Some n \<Rightarrow>
          (let hit = (\<lambda>row. aw_checkpoint_id row = cid \<and> pa_revision row = n) in
           if \<not> list_ex hit (pdb_records db) then (Inl (ValueError ''Approval record revision conflict''), db)
           else let t = sql_update hit (pg_settle now_ts r) (pdb_records db) in (record_revision cid t, db\<lparr>pdb_records := t\<rparr>)))"

definition pg_get_record ::
    "(pyfloat \<Rightarrow> string) \<Rightarrow> (pyval \<Rightarrow> string) \<Rightarrow> string \<Rightarrow> pg_approval_db \<Rightarrow> exc + approval_record" where
  "pg_get_record fr orr cid db =
     (case find (\<lambda>r. aw_checkpoint_id r = cid) (pdb_records db) of None \<Rightarrow> Inl (KeyError cid)
      | Some row \<Rightarrow> ebind (request_of_json fr orr (aw_request_json row)) (\<lambda>q.
          Inr \<lparr>rc_request = q, rc_status = aw_status row, rc_external_id = aw_external_id row, rc_decided_by = aw_decided_by row,
            rc_reason = aw_reason row, rc_decided_at_epoch_ms = aw_decided_at_epoch_ms row\<rparr>))"

definition pg_pending ::
    "(pyfloat \<Rightarrow> string) \<Rightarrow> (pyval \<Rightarrow> string) \<Rightarrow> org_id \<Rightarrow> env_name \<Rightarrow> int \<Rightarrow> int \<Rightarrow> pg_approval_db \<Rightarrow> exc + approval_record list" where
  "pg_pending fr orr org environ limit offset db =
     collect (\<lambda>cid. pg_get_record fr orr cid db) (map aw_checkpoint_id
       (sql_limit (max 1 (min limit 500)) (max 0 offset) (sort_key pa_updated_at_utc
         (filter (\<lambda>r. aw_status r = Pending_Approval \<and> (org \<noteq> [] \<longrightarrow> pa_organization_id r = org)
            \<and> (environ \<noteq> [] \<longrightarrow> pa_environment r = environ)) (pdb_records db)))))"

definition grant_revision :: "string \<Rightarrow> pg_grant_row list \<Rightarrow> exc + int" where
  "grant_revision d t = (case find (\<lambda>r. pg_action_digest r = d) t of
     Some r \<Rightarrow> Inr (pg_revision r) | None \<Rightarrow> Inl (ValueError ''Approval grant revision conflict''))"

definition pg_renew :: "approval_grant \<Rightarrow> pg_grant_row \<Rightarrow> pg_grant_row" where
  "pg_renew g row = row\<lparr>pg_checkpoint_id := (case ag_checkpoint_id g of None \<Rightarrow> [] | Some i \<Rightarrow> i), pg_approved_by := ag_approved_by g,
     pg_expires_at_epoch_ms := ag_expires_at_epoch_ms g, pg_reason := ag_reason g, pg_consumed_at_utc := None,
     pg_revision := pg_revision row + 1\<rparr>"

definition pg_save_grant ::
    "approval_grant \<Rightarrow> int option \<Rightarrow> pg_approval_db \<Rightarrow> (exc + int) \<times> pg_approval_db" where
  "pg_save_grant g expected db =
     (let d = ag_action_digest g in
      case expected of
        None \<Rightarrow>
          (let t = upsert pg_action_digest (\<lambda>old new. pg_renew g old)
             \<lparr>pg_action_digest = d, pg_checkpoint_id = (case ag_checkpoint_id g of None \<Rightarrow> [] | Some i \<Rightarrow> i),
              pg_approved_by = ag_approved_by g, pg_expires_at_epoch_ms = ag_expires_at_epoch_ms g, pg_reason = ag_reason g,
              pg_consumed_at_utc = None, pg_revision = 1\<rparr> (pdb_grants db)
           in (grant_revision d t, db\<lparr>pdb_grants := t\<rparr>))
      | Some n \<Rightarrow>
          (let hit = (\<lambda>row. pg_action_digest row = d \<and> pg_revision row = n) in
           if \<not> list_ex hit (pdb_grants db) then (Inl (ValueError ''Approval grant revision conflict''), db)
           else let t = sql_update hit (pg_renew g) (pdb_grants db) in (grant_revision d t, db\<lparr>pdb_grants := t\<rparr>)))"

definition grant_of_row :: "pg_grant_row \<Rightarrow> exc + approval_grant" where
  "grant_of_row row = approval_grant_init \<lparr>ag_action_digest = pg_action_digest row, ag_approved_by = pg_approved_by row,
     ag_expires_at_epoch_ms = pg_expires_at_epoch_ms row,
     ag_checkpoint_id = (if pg_checkpoint_id row = [] then None else Some (pg_checkpoint_id row)), ag_reason = pg_reason row\<rparr>"

definition pg_get_grant :: "int \<Rightarrow> string \<Rightarrow> pg_approval_db \<Rightarrow> exc + approval_grant" where
  "pg_get_grant now_ms d db =
     (case find (\<lambda>r. pg_action_digest r = d \<and> pg_consumed_at_utc r = None) (pdb_grants db) of None \<Rightarrow> Inl (KeyError d)
      | Some row \<Rightarrow> if pg_expires_at_epoch_ms row < now_ms then Inl (KeyError d) else grant_of_row row)"

definition pg_consume_grant :: "int \<Rightarrow> int \<Rightarrow> string \<Rightarrow> pg_approval_db \<Rightarrow> (exc + approval_grant) \<times> pg_approval_db" where
  "pg_consume_grant now_ts now_ms d db =
     (let hit = (\<lambda>r. pg_action_digest r = d \<and> pg_consumed_at_utc r = None \<and> now_ms \<le> pg_expires_at_epoch_ms r) in
      case find hit (pdb_grants db) of None \<Rightarrow> (Inl (KeyError d), db)
      | Some row \<Rightarrow> (grant_of_row row, db\<lparr>pdb_grants := sql_update hit
          (\<lambda>r. r\<lparr>pg_consumed_at_utc := Some now_ts, pg_revision := pg_revision r + 1\<rparr>) (pdb_grants db)\<rparr>))"

end
