(* ===== verification/Broker.thy ===== *)
theory Broker
  imports Approvals
begin

text \<open>
  The \<^verbatim>\<open>ApprovalBroker\<close> of \<^verbatim>\<open>agent_roi/approvals/base.py\<close>, which stands behind the approval callback of a
  run.  The provider that notifies humans and the authorizer are parameters; the repository, where
  one is configured, is the record of its operations, so that the broker runs on either of the two.
  The broker's own dictionaries are part of its state; the repository's tables and the outside
  world are shared with other brokers.
\<close>

section \<open>State\<close>

record 't repository =
  rp_save_record :: "approval_record \<Rightarrow> 't \<Rightarrow> (exc + unit) \<times> 't"
  rp_get_record :: "string \<Rightarrow> 't \<Rightarrow> exc + approval_record"
  rp_pending :: "'t \<Rightarrow> exc + approval_record list"
  rp_save_grant :: "int \<Rightarrow> approval_grant \<Rightarrow> 't \<Rightarrow> (exc + unit) \<times> 't"
  rp_get_grant :: "int \<Rightarrow> string \<Rightarrow> 't \<Rightarrow> exc + approval_grant"

text \<open>The authorizer's \<^verbatim>\<open>require\<close>, by subject, action, resource and environment.\<close>

record ('w, 't) broker =
  bc_submit :: "approval_request \<Rightarrow> 'w \<Rightarrow> (exc + string) \<times> 'w"
  bc_update :: "approval_record \<Rightarrow> 'w \<Rightarrow> (exc + unit) \<times> 'w"
  bc_organization_id :: string
  bc_environment :: string
  bc_agent_id :: string
  bc_requested_by :: string
  bc_authorizer :: "(string \<Rightarrow> string \<Rightarrow> string \<Rightarrow> string \<Rightarrow> exc + unit) option"
  bc_repository :: "'t repository option"

record broker_local =
  bk_records :: "(string \<times> approval_record) list"
  bk_grants :: "string \<rightharpoonup> approval_grant"
  bk_approved_actions :: "string \<rightharpoonup> approval_grant"

record ('w, 't) broker_state = broker_local +
  bk_repo :: 't
  bk_world :: 'w

definition on_repo :: "('t \<Rightarrow> (exc + 'a) \<times> 't) \<Rightarrow> ('a, ('w, 't) broker_state) eff" where
  "on_repo f s = (case f (bk_repo s) of (r, t) \<Rightarrow> (r, s\<lparr>bk_repo := t\<rparr>))"

definition on_world :: "('w \<Rightarrow> (exc + 'a) \<times> 'w) \<Rightarrow> ('a, ('w, 't) broker_state) eff" where
  "on_world f s = (case f (bk_world s) of (r, w) \<Rightarrow> (r, s\<lparr>bk_world := w\<rparr>))"

definition put_record :: "string \<Rightarrow> approval_record \<Rightarrow> ('w, 't) broker_state \<Rightarrow> ('w, 't) broker_state" where
  "put_record cid r s = s\<lparr>bk_records := AList.update cid r (bk_records s)\<rparr>"

text \<open>Saving a record or a grant where a repository is configured.\<close>

definition save_record :: "('w, 't) broker \<Rightarrow> approval_record \<Rightarrow> (unit, ('w, 't) broker_state) eff" where
  "save_record b r = (case bc_repository b of None \<Rightarrow> ret () | Some rp \<Rightarrow> on_repo (rp_save_record rp r))"

definition save_grant :: "('w, 't) broker \<Rightarrow> int \<Rightarrow> approval_grant \<Rightarrow> (unit, ('w, 't) broker_state) eff" where
  "save_grant b now g = (case bc_repository b of None \<Rightarrow> ret () | Some rp \<Rightarrow> on_repo (rp_save_grant rp now g))"

definition is_KeyError :: "exc \<Rightarrow> bool" where
  "is_KeyError e \<longleftrightarrow> exc_isinstance e [''KeyError'']"

section \<open>The callback\<close>

text \<open>The record of a checkpoint, loaded from the repository when the broker does not have it.\<close>

definition load_record :: "('w, 't) broker \<Rightarrow> string \<Rightarrow> (unit, ('w, 't) broker_state) eff" where
  "load_record b cid s =
     (case (map_of (bk_records s) cid, bc_repository b) of
        (None, Some rp) \<Rightarrow> (case rp_get_record rp cid (bk_repo s) of
            Inr r \<Rightarrow> (Inr (), put_record cid r s)
          | Inl e \<Rightarrow> if is_KeyError e then (Inr (), s) else (Inl e, s))
      | _ \<Rightarrow> (Inr (), s))"

definition request_metadata :: "pyval list \<Rightarrow> payload \<Rightarrow> json_object" where
  "request_metadata args kwargs = [(''argument_count'', JInt (int (length args))),
     (''keyword_names'', JList (map JStr (sort (map fst kwargs))))]"

definition submit_request ::
    "('w, 't) broker \<Rightarrow> string \<Rightarrow> tool_spec \<Rightarrow> pyval list \<Rightarrow> payload \<Rightarrow> checkpoint \<Rightarrow> (approval_response, ('w, 't) broker_state) eff" where
  "submit_request b rid spec args kwargs ck =
     bnd (load_record b (checkpoint_id ck)) (\<lambda>_ s.
       if map_of (bk_records s) (checkpoint_id ck) \<noteq> None then (Inr (Answer False), s)
       else let request = from_checkpoint rid ck (bc_organization_id b) (bc_environment b) (bc_agent_id b) (bc_requested_by b)
                  (''Approve '' @ ts_name spec @ '' ('' @ ts_risk spec @ '' risk)'') (request_metadata args kwargs) in
         bnd (on_world (bc_submit b request)) (\<lambda>external_id s.
           let record = \<lparr>rc_request = request, rc_status = Pending_Approval, rc_external_id = external_id, rc_decided_by = [],
                 rc_reason = [], rc_decided_at_epoch_ms = 0\<rparr> in
           bnd (save_record b record) (\<lambda>_. ret (Answer False)) (put_record (checkpoint_id ck) record s)) s)"

text \<open>The grant an earlier decision left for the same action.\<close>

definition approved_action :: "('w, 't) broker \<Rightarrow> int \<Rightarrow> string \<Rightarrow> ('w, 't) broker_state \<Rightarrow> exc + approval_grant option" where
  "approved_action b now digest s =
     (case bk_approved_actions s digest of Some g \<Rightarrow> Inr (Some g)
      | None \<Rightarrow> (case bc_repository b of None \<Rightarrow> Inr None
          | Some rp \<Rightarrow> (case rp_get_grant rp now digest (bk_repo s) of Inr g \<Rightarrow> Inr (Some g)
              | Inl e \<Rightarrow> if is_KeyError e then Inr None else Inl e)))"

definition replay_or_submit ::
    "('w, 't) broker \<Rightarrow> string \<Rightarrow> int \<Rightarrow> int \<Rightarrow> tool_spec \<Rightarrow> pyval list \<Rightarrow> payload \<Rightarrow> checkpoint
     \<Rightarrow> (approval_response, ('w, 't) broker_state) eff" where
  "replay_or_submit b rid now1 now2 spec args kwargs ck s =
     (let digest = ck_action_digest ck; submit = submit_request b rid spec args kwargs ck in
      case approved_action b now1 digest s of Inl e \<Rightarrow> (Inl e, s)
      | Inr None \<Rightarrow> submit s
      | Inr (Some g) \<Rightarrow>
          if now2 \<le> ag_expires_at_epoch_ms g
          then (case approval_grant_init \<lparr>ag_action_digest = digest, ag_approved_by = ag_approved_by g,
                    ag_expires_at_epoch_ms = min (ag_expires_at_epoch_ms g) (ck_expires_at_epoch_ms ck),
                    ag_checkpoint_id = Some (checkpoint_id ck), ag_reason = ag_reason g\<rparr> of
                  Inl e \<Rightarrow> (Inl e, s)
                | Inr replay \<Rightarrow> (Inr (Granted replay), s\<lparr>bk_grants := (bk_grants s)(checkpoint_id ck \<mapsto> replay)\<rparr>))
          else submit (s\<lparr>bk_approved_actions := (bk_approved_actions s)(digest := None)\<rparr>))"

definition broker_call ::
    "('w, 't) broker \<Rightarrow> string \<Rightarrow> int \<Rightarrow> int \<Rightarrow> int \<Rightarrow> tool_spec \<Rightarrow> pyval list \<Rightarrow> payload \<Rightarrow> checkpoint
     \<Rightarrow> (approval_response, ('w, 't) broker_state) eff" where
  "broker_call b rid now0 now1 now2 spec args kwargs ck s =
     (case bk_grants s (checkpoint_id ck) of
        Some g \<Rightarrow> (case approval_grant_validate now0 g ck of
            Inr _ \<Rightarrow> (Inr (Granted g), s)
          | Inl _ \<Rightarrow> replay_or_submit b rid now1 now2 spec args kwargs ck (s\<lparr>bk_grants := (bk_grants s)(checkpoint_id ck := None)\<rparr>))
      | None \<Rightarrow> replay_or_submit b rid now1 now2 spec args kwargs ck s)"

section \<open>Deciding\<close>

definition current_record :: "('w, 't) broker \<Rightarrow> string \<Rightarrow> (approval_record, ('w, 't) broker_state) eff" where
  "current_record b cid s =
     (case map_of (bk_records s) cid of Some r \<Rightarrow> (Inr r, s)
      | None \<Rightarrow> (case bc_repository b of
          None \<Rightarrow> (Inl (KeyError (''Approval checkpoint not found: '' @ cid)), s)
        | Some rp \<Rightarrow> (case rp_get_record rp cid (bk_repo s) of
            Inr r \<Rightarrow> (Inr r, put_record cid r s)
          | Inl e \<Rightarrow> (Inl (if is_KeyError e then KeyError (''Approval checkpoint not found: '' @ cid) else e), s))))"

definition expire_record :: "('w, 't) broker \<Rightarrow> int \<Rightarrow> string \<Rightarrow> approval_record \<Rightarrow> (approval_record, ('w, 't) broker_state) eff" where
  "expire_record b now_ms cid current s =
     (let expired = \<lparr>rc_request = rc_request current, rc_status = Expired, rc_external_id = rc_external_id current,
            rc_decided_by = [], rc_reason = [], rc_decided_at_epoch_ms = now_ms\<rparr> in
      bnd (save_record b expired) (\<lambda>_. bnd (on_world (bc_update b expired)) (\<lambda>_.
        raise (ValueError ''Approval request has expired''))) (put_record cid expired s))"

text \<open>Issuing the grant of an approval; the constructor strips and checks.\<close>

definition issue_grant ::
    "('w, 't) broker \<Rightarrow> int \<Rightarrow> int option \<Rightarrow> string \<Rightarrow> approval_request \<Rightarrow> string \<Rightarrow> string \<Rightarrow> (unit, ('w, 't) broker_state) eff" where
  "issue_grant b now_ms ttl cid q decided_by reason s =
     (let ttl_s = (case ttl of None \<Rightarrow> 900 | Some n \<Rightarrow> if n = 0 then 900 else n);
          expiry = min (now_ms + ttl_s * 1000) (rq_expires_at_epoch_ms q) in
      case approval_grant_init \<lparr>ag_action_digest = rq_action_digest q, ag_approved_by = decided_by, ag_expires_at_epoch_ms = expiry,
             ag_checkpoint_id = Some cid, ag_reason = reason\<rparr> of
        Inl e \<Rightarrow> (Inl e, s)
      | Inr grant \<Rightarrow> save_grant b now_ms grant (s\<lparr>bk_grants := (bk_grants s)(cid \<mapsto> grant),
            bk_approved_actions := (bk_approved_actions s)(rq_action_digest q \<mapsto> grant)\<rparr>))"

definition decide_request ::
    "('w, 't) broker \<Rightarrow> int \<Rightarrow> string \<Rightarrow> bool \<Rightarrow> string \<Rightarrow> string \<Rightarrow> int option \<Rightarrow> (approval_record, ('w, 't) broker_state) eff" where
  "decide_request b now_ms cid approved subject reason ttl =
     bnd (current_record b cid) (\<lambda>current.
       if rc_status current \<noteq> Pending_Approval then raise (ValueError ''Approval request has already been decided'')
       else if now_ms > rq_expires_at_epoch_ms (rc_request current) then expire_record b now_ms cid current
       else bnd (lift (case bc_authorizer b of None \<Rightarrow> Inr ()
           | Some require \<Rightarrow> require subject ''approval.decide'' (rq_tool_name (rc_request current)) (rq_environment (rc_request current)))) (\<lambda>_.
         let decided_by = strip subject; q = rc_request current in
         if decided_by = [] then raise (ValueError ''Approver identity is required'')
         else if rq_requested_by q \<noteq> [] \<and> decided_by = rq_requested_by q
           then raise (PermissionError ''Requesters cannot approve their own actions'')
         else (\<lambda>s. let record = \<lparr>rc_request = q, rc_status = (if approved then Approved_Request else Denied),
                   rc_external_id = rc_external_id current, rc_decided_by = decided_by, rc_reason = reason, rc_decided_at_epoch_ms = now_ms\<rparr> in
             bnd (save_record b record) (\<lambda>_. bnd (if approved then issue_grant b now_ms ttl cid q decided_by reason else ret ()) (\<lambda>_.
               bnd (on_world (bc_update b record)) (\<lambda>_. ret record))) (put_record cid record s))))"

definition broker_record :: "('w, 't) broker \<Rightarrow> string \<Rightarrow> ('w, 't) broker_state \<Rightarrow> exc + approval_record" where
  "broker_record b cid s = (case map_of (bk_records s) cid of Some r \<Rightarrow> Inr r
     | None \<Rightarrow> (case bc_repository b of None \<Rightarrow> Inl (KeyError cid) | Some rp \<Rightarrow> rp_get_record rp cid (bk_repo s)))"

definition broker_pending :: "('w, 't) broker \<Rightarrow> ('w, 't) broker_state \<Rightarrow> exc + approval_record list" where
  "broker_pending b s = (case bc_repository b of Some rp \<Rightarrow> rp_pending rp (bk_repo s)
     | None \<Rightarrow> Inr (filter (\<lambda>r. rc_status r = Pending_Approval) (map snd (bk_records s))))"

end
