(* ===== verification/Broker_Laws.thy ===== *)
theory Broker_Laws
  imports Broker
begin

text \<open>
  The contract of an approval repository (what is read was saved), its two implementations, and what
  a deployment of any number of brokers on one repository guarantees about the grants it hands out.
\<close>

section \<open>The contract\<close>

text \<open>What the decisions depend on in a request.\<close>

record request_core =
  co_checkpoint_id :: string
  co_action_digest :: string
  co_requested_by :: string
  co_expires_at_epoch_ms :: int

definition core :: "approval_request \<Rightarrow> request_core" where
  "core q = \<lparr>co_checkpoint_id = rq_checkpoint_id q, co_action_digest = rq_action_digest q, co_requested_by = rq_requested_by q,
     co_expires_at_epoch_ms = rq_expires_at_epoch_ms q\<rparr>"

definition wf_grant :: "approval_grant \<Rightarrow> bool" where
  "wf_grant g \<longleftrightarrow> approval_grant_init g = Inr g \<and> (\<exists>i. ag_checkpoint_id g = Some i)"

text \<open>A grant as far as authority goes: the action it is filed under, its approver, its end.\<close>

definition entry :: "string \<Rightarrow> approval_grant \<Rightarrow> string \<times> string \<times> int" where
  "entry d g = (d, ag_approved_by g, ag_expires_at_epoch_ms g)"

definition authority :: "approval_grant \<Rightarrow> string \<times> string \<times> int" where
  "authority g = entry (ag_action_digest g) g"

lemma set_alist_update: "set (AList.update k v d) \<subseteq> insert (k, v) (set d)"
  by (induction d) auto

text \<open>An operation that keeps a predicate, whether it returns or raises.\<close>

definition preserves :: "('s \<Rightarrow> bool) \<Rightarrow> ('a, 's) eff \<Rightarrow> bool" where
  "preserves P m \<longleftrightarrow> (\<forall>s. P s \<longrightarrow> P (snd (m s)))"

lemma preserves_basic [intro]: "preserves P (ret x)" "preserves P (raise e)" "preserves P (lift r)"
  by (simp_all add: preserves_def ret_def raise_def lift_def)

lemma preserves_bnd [intro]: "preserves P m \<Longrightarrow> (\<And>x. preserves P (f x)) \<Longrightarrow> preserves P (bnd m f)"
  by (auto simp: preserves_def bnd_def split: prod.splits sum.splits)

text \<open>The broker's authorizer, if it has one, lets \<open>subject\<close> decide about some tool and environment.\<close>

definition authorised :: "('w, 't) broker \<Rightarrow> string \<Rightarrow> bool" where
  "authorised b subject \<longleftrightarrow> (\<forall>require. bc_authorizer b = Some require
     \<longrightarrow> (\<exists>tool environ. require subject ''approval.decide'' tool environ = Inr ()))"

text \<open>The grants an approval by \<open>who\<close> may issue for the requests in \<open>Q\<close>.\<close>

definition may_issue :: "request_core set \<Rightarrow> string \<Rightarrow> (string \<times> string \<times> int) set" where
  "may_issue Q who = {(co_action_digest q, who, e) |q e. q \<in> Q \<and> who \<noteq> [] \<and> (co_requested_by q \<noteq> [] \<longrightarrow> who \<noteq> co_requested_by q)
     \<and> e \<le> co_expires_at_epoch_ms q}"

section \<open>Deployments\<close>

text \<open>Any number of brokers, each with its own dictionaries, on one repository.  The deployment also
  remembers what was asked for and which approvals were attempted; the code does not use that.\<close>

record ('w, 't) deployment =
  dp_local :: "nat \<Rightarrow> broker_local"
  dp_repo :: 't
  dp_world :: 'w
  dp_asked :: "request_core list"
  dp_approvals :: "(nat \<times> string) list"

definition fresh_local :: broker_local where
  "fresh_local = \<lparr>bk_records = [], bk_grants = Map.empty, bk_approved_actions = Map.empty\<rparr>"

definition enter :: "nat \<Rightarrow> ('w, 't) deployment \<Rightarrow> ('w, 't) broker_state" where
  "enter i D = \<lparr>bk_records = bk_records (dp_local D i), bk_grants = bk_grants (dp_local D i),
     bk_approved_actions = bk_approved_actions (dp_local D i), bk_repo = dp_repo D, bk_world = dp_world D\<rparr>"

definition leave :: "nat \<Rightarrow> ('w, 't) broker_state \<Rightarrow> ('w, 't) deployment \<Rightarrow> ('w, 't) deployment" where
  "leave i s D = D\<lparr>dp_local := (dp_local D)(i := \<lparr>bk_records = bk_records s, bk_grants = bk_grants s,
     bk_approved_actions = bk_approved_actions s\<rparr>), dp_repo := bk_repo s, dp_world := bk_world s\<rparr>"

definition asked_core :: "('w, 't) broker \<Rightarrow> checkpoint \<Rightarrow> request_core" where
  "asked_core b ck = \<lparr>co_checkpoint_id = checkpoint_id ck, co_action_digest = ck_action_digest ck, co_requested_by = bc_requested_by b,
     co_expires_at_epoch_ms = ck_expires_at_epoch_ms ck\<rparr>"

inductive dep_step :: "(nat \<Rightarrow> ('w, 't) broker) \<Rightarrow> ('w, 't) deployment \<Rightarrow> ('w, 't) deployment \<Rightarrow> bool" for cfg where
  call: "dep_step cfg D ((leave i (snd (broker_call (cfg i) rid now0 now1 now2 spec args kwargs ck (enter i D))) D)
    \<lparr>dp_asked := asked_core (cfg i) ck # dp_asked D\<rparr>)"
| decide: "dep_step cfg D ((leave i (snd (decide_request (cfg i) now_ms cid approved subject reason ttl (enter i D))) D)
    \<lparr>dp_approvals := (if approved then (i, subject) # dp_approvals D else dp_approvals D)\<rparr>)"
| restart: "dep_step cfg D (D\<lparr>dp_local := (dp_local D)(i := fresh_local)\<rparr>)"

definition dep_init :: "'t \<Rightarrow> 'w \<Rightarrow> ('w, 't) deployment" where
  "dep_init t w = \<lparr>dp_local = (\<lambda>_. fresh_local), dp_repo = t, dp_world = w, dp_asked = [], dp_approvals = []\<rparr>"

text \<open>The authorities the approvals so far account for.\<close>

definition accounted :: "(nat \<Rightarrow> ('w, 't) broker) \<Rightarrow> request_core list \<Rightarrow> (nat \<times> string) list \<Rightarrow> (string \<times> string \<times> int) set" where
  "accounted cfg asked approvals = (\<Union>(i, subject) \<in> {(i, subject) \<in> set approvals. authorised (cfg i) subject}. may_issue (set asked) (strip subject))"

lemma accounted_mono:
  "set asked \<subseteq> set asked' \<Longrightarrow> set approvals \<subseteq> set approvals' \<Longrightarrow> accounted cfg asked approvals \<subseteq> accounted cfg asked' approvals'"
  by (fastforce simp: accounted_def may_issue_def)

lemma enter_ghost [simp]:
  "enter j (D\<lparr>dp_asked := x\<rparr>) = enter j D" "enter j (D\<lparr>dp_approvals := y\<rparr>) = enter j D"
  "dp_asked (leave i s D) = dp_asked D" "dp_approvals (leave i s D) = dp_approvals D"
  by (simp_all add: enter_def leave_def)

locale approval_repository =
  fixes rp :: "'t repository"
    and requests_of :: "'t \<Rightarrow> request_core set"
    and grants_of :: "'t \<Rightarrow> (string \<times> string \<times> int) set"
  assumes get_record_saved: "rp_get_record rp cid t = Inr r \<Longrightarrow> core (rc_request r) \<in> requests_of t"
    and get_grant_saved: "rp_get_grant rp now d t = Inr g \<Longrightarrow> entry d g \<in> grants_of t"
    and save_record_requests: "requests_of (snd (rp_save_record rp r t)) \<subseteq> insert (core (rc_request r)) (requests_of t)"
    and save_record_grants: "grants_of (snd (rp_save_record rp r t)) = grants_of t"
    and save_grant_requests: "requests_of (snd (rp_save_grant rp now g t)) = requests_of t"
    and save_grant_grants: "wf_grant g \<Longrightarrow> grants_of (snd (rp_save_grant rp now g t)) \<subseteq> insert (authority g) (grants_of t)"
begin

text \<open>What a broker has in its hands: requests of \<open>Q\<close>, grants of \<open>G\<close>.\<close>

definition holds_only :: "request_core set \<Rightarrow> (string \<times> string \<times> int) set \<Rightarrow> ('w, 't) broker_state \<Rightarrow> bool" where
  "holds_only Q G s \<longleftrightarrow> (\<forall>(c, r)\<in>set (bk_records s). core (rc_request r) \<in> Q)
     \<and> authority ` ran (bk_grants s) \<subseteq> G \<and> (\<forall>d g. bk_approved_actions s d = Some g \<longrightarrow> entry d g \<in> G)
     \<and> requests_of (bk_repo s) \<subseteq> Q \<and> grants_of (bk_repo s) \<subseteq> G"

text \<open>A set of authorities that contains every weaker one.\<close>

definition shrinking :: "(string \<times> string \<times> int) set \<Rightarrow> bool" where
  "shrinking G \<longleftrightarrow> (\<forall>d a e e'. (d, a, e) \<in> G \<longrightarrow> e' \<le> e \<longrightarrow> (d, strip a, e') \<in> G)"

lemma holds_put_record:
  assumes "holds_only Q G s" "core (rc_request r) \<in> Q" shows "holds_only Q G (put_record cid r s)"
  using assms set_alist_update [of cid r "bk_records s"] by (auto simp: holds_only_def put_record_def)

lemma holds_save_record:
  assumes "bc_repository b \<in> {None, Some rp}" "holds_only Q G s" "core (rc_request r) \<in> Q"
  shows "holds_only Q G (snd (save_record b r s))"
  using assms save_record_requests [of r "bk_repo s"] save_record_grants [of r "bk_repo s"]
  by (auto simp: holds_only_def save_record_def ret_def on_repo_def split: prod.splits)

lemma holds_save_grant:
  assumes "bc_repository b \<in> {None, Some rp}" "holds_only Q G s" "wf_grant g" "authority g \<in> G"
  shows "holds_only Q G (snd (save_grant b now g s))"
  using assms save_grant_requests [of now g "bk_repo s"] save_grant_grants [of g now "bk_repo s"]
  by (auto simp: holds_only_def save_grant_def ret_def on_repo_def split: prod.splits)

lemma holds_on_world: "holds_only Q G s \<Longrightarrow> holds_only Q G (snd (on_world f s))"
  by (auto simp: holds_only_def on_world_def split: prod.splits)

lemma preserves_save_record:
  "bc_repository b \<in> {None, Some rp} \<Longrightarrow> core (rc_request r) \<in> Q \<Longrightarrow> preserves (holds_only Q G) (save_record b r)"
  by (simp add: preserves_def holds_save_record)

lemma preserves_on_world: "preserves (holds_only Q G) (on_world f)"
  by (simp add: preserves_def holds_on_world)

lemma preserves_load_record:
  assumes "bc_repository b \<in> {None, Some rp}" shows "preserves (holds_only Q G) (load_record b cid)"
  using assms get_record_saved
  by (auto simp: preserves_def load_record_def split: option.splits sum.splits intro!: holds_put_record)
    (auto simp: holds_only_def)

lemma preserves_after_put:
  "core (rc_request r) \<in> Q \<Longrightarrow> preserves (holds_only Q G) m \<Longrightarrow> preserves (holds_only Q G) (\<lambda>s. m (put_record cid r s))"
  by (simp add: preserves_def holds_put_record)

lemma preserves_submit:
  assumes "bc_repository b \<in> {None, Some rp}"
    and "\<And>rid su md. core (from_checkpoint rid ck (bc_organization_id b) (bc_environment b) (bc_agent_id b) (bc_requested_by b) su md) \<in> Q"
  shows "preserves (holds_only Q G) (submit_request b rid spec args kwargs ck)"
proof -
  define q where "q = from_checkpoint rid ck (bc_organization_id b) (bc_environment b) (bc_agent_id b) (bc_requested_by b)
    (''Approve '' @ ts_name spec @ '' ('' @ ts_risk spec @ '' risk)'') (request_metadata args kwargs)"
  have q: "core q \<in> Q" unfolding q_def by (rule assms(2))
  define rec where "rec = (\<lambda>x. \<lparr>rc_request = q, rc_status = Pending_Approval, rc_external_id = x, rc_decided_by = [], rc_reason = [],
        rc_decided_at_epoch_ms = 0\<rparr>)"
  have "preserves (holds_only Q G) (\<lambda>s. bnd (save_record b (rec x)) (\<lambda>_. ret (Answer False)) (put_record (checkpoint_id ck) (rec x) s))" for x
    using q by (intro preserves_after_put preserves_bnd preserves_basic preserves_save_record assms(1)) (simp_all add: rec_def)
  then have "preserves (holds_only Q G) (bnd (on_world (bc_submit b q)) (\<lambda>x s.
      bnd (save_record b (rec x)) (\<lambda>_. ret (Answer False)) (put_record (checkpoint_id ck) (rec x) s)))"
    by (intro preserves_bnd preserves_on_world)
  then have "preserves (holds_only Q G) (\<lambda>s. if map_of (bk_records s) (checkpoint_id ck) \<noteq> None then (Inr (Answer False), s)
      else bnd (on_world (bc_submit b q)) (\<lambda>x s.
        bnd (save_record b (rec x)) (\<lambda>_. ret (Answer False)) (put_record (checkpoint_id ck) (rec x) s)) s)"
    by (simp add: preserves_def)
  then show ?thesis
    unfolding submit_request_def q_def [symmetric] rec_def Let_def by (intro preserves_bnd preserves_load_record assms(1))
qed

lemma submit_not_granted [simp]: "fst (submit_request b rid spec args kwargs ck s) \<noteq> Inr (Granted g)"
  by (auto simp: submit_request_def bnd_def Let_def ret_def split: prod.splits sum.splits if_splits)

lemma approved_action_held:
  assumes "bc_repository b \<in> {None, Some rp}" "holds_only Q G s" "approved_action b now d s = Inr (Some g)"
  shows "entry d g \<in> G"
  using assms get_grant_saved
  by (auto simp: approved_action_def holds_only_def split: option.splits sum.splits if_splits)

lemma holds_replay:
  assumes "bc_repository b \<in> {None, Some rp}" "holds_only Q G s" "shrinking G"
    and "\<And>rid su md. core (from_checkpoint rid ck (bc_organization_id b) (bc_environment b) (bc_agent_id b) (bc_requested_by b) su md) \<in> Q"
  shows "holds_only Q G (snd (replay_or_submit b rid now1 now2 spec args kwargs ck s))
    \<and> (\<forall>g. fst (replay_or_submit b rid now1 now2 spec args kwargs ck s) = Inr (Granted g) \<longrightarrow> authority g \<in> G \<and> ag_action_digest g = ck_action_digest ck)"
proof (cases "approved_action b now1 (ck_action_digest ck) s")
  case (Inl e)
  then show ?thesis using assms(2) by (simp add: replay_or_submit_def)
next
  case (Inr found)
  have sub: "holds_only Q G (snd (submit_request b rid spec args kwargs ck s'))" if "holds_only Q G s'" for s'
    using preserves_submit [OF assms(1,4)] that by (simp add: preserves_def)
  show ?thesis
  proof (cases found)
    case None
    then show ?thesis using Inr sub [OF assms(2)] by (simp add: replay_or_submit_def)
  next
    case (Some g)
    define d where "d = ck_action_digest ck"
    have held: "entry d g \<in> G" using approved_action_held [OF assms(1,2)] Inr Some by (simp add: d_def)
    let ?g = "\<lparr>ag_action_digest = d, ag_approved_by = ag_approved_by g,
      ag_expires_at_epoch_ms = min (ag_expires_at_epoch_ms g) (ck_expires_at_epoch_ms ck), ag_checkpoint_id = Some (checkpoint_id ck), ag_reason = ag_reason g\<rparr>"
    have auth: "authority r \<in> G" "ag_action_digest r = d" if "approval_grant_init ?g = Inr r" for r
      using that held assms(3) by (auto simp: approval_grant_init_def authority_def entry_def shrinking_def split: if_splits)
    have "holds_only Q G (s\<lparr>bk_approved_actions := (bk_approved_actions s)(d := None)\<rparr>)"
      using assms(2) by (auto simp: holds_only_def)
    from sub [OF this] have sub': "holds_only Q G (snd (submit_request b rid spec args kwargs ck
        (s\<lparr>bk_approved_actions := (bk_approved_actions s)(d := None)\<rparr>)))" .
    have new: "holds_only Q G (s\<lparr>bk_grants := (bk_grants s)(checkpoint_id ck \<mapsto> r)\<rparr>)" if "approval_grant_init ?g = Inr r" for r
      using assms(2) auth [OF that] by (auto simp: holds_only_def ran_def split: if_splits)
    show ?thesis
      using Inr Some sub' auth new assms(2)
      unfolding replay_or_submit_def Let_def d_def [symmetric] by (auto split: sum.splits)
  qed
qed

lemma holds_call:
  assumes "bc_repository b \<in> {None, Some rp}" "holds_only Q G s" "shrinking G"
    and "\<And>rid su md. core (from_checkpoint rid ck (bc_organization_id b) (bc_environment b) (bc_agent_id b) (bc_requested_by b) su md) \<in> Q"
  shows "holds_only Q G (snd (broker_call b rid now0 now1 now2 spec args kwargs ck s))
    \<and> (\<forall>g. fst (broker_call b rid now0 now1 now2 spec args kwargs ck s) = Inr (Granted g) \<longrightarrow> authority g \<in> G \<and> ag_action_digest g = ck_action_digest ck)"
proof (cases "bk_grants s (checkpoint_id ck)")
  case None
  then show ?thesis using holds_replay [OF assms, of rid now1 now2 spec args kwargs] by (simp add: broker_call_def)
next
  case (Some g)
  have held: "authority g \<in> G" using assms(2) Some by (force simp: holds_only_def ran_def)
  have "holds_only Q G (s\<lparr>bk_grants := (bk_grants s)(checkpoint_id ck := None)\<rparr>)"
    using assms(2) by (auto simp: holds_only_def ran_def split: if_splits)
  from holds_replay [OF assms(1) this assms(3,4), of rid now1 now2 spec args kwargs] show ?thesis
    using Some held assms(2) by (auto simp: broker_call_def approval_grant_validate_def split: sum.splits if_splits)
qed

lemma current_record_held:
  assumes "bc_repository b \<in> {None, Some rp}" "holds_only Q G s"
  shows "holds_only Q G (snd (current_record b cid s))
    \<and> (\<forall>r. fst (current_record b cid s) = Inr r \<longrightarrow> core (rc_request r) \<in> Q)"
proof (cases "map_of (bk_records s) cid")
  case None
  then show ?thesis
    using assms get_record_saved
    by (auto simp: current_record_def split: option.splits sum.splits intro!: holds_put_record) (auto simp: holds_only_def)
next
  case (Some r)
  then show ?thesis using assms(2) by (auto simp: current_record_def holds_only_def dest!: map_of_SomeD)
qed

lemma preserves_issue_grant:
  fixes b :: "('w, 't) broker"
  assumes "bc_repository b \<in> {None, Some rp}" "core q \<in> Q" "who \<noteq> []" "rq_requested_by q \<noteq> [] \<longrightarrow> who \<noteq> rq_requested_by q"
    and "strip who = who" "may_issue Q who \<subseteq> G"
  shows "preserves (holds_only Q G) (issue_grant b now_ms ttl cid q who reason)"
  unfolding preserves_def
proof (intro allI impI)
  fix s :: "('w, 't) broker_state" assume s: "holds_only Q G s"
  define e where "e = min (now_ms + (case ttl of None \<Rightarrow> 900 | Some n \<Rightarrow> if n = 0 then 900 else n) * 1000) (rq_expires_at_epoch_ms q)"
  define g where "g = \<lparr>ag_action_digest = rq_action_digest q, ag_approved_by = who, ag_expires_at_epoch_ms = e, ag_checkpoint_id = Some cid, ag_reason = reason\<rparr>"
  have "e \<le> rq_expires_at_epoch_ms q" by (simp add: e_def)
  then have "(rq_action_digest q, who, e) \<in> may_issue Q who"
    unfolding may_issue_def using assms(2-4) by (intro CollectI exI [of _ "core q"] exI [of _ e]) (simp add: core_def)
  then have mem: "(rq_action_digest q, who, e) \<in> G" using assms(6) by blast
  show "holds_only Q G (snd (issue_grant b now_ms ttl cid q who reason s))"
  proof (cases "approval_grant_init g")
    case (Inl x)
    then show ?thesis using s by (simp add: issue_grant_def g_def e_def Let_def)
  next
    case (Inr r)
    then have r: "r = g" using assms(5) by (auto simp: approval_grant_init_def g_def split: if_splits)
    have "holds_only Q G (s\<lparr>bk_grants := (bk_grants s)(cid \<mapsto> g), bk_approved_actions := (bk_approved_actions s)(rq_action_digest q \<mapsto> g)\<rparr>)"
      using s mem by (auto simp: holds_only_def ran_def authority_def entry_def g_def split: if_splits)
    moreover have "wf_grant g" "authority g \<in> G"
      using Inr r mem by (simp_all add: wf_grant_def authority_def entry_def) (simp_all add: g_def)
    ultimately show ?thesis
      using Inr holds_save_grant [OF assms(1)] unfolding issue_grant_def Let_def r g_def e_def by simp
  qed
qed

lemma holds_decide:
  assumes "bc_repository b \<in> {None, Some rp}" "holds_only Q G s"
    and issue: "approved \<Longrightarrow> authorised b subject \<Longrightarrow> may_issue Q (strip subject) \<subseteq> G"
  shows "holds_only Q G (snd (decide_request b now_ms cid approved subject reason ttl s))"
proof -
  obtain res s1 where cur: "current_record b cid s = (res, s1)" by fastforce
  have s1: "holds_only Q G s1" and core: "\<And>r. res = Inr r \<Longrightarrow> core (rc_request r) \<in> Q"
    using current_record_held [OF assms(1,2), of cid] cur by auto
  show ?thesis
  proof (cases res)
    case (Inl e)
    then show ?thesis using cur s1 by (simp add: decide_request_def bnd_def)
  next
    case (Inr r)
    define q where "q = rc_request r"
    have q: "core q \<in> Q" using core [OF Inr] by (simp add: q_def)
    have exp: "preserves (holds_only Q G) (expire_record b now_ms cid r)"
      unfolding expire_record_def Let_def
      by (intro preserves_after_put preserves_bnd preserves_basic preserves_on_world preserves_save_record assms(1)) (use q in \<open>simp_all add: q_def\<close>)
    have settle: "preserves (holds_only Q G) (\<lambda>s. bnd (save_record b rec) (\<lambda>_. bnd (if approved then issue_grant b now_ms ttl cid q (strip subject) reason else ret ()) (\<lambda>_.
        bnd (on_world (bc_update b rec)) (\<lambda>_. ret rec))) (put_record cid rec s))"
      if "rc_request rec = q" "strip subject \<noteq> []" "\<not> (rq_requested_by q \<noteq> [] \<and> strip subject = rq_requested_by q)"
        "authorised b subject" for rec
    proof -
      have "preserves (holds_only Q G) (if approved then issue_grant b now_ms ttl cid q (strip subject) reason else ret ())"
        using preserves_issue_grant [OF assms(1) q that(2)] that(3) issue [OF _ that(4)] by (auto intro: preserves_basic)
      then show ?thesis
        using q that(1) by (intro preserves_after_put preserves_bnd preserves_basic preserves_on_world preserves_save_record assms(1)) simp_all
    qed
    define allowed where "allowed = (case bc_authorizer b of None \<Rightarrow> Inr ()
      | Some require \<Rightarrow> require subject ''approval.decide'' (rq_tool_name (rc_request r)) (rq_environment (rc_request r)))"
    have auth: "authorised b subject" if "allowed = Inr ()"
      unfolding authorised_def
    proof (intro allI impI)
      fix require assume "bc_authorizer b = Some require"
      then have "require subject ''approval.decide'' (rq_tool_name (rc_request r)) (rq_environment (rc_request r)) = Inr ()" using that by (simp add: allowed_def)
      then show "\<exists>tool environ. require subject ''approval.decide'' tool environ = Inr ()" by blast
    qed
    show ?thesis
      using cur Inr s1 exp settle auth unfolding decide_request_def
      by (cases allowed) (auto simp: allowed_def [symmetric] q_def bnd_def [of "current_record b cid"] bnd_def [of "lift _"]
          lift_def raise_def Let_def preserves_def)
  qed
qed

lemma holds_mono: "holds_only Q G s \<Longrightarrow> Q \<subseteq> Q' \<Longrightarrow> G \<subseteq> G' \<Longrightarrow> holds_only Q' G' s"
  unfolding holds_only_def by (intro conjI) auto

lemma shrinking_may_issue: "(d, a, e) \<in> may_issue Q (strip who) \<Longrightarrow> e' \<le> e \<Longrightarrow> (d, strip a, e') \<in> may_issue Q (strip who)"
  unfolding may_issue_def by fastforce

lemma shrinking_accounted: "shrinking (accounted cfg asked approvals)"
  unfolding shrinking_def
proof (intro allI impI)
  fix d a e e' assume "(d, a, e) \<in> accounted cfg asked approvals" and e': "e' \<le> e"
  then obtain i subject where "(i, subject) \<in> set approvals" "authorised (cfg i) subject" "(d, a, e) \<in> may_issue (set asked) (strip subject)"
    by (auto simp: accounted_def)
  then show "(d, strip a, e') \<in> accounted cfg asked approvals"
    using shrinking_may_issue [OF _ e'] unfolding accounted_def by fast
qed

definition dep_ok :: "(nat \<Rightarrow> ('w, 't) broker) \<Rightarrow> ('w, 't) deployment \<Rightarrow> bool" where
  "dep_ok cfg D \<longleftrightarrow> (\<forall>i. holds_only (set (dp_asked D)) (accounted cfg (dp_asked D) (dp_approvals D)) (enter i D))"

lemma dep_ok_weaken:
  assumes "dep_ok cfg D" "set (dp_asked D) \<subseteq> set asked" "set (dp_approvals D) \<subseteq> set app"
  shows "holds_only (set asked) (accounted cfg asked app) (enter j D)"
proof -
  have "holds_only (set (dp_asked D)) (accounted cfg (dp_asked D) (dp_approvals D)) (enter j D)"
    using assms(1) by (simp add: dep_ok_def)
  then show ?thesis using assms(2) accounted_mono [OF assms(2,3)] by (rule holds_mono)
qed

text \<open>What one broker leaves behind is in order for the others too.\<close>

lemma enter_leave:
  "bk_records (enter j (leave i s D)) = (if j = i then bk_records s else bk_records (enter j D))"
  "bk_grants (enter j (leave i s D)) = (if j = i then bk_grants s else bk_grants (enter j D))"
  "bk_approved_actions (enter j (leave i s D)) = (if j = i then bk_approved_actions s else bk_approved_actions (enter j D))"
  "bk_repo (enter j (leave i s D)) = bk_repo s"
  by (simp_all add: enter_def leave_def)

lemma holds_leave:
  assumes "holds_only Q G s" and "\<And>j. holds_only Q G (enter j D)"
  shows "holds_only Q G (enter j (leave i s D))"
  using assms(1) assms(2) [of j] unfolding holds_only_def enter_leave by (cases "j = i") simp_all

lemma asked_held:
  assumes "bc_repository (cfg i) \<in> {None, Some rp}" "dep_ok cfg D" "asked = asked_core (cfg i) ck # dp_asked D"
  shows "holds_only (set asked) (accounted cfg asked (dp_approvals D)) (snd (broker_call (cfg i) rid now0 now1 now2 spec args kwargs ck (enter i D)))
    \<and> (\<forall>g. fst (broker_call (cfg i) rid now0 now1 now2 spec args kwargs ck (enter i D)) = Inr (Granted g)
        \<longrightarrow> authority g \<in> accounted cfg asked (dp_approvals D) \<and> ag_action_digest g = ck_action_digest ck)"
proof (rule holds_call [OF assms(1) _ shrinking_accounted])
  show "holds_only (set asked) (accounted cfg asked (dp_approvals D)) (enter i D)"
    by (rule dep_ok_weaken [OF assms(2)]) (auto simp: assms(3))
  show "core (from_checkpoint rid ck (bc_organization_id (cfg i)) (bc_environment (cfg i)) (bc_agent_id (cfg i)) (bc_requested_by (cfg i)) su md) \<in> set asked" for rid su md
    using assms(3) by (simp add: core_def from_checkpoint_def asked_core_def)
qed

lemma dep_step_ok:
  assumes "dep_step cfg D D'" and "\<And>i. bc_repository (cfg i) \<in> {None, Some rp}" and "dep_ok cfg D"
  shows "dep_ok cfg D'"
  using assms(1)
proof cases
  case (call i ck rid now0 now1 now2 spec args kwargs)
  let ?asked = "asked_core (cfg i) ck # dp_asked D"
  have others: "holds_only (set ?asked) (accounted cfg ?asked (dp_approvals D)) (enter j D)" for j
    by (rule dep_ok_weaken [OF assms(3)]) auto
  from holds_leave [OF conjunct1 [OF asked_held [OF assms(2,3) refl]] others] show ?thesis
    unfolding call dep_ok_def by simp
next
  case (decide approved i subject now_ms cid reason ttl)
  let ?app = "if approved then (i, subject) # dp_approvals D else dp_approvals D"
  have others: "holds_only (set (dp_asked D)) (accounted cfg (dp_asked D) ?app) (enter j D)" for j
    by (rule dep_ok_weaken [OF assms(3)]) auto
  have "holds_only (set (dp_asked D)) (accounted cfg (dp_asked D) ?app) (snd (decide_request (cfg i) now_ms cid approved subject reason ttl (enter i D)))"
    using others by (rule holds_decide [OF assms(2)]) (auto simp: accounted_def)
  from holds_leave [OF this others] show ?thesis
    unfolding decide dep_ok_def by simp
next
  case (restart i)
  then show ?thesis using assms(3) by (auto simp: dep_ok_def holds_only_def enter_def fresh_local_def)
qed

lemma reachable_ok:
  assumes "(dep_step cfg)\<^sup>*\<^sup>* (dep_init t w) D" "\<And>i. bc_repository (cfg i) \<in> {None, Some rp}" "requests_of t = {}" "grants_of t = {}"
  shows "dep_ok cfg D"
proof -
  have "dep_ok cfg (dep_init t w)" using assms(3,4) by (simp add: dep_ok_def dep_init_def holds_only_def enter_def fresh_local_def)
  with assms(1) show ?thesis by (rule rtranclp_invariant) (rule dep_step_ok [OF _ assms(2)])
qed

end

section \<open>The SQLite repository\<close>

lemma set_upsert:
  "set (upsert key merge row t) \<subseteq> insert row (set t \<union> {merge r row |r. r \<in> set t \<and> key r = key row})"
  by (auto simp: upsert_def set_sql_update)

lemma upsert_has_key: "(\<And>a b. key (merge a b) = key a) \<Longrightarrow> \<exists>r\<in>set (upsert key merge row t). key r = key row"
  by (cases "list_ex (\<lambda>r. key r = key row) t") (auto simp: upsert_def bex_sql_update list_ex_iff)

lemma jstr_JStr [simp]: "jstr fr orr (JStr s) = s"
  by (simp add: jstr_def)

text \<open>Sorting the keys of a dictionary with distinct keys does not change what is looked up.\<close>

lemma map_of_sort_keys:
  assumes "distinct (map fst d)" and "sort_keys (JObj d) = JObj d'"
  shows "map_of d' k = map_option sort_keys (map_of d k)"
proof -
  have d': "d' = sort_key fst (map (\<lambda>(k, v). (k, sort_keys v)) d)" using assms(2) by simp
  have "distinct (map fst (map (\<lambda>(k, v). (k, sort_keys v)) d))" using assms(1) by (simp add: comp_def case_prod_unfold)
  then have "map_of d' = map_of (map (\<lambda>(k, v). (k, sort_keys v)) d)" unfolding d' by (rule map_of_sort_key)
  then show ?thesis by (simp add: map_of_map)
qed

lemma distinct_request_keys: "distinct (map fst (request_to_dict fr orr q))"
  by (simp add: request_to_dict_def)

lemma request_core_roundtrip:
  assumes "request_of_json fr orr (stored_request fr orr q) = Inr q'" shows "core q' = core q"
proof -
  obtain d where d: "stored_request fr orr q = JObj d" by (simp add: stored_request_def)
  then have look: "map_of d k = map_option sort_keys (map_of (request_to_dict fr orr q) k)" for k
    using map_of_sort_keys [OF distinct_request_keys] by (simp add: stored_request_def)
  have items: "map_of d ''checkpoint_id'' = Some (JStr (rq_checkpoint_id q))"
    "map_of d ''action_digest'' = Some (JStr (rq_action_digest q))" "map_of d ''requested_by'' = Some (JStr (rq_requested_by q))"
    "map_of d ''expires_at_epoch_ms'' = Some (JInt (rq_expires_at_epoch_ms q))"
    by (simp_all add: look request_to_dict_def)
  show ?thesis
    using assms unfolding d request_of_json_def json.case request_from_dict_def Let_def ebind_Inr
    by (clarsimp simp: items jitem_def [of "''checkpoint_id''"] jitem_def [of "''action_digest''"] jitem_def [of "''expires_at_epoch_ms''"]
        jget_or_def [of _ "''requested_by''"] jint_of_def core_def)
qed

definition sqlite_requests :: "(pyfloat \<Rightarrow> string) \<Rightarrow> (pyval \<Rightarrow> string) \<Rightarrow> approval_db \<Rightarrow> request_core set" where
  "sqlite_requests fr orr db = {core q |q row. row \<in> set (adb_records db) \<and> request_of_json fr orr (aw_request_json row) = Inr q}"

definition sqlite_grants :: "approval_db \<Rightarrow> (string \<times> string \<times> int) set" where
  "sqlite_grants db = {entry (gw_action_digest row) g |g row. row \<in> set (adb_grants db) \<and> grant_of_json (gw_grant_json row) = Inr g}"

lemma grant_roundtrip:
  assumes "wf_grant g" shows "grant_of_json (sort_keys (JObj (grant_json g))) = Inr g"
proof -
  obtain d where d: "sort_keys (JObj (grant_json g)) = JObj d" by simp
  have "distinct (map fst (grant_json g))" by (simp add: grant_json_def)
  from map_of_sort_keys [OF this d] have look: "map_of d k = map_option sort_keys (map_of (grant_json g) k)" for k .
  obtain i where i: "ag_checkpoint_id g = Some i" "approval_grant_init g = Inr g" using assms by (auto simp: wf_grant_def)
  then show ?thesis
    unfolding d grant_of_json_def json.case
    by (simp add: jitem_def jget_def look grant_json_def jint_of_def) (metis approval_grant.surjective old.unit.exhaust)
qed

definition sqlite_repository :: "(pyfloat \<Rightarrow> string) \<Rightarrow> (pyval \<Rightarrow> string) \<Rightarrow> approval_db repository" where
  "sqlite_repository fr orr = \<lparr>rp_save_record = sqlite_save_record fr orr, rp_get_record = sqlite_get_record fr orr,
     rp_pending = sqlite_pending fr orr, rp_save_grant = sqlite_save_grant, rp_get_grant = (\<lambda>_. sqlite_get_grant)\<rparr>"

interpretation sqlite_approvals: approval_repository "sqlite_repository fr orr" "sqlite_requests fr orr" sqlite_grants
proof (unfold_locales, goal_cases)
  case (1 cid t r)
  then show ?case
    by (auto simp: sqlite_repository_def sqlite_get_record_def sqlite_requests_def ebind_def
        split: option.splits sum.splits dest!: find_Some_prop)
next
  case (2 now d t g)
  then show ?case
    by (auto simp: sqlite_repository_def sqlite_get_grant_def sqlite_grants_def split: option.splits dest!: find_Some_prop)
next
  case (3 r t)
  show ?case
    by (auto simp: sqlite_repository_def sqlite_save_record_def sqlite_requests_def Let_def
        dest!: subsetD [OF set_upsert] request_core_roundtrip) blast+
next
  case (6 g now t)
  then show ?case
    by (auto simp: sqlite_repository_def sqlite_save_grant_def sqlite_grants_def grant_roundtrip authority_def
        simp del: sort_keys.simps dest!: subsetD [OF set_upsert])
qed (auto simp: sqlite_repository_def sqlite_save_record_def sqlite_save_grant_def sqlite_requests_def sqlite_grants_def Let_def)

section \<open>The PostgreSQL repository\<close>

definition pg_requests :: "(pyfloat \<Rightarrow> string) \<Rightarrow> (pyval \<Rightarrow> string) \<Rightarrow> pg_approval_db \<Rightarrow> request_core set" where
  "pg_requests fr orr db = {core q |q row. row \<in> set (pdb_records db) \<and> request_of_json fr orr (aw_request_json row) = Inr q}"

definition pg_grants :: "pg_approval_db \<Rightarrow> (string \<times> string \<times> int) set" where
  "pg_grants db = {entry (pg_action_digest row) g |g row. row \<in> set (pdb_grants db) \<and> grant_of_row row = Inr g}"

definition drop_result :: "(exc + 'a) \<times> 't \<Rightarrow> (exc + unit) \<times> 't" where
  "drop_result p = (case p of (Inl e, t) \<Rightarrow> (Inl e, t) | (Inr _, t) \<Rightarrow> (Inr (), t))"

lemma snd_drop_result [simp]: "snd (drop_result p) = snd p"
  by (auto simp: drop_result_def split: prod.splits sum.splits)

text \<open>The broker passes no \<^verbatim>\<open>expected_revision\<close> and ignores the revision returned.\<close>

definition pg_repository :: "(pyfloat \<Rightarrow> string) \<Rightarrow> (pyval \<Rightarrow> string) \<Rightarrow> int \<Rightarrow> pg_approval_db repository" where
  "pg_repository fr orr now_ts = \<lparr>rp_save_record = (\<lambda>r db. drop_result (pg_save_record fr orr now_ts r None db)),
     rp_get_record = pg_get_record fr orr, rp_pending = pg_pending fr orr [] [] 100 0,
     rp_save_grant = (\<lambda>_ g db. drop_result (pg_save_grant g None db)), rp_get_grant = pg_get_grant\<rparr>"

lemma entry_of_row:
  "grant_of_row row = Inr g \<Longrightarrow> entry d g = (d, strip (pg_approved_by row), pg_expires_at_epoch_ms row)"
  by (auto simp: grant_of_row_def approval_grant_init_def entry_def split: if_splits)

lemma wf_grant_authority: "wf_grant g \<Longrightarrow> authority g = (ag_action_digest g, strip (ag_approved_by g), ag_expires_at_epoch_ms g)"
  by (auto simp: wf_grant_def approval_grant_init_def authority_def entry_def split: if_splits) (metis approval_grant.select_convs(2) approval_grant.surjective approval_grant.update_convs(2))

interpretation pg_approvals: approval_repository "pg_repository fr orr now_ts" "pg_requests fr orr" pg_grants
proof (unfold_locales, goal_cases)
  case (1 cid t r)
  then show ?case
    by (auto simp: pg_repository_def pg_get_record_def pg_requests_def ebind_def split: option.splits sum.splits dest!: find_Some_prop)
next
  case (2 now d t g)
  then show ?case
    by (auto simp: pg_repository_def pg_get_grant_def pg_grants_def split: option.splits if_splits dest!: find_Some_prop)
next
  case (3 r t)
  show ?case
    by (auto simp: pg_repository_def pg_save_record_def pg_requests_def Let_def pg_settle_def
        dest!: subsetD [OF set_upsert] request_core_roundtrip) blast+
next
  case (6 g now t)
  then show ?case
    by (auto simp: pg_repository_def pg_save_grant_def pg_grants_def Let_def pg_renew_def entry_of_row wf_grant_authority
        dest!: subsetD [OF set_upsert])
qed (auto simp: pg_repository_def pg_save_record_def pg_save_grant_def pg_requests_def pg_grants_def Let_def)

section \<open>Properties\<close>

definition grant_justified :: "(nat \<Rightarrow> ('w, 't) broker) \<Rightarrow> request_core list \<Rightarrow> (nat \<times> string) list \<Rightarrow> approval_grant \<Rightarrow> bool" where
  "grant_justified cfg asked approvals g \<longleftrightarrow> (\<exists>q\<in>set asked. \<exists>(i, subject)\<in>set approvals.
     co_action_digest q = ag_action_digest g \<and> ag_approved_by g = strip subject \<and> strip subject \<noteq> []
     \<and> (co_requested_by q \<noteq> [] \<longrightarrow> strip subject \<noteq> co_requested_by q) \<and> authorised (cfg i) subject
     \<and> ag_expires_at_epoch_ms g \<le> co_expires_at_epoch_ms q)"

lemma accounted_justified: "authority g \<in> accounted cfg asked approvals \<Longrightarrow> grant_justified cfg asked approvals g"
  by (fastforce simp: accounted_def may_issue_def grant_justified_def authority_def entry_def)

text \<open>C7: Four eyes, whatever number of brokers share a repository, whatever they are asked and however often
  they restart: a grant a broker hands out for a checkpoint is for that checkpoint's action, and
  goes back to an approval of a request for that action by an authorised subject other than the
  requester; it does not outlive the request.  This holds on the SQLite and on the PostgreSQL
  repository and for brokers without one.\<close>

theorem grants_have_four_eyes:
  "(\<forall>i. bc_repository (cfg i) \<in> {None, Some (sqlite_repository fr orr)})
   \<Longrightarrow> (dep_step cfg)\<^sup>*\<^sup>* (dep_init \<lparr>adb_records = [], adb_grants = []\<rparr> w) D
   \<Longrightarrow> fst (broker_call (cfg i) rid now0 now1 now2 spec args kwargs ck (enter i D)) = Inr (Granted g)
   \<Longrightarrow> (\<forall>i. bc_repository (cfg' i) \<in> {None, Some (pg_repository fr orr now_ts)})
   \<Longrightarrow> (dep_step cfg')\<^sup>*\<^sup>* (dep_init \<lparr>pdb_records = [], pdb_grants = []\<rparr> w') D'
   \<Longrightarrow> fst (broker_call (cfg' i') rid now0 now1 now2 spec args kwargs ck (enter i' D')) = Inr (Granted g')
   \<Longrightarrow> ag_action_digest g = ck_action_digest ck \<and> grant_justified cfg (asked_core (cfg i) ck # dp_asked D) (dp_approvals D) g
     \<and> ag_action_digest g' = ck_action_digest ck \<and> grant_justified cfg' (asked_core (cfg' i') ck # dp_asked D') (dp_approvals D') g'"
proof -
  assume cfg: "\<forall>i. bc_repository (cfg i) \<in> {None, Some (sqlite_repository fr orr)}" "\<forall>i. bc_repository (cfg' i) \<in> {None, Some (pg_repository fr orr now_ts)}"
    and reach: "(dep_step cfg)\<^sup>*\<^sup>* (dep_init \<lparr>adb_records = [], adb_grants = []\<rparr> w) D" "(dep_step cfg')\<^sup>*\<^sup>* (dep_init \<lparr>pdb_records = [], pdb_grants = []\<rparr> w') D'"
    and got: "fst (broker_call (cfg i) rid now0 now1 now2 spec args kwargs ck (enter i D)) = Inr (Granted g)"
      "fst (broker_call (cfg' i') rid now0 now1 now2 spec args kwargs ck (enter i' D')) = Inr (Granted g')"
  have "sqlite_approvals.dep_ok fr orr cfg D"
    by (rule sqlite_approvals.reachable_ok [OF reach(1)]) (use cfg(1) in \<open>auto simp: sqlite_requests_def sqlite_grants_def\<close>)
  moreover have "pg_approvals.dep_ok fr orr cfg' D'"
    by (rule pg_approvals.reachable_ok [OF reach(2)]) (use cfg(2) in \<open>auto simp: pg_requests_def pg_grants_def\<close>)
  ultimately show ?thesis
    using sqlite_approvals.asked_held [OF _ _ refl] pg_approvals.asked_held [OF _ _ refl] cfg got accounted_justified by metis
qed

text \<open>A broker without a repository: asked once, approved once, asked again.\<close>

definition demo_broker :: "(unit, 't) broker" where
  "demo_broker = \<lparr>bc_submit = (\<lambda>_ w. (Inr ''x'', w)), bc_update = (\<lambda>_ w. (Inr (), w)), bc_organization_id = ''acme'',
     bc_environment = ''prod'', bc_agent_id = ''bot'', bc_requested_by = ''bob'', bc_authorizer = None, bc_repository = None\<rparr>"

definition demo_digest :: string where
  "demo_digest = replicate 64 (CHR ''a'')"

definition demo_checkpoint :: checkpoint where
  "demo_checkpoint = \<lparr>checkpoint_id = ''c'', ck_correlation_id = [], ck_run_id = [], ck_tool_name = ''pay'', ck_tool_version = ''1'',
     ck_risk = ''high'', ck_estimated_cost_usd = Fin 0, ck_action_digest = demo_digest, ck_policy_digest = [],
     ck_arguments_digest = [], ck_created_at_epoch_ms = 0, ck_expires_at_epoch_ms = 1000, ck_principal_subject = [],
     ck_organization_id = [], ck_environment = [], ck_agent_id = []\<rparr>"

definition demo_grant :: approval_grant where
  "demo_grant = \<lparr>ag_action_digest = demo_digest, ag_approved_by = ''ann'', ag_expires_at_epoch_ms = 1000, ag_checkpoint_id = Some ''c'', ag_reason = []\<rparr>"

lemma demo_strip: "strip ''ann'' = ''ann''"
  by (simp add: strip_def lstrip_def rstrip_def py_space_def)

lemma demo_granted:
  "\<exists>D. (dep_step (\<lambda>_. demo_broker))\<^sup>*\<^sup>* (dep_init t ()) D
    \<and> fst (broker_call demo_broker ''r2'' 20 20 20 (demo_tool ''pay'') [] [] demo_checkpoint (enter 0 D)) = Inr (Granted demo_grant)"
proof -
  let ?cfg = "\<lambda>_::nat. demo_broker :: (unit, 'a) broker"
  define q where "q = from_checkpoint ''r1'' demo_checkpoint ''acme'' ''prod'' ''bot'' ''bob'' (''Approve '' @ ts_name (demo_tool ''pay'') @ '' ('' @ ts_risk (demo_tool ''pay'') @ '' risk)'') (request_metadata [] [])"
  define r where "r = \<lparr>rc_request = q, rc_status = Pending_Approval, rc_external_id = ''x'', rc_decided_by = [], rc_reason = [], rc_decided_at_epoch_ms = 0\<rparr>"
  define s1 where "s1 = put_record ''c'' r (enter 0 (dep_init t ()))"
  have q: "rq_expires_at_epoch_ms q = 1000" "rq_requested_by q = ''bob''" "rq_action_digest q = demo_digest"
    by (simp_all add: q_def from_checkpoint_def demo_checkpoint_def)
  have call: "broker_call demo_broker ''r1'' 0 0 0 (demo_tool ''pay'') [] [] demo_checkpoint (enter 0 (dep_init t ())) = (Inr (Answer False), s1)"
    by (simp add: broker_call_def enter_def dep_init_def fresh_local_def replay_or_submit_def approved_action_def demo_broker_def
        submit_request_def bnd_def load_record_def on_world_def save_record_def ret_def Let_def s1_def r_def q_def put_record_def)
      (simp add: demo_checkpoint_def put_record_def)
  let ?D1 = "(leave 0 s1 (dep_init t ()))\<lparr>dp_asked := asked_core (?cfg 0) demo_checkpoint # dp_asked (dep_init t ())\<rparr>"
  have e1: "enter 0 ?D1 = s1" by (simp add: enter_def leave_def s1_def put_record_def)
  have "length demo_digest = 64" "list_all hex_char demo_digest" by (simp_all add: demo_digest_def list_all_iff hex_char_def)
  then have g: "approval_grant_init demo_grant = Inr demo_grant"
    using demo_strip by (simp add: approval_grant_init_def demo_grant_def blank_def)
  obtain rec s2 where dec: "decide_request demo_broker 10 ''c'' True ''ann'' [] None s1 = (Inr rec, s2)" and s2: "bk_grants s2 ''c'' = Some demo_grant"
    using g demo_strip q
    by (simp add: decide_request_def bnd_def current_record_def s1_def put_record_def enter_def dep_init_def fresh_local_def r_def lift_def
        demo_broker_def save_record_def issue_grant_def save_grant_def ret_def on_world_def Let_def demo_grant_def)
  let ?D2 = "(leave 0 s2 ?D1)\<lparr>dp_approvals := (0, ''ann'') # dp_approvals ?D1\<rparr>"
  have e2: "bk_grants (enter 0 ?D2) = bk_grants s2" by (simp add: enter_def leave_def)
  have step1: "dep_step ?cfg (dep_init t ()) ?D1"
    using dep_step.call [where cfg = ?cfg and D = "dep_init t ()" and i = 0 and rid = "''r1''" and ?now0.0 = 0 and ?now1.0 = 0 and ?now2.0 = 0
        and spec = "demo_tool ''pay''" and args = "[]" and kwargs = "[]" and ck = demo_checkpoint] call by simp
  have step2: "dep_step ?cfg ?D1 ?D2"
    using dep_step.decide [where cfg = ?cfg and D = ?D1 and i = 0 and now_ms = 10 and cid = "''c''" and approved = True and subject = "''ann''"
        and reason = "[]" and ttl = None] dec unfolding e1 by simp
  have "(dep_step ?cfg)\<^sup>*\<^sup>* (dep_init t ()) ?D2" using step1 step2 by (meson r_into_rtranclp rtranclp.rtrancl_into_rtrancl)
  moreover have "fst (broker_call demo_broker ''r2'' 20 20 20 (demo_tool ''pay'') [] [] demo_checkpoint (enter 0 ?D2)) = Inr (Granted demo_grant)"
    using e2 s2 by (simp add: broker_call_def demo_checkpoint_def demo_grant_def approval_grant_validate_def)
  ultimately show ?thesis by blast
qed

lemma sqlite_grant_filed:
  "\<exists>r\<in>set (adb_grants (snd (sqlite_save_grant now g t))). gw_action_digest r = ag_action_digest g"
proof -
  let ?row = "\<lparr>gw_action_digest = ag_action_digest g, gw_grant_json = sort_keys (JObj (grant_json g)), gw_updated_at_epoch_ms = now\<rparr>"
  have "\<exists>r\<in>set (upsert gw_action_digest
     (\<lambda>old new. old\<lparr>gw_grant_json := gw_grant_json new, gw_updated_at_epoch_ms := gw_updated_at_epoch_ms new\<rparr>) ?row (adb_grants t)).
      gw_action_digest r = gw_action_digest ?row" by (rule upsert_has_key) simp
  then show ?thesis unfolding sqlite_save_grant_def by simp
qed

text \<open>C40: A broker decides on the record it has cached: when another broker on the same repository has denied
  the request meanwhile, the stale broker's approval still succeeds, overwrites the denial in the
  repository and files a grant.\<close>

theorem stale_broker_overrides_denial:
  assumes "bc_repository b = Some (sqlite_repository fr orr)" and "bc_authorizer b = None"
    and "\<forall>rec w. \<exists>w'. bc_update b rec w = (Inr (), w')"
    and "map_of (bk_records s) cid = Some r" and "rc_status r = Pending_Approval" and "rq_checkpoint_id (rc_request r) = cid"
    and "now_ms \<le> rq_expires_at_epoch_ms (rc_request r)"
    and "length (rq_action_digest (rc_request r)) = 64" and "list_all hex_char (rq_action_digest (rc_request r))"
    and "strip subject \<noteq> []" and "strip subject \<noteq> rq_requested_by (rc_request r)"
    and "row \<in> set (adb_records (bk_repo s))" and "aw_checkpoint_id row = cid" and "aw_status row = Denied"
  shows "\<exists>rec s'. decide_request b now_ms cid True subject reason ttl s = (Inr rec, s') \<and> rc_status rec = Approved_Request
    \<and> (\<exists>row'\<in>set (adb_records (bk_repo s')). aw_checkpoint_id row' = cid \<and> aw_request_json row' = aw_request_json row \<and> aw_status row' = Approved_Request)
    \<and> (\<exists>g\<in>set (adb_grants (bk_repo s')). gw_action_digest g = rq_action_digest (rc_request r))"
proof -
  define q where "q = rc_request r"
  define rec where "rec = \<lparr>rc_request = q, rc_status = Approved_Request, rc_external_id = rc_external_id r, rc_decided_by = strip subject,
    rc_reason = reason, rc_decided_at_epoch_ms = now_ms\<rparr>"
  obtain grant where grant: "approval_grant_init \<lparr>ag_action_digest = rq_action_digest q, ag_approved_by = strip subject,
      ag_expires_at_epoch_ms = min (now_ms + (case ttl of None \<Rightarrow> 900 | Some n \<Rightarrow> if n = 0 then 900 else n) * 1000) (rq_expires_at_epoch_ms q),
      ag_checkpoint_id = Some cid, ag_reason = reason\<rparr> = Inr grant" "ag_action_digest grant = rq_action_digest q"
    using assms(8-10) by (simp add: approval_grant_init_def q_def blank_def)
  obtain t1 where t1: "sqlite_save_record fr orr rec (bk_repo s) = (Inr (), t1)" by (simp add: sqlite_save_record_def Let_def)
  obtain t2 where t2: "sqlite_save_grant now_ms grant t1 = (Inr (), t2)" by (simp add: sqlite_save_grant_def)
  obtain w' where w': "bc_update b rec (bk_world s) = (Inr (), w')" using assms(3) by blast
  define f where "f = (\<lambda>old::approval_row. old\<lparr>aw_status := Approved_Request, aw_external_id := rc_external_id r, aw_decided_by := strip subject,
    aw_reason := reason, aw_decided_at_epoch_ms := now_ms\<rparr>)"
  have "\<exists>x\<in>set (adb_records (bk_repo s)). aw_checkpoint_id x = cid" using assms(12,13) by blast
  then have "adb_records t1 = sql_update (\<lambda>x. aw_checkpoint_id x = cid) f (adb_records (bk_repo s))"
    using t1 assms(6) by (auto simp: sqlite_save_record_def Let_def upsert_def list_ex_iff rec_def q_def f_def)
  then have "f row \<in> set (adb_records t1)" using assms(12,13) by (auto simp: set_sql_update)
  then have row: "\<exists>row'\<in>set (adb_records t1). aw_checkpoint_id row' = cid \<and> aw_request_json row' = aw_request_json row \<and> aw_status row' = Approved_Request"
    using assms(13) by (intro bexI [of _ "f row"]) (simp_all add: f_def)
  have "adb_records t2 = adb_records t1" using t2 by (auto simp: sqlite_save_grant_def)
  moreover have "\<exists>g\<in>set (adb_grants t2). gw_action_digest g = rq_action_digest q"
    using sqlite_grant_filed [of now_ms grant t1] t2 grant(2) by simp
  moreover have "decide_request b now_ms cid True subject reason ttl s = (Inr rec, s\<lparr>bk_records := AList.update cid rec (bk_records s),
      bk_grants := (bk_grants s)(cid \<mapsto> grant), bk_approved_actions := (bk_approved_actions s)(rq_action_digest q \<mapsto> grant), bk_repo := t2, bk_world := w'\<rparr>)"
    using assms(1,2,4,5,7,10,11) grant t1 t2 w'
    by (simp add: decide_request_def bnd_def current_record_def lift_def Let_def save_record_def on_repo_def sqlite_repository_def
        put_record_def issue_grant_def save_grant_def on_world_def ret_def rec_def q_def)
  ultimately show ?thesis using row by (auto simp: rec_def q_def)
qed

theorem grants_have_four_eyes_witness:
  "\<exists>D D'. grant_justified (\<lambda>_. demo_broker :: (unit, approval_db) broker) (asked_core (demo_broker :: (unit, approval_db) broker) demo_checkpoint # dp_asked D) (dp_approvals D) demo_grant
    \<and> grant_justified (\<lambda>_. demo_broker :: (unit, pg_approval_db) broker) (asked_core (demo_broker :: (unit, pg_approval_db) broker) demo_checkpoint # dp_asked D') (dp_approvals D') demo_grant
    \<and> (dep_step (\<lambda>_. demo_broker))\<^sup>*\<^sup>* (dep_init \<lparr>adb_records = [], adb_grants = []\<rparr> ()) D
    \<and> (dep_step (\<lambda>_. demo_broker))\<^sup>*\<^sup>* (dep_init \<lparr>pdb_records = [], pdb_grants = []\<rparr> ()) D'"
proof -
  obtain D where D: "(dep_step (\<lambda>_. demo_broker))\<^sup>*\<^sup>* (dep_init \<lparr>adb_records = [], adb_grants = []\<rparr> ()) D"
    "fst (broker_call demo_broker ''r2'' 20 20 20 (demo_tool ''pay'') [] [] demo_checkpoint (enter 0 D)) = Inr (Granted demo_grant)"
    using demo_granted [of "\<lparr>adb_records = [], adb_grants = []\<rparr>"] by blast
  obtain D' where D': "(dep_step (\<lambda>_. demo_broker))\<^sup>*\<^sup>* (dep_init \<lparr>pdb_records = [], pdb_grants = []\<rparr> ()) D'"
    "fst (broker_call demo_broker ''r2'' 20 20 20 (demo_tool ''pay'') [] [] demo_checkpoint (enter 0 D')) = Inr (Granted demo_grant)"
    using demo_granted [of "\<lparr>pdb_records = [], pdb_grants = []\<rparr>"] by blast
  have none: "bc_repository demo_broker = None" by (simp add: demo_broker_def)
  note four = grants_have_four_eyes [where cfg = "\<lambda>_. demo_broker" and cfg' = "\<lambda>_. demo_broker" and fr = "\<lambda>_. []" and orr = "\<lambda>_. []" and now_ts = 0,
      OF _ D _ D']
  have "grant_justified (\<lambda>_. demo_broker :: (unit, approval_db) broker) (asked_core (demo_broker :: (unit, approval_db) broker) demo_checkpoint # dp_asked D) (dp_approvals D) demo_grant
    \<and> grant_justified (\<lambda>_. demo_broker :: (unit, pg_approval_db) broker) (asked_core (demo_broker :: (unit, pg_approval_db) broker) demo_checkpoint # dp_asked D') (dp_approvals D') demo_grant"
    using four by (simp add: none)
  then show ?thesis by (intro exI [of _ D] exI [of _ D']) (simp add: D(1) D'(1))
qed

theorem stale_broker_overrides_denial_witness:
  "\<exists>r row rec s'. rc_status r = Pending_Approval \<and> aw_status row = Denied
    \<and> decide_request (demo_broker\<lparr>bc_repository := Some (sqlite_repository (\<lambda>_. []) (\<lambda>_. []))\<rparr>) 10 ''c'' True ''ann'' [] None
        \<lparr>bk_records = [(''c'', r)], bk_grants = Map.empty, bk_approved_actions = Map.empty,
         bk_repo = \<lparr>adb_records = [row], adb_grants = []\<rparr>, bk_world = ()\<rparr> = (Inr rec, s')
    \<and> map aw_status (adb_records (bk_repo s')) = [Approved_Request]"
proof -
  define q where "q = from_checkpoint ''r1'' demo_checkpoint [] [] [] ''bob'' ''s'' []"
  define r where "r = \<lparr>rc_request = q, rc_status = Pending_Approval, rc_external_id = [], rc_decided_by = [], rc_reason = [], rc_decided_at_epoch_ms = 0\<rparr>"
  define row where "row = \<lparr>aw_checkpoint_id = ''c'', aw_action_digest = demo_digest, aw_request_json = JNull, aw_status = Denied,
    aw_external_id = [], aw_decided_by = ''joe'', aw_reason = [], aw_decided_at_epoch_ms = 5\<rparr>"
  let ?b = "demo_broker\<lparr>bc_repository := Some (sqlite_repository (\<lambda>_. []) (\<lambda>_. []))\<rparr>"
  let ?s = "\<lparr>bk_records = [(''c'', r)], bk_grants = Map.empty, bk_approved_actions = Map.empty,
         bk_repo = \<lparr>adb_records = [row], adb_grants = []\<rparr>, bk_world = ()\<rparr>"
  have hex: "length demo_digest = 64" "list_all hex_char demo_digest" by (simp_all add: demo_digest_def list_all_iff hex_char_def)
  have "\<exists>rec s'. decide_request ?b 10 ''c'' True ''ann'' [] None ?s = (Inr rec, s') \<and> rc_status rec = Approved_Request
    \<and> (\<exists>row'\<in>set (adb_records (bk_repo s')). aw_checkpoint_id row' = ''c'' \<and> aw_request_json row' = aw_request_json row \<and> aw_status row' = Approved_Request)
    \<and> (\<exists>g\<in>set (adb_grants (bk_repo s')). gw_action_digest g = rq_action_digest (rc_request r))"
    by (rule stale_broker_overrides_denial [where fr = "\<lambda>_. []" and orr = "\<lambda>_. []"])
      (use hex demo_strip in \<open>simp_all add: r_def q_def from_checkpoint_def demo_checkpoint_def demo_broker_def row_def\<close>)
  then obtain rec s' where rec: "decide_request ?b 10 ''c'' True ''ann'' [] None ?s = (Inr rec, s')"
    "\<exists>row'\<in>set (adb_records (bk_repo s')). aw_status row' = Approved_Request" by blast
  have "length (adb_records (bk_repo s')) = 1"
    using rec(1) demo_strip by (auto simp: decide_request_def bnd_def current_record_def lift_def save_record_def on_repo_def sqlite_repository_def
        sqlite_save_record_def Let_def put_record_def issue_grant_def save_grant_def sqlite_save_grant_def on_world_def ret_def raise_def demo_broker_def r_def row_def
        upsert_def q_def from_checkpoint_def demo_checkpoint_def split: sum.splits if_splits)
  then have "map aw_status (adb_records (bk_repo s')) = [Approved_Request]" using rec(2) by (auto simp: length_Suc_conv)
  moreover have "rc_status r = Pending_Approval" "aw_status row = Denied" by (simp_all add: r_def row_def)
  ultimately show ?thesis
    by (intro exI [of _ r] exI [of _ row] exI [of _ rec] exI [of _ s']) (simp add: rec(1))
qed

end
