(* ===== verification/Isotime.thy ===== *)
theory Isotime
  imports Prelude
begin

text \<open>
  The texts \<^verbatim>\<open>datetime.isoformat()\<close> writes for instants in UTC, which the SQLite stores keep and compare as
  text.  The fraction of a second is left out when it is zero, so the texts have two lengths; \<open>iso_utc_order\<close>
  shows that their order is nevertheless the chronological one.
\<close>

fun padded :: "nat \<Rightarrow> nat \<Rightarrow> string" where
  "padded 0 n = []"
| "padded (Suc w) n = padded w (n div 10) @ [char_of (48 + n mod 10)]"

record utc_datetime =
  dt_year :: nat
  dt_month :: nat
  dt_day :: nat
  dt_hour :: nat
  dt_minute :: nat
  dt_second :: nat
  dt_microsecond :: nat

definition isoformat :: "utc_datetime \<Rightarrow> string" where
  "isoformat t = padded 4 (dt_year t) @ ''-'' @ padded 2 (dt_month t) @ ''-'' @ padded 2 (dt_day t) @ ''T'' @
     padded 2 (dt_hour t) @ '':'' @ padded 2 (dt_minute t) @ '':'' @ padded 2 (dt_second t) @
     (if dt_microsecond t = 0 then [] else ''.'' @ padded 6 (dt_microsecond t)) @ ''+00:00''"

definition valid_datetime :: "utc_datetime \<Rightarrow> bool" where
  "valid_datetime t \<longleftrightarrow> dt_year t < 10000 \<and> dt_month t < 100 \<and> dt_day t < 100 \<and> dt_hour t < 100 \<and> dt_minute t < 100
     \<and> dt_second t < 100 \<and> dt_microsecond t < 1000000"

definition earlier :: "utc_datetime \<Rightarrow> utc_datetime \<Rightarrow> bool" where
  "earlier a b \<longleftrightarrow> [dt_year a, dt_month a, dt_day a, dt_hour a, dt_minute a, dt_second a, dt_microsecond a]
     < [dt_year b, dt_month b, dt_day b, dt_hour b, dt_minute b, dt_second b, dt_microsecond b]"

lemma digit_less: "a < 10 \<Longrightarrow> b < 10 \<Longrightarrow> char_of (48 + a :: nat) < (char_of (48 + b :: nat) :: char) \<longleftrightarrow> a < b"
  by (simp add: less_char_def)

lemma digit_eq: "a < 10 \<Longrightarrow> b < 10 \<Longrightarrow> (char_of (48 + a :: nat) :: char) = char_of (48 + b :: nat) \<longleftrightarrow> a = b"
  using digit_less [of a b] digit_less [of b a] by (metis less_irrefl linorder_neqE_nat)

lemma padded_less:
  "a < 10 ^ w \<Longrightarrow> b < 10 ^ w \<Longrightarrow> padded w a @ s < padded w b @ t \<longleftrightarrow> a < b \<or> a = b \<and> s < t"
proof (induction w arbitrary: a b s t)
  case (Suc w)
  have "a div 10 < 10 ^ w" "b div 10 < 10 ^ w" using Suc.prems by (auto simp: less_mult_imp_div_less mult.commute)
  note IH = Suc.IH [OF this]
  have "padded (Suc w) a @ s < padded (Suc w) b @ t \<longleftrightarrow>
      a div 10 < b div 10 \<or> a div 10 = b div 10 \<and> (a mod 10 < b mod 10 \<or> a mod 10 = b mod 10 \<and> s < t)"
    using IH [of "char_of (48 + a mod 10) # s" "char_of (48 + b mod 10) # t"] by (simp add: digit_less digit_eq)
  also have "\<dots> \<longleftrightarrow> a < b \<or> a = b \<and> s < t"
  proof -
    have "a = 10 * (a div 10) + a mod 10" "b = 10 * (b div 10) + b mod 10" by simp_all
    moreover have "a mod 10 < 10" "b mod 10 < 10" by simp_all
    ultimately show ?thesis by linarith
  qed
  finally show ?case .
qed simp

lemma iso_utc_order:
  assumes "valid_datetime a" "valid_datetime b"
  shows "isoformat a < isoformat b \<longleftrightarrow> earlier a b"
proof -
  let ?f = "\<lambda>t. (if dt_microsecond t = 0 then [] else ''.'' @ padded 6 (dt_microsecond t)) @ ''+00:00''"
  have frac: "?f a < ?f b \<longleftrightarrow> dt_microsecond a < dt_microsecond b"
    using assms padded_less [of "dt_microsecond a" 6 "dt_microsecond b" "''+00:00''" "''+00:00''"]
    by (auto simp: valid_datetime_def less_char_def)
  have pad4: "x < 10000 \<Longrightarrow> y < 10000 \<Longrightarrow> padded 4 x @ s < padded 4 y @ t \<longleftrightarrow> x < y \<or> x = y \<and> s < t" for x y s t
    using padded_less [of x 4 y s t] by simp
  have pad2: "x < 100 \<Longrightarrow> y < 100 \<Longrightarrow> padded 2 x @ s < padded 2 y @ t \<longleftrightarrow> x < y \<or> x = y \<and> s < t" for x y s t
    using padded_less [of x 2 y s t] by simp
  show ?thesis
    using assms frac unfolding isoformat_def earlier_def valid_datetime_def by (simp add: pad2 pad4)
qed

end
