(* ===== verification/Outbox.thy ===== *)
theory Outbox
  imports Approvals Isotime
begin

text \<open>
  \<^verbatim>\<open>agent_roi/enterprise/outbox.py\<close> and \<^verbatim>\<open>agent_roi/approvals/outbox.py\<close>: the transactional outbox, its
  SQLite and PostgreSQL stores, the delivery worker and the adapters that enqueue.  An instant is
  its number of microseconds since the epoch (the ISO texts of one zone are ordered like the instants,
  see \<open>iso_utc_order\<close>), the empty text of an absent instant is \<open>None\<close>.  A JSON column is the value its
  text denotes; the payload column always holds an object.  What PostgreSQL leaves open is a parameter:
  the order of \<^verbatim>\<open>RETURNING\<close> (by positions of the rows), the rows other transactions have locked and the rounding of intervals.
\<close>

section \<open>Events\<close>

datatype outbox_status = PENDING | LEASED | DELIVERED | DEAD_LETTER

fun outbox_status_value :: "outbox_status \<Rightarrow> string" where
  "outbox_status_value PENDING = ''pending''"
| "outbox_status_value LEASED = ''leased''"
| "outbox_status_value DELIVERED = ''delivered''"
| "outbox_status_value DEAD_LETTER = ''dead_letter''"

record outbox_event =
  oe_event_id :: string
  oe_topic :: string
  oe_destination :: string
  oe_payload :: json_object
  oe_idempotency_key :: string
  oe_status :: outbox_status
  oe_attempts :: int
  oe_available_at_utc :: int
  oe_lease_owner :: string
  oe_lease_expires_at_utc :: "int option"
  oe_last_error :: string
  oe_created_at_utc :: int
  oe_delivered_at_utc :: "int option"

text \<open>The two default factories read the clock one after the other; \<open>uid\<close> is the fresh identifier.\<close>

definition outbox_event_create ::
    "(pyfloat \<Rightarrow> string) \<Rightarrow> (pyval \<Rightarrow> string) \<Rightarrow> string \<Rightarrow> int \<Rightarrow> int \<Rightarrow> string \<Rightarrow> string \<Rightarrow> pyval \<Rightarrow> string \<Rightarrow> string
     \<Rightarrow> exc + outbox_event" where
  "outbox_event_create fr orr uid now1 now2 topic destination payload key event_id =
     (if blank topic then Inl (ValueError ''topic must be a non-empty string'')
      else if blank destination then Inl (ValueError ''destination must be a non-empty string'')
      else if blank key then Inl (ValueError ''idempotency_key must be a non-empty string'')
      else ebind (jdict_of (to_jsonable fr orr payload)) (\<lambda>d.
        Inr \<lparr>oe_event_id = (if event_id = [] then uid else event_id), oe_topic = strip topic,
          oe_destination = strip destination, oe_payload = d, oe_idempotency_key = strip key, oe_status = PENDING,
          oe_attempts = 0, oe_available_at_utc = now1, oe_lease_owner = [], oe_lease_expires_at_utc = None,
          oe_last_error = [], oe_created_at_utc = now2, oe_delivered_at_utc = None\<rparr>))"

section \<open>Tables\<close>

record outbox_row =
  ob_event_id :: string
  ob_topic :: string
  ob_destination :: string
  ob_payload_json :: json_object
  ob_idempotency_key :: string
  ob_status :: outbox_status
  ob_attempts :: int
  ob_available_at_utc :: int
  ob_lease_owner :: "string option"
  ob_lease_expires_at_utc :: "int option"
  ob_last_error :: string
  ob_created_at_utc :: int
  ob_delivered_at_utc :: "int option"

record dead_row =
  dl_event_id :: string
  dl_topic :: string
  dl_destination :: string
  dl_payload_json :: json_object
  dl_idempotency_key :: string
  dl_attempts :: int
  dl_last_error :: string
  dl_created_at_utc :: int
  dl_dead_lettered_at_utc :: int

record outbox_db =
  od_outbox :: "outbox_row list"
  od_dead :: "dead_row list"

definition outbox_empty :: outbox_db where
  "outbox_empty = \<lparr>od_outbox = [], od_dead = []\<rparr>"

text \<open>The columns of an \<^verbatim>\<open>INSERT\<close>: the payload as canonical JSON, empty texts as \<^verbatim>\<open>NULL\<close>.\<close>

definition outbox_row_of :: "outbox_event \<Rightarrow> outbox_row" where
  "outbox_row_of e =
     \<lparr>ob_event_id = oe_event_id e, ob_topic = oe_topic e, ob_destination = oe_destination e,
      ob_payload_json = (case sort_keys (JObj (oe_payload e)) of JObj d \<Rightarrow> d | _ \<Rightarrow> []),
      ob_idempotency_key = oe_idempotency_key e, ob_status = oe_status e, ob_attempts = oe_attempts e,
      ob_available_at_utc = oe_available_at_utc e,
      ob_lease_owner = (if oe_lease_owner e = [] then None else Some (oe_lease_owner e)),
      ob_lease_expires_at_utc = oe_lease_expires_at_utc e, ob_last_error = oe_last_error e,
      ob_created_at_utc = oe_created_at_utc e, ob_delivered_at_utc = oe_delivered_at_utc e\<rparr>"

definition row_event :: "outbox_row \<Rightarrow> outbox_event" where
  "row_event r =
     \<lparr>oe_event_id = ob_event_id r, oe_topic = ob_topic r, oe_destination = ob_destination r,
      oe_payload = ob_payload_json r, oe_idempotency_key = ob_idempotency_key r, oe_status = ob_status r,
      oe_attempts = ob_attempts r, oe_available_at_utc = ob_available_at_utc r,
      oe_lease_owner = (case ob_lease_owner r of None \<Rightarrow> [] | Some w \<Rightarrow> w),
      oe_lease_expires_at_utc = ob_lease_expires_at_utc r, oe_last_error = ob_last_error r,
      oe_created_at_utc = ob_created_at_utc r, oe_delivered_at_utc = ob_delivered_at_utc r\<rparr>"

text \<open>The comparison with a \<^verbatim>\<open>NULL\<close> column is not true.\<close>

definition before_now :: "int option \<Rightarrow> int \<Rightarrow> bool" where
  "before_now t now = (case t of None \<Rightarrow> False | Some x \<Rightarrow> x < now)"

definition claimable :: "int \<Rightarrow> string \<Rightarrow> outbox_row \<Rightarrow> bool" where
  "claimable now destination r \<longleftrightarrow> ob_available_at_utc r \<le> now
     \<and> (ob_status r = PENDING \<or> ob_status r = LEASED \<and> before_now (ob_lease_expires_at_utc r) now)
     \<and> (destination \<noteq> [] \<longrightarrow> ob_destination r = destination)"

definition lease_row :: "string \<Rightarrow> int \<Rightarrow> outbox_row \<Rightarrow> outbox_row" where
  "lease_row worker expiry r = r\<lparr>ob_status := LEASED, ob_lease_owner := Some worker,
     ob_lease_expires_at_utc := Some expiry, ob_attempts := ob_attempts r + 1\<rparr>"

text \<open>The \<^verbatim>\<open>WHERE\<close> clause of the three settling statements.\<close>

definition held_by :: "string \<Rightarrow> string \<Rightarrow> outbox_row \<Rightarrow> bool" where
  "held_by event_id worker r \<longleftrightarrow> ob_event_id r = event_id \<and> ob_status r = LEASED \<and> ob_lease_owner r = Some worker"

definition deliver_row :: "int \<Rightarrow> outbox_row \<Rightarrow> outbox_row" where
  "deliver_row now r = r\<lparr>ob_status := DELIVERED, ob_delivered_at_utc := Some now, ob_lease_owner := None,
     ob_lease_expires_at_utc := None, ob_last_error := []\<rparr>"

definition retry_row :: "int \<Rightarrow> string \<Rightarrow> outbox_row \<Rightarrow> outbox_row" where
  "retry_row available error r = r\<lparr>ob_status := PENDING, ob_available_at_utc := available, ob_lease_owner := None,
     ob_lease_expires_at_utc := None, ob_last_error := take 4000 error\<rparr>"

definition bury_row :: "string \<Rightarrow> outbox_row \<Rightarrow> outbox_row" where
  "bury_row error r = r\<lparr>ob_status := DEAD_LETTER, ob_last_error := take 4000 error, ob_lease_owner := None,
     ob_lease_expires_at_utc := None\<rparr>"

section \<open>Time arithmetic\<close>

text \<open>\<^verbatim>\<open>timedelta(seconds=x)\<close> in microseconds: the fraction of a second is scaled in floating point, the sum
  rounded half to even; and \<^verbatim>\<open>datetime + timedelta\<close>, which ends with the year 9999.\<close>

definition timedelta_us :: "pyfloat \<Rightarrow> exc + int" where
  "timedelta_us x = (case x of
      Fin q \<Rightarrow> let s = (if q < 0 then \<lceil>q\<rceil> else \<lfloor>q\<rfloor>) in
        (case fmul (Fin 1000000) (Fin (q - of_int s)) of
           Fin u \<Rightarrow> let t = rne (of_int s * 1000000 + u) in
             if \<bar>t\<bar> > 999999999 * 86400000000 then Inl (OverflowError ''days; must have magnitude <= 999999999'') else Inr t
         | _ \<Rightarrow> Inl (OverflowError ''cannot convert float infinity to integer''))
    | NaN \<Rightarrow> Inl (ValueError ''cannot convert float NaN to integer'')
    | _ \<Rightarrow> Inl (OverflowError ''cannot convert float infinity to integer''))"

definition datetime_add :: "int \<Rightarrow> int \<Rightarrow> exc + int" where
  "datetime_add t d = (if t + d > 253402300799999999 \<or> t + d < - 62135596800000000
     then Inl (OverflowError ''date value out of range'') else Inr (t + d))"

section \<open>The SQLite store\<close>

definition outbox_clash :: "outbox_event \<Rightarrow> outbox_row \<Rightarrow> bool" where
  "outbox_clash e r \<longleftrightarrow> ob_destination r = oe_destination e \<and> ob_idempotency_key r = oe_idempotency_key e"

definition sqlite_enqueue :: "outbox_event \<Rightarrow> outbox_db \<Rightarrow> (exc + outbox_event) \<times> outbox_db" where
  "sqlite_enqueue e db =
     (if list_ex (\<lambda>r. ob_event_id r = oe_event_id e \<or> outbox_clash e r) (od_outbox db)
      then (case find (outbox_clash e) (od_outbox db) of
          None \<Rightarrow> (Inl (SqliteIntegrityError ''UNIQUE constraint failed: enterprise_outbox.event_id''), db)
        | Some row \<Rightarrow> (Inr (row_event row), db))
      else (Inr e, db\<lparr>od_outbox := od_outbox db @ [outbox_row_of e]\<rparr>))"

definition claim_ids :: "int \<Rightarrow> int \<Rightarrow> string \<Rightarrow> outbox_row list \<Rightarrow> string list" where
  "claim_ids now limit destination t = map ob_event_id
     (sql_limit (max 1 (min limit 100)) 0 (sort_key ob_created_at_utc (filter (claimable now destination) t)))"

definition sqlite_claim ::
    "int \<Rightarrow> string \<Rightarrow> int \<Rightarrow> int \<Rightarrow> string \<Rightarrow> outbox_db \<Rightarrow> (exc + outbox_event list) \<times> outbox_db" where
  "sqlite_claim now worker_id limit lease_seconds destination db =
     (if blank worker_id then (Inl (ValueError ''worker_id is required''), db)
      else case datetime_add now (max 1 lease_seconds * 1000000) of Inl e \<Rightarrow> (Inl e, db)
      | Inr lease_expiry \<Rightarrow>
          let ids = claim_ids now limit destination (od_outbox db);
              t = fold (\<lambda>i. sql_update (\<lambda>r. ob_event_id r = i) (lease_row worker_id lease_expiry)) ids (od_outbox db)
          in (Inr (map row_event (List.map_filter (\<lambda>i. find (\<lambda>r. ob_event_id r = i) t) ids)), db\<lparr>od_outbox := t\<rparr>))"

text \<open>An update of the row a worker holds, refused when there is none; the transaction is rolled back.\<close>

definition settle_row ::
    "string \<Rightarrow> string \<Rightarrow> (outbox_row \<Rightarrow> outbox_row) \<Rightarrow> outbox_db \<Rightarrow> (exc + unit) \<times> outbox_db" where
  "settle_row event_id worker_id f db =
     (if rowcount (held_by event_id worker_id) (od_outbox db) \<noteq> 1 then (Inl (KeyError event_id), db)
      else (Inr (), db\<lparr>od_outbox := sql_update (held_by event_id worker_id) f (od_outbox db)\<rparr>))"

definition sqlite_mark_delivered :: "int \<Rightarrow> string \<Rightarrow> string \<Rightarrow> outbox_db \<Rightarrow> (exc + unit) \<times> outbox_db" where
  "sqlite_mark_delivered now event_id worker_id = settle_row event_id worker_id (deliver_row now)"

definition sqlite_reschedule ::
    "int \<Rightarrow> string \<Rightarrow> string \<Rightarrow> string \<Rightarrow> pyfloat \<Rightarrow> outbox_db \<Rightarrow> (exc + unit) \<times> outbox_db" where
  "sqlite_reschedule now event_id worker_id error delay_seconds db =
     (case ebind (timedelta_us (fmax (Fin 0) delay_seconds)) (datetime_add now) of Inl e \<Rightarrow> (Inl e, db)
      | Inr available \<Rightarrow> settle_row event_id worker_id (retry_row available error) db)"

definition dead_row_of :: "string \<Rightarrow> int \<Rightarrow> outbox_row \<Rightarrow> dead_row" where
  "dead_row_of error now r =
     \<lparr>dl_event_id = ob_event_id r, dl_topic = ob_topic r, dl_destination = ob_destination r,
      dl_payload_json = ob_payload_json r, dl_idempotency_key = ob_idempotency_key r, dl_attempts = ob_attempts r,
      dl_last_error = take 4000 error, dl_created_at_utc = ob_created_at_utc r, dl_dead_lettered_at_utc = now\<rparr>"

text \<open>The \<^verbatim>\<open>SELECT\<close> runs before a transaction is open: the driver begins one only at the \<^verbatim>\<open>INSERT\<close>, and the
  \<^verbatim>\<open>UPDATE\<close> names the event alone.  Reading and writing are therefore two functions, and the operation takes
  what other processes do to the tables between them.  \<^verbatim>\<open>INSERT OR REPLACE\<close> deletes the old row and inserts the new one.\<close>

definition sqlite_dead_letter_read :: "string \<Rightarrow> string \<Rightarrow> outbox_db \<Rightarrow> outbox_row option" where
  "sqlite_dead_letter_read event_id worker_id db = find (held_by event_id worker_id) (od_outbox db)"

definition sqlite_dead_letter_write :: "int \<Rightarrow> string \<Rightarrow> outbox_row \<Rightarrow> string \<Rightarrow> outbox_db \<Rightarrow> outbox_db" where
  "sqlite_dead_letter_write now event_id row error db = db\<lparr>
     od_dead := sql_delete (\<lambda>d. dl_event_id d = ob_event_id row) (od_dead db) @ [dead_row_of error now row],
     od_outbox := sql_update (\<lambda>r. ob_event_id r = event_id) (bury_row error) (od_outbox db)\<rparr>"

definition sqlite_dead_letter ::
    "(outbox_db \<Rightarrow> outbox_db) \<Rightarrow> int \<Rightarrow> string \<Rightarrow> string \<Rightarrow> string \<Rightarrow> outbox_db \<Rightarrow> (exc + unit) \<times> outbox_db" where
  "sqlite_dead_letter between now event_id worker_id error db =
     (case sqlite_dead_letter_read event_id worker_id db of None \<Rightarrow> (Inl (KeyError event_id), db)
      | Some row \<Rightarrow> (Inr (), sqlite_dead_letter_write now event_id row error (between db)))"

definition sqlite_outbox_stats :: "outbox_db \<Rightarrow> (string \<times> int) list" where
  "sqlite_outbox_stats db = map (\<lambda>st. (outbox_status_value st, int (rowcount (\<lambda>r. ob_status r = st) (od_outbox db))))
     [PENDING, LEASED, DELIVERED, DEAD_LETTER]"

section \<open>The PostgreSQL store\<close>

definition pg_enqueue :: "outbox_event \<Rightarrow> outbox_db \<Rightarrow> (exc + outbox_event) \<times> outbox_db" where
  "pg_enqueue e db =
     (case find (outbox_clash e) (od_outbox db) of
        Some row \<Rightarrow> (Inr (row_event row), db)
      | None \<Rightarrow> if list_ex (\<lambda>r. ob_event_id r = oe_event_id e) (od_outbox db)
          then (Inl (OtherExc [''UniqueViolation'', ''IntegrityError'', ''DatabaseError'', ''Error'', ''Exception''] ''duplicate key''), db)
          else (Inr e, db\<lparr>od_outbox := od_outbox db @ [outbox_row_of e]\<rparr>))"

text \<open>One statement: the candidates that nobody else has locked are updated and returned.\<close>

definition pg_claim ::
    "(string \<Rightarrow> int) \<Rightarrow> (string \<Rightarrow> bool) \<Rightarrow> int \<Rightarrow> string \<Rightarrow> int \<Rightarrow> int \<Rightarrow> string \<Rightarrow> outbox_db
     \<Rightarrow> (exc + outbox_event list) \<times> outbox_db" where
  "pg_claim pos locked now worker_id limit lease_seconds destination db =
     (let ids = claim_ids now limit destination (filter (\<lambda>r. \<not> locked (ob_event_id r)) (od_outbox db));
          hit = (\<lambda>r. ob_event_id r \<in> set ids);
          t = sql_update hit (lease_row worker_id (now + max 1 lease_seconds * 1000000)) (od_outbox db)
      in (Inr (map row_event (sort_key (\<lambda>r. pos (ob_event_id r)) (filter hit t))), db\<lparr>od_outbox := t\<rparr>))"

definition pg_mark_delivered :: "int \<Rightarrow> string \<Rightarrow> string \<Rightarrow> outbox_db \<Rightarrow> (exc + unit) \<times> outbox_db" where
  "pg_mark_delivered now event_id worker_id = settle_row event_id worker_id (deliver_row now)"

definition pg_reschedule ::
    "(pyfloat \<Rightarrow> exc + int) \<Rightarrow> int \<Rightarrow> string \<Rightarrow> string \<Rightarrow> string \<Rightarrow> pyfloat \<Rightarrow> outbox_db \<Rightarrow> (exc + unit) \<times> outbox_db" where
  "pg_reschedule ivl now event_id worker_id error delay_seconds db =
     (case ivl (fmax (Fin 0) delay_seconds) of Inl e \<Rightarrow> (Inl e, db)
      | Inr d \<Rightarrow> settle_row event_id worker_id (retry_row (now + d) error) db)"

definition pg_dead_letter :: "int \<Rightarrow> string \<Rightarrow> string \<Rightarrow> string \<Rightarrow> outbox_db \<Rightarrow> (exc + unit) \<times> outbox_db" where
  "pg_dead_letter now event_id worker_id error db =
     (case filter (held_by event_id worker_id) (od_outbox db) of
        [row] \<Rightarrow> (Inr (), db\<lparr>
          od_outbox := sql_update (held_by event_id worker_id) (bury_row error) (od_outbox db),
          od_dead := upsert dl_event_id
            (\<lambda>old new. old\<lparr>dl_attempts := dl_attempts new, dl_last_error := dl_last_error new, dl_dead_lettered_at_utc := now\<rparr>)
            (dead_row_of error now row) (od_dead db)\<rparr>)
      | _ \<Rightarrow> (Inl (KeyError event_id), db))"

section \<open>The worker\<close>

text \<open>The \<^verbatim>\<open>OutboxStore\<close> protocol; the first argument of an operation that reads the clock is the
  reading.  The first argument of \<^verbatim>\<open>dead_letter\<close> is what other processes do while it runs; PostgreSQL has one
  transaction, so there it comes before.\<close>

record outbox_store =
  st_enqueue :: "outbox_event \<Rightarrow> outbox_db \<Rightarrow> (exc + outbox_event) \<times> outbox_db"
  st_claim :: "int \<Rightarrow> string \<Rightarrow> int \<Rightarrow> int \<Rightarrow> string \<Rightarrow> outbox_db \<Rightarrow> (exc + outbox_event list) \<times> outbox_db"
  st_mark_delivered :: "int \<Rightarrow> string \<Rightarrow> string \<Rightarrow> outbox_db \<Rightarrow> (exc + unit) \<times> outbox_db"
  st_reschedule :: "int \<Rightarrow> string \<Rightarrow> string \<Rightarrow> string \<Rightarrow> pyfloat \<Rightarrow> outbox_db \<Rightarrow> (exc + unit) \<times> outbox_db"
  st_dead_letter :: "(outbox_db \<Rightarrow> outbox_db) \<Rightarrow> int \<Rightarrow> string \<Rightarrow> string \<Rightarrow> string \<Rightarrow> outbox_db \<Rightarrow> (exc + unit) \<times> outbox_db"

definition sqlite_outbox :: outbox_store where
  "sqlite_outbox = \<lparr>st_enqueue = sqlite_enqueue, st_claim = sqlite_claim, st_mark_delivered = sqlite_mark_delivered,
     st_reschedule = sqlite_reschedule, st_dead_letter = sqlite_dead_letter\<rparr>"

definition pg_outbox :: "(string \<Rightarrow> int) \<Rightarrow> (string \<Rightarrow> bool) \<Rightarrow> (pyfloat \<Rightarrow> exc + int) \<Rightarrow> outbox_store" where
  "pg_outbox pos locked ivl = \<lparr>st_enqueue = pg_enqueue, st_claim = pg_claim pos locked,
     st_mark_delivered = pg_mark_delivered, st_reschedule = pg_reschedule ivl, 
     st_dead_letter = (\<lambda>between now i w err db. pg_dead_letter now i w err (between db))\<rparr>"

record 'w outbox_worker =
  wk_handlers :: "(string \<times> (outbox_event \<Rightarrow> 'w \<Rightarrow> (exc + unit) \<times> 'w)) list"
  wk_worker_id :: string
  wk_retry_policy :: retry_policy
  wk_max_delivery_attempts :: int
  wk_lease_seconds :: int

definition outbox_worker_init ::
    "string \<Rightarrow> (string \<times> (outbox_event \<Rightarrow> 'w \<Rightarrow> (exc + unit) \<times> 'w)) list \<Rightarrow> string \<Rightarrow> retry_policy \<Rightarrow> int \<Rightarrow> int \<Rightarrow> 'w outbox_worker" where
  "outbox_worker_init uid handlers worker_id policy attempts lease =
     \<lparr>wk_handlers = handlers, wk_worker_id = (if worker_id = [] then ''worker-'' @ uid else worker_id),
      wk_retry_policy = policy, wk_max_delivery_attempts = max 1 attempts, wk_lease_seconds = max 1 lease\<rparr>"

text \<open>What a run can change: the tables, the worker's breakers, the world of the handlers; and the number of
  readings taken.  \<open>we_others\<close> is what other processes did to the tables before the reading of a number,
  \<open>we_between\<close> what they did between the two halves of a \<^verbatim>\<open>dead_letter\<close>.\<close>

record 'w worker_sys =
  ws_db :: outbox_db
  ws_breakers :: "(string \<times> circuit_breaker) list"
  ws_ext :: 'w
  ws_ticks :: nat

record worker_env =
  we_utc :: "nat \<Rightarrow> int"
  we_monotonic :: "nat \<Rightarrow> pyfloat"
  we_random :: "nat \<Rightarrow> pyfloat"
  we_fpow :: "pyfloat \<Rightarrow> int \<Rightarrow> exc + pyfloat"
  we_str :: "exc \<Rightarrow> string"
  we_others :: "nat \<Rightarrow> outbox_db \<Rightarrow> outbox_db"
  we_between :: "nat \<Rightarrow> outbox_db \<Rightarrow> outbox_db"

definition on_outbox :: "worker_env \<Rightarrow> (int \<Rightarrow> outbox_db \<Rightarrow> (exc + 'a) \<times> outbox_db) \<Rightarrow> ('a, 'w worker_sys) eff" where
  "on_outbox env f s = (let n = ws_ticks s in
     case f (we_utc env n) (we_others env n (ws_db s)) of (r, db) \<Rightarrow> (r, s\<lparr>ws_db := db, ws_ticks := n + 1\<rparr>))"

definition deliver :: "worker_env \<Rightarrow> 'w outbox_worker \<Rightarrow> outbox_event \<Rightarrow> (unit, 'w worker_sys) eff" where
  "deliver env wk event s =
     (case map_of (wk_handlers wk) (oe_destination event) of
        None \<Rightarrow> (Inl (KeyError (''No outbox handler registered for destination '' @ oe_destination event)), s)
      | Some handler \<Rightarrow>
          (case map_of (ws_breakers s) (oe_destination event) of
             None \<Rightarrow> (case handler event (ws_ext s) of (r, x) \<Rightarrow> (r, s\<lparr>ws_ext := x\<rparr>))
           | Some breaker \<Rightarrow>
               (let n = ws_ticks s in
                case cb_call (we_monotonic env n) (we_monotonic env (n + 1)) (handler event) (breaker, ws_ext s) of
                  (r, (b, x)) \<Rightarrow> (r, s\<lparr>ws_breakers := AList.update (oe_destination event) b (ws_breakers s),
                                   ws_ext := x, ws_ticks := n + 2\<rparr>))))"

record run_counts =
  rn_delivered :: int
  rn_retried :: int
  rn_dead_lettered :: int

fun deliver_all ::
    "worker_env \<Rightarrow> outbox_store \<Rightarrow> 'w outbox_worker \<Rightarrow> outbox_event list \<Rightarrow> run_counts \<Rightarrow> (run_counts, 'w worker_sys) eff" where
  "deliver_all env st wk [] c s = (Inr c, s)"
| "deliver_all env st wk (event # events) c s =
     (let w = wk_worker_id wk; i = oe_event_id event; n = ws_ticks s in
      case retry_call (we_fpow env) (\<lambda>a. we_random env (n + nat a)) (deliver env wk event) (wk_retry_policy wk) s of
        (Inr _, s1) \<Rightarrow>
          bnd (on_outbox env (\<lambda>now. st_mark_delivered st now i w))
            (\<lambda>_. deliver_all env st wk events (c\<lparr>rn_delivered := rn_delivered c + 1\<rparr>)) s1
      | (Inl e, s1) \<Rightarrow>
          if \<not> is_Exception e then (Inl e, s1)
          else if oe_attempts event \<ge> wk_max_delivery_attempts wk then
            bnd (on_outbox env (\<lambda>now. st_dead_letter st (we_between env (ws_ticks s1)) now i w (we_str env e)))
              (\<lambda>_. deliver_all env st wk events (c\<lparr>rn_dead_lettered := rn_dead_lettered c + 1\<rparr>)) s1
          else (case retry_delay (we_fpow env) (wk_retry_policy wk) (max 1 (oe_attempts event)) (we_random env (ws_ticks s1)) of
                Inl e' \<Rightarrow> (Inl e', s1)
              | Inr delay \<Rightarrow>
                  bnd (on_outbox env (\<lambda>now. st_reschedule st now i w (exc_type_name e @ '': '' @ we_str env e) delay))
                    (\<lambda>_. deliver_all env st wk events (c\<lparr>rn_retried := rn_retried c + 1\<rparr>)) s1))"

definition run_once ::
    "worker_env \<Rightarrow> outbox_store \<Rightarrow> 'w outbox_worker \<Rightarrow> int \<Rightarrow> string \<Rightarrow> (int \<times> run_counts, 'w worker_sys) eff" where
  "run_once env st wk limit destination =
     bnd (on_outbox env (\<lambda>now. st_claim st now (wk_worker_id wk) limit (wk_lease_seconds wk) destination)) (\<lambda>claimed.
     bnd (deliver_all env st wk claimed \<lparr>rn_delivered = 0, rn_retried = 0, rn_dead_lettered = 0\<rparr>) (\<lambda>c.
     ret (int (length claimed), c)))"

section \<open>Adapters\<close>

text \<open>\<^verbatim>\<open>bool(value)\<close>; a decimal is false when its digits are zero.\<close>

fun py_truthy :: "pyval \<Rightarrow> bool" where
  "py_truthy PNone = False"
| "py_truthy (PBool b) = b"
| "py_truthy (PInt i) = (i \<noteq> 0)"
| "py_truthy (PFloat x) = (x \<noteq> Fin 0)"
| "py_truthy (PStr s) = (s \<noteq> [])"
| "py_truthy (PBytes s) = (s \<noteq> [])"
| "py_truthy (PDecimal s) = list_ex (\<lambda>c. c \<notin> set ''+-.0'') (takeWhile (\<lambda>c. c \<noteq> CHR ''E'') s)"
| "py_truthy (PDict d) = (d \<noteq> [])"
| "py_truthy (PList l) = (l \<noteq> [])"
| "py_truthy (PTuple l) = (l \<noteq> [])"
| "py_truthy (PSet l) = (l \<noteq> [])"
| "py_truthy _ = True"

definition str_keys :: "payload \<Rightarrow> pyval" where
  "str_keys p = PDict (map (\<lambda>(k, v). (PStr k, v)) p)"

definition enqueue_created ::
    "outbox_store \<Rightarrow> exc + outbox_event \<Rightarrow> outbox_db \<Rightarrow> (exc + unit) \<times> outbox_db" where
  "enqueue_created st r db = (case r of Inl e \<Rightarrow> (Inl e, db)
     | Inr event \<Rightarrow> (case st_enqueue st event db of (Inl e, db') \<Rightarrow> (Inl e, db') | (Inr _, db') \<Rightarrow> (Inr (), db')))"

text \<open>\<^verbatim>\<open>OutboxEventSink.emit\<close>, from the dictionary of the event.\<close>

definition sink_emit ::
    "(pyfloat \<Rightarrow> string) \<Rightarrow> (pyval \<Rightarrow> string) \<Rightarrow> outbox_store \<Rightarrow> string \<Rightarrow> string \<Rightarrow> string \<Rightarrow> int \<Rightarrow> int \<Rightarrow> payload \<Rightarrow> outbox_db
     \<Rightarrow> (exc + unit) \<times> outbox_db" where
  "sink_emit fr orr st destination topic uid now1 now2 payload =
     (let given = (case map_of payload ''id'' of Some v \<Rightarrow> if py_truthy v then str_of fr orr v else uid | None \<Rightarrow> uid)
      in enqueue_created st (outbox_event_create fr orr uid now1 now2 topic destination (str_keys payload) given given))"

text \<open>\<^verbatim>\<open>OutboxApprovalProvider\<close>: the provider of the approval broker that persists its notifications.\<close>

definition outbox_submit ::
    "(pyfloat \<Rightarrow> string) \<Rightarrow> (pyval \<Rightarrow> string) \<Rightarrow> outbox_store \<Rightarrow> string \<Rightarrow> string \<Rightarrow> string \<Rightarrow> int \<Rightarrow> int \<Rightarrow> approval_request \<Rightarrow> outbox_db
     \<Rightarrow> (exc + string) \<times> outbox_db" where
  "outbox_submit fr orr st destination topic uid now1 now2 q db =
     (case enqueue_created st (outbox_event_create fr orr uid now1 now2 topic destination
        (py_of_json (JObj (request_to_dict fr orr q))) (''approval-request:'' @ rq_checkpoint_id q) []) db of
        (Inl e, db') \<Rightarrow> (Inl e, db') | (Inr _, db') \<Rightarrow> (Inr (rq_request_id q), db'))"

definition outbox_update ::
    "(pyfloat \<Rightarrow> string) \<Rightarrow> (pyval \<Rightarrow> string) \<Rightarrow> outbox_store \<Rightarrow> string \<Rightarrow> string \<Rightarrow> string \<Rightarrow> int \<Rightarrow> int \<Rightarrow> approval_record \<Rightarrow> outbox_db
     \<Rightarrow> (exc + unit) \<times> outbox_db" where
  "outbox_update fr orr st destination topic uid now1 now2 r =
     enqueue_created st (outbox_event_create fr orr uid now1 now2 topic destination
       (str_keys [(''request'', py_of_json (JObj (request_to_dict fr orr (rc_request r)))),
         (''status'', PStr (approval_status_value (rc_status r))), (''external_id'', PStr (rc_external_id r)),
         (''decided_by'', PStr (rc_decided_by r)), (''reason'', PStr (rc_reason r)),
         (''decided_at_epoch_ms'', PInt (rc_decided_at_epoch_ms r))])
       (''approval-update:'' @ rq_checkpoint_id (rc_request r) @ '':'' @ approval_status_value (rc_status r) @ '':'' @
         show_int (rc_decided_at_epoch_ms r)) [])"

end
