(* ===== verification/Outbox_Laws.thy ===== *)
theory Outbox_Laws
  imports Outbox "HOL-Library.Multiset"
begin

text \<open>
  Properties of the outbox.  The tables are seen through the life of each event; the contract of a
  store is a locale that both stores satisfy, and every interleaving of enqueuers and workers on
  either store refines the life cycle.
\<close>

section \<open>Well-formed tables\<close>

definition outbox_key :: "outbox_row \<Rightarrow> string \<times> string" where
  "outbox_key r = (ob_destination r, ob_idempotency_key r)"

definition lease_ok :: "outbox_row \<Rightarrow> bool" where
  "lease_ok r \<longleftrightarrow> 0 \<le> ob_attempts r \<and> (ob_status r = LEASED \<longleftrightarrow> ob_lease_owner r \<noteq> None)
     \<and> (ob_status r = LEASED \<longleftrightarrow> ob_lease_expires_at_utc r \<noteq> None)"

text \<open>The archived copy of a dead letter.\<close>

definition archived :: "outbox_row \<Rightarrow> dead_row \<Rightarrow> bool" where
  "archived r d \<longleftrightarrow> d = dead_row_of (ob_last_error r) (dl_dead_lettered_at_utc d) r"

definition wf_outbox :: "outbox_db \<Rightarrow> bool" where
  "wf_outbox db \<longleftrightarrow> distinct (map ob_event_id (od_outbox db)) \<and> distinct (map outbox_key (od_outbox db))
     \<and> (\<forall>r\<in>set (od_outbox db). lease_ok r)
     \<and> distinct (map dl_event_id (od_dead db))
     \<and> (\<forall>d\<in>set (od_dead db). \<exists>r\<in>set (od_outbox db). ob_status r = DEAD_LETTER \<and> archived r d)
     \<and> (\<forall>r\<in>set (od_outbox db). ob_status r = DEAD_LETTER \<longrightarrow> (\<exists>d\<in>set (od_dead db). archived r d))"

text \<open>What \<open>outbox_event_create\<close> makes.\<close>

definition fresh_event :: "outbox_event \<Rightarrow> bool" where
  "fresh_event e \<longleftrightarrow> oe_status e = PENDING \<and> oe_attempts e = 0 \<and> oe_lease_owner e = [] \<and> oe_lease_expires_at_utc e = None"

lemma created_fresh: "outbox_event_create fr orr uid n1 n2 t d p k i = Inr e \<Longrightarrow> fresh_event e"
  by (auto simp: outbox_event_create_def fresh_event_def ebind_Inr split: if_splits)

section \<open>The contract of a store\<close>

text \<open>The row of an event is the same in two states of the table.\<close>

definition untouched :: "string \<Rightarrow> outbox_db \<Rightarrow> outbox_db \<Rightarrow> bool" where
  "untouched i db0 db \<longleftrightarrow> filter (\<lambda>r. ob_event_id r = i) (od_outbox db0) = filter (\<lambda>r. ob_event_id r = i) (od_outbox db)"

lemma untouched_refl [simp]: "untouched i db db"
  by (simp add: untouched_def)

lemma untouched_held: "untouched i db0 db \<Longrightarrow> find (held_by i w) (od_outbox db0) = find (held_by i w) (od_outbox db)"
proof -
  have "find (held_by i w) t = find (held_by i w) (filter (\<lambda>r. ob_event_id r = i) t)" for t
    by (induction t) (auto simp: held_by_def)
  then show "untouched i db0 db \<Longrightarrow> ?thesis" unfolding untouched_def by metis
qed

definition lease_all :: "string list \<Rightarrow> string \<Rightarrow> int \<Rightarrow> outbox_db \<Rightarrow> outbox_db" where
  "lease_all ids w x db = db\<lparr>od_outbox := sql_update (\<lambda>r. ob_event_id r \<in> set ids) (lease_row w x) (od_outbox db)\<rparr>"

locale outbox_contract =
  fixes st :: outbox_store and date_of :: "int \<Rightarrow> pyfloat \<Rightarrow> exc + int"
  assumes enqueue_law: "wf_outbox db \<Longrightarrow> st_enqueue st e db = (r, db') \<Longrightarrow>
      (case find (outbox_clash e) (od_outbox db) of
         Some row \<Rightarrow> r = Inr (row_event row) \<and> db' = db
       | None \<Rightarrow> if \<exists>r\<in>set (od_outbox db). ob_event_id r = oe_event_id e then (\<exists>x. r = Inl x) \<and> db' = db
           else r = Inr e \<and> db' = db\<lparr>od_outbox := od_outbox db @ [outbox_row_of e]\<rparr>)"
    and claim_law: "wf_outbox db \<Longrightarrow> st_claim st now w limit lease dest db = (Inr es, db') \<Longrightarrow>
      distinct (map oe_event_id es) \<and> length es \<le> 100
      \<and> (\<forall>e\<in>set es. \<exists>r\<in>set (od_outbox db). claimable now dest r \<and> e = row_event (lease_row w (now + max 1 lease * 1000000) r))
      \<and> db' = lease_all (map oe_event_id es) w (now + max 1 lease * 1000000) db"
    and claim_failed: "st_claim st now w limit lease dest db = (Inl x, db') \<Longrightarrow> db' = db"
    and deliver_law: "st_mark_delivered st now i w db = settle_row i w (deliver_row now) db"
    and retry_law: "st_reschedule st now i w err d db = (case date_of now d of Inl x \<Rightarrow> (Inl x, db)
      | Inr available \<Rightarrow> settle_row i w (retry_row available err) db)"
    and during_law: "st_dead_letter st between now i w err db = st_dead_letter st (\<lambda>_. between db) now i w err db"
    and bury_law: "wf_outbox db \<Longrightarrow> untouched i db0 db \<Longrightarrow> st_dead_letter st (\<lambda>_. db) now i w err db0 = (q, db') \<Longrightarrow>
      (case find (held_by i w) (od_outbox db) of
         None \<Rightarrow> q = Inl (KeyError i) \<and> (db' = db0 \<or> db' = db)
       | Some row \<Rightarrow> q = Inr () \<and> db' = db\<lparr>od_outbox := sql_update (held_by i w) (bury_row err) (od_outbox db),
           od_dead := od_dead db @ [dead_row_of err now row]\<rparr>)"

section \<open>Both stores keep the contract\<close>

lemma fold_lease:
  "distinct ids \<Longrightarrow> fold (\<lambda>i. sql_update (\<lambda>r. ob_event_id r = i) (lease_row w x)) ids t
     = sql_update (\<lambda>r. ob_event_id r \<in> set ids) (lease_row w x) t"
proof (induction ids arbitrary: t)
  case Nil
  then show ?case by (simp add: sql_update_def)
next
  case (Cons i ids)
  then show ?case by (auto simp: sql_update_def lease_row_def)
qed

lemma claim_ids_sound:
  assumes "distinct (map ob_event_id t)"
  shows "distinct (claim_ids now limit dest t)" "length (claim_ids now limit dest t) \<le> 100"
    "i \<in> set (claim_ids now limit dest t) \<Longrightarrow> \<exists>r\<in>set t. ob_event_id r = i \<and> claimable now dest r"
proof -
  let ?s = "sort_key ob_created_at_utc (filter (claimable now dest) t)"
  have "distinct (map ob_event_id (filter (claimable now dest) t))"
    using assms by (simp add: distinct_map_filter)
  moreover have "mset (map ob_event_id ?s) = mset (map ob_event_id (filter (claimable now dest) t))"
    by simp
  ultimately have d: "distinct (map ob_event_id ?s)"
    using mset_eq_imp_distinct_iff by metis
  then show "distinct (claim_ids now limit dest t)"
    unfolding claim_ids_def sql_limit_def by (metis distinct_take take_map drop_0 nat_zero_as_int)
  show "length (claim_ids now limit dest t) \<le> 100"
    by (simp add: claim_ids_def sql_limit_def)
  show "i \<in> set (claim_ids now limit dest t) \<Longrightarrow> \<exists>r\<in>set t. ob_event_id r = i \<and> claimable now dest r"
    by (auto simp: claim_ids_def sql_limit_def dest!: in_set_takeD)
qed

lemma row_event_id [simp]: "oe_event_id (row_event r) = ob_event_id r"
  by (simp add: row_event_def)

lemma lease_row_simps [simp]:
  "ob_event_id (lease_row w x r) = ob_event_id r" "ob_status (lease_row w x r) = LEASED"
  "ob_lease_owner (lease_row w x r) = Some w" "ob_lease_expires_at_utc (lease_row w x r) = Some x"
  "ob_attempts (lease_row w x r) = ob_attempts r + 1" "outbox_key (lease_row w x r) = outbox_key r"
  by (simp_all add: lease_row_def outbox_key_def)

lemma wf_outbox_ids: "wf_outbox db \<Longrightarrow> distinct (map ob_event_id (od_outbox db))"
  by (simp add: wf_outbox_def)

lemma find_held:
  assumes "distinct (map ob_event_id t)"
  shows "filter (held_by i w) t = (case find (held_by i w) t of None \<Rightarrow> [] | Some r \<Rightarrow> [r])"
proof -
  have "rowcount (held_by i w) t \<le> 1"
    by (rule rowcount_key_le_one [OF assms, of _ i]) (simp add: held_by_def)
  then show ?thesis
    by (induction t) (auto simp: rowcount_def find_None_iff filter_empty_conv split: option.splits dest: find_Some_prop)
qed

lemma update_held:
  assumes "distinct (map ob_event_id t)" "find (held_by i w) t = Some row"
  shows "sql_update (\<lambda>r. ob_event_id r = i) f t = sql_update (held_by i w) f t"
proof -
  have row: "row \<in> set t" "held_by i w row" using find_Some_prop [OF assms(2)] by simp_all
  have "r = row" if "r \<in> set t" "ob_event_id r = i" for r
    using distinct_key_unique [OF assms(1) that(1) row(1)] row(2) that(2) by (simp add: held_by_def)
  then show ?thesis using row(2) by (auto simp: sql_update_def held_by_def intro!: map_cong)
qed

lemma held_not_archived:
  assumes "wf_outbox db" "find (held_by i w) (od_outbox db) = Some row" "d \<in> set (od_dead db)"
  shows "dl_event_id d \<noteq> ob_event_id row"
proof
  assume eq: "dl_event_id d = ob_event_id row"
  obtain r where r: "r \<in> set (od_outbox db)" "ob_status r = DEAD_LETTER" "archived r d"
    using assms(1,3) by (auto simp: wf_outbox_def)
  have "dl_event_id d = ob_event_id r" using r(3) by (simp add: archived_def dead_row_of_def) (metis dead_row.select_convs(1))
  then have "r = row"
    using distinct_key_unique [OF wf_outbox_ids [OF assms(1)] r(1)] find_Some_prop [OF assms(2)] eq by simp
  then show False using r(2) find_Some_prop [OF assms(2)] by (simp add: held_by_def)
qed

lemma list_ex_or: "list_ex (\<lambda>r. P r \<or> Q r) t \<longleftrightarrow> (\<exists>r\<in>set t. P r) \<or> (\<exists>r\<in>set t. Q r)"
  by (auto simp: list_ex_iff)

text \<open>The rows a claim reads back are the rows it leased.\<close>

lemma claimed_rows:
  assumes "distinct (map ob_event_id t)" "i \<in> set ids" "r \<in> set t" "ob_event_id r = i"
  shows "find (\<lambda>r. ob_event_id r = i) (sql_update (\<lambda>r. ob_event_id r \<in> set ids) (lease_row w x) t) = Some (lease_row w x r)"
proof -
  have "find (\<lambda>r. ob_event_id r = i) t = Some r" using find_key_eq [OF assms(1,3)] assms(4) by simp
  then show ?thesis using assms(2,4) by (subst find_sql_update) simp_all
qed

lemma sqlite_claim_law:
  assumes "wf_outbox db" "sqlite_claim now w limit lease dest db = (Inr es, db')"
  shows "distinct (map oe_event_id es) \<and> length es \<le> 100
      \<and> (\<forall>e\<in>set es. \<exists>r\<in>set (od_outbox db). claimable now dest r \<and> e = row_event (lease_row w (now + max 1 lease * 1000000) r))
      \<and> db' = lease_all (map oe_event_id es) w (now + max 1 lease * 1000000) db"
proof -
  define x where "x = now + max 1 lease * 1000000"
  define ids where "ids = claim_ids now limit dest (od_outbox db)"
  define t where "t = sql_update (\<lambda>r. ob_event_id r \<in> set ids) (lease_row w x) (od_outbox db)"
  note d = wf_outbox_ids [OF assms(1)]
  note ids = claim_ids_sound [OF d, where now = now and limit = limit and dest = dest, folded ids_def]
  define found where "found = map (\<lambda>i. row_event (lease_row w x (the (find (\<lambda>r. ob_event_id r = i) (od_outbox db))))) ids"
  have one: "find (\<lambda>r. ob_event_id r = i) (od_outbox db) = Some r \<Longrightarrow> i \<in> set ids \<Longrightarrow>
      find (\<lambda>r. ob_event_id r = i) t = Some (lease_row w x r)" for i r
    using claimed_rows [OF d, of i ids r] find_Some_prop [of "\<lambda>r. ob_event_id r = i"] by (auto simp: t_def)
  have all: "\<exists>r\<in>set (od_outbox db). find (\<lambda>r. ob_event_id r = i) (od_outbox db) = Some r \<and> claimable now dest r \<and> ob_event_id r = i"
    if i: "i \<in> set ids" for i
    using ids(3) [OF i] find_key_eq [OF d] by blast
  have "List.map_filter (\<lambda>i. find (\<lambda>r. ob_event_id r = i) t) js
      = map (\<lambda>i. lease_row w x (the (find (\<lambda>r. ob_event_id r = i) (od_outbox db)))) js" if "set js \<subseteq> set ids" for js
    using that
  proof (induction js)
    case (Cons j js)
    then show ?case using all [of j] one [of j] by (auto simp: List.map_filter_simps)
  qed (simp add: List.map_filter_simps)
  then have es: "es = found" and db': "db' = db\<lparr>od_outbox := t\<rparr>"
    using assms(2) fold_lease [OF ids(1)]
    by (auto simp: sqlite_claim_def datetime_add_def Let_def found_def ids_def t_def x_def split: if_splits)
  have "oe_event_id (row_event (lease_row w x (the (find (\<lambda>r. ob_event_id r = i) (od_outbox db))))) = i" if "i \<in> set ids" for i
    using all [OF that] by auto
  then have i: "map oe_event_id found = ids" unfolding found_def by (simp add: map_idI)
  have "\<forall>e\<in>set found. \<exists>r\<in>set (od_outbox db). claimable now dest r \<and> e = row_event (lease_row w x r)"
    using all unfolding found_def by fastforce
  then show ?thesis
    using i ids(1,2) db' unfolding es x_def [symmetric] lease_all_def by (simp add: t_def found_def)
qed

lemma pg_claim_law:
  assumes "wf_outbox db" "pg_claim pos locked now w limit lease dest db = (Inr es, db')"
  shows "distinct (map oe_event_id es) \<and> length es \<le> 100
      \<and> (\<forall>e\<in>set es. \<exists>r\<in>set (od_outbox db). claimable now dest r \<and> e = row_event (lease_row w (now + max 1 lease * 1000000) r))
      \<and> db' = lease_all (map oe_event_id es) w (now + max 1 lease * 1000000) db"
proof -
  define x where "x = now + max 1 lease * 1000000"
  define t0 where "t0 = filter (\<lambda>r. \<not> locked (ob_event_id r)) (od_outbox db)"
  define ids where "ids = claim_ids now limit dest t0"
  define t where "t = sql_update (\<lambda>r. ob_event_id r \<in> set ids) (lease_row w x) (od_outbox db)"
  define hit where "hit = filter (\<lambda>r. ob_event_id r \<in> set ids) t"
  define found where "found = sort_key (\<lambda>r. pos (ob_event_id r)) hit"
  note d = wf_outbox_ids [OF assms(1)]
  have d0: "distinct (map ob_event_id t0)" using d by (simp add: t0_def distinct_map_filter)
  note ids = claim_ids_sound [OF d0, where now = now and limit = limit and dest = dest, folded ids_def]
  have es: "es = map row_event found" "db' = db\<lparr>od_outbox := t\<rparr>"
    using assms(2) by (auto simp: pg_claim_def Let_def found_def hit_def ids_def t_def x_def t0_def)
  have "map ob_event_id t = map ob_event_id (od_outbox db)" unfolding t_def by (rule map_sql_update) simp
  then have dt: "distinct (map ob_event_id t)" using d by simp
  then have "distinct (map ob_event_id hit)" by (simp add: hit_def distinct_map_filter)
  moreover have mset: "mset (map ob_event_id found) = mset (map ob_event_id hit)" by (simp add: found_def)
  ultimately have df: "distinct (map ob_event_id found)" using mset_eq_imp_distinct_iff by metis
  have row: "\<exists>r\<in>set (od_outbox db). claimable now dest r \<and> e = lease_row w x r" if "e \<in> set hit" for e
  proof -
    have e: "e \<in> set t" "ob_event_id e \<in> set ids" using that by (simp_all add: hit_def)
    then obtain r where r: "r \<in> set (od_outbox db)" "e = lease_row w x r"
      unfolding t_def by (auto simp: set_sql_update)
    obtain r' where r': "r' \<in> set t0" "ob_event_id r' = ob_event_id r" "claimable now dest r'"
      using ids(3) [OF e(2)] r(2) by auto
    then have "r' = r" using distinct_key_unique [OF d _ r(1)] by (simp add: t0_def)
    then show ?thesis using r r'(3) by auto
  qed
  have ids_hit: "set (map ob_event_id hit) = set ids"
  proof
    show "set ids \<subseteq> set (map ob_event_id hit)"
    proof
      fix i assume i: "i \<in> set ids"
      then obtain r where "r \<in> set (od_outbox db)" "ob_event_id r = i" using ids(3) [OF i] by (auto simp: t0_def)
      then have "lease_row w x r \<in> set hit" "ob_event_id (lease_row w x r) = i"
        using i by (auto simp: hit_def t_def set_sql_update)
      then show "i \<in> set (map ob_event_id hit)" by (metis image_eqI set_map)
    qed
  qed (auto simp: hit_def)
  then have seteq: "set (map ob_event_id found) = set ids" using mset by (metis mset_eq_setD)
  have "length found = card (set ids)" using distinct_card [OF df] seteq by simp
  then have "length found \<le> 100" using ids(2) card_length [of ids] by linarith
  moreover have "map oe_event_id es = map ob_event_id found" by (simp add: es)
  moreover have "\<forall>e\<in>set es. \<exists>r\<in>set (od_outbox db). claimable now dest r \<and> e = row_event (lease_row w x r)"
    using row by (fastforce simp: es found_def)
  ultimately show ?thesis
    using df seteq es unfolding x_def [symmetric] lease_all_def by (simp add: t_def comp_def)
qed

lemma find_clash_None: "find (outbox_clash e) t = None \<Longrightarrow> r \<in> set t \<Longrightarrow> \<not> outbox_clash e r"
  by (simp add: find_None_conv)

definition sqlite_date :: "int \<Rightarrow> pyfloat \<Rightarrow> exc + int" where
  "sqlite_date now d = ebind (timedelta_us (fmax (Fin 0) d)) (datetime_add now)"

definition pg_date :: "(pyfloat \<Rightarrow> exc + int) \<Rightarrow> int \<Rightarrow> pyfloat \<Rightarrow> exc + int" where
  "pg_date ivl now d = ebind (ivl (fmax (Fin 0) d)) (\<lambda>u. Inr (now + u))"

interpretation sqlite_box: outbox_contract sqlite_outbox sqlite_date
proof
  fix db e r db'
  assume "st_enqueue sqlite_outbox e db = (r, db')"
  then show "case find (outbox_clash e) (od_outbox db) of Some row \<Rightarrow> r = Inr (row_event row) \<and> db' = db
       | None \<Rightarrow> if \<exists>r\<in>set (od_outbox db). ob_event_id r = oe_event_id e then (\<exists>x. r = Inl x) \<and> db' = db
           else r = Inr e \<and> db' = db\<lparr>od_outbox := od_outbox db @ [outbox_row_of e]\<rparr>"
    by (auto simp: sqlite_outbox_def sqlite_enqueue_def list_ex_or split: option.splits if_splits
        dest: find_Some_prop find_clash_None)
next
  fix db now w limit lease dest es db'
  assume "wf_outbox db" "st_claim sqlite_outbox now w limit lease dest db = (Inr es, db')"
  then show "distinct (map oe_event_id es) \<and> length es \<le> 100
      \<and> (\<forall>e\<in>set es. \<exists>r\<in>set (od_outbox db). claimable now dest r \<and> e = row_event (lease_row w (now + max 1 lease * 1000000) r))
      \<and> db' = lease_all (map oe_event_id es) w (now + max 1 lease * 1000000) db"
    by (intro sqlite_claim_law) (simp_all add: sqlite_outbox_def)
next
  fix now w limit lease dest db x db'
  assume "st_claim sqlite_outbox now w limit lease dest db = (Inl x, db')"
  then show "db' = db" by (auto simp: sqlite_outbox_def sqlite_claim_def Let_def split: if_splits sum.splits)
next
  fix db now i w
  show "st_mark_delivered sqlite_outbox now i w db = settle_row i w (deliver_row now) db"
    by (simp add: sqlite_outbox_def sqlite_mark_delivered_def)
next
  fix db now i w err d
  show "st_reschedule sqlite_outbox now i w err d db = (case sqlite_date now d of Inl x \<Rightarrow> (Inl x, db)
      | Inr available \<Rightarrow> settle_row i w (retry_row available err) db)"
    by (simp add: sqlite_outbox_def sqlite_reschedule_def sqlite_date_def ebind_def split: sum.split)
next
  fix between now i w err db
  show "st_dead_letter sqlite_outbox between now i w err db = st_dead_letter sqlite_outbox (\<lambda>_. between db) now i w err db"
    by (simp add: sqlite_outbox_def sqlite_dead_letter_def)
next
  fix db db0 now i w err q db'
  assume wf: "wf_outbox db" and un: "untouched i db0 db" and st: "st_dead_letter sqlite_outbox (\<lambda>_. db) now i w err db0 = (q, db')"
  show "case find (held_by i w) (od_outbox db) of None \<Rightarrow> q = Inl (KeyError i) \<and> (db' = db0 \<or> db' = db)
     | Some row \<Rightarrow> q = Inr () \<and> db' = db\<lparr>od_outbox := sql_update (held_by i w) (bury_row err) (od_outbox db),
           od_dead := od_dead db @ [dead_row_of err now row]\<rparr>"
  proof (cases "find (held_by i w) (od_outbox db)")
    case (Some row)
    have "sql_delete (\<lambda>d. dl_event_id d = ob_event_id row) (od_dead db) = od_dead db"
      unfolding sql_delete_def using held_not_archived [OF wf Some] by simp
    then show ?thesis
      using st Some update_held [OF wf_outbox_ids [OF wf] Some]
      by (auto simp: sqlite_outbox_def sqlite_dead_letter_def sqlite_dead_letter_read_def sqlite_dead_letter_write_def untouched_held [OF un])
  qed (use st in \<open>auto simp: sqlite_outbox_def sqlite_dead_letter_def sqlite_dead_letter_read_def untouched_held [OF un]\<close>)
qed

interpretation pg_box: outbox_contract "pg_outbox pos locked ivl" "pg_date ivl" for pos locked ivl
proof
  fix db e r db'
  assume "st_enqueue (pg_outbox pos locked ivl) e db = (r, db')"
  then show "case find (outbox_clash e) (od_outbox db) of Some row \<Rightarrow> r = Inr (row_event row) \<and> db' = db
       | None \<Rightarrow> if \<exists>r\<in>set (od_outbox db). ob_event_id r = oe_event_id e then (\<exists>x. r = Inl x) \<and> db' = db
           else r = Inr e \<and> db' = db\<lparr>od_outbox := od_outbox db @ [outbox_row_of e]\<rparr>"
    by (auto simp: pg_outbox_def pg_enqueue_def list_ex_iff split: option.splits if_splits)
next
  fix db now w limit lease dest es db'
  assume "wf_outbox db" "st_claim (pg_outbox pos locked ivl) now w limit lease dest db = (Inr es, db')"
  then show "distinct (map oe_event_id es) \<and> length es \<le> 100
      \<and> (\<forall>e\<in>set es. \<exists>r\<in>set (od_outbox db). claimable now dest r \<and> e = row_event (lease_row w (now + max 1 lease * 1000000) r))
      \<and> db' = lease_all (map oe_event_id es) w (now + max 1 lease * 1000000) db"
    by (intro pg_claim_law) (simp_all add: pg_outbox_def)
next
  fix now w limit lease dest db x db'
  assume "st_claim (pg_outbox pos locked ivl) now w limit lease dest db = (Inl x, db')"
  then show "db' = db" by (auto simp: pg_outbox_def pg_claim_def Let_def)
next
  fix db now i w
  show "st_mark_delivered (pg_outbox pos locked ivl) now i w db = settle_row i w (deliver_row now) db"
    by (simp add: pg_outbox_def pg_mark_delivered_def)
next
  fix db now i w err d
  show "st_reschedule (pg_outbox pos locked ivl) now i w err d db = (case pg_date ivl now d of Inl x \<Rightarrow> (Inl x, db)
      | Inr available \<Rightarrow> settle_row i w (retry_row available err) db)"
    by (simp add: pg_outbox_def pg_reschedule_def pg_date_def ebind_def split: sum.split)
next
  fix between now i w err db
  show "st_dead_letter (pg_outbox pos locked ivl) between now i w err db
      = st_dead_letter (pg_outbox pos locked ivl) (\<lambda>_. between db) now i w err db"
    by (simp add: pg_outbox_def)
next
  fix db db0 now i w err q db'
  assume wf: "wf_outbox db" and st: "st_dead_letter (pg_outbox pos locked ivl) (\<lambda>_. db) now i w err db0 = (q, db')"
  show "case find (held_by i w) (od_outbox db) of None \<Rightarrow> q = Inl (KeyError i) \<and> (db' = db0 \<or> db' = db)
     | Some row \<Rightarrow> q = Inr () \<and> db' = db\<lparr>od_outbox := sql_update (held_by i w) (bury_row err) (od_outbox db),
           od_dead := od_dead db @ [dead_row_of err now row]\<rparr>"
  proof (cases "find (held_by i w) (od_outbox db)")
    case (Some row)
    have "dl_event_id (dead_row_of err now row) = ob_event_id row" by (simp add: dead_row_of_def)
    then have "upsert dl_event_id m (dead_row_of err now row) (od_dead db) = od_dead db @ [dead_row_of err now row]" for m
      using held_not_archived [OF wf Some] by (auto simp: upsert_def list_ex_iff)
    then show ?thesis
      using st Some find_held [OF wf_outbox_ids [OF wf], of i w]
      by (auto simp: pg_outbox_def pg_dead_letter_def)
  qed (use st find_held [OF wf_outbox_ids [OF wf], of i w] in \<open>auto simp: pg_outbox_def pg_dead_letter_def\<close>)
qed

section \<open>The life of an event\<close>

text \<open>The life cycle the outbox promises, by number of leases taken: an event waits, is held by one worker
  until an instant, and ends delivered or buried.\<close>

datatype life = Waiting int | Held string int int | Done int | Buried int

datatype outbox_label =
    Enqueued outbox_event outbox_event
  | Claimed string int int "string list"
  | Delivered_By string string
  | Retried_By string string
  | Buried_By string string
  | Refused

fun free_at :: "int \<Rightarrow> life \<Rightarrow> bool" where
  "free_at now (Waiting n) = True"
| "free_at now (Held w n x) = (x < now)"
| "free_at now _ = False"

fun leases :: "life \<Rightarrow> int" where
  "leases (Waiting n) = n"
| "leases (Held w n x) = n"
| "leases (Done n) = n"
| "leases (Buried n) = n"

inductive life_step :: "outbox_label \<Rightarrow> (string \<rightharpoonup> life) \<Rightarrow> (string \<rightharpoonup> life) \<Rightarrow> bool" where
  born: "m (oe_event_id e) = None \<Longrightarrow> life_step (Enqueued e e) m (m(oe_event_id e \<mapsto> Waiting 0))"
| known: "oe_event_id e' \<in> dom m \<Longrightarrow> life_step (Enqueued e e') m m"
| claimed: "distinct ids \<Longrightarrow> (\<forall>i\<in>set ids. \<exists>l. m i = Some l \<and> free_at now l) \<Longrightarrow>
    life_step (Claimed w now x ids) m (\<lambda>i. if i \<in> set ids then map_option (\<lambda>l. Held w (leases l + 1) x) (m i) else m i)"
| delivered: "m i = Some (Held w n x) \<Longrightarrow> life_step (Delivered_By w i) m (m(i \<mapsto> Done n))"
| retried: "m i = Some (Held w n x) \<Longrightarrow> life_step (Retried_By w i) m (m(i \<mapsto> Waiting n))"
| buried: "m i = Some (Held w n x) \<Longrightarrow> life_step (Buried_By w i) m (m(i \<mapsto> Buried n))"
| refused: "life_step Refused m m"

inductive_cases life_step_cases: "life_step l m m'"

inductive life_run :: "outbox_label list \<Rightarrow> (string \<rightharpoonup> life) \<Rightarrow> bool" where
  start: "life_run [] Map.empty"
| more: "life_run ls m \<Longrightarrow> life_step l m m' \<Longrightarrow> life_run (ls @ [l]) m'"

text \<open>Runs of the stores: enqueuers and workers in any order, each operation at any reading of the clock.  A
  \<^verbatim>\<open>dead_letter\<close> takes effect when it writes; what it read then is the state at an earlier time, and the runs are
  those in which nobody touched the event meanwhile (\<open>stale_burial\<close> shows what happens otherwise).\<close>

datatype backend = Sqlite | Postgres

fun stores_of :: "backend \<Rightarrow> outbox_store set" where
  "stores_of Sqlite = {sqlite_outbox}"
| "stores_of Postgres = {st. \<exists>pos locked ivl. st = pg_outbox pos locked ivl}"

inductive outbox_step :: "outbox_store \<Rightarrow> outbox_label \<Rightarrow> outbox_db \<Rightarrow> outbox_db \<Rightarrow> bool" for st where
  enq: "fresh_event e \<Longrightarrow> st_enqueue st e db = (Inr e', db') \<Longrightarrow> outbox_step st (Enqueued e e') db db'"
| enq_refused: "st_enqueue st e db = (Inl y, db') \<Longrightarrow> outbox_step st Refused db db'"
| clm: "st_claim st now w limit lease dest db = (Inr es, db') \<Longrightarrow>
    outbox_step st (Claimed w now (now + max 1 lease * 1000000) (map oe_event_id es)) db db'"
| clm_refused: "st_claim st now w limit lease dest db = (Inl y, db') \<Longrightarrow> outbox_step st Refused db db'"
| dlv: "st_mark_delivered st now i w db = (Inr (), db') \<Longrightarrow> outbox_step st (Delivered_By w i) db db'"
| dlv_refused: "st_mark_delivered st now i w db = (Inl y, db') \<Longrightarrow> outbox_step st Refused db db'"
| rty: "st_reschedule st now i w err d db = (Inr (), db') \<Longrightarrow> outbox_step st (Retried_By w i) db db'"
| rty_refused: "st_reschedule st now i w err d db = (Inl y, db') \<Longrightarrow> outbox_step st Refused db db'"
| bry: "untouched i db0 db \<Longrightarrow> st_dead_letter st (\<lambda>_. db) now i w err db0 = (Inr (), db') \<Longrightarrow> outbox_step st (Buried_By w i) db db'"
| bry_refused: "st_dead_letter st (\<lambda>_. db) now i w err db = (Inl y, db') \<Longrightarrow> outbox_step st Refused db db'"

inductive outbox_run :: "backend \<Rightarrow> outbox_label list \<Rightarrow> outbox_db \<Rightarrow> bool" for b where
  begin_run: "outbox_run b [] outbox_empty"
| next_op: "outbox_run b ls db \<Longrightarrow> st \<in> stores_of b \<Longrightarrow> outbox_step st l db db' \<Longrightarrow> outbox_run b (ls @ [l]) db'"

definition life_of :: "outbox_row \<Rightarrow> life" where
  "life_of r = (case ob_status r of
      PENDING \<Rightarrow> Waiting (ob_attempts r)
    | LEASED \<Rightarrow> Held (the (ob_lease_owner r)) (ob_attempts r) (the (ob_lease_expires_at_utc r))
    | DELIVERED \<Rightarrow> Done (ob_attempts r)
    | DEAD_LETTER \<Rightarrow> Buried (ob_attempts r))"

definition lives :: "outbox_db \<Rightarrow> string \<rightharpoonup> life" where
  "lives db i = map_option life_of (find (\<lambda>r. ob_event_id r = i) (od_outbox db))"

lemma lives_row:
  "wf_outbox db \<Longrightarrow> r \<in> set (od_outbox db) \<Longrightarrow> lives db (ob_event_id r) = Some (life_of r)"
  by (simp add: lives_def find_key_eq [OF wf_outbox_ids])

lemma lives_Some: "lives db i = Some l \<Longrightarrow> \<exists>r\<in>set (od_outbox db). ob_event_id r = i \<and> l = life_of r"
  by (auto simp: lives_def dest: find_Some_prop)

lemma life_of_Done: "Done n = life_of r \<Longrightarrow> ob_status r = DELIVERED"
  by (cases "ob_status r") (auto simp: life_of_def)

lemma life_of_Held: "lease_ok r \<Longrightarrow> Held w n x = life_of r \<Longrightarrow> ob_status r = LEASED \<and> ob_lease_owner r = Some w"
  by (cases "ob_status r") (auto simp: life_of_def lease_ok_def)

lemma lives_update:
  assumes "\<And>r. p r \<Longrightarrow> ob_event_id (f r) = ob_event_id r"
  shows "map_option life_of (find (\<lambda>r. ob_event_id r = i) (sql_update p f t))
     = map_option (\<lambda>r. if p r then life_of (f r) else life_of r) (find (\<lambda>r. ob_event_id r = i) t)"
  using assms by (subst find_sql_update) (auto simp: option.map_comp intro: map_option_cong)

section \<open>Every store operation keeps the tables well-formed and follows the life cycle\<close>

text \<open>Updates of one row that change nothing but its delivery state.\<close>

definition same_event :: "outbox_row \<Rightarrow> outbox_row \<Rightarrow> bool" where
  "same_event r r' \<longleftrightarrow> ob_event_id r' = ob_event_id r \<and> outbox_key r' = outbox_key r \<and> ob_topic r' = ob_topic r
     \<and> ob_payload_json r' = ob_payload_json r \<and> ob_created_at_utc r' = ob_created_at_utc r"

lemma same_event_rows [simp]:
  "same_event r (lease_row w x r)" "same_event r (deliver_row now r)" "same_event r (retry_row a err r)" "same_event r (bury_row err r)"
  by (simp_all add: same_event_def lease_row_def deliver_row_def retry_row_def bury_row_def outbox_key_def)

lemma settled_row_simps [simp]:
  "ob_status (deliver_row now r) = DELIVERED" "ob_status (retry_row a err r) = PENDING" "ob_status (bury_row err r) = DEAD_LETTER"
  "ob_event_id (bury_row err r) = ob_event_id r" "lease_ok r \<Longrightarrow> lease_ok (deliver_row now r)" "lease_ok r \<Longrightarrow> lease_ok (retry_row a err r)"
  "life_of (deliver_row now r) = Done (ob_attempts r)" "life_of (retry_row a err r) = Waiting (ob_attempts r)"
  by (simp_all add: deliver_row_def retry_row_def bury_row_def lease_ok_def life_of_def)

lemma wf_update_live:
  assumes "wf_outbox db" "\<And>r. p r \<Longrightarrow> same_event r (f r)" "\<And>r. p r \<Longrightarrow> lease_ok r \<Longrightarrow> lease_ok (f r)"
    "\<And>r. p r \<Longrightarrow> r \<in> set (od_outbox db) \<Longrightarrow> ob_status r \<noteq> DEAD_LETTER \<and> ob_status (f r) \<noteq> DEAD_LETTER"
  shows "wf_outbox (db\<lparr>od_outbox := sql_update p f (od_outbox db)\<rparr>)"
proof -
  have ids: "map ob_event_id (sql_update p f (od_outbox db)) = map ob_event_id (od_outbox db)"
    "map outbox_key (sql_update p f (od_outbox db)) = map outbox_key (od_outbox db)"
    using assms(2) by (auto simp: same_event_def intro!: map_sql_update)
  have "{r \<in> set (sql_update p f (od_outbox db)). ob_status r = DEAD_LETTER} = {r \<in> set (od_outbox db). ob_status r = DEAD_LETTER}"
    using assms(4) by (auto simp: set_sql_update)
  moreover have "\<forall>r\<in>set (sql_update p f (od_outbox db)). lease_ok r"
    using assms(1,3) by (auto simp: set_sql_update wf_outbox_def)
  ultimately show ?thesis using assms(1) unfolding wf_outbox_def by (simp add: ids) blast
qed

lemma row_of_simps [simp]:
  "ob_event_id (outbox_row_of e) = oe_event_id e" "outbox_key (outbox_row_of e) = (oe_destination e, oe_idempotency_key e)"
  by (simp_all add: outbox_row_of_def outbox_key_def)

lemma clash_key: "outbox_clash e r \<longleftrightarrow> outbox_key r = outbox_key (outbox_row_of e)"
  by (auto simp: outbox_clash_def outbox_row_of_def outbox_key_def)

lemma born_ok:
  assumes "wf_outbox db" "fresh_event e" "find (outbox_clash e) (od_outbox db) = None"
    "\<forall>r\<in>set (od_outbox db). ob_event_id r \<noteq> oe_event_id e"
  defines "db' \<equiv> db\<lparr>od_outbox := od_outbox db @ [outbox_row_of e]\<rparr>"
  shows "wf_outbox db' \<and> lives db (oe_event_id e) = None \<and> lives db' = (lives db)(oe_event_id e \<mapsto> Waiting 0)"
proof -
  have key: "outbox_key (outbox_row_of e) \<notin> outbox_key ` set (od_outbox db)"
    using assms(3) by (auto simp: find_None_conv clash_key simp del: row_of_simps)
  have ok: "lease_ok (outbox_row_of e)" and st: "ob_status (outbox_row_of e) = PENDING" "ob_attempts (outbox_row_of e) = 0"
    using assms(2) by (simp_all add: fresh_event_def lease_ok_def outbox_row_of_def)
  have none: "find (\<lambda>r. ob_event_id r = oe_event_id e) (od_outbox db) = None"
    using assms(4) by (simp add: find_None_conv)
  have "wf_outbox db'"
    using assms(1,4) key ok st(1) unfolding wf_outbox_def db'_def by (auto simp del: row_of_simps(2))
  moreover have "lives db' = (lives db)(oe_event_id e \<mapsto> Waiting 0)"
    using none st by (auto simp: fun_eq_iff lives_def db'_def find_append life_of_def split: option.splits)
  ultimately show ?thesis using none by (simp add: lives_def)
qed

lemma leased_ok:
  assumes "wf_outbox db" "\<forall>i\<in>set ids. \<exists>r\<in>set (od_outbox db). ob_event_id r = i \<and> claimable now dest r" "distinct ids"
  shows "wf_outbox (lease_all ids w x db) \<and> life_step (Claimed w now x ids) (lives db) (lives (lease_all ids w x db))"
proof -
  have dead: "ob_status r \<noteq> DEAD_LETTER" if r: "r \<in> set (od_outbox db)" "ob_event_id r \<in> set ids" for r
  proof -
    obtain r' where r': "r' \<in> set (od_outbox db)" "ob_event_id r' = ob_event_id r" "claimable now dest r'"
      using assms(2) r(2) by auto
    then have "r' = r" using distinct_key_unique [OF wf_outbox_ids [OF assms(1)] r'(1) r(1)] by simp
    then show ?thesis using r'(3) by (auto simp: claimable_def)
  qed
  have wf: "wf_outbox (lease_all ids w x db)"
    unfolding lease_all_def using dead by (intro wf_update_live assms(1)) (simp_all add: lease_ok_def)
  have "lives (lease_all ids w x db) = (\<lambda>i. if i \<in> set ids then map_option (\<lambda>l. Held w (leases l + 1) x) (lives db i) else lives db i)"
  proof
    fix i
    show "lives (lease_all ids w x db) i = (if i \<in> set ids then map_option (\<lambda>l. Held w (leases l + 1) x) (lives db i) else lives db i)"
    proof (cases "find (\<lambda>r. ob_event_id r = i) (od_outbox db)")
      case (Some r)
      moreover have "leases (life_of r) = ob_attempts r" by (simp add: life_of_def split: outbox_status.split)
      ultimately show ?thesis
        using find_Some_prop [OF Some] unfolding lives_def lease_all_def by (simp add: lives_update) (simp add: life_of_def)
    qed (simp add: lives_def lease_all_def lives_update)
  qed
  moreover have "\<forall>i\<in>set ids. \<exists>l. lives db i = Some l \<and> free_at now l"
  proof
    fix i assume "i \<in> set ids"
    then obtain r where r: "r \<in> set (od_outbox db)" "ob_event_id r = i" "claimable now dest r" using assms(2) by auto
    have "free_at now (life_of r)"
      using r(1,3) assms(1) by (auto simp: claimable_def life_of_def before_now_def split: option.splits)
    then show "\<exists>l. lives db i = Some l \<and> free_at now l" using lives_row [OF assms(1) r(1)] r(2) by auto
  qed
  ultimately show ?thesis using wf claimed [OF assms(3)] by simp
qed

lemma held_live:
  assumes "wf_outbox db" "row \<in> set (od_outbox db)" "held_by i w row"
  shows "\<exists>x. lives db i = Some (Held w (ob_attempts row) x)"
  using lives_row [OF assms(1,2)] assms(3) by (auto simp: held_by_def life_of_def)

lemma held_lives_update:
  assumes "wf_outbox db" "row \<in> set (od_outbox db)" "held_by i w row" "\<And>r. ob_event_id (f r) = ob_event_id r"
    and rows: "od_outbox db' = sql_update (held_by i w) f (od_outbox db)"
  shows "lives db' = (lives db)(i \<mapsto> life_of (f row))"
proof
  fix j
  have uniq: "r = row" if "r \<in> set (od_outbox db)" "held_by i w r" for r
    using distinct_key_unique [OF wf_outbox_ids [OF assms(1)] that(1) assms(2)] that(2) assms(3) by (simp add: held_by_def)
  have row: "find (\<lambda>r. ob_event_id r = i) (od_outbox db) = Some row"
    using find_key_eq [OF wf_outbox_ids [OF assms(1)] assms(2)] assms(3) by (simp add: held_by_def)
  show "lives db' j = ((lives db)(i \<mapsto> life_of (f row))) j"
    unfolding lives_def rows using assms(3,4) row
    by (auto simp: lives_update held_by_def dest!: find_Some_prop intro!: option.map_cong)
qed

lemma settled_ok:
  assumes "wf_outbox db" "settle_row i w f db = (Inr (), db')" "\<And>r. same_event r (f r)"
    "\<And>r. lease_ok r \<Longrightarrow> lease_ok (f r)" "\<And>r. ob_status (f r) \<noteq> DEAD_LETTER"
  shows "wf_outbox db' \<and> (\<exists>row\<in>set (od_outbox db). held_by i w row \<and> lives db' = (lives db)(i \<mapsto> life_of (f row)))"
proof -
  have db': "db' = db\<lparr>od_outbox := sql_update (held_by i w) f (od_outbox db)\<rparr>" "rowcount (held_by i w) (od_outbox db) = 1"
    using assms(2) by (auto simp: settle_row_def split: if_splits)
  then obtain row where row: "row \<in> set (od_outbox db)" "held_by i w row"
    using rowcount_pos [of "held_by i w" "od_outbox db"] by auto
  have "wf_outbox db'"
    unfolding db' using assms(3,4,5) by (intro wf_update_live assms(1)) (auto simp: held_by_def)
  then show ?thesis
    using row held_lives_update [OF assms(1) row, of f db'] assms(3) db'(1) by (auto simp: same_event_def)
qed

lemma buried_ok:
  fixes err :: string and now :: int
  assumes wf: "wf_outbox db" and row: "find (held_by i w) (od_outbox db) = Some row"
  defines "db' \<equiv> db\<lparr>od_outbox := sql_update (held_by i w) (bury_row err) (od_outbox db), od_dead := od_dead db @ [dead_row_of err now row]\<rparr>"
  shows "wf_outbox db' \<and> lives db' = (lives db)(i \<mapsto> Buried (ob_attempts row))"
proof -
  have r: "row \<in> set (od_outbox db)" "held_by i w row" using find_Some_prop [OF row] by simp_all
  have uniq: "r = row" if "r \<in> set (od_outbox db)" "held_by i w r" for r
    using distinct_key_unique [OF wf_outbox_ids [OF wf] that(1) r(1)] that(2) r(2) by (simp add: held_by_def)
  have ids: "map ob_event_id (od_outbox db') = map ob_event_id (od_outbox db)" "map outbox_key (od_outbox db') = map outbox_key (od_outbox db)"
    by (simp_all add: db'_def bury_row_def outbox_key_def sql_simps)
  have set: "set (od_outbox db') = insert (bury_row err row) {r \<in> set (od_outbox db). \<not> held_by i w r}"
  proof -
    have "{r \<in> set (od_outbox db). held_by i w r} = {row}" using r uniq by blast
    then show ?thesis by (simp add: db'_def set_sql_update)
  qed
  have arch: "archived (bury_row err row) (dead_row_of err now row)" "ob_status (bury_row err row) = DEAD_LETTER"
    by (simp_all add: archived_def dead_row_of_def bury_row_def)
  have old: "ob_status r = DEAD_LETTER \<Longrightarrow> \<not> held_by i w r" for r by (simp add: held_by_def)
  have "lease_ok (bury_row err row)" using r wf by (auto simp: wf_outbox_def lease_ok_def bury_row_def)
  moreover have "dl_event_id (dead_row_of err now row) \<notin> dl_event_id ` set (od_dead db)"
    using held_not_archived [OF wf row] by (simp add: dead_row_of_def image_iff) metis
  moreover have "od_dead db' = od_dead db @ [dead_row_of err now row]" by (simp add: db'_def)
  ultimately have "wf_outbox db'"
    using wf arch old unfolding wf_outbox_def ids set by auto
  moreover have "lives db' = (lives db)(i \<mapsto> life_of (bury_row err row))"
    by (rule held_lives_update [OF wf r]) (simp_all add: db'_def)
  ultimately show ?thesis by (simp add: life_of_def bury_row_def)
qed

context outbox_contract begin

lemma enqueue_ok:
  assumes "wf_outbox db" "fresh_event e" "st_enqueue st e db = (Inr e', db')"
  shows "wf_outbox db' \<and> life_step (Enqueued e e') (lives db) (lives db')"
proof (cases "find (outbox_clash e) (od_outbox db)")
  case (Some row)
  then have eq: "e' = row_event row" "db' = db" using enqueue_law [OF assms(1,3)] by simp_all
  have "row \<in> set (od_outbox db)" using find_Some_prop [OF Some] by simp
  then have "oe_event_id e' \<in> dom (lives db)" using lives_row [OF assms(1)] eq by auto
  then show ?thesis using known assms(1) eq by simp
next
  case None
  then have new: "\<forall>r\<in>set (od_outbox db). ob_event_id r \<noteq> oe_event_id e"
      "e' = e" "db' = db\<lparr>od_outbox := od_outbox db @ [outbox_row_of e]\<rparr>"
    using enqueue_law [OF assms(1,3)] by (auto split: if_splits)
  from born_ok [OF assms(1,2) None new(1)] show ?thesis unfolding new(2,3) using born by metis
qed

lemma claim_ok:
  assumes "wf_outbox db" "st_claim st now w limit lease dest db = (Inr es, db')"
  shows "wf_outbox db' \<and> life_step (Claimed w now (now + max 1 lease * 1000000) (map oe_event_id es)) (lives db) (lives db')"
proof -
  note law = claim_law [OF assms]
  have "\<forall>i\<in>set (map oe_event_id es). \<exists>r\<in>set (od_outbox db). ob_event_id r = i \<and> claimable now dest r"
    using law by fastforce
  from leased_ok [OF assms(1) this] law show ?thesis by simp
qed

lemma deliver_ok:
  assumes "wf_outbox db" "st_mark_delivered st now i w db = (Inr (), db')"
  shows "wf_outbox db' \<and> life_step (Delivered_By w i) (lives db) (lives db')"
proof -
  obtain row where row: "row \<in> set (od_outbox db)" "held_by i w row" "lives db' = (lives db)(i \<mapsto> life_of (deliver_row now row))" "wf_outbox db'"
    using settled_ok [OF assms(1), of i w "deliver_row now" db'] assms(2) deliver_law
    by auto
  show ?thesis using held_live [OF assms(1) row(1,2)] delivered row(3,4) by auto
qed

lemma retry_ok:
  assumes "wf_outbox db" "st_reschedule st now i w err d db = (Inr (), db')"
  shows "wf_outbox db' \<and> life_step (Retried_By w i) (lives db) (lives db')"
proof -
  obtain a where a: "settle_row i w (retry_row a err) db = (Inr (), db')" using assms(2) by (auto simp: retry_law split: sum.splits)
  obtain row where row: "row \<in> set (od_outbox db)" "held_by i w row" "lives db' = (lives db)(i \<mapsto> life_of (retry_row a err row))" "wf_outbox db'"
    using settled_ok [OF assms(1) a] by auto
  show ?thesis using held_live [OF assms(1) row(1,2)] retried row(3,4) by auto
qed

lemma bury_ok:
  assumes "wf_outbox db" "untouched i db0 db" "st_dead_letter st (\<lambda>_. db) now i w err db0 = (Inr (), db')"
  shows "wf_outbox db' \<and> life_step (Buried_By w i) (lives db) (lives db')"
proof (cases "find (held_by i w) (od_outbox db)")
  case (Some row)
  with bury_law [OF assms] have "wf_outbox db' \<and> lives db' = (lives db)(i \<mapsto> Buried (ob_attempts row))"
    using buried_ok [OF assms(1) Some, of err now] by simp
  then show ?thesis using held_live [OF assms(1)] find_Some_prop [OF Some] buried by metis
qed (use bury_law [OF assms] in simp)

lemma refused_same:
  "wf_outbox db \<Longrightarrow> st_enqueue st e db = (Inl y, db') \<Longrightarrow> db' = db"
  "st_mark_delivered st now i w db = (Inl y, db') \<Longrightarrow> db' = db"
  "st_reschedule st now i w err d db = (Inl y, db') \<Longrightarrow> db' = db"
  "wf_outbox db \<Longrightarrow> st_dead_letter st (\<lambda>_. db) now i w err db = (Inl y, db') \<Longrightarrow> db' = db"
  using enqueue_law [of db e "Inl y" db'] deliver_law [of now i w db] retry_law [of now i w err d db]
    bury_law [of db i db now w err "Inl y" db']
  by (auto simp: settle_row_def split: option.splits if_splits sum.splits)

lemmas refusals = refused_same claim_failed

lemma step_refines:
  assumes "outbox_step st l db db'" "wf_outbox db"
  shows "wf_outbox db' \<and> life_step l (lives db) (lives db')"
  using assms
proof cases
  case enq then show ?thesis using enqueue_ok assms(2) by simp
next
  case clm then show ?thesis using claim_ok assms(2) by simp
next
  case dlv then show ?thesis using deliver_ok assms(2) by simp
next
  case rty then show ?thesis using retry_ok assms(2) by simp
next
  case bry then show ?thesis using bury_ok assms(2) by simp
qed (use assms(2) refusals life_step.refused in \<open>metis\<close>)+

end

lemma stores_contract: "st \<in> stores_of b \<Longrightarrow> \<exists>date_of. outbox_contract st date_of"
  using sqlite_box.outbox_contract_axioms pg_box.outbox_contract_axioms by (cases b) auto

lemma outbox_run_wf: "outbox_run b ls db \<Longrightarrow> wf_outbox db"
proof (induction rule: outbox_run.induct)
  case begin_run
  show ?case by (simp add: wf_outbox_def outbox_empty_def)
next
  case (next_op ls db st l db')
  then show ?case using outbox_contract.step_refines stores_contract by blast
qed

lemma outbox_run_refines: "outbox_run b ls db \<Longrightarrow> life_run ls (lives db)"
proof (induction rule: outbox_run.induct)
  case begin_run
  have "lives outbox_empty = Map.empty" by (simp add: lives_def outbox_empty_def fun_eq_iff)
  then show ?case using life_run.start by simp
next
  case (next_op ls db st l db')
  then show ?case
    using outbox_contract.step_refines stores_contract outbox_run_wf life_run.more by blast
qed

section \<open>Consequences of the life cycle\<close>

primrec life_steps :: "outbox_label list \<Rightarrow> (string \<rightharpoonup> life) \<Rightarrow> (string \<rightharpoonup> life) \<Rightarrow> bool" where
  "life_steps [] m m' \<longleftrightarrow> m' = m"
| "life_steps (l # ls) m m' \<longleftrightarrow> (\<exists>k. life_step l m k \<and> life_steps ls k m')"

lemma life_steps_snoc: "life_steps (ls @ [l]) m m' \<longleftrightarrow> (\<exists>k. life_steps ls m k \<and> life_step l k m')"
  by (induction ls arbitrary: m) auto

lemma life_run_steps: "life_run ls m \<Longrightarrow> life_steps ls Map.empty m"
  by (induction rule: life_run.induct) (auto simp: life_steps_snoc)

lemma life_steps_append: "life_steps (ls @ ks) m m' \<longleftrightarrow> (\<exists>k. life_steps ls m k \<and> life_steps ks k m')"
  by (induction ls arbitrary: m) auto

text \<open>The labels that say something about the lease of an event.\<close>

fun concerns :: "string \<Rightarrow> outbox_label \<Rightarrow> bool" where
  "concerns i (Claimed w now x ids) = (i \<in> set ids)"
| "concerns i (Delivered_By w j) = (j = i)"
| "concerns i (Retried_By w j) = (j = i)"
| "concerns i (Buried_By w j) = (j = i)"
| "concerns i _ = False"

lemma unconcerned: "life_step l m m' \<Longrightarrow> \<not> concerns i l \<Longrightarrow> m i = Some x \<Longrightarrow> m' i = Some x"
  by (erule life_step_cases) auto

text \<open>The end of a life is final.\<close>

lemma ended_step: "life_step l m m' \<Longrightarrow> m i = Some (Done n) \<or> m i = Some (Buried n) \<Longrightarrow> \<not> concerns i l \<and> m' i = m i"
  by (erule life_step_cases) auto

lemma ended_steps:
  "life_steps ls m m' \<Longrightarrow> m i = Some (Done n) \<or> m i = Some (Buried n) \<Longrightarrow> (\<forall>l\<in>set ls. \<not> concerns i l) \<and> m' i = m i"
proof (induction ls arbitrary: m)
  case (Cons l ls)
  then obtain k where k: "life_step l m k" "life_steps ls k m'" by auto
  from ended_step [OF k(1) Cons.prems(2)] Cons.IH [OF k(2)] Cons.prems(2) show ?case by auto
qed simp

text \<open>A lease lasts until its holder settles it or its time is over.\<close>

fun claim_time :: "outbox_label \<Rightarrow> int option" where
  "claim_time (Claimed w now x ids) = Some now"
| "claim_time _ = None"

lemma held_step:
  assumes "life_step l m m'" "m i = Some (Held w n x)" "\<forall>t. claim_time l = Some t \<longrightarrow> t \<le> x" "l \<noteq> Retried_By w i"
  shows "m' i = m i \<and> \<not> concerns i l \<or> m' i = Some (Done n) \<or> m' i = Some (Buried n)"
  using assms by (elim life_step_cases) fastforce+

lemma held_steps:
  assumes "life_steps ls m m'" "m i = Some (Held w n x)" "\<forall>l\<in>set ls. \<forall>t. claim_time l = Some t \<longrightarrow> t \<le> x"
    "Retried_By w i \<notin> set ls"
  shows "\<exists>l. m' i = Some l \<and> (l = Held w n x \<or> l = Done n \<or> l = Buried n)"
  using assms
proof (induction ls arbitrary: m)
  case (Cons l ls)
  then obtain k where k: "life_step l m k" "life_steps ls k m'" by auto
  consider "k i = Some (Held w n x)" | "k i = Some (Done n) \<or> k i = Some (Buried n)"
    using held_step [OF k(1) Cons.prems(2)] Cons.prems(2-4) by fastforce
  then show ?case
  proof cases
    case 1
    then show ?thesis using Cons.IH [OF k(2)] Cons.prems by auto
  next
    case 2
    then show ?thesis using ended_steps [OF k(2) 2] by auto
  qed
qed simp

lemma claimed_life: "life_step (Claimed w now x ids) m m' \<Longrightarrow> i \<in> set ids \<Longrightarrow> \<exists>l. m i = Some l \<and> free_at now l \<and> m' i = Some (Held w (leases l + 1) x)"
  by (erule life_step_cases) auto

text \<open>Who holds an event is the last one to have claimed it.\<close>

lemma holder_claimed:
  assumes "life_steps ls Map.empty m" "m i = Some (Held w n x)"
  shows "\<exists>p q now ids. ls = p @ Claimed w now x ids # q \<and> i \<in> set ids \<and> (\<forall>l\<in>set q. \<not> concerns i l)"
  using assms
proof (induction ls arbitrary: m rule: rev_induct)
  case (snoc l ls)
  then obtain k where k: "life_steps ls Map.empty k" "life_step l k m" by (auto simp: life_steps_snoc)
  show ?case
  proof (cases "concerns i l")
    case True
    then obtain now ids where "l = Claimed w now x ids" "i \<in> set ids"
      using k(2) snoc.prems(2) by (elim life_step_cases) (auto split: if_splits)
    then show ?thesis by force
  next
    case False
    then have "k i = Some (Held w n x)"
      using k(2) snoc.prems(2) by (elim life_step_cases) (auto split: if_splits)
    from snoc.IH [OF k(1) this] False show ?thesis by force
  qed
qed simp

text \<open>What an enqueuer was told about stays in the table.\<close>

definition filed :: "outbox_event \<Rightarrow> outbox_event \<Rightarrow> outbox_row \<Rightarrow> bool" where
  "filed e e' r \<longleftrightarrow> outbox_key r = (oe_destination e, oe_idempotency_key e) \<and> ob_event_id r = oe_event_id e'
     \<and> ob_topic r = oe_topic e' \<and> sort_keys (JObj (ob_payload_json r)) = sort_keys (JObj (oe_payload e'))"

lemma filed_same: "same_event r r' \<Longrightarrow> filed e e' r \<Longrightarrow> filed e e' r'"
  by (simp add: filed_def same_event_def)

lemma filed_row_of: "filed e e (outbox_row_of e)"
  unfolding filed_def using sort_keys_idem [of "JObj (oe_payload e)"]
  by (simp add: outbox_row_of_def outbox_key_def)

definition rows_kept :: "outbox_db \<Rightarrow> outbox_db \<Rightarrow> bool" where
  "rows_kept db db' \<longleftrightarrow> (\<forall>r\<in>set (od_outbox db). \<exists>r'\<in>set (od_outbox db'). same_event r r')"

lemma rows_kept_refl [simp]: "rows_kept db db"
  by (auto simp: rows_kept_def same_event_def)

lemma rows_kept_update:
  assumes "od_outbox db' = sql_update p f (od_outbox db)" "\<And>r. same_event r (f r)"
  shows "rows_kept db db'"
  unfolding rows_kept_def
proof
  fix r assume r: "r \<in> set (od_outbox db)"
  have "(if p r then f r else r) \<in> set (od_outbox db')" using r by (simp add: assms(1) sql_update_def)
  moreover have "same_event r (if p r then f r else r)" using assms(2) by (simp add: same_event_def)
  ultimately show "\<exists>r'\<in>set (od_outbox db'). same_event r r'" by blast
qed

lemma rows_kept_settle: "settle_row i w f db = (q, db') \<Longrightarrow> (\<And>r. same_event r (f r)) \<Longrightarrow> rows_kept db db'"
  by (auto simp: settle_row_def split: if_splits intro: rows_kept_update)

context outbox_contract begin

lemma step_keeps_rows:
  assumes "outbox_step st l db db'" "wf_outbox db"
  shows "rows_kept db db'"
  using assms
proof cases
  case (enq e e')
  then show ?thesis using enqueue_law [OF assms(2) enq(3)]
    by (auto simp: rows_kept_def same_event_def split: option.splits if_splits)
next
  case (clm now w limit lease dest es)
  then show ?thesis using claim_law [OF assms(2) clm(2)] by (auto simp: lease_all_def intro: rows_kept_update)
next
  case (dlv now i w)
  then show ?thesis using deliver_law rows_kept_settle by simp
next
  case (rty now i w err d)
  then show ?thesis using rows_kept_settle same_event_rows(3) by (auto simp: retry_law split: sum.splits)
next
  case (bry i db0 now w err)
  then show ?thesis using bury_law [OF assms(2) bry(2,3)] by (auto split: option.splits intro: rows_kept_update)
qed (use assms(2) refusals rows_kept_refl in \<open>metis\<close>)+

lemma enqueue_filed:
  assumes "wf_outbox db" "st_enqueue st e db = (Inr e', db')"
  shows "\<exists>r\<in>set (od_outbox db'). filed e e' r"
proof (cases "find (outbox_clash e) (od_outbox db)")
  case (Some row)
  then have "e' = row_event row" "db' = db" "row \<in> set (od_outbox db)" "outbox_key row = (oe_destination e, oe_idempotency_key e)"
    using enqueue_law [OF assms] find_Some_prop [OF Some] by (simp_all add: clash_key)
  then show ?thesis by (auto simp: filed_def row_event_def)
next
  case None
  then show ?thesis using enqueue_law [OF assms] filed_row_of by (auto split: if_splits)
qed

end

lemma outbox_run_filed: "outbox_run b ls db \<Longrightarrow> Enqueued e e' \<in> set ls \<Longrightarrow> \<exists>r\<in>set (od_outbox db). filed e e' r"
proof (induction rule: outbox_run.induct)
  case (next_op ls db st l db')
  have wf: "wf_outbox db" using outbox_run_wf next_op(1) .
  obtain date_of where contract: "outbox_contract st date_of" using stores_contract [OF next_op(2)] by blast
  show ?case
  proof (cases "Enqueued e e' \<in> set ls")
    case True
    then obtain r where r: "r \<in> set (od_outbox db)" "filed e e' r" using next_op(4) by blast
    then show ?thesis
      using outbox_contract.step_keeps_rows [OF contract next_op(3) wf] filed_same unfolding rows_kept_def by blast
  next
    case False
    then have l: "l = Enqueued e e'" using next_op(5) by simp
    with next_op(3) have "st_enqueue st e db = (Inr e', db')" by (auto elim: outbox_step.cases)
    then show ?thesis using outbox_contract.enqueue_filed [OF contract wf] by blast
  qed
qed simp

section \<open>A run\<close>

text \<open>One event, claimed by a worker that gives it back, then claimed and delivered by another.\<close>

definition demo_event :: outbox_event where
  "demo_event = \<lparr>oe_event_id = ''e1'', oe_topic = ''t'', oe_destination = ''d'', oe_payload = [], oe_idempotency_key = ''k'',
     oe_status = PENDING, oe_attempts = 0, oe_available_at_utc = 5, oe_lease_owner = [], oe_lease_expires_at_utc = None,
     oe_last_error = [], oe_created_at_utc = 5, oe_delivered_at_utc = None\<rparr>"

definition demo_box :: "outbox_row \<Rightarrow> outbox_db" where
  "demo_box r = \<lparr>od_outbox = [r], od_dead = []\<rparr>"

abbreviation demo_row :: outbox_row where
  "demo_row \<equiv> outbox_row_of demo_event"

lemma demo_enqueue: "sqlite_enqueue demo_event outbox_empty = (Inr demo_event, demo_box demo_row)"
  by (simp add: sqlite_enqueue_def outbox_empty_def demo_box_def)

lemma demo_claim:
  assumes "claimable now [] r" "ob_event_id r = ''e1''" "\<not> blank w" "- 62135596860000000 \<le> now" "now \<le> 253402300739999999"
  shows "sqlite_claim now w 10 60 [] (demo_box r) = (Inr [row_event (lease_row w (now + 60000000) r)], demo_box (lease_row w (now + 60000000) r))"
  using assms by (simp add: sqlite_claim_def datetime_add_def claim_ids_def sql_limit_def demo_box_def List.map_filter_simps)

lemma demo_retry:
  assumes "held_by ''e1'' w r" "0 \<le> now" "now \<le> 253402300799999999"
  shows "sqlite_reschedule now ''e1'' w [] (Fin 0) (demo_box r) = (Inr (), demo_box (retry_row now [] r))"
  using assms by (simp add: sqlite_reschedule_def timedelta_us_def datetime_add_def settle_row_def rowcount_def demo_box_def
      fmax_def rne_def)

lemma demo_deliver: "held_by ''e1'' w r \<Longrightarrow> sqlite_mark_delivered now ''e1'' w (demo_box r) = (Inr (), demo_box (deliver_row now r))"
  by (simp add: sqlite_mark_delivered_def settle_row_def rowcount_def demo_box_def)

definition demo_labels :: "outbox_label list" where
  "demo_labels = [Enqueued demo_event demo_event, Claimed ''a'' 10 60000010 [''e1''], Retried_By ''a'' ''e1'',
     Claimed ''b'' 20 60000020 [''e1''], Delivered_By ''b'' ''e1'']"

definition demo_final :: outbox_db where
  "demo_final = demo_box (deliver_row 30 (lease_row ''b'' 60000020 (retry_row 15 [] (lease_row ''a'' 60000010 demo_row))))"

lemma outbox_demo_run: "outbox_run Sqlite demo_labels demo_final"
proof -
  have b: "\<not> blank ''a''" "\<not> blank ''b''" by (simp_all add: blank_def strip_eq_Nil py_space_def)
  have r0: "ob_event_id demo_row = ''e1''" "claimable 10 [] demo_row"
    by (simp_all add: demo_event_def outbox_row_of_def claimable_def)
  define r1 where "r1 = lease_row ''a'' 60000010 demo_row"
  define r2 where "r2 = retry_row 15 [] r1"
  define r3 where "r3 = lease_row ''b'' 60000020 r2"
  have h1: "held_by ''e1'' ''a'' r1" using r0(1) by (simp add: r1_def held_by_def)
  have r2: "ob_event_id r2 = ''e1''" "claimable 20 [] r2" using r0(1) by (simp_all add: r2_def r1_def retry_row_def claimable_def)
  have h3: "held_by ''e1'' ''b'' r3" using r2(1) by (simp add: r3_def held_by_def)
  have s1: "outbox_step sqlite_outbox (Enqueued demo_event demo_event) outbox_empty (demo_box demo_row)"
    using demo_enqueue by (intro enq) (simp_all add: fresh_event_def demo_event_def sqlite_outbox_def)
  have s2: "outbox_step sqlite_outbox (Claimed ''a'' 10 60000010 [''e1'']) (demo_box demo_row) (demo_box r1)"
    using clm [of sqlite_outbox 10 "''a''" 10 60 "[]" "demo_box demo_row"] demo_claim [OF r0(2,1) b(1)] r0(1)
    by (simp add: r1_def sqlite_outbox_def)
  have s3: "outbox_step sqlite_outbox (Retried_By ''a'' ''e1'') (demo_box r1) (demo_box r2)"
    using rty [of sqlite_outbox 15 "''e1''" "''a''" "[]" "Fin 0" "demo_box r1"] demo_retry [OF h1, of 15]
    by (simp add: r2_def sqlite_outbox_def)
  have s4: "outbox_step sqlite_outbox (Claimed ''b'' 20 60000020 [''e1'']) (demo_box r2) (demo_box r3)"
    using clm [of sqlite_outbox 20 "''b''" 10 60 "[]" "demo_box r2"] demo_claim [OF r2(2,1) b(2)] r2(1)
    by (simp add: r3_def sqlite_outbox_def)
  have s5: "outbox_step sqlite_outbox (Delivered_By ''b'' ''e1'') (demo_box r3) demo_final"
    using dlv [of sqlite_outbox 30 "''e1''" "''b''" "demo_box r3"] demo_deliver [OF h3, of 30]
    by (simp add: demo_final_def r3_def r2_def r1_def sqlite_outbox_def)
  have "outbox_run Sqlite ([] @ [Enqueued demo_event demo_event] @ [Claimed ''a'' 10 60000010 [''e1'']] @ [Retried_By ''a'' ''e1'']
      @ [Claimed ''b'' 20 60000020 [''e1'']] @ [Delivered_By ''b'' ''e1'']) demo_final"
    unfolding append_assoc [symmetric]
    by (intro next_op [OF _ _ s5] next_op [OF _ _ s4] next_op [OF _ _ s3] next_op [OF _ _ s2] next_op [OF _ _ s1] begin_run) simp_all
  then show ?thesis by (simp add: demo_labels_def)
qed

section \<open>Properties\<close>

text \<open>C8: The outbox refines its life cycle: for any sequence of operations of any enqueuers and workers, on
  the SQLite or on the PostgreSQL store, in which nobody touches an event between the read and the write of a SQLite
  \<^verbatim>\<open>dead_letter\<close> of it, the tables are well-formed (identifiers and keys are unique, leases are
  complete, every dead letter has its archived copy and no other event has one) and the lives of the events
  are those the abstract machine allows for the same sequence.\<close>

theorem outbox_refines_lifecycle:
  assumes "outbox_run b ls db"
  shows "wf_outbox db \<and> life_run ls (lives db)"
  using outbox_run_wf [OF assms] outbox_run_refines [OF assms] ..

theorem outbox_refines_lifecycle_witness: "wf_outbox demo_final \<and> life_run demo_labels (lives demo_final)"
  by (rule outbox_refines_lifecycle [OF outbox_demo_run])

text \<open>C25: Leases are exclusive: while a claim's lease lasts, the event is claimed again only after the holder
  itself gave it back.\<close>

theorem lease_exclusive:
  assumes "outbox_run b (p @ Claimed w t x ids # q @ Claimed w' t' x' ids' # r) db"
    and "i \<in> set ids" "i \<in> set ids'"
    and "\<forall>l\<in>set q. \<forall>u. claim_time l = Some u \<longrightarrow> u \<le> x" "t' \<le> x"
  shows "Retried_By w i \<in> set q"
proof (rule ccontr)
  assume no: "Retried_By w i \<notin> set q"
  obtain m0 m1 m2 m3 where m: "life_step (Claimed w t x ids) m0 m1" "life_steps q m1 m2" "life_step (Claimed w' t' x' ids') m2 m3"
    using life_run_steps [OF outbox_run_refines [OF assms(1)]] by (auto simp: life_steps_append)
  obtain n where "m1 i = Some (Held w n x)" using claimed_life [OF m(1) assms(2)] by auto
  from held_steps [OF m(2) this assms(4) no] claimed_life [OF m(3) assms(3)] assms(5) show False by auto
qed

theorem lease_exclusive_witness: "Retried_By ''a'' ''e1'' \<in> set [Retried_By ''a'' ''e1'']"
  using lease_exclusive [of Sqlite "[Enqueued demo_event demo_event]" "''a''" 10 60000010 "[''e1'']" "[Retried_By ''a'' ''e1'']"
      "''b''" 20 60000020 "[''e1'']" "[Delivered_By ''b'' ''e1'']" demo_final "''e1''"] outbox_demo_run
  by (simp add: demo_labels_def)

text \<open>C26: In the same runs, a delivery is recorded at most once and only by the worker that claimed the event last: after it
  nobody claims, returns or buries the event, and its row stays delivered.\<close>

theorem delivery_final:
  assumes "outbox_run b (p @ Delivered_By w i # q) db"
  shows "(\<forall>l\<in>set q. \<not> concerns i l)
     \<and> (\<exists>p1 t x ids p2. p = p1 @ Claimed w t x ids # p2 \<and> i \<in> set ids \<and> (\<forall>l\<in>set p2. \<not> concerns i l))
     \<and> (\<exists>r\<in>set (od_outbox db). ob_event_id r = i \<and> ob_status r = DELIVERED)"
proof -
  obtain m0 m1 where m: "life_steps p Map.empty m0" "life_step (Delivered_By w i) m0 m1" "life_steps q m1 (lives db)"
    using life_run_steps [OF outbox_run_refines [OF assms]] by (auto simp: life_steps_append)
  obtain n x where h: "m0 i = Some (Held w n x)" "m1 i = Some (Done n)" using m(2) by (elim life_step_cases) auto
  note e = ended_steps [OF m(3), of i n]
  have "\<exists>r\<in>set (od_outbox db). ob_event_id r = i \<and> ob_status r = DELIVERED"
    using lives_Some [of db i "Done n"] e h(2) life_of_Done by (metis (no_types, lifting))
  then show ?thesis using e h(2) holder_claimed [OF m(1) h(1)] by blast
qed

theorem delivery_final_witness: "\<exists>r\<in>set (od_outbox demo_final). ob_event_id r = ''e1'' \<and> ob_status r = DELIVERED"
  using delivery_final [of Sqlite "butlast demo_labels" "''b''" "''e1''" "[]" demo_final] outbox_demo_run
  by (simp add: demo_labels_def)

text \<open>Enqueueing is idempotent and loses nothing: the event an enqueuer was answered with is, from then on,
  the one row of the table with the destination and key asked for, with its topic and payload; so two
  enqueuers of the same key are answered with the same event.\<close>

theorem enqueue_once:
  assumes "outbox_run b ls db" "Enqueued e e' \<in> set ls"
  shows "\<exists>r\<in>set (od_outbox db). filed e e' r \<and> (\<forall>r'\<in>set (od_outbox db). outbox_key r' = outbox_key r \<longrightarrow> r' = r)
     \<and> (\<forall>f f'. Enqueued f f' \<in> set ls \<and> oe_destination f = oe_destination e \<and> oe_idempotency_key f = oe_idempotency_key e
          \<longrightarrow> oe_event_id f' = oe_event_id e')"
proof -
  obtain r where r: "r \<in> set (od_outbox db)" "filed e e' r" using outbox_run_filed [OF assms] by auto
  have uniq: "r' = r" if "r' \<in> set (od_outbox db)" "outbox_key r' = outbox_key r" for r'
    using distinct_key_unique [of outbox_key "od_outbox db"] outbox_run_wf [OF assms(1)] r(1) that by (simp add: wf_outbox_def)
  have "oe_event_id f' = oe_event_id e'"
    if f: "Enqueued f f' \<in> set ls" "oe_destination f = oe_destination e" "oe_idempotency_key f = oe_idempotency_key e" for f f'
  proof -
    obtain r' where r': "r' \<in> set (od_outbox db)" "filed f f' r'" using outbox_run_filed [OF assms(1) f(1)] by auto
    then have "r' = r" using uniq r(2) f(2,3) by (simp add: filed_def)
    then show ?thesis using r' r(2) by (simp add: filed_def)
  qed
  then show ?thesis using r uniq by blast
qed

theorem enqueue_once_witness: "\<exists>r\<in>set (od_outbox demo_final). filed demo_event demo_event r"
  using enqueue_once [OF outbox_demo_run, of demo_event demo_event] by (auto simp: demo_labels_def)

text \<open>The condition on the runs is needed: on the SQLite store, a worker whose \<^verbatim>\<open>dead_letter\<close> has read its row
  while its lease was running out, and writes after another worker claimed and delivered the event,
  turns the delivered event into a dead letter, and every step of it is one the store accepts.\<close>

theorem stale_burial:
  assumes "find (held_by i a) (od_outbox db) = Some row"
    and "sqlite_claim t b limit lease dest db = (Inr es, db1)" "sqlite_mark_delivered t' i b db1 = (Inr (), db2)"
  shows "\<exists>db3. sqlite_dead_letter (\<lambda>_. db2) now i a err db = (Inr (), db3)
     \<and> (\<exists>r\<in>set (od_outbox db2). ob_event_id r = i \<and> ob_status r = DELIVERED)
     \<and> (\<forall>r\<in>set (od_outbox db3). ob_event_id r = i \<longrightarrow> ob_status r = DEAD_LETTER)
     \<and> dead_row_of err now row \<in> set (od_dead db3)"
proof -
  define db3 where "db3 = sqlite_dead_letter_write now i row err db2"
  have "db2 = db1\<lparr>od_outbox := sql_update (held_by i b) (deliver_row t') (od_outbox db1)\<rparr>" "rowcount (held_by i b) (od_outbox db1) = 1"
    using assms(3) by (auto simp: sqlite_mark_delivered_def settle_row_def split: if_splits)
  moreover from this(2) obtain r where "r \<in> set (od_outbox db1)" "held_by i b r"
    using rowcount_pos [of "held_by i b" "od_outbox db1"] by auto
  ultimately have "deliver_row t' r \<in> set (od_outbox db2)" "ob_event_id (deliver_row t' r) = i"
    by (auto simp: set_sql_update held_by_def deliver_row_def)
  then have "\<exists>r\<in>set (od_outbox db2). ob_event_id r = i \<and> ob_status r = DELIVERED"
    by (intro bexI [of _ "deliver_row t' r"]) (simp_all add: deliver_row_def)
  moreover have "\<forall>r\<in>set (od_outbox db3). ob_event_id r = i \<longrightarrow> ob_status r = DEAD_LETTER"
  proof (intro ballI impI)
    fix r assume r: "r \<in> set (od_outbox db3)" and i: "ob_event_id r = i"
    have o3: "od_outbox db3 = map (\<lambda>r. if ob_event_id r = i then bury_row err r else r) (od_outbox db2)"
      by (simp add: db3_def sqlite_dead_letter_write_def sql_update_def)
    obtain r0 where "r = (if ob_event_id r0 = i then bury_row err r0 else r0)" using r unfolding o3 set_map by (rule imageE)
    then have "r = bury_row err r0 \<or> ob_event_id r \<noteq> i" by presburger
    moreover have "ob_status (bury_row err r0) = DEAD_LETTER" by (simp add: bury_row_def)
    ultimately show "ob_status r = DEAD_LETTER" using i by metis
  qed
  moreover have "dead_row_of err now row \<in> set (od_dead db3)" by (simp add: db3_def sqlite_dead_letter_write_def)
  moreover have "sqlite_dead_letter (\<lambda>_. db2) now i a err db = (Inr (), db3)"
    using assms(1) by (simp add: sqlite_dead_letter_def sqlite_dead_letter_read_def db3_def)
  ultimately show ?thesis by (intro exI [of _ db3] conjI)
qed

theorem stale_burial_witness:
  "\<exists>db3. sqlite_dead_letter (\<lambda>_. demo_box (deliver_row 60000040 (lease_row ''b'' 120000030 (lease_row ''a'' 60000010 demo_row))))
       60000050 ''e1'' ''a'' [] (demo_box (lease_row ''a'' 60000010 demo_row)) = (Inr (), db3)
     \<and> (\<forall>r\<in>set (od_outbox db3). ob_event_id r = ''e1'' \<longrightarrow> ob_status r = DEAD_LETTER)"
proof -
  define r1 where "r1 = lease_row ''a'' 60000010 demo_row"
  have b: "\<not> blank ''b''" by (simp add: blank_def strip_eq_Nil py_space_def)
  have r1: "held_by ''e1'' ''a'' r1" "ob_event_id r1 = ''e1''" "claimable 60000030 [] r1"
    by (simp_all add: r1_def held_by_def lease_row_def demo_event_def outbox_row_of_def claimable_def before_now_def)
  have "find (held_by ''e1'' ''a'') (od_outbox (demo_box r1)) = Some r1" using r1(1) by (simp add: demo_box_def)
  moreover have "sqlite_claim 60000030 ''b'' 10 60 [] (demo_box r1)
      = (Inr [row_event (lease_row ''b'' 120000030 r1)], demo_box (lease_row ''b'' 120000030 r1))"
    using demo_claim [OF r1(3,2) b] by simp
  moreover have "sqlite_mark_delivered 60000040 ''e1'' ''b'' (demo_box (lease_row ''b'' 120000030 r1))
      = (Inr (), demo_box (deliver_row 60000040 (lease_row ''b'' 120000030 r1)))"
    using r1(2) by (intro demo_deliver) (simp add: held_by_def lease_row_def)
  ultimately show ?thesis using stale_burial [of "''e1''" "''a''" "demo_box r1"] unfolding r1_def [symmetric] by blast
qed

end
