(* ===== verification/Worker_Laws.thy ===== *)
theory Worker_Laws
  imports Outbox_Laws
begin

text \<open>
  The delivery worker on a store that keeps the contract: a run over a claimed batch settles every
  event of the batch, provided that other processes leave the leases of this worker alone (which \<open>lease_exclusive\<close>
  guarantees while they last) and that no date runs past the end of the calendar.
\<close>

section \<open>Delivering does not touch the tables\<close>

lemma deliver_db: "ws_db (snd (deliver env wk e s)) = ws_db s"
  by (auto simp: deliver_def Let_def split: option.splits prod.splits)

lemma retry_call_db: "ws_db (snd (retry_call fpow rand (deliver env wk e) p s)) = ws_db s"
  unfolding retry_call_def
  by (rule retry_from_keeps [where R = "\<lambda>s s'. ws_db s' = ws_db s"]) (simp_all add: deliver_db)

lemma retry_from_error:
  assumes "\<And>s e s'. fn s = (Inl e, s') \<Longrightarrow> P e" "\<And>a x e. retry_delay fpow p a x = Inl e \<Longrightarrow> P e" "P (AssertionError ''unreachable'')"
    "retry_from fpow rand fn p a s = (Inl e, s')"
  shows "P e"
  using assms(4)
proof (induction "nat (max_attempts p + 1 - a)" arbitrary: a s)
  case 0
  then show ?case using assms(3) by (subst (asm) retry_from.simps) simp
next
  case (Suc k)
  have k: "k = nat (max_attempts p + 1 - (a + 1))" using Suc.hyps(2) by linarith
  obtain r s1 where fn: "fn s = (r, s1)" by (cases "fn s")
  show ?case
    using Suc.prems Suc.hyps(1) [OF k] assms(1,2) fn
    by (subst (asm) retry_from.simps) (auto split: sum.splits if_splits intro: assms(3))
qed

definition raises_exceptions :: "'w outbox_worker \<Rightarrow> bool" where
  "raises_exceptions wk \<longleftrightarrow> (\<forall>(d, h)\<in>set (wk_handlers wk). \<forall>ev x e. fst (h ev x) = Inl e \<longrightarrow> is_Exception e)"

lemma deliver_Exception:
  assumes "raises_exceptions wk" "deliver env wk ev s = (Inl e, s')"
  shows "is_Exception e"
proof (cases "map_of (wk_handlers wk) (oe_destination ev)")
  case None
  then show ?thesis using assms(2) by (auto simp: deliver_def is_Exception_def)
next
  case (Some h)
  then have h: "is_Exception e" if "fst (h ev x) = Inl e" for x e
    using assms(1) that map_of_SomeD [OF Some] by (fastforce simp: raises_exceptions_def)
  show ?thesis
    using assms(2) Some h
    by (auto simp: deliver_def cb_call_def before_call_def Let_def is_Exception_def
        split: option.splits prod.splits sum.splits circuit_state.splits if_splits) (metis fst_conv)+
qed

section \<open>A run settles its batch\<close>

text \<open>The events a worker holds.\<close>

definition held_set :: "string \<Rightarrow> outbox_db \<Rightarrow> (string \<times> int \<times> int) set" where
  "held_set w db = {(i, n, x). lives db i = Some (Held w n x)}"

lemma held_set_row:
  assumes "wf_outbox db" "i \<in> fst ` held_set w db"
  shows "\<exists>row\<in>set (od_outbox db). held_by i w row"
proof -
  obtain n x where nx: "lives db i = Some (Held w n x)" using assms(2) by (auto simp: held_set_def)
  obtain r where r: "r \<in> set (od_outbox db)" "ob_event_id r = i" "Held w n x = life_of r"
    using lives_Some [OF nx] by auto
  moreover have "lease_ok r" using assms(1) r(1) by (simp add: wf_outbox_def)
  ultimately show ?thesis using life_of_Held [of r w n x] by (auto simp: held_by_def)
qed

text \<open>Other processes may do anything to the tables that keeps them well-formed and leaves the leases of this
  worker alone; while it buries one of its events they do not touch that event.\<close>

definition others_respect :: "worker_env \<Rightarrow> string \<Rightarrow> bool" where
  "others_respect env w \<longleftrightarrow> (\<forall>n db. wf_outbox db \<longrightarrow> wf_outbox (we_others env n db) \<and> held_set w (we_others env n db) = held_set w db
     \<and> wf_outbox (we_between env n db) \<and> held_set w (we_between env n db) = held_set w db
     \<and> (\<forall>i\<in>fst ` held_set w db. untouched i db (we_between env n db)))"

lemma settle_succeeds:
  assumes "wf_outbox db" "row \<in> set (od_outbox db)" "held_by i w row"
  shows "fst (settle_row i w f db) = Inr ()"
proof -
  have "rowcount (held_by i w) (od_outbox db) = 1"
    using rowcount_eq_one [OF wf_outbox_ids [OF assms(1)], of "held_by i w" i] assms(2,3) by (auto simp: held_by_def)
  then show ?thesis by (simp add: settle_row_def)
qed

text \<open>A settling step of the worker takes one event out of its hands.\<close>

lemma held_set_settled:
  assumes "life_step l (lives db) (lives db')" "l = Delivered_By w i \<or> l = Retried_By w i \<or> l = Buried_By w i"
  shows "held_set w db' = {h \<in> held_set w db. fst h \<noteq> i}"
proof -
  have "\<exists>v. lives db' = (lives db)(i \<mapsto> v) \<and> (\<forall>n x. v \<noteq> Held w n x)"
    using assms by (elim life_step_cases) blast+
  then obtain v where "lives db' = (lives db)(i \<mapsto> v)" "\<forall>n x. v \<noteq> Held w n x" by blast
  then show ?thesis by (auto simp: held_set_def split: if_splits)
qed

definition settles :: "worker_env \<Rightarrow> string \<Rightarrow> string \<Rightarrow> (int \<Rightarrow> outbox_db \<Rightarrow> (exc + unit) \<times> outbox_db) \<Rightarrow> bool" where
  "settles env w i f \<longleftrightarrow> (\<forall>n db. wf_outbox db \<and> i \<in> fst ` held_set w db \<longrightarrow>
     (\<exists>db'. f (we_utc env n) db = (Inr (), db') \<and> wf_outbox db' \<and> held_set w db' = {h \<in> held_set w db. fst h \<noteq> i}))"

lemma on_outbox_settles:
  fixes s :: "'w worker_sys"
  assumes "others_respect env w" "settles env w i f" "wf_outbox (ws_db s)" "i \<in> fst ` held_set w (ws_db s)"
  shows "\<exists>s' :: 'w worker_sys. on_outbox env f s = (Inr (), s') \<and> wf_outbox (ws_db s')
     \<and> held_set w (ws_db s') = {h \<in> held_set w (ws_db s). fst h \<noteq> i}"
proof -
  define db where "db = we_others env (ws_ticks s) (ws_db s)"
  have db: "wf_outbox db" "held_set w db = held_set w (ws_db s)"
    using assms(1,3) by (simp_all add: others_respect_def db_def)
  then obtain db' where "f (we_utc env (ws_ticks s)) db = (Inr (), db')" "wf_outbox db'" "held_set w db' = {h \<in> held_set w db. fst h \<noteq> i}"
    using assms(2,4) unfolding settles_def by (metis (no_types, lifting))
  then show ?thesis using db by (simp add: on_outbox_def Let_def db_def [symmetric])
qed

context outbox_contract begin

lemma settles_delivered: "settles env w i (\<lambda>now. st_mark_delivered st now i w)"
  unfolding settles_def
proof (intro allI impI, elim conjE)
  fix n db assume wf: "wf_outbox db" and i: "i \<in> fst ` held_set w db"
  obtain row where row: "row \<in> set (od_outbox db)" "held_by i w row" using held_set_row [OF wf i] by auto
  obtain q db' where st: "st_mark_delivered st (we_utc env n) i w db = (q, db')" by (cases "st_mark_delivered st (we_utc env n) i w db")
  then have q: "q = Inr ()" using settle_succeeds [OF wf row] by (metis deliver_law fst_conv)
  note ok = deliver_ok [OF wf st [unfolded q]]
  then show "\<exists>db'. st_mark_delivered st (we_utc env n) i w db = (Inr (), db') \<and> wf_outbox db'
      \<and> held_set w db' = {h \<in> held_set w db. fst h \<noteq> i}"
    using st q held_set_settled by blast
qed

lemma settles_buried:
  assumes "others_respect env w"
  shows "settles env w i (\<lambda>now. st_dead_letter st (we_between env m) now i w err)"
  unfolding settles_def
proof (intro allI impI, elim conjE)
  fix n db assume wf0: "wf_outbox db" and i0: "i \<in> fst ` held_set w db"
  define db1 where "db1 = we_between env m db"
  note resp = assms [unfolded others_respect_def, rule_format, OF wf0, of m, folded db1_def]
  have wf: "wf_outbox db1" and same: "held_set w db1 = held_set w db" using resp by simp_all
  have un: "untouched i db db1" using resp i0 by blast
  obtain row where row: "row \<in> set (od_outbox db1)" "held_by i w row" using held_set_row [OF wf] i0 same by metis
  obtain q db' where st: "st_dead_letter st (\<lambda>_. db1) (we_utc env n) i w err db = (q, db')"
    by (cases "st_dead_letter st (\<lambda>_. db1) (we_utc env n) i w err db")
  have q: "q = Inr ()" using bury_law [OF wf un st] row by (auto simp: find_None_conv split: option.splits)
  note ok = bury_ok [OF wf un st [unfolded q]]
  have "st_dead_letter st (we_between env m) (we_utc env n) i w err db = (Inr (), db')"
    using st q unfolding db1_def by (subst during_law) simp
  moreover have "held_set w db' = {h \<in> held_set w db. fst h \<noteq> i}"
    using held_set_settled [of "Buried_By w i" db1 db' w i] ok same by simp
  ultimately show "\<exists>db'. st_dead_letter st (we_between env m) (we_utc env n) i w err db = (Inr (), db') \<and> wf_outbox db'
      \<and> held_set w db' = {h \<in> held_set w db. fst h \<noteq> i}"
    using ok by blast
qed

lemma settles_retried:
  assumes "\<And>n. \<exists>t. date_of (we_utc env n) d = Inr t"
  shows "settles env w i (\<lambda>now. st_reschedule st now i w err d)"
  unfolding settles_def
proof (intro allI impI, elim conjE)
  fix n db assume wf: "wf_outbox db" and i: "i \<in> fst ` held_set w db"
  obtain row where row: "row \<in> set (od_outbox db)" "held_by i w row" using held_set_row [OF wf i] by auto
  obtain t where t: "date_of (we_utc env n) d = Inr t" using assms by blast
  obtain q db' where st: "st_reschedule st (we_utc env n) i w err d db = (q, db')" by (cases "st_reschedule st (we_utc env n) i w err d db")
  then have q: "q = Inr ()" using settle_succeeds [OF wf row] by (metis retry_law t fst_conv sum.simps(6))
  note ok = retry_ok [OF wf st [unfolded q]]
  then show "\<exists>db'. st_reschedule st (we_utc env n) i w err d db = (Inr (), db') \<and> wf_outbox db'
      \<and> held_set w db' = {h \<in> held_set w db. fst h \<noteq> i}"
    using st q held_set_settled by blast
qed

end

text \<open>What a run relies on besides the store: the handlers and the power function raise ordinary exceptions, the
  other processes respect the leases, and the back-off of a delivery attempt before the last one neither
  overflows nor leads past the end of the calendar.\<close>

definition run_assumptions :: "(int \<Rightarrow> pyfloat \<Rightarrow> exc + int) \<Rightarrow> worker_env \<Rightarrow> 'w outbox_worker \<Rightarrow> bool" where
  "run_assumptions date_of env wk \<longleftrightarrow> raises_exceptions wk \<and> others_respect env (wk_worker_id wk)
     \<and> (\<forall>x n e. we_fpow env x n = Inl e \<longrightarrow> is_Exception e)
     \<and> (\<forall>a n. 1 \<le> a \<and> a < max 2 (wk_max_delivery_attempts wk) \<longrightarrow>
          (\<exists>d. retry_delay (we_fpow env) (wk_retry_policy wk) a (we_random env n) = Inr d \<and> (\<forall>m. \<exists>t. date_of (we_utc env m) d = Inr t)))"

definition rn_total :: "run_counts \<Rightarrow> int" where
  "rn_total c = rn_delivered c + rn_retried c + rn_dead_lettered c"

context outbox_contract begin

lemma deliver_all_settles:
  fixes s :: "'w worker_sys"
  assumes "run_assumptions date_of env wk" "wf_outbox (ws_db s)" "distinct (map oe_event_id es)"
    "\<forall>e\<in>set es. oe_event_id e \<in> fst ` held_set (wk_worker_id wk) (ws_db s)"
  shows "\<exists>c' s'. deliver_all env st wk es c s = (Inr c', s') \<and> rn_total c' = rn_total c + int (length es) \<and> wf_outbox (ws_db s')
     \<and> held_set (wk_worker_id wk) (ws_db s') = {h \<in> held_set (wk_worker_id wk) (ws_db s). fst h \<notin> set (map oe_event_id es)}"
  using assms(2-4)
proof (induction es arbitrary: c s)
  case Nil
  then show ?case by (auto simp: rn_total_def)
next
  case (Cons e es)
  define w where "w = wk_worker_id wk"
  define i where "i = oe_event_id e"
  have resp: "others_respect env w" using assms(1) by (simp add: run_assumptions_def w_def)
  obtain r s1 where rc: "retry_call (we_fpow env) (\<lambda>a. we_random env (ws_ticks s + nat a)) (deliver env wk e) (wk_retry_policy wk) s = (r, s1)"
    by (cases "retry_call (we_fpow env) (\<lambda>a. we_random env (ws_ticks s + nat a)) (deliver env wk e) (wk_retry_policy wk) s")
  have db1: "ws_db s1 = ws_db s"
    using retry_call_db [of "we_fpow env" "\<lambda>a. we_random env (ws_ticks s + nat a)" env wk e "wk_retry_policy wk" s] rc by simp
  have go: "\<exists>c' s'. bnd (on_outbox env f) (\<lambda>_. deliver_all env st wk es c1) s1 = (Inr c', s')
      \<and> rn_total c' = rn_total c + int (length (e # es)) \<and> wf_outbox (ws_db s')
      \<and> held_set w (ws_db s') = {h \<in> held_set w (ws_db s). fst h \<notin> set (map oe_event_id (e # es))}"
    if f: "settles env w i f" and c1: "rn_total c1 = rn_total c + 1" for f c1
  proof -
    obtain s2 where s2: "on_outbox env f s1 = (Inr (), s2)" "wf_outbox (ws_db s2)"
        "held_set w (ws_db s2) = {h \<in> held_set w (ws_db s). fst h \<noteq> i}"
      using on_outbox_settles [OF resp f, of s1] Cons.prems(1,3) by (auto simp: db1 i_def w_def)
    have held: "\<forall>e\<in>set es. oe_event_id e \<in> fst ` held_set w (ws_db s2)"
    proof
      fix e' assume e': "e' \<in> set es"
      then have "oe_event_id e' \<in> fst ` held_set w (ws_db s)" using Cons.prems(3) by (simp add: w_def)
      then obtain h where h: "h \<in> held_set w (ws_db s)" "fst h = oe_event_id e'" by auto
      have "oe_event_id e' \<noteq> i" using Cons.prems(2) e' by (auto simp: i_def image_iff)
      then have "h \<in> held_set w (ws_db s2)" using h unfolding s2(3) by simp
      then show "oe_event_id e' \<in> fst ` held_set w (ws_db s2)" using h(2) by (metis image_eqI)
    qed
    have dist: "distinct (map oe_event_id es)" using Cons.prems(2) by simp
    obtain c' s' where fin: "deliver_all env st wk es c1 s2 = (Inr c', s')" "rn_total c' = rn_total c1 + int (length es)"
        "wf_outbox (ws_db s')" "held_set w (ws_db s') = {h \<in> held_set w (ws_db s2). fst h \<notin> set (map oe_event_id es)}"
      using Cons.IH [OF s2(2) dist held [unfolded w_def], of c1] unfolding w_def by blast
    have "held_set w (ws_db s') = {h \<in> held_set w (ws_db s). fst h \<notin> set (map oe_event_id (e # es))}"
      unfolding fin(4) s2(3) by (auto simp: i_def)
    then show ?thesis using s2(1) fin c1 by (simp add: bnd_def)
  qed
  show ?case
  proof (cases r)
    case (Inr v)
    then show ?thesis
      using rc go [OF settles_delivered, of "c\<lparr>rn_delivered := rn_delivered c + 1\<rparr>"] by (simp add: Let_def i_def w_def rn_total_def)
  next
    case (Inl x)
    have exc: "is_Exception x"
    proof (rule retry_from_error [where P = is_Exception])
      show "is_Exception e'" if "deliver env wk e s = (Inl e', s')" for s e' s'
        using deliver_Exception that assms(1) by (auto simp: run_assumptions_def)
      show "is_Exception e'" if "retry_delay (we_fpow env) (wk_retry_policy wk) a x = Inl e'" for a x e'
        using assms(1) that by (auto simp: run_assumptions_def retry_delay_def Let_def split: sum.splits if_splits)
      show "retry_from (we_fpow env) (\<lambda>a. we_random env (ws_ticks s + nat a)) (deliver env wk e) (wk_retry_policy wk) 1 s = (Inl x, s1)"
        using rc Inl by (simp add: retry_call_def)
    qed (simp add: is_Exception_def)
    show ?thesis
    proof (cases "wk_max_delivery_attempts wk \<le> oe_attempts e")
      case True
      then show ?thesis
        using rc Inl exc go [OF settles_buried [OF resp], of "c\<lparr>rn_dead_lettered := rn_dead_lettered c + 1\<rparr>"]
        by (simp add: Let_def i_def w_def rn_total_def)
    next
      case False
      then have "1 \<le> max 1 (oe_attempts e) \<and> max 1 (oe_attempts e) < max 2 (wk_max_delivery_attempts wk)" by auto
      then obtain d where d: "retry_delay (we_fpow env) (wk_retry_policy wk) (max 1 (oe_attempts e)) (we_random env (ws_ticks s1)) = Inr d"
          and date: "\<And>m. \<exists>t. date_of (we_utc env m) d = Inr t"
        using assms(1) unfolding run_assumptions_def by blast
      show ?thesis
        using False rc Inl exc d go [OF settles_retried [OF date], of "c\<lparr>rn_retried := rn_retried c + 1\<rparr>"]
        by (simp add: Let_def i_def w_def rn_total_def)
    qed
  qed
qed

lemma claim_held_set:
  assumes "wf_outbox db" "st_claim st now w limit lease dest db = (Inr es, db')"
  shows "wf_outbox db'" "distinct (map oe_event_id es)" "\<forall>e\<in>set es. oe_event_id e \<in> fst ` held_set w db'"
    "{h \<in> held_set w db'. fst h \<notin> set (map oe_event_id es)} = {h \<in> held_set w db. fst h \<notin> set (map oe_event_id es)}"
proof -
  have step: "life_step (Claimed w now (now + max 1 lease * 1000000) (map oe_event_id es)) (lives db) (lives db')"
    using claim_ok [OF assms] by simp
  show "wf_outbox db'" "distinct (map oe_event_id es)" using claim_ok [OF assms] claim_law [OF assms] by simp_all
  show "\<forall>e\<in>set es. oe_event_id e \<in> fst ` held_set w db'"
  proof
    fix e assume "e \<in> set es"
    then obtain n x where "lives db' (oe_event_id e) = Some (Held w n x)" using claimed_life [OF step, of "oe_event_id e"] by auto
    then have "(oe_event_id e, n, x) \<in> held_set w db'" by (simp add: held_set_def)
    then show "oe_event_id e \<in> fst ` held_set w db'" by force
  qed
  have "lives db' i = lives db i" if "i \<notin> set (map oe_event_id es)" for i
    using step that by (elim life_step_cases) (auto simp: fun_eq_iff)
  then show "{h \<in> held_set w db'. fst h \<notin> set (map oe_event_id es)} = {h \<in> held_set w db. fst h \<notin> set (map oe_event_id es)}"
    by (auto simp: held_set_def)
qed

lemma run_once_settles:
  fixes s :: "'w worker_sys"
  assumes "run_assumptions date_of env wk" "wf_outbox (ws_db s)"
    and claim: "st_claim st (we_utc env (ws_ticks s)) (wk_worker_id wk) limit (wk_lease_seconds wk) dest (we_others env (ws_ticks s) (ws_db s)) = (Inr es, db1)"
  shows "\<exists>c s'. run_once env st wk limit dest s = (Inr (int (length es), c), s') \<and> rn_total c = int (length es) \<and> wf_outbox (ws_db s')
     \<and> held_set (wk_worker_id wk) (ws_db s') = {h \<in> held_set (wk_worker_id wk) (ws_db s). fst h \<notin> set (map oe_event_id es)}"
proof -
  define w where "w = wk_worker_id wk"
  define s1 where "s1 = s\<lparr>ws_db := db1, ws_ticks := ws_ticks s + 1\<rparr>"
  define c0 where "c0 = \<lparr>rn_delivered = 0, rn_retried = 0, rn_dead_lettered = 0\<rparr>"
  have oth: "wf_outbox (we_others env (ws_ticks s) (ws_db s))" "held_set w (we_others env (ws_ticks s) (ws_db s)) = held_set w (ws_db s)"
    using assms(1,2) by (simp_all add: run_assumptions_def others_respect_def w_def)
  note cl = claim_held_set [OF oth(1) claim, folded w_def]
  have s1: "ws_db s1 = db1" by (simp add: s1_def)
  have "on_outbox env (\<lambda>now. st_claim st now w limit (wk_lease_seconds wk) dest) s = (Inr es, s1)"
    using claim by (simp add: on_outbox_def Let_def s1_def w_def)
  moreover obtain c s' where "deliver_all env st wk es c0 s1 = (Inr c, s')" "rn_total c = rn_total c0 + int (length es)" "wf_outbox (ws_db s')"
      "held_set w (ws_db s') = {h \<in> held_set w db1. fst h \<notin> set (map oe_event_id es)}"
    using deliver_all_settles [OF assms(1), of s1 es c0] cl(1-3) unfolding s1 w_def [symmetric] by blast
  ultimately show ?thesis using cl(4) oth(2) unfolding w_def [symmetric]
    by (simp add: run_once_def bnd_def ret_def w_def [symmetric] c0_def [symmetric]) (simp add: c0_def rn_total_def)
qed

end

section \<open>The property\<close>

definition demo_worker :: "unit outbox_worker" where
  "demo_worker = \<lparr>wk_handlers = [(''d'', \<lambda>e x. (Inl (RuntimeError ''down''), x))], wk_worker_id = ''a'',
     wk_retry_policy = \<lparr>max_attempts = 2, initial_backoff_seconds = Fin 2, multiplier = Fin 2, max_backoff_seconds = Fin 30,
       jitter_ratio = Fin 0, retry_exceptions = [''Exception'']\<rparr>, wk_max_delivery_attempts = 8, wk_lease_seconds = 60\<rparr>"

definition demo_worker_env :: worker_env where
  "demo_worker_env = \<lparr>we_utc = (\<lambda>n. 10 + int (min n 1000)), we_monotonic = (\<lambda>n. Fin 0), we_random = (\<lambda>n. Fin 0),
     we_fpow = rounded_pow, we_str = exc_message, we_others = (\<lambda>n db. db), we_between = (\<lambda>n db. db)\<rparr>"

definition demo_worker_sys :: "unit worker_sys" where
  "demo_worker_sys = \<lparr>ws_db = demo_box demo_row, ws_breakers = [], ws_ext = (), ws_ticks = 0\<rparr>"

lemma demo_assumptions: "run_assumptions sqlite_date demo_worker_env demo_worker"
proof -
  have date: "\<exists>t. sqlite_date (we_utc demo_worker_env n) (Fin x) = Inr t" if "x \<in> {2, 4, 8, 16, 30}" for n x
    using that
    by (auto simp: demo_worker_env_def sqlite_date_def timedelta_us_def datetime_add_def fmax_def rne_def min_def)
  have delay: "\<exists>d\<in>{2, 4, 8, 16, 30}. retry_delay rounded_pow (wk_retry_policy demo_worker) a (Fin 0) = Inr (Fin d)"
    if "1 \<le> a" "a < 8" for a
  proof -
    have "rnd 4 = Fin 4" "rnd 8 = Fin 8" "rnd 16 = Fin 16" "rnd 32 = Fin 32" "rnd 64 = Fin 64" "rnd 128 = Fin 128"
      using rnd_of_int [of 4] rnd_of_int [of 8] rnd_of_int [of 16] rnd_of_int [of 32] rnd_of_int [of 64] rnd_of_int [of 128] by simp_all
    moreover have "a \<in> {1, 2, 3, 4, 5, 6, 7}" using that by auto
    ultimately show ?thesis by (auto simp: demo_worker_def retry_delay_def rounded_pow_two fmin_def Let_def)
  qed
  have "is_Exception e" if "rounded_pow x n = Inl e" for x n e
    using that by (auto simp: rounded_pow_def Let_def is_Exception_def split: pyfloat.splits if_splits)
  moreover have "\<exists>d. retry_delay rounded_pow (wk_retry_policy demo_worker) a (Fin 0) = Inr d
      \<and> (\<forall>m. \<exists>t. sqlite_date (we_utc demo_worker_env m) d = Inr t)" if "1 \<le> a" "a < 8" for a
    using delay [OF that] date by blast
  moreover have "we_fpow demo_worker_env = rounded_pow" "we_random demo_worker_env n = Fin 0" "wk_max_delivery_attempts demo_worker = 8" for n
    by (simp_all add: demo_worker_env_def demo_worker_def)
  moreover have "raises_exceptions demo_worker" by (simp add: raises_exceptions_def demo_worker_def is_Exception_def)
  moreover have "others_respect demo_worker_env (wk_worker_id demo_worker)" by (simp add: others_respect_def demo_worker_env_def)
  ultimately show ?thesis unfolding run_assumptions_def by simp
qed

text \<open>C27: A worker's run on the SQLite store always returns and leaves nothing of its batch behind: of the
  claimed events each is counted as delivered, retried or dead-lettered, and none of them is still leased to the
  worker, whatever the handlers answer, provided that the handlers raise only ordinary exceptions,
  that the other processes leave the worker's leases alone, and that neither the lease nor the back-off of the
  attempts before the last runs past the calendar or overflows.\<close>

theorem run_once_settles_batch:
  assumes "run_assumptions sqlite_date env wk" "wf_outbox (ws_db s)" "\<not> blank (wk_worker_id wk)"
    and "datetime_add (we_utc env (ws_ticks s)) (max 1 (wk_lease_seconds wk) * 1000000) = Inr x"
  shows "\<exists>es db1 c s'. sqlite_claim (we_utc env (ws_ticks s)) (wk_worker_id wk) limit (wk_lease_seconds wk) dest
         (we_others env (ws_ticks s) (ws_db s)) = (Inr es, db1)
     \<and> run_once env sqlite_outbox wk limit dest s = (Inr (int (length es), c), s')
     \<and> rn_delivered c + rn_retried c + rn_dead_lettered c = int (length es) \<and> wf_outbox (ws_db s')
     \<and> held_set (wk_worker_id wk) (ws_db s') = {h \<in> held_set (wk_worker_id wk) (ws_db s). fst h \<notin> set (map oe_event_id es)}"
proof -
  obtain es db1 where claim: "sqlite_claim (we_utc env (ws_ticks s)) (wk_worker_id wk) limit (wk_lease_seconds wk) dest
      (we_others env (ws_ticks s) (ws_db s)) = (Inr es, db1)"
    using assms(3,4) by (simp add: sqlite_claim_def Let_def)
  then have "st_claim sqlite_outbox (we_utc env (ws_ticks s)) (wk_worker_id wk) limit (wk_lease_seconds wk) dest
      (we_others env (ws_ticks s) (ws_db s)) = (Inr es, db1)"
    by (simp add: sqlite_outbox_def)
  from sqlite_box.run_once_settles [OF assms(1,2) this] claim show ?thesis
    unfolding rn_total_def by (intro exI [of _ es] exI [of _ db1]) simp
qed

theorem run_once_settles_batch_witness:
  "\<exists>n c s'. run_once demo_worker_env sqlite_outbox demo_worker 10 [] demo_worker_sys = (Inr (n, c), s')
     \<and> rn_delivered c + rn_retried c + rn_dead_lettered c = n"
proof -
  have "wf_outbox (demo_box demo_row)"
    by (simp add: wf_outbox_def demo_box_def lease_ok_def demo_event_def outbox_row_of_def)
  moreover have "\<not> blank (wk_worker_id demo_worker)" by (simp add: demo_worker_def blank_def strip_eq_Nil py_space_def)
  moreover have "datetime_add (we_utc demo_worker_env (ws_ticks demo_worker_sys)) (max 1 (wk_lease_seconds demo_worker) * 1000000) = Inr 60000010"
    by (simp add: demo_worker_env_def demo_worker_sys_def demo_worker_def datetime_add_def)
  moreover have "ws_db demo_worker_sys = demo_box demo_row" by (simp add: demo_worker_sys_def)
  ultimately show ?thesis
    using run_once_settles_batch [OF demo_assumptions, of demo_worker_sys "60000010" 10 "[]"] by fastforce
qed

end
