(* ===== verification/Policies.thy ===== *)
theory Policies
  imports Guardrails Decision Approvals
begin

text \<open>
  \<^verbatim>\<open>agent_roi/policies/validate.py\<close> and \<^verbatim>\<open>loader.py\<close>: validation of policy data and the runtime controls
  built from it.  A dictionary is the list of its entries in insertion order.  Validation collects its complaints
  and raises once; an integer that no float can hold makes it raise \<^verbatim>\<open>OverflowError\<close> instead.  The
  messages about items of \<^verbatim>\<open>thresholds\<close> and \<^verbatim>\<open>savings_multipliers\<close> leave out the keys on the path to the item.
\<close>

type_synonym pydict = "(pyval \<times> pyval) list"

text \<open>The dictionary \<^verbatim>\<open>json.loads\<close> gives for an object.\<close>

definition jdict :: "json_object \<Rightarrow> pydict" where
  "jdict d = map (\<lambda>(k, v). (PStr k, py_of_json v)) d"

section \<open>Validation\<close>

fun is_number :: "pyval \<Rightarrow> bool" where
  "is_number (PInt _) = True"
| "is_number (PFloat _) = True"
| "is_number _ = False"

definition is_finite_number :: "pyval \<Rightarrow> exc + bool" where
  "is_finite_number v = (if \<not> is_number v then Inr False else ebind (py_float v) (\<lambda>x. Inr (is_finite x)))"

definition require_mapping :: "pydict \<Rightarrow> string \<Rightarrow> bool \<Rightarrow> string list \<times> pydict" where
  "require_mapping data key required =
     (case map_of data (PStr key) of
        None \<Rightarrow> if required then ([''policy.'' @ key @ '' must be a mapping/object''], []) else ([], [])
      | Some (PDict d) \<Rightarrow> ([], d)
      | Some _ \<Rightarrow> ([''policy.'' @ key @ '' must be a mapping/object''], []))"

text \<open>The text of a bound; the bounds in use are the floats 0 and 1.\<close>

fun bound_text :: "pyfloat \<Rightarrow> string" where
  "bound_text (Fin q) = show_int \<lfloor>q\<rfloor> @ ''.0''"
| "bound_text PInf = ''inf''"
| "bound_text NInf = ''-inf''"
| "bound_text NaN = ''nan''"

definition require_number ::
    "pydict \<Rightarrow> string \<Rightarrow> string \<Rightarrow> pyfloat option \<Rightarrow> pyfloat option \<Rightarrow> bool \<Rightarrow> exc + string list" where
  "require_number obj path key min_value max_value required =
     (case map_of obj (PStr key) of
        None \<Rightarrow> Inr (if required then [path @ ''.'' @ key @ '' is required''] else [])
      | Some v \<Rightarrow>
          if \<not> is_number v then Inr [path @ ''.'' @ key @ '' must be a number'']
          else ebind (py_float v) (\<lambda>x.
            if \<not> is_finite x then Inr [path @ ''.'' @ key @ '' must be finite'']
            else Inr ((case min_value of Some m \<Rightarrow> if flt x m then [path @ ''.'' @ key @ '' must be >= '' @ bound_text m] else [] | None \<Rightarrow> [])
              @ (case max_value of Some m \<Rightarrow> if flt m x then [path @ ''.'' @ key @ '' must be <= '' @ bound_text m] else [] | None \<Rightarrow> []))))"

text \<open>\<^verbatim>\<open>int(value)\<close> of a number that is an integer.\<close>

definition int_like :: "pyval \<Rightarrow> pyfloat \<Rightarrow> int option" where
  "int_like v x = (case v of PInt i \<Rightarrow> Some i
     | _ \<Rightarrow> (case x of Fin q \<Rightarrow> if of_int \<lfloor>q\<rfloor> = q then Some \<lfloor>q\<rfloor> else None | _ \<Rightarrow> None))"

definition require_int_like :: "pydict \<Rightarrow> string \<Rightarrow> string \<Rightarrow> int \<Rightarrow> bool \<Rightarrow> exc + string list" where
  "require_int_like obj path key min_value required =
     (case map_of obj (PStr key) of
        None \<Rightarrow> Inr (if required then [path @ ''.'' @ key @ '' is required''] else [])
      | Some v \<Rightarrow>
          ebind (is_finite_number v) (\<lambda>finite.
            if \<not> finite then Inr [path @ ''.'' @ key @ '' must be an integer'']
            else ebind (py_float v) (\<lambda>x. case int_like v x of
                None \<Rightarrow> Inr [path @ ''.'' @ key @ '' must be an integer'']
              | Some i \<Rightarrow> Inr (if i < min_value then [path @ ''.'' @ key @ '' must be >= '' @ show_int min_value] else []))))"

fun tool_item_ok :: "pyval \<Rightarrow> bool" where
  "tool_item_ok (PStr s) = (\<not> blank s)"
| "tool_item_ok _ = False"

definition check_tool_items :: "pyval list \<Rightarrow> string list" where
  "check_tool_items xs = (if list_all tool_item_ok xs then []
     else [''policy.guardrails.allowed_tools must contain only non-empty strings''])"

definition validate_allowed_tools :: "pydict \<Rightarrow> string list" where
  "validate_allowed_tools guardrails =
     (case map_of guardrails (PStr ''allowed_tools'') of
        None \<Rightarrow> []
      | Some PNone \<Rightarrow> []
      | Some (PList xs) \<Rightarrow> check_tool_items xs
      | Some (PTuple xs) \<Rightarrow> check_tool_items xs
      | Some (PSet xs) \<Rightarrow> check_tool_items xs
      | Some _ \<Rightarrow> [''policy.guardrails.allowed_tools must be a list or set of strings''])"

definition weight_names :: "string list" where
  "weight_names = [''w_prob'', ''w_margin'', ''w_z'', ''w_entropy'', ''w_llm'']"

text \<open>The loop over the weights, with the running total and whether one was present.\<close>

fun weigh :: "pydict \<Rightarrow> string list \<Rightarrow> pyfloat \<Rightarrow> bool \<Rightarrow> exc + string list \<times> pyfloat \<times> bool" where
  "weigh p [] tot present = Inr ([], tot, present)"
| "weigh p (key # keys) tot present =
     (let path = ''policy.decision_policy.'' @ key;
          complain = (\<lambda>m. ebind (weigh p keys tot True) (\<lambda>(es, r). Inr ((path @ m) # es, r))) in
      case map_of p (PStr key) of
        None \<Rightarrow> weigh p keys tot present
      | Some v \<Rightarrow>
          if \<not> is_number v then complain '' must be a number''
          else ebind (py_float v) (\<lambda>x.
            if \<not> is_finite x then complain '' must be finite''
            else if flt x (Fin 0) then complain '' must be >= 0''
            else weigh p keys (fadd tot x) True))"

definition validate_decision_weights :: "pydict \<Rightarrow> exc + string list" where
  "validate_decision_weights p = ebind (weigh p weight_names (Fin 0) False) (\<lambda>(es, tot, present).
     Inr (es @ (if present \<and> tot = Fin 0 then [''policy.decision_policy confidence weights cannot all be zero''] else [])))"

definition nested_item :: "pyval \<times> pyval \<Rightarrow> exc + string list" where
  "nested_item kv = (case kv of (key, v) \<Rightarrow>
     if key = PStr ''always_flag'' then Inr (if is_bool v then [] else [''policy.thresholds item must be a boolean''])
     else if is_bool v then Inr [''policy.thresholds item must be a finite number'']
     else ebind (is_finite_number v) (\<lambda>finite.
       if \<not> finite then Inr [''policy.thresholds item must be a finite number'']
       else ebind (py_float v) (\<lambda>x. Inr (if flt x (Fin 0) then [''policy.thresholds item must be >= 0''] else []))))"

definition nested_section :: "pyval \<times> pyval \<Rightarrow> exc + string list" where
  "nested_section kv = (case snd kv of
      PDict items \<Rightarrow> ebind (collect nested_item items) (\<lambda>es. Inr (concat es))
    | _ \<Rightarrow> Inr [''policy.thresholds section must be a mapping/object''])"

definition validate_nested :: "pydict \<Rightarrow> exc + string list" where
  "validate_nested parent = ebind (collect nested_section parent) (\<lambda>es. Inr (concat es))"

definition multiplier_item :: "pyval \<times> pyval \<Rightarrow> exc + string list" where
  "multiplier_item kv = ebind (is_finite_number (snd kv)) (\<lambda>finite.
     if \<not> finite then Inr [''policy.scoring.savings_multipliers item must be a finite number'']
     else ebind (py_float (snd kv)) (\<lambda>x.
       Inr (if fle (Fin 0) x \<and> fle x (Fin 1) then [] else [''policy.scoring.savings_multipliers item must be between 0 and 1''])))"

definition validate_scoring :: "pydict \<Rightarrow> exc + string list" where
  "validate_scoring scoring =
     (case map_of scoring (PStr ''savings_multipliers'') of
        None \<Rightarrow> Inr []
      | Some (PDict items) \<Rightarrow> ebind (collect multiplier_item items) (\<lambda>es. Inr (concat es))
      | Some _ \<Rightarrow> Inr [''policy.scoring.savings_multipliers must be a mapping/object''])"

fun risk_ok :: "pyval \<Rightarrow> bool" where
  "risk_ok (PStr s) = (lower (strip s) \<in> {''low'', ''med'', ''medium'', ''high''})"
| "risk_ok _ = False"

definition check_risks :: "string \<Rightarrow> pyval list \<Rightarrow> string list" where
  "check_risks key xs = map (\<lambda>_. ''policy.approval_routing.'' @ key @ '' must contain only low, med, medium, or high'')
     (filter (\<lambda>v. \<not> risk_ok v) xs)"

definition validate_routing_key :: "pydict \<Rightarrow> string \<Rightarrow> string list" where
  "validate_routing_key routing key =
     (case map_of routing (PStr key) of
        None \<Rightarrow> []
      | Some (PList xs) \<Rightarrow> check_risks key xs
      | Some (PTuple xs) \<Rightarrow> check_risks key xs
      | Some (PSet xs) \<Rightarrow> check_risks key xs
      | Some _ \<Rightarrow> [''policy.approval_routing.'' @ key @ '' must be a list''])"

definition validate_flags :: "pydict \<Rightarrow> string list" where
  "validate_flags guardrails = concat (map (\<lambda>key. case map_of guardrails (PStr key) of
      Some v \<Rightarrow> if is_bool v then [] else [''policy.guardrails.'' @ key @ '' must be a boolean'']
    | None \<Rightarrow> []) [''deterministic'', ''require_registered_tools'', ''require_bound_approval_grants''])"

definition validate_abstain :: "pydict \<Rightarrow> string list" where
  "validate_abstain p = (case map_of p (PStr ''abstain_action'') of
      None \<Rightarrow> []
    | Some (PStr s) \<Rightarrow> (case outcome_of_string s of Inr _ \<Rightarrow> []
        | Inl _ \<Rightarrow> [''policy.decision_policy.abstain_action must be one of: accept, abstain, human_review, retry''])
    | Some _ \<Rightarrow> [''policy.decision_policy.abstain_action must be a string''])"

definition validate_policy_name :: "pydict \<Rightarrow> string list" where
  "validate_policy_name d = (case map_of d (PStr ''policy_name'') of
      None \<Rightarrow> []
    | Some (PStr s) \<Rightarrow> if blank s then [''policy.policy_name must be a non-empty string''] else []
    | Some _ \<Rightarrow> [''policy.policy_name must be a non-empty string''])"

definition policy_complaints :: "pydict \<Rightarrow> exc + string list" where
  "policy_complaints d =
     (let (e1, guardrails) = require_mapping d ''guardrails'' True;
          (e2, decision) = require_mapping d ''decision_policy'' True;
          (e3, thresholds) = require_mapping d ''thresholds'' False;
          (e4, scoring) = require_mapping d ''scoring'' False;
          (e5, routing) = require_mapping d ''approval_routing'' False in
      ebind (require_int_like guardrails ''policy.guardrails'' ''max_steps'' 1 True) (\<lambda>a1.
      ebind (require_int_like guardrails ''policy.guardrails'' ''max_tool_calls'' 0 True) (\<lambda>a2.
      ebind (require_number guardrails ''policy.guardrails'' ''max_cost_usd'' (Some (Fin 0)) None True) (\<lambda>a3.
      ebind (require_number decision ''policy.decision_policy'' ''min_confidence'' (Some (Fin 0)) (Some (Fin 1)) True) (\<lambda>a4.
      ebind (validate_decision_weights decision) (\<lambda>a5.
      ebind (validate_nested thresholds) (\<lambda>a6.
      ebind (validate_scoring scoring) (\<lambda>a7.
      Inr (validate_policy_name d @ e1 @ a1 @ a2 @ a3 @ validate_flags guardrails @ validate_allowed_tools guardrails
        @ e2 @ a4 @ validate_abstain decision @ a5 @ e3 @ a6 @ e4 @ a7 @ e5
        @ validate_routing_key routing ''requires_approval_for_risk''
        @ validate_routing_key routing ''production_requires_approval_for_risk'')))))))))"

definition validate_policy :: "pyval \<Rightarrow> exc + unit" where
  "validate_policy data =
     (case data of
        PDict d \<Rightarrow> ebind (policy_complaints d) (\<lambda>es.
          if es = [] then Inr () else Inl (PolicyValidationError (''Invalid policy:'' @ concat (map (\<lambda>e. CHR 0x0A # ''- '' @ e) es))))
      | _ \<Rightarrow> Inl (PolicyValidationError (''Invalid policy:'' @ [CHR 0x0A] @ ''- policy root must be a mapping/object'')))"

section \<open>Building the controls\<close>

text \<open>Keyword arguments: a key that is no string or no field of the class raises \<^verbatim>\<open>TypeError\<close>.\<close>

definition keywords_ok :: "string list \<Rightarrow> pydict \<Rightarrow> bool" where
  "keywords_ok names d \<longleftrightarrow> list_all (\<lambda>(k, v). \<exists>n\<in>set names. k = PStr n) d"

definition keyword :: "pydict \<Rightarrow> string \<Rightarrow> pyval \<Rightarrow> pyval" where
  "keyword d key dflt = (case map_of d (PStr key) of Some v \<Rightarrow> v | None \<Rightarrow> dflt)"

definition guardrails_of :: "pydict \<Rightarrow> exc + guardrails" where
  "guardrails_of d =
     (if \<not> keywords_ok [''max_steps'', ''max_tool_calls'', ''max_cost_usd'', ''deterministic'', ''allowed_tools'',
           ''require_registered_tools'', ''require_bound_approval_grants''] d
      then Inl (TypeError ''unexpected keyword argument'')
      else guardrails_init (keyword d ''max_steps'' (PInt 10)) (keyword d ''max_tool_calls'' (PInt 20))
        (keyword d ''max_cost_usd'' (PFloat (Fin 1))) (keyword d ''deterministic'' (PBool True))
        (keyword d ''allowed_tools'' PNone) (keyword d ''require_registered_tools'' (PBool False))
        (keyword d ''require_bound_approval_grants'' (PBool False)))"

definition decision_of ::
    "(pyfloat \<Rightarrow> string) \<Rightarrow> (pyval \<Rightarrow> string) \<Rightarrow> pydict \<Rightarrow> exc + decision_policy" where
  "decision_of fr orr d =
     (if \<not> keywords_ok ([''min_confidence'', ''abstain_action''] @ weight_names) d
      then Inl (TypeError ''unexpected keyword argument'')
      else decision_policy_init (keyword d ''min_confidence'' (PFloat (Fin (3 / 4))))
        (str_of fr orr (keyword d ''abstain_action'' (PStr ''human_review'')))
        (keyword d ''w_prob'' (PFloat (rnd (55 / 100)))) (keyword d ''w_margin'' (PFloat (rnd (20 / 100))))
        (keyword d ''w_z'' (PFloat (rnd (15 / 100)))) (keyword d ''w_entropy'' (PFloat (rnd (10 / 100))))
        (keyword d ''w_llm'' (PFloat (rnd (10 / 100)))))"

text \<open>The allowlist becomes a frozen set of stripped names.\<close>

definition normalize_allowed :: "(pyfloat \<Rightarrow> string) \<Rightarrow> (pyval \<Rightarrow> string) \<Rightarrow> pyval \<Rightarrow> pyval" where
  "normalize_allowed fr orr v =
     (let names = (\<lambda>xs. PSet (remdups (map (\<lambda>x. PStr (strip (str_of fr orr x))) xs))) in
      case v of PList xs \<Rightarrow> names xs | PTuple xs \<Rightarrow> names xs | PSet xs \<Rightarrow> names xs | _ \<Rightarrow> v)"

definition normalize_policy :: "(pyfloat \<Rightarrow> string) \<Rightarrow> (pyval \<Rightarrow> string) \<Rightarrow> pydict \<Rightarrow> pydict" where
  "normalize_policy fr orr d =
     (case map_of d (PStr ''guardrails'') of
        Some (PDict g) \<Rightarrow> (case map_of g (PStr ''allowed_tools'') of
            Some v \<Rightarrow> AList.update (PStr ''guardrails'')
              (PDict (AList.update (PStr ''allowed_tools'') (normalize_allowed fr orr v) g)) d
          | None \<Rightarrow> d)
      | _ \<Rightarrow> d)"

fun freeze_value :: "(pyfloat \<Rightarrow> string) \<Rightarrow> (pyval \<Rightarrow> string) \<Rightarrow> pyval \<Rightarrow> pyval" where
  "freeze_value fr orr (PDict kvs) =
     PDict (foldl (\<lambda>d (k, v). AList.update k v d) [] (map (\<lambda>(k, v). (PStr (str_of fr orr k), freeze_value fr orr v)) kvs))"
| "freeze_value fr orr (PList xs) = PTuple (map (freeze_value fr orr) xs)"
| "freeze_value fr orr (PTuple xs) = PTuple (map (freeze_value fr orr) xs)"
| "freeze_value fr orr (PSet xs) = PSet (map (freeze_value fr orr) xs)"
| "freeze_value fr orr v = v"

record policy =
  pol_name :: string
  pol_data :: pyval

definition submap :: "string \<Rightarrow> pydict \<Rightarrow> exc + pydict" where
  "submap key d = (case map_of d (PStr key) of
     Some (PDict m) \<Rightarrow> Inr m | Some _ \<Rightarrow> Inl (TypeError ''object is not iterable'') | None \<Rightarrow> Inl (KeyError key))"

definition policy_from_mapping ::
    "(pyfloat \<Rightarrow> string) \<Rightarrow> (pyval \<Rightarrow> string) \<Rightarrow> string \<Rightarrow> pydict \<Rightarrow> exc + policy" where
  "policy_from_mapping fr orr name data =
     (if blank name then Inl (ValueError ''name must be a non-empty string'')
      else ebind (validate_policy (PDict data)) (\<lambda>_.
        let d = normalize_policy fr orr data in
        ebind (ebind (submap ''guardrails'' d) guardrails_of) (\<lambda>_.
        ebind (ebind (submap ''decision_policy'' d) (decision_of fr orr)) (\<lambda>_.
        Inr \<lparr>pol_name = strip name, pol_data = freeze_value fr orr (PDict d)\<rparr>))))"

definition policy_entries :: "policy \<Rightarrow> pydict" where
  "policy_entries p = (case pol_data p of PDict d \<Rightarrow> d | _ \<Rightarrow> [])"

definition entry_dict :: "string \<Rightarrow> pydict \<Rightarrow> exc + pydict" where
  "entry_dict key d = (case map_of d (PStr key) of
     None \<Rightarrow> Inr [] | Some (PDict m) \<Rightarrow> Inr m | Some _ \<Rightarrow> Inl (TypeError ''object is not iterable''))"

definition policy_guardrails :: "policy \<Rightarrow> exc + guardrails" where
  "policy_guardrails p = ebind (entry_dict ''guardrails'' (policy_entries p)) guardrails_of"

definition policy_decision :: "(pyfloat \<Rightarrow> string) \<Rightarrow> (pyval \<Rightarrow> string) \<Rightarrow> policy \<Rightarrow> exc + decision_policy" where
  "policy_decision fr orr p = ebind (entry_dict ''decision_policy'' (policy_entries p)) (decision_of fr orr)"

text \<open>\<^verbatim>\<open>load_policy\<close>, from the value the YAML parser read out of the file.\<close>

definition load_policy ::
    "(pyfloat \<Rightarrow> string) \<Rightarrow> (pyval \<Rightarrow> string) \<Rightarrow> string \<Rightarrow> (exc + pyval) \<Rightarrow> exc + policy" where
  "load_policy fr orr name raw =
     (if blank name then Inl (ValueError ''package_yaml_name must be a non-empty string'')
      else ebind raw (\<lambda>v. let data = (if v = PNone then PDict [] else v) in
        ebind (validate_policy data) (\<lambda>_.
          case data of
            PDict m \<Rightarrow> (let d = normalize_policy fr orr m in
              ebind (ebind (submap ''guardrails'' d) guardrails_of) (\<lambda>_.
              ebind (ebind (submap ''decision_policy'' d) (decision_of fr orr)) (\<lambda>_.
              Inr \<lparr>pol_name = name, pol_data = freeze_value fr orr (PDict d)\<rparr>)))
          | _ \<Rightarrow> Inl (PolicyValidationError ''Invalid policy''))))"

end
