(* ===== verification/Policy_Laws.thy ===== *)
theory Policy_Laws
  imports Policies
begin

text \<open>
  A policy document that was accepted builds the runtime controls it says: reading the limits back out of
  the frozen policy never fails and never falls back to a default limit.
\<close>

section \<open>JSON documents as dictionaries\<close>

lemma map_of_jdict [simp]: "map_of (jdict d) (PStr k) = map_option py_of_json (map_of d k)"
  by (induction d) (auto simp: jdict_def)

definition str_keyed :: "pydict \<Rightarrow> bool" where
  "str_keyed d \<longleftrightarrow> distinct (map fst d) \<and> fst ` set d \<subseteq> range PStr"

lemma str_keyed_jdict: "distinct (map fst d) \<Longrightarrow> str_keyed (jdict d)"
proof -
  have keys: "map fst (jdict d) = map PStr (map fst d)" by (induction d) (auto simp: jdict_def)
  moreover assume "distinct (map fst d)"
  ultimately have "distinct (map fst (jdict d))" by (simp add: distinct_map inj_on_def)
  moreover have "fst ` set (jdict d) \<subseteq> range PStr" using keys by (metis image_subset_iff list.set_map rangeI)
  ultimately show ?thesis by (simp add: str_keyed_def)
qed

lemma str_keyed_update: "str_keyed d \<Longrightarrow> str_keyed (AList.update (PStr k) v d)"
  by (simp add: str_keyed_def distinct_update dom_update)

text \<open>Freezing a dictionary with text keys freezes its values.\<close>

lemma freeze_dict:
  assumes "str_keyed d"
  shows "freeze_value fr orr (PDict d) = PDict (map (\<lambda>(k, v). (k, freeze_value fr orr v)) d)"
proof -
  have eq: "map (\<lambda>(k, v). (PStr (str_of fr orr k), freeze_value fr orr v)) d = map (\<lambda>(k, v). (k, freeze_value fr orr v)) d"
    using assms by (force simp: str_keyed_def)
  have keys: "map fst (map (\<lambda>(k, v). (k, freeze_value fr orr v)) d) = map fst d" by (induction d) auto
  have "distinct (map fst (map (\<lambda>(k, v). (k, freeze_value fr orr v)) d))" unfolding keys using assms by (simp add: str_keyed_def)
  then show ?thesis
    using foldl_update_distinct [of "map (\<lambda>(k, v). (k, freeze_value fr orr v)) d" "[]"] by (simp add: eq)
qed

lemma map_of_frozen: "map_of (map (\<lambda>(k, v). (k, freeze_value fr orr v)) d) k = map_option (freeze_value fr orr) (map_of d k)"
  by (induction d) auto

lemma keywords_frozen: "keywords_ok ns (map (\<lambda>(k, v). (k, freeze_value fr orr v)) d) = keywords_ok ns d"
  by (auto simp: keywords_ok_def list_all_iff)

lemma keyword_frozen:
  "freeze_value fr orr v = v \<Longrightarrow> keyword (map (\<lambda>(k, v). (k, freeze_value fr orr v)) d) n v = freeze_value fr orr (keyword d n v)"
  by (simp add: keyword_def map_of_frozen split: option.split)

section \<open>Freezing does not change what the constructors see\<close>

lemma freeze_number: "py_float v = Inr x \<Longrightarrow> freeze_value fr orr v = v"
  by (cases v) auto

lemma freeze_bool: "is_bool v \<Longrightarrow> freeze_value fr orr v = v"
  by (cases v) auto

lemma freeze_int: "is_int v \<Longrightarrow> freeze_value fr orr v = v"
  by (cases v) auto

lemma tool_names_str: "normalize_tool_names vs = Inr names \<Longrightarrow> map (freeze_value fr orr) vs = vs"
  by (induction vs arbitrary: names) (auto split: pyval.splits if_splits sum.splits)

lemma freeze_tools:
  assumes "init_allowed_tools v = Inr r" "\<forall>d. v \<noteq> PDict d"
  shows "init_allowed_tools (freeze_value fr orr v) = Inr r"
  using assms tool_names_str by (cases v) (auto simp: init_allowed_tools_def split: sum.splits if_splits)

lemma guardrails_init_frozen:
  assumes "guardrails_init a b c d e f h = Inr g" "\<forall>m. e \<noteq> PDict m"
  shows "guardrails_init (freeze_value fr orr a) (freeze_value fr orr b) (freeze_value fr orr c) (freeze_value fr orr d)
     (freeze_value fr orr e) (freeze_value fr orr f) (freeze_value fr orr h) = Inr g"
proof -
  have "is_int a" "is_int b" "is_bool d" "is_bool f" "is_bool h" "\<exists>x. py_float c = Inr x" and e: "\<exists>r. init_allowed_tools e = Inr r"
    using assms(1) by (auto simp: guardrails_init_def split: if_splits sum.splits)
  then have eq: "freeze_value fr orr a = a" "freeze_value fr orr b = b" "freeze_value fr orr d = d" "freeze_value fr orr f = f"
      "freeze_value fr orr h = h" "freeze_value fr orr c = c"
    by (auto simp: freeze_int freeze_bool freeze_number)
  obtain r where r: "init_allowed_tools e = Inr r" using e ..
  have "init_allowed_tools (freeze_value fr orr e) = init_allowed_tools e" using freeze_tools [OF r assms(2)] r by simp
  then have "guardrails_init a b c d (freeze_value fr orr e) f h = guardrails_init a b c d e f h"
    by (simp add: guardrails_init_def split: sum.split)
  then show ?thesis using assms(1) unfolding eq by simp
qed

lemma guardrails_of_frozen:
  assumes "guardrails_of d = Inr g" "\<forall>m. keyword d ''allowed_tools'' PNone \<noteq> PDict m"
  shows "guardrails_of (map (\<lambda>(k, v). (k, freeze_value fr orr v)) d) = Inr g"
proof -
  have ok: "keywords_ok [''max_steps'', ''max_tool_calls'', ''max_cost_usd'', ''deterministic'', ''allowed_tools'',
           ''require_registered_tools'', ''require_bound_approval_grants''] d"
    using assms(1) unfolding guardrails_of_def by (simp split: if_splits)
  then have "guardrails_init (keyword d ''max_steps'' (PInt 10)) (keyword d ''max_tool_calls'' (PInt 20))
        (keyword d ''max_cost_usd'' (PFloat (Fin 1))) (keyword d ''deterministic'' (PBool True))
        (keyword d ''allowed_tools'' PNone) (keyword d ''require_registered_tools'' (PBool False))
        (keyword d ''require_bound_approval_grants'' (PBool False)) = Inr g"
    using assms(1) by (simp add: guardrails_of_def)
  from guardrails_init_frozen [OF this assms(2)] show ?thesis
    using ok by (simp add: guardrails_of_def keywords_frozen keyword_frozen)
qed

lemma finite_number_Inr: "finite_number v n = Inr x \<Longrightarrow> py_float v = Inr x"
  by (auto simp: finite_number_def split: sum.splits exc.splits if_splits)

lemma init_weight_Inr: "init_weight v n = Inr x \<Longrightarrow> py_float v = Inr x"
  using finite_number_Inr by (auto simp: init_weight_def split: sum.splits if_splits)

lemma decision_init_numbers:
  assumes "decision_policy_init m a p q z n l = Inr dp"
  shows "\<forall>v\<in>{m, p, q, z, n, l}. \<exists>x. py_float v = Inr x"
  using assms finite_number_Inr init_weight_Inr
  by (auto simp: decision_policy_init_def split: sum.splits if_splits)

lemma decision_of_frozen:
  assumes "decision_of fr orr d = Inr dp" "\<exists>s. keyword d ''abstain_action'' (PStr ''human_review'') = PStr s"
  shows "decision_of fr orr (map (\<lambda>(k, v). (k, freeze_value fr orr v)) d) = Inr dp"
proof -
  have ok: "keywords_ok ([''min_confidence'', ''abstain_action''] @ weight_names) d"
    using assms(1) unfolding decision_of_def by (simp split: if_splits)
  let ?f = "freeze_value fr orr"
  let ?k = "keyword d"
  have init: "decision_policy_init (?k ''min_confidence'' (PFloat (Fin (3 / 4)))) (str_of fr orr (?k ''abstain_action'' (PStr ''human_review'')))
        (?k ''w_prob'' (PFloat (rnd (55 / 100)))) (?k ''w_margin'' (PFloat (rnd (20 / 100))))
        (?k ''w_z'' (PFloat (rnd (15 / 100)))) (?k ''w_entropy'' (PFloat (rnd (10 / 100))))
        (?k ''w_llm'' (PFloat (rnd (10 / 100)))) = Inr dp"
    using assms(1) ok by (simp add: decision_of_def)
  have num: "?f v = v" if "\<exists>x. py_float v = Inr x" for v using that freeze_number by blast
  note nums = decision_init_numbers [OF init, simplified ball_simps]
  have a: "?f (?k ''abstain_action'' (PStr ''human_review'')) = ?k ''abstain_action'' (PStr ''human_review'')"
    using assms(2) by auto
  show ?thesis
    using ok init nums a by (simp add: decision_of_def keywords_frozen keyword_frozen num)
qed

section \<open>What an accepted document contains\<close>

lemma require_mapping_Nil: "require_mapping d k True = ([], m) \<Longrightarrow> map_of d (PStr k) = Some (PDict m)"
  by (auto simp: require_mapping_def split: option.splits pyval.splits)

lemma complaints_Nil:
  assumes "policy_complaints d = Inr []"
  shows "\<exists>g m. map_of d (PStr ''guardrails'') = Some (PDict g) \<and> map_of d (PStr ''decision_policy'') = Some (PDict m)
     \<and> require_int_like g ''policy.guardrails'' ''max_steps'' 1 True = Inr []
     \<and> require_int_like g ''policy.guardrails'' ''max_tool_calls'' 0 True = Inr []
     \<and> require_number g ''policy.guardrails'' ''max_cost_usd'' (Some (Fin 0)) None True = Inr []
     \<and> require_number m ''policy.decision_policy'' ''min_confidence'' (Some (Fin 0)) (Some (Fin 1)) True = Inr []
     \<and> validate_allowed_tools g = [] \<and> validate_abstain m = []"
proof -
  obtain e1 g where g: "require_mapping d ''guardrails'' True = (e1, g)" by (cases "require_mapping d ''guardrails'' True")
  obtain e2 m where m: "require_mapping d ''decision_policy'' True = (e2, m)" by (cases "require_mapping d ''decision_policy'' True")
  have "e1 = []" "e2 = []" and rest: "require_int_like g ''policy.guardrails'' ''max_steps'' 1 True = Inr []"
      "require_int_like g ''policy.guardrails'' ''max_tool_calls'' 0 True = Inr []"
      "require_number g ''policy.guardrails'' ''max_cost_usd'' (Some (Fin 0)) None True = Inr []"
      "require_number m ''policy.decision_policy'' ''min_confidence'' (Some (Fin 0)) (Some (Fin 1)) True = Inr []"
      "validate_allowed_tools g = []" "validate_abstain m = []"
    using assms unfolding policy_complaints_def g m by (auto simp: ebind_Inr split: prod.splits)
  then show ?thesis using require_mapping_Nil g m by blast
qed

lemma required_present:
  "require_int_like obj path key n True = Inr [] \<Longrightarrow> \<exists>v. map_of obj (PStr key) = Some v"
  "require_number obj path key lo hi True = Inr [] \<Longrightarrow> \<exists>v. map_of obj (PStr key) = Some v"
  by (auto simp: require_int_like_def require_number_def split: option.splits)

lemma keyword_present: "map_of d (PStr k) = Some v \<Longrightarrow> keyword d k w = v"
  by (simp add: keyword_def)

lemma py_of_json_scalars [simp]:
  "py_of_json j = PInt i \<longleftrightarrow> j = JInt i" "py_of_json j = PDict m \<longleftrightarrow> (\<exists>o'. j = JObj o' \<and> m = jdict o')"
  "py_of_json j = PStr s \<longleftrightarrow> j = JStr s" "PDict m = py_of_json j \<longleftrightarrow> (\<exists>o'. j = JObj o' \<and> m = jdict o')"
  by (cases j; auto simp: jdict_def)+

lemma int_of_json: "is_int (py_of_json j) \<Longrightarrow> \<not> is_bool (py_of_json j) \<Longrightarrow> j = JInt (int_of_pyval (py_of_json j))"
  by (cases j) auto

text \<open>The allowlist of a document.\<close>

definition document_tools :: "json_object \<Rightarrow> string set option" where
  "document_tools gm = (case map_of gm ''allowed_tools'' of
     Some (JList xs) \<Rightarrow> Some {strip s | s. JStr s \<in> set xs} | _ \<Rightarrow> None)"

lemma normalize_strs:
  assumes "\<forall>v\<in>set vs. \<exists>t. v = PStr t \<and> \<not> blank t"
  shows "\<exists>names. normalize_tool_names vs = Inr names \<and> set names = {strip t | t. PStr t \<in> set vs}"
  using assms
proof (induction vs)
  case (Cons v vs)
  then obtain names t where "normalize_tool_names vs = Inr names" "set names = {strip t | t. PStr t \<in> set vs}" "v = PStr t" "\<not> blank t"
    by auto
  then show ?case by auto
qed simp

lemma tool_items_json: "list_all tool_item_ok (map py_of_json xs) \<Longrightarrow> x \<in> set xs \<Longrightarrow> \<exists>s. x = JStr s \<and> \<not> blank s"
  by (cases x) (auto simp: list_all_iff)

lemma document_tools_init:
  assumes "validate_allowed_tools (jdict gm) = []"
  shows "init_allowed_tools (case map_of gm ''allowed_tools'' of None \<Rightarrow> PNone
     | Some j \<Rightarrow> normalize_allowed fr orr (py_of_json j)) = Inr (document_tools gm)"
proof (cases "map_of gm ''allowed_tools''")
  case None
  then show ?thesis by (simp add: document_tools_def init_allowed_tools_def)
next
  case (Some j)
  then consider "j = JNull" | xs where "j = JList xs" "list_all tool_item_ok (map py_of_json xs)"
    using assms by (cases j) (auto simp: validate_allowed_tools_def check_tool_items_def split: if_splits)
  then show ?thesis
  proof cases
    case 1
    then show ?thesis using Some by (simp add: document_tools_def init_allowed_tools_def normalize_allowed_def Let_def)
  next
    case (2 xs)
    define vs where "vs = remdups (map (\<lambda>x. PStr (strip (str_of fr orr x))) (map py_of_json xs))"
    have vs: "PStr t \<in> set vs \<longleftrightarrow> (\<exists>s. JStr s \<in> set xs \<and> t = strip s)" for t
      using tool_items_json [OF 2(2)] by (force simp: vs_def)
    have "\<forall>v\<in>set vs. \<exists>t. v = PStr t \<and> \<not> blank t"
      using tool_items_json [OF 2(2)] by (force simp: vs_def)
    then obtain names where "normalize_tool_names vs = Inr names" "set names = {strip t | t. PStr t \<in> set vs}"
      using normalize_strs by blast
    moreover have "{strip t | t. PStr t \<in> set vs} = {strip s | s. JStr s \<in> set xs}" unfolding vs by auto (metis strip_idem)
    ultimately show ?thesis
      using Some 2(1) by (simp add: document_tools_def init_allowed_tools_def normalize_allowed_def Let_def vs_def)
  qed
qed

text \<open>The guardrails section after normalisation.\<close>

definition normal_guardrails :: "(pyfloat \<Rightarrow> string) \<Rightarrow> (pyval \<Rightarrow> string) \<Rightarrow> json_object \<Rightarrow> pydict" where
  "normal_guardrails fr orr gm = (case map_of gm ''allowed_tools'' of
     Some j \<Rightarrow> AList.update (PStr ''allowed_tools'') (normalize_allowed fr orr (py_of_json j)) (jdict gm) | None \<Rightarrow> jdict gm)"

lemma normalized_sections:
  assumes "map_of d ''guardrails'' = Some (JObj gm)"
  shows "map_of (normalize_policy fr orr (jdict d)) (PStr ''guardrails'') = Some (PDict (normal_guardrails fr orr gm))"
    "map_of (normalize_policy fr orr (jdict d)) (PStr ''decision_policy'') = map_option py_of_json (map_of d ''decision_policy'')"
  using assms by (auto simp: normalize_policy_def normal_guardrails_def jdict_def [symmetric] split: option.splits)

lemma str_keyed_normalized:
  assumes "distinct (map fst d)"
  shows "str_keyed (normalize_policy fr orr (jdict d))"
  using str_keyed_jdict [OF assms] str_keyed_update
  by (auto simp: normalize_policy_def split: option.splits pyval.splits)

lemma str_keyed_guardrails: "distinct (map fst gm) \<Longrightarrow> str_keyed (normal_guardrails fr orr gm)"
  using str_keyed_jdict str_keyed_update by (auto simp: normal_guardrails_def split: option.splits)

lemma normal_keyword:
  "k \<noteq> ''allowed_tools'' \<Longrightarrow> keyword (normal_guardrails fr orr gm) k v = keyword (jdict gm) k v"
  "keyword (normal_guardrails fr orr gm) ''allowed_tools'' PNone
     = (case map_of gm ''allowed_tools'' of None \<Rightarrow> PNone | Some j \<Rightarrow> normalize_allowed fr orr (py_of_json j))"
  by (auto simp: normal_guardrails_def keyword_def split: option.splits)

lemma normal_not_dict:
  assumes "validate_allowed_tools (jdict gm) = []"
  shows "keyword (normal_guardrails fr orr gm) ''allowed_tools'' PNone \<noteq> PDict m"
proof (cases "map_of gm ''allowed_tools''")
  case (Some j)
  then show ?thesis
    using assms by (cases j) (auto simp: normal_keyword(2) normalize_allowed_def Let_def validate_allowed_tools_def)
qed (simp add: normal_keyword(2))

lemma wf_json_section: "wf_json (JObj d) \<Longrightarrow> map_of d k = Some (JObj m) \<Longrightarrow> distinct (map fst m)"
  by (auto simp: list_all_iff dest!: map_of_SomeD)

lemma entry_frozen:
  assumes "map_of d (PStr k) = Some (PDict m)" "str_keyed m"
  shows "entry_dict k (map (\<lambda>(k, v). (k, freeze_value fr orr v)) d) = Inr (map (\<lambda>(k, v). (k, freeze_value fr orr v)) m)"
  using assms freeze_dict [OF assms(2)] by (simp add: entry_dict_def map_of_frozen)

lemma abstain_str: "validate_abstain d = [] \<Longrightarrow> \<exists>s. keyword d ''abstain_action'' (PStr ''human_review'') = PStr s"
  by (auto simp: validate_abstain_def keyword_def split: option.splits pyval.splits)

lemma guardrails_init_Inr:
  assumes "guardrails_init a b c d e f h = Inr g"
  shows "is_int a" "\<not> is_bool a" "is_int b" "\<not> is_bool b" "max_steps g = int_of_pyval a" "max_tool_calls g = int_of_pyval b"
    "py_float c = Inr (max_cost_usd g)" "init_allowed_tools e = Inr (allowed_tools g)"
  using assms by (auto simp: guardrails_init_def split: if_splits sum.splits)

lemma guardrails_init_flags:
  assumes "guardrails_init a b c d e f h = Inr g"
  shows "is_bool d" "is_bool f" "is_bool h" "deterministic g = (d = PBool True)" "require_registered_tools g = (f = PBool True)"
    "require_bound_approval_grants g = (h = PBool True)"
  using assms by (auto simp: guardrails_init_def split: if_splits sum.splits)

lemma decision_init_minimum: "decision_policy_init m a p q z n l = Inr dp \<Longrightarrow> py_float m = Inr (min_confidence dp)"
  using finite_number_Inr by (auto simp: decision_policy_init_def Let_def split: sum.splits if_splits)

text \<open>The sections of an accepted document, and the controls that are read back out of the frozen policy.\<close>

lemma accepted_sections:
  assumes "policy_from_mapping fr orr name (jdict d) = Inr p" "wf_json (JObj d)"
  obtains gm dm g dp where "map_of d ''guardrails'' = Some (JObj gm)" "map_of d ''decision_policy'' = Some (JObj dm)"
    "require_int_like (jdict gm) ''policy.guardrails'' ''max_steps'' 1 True = Inr []"
    "require_int_like (jdict gm) ''policy.guardrails'' ''max_tool_calls'' 0 True = Inr []"
    "require_number (jdict gm) ''policy.guardrails'' ''max_cost_usd'' (Some (Fin 0)) None True = Inr []"
    "require_number (jdict dm) ''policy.decision_policy'' ''min_confidence'' (Some (Fin 0)) (Some (Fin 1)) True = Inr []"
    "validate_allowed_tools (jdict gm) = []"
    "validate_abstain (jdict dm) = []"
    "guardrails_of (normal_guardrails fr orr gm) = Inr g" "decision_of fr orr (jdict dm) = Inr dp"
    "policy_guardrails p = Inr g" "policy_decision fr orr p = Inr dp"
proof -
  let ?d = "normalize_policy fr orr (jdict d)" and ?f = "map (\<lambda>(k, v). (k, freeze_value fr orr v))"
  have "policy_complaints (jdict d) = Inr []"
    using assms(1) by (auto simp: policy_from_mapping_def validate_policy_def ebind_Inr split: if_splits)
  from complaints_Nil [OF this] obtain gm dm where sec: "map_of d ''guardrails'' = Some (JObj gm)" "map_of d ''decision_policy'' = Some (JObj dm)"
    and req: "require_int_like (jdict gm) ''policy.guardrails'' ''max_steps'' 1 True = Inr []"
      "require_int_like (jdict gm) ''policy.guardrails'' ''max_tool_calls'' 0 True = Inr []"
      "require_number (jdict gm) ''policy.guardrails'' ''max_cost_usd'' (Some (Fin 0)) None True = Inr []"
      "require_number (jdict dm) ''policy.decision_policy'' ''min_confidence'' (Some (Fin 0)) (Some (Fin 1)) True = Inr []"
      "validate_allowed_tools (jdict gm) = []" "validate_abstain (jdict dm) = []"
    by auto
  note n = normalized_sections [OF sec(1), of fr orr]
  have n2: "map_of ?d (PStr ''decision_policy'') = Some (PDict (jdict dm))" using n(2) sec(2) by (simp add: jdict_def)
  obtain g dp where g: "guardrails_of (normal_guardrails fr orr gm) = Inr g" and dp: "decision_of fr orr (jdict dm) = Inr dp"
      and p: "pol_data p = freeze_value fr orr (PDict ?d)"
    using assms(1) n(1) n2 by (auto simp: policy_from_mapping_def Let_def ebind_Inr submap_def split: if_splits)
  have keyed: "str_keyed ?d" "str_keyed (normal_guardrails fr orr gm)" "str_keyed (jdict dm)"
    using assms(2) str_keyed_normalized str_keyed_guardrails [OF wf_json_section [OF assms(2) sec(1)]]
      str_keyed_jdict [OF wf_json_section [OF assms(2) sec(2)]] by simp_all
  have entries: "policy_entries p = ?f ?d" using p freeze_dict [OF keyed(1)] by (simp add: policy_entries_def)
  have run: "policy_guardrails p = Inr g" "policy_decision fr orr p = Inr dp"
    using entry_frozen [OF n(1) keyed(2)] entry_frozen [OF n2 keyed(3)] guardrails_of_frozen [OF g] normal_not_dict [OF req(5)]
      decision_of_frozen [OF dp abstain_str [OF req(6)]]
    by (simp_all add: policy_guardrails_def policy_decision_def entries)
  show thesis using that [OF sec req g dp run] .
qed

text \<open>What a document states for a number, a flag or an outcome: its entry, or the given default when it has none.\<close>

definition states_number :: "json_object \<Rightarrow> string \<Rightarrow> pyfloat \<Rightarrow> pyfloat \<Rightarrow> bool" where
  "states_number m k dflt x \<longleftrightarrow> (case map_of m k of None \<Rightarrow> x = dflt | Some v \<Rightarrow> py_float (py_of_json v) = Inr x)"

definition states_flag :: "json_object \<Rightarrow> string \<Rightarrow> bool \<Rightarrow> bool \<Rightarrow> bool" where
  "states_flag m k dflt b \<longleftrightarrow> (case map_of m k of None \<Rightarrow> b = dflt | Some v \<Rightarrow> v = JBool b)"

definition outcome_words :: "(string \<times> decision_outcome) list" where
  "outcome_words = [(''accept'', ACCEPT), (''abstain'', ABSTAIN), (''human_review'', HUMAN_REVIEW), (''retry'', RETRY)]"

definition states_outcome :: "json_object \<Rightarrow> string \<Rightarrow> decision_outcome \<Rightarrow> decision_outcome \<Rightarrow> bool" where
  "states_outcome m k dflt a \<longleftrightarrow> (case map_of m k of None \<Rightarrow> a = dflt | Some v \<Rightarrow> \<exists>s. v = JStr s \<and> map_of outcome_words s = Some a)"

lemma outcome_of_string_words: "outcome_of_string s = Inr a \<longleftrightarrow> map_of outcome_words s = Some a"
  by (simp add: outcome_of_string_def outcome_words_def)

lemma keyword_jdict: "keyword (jdict m) k v = (case map_of m k of None \<Rightarrow> v | Some j \<Rightarrow> py_of_json j)"
  by (simp add: keyword_def split: option.split)

lemma keyword_number: "py_float (keyword (jdict m) k (PFloat w)) = Inr x \<Longrightarrow> states_number m k w x"
  by (auto simp: keyword_jdict states_number_def split: option.splits)

lemma is_bool_json: "is_bool (py_of_json j) \<Longrightarrow> j = JBool (py_of_json j = PBool True)"
  by (cases j) auto

lemma keyword_flag: "is_bool (keyword (jdict m) k (PBool w)) \<Longrightarrow> states_flag m k w (keyword (jdict m) k (PBool w) = PBool True)"
  by (auto simp: keyword_jdict states_flag_def dest: is_bool_json split: option.splits)

lemma finite_weight: "init_weight v n = Inr x \<Longrightarrow> py_float v = Inr x"
  by (auto simp: init_weight_def finite_number_def split: sum.splits exc.splits if_splits)

definition document_decision :: "json_object \<Rightarrow> decision_policy \<Rightarrow> bool" where
  "document_decision m dp \<longleftrightarrow> states_outcome m ''abstain_action'' HUMAN_REVIEW (abstain_action dp)
     \<and> states_number m ''w_prob'' (rnd (55 / 100)) (w_prob dp) \<and> states_number m ''w_margin'' (rnd (20 / 100)) (w_margin dp)
     \<and> states_number m ''w_z'' (rnd (15 / 100)) (w_z dp) \<and> states_number m ''w_entropy'' (rnd (10 / 100)) (w_entropy dp)
     \<and> states_number m ''w_llm'' (rnd (10 / 100)) (w_llm dp)"

lemma document_decision_of:
  assumes "decision_of fr orr (jdict m) = Inr dp" "validate_abstain (jdict m) = []"
  shows "document_decision m dp" "wf_policy dp" "fle (Fin 0) (min_confidence dp) \<and> fle (min_confidence dp) (Fin 1)"
proof -
  obtain s where s: "keyword (jdict m) ''abstain_action'' (PStr ''human_review'') = PStr s" using abstain_str [OF assms(2)] by blast
  have init: "decision_policy_init (keyword (jdict m) ''min_confidence'' (PFloat (Fin (3 / 4)))) s
      (keyword (jdict m) ''w_prob'' (PFloat (rnd (55 / 100)))) (keyword (jdict m) ''w_margin'' (PFloat (rnd (20 / 100))))
      (keyword (jdict m) ''w_z'' (PFloat (rnd (15 / 100)))) (keyword (jdict m) ''w_entropy'' (PFloat (rnd (10 / 100))))
      (keyword (jdict m) ''w_llm'' (PFloat (rnd (10 / 100)))) = Inr dp"
    using assms(1) s by (auto simp: decision_of_def split: if_splits)
  then have w: "init_weight (keyword (jdict m) ''w_prob'' (PFloat (rnd (55 / 100)))) ''w_prob'' = Inr (w_prob dp)"
      "init_weight (keyword (jdict m) ''w_margin'' (PFloat (rnd (20 / 100)))) ''w_margin'' = Inr (w_margin dp)"
      "init_weight (keyword (jdict m) ''w_z'' (PFloat (rnd (15 / 100)))) ''w_z'' = Inr (w_z dp)"
      "init_weight (keyword (jdict m) ''w_entropy'' (PFloat (rnd (10 / 100)))) ''w_entropy'' = Inr (w_entropy dp)"
      "init_weight (keyword (jdict m) ''w_llm'' (PFloat (rnd (10 / 100)))) ''w_llm'' = Inr (w_llm dp)"
    and a: "outcome_of_string s = Inr (abstain_action dp)"
    and range: "fle (Fin 0) (min_confidence dp) \<and> fle (min_confidence dp) (Fin 1)"
    by (auto simp: decision_policy_init_def Let_def split: sum.splits if_splits)
  have "states_outcome m ''abstain_action'' HUMAN_REVIEW (abstain_action dp)"
    using s a by (auto simp: states_outcome_def keyword_jdict outcome_of_string_words split: option.splits) (simp add: outcome_words_def)
  then show "document_decision m dp" using w [THEN finite_weight, THEN keyword_number] by (simp add: document_decision_def)
  show "wf_policy dp" by (rule decision_policy_init_wf [OF init])
  show "fle (Fin 0) (min_confidence dp) \<and> fle (min_confidence dp) (Fin 1)" by (rule range)
qed

lemma document_guardrails:
  assumes g: "guardrails_of (normal_guardrails fr orr gm) = Inr g"
    and req: "require_int_like (jdict gm) ''policy.guardrails'' ''max_steps'' 1 True = Inr []"
      "require_int_like (jdict gm) ''policy.guardrails'' ''max_tool_calls'' 0 True = Inr []"
      "require_number (jdict gm) ''policy.guardrails'' ''max_cost_usd'' (Some (Fin 0)) None True = Inr []"
      "validate_allowed_tools (jdict gm) = []"
  shows "wf_guardrails g" "map_of gm ''max_steps'' = Some (JInt (max_steps g))" "map_of gm ''max_tool_calls'' = Some (JInt (max_tool_calls g))"
    "\<exists>v. map_of gm ''max_cost_usd'' = Some v \<and> py_float (py_of_json v) = Inr (max_cost_usd g)" "allowed_tools g = document_tools gm"
    "states_flag gm ''deterministic'' True (deterministic g)" "states_flag gm ''require_registered_tools'' False (require_registered_tools g)"
    "states_flag gm ''require_bound_approval_grants'' False (require_bound_approval_grants g)"
proof -
  obtain vs vc vm where v: "map_of gm ''max_steps'' = Some vs" "map_of gm ''max_tool_calls'' = Some vc" "map_of gm ''max_cost_usd'' = Some vm"
    using required_present(1) [OF req(1)] required_present(1) [OF req(2)] required_present(2) [OF req(3)] by auto
  have gi: "guardrails_init (py_of_json vs) (py_of_json vc) (py_of_json vm) (keyword (jdict gm) ''deterministic'' (PBool True))
      (keyword (normal_guardrails fr orr gm) ''allowed_tools'' PNone) (keyword (jdict gm) ''require_registered_tools'' (PBool False))
      (keyword (jdict gm) ''require_bound_approval_grants'' (PBool False)) = Inr g"
    using g v by (auto simp: guardrails_of_def normal_keyword(1) keyword_present split: if_splits)
  note i = guardrails_init_Inr [OF gi]
  show "allowed_tools g = document_tools gm" using i(8) document_tools_init [OF req(4), of fr orr] by (simp add: normal_keyword(2))
  show "map_of gm ''max_steps'' = Some (JInt (max_steps g))" "map_of gm ''max_tool_calls'' = Some (JInt (max_tool_calls g))"
    using v int_of_json i(1-6) by simp_all
  show "\<exists>v. map_of gm ''max_cost_usd'' = Some v \<and> py_float (py_of_json v) = Inr (max_cost_usd g)" using v(3) i(7) by blast
  show "wf_guardrails g" by (rule guardrails_init_wf [OF gi])
  note flags = guardrails_init_flags [OF gi]
  show "states_flag gm ''deterministic'' True (deterministic g)" using keyword_flag [OF flags(1)] flags(4) by simp
  show "states_flag gm ''require_registered_tools'' False (require_registered_tools g)" using keyword_flag [OF flags(2)] flags(5) by simp
  show "states_flag gm ''require_bound_approval_grants'' False (require_bound_approval_grants g)" using keyword_flag [OF flags(3)] flags(6) by simp
qed

section \<open>The property\<close>

text \<open>C30: A JSON policy document that \<^verbatim>\<open>policy_from_mapping\<close> accepts states its limits, and the runtime controls
  built from the accepted policy can be constructed and are exactly what the document says: no step, call or cost limit
  and no minimum confidence is ever taken from a default, the allowlist is the document's, and each flag, each weight and
  the abstain action is the document's entry, or the documented default when it has none.  The confidence is between
  zero and one, every weight is finite and not negative, and they do not sum to zero.\<close>

theorem accepted_policy_runs:
  assumes "policy_from_mapping fr orr name (jdict d) = Inr p" "wf_json (JObj d)"
  shows "\<exists>gm dm g dp. map_of d ''guardrails'' = Some (JObj gm) \<and> map_of d ''decision_policy'' = Some (JObj dm)
     \<and> policy_guardrails p = Inr g \<and> policy_decision fr orr p = Inr dp \<and> wf_guardrails g
     \<and> map_of gm ''max_steps'' = Some (JInt (max_steps g)) \<and> map_of gm ''max_tool_calls'' = Some (JInt (max_tool_calls g))
     \<and> (\<exists>v. map_of gm ''max_cost_usd'' = Some v \<and> py_float (py_of_json v) = Inr (max_cost_usd g))
     \<and> allowed_tools g = document_tools gm
     \<and> states_flag gm ''deterministic'' True (deterministic g) \<and> states_flag gm ''require_registered_tools'' False (require_registered_tools g)
     \<and> states_flag gm ''require_bound_approval_grants'' False (require_bound_approval_grants g)
     \<and> document_decision dm dp \<and> wf_policy dp \<and> fle (Fin 0) (min_confidence dp) \<and> fle (min_confidence dp) (Fin 1)
     \<and> (\<exists>v. map_of dm ''min_confidence'' = Some v \<and> py_float (py_of_json v) = Inr (min_confidence dp))"
proof -
  obtain gm dm g dp where sec: "map_of d ''guardrails'' = Some (JObj gm)" "map_of d ''decision_policy'' = Some (JObj dm)"
    and req: "require_int_like (jdict gm) ''policy.guardrails'' ''max_steps'' 1 True = Inr []"
      "require_int_like (jdict gm) ''policy.guardrails'' ''max_tool_calls'' 0 True = Inr []"
      "require_number (jdict gm) ''policy.guardrails'' ''max_cost_usd'' (Some (Fin 0)) None True = Inr []"
      "require_number (jdict dm) ''policy.decision_policy'' ''min_confidence'' (Some (Fin 0)) (Some (Fin 1)) True = Inr []"
      "validate_allowed_tools (jdict gm) = []" "validate_abstain (jdict dm) = []"
    and g: "guardrails_of (normal_guardrails fr orr gm) = Inr g" and dp: "decision_of fr orr (jdict dm) = Inr dp"
    and run: "policy_guardrails p = Inr g" "policy_decision fr orr p = Inr dp"
    by (rule accepted_sections [OF assms])
  obtain vf where vf: "map_of dm ''min_confidence'' = Some vf" using required_present(2) [OF req(4)] by auto
  then have "py_float (py_of_json vf) = Inr (min_confidence dp)"
    using dp decision_init_minimum by (auto simp: decision_of_def keyword_present split: if_splits)
  note doc = document_decision_of [OF dp req(6)] and lim = document_guardrails [OF g req(1-3,5)]
  show ?thesis using sec run vf \<open>py_float (py_of_json vf) = _\<close> doc(3)
    by (intro exI [of _ gm] exI [of _ dm] exI [of _ g] exI [of _ dp] conjI lim doc(1,2)) blast+
qed

text \<open>A document.\<close>

definition demo_document :: json_object where
  "demo_document =
     [(''decision_policy'', JObj [(''min_confidence'', JInt 1), (''w_entropy'', JInt 0), (''w_llm'', JInt 0), (''w_margin'', JInt 0),
       (''w_prob'', JInt 1), (''w_z'', JInt 0)]),
      (''guardrails'', JObj [(''allowed_tools'', JList [JStr '' search '']), (''max_cost_usd'', JInt 1), (''max_steps'', JInt 5),
       (''max_tool_calls'', JInt 3)])]"

lemma demo_sorted: "sort_keys (JObj demo_document) = JObj demo_document"
  by (simp add: demo_document_def less_char_def)

lemma demo_floats:
  "py_float (PInt 0) = Inr (Fin 0)" "py_float (PInt 1) = Inr (Fin 1)" "py_float (PInt 3) = Inr (Fin 3)" "py_float (PInt 5) = Inr (Fin 5)"
  using rnd_of_int [of 1] rnd_of_int [of 3] rnd_of_int [of 5] by simp_all

lemma demo_policy_text: "strip '' search '' = ''search''" "\<not> blank '' search ''" "\<not> blank ''search''" "\<not> blank ''p''"
  by (simp_all add: blank_def strip_def lstrip_def rstrip_def py_space_def)

lemma demo_accepted: "\<exists>p. policy_from_mapping fr orr ''p'' (jdict demo_document) = Inr p"
proof -
  define gm where "gm = [(''allowed_tools'', JList [JStr '' search '']), (''max_cost_usd'', JInt 1), (''max_steps'', JInt 5),
       (''max_tool_calls'', JInt 3)]"
  define m where "m = jdict [(''min_confidence'', JInt 1), (''w_entropy'', JInt 0), (''w_llm'', JInt 0), (''w_margin'', JInt 0),
       (''w_prob'', JInt 1), (''w_z'', JInt 0)]"
  note eval = demo_floats demo_policy_text ebind_def
  have doc: "jdict demo_document = [(PStr ''decision_policy'', PDict m), (PStr ''guardrails'', PDict (jdict gm))]"
    by (simp add: demo_document_def jdict_def gm_def m_def)
  have valid: "validate_policy (PDict (jdict demo_document)) = Inr ()"
    unfolding doc
    by (simp add: validate_policy_def policy_complaints_def require_mapping_def require_int_like_def require_number_def
        is_finite_number_def int_like_def validate_policy_name_def validate_flags_def validate_allowed_tools_def check_tool_items_def
        validate_abstain_def validate_decision_weights_def weight_names_def validate_nested_def validate_scoring_def
        validate_routing_key_def eval gm_def m_def del: py_float.simps)
  have gr: "\<exists>r. guardrails_of (normal_guardrails fr orr gm) = Inr r"
    by (simp add: guardrails_of_def keywords_ok_def normal_guardrails_def keyword_def guardrails_init_def init_allowed_tools_def
        normalize_allowed_def jdict_def gm_def eval del: py_float.simps)
  have dr: "\<exists>r. decision_of fr orr m = Inr r"
    by (simp add: decision_of_def keywords_ok_def weight_names_def keyword_def decision_policy_init_def finite_number_def
        outcome_of_string_def init_weight_def weight_denominator_def m_def eval jdict_def Let_def del: py_float.simps)
  have n: "normalize_policy fr orr (jdict demo_document)
      = [(PStr ''decision_policy'', PDict m), (PStr ''guardrails'', PDict (normal_guardrails fr orr gm))]"
    unfolding doc by (simp add: normalize_policy_def normal_guardrails_def gm_def)
  show ?thesis
    using valid gr dr unfolding policy_from_mapping_def n by (auto simp: submap_def demo_policy_text Let_def)
qed

theorem accepted_policy_runs_witness:
  "\<exists>p g dp. policy_from_mapping (\<lambda>_. []) (\<lambda>_. []) ''p'' (jdict demo_document) = Inr p \<and> policy_guardrails p = Inr g \<and> max_steps g = 5
     \<and> \<not> require_bound_approval_grants g \<and> policy_decision (\<lambda>_. []) (\<lambda>_. []) p = Inr dp \<and> w_prob dp = Fin 1 \<and> w_llm dp = Fin 0 \<and> abstain_action dp = HUMAN_REVIEW"
proof -
  obtain p where p: "policy_from_mapping (\<lambda>_. []) (\<lambda>_. []) ''p'' (jdict demo_document) = Inr p" using demo_accepted by blast
  have "wf_json (JObj demo_document)" by (simp add: demo_document_def)
  from accepted_policy_runs [OF p this] p show ?thesis
    using demo_floats by (auto simp: demo_document_def document_decision_def states_number_def states_flag_def states_outcome_def simp del: py_float.simps)
qed

end
