(* ===== verification/Control_Plane.thy ===== *)
theory Control_Plane
  imports Policies
begin

text \<open>
  \<^verbatim>\<open>agent_roi/enterprise/control_plane.py\<close>: signed policy bundles, the SQLite store of the control plane, the
  service in front of it and the verified cache of its clients.  The hash, the signatures, the texts of the clock
  and the sink of events are parameters.  A JSON column is the value its text denotes; the bytes of a payload are its
  text.  Operations that read and write in two transactions have one definition for each half, so that other
  processes can run in between.
\<close>

section \<open>Bundles\<close>

record signer =
  sg_key_id :: string
  sg_sign :: "string \<Rightarrow> string"
  sg_verify :: "string \<Rightarrow> string \<Rightarrow> bool"

definition hmac_signer :: "(string \<Rightarrow> string \<Rightarrow> string) \<Rightarrow> string \<Rightarrow> string \<Rightarrow> exc + signer" where
  "hmac_signer hmac secret key_id =
     (if length secret < 32 then Inl (ValueError ''HMAC policy signing keys must contain at least 32 bytes'')
      else if blank key_id then Inl (ValueError ''key_id must be a non-empty string'')
      else Inr \<lparr>sg_key_id = key_id, sg_sign = hmac secret, sg_verify = (\<lambda>payload signature. hmac secret payload = signature)\<rparr>)"

record policy_bundle =
  pb_organization_id :: string
  pb_name :: string
  pb_environment :: string
  pb_version :: string
  pb_policy :: json_object
  pb_digest :: string
  pb_signature :: string
  pb_signer_key_id :: string
  pb_status :: string
  pb_created_at_utc :: string
  pb_created_by :: string

definition envelope :: "org_id \<Rightarrow> string \<Rightarrow> env_name \<Rightarrow> policy_version \<Rightarrow> json_object \<Rightarrow> json_object" where
  "envelope org name environ version policy =
     [(''organization_id'', JStr org), (''name'', JStr name), (''environment'', JStr environ), (''version'', JStr version),
      (''policy'', JObj policy)]"

definition signing_payload :: "(pyfloat \<Rightarrow> string) \<Rightarrow> (pyval \<Rightarrow> string) \<Rightarrow> policy_bundle \<Rightarrow> string" where
  "signing_payload fr orr b = canonical_json fr orr (py_of_json (JObj
     (envelope (pb_organization_id b) (pb_name b) (pb_environment b) (pb_version b) (pb_policy b))))"

definition json_entries :: "json \<Rightarrow> json_object" where
  "json_entries j = (case j of JObj d \<Rightarrow> d | _ \<Rightarrow> [])"

definition bundle_create ::
    "(pyfloat \<Rightarrow> string) \<Rightarrow> (pyval \<Rightarrow> string) \<Rightarrow> (string \<Rightarrow> string) \<Rightarrow> utc_text \<Rightarrow> org_id \<Rightarrow> string \<Rightarrow> env_name \<Rightarrow> policy_version \<Rightarrow> pydict \<Rightarrow> signer \<Rightarrow> subject_id
     \<Rightarrow> exc + policy_bundle" where
  "bundle_create fr orr sha now org name environ version policy sg created_by =
     (let normalized = json_entries (to_jsonable fr orr (PDict policy)) in
      ebind (policy_from_mapping fr orr name (jdict normalized)) (\<lambda>_.
      let payload = canonical_json fr orr (py_of_json (JObj (envelope org name environ version normalized))) in
      Inr \<lparr>pb_organization_id = org, pb_name = name, pb_environment = environ, pb_version = version, pb_policy = normalized,
        pb_digest = sha payload, pb_signature = sg_sign sg payload, pb_signer_key_id = sg_key_id sg, pb_status = ''published'',
        pb_created_at_utc = now, pb_created_by = created_by\<rparr>))"

definition bundle_verify ::
    "(pyfloat \<Rightarrow> string) \<Rightarrow> (pyval \<Rightarrow> string) \<Rightarrow> (string \<Rightarrow> string) \<Rightarrow> policy_bundle \<Rightarrow> signer \<Rightarrow> exc + unit" where
  "bundle_verify fr orr sha b sg =
     (let payload = signing_payload fr orr b in
      if sha payload \<noteq> pb_digest b then Inl (PolicySignatureError ''Policy bundle digest is invalid'')
      else if sg_key_id sg \<noteq> pb_signer_key_id b \<or> \<not> sg_verify sg payload (pb_signature b)
        then Inl (PolicySignatureError ''Policy bundle signature is invalid'')
      else ebind (policy_from_mapping fr orr (pb_name b) (jdict (pb_policy b))) (\<lambda>_. Inr ()))"

definition bundle_to_dict :: "policy_bundle \<Rightarrow> json_object" where
  "bundle_to_dict b = envelope (pb_organization_id b) (pb_name b) (pb_environment b) (pb_version b) (pb_policy b) @
     [(''digest'', JStr (pb_digest b)), (''signature'', JStr (pb_signature b)), (''signer_key_id'', JStr (pb_signer_key_id b)),
      (''status'', JStr (pb_status b)), (''created_at_utc'', JStr (pb_created_at_utc b)), (''created_by'', JStr (pb_created_by b))]"

definition bundle_from_dict ::
    "(pyfloat \<Rightarrow> string) \<Rightarrow> (pyval \<Rightarrow> string) \<Rightarrow> utc_text \<Rightarrow> json_object \<Rightarrow> exc + policy_bundle" where
  "bundle_from_dict fr orr now d =
     (let s = jstr fr orr in
      ebind (jitem ''organization_id'' d) (\<lambda>org. ebind (jitem ''name'' d) (\<lambda>name. ebind (jitem ''environment'' d) (\<lambda>environ.
      ebind (jitem ''version'' d) (\<lambda>version. ebind (ebind (jitem ''policy'' d) jdict_of) (\<lambda>policy.
      ebind (jitem ''digest'' d) (\<lambda>digest. ebind (jitem ''signature'' d) (\<lambda>signature.
      ebind (jitem ''signer_key_id'' d) (\<lambda>key.
      Inr \<lparr>pb_organization_id = s org, pb_name = s name, pb_environment = s environ, pb_version = s version, pb_policy = policy,
        pb_digest = s digest, pb_signature = s signature, pb_signer_key_id = s key,
        pb_status = s (jget_or (JStr ''published'') ''status'' d), pb_created_at_utc = s (jget_or (JStr now) ''created_at_utc'' d),
        pb_created_by = s (jget_or (JStr ''system'') ''created_by'' d)\<rparr>)))))))))"

section \<open>The store\<close>

record active_row =
  av_organization_id :: string
  av_name :: string
  av_environment :: string
  av_version :: string
  av_activated_at_utc :: string
  av_activated_by :: string
  av_revision :: int

record rollout_row =
  ro_organization_id :: string
  ro_name :: string
  ro_environment :: string
  ro_primary_version :: string
  ro_candidate_version :: string
  ro_candidate_percentage :: int
  ro_seed :: string
  ro_updated_at_utc :: string
  ro_updated_by :: string
  ro_revision :: int

record agent_row =
  at_organization_id :: string
  at_agent_id :: string
  at_environment :: string
  at_owner :: string
  at_purpose :: string
  at_status :: string
  at_metadata_json :: json_object
  at_registered_at_utc :: string
  at_last_heartbeat_utc :: "string option"
  at_policy_digest :: "string option"
  at_version :: string
  at_revision :: int

record control_db =
  cd_bundles :: "policy_bundle list"
  cd_active :: "active_row list"
  cd_rollouts :: "rollout_row list"
  cd_agents :: "agent_row list"

definition control_empty :: control_db where
  "control_empty = \<lparr>cd_bundles = [], cd_active = [], cd_rollouts = [], cd_agents = []\<rparr>"

definition bundle_at :: "string \<Rightarrow> string \<Rightarrow> string \<Rightarrow> string \<Rightarrow> policy_bundle \<Rightarrow> bool" where
  "bundle_at org name environ version b \<longleftrightarrow>
     pb_organization_id b = org \<and> pb_name b = name \<and> pb_environment b = environ \<and> pb_version b = version"

definition active_at :: "org_id \<Rightarrow> string \<Rightarrow> env_name \<Rightarrow> active_row \<Rightarrow> bool" where
  "active_at org name environ r \<longleftrightarrow> av_organization_id r = org \<and> av_name r = name \<and> av_environment r = environ"

definition rollout_at :: "org_id \<Rightarrow> string \<Rightarrow> env_name \<Rightarrow> rollout_row \<Rightarrow> bool" where
  "rollout_at org name environ r \<longleftrightarrow> ro_organization_id r = org \<and> ro_name r = name \<and> ro_environment r = environ"

definition agent_at :: "org_id \<Rightarrow> agent_name \<Rightarrow> env_name \<Rightarrow> agent_row \<Rightarrow> bool" where
  "agent_at org agent environ r \<longleftrightarrow> at_organization_id r = org \<and> at_agent_id r = agent \<and> at_environment r = environ"

text \<open>The row keeps the policy as canonical JSON, its keys in order.\<close>

definition bundle_row :: "policy_bundle \<Rightarrow> policy_bundle" where
  "bundle_row b = b\<lparr>pb_policy := json_entries (sort_keys (JObj (pb_policy b)))\<rparr>"

definition save_bundle :: "policy_bundle \<Rightarrow> control_db \<Rightarrow> (exc + unit) \<times> control_db" where
  "save_bundle b db =
     (if list_ex (bundle_at (pb_organization_id b) (pb_name b) (pb_environment b) (pb_version b)) (cd_bundles db)
      then (Inl (ControlPlaneError ''Policy version already exists''), db)
      else (Inr (), db\<lparr>cd_bundles := cd_bundles db @ [bundle_row b]\<rparr>))"

definition get_bundle :: "org_id \<Rightarrow> string \<Rightarrow> env_name \<Rightarrow> policy_version \<Rightarrow> control_db \<Rightarrow> exc + policy_bundle" where
  "get_bundle org name environ version db =
     (case find (bundle_at org name environ version) (cd_bundles db) of
        None \<Rightarrow> Inl (KeyError (''Policy bundle not found: '' @ org @ ''/'' @ environ @ ''/'' @ name @ ''/'' @ version))
      | Some b \<Rightarrow> Inr b)"

text \<open>The writing transaction of \<^verbatim>\<open>activate\<close>; the foreign key asks for the bundle.\<close>

definition activate_write ::
    "utc_text \<Rightarrow> org_id \<Rightarrow> string \<Rightarrow> env_name \<Rightarrow> policy_version \<Rightarrow> subject_id \<Rightarrow> int option \<Rightarrow> control_db \<Rightarrow> (exc + unit) \<times> control_db" where
  "activate_write now org name environ version activated_by expected db =
     (let drop_rollout = (\<lambda>d. d\<lparr>cd_rollouts := sql_delete (rollout_at org name environ) (cd_rollouts d)\<rparr>);
          renew = (\<lambda>r. r\<lparr>av_version := version, av_activated_at_utc := now, av_activated_by := activated_by, av_revision := av_revision r + 1\<rparr>);
          known = list_ex (bundle_at org name environ version) (cd_bundles db) in
      case expected of
        None \<Rightarrow>
          if \<not> known then (Inl (SqliteIntegrityError ''FOREIGN KEY constraint failed''), db)
          else if list_ex (active_at org name environ) (cd_active db)
          then (Inr (), drop_rollout (db\<lparr>cd_active := sql_update (active_at org name environ) renew (cd_active db)\<rparr>))
          else (Inr (), drop_rollout (db\<lparr>cd_active := cd_active db @ [\<lparr>av_organization_id = org, av_name = name, av_environment = environ,
             av_version = version, av_activated_at_utc = now, av_activated_by = activated_by, av_revision = 1\<rparr>]\<rparr>))
      | Some n \<Rightarrow>
          let hit = (\<lambda>r. active_at org name environ r \<and> av_revision r = n) in
          if rowcount hit (cd_active db) \<noteq> 1 then (Inl (ControlPlaneError ''Active policy revision conflict''), db)
          else if \<not> known then (Inl (SqliteIntegrityError ''FOREIGN KEY constraint failed''), db)
          else (Inr (), drop_rollout (db\<lparr>cd_active := sql_update hit renew (cd_active db)\<rparr>)))"

definition activate ::
    "utc_text \<Rightarrow> org_id \<Rightarrow> string \<Rightarrow> env_name \<Rightarrow> policy_version \<Rightarrow> subject_id \<Rightarrow> int option \<Rightarrow> control_db \<Rightarrow> (exc + policy_bundle) \<times> control_db" where
  "activate now org name environ version activated_by expected db =
     (case get_bundle org name environ version db of
        Inl e \<Rightarrow> (Inl e, db)
      | Inr b \<Rightarrow> (case activate_write now org name environ version activated_by expected db of
            (Inl e, db') \<Rightarrow> (Inl e, db') | (Inr _, db') \<Rightarrow> (Inr b, db')))"

definition no_active :: "org_id \<Rightarrow> string \<Rightarrow> env_name \<Rightarrow> exc" where
  "no_active org name environ = KeyError (''No active policy: '' @ org @ ''/'' @ environ @ ''/'' @ name)"

definition get_active :: "org_id \<Rightarrow> string \<Rightarrow> env_name \<Rightarrow> control_db \<Rightarrow> exc + policy_bundle" where
  "get_active org name environ db =
     (case find (active_at org name environ) (cd_active db) of
        None \<Rightarrow> Inl (no_active org name environ)
      | Some r \<Rightarrow> get_bundle org name environ (av_version r) db)"

definition get_active_revision :: "org_id \<Rightarrow> string \<Rightarrow> env_name \<Rightarrow> control_db \<Rightarrow> exc + int" where
  "get_active_revision org name environ db =
     (case find (active_at org name environ) (cd_active db) of
        None \<Rightarrow> Inl (no_active org name environ) | Some r \<Rightarrow> Inr (av_revision r))"

text \<open>\<^verbatim>\<open>start_rollout\<close>: what it reads (the active version and the seed), and what it writes.\<close>

definition rollout_seed ::
    "(pyfloat \<Rightarrow> string) \<Rightarrow> (pyval \<Rightarrow> string) \<Rightarrow> (string \<Rightarrow> string) \<Rightarrow> org_id \<Rightarrow> string \<Rightarrow> env_name \<Rightarrow> policy_version \<Rightarrow> string \<Rightarrow> string" where
  "rollout_seed fr orr sha org name environ candidate seed =
     (if seed \<noteq> [] then seed
      else take 16 (digest_value sha fr orr (py_of_json (JObj [(''organization_id'', JStr org), (''name'', JStr name),
        (''environment'', JStr environ), (''candidate'', JStr candidate)]))))"

definition rollout_read ::
    "org_id \<Rightarrow> string \<Rightarrow> env_name \<Rightarrow> policy_version \<Rightarrow> int \<Rightarrow> control_db \<Rightarrow> exc + string" where
  "rollout_read org name environ candidate percentage db =
     (if \<not> (1 \<le> percentage \<and> percentage \<le> 99) then Inl (ValueError ''candidate_percentage must be between 1 and 99'')
      else ebind (get_active org name environ db) (\<lambda>primary.
        ebind (get_bundle org name environ candidate db) (\<lambda>_.
        if pb_version primary = candidate then Inl (ValueError ''candidate_version must differ from the active version'')
        else Inr (pb_version primary))))"

definition rollout_write ::
    "utc_text \<Rightarrow> org_id \<Rightarrow> string \<Rightarrow> env_name \<Rightarrow> policy_version \<Rightarrow> policy_version \<Rightarrow> int \<Rightarrow> string \<Rightarrow> subject_id \<Rightarrow> int option \<Rightarrow> control_db \<Rightarrow> (exc + unit) \<times> control_db" where
  "rollout_write now org name environ primary candidate percentage seed updated_by expected db =
     (let renew = (\<lambda>r. r\<lparr>ro_primary_version := primary, ro_candidate_version := candidate, ro_candidate_percentage := percentage,
            ro_seed := seed, ro_updated_at_utc := now, ro_updated_by := updated_by, ro_revision := ro_revision r + 1\<rparr>);
          known = (\<lambda>v. list_ex (bundle_at org name environ v) (cd_bundles db)) in
      case expected of
        None \<Rightarrow>
          if \<not> known primary \<or> \<not> known candidate then (Inl (SqliteIntegrityError ''FOREIGN KEY constraint failed''), db)
          else if list_ex (rollout_at org name environ) (cd_rollouts db)
          then (Inr (), db\<lparr>cd_rollouts := sql_update (rollout_at org name environ) renew (cd_rollouts db)\<rparr>)
          else (Inr (), db\<lparr>cd_rollouts := cd_rollouts db @ [\<lparr>ro_organization_id = org, ro_name = name, ro_environment = environ,
             ro_primary_version = primary, ro_candidate_version = candidate, ro_candidate_percentage = percentage, ro_seed = seed,
             ro_updated_at_utc = now, ro_updated_by = updated_by, ro_revision = 1\<rparr>]\<rparr>)
      | Some n \<Rightarrow>
          let hit = (\<lambda>r. rollout_at org name environ r \<and> ro_revision r = n) in
          if rowcount hit (cd_rollouts db) \<noteq> 1 then (Inl (ControlPlaneError ''Policy rollout revision conflict''), db)
          else if \<not> known primary \<or> \<not> known candidate then (Inl (SqliteIntegrityError ''FOREIGN KEY constraint failed''), db)
          else (Inr (), db\<lparr>cd_rollouts := sql_update hit renew (cd_rollouts db)\<rparr>))"

definition get_rollout :: "org_id \<Rightarrow> string \<Rightarrow> env_name \<Rightarrow> control_db \<Rightarrow> exc + rollout_row" where
  "get_rollout org name environ db = (case find (rollout_at org name environ) (cd_rollouts db) of
     None \<Rightarrow> Inl (KeyError ''No active policy rollout'') | Some r \<Rightarrow> Inr r)"

definition start_rollout ::
    "(pyfloat \<Rightarrow> string) \<Rightarrow> (pyval \<Rightarrow> string) \<Rightarrow> (string \<Rightarrow> string) \<Rightarrow> utc_text \<Rightarrow> org_id \<Rightarrow> string \<Rightarrow> env_name \<Rightarrow> policy_version \<Rightarrow> int \<Rightarrow> subject_id \<Rightarrow> string \<Rightarrow> int option
     \<Rightarrow> control_db \<Rightarrow> (exc + rollout_row) \<times> control_db" where
  "start_rollout fr orr sha now org name environ candidate percentage updated_by seed expected db =
     (case rollout_read org name environ candidate percentage db of
        Inl e \<Rightarrow> (Inl e, db)
      | Inr primary \<Rightarrow> (case rollout_write now org name environ primary candidate percentage
            (rollout_seed fr orr sha org name environ candidate seed) updated_by expected db of
            (Inl e, db') \<Rightarrow> (Inl e, db')
          | (Inr _, db') \<Rightarrow> (get_rollout org name environ db', db')))"

definition cancel_rollout :: "org_id \<Rightarrow> string \<Rightarrow> env_name \<Rightarrow> control_db \<Rightarrow> (exc + unit) \<times> control_db" where
  "cancel_rollout org name environ db = (Inr (), db\<lparr>cd_rollouts := sql_delete (rollout_at org name environ) (cd_rollouts db)\<rparr>)"

text \<open>\<^verbatim>\<open>int(text, 16)\<close> of hexadecimal digits.\<close>

definition hex_value :: "string \<Rightarrow> int" where
  "hex_value s = foldl (\<lambda>a c. 16 * a + (let n = of_char (lower_char c) :: int in if 97 \<le> n then n - 87 else n - 48)) 0 s"

definition rollout_bucket :: "(string \<Rightarrow> string) \<Rightarrow> string \<Rightarrow> org_id \<Rightarrow> env_name \<Rightarrow> agent_name \<Rightarrow> int" where
  "rollout_bucket sha seed org environ agent = hex_value (take 8 (sha (seed @ '':'' @ org @ '':'' @ environ @ '':'' @ agent))) mod 100"

definition resolve_active :: "(string \<Rightarrow> string) \<Rightarrow> org_id \<Rightarrow> string \<Rightarrow> env_name \<Rightarrow> agent_name \<Rightarrow> control_db \<Rightarrow> exc + policy_bundle" where
  "resolve_active sha org name environ agent db =
     ebind (get_active org name environ db) (\<lambda>primary.
       case get_rollout org name environ db of
         Inl _ \<Rightarrow> Inr primary
       | Inr r \<Rightarrow> get_bundle org name environ
           (if rollout_bucket sha (ro_seed r) org environ agent < ro_candidate_percentage r
            then ro_candidate_version r else ro_primary_version r) db)"

definition list_bundles :: "org_id \<Rightarrow> string \<Rightarrow> env_name \<Rightarrow> control_db \<Rightarrow> exc + policy_bundle list" where
  "list_bundles org name environ db =
     collect (\<lambda>b. get_bundle org (pb_name b) (pb_environment b) (pb_version b) db) (sort_key pb_created_at_utc
       (filter (\<lambda>b. pb_organization_id b = org \<and> (name \<noteq> [] \<longrightarrow> pb_name b = name) \<and> (environ \<noteq> [] \<longrightarrow> pb_environment b = environ))
         (cd_bundles db)))"

definition get_agent :: "org_id \<Rightarrow> agent_name \<Rightarrow> env_name \<Rightarrow> control_db \<Rightarrow> exc + agent_row" where
  "get_agent org agent environ db = (case find (agent_at org agent environ) (cd_agents db) of
     None \<Rightarrow> Inl (KeyError agent) | Some r \<Rightarrow> Inr r)"

definition register_agent ::
    "utc_text \<Rightarrow> org_id \<Rightarrow> agent_name \<Rightarrow> env_name \<Rightarrow> string \<Rightarrow> string \<Rightarrow> string \<Rightarrow> json_object \<Rightarrow> policy_version \<Rightarrow> int option \<Rightarrow> control_db \<Rightarrow> (exc + agent_row) \<times> control_db" where
  "register_agent now org agent environ own purpose status metadata version expected db =
     (let meta = json_entries (sort_keys (JObj metadata));
          renew = (\<lambda>r. r\<lparr>at_owner := own, at_purpose := purpose, at_status := status, at_metadata_json := meta,
            at_version := version, at_revision := at_revision r + 1\<rparr>);
          finish = (\<lambda>d. (get_agent org agent environ d, d)) in
      case expected of
        None \<Rightarrow>
          if list_ex (agent_at org agent environ) (cd_agents db)
          then finish (db\<lparr>cd_agents := sql_update (agent_at org agent environ) renew (cd_agents db)\<rparr>)
          else finish (db\<lparr>cd_agents := cd_agents db @ [\<lparr>at_organization_id = org, at_agent_id = agent, at_environment = environ,
            at_owner = own, at_purpose = purpose, at_status = status, at_metadata_json = meta, at_registered_at_utc = now,
            at_last_heartbeat_utc = None, at_policy_digest = None, at_version = version, at_revision = 1\<rparr>]\<rparr>)
      | Some n \<Rightarrow>
          let hit = (\<lambda>r. agent_at org agent environ r \<and> at_revision r = n) in
          if rowcount hit (cd_agents db) \<noteq> 1 then (Inl (ControlPlaneError ''Agent revision conflict''), db)
          else finish (db\<lparr>cd_agents := sql_update hit renew (cd_agents db)\<rparr>))"

definition agent_heartbeat ::
    "utc_text \<Rightarrow> org_id \<Rightarrow> agent_name \<Rightarrow> env_name \<Rightarrow> string \<Rightarrow> policy_version \<Rightarrow> string \<Rightarrow> int option \<Rightarrow> control_db \<Rightarrow> (exc + agent_row) \<times> control_db" where
  "agent_heartbeat now org agent environ digest version status expected db =
     (let hit = (\<lambda>r. agent_at org agent environ r \<and> (case expected of None \<Rightarrow> True | Some n \<Rightarrow> at_revision r = n)) in
      if rowcount hit (cd_agents db) \<noteq> 1
      then (Inl (if expected \<noteq> None then ControlPlaneError ''Agent heartbeat revision conflict''
                 else KeyError (''Agent not registered: '' @ agent)), db)
      else let db' = db\<lparr>cd_agents := sql_update hit (\<lambda>r. r\<lparr>at_last_heartbeat_utc := Some now, at_policy_digest := Some digest,
             at_version := version, at_status := status, at_revision := at_revision r + 1\<rparr>) (cd_agents db)\<rparr>
           in (get_agent org agent environ db', db'))"

definition list_agents :: "org_id \<Rightarrow> env_name \<Rightarrow> string \<Rightarrow> int \<Rightarrow> int \<Rightarrow> control_db \<Rightarrow> agent_row list" where
  "list_agents org environ status limit offset db =
     sql_limit (max 1 (min limit 500)) (max 0 offset) (sort_key at_agent_id (sort_key at_environment
       (filter (\<lambda>r. at_organization_id r = org \<and> (environ \<noteq> [] \<longrightarrow> at_environment r = environ) \<and> (status \<noteq> [] \<longrightarrow> at_status r = status))
         (cd_agents db))))"

section \<open>The service\<close>

text \<open>The dictionary of signers is keyed by the operator; the event sink, when configured, receives the kind and
  the data of an event and may raise.\<close>

record 'w control_service =
  sv_signers :: "(string \<times> signer) list"
  sv_default_signer_key_id :: string
  sv_require_signed_bundles :: bool
  sv_event_sink :: "(string \<Rightarrow> json_object \<Rightarrow> 'w \<Rightarrow> (exc + unit) \<times> 'w) option"

definition control_service_init ::
    "(string \<times> signer) list \<Rightarrow> string \<Rightarrow> bool \<Rightarrow> (string \<Rightarrow> json_object \<Rightarrow> 'w \<Rightarrow> (exc + unit) \<times> 'w) option
     \<Rightarrow> exc + 'w control_service" where
  "control_service_init signers default_key require sink =
     (if map_of signers default_key = None then Inl (ValueError ''default_signer_key_id is not configured'')
      else Inr \<lparr>sv_signers = signers, sv_default_signer_key_id = default_key, sv_require_signed_bundles = require,
        sv_event_sink = sink\<rparr>)"

record 'w control_state =
  cs_db :: control_db
  cs_world :: 'w

record crypto =
  cr_float :: "pyfloat \<Rightarrow> string"
  cr_repr :: "pyval \<Rightarrow> string"
  cr_sha :: "string \<Rightarrow> string"

definition on_db :: "(control_db \<Rightarrow> (exc + 'a) \<times> control_db) \<Rightarrow> ('a, 'w control_state) eff" where
  "on_db f s = (case f (cs_db s) of (r, db) \<Rightarrow> (r, s\<lparr>cs_db := db\<rparr>))"

definition cp_emit :: "'w control_service \<Rightarrow> string \<Rightarrow> json_object \<Rightarrow> (unit, 'w control_state) eff" where
  "cp_emit sv event_type data s = (case sv_event_sink sv of None \<Rightarrow> (Inr (), s)
     | Some sink \<Rightarrow> (case sink (''com.agentroi.policy.'' @ event_type) data (cs_world s) of (r, w) \<Rightarrow> (r, s\<lparr>cs_world := w\<rparr>)))"

definition publish_policy ::
    "crypto \<Rightarrow> 'w control_service \<Rightarrow> utc_text \<Rightarrow> org_id \<Rightarrow> string \<Rightarrow> env_name \<Rightarrow> policy_version \<Rightarrow> pydict \<Rightarrow> subject_id \<Rightarrow> string \<Rightarrow> (policy_bundle, 'w control_state) eff" where
  "publish_policy cr sv now org name environ version policy created_by key =
     (let k = (if key = [] then sv_default_signer_key_id sv else key) in
      case map_of (sv_signers sv) k of
        None \<Rightarrow> raise (KeyError k)
      | Some sg \<Rightarrow>
          bnd (lift (bundle_create (cr_float cr) (cr_repr cr) (cr_sha cr) now org name environ version policy sg created_by)) (\<lambda>b.
          bnd (on_db (save_bundle b)) (\<lambda>_.
          bnd (cp_emit sv ''published'' (bundle_to_dict b)) (\<lambda>_. ret b))))"

definition verify_bundle :: "crypto \<Rightarrow> 'w control_service \<Rightarrow> policy_bundle \<Rightarrow> exc + unit" where
  "verify_bundle cr sv b = (case map_of (sv_signers sv) (pb_signer_key_id b) of
     None \<Rightarrow> Inl (PolicySignatureError (''Unknown policy signing key: '' @ pb_signer_key_id b))
   | Some sg \<Rightarrow> bundle_verify (cr_float cr) (cr_repr cr) (cr_sha cr) b sg)"

definition activate_policy ::
    "crypto \<Rightarrow> 'w control_service \<Rightarrow> utc_text \<Rightarrow> org_id \<Rightarrow> string \<Rightarrow> env_name \<Rightarrow> policy_version \<Rightarrow> subject_id \<Rightarrow> int option \<Rightarrow> (policy_bundle, 'w control_state) eff" where
  "activate_policy cr sv now org name environ version activated_by expected =
     bnd (on_db (activate now org name environ version activated_by expected)) (\<lambda>b.
     bnd (lift (verify_bundle cr sv b)) (\<lambda>_.
     bnd (cp_emit sv ''activated'' (bundle_to_dict b)) (\<lambda>_. ret b)))"

definition rollout_to_dict :: "rollout_row \<Rightarrow> json_object" where
  "rollout_to_dict r = [(''organization_id'', JStr (ro_organization_id r)), (''name'', JStr (ro_name r)),
     (''environment'', JStr (ro_environment r)), (''primary_version'', JStr (ro_primary_version r)),
     (''candidate_version'', JStr (ro_candidate_version r)), (''candidate_percentage'', JInt (ro_candidate_percentage r)),
     (''seed'', JStr (ro_seed r)), (''updated_at_utc'', JStr (ro_updated_at_utc r)), (''updated_by'', JStr (ro_updated_by r)),
     (''revision'', JInt (ro_revision r))]"

definition service_start_rollout ::
    "crypto \<Rightarrow> 'w control_service \<Rightarrow> utc_text \<Rightarrow> org_id \<Rightarrow> string \<Rightarrow> env_name \<Rightarrow> policy_version \<Rightarrow> int \<Rightarrow> subject_id \<Rightarrow> string \<Rightarrow> int option \<Rightarrow> (rollout_row, 'w control_state) eff" where
  "service_start_rollout cr sv now org name environ candidate percentage updated_by seed expected =
     bnd (on_db (start_rollout (cr_float cr) (cr_repr cr) (cr_sha cr) now org name environ candidate percentage updated_by seed expected)) (\<lambda>r.
     bnd (cp_emit sv ''rollout_started'' (rollout_to_dict r)) (\<lambda>_. ret r))"

definition service_cancel_rollout :: "'w control_service \<Rightarrow> org_id \<Rightarrow> string \<Rightarrow> env_name \<Rightarrow> (unit, 'w control_state) eff" where
  "service_cancel_rollout sv org name environ =
     bnd (on_db (cancel_rollout org name environ)) (\<lambda>_.
       cp_emit sv ''rollout_cancelled'' [(''organization_id'', JStr org), (''name'', JStr name), (''environment'', JStr environ)])"

definition checked_bundle :: "crypto \<Rightarrow> 'w control_service \<Rightarrow> exc + policy_bundle \<Rightarrow> exc + policy_bundle" where
  "checked_bundle cr sv r = ebind r (\<lambda>b.
     if sv_require_signed_bundles sv then ebind (verify_bundle cr sv b) (\<lambda>_. Inr b) else Inr b)"

definition policy_for_agent ::
    "crypto \<Rightarrow> 'w control_service \<Rightarrow> org_id \<Rightarrow> string \<Rightarrow> env_name \<Rightarrow> agent_name \<Rightarrow> control_db \<Rightarrow> exc + policy_bundle" where
  "policy_for_agent cr sv org name environ agent db = checked_bundle cr sv (resolve_active (cr_sha cr) org name environ agent db)"

definition active_policy :: "crypto \<Rightarrow> 'w control_service \<Rightarrow> org_id \<Rightarrow> string \<Rightarrow> env_name \<Rightarrow> control_db \<Rightarrow> exc + policy_bundle" where
  "active_policy cr sv org name environ db = checked_bundle cr sv (get_active org name environ db)"

definition promote_policy ::
    "crypto \<Rightarrow> 'w control_service \<Rightarrow> utc_text \<Rightarrow> utc_text \<Rightarrow> org_id \<Rightarrow> string \<Rightarrow> env_name \<Rightarrow> env_name \<Rightarrow> policy_version \<Rightarrow> policy_version \<Rightarrow> subject_id \<Rightarrow> bool \<Rightarrow> string
     \<Rightarrow> (policy_bundle, 'w control_state) eff" where
  "promote_policy cr sv now1 now2 org name source_environ target_environ source_version target_version promoted_by act key =
     bnd (\<lambda>s. (checked_bundle cr sv (get_bundle org name source_environ source_version (cs_db s)), s)) (\<lambda>source.
     bnd (publish_policy cr sv now1 org name target_environ (if target_version = [] then pb_version source else target_version)
            (jdict (pb_policy source)) promoted_by key) (\<lambda>promoted.
     bnd (cp_emit sv ''promoted'' (bundle_to_dict promoted @ [(''source_environment'', JStr source_environ), (''source_version'', JStr source_version)])) (\<lambda>_.
     if act then activate_policy cr sv now2 org name target_environ (pb_version promoted) promoted_by None else ret promoted)))"

definition rollback_policy ::
    "crypto \<Rightarrow> 'w control_service \<Rightarrow> utc_text \<Rightarrow> org_id \<Rightarrow> string \<Rightarrow> env_name \<Rightarrow> policy_version \<Rightarrow> subject_id \<Rightarrow> (policy_bundle, 'w control_state) eff" where
  "rollback_policy cr sv now org name environ version rolled_back_by =
     bnd (activate_policy cr sv now org name environ version rolled_back_by None) (\<lambda>b.
     bnd (service_cancel_rollout sv org name environ) (\<lambda>_.
     bnd (cp_emit sv ''rolled_back'' (bundle_to_dict b @ [(''rolled_back_by'', JStr rolled_back_by)])) (\<lambda>_. ret b)))"

definition runtime_policy ::
    "crypto \<Rightarrow> 'w control_service \<Rightarrow> org_id \<Rightarrow> string \<Rightarrow> env_name \<Rightarrow> control_db \<Rightarrow> exc + policy" where
  "runtime_policy cr sv org name environ db = ebind (active_policy cr sv org name environ db) (\<lambda>b.
     policy_from_mapping (cr_float cr) (cr_repr cr) (name @ ''@'' @ pb_version b) (jdict (pb_policy b)))"

section \<open>The cache of a client\<close>

text \<open>The cache directory maps file names to the JSON they hold.  The age of an entry is a quotient in floating
  point.\<close>

record policy_cache =
  pc_signer :: signer
  pc_max_stale_seconds :: int

definition policy_cache_init :: "signer \<Rightarrow> int \<Rightarrow> exc + policy_cache" where
  "policy_cache_init sg stale = (if stale < 0 then Inl (ValueError ''max_stale_seconds must be >= 0'')
     else Inr \<lparr>pc_signer = sg, pc_max_stale_seconds = stale\<rparr>)"

definition cache_path :: "crypto \<Rightarrow> org_id \<Rightarrow> string \<Rightarrow> env_name \<Rightarrow> agent_name \<Rightarrow> string" where
  "cache_path cr org name environ agent = digest_value (cr_sha cr) (cr_float cr) (cr_repr cr) (py_of_json (JObj
     [(''organization_id'', JStr org), (''name'', JStr name), (''environment'', JStr environ), (''agent_id'', JStr agent)])) @ ''.json''"

definition cache_save :: "crypto \<Rightarrow> policy_cache \<Rightarrow> int \<Rightarrow> policy_bundle \<Rightarrow> agent_name \<Rightarrow> (string \<rightharpoonup> json) \<Rightarrow> (exc + string) \<times> (string \<rightharpoonup> json)" where
  "cache_save cr pc now_ms b agent files =
     (case bundle_verify (cr_float cr) (cr_repr cr) (cr_sha cr) b (pc_signer pc) of
        Inl e \<Rightarrow> (Inl e, files)
      | Inr _ \<Rightarrow> let path = cache_path cr (pb_organization_id b) (pb_name b) (pb_environment b) agent in
          (Inr path, files(path \<mapsto> sort_keys (JObj [(''cached_at_epoch_ms'', JInt now_ms), (''bundle'', JObj (bundle_to_dict b))]))))"

definition cache_load ::
    "crypto \<Rightarrow> policy_cache \<Rightarrow> int \<Rightarrow> utc_text \<Rightarrow> org_id \<Rightarrow> string \<Rightarrow> env_name \<Rightarrow> agent_name \<Rightarrow> bool \<Rightarrow> (string \<rightharpoonup> json) \<Rightarrow> exc + policy_bundle" where
  "cache_load cr pc now_ms now org name environ agent allow_stale files =
     (case files (cache_path cr org name environ agent) of
        None \<Rightarrow> Inl (KeyError ''No cached policy bundle'')
      | Some j \<Rightarrow> ebind (jdict_of j) (\<lambda>data. ebind (ebind (jitem ''cached_at_epoch_ms'' data) jint_of) (\<lambda>cached.
          let quotient = rnd (of_int (now_ms - cached) / 1000); age = fmax (Fin 0) quotient in
          if \<not> is_finite quotient then Inl (OverflowError ''integer division result too large for a float'')
          else if flt (Fin (of_int (pc_max_stale_seconds pc))) age \<and> \<not> allow_stale
          then Inl (ControlPlaneError ''Cached policy bundle is stale'')
          else ebind (ebind (jitem ''bundle'' data) jdict_of) (\<lambda>d. ebind (bundle_from_dict (cr_float cr) (cr_repr cr) now d) (\<lambda>b.
            ebind (bundle_verify (cr_float cr) (cr_repr cr) (cr_sha cr) b (pc_signer pc)) (\<lambda>_. Inr b))))))"

text \<open>\<^verbatim>\<open>CachedControlPlaneClient\<close>: the answer of the control plane is saved and returned, any exception of the
  request or of the cache falls back to what is on disk.\<close>

definition cached_policy ::
    "crypto \<Rightarrow> policy_cache \<Rightarrow> int \<Rightarrow> int \<Rightarrow> utc_text \<Rightarrow> bool \<Rightarrow> exc + policy_bundle \<Rightarrow> org_id \<Rightarrow> string \<Rightarrow> env_name \<Rightarrow> agent_name \<Rightarrow> (string \<rightharpoonup> json)
     \<Rightarrow> (exc + policy_bundle) \<times> (string \<rightharpoonup> json)" where
  "cached_policy cr pc now1 now2 now allow_stale answer org name environ agent files =
     (let fall_back = (\<lambda>e fs. if is_Exception e then (cache_load cr pc now2 now org name environ agent allow_stale fs, fs) else (Inl e, fs)) in
      case answer of
        Inl e \<Rightarrow> fall_back e files
      | Inr b \<Rightarrow> (case cache_save cr pc now1 b agent files of
            (Inr _, fs) \<Rightarrow> (Inr b, fs)
          | (Inl e, fs) \<Rightarrow> fall_back e fs))"

end
