(* ===== verification/Control_Laws.thy ===== *)
theory Control_Laws
  imports Control_Plane Policy_Laws
begin

text \<open>
  Properties of the control plane: what is published and activated is served, signatures bind what is served
  even when the tables were altered, rollouts are sticky, and two places where an administrator's operation does not
  do what it says.
\<close>

section \<open>Looking up what was written\<close>

lemma get_bundle_Inr: "get_bundle org name environ v db = Inr b \<Longrightarrow> b \<in> set (cd_bundles db) \<and> bundle_at org name environ v b"
  by (auto simp: get_bundle_def split: option.splits dest: find_Some_prop)

lemma find_active_updated:
  assumes "list_ex (active_at org name environ) t"
  shows "\<exists>r. find (active_at org name environ) (sql_update (active_at org name environ) (\<lambda>r. r\<lparr>av_version := v, av_activated_at_utc := now,
     av_activated_by := who, av_revision := av_revision r + 1\<rparr>) t) = Some r \<and> av_version r = v"
  using assms by (induction t) (auto simp: active_at_def)

lemma activated:
  assumes "activate_write now org name environ v who None db = (Inr (), db')"
  shows "cd_bundles db' = cd_bundles db" "\<exists>r. find (active_at org name environ) (cd_active db') = Some r \<and> av_version r = v"
    "find (rollout_at org name environ) (cd_rollouts db') = None"
proof -
  show "cd_bundles db' = cd_bundles db" using assms by (auto simp: activate_write_def Let_def split: if_splits)
  show "find (rollout_at org name environ) (cd_rollouts db') = None"
    using assms by (auto simp: activate_write_def Let_def find_None_conv split: if_splits)
  show "\<exists>r. find (active_at org name environ) (cd_active db') = Some r \<and> av_version r = v"
  proof (cases "list_ex (active_at org name environ) (cd_active db)")
    case True
    then show ?thesis using assms find_active_updated by (auto simp: activate_write_def Let_def split: if_splits)
  next
    case False
    then have "find (active_at org name environ) (cd_active db) = None" by (simp add: find_None_conv list_ex_iff)
    then show ?thesis
      using assms False by (auto simp: activate_write_def Let_def find_append active_at_def split: if_splits)
  qed
qed

text \<open>An activation that finds its bundle always succeeds and makes it the active one.\<close>

lemma activate_succeeds:
  assumes "get_bundle org name environ v db = Inr b"
  shows "\<exists>db'. activate now org name environ v who None db = (Inr b, db') \<and> cd_bundles db' = cd_bundles db
     \<and> get_active org name environ db' = Inr b \<and> (\<forall>agent. resolve_active sha org name environ agent db' = Inr b)"
proof -
  have "list_ex (bundle_at org name environ v) (cd_bundles db)"
    using get_bundle_Inr [OF assms] by (auto simp: list_ex_iff)
  then obtain db' where w: "activate_write now org name environ v who None db = (Inr (), db')"
    by (cases "list_ex (active_at org name environ) (cd_active db)") (simp_all add: activate_write_def Let_def)
  note a = activated [OF w]
  have "get_bundle org name environ v db' = Inr b" using assms a(1) by (simp add: get_bundle_def)
  then have "get_active org name environ db' = Inr b" using a(2) by (auto simp: get_active_def)
  moreover have "get_rollout org name environ db' = Inl (KeyError ''No active policy rollout'')" using a(3) by (simp add: get_rollout_def)
  ultimately show ?thesis using assms w a(1) by (simp add: activate_def resolve_active_def)
qed

section \<open>Signers and sinks\<close>

text \<open>A service whose keys are HMAC keys, each filed under its own name, and whose sink accepts every event.\<close>

definition hmac_service :: "(string \<Rightarrow> string \<Rightarrow> string) \<Rightarrow> 'w control_service \<Rightarrow> bool" where
  "hmac_service hmac sv \<longleftrightarrow> (\<forall>(k, sg)\<in>set (sv_signers sv). \<exists>secret. hmac_signer hmac secret k = Inr sg)"

definition sink_accepts :: "'w control_service \<Rightarrow> bool" where
  "sink_accepts sv \<longleftrightarrow> (case sv_event_sink sv of None \<Rightarrow> True | Some sink \<Rightarrow> \<forall>t d w. \<exists>w'. sink t d w = (Inr (), w'))"

lemma emit_accepted: "sink_accepts sv \<Longrightarrow> \<exists>s'. cp_emit sv t d s = (Inr (), s') \<and> cs_db s' = cs_db s"
proof (cases "sv_event_sink sv")
  case (Some sink)
  moreover assume "sink_accepts sv"
  ultimately have "\<forall>t d w. \<exists>w'. sink t d w = (Inr (), w')" by (simp add: sink_accepts_def)
  then obtain w' where "sink (''com.agentroi.policy.'' @ t) d (cs_world s) = (Inr (), w')" by blast
  then show ?thesis using Some by (simp add: cp_emit_def)
qed (simp add: cp_emit_def)

lemma hmac_signer_sound:
  assumes "hmac_service hmac sv" "map_of (sv_signers sv) k = Some sg"
  shows "sg_key_id sg = k" "sg_verify sg p (sg_sign sg p)"
proof -
  have "\<exists>secret. hmac_signer hmac secret k = Inr sg"
    using assms map_of_SomeD [OF assms(2)] by (fastforce simp: hmac_service_def)
  then show "sg_key_id sg = k" "sg_verify sg p (sg_sign sg p)" by (auto simp: hmac_signer_def split: if_splits)
qed

section \<open>Published bundles\<close>

lemma created_bundle:
  assumes "bundle_create fr orr sha now org name environ v (jdict d) sg who = Inr b" "wf_json (JObj d)"
  shows "bundle_at org name environ v b" "bundle_row b = b" "pb_signer_key_id b = sg_key_id sg"
    "pb_signature b = sg_sign sg (signing_payload fr orr b)" "pb_digest b = sha (signing_payload fr orr b)"
    "\<exists>p. policy_from_mapping fr orr name (jdict (pb_policy b)) = Inr p" "JObj (pb_policy b) = sort_keys (JObj d)"
proof -
  have j: "to_jsonable fr orr (PDict (jdict d)) = sort_keys (JObj d)"
    using to_jsonable_json [OF assms(2)] by (simp add: jdict_def)
  have b: "b = \<lparr>pb_organization_id = org, pb_name = name, pb_environment = environ, pb_version = v, pb_policy = json_entries (sort_keys (JObj d)),
        pb_digest = sha (signing_payload fr orr b), pb_signature = sg_sign sg (signing_payload fr orr b), pb_signer_key_id = sg_key_id sg,
        pb_status = ''published'', pb_created_at_utc = now, pb_created_by = who\<rparr>"
    and p: "\<exists>p. policy_from_mapping fr orr name (jdict (json_entries (sort_keys (JObj d)))) = Inr p"
    using assms(1) unfolding bundle_create_def j by (auto simp: Let_def ebind_Inr signing_payload_def)
  show "bundle_at org name environ v b" by (subst b) (simp add: bundle_at_def)
  show sorted: "JObj (pb_policy b) = sort_keys (JObj d)" by (subst b) (simp add: json_entries_def)
  have "sort_keys (JObj (pb_policy b)) = JObj (pb_policy b)" unfolding sorted by (rule sort_keys_idem)
  then show "bundle_row b = b" unfolding bundle_row_def by (simp only: json_entries_def) simp
  show "pb_signer_key_id b = sg_key_id sg" by (subst b) simp
  show "pb_signature b = sg_sign sg (signing_payload fr orr b)" by (subst b) simp
  show "pb_digest b = sha (signing_payload fr orr b)" by (subst b) simp
  have "pb_policy b = json_entries (sort_keys (JObj d))" by (subst b) simp
  then show "\<exists>p. policy_from_mapping fr orr name (jdict (pb_policy b)) = Inr p" using p by simp
qed

text \<open>The signature of a bundle binds everything but its bookkeeping fields.\<close>

text \<open>The JSON form of a policy, which is what is signed.\<close>

definition policy_form :: "(pyfloat \<Rightarrow> string) \<Rightarrow> (pyval \<Rightarrow> string) \<Rightarrow> policy_bundle \<Rightarrow> json" where
  "policy_form fr orr b = to_jsonable fr orr (py_of_json (JObj (pb_policy b)))"

lemma signing_payload_binds:
  assumes "float_repr_ok fr" "json_doubles (JObj (pb_policy b))" "json_doubles (JObj (pb_policy c))"
    and same: "signing_payload fr orr b = signing_payload fr orr c"
  shows "pb_organization_id b = pb_organization_id c \<and> pb_name b = pb_name c \<and> pb_environment b = pb_environment c
     \<and> pb_version b = pb_version c \<and> sort_keys (policy_form fr orr b) = sort_keys (policy_form fr orr c)"
proof -
  define env where "env = (\<lambda>b :: policy_bundle. envelope (pb_organization_id b) (pb_name b) (pb_environment b) (pb_version b) (pb_policy b))"
  have d: "distinct (map fst (env x))" for x by (simp add: env_def envelope_def)
  have get: "map_of (env x) ''organization_id'' = Some (JStr (pb_organization_id x))" "map_of (env x) ''name'' = Some (JStr (pb_name x))"
    "map_of (env x) ''environment'' = Some (JStr (pb_environment x))" "map_of (env x) ''version'' = Some (JStr (pb_version x))"
    "map_of (env x) ''policy'' = Some (JObj (pb_policy x))" for x
    by (simp_all add: env_def envelope_def)
  have "json_doubles (JObj (env b))" "json_doubles (JObj (env c))" using assms(2,3) by (simp_all add: env_def envelope_def)
  moreover have "canonical_json fr orr (py_of_json (JObj (env b))) = canonical_json fr orr (py_of_json (JObj (env c)))"
    using same by (simp only: signing_payload_def env_def)
  ultimately have eq: "sort_keys (to_jsonable fr orr (py_of_json (JObj (env b)))) = sort_keys (to_jsonable fr orr (py_of_json (JObj (env c))))"
    by (intro canonical_json_determines [OF assms(1)] doubles_wf)
  obtain x where x: "to_jsonable fr orr (py_of_json (JObj (env b))) = JObj x" "distinct (map fst x)"
      "\<And>k. map_of x k = map_option (\<lambda>v. to_jsonable fr orr (py_of_json v)) (map_of (env b) k)"
    using to_jsonable_object [OF d, of fr orr b] by blast
  obtain y where y: "to_jsonable fr orr (py_of_json (JObj (env c))) = JObj y" "distinct (map fst y)"
      "\<And>k. map_of y k = map_option (\<lambda>v. to_jsonable fr orr (py_of_json v)) (map_of (env c) k)"
    using to_jsonable_object [OF d, of fr orr c] by blast
  note at = sort_keys_map_of [OF x(2) y(2) eq [unfolded x(1) y(1)], unfolded x(3) y(3)]
  show ?thesis
    using at [of "''organization_id''"] at [of "''name''"] at [of "''environment''"] at [of "''version''"] at [of "''policy''"]
    by (simp add: get policy_form_def del: sort_keys.simps(2) py_of_json.simps(7))
qed

section \<open>A control plane\<close>

definition demo_crypto :: crypto where
  "demo_crypto = \<lparr>cr_float = ratio_repr, cr_repr = (\<lambda>_. []), cr_sha = (\<lambda>s. ''00000050'' @ s)\<rparr>"

definition demo_hmac :: "string \<Rightarrow> string \<Rightarrow> string" where
  "demo_hmac secret payload = secret @ payload"

definition demo_signer :: signer where
  "demo_signer = \<lparr>sg_key_id = ''k'', sg_sign = demo_hmac (replicate 32 CHR ''s''),
     sg_verify = (\<lambda>payload signature. demo_hmac (replicate 32 CHR ''s'') payload = signature)\<rparr>"

definition demo_service :: "unit control_service" where
  "demo_service = \<lparr>sv_signers = [(''k'', demo_signer)], sv_default_signer_key_id = ''k'', sv_require_signed_bundles = True, sv_event_sink = None\<rparr>"

lemma demo_service_hmac: "hmac_service demo_hmac demo_service" "sink_accepts demo_service"
proof -
  have "hmac_signer demo_hmac (replicate 32 CHR ''s'') ''k'' = Inr demo_signer"
    by (simp add: hmac_signer_def demo_signer_def blank_def strip_eq_Nil py_space_def)
  then show "hmac_service demo_hmac demo_service" unfolding hmac_service_def demo_service_def by auto
  show "sink_accepts demo_service" by (simp add: sink_accepts_def demo_service_def)
qed

definition demo_bundle :: "string \<Rightarrow> policy_bundle" where
  "demo_bundle v = (let e = canonical_json ratio_repr (\<lambda>_. []) (py_of_json (JObj (envelope ''o'' ''p'' ''prod'' v demo_document))) in
     \<lparr>pb_organization_id = ''o'', pb_name = ''p'', pb_environment = ''prod'', pb_version = v, pb_policy = demo_document,
      pb_digest = cr_sha demo_crypto e, pb_signature = sg_sign demo_signer e, pb_signer_key_id = ''k'', pb_status = ''published'',
      pb_created_at_utc = ''t'', pb_created_by = ''admin''\<rparr>)"

lemma demo_document_wf: "wf_json (JObj demo_document)"
  by (simp add: demo_document_def)

lemma demo_bundle_created: "bundle_create ratio_repr (\<lambda>_. []) (cr_sha demo_crypto) ''t'' ''o'' ''p'' ''prod'' v (jdict demo_document) demo_signer ''admin'' = Inr (demo_bundle v)"
proof -
  have "json_entries (to_jsonable ratio_repr (\<lambda>_. []) (PDict (jdict demo_document))) = demo_document"
    using to_jsonable_json [OF demo_document_wf, of ratio_repr "\<lambda>_. []"] demo_sorted by (simp add: jdict_def json_entries_def)
  then show ?thesis
    using demo_accepted [of ratio_repr "\<lambda>_. []"]
    by (auto simp: bundle_create_def Let_def demo_bundle_def demo_signer_def ebind_def)
qed

lemma demo_bundle_facts:
  "bundle_row (demo_bundle v) = demo_bundle v" "bundle_at ''o'' ''p'' ''prod'' v' (demo_bundle v) \<longleftrightarrow> v = v'"
  "pb_version (demo_bundle v) = v" "pb_policy (demo_bundle v) = demo_document"
  using created_bundle(2) [OF demo_bundle_created demo_document_wf]
  by (auto simp: demo_bundle_def Let_def bundle_at_def)

lemma demo_verifies: "verify_bundle demo_crypto demo_service (demo_bundle v) = Inr ()"
proof -
  have "pb_signer_key_id (demo_bundle v) = ''k''" "pb_name (demo_bundle v) = ''p''" by (simp_all add: demo_bundle_def Let_def)
  moreover note created_bundle(4-6) [OF demo_bundle_created demo_document_wf, of v]
  ultimately show ?thesis
    by (auto simp: verify_bundle_def bundle_verify_def demo_service_def demo_signer_def demo_crypto_def Let_def)
qed

definition demo_control :: control_db where
  "demo_control = control_empty\<lparr>cd_bundles := [demo_bundle ''1'', demo_bundle ''2'', demo_bundle ''3'']\<rparr>"

lemma demo_get: "v \<in> {''1'', ''2'', ''3''} \<Longrightarrow> get_bundle ''o'' ''p'' ''prod'' v demo_control = Inr (demo_bundle v)"
  by (auto simp: get_bundle_def demo_control_def demo_bundle_facts)

section \<open>Properties\<close>

lemma publish_Inr:
  assumes "publish_policy cr sv now org name environ v policy who key s = (Inr b, s1)"
  shows "\<exists>sg k. map_of (sv_signers sv) k = Some sg
     \<and> bundle_create (cr_float cr) (cr_repr cr) (cr_sha cr) now org name environ v policy sg who = Inr b
     \<and> save_bundle b (cs_db s) = (Inr (), cs_db s1)"
proof -
  define k where "k = (if key = [] then sv_default_signer_key_id sv else key)"
  obtain sg where sg: "map_of (sv_signers sv) k = Some sg"
    using assms by (auto simp: publish_policy_def k_def [symmetric] raise_def split: option.splits)
  define r where "r = bundle_create (cr_float cr) (cr_repr cr) (cr_sha cr) now org name environ v policy sg who"
  have run: "bnd (lift r) (\<lambda>b. bnd (on_db (save_bundle b)) (\<lambda>_. bnd (cp_emit sv ''published'' (bundle_to_dict b)) (\<lambda>_. ret b))) s = (Inr b, s1)"
    using assms sg by (simp add: publish_policy_def k_def [symmetric] r_def)
  obtain b' where b': "r = Inr b'" using run by (cases r) (auto simp: bnd_def lift_def)
  obtain q db where q: "save_bundle b' (cs_db s) = (q, db)" by (cases "save_bundle b' (cs_db s)")
  obtain x s2 where x: "cp_emit sv ''published'' (bundle_to_dict b') (s\<lparr>cs_db := db\<rparr>) = (x, s2)"
    by (cases "cp_emit sv ''published'' (bundle_to_dict b') (s\<lparr>cs_db := db\<rparr>)")
  have "cs_db s2 = db" using x by (auto simp: cp_emit_def split: option.splits prod.splits)
  then have "b' = b" "q = Inr ()" "cs_db s1 = db"
    using run b' q x by (auto simp: bnd_def lift_def on_db_def ret_def split: sum.splits)
  then show ?thesis using sg b' q by (auto simp: r_def)
qed

text \<open>C22: What is published and activated is what runs: after a JSON policy was published and its version
  activated, the service, whatever it was asked before, serves exactly the published bundle to every agent, and the
  policy in it is the published document up to the order of keys.\<close>

theorem published_policy_serves:
  assumes "hmac_service hmac sv" "sink_accepts sv" "wf_json (JObj d)"
    and "publish_policy cr sv now org name environ v (jdict d) who key s = (Inr b, s1)"
  shows "\<exists>s2. activate_policy cr sv now' org name environ v who' None s1 = (Inr b, s2)
     \<and> active_policy cr sv org name environ (cs_db s2) = Inr b
     \<and> (\<forall>agent. policy_for_agent cr sv org name environ agent (cs_db s2) = Inr b)
     \<and> JObj (pb_policy b) = sort_keys (JObj d)"
proof -
  obtain sg k where sg: "map_of (sv_signers sv) k = Some sg"
    and created: "bundle_create (cr_float cr) (cr_repr cr) (cr_sha cr) now org name environ v (jdict d) sg who = Inr b"
    and save: "save_bundle b (cs_db s) = (Inr (), cs_db s1)"
    using publish_Inr [OF assms(4)] by blast
  note c = created_bundle [OF created assms(3)]
  have "cs_db s1 = (cs_db s)\<lparr>cd_bundles := cd_bundles (cs_db s) @ [b]\<rparr>"
    using save c(2) by (auto simp: save_bundle_def split: if_splits)
  then have new: "find (bundle_at org name environ v) (cd_bundles (cs_db s)) = None" "cd_bundles (cs_db s1) = cd_bundles (cs_db s) @ [b]"
    using save c(1) by (auto simp: save_bundle_def find_None_conv list_ex_iff bundle_at_def split: if_splits)
  have get: "get_bundle org name environ v (cs_db s1) = Inr b" using new c(1) by (simp add: get_bundle_def find_append)
  obtain db2 where act: "activate now' org name environ v who' None (cs_db s1) = (Inr b, db2)"
      "get_active org name environ db2 = Inr b" "\<And>agent. resolve_active (cr_sha cr) org name environ agent db2 = Inr b"
    using activate_succeeds [OF get] by blast
  have key: "sg_key_id sg = k" "\<And>p. sg_verify sg p (sg_sign sg p)" using hmac_signer_sound [OF assms(1) sg] by auto
  have "pb_name b = name" using c(1) by (simp add: bundle_at_def)
  then have ok: "verify_bundle cr sv b = Inr ()"
    using sg key c(3-6) by (auto simp: verify_bundle_def bundle_verify_def Let_def)
  obtain s2 where "cp_emit sv ''activated'' (bundle_to_dict b) (s1\<lparr>cs_db := db2\<rparr>) = (Inr (), s2)" "cs_db s2 = db2"
    using emit_accepted [OF assms(2), of "''activated''" "bundle_to_dict b" "s1\<lparr>cs_db := db2\<rparr>"] by auto
  then have "activate_policy cr sv now' org name environ v who' None s1 = (Inr b, s2)"
    using act(1) ok by (simp add: activate_policy_def bnd_def on_db_def lift_def ret_def)
  then show ?thesis
    using act(2,3) ok \<open>cs_db s2 = db2\<close> c(7) by (simp add: active_policy_def policy_for_agent_def checked_bundle_def)
qed

theorem published_policy_serves_witness:
  "\<exists>s1 s2. publish_policy demo_crypto demo_service ''t'' ''o'' ''p'' ''prod'' ''1'' (jdict demo_document) ''admin'' [] \<lparr>cs_db = control_empty, cs_world = ()\<rparr>
       = (Inr (demo_bundle ''1''), s1)
     \<and> activate_policy demo_crypto demo_service ''u'' ''o'' ''p'' ''prod'' ''1'' ''admin'' None s1 = (Inr (demo_bundle ''1''), s2)
     \<and> active_policy demo_crypto demo_service ''o'' ''p'' ''prod'' (cs_db s2) = Inr (demo_bundle ''1'')"
proof -
  define s1 :: "unit control_state" where "s1 = \<lparr>cs_db = control_empty\<lparr>cd_bundles := [demo_bundle ''1'']\<rparr>, cs_world = ()\<rparr>"
  have sg: "map_of (sv_signers demo_service) (sv_default_signer_key_id demo_service) = Some demo_signer" by (simp add: demo_service_def)
  have cr: "cr_float demo_crypto = ratio_repr" "cr_repr demo_crypto = (\<lambda>_. [])" by (simp_all add: demo_crypto_def)
  have p: "publish_policy demo_crypto demo_service ''t'' ''o'' ''p'' ''prod'' ''1'' (jdict demo_document) ''admin'' []
      \<lparr>cs_db = control_empty, cs_world = ()\<rparr> = (Inr (demo_bundle ''1''), s1)"
    using sg demo_bundle_created [of "''1''"]
    by (simp add: publish_policy_def cr bnd_def lift_def on_db_def save_bundle_def control_empty_def demo_bundle_facts cp_emit_def ret_def s1_def)
      (simp add: demo_service_def ret_def)
  from published_policy_serves [OF demo_service_hmac demo_document_wf p, of "''u''" "''admin''"] p show ?thesis by blast
qed

text \<open>A forgery: a signature that verifies on the content of a bundle although no bundle with that content was signed with that key.\<close>

definition forgery :: "crypto \<Rightarrow> 'w control_service \<Rightarrow> policy_bundle list \<Rightarrow> policy_bundle \<Rightarrow> bool" where
  "forgery cr sv signed b \<longleftrightarrow> (\<exists>sg. map_of (sv_signers sv) (pb_signer_key_id b) = Some sg
     \<and> sg_verify sg (signing_payload (cr_float cr) (cr_repr cr) b) (pb_signature b)
     \<and> (\<forall>b0\<in>set signed. pb_signer_key_id b0 = pb_signer_key_id b
          \<longrightarrow> signing_payload (cr_float cr) (cr_repr cr) b0 \<noteq> signing_payload (cr_float cr) (cr_repr cr) b))"

text \<open>C10: Signatures bind what is served: when the service requires signed bundles, a policy served to an agent is one
  that was signed with the key it names for that organization, name, environment and version, with the same JSON form (so up to the order of
  keys, and up to a \<^verbatim>\<open>NaN\<close> standing for the text \<^verbatim>\<open>"nan"\<close>), however the tables were altered; or the served bundle is
  a forgery, its signature verifying although nothing with its content was ever signed with that key.\<close>

theorem served_policy_was_published:
  assumes "policy_for_agent cr sv org name environ agent db = Inr b" "sv_require_signed_bundles sv" "float_repr_ok (cr_float cr)"
    and "\<forall>r\<in>set (cd_bundles db) \<union> set signed. json_doubles (JObj (pb_policy r))"
  shows "(\<exists>b0\<in>set signed. pb_signer_key_id b0 = pb_signer_key_id b \<and> pb_organization_id b0 = org \<and> pb_name b0 = name \<and> pb_environment b0 = environ
       \<and> pb_version b0 = pb_version b
       \<and> sort_keys (policy_form (cr_float cr) (cr_repr cr) b0) = sort_keys (policy_form (cr_float cr) (cr_repr cr) b)
       \<and> (wf_json (JObj (pb_policy b0)) \<and> wf_json (JObj (pb_policy b)) \<longrightarrow> sort_keys (JObj (pb_policy b0)) = sort_keys (JObj (pb_policy b))))
     \<or> forgery cr sv signed b"
proof -
  have res: "resolve_active (cr_sha cr) org name environ agent db = Inr b" and ok: "verify_bundle cr sv b = Inr ()"
    using assms(1,2) by (auto simp: policy_for_agent_def checked_bundle_def ebind_Inr)
  obtain v where "get_bundle org name environ v db = Inr b"
    using res by (cases "get_rollout org name environ db")
      (auto simp: resolve_active_def get_active_def ebind_Inr split: option.splits)
  then have b: "b \<in> set (cd_bundles db)" "bundle_at org name environ v b" using get_bundle_Inr by blast+
  obtain sg where sg: "map_of (sv_signers sv) (pb_signer_key_id b) = Some sg"
      "sg_verify sg (signing_payload (cr_float cr) (cr_repr cr) b) (pb_signature b)"
    using ok by (auto simp: verify_bundle_def bundle_verify_def Let_def split: option.splits if_splits)
  show ?thesis
  proof (cases "\<exists>b0\<in>set signed. pb_signer_key_id b0 = pb_signer_key_id b
      \<and> signing_payload (cr_float cr) (cr_repr cr) b0 = signing_payload (cr_float cr) (cr_repr cr) b")
    case True
    then obtain b0 where b0: "b0 \<in> set signed" "pb_signer_key_id b0 = pb_signer_key_id b"
      "signing_payload (cr_float cr) (cr_repr cr) b0 = signing_payload (cr_float cr) (cr_repr cr) b" by blast
    have "json_doubles (JObj (pb_policy b))" "json_doubles (JObj (pb_policy b0))" using assms(4) b(1) b0(1) by blast+
    note same = signing_payload_binds [OF assms(3) this(2,1) b0(3)]
    have "sort_keys (JObj (pb_policy b0)) = sort_keys (JObj (pb_policy b))" if "wf_json (JObj (pb_policy b0))" "wf_json (JObj (pb_policy b))"
      using same sort_keys_again [OF that(1)] sort_keys_again [OF that(2)] unfolding policy_form_def by metis
    then show ?thesis using b0(1,2) same b(2) by (auto simp: bundle_at_def)
  next
    case False
    then have "forgery cr sv signed b" unfolding forgery_def using sg by blast
    then show ?thesis ..
  qed
qed

theorem served_policy_was_published_witness:
  "\<exists>b0\<in>set [demo_bundle ''1'']. pb_version b0 = ''1'' \<and> pb_environment b0 = ''prod'' \<and> \<not> forgery demo_crypto demo_service [demo_bundle ''1''] (demo_bundle ''1'')"
proof -
  define db where "db = control_empty\<lparr>cd_bundles := [demo_bundle ''1''], cd_active := [\<lparr>av_organization_id = ''o'', av_name = ''p'', av_environment = ''prod'',
    av_version = ''1'', av_activated_at_utc = [], av_activated_by = [], av_revision = 1\<rparr>]\<rparr>"
  have act: "get_active ''o'' ''p'' ''prod'' db = Inr (demo_bundle ''1'')"
    by (simp add: get_active_def get_bundle_def db_def active_at_def demo_bundle_facts)
  have "policy_for_agent demo_crypto demo_service ''o'' ''p'' ''prod'' ''agent'' db = Inr (demo_bundle ''1'')"
    using act demo_verifies by (simp add: policy_for_agent_def resolve_active_def get_rollout_def db_def control_empty_def checked_bundle_def)
  moreover have "float_repr_ok (cr_float demo_crypto)" using ratio_repr_ok by (simp add: demo_crypto_def)
  moreover have "json_doubles (JObj (pb_policy (demo_bundle ''1'')))"
    using wf_doubles [of "JObj (pb_policy (demo_bundle ''1''))"] demo_document_wf by (auto simp: demo_bundle_facts)
  moreover have "\<not> forgery demo_crypto demo_service [demo_bundle ''1''] (demo_bundle ''1'')" by (simp add: forgery_def)
  ultimately show ?thesis
    using served_policy_was_published [of demo_crypto demo_service "''o''" "''p''" "''prod''" "''agent''" db "demo_bundle ''1''" "[demo_bundle ''1'']"]
    by (auto simp: db_def demo_bundle_facts demo_service_def)
qed

text \<open>Activation is recorded before it is verified: activating a bundle whose signature does not verify
  raises, but the bundle is the active one afterwards; a service that requires signatures then serves no policy at
  all for the name, and one that does not serves the unverified bundle.\<close>

theorem activation_precedes_verification:
  assumes "get_bundle org name environ v (cs_db s) = Inr b" "verify_bundle cr sv b = Inl e"
  shows "\<exists>s'. activate_policy cr sv now org name environ v who None s = (Inl e, s')
     \<and> get_active org name environ (cs_db s') = Inr b
     \<and> active_policy cr sv org name environ (cs_db s') = (if sv_require_signed_bundles sv then Inl e else Inr b)"
proof -
  obtain db' where "activate now org name environ v who None (cs_db s) = (Inr b, db')" "get_active org name environ db' = Inr b"
    using activate_succeeds [OF assms(1)] by blast
  then show ?thesis
    using assms(2) by (auto simp: activate_policy_def bnd_def on_db_def lift_def active_policy_def checked_bundle_def)
qed

definition forged_bundle :: policy_bundle where
  "forged_bundle = (demo_bundle ''1'')\<lparr>pb_signer_key_id := ''x''\<rparr>"

theorem activation_precedes_verification_witness:
  "\<exists>s'. activate_policy demo_crypto demo_service ''t'' ''o'' ''p'' ''prod'' ''1'' ''admin'' None
       \<lparr>cs_db = control_empty\<lparr>cd_bundles := [forged_bundle]\<rparr>, cs_world = ()\<rparr> = (Inl (PolicySignatureError ''Unknown policy signing key: x''), s')
     \<and> get_active ''o'' ''p'' ''prod'' (cs_db s') = Inr forged_bundle"
proof -
  have "get_bundle ''o'' ''p'' ''prod'' ''1'' (control_empty\<lparr>cd_bundles := [forged_bundle]\<rparr>) = Inr forged_bundle"
    by (simp add: get_bundle_def forged_bundle_def bundle_at_def demo_bundle_def Let_def)
  moreover have "verify_bundle demo_crypto demo_service forged_bundle = Inl (PolicySignatureError ''Unknown policy signing key: x'')"
    by (simp add: verify_bundle_def forged_bundle_def demo_service_def)
  ultimately show ?thesis
    using activation_precedes_verification [of "''o''" "''p''" "''prod''" "''1''" "\<lparr>cs_db = control_empty\<lparr>cd_bundles := [forged_bundle]\<rparr>, cs_world = ()\<rparr>"
        forged_bundle demo_crypto demo_service] by fastforce
qed

section \<open>Rollouts\<close>

lemma find_rollout_updated:
  assumes "list_ex (rollout_at org name environ) t"
  shows "\<exists>r. find (rollout_at org name environ) (sql_update (rollout_at org name environ) (\<lambda>r. r\<lparr>ro_primary_version := v, ro_candidate_version := c,
     ro_candidate_percentage := n, ro_seed := sd, ro_updated_at_utc := now, ro_updated_by := who, ro_revision := ro_revision r + 1\<rparr>) t) = Some r
     \<and> ro_primary_version r = v \<and> ro_candidate_version r = c \<and> ro_candidate_percentage r = n \<and> ro_seed r = sd"
  using assms by (induction t) (auto simp: rollout_at_def)

lemma rollout_written:
  assumes "rollout_write now org name environ v c n sd who None db = (Inr (), db')"
  shows "cd_bundles db' = cd_bundles db" "cd_active db' = cd_active db"
    "\<exists>b. get_bundle org name environ v db = Inr b" "\<exists>b. get_bundle org name environ c db = Inr b"
    "\<exists>r. get_rollout org name environ db' = Inr r \<and> ro_primary_version r = v \<and> ro_candidate_version r = c \<and> ro_candidate_percentage r = n \<and> ro_seed r = sd"
proof -
  show "cd_bundles db' = cd_bundles db" "cd_active db' = cd_active db"
    using assms by (auto simp: rollout_write_def Let_def split: if_splits)
  have "list_ex (bundle_at org name environ v) (cd_bundles db)" "list_ex (bundle_at org name environ c) (cd_bundles db)"
    using assms by (auto simp: rollout_write_def Let_def split: if_splits)
  then show "\<exists>b. get_bundle org name environ v db = Inr b" "\<exists>b. get_bundle org name environ c db = Inr b"
    using find_ex [of _ "cd_bundles db"] by (auto simp: get_bundle_def list_ex_iff split: option.split)
  show "\<exists>r. get_rollout org name environ db' = Inr r \<and> ro_primary_version r = v \<and> ro_candidate_version r = c \<and> ro_candidate_percentage r = n \<and> ro_seed r = sd"
  proof (cases "list_ex (rollout_at org name environ) (cd_rollouts db)")
    case True
    then show ?thesis
      using assms find_rollout_updated [OF True, where v = v and c = c and n = n and sd = sd and now = now and who = who] by (auto simp: rollout_write_def get_rollout_def Let_def split: if_splits)
  next
    case False
    then have "find (rollout_at org name environ) (cd_rollouts db) = None" by (simp add: find_None_conv list_ex_iff)
    then show ?thesis
      using assms False by (auto simp: rollout_write_def get_rollout_def Let_def find_append rollout_at_def split: if_splits)
  qed
qed

lemma start_rollout_Inr:
  assumes "start_rollout fr orr sha now org name environ c n who seed None db = (Inr r, db')"
  shows "\<exists>a v. get_active org name environ db = Inr a \<and> v = pb_version a \<and> v \<noteq> c
     \<and> rollout_write now org name environ v c n (rollout_seed fr orr sha org name environ c seed) who None db = (Inr (), db')"
proof -
  obtain v where v: "rollout_read org name environ c n db = Inr v"
    using assms by (auto simp: start_rollout_def split: sum.splits)
  obtain q db1 where w: "rollout_write now org name environ v c n (rollout_seed fr orr sha org name environ c seed) who None db = (q, db1)"
    by (cases "rollout_write now org name environ v c n (rollout_seed fr orr sha org name environ c seed) who None db")
  have "q = Inr ()" "db1 = db'" using assms v w by (auto simp: start_rollout_def split: sum.splits)
  then show ?thesis using v w by (auto simp: rollout_read_def ebind_Inr split: if_splits)
qed

lemma get_active_same: "cd_bundles db' = cd_bundles db \<Longrightarrow> cd_active db' = cd_active db \<Longrightarrow> get_active org name environ db' = get_active org name environ db"
  by (simp add: get_active_def get_bundle_def split: option.split)

text \<open>Which version an agent gets while a rollout is on.\<close>

lemma resolve_rollout:
  assumes "get_active org name environ db = Inr a" "get_rollout org name environ db = Inr r"
  shows "resolve_active sha org name environ agent db = get_bundle org name environ
     (if rollout_bucket sha (ro_seed r) org environ agent < ro_candidate_percentage r then ro_candidate_version r else ro_primary_version r) db"
  using assms by (simp add: resolve_active_def)

text \<open>Rollouts are sticky: when the percentage of a rollout is raised, with the default seed or the same one,
  every agent that had the candidate keeps it, and an agent that is left on the primary version had it before.\<close>

theorem rollout_sticky:
  assumes "start_rollout fr orr sha now org name environ c n who seed None db = (Inr r, db1)"
    and "start_rollout fr orr sha now' org name environ c n' who' seed None db1 = (Inr r', db2)" and "n \<le> n'"
  shows "\<forall>agent b. (resolve_active sha org name environ agent db1 = Inr b \<and> pb_version b = c \<longrightarrow> resolve_active sha org name environ agent db2 = Inr b)
     \<and> (resolve_active sha org name environ agent db2 = Inr b \<and> pb_version b \<noteq> c \<longrightarrow> resolve_active sha org name environ agent db1 = Inr b)"
proof -
  define sd where "sd = rollout_seed fr orr sha org name environ c seed"
  obtain a1 where a1: "get_active org name environ db = Inr a1" "pb_version a1 \<noteq> c"
      "rollout_write now org name environ (pb_version a1) c n sd who None db = (Inr (), db1)"
    using start_rollout_Inr [OF assms(1)] by (auto simp: sd_def)
  obtain a2 where a2: "get_active org name environ db1 = Inr a2"
      "rollout_write now' org name environ (pb_version a2) c n' sd who' None db1 = (Inr (), db2)"
    using start_rollout_Inr [OF assms(2)] by (auto simp: sd_def)
  note w1 = rollout_written [OF a1(3)] and w2 = rollout_written [OF a2(2)]
  have act: "get_active org name environ db1 = Inr a1" "get_active org name environ db2 = Inr a1" and "a2 = a1"
    using get_active_same [OF w1(1,2)] get_active_same [OF w2(1,2)] a1(1) a2(1) by simp_all
  have same: "get_bundle org name environ v db2 = get_bundle org name environ v db1" for v
    using w2(1) by (simp add: get_bundle_def)
  have ver: "pb_version b = v" if "get_bundle org name environ v db1 = Inr b" for b v
    using get_bundle_Inr [OF that] by (simp add: bundle_at_def)
  have r1: "resolve_active sha org name environ agent db1 = get_bundle org name environ
      (if rollout_bucket sha sd org environ agent < n then c else pb_version a1) db1" for agent
    using resolve_rollout [OF act(1)] w1(5) by auto
  have r2: "resolve_active sha org name environ agent db2 = get_bundle org name environ
      (if rollout_bucket sha sd org environ agent < n' then c else pb_version a1) db1" for agent
    using resolve_rollout [OF act(2)] w2(5) same \<open>a2 = a1\<close> by auto
  show ?thesis unfolding r1 r2 using assms(3) a1(2) ver by (auto split: if_splits)
qed

definition demo_live :: control_db where
  "demo_live = demo_control\<lparr>cd_active := [\<lparr>av_organization_id = ''o'', av_name = ''p'', av_environment = ''prod'', av_version = ''1'',
     av_activated_at_utc = [], av_activated_by = [], av_revision = 1\<rparr>]\<rparr>"

definition demo_rolling :: "int \<Rightarrow> int \<Rightarrow> control_db" where
  "demo_rolling n k = demo_live\<lparr>cd_rollouts := [\<lparr>ro_organization_id = ''o'', ro_name = ''p'', ro_environment = ''prod'', ro_primary_version = ''1'',
     ro_candidate_version = ''2'', ro_candidate_percentage = n, ro_seed = ''seed'', ro_updated_at_utc = ''t'', ro_updated_by = ''admin'', ro_revision = k\<rparr>]\<rparr>"

lemmas demo_live_simps = demo_live_def demo_control_def control_empty_def demo_bundle_facts get_active_def get_bundle_def active_at_def
  rollout_read_def rollout_write_def rollout_at_def rollout_seed_def get_rollout_def

lemma demo_rollouts:
  "start_rollout fr orr sha ''t'' ''o'' ''p'' ''prod'' ''2'' 90 ''admin'' ''seed'' None demo_live = (get_rollout ''o'' ''p'' ''prod'' (demo_rolling 90 1), demo_rolling 90 1)"
  "start_rollout fr orr sha ''t'' ''o'' ''p'' ''prod'' ''2'' 95 ''admin'' ''seed'' None (demo_rolling 90 1) = (get_rollout ''o'' ''p'' ''prod'' (demo_rolling 95 2), demo_rolling 95 2)"
  by (simp_all add: start_rollout_def demo_rolling_def demo_live_simps)

lemma demo_bucket: "rollout_bucket (cr_sha demo_crypto) sd org environ agent = 80"
  by (simp add: rollout_bucket_def demo_crypto_def hex_value_def lower_char_def)

theorem rollout_sticky_witness: "resolve_active (cr_sha demo_crypto) ''o'' ''p'' ''prod'' ''agent'' (demo_rolling 95 2) = Inr (demo_bundle ''2'')"
proof -
  have "resolve_active (cr_sha demo_crypto) ''o'' ''p'' ''prod'' ''agent'' (demo_rolling 90 1) = Inr (demo_bundle ''2'')"
    by (simp add: resolve_active_def demo_bucket demo_rolling_def demo_live_simps)
  moreover obtain r1 r2 where "get_rollout ''o'' ''p'' ''prod'' (demo_rolling 90 1) = Inr r1" "get_rollout ''o'' ''p'' ''prod'' (demo_rolling 95 2) = Inr r2"
    by (simp add: get_rollout_def demo_rolling_def rollout_at_def)
  note start = demo_rollouts [unfolded this]
  have "\<forall>agent b. (resolve_active (cr_sha demo_crypto) ''o'' ''p'' ''prod'' agent (demo_rolling 90 1) = Inr b \<and> pb_version b = ''2''
      \<longrightarrow> resolve_active (cr_sha demo_crypto) ''o'' ''p'' ''prod'' agent (demo_rolling 95 2) = Inr b)
     \<and> (resolve_active (cr_sha demo_crypto) ''o'' ''p'' ''prod'' agent (demo_rolling 95 2) = Inr b \<and> pb_version b \<noteq> ''2''
      \<longrightarrow> resolve_active (cr_sha demo_crypto) ''o'' ''p'' ''prod'' agent (demo_rolling 90 1) = Inr b)"
    by (rule rollout_sticky [OF start(1) [of ratio_repr "\<lambda>_. []"] start(2)]) simp
  moreover have "pb_version (demo_bundle ''2'') = ''2''" by (simp add: demo_bundle_facts)
  ultimately show ?thesis by blast
qed

text \<open>A rollout can outlive the activation that should have ended it: an activation between the reading and the
  writing half of \<^verbatim>\<open>start_rollout\<close> leaves a rollout of the superseded version, and agents outside the candidate
  share are served that version although another one is active.\<close>

theorem rollout_outlives_activation:
  assumes "rollout_read org name environ c n db = Inr v1"
    and "activate now org name environ v2 who None db = (Inr b2, db1)"
    and "rollout_write now' org name environ v1 c n sd who' None db1 = (Inr (), db2)"
    and "n \<le> rollout_bucket sha sd org environ agent"
  shows "get_active org name environ db2 = Inr b2 \<and> (\<exists>b1. resolve_active sha org name environ agent db2 = Inr b1 \<and> pb_version b1 = v1)"
proof -
  have g: "get_bundle org name environ v2 db = Inr b2" using assms(2) by (auto simp: activate_def split: sum.splits prod.splits)
  have act: "get_active org name environ db1 = Inr b2"
    using activate_succeeds [OF g, of now who] assms(2) by auto
  note w = rollout_written [OF assms(3)]
  have act2: "get_active org name environ db2 = Inr b2" using get_active_same [OF w(1,2)] act by simp
  obtain b1 where b1: "get_bundle org name environ v1 db1 = Inr b1" using w(3) by blast
  have "pb_version b1 = v1" using get_bundle_Inr [OF b1] by (simp add: bundle_at_def)
  moreover have "resolve_active sha org name environ agent db2 = Inr b1"
    using resolve_rollout [OF act2] w(5) assms(4) b1 w(1) by (auto simp: get_bundle_def)
  ultimately show ?thesis using act2 by blast
qed

theorem rollout_outlives_activation_witness:
  "\<exists>db1 db2. activate ''u'' ''o'' ''p'' ''prod'' ''3'' ''admin'' None demo_live = (Inr (demo_bundle ''3''), db1)
     \<and> get_active ''o'' ''p'' ''prod'' db2 = Inr (demo_bundle ''3'')
     \<and> (\<exists>b1. resolve_active (cr_sha demo_crypto) ''o'' ''p'' ''prod'' ''agent'' db2 = Inr b1 \<and> pb_version b1 = ''1'')"
proof -
  define db1 where "db1 = demo_live\<lparr>cd_active := [\<lparr>av_organization_id = ''o'', av_name = ''p'', av_environment = ''prod'', av_version = ''3'',
     av_activated_at_utc = ''u'', av_activated_by = ''admin'', av_revision = 2\<rparr>]\<rparr>"
  have r: "rollout_read ''o'' ''p'' ''prod'' ''2'' 10 demo_live = Inr ''1''" by (simp add: demo_live_simps)
  have a: "activate ''u'' ''o'' ''p'' ''prod'' ''3'' ''admin'' None demo_live = (Inr (demo_bundle ''3''), db1)"
    by (simp add: activate_def activate_write_def db1_def demo_live_simps sql_delete_def)
  obtain db2 where w: "rollout_write ''v'' ''o'' ''p'' ''prod'' ''1'' ''2'' 10 ''seed'' ''admin'' None db1 = (Inr (), db2)"
    by (simp add: db1_def demo_live_simps)
  show ?thesis
    using rollout_outlives_activation [OF r a w, of "cr_sha demo_crypto" "''agent''"] a demo_bucket by auto
qed

end
