(* ===== verification/Fnmatch.thy ===== *)
theory Fnmatch
  imports Prelude
begin

text \<open>
  \<^verbatim>\<open>fnmatch.fnmatchcase\<close> of the standard library, which decides whether a permission covers a request.  A pattern
  is translated to a list of items, an item being a star, a question mark, a literal or a character class, and
  matched by backtracking.  \<open>fnmatchcase_lang\<close> says that this decides membership in the language of the pattern.
\<close>

datatype glob_item =
    Star
  | AnyChar
  | Literal char
  | CharClass bool "(char \<times> char) list"

text \<open>The characters between brackets: ranges and single characters, a hyphen at the end standing for itself.\<close>

fun class_ranges :: "string \<Rightarrow> (char \<times> char) list" where
  "class_ranges (a # b # c # s) = (if b = CHR ''-'' then (a, c) # class_ranges s else (a, a) # class_ranges (b # c # s))"
| "class_ranges (a # s) = (a, a) # class_ranges s"
| "class_ranges [] = []"

text \<open>Where a class that was opened ends: an exclamation mark negates it, a bracket right at its beginning belongs to it.\<close>

definition class_close :: "string \<Rightarrow> (string \<times> string) option" where
  "class_close u = (case dropWhile (\<lambda>c. c \<noteq> CHR '']'') u of [] \<Rightarrow> None | _ # r \<Rightarrow> Some (takeWhile (\<lambda>c. c \<noteq> CHR '']'') u, r))"

definition class_split :: "string \<Rightarrow> (bool \<times> string \<times> string) option" where
  "class_split s =
     (let negated = (s \<noteq> [] \<and> hd s = CHR ''!'');
          t = (if negated then tl s else s);
          lead = (if t \<noteq> [] \<and> hd t = CHR '']'' then [CHR '']''] else []) in
      map_option (\<lambda>(body, r). (negated, lead @ body, r)) (class_close (drop (length lead) t)))"

lemma class_close_shorter: "class_close u = Some (b, r) \<Longrightarrow> length r < length u"
  using length_dropWhile_le [of "\<lambda>c. c \<noteq> CHR '']''" u] by (auto simp: class_close_def split: list.splits)

lemma class_split_shorter: "class_split s = Some (n, c, r) \<Longrightarrow> length r < length s"
  by (auto simp: class_split_def Let_def dest!: class_close_shorter split: if_splits)

function (sequential) glob_parse :: "string \<Rightarrow> glob_item list" where
  "glob_parse [] = []"
| "glob_parse (c # p) =
     (if c = CHR ''*'' then Star # glob_parse p
      else if c = CHR ''?'' then AnyChar # glob_parse p
      else if c = CHR ''['' then
        (case class_split p of
           None \<Rightarrow> Literal c # glob_parse p
         | Some (negated, content, r) \<Rightarrow> CharClass negated (class_ranges content) # glob_parse r)
      else Literal c # glob_parse p)"
  by pat_completeness auto
termination by (relation "measure length") (auto dest: class_split_shorter)

definition in_class :: "bool \<Rightarrow> (char \<times> char) list \<Rightarrow> char \<Rightarrow> bool" where
  "in_class negated ranges c \<longleftrightarrow> (list_ex (\<lambda>(a, b). a \<le> c \<and> c \<le> b) ranges \<noteq> negated)"

fun glob_match :: "glob_item list \<Rightarrow> string \<Rightarrow> bool" where
  "glob_match [] s \<longleftrightarrow> s = []"
| "glob_match (Star # gs) [] \<longleftrightarrow> glob_match gs []"
| "glob_match (Star # gs) (c # s) \<longleftrightarrow> glob_match gs (c # s) \<or> glob_match (Star # gs) s"
| "glob_match (AnyChar # gs) s \<longleftrightarrow> (case s of [] \<Rightarrow> False | _ # r \<Rightarrow> glob_match gs r)"
| "glob_match (Literal x # gs) s \<longleftrightarrow> (case s of [] \<Rightarrow> False | c # r \<Rightarrow> c = x \<and> glob_match gs r)"
| "glob_match (CharClass n rs # gs) s \<longleftrightarrow> (case s of [] \<Rightarrow> False | c # r \<Rightarrow> in_class n rs c \<and> glob_match gs r)"

definition fnmatchcase :: "string \<Rightarrow> string \<Rightarrow> bool" where
  "fnmatchcase name pat \<longleftrightarrow> glob_match (glob_parse pat) name"

section \<open>The language of a pattern\<close>

fun item_lang :: "glob_item \<Rightarrow> string set" where
  "item_lang Star = UNIV"
| "item_lang AnyChar = {[c] | c. True}"
| "item_lang (Literal x) = {[x]}"
| "item_lang (CharClass n rs) = {[c] | c. in_class n rs c}"

fun glob_lang :: "glob_item list \<Rightarrow> string set" where
  "glob_lang [] = {[]}"
| "glob_lang (g # gs) = {u @ v | u v. u \<in> item_lang g \<and> v \<in> glob_lang gs}"

lemma glob_lang_Star:
  "[] \<in> glob_lang (Star # gs) \<longleftrightarrow> [] \<in> glob_lang gs"
  "c # s \<in> glob_lang (Star # gs) \<longleftrightarrow> c # s \<in> glob_lang gs \<or> s \<in> glob_lang (Star # gs)"
  by (auto simp: Cons_eq_append_conv)

lemma one_char:
  "(\<exists>u v. c # s = u @ v \<and> (\<exists>x. u = [x] \<and> P x) \<and> v \<in> L) \<longleftrightarrow> P c \<and> s \<in> L"
  "(\<exists>u v. c # s = u @ v \<and> (\<exists>x. u = [x]) \<and> v \<in> L) \<longleftrightarrow> s \<in> L"
  by (auto intro: exI [of _ "[c]"])

theorem fnmatchcase_lang: "fnmatchcase name pat \<longleftrightarrow> name \<in> glob_lang (glob_parse pat)"
proof -
  have "glob_match gs s \<longleftrightarrow> s \<in> glob_lang gs" for gs s
  proof (induction gs s rule: glob_match.induct)
    case (2 gs)
    then show ?case by (simp only: glob_match.simps glob_lang_Star)
  next
    case (3 gs c s)
    then show ?case by (simp only: glob_match.simps glob_lang_Star)
  qed (simp_all add: one_char split: list.split)
  then show ?thesis by (simp add: fnmatchcase_def)
qed

lemma fnmatch_star [simp]: "fnmatchcase name ''*''"
proof -
  have "glob_match [Star] name" by (induction name) auto
  then show ?thesis by (simp add: fnmatchcase_def)
qed

text \<open>A pattern without wildcards matches itself only.\<close>

lemma glob_parse_plain: "set pat \<inter> {CHR ''*'', CHR ''?'', CHR ''[''} = {} \<Longrightarrow> glob_parse pat = map Literal pat"
  by (induction pat) auto

lemma fnmatch_plain: "set pat \<inter> {CHR ''*'', CHR ''?'', CHR ''[''} = {} \<Longrightarrow> fnmatchcase name pat \<longleftrightarrow> name = pat"
proof -
  have "glob_match (map Literal p) s \<longleftrightarrow> s = p" for p s
    by (induction p arbitrary: s) (auto split: list.split)
  then show "set pat \<inter> {CHR ''*'', CHR ''?'', CHR ''[''} = {} \<Longrightarrow> ?thesis"
    by (simp add: fnmatchcase_def glob_parse_plain)
qed

end
