(* ===== verification/Identity.thy ===== *)
theory Identity
  imports Fnmatch Policies
begin

text \<open>
  \<^verbatim>\<open>agent_roi/enterprise/identity.py\<close>, first part: principals, roles and bindings, the role-based authorizer and
  the verification of OIDC tokens.  A frozen set of strings is the sorted list of its elements.  Decoding a token and
  checking its signature (PyJWT, with the key it fetches) is a parameter.
\<close>

section \<open>Principals and roles\<close>

definition frozen :: "string list \<Rightarrow> string list" where
  "frozen xs = sort (remdups xs)"

lemma set_frozen [simp]: "set (frozen xs) = set xs"
  by (simp add: frozen_def)

lemma frozen_frozen [simp]: "frozen (frozen xs) = frozen xs"
  by (simp add: frozen_def sorted_sort_id distinct_remdups_id)

lemma frozen_eqI: "set xs = set ys \<Longrightarrow> frozen xs = frozen ys"
  by (simp add: frozen_def sorted_distinct_set_unique)

definition clean_item :: "pyval \<Rightarrow> exc + string" where
  "clean_item v = (case v of
      PStr s \<Rightarrow> if blank s then Inl (ValueError ''Identity collections must contain non-empty strings'') else Inr (strip s)
    | _ \<Rightarrow> Inl (ValueError ''Identity collections must contain non-empty strings''))"

definition clean_set :: "pyval list option \<Rightarrow> exc + string list" where
  "clean_set values = (case values of None \<Rightarrow> Inr [] | Some vs \<Rightarrow> ebind (collect clean_item vs) (\<lambda>xs. Inr (frozen xs)))"

record principal =
  pr_subject :: subject_id
  pr_organization_id :: org_id
  pr_display_name :: string
  pr_email :: string
  pr_roles :: "string list"
  pr_groups :: "string list"
  pr_attributes :: json_object
  pr_token_id :: string

definition principal_init ::
    "subject_id \<Rightarrow> org_id \<Rightarrow> string \<Rightarrow> string \<Rightarrow> pyval list \<Rightarrow> pyval list \<Rightarrow> json_object \<Rightarrow> string \<Rightarrow> exc + principal" where
  "principal_init subject org display_name email roles groups attributes token_id =
     (if blank subject then Inl (ValueError ''subject must be a non-empty string'')
      else if blank org then Inl (ValueError ''organization_id must be a non-empty string'')
      else ebind (clean_set (Some roles)) (\<lambda>rs. ebind (clean_set (Some groups)) (\<lambda>gs.
        Inr \<lparr>pr_subject = strip subject, pr_organization_id = strip org, pr_display_name = display_name, pr_email = email,
          pr_roles = rs, pr_groups = gs, pr_attributes = attributes, pr_token_id = token_id\<rparr>)))"

definition principal_to_dict :: "principal \<Rightarrow> json_object" where
  "principal_to_dict p = [(''subject'', JStr (pr_subject p)), (''organization_id'', JStr (pr_organization_id p)),
     (''display_name'', JStr (pr_display_name p)), (''email'', JStr (pr_email p)), (''roles'', JList (map JStr (sort (pr_roles p)))),
     (''groups'', JList (map JStr (sort (pr_groups p)))), (''attributes'', JObj (pr_attributes p)), (''token_id'', JStr (pr_token_id p))]"

record role_definition =
  rd_name :: string
  rd_permissions :: "string list"
  rd_description :: string

definition role_definition_init :: "string \<Rightarrow> pyval list \<Rightarrow> string \<Rightarrow> exc + role_definition" where
  "role_definition_init name permissions description =
     (if blank name then Inl (ValueError ''Role name must be a non-empty string'')
      else ebind (clean_set (Some permissions)) (\<lambda>ps. Inr \<lparr>rd_name = strip name, rd_permissions = ps, rd_description = description\<rparr>))"

record role_binding =
  rb_role :: string
  rb_organization_id :: org_id
  rb_subject :: subject_id
  rb_group :: string
  rb_environment :: env_name

definition role_binding_init :: "string \<Rightarrow> org_id \<Rightarrow> subject_id \<Rightarrow> string \<Rightarrow> env_name \<Rightarrow> exc + role_binding" where
  "role_binding_init role org subject grp environ =
     (if blank role \<or> blank org then Inl (ValueError ''role and organization_id are required'')
      else if blank subject = blank grp then Inl (ValueError ''Exactly one of subject or group must be set'')
      else Inr \<lparr>rb_role = role, rb_organization_id = org, rb_subject = subject, rb_group = grp, rb_environment = environ\<rparr>)"

section \<open>The authorizer\<close>

record rbac =
  ra_roles :: "(string \<times> role_definition) list"
  ra_bindings :: "role_binding list"
  ra_default_deny :: bool

definition roles_by_name :: "role_definition list \<Rightarrow> (string \<times> role_definition) list" where
  "roles_by_name roles = foldl (\<lambda>d r. AList.update (rd_name r) r d) [] roles"

definition rbac_init :: "role_definition list \<Rightarrow> role_binding list \<Rightarrow> bool \<Rightarrow> exc + rbac" where
  "rbac_init roles bindings default_deny =
     (let d = roles_by_name roles in
      case find (\<lambda>b. map_of d (rb_role b) = None) bindings of
        Some b \<Rightarrow> Inl (ValueError (''Binding references unknown role: '' @ rb_role b))
      | None \<Rightarrow> Inr \<lparr>ra_roles = d, ra_bindings = bindings, ra_default_deny = default_deny\<rparr>)"

definition default_roles :: "(string \<times> string list) list" where
  "default_roles =
     [(''platform_admin'', [''*'']),
      (''policy_admin'', [''policy.*'', ''agent.read'', ''audit.read'', ''approval.read'']),
      (''agent_owner'', [''agent.read'', ''agent.execute'', ''tool.execute:*'', ''roi.*'']),
      (''approver'', [''approval.read'', ''approval.decide'', ''audit.read'']),
      (''auditor'', [''audit.read'', ''policy.read'', ''roi.read'']),
      (''finance_reviewer'', [''roi.read'', ''roi.validate''])]"

definition enterprise_defaults :: "exc + rbac" where
  "enterprise_defaults = ebind (collect (\<lambda>(n, ps). role_definition_init n (map PStr ps) []) default_roles) (\<lambda>roles. rbac_init roles [] True)"

definition with_bindings :: "role_binding list \<Rightarrow> rbac \<Rightarrow> exc + rbac" where
  "with_bindings bindings ra = rbac_init (map snd (ra_roles ra)) bindings (ra_default_deny ra)"

definition binding_applies :: "principal \<Rightarrow> env_name \<Rightarrow> role_binding \<Rightarrow> bool" where
  "binding_applies p environ b \<longleftrightarrow> rb_organization_id b = pr_organization_id p \<and> rb_environment b \<in> {''*'', environ}
     \<and> (rb_subject b \<noteq> [] \<and> rb_subject b = pr_subject p \<or> rb_group b \<noteq> [] \<and> rb_group b \<in> set (pr_groups p))"

definition effective_roles :: "rbac \<Rightarrow> principal \<Rightarrow> env_name \<Rightarrow> string list" where
  "effective_roles ra p environ = frozen (pr_roles p @ map rb_role (filter (binding_applies p environ) (ra_bindings ra)))"

definition permissions_for :: "rbac \<Rightarrow> principal \<Rightarrow> env_name \<Rightarrow> string list" where
  "permissions_for ra p environ = frozen (concat (map (\<lambda>n. case map_of (ra_roles ra) n of None \<Rightarrow> [] | Some r \<Rightarrow> rd_permissions r)
     (effective_roles ra p environ)))"

text \<open>The request is the action alone or with its resource; a caller that is no principal is \<^const>\<open>None\<close>.\<close>

definition permits :: "string \<Rightarrow> string \<Rightarrow> string \<Rightarrow> bool" where
  "permits permission action resource \<longleftrightarrow> permission = ''*'' \<or> fnmatchcase action permission
     \<or> fnmatchcase (if resource \<noteq> [] then action @ '':'' @ resource else action) permission"

definition context_environment :: "(pyfloat \<Rightarrow> string) \<Rightarrow> (pyval \<Rightarrow> string) \<Rightarrow> payload \<Rightarrow> env_name" where
  "context_environment fr orr context = (case map_of context ''environment'' of None \<Rightarrow> ''*'' | Some v \<Rightarrow> str_of fr orr v)"

definition rbac_authorize ::
    "(pyfloat \<Rightarrow> string) \<Rightarrow> (pyval \<Rightarrow> string) \<Rightarrow> rbac \<Rightarrow> principal option \<Rightarrow> string \<Rightarrow> string \<Rightarrow> payload \<Rightarrow> bool" where
  "rbac_authorize fr orr ra caller action resource context =
     (case caller of None \<Rightarrow> False
      | Some p \<Rightarrow> list_ex (\<lambda>perm. permits perm action resource) (permissions_for ra p (context_environment fr orr context))
          \<or> \<not> ra_default_deny ra)"

definition rbac_require ::
    "(pyfloat \<Rightarrow> string) \<Rightarrow> (pyval \<Rightarrow> string) \<Rightarrow> rbac \<Rightarrow> principal option \<Rightarrow> string \<Rightarrow> string \<Rightarrow> payload \<Rightarrow> exc + unit" where
  "rbac_require fr orr ra caller action resource context =
     (if rbac_authorize fr orr ra caller action resource context then Inr ()
      else case caller of None \<Rightarrow> Inl (AttributeError ''subject'')
        | Some p \<Rightarrow> Inl (AuthorizationError (''Principal '' @ [CHR 0x27] @ pr_subject p @ [CHR 0x27] @ '' is not authorized for '' @ action @ '' on ''
            @ (if resource \<noteq> [] then resource else ''*''))))"

section \<open>OIDC tokens\<close>

record oidc_config =
  oc_issuer :: string
  oc_audience :: string
  oc_organization_claim :: string
  oc_roles_claim :: string
  oc_groups_claim :: string
  oc_subject_claim :: string
  oc_algorithms :: "string list"
  oc_jwks_url :: string
  oc_leeway_seconds :: int
  oc_required_claims :: "string list"

definition rstrip_slash :: "string \<Rightarrow> string" where
  "rstrip_slash s = rev (dropWhile (\<lambda>c. c = CHR ''/'') (rev s))"

definition uses_https :: "string \<Rightarrow> bool" where
  "uses_https s \<longleftrightarrow> starts_with (lower s) ''https://''"

text \<open>The constructor, from the values its fields were given.\<close>

definition oidc_config_init :: "oidc_config \<Rightarrow> exc + oidc_config" where
  "oidc_config_init c =
     (let issuer = rstrip_slash (strip (oc_issuer c)); audience = strip (oc_audience c);
          algorithms = filter (\<lambda>a. a \<noteq> []) (map strip (oc_algorithms c)); jwks_url = strip (oc_jwks_url c) in
      if issuer = [] \<or> audience = [] then Inl (ValueError ''OIDC issuer and audience are required'')
      else if \<not> uses_https issuer then Inl (ValueError ''OIDC issuer must use HTTPS'')
      else if algorithms = [] \<or> list_ex (\<lambda>a. lower a = ''none'') algorithms
        then Inl (ValueError ''OIDC algorithms must contain signed JWT algorithms'')
      else if oc_leeway_seconds c < 0 then Inl (ValueError ''OIDC leeway_seconds must be a nonnegative integer'')
      else if jwks_url \<noteq> [] \<and> \<not> uses_https jwks_url then Inl (ValueError ''OIDC jwks_url must use HTTPS'')
      else Inr (c\<lparr>oc_issuer := issuer, oc_audience := audience, oc_algorithms := algorithms, oc_jwks_url := jwks_url\<rparr>))"

text \<open>Iterating over a JSON value: the items of a list, the keys of an object, the characters of a string.\<close>

definition json_iter :: "json \<Rightarrow> exc + json list" where
  "json_iter j = (case j of JList xs \<Rightarrow> Inr xs | JObj d \<Rightarrow> Inr (map (\<lambda>(k, v). JStr k) d) | JStr s \<Rightarrow> Inr (map (\<lambda>c. JStr [c]) s)
     | _ \<Rightarrow> Inl (TypeError ''object is not iterable''))"

definition claim_values :: "(pyfloat \<Rightarrow> string) \<Rightarrow> (pyval \<Rightarrow> string) \<Rightarrow> string \<Rightarrow> json_object \<Rightarrow> exc + string list" where
  "claim_values fr orr claim claims =
     (let raw = jget_or (JList []) claim claims in
      ebind (case raw of JStr s \<Rightarrow> Inr [JStr s] | _ \<Rightarrow> json_iter raw) (\<lambda>vs.
        Inr (frozen (filter (\<lambda>s. \<not> blank s) (map (jstr fr orr) vs)))))"

text \<open>Roles mapped from groups.\<close>

definition mapped_roles :: "(string \<times> string list) list \<Rightarrow> string list \<Rightarrow> string list" where
  "mapped_roles mapping groups = concat (map (\<lambda>g. case map_of mapping g of None \<Rightarrow> [] | Some rs \<Rightarrow> rs) groups)"

definition oidc_verify ::
    "(pyfloat \<Rightarrow> string) \<Rightarrow> (pyval \<Rightarrow> string) \<Rightarrow> (oidc_config \<Rightarrow> string \<Rightarrow> exc + json_object) \<Rightarrow> oidc_config \<Rightarrow> (string \<times> string list) list \<Rightarrow> string
     \<Rightarrow> exc + principal" where
  "oidc_verify fr orr decode c mapping token =
     (if blank token then Inl (AuthenticationError ''Bearer token is required'')
      else case decode c (strip token) of
        Inl e \<Rightarrow> Inl (if is_Exception e then AuthenticationError ''OIDC token validation failed'' else e)
      | Inr claims \<Rightarrow>
          let text_of = (\<lambda>k. jstr fr orr (jget_or (JStr []) k claims));
              subject = strip (text_of (oc_subject_claim c)); org = strip (text_of (oc_organization_claim c)) in
          if subject = [] \<or> org = [] then Inl (AuthenticationError ''OIDC token is missing subject or organization claim'')
          else ebind (claim_values fr orr (oc_roles_claim c) claims) (\<lambda>roles.
            ebind (claim_values fr orr (oc_groups_claim c) claims) (\<lambda>groups.
            principal_init subject org (text_of ''name'') (text_of ''email'')
              (map PStr (frozen (roles @ mapped_roles mapping groups))) (map PStr groups)
              (filter (\<lambda>(k, v). k \<notin> {oc_roles_claim c, oc_groups_claim c}) claims) (text_of ''jti''))))"

definition verify_authorization_header ::
    "(pyfloat \<Rightarrow> string) \<Rightarrow> (pyval \<Rightarrow> string) \<Rightarrow> (oidc_config \<Rightarrow> string \<Rightarrow> exc + json_object) \<Rightarrow> oidc_config \<Rightarrow> (string \<times> string list) list \<Rightarrow> string
     \<Rightarrow> exc + principal" where
  "verify_authorization_header fr orr decode c mapping header =
     (let scheme = takeWhile (\<lambda>x. x \<noteq> CHR '' '') header; token = tl (dropWhile (\<lambda>x. x \<noteq> CHR '' '') header) in
      if lower scheme \<noteq> ''bearer'' \<or> blank token
      then Inl (AuthenticationError ''Authorization header must use Bearer authentication'')
      else oidc_verify fr orr decode c mapping token)"

end
