(* ===== verification/Scim.thy ===== *)
theory Scim
  imports Identity
begin

text \<open>
  \<^verbatim>\<open>agent_roi/enterprise/identity.py\<close>, second part: users and groups after SCIM, in the in-memory directory and in
  the SQLite identity store, the roles and bindings of that store, and the authorizer that reads them for each decision.
  A payload is the JSON object of the request; a JSON column is the value its text denotes.  An operation of the store
  that reads before its writing transaction is modelled without another process in between.
\<close>

section \<open>Users and groups\<close>

record scim_user =
  su_id :: string
  su_user_name :: string
  su_active :: bool
  su_display_name :: string
  su_emails :: "string list"
  su_external_id :: string
  su_attributes :: json_object

record scim_group =
  sg_id :: string
  sg_display_name :: string
  sg_members :: "string list"
  sg_external_id :: string

definition or_none :: "string \<Rightarrow> json" where
  "or_none s = (if s = [] then JNull else JStr s)"

definition user_to_scim :: "scim_user \<Rightarrow> json_object" where
  "user_to_scim u = foldl (\<lambda>d (k, v). AList.update k v d)
     [(''schemas'', JList [JStr ''urn:ietf:params:scim:schemas:core:2.0:User'']), (''id'', JStr (su_id u)),
      (''externalId'', or_none (su_external_id u)), (''userName'', JStr (su_user_name u)), (''active'', JBool (su_active u)),
      (''displayName'', JStr (su_display_name u)),
      (''emails'', JList (map (\<lambda>(i, e). JObj [(''value'', JStr e), (''primary'', JBool (i = 0))]) (enumerate 0 (su_emails u))))]
     (su_attributes u)"

definition group_to_scim :: "scim_group \<Rightarrow> json_object" where
  "group_to_scim g =
     [(''schemas'', JList [JStr ''urn:ietf:params:scim:schemas:core:2.0:Group'']), (''id'', JStr (sg_id g)),
      (''externalId'', or_none (sg_external_id g)), (''displayName'', JStr (sg_display_name g)),
      (''members'', JList (map (\<lambda>m. JObj [(''value'', JStr m)]) (sort (sg_members g))))]"

text \<open>An entry of \<^verbatim>\<open>emails\<close> or \<^verbatim>\<open>members\<close> is a value or an object that holds it.\<close>

definition entry_value :: "json \<Rightarrow> json" where
  "entry_value item = (case item of JObj d \<Rightarrow> jget_or JNull ''value'' d | _ \<Rightarrow> item)"

text \<open>The tolerant reading keeps the non-blank strings of a list; the other one takes the text of every entry.\<close>

definition entry_text :: "json \<Rightarrow> string" where
  "entry_text item = (case entry_value item of JStr s \<Rightarrow> strip s | _ \<Rightarrow> [])"

definition entry_strings :: "json \<Rightarrow> string list" where
  "entry_strings raw = (case raw of JList items \<Rightarrow> filter (\<lambda>s. s \<noteq> []) (map entry_text items) | _ \<Rightarrow> [])"

definition entry_texts :: "(pyfloat \<Rightarrow> string) \<Rightarrow> (pyval \<Rightarrow> string) \<Rightarrow> json \<Rightarrow> exc + string list" where
  "entry_texts fr orr raw = ebind (json_iter raw) (\<lambda>items.
     Inr (filter (\<lambda>s. s \<noteq> []) (map (\<lambda>item. strip (jstr fr orr (entry_value item))) items)))"

definition core_fields :: "string list" where
  "core_fields = [''schemas'', ''id'', ''externalId'', ''userName'', ''active'', ''displayName'', ''emails'']"

definition payload_text :: "(pyfloat \<Rightarrow> string) \<Rightarrow> (pyval \<Rightarrow> string) \<Rightarrow> string \<Rightarrow> json_object \<Rightarrow> string" where
  "payload_text fr orr k payload = jstr fr orr (jget_or (JStr []) k payload)"

definition payload_external :: "(pyfloat \<Rightarrow> string) \<Rightarrow> (pyval \<Rightarrow> string) \<Rightarrow> json_object \<Rightarrow> string" where
  "payload_external fr orr payload = (let v = jget_or (JStr []) ''externalId'' payload in if truthy v then jstr fr orr v else [])"

definition payload_id :: "(pyfloat \<Rightarrow> string) \<Rightarrow> (pyval \<Rightarrow> string) \<Rightarrow> uuid_text \<Rightarrow> json_object \<Rightarrow> string" where
  "payload_id fr orr uid payload = (let v = jget_or JNull ''id'' payload in if truthy v then jstr fr orr v else uid)"

definition scim_user_of ::
    "(pyfloat \<Rightarrow> string) \<Rightarrow> (pyval \<Rightarrow> string) \<Rightarrow> string \<Rightarrow> string list \<Rightarrow> json_object \<Rightarrow> scim_user" where
  "scim_user_of fr orr i emails payload =
     \<lparr>su_id = i, su_user_name = strip (payload_text fr orr ''userName'' payload), su_active = truthy (jget_or (JBool True) ''active'' payload),
      su_display_name = payload_text fr orr ''displayName'' payload, su_emails = emails, su_external_id = payload_external fr orr payload,
      su_attributes = filter (\<lambda>(k, v). k \<notin> set core_fields) payload\<rparr>"

text \<open>A slice of a listing.\<close>

definition page :: "int option \<Rightarrow> int \<Rightarrow> 'a list \<Rightarrow> exc + 'a list" where
  "page limit offset xs =
     (if offset < 0 then Inl (ValueError ''offset must be >= 0'')
      else case limit of
        None \<Rightarrow> Inr (drop (nat offset) xs)
      | Some n \<Rightarrow> if n < 1 then Inl (ValueError ''limit must be >= 1'') else Inr (take (nat (min n 500)) (drop (nat offset) xs)))"

section \<open>The in-memory directory\<close>

record directory =
  dir_users :: "(string \<times> scim_user) list"
  dir_groups :: "(string \<times> scim_group) list"

definition directory_init :: directory where
  "directory_init = \<lparr>dir_users = [], dir_groups = []\<rparr>"

definition dir_create_user ::
    "(pyfloat \<Rightarrow> string) \<Rightarrow> (pyval \<Rightarrow> string) \<Rightarrow> uuid_text \<Rightarrow> json_object \<Rightarrow> directory \<Rightarrow> (exc + scim_user) \<times> directory" where
  "dir_create_user fr orr uid payload d =
     (let u = scim_user_of fr orr (payload_id fr orr uid payload) (entry_strings (jget_or (JList []) ''emails'' payload)) payload in
      if su_user_name u = [] then (Inl (ValueError ''SCIM userName is required''), d)
      else if list_ex (\<lambda>(i, x). su_user_name x = su_user_name u) (dir_users d)
        then (Inl (ValueError (''SCIM userName already exists: '' @ su_user_name u)), d)
      else (Inr u, d\<lparr>dir_users := AList.update (su_id u) u (dir_users d)\<rparr>))"

definition dir_replace_user ::
    "(pyfloat \<Rightarrow> string) \<Rightarrow> (pyval \<Rightarrow> string) \<Rightarrow> uuid_text \<Rightarrow> string \<Rightarrow> json_object \<Rightarrow> directory \<Rightarrow> (exc + scim_user) \<times> directory" where
  "dir_replace_user fr orr uid user_id payload d =
     (case map_of (dir_users d) user_id of
        None \<Rightarrow> (Inl (KeyError user_id), d)
      | Some previous \<Rightarrow>
          (case dir_create_user fr orr uid (AList.update ''id'' (JStr user_id) payload) (d\<lparr>dir_users := AList.delete user_id (dir_users d)\<rparr>) of
             (Inr u, d') \<Rightarrow> (Inr u, d')
           | (Inl e, d') \<Rightarrow> (Inl e, d'\<lparr>dir_users := AList.update user_id previous (dir_users d')\<rparr>)))"

definition dir_get_user :: "string \<Rightarrow> directory \<Rightarrow> exc + scim_user" where
  "dir_get_user user_id d = (case map_of (dir_users d) user_id of None \<Rightarrow> Inl (KeyError (''SCIM user not found: '' @ user_id)) | Some u \<Rightarrow> Inr u)"

definition dir_list_users :: "int option \<Rightarrow> int \<Rightarrow> directory \<Rightarrow> exc + scim_user list" where
  "dir_list_users limit offset d = page limit offset (sort_key su_user_name (map snd (dir_users d)))"

definition dir_count_users :: "directory \<Rightarrow> nat" where
  "dir_count_users d = length (dir_users d)"

definition dir_delete_user :: "string \<Rightarrow> directory \<Rightarrow> (exc + unit) \<times> directory" where
  "dir_delete_user user_id d =
     (if map_of (dir_users d) user_id = None then (Inl (KeyError user_id), d)
      else (Inr (), \<lparr>dir_users = AList.delete user_id (dir_users d),
        dir_groups = map (\<lambda>(i, g). (i, if user_id \<in> set (sg_members g) then g\<lparr>sg_members := filter (\<lambda>m. m \<noteq> user_id) (sg_members g)\<rparr> else g)) (dir_groups d)\<rparr>))"

text \<open>The complaint lists the unknown members; here it names the first.\<close>

definition dir_create_group ::
    "(pyfloat \<Rightarrow> string) \<Rightarrow> (pyval \<Rightarrow> string) \<Rightarrow> uuid_text \<Rightarrow> json_object \<Rightarrow> directory \<Rightarrow> (exc + scim_group) \<times> directory" where
  "dir_create_group fr orr uid payload d =
     (let display_name = strip (payload_text fr orr ''displayName'' payload);
          members = frozen (entry_strings (jget_or (JList []) ''members'' payload)) in
      if display_name = [] then (Inl (ValueError ''SCIM group displayName is required''), d)
      else case find (\<lambda>m. map_of (dir_users d) m = None) members of
        Some m \<Rightarrow> (Inl (ValueError (''SCIM group references unknown users: '' @ m)), d)
      | None \<Rightarrow>
          let g = \<lparr>sg_id = payload_id fr orr uid payload, sg_display_name = display_name, sg_members = members,
                sg_external_id = payload_external fr orr payload\<rparr> in
          if list_ex (\<lambda>(i, x). sg_display_name x = display_name) (dir_groups d)
          then (Inl (ValueError (''SCIM group already exists: '' @ display_name)), d)
          else (Inr g, d\<lparr>dir_groups := AList.update (sg_id g) g (dir_groups d)\<rparr>))"

definition dir_replace_group ::
    "(pyfloat \<Rightarrow> string) \<Rightarrow> (pyval \<Rightarrow> string) \<Rightarrow> uuid_text \<Rightarrow> string \<Rightarrow> json_object \<Rightarrow> directory \<Rightarrow> (exc + scim_group) \<times> directory" where
  "dir_replace_group fr orr uid group_id payload d =
     (case map_of (dir_groups d) group_id of
        None \<Rightarrow> (Inl (KeyError group_id), d)
      | Some previous \<Rightarrow>
          (case dir_create_group fr orr uid (AList.update ''id'' (JStr group_id) payload) (d\<lparr>dir_groups := AList.delete group_id (dir_groups d)\<rparr>) of
             (Inr g, d') \<Rightarrow> (Inr g, d')
           | (Inl e, d') \<Rightarrow> (Inl e, d'\<lparr>dir_groups := AList.update group_id previous (dir_groups d')\<rparr>)))"

definition dir_get_group :: "string \<Rightarrow> directory \<Rightarrow> exc + scim_group" where
  "dir_get_group group_id d = (case map_of (dir_groups d) group_id of None \<Rightarrow> Inl (KeyError (''SCIM group not found: '' @ group_id)) | Some g \<Rightarrow> Inr g)"

definition dir_list_groups :: "int option \<Rightarrow> int \<Rightarrow> directory \<Rightarrow> exc + scim_group list" where
  "dir_list_groups limit offset d = page limit offset (sort_key sg_display_name (map snd (dir_groups d)))"

definition dir_count_groups :: "directory \<Rightarrow> nat" where
  "dir_count_groups d = length (dir_groups d)"

definition dir_delete_group :: "string \<Rightarrow> directory \<Rightarrow> (exc + unit) \<times> directory" where
  "dir_delete_group group_id d =
     (if map_of (dir_groups d) group_id = None then (Inl (KeyError group_id), d)
      else (Inr (), d\<lparr>dir_groups := AList.delete group_id (dir_groups d)\<rparr>))"

text \<open>The principal of a user, from the user and the listing of the groups.\<close>

definition principal_of ::
    "string \<Rightarrow> org_id \<Rightarrow> (string \<times> string list) list \<Rightarrow> exc + scim_user \<Rightarrow> exc + scim_group list \<Rightarrow> exc + principal" where
  "principal_of user_id org mapping user groups =
     ebind user (\<lambda>u. if \<not> su_active u then Inl (AuthenticationError (''SCIM user is inactive: '' @ user_id))
       else ebind groups (\<lambda>gs.
         let names = frozen (map sg_display_name (filter (\<lambda>g. user_id \<in> set (sg_members g)) gs)) in
         principal_init (su_id u) org (su_display_name u) (case su_emails u of [] \<Rightarrow> [] | e # _ \<Rightarrow> e)
           (map PStr (frozen (mapped_roles mapping names))) (map PStr names)
           [(''user_name'', JStr (su_user_name u)), (''active'', JBool (su_active u))] []))"

definition dir_principal_for :: "string \<Rightarrow> org_id \<Rightarrow> (string \<times> string list) list \<Rightarrow> directory \<Rightarrow> exc + principal" where
  "dir_principal_for user_id org mapping d = principal_of user_id org mapping (dir_get_user user_id d) (dir_list_groups None 0 d)"

section \<open>The SQLite store\<close>

record group_row =
  gr_id :: string
  gr_display_name :: string
  gr_external_id :: string

record identity_db =
  id_users :: "scim_user list"
  id_groups :: "group_row list"
  id_members :: "(string \<times> string) list"
  id_roles :: "role_definition list"
  id_bindings :: "(string \<times> role_binding) list"

definition identity_empty :: identity_db where
  "identity_empty = \<lparr>id_users = [], id_groups = [], id_members = [], id_roles = [], id_bindings = []\<rparr>"

text \<open>The row of a user: its attributes are written with sorted keys.\<close>

definition user_row :: "scim_user \<Rightarrow> scim_user" where
  "user_row u = u\<lparr>su_attributes := (case sort_keys (JObj (su_attributes u)) of JObj d \<Rightarrow> d | _ \<Rightarrow> [])\<rparr>"

definition sql_create_user ::
    "(pyfloat \<Rightarrow> string) \<Rightarrow> (pyval \<Rightarrow> string) \<Rightarrow> uuid_text \<Rightarrow> json_object \<Rightarrow> identity_db \<Rightarrow> (exc + scim_user) \<times> identity_db" where
  "sql_create_user fr orr uid payload db =
     (let u = scim_user_of fr orr (payload_id fr orr uid payload) (entry_strings (jget_or (JList []) ''emails'' payload)) payload in
      if su_user_name u = [] then (Inl (ValueError ''SCIM userName is required''), db)
      else if list_ex (\<lambda>x. su_id x = su_id u \<or> su_user_name x = su_user_name u) (id_users db)
        then (Inl (ValueError (''SCIM userName already exists: '' @ su_user_name u)), db)
      else (Inr u, db\<lparr>id_users := id_users db @ [user_row u]\<rparr>))"

definition sql_get_user :: "string \<Rightarrow> identity_db \<Rightarrow> exc + scim_user" where
  "sql_get_user user_id db = (case find (\<lambda>u. su_id u = user_id) (id_users db) of
     None \<Rightarrow> Inl (KeyError (''SCIM user not found: '' @ user_id)) | Some u \<Rightarrow> Inr u)"

definition sql_list_users :: "int option \<Rightarrow> int \<Rightarrow> identity_db \<Rightarrow> exc + scim_user list" where
  "sql_list_users limit offset db = page limit offset (sort_key su_user_name (id_users db))"

definition sql_count_users :: "identity_db \<Rightarrow> nat" where
  "sql_count_users db = length (id_users db)"

definition sql_replace_user ::
    "(pyfloat \<Rightarrow> string) \<Rightarrow> (pyval \<Rightarrow> string) \<Rightarrow> string \<Rightarrow> json_object \<Rightarrow> identity_db \<Rightarrow> (exc + scim_user) \<times> identity_db" where
  "sql_replace_user fr orr user_id payload db =
     (case sql_get_user user_id db of Inl e \<Rightarrow> (Inl e, db)
      | Inr _ \<Rightarrow>
          if strip (payload_text fr orr ''userName'' payload) = [] then (Inl (ValueError ''SCIM userName is required''), db)
          else case entry_texts fr orr (jget_or (JList []) ''emails'' payload) of
            Inl e \<Rightarrow> (Inl e, db)
          | Inr emails \<Rightarrow>
              let u = scim_user_of fr orr user_id emails payload in
              if list_ex (\<lambda>x. su_id x \<noteq> user_id \<and> su_user_name x = su_user_name u) (id_users db)
              then (Inl (SqliteIntegrityError ''UNIQUE constraint failed: scim_users.user_name''), db)
              else (Inr u, db\<lparr>id_users := sql_update (\<lambda>x. su_id x = user_id) (\<lambda>_. user_row u) (id_users db)\<rparr>))"

definition sql_delete_user :: "string \<Rightarrow> identity_db \<Rightarrow> (exc + unit) \<times> identity_db" where
  "sql_delete_user user_id db =
     (if rowcount (\<lambda>u. su_id u = user_id) (id_users db) \<noteq> 1 then (Inl (KeyError user_id), db)
      else (Inr (), db\<lparr>id_users := sql_delete (\<lambda>u. su_id u = user_id) (id_users db),
        id_members := sql_delete (\<lambda>m. snd m = user_id) (id_members db)\<rparr>))"

text \<open>The members a group is to have, all of them known users.\<close>

definition checked_members ::
    "(pyfloat \<Rightarrow> string) \<Rightarrow> (pyval \<Rightarrow> string) \<Rightarrow> json_object \<Rightarrow> identity_db \<Rightarrow> exc + string list" where
  "checked_members fr orr payload db = ebind (entry_texts fr orr (jget_or (JList []) ''members'' payload)) (\<lambda>ms.
     case find (\<lambda>m. \<not> list_ex (\<lambda>u. su_id u = m) (id_users db)) (frozen ms) of
       Some m \<Rightarrow> Inl (ValueError (''SCIM group references unknown users: '' @ m)) | None \<Rightarrow> Inr (frozen ms))"

definition sql_create_group ::
    "(pyfloat \<Rightarrow> string) \<Rightarrow> (pyval \<Rightarrow> string) \<Rightarrow> uuid_text \<Rightarrow> json_object \<Rightarrow> identity_db \<Rightarrow> (exc + scim_group) \<times> identity_db" where
  "sql_create_group fr orr uid payload db =
     (let display_name = strip (payload_text fr orr ''displayName'' payload) in
      if display_name = [] then (Inl (ValueError ''SCIM group displayName is required''), db)
      else case checked_members fr orr payload db of
        Inl e \<Rightarrow> (Inl e, db)
      | Inr members \<Rightarrow>
          let g = \<lparr>sg_id = payload_id fr orr uid payload, sg_display_name = display_name, sg_members = members,
                sg_external_id = payload_external fr orr payload\<rparr> in
          if list_ex (\<lambda>r. gr_id r = sg_id g \<or> gr_display_name r = display_name) (id_groups db)
          then (Inl (ValueError (''SCIM group already exists: '' @ display_name)), db)
          else (Inr g, db\<lparr>id_groups := id_groups db @ [\<lparr>gr_id = sg_id g, gr_display_name = display_name, gr_external_id = sg_external_id g\<rparr>],
            id_members := id_members db @ map (\<lambda>m. (sg_id g, m)) (sort members)\<rparr>))"

definition group_of_row :: "identity_db \<Rightarrow> group_row \<Rightarrow> scim_group" where
  "group_of_row db r = \<lparr>sg_id = gr_id r, sg_display_name = gr_display_name r,
     sg_members = frozen (map snd (filter (\<lambda>m. fst m = gr_id r) (id_members db))), sg_external_id = gr_external_id r\<rparr>"

definition sql_get_group :: "string \<Rightarrow> identity_db \<Rightarrow> exc + scim_group" where
  "sql_get_group group_id db = (case find (\<lambda>r. gr_id r = group_id) (id_groups db) of
     None \<Rightarrow> Inl (KeyError (''SCIM group not found: '' @ group_id)) | Some r \<Rightarrow> Inr (group_of_row db r))"

definition sql_list_groups :: "int option \<Rightarrow> int \<Rightarrow> identity_db \<Rightarrow> exc + scim_group list" where
  "sql_list_groups limit offset db = ebind (page limit offset (map gr_id (sort_key gr_display_name (id_groups db)))) (\<lambda>ids.
     collect (\<lambda>i. sql_get_group i db) ids)"

definition sql_count_groups :: "identity_db \<Rightarrow> nat" where
  "sql_count_groups db = length (id_groups db)"

definition sql_replace_group ::
    "(pyfloat \<Rightarrow> string) \<Rightarrow> (pyval \<Rightarrow> string) \<Rightarrow> string \<Rightarrow> json_object \<Rightarrow> identity_db \<Rightarrow> (exc + scim_group) \<times> identity_db" where
  "sql_replace_group fr orr group_id payload db =
     (case sql_get_group group_id db of Inl e \<Rightarrow> (Inl e, db)
      | Inr _ \<Rightarrow>
          let display_name = strip (payload_text fr orr ''displayName'' payload) in
          if display_name = [] then (Inl (ValueError ''SCIM group displayName is required''), db)
          else case checked_members fr orr payload db of
            Inl e \<Rightarrow> (Inl e, db)
          | Inr members \<Rightarrow>
              if list_ex (\<lambda>r. gr_id r \<noteq> group_id \<and> gr_display_name r = display_name) (id_groups db)
              then (Inl (SqliteIntegrityError ''UNIQUE constraint failed: scim_groups.display_name''), db)
              else let db' = db\<lparr>id_groups := sql_update (\<lambda>r. gr_id r = group_id)
                      (\<lambda>r. r\<lparr>gr_display_name := display_name, gr_external_id := payload_external fr orr payload\<rparr>) (id_groups db),
                    id_members := sql_delete (\<lambda>m. fst m = group_id) (id_members db) @ map (\<lambda>m. (group_id, m)) (sort members)\<rparr>
                in (sql_get_group group_id db', db'))"

definition sql_delete_group :: "string \<Rightarrow> identity_db \<Rightarrow> (exc + unit) \<times> identity_db" where
  "sql_delete_group group_id db =
     (if rowcount (\<lambda>r. gr_id r = group_id) (id_groups db) \<noteq> 1 then (Inl (KeyError group_id), db)
      else (Inr (), db\<lparr>id_groups := sql_delete (\<lambda>r. gr_id r = group_id) (id_groups db),
        id_members := sql_delete (\<lambda>m. fst m = group_id) (id_members db)\<rparr>))"

definition sql_principal_for :: "string \<Rightarrow> org_id \<Rightarrow> (string \<times> string list) list \<Rightarrow> identity_db \<Rightarrow> exc + principal" where
  "sql_principal_for user_id org mapping db = principal_of user_id org mapping (sql_get_user user_id db) (sql_list_groups None 0 db)"

section \<open>Roles and bindings of the store\<close>

definition save_role :: "role_definition \<Rightarrow> identity_db \<Rightarrow> (exc + unit) \<times> identity_db" where
  "save_role r db =
     (let row = r\<lparr>rd_permissions := sort (rd_permissions r)\<rparr> in
      if list_ex (\<lambda>x. rd_name x = rd_name r) (id_roles db)
      then (Inr (), db\<lparr>id_roles := sql_update (\<lambda>x. rd_name x = rd_name r)
        (\<lambda>x. x\<lparr>rd_permissions := rd_permissions row, rd_description := rd_description row\<rparr>) (id_roles db)\<rparr>)
      else (Inr (), db\<lparr>id_roles := id_roles db @ [row]\<rparr>))"

definition save_binding :: "uuid_text \<Rightarrow> role_binding \<Rightarrow> identity_db \<Rightarrow> (exc + string) \<times> identity_db" where
  "save_binding uid b db =
     (if \<not> list_ex (\<lambda>x. rd_name x = rb_role b) (id_roles db) \<or> list_ex (\<lambda>x. fst x = uid) (id_bindings db)
      then (Inl (ValueError (''Unknown RBAC role: '' @ rb_role b)), db)
      else (Inr uid, db\<lparr>id_bindings := id_bindings db @ [(uid, b)]\<rparr>))"

definition role_of_row :: "role_definition \<Rightarrow> exc + role_definition" where
  "role_of_row r = role_definition_init (rd_name r) (map PStr (rd_permissions r)) (rd_description r)"

definition binding_of_row :: "string \<times> role_binding \<Rightarrow> exc + string \<times> role_binding" where
  "binding_of_row row = (case row of (i, b) \<Rightarrow>
     ebind (role_binding_init (rb_role b) (rb_organization_id b) (rb_subject b) (rb_group b) (rb_environment b)) (\<lambda>x. Inr (i, x)))"

definition list_roles :: "identity_db \<Rightarrow> exc + role_definition list" where
  "list_roles db = collect role_of_row (sort_key rd_name (id_roles db))"

definition delete_role :: "string \<Rightarrow> identity_db \<Rightarrow> (exc + unit) \<times> identity_db" where
  "delete_role role_name db =
     (if rowcount (\<lambda>r. rd_name r = role_name) (id_roles db) \<noteq> 1 then (Inl (KeyError role_name), db)
      else (Inr (), db\<lparr>id_roles := sql_delete (\<lambda>r. rd_name r = role_name) (id_roles db),
        id_bindings := sql_delete (\<lambda>x. rb_role (snd x) = role_name) (id_bindings db)\<rparr>))"

definition list_bindings :: "identity_db \<Rightarrow> exc + (string \<times> role_binding) list" where
  "list_bindings db = collect binding_of_row (sort_key fst (id_bindings db))"

definition delete_binding :: "string \<Rightarrow> identity_db \<Rightarrow> (exc + unit) \<times> identity_db" where
  "delete_binding binding_id db =
     (if rowcount (\<lambda>x. fst x = binding_id) (id_bindings db) \<noteq> 1 then (Inl (KeyError binding_id), db)
      else (Inr (), db\<lparr>id_bindings := sql_delete (\<lambda>x. fst x = binding_id) (id_bindings db)\<rparr>))"

definition store_authorizer :: "identity_db \<Rightarrow> exc + rbac" where
  "store_authorizer db = ebind (list_roles db) (\<lambda>roles. ebind (list_bindings db) (\<lambda>bindings. rbac_init roles (map snd bindings) True))"

text \<open>\<^verbatim>\<open>DynamicRBACAuthorizer\<close>.\<close>

definition dynamic_authorize ::
    "(pyfloat \<Rightarrow> string) \<Rightarrow> (pyval \<Rightarrow> string) \<Rightarrow> identity_db \<Rightarrow> principal option \<Rightarrow> string \<Rightarrow> string \<Rightarrow> payload \<Rightarrow> exc + bool" where
  "dynamic_authorize fr orr db caller action resource context =
     ebind (store_authorizer db) (\<lambda>ra. Inr (rbac_authorize fr orr ra caller action resource context))"

definition dynamic_require ::
    "(pyfloat \<Rightarrow> string) \<Rightarrow> (pyval \<Rightarrow> string) \<Rightarrow> identity_db \<Rightarrow> principal option \<Rightarrow> string \<Rightarrow> string \<Rightarrow> payload \<Rightarrow> exc + unit" where
  "dynamic_require fr orr db caller action resource context =
     ebind (store_authorizer db) (\<lambda>ra. rbac_require fr orr ra caller action resource context)"

end
