(* ===== verification/Rbac_Laws.thy ===== *)
theory Rbac_Laws
  imports Scim
begin

text \<open>
  The role-based authorizer.  \<open>role_source\<close> is what the rest of the system relies on: a decision is made by the roles and
  bindings of the source and by nothing else.  It holds of an authorizer that denies by default and of the authorizer that
  reads the SQLite store anew for each decision, in every state the operations of the store can reach.
\<close>

section \<open>What an authorizer promises\<close>

definition holds_role :: "principal \<Rightarrow> env_name \<Rightarrow> role_binding set \<Rightarrow> string \<Rightarrow> bool" where
  "holds_role p environ bs n \<longleftrightarrow> n \<in> set (pr_roles p) \<or> (\<exists>b\<in>bs. rb_role b = n \<and> binding_applies p environ b)"

definition granted :: "role_definition set \<Rightarrow> role_binding set \<Rightarrow> principal \<Rightarrow> env_name \<Rightarrow> string \<Rightarrow> string \<Rightarrow> bool" where
  "granted rs bs p environ action resource \<longleftrightarrow>
     (\<exists>r\<in>rs. holds_role p environ bs (rd_name r) \<and> (\<exists>q\<in>set (rd_permissions r). permits q action resource))"

locale role_source =
  fixes ok :: "'s \<Rightarrow> bool" and defs :: "'s \<Rightarrow> role_definition set" and grants :: "'s \<Rightarrow> role_binding set"
    and decide :: "'s \<Rightarrow> principal \<Rightarrow> env_name \<Rightarrow> string \<Rightarrow> string \<Rightarrow> bool"
  assumes exact: "ok s \<Longrightarrow> decide s p environ action resource \<longleftrightarrow> granted (defs s) (grants s) p environ action resource"
begin

text \<open>Bindings of other organizations do not matter.\<close>

lemma tenant_isolation:
  assumes "ok s" "ok t" "defs s = defs t"
    and "{b \<in> grants s. rb_organization_id b = pr_organization_id p} = {b \<in> grants t. rb_organization_id b = pr_organization_id p}"
  shows "decide s p environ action resource = decide t p environ action resource"
proof -
  have "holds_role p environ (grants s) n = holds_role p environ (grants t) n" for n
    using assms(4) unfolding holds_role_def binding_applies_def set_eq_iff by blast
  then show ?thesis using assms(1-3) exact by (simp add: granted_def)
qed

lemma nothing_without_roles:
  assumes "ok s" "pr_roles p = []" "\<And>b. b \<in> grants s \<Longrightarrow> \<not> binding_applies p environ b"
  shows "\<not> decide s p environ action resource"
  using assms exact by (auto simp: granted_def holds_role_def)

lemma more_grants:
  assumes "ok s" "ok t" "defs s \<subseteq> defs t" "grants s \<subseteq> grants t" "decide s p environ action resource"
  shows "decide t p environ action resource"
  using assms exact unfolding granted_def holds_role_def by blast

end

section \<open>An authorizer object\<close>

lemma map_of_roles_by_name: "map_of (roles_by_name rs) n = find (\<lambda>r. rd_name r = n) (rev rs)"
proof -
  have "map_of (foldl (\<lambda>d r. AList.update (rd_name r) r d) d rs) n
    = (case find (\<lambda>r. rd_name r = n) (rev rs) of Some r \<Rightarrow> Some r | None \<Rightarrow> map_of d n)" for d
    by (induction rs arbitrary: d) (auto simp: find_append split: option.splits)
  from this [of "[]"] show ?thesis by (simp add: roles_by_name_def split: option.split)
qed

definition rbac_ok :: "rbac \<Rightarrow> bool" where
  "rbac_ok ra \<longleftrightarrow> ra_default_deny ra \<and> (\<forall>(n, r)\<in>set (ra_roles ra). rd_name r = n) \<and> distinct (map fst (ra_roles ra))"

lemma effective_iff: "n \<in> set (effective_roles ra p environ) \<longleftrightarrow> holds_role p environ (set (ra_bindings ra)) n"
  by (auto simp: effective_roles_def holds_role_def)

lemma permissions_iff:
  "q \<in> set (permissions_for ra p environ) \<longleftrightarrow>
     (\<exists>n r. holds_role p environ (set (ra_bindings ra)) n \<and> map_of (ra_roles ra) n = Some r \<and> q \<in> set (rd_permissions r))"
proof -
  have look: "q \<in> set (case m of None \<Rightarrow> [] | Some r \<Rightarrow> rd_permissions r) \<longleftrightarrow> (\<exists>r. m = Some r \<and> q \<in> set (rd_permissions r))" for m
    by (cases m) auto
  have "q \<in> set (permissions_for ra p environ) \<longleftrightarrow>
      (\<exists>n\<in>set (effective_roles ra p environ). q \<in> set (case map_of (ra_roles ra) n of None \<Rightarrow> [] | Some r \<Rightarrow> rd_permissions r))"
    by (simp add: permissions_for_def)
  also have "\<dots> \<longleftrightarrow> (\<exists>n. holds_role p environ (set (ra_bindings ra)) n \<and> (\<exists>r. map_of (ra_roles ra) n = Some r \<and> q \<in> set (rd_permissions r)))"
    unfolding Bex_def effective_iff look ..
  finally show ?thesis by blast
qed

lemma rbac_authorize_iff:
  assumes "rbac_ok ra"
  shows "rbac_authorize fr orr ra (Some p) action resource context \<longleftrightarrow>
     granted (snd ` set (ra_roles ra)) (set (ra_bindings ra)) p (context_environment fr orr context) action resource"
proof -
  have look: "map_of (ra_roles ra) n = Some r \<longleftrightarrow> r \<in> snd ` set (ra_roles ra) \<and> rd_name r = n" for n r
    using assms by (force simp: rbac_ok_def map_of_eq_Some_iff image_iff)
  have "(\<exists>q\<in>set (permissions_for ra p e). permits q action resource) \<longleftrightarrow> granted (snd ` set (ra_roles ra)) (set (ra_bindings ra)) p e action resource" for e
    unfolding Bex_def permissions_iff look granted_def by blast
  then show ?thesis
    using assms by (simp add: rbac_authorize_def rbac_ok_def list_ex_iff)
qed

definition rbac_decide :: "rbac \<Rightarrow> principal \<Rightarrow> env_name \<Rightarrow> string \<Rightarrow> string \<Rightarrow> bool" where
  "rbac_decide ra p environ action resource = rbac_authorize (\<lambda>_. []) (\<lambda>_. []) ra (Some p) action resource [(''environment'', PStr environ)]"

interpretation rbac_object: role_source rbac_ok "\<lambda>ra. snd ` set (ra_roles ra)" "\<lambda>ra. set (ra_bindings ra)" rbac_decide
  by unfold_locales (simp add: rbac_decide_def rbac_authorize_iff context_environment_def)

section \<open>The store\<close>

definition role_row_ok :: "role_definition \<Rightarrow> bool" where
  "role_row_ok r \<longleftrightarrow> rd_name r \<noteq> [] \<and> strip (rd_name r) = rd_name r \<and> (\<forall>q\<in>set (rd_permissions r). q \<noteq> [] \<and> strip q = q)
     \<and> frozen (rd_permissions r) = rd_permissions r"

definition binding_row_ok :: "role_binding \<Rightarrow> bool" where
  "binding_row_ok b \<longleftrightarrow> role_binding_init (rb_role b) (rb_organization_id b) (rb_subject b) (rb_group b) (rb_environment b) = Inr b"

definition roles_ok :: "identity_db \<Rightarrow> bool" where
  "roles_ok db \<longleftrightarrow> distinct (map rd_name (id_roles db)) \<and> (\<forall>r\<in>set (id_roles db). role_row_ok r)
     \<and> (\<forall>(i, b)\<in>set (id_bindings db). binding_row_ok b \<and> rb_role b \<in> rd_name ` set (id_roles db))"

lemma collect_same: "(\<And>x. x \<in> set xs \<Longrightarrow> f x = Inr x) \<Longrightarrow> collect f xs = Inr xs"
  by (induction xs) auto

lemma clean_strings: "(\<And>q. q \<in> set qs \<Longrightarrow> q \<noteq> [] \<and> strip q = q) \<Longrightarrow> collect clean_item (map PStr qs) = Inr qs"
  by (induction qs) (auto simp: clean_item_def blank_def)

lemma clean_item_Inr: "clean_item v = Inr s \<Longrightarrow> s \<noteq> [] \<and> strip s = s"
  by (auto simp: clean_item_def blank_def split: pyval.splits if_splits)

lemma role_row_read: "role_row_ok r \<Longrightarrow> role_of_row r = Inr r"
  by (simp add: role_of_row_def role_definition_init_def role_row_ok_def blank_def clean_set_def clean_strings)

lemma role_init_row: "role_definition_init n ps d = Inr r \<Longrightarrow> role_row_ok r"
proof -
  assume a: "role_definition_init n ps d = Inr r"
  then obtain qs where q: "collect clean_item ps = Inr qs" "r = \<lparr>rd_name = strip n, rd_permissions = frozen qs, rd_description = d\<rparr>" "\<not> blank n"
    by (auto simp: role_definition_init_def clean_set_def ebind_Inr split: if_splits)
  have "\<forall>s\<in>set qs. s \<noteq> [] \<and> strip s = s"
    using q(1) unfolding collect_Inr_iff by (auto simp: list_all2_conv_all_nth in_set_conv_nth dest!: clean_item_Inr)
  then show ?thesis using q(2,3) by (simp add: role_row_ok_def blank_def)
qed

lemma binding_row_read: "binding_row_ok b \<Longrightarrow> binding_of_row (i, b) = Inr (i, b)"
  by (simp add: binding_row_ok_def binding_of_row_def)

lemma binding_init_row: "role_binding_init role org subject grp environ = Inr b \<Longrightarrow> binding_row_ok b"
  by (auto simp: role_binding_init_def binding_row_ok_def split: if_splits)

lemma store_authorizer_exact:
  assumes "roles_ok db"
  shows "\<exists>ra. store_authorizer db = Inr ra \<and> rbac_ok ra \<and> snd ` set (ra_roles ra) = set (id_roles db) \<and> set (ra_bindings ra) = snd ` set (id_bindings db)"
proof -
  define rs where "rs = sort_key rd_name (id_roles db)"
  define bs where "bs = sort_key fst (id_bindings db)"
  have rs: "set rs = set (id_roles db)" "distinct (map rd_name rs)"
    using assms by (simp_all add: rs_def roles_ok_def distinct_map inj_on_def)
  have "list_roles db = Inr rs" unfolding list_roles_def rs_def [symmetric]
    using assms rs(1) by (intro collect_same) (auto simp: roles_ok_def role_row_read)
  moreover have "list_bindings db = Inr bs" unfolding list_bindings_def bs_def [symmetric]
    using assms by (intro collect_same) (auto simp: bs_def roles_ok_def binding_row_read)
  moreover have look: "map_of (roles_by_name rs) n = Some r \<longleftrightarrow> r \<in> set rs \<and> rd_name r = n" for n r
    using find_key_eq [of rd_name "rev rs"] rs(2) by (auto simp: map_of_roles_by_name rev_map [symmetric] dest: find_Some_prop)
  have "find (\<lambda>b. map_of (roles_by_name rs) (rb_role b) = None) (map snd bs) = None"
  proof -
    have "map_of (roles_by_name rs) (rb_role b) \<noteq> None" if "(i, b) \<in> set bs" for i b
    proof -
      have "rb_role b \<in> rd_name ` set rs" using assms that rs(1) by (auto simp: roles_ok_def bs_def)
      then obtain r where "r \<in> set rs" "rd_name r = rb_role b" by (auto simp: image_iff)
      then show ?thesis using look by auto
    qed
    then show ?thesis unfolding find_None_conv by fastforce
  qed
  ultimately have "store_authorizer db = Inr \<lparr>ra_roles = roles_by_name rs, ra_bindings = map snd bs, ra_default_deny = True\<rparr>"
    by (simp add: store_authorizer_def rbac_init_def Let_def)
  moreover have d: "distinct (map fst (roles_by_name rs))" unfolding roles_by_name_def
    by (rule rev_induct [where xs = rs]) (auto intro: distinct_update)
  moreover have pairs: "(n, r) \<in> set (roles_by_name rs) \<longleftrightarrow> r \<in> set rs \<and> rd_name r = n" for n r
    using map_of_eq_Some_iff [OF d] look by blast
  moreover have "snd ` set (roles_by_name rs) = set rs"
    by (simp add: set_eq_iff image_iff Bex_def split_paired_Ex pairs)
  ultimately show ?thesis using rs(1) by (auto simp: rbac_ok_def bs_def)
qed

definition store_decides :: "identity_db \<Rightarrow> principal \<Rightarrow> env_name \<Rightarrow> string \<Rightarrow> string \<Rightarrow> bool" where
  "store_decides db p environ action resource \<longleftrightarrow>
     dynamic_authorize (\<lambda>_. []) (\<lambda>_. []) db (Some p) action resource [(''environment'', PStr environ)] = Inr True"

lemma dynamic_decision:
  assumes "roles_ok db"
  shows "dynamic_authorize fr orr db (Some p) action resource context =
     Inr (granted (set (id_roles db)) (snd ` set (id_bindings db)) p (context_environment fr orr context) action resource)"
  using store_authorizer_exact [OF assms] by (auto simp: dynamic_authorize_def rbac_authorize_iff)

interpretation rbac_store: role_source roles_ok "\<lambda>db. set (id_roles db)" "\<lambda>db. snd ` set (id_bindings db)" store_decides
  by unfold_locales (simp add: store_decides_def dynamic_decision context_environment_def)

section \<open>Reachable stores\<close>

inductive identity_step :: "(pyfloat \<Rightarrow> string) \<Rightarrow> (pyval \<Rightarrow> string) \<Rightarrow> identity_db \<Rightarrow> identity_db \<Rightarrow> bool" for fr orr where
  create_user: "identity_step fr orr db (snd (sql_create_user fr orr uid payload db))"
| replace_user: "identity_step fr orr db (snd (sql_replace_user fr orr i payload db))"
| delete_user: "identity_step fr orr db (snd (sql_delete_user i db))"
| create_group: "identity_step fr orr db (snd (sql_create_group fr orr uid payload db))"
| replace_group: "identity_step fr orr db (snd (sql_replace_group fr orr i payload db))"
| delete_group: "identity_step fr orr db (snd (sql_delete_group i db))"
| save_role: "role_definition_init n ps d = Inr r \<Longrightarrow> identity_step fr orr db (snd (save_role r db))"
| delete_role: "identity_step fr orr db (snd (delete_role n db))"
| save_binding: "role_binding_init n org subject grp environ = Inr b \<Longrightarrow> identity_step fr orr db (snd (save_binding uid b db))"
| delete_binding: "identity_step fr orr db (snd (delete_binding i db))"

lemma scim_keeps_roles [simp]:
  "id_roles (snd (sql_create_user fr orr uid payload db)) = id_roles db" "id_bindings (snd (sql_create_user fr orr uid payload db)) = id_bindings db"
  "id_roles (snd (sql_replace_user fr orr i payload db)) = id_roles db" "id_bindings (snd (sql_replace_user fr orr i payload db)) = id_bindings db"
  "id_roles (snd (sql_delete_user i db)) = id_roles db" "id_bindings (snd (sql_delete_user i db)) = id_bindings db"
  "id_roles (snd (sql_create_group fr orr uid payload db)) = id_roles db" "id_bindings (snd (sql_create_group fr orr uid payload db)) = id_bindings db"
  "id_roles (snd (sql_replace_group fr orr i payload db)) = id_roles db" "id_bindings (snd (sql_replace_group fr orr i payload db)) = id_bindings db"
  "id_roles (snd (sql_delete_group i db)) = id_roles db" "id_bindings (snd (sql_delete_group i db)) = id_bindings db"
  by (simp_all add: sql_create_user_def sql_replace_user_def sql_delete_user_def sql_create_group_def sql_replace_group_def sql_delete_group_def
      Let_def split: sum.split option.split)

lemma sorted_frozen: "sort (frozen xs) = frozen xs"
  by (simp add: frozen_def sorted_sort_id)

lemma roles_ok_save:
  assumes "roles_ok db" "role_row_ok r"
  shows "roles_ok (snd (save_role r db))"
proof -
  have row: "sort (rd_permissions r) = rd_permissions r"
    using assms(2) sorted_frozen [of "rd_permissions r"] by (simp add: role_row_ok_def)
  show ?thesis
  proof (cases "list_ex (\<lambda>x. rd_name x = rd_name r) (id_roles db)")
    case True
    let ?f = "\<lambda>x. x\<lparr>rd_permissions := rd_permissions r, rd_description := rd_description r\<rparr>"
    have db: "snd (save_role r db) = db\<lparr>id_roles := sql_update (\<lambda>x. rd_name x = rd_name r) ?f (id_roles db)\<rparr>"
      using True row by (simp add: save_role_def Let_def)
    have names: "map rd_name (sql_update (\<lambda>x. rd_name x = rd_name r) ?f (id_roles db)) = map rd_name (id_roles db)"
      by (rule map_sql_update) simp
    then have "rd_name ` set (sql_update (\<lambda>x. rd_name x = rd_name r) ?f (id_roles db)) = rd_name ` set (id_roles db)"
      by (metis set_map)
    then show ?thesis
      using assms names unfolding db by (auto simp: roles_ok_def set_sql_update role_row_ok_def)
  next
    case False
    then have "snd (save_role r db) = db\<lparr>id_roles := id_roles db @ [r]\<rparr>"
      using row by (simp add: save_role_def Let_def)
    then show ?thesis using assms False by (auto simp: roles_ok_def list_ex_iff)
  qed
qed

lemma roles_ok_binding: "roles_ok db \<Longrightarrow> binding_row_ok b \<Longrightarrow> roles_ok (snd (save_binding uid b db))"
  by (auto simp: roles_ok_def save_binding_def list_ex_iff intro: rev_image_eqI)

lemma roles_ok_delete: "roles_ok db \<Longrightarrow> roles_ok (snd (delete_role n db))" "roles_ok db \<Longrightarrow> roles_ok (snd (delete_binding i db))"
  by (auto simp: roles_ok_def delete_role_def delete_binding_def sql_delete_def distinct_map_filter)

lemma identity_step_roles: "identity_step fr orr db db' \<Longrightarrow> roles_ok db \<Longrightarrow> roles_ok db'"
  by (induction rule: identity_step.induct)
    (simp_all add: roles_ok_save role_init_row roles_ok_binding binding_init_row roles_ok_delete,
     simp_all add: roles_ok_def)

lemma reachable_roles: "(identity_step fr orr)\<^sup>*\<^sup>* identity_empty db \<Longrightarrow> roles_ok db"
  by (erule rtranclp_invariant) (simp_all add: roles_ok_def identity_empty_def identity_step_roles [unfolded roles_ok_def])

text \<open>C5: In every state the operations of the identity store can reach, the authorizer that reads the store returns a
  decision, and it allows a request exactly when a stored role that the principal carries, or that a binding of its own
  organization for this environment gives to it or to one of its groups, has a permission that covers the request.\<close>

theorem dynamic_rbac_exact:
  assumes "(identity_step fr orr)\<^sup>*\<^sup>* identity_empty db"
  shows "dynamic_authorize fr orr db (Some p) action resource context = Inr (
     \<exists>r\<in>set (id_roles db).
       (rd_name r \<in> set (pr_roles p) \<or>
        (\<exists>(i, b)\<in>set (id_bindings db). rb_role b = rd_name r \<and> rb_organization_id b = pr_organization_id p
           \<and> rb_environment b \<in> {''*'', context_environment fr orr context}
           \<and> (rb_subject b \<noteq> [] \<and> rb_subject b = pr_subject p \<or> rb_group b \<noteq> [] \<and> rb_group b \<in> set (pr_groups p))))
       \<and> (\<exists>q\<in>set (rd_permissions r). q = ''*'' \<or> action \<in> glob_lang (glob_parse q)
           \<or> (if resource \<noteq> [] then action @ '':'' @ resource else action) \<in> glob_lang (glob_parse q)))"
  using dynamic_decision [OF reachable_roles [OF assms]]
  by (simp add: granted_def holds_role_def binding_applies_def permits_def fnmatchcase_lang split_beta)

text \<open>Tenants are isolated: two stores with the same roles and the same bindings of an organization decide alike for the
  principals of that organization, whatever the bindings of other organizations.\<close>

theorem tenants_isolated:
  assumes "(identity_step fr orr)\<^sup>*\<^sup>* identity_empty db" and "(identity_step fr orr)\<^sup>*\<^sup>* identity_empty db'"
    and "set (id_roles db) = set (id_roles db')"
    and "{b \<in> snd ` set (id_bindings db). rb_organization_id b = pr_organization_id p} = {b \<in> snd ` set (id_bindings db'). rb_organization_id b = pr_organization_id p}"
  shows "dynamic_authorize fr orr db (Some p) action resource context = dynamic_authorize fr orr db' (Some p) action resource context"
proof -
  note ok = reachable_roles [OF assms(1)] reachable_roles [OF assms(2)]
  have "store_decides db p e action resource = store_decides db' p e action resource" for e
    by (rule rbac_store.tenant_isolation [OF ok assms(3,4)])
  then show ?thesis using rbac_store.exact [OF ok(1)] rbac_store.exact [OF ok(2)] by (simp add: dynamic_decision [OF ok(1)] dynamic_decision [OF ok(2)])
qed

section \<open>Witnesses\<close>

definition demo_role :: role_definition where
  "demo_role = \<lparr>rd_name = ''r'', rd_permissions = [''a.*''], rd_description = []\<rparr>"

definition demo_binding :: "org_id \<Rightarrow> role_binding" where
  "demo_binding org = \<lparr>rb_role = ''r'', rb_organization_id = org, rb_subject = ''u'', rb_group = [], rb_environment = ''*''\<rparr>"

definition demo_principal :: principal where
  "demo_principal = \<lparr>pr_subject = ''u'', pr_organization_id = ''o'', pr_display_name = [], pr_email = [], pr_roles = [], pr_groups = [],
     pr_attributes = [], pr_token_id = []\<rparr>"

definition demo_identity :: "role_binding list \<Rightarrow> identity_db" where
  "demo_identity bs = identity_empty\<lparr>id_roles := [demo_role], id_bindings := map (\<lambda>b. (rb_organization_id b, b)) bs\<rparr>"

lemma demo_init:
  "role_definition_init ''r'' [PStr ''a.*''] [] = Inr demo_role"
  "role_binding_init ''r'' ''o'' ''u'' [] ''*'' = Inr (demo_binding ''o'')" "role_binding_init ''r'' ''x'' ''u'' [] ''*'' = Inr (demo_binding ''x'')"
  by (simp_all add: role_definition_init_def role_binding_init_def demo_role_def demo_binding_def clean_set_def clean_item_def frozen_def
      blank_def strip_def lstrip_def rstrip_def py_space_def)

lemma demo_identity_reachable:
  "(identity_step fr orr)\<^sup>*\<^sup>* identity_empty (demo_identity [demo_binding ''o''])"
  "(identity_step fr orr)\<^sup>*\<^sup>* identity_empty (demo_identity [demo_binding ''o'', demo_binding ''x''])"
proof -
  have 1: "identity_step fr orr identity_empty (demo_identity [])"
    using identity_step.save_role [OF demo_init(1), of fr orr identity_empty]
    by (simp add: save_role_def identity_empty_def demo_identity_def demo_role_def)
  have 2: "identity_step fr orr (demo_identity []) (demo_identity [demo_binding ''o''])"
    using identity_step.save_binding [OF demo_init(2), of fr orr "demo_identity []" "''o''"]
    by (simp add: save_binding_def demo_identity_def demo_role_def demo_binding_def identity_empty_def)
  have 3: "identity_step fr orr (demo_identity [demo_binding ''o'']) (demo_identity [demo_binding ''o'', demo_binding ''x''])"
    using identity_step.save_binding [OF demo_init(3), of fr orr "demo_identity [demo_binding ''o'']" "''x''"]
    by (simp add: save_binding_def demo_identity_def demo_role_def demo_binding_def identity_empty_def)
  show two: "(identity_step fr orr)\<^sup>*\<^sup>* identity_empty (demo_identity [demo_binding ''o''])"
    using 1 2 by (meson rtranclp.rtrancl_into_rtrancl rtranclp.rtrancl_refl)
  show "(identity_step fr orr)\<^sup>*\<^sup>* identity_empty (demo_identity [demo_binding ''o'', demo_binding ''x''])"
    using two 3 by (rule rtranclp.rtrancl_into_rtrancl)
qed

lemma demo_glob: "''a.b'' \<in> glob_lang (glob_parse ''a.*'')" "''b'' \<notin> glob_lang (glob_parse ''a.*'')"
  by (simp_all add: fnmatchcase_lang [symmetric] fnmatchcase_def)

theorem dynamic_rbac_exact_witness:
  "dynamic_authorize ratio_repr (\<lambda>_. []) (demo_identity [demo_binding ''o'']) (Some demo_principal) ''a.b'' [] [] = Inr True
   \<and> dynamic_authorize ratio_repr (\<lambda>_. []) (demo_identity [demo_binding ''o'']) (Some demo_principal) ''b'' [] [] = Inr False"
  unfolding dynamic_rbac_exact [OF demo_identity_reachable(1)]
  by (simp add: demo_identity_def demo_role_def demo_binding_def demo_principal_def demo_glob)

theorem tenants_isolated_witness:
  "dynamic_authorize ratio_repr (\<lambda>_. []) (demo_identity [demo_binding ''o'']) (Some demo_principal) ''a.b'' [] []
   = dynamic_authorize ratio_repr (\<lambda>_. []) (demo_identity [demo_binding ''o'', demo_binding ''x'']) (Some demo_principal) ''a.b'' [] []"
  by (rule tenants_isolated [OF demo_identity_reachable])
    (auto simp: demo_identity_def demo_binding_def demo_principal_def)

end
