(* ===== verification/Scim_Laws.thy ===== *)
theory Scim_Laws
  imports Rbac_Laws
begin

text \<open>
  The two SCIM directories against one specification.  The specification keeps users and groups as maps by id; both the
  in-memory directory and the SQLite store refine it on requests whose identifiers are new and whose entries are strings,
  so they give the same answers and the same principals.  On a request that reuses an identifier they differ.
\<close>

section \<open>Specification\<close>

datatype scim_op =
    CreateUser uuid_text json_object
  | ReplaceUser uuid_text string json_object
  | DeleteUser string
  | CreateGroup uuid_text json_object
  | ReplaceGroup uuid_text string json_object
  | DeleteGroup string

datatype scim_answer = UserAnswer scim_user | GroupAnswer scim_group | DoneAnswer

record adir =
  ad_users :: "string \<rightharpoonup> scim_user"
  ad_groups :: "string \<rightharpoonup> scim_group"

definition user_named :: "string \<Rightarrow> adir \<Rightarrow> string \<Rightarrow> bool" where
  "user_named i a n \<longleftrightarrow> (\<exists>j x. ad_users a j = Some x \<and> j \<noteq> i \<and> su_user_name x = n)"

definition group_named :: "string \<Rightarrow> adir \<Rightarrow> string \<Rightarrow> bool" where
  "group_named i a n \<longleftrightarrow> (\<exists>j x. ad_groups a j = Some x \<and> j \<noteq> i \<and> sg_display_name x = n)"

definition put_user :: "scim_user \<Rightarrow> adir \<Rightarrow> scim_answer option \<times> adir" where
  "put_user u a = (if su_user_name u = [] \<or> user_named (su_id u) a (su_user_name u) then (None, a)
     else (Some (UserAnswer u), a\<lparr>ad_users := (ad_users a)(su_id u \<mapsto> user_row u)\<rparr>))"

definition put_group :: "scim_group \<Rightarrow> adir \<Rightarrow> scim_answer option \<times> adir" where
  "put_group g a = (if sg_display_name g = [] \<or> \<not> set (sg_members g) \<subseteq> dom (ad_users a) \<or> group_named (sg_id g) a (sg_display_name g) then (None, a)
     else (Some (GroupAnswer g), a\<lparr>ad_groups := (ad_groups a)(sg_id g \<mapsto> g)\<rparr>))"

definition drop_member :: "string \<Rightarrow> scim_group \<Rightarrow> scim_group" where
  "drop_member i g = g\<lparr>sg_members := filter (\<lambda>m. m \<noteq> i) (sg_members g)\<rparr>"

definition given_user :: "(pyfloat \<Rightarrow> string) \<Rightarrow> (pyval \<Rightarrow> string) \<Rightarrow> string \<Rightarrow> json_object \<Rightarrow> scim_user" where
  "given_user fr orr i payload = scim_user_of fr orr i (entry_strings (jget_or (JList []) ''emails'' payload)) payload"

definition given_group :: "(pyfloat \<Rightarrow> string) \<Rightarrow> (pyval \<Rightarrow> string) \<Rightarrow> string \<Rightarrow> json_object \<Rightarrow> scim_group" where
  "given_group fr orr i payload = \<lparr>sg_id = i, sg_display_name = strip (payload_text fr orr ''displayName'' payload),
     sg_members = frozen (entry_strings (jget_or (JList []) ''members'' payload)), sg_external_id = payload_external fr orr payload\<rparr>"

fun adir_step :: "(pyfloat \<Rightarrow> string) \<Rightarrow> (pyval \<Rightarrow> string) \<Rightarrow> scim_op \<Rightarrow> adir \<Rightarrow> scim_answer option \<times> adir" where
  "adir_step fr orr (CreateUser uid p) a = put_user (given_user fr orr (payload_id fr orr uid p) p) a"
| "adir_step fr orr (ReplaceUser uid i p) a = (if ad_users a i = None then (None, a) else put_user (given_user fr orr i p) a)"
| "adir_step fr orr (DeleteUser i) a = (if ad_users a i = None then (None, a)
     else (Some DoneAnswer, \<lparr>ad_users = (ad_users a)(i := None), ad_groups = map_option (drop_member i) \<circ> ad_groups a\<rparr>))"
| "adir_step fr orr (CreateGroup uid p) a = put_group (given_group fr orr (payload_id fr orr uid p) p) a"
| "adir_step fr orr (ReplaceGroup uid i p) a = (if ad_groups a i = None then (None, a) else put_group (given_group fr orr i p) a)"
| "adir_step fr orr (DeleteGroup i) a = (if ad_groups a i = None then (None, a) else (Some DoneAnswer, a\<lparr>ad_groups := (ad_groups a)(i := None)\<rparr>))"

text \<open>Requests on which the two directories agree.\<close>

definition plain_entries :: "json \<Rightarrow> bool" where
  "plain_entries raw \<longleftrightarrow> (case raw of JList items \<Rightarrow> list_all (\<lambda>item. case entry_value item of JStr _ \<Rightarrow> True | _ \<Rightarrow> False) items | _ \<Rightarrow> False)"

fun plain_op :: "(pyfloat \<Rightarrow> string) \<Rightarrow> (pyval \<Rightarrow> string) \<Rightarrow> scim_op \<Rightarrow> adir \<Rightarrow> bool" where
  "plain_op fr orr (CreateUser uid p) a \<longleftrightarrow> payload_id fr orr uid p \<noteq> [] \<and> payload_id fr orr uid p \<notin> dom (ad_users a)"
| "plain_op fr orr (ReplaceUser uid i p) a \<longleftrightarrow> plain_entries (jget_or (JList []) ''emails'' p)"
| "plain_op fr orr (DeleteUser i) a \<longleftrightarrow> True"
| "plain_op fr orr (CreateGroup uid p) a \<longleftrightarrow> payload_id fr orr uid p \<noteq> [] \<and> payload_id fr orr uid p \<notin> dom (ad_groups a)
     \<and> plain_entries (jget_or (JList []) ''members'' p)"
| "plain_op fr orr (ReplaceGroup uid i p) a \<longleftrightarrow> plain_entries (jget_or (JList []) ''members'' p)"
| "plain_op fr orr (DeleteGroup i) a \<longleftrightarrow> True"

text \<open>A key that is unique over a map.\<close>

definition unique_by :: "('a \<Rightarrow> string) \<Rightarrow> (string \<rightharpoonup> 'a) \<Rightarrow> bool" where
  "unique_by f m \<longleftrightarrow> (\<forall>i j x y. m i = Some x \<longrightarrow> m j = Some y \<longrightarrow> f x = f y \<longrightarrow> i = j)"

lemma unique_by_update: "unique_by f m \<Longrightarrow> (\<And>j x. m j = Some x \<Longrightarrow> j \<noteq> i \<Longrightarrow> f x \<noteq> f y) \<Longrightarrow> unique_by f (m(i \<mapsto> y))"
  unfolding unique_by_def by (metis fun_upd_apply option.inject)

lemma unique_by_delete: "unique_by f m \<Longrightarrow> unique_by f (m(i := None))"
  unfolding unique_by_def by (metis fun_upd_apply option.distinct(1))

lemma unique_by_map: "(\<And>x. f (h x) = f x) \<Longrightarrow> unique_by f m \<Longrightarrow> unique_by f (map_option h \<circ> m)"
  unfolding unique_by_def by auto

definition users_ok :: "(string \<rightharpoonup> scim_user) \<Rightarrow> bool" where
  "users_ok U \<longleftrightarrow> (\<forall>i u. U i = Some u \<longrightarrow> su_id u = i \<and> i \<noteq> []) \<and> unique_by su_user_name U"

definition groups_ok :: "string set \<Rightarrow> (string \<rightharpoonup> scim_group) \<Rightarrow> bool" where
  "groups_ok known G \<longleftrightarrow> (\<forall>i g. G i = Some g \<longrightarrow> sg_id g = i \<and> i \<noteq> [] \<and> frozen (sg_members g) = sg_members g \<and> set (sg_members g) \<subseteq> known)
     \<and> unique_by sg_display_name G"

definition adir_ok :: "adir \<Rightarrow> bool" where
  "adir_ok a \<longleftrightarrow> users_ok (ad_users a) \<and> groups_ok (dom (ad_users a)) (ad_groups a)"

lemma user_row_simps [simp]:
  "su_id (user_row u) = su_id u" "su_user_name (user_row u) = su_user_name u" "su_active (user_row u) = su_active u"
  "su_display_name (user_row u) = su_display_name u" "su_emails (user_row u) = su_emails u" "su_external_id (user_row u) = su_external_id u"
  by (simp_all add: user_row_def)

lemma given_simps [simp]:
  "su_id (given_user fr orr i p) = i" "sg_id (given_group fr orr i p) = i"
  "su_user_name (given_user fr orr i p) = strip (payload_text fr orr ''userName'' p)"
  "sg_display_name (given_group fr orr i p) = strip (payload_text fr orr ''displayName'' p)"
  "sg_members (given_group fr orr i p) = frozen (entry_strings (jget_or (JList []) ''members'' p))"
  by (simp_all add: given_user_def given_group_def scim_user_of_def)

lemma drop_member_simps [simp]:
  "sg_id (drop_member i g) = sg_id g" "sg_display_name (drop_member i g) = sg_display_name g" "sg_external_id (drop_member i g) = sg_external_id g"
  by (simp_all add: drop_member_def)

lemma frozen_iff: "frozen xs = xs \<longleftrightarrow> sorted xs \<and> distinct xs"
  unfolding frozen_def by (metis distinct_remdups distinct_remdups_id distinct_sort sorted_sort sorted_sort_id)

lemma frozen_filter: "frozen xs = xs \<Longrightarrow> frozen (filter P xs) = filter P xs"
  by (simp add: frozen_iff sorted_wrt_filter)

lemma groups_ok_mono: "groups_ok known G \<Longrightarrow> known \<subseteq> known' \<Longrightarrow> groups_ok known' G"
  unfolding groups_ok_def by blast

lemma adir_ok_put_user:
  assumes "adir_ok a" "su_id u \<noteq> []"
  shows "adir_ok (snd (put_user u a))"
proof (cases "su_user_name u = [] \<or> user_named (su_id u) a (su_user_name u)")
  case False
  have "unique_by su_user_name ((ad_users a)(su_id u \<mapsto> user_row u))"
    by (rule unique_by_update) (use assms(1) False in \<open>auto simp: adir_ok_def users_ok_def user_named_def\<close>)
  moreover have "groups_ok (dom ((ad_users a)(su_id u \<mapsto> user_row u))) (ad_groups a)"
    by (rule groups_ok_mono [of "dom (ad_users a)"]) (use assms(1) in \<open>auto simp: adir_ok_def\<close>)
  ultimately show ?thesis using assms False by (simp add: put_user_def adir_ok_def users_ok_def)
qed (use assms(1) in \<open>simp add: put_user_def\<close>)

lemma adir_ok_put_group:
  assumes "adir_ok a" "sg_id g \<noteq> []" "frozen (sg_members g) = sg_members g"
  shows "adir_ok (snd (put_group g a))"
proof (cases "sg_display_name g = [] \<or> \<not> set (sg_members g) \<subseteq> dom (ad_users a) \<or> group_named (sg_id g) a (sg_display_name g)")
  case False
  have "unique_by sg_display_name ((ad_groups a)(sg_id g \<mapsto> g))"
    by (rule unique_by_update) (use assms(1) False in \<open>auto simp: adir_ok_def groups_ok_def group_named_def\<close>)
  then show ?thesis using assms False by (simp add: put_group_def adir_ok_def groups_ok_def)
qed (use assms(1) in \<open>simp add: put_group_def\<close>)

lemma adir_ok_delete_user:
  assumes "adir_ok a"
  shows "adir_ok \<lparr>ad_users = (ad_users a)(i := None), ad_groups = map_option (drop_member i) \<circ> ad_groups a\<rparr>"
proof -
  have "frozen (sg_members (drop_member i g)) = sg_members (drop_member i g) \<and> set (sg_members (drop_member i g)) \<subseteq> dom (ad_users a) - {i}"
    if "ad_groups a j = Some g" for j g
    using assms that by (auto simp: adir_ok_def groups_ok_def drop_member_def frozen_filter subset_iff)
  moreover have "unique_by sg_display_name (map_option (drop_member i) \<circ> ad_groups a)"
    using assms by (intro unique_by_map) (simp_all add: adir_ok_def groups_ok_def)
  ultimately show ?thesis using assms by (auto simp: adir_ok_def users_ok_def groups_ok_def unique_by_delete)
qed

lemma adir_keys: "adir_ok a \<Longrightarrow> ad_users a i = Some u \<Longrightarrow> i \<noteq> []" "adir_ok a \<Longrightarrow> ad_groups a i = Some g \<Longrightarrow> i \<noteq> []"
  by (auto simp: adir_ok_def users_ok_def groups_ok_def)

lemma adir_ok_step:
  assumes "adir_ok a" "plain_op fr orr op a"
  shows "adir_ok (snd (adir_step fr orr op a))"
proof (cases op)
  case (DeleteUser i)
  then show ?thesis using assms(1) adir_ok_delete_user [OF assms(1)] by simp
next
  case (DeleteGroup i)
  then show ?thesis using assms(1) by (simp add: adir_ok_def groups_ok_def unique_by_delete)
next
  case (ReplaceUser uid i p)
  then show ?thesis using assms(1) adir_keys(1) [OF assms(1)] by (auto intro!: adir_ok_put_user)
next
  case (ReplaceGroup uid i p)
  then show ?thesis using assms(1) adir_keys(2) [OF assms(1)] by (auto intro!: adir_ok_put_group)
qed (use assms in \<open>simp_all add: adir_ok_put_user adir_ok_put_group\<close>)

fun plain_ops :: "(pyfloat \<Rightarrow> string) \<Rightarrow> (pyval \<Rightarrow> string) \<Rightarrow> scim_op list \<Rightarrow> adir \<Rightarrow> bool" where
  "plain_ops fr orr [] a \<longleftrightarrow> True"
| "plain_ops fr orr (op # ops) a \<longleftrightarrow> plain_op fr orr op a \<and> plain_ops fr orr ops (snd (adir_step fr orr op a))"

fun run_ops :: "('op \<Rightarrow> 's \<Rightarrow> 'r \<times> 's) \<Rightarrow> 'op list \<Rightarrow> 's \<Rightarrow> 'r list \<times> 's" where
  "run_ops f [] s = ([], s)"
| "run_ops f (op # ops) s = (case f op s of (r, s') \<Rightarrow> case run_ops f ops s' of (rs, s'') \<Rightarrow> (r # rs, s''))"

definition adir_init :: adir where
  "adir_init = \<lparr>ad_users = Map.empty, ad_groups = Map.empty\<rparr>"

definition adir_user :: "string \<Rightarrow> adir \<Rightarrow> exc + scim_user" where
  "adir_user i a = (case ad_users a i of None \<Rightarrow> Inl (KeyError (''SCIM user not found: '' @ i)) | Some u \<Rightarrow> Inr u)"

text \<open>What a directory promises.\<close>

locale scim_store =
  fixes fr :: "pyfloat \<Rightarrow> string" and orr :: "pyval \<Rightarrow> string" and ok :: "'s \<Rightarrow> bool" and view :: "'s \<Rightarrow> adir"
    and step :: "scim_op \<Rightarrow> 's \<Rightarrow> scim_answer option \<times> 's" and init :: 's
    and principal_for :: "string \<Rightarrow> org_id \<Rightarrow> (string \<times> string list) list \<Rightarrow> 's \<Rightarrow> exc + principal"
  assumes init: "ok init" "view init = adir_init"
    and sim: "ok s \<Longrightarrow> plain_op fr orr op (view s) \<Longrightarrow> step op s = (r, s') \<Longrightarrow> ok s' \<and> adir_step fr orr op (view s) = (r, view s')"
    and principal: "ok s \<Longrightarrow> \<exists>gs. set gs = ran (ad_groups (view s)) \<and> principal_for i org m s = principal_of i org m (adir_user i (view s)) (Inr gs)"
begin

lemma runs_from:
  "ok s \<Longrightarrow> plain_ops fr orr ops (view s) \<Longrightarrow> run_ops step ops s = (rs, s') \<Longrightarrow>
     ok s' \<and> run_ops (adir_step fr orr) ops (view s) = (rs, view s')"
proof (induction ops arbitrary: s rs s')
  case (Cons op ops)
  obtain r s1 where 1: "step op s = (r, s1)" by (cases "step op s")
  obtain rs1 s2 where 2: "run_ops step ops s1 = (rs1, s2)" by (cases "run_ops step ops s1")
  have "ok s1" "adir_step fr orr op (view s) = (r, view s1)" using sim [OF Cons.prems(1) _ 1] Cons.prems(2) by simp_all
  then show ?case using Cons.IH [OF _ _ 2] Cons.prems 1 2 by auto
qed simp

lemmas runs = runs_from [OF init(1), unfolded init(2)]

end

text \<open>Why a request is refused.  The directories report the first two alike; a name that is taken by somebody else is a
  \<^verbatim>\<open>ValueError\<close> of both on a creation, but on a replacement each directory has its own exception.\<close>

datatype refusal = NotFound | Invalid | Conflict

fun refusal_of :: "(pyfloat \<Rightarrow> string) \<Rightarrow> (pyval \<Rightarrow> string) \<Rightarrow> scim_op \<Rightarrow> adir \<Rightarrow> refusal" where
  "refusal_of fr orr (ReplaceUser uid i p) a = (if ad_users a i = None then NotFound
     else if su_user_name (given_user fr orr i p) = [] then Invalid else Conflict)"
| "refusal_of fr orr (ReplaceGroup uid i p) a = (if ad_groups a i = None then NotFound
     else if sg_display_name (given_group fr orr i p) = [] \<or> \<not> set (sg_members (given_group fr orr i p)) \<subseteq> dom (ad_users a) then Invalid else Conflict)"
| "refusal_of fr orr (DeleteUser i) a = NotFound"
| "refusal_of fr orr (DeleteGroup i) a = NotFound"
| "refusal_of fr orr (CreateUser uid p) a = Invalid"
| "refusal_of fr orr (CreateGroup uid p) a = Invalid"

definition spec_step :: "(pyfloat \<Rightarrow> string) \<Rightarrow> (pyval \<Rightarrow> string) \<Rightarrow> scim_op \<Rightarrow> adir \<Rightarrow> (refusal + scim_answer) \<times> adir" where
  "spec_step fr orr op a = (case adir_step fr orr op a of (None, a') \<Rightarrow> (Inl (refusal_of fr orr op a), a') | (Some x, a') \<Rightarrow> (Inr x, a'))"

definition answer :: "('a \<Rightarrow> scim_answer) \<Rightarrow> exc + 'a \<Rightarrow> scim_answer option" where
  "answer f r = (case r of Inl _ \<Rightarrow> None | Inr x \<Rightarrow> Some (f x))"

lemma answer_simps [simp]: "answer f (Inl e) = None" "answer f (Inr x) = Some (f x)"
  by (simp_all add: answer_def)

lemma answer_id: "answer id (map_sum id f r) = answer f r"
  by (cases r) simp_all

text \<open>A directory whose exceptions are known: the operations as they are, and the class each refusal is raised as.\<close>

locale scim_faces = scim_store +
  fixes operation :: "scim_op \<Rightarrow> 'a \<Rightarrow> (exc + scim_answer) \<times> 'a" and face :: "refusal \<Rightarrow> string"
  assumes operation_step: "step op s = map_prod (answer id) id (operation op s)"
    and refused: "ok s \<Longrightarrow> plain_op fr orr op (view s) \<Longrightarrow> operation op s = (Inl e, s') \<Longrightarrow> exc_type_name e = face (refusal_of fr orr op (view s))"
begin

lemma operation_sim:
  assumes "ok s" "plain_op fr orr op (view s)" "operation op s = (r, s')"
  shows "\<exists>out. spec_step fr orr op (view s) = (out, view s') \<and> map_sum exc_type_name id r = map_sum face id out"
proof -
  have "step op s = (answer id r, s')" using assms(3) by (simp add: operation_step)
  from sim [OF assms(1,2) this] have "adir_step fr orr op (view s) = (answer id r, view s')" by simp
  then show ?thesis using refused [OF assms(1,2)] assms(3) by (cases r) (auto simp: spec_step_def)
qed

lemma faces_from:
  "ok s \<Longrightarrow> plain_ops fr orr ops (view s) \<Longrightarrow> run_ops operation ops s = (rs, s') \<Longrightarrow>
     \<exists>outs. run_ops (spec_step fr orr) ops (view s) = (outs, view s') \<and> map (map_sum exc_type_name id) rs = map (map_sum face id) outs \<and> ok s'"
proof (induction ops arbitrary: s rs s')
  case (Cons op ops)
  obtain r s1 where 1: "operation op s = (r, s1)" by (cases "operation op s")
  obtain rs1 s2 where 2: "run_ops operation ops s1 = (rs1, s2)" by (cases "run_ops operation ops s1")
  have st: "step op s = (answer id r, s1)" using 1 by (simp add: operation_step)
  have a: "ok s1" "adir_step fr orr op (view s) = (answer id r, view s1)" using sim [OF Cons.prems(1) _ st] Cons.prems(2) by simp_all
  obtain out where out: "spec_step fr orr op (view s) = (out, view s1)" "map_sum exc_type_name id r = map_sum face id out"
    using operation_sim [OF Cons.prems(1) _ 1] Cons.prems(2) by auto
  have "plain_ops fr orr ops (view s1)" using Cons.prems(2) a(2) by simp
  from Cons.IH [OF a(1) this 2] obtain outs where "run_ops (spec_step fr orr) ops (view s1) = (outs, view s2)"
    "map (map_sum exc_type_name id) rs1 = map (map_sum face id) outs" "ok s2" by blast
  moreover have "rs = r # rs1" "s' = s2" using Cons.prems(3) 1 2 by simp_all
  ultimately show ?case using out by (intro exI [of _ "out # outs"] conjI) (simp_all only: list.map run_ops.simps prod.case)
qed simp

lemmas faces = faces_from [OF init(1), unfolded init(2)]

end

lemma frozen_names: "set gs = set gs' \<Longrightarrow> frozen (map f (filter P gs)) = frozen (map f (filter P gs'))"
  by (rule frozen_eqI) auto

lemma principal_of_set: "set gs = set gs' \<Longrightarrow> principal_of i org m u (Inr gs) = principal_of i org m u (Inr gs')"
  using frozen_names [of gs gs'] by (auto simp: principal_of_def Let_def intro!: arg_cong [of _ _ "ebind u"])

lemma principal_of_row: "principal_of i org m (map_sum id user_row u) gs = principal_of i org m u gs"
  by (cases u) (simp_all add: principal_of_def)

section \<open>The in-memory directory\<close>

fun dir_step :: "(pyfloat \<Rightarrow> string) \<Rightarrow> (pyval \<Rightarrow> string) \<Rightarrow> scim_op \<Rightarrow> directory \<Rightarrow> scim_answer option \<times> directory" where
  "dir_step fr orr (CreateUser uid p) d = map_prod (answer UserAnswer) id (dir_create_user fr orr uid p d)"
| "dir_step fr orr (ReplaceUser uid i p) d = map_prod (answer UserAnswer) id (dir_replace_user fr orr uid i p d)"
| "dir_step fr orr (DeleteUser i) d = map_prod (answer (\<lambda>_. DoneAnswer)) id (dir_delete_user i d)"
| "dir_step fr orr (CreateGroup uid p) d = map_prod (answer GroupAnswer) id (dir_create_group fr orr uid p d)"
| "dir_step fr orr (ReplaceGroup uid i p) d = map_prod (answer GroupAnswer) id (dir_replace_group fr orr uid i p d)"
| "dir_step fr orr (DeleteGroup i) d = map_prod (answer (\<lambda>_. DoneAnswer)) id (dir_delete_group i d)"

definition dir_view :: "directory \<Rightarrow> adir" where
  "dir_view d = \<lparr>ad_users = map_option user_row \<circ> map_of (dir_users d), ad_groups = map_of (dir_groups d)\<rparr>"

definition dir_keys :: "directory \<Rightarrow> bool" where
  "dir_keys d \<longleftrightarrow> distinct (map fst (dir_users d)) \<and> distinct (map fst (dir_groups d))"

definition dir_ok :: "directory \<Rightarrow> bool" where
  "dir_ok d \<longleftrightarrow> dir_keys d \<and> adir_ok (dir_view d)"

lemma dir_view_simps [simp]:
  "ad_users (dir_view d) i = map_option user_row (map_of (dir_users d) i)" "ad_groups (dir_view d) = map_of (dir_groups d)"
  "dom (ad_users (dir_view d)) = dom (map_of (dir_users d))"
  by (auto simp: dir_view_def)

lemma list_ex_map_of:
  assumes "distinct (map fst xs)" "map_of xs i = None"
  shows "list_ex (\<lambda>(j, x). P x) xs \<longleftrightarrow> (\<exists>j x. map_of xs j = Some x \<and> j \<noteq> i \<and> P x)"
proof -
  have "(\<exists>j x. map_of xs j = Some x \<and> j \<noteq> i \<and> P x) \<longleftrightarrow> (\<exists>j x. (j, x) \<in> set xs \<and> j \<noteq> i \<and> P x)"
    using assms(1) by simp
  also have "\<dots> \<longleftrightarrow> (\<exists>j x. (j, x) \<in> set xs \<and> P x)"
    using assms(2) by (force simp: map_of_eq_None_iff)
  finally show ?thesis by (auto simp: list_ex_iff)
qed

lemma dir_named_view: "user_named i (dir_view d) n \<longleftrightarrow> (\<exists>j x. map_of (dir_users d) j = Some x \<and> j \<noteq> i \<and> su_user_name x = n)"
  unfolding user_named_def dir_view_simps map_option_eq_Some by (metis user_row_simps(2))

lemma dir_user_named:
  "dir_keys d \<Longrightarrow> map_of (dir_users d) i = None \<Longrightarrow> list_ex (\<lambda>(j, x). su_user_name x = n) (dir_users d) \<longleftrightarrow> user_named i (dir_view d) n"
  unfolding dir_keys_def dir_named_view by (rule list_ex_map_of) simp_all

lemma dir_group_named:
  "dir_keys d \<Longrightarrow> map_of (dir_groups d) i = None \<Longrightarrow> list_ex (\<lambda>(j, x). sg_display_name x = n) (dir_groups d) \<longleftrightarrow> group_named i (dir_view d) n"
  unfolding dir_keys_def group_named_def by (subst list_ex_map_of) auto

lemma dir_create_user_put:
  assumes "dir_keys d" "map_of (dir_users d) (payload_id fr orr uid p) = None"
  defines "u \<equiv> given_user fr orr (payload_id fr orr uid p) p"
  shows "su_user_name u = [] \<or> user_named (su_id u) (dir_view d) (su_user_name u) \<Longrightarrow> \<exists>e. dir_create_user fr orr uid p d = (Inl e, d)"
    and "\<not> (su_user_name u = [] \<or> user_named (su_id u) (dir_view d) (su_user_name u)) \<Longrightarrow>
      dir_create_user fr orr uid p d = (Inr u, d\<lparr>dir_users := AList.update (su_id u) u (dir_users d)\<rparr>)"
  using dir_user_named [OF assms(1,2)] by (auto simp: dir_create_user_def given_user_def [symmetric] Let_def u_def)

lemma find_unknown: "find (\<lambda>m. map_of us m = None) ms = None \<longleftrightarrow> set ms \<subseteq> dom (map_of us)"
  by (auto simp: find_None_conv)

lemma dir_create_group_put:
  assumes "dir_keys d" "map_of (dir_groups d) (payload_id fr orr uid p) = None"
  defines "g \<equiv> given_group fr orr (payload_id fr orr uid p) p"
  shows "sg_display_name g = [] \<or> \<not> set (sg_members g) \<subseteq> dom (map_of (dir_users d)) \<or> group_named (sg_id g) (dir_view d) (sg_display_name g) \<Longrightarrow>
      \<exists>e. dir_create_group fr orr uid p d = (Inl e, d)"
    and "\<not> (sg_display_name g = [] \<or> \<not> set (sg_members g) \<subseteq> dom (map_of (dir_users d)) \<or> group_named (sg_id g) (dir_view d) (sg_display_name g)) \<Longrightarrow>
      dir_create_group fr orr uid p d = (Inr g, d\<lparr>dir_groups := AList.update (sg_id g) g (dir_groups d)\<rparr>)"
  using dir_group_named [OF assms(1,2)] find_unknown [of "dir_users d" "sg_members g"]
  by (auto simp: dir_create_group_def given_group_def Let_def g_def split: option.split)

text \<open>Setting the id in a payload changes nothing else.\<close>

lemma merged_payload:
  "payload_id fr orr uid (AList.update ''id'' (JStr i) p) = (if i = [] then uid else i)"
  "given_user fr orr j (AList.update ''id'' (JStr i) p) = given_user fr orr j p"
  "given_group fr orr j (AList.update ''id'' (JStr i) p) = given_group fr orr j p"
proof -
  have "filter (\<lambda>(k, v). k \<notin> set core_fields) (AList.update ''id'' x p) = filter (\<lambda>(k, v). k \<notin> set core_fields) p" for x :: json
    by (induction p) (auto simp: core_fields_def)
  then show "given_user fr orr j (AList.update ''id'' (JStr i) p) = given_user fr orr j p"
    by (simp add: given_user_def scim_user_of_def payload_text_def payload_external_def jget_or_def)
qed (simp_all add: payload_id_def given_group_def payload_text_def payload_external_def jget_or_def jstr_def)

lemma dir_keys_update [simp]:
  "dir_keys (d\<lparr>dir_users := AList.update i u (dir_users d)\<rparr>) \<longleftrightarrow> distinct (map fst (AList.update i u (dir_users d))) \<and> distinct (map fst (dir_groups d))"
  "dir_keys (d\<lparr>dir_groups := AList.update i g (dir_groups d)\<rparr>) \<longleftrightarrow> distinct (map fst (dir_users d)) \<and> distinct (map fst (AList.update i g (dir_groups d)))"
  by (simp_all add: dir_keys_def)

lemma dir_view_put:
  "dir_view (d\<lparr>dir_users := AList.update i u us\<rparr>) = (dir_view (d\<lparr>dir_users := us\<rparr>))\<lparr>ad_users := (ad_users (dir_view (d\<lparr>dir_users := us\<rparr>)))(i \<mapsto> user_row u)\<rparr>"
  "dir_view (d\<lparr>dir_groups := AList.update i g gs\<rparr>) = (dir_view (d\<lparr>dir_groups := gs\<rparr>))\<lparr>ad_groups := (map_of gs)(i \<mapsto> g)\<rparr>"
  "dir_view (d\<lparr>dir_users := AList.delete i us\<rparr>) = (dir_view (d\<lparr>dir_users := us\<rparr>))\<lparr>ad_users := (ad_users (dir_view (d\<lparr>dir_users := us\<rparr>)))(i := None)\<rparr>"
  "dir_view (d\<lparr>dir_groups := AList.delete i gs\<rparr>) = (dir_view (d\<lparr>dir_groups := gs\<rparr>))\<lparr>ad_groups := (map_of gs)(i := None)\<rparr>"
  by (auto simp: dir_view_def)

lemma dir_sim_create_user:
  assumes "dir_keys d" "map_of (dir_users d) (payload_id fr orr uid p) = None" "dir_create_user fr orr uid p d = (r, d')"
  shows "dir_keys d' \<and> put_user (given_user fr orr (payload_id fr orr uid p) p) (dir_view d) = (answer UserAnswer r, dir_view d')"
  using dir_create_user_put [OF assms(1,2)] assms
  by (auto simp: put_user_def dir_view_put distinct_update dir_keys_def)

lemma dir_sim_create_group:
  assumes "dir_keys d" "map_of (dir_groups d) (payload_id fr orr uid p) = None" "dir_create_group fr orr uid p d = (r, d')"
  shows "dir_keys d' \<and> put_group (given_group fr orr (payload_id fr orr uid p) p) (dir_view d) = (answer GroupAnswer r, dir_view d')"
proof -
  define g where "g = given_group fr orr (payload_id fr orr uid p) p"
  note put = dir_create_group_put [OF assms(1,2), folded g_def]
  show ?thesis
  proof (cases "sg_display_name g = [] \<or> \<not> set (sg_members g) \<subseteq> dom (map_of (dir_users d)) \<or> group_named (sg_id g) (dir_view d) (sg_display_name g)")
    case True
    then obtain e where "dir_create_group fr orr uid p d = (Inl e, d)" using put(1) by blast
    moreover have "put_group g (dir_view d) = (None, dir_view d)" using True unfolding put_group_def dir_view_simps by (rule if_P)
    ultimately show ?thesis using assms by (auto simp: g_def)
  next
    case False
    then have "put_group g (dir_view d) = (Some (GroupAnswer g), (dir_view d)\<lparr>ad_groups := (map_of (dir_groups d))(sg_id g \<mapsto> g)\<rparr>)"
      unfolding put_group_def dir_view_simps by (rule if_not_P)
    then show ?thesis using put(2) [OF False] assms by (auto simp: dir_view_put distinct_update dir_keys_def g_def [symmetric])
  qed
qed

lemma put_user_forget: "put_user u (a\<lparr>ad_users := (ad_users a)(su_id u := None)\<rparr>)
    = (if fst (put_user u a) = None then (None, a\<lparr>ad_users := (ad_users a)(su_id u := None)\<rparr>) else put_user u a)"
proof -
  have "user_named (su_id u) (a\<lparr>ad_users := (ad_users a)(su_id u := None)\<rparr>) n = user_named (su_id u) a n" for n
    by (auto simp: user_named_def)
  then show ?thesis by (simp add: put_user_def)
qed

lemma put_group_forget: "put_group g (a\<lparr>ad_groups := (ad_groups a)(sg_id g := None)\<rparr>)
    = (if fst (put_group g a) = None then (None, a\<lparr>ad_groups := (ad_groups a)(sg_id g := None)\<rparr>) else put_group g a)"
proof -
  have "group_named (sg_id g) (a\<lparr>ad_groups := (ad_groups a)(sg_id g := None)\<rparr>) n = group_named (sg_id g) a n" for n
    by (auto simp: group_named_def)
  then show ?thesis by (simp add: put_group_def)
qed

lemma dir_sim_replace_user:
  assumes "dir_keys d" "i \<noteq> []" "map_of (dir_users d) i = Some u0" "dir_replace_user fr orr uid i p d = (r, d')"
  shows "dir_keys d' \<and> put_user (given_user fr orr i p) (dir_view d) = (answer UserAnswer r, dir_view d')"
proof -
  define d1 where "d1 = d\<lparr>dir_users := AList.delete i (dir_users d)\<rparr>"
  obtain q d2 where c: "dir_create_user fr orr uid (AList.update ''id'' (JStr i) p) d1 = (q, d2)" by fastforce
  have "dir_keys d1" "map_of (dir_users d1) i = None" using assms(1) by (simp_all add: d1_def dir_keys_def distinct_delete)
  then have 1: "dir_keys d2" "put_user (given_user fr orr i p) (dir_view d1) = (answer UserAnswer q, dir_view d2)"
    using dir_sim_create_user [OF _ _ c] assms(2) by (simp_all add: merged_payload)
  have v1: "dir_view d1 = (dir_view d)\<lparr>ad_users := (ad_users (dir_view d))(i := None)\<rparr>" by (simp add: d1_def dir_view_put)
  note forget = put_user_forget [of "given_user fr orr i p" "dir_view d", unfolded given_simps, folded v1]
  show ?thesis
  proof (cases q)
    case (Inl e)
    then have "fst (put_user (given_user fr orr i p) (dir_view d)) = None" and d2: "dir_view d2 = dir_view d1"
      using forget 1(2) by (cases "put_user (given_user fr orr i p) (dir_view d)"; auto split: if_splits)+
    then have "put_user (given_user fr orr i p) (dir_view d) = (None, dir_view d)" by (auto simp: put_user_def split: if_splits)
    moreover have d': "r = Inl e" "d' = d2\<lparr>dir_users := AList.update i u0 (dir_users d2)\<rparr>"
      using assms(3,4) c Inl by (simp_all add: dir_replace_user_def d1_def)
    moreover have "dir_view d' = dir_view d"
      using d2 v1 assms(3) by (simp add: d'(2) dir_view_put) (auto simp: dir_view_def)
    ultimately show ?thesis using 1(1) by (simp add: distinct_update dir_keys_def)
  next
    case (Inr u)
    then have "r = Inr u" "d' = d2" using assms(3,4) c by (simp_all add: dir_replace_user_def d1_def)
    then show ?thesis using forget 1 Inr by (auto split: if_splits)
  qed
qed

lemma dir_sim_replace_group:
  assumes "dir_keys d" "i \<noteq> []" "map_of (dir_groups d) i = Some g0" "dir_replace_group fr orr uid i p d = (r, d')"
  shows "dir_keys d' \<and> put_group (given_group fr orr i p) (dir_view d) = (answer GroupAnswer r, dir_view d')"
proof -
  define d1 where "d1 = d\<lparr>dir_groups := AList.delete i (dir_groups d)\<rparr>"
  obtain q d2 where c: "dir_create_group fr orr uid (AList.update ''id'' (JStr i) p) d1 = (q, d2)" by fastforce
  have "dir_keys d1" "map_of (dir_groups d1) i = None" using assms(1) by (simp_all add: d1_def dir_keys_def distinct_delete)
  then have 1: "dir_keys d2" "put_group (given_group fr orr i p) (dir_view d1) = (answer GroupAnswer q, dir_view d2)"
    using dir_sim_create_group [OF _ _ c] assms(2) by (simp_all add: merged_payload)
  have v1: "dir_view d1 = (dir_view d)\<lparr>ad_groups := (ad_groups (dir_view d))(i := None)\<rparr>" by (simp add: d1_def dir_view_put)
  note forget = put_group_forget [of "given_group fr orr i p" "dir_view d", unfolded given_simps, folded v1]
  show ?thesis
  proof (cases q)
    case (Inl e)
    then have "fst (put_group (given_group fr orr i p) (dir_view d)) = None" and d2: "dir_view d2 = dir_view d1"
      using forget 1(2) by (cases "put_group (given_group fr orr i p) (dir_view d)"; auto split: if_splits)+
    then have "put_group (given_group fr orr i p) (dir_view d) = (None, dir_view d)" by (auto simp: put_group_def split: if_splits)
    moreover have d': "r = Inl e" "d' = d2\<lparr>dir_groups := AList.update i g0 (dir_groups d2)\<rparr>"
      using assms(3,4) c Inl by (simp_all add: dir_replace_group_def d1_def)
    moreover have "dir_view d' = dir_view d"
      using d2 v1 assms(3) by (simp add: d'(2) dir_view_put) (auto simp: dir_view_def)
    ultimately show ?thesis using 1(1) by (simp add: distinct_update dir_keys_def)
  next
    case (Inr g)
    then have "r = Inr g" "d' = d2" using assms(3,4) c by (simp_all add: dir_replace_group_def d1_def)
    then show ?thesis using forget 1 Inr by (auto split: if_splits)
  qed
qed

lemma dir_sim_delete_user:
  assumes "dir_keys d" "dir_delete_user i d = (r, d')"
  shows "dir_keys d' \<and> adir_step fr orr (DeleteUser i) (dir_view d) = (answer (\<lambda>_. DoneAnswer) r, dir_view d')"
proof (cases "map_of (dir_users d) i")
  case None
  then show ?thesis using assms by (auto simp: dir_delete_user_def)
next
  case (Some u)
  define gs where "gs = map (\<lambda>(j, g). (j, if i \<in> set (sg_members g) then g\<lparr>sg_members := filter (\<lambda>m. m \<noteq> i) (sg_members g)\<rparr> else g)) (dir_groups d)"
  have drop: "(if i \<in> set (sg_members g) then g\<lparr>sg_members := filter (\<lambda>m. m \<noteq> i) (sg_members g)\<rparr> else g) = drop_member i g" for g
    by (cases g) (auto simp: drop_member_def intro: filter_True [symmetric])
  have gs: "gs = map (\<lambda>(j, g). (j, drop_member i g)) (dir_groups d)" by (simp add: gs_def drop)
  have d': "r = Inr ()" "d' = \<lparr>dir_users = AList.delete i (dir_users d), dir_groups = gs\<rparr>"
    using assms(2) Some by (auto simp: dir_delete_user_def gs_def)
  have "map_of gs = map_option (drop_member i) \<circ> map_of (dir_groups d)" by (simp add: gs map_of_map)
  then have "dir_view d' = \<lparr>ad_users = (ad_users (dir_view d))(i := None), ad_groups = map_option (drop_member i) \<circ> map_of (dir_groups d)\<rparr>"
    by (auto simp: d' dir_view_def)
  moreover have "map fst gs = map fst (dir_groups d)" by (simp add: gs split_beta comp_def)
  ultimately show ?thesis using Some assms(1) d' by (simp add: dir_keys_def distinct_delete)
qed

lemma dir_sim_delete_group:
  "dir_keys d \<Longrightarrow> dir_delete_group i d = (r, d') \<Longrightarrow>
     dir_keys d' \<and> adir_step fr orr (DeleteGroup i) (dir_view d) = (answer (\<lambda>_. DoneAnswer) r, dir_view d')"
  by (auto simp: dir_delete_group_def dir_view_put dir_keys_def distinct_delete split: if_splits)

lemma dir_sim:
  assumes "dir_ok d" "plain_op fr orr op (dir_view d)" "dir_step fr orr op d = (r, d')"
  shows "dir_ok d' \<and> adir_step fr orr op (dir_view d) = (r, dir_view d')"
proof -
  have k: "dir_keys d" and a: "adir_ok (dir_view d)" using assms(1) by (simp_all add: dir_ok_def)
  have "dir_keys d' \<and> adir_step fr orr op (dir_view d) = (r, dir_view d')"
  proof (cases op)
    case (CreateUser uid p)
    obtain q where "dir_create_user fr orr uid p d = (q, d')" "r = answer UserAnswer q"
      using assms(3) CreateUser by (cases "dir_create_user fr orr uid p d") auto
    then show ?thesis using dir_sim_create_user [OF k] assms(2) CreateUser by (auto simp: dom_def)
  next
    case (CreateGroup uid p)
    obtain q where "dir_create_group fr orr uid p d = (q, d')" "r = answer GroupAnswer q"
      using assms(3) CreateGroup by (cases "dir_create_group fr orr uid p d") auto
    then show ?thesis using dir_sim_create_group [OF k] assms(2) CreateGroup by (auto simp: dom_def)
  next
    case (ReplaceUser uid i p)
    obtain q where q: "dir_replace_user fr orr uid i p d = (q, d')" "r = answer UserAnswer q"
      using assms(3) ReplaceUser by (cases "dir_replace_user fr orr uid i p d") auto
    show ?thesis
    proof (cases "map_of (dir_users d) i")
      case None
      then show ?thesis using k q ReplaceUser by (auto simp: dir_replace_user_def)
    next
      case (Some u)
      then have "i \<noteq> []" using adir_keys(1) [OF a, of i] by simp
      then show ?thesis using dir_sim_replace_user [OF k _ Some q(1)] q(2) Some ReplaceUser by simp
    qed
  next
    case (ReplaceGroup uid i p)
    obtain q where q: "dir_replace_group fr orr uid i p d = (q, d')" "r = answer GroupAnswer q"
      using assms(3) ReplaceGroup by (cases "dir_replace_group fr orr uid i p d") auto
    show ?thesis
    proof (cases "map_of (dir_groups d) i")
      case None
      then show ?thesis using k q ReplaceGroup by (auto simp: dir_replace_group_def)
    next
      case (Some g)
      then have "i \<noteq> []" using adir_keys(2) [OF a, of i] by simp
      then show ?thesis using dir_sim_replace_group [OF k _ Some q(1)] q(2) Some ReplaceGroup by simp
    qed
  next
    case (DeleteUser i)
    then show ?thesis using dir_sim_delete_user [OF k, of i] assms(3) by (cases "dir_delete_user i d") auto
  next
    case (DeleteGroup i)
    then show ?thesis using dir_sim_delete_group [OF k, of i] assms(3) by (cases "dir_delete_group i d") auto
  qed
  then show ?thesis using adir_ok_step [OF a assms(2)] by (simp add: dir_ok_def)
qed

lemma dir_principal:
  assumes "dir_ok d"
  shows "\<exists>gs. set gs = ran (ad_groups (dir_view d)) \<and> dir_principal_for i org m d = principal_of i org m (adir_user i (dir_view d)) (Inr gs)"
proof (intro exI conjI)
  show "set (sort_key sg_display_name (map snd (dir_groups d))) = ran (ad_groups (dir_view d))"
    using assms by (simp add: dir_ok_def dir_keys_def ran_distinct)
  have "adir_user i (dir_view d) = map_sum id user_row (dir_get_user i d)"
    by (simp add: adir_user_def dir_get_user_def split: option.split)
  then show "dir_principal_for i org m d = principal_of i org m (adir_user i (dir_view d)) (Inr (sort_key sg_display_name (map snd (dir_groups d))))"
    by (simp add: dir_principal_for_def dir_list_groups_def page_def principal_of_row)
qed

lemma adir_ok_init: "adir_ok adir_init"
  by (simp add: adir_ok_def adir_init_def users_ok_def groups_ok_def unique_by_def)

interpretation memory_scim: scim_store fr orr dir_ok dir_view "dir_step fr orr" directory_init dir_principal_for
proof unfold_locales
  show v: "dir_view directory_init = adir_init" by (simp add: dir_view_def directory_init_def adir_init_def comp_def)
  show "dir_ok directory_init" using adir_ok_init by (simp add: dir_ok_def v) (simp add: dir_keys_def directory_init_def)
qed (fact dir_sim dir_principal)+

section \<open>The SQLite store\<close>

fun sql_step :: "(pyfloat \<Rightarrow> string) \<Rightarrow> (pyval \<Rightarrow> string) \<Rightarrow> scim_op \<Rightarrow> identity_db \<Rightarrow> scim_answer option \<times> identity_db" where
  "sql_step fr orr (CreateUser uid p) db = map_prod (answer UserAnswer) id (sql_create_user fr orr uid p db)"
| "sql_step fr orr (ReplaceUser uid i p) db = map_prod (answer UserAnswer) id (sql_replace_user fr orr i p db)"
| "sql_step fr orr (DeleteUser i) db = map_prod (answer (\<lambda>_. DoneAnswer)) id (sql_delete_user i db)"
| "sql_step fr orr (CreateGroup uid p) db = map_prod (answer GroupAnswer) id (sql_create_group fr orr uid p db)"
| "sql_step fr orr (ReplaceGroup uid i p) db = map_prod (answer GroupAnswer) id (sql_replace_group fr orr i p db)"
| "sql_step fr orr (DeleteGroup i) db = map_prod (answer (\<lambda>_. DoneAnswer)) id (sql_delete_group i db)"

definition by_key :: "('a \<Rightarrow> string) \<Rightarrow> 'a list \<Rightarrow> string \<rightharpoonup> 'a" where
  "by_key k t i = find (\<lambda>x. k x = i) t"

definition members_of :: "(string \<times> string) list \<Rightarrow> string \<Rightarrow> string list" where
  "members_of ms i = frozen (map snd (filter (\<lambda>m. fst m = i) ms))"

definition sql_view :: "identity_db \<Rightarrow> adir" where
  "sql_view db = \<lparr>ad_users = by_key su_id (id_users db), ad_groups = (\<lambda>i. map_option (group_of_row db) (by_key gr_id (id_groups db) i))\<rparr>"

definition sql_keys :: "identity_db \<Rightarrow> bool" where
  "sql_keys db \<longleftrightarrow> distinct (map su_id (id_users db)) \<and> distinct (map gr_id (id_groups db)) \<and> fst ` set (id_members db) \<subseteq> gr_id ` set (id_groups db)"

definition sql_ok :: "identity_db \<Rightarrow> bool" where
  "sql_ok db \<longleftrightarrow> sql_keys db \<and> adir_ok (sql_view db)"

lemma group_of_row_members: "group_of_row db r = \<lparr>sg_id = gr_id r, sg_display_name = gr_display_name r,
     sg_members = members_of (id_members db) (gr_id r), sg_external_id = gr_external_id r\<rparr>"
  by (simp add: group_of_row_def members_of_def)

lemma by_key_Some: "distinct (map k t) \<Longrightarrow> by_key k t i = Some x \<longleftrightarrow> x \<in> set t \<and> k x = i"
  unfolding by_key_def using find_key_eq [of k t] find_Some_prop [of "\<lambda>x. k x = i" t] by blast

lemma by_key_None: "by_key k t i = None \<longleftrightarrow> i \<notin> k ` set t"
  by (auto simp: by_key_def find_None_conv)

lemma dom_by_key: "dom (by_key k t) = k ` set t"
  by (rule set_eqI) (simp add: domIff by_key_None)

lemma by_key_append: "by_key k (t @ [x]) = (if k x \<in> k ` set t then by_key k t else (by_key k t)(k x \<mapsto> x))"
  by (induction t) (auto simp: by_key_def fun_eq_iff)

lemma by_key_delete: "by_key k (sql_delete (\<lambda>x. k x = i) t) = (by_key k t)(i := None)"
  by (rule ext) (induction t, auto simp: by_key_def sql_delete_def)

lemma by_key_update: "(\<And>x. k x = i \<Longrightarrow> k (f x) = i) \<Longrightarrow> by_key k (sql_update (\<lambda>x. k x = i) f t) = (by_key k t)(i := map_option f (by_key k t i))"
  by (rule ext) (induction t, auto simp: by_key_def)

lemma distinct_sql_delete: "distinct (map k t) \<Longrightarrow> distinct (map k (sql_delete P t))"
  by (simp add: sql_delete_def distinct_map_filter)

lemma rowcount_by_key: "distinct (map k t) \<Longrightarrow> rowcount (\<lambda>x. k x = i) t = (if by_key k t i = None then 0 else 1)"
proof (cases "by_key k t i = None")
  case True
  then show ?thesis by (auto simp: by_key_None rowcount_def filter_empty_conv)
next
  case False
  then obtain x where "x \<in> set t" "k x = i" by (auto simp: by_key_def dest: find_Some_prop)
  moreover assume "distinct (map k t)"
  ultimately show ?thesis using False rowcount_eq_one [of k t "\<lambda>x. k x = i" i] by auto
qed

lemma sql_view_simps [simp]:
  "ad_users (sql_view db) = by_key su_id (id_users db)" "ad_groups (sql_view db) i = map_option (group_of_row db) (by_key gr_id (id_groups db) i)"
  by (simp_all add: sql_view_def)

lemma sql_user_named:
  "distinct (map su_id (id_users db)) \<Longrightarrow> list_ex (\<lambda>x. su_id x \<noteq> i \<and> su_user_name x = n) (id_users db) \<longleftrightarrow> user_named i (sql_view db) n"
  by (auto simp: list_ex_iff user_named_def by_key_Some)

lemma sql_group_named:
  assumes "distinct (map gr_id (id_groups db))"
  shows "list_ex (\<lambda>r. gr_id r \<noteq> i \<and> gr_display_name r = n) (id_groups db) \<longleftrightarrow> group_named i (sql_view db) n"
proof -
  have "group_named i (sql_view db) n \<longleftrightarrow> (\<exists>j r. by_key gr_id (id_groups db) j = Some r \<and> j \<noteq> i \<and> sg_display_name (group_of_row db r) = n)"
    unfolding group_named_def sql_view_simps map_option_eq_Some by blast
  then show ?thesis using by_key_Some [OF assms] by (auto simp: list_ex_iff group_of_row_def)
qed

lemma entry_texts_plain: "plain_entries raw \<Longrightarrow> entry_texts fr orr raw = Inr (entry_strings raw)"
  unfolding plain_entries_def entry_texts_def entry_strings_def
  by (cases raw) (auto simp: json_iter_def list_all_iff entry_text_def jstr_def intro!: arg_cong [of _ _ "filter (\<lambda>s. s \<noteq> [])"] map_cong split: json.splits)

lemma checked_members_plain:
  assumes "plain_entries (jget_or (JList []) ''members'' p)"
  shows "checked_members fr orr p db = Inr (frozen (entry_strings (jget_or (JList []) ''members'' p)))
       \<and> set (entry_strings (jget_or (JList []) ''members'' p)) \<subseteq> dom (by_key su_id (id_users db))
     \<or> (\<exists>e. checked_members fr orr p db = Inl e) \<and> \<not> set (entry_strings (jget_or (JList []) ''members'' p)) \<subseteq> dom (by_key su_id (id_users db))"
proof -
  define ms where "ms = frozen (entry_strings (jget_or (JList []) ''members'' p))"
  have "find (\<lambda>m. \<not> list_ex (\<lambda>u. su_id u = m) (id_users db)) ms = None \<longleftrightarrow> set ms \<subseteq> dom (by_key su_id (id_users db))"
    unfolding find_None_conv dom_by_key by (auto simp: list_ex_iff)
  then show ?thesis
    by (cases "find (\<lambda>m. \<not> list_ex (\<lambda>u. su_id u = m) (id_users db)) ms")
      (auto simp: checked_members_def entry_texts_plain [OF assms] ms_def [symmetric], auto simp: ms_def)
qed

lemma members_of_append: "members_of (ms @ map (Pair i) xs) j = (if i = j then frozen (map snd (filter (\<lambda>m. fst m = j) ms) @ xs) else members_of ms j)"
  by (simp add: members_of_def filter_map comp_def)

lemma members_of_delete:
  "members_of (sql_delete (\<lambda>m. snd m = u) ms) i = filter (\<lambda>m. m \<noteq> u) (members_of ms i)"
  "members_of (sql_delete (\<lambda>m. fst m = g) ms) i = (if i = g then [] else members_of ms i)"
proof -
  have "frozen (map snd (filter (\<lambda>m. fst m = i) (filter (\<lambda>m. snd m \<noteq> u) ms))) = frozen (filter (\<lambda>m. m \<noteq> u) (frozen (map snd (filter (\<lambda>m. fst m = i) ms))))"
    by (rule frozen_eqI) auto
  then show "members_of (sql_delete (\<lambda>m. snd m = u) ms) i = filter (\<lambda>m. m \<noteq> u) (members_of ms i)"
    by (simp add: members_of_def sql_delete_def frozen_filter)
  show "members_of (sql_delete (\<lambda>m. fst m = g) ms) i = (if i = g then [] else members_of ms i)"
    by (auto simp: members_of_def sql_delete_def frozen_def conj_commute intro!: arg_cong [of _ _ "\<lambda>xs. sort (remdups (map snd xs))"] filter_cong)
qed

lemma sql_sim_create_user:
  assumes "sql_keys db" "by_key su_id (id_users db) (payload_id fr orr uid p) = None" "sql_create_user fr orr uid p db = (r, db')"
  shows "sql_keys db' \<and> put_user (given_user fr orr (payload_id fr orr uid p) p) (sql_view db) = (answer UserAnswer r, sql_view db')"
proof -
  define u where "u = given_user fr orr (payload_id fr orr uid p) p"
  have new: "su_id u \<notin> su_id ` set (id_users db)" using assms(2) by (simp add: by_key_None u_def)
  have named: "list_ex (\<lambda>x. su_id x = su_id u \<or> su_user_name x = su_user_name u) (id_users db) \<longleftrightarrow> user_named (su_id u) (sql_view db) (su_user_name u)"
  proof -
    have "list_ex (\<lambda>x. su_id x = su_id u \<or> su_user_name x = su_user_name u) (id_users db)
      \<longleftrightarrow> list_ex (\<lambda>x. su_id x \<noteq> su_id u \<and> su_user_name x = su_user_name u) (id_users db)"
      using new unfolding list_ex_iff by (metis image_eqI)
    then show ?thesis using sql_user_named [of db "su_id u" "su_user_name u"] assms(1) by (simp add: sql_keys_def)
  qed
  have r: "(r, db') = (if su_user_name u = [] then (Inl (ValueError ''SCIM userName is required''), db)
      else if user_named (su_id u) (sql_view db) (su_user_name u) then (Inl (ValueError (''SCIM userName already exists: '' @ su_user_name u)), db)
      else (Inr u, db\<lparr>id_users := id_users db @ [user_row u]\<rparr>))"
    using assms(3) unfolding named [symmetric] by (simp add: sql_create_user_def given_user_def [symmetric] u_def [symmetric] Let_def cong: if_cong)
  have "sql_view (db\<lparr>id_users := id_users db @ [user_row u]\<rparr>) = (sql_view db)\<lparr>ad_users := (ad_users (sql_view db))(su_id u \<mapsto> user_row u)\<rparr>"
    using new by (simp add: sql_view_def by_key_append group_of_row_def [abs_def])
  then show ?thesis using r assms(1) new unfolding u_def [symmetric] by (auto simp: put_user_def sql_keys_def split: if_splits)
qed

lemma sql_sim_replace_user:
  assumes "sql_keys db" "plain_entries (jget_or (JList []) ''emails'' p)" "sql_replace_user fr orr i p db = (r, db')"
  shows "sql_keys db' \<and> adir_step fr orr (ReplaceUser uid i p) (sql_view db) = (answer UserAnswer r, sql_view db')"
proof (cases "by_key su_id (id_users db) i")
  case None
  then show ?thesis using assms by (auto simp: sql_replace_user_def sql_get_user_def by_key_def)
next
  case (Some u0)
  define u where "u = given_user fr orr i p"
  have u: "su_id u = i" "strip (payload_text fr orr ''userName'' p) = su_user_name u" by (simp_all add: u_def)
  have r: "(r, db') = (if su_user_name u = [] then (Inl (ValueError ''SCIM userName is required''), db)
      else if user_named i (sql_view db) (su_user_name u) then (Inl (SqliteIntegrityError ''UNIQUE constraint failed: scim_users.user_name''), db)
      else (Inr u, db\<lparr>id_users := sql_update (\<lambda>x. su_id x = i) (\<lambda>_. user_row u) (id_users db)\<rparr>))"
    using assms(3) Some sql_user_named [of db i "su_user_name u"] assms(1)
    by (simp add: sql_replace_user_def sql_get_user_def by_key_def entry_texts_plain [OF assms(2)] given_user_def [symmetric] u_def [symmetric] u Let_def sql_keys_def cong: if_cong)
  have "sql_view (db\<lparr>id_users := sql_update (\<lambda>x. su_id x = i) (\<lambda>_. user_row u) (id_users db)\<rparr>) = (sql_view db)\<lparr>ad_users := (ad_users (sql_view db))(i \<mapsto> user_row u)\<rparr>"
    using Some u(1) by (simp add: sql_view_def by_key_update group_of_row_def [abs_def])
  moreover have "map su_id (sql_update (\<lambda>x. su_id x = i) (\<lambda>_. user_row u) (id_users db)) = map su_id (id_users db)"
    by (rule map_sql_update) (simp add: u(1))
  ultimately show ?thesis using r assms(1) Some u unfolding adir_step.simps u_def [symmetric] by (auto simp: put_user_def sql_keys_def split: if_splits)
qed

lemma sql_sim_delete_user:
  assumes "sql_keys db" "sql_delete_user i db = (r, db')"
  shows "sql_keys db' \<and> adir_step fr orr (DeleteUser i) (sql_view db) = (answer (\<lambda>_. DoneAnswer) r, sql_view db')"
proof (cases "by_key su_id (id_users db) i")
  case None
  then show ?thesis using assms rowcount_by_key [of su_id "id_users db" i] by (auto simp: sql_delete_user_def sql_keys_def)
next
  case (Some u)
  have db': "r = Inr ()" "db' = db\<lparr>id_users := sql_delete (\<lambda>u. su_id u = i) (id_users db), id_members := sql_delete (\<lambda>m. snd m = i) (id_members db)\<rparr>"
    using assms Some rowcount_by_key [of su_id "id_users db" i] by (auto simp: sql_delete_user_def sql_keys_def)
  have g: "group_of_row db' = drop_member i \<circ> group_of_row db"
    by (rule ext) (simp add: db' group_of_row_members members_of_delete drop_member_def)
  have "sql_view db' = \<lparr>ad_users = (ad_users (sql_view db))(i := None), ad_groups = map_option (drop_member i) \<circ> ad_groups (sql_view db)\<rparr>"
    by (simp add: sql_view_def g) (simp add: db' by_key_delete fun_eq_iff option.map_comp)
  moreover have "sql_keys db'" using assms(1) unfolding db' by (auto simp: sql_keys_def distinct_sql_delete)
  ultimately show ?thesis using Some db'(1) by simp
qed

lemma sql_sim_delete_group:
  assumes "sql_keys db" "sql_delete_group i db = (r, db')"
  shows "sql_keys db' \<and> adir_step fr orr (DeleteGroup i) (sql_view db) = (answer (\<lambda>_. DoneAnswer) r, sql_view db')"
proof (cases "by_key gr_id (id_groups db) i")
  case None
  then show ?thesis using assms rowcount_by_key [of gr_id "id_groups db" i] by (auto simp: sql_delete_group_def sql_keys_def)
next
  case (Some g)
  have db': "r = Inr ()" "db' = db\<lparr>id_groups := sql_delete (\<lambda>u. gr_id u = i) (id_groups db), id_members := sql_delete (\<lambda>m. fst m = i) (id_members db)\<rparr>"
    using assms Some rowcount_by_key [of gr_id "id_groups db" i] by (auto simp: sql_delete_group_def sql_keys_def)
  have "map_option (group_of_row db') (by_key gr_id (id_groups db) j) = map_option (group_of_row db) (by_key gr_id (id_groups db) j)" if "j \<noteq> i" for j
    using that assms(1) by (auto simp: db' group_of_row_members members_of_delete sql_keys_def by_key_Some intro!: option.map_cong)
  then have "sql_view db' = (sql_view db)\<lparr>ad_groups := (ad_groups (sql_view db))(i := None)\<rparr>"
    by (auto simp: sql_view_def db' by_key_delete fun_eq_iff)
  moreover have "fst ` set (id_members db') \<subseteq> gr_id ` set (id_groups db')"
    using assms(1) unfolding db' sql_keys_def by auto
  ultimately show ?thesis using assms(1) Some db' by (simp add: sql_keys_def distinct_sql_delete)
qed

lemma sql_sim_create_group:
  assumes "sql_keys db" "plain_entries (jget_or (JList []) ''members'' p)" "by_key gr_id (id_groups db) (payload_id fr orr uid p) = None"
    and "sql_create_group fr orr uid p db = (r, db')"
  shows "sql_keys db' \<and> put_group (given_group fr orr (payload_id fr orr uid p) p) (sql_view db) = (answer GroupAnswer r, sql_view db')"
proof -
  define g where "g = given_group fr orr (payload_id fr orr uid p) p"
  define row where "row = \<lparr>gr_id = sg_id g, gr_display_name = sg_display_name g, gr_external_id = sg_external_id g\<rparr>"
  define db1 where "db1 = db\<lparr>id_groups := id_groups db @ [row], id_members := id_members db @ map (Pair (sg_id g)) (sg_members g)\<rparr>"
  have new: "sg_id g \<notin> gr_id ` set (id_groups db)" using assms(3) by (simp add: by_key_None g_def)
  have named: "list_ex (\<lambda>x. gr_id x = sg_id g \<or> gr_display_name x = sg_display_name g) (id_groups db) \<longleftrightarrow> group_named (sg_id g) (sql_view db) (sg_display_name g)"
  proof -
    have "list_ex (\<lambda>x. gr_id x = sg_id g \<or> gr_display_name x = sg_display_name g) (id_groups db)
      \<longleftrightarrow> list_ex (\<lambda>x. gr_id x \<noteq> sg_id g \<and> gr_display_name x = sg_display_name g) (id_groups db)"
      using new unfolding list_ex_iff by (metis image_eqI)
    then show ?thesis using sql_group_named [of db "sg_id g" "sg_display_name g"] assms(1) by (simp add: sql_keys_def)
  qed
  have mem: "filter (\<lambda>m. fst m = sg_id g) (id_members db) = []"
    using assms(1) new by (auto simp: filter_empty_conv sql_keys_def)
  have "group_of_row db1 row = g"
    by (simp add: db1_def row_def group_of_row_members members_of_append mem) (simp add: g_def)
  moreover have "map_option (group_of_row db1) (by_key gr_id (id_groups db) j) = map_option (group_of_row db) (by_key gr_id (id_groups db) j)" if "j \<noteq> sg_id g" for j
    using that assms(1) by (auto simp: db1_def group_of_row_members members_of_append sql_keys_def by_key_Some intro!: option.map_cong)
  ultimately have view: "sql_view db1 = (sql_view db)\<lparr>ad_groups := (ad_groups (sql_view db))(sg_id g \<mapsto> g)\<rparr>"
    using new by (auto simp: sql_view_def by_key_append fun_eq_iff db1_def row_def)
  have keys: "sql_keys db1" using assms(1) new by (auto simp: sql_keys_def db1_def row_def)
  show ?thesis
  proof (cases "sg_display_name g = [] \<or> \<not> set (sg_members g) \<subseteq> dom (ad_users (sql_view db)) \<or> group_named (sg_id g) (sql_view db) (sg_display_name g)")
    case True
    then obtain e where "r = Inl e" "db' = db"
      using assms(4) checked_members_plain [OF assms(2), of fr orr db] named
      by (auto simp: sql_create_group_def Let_def g_def split: sum.splits if_splits)
    moreover have "put_group g (sql_view db) = (None, sql_view db)" using True unfolding put_group_def by (rule if_P)
    ultimately show ?thesis using assms(1) by (simp add: g_def)
  next
    case False
    then have "checked_members fr orr p db = Inr (sg_members g)"
      using checked_members_plain [OF assms(2), of fr orr db] by (auto simp: g_def)
    then have "(r, db') = (Inr g, db1)"
      using False assms(4) named
      by (simp add: sql_create_group_def Let_def db1_def row_def) (simp add: g_def given_group_def sorted_frozen)
    moreover have "put_group g (sql_view db) = (Some (GroupAnswer g), (sql_view db)\<lparr>ad_groups := (ad_groups (sql_view db))(sg_id g \<mapsto> g)\<rparr>)"
      using False unfolding put_group_def by (rule if_not_P)
    ultimately show ?thesis using keys view by (simp add: g_def)
  qed
qed

lemma sql_sim_replace_group:
  assumes "sql_keys db" "plain_entries (jget_or (JList []) ''members'' p)" "sql_replace_group fr orr i p db = (r, db')"
  shows "sql_keys db' \<and> adir_step fr orr (ReplaceGroup uid i p) (sql_view db) = (answer GroupAnswer r, sql_view db')"
proof (cases "by_key gr_id (id_groups db) i")
  case None
  then show ?thesis using assms by (auto simp: sql_replace_group_def sql_get_group_def by_key_def)
next
  case (Some r0)
  define g where "g = given_group fr orr i p"
  define f where "f = (\<lambda>r :: group_row. r\<lparr>gr_display_name := sg_display_name g, gr_external_id := sg_external_id g\<rparr>)"
  define db1 where "db1 = db\<lparr>id_groups := sql_update (\<lambda>r. gr_id r = i) f (id_groups db),
    id_members := sql_delete (\<lambda>m. fst m = i) (id_members db) @ map (Pair i) (sg_members g)\<rparr>"
  have r0: "r0 \<in> set (id_groups db)" "gr_id r0 = i" and f [simp]: "gr_id (f x) = gr_id x" for x
    using Some assms(1) by (simp_all add: by_key_Some sql_keys_def f_def)
  have empty: "filter (\<lambda>m. fst m = i) (sql_delete (\<lambda>m. fst m = i) (id_members db)) = []" by (simp add: sql_delete_def filter_empty_conv)
  have row: "group_of_row db1 (f r0) = g"
    by (simp add: db1_def r0 group_of_row_members members_of_append empty f_def) (simp add: g_def)
  moreover have "map_option (group_of_row db1) (by_key gr_id (id_groups db) j) = map_option (group_of_row db) (by_key gr_id (id_groups db) j)" if "j \<noteq> i" for j
    using that assms(1) by (auto simp: db1_def group_of_row_members members_of_append members_of_delete sql_keys_def by_key_Some intro!: option.map_cong)
  ultimately have view: "sql_view db1 = (sql_view db)\<lparr>ad_groups := (ad_groups (sql_view db))(i \<mapsto> g)\<rparr>"
    using Some by (auto simp: sql_view_def by_key_update fun_eq_iff db1_def)
  have ids: "map gr_id (sql_update (\<lambda>r. gr_id r = i) f (id_groups db)) = map gr_id (id_groups db)" by (rule map_sql_update) simp
  then have "gr_id ` set (sql_update (\<lambda>r. gr_id r = i) f (id_groups db)) = gr_id ` set (id_groups db)" by (metis set_map)
  then have keys: "sql_keys db1" using assms(1) ids r0 by (auto simp: sql_keys_def db1_def intro: rev_image_eqI)
  have got: "sql_get_group i db1 = Inr g"
  proof -
    have "by_key gr_id (id_groups db1) i = Some (f r0)" using Some by (simp add: db1_def by_key_update)
    then show ?thesis using row by (simp add: sql_get_group_def by_key_def)
  qed
  have start: "sql_get_group i db = Inr (group_of_row db r0)" using Some by (simp add: sql_get_group_def by_key_def)
  have named: "list_ex (\<lambda>r. gr_id r \<noteq> i \<and> gr_display_name r = sg_display_name g) (id_groups db) \<longleftrightarrow> group_named i (sql_view db) (sg_display_name g)"
    using sql_group_named assms(1) by (simp add: sql_keys_def)
  show ?thesis
  proof (cases "sg_display_name g = [] \<or> \<not> set (sg_members g) \<subseteq> dom (ad_users (sql_view db)) \<or> group_named (sg_id g) (sql_view db) (sg_display_name g)")
    case True
    then obtain e where "r = Inl e" "db' = db"
      using assms(3) start checked_members_plain [OF assms(2), of fr orr db] named
      by (auto simp: sql_replace_group_def Let_def g_def split: sum.splits if_splits)
    moreover have "put_group g (sql_view db) = (None, sql_view db)" using True unfolding put_group_def by (rule if_P)
    ultimately show ?thesis using assms(1) Some by (simp add: g_def)
  next
    case False
    then have "checked_members fr orr p db = Inr (sg_members g)"
      using checked_members_plain [OF assms(2), of fr orr db] by (auto simp: g_def)
    moreover have "payload_external fr orr p = sg_external_id g" by (simp add: g_def given_group_def)
    moreover have "strip (payload_text fr orr ''displayName'' p) = sg_display_name g" "sort (sg_members g) = sg_members g" by (simp_all add: g_def sorted_frozen)
    moreover have "sg_id g = i" by (simp add: g_def)
    ultimately have "sql_replace_group fr orr i p db = (sql_get_group i db1, db1)"
      using False named start unfolding sql_replace_group_def db1_def f_def by (simp add: Let_def)
    then have "(r, db') = (Inr g, db1)" using assms(3) got by simp
    moreover have "put_group g (sql_view db) = (Some (GroupAnswer g), (sql_view db)\<lparr>ad_groups := (ad_groups (sql_view db))(sg_id g \<mapsto> g)\<rparr>)"
      using False unfolding put_group_def by (rule if_not_P)
    ultimately show ?thesis using keys view Some by (simp add: g_def)
  qed
qed

lemma sql_sim:
  assumes "sql_ok db" "plain_op fr orr op (sql_view db)" "sql_step fr orr op db = (r, db')"
  shows "sql_ok db' \<and> adir_step fr orr op (sql_view db) = (r, sql_view db')"
proof -
  have k: "sql_keys db" and a: "adir_ok (sql_view db)" using assms(1) by (simp_all add: sql_ok_def)
  have "sql_keys db' \<and> adir_step fr orr op (sql_view db) = (r, sql_view db')"
  proof (cases op)
    case (CreateUser uid p)
    then show ?thesis using sql_sim_create_user [OF k] assms(2,3) by (cases "sql_create_user fr orr uid p db") (auto simp: domIff)
  next
    case (CreateGroup uid p)
    then show ?thesis using sql_sim_create_group [OF k] assms(2,3) by (cases "sql_create_group fr orr uid p db") (auto simp: domIff)
  next
    case (ReplaceUser uid i p)
    then show ?thesis using sql_sim_replace_user [OF k, of p fr orr i] assms(2,3) by (cases "sql_replace_user fr orr i p db") auto
  next
    case (ReplaceGroup uid i p)
    then show ?thesis using sql_sim_replace_group [OF k, of p fr orr i] assms(2,3) by (cases "sql_replace_group fr orr i p db") auto
  next
    case (DeleteUser i)
    then show ?thesis using sql_sim_delete_user [OF k, of i] assms(3) by (cases "sql_delete_user i db") auto
  next
    case (DeleteGroup i)
    then show ?thesis using sql_sim_delete_group [OF k, of i] assms(3) by (cases "sql_delete_group i db") auto
  qed
  then show ?thesis using adir_ok_step [OF a assms(2)] by (simp add: sql_ok_def)
qed

lemma sql_principal:
  assumes "sql_ok db"
  shows "\<exists>gs. set gs = ran (ad_groups (sql_view db)) \<and> sql_principal_for i org m db = principal_of i org m (adir_user i (sql_view db)) (Inr gs)"
proof (intro exI conjI)
  define rs where "rs = sort_key gr_display_name (id_groups db)"
  have d: "distinct (map gr_id (id_groups db))" using assms by (simp add: sql_ok_def sql_keys_def)
  have "collect (\<lambda>i. sql_get_group i db) (map gr_id xs) = Inr (map (group_of_row db) xs)" if "set xs \<subseteq> set (id_groups db)" for xs
    using that by (induction xs) (simp_all add: sql_get_group_def find_key_eq [OF d])
  from this [of rs] have "sql_list_groups None 0 db = Inr (map (group_of_row db) rs)" by (simp add: sql_list_groups_def page_def rs_def)
  moreover have "sql_get_user i db = adir_user i (sql_view db)" by (simp add: sql_get_user_def adir_user_def by_key_def)
  ultimately show "sql_principal_for i org m db = principal_of i org m (adir_user i (sql_view db)) (Inr (map (group_of_row db) rs))"
    by (simp add: sql_principal_for_def)
  show "set (map (group_of_row db) rs) = ran (ad_groups (sql_view db))"
    using by_key_Some [OF d] by (fastforce simp: ran_def rs_def sql_view_def)
qed

interpretation sqlite_scim: scim_store fr orr sql_ok sql_view "sql_step fr orr" identity_empty sql_principal_for
proof unfold_locales
  show v: "sql_view identity_empty = adir_init" by (simp add: sql_view_def identity_empty_def adir_init_def by_key_def [abs_def])
  show "sql_ok identity_empty" using adir_ok_init by (simp add: sql_ok_def v) (simp add: sql_keys_def identity_empty_def)
qed (fact sql_sim sql_principal)+

section \<open>The exceptions of the two\<close>

fun dir_operation :: "(pyfloat \<Rightarrow> string) \<Rightarrow> (pyval \<Rightarrow> string) \<Rightarrow> scim_op \<Rightarrow> directory \<Rightarrow> (exc + scim_answer) \<times> directory" where
  "dir_operation fr orr (CreateUser uid p) d = map_prod (map_sum id UserAnswer) id (dir_create_user fr orr uid p d)"
| "dir_operation fr orr (ReplaceUser uid i p) d = map_prod (map_sum id UserAnswer) id (dir_replace_user fr orr uid i p d)"
| "dir_operation fr orr (DeleteUser i) d = map_prod (map_sum id (\<lambda>_. DoneAnswer)) id (dir_delete_user i d)"
| "dir_operation fr orr (CreateGroup uid p) d = map_prod (map_sum id GroupAnswer) id (dir_create_group fr orr uid p d)"
| "dir_operation fr orr (ReplaceGroup uid i p) d = map_prod (map_sum id GroupAnswer) id (dir_replace_group fr orr uid i p d)"
| "dir_operation fr orr (DeleteGroup i) d = map_prod (map_sum id (\<lambda>_. DoneAnswer)) id (dir_delete_group i d)"

fun sql_operation :: "(pyfloat \<Rightarrow> string) \<Rightarrow> (pyval \<Rightarrow> string) \<Rightarrow> scim_op \<Rightarrow> identity_db \<Rightarrow> (exc + scim_answer) \<times> identity_db" where
  "sql_operation fr orr (CreateUser uid p) db = map_prod (map_sum id UserAnswer) id (sql_create_user fr orr uid p db)"
| "sql_operation fr orr (ReplaceUser uid i p) db = map_prod (map_sum id UserAnswer) id (sql_replace_user fr orr i p db)"
| "sql_operation fr orr (DeleteUser i) db = map_prod (map_sum id (\<lambda>_. DoneAnswer)) id (sql_delete_user i db)"
| "sql_operation fr orr (CreateGroup uid p) db = map_prod (map_sum id GroupAnswer) id (sql_create_group fr orr uid p db)"
| "sql_operation fr orr (ReplaceGroup uid i p) db = map_prod (map_sum id GroupAnswer) id (sql_replace_group fr orr i p db)"
| "sql_operation fr orr (DeleteGroup i) db = map_prod (map_sum id (\<lambda>_. DoneAnswer)) id (sql_delete_group i db)"

fun memory_face :: "refusal \<Rightarrow> string" where
  "memory_face NotFound = ''KeyError''"
| "memory_face Invalid = ''ValueError''"
| "memory_face Conflict = ''ValueError''"

fun sqlite_face :: "refusal \<Rightarrow> string" where
  "sqlite_face NotFound = ''KeyError''"
| "sqlite_face Invalid = ''ValueError''"
| "sqlite_face Conflict = ''IntegrityError''"

lemma answer_operation: "map_prod (answer f) id x = map_prod (answer id) id (map_prod (map_sum id f) id x)"
  by (cases x) (simp add: answer_id)

lemma operation_refused: "map_prod (map_sum id f) id x = (Inl e, s) \<longleftrightarrow> x = (Inl e, s)"
  by (cases x; cases "fst x") auto

lemma create_refused:
  "dir_create_user fr orr uid p d = (Inl e, d') \<Longrightarrow> exc_type_name e = ''ValueError''"
  "dir_create_group fr orr uid p d = (Inl e, d') \<Longrightarrow> exc_type_name e = ''ValueError''"
  "sql_create_user fr orr uid p db = (Inl e, db') \<Longrightarrow> exc_type_name e = ''ValueError''"
  by (auto simp: dir_create_user_def dir_create_group_def sql_create_user_def Let_def exc_type_name_def split: if_splits option.splits)

lemma checked_members_class:
  "plain_entries (jget_or (JList []) ''members'' p) \<Longrightarrow> checked_members fr orr p db = Inl e \<Longrightarrow> exc_type_name e = ''ValueError''"
  by (auto simp: checked_members_def entry_texts_plain exc_type_name_def split: option.splits)

lemma dir_refused:
  assumes "dir_operation fr orr op d = (Inl e, d')"
  shows "exc_type_name e = memory_face (refusal_of fr orr op (dir_view d))"
proof (cases op)
  case (ReplaceUser uid i p)
  then show ?thesis using assms create_refused(1)
    by (auto simp: dir_replace_user_def exc_type_name_def split: option.splits prod.splits sum.splits)
next
  case (ReplaceGroup uid i p)
  then show ?thesis using assms create_refused(2)
    by (auto simp: dir_replace_group_def exc_type_name_def split: option.splits prod.splits sum.splits)
qed (use assms create_refused in \<open>auto simp: operation_refused dir_delete_user_def dir_delete_group_def exc_type_name_def split: if_splits\<close>)

lemma sql_create_group_refused:
  "plain_entries (jget_or (JList []) ''members'' p) \<Longrightarrow> sql_create_group fr orr uid p db = (Inl e, db') \<Longrightarrow> exc_type_name e = ''ValueError''"
  by (auto simp: sql_create_group_def Let_def exc_type_name_def split: if_splits sum.splits dest: checked_members_class [unfolded exc_type_name_def])

lemma sql_replace_user_refused:
  assumes "plain_entries (jget_or (JList []) ''emails'' p)" "sql_replace_user fr orr i p db = (Inl e, db')"
  shows "exc_type_name e = sqlite_face (refusal_of fr orr (ReplaceUser uid i p) (sql_view db))"
  using assms(2) by (auto simp: sql_replace_user_def entry_texts_plain [OF assms(1)] sql_get_user_def sql_view_def by_key_def exc_type_name_def Let_def
      split: if_splits option.splits)

lemma sql_replace_group_refused:
  assumes "plain_entries (jget_or (JList []) ''members'' p)" "sql_replace_group fr orr i p db = (Inl e, db')"
  shows "exc_type_name e = sqlite_face (refusal_of fr orr (ReplaceGroup uid i p) (sql_view db))"
proof (cases "by_key gr_id (id_groups db) i")
  case None
  then have "find (\<lambda>r. gr_id r = i) (id_groups db) = None" by (simp add: by_key_def)
  then show ?thesis using assms(2) None by (simp add: sql_replace_group_def sql_get_group_def exc_type_name_def sql_view_def) auto
next
  case (Some r)
  define n where "n = strip (payload_text fr orr ''displayName'' p)"
  have row: "sql_get_group i db = Inr (group_of_row db r)" using Some by (simp add: sql_get_group_def by_key_def)
  have kept: "sql_get_group i (db\<lparr>id_groups := sql_update (\<lambda>r. gr_id r = i) (\<lambda>r. r\<lparr>gr_display_name := n, gr_external_id := x\<rparr>) (id_groups db), id_members := ms\<rparr>) \<noteq> Inl e" for x ms
    using Some by (simp add: sql_get_group_def by_key_def [symmetric] by_key_update)
  have known: "ad_groups (sql_view db) i \<noteq> None" "dom (ad_users (sql_view db)) = dom (by_key su_id (id_users db))"
    using Some by (simp_all add: sql_view_def)
  show ?thesis
  proof (cases "n = []")
    case True
    then show ?thesis using assms(2) row known by (auto simp: sql_replace_group_def n_def exc_type_name_def)
  next
    case False
    show ?thesis
    proof (cases "checked_members fr orr p db")
      case (Inl f)
      then have "e = f" using assms(2) row False by (simp add: sql_replace_group_def n_def Let_def)
      moreover have "\<not> set (entry_strings (jget_or (JList []) ''members'' p)) \<subseteq> dom (by_key su_id (id_users db))"
        using checked_members_plain [OF assms(1), of fr orr db] Inl by auto
      ultimately show ?thesis using checked_members_class [OF assms(1) Inl] known by simp
    next
      case (Inr ms)
      have "set (entry_strings (jget_or (JList []) ''members'' p)) \<subseteq> dom (by_key su_id (id_users db))"
        using checked_members_plain [OF assms(1), of fr orr db] Inr by auto
      moreover have "exc_type_name e = ''IntegrityError''"
        using assms(2) row False Inr kept by (auto simp: sql_replace_group_def n_def [symmetric] Let_def exc_type_name_def split: if_splits)
      ultimately show ?thesis using False known by (simp add: n_def)
    qed
  qed
qed

lemma sql_refused:
  assumes "plain_op fr orr op (sql_view db)" "sql_operation fr orr op db = (Inl e, db')"
  shows "exc_type_name e = sqlite_face (refusal_of fr orr op (sql_view db))"
proof (cases op)
  case (ReplaceUser uid i p)
  then show ?thesis using assms sql_replace_user_refused [of p fr orr i db e db' uid] by (simp add: operation_refused)
next
  case (ReplaceGroup uid i p)
  then show ?thesis using assms sql_replace_group_refused [of p fr orr i db e db' uid] by (simp add: operation_refused)
qed (use assms create_refused(3) sql_create_group_refused in \<open>auto simp: operation_refused sql_delete_user_def sql_delete_group_def exc_type_name_def split: if_splits\<close>)

interpretation memory_faces: scim_faces fr orr dir_ok dir_view "dir_step fr orr" directory_init dir_principal_for "dir_operation fr orr" memory_face
proof unfold_locales
  show "dir_step fr orr op d = map_prod (answer id) id (dir_operation fr orr op d)" for op d
    by (cases op) (simp_all add: answer_operation [symmetric])
qed (erule dir_refused)

interpretation sqlite_faces: scim_faces fr orr sql_ok sql_view "sql_step fr orr" identity_empty sql_principal_for "sql_operation fr orr" sqlite_face
proof unfold_locales
  show "sql_step fr orr op db = map_prod (answer id) id (sql_operation fr orr op db)" for op db
    by (cases op) (simp_all add: answer_operation [symmetric])
qed (erule (1) sql_refused)

section \<open>Properties\<close>

text \<open>C19: On any sequence of requests with new identifiers and string entries, the in-memory directory and the SQLite store
  both refine the one abstract directory: each answers every request with the outcome of the specification, a refusal showing
  as its exception class (the two classes differ only for a replacement that takes somebody else's name), both end in the
  abstract directory, and both give the same principal, or the same exception, for every user.\<close>

theorem scim_stores_agree:
  assumes "plain_ops fr orr ops adir_init"
    and "run_ops (dir_operation fr orr) ops directory_init = (answers, d)" and "run_ops (sql_operation fr orr) ops identity_empty = (answers', db)"
  shows "(\<exists>outs a. run_ops (spec_step fr orr) ops adir_init = (outs, a) \<and> dir_view d = a \<and> sql_view db = a
       \<and> map (map_sum exc_type_name id) answers = map (map_sum memory_face id) outs
       \<and> map (map_sum exc_type_name id) answers' = map (map_sum sqlite_face id) outs)
     \<and> (\<forall>i org m. dir_principal_for i org m d = sql_principal_for i org m db)"
proof -
  obtain outs where mem: "run_ops (spec_step fr orr) ops adir_init = (outs, dir_view d)"
      "map (map_sum exc_type_name id) answers = map (map_sum memory_face id) outs" "dir_ok d"
    using memory_faces.faces [OF assms(1,2)] by auto
  obtain outs' where sql: "run_ops (spec_step fr orr) ops adir_init = (outs', sql_view db)"
      "map (map_sum exc_type_name id) answers' = map (map_sum sqlite_face id) outs'" "sql_ok db"
    using sqlite_faces.faces [OF assms(1,3)] by auto
  have view: "dir_view d = sql_view db" and outs: "outs' = outs" using mem(1) sql(1) by simp_all
  have "dir_principal_for i org m d = sql_principal_for i org m db" for i org m
    using memory_scim.principal [OF mem(3), of i org m] sqlite_scim.principal [OF sql(3), of i org m] principal_of_set unfolding view by metis
  then show ?thesis using mem(1,2) sql(2) view unfolding outs by (intro conjI exI allI) simp_all
qed

text \<open>Nobody is a member of a group after a deletion, and creating a user changes no group.\<close>

lemma ran_drop_member: "g \<in> ran (map_option (drop_member i) \<circ> G) \<Longrightarrow> i \<notin> set (sg_members g)"
  by (auto simp: ran_def drop_member_def)

lemma run_ops_append: "run_ops f (xs @ ys) s = (case run_ops f xs s of (rs, s') \<Rightarrow> case run_ops f ys s' of (qs, s'') \<Rightarrow> (rs @ qs, s''))"
  by (induction xs arbitrary: s) (auto split: prod.splits)

lemma recreated_no_groups:
  assumes "run_ops (adir_step fr orr) (ops @ [DeleteUser i, CreateUser uid p]) a = (answers, b)" "take 2 (rev answers) = [Some r, Some DoneAnswer]"
    and "set gs = ran (ad_groups b)" "principal_of i org m u (Inr gs) = Inr pr"
  shows "pr_groups pr = []"
proof -
  obtain rs a1 where 1: "run_ops (adir_step fr orr) ops a = (rs, a1)" by fastforce
  obtain q a2 where 2: "adir_step fr orr (DeleteUser i) a1 = (q, a2)" by fastforce
  obtain r' where 3: "adir_step fr orr (CreateUser uid p) a2 = (r', b)" "answers = rs @ [q, r']"
    using assms(1) 1 2 by (auto simp: run_ops_append split: prod.splits)
  have "q = Some DoneAnswer" using assms(2) 3(2) by (simp add: numeral_2_eq_2)
  then have "ad_groups a2 = map_option (drop_member i) \<circ> ad_groups a1" using 2 by (auto split: if_splits)
  moreover have "ad_groups b = ad_groups a2" using 3(1) by (auto simp: put_user_def split: if_splits)
  ultimately have "filter (\<lambda>g. i \<in> set (sg_members g)) gs = []" using assms(3) ran_drop_member by (fastforce simp: filter_empty_conv)
  then show ?thesis using assms(4) by (auto simp: principal_of_def ebind_Inr principal_init_def clean_set_def frozen_def split: if_splits)
qed

text \<open>A user that is deleted and created again under the same identifier inherits no group, in either directory.\<close>

theorem recreated_user_has_no_groups:
  assumes "plain_ops fr orr (ops @ [DeleteUser i, CreateUser uid p]) adir_init"
    and "run_ops (dir_step fr orr) (ops @ [DeleteUser i, CreateUser uid p]) directory_init = (answers, d)"
    and "run_ops (sql_step fr orr) (ops @ [DeleteUser i, CreateUser uid p]) identity_empty = (answers', db)"
    and "take 2 (rev answers) = [Some r, Some DoneAnswer]"
  shows "(dir_principal_for i org m d = Inr pr \<longrightarrow> pr_groups pr = []) \<and> (sql_principal_for i org m db = Inr pr \<longrightarrow> pr_groups pr = [])"
proof -
  have mem: "dir_ok d" "run_ops (adir_step fr orr) (ops @ [DeleteUser i, CreateUser uid p]) adir_init = (answers, dir_view d)"
    using memory_scim.runs [OF assms(1,2)] by simp_all
  have sql: "sql_ok db" "run_ops (adir_step fr orr) (ops @ [DeleteUser i, CreateUser uid p]) adir_init = (answers', sql_view db)"
    using sqlite_scim.runs [OF assms(1,3)] by simp_all
  have view: "sql_view db = dir_view d" using mem(2) sql(2) by simp
  note none = recreated_no_groups [OF mem(2) assms(4)]
  show ?thesis
    using memory_scim.principal [OF mem(1), of i org m] sqlite_scim.principal [OF sql(1), of i org m] none unfolding view by metis
qed

text \<open>A request that carries the identifier of an existing user and a new user name is refused by the SQLite store, but the
  in-memory directory puts the new user in the place of the old one and gives it the groups and roles the old one had.\<close>

theorem create_user_takes_over:
  assumes "map_of (dir_users d) i = Some u" and "su_id v = i" "v \<in> set (id_users db)"
    and "payload_id fr orr uid p = i" "strip (payload_text fr orr ''userName'' p) \<noteq> []" "truthy (jget_or (JBool True) ''active'' p)"
    and "\<And>j x. (j, x) \<in> set (dir_users d) \<Longrightarrow> su_user_name x \<noteq> strip (payload_text fr orr ''userName'' p)"
    and "dir_principal_for i org m d = Inr old" "su_id u = i"
  shows "(\<exists>e. sql_create_user fr orr uid p db = (Inl e, db))
     \<and> (\<exists>u' d' new. dir_create_user fr orr uid p d = (Inr u', d') \<and> dir_get_user i d' = Inr u'
          \<and> dir_principal_for i org m d' = Inr new \<and> pr_groups new = pr_groups old \<and> pr_roles new = pr_roles old
          \<and> pr_subject new = pr_subject old \<and> su_user_name u' \<noteq> su_user_name u)"
proof -
  define u' where "u' = given_user fr orr i p"
  define d' where "d' = d\<lparr>dir_users := AList.update i u' (dir_users d)\<rparr>"
  have "list_ex (\<lambda>x. su_id x = i \<or> P x) (id_users db)" for P using assms(2,3) by (auto simp: list_ex_iff)
  then have sql: "\<exists>e. sql_create_user fr orr uid p db = (Inl e, db)"
    by (simp add: sql_create_user_def given_user_def [symmetric] Let_def assms(4))
  have "\<not> list_ex (\<lambda>(j, x). su_user_name x = su_user_name u') (dir_users d)" using assms(7) by (auto simp: list_ex_iff u'_def)
  then have made: "dir_create_user fr orr uid p d = (Inr u', d')"
    using assms(4,5) by (simp add: dir_create_user_def given_user_def [symmetric] Let_def u'_def d'_def)
  have got: "dir_get_user i d' = Inr u'" by (simp add: dir_get_user_def d'_def)
  have groups: "dir_list_groups None 0 d' = dir_list_groups None 0 d" by (simp add: dir_list_groups_def d'_def)
  have act: "su_active u'" "su_id u' = i" using assms(6) by (simp_all add: u'_def given_user_def scim_user_of_def)
  have differ: "su_user_name u' \<noteq> su_user_name u" using assms(1,7) map_of_SomeD [OF assms(1)] by (fastforce simp: u'_def)
  obtain gs where gs: "dir_list_groups None 0 d = Inr gs" by (simp add: dir_list_groups_def page_def)
  define names where "names = frozen (map sg_display_name (filter (\<lambda>g. i \<in> set (sg_members g)) gs))"
  have old: "principal_init i org (su_display_name u) (case su_emails u of [] \<Rightarrow> [] | e # _ \<Rightarrow> e)
      (map PStr (frozen (mapped_roles m names))) (map PStr names) [(''user_name'', JStr (su_user_name u)), (''active'', JBool (su_active u))] [] = Inr old"
    using assms(1,8,9) gs by (auto simp: dir_principal_for_def principal_of_def dir_get_user_def Let_def names_def split: if_splits)
  obtain new where new: "dir_principal_for i org m d' = Inr new" "pr_groups new = pr_groups old" "pr_roles new = pr_roles old" "pr_subject new = pr_subject old"
  proof -
    have "dir_principal_for i org m d' = principal_init i org (su_display_name u') (case su_emails u' of [] \<Rightarrow> [] | e # _ \<Rightarrow> e)
      (map PStr (frozen (mapped_roles m names))) (map PStr names) [(''user_name'', JStr (su_user_name u')), (''active'', JBool (su_active u'))] []"
      using gs act by (simp add: dir_principal_for_def principal_of_def got groups Let_def names_def)
    then show ?thesis using old that by (fastforce simp: principal_init_def ebind_Inr split: if_splits)
  qed
  show ?thesis using sql made got new differ by blast
qed

section \<open>Witnesses\<close>

definition named_payload :: "string \<Rightarrow> string \<Rightarrow> json_object" where
  "named_payload i n = [(''id'', JStr i), (''userName'', JStr n)]"

definition demo_scim_ops :: "scim_op list" where
  "demo_scim_ops = [CreateUser [] (named_payload ''i'' ''a''), CreateGroup [] [(''id'', JStr ''g''), (''displayName'', JStr ''G''), (''members'', JList [JStr ''i''])]]"

definition demo_user :: "string \<Rightarrow> scim_user" where
  "demo_user n = \<lparr>su_id = ''i'', su_user_name = n, su_active = True, su_display_name = [], su_emails = [], su_external_id = [], su_attributes = []\<rparr>"

definition demo_group :: "string list \<Rightarrow> scim_group" where
  "demo_group ms = \<lparr>sg_id = ''g'', sg_display_name = ''G'', sg_members = ms, sg_external_id = []\<rparr>"

definition demo_directory :: "scim_user list \<Rightarrow> scim_group list \<Rightarrow> directory" where
  "demo_directory us gs = \<lparr>dir_users = map (\<lambda>u. (su_id u, u)) us, dir_groups = map (\<lambda>g. (sg_id g, g)) gs\<rparr>"

lemma strip_letter [simp]: "strip ''a'' = ''a''" "strip ''b'' = ''b''" "strip ''i'' = ''i''" "strip ''G'' = ''G''" "strip ''o'' = ''o''"
  by (simp_all add: strip_def lstrip_def rstrip_def py_space_def)

lemmas scim_eval = payload_id_def payload_text_def payload_external_def jget_or_def jstr_def scim_user_of_def core_fields_def entry_strings_def entry_text_def
  entry_value_def frozen_def named_payload_def

lemma demo_given:
  "payload_id fr orr [] (named_payload ''i'' n) = ''i''" "given_user fr orr ''i'' (named_payload ''i'' ''a'') = demo_user ''a''"
  "given_user fr orr ''i'' (named_payload ''i'' ''b'') = demo_user ''b''" "user_row (demo_user n) = demo_user n"
  "payload_id fr orr [] [(''id'', JStr ''g''), (''displayName'', JStr ''G''), (''members'', JList [JStr ''i''])] = ''g''"
  "given_group fr orr ''g'' [(''id'', JStr ''g''), (''displayName'', JStr ''G''), (''members'', JList [JStr ''i''])] = demo_group [''i'']"
  by (simp_all add: given_user_def given_group_def scim_eval demo_user_def demo_group_def user_row_def)

lemma demo_plain: "plain_ops fr orr (demo_scim_ops @ [DeleteUser ''i'', CreateUser [] (named_payload ''i'' ''b'')]) adir_init" "plain_ops fr orr demo_scim_ops adir_init"
  by (simp_all add: demo_scim_ops_def demo_given adir_init_def put_user_def put_group_def user_named_def group_named_def demo_user_def demo_group_def
      plain_entries_def jget_or_def entry_value_def)

lemma demo_dir_runs:
  "run_ops (dir_step fr orr) demo_scim_ops directory_init = ([Some (UserAnswer (demo_user ''a'')), Some (GroupAnswer (demo_group [''i'']))], demo_directory [demo_user ''a''] [demo_group [''i'']])"
  "run_ops (dir_step fr orr) (demo_scim_ops @ [DeleteUser ''i'', CreateUser [] (named_payload ''i'' ''b'')]) directory_init
     = ([Some (UserAnswer (demo_user ''a'')), Some (GroupAnswer (demo_group [''i''])), Some DoneAnswer, Some (UserAnswer (demo_user ''b''))], demo_directory [demo_user ''b''] [demo_group []])"
  by (simp_all add: demo_scim_ops_def dir_create_user_def dir_create_group_def dir_delete_user_def directory_init_def demo_directory_def demo_user_def demo_group_def scim_eval Let_def)

lemma demo_principal_of: "dir_principal_for ''i'' ''o'' [] (demo_directory [demo_user n] []) = Inr \<lparr>pr_subject = ''i'', pr_organization_id = ''o'', pr_display_name = [], pr_email = [],
     pr_roles = [], pr_groups = [], pr_attributes = [(''user_name'', JStr n), (''active'', JBool True)], pr_token_id = []\<rparr>"
  by (simp add: dir_principal_for_def dir_get_user_def dir_list_groups_def page_def demo_directory_def principal_of_def demo_user_def principal_init_def
      blank_def clean_set_def frozen_def mapped_roles_def)

text \<open>A user, a group it is in, a second user, and a replacement of the second user that takes the name of the first.\<close>

definition demo_conflict_ops :: "scim_op list" where
  "demo_conflict_ops = demo_scim_ops @ [CreateUser [] (named_payload ''j'' ''b''), ReplaceUser [] ''j'' (named_payload ''j'' ''a'')]"

lemma demo_given_j:
  "payload_id fr orr [] (named_payload ''j'' n) = ''j''" "given_user fr orr ''j'' (named_payload ''j'' ''b'') = demo_user ''b''\<lparr>su_id := ''j''\<rparr>"
  "given_user fr orr ''j'' (named_payload ''j'' ''a'') = demo_user ''a''\<lparr>su_id := ''j''\<rparr>"
  by (simp_all add: given_user_def scim_eval demo_user_def)

lemma demo_conflict:
  "plain_ops fr orr demo_conflict_ops adir_init"
  "fst (run_ops (spec_step fr orr) demo_conflict_ops adir_init) =
     [Inr (UserAnswer (demo_user ''a'')), Inr (GroupAnswer (demo_group [''i''])), Inr (UserAnswer (demo_user ''b''\<lparr>su_id := ''j''\<rparr>)), Inl Conflict]"
  by (simp_all add: demo_conflict_ops_def demo_scim_ops_def demo_given demo_given_j adir_init_def put_user_def put_group_def user_named_def group_named_def
      plain_entries_def jget_or_def entry_value_def spec_step_def demo_user_def demo_group_def) (simp_all add: named_payload_def)

theorem scim_stores_agree_witness:
  "\<exists>answers d answers' db. run_ops (dir_operation ratio_repr (\<lambda>_. [])) demo_conflict_ops directory_init = (answers, d)
     \<and> run_ops (sql_operation ratio_repr (\<lambda>_. [])) demo_conflict_ops identity_empty = (answers', db)
     \<and> map (map_sum exc_type_name id) answers = [Inr (UserAnswer (demo_user ''a'')), Inr (GroupAnswer (demo_group [''i''])),
          Inr (UserAnswer (demo_user ''b''\<lparr>su_id := ''j''\<rparr>)), Inl ''ValueError'']
     \<and> map (map_sum exc_type_name id) answers' = [Inr (UserAnswer (demo_user ''a'')), Inr (GroupAnswer (demo_group [''i''])),
          Inr (UserAnswer (demo_user ''b''\<lparr>su_id := ''j''\<rparr>)), Inl ''IntegrityError'']
     \<and> (\<forall>i org m. dir_principal_for i org m d = sql_principal_for i org m db)"
proof -
  obtain answers d where 1: "run_ops (dir_operation ratio_repr (\<lambda>_. [])) demo_conflict_ops directory_init = (answers, d)" by fastforce
  obtain answers' db where 2: "run_ops (sql_operation ratio_repr (\<lambda>_. [])) demo_conflict_ops identity_empty = (answers', db)" by fastforce
  from scim_stores_agree [OF demo_conflict(1) 1 2]
  obtain outs a where run: "run_ops (spec_step ratio_repr (\<lambda>_. [])) demo_conflict_ops adir_init = (outs, a)"
    and shown: "map (map_sum exc_type_name id) answers = map (map_sum memory_face id) outs" "map (map_sum exc_type_name id) answers' = map (map_sum sqlite_face id) outs"
    and same: "\<forall>i org m. dir_principal_for i org m d = sql_principal_for i org m db" by blast
  have outs: "outs = fst (run_ops (spec_step ratio_repr (\<lambda>_. [])) demo_conflict_ops adir_init)" by (simp add: run)
  have "map (map_sum memory_face id) outs = [Inr (UserAnswer (demo_user ''a'')), Inr (GroupAnswer (demo_group [''i''])),
      Inr (UserAnswer (demo_user ''b''\<lparr>su_id := ''j''\<rparr>)), Inl ''ValueError'']"
    "map (map_sum sqlite_face id) outs = [Inr (UserAnswer (demo_user ''a'')), Inr (GroupAnswer (demo_group [''i''])),
      Inr (UserAnswer (demo_user ''b''\<lparr>su_id := ''j''\<rparr>)), Inl ''IntegrityError'']"
    unfolding outs demo_conflict(2) by simp_all
  then show ?thesis using 1 2 same shown by (intro exI conjI) simp_all
qed

theorem recreated_user_has_no_groups_witness:
  "\<exists>pr. dir_principal_for ''i'' ''o'' [] (demo_directory [demo_user ''b''] [demo_group []]) = Inr pr \<and> pr_groups pr = []"
proof -
  obtain rs db where 1: "run_ops (sql_step ratio_repr (\<lambda>_. [])) (demo_scim_ops @ [DeleteUser ''i'', CreateUser [] (named_payload ''i'' ''b'')]) identity_empty = (rs, db)" by fastforce
  obtain pr where 2: "dir_principal_for ''i'' ''o'' [] (demo_directory [demo_user ''b''] [demo_group []]) = Inr pr"
    by (simp add: dir_principal_for_def dir_get_user_def dir_list_groups_def page_def demo_directory_def principal_of_def demo_user_def demo_group_def principal_init_def
        blank_def clean_set_def frozen_def mapped_roles_def)
  then show ?thesis
    using recreated_user_has_no_groups [OF demo_plain(1) demo_dir_runs(2) 1, where org = "''o''" and m = "[]" and pr = pr] by (simp add: numeral_2_eq_2)
qed

theorem create_user_takes_over_witness:
  "\<exists>u' d'. dir_create_user ratio_repr (\<lambda>_. []) [] (named_payload ''i'' ''b'') (demo_directory [demo_user ''a''] []) = (Inr u', d') \<and> su_user_name u' \<noteq> ''a''"
proof -
  have "(\<exists>e. sql_create_user ratio_repr (\<lambda>_. []) [] (named_payload ''i'' ''b'') (identity_empty\<lparr>id_users := [demo_user ''a'']\<rparr>)
        = (Inl e, identity_empty\<lparr>id_users := [demo_user ''a'']\<rparr>))
     \<and> (\<exists>u' d' new. dir_create_user ratio_repr (\<lambda>_. []) [] (named_payload ''i'' ''b'') (demo_directory [demo_user ''a''] []) = (Inr u', d') \<and> dir_get_user ''i'' d' = Inr u'
          \<and> dir_principal_for ''i'' ''o'' [] d' = Inr new \<and> pr_groups new = pr_groups (the_principal) \<and> pr_roles new = pr_roles the_principal
          \<and> pr_subject new = pr_subject the_principal \<and> su_user_name u' \<noteq> su_user_name (demo_user ''a''))"
    if "dir_principal_for ''i'' ''o'' [] (demo_directory [demo_user ''a''] []) = Inr the_principal" for the_principal
    by (rule create_user_takes_over [OF _ _ _ demo_given(1) _ _ _ that]) (auto simp: demo_directory_def demo_user_def scim_eval)
  from this [OF demo_principal_of] show ?thesis by (auto simp: demo_user_def)
qed

end
