(* ===== verification/Telemetry.thy ===== *)
theory Telemetry
  imports Context Identity
begin

text \<open>
  \<^verbatim>\<open>agent_roi/enterprise/telemetry.py\<close>: CloudEvents, the events a runner publishes and the sinks that take them.
  A sink is a state transformer over the outside world \<open>'k\<close> that may raise.  The HTTP transport, the CloudWatch
  client, the keyed hash of the Azure signature and the reading of an ISO time as a number of seconds are
  arguments; the instruments of OpenTelemetry are the list of the calls made to them.  Event identifiers and times
  are arguments as well.  \<^verbatim>\<open>configure_otlp_sink\<close> only wires third-party exporters together and is left out.
\<close>

section \<open>Events\<close>

record cloud_event =
  ce_type :: string
  ce_source :: string
  ce_data :: payload
  ce_subject :: string
  ce_id :: string
  ce_time :: string
  ce_specversion :: string
  ce_datacontenttype :: string

definition str_dict :: "payload \<Rightarrow> pyval" where
  "str_dict p = PDict (map (\<lambda>(k, v). (PStr k, v)) p)"

definition cloud_event_to_dict :: "(pyfloat \<Rightarrow> string) \<Rightarrow> (pyval \<Rightarrow> string) \<Rightarrow> cloud_event \<Rightarrow> json_object" where
  "cloud_event_to_dict fr orr e =
     [(''specversion'', JStr (ce_specversion e)), (''id'', JStr (ce_id e)), (''source'', JStr (ce_source e)),
      (''type'', JStr (ce_type e)), (''time'', JStr (ce_time e)), (''datacontenttype'', JStr (ce_datacontenttype e)),
      (''data'', to_jsonable fr orr (str_dict (ce_data e)))]
     @ (if ce_subject e \<noteq> [] then [(''subject'', JStr (ce_subject e))] else [])"

definition runtime_event ::
    "string \<Rightarrow> string \<Rightarrow> string \<Rightarrow> payload \<Rightarrow> string \<Rightarrow> subject_id \<Rightarrow> org_id \<Rightarrow> env_name \<Rightarrow> agent_name \<Rightarrow> string \<Rightarrow> string \<Rightarrow> cloud_event" where
  "runtime_event new_id now event_type p source subject organization_id environment agent_id correlation_id run_id =
     (let normalized_type = replace_char (CHR ''_'') ''.'' event_type;
          data = dict_merge p [(''organization_id'', PStr organization_id), (''environment'', PStr environment), (''agent_id'', PStr agent_id),
            (''correlation_id'', PStr correlation_id), (''run_id'', PStr run_id)]
      in \<lparr>ce_type = ''com.agentroi.'' @ normalized_type, ce_source = source, ce_data = data, ce_subject = subject, ce_id = new_id, ce_time = now,
           ce_specversion = ''1.0'', ce_datacontenttype = ''application/json''\<rparr>)"

section \<open>Sinks without a transport\<close>

type_synonym 'k event_sink = "cloud_event \<Rightarrow> (unit, 'k) eff"

abbreviation delivery_error :: "string \<Rightarrow> exc" where
  "delivery_error m \<equiv> OtherExc [''EventDeliveryError'', ''RuntimeError'', ''Exception''] m"

definition memory_sink_emit :: "cloud_event list event_sink" where
  "memory_sink_emit e es = (Inr (), es @ [e])"

text \<open>The loop of \<^verbatim>\<open>CompositeEventSink.emit\<close>, from the sinks with their class names to the failures of this event; an
  exception that is no \<^verbatim>\<open>Exception\<close> ends it.\<close>

fun emit_to_all :: "(string \<times> 'k event_sink) list \<Rightarrow> cloud_event \<Rightarrow> (string \<times> string) list \<Rightarrow> 'k \<Rightarrow> (exc option \<times> (string \<times> string) list) \<times> 'k" where
  "emit_to_all [] e errors w = ((None, errors), w)"
| "emit_to_all ((n, sink) # sinks) e errors w =
     (case sink e w of
        (Inr _, w') \<Rightarrow> emit_to_all sinks e errors w'
      | (Inl x, w') \<Rightarrow> if is_Exception x then emit_to_all sinks e (errors @ [(n, exc_message x)]) w' else ((Some x, errors), w'))"

record 'k composite =
  cs_sinks :: "(string \<times> 'k event_sink) list"
  cs_fail_closed :: bool
  cs_failures :: "(string \<times> string) list"

definition composite_emit :: "cloud_event \<Rightarrow> 'k composite \<times> 'k \<Rightarrow> (exc + unit) \<times> 'k composite \<times> 'k" where
  "composite_emit e = (\<lambda>(cs, w). case emit_to_all (cs_sinks cs) e [] w of ((stop, errors), w') \<Rightarrow>
     ((case stop of Some x \<Rightarrow> Inl x
       | None \<Rightarrow> if errors \<noteq> [] \<and> cs_fail_closed cs then Inl (delivery_error '' enterprise event sink(s) failed'') else Inr ()),
      cs\<lparr>cs_failures := cs_failures cs @ errors\<rparr>, w'))"

section \<open>Sinks over HTTP\<close>

record http_request =
  hq_url :: string
  hq_body :: string
  hq_headers :: "(string \<times> string) list"

text \<open>What \<^verbatim>\<open>urlopen\<close> comes to: a response, an \<^verbatim>\<open>HTTPError\<close> with the text it carries, another \<^verbatim>\<open>OSError\<close>, or any
  other exception.\<close>

datatype http_reply = Response int | HttpError int string | OsError | Raised exc

type_synonym 'k transport = "http_request \<Rightarrow> 'k \<Rightarrow> http_reply \<times> 'k"

definition deliver_checked :: "'k transport \<Rightarrow> (int \<Rightarrow> bool) \<Rightarrow> (int \<Rightarrow> string) \<Rightarrow> (int \<Rightarrow> string \<Rightarrow> string) \<Rightarrow> string \<Rightarrow> http_request \<Rightarrow> (unit, 'k) eff" where
  "deliver_checked http accepted bad_status http_error unavailable rq w =
     (case http rq w of (reply, w') \<Rightarrow>
       ((case reply of
           Response st \<Rightarrow> if accepted st then Inr () else Inl (delivery_error (bad_status st))
         | HttpError st detail \<Rightarrow> Inl (delivery_error (http_error st detail))
         | OsError \<Rightarrow> Inl (delivery_error unavailable)
         | Raised x \<Rightarrow> Inl x), w'))"

record http_sink =
  hs_endpoint :: string
  hs_headers :: "(string \<times> string) list"

definition http_sink_init :: "string \<Rightarrow> (string \<times> string) list \<Rightarrow> bool \<Rightarrow> exc + http_sink" where
  "http_sink_init endpoint headers require_https =
     (if require_https \<and> \<not> uses_https endpoint then Inl (ValueError ''Enterprise CloudEvent endpoints must use HTTPS'')
      else Inr \<lparr>hs_endpoint = endpoint, hs_headers = headers\<rparr>)"

definition http_sink_emit :: "(pyfloat \<Rightarrow> string) \<Rightarrow> (pyval \<Rightarrow> string) \<Rightarrow> 'k transport \<Rightarrow> http_sink \<Rightarrow> 'k event_sink" where
  "http_sink_emit fr orr http h e =
     deliver_checked http (\<lambda>st. 200 \<le> st \<and> st < 300) (\<lambda>st. ''CloudEvent endpoint returned HTTP '' @ show_int st)
       (\<lambda>st detail. ''CloudEvent endpoint returned HTTP '' @ show_int st @ '': '' @ detail) ''CloudEvent endpoint is unavailable''
       \<lparr>hq_url = hs_endpoint h, hq_body = stable_json fr orr (cloud_event_to_dict fr orr e),
        hq_headers = dict_merge [(''Content-Type'', ''application/cloudevents+json; charset=utf-8''), (''Accept'', ''application/json'')] (hs_headers h)\<rparr>"

record splunk_sink =
  sp_endpoint :: string
  sp_token :: string
  sp_index :: string
  sp_source :: string
  sp_sourcetype :: string

definition splunk_init :: "string \<Rightarrow> string \<Rightarrow> string \<Rightarrow> string \<Rightarrow> string \<Rightarrow> bool \<Rightarrow> exc + splunk_sink" where
  "splunk_init endpoint token index source sourcetype require_https =
     (if require_https \<and> \<not> uses_https endpoint then Inl (ValueError ''Splunk HEC endpoints must use HTTPS'')
      else if strip token = [] then Inl (ValueError ''Splunk HEC token is required'')
      else Inr \<lparr>sp_endpoint = rstrip_slash endpoint @ ''/services/collector/event'', sp_token = strip token, sp_index = index,
                sp_source = source, sp_sourcetype = sourcetype\<rparr>)"

definition splunk_emit ::
    "(pyfloat \<Rightarrow> string) \<Rightarrow> (pyval \<Rightarrow> string) \<Rightarrow> (string \<Rightarrow> exc + pyfloat) \<Rightarrow> 'k transport \<Rightarrow> splunk_sink \<Rightarrow> 'k event_sink" where
  "splunk_emit fr orr timestamp http sp e =
     bnd (lift (timestamp (ce_time e))) (\<lambda>t.
       let envel = [(''time'', JFloat t), (''host'', JStr (ce_source e)), (''source'', JStr (sp_source sp)), (''sourcetype'', JStr (sp_sourcetype sp)),
             (''event'', JObj (cloud_event_to_dict fr orr e))] @ (if sp_index sp \<noteq> [] then [(''index'', JStr (sp_index sp))] else [])
       in deliver_checked http (\<lambda>st. st \<in> {200, 201}) (\<lambda>st. ''Splunk HEC returned HTTP '' @ show_int st)
         (\<lambda>_ _. ''Splunk HEC delivery failed'') ''Splunk HEC delivery failed''
         \<lparr>hq_url = sp_endpoint sp, hq_body = stable_json fr orr envel,
          hq_headers = [(''Authorization'', ''Splunk '' @ sp_token sp), (''Content-Type'', ''application/json'')]\<rparr>)"

record elastic_sink =
  el_url :: string
  el_api_key :: string
  el_bearer_token :: string

definition elastic_init :: "string \<Rightarrow> string \<Rightarrow> string \<Rightarrow> string \<Rightarrow> bool \<Rightarrow> exc + elastic_sink" where
  "elastic_init endpoint index api_key bearer_token require_https =
     (if require_https \<and> \<not> uses_https endpoint then Inl (ValueError ''Elasticsearch endpoints must use HTTPS'')
      else if strip index = [] then Inl (ValueError ''Elasticsearch index is required'')
      else Inr \<lparr>el_url = rstrip_slash endpoint @ ''/'' @ strip index @ ''/_doc'', el_api_key = api_key, el_bearer_token = bearer_token\<rparr>)"

definition elastic_emit :: "(pyfloat \<Rightarrow> string) \<Rightarrow> (pyval \<Rightarrow> string) \<Rightarrow> 'k transport \<Rightarrow> elastic_sink \<Rightarrow> 'k event_sink" where
  "elastic_emit fr orr http el e =
     deliver_checked http (\<lambda>st. st \<in> {200, 201}) (\<lambda>st. ''Elasticsearch returned HTTP '' @ show_int st)
       (\<lambda>_ _. ''Elasticsearch delivery failed'') ''Elasticsearch delivery failed''
       \<lparr>hq_url = el_url el, hq_body = stable_json fr orr (cloud_event_to_dict fr orr e),
        hq_headers = [(''Content-Type'', ''application/json'')]
          @ (if el_api_key el \<noteq> [] then [(''Authorization'', ''ApiKey '' @ el_api_key el)]
             else if el_bearer_token el \<noteq> [] then [(''Authorization'', ''Bearer '' @ el_bearer_token el)] else [])\<rparr>"

record azure_sink =
  az_workspace_id :: string
  az_shared_key :: string
  az_log_type :: string

definition azure_init :: "string \<Rightarrow> string \<Rightarrow> string \<Rightarrow> exc + azure_sink" where
  "azure_init workspace_id shared_key log_type =
     (if strip workspace_id = [] \<or> strip shared_key = [] then Inl (ValueError ''workspace_id and shared_key are required'')
      else if \<not> (let t = replace_char (CHR ''_'') [] log_type in t \<noteq> [] \<and> list_all (\<lambda>c. alpha_char c \<or> digit_char c) t)
        then Inl (ValueError ''log_type must contain only letters, numbers, or underscores'')
      else Inr \<lparr>az_workspace_id = strip workspace_id, az_shared_key = strip shared_key, az_log_type = log_type\<rparr>)"

text \<open>\<open>mac\<close> is the base64 text of the HMAC-SHA256 of a message under a base64 key, or the exception of a key that is no
  base64 text.\<close>

definition azure_signature :: "(string \<Rightarrow> string \<Rightarrow> exc + string) \<Rightarrow> azure_sink \<Rightarrow> nat \<Rightarrow> string \<Rightarrow> exc + string" where
  "azure_signature mac az content_length date_value =
     ebind (mac (az_shared_key az) (''POST'' @ [CHR 0x0A] @ show_nat content_length @ [CHR 0x0A] @ ''application/json'' @ [CHR 0x0A]
         @ ''x-ms-date:'' @ date_value @ [CHR 0x0A] @ ''/api/logs''))
       (\<lambda>digest. Inr (''SharedKey '' @ az_workspace_id az @ '':'' @ digest))"

definition azure_emit ::
    "(pyfloat \<Rightarrow> string) \<Rightarrow> (pyval \<Rightarrow> string) \<Rightarrow> (string \<Rightarrow> string \<Rightarrow> exc + string) \<Rightarrow> string \<Rightarrow> 'k transport \<Rightarrow> azure_sink \<Rightarrow> 'k event_sink" where
  "azure_emit fr orr mac date_value http az e =
     (let body = canonical_json fr orr (PList [py_of_json (JObj (cloud_event_to_dict fr orr e))]) in
      bnd (lift (azure_signature mac az (length body) date_value)) (\<lambda>signature.
        deliver_checked http (\<lambda>st. st \<in> {200, 202}) (\<lambda>st. ''Azure Log Analytics returned HTTP '' @ show_int st)
          (\<lambda>_ _. ''Azure Log Analytics delivery failed'') ''Azure Log Analytics delivery failed''
          \<lparr>hq_url = ''https://'' @ az_workspace_id az @ ''.ods.opinsights.azure.com/api/logs?api-version=2016-04-01'', hq_body = body,
           hq_headers = [(''Content-Type'', ''application/json''), (''Authorization'', signature), (''Log-Type'', az_log_type az),
             (''x-ms-date'', date_value), (''time-generated-field'', ''time'')]\<rparr>))"

record datadog_sink =
  dd_api_key :: string
  dd_endpoint :: string
  dd_service :: string
  dd_tags :: string

definition datadog_init :: "string \<Rightarrow> string \<Rightarrow> string \<Rightarrow> string \<Rightarrow> exc + datadog_sink" where
  "datadog_init api_key site service tags =
     (if strip api_key = [] then Inl (ValueError ''Datadog API key is required'')
      else if strip site = [] \<or> CHR ''/'' \<in> set site then Inl (ValueError ''Datadog site must be a hostname'')
      else Inr \<lparr>dd_api_key = strip api_key, dd_endpoint = ''https://http-intake.logs.'' @ strip site @ ''/api/v2/logs'',
                dd_service = service, dd_tags = tags\<rparr>)"

definition datadog_emit :: "(pyfloat \<Rightarrow> string) \<Rightarrow> (pyval \<Rightarrow> string) \<Rightarrow> 'k transport \<Rightarrow> datadog_sink \<Rightarrow> 'k event_sink" where
  "datadog_emit fr orr http dd e =
     (let p = [(''ddsource'', PStr ''agent-roi''), (''service'', PStr (dd_service dd)), (''ddtags'', PStr (dd_tags dd)),
        (''hostname'', PStr (ce_source e)), (''message'', PStr (stable_json fr orr (cloud_event_to_dict fr orr e)))]
      in deliver_checked http (\<lambda>st. st \<in> {200, 202}) (\<lambda>st. ''Datadog Logs intake returned HTTP '' @ show_int st)
        (\<lambda>_ _. ''Datadog event delivery failed'') ''Datadog event delivery failed''
        \<lparr>hq_url = dd_endpoint dd, hq_body = canonical_json fr orr (PList [str_dict p]),
         hq_headers = [(''Content-Type'', ''application/json''), (''DD-API-KEY'', dd_api_key dd)]\<rparr>)"

section \<open>CloudWatch\<close>

record cloudwatch_sink =
  cw_log_group :: string
  cw_log_stream :: string
  cw_sequence_token :: string

definition cloudwatch_init :: "string \<Rightarrow> string \<Rightarrow> exc + cloudwatch_sink" where
  "cloudwatch_init log_group log_stream =
     (if strip log_group = [] \<or> strip log_stream = [] then Inl (ValueError ''CloudWatch log_group and log_stream are required'')
      else Inr \<lparr>cw_log_group = log_group, cw_log_stream = log_stream, cw_sequence_token = []\<rparr>)"

text \<open>The client gives a response, from which the next sequence token is read, or raises.\<close>

definition cloudwatch_emit ::
    "(pyfloat \<Rightarrow> string) \<Rightarrow> (pyval \<Rightarrow> string) \<Rightarrow> (string \<Rightarrow> exc + int) \<Rightarrow> (json_object \<Rightarrow> 'k \<Rightarrow> (exc + json_object) \<times> 'k)
     \<Rightarrow> cloud_event \<Rightarrow> (unit, cloudwatch_sink \<times> 'k) eff" where
  "cloudwatch_emit fr orr timestamp_ms put_log_events e =
     bnd (lift (timestamp_ms (ce_time e))) (\<lambda>t (cw, w).
       let entry = JObj [(''timestamp'', JInt t), (''message'', JStr (stable_json fr orr (cloud_event_to_dict fr orr e)))];
           kwargs = [(''logGroupName'', JStr (cw_log_group cw)), (''logStreamName'', JStr (cw_log_stream cw)), (''logEvents'', JList [entry])]
             @ (if cw_sequence_token cw \<noteq> [] then [(''sequenceToken'', JStr (cw_sequence_token cw))] else [])
       in case put_log_events kwargs w of
           (Inl x, w') \<Rightarrow> (Inl (if is_Exception x then delivery_error ''CloudWatch Logs delivery failed'' else x), cw, w')
         | (Inr response, w') \<Rightarrow>
             (Inr (), cw\<lparr>cw_sequence_token := (case map_of response ''nextSequenceToken'' of None \<Rightarrow> [] | Some j \<Rightarrow> jstr fr orr j)\<rparr>, w'))"

section \<open>OpenTelemetry\<close>

datatype otel_call =
    AddEvent payload
  | is_AddCostUsd: AddCostUsd pyfloat payload
  | is_RecordRunLatency: RecordRunLatency pyfloat payload
  | is_RecordApprovalLatency: RecordApprovalLatency pyfloat payload
  | Span string payload bool

definition otel_keys :: "string list" where
  "otel_keys = [''organization_id'', ''environment'', ''agent_id'', ''run_id'', ''correlation_id'', ''tool_name'', ''risk'', ''outcome'', ''status'']"

fun otel_scalar :: "pyval \<Rightarrow> bool" where
  "otel_scalar (PStr _) = True"
| "otel_scalar (PBool _) = True"
| "otel_scalar (PInt _) = True"
| "otel_scalar (PFloat _) = True"
| "otel_scalar _ = False"

definition otel_attributes :: "cloud_event \<Rightarrow> payload" where
  "otel_attributes e =
     [(''event.type'', PStr (ce_type e)), (''event.source'', PStr (ce_source e)), (''event.id'', PStr (ce_id e))]
     @ concat (map (\<lambda>k. case map_of (ce_data e) k of Some v \<Rightarrow> if otel_scalar v then [(''agent_roi.'' @ k, v)] else [] | None \<Rightarrow> []) otel_keys)"

text \<open>A value of the event that is a nonnegative number.\<close>

definition measured :: "string \<Rightarrow> cloud_event \<Rightarrow> pyval option" where
  "measured k e = (case map_of (ce_data e) k of
     Some (PFloat x) \<Rightarrow> if fle (Fin 0) x then Some (PFloat x) else None
   | Some v \<Rightarrow> if is_int v \<and> 0 \<le> int_of_pyval v then Some v else None
   | None \<Rightarrow> None)"

definition ends_with :: "string \<Rightarrow> string \<Rightarrow> bool" where
  "ends_with s t \<longleftrightarrow> drop (length s - length t) s = t"

fun contains :: "string \<Rightarrow> string \<Rightarrow> bool" where
  "contains [] t = (t = [])"
| "contains (c # s) t = (starts_with (c # s) t \<or> contains s t)"

definition optionally :: "'v option \<Rightarrow> ('v \<Rightarrow> exc + 'b list) \<Rightarrow> exc + 'b list" where
  "optionally x f = (case x of None \<Rightarrow> Inr [] | Some v \<Rightarrow> f v)"

definition otel_cost :: "cloud_event \<Rightarrow> exc + otel_call list" where
  "otel_cost e = optionally (measured ''cost_usd'' e) (\<lambda>v. map_sum id (\<lambda>x. [AddCostUsd x (otel_attributes e)]) (py_float v))"

definition otel_latency :: "cloud_event \<Rightarrow> exc + otel_call list" where
  "otel_latency e = optionally (measured ''elapsed_ms'' e) (\<lambda>v.
     if ends_with (ce_type e) ''run_completed'' then map_sum id (\<lambda>x. [RecordRunLatency x (otel_attributes e)]) (py_float v)
     else if contains (ce_type e) ''approval'' then map_sum id (\<lambda>x. [RecordApprovalLatency x (otel_attributes e)]) (py_float v)
     else Inr [])"

text \<open>Calls made before an exception stay made.\<close>

definition otel_emit :: "cloud_event \<Rightarrow> (unit, otel_call list) eff" where
  "otel_emit e calls =
     (let counted = calls @ [AddEvent (otel_attributes e)] in
      case otel_cost e of
        Inl x \<Rightarrow> (Inl x, counted)
      | Inr costs \<Rightarrow> (case otel_latency e of
          Inl x \<Rightarrow> (Inl x, counted @ costs)
        | Inr latencies \<Rightarrow> (Inr (), counted @ costs @ latencies @ [Span (ce_type e) (otel_attributes e)
            (ends_with (ce_type e) ''run_failed'' \<or> ends_with (ce_type e) ''authorization_denied'')])))"

end
