(* ===== verification/Runner.thy ===== *)
theory Runner
  imports Telemetry
begin

text \<open>
  \<^verbatim>\<open>agent_roi/runtime/executor.py\<close>: the runner that executes an agent under the controls and writes the audit trail.
  An agent is an interaction tree: it returns, raises, calls an operation of its context and goes on with the result or
  the exception, looks at the snapshot of the context, or acts on the outside world; agents that never return are not
  trees.  The timer of a run is an argument, the number of context operations after which it fires: a synchronous agent
  then gets \<^verbatim>\<open>TimeoutError\<close> from its next operation, an awaited one is cancelled there.  The audit store is any object
  with the protocol of \<^verbatim>\<open>AuditStore\<close>, or with the older one, over a state \<open>'a\<close>; the sinks act on a state \<open>'k\<close>.  The emitter of a
  context is \<^verbatim>\<open>_log\<close>, so the state of the log is what \<^verbatim>\<open>_log\<close> makes of the events of the trace, in order.  Identifiers and
  clock readings, the digest, \<^verbatim>\<open>repr\<close> (\<open>None\<close> when it raises), \<^verbatim>\<open>math.exp\<close> and the text of floats are arguments.
\<close>

section \<open>The runner\<close>

record 'a audit_backend =
  bk_hash_chain :: "bool option"
  bk_record :: "(string \<Rightarrow> int \<Rightarrow> string \<Rightarrow> string \<Rightarrow> string \<Rightarrow> pyval \<Rightarrow> 'a \<Rightarrow> (exc + audit_event) \<times> 'a) option"
  bk_last_hash :: "string \<Rightarrow> 'a \<Rightarrow> exc + json"
  bk_append :: "audit_event \<Rightarrow> 'a \<Rightarrow> (exc + unit) \<times> 'a"

record ('w, 'a, 'k) runner =
  rn_name :: string
  rn_guardrails :: guardrails
  rn_decision_policy :: decision_policy
  rn_audit_store :: "'a audit_backend"
  rn_audit_hash_chain :: bool
  rn_metadata :: payload
  rn_tool_registry :: "tool_registry option"
  rn_approval_callback :: "'w approval_callback option"
  rn_capture_input :: bool
  rn_capture_output :: bool
  rn_redacted_keys :: "string list"
  rn_run_timeout_seconds :: "pyfloat option"
  rn_organization_id :: org_id
  rn_environment :: env_name
  rn_agent_id :: agent_name
  rn_principal :: "principal option"
  rn_authorizer :: "(principal \<Rightarrow> string \<Rightarrow> string \<Rightarrow> payload \<Rightarrow> exc + bool) option"
  rn_event_sinks :: "(string \<times> 'k event_sink) list"
  rn_fail_on_event_sink_error :: bool
  rn_event_source :: string
  rn_policy_digest :: string

definition outcome_value :: "decision_outcome \<Rightarrow> string" where
  "outcome_value d = (case d of ACCEPT \<Rightarrow> ''accept'' | ABSTAIN \<Rightarrow> ''abstain'' | HUMAN_REVIEW \<Rightarrow> ''human_review'' | RETRY \<Rightarrow> ''retry'')"

definition guardrails_asdict :: "guardrails \<Rightarrow> payload" where
  "guardrails_asdict g =
     [(''max_steps'', PInt (max_steps g)), (''max_tool_calls'', PInt (max_tool_calls g)), (''max_cost_usd'', PFloat (max_cost_usd g)),
      (''deterministic'', PBool (deterministic g)),
      (''allowed_tools'', case allowed_tools g of None \<Rightarrow> PNone | Some ts \<Rightarrow> PSet (map PStr (sorted_list_of_set ts))),
      (''require_registered_tools'', PBool (require_registered_tools g)),
      (''require_bound_approval_grants'', PBool (require_bound_approval_grants g))]"

definition decision_policy_asdict :: "decision_policy \<Rightarrow> payload" where
  "decision_policy_asdict p =
     [(''min_confidence'', PFloat (min_confidence p)), (''abstain_action'', PEnum (PStr (outcome_value (abstain_action p)))),
      (''w_prob'', PFloat (w_prob p)), (''w_margin'', PFloat (w_margin p)), (''w_z'', PFloat (w_z p)),
      (''w_entropy'', PFloat (w_entropy p)), (''w_llm'', PFloat (w_llm p))]"

definition runner_policy_digest :: "(pyval \<Rightarrow> string) \<Rightarrow> guardrails \<Rightarrow> decision_policy \<Rightarrow> tool_registry option \<Rightarrow> string" where
  "runner_policy_digest digest g p reg =
     digest (str_dict [(''guardrails'', str_dict (guardrails_asdict g)), (''decision_policy'', str_dict (decision_policy_asdict p)),
       (''registered_tools'', PList (case reg of None \<Rightarrow> [] | Some t \<Rightarrow> map str_dict (manifest t)))])"

definition runner_timeout :: "pyval option \<Rightarrow> exc + pyfloat option" where
  "runner_timeout v = (case v of None \<Rightarrow> Inr None
     | Some x \<Rightarrow> ebind (py_float x) (\<lambda>timeout.
         if \<not> is_finite timeout \<or> fle timeout (Fin 0) then Inl (ValueError ''run_timeout_seconds must be finite and > 0'') else Inr (Some timeout)))"

text \<open>\<^verbatim>\<open>__init__\<close>, from the arguments it is given as fields of a record; the fields that it computes are not read.\<close>

definition runner_init :: "(pyval \<Rightarrow> string) \<Rightarrow> pyval option \<Rightarrow> ('w, 'a, 'k) runner \<Rightarrow> exc + ('w, 'a, 'k) runner" where
  "runner_init digest run_timeout_seconds a =
     (let org = strip (rn_organization_id a); agent = strip (rn_agent_id a); reg = map_option freeze (rn_tool_registry a) in
      if (case bk_hash_chain (rn_audit_store a) of None \<Rightarrow> False | Some hc \<Rightarrow> hc \<noteq> rn_audit_hash_chain a)
        then Inl (ValueError ''audit_hash_chain must match the configured audit store'')
      else if (case rn_principal a of None \<Rightarrow> False | Some p \<Rightarrow> org \<noteq> [] \<and> pr_organization_id p \<noteq> [] \<and> pr_organization_id p \<noteq> org)
        then Inl (ValueError ''principal organization_id does not match runner organization_id'')
      else ebind (runner_timeout run_timeout_seconds) (\<lambda>timeout.
        if require_registered_tools (rn_guardrails a) \<and> reg = None
        then Inl (ValueError ''Guardrails.require_registered_tools=True requires a ToolRegistry'')
        else Inr (a\<lparr>rn_tool_registry := reg,
          rn_redacted_keys := (if rn_redacted_keys a = [] then default_redacted_keys else rn_redacted_keys a),
          rn_run_timeout_seconds := timeout, rn_organization_id := org, rn_environment := strip (rn_environment a), rn_agent_id := agent,
          rn_event_source := (if rn_event_source a \<noteq> [] then rn_event_source a
            else if org \<noteq> [] \<and> agent \<noteq> [] then ''/organizations/'' @ org @ ''/agents/'' @ agent else ''urn:agent-roi:'' @ rn_name a),
          rn_policy_digest := runner_policy_digest digest (rn_guardrails a) (rn_decision_policy a) reg\<rparr>)))"

section \<open>The log\<close>

text \<open>The readings of the host: for the \<open>n\<close>-th event of a run its identifier and time in milliseconds, and the identifier and
  time of its CloudEvent.\<close>

record host =
  ho_float_repr :: "pyfloat \<Rightarrow> string"
  ho_object_repr :: "pyval \<Rightarrow> string"
  ho_repr :: "pyval \<Rightarrow> string option"
  ho_sha :: "string \<Rightarrow> string"
  ho_exp :: "pyfloat \<Rightarrow> pyfloat"
  ho_event :: "nat \<Rightarrow> string \<times> int \<times> string \<times> string"
  ho_alarm_available :: bool
  ho_fixed3 :: "pyfloat \<Rightarrow> string"

record ('a, 'k) runner_log =
  rl_audit :: 'a
  rl_sinks :: 'k
  rl_sink_errors :: "(string \<times> string \<times> string) list"

definition redact_payload :: "host \<Rightarrow> string list \<Rightarrow> payload \<Rightarrow> payload" where
  "redact_payload h blocked p = map (\<lambda>(k, v).
     (k, if lower k \<in> lower ` set blocked then PStr ''[REDACTED]'' else redact (ho_float_repr h) (ho_object_repr h) blocked v)) p"

text \<open>The store's \<^verbatim>\<open>record\<close> where it has one, otherwise the older protocol.\<close>

definition store_event ::
    "host \<Rightarrow> 'a audit_backend \<Rightarrow> bool \<Rightarrow> string \<Rightarrow> int \<Rightarrow> string \<Rightarrow> string \<Rightarrow> string \<Rightarrow> pyval \<Rightarrow> 'a \<Rightarrow> (exc + audit_event) \<times> 'a" where
  "store_event h bk hash_chain eid ts corr run ty p a =
     (case bk_record bk of
        Some record_fn \<Rightarrow> record_fn eid ts corr run ty p a
      | None \<Rightarrow> (case bk_last_hash bk corr a of
          Inl e \<Rightarrow> (Inl e, a)
        | Inr previous \<Rightarrow>
            let event = audit_event_create (ho_sha h) (ho_float_repr h) (ho_object_repr h) eid ts corr run ty p previous hash_chain in
            (case bk_append bk event a of (Inl e, a') \<Rightarrow> (Inl e, a') | (Inr _, a') \<Rightarrow> (Inr event, a'))))"

text \<open>The default store.\<close>

definition memory_backend :: "host \<Rightarrow> bool \<Rightarrow> mem_audit audit_backend" where
  "memory_backend h hash_chain =
     \<lparr>bk_hash_chain = Some hash_chain, bk_record = Some (mem_record (ho_sha h) (ho_float_repr h) (ho_object_repr h)),
      bk_last_hash = (\<lambda>corr a. Inr (mem_last_hash corr a)), bk_append = mem_append\<rparr>"

fun sink_loop :: "bool \<Rightarrow> string \<Rightarrow> cloud_event \<Rightarrow> (string \<times> 'k event_sink) list \<Rightarrow> ('a, 'k) runner_log \<Rightarrow> (exc + unit) \<times> ('a, 'k) runner_log" where
  "sink_loop strict ty e [] L = (Inr (), L)"
| "sink_loop strict ty e ((n, sink) # sinks) L =
     (case sink e (rl_sinks L) of
        (Inr _, k) \<Rightarrow> sink_loop strict ty e sinks (L\<lparr>rl_sinks := k\<rparr>)
      | (Inl x, k) \<Rightarrow>
          if \<not> is_Exception x then (Inl x, L\<lparr>rl_sinks := k\<rparr>)
          else let L' = L\<lparr>rl_sinks := k, rl_sink_errors := rl_sink_errors L @ [(n, exc_message x, ty)]\<rparr> in
            if strict then (Inl x, L') else sink_loop strict ty e sinks L')"

definition runner_cloud_event :: "host \<Rightarrow> ('w, 'a, 'k) runner \<Rightarrow> 'w ctx \<Rightarrow> string \<Rightarrow> string \<Rightarrow> string \<Rightarrow> payload \<Rightarrow> string \<Rightarrow> cloud_event" where
  "runner_cloud_event h r c new_id now ty safe audit_id =
     runtime_event new_id now ty (dict_merge safe [(''audit_event_id'', PStr audit_id)]) (rn_event_source r)
       (case map_of safe ''tool_name'' of Some v \<Rightarrow> str_of (ho_float_repr h) (ho_object_repr h) v
        | None \<Rightarrow> if rn_agent_id r \<noteq> [] then rn_agent_id r else rn_name r)
       (rn_organization_id r) (rn_environment r) (rn_agent_id r) (cx_correlation_id c) (cx_run_id c)"

text \<open>\<^verbatim>\<open>_log\<close>, for the \<open>n\<close>-th event of the run.\<close>

definition log_write ::
    "host \<Rightarrow> ('w, 'a, 'k) runner \<Rightarrow> 'w ctx \<Rightarrow> nat \<Rightarrow> string \<Rightarrow> payload \<Rightarrow> ('a, 'k) runner_log \<Rightarrow> (exc + unit) \<times> ('a, 'k) runner_log" where
  "log_write h r c n ty p L =
     (let safe = redact_payload h (rn_redacted_keys r) p; (eid, ts, new_id, now) = ho_event h n in
      case store_event h (rn_audit_store r) (rn_audit_hash_chain r) eid ts (cx_correlation_id c) (cx_run_id c) ty (str_dict safe) (rl_audit L) of
        (Inl e, a) \<Rightarrow> (Inl e, L\<lparr>rl_audit := a\<rparr>)
      | (Inr event, a) \<Rightarrow>
          sink_loop (rn_fail_on_event_sink_error r) ty (runner_cloud_event h r c new_id now ty safe (ae_event_id event))
            (rn_event_sinks r) (L\<lparr>rl_audit := a\<rparr>))"

text \<open>The events of a trace, and the log after them.\<close>

fun emissions :: "observation list \<Rightarrow> (string \<times> payload) list" where
  "emissions [] = []"
| "emissions (Emitted ty p # xs) = (ty, p) # emissions xs"
| "emissions (EmitFailed ty p # xs) = (ty, p) # emissions xs"
| "emissions (HandlerRun _ _ _ # xs) = emissions xs"

fun relog :: "host \<Rightarrow> ('w, 'a, 'k) runner \<Rightarrow> 'w ctx \<Rightarrow> nat \<Rightarrow> (string \<times> payload) list \<Rightarrow> ('a, 'k) runner_log \<Rightarrow> ('a, 'k) runner_log" where
  "relog h r c n [] L = L"
| "relog h r c n ((ty, p) # es) L = relog h r c (n + 1) es (snd (log_write h r c n ty p L))"

definition log_after :: "host \<Rightarrow> ('w, 'a, 'k) runner \<Rightarrow> 'w ctx \<Rightarrow> ('a, 'k) runner_log \<Rightarrow> observation list \<Rightarrow> ('a, 'k) runner_log" where
  "log_after h r c L tr = relog h r c 0 (emissions tr) L"

text \<open>The emitter of \<^verbatim>\<open>_new_context\<close>: it raises what \<^verbatim>\<open>_log\<close> raises on the event.\<close>

definition emitter_env :: "host \<Rightarrow> ('w, 'a, 'k) runner \<Rightarrow> 'w ctx \<Rightarrow> ('a, 'k) runner_log \<Rightarrow> ('w, 't) env \<Rightarrow> ('w, 't) env" where
  "emitter_env h r c L env = env\<lparr>e_emit_fault := (\<lambda>tr ty p.
     case log_write h r c (length (emissions tr)) ty p (log_after h r c L tr) of (Inl e, _) \<Rightarrow> Some e | (Inr _, _) \<Rightarrow> None)\<rparr>"

definition new_context :: "string \<Rightarrow> string \<Rightarrow> int \<Rightarrow> ('w, 'a, 'k) runner \<Rightarrow> 'w ctx" where
  "new_context corr run ms r =
     \<lparr>cx_correlation_id = corr, cx_run_id = run, cx_started_at_epoch_ms = ms,
      cx_metadata = dict_merge [(''name'', PStr (rn_name r))] (rn_metadata r), cx_guardrails = Some (rn_guardrails r),
      cx_tool_registry = rn_tool_registry r, cx_approval_callback = rn_approval_callback r, cx_audit_emitter = True,
      cx_policy_digest = rn_policy_digest r, cx_principal = map_option pr_subject (rn_principal r),
      cx_authorizer = (case (rn_authorizer r, rn_principal r) of
          (Some f, Some p) \<Rightarrow> Some (\<lambda>_. f p) | (Some f, None) \<Rightarrow> Some (\<lambda>_ _ _ _. Inr False) | (None, _) \<Rightarrow> None),
      cx_organization_id = rn_organization_id r, cx_environment = rn_environment r, cx_agent_id = rn_agent_id r\<rparr>"

section \<open>Agents\<close>

datatype agent_return = Plain pyval | WithConfidence pyval confidence_inputs

datatype 'w agent =
    Return agent_return
  | ReturnAwaitable "'w agent"
  | Fail exc
  | Call ctx_op "exc + pyval \<Rightarrow> 'w agent"
  | Observe "payload \<Rightarrow> 'w agent"
  | Outside "'w \<Rightarrow> 'w" "'w \<Rightarrow> 'w agent"

datatype 'w agent_outcome = Done agent_return | Pending "'w agent"

record 'w agent_fn =
  af_coroutine :: bool
  af_body :: "pyval \<Rightarrow> 'w agent"

primrec run_agent ::
    "('w, 't) env \<Rightarrow> 'w ctx \<Rightarrow> bool \<Rightarrow> exc \<Rightarrow> 'w agent \<Rightarrow> nat option \<Rightarrow> ('w agent_outcome, ('w, 't) sys) eff" where
  "run_agent env c cancels timeout (Return v) alarm = ret (Done v)"
| "run_agent env c cancels timeout (ReturnAwaitable a) alarm = ret (Pending a)"
| "run_agent env c cancels timeout (Fail e) alarm = raise e"
| "run_agent env c cancels timeout (Call x f) alarm = (\<lambda>s.
     if alarm = Some 0 then (if cancels then (Inl timeout, s) else run_agent env c cancels timeout (f (Inl timeout)) None s)
     else case ctx_do env c x s of (v, s') \<Rightarrow> run_agent env c cancels timeout (f v) (map_option (\<lambda>n. n - 1) alarm) s')"
| "run_agent env c cancels timeout (Observe f) alarm = (\<lambda>s. run_agent env c cancels timeout (f (snapshot c s)) alarm s)"
| "run_agent env c cancels timeout (Outside g f) alarm = (\<lambda>s. run_agent env c cancels timeout (f (s_ext s)) alarm (s\<lparr>s_ext := g (s_ext s)\<rparr>))"

section \<open>A run\<close>

record sentinel_result =
  sr_outcome :: decision_outcome
  sr_confidence :: pyfloat
  sr_output :: pyval
  sr_correlation_id :: string
  sr_run_id :: string
  sr_ctx_snapshot :: payload

definition safe_repr :: "host \<Rightarrow> pyval \<Rightarrow> string" where
  "safe_repr h v = (case ho_repr h v of None \<Rightarrow> ''<unreprable>''
     | Some rendered \<Rightarrow> if length rendered \<le> 2000 then rendered else take 1997 rendered @ ''...'')"

definition normalize_agent_return :: "agent_return \<Rightarrow> pyval \<times> confidence_inputs option" where
  "normalize_agent_return a = (case a of Plain v \<Rightarrow> (v, None) | WithConfidence v x \<Rightarrow> (v, Some x))"

definition no_confidence :: confidence_inputs where
  "no_confidence = \<lparr>prob = PNone, margin = PNone, z_score = PNone, entropy = PNone, llm_self_score = PNone\<rparr>"

definition confidence_asdict :: "confidence_inputs \<Rightarrow> payload" where
  "confidence_asdict x = [(''prob'', prob x), (''margin'', margin x), (''z_score'', z_score x), (''entropy'', entropy x), (''llm_self_score'', llm_self_score x)]"

definition preview :: "host \<Rightarrow> ('w, 'a, 'k) runner \<Rightarrow> pyval \<Rightarrow> pyval" where
  "preview h r v = PStr (safe_repr h (redact (ho_float_repr h) (ho_object_repr h) (rn_redacted_keys r) v))"

definition runner_start :: "host \<Rightarrow> ('w, 'a, 'k) runner \<Rightarrow> ('w, 't) env \<Rightarrow> 'w ctx \<Rightarrow> pyval \<Rightarrow> (unit, ('w, 't) sys) eff" where
  "runner_start h r env c input s =
     (let start_payload = [(''input_type'', PStr (py_type_name input)), (''deterministic_declared'', PBool (deterministic (rn_guardrails r))),
        (''policy_digest'', PStr (rn_policy_digest r)), (''organization_id'', PStr (rn_organization_id r)), (''environment'', PStr (rn_environment r)),
        (''agent_id'', PStr (rn_agent_id r)), (''principal_subject'', PStr (case rn_principal r of None \<Rightarrow> [] | Some p \<Rightarrow> pr_subject p)),
        (''ctx'', str_dict (snapshot c s))] @ (if rn_capture_input r then [(''input_preview'', preview h r input)] else [])
      in bnd (emit env c ''run_started'' start_payload) (\<lambda>_. bump_step c) s)"

definition run_completed :: "('w, 't) env \<Rightarrow> 'w ctx \<Rightarrow> string \<Rightarrow> int \<Rightarrow> (unit, ('w, 't) sys) eff" where
  "run_completed env c status elapsed s =
     emit env c ''run_completed'' [(''status'', PStr status), (''elapsed_ms'', PInt elapsed), (''ctx'', str_dict (snapshot c s))] s"

definition result_of :: "'w ctx \<Rightarrow> decision_outcome \<Rightarrow> pyfloat \<Rightarrow> pyval \<Rightarrow> (sentinel_result, ('w, 't) sys) eff" where
  "result_of c outcome confidence output s =
     (Inr \<lparr>sr_outcome = outcome, sr_confidence = confidence, sr_output = output, sr_correlation_id = cx_correlation_id c,
       sr_run_id = cx_run_id c, sr_ctx_snapshot = snapshot c s\<rparr>, s)"

definition runner_success ::
    "host \<Rightarrow> ('w, 'a, 'k) runner \<Rightarrow> ('w, 't) env \<Rightarrow> 'w ctx \<Rightarrow> confidence_inputs option \<Rightarrow> agent_return \<Rightarrow> (sentinel_result, ('w, 't) sys) eff" where
  "runner_success h r env c confidence_inputs agent_return =
     (let (output, from_agent) = normalize_agent_return agent_return;
          inputs = (case confidence_inputs of Some x \<Rightarrow> x | None \<Rightarrow> (case from_agent of Some x \<Rightarrow> x | None \<Rightarrow> no_confidence))
      in bnd (emit env c ''agent_output'' ([(''output_type'', PStr (py_type_name output))]
             @ (if rn_capture_output r then [(''output_preview'', preview h r output)] else []))) (\<lambda>_.
         bnd (lift (score (ho_exp h) (rn_decision_policy r) inputs)) (\<lambda>confidence.
         bnd (lift (decide (ho_exp h) (rn_decision_policy r) inputs)) (\<lambda>outcome.
         bnd (tick (e_epoch_ms env)) (\<lambda>elapsed.
         bnd (emit env c ''decision_made'' [(''confidence'', PFloat confidence), (''outcome'', PStr (outcome_value outcome)),
             (''inputs'', str_dict (confidence_asdict inputs))]) (\<lambda>_.
         bnd (run_completed env c ''ok'' elapsed) (\<lambda>_. result_of c outcome confidence output)))))))"

definition runner_approval_result :: "('w, 't) env \<Rightarrow> 'w ctx \<Rightarrow> checkpoint \<Rightarrow> (sentinel_result, ('w, 't) sys) eff" where
  "runner_approval_result env c ck =
     bnd (tick (e_epoch_ms env)) (\<lambda>elapsed.
     bnd (emit env c ''decision_made'' [(''confidence'', PFloat (Fin 0)), (''outcome'', PStr (outcome_value HUMAN_REVIEW)),
         (''reason'', PStr ''approval_required''), (''action_digest'', PStr (ck_action_digest ck))]) (\<lambda>_.
     bnd (run_completed env c ''pending_approval'' elapsed) (\<lambda>_.
       result_of c HUMAN_REVIEW (Fin 0) (str_dict [(''approval_checkpoint'', str_dict (checkpoint_payload ck))]))))"

definition runner_failure :: "('w, 't) env \<Rightarrow> 'w ctx \<Rightarrow> exc \<Rightarrow> (unit, ('w, 't) sys) eff" where
  "runner_failure env c e =
     bnd (tick (e_epoch_ms env)) (\<lambda>elapsed.
     bnd (\<lambda>s. emit env c ''run_failed'' [(''error_type'', PStr (exc_type_name e)), (''elapsed_ms'', PInt elapsed), (''ctx'', str_dict (snapshot c s))] s) (\<lambda>_.
     run_completed env c ''error'' elapsed))"

text \<open>The \<^verbatim>\<open>try\<close> statement that \<^verbatim>\<open>run\<close> and \<^verbatim>\<open>arun\<close> share.\<close>

definition runner_try :: "('w, 't) env \<Rightarrow> 'w ctx \<Rightarrow> (sentinel_result, ('w, 't) sys) eff \<Rightarrow> (sentinel_result, ('w, 't) sys) eff" where
  "runner_try env c m s =
     (case m s of
        (Inr x, s') \<Rightarrow> (Inr x, s')
      | (Inl e, s') \<Rightarrow> (case e of
          HumanApprovalRequired ck \<Rightarrow> runner_approval_result env c ck s'
        | _ \<Rightarrow> if is_Exception e then bnd (runner_failure env c e) (\<lambda>_. raise e) s' else (Inl e, s')))"

definition timeout_error :: "host \<Rightarrow> pyfloat \<Rightarrow> exc" where
  "timeout_error h seconds = OtherExc [''TimeoutError'', ''OSError'', ''Exception''] (''Sentinel run exceeded '' @ ho_fixed3 h seconds @ '' seconds'')"

text \<open>The body of the \<^verbatim>\<open>try\<close> statement of \<^verbatim>\<open>run\<close>: the agent under \<^verbatim>\<open>_hard_sync_timeout\<close>.\<close>

definition sync_body ::
    "host \<Rightarrow> ('w, 'a, 'k) runner \<Rightarrow> ('w, 't) env \<Rightarrow> 'w ctx \<Rightarrow> nat option \<Rightarrow> 'w agent \<Rightarrow> confidence_inputs option \<Rightarrow> (sentinel_result, ('w, 't) sys) eff" where
  "sync_body h r env c alarm a confidence =
     bnd (case rn_run_timeout_seconds r of
            None \<Rightarrow> run_agent env c False (TypeError []) a None
          | Some seconds \<Rightarrow>
              if \<not> ho_alarm_available h
              then raise (RuntimeError ''Hard synchronous run timeouts require a Unix main thread; use SentinelRunner.arun() on this platform'')
              else run_agent env c False (timeout_error h seconds) a alarm)
       (\<lambda>out. case out of
          Done v \<Rightarrow> runner_success h r env c confidence v
        | Pending _ \<Rightarrow> raise (TypeError ''Agent returned an awaitable; use SentinelRunner.arun(...)''))"

text \<open>The body of the \<^verbatim>\<open>try\<close> statement of \<^verbatim>\<open>arun\<close>.  An awaitable that comes out of an awaited one is an output like any other.\<close>

definition awaited :: "'w agent_outcome \<Rightarrow> agent_return" where
  "awaited out = (case out of Done v \<Rightarrow> v | Pending _ \<Rightarrow> Plain (PObj ''coroutine'' None))"

definition async_body ::
    "host \<Rightarrow> ('w, 'a, 'k) runner \<Rightarrow> ('w, 't) env \<Rightarrow> 'w ctx \<Rightarrow> nat option \<Rightarrow> bool \<Rightarrow> 'w agent \<Rightarrow> confidence_inputs option \<Rightarrow> (sentinel_result, ('w, 't) sys) eff" where
  "async_body h r env c alarm coroutine a confidence =
     (if coroutine then
        bnd (case rn_run_timeout_seconds r of
               None \<Rightarrow> run_agent env c True (TypeError []) a None
             | Some seconds \<Rightarrow> run_agent env c True (OtherExc [''TimeoutError'', ''OSError'', ''Exception''] []) a alarm)
          (\<lambda>out. runner_success h r env c confidence (awaited out))
      else if rn_run_timeout_seconds r \<noteq> None
        then raise (TypeError ''arun() with run_timeout_seconds requires an async agent; a timed-out worker thread cannot be safely cancelled'')
      else bnd (run_agent env c False (TypeError []) a None) (\<lambda>out. case out of
          Done v \<Rightarrow> runner_success h r env c confidence v
        | Pending b \<Rightarrow> bnd (run_agent env c True (TypeError []) b None) (\<lambda>out'. runner_success h r env c confidence (awaited out'))))"

text \<open>A run with a fresh context on the shared state of the program and the log of the runner.\<close>

definition fresh_counters :: "('w, 't) sys \<Rightarrow> ('w, 't) sys" where
  "fresh_counters s = s\<lparr>steps := 0, tool_calls := 0, cost_usd := Fin 0, s_trace := []\<rparr>"

definition runner_session ::
    "host \<Rightarrow> ('w, 'a, 'k) runner \<Rightarrow> ('w, 't) env \<Rightarrow> 'w ctx \<Rightarrow> pyval \<Rightarrow> (('w, 't) env \<Rightarrow> 'w ctx \<Rightarrow> (sentinel_result, ('w, 't) sys) eff)
     \<Rightarrow> ('a, 'k) runner_log \<Rightarrow> ('w, 't) sys \<Rightarrow> (exc + sentinel_result) \<times> ('a, 'k) runner_log \<times> ('w, 't) sys" where
  "runner_session h r env c input body L s =
     (let env' = emitter_env h r c L env in
      case bnd (runner_start h r env' c input) (\<lambda>_. runner_try env' c (body env' c)) (fresh_counters s) of
        (x, s') \<Rightarrow> (x, log_after h r c L (s_trace s'), s'))"

text \<open>The identifiers and the start time of the context come first.\<close>

definition runner_run ::
    "host \<Rightarrow> ('w, 'a, 'k) runner \<Rightarrow> ('w, 't) env \<Rightarrow> uuid_text \<Rightarrow> uuid_text \<Rightarrow> int \<Rightarrow> nat option \<Rightarrow> 'w agent_fn \<Rightarrow> pyval \<Rightarrow> confidence_inputs option
     \<Rightarrow> ('a, 'k) runner_log \<Rightarrow> ('w, 't) sys \<Rightarrow> (exc + sentinel_result) \<times> ('a, 'k) runner_log \<times> ('w, 't) sys" where
  "runner_run h r env corr run ms alarm f input confidence L s =
     (if af_coroutine f then (Inl (TypeError ''Asynchronous agents require await SentinelRunner.arun(...)''), L, s)
      else runner_session h r env (new_context corr run ms r) input
        (\<lambda>env' c. sync_body h r env' c alarm (af_body f input) confidence) L s)"

definition runner_arun ::
    "host \<Rightarrow> ('w, 'a, 'k) runner \<Rightarrow> ('w, 't) env \<Rightarrow> uuid_text \<Rightarrow> uuid_text \<Rightarrow> int \<Rightarrow> nat option \<Rightarrow> 'w agent_fn \<Rightarrow> pyval \<Rightarrow> confidence_inputs option
     \<Rightarrow> ('a, 'k) runner_log \<Rightarrow> ('w, 't) sys \<Rightarrow> (exc + sentinel_result) \<times> ('a, 'k) runner_log \<times> ('w, 't) sys" where
  "runner_arun h r env corr run ms alarm f input confidence L s =
     runner_session h r env (new_context corr run ms r) input
       (\<lambda>env' c. async_body h r env' c alarm (af_coroutine f) (af_body f input) confidence) L s"

end
