(* ===== verification/Telemetry_Laws.thy ===== *)
theory Telemetry_Laws
  imports Telemetry
begin

text \<open>
  What the event sinks guarantee: a composite sink hands an event to every sink whatever the others do, and
  OpenTelemetry's view of runtime events.
\<close>

section \<open>The composite sink\<close>

text \<open>The worlds the sinks of a composite are called in, one after the other.\<close>

primrec worlds :: "(string \<times> 'k event_sink) list \<Rightarrow> cloud_event \<Rightarrow> 'k \<Rightarrow> 'k list" where
  "worlds [] e w = []"
| "worlds (x # sinks) e w = w # worlds sinks e (snd (snd x e w))"

definition sink_failures :: "(string \<times> 'k event_sink) list \<Rightarrow> cloud_event \<Rightarrow> 'k \<Rightarrow> (string \<times> string) list" where
  "sink_failures sinks e w = concat (map (\<lambda>((n, sink), v). case fst (sink e v) of Inl x \<Rightarrow> [(n, exc_message x)] | Inr _ \<Rightarrow> []) (zip sinks (worlds sinks e w)))"

definition ordinary_sinks :: "(string \<times> 'k event_sink) list \<Rightarrow> bool" where
  "ordinary_sinks sinks \<longleftrightarrow> (\<forall>(n, sink)\<in>set sinks. \<forall>e w x w'. sink e w = (Inl x, w') \<longrightarrow> is_Exception x)"

lemma emit_to_all_ordinary:
  assumes "ordinary_sinks sinks"
  shows "emit_to_all sinks e errors w = ((None, errors @ sink_failures sinks e w), foldl (\<lambda>w (n, sink). snd (sink e w)) w sinks)"
  using assms
proof (induction sinks arbitrary: errors w)
  case (Cons x sinks)
  obtain n sink where x: "x = (n, sink)" by force
  obtain r w' where r: "sink e w = (r, w')" by fastforce
  have IH: "emit_to_all sinks e er w' = ((None, er @ sink_failures sinks e w'), foldl (\<lambda>w (n, sink). snd (sink e w)) w' sinks)" for er
    using Cons by (simp add: ordinary_sinks_def)
  show ?case
  proof (cases r)
    case (Inl ex)
    then have "is_Exception ex" using Cons.prems r x by (auto simp: ordinary_sinks_def)
    then show ?thesis using Inl r x IH by (simp add: sink_failures_def)
  next
    case (Inr u)
    then show ?thesis using r x IH by (simp add: sink_failures_def)
  qed
qed (simp add: sink_failures_def)

text \<open>Every sink is called exactly once, in order, whatever the others do; the failures are exactly those of the sinks that
  raised; the composite raises exactly when it fails closed and one of them did.\<close>

lemma composite_reaches_every_sink:
  assumes "ordinary_sinks (cs_sinks cs)"
  shows "composite_emit e (cs, w) =
    ((if sink_failures (cs_sinks cs) e w \<noteq> [] \<and> cs_fail_closed cs then Inl (delivery_error '' enterprise event sink(s) failed'') else Inr ()),
     cs\<lparr>cs_failures := cs_failures cs @ sink_failures (cs_sinks cs) e w\<rparr>, foldl (\<lambda>w (n, sink). snd (sink e w)) w (cs_sinks cs))"
  by (simp add: composite_emit_def emit_to_all_ordinary [OF assms])

section \<open>OpenTelemetry\<close>

lemma map_sum_Inr: "map_sum id f r = Inr y \<longleftrightarrow> (\<exists>x. r = Inr x \<and> y = f x)"
  by (cases r) auto

lemma ends_with_set: "ends_with s t \<Longrightarrow> set t \<subseteq> set s"
  by (metis ends_with_def set_drop_subset)

lemma runtime_type_no_underscore: "CHR ''_'' \<notin> set (ce_type (runtime_event i now ty p source subject org environ agent corr run))"
  by (auto simp: runtime_event_def replace_char_def Let_def split: if_splits)

lemma runtime_type_ends:
  "\<not> ends_with (ce_type (runtime_event i now ty p source subject org environ agent corr run)) ''run_completed''"
  "\<not> ends_with (ce_type (runtime_event i now ty p source subject org environ agent corr run)) ''run_failed''"
  "\<not> ends_with (ce_type (runtime_event i now ty p source subject org environ agent corr run)) ''authorization_denied''"
  using runtime_type_no_underscore [of i now ty p source subject org environ agent corr run]
  by (auto dest!: ends_with_set)

fun is_error_span :: "otel_call \<Rightarrow> bool" where
  "is_error_span (Span _ _ err) = err"
| "is_error_span _ = False"

lemma otel_cost_calls: "otel_cost e = Inr xs \<Longrightarrow> x \<in> set xs \<Longrightarrow> is_AddCostUsd x"
  by (auto simp: otel_cost_def optionally_def map_sum_Inr split: option.splits)

lemma otel_latency_calls:
  "otel_latency e = Inr xs \<Longrightarrow> x \<in> set xs \<Longrightarrow> is_RecordApprovalLatency x \<or> is_RecordRunLatency x \<and> ends_with (ce_type e) ''run_completed''"
  by (auto simp: otel_latency_def optionally_def map_sum_Inr split: option.splits if_splits)

text \<open>The OpenTelemetry sink looks for event types that end in \<^verbatim>\<open>run_completed\<close>, \<^verbatim>\<open>run_failed\<close> and \<^verbatim>\<open>authorization_denied\<close>, but
  the types of runtime events have their underscores replaced by dots: whatever a runner publishes, the sink never
  records the duration of a run and never marks a span as an error.\<close>

theorem otel_misses_runs:
  "\<exists>new. snd (otel_emit (runtime_event i now ty p source subject org environ agent corr run) calls) = calls @ new
     \<and> list_all (\<lambda>x. \<not> is_RecordRunLatency x \<and> \<not> is_error_span x) new"
proof -
  let ?e = "runtime_event i now ty p source subject org environ agent corr run"
  have "snd (otel_emit ?e calls) = calls @ AddEvent (otel_attributes ?e) # (case otel_cost ?e of Inl _ \<Rightarrow> [] | Inr costs \<Rightarrow> costs
      @ (case otel_latency ?e of Inl _ \<Rightarrow> [] | Inr xs \<Rightarrow> xs @ [Span (ce_type ?e) (otel_attributes ?e) False]))"
    by (simp add: otel_emit_def runtime_type_ends split: sum.splits)
  moreover have "is_AddCostUsd x" if "otel_cost ?e = Inr xs" "x \<in> set xs" for x xs
    using that otel_cost_calls by fast
  moreover have "is_RecordApprovalLatency x" if "otel_latency ?e = Inr xs" "x \<in> set xs" for x xs
    using that otel_latency_calls [of ?e xs x] by (simp add: runtime_type_ends)
  ultimately show ?thesis by (fastforce simp: list_all_iff is_AddCostUsd_def is_RecordApprovalLatency_def split: sum.splits)
qed

text \<open>The increments of the cost counter.\<close>

fun cost_of :: "otel_call \<Rightarrow> pyfloat list" where
  "cost_of (AddCostUsd x _) = [x]"
| "cost_of _ = []"

definition otel_costs :: "cloud_event list \<Rightarrow> pyfloat list" where
  "otel_costs es = concat (map (\<lambda>e. concat (map cost_of (snd (otel_emit e [])))) es)"

lemma otel_cost_event:
  assumes "map_of (ce_data e) ''cost_usd'' = Some (PFloat x)" "fle (Fin 0) x"
  shows "otel_costs [e] = [x]"
proof -
  have "otel_cost e = Inr [AddCostUsd x (otel_attributes e)]" using assms by (simp add: otel_cost_def measured_def optionally_def)
  moreover have "concat (map cost_of xs) = []" if "otel_latency e = Inr xs" for xs
    using otel_latency_calls [OF that] by (fastforce simp: is_RecordApprovalLatency_def is_RecordRunLatency_def)
  ultimately show ?thesis by (auto simp: otel_costs_def otel_emit_def Let_def split: sum.splits)
qed

lemma otel_costs_append: "otel_costs (es @ es') = otel_costs es @ otel_costs es'"
  by (simp add: otel_costs_def)

end
