(* ===== verification/Runner_Laws.thy ===== *)
theory Runner_Laws
  imports Runner Telemetry_Laws Context_Laws Audit_Laws Rbac_Laws
begin

text \<open>
  What a run guarantees, for every agent: the audit trail is opened, closed and recorded, the limits hold, and no handler
  runs but through the guards of the context.  The facts about agents are proved once, in a locale of the relations between
  states that the operations of a context keep.
\<close>

section \<open>Relations kept by every agent\<close>

locale agent_relation =
  fixes env :: "('w, 't) env" and c :: "'w ctx" and R :: "('w, 't) sys \<Rightarrow> ('w, 't) sys \<Rightarrow> bool"
  assumes R_refl: "R s s" and R_trans: "R s s' \<Longrightarrow> R s' s'' \<Longrightarrow> R s s''"
    and R_outside: "R s (s\<lparr>s_ext := w\<rparr>)" and R_do: "R s (snd (ctx_do env c x s))"
begin

lemma kept_by_agent: "R s (snd (run_agent env c cancels timeout a alarm s))"
proof (induction a arbitrary: alarm s)
  case (Call x f)
  obtain v s' where "ctx_do env c x s = (v, s')" by fastforce
  then show ?case using R_do [of s x] R_trans Call R_refl by fastforce
next
  case (Outside g f)
  then show ?case using R_trans [OF R_outside [of s "g (s_ext s)"]] by auto
qed (simp_all add: R_refl ret_def raise_def)

end

text \<open>Relations that the events and clock readings of the runner keep as well.\<close>

locale runner_relation = agent_relation env c R for env :: "('w, 't) env" and c :: "'w ctx" and R :: "('w, 't) sys \<Rightarrow> ('w, 't) sys \<Rightarrow> bool" +
  assumes R_emit: "R s (snd (emit env c ty p s))" and R_tick: "R s (s\<lparr>s_ticks := n\<rparr>)"
begin

lemma kept_bnd: "keeps R m \<Longrightarrow> (\<And>x. keeps R (f x)) \<Longrightarrow> keeps R (bnd m f)"
  by (rule keeps_bnd) (rule R_trans)

lemma kept_basic:
  "keeps R (ret v)" "keeps R (raise e)" "keeps R (lift y)" "keeps R (tick f)" "keeps R (emit env c ty p)" "keeps R (run_completed env c status elapsed)"
  "keeps R (result_of c d q o')" "keeps R (bump_step c)" "keeps R (run_agent env c cancels timeout a alarm)"
  "keeps R (\<lambda>s. emit env c ty (g s) s)"
  using R_do [of _ BumpStep]
  by (simp_all add: keeps_def R_refl R_emit R_tick kept_by_agent ret_def raise_def lift_def tick_def run_completed_def result_of_def snd_bnd_ret)

lemma kept_success: "keeps R (runner_success h r env c confidence v)"
  unfolding runner_success_def Let_def split_beta by (intro kept_bnd kept_basic)

lemma kept_approval: "keeps R (runner_approval_result env c ck)"
  unfolding runner_approval_result_def by (intro kept_bnd kept_basic)

lemma kept_failure: "keeps R (bnd (runner_failure env c e) (\<lambda>_. raise e) :: (sentinel_result, ('w, 't) sys) eff)"
  unfolding runner_failure_def by (intro kept_bnd kept_basic)

lemma kept_try:
  assumes "keeps R m"
  shows "keeps R (runner_try env c m)"
  unfolding keeps_def
proof
  fix s
  obtain x s1 where m: "m s = (x, s1)" by fastforce
  then have 1: "R s s1" using assms unfolding keeps_def by (metis snd_conv)
  have "R s1 (snd (runner_approval_result env c ck s1))" "R s1 (snd ((bnd (runner_failure env c e) (\<lambda>_. raise e) :: (sentinel_result, ('w, 't) sys) eff) s1))" for ck e
    using kept_approval kept_failure by (simp_all add: keeps_def)
  then show "R s (snd (runner_try env c m s))" using 1 R_trans m by (auto simp: runner_try_def split: sum.splits exc.splits)
qed

lemma kept_sync: "keeps R (sync_body h r env c alarm a confidence)"
  unfolding sync_body_def
  by (intro kept_bnd) (auto split: option.splits agent_outcome.splits intro: kept_basic kept_success)

lemma kept_async: "keeps R (async_body h r env c alarm co a confidence)"
  unfolding async_body_def
  by (auto split: option.splits agent_outcome.splits intro!: kept_bnd intro: kept_basic kept_success)

lemma kept_start: "keeps R (runner_start h r env c input)"
proof -
  have "keeps R (bnd (emit env c ''run_started'' p) (\<lambda>_. bump_step c))" for p by (intro kept_bnd kept_basic)
  then show ?thesis unfolding keeps_def runner_start_def Let_def by blast
qed

lemma kept_run: "keeps R body \<Longrightarrow> keeps R (bnd (runner_start h r env c input) (\<lambda>_. runner_try env c body))"
  by (intro kept_bnd kept_start kept_try)

end

text \<open>The trace only grows by the events of calls and by handler invocations; the latter satisfy \<open>Q\<close>.\<close>

definition call_event_types :: "string list" where
  "call_event_types = [''tool_requested'', ''tool_authorized'', ''tool_started'', ''tool_completed'', ''tool_failed'',
     ''authorization_decision'', ''authorization_denied'', ''approval_granted'', ''approval_required'']"

fun call_obs :: "(nat \<Rightarrow> pyval list \<Rightarrow> payload \<Rightarrow> bool) \<Rightarrow> observation \<Rightarrow> bool" where
  "call_obs Q (Emitted ty p) = (ty \<in> set call_event_types)"
| "call_obs Q (EmitFailed ty p) = (ty \<in> set call_event_types)"
| "call_obs Q (HandlerRun i a k) = Q i a k"

definition calls :: "(nat \<Rightarrow> pyval list \<Rightarrow> payload \<Rightarrow> bool) \<Rightarrow> ('w, 't) sys \<Rightarrow> ('w, 't) sys \<Rightarrow> bool" where
  "calls Q s s' \<longleftrightarrow> (\<exists>ys. s_trace s' = s_trace s @ ys \<and> list_all (call_obs Q) ys)"

lemma calls_refl [simp]: "calls Q s s"
  by (simp add: calls_def)

lemma calls_trans: "calls Q s s' \<Longrightarrow> calls Q s' s'' \<Longrightarrow> calls Q s s''"
  by (fastforce simp: calls_def)

lemma calls_same: "s_trace s' = s_trace s \<Longrightarrow> calls Q s s'"
  by (simp add: calls_def)

named_theorems calls_intros \<open>operations that only add events of calls\<close>

lemma calls_bnd [calls_intros]: "keeps (calls Q) m \<Longrightarrow> (\<And>x. keeps (calls Q) (f x)) \<Longrightarrow> keeps (calls Q) (bnd m f)"
  by (rule keeps_bnd) (rule calls_trans)

lemmas calls_ret [calls_intros] = keeps_ret [where R = "calls Q" for Q, OF calls_refl]

lemma calls_tick [calls_intros]: "keeps (calls Q) (tick f)"
  by (simp add: keeps_def tick_def calls_same)

lemma calls_emit: "ty \<in> set call_event_types \<Longrightarrow> keeps (calls Q) (emit env c ty p)"
  by (auto simp: keeps_def emit_def calls_def split: option.splits)

lemma calls_emits [calls_intros]:
  "keeps (calls Q) (emit env c ''tool_requested'' p)"
  "keeps (calls Q) (emit env c ''tool_authorized'' p)"
  "keeps (calls Q) (emit env c ''tool_started'' p)"
  "keeps (calls Q) (emit env c ''tool_completed'' p)"
  "keeps (calls Q) (emit env c ''tool_failed'' p)"
  "keeps (calls Q) (emit env c ''authorization_decision'' p)"
  "keeps (calls Q) (emit env c ''authorization_denied'' p)"
  "keeps (calls Q) (emit env c ''approval_granted'' p)"
  "keeps (calls Q) (emit env c ''approval_required'' p)"
  by (simp_all add: calls_emit call_event_types_def)

lemma calls_check_limits [calls_intros]: "keeps (calls Q) (check_limits c a b x)"
  by (auto simp: check_limits_def intro: calls_intros split: option.splits)

lemma calls_checkpoint [calls_intros]: "keeps (calls Q) (approval_checkpoint env c n t a k x i)"
  unfolding approval_checkpoint_def Let_def by (intro calls_intros)

lemma calls_access [calls_intros]: "keeps (calls Q) (authorize_access env c n spec)"
  unfolding authorize_access_def Let_def by (auto intro!: calls_intros split: option.splits)

lemma calls_ask [calls_intros]: "keeps (calls Q) (ask_approval c t a k ck)"
  by (auto simp: keeps_def ask_approval_def calls_same split: option.splits prod.splits)

lemma calls_authorize [calls_intros]: "keeps (calls Q) (authorize env c spec a k ck)"
  unfolding authorize_def with_checkpoint_def
  by (auto intro!: calls_intros split: option.splits approval_response.splits bool.splits sum.splits)

lemma calls_charge [calls_intros]: "keeps (calls Q) (charge_call env c spec a k x ck base)"
proof -
  let ?m = "bnd (emit env c ''tool_authorized'' base) (\<lambda>_. emit env c ''tool_started'' base)"
  have "keeps (calls Q) ?m" by (intro calls_intros)
  then have "calls Q (s\<lparr>tool_calls := n, cost_usd := y\<rparr>) (snd (?m (s\<lparr>tool_calls := n, cost_usd := y\<rparr>)))" for s n y
    unfolding keeps_def by blast
  then have last: "keeps (calls Q) (\<lambda>s. ?m (s\<lparr>tool_calls := n, cost_usd := y\<rparr>))" for n y
    unfolding keeps_def calls_def by simp
  have "calls Q s (snd (bnd (check_limits c st m y) (\<lambda>_ s. ?m (s\<lparr>tool_calls := m, cost_usd := y\<rparr>)) s))" for s st m y
    using calls_bnd [OF calls_check_limits last, unfolded keeps_def] by (rule spec)
  then have "keeps (calls Q) (\<lambda>s. let prospective_calls = tool_calls s + 1; prospective_cost = fadd (cost_usd s) x in
       bnd (check_limits c (steps s) prospective_calls prospective_cost) (\<lambda>_ s.
         ?m (s\<lparr>tool_calls := prospective_calls, cost_usd := prospective_cost\<rparr>)) s)"
    unfolding keeps_def Let_def by blast
  then show ?thesis unfolding charge_call_def by (intro calls_intros)
qed

lemma calls_prepare: "keeps (calls Q) (prepare_call env c n f args k cost am)"
proof -
  have "keeps (calls Q) (check_allowed c n)" by (auto simp: check_allowed_def intro: calls_intros split: option.splits)
  moreover have "keeps (calls Q) (maybe_checkpoint env c n h spec a k x)" for h spec a x
    unfolding maybe_checkpoint_def by (auto intro!: calls_intros split: option.splits)
  ultimately show ?thesis unfolding prepare_call_def Let_def split_beta by (intro calls_intros)
qed

lemma calls_close: "keeps (calls Q) (close_call env c base r)"
  unfolding close_call_def by (auto intro!: calls_intros split: sum.splits)

lemma calls_snd: "keeps (calls Q) m \<Longrightarrow> m s = (r, s') \<Longrightarrow> calls Q s s'"
  by (auto simp: keeps_def dest: spec [of _ s])

text \<open>What the context admitted, in some state of the run.\<close>

definition passed_guards :: "('w, 't) env \<Rightarrow> 'w ctx \<Rightarrow> nat \<Rightarrow> pyval list \<Rightarrow> payload \<Rightarrow> bool" where
  "passed_guards env c i a k \<longleftrightarrow> (\<exists>am n f args cost s h spec x. i = h_id h \<and> admitted env c am n f args k cost s h a spec x)"

lemma calls_call_tool: "calls (passed_guards env c) s (snd (call_tool env c am n f args k cost s))"
proof -
  obtain r s' where 1: "call_tool env c am n f args k cost s = (r, s')" by fastforce
  then have "calls (passed_guards env c) s s'"
  proof (cases rule: call_tool_cases)
    case (refused e)
    then show ?thesis using calls_snd [OF calls_prepare] by blast
  next
    case (run h a spec x base s1 r2 s2)
    have "admitted env c am n f args k cost s h a spec x" using prepare_call_Inr [OF run(1)] by blast
    then have "passed_guards env c (h_id h) a k" unfolding passed_guards_def by blast
    then have "calls (passed_guards env c) s1 s2"
      using spends_execute [of spec h a k s1 env am] run(2) by (auto simp: spends_def calls_def list_all_iff)
    then show ?thesis
      using calls_trans [OF calls_snd [OF calls_prepare run(1)]] calls_trans calls_snd [OF calls_close run(3)] by blast
  qed
  then show ?thesis using 1 by simp
qed

lemma calls_ctx_do: "calls (passed_guards env c) s (snd (ctx_do env c x s))"
proof -
  have "s_trace (snd (bump_step c s)) = s_trace s" "s_trace (snd (bump_tool_call c s)) = s_trace s" "s_trace (snd (add_cost c v s)) = s_trace s" for v
    by (auto simp: bump_step_def bump_tool_call_def add_cost_def Let_def bnd_def check_limits_def ret_def lift_def split: option.splits sum.splits)
  then show ?thesis by (cases x) (auto simp: snd_bnd_ret calls_same calls_call_tool)
qed

interpretation trail: agent_relation env c "calls (passed_guards env c)"
  by unfold_locales (auto intro: calls_trans calls_ctx_do calls_same)

text \<open>Handlers run only behind the guards, whatever the emitter does.\<close>

fun run_obs :: "(nat \<Rightarrow> pyval list \<Rightarrow> payload \<Rightarrow> bool) \<Rightarrow> observation \<Rightarrow> bool" where
  "run_obs Q (HandlerRun i a k) = Q i a k"
| "run_obs Q _ = True"

definition mediated :: "(nat \<Rightarrow> pyval list \<Rightarrow> payload \<Rightarrow> bool) \<Rightarrow> ('w, 't) sys \<Rightarrow> ('w, 't) sys \<Rightarrow> bool" where
  "mediated Q s s' \<longleftrightarrow> (\<exists>ys. s_trace s' = s_trace s @ ys \<and> list_all (run_obs Q) ys)"

lemma calls_mediated: "calls Q s s' \<Longrightarrow> mediated Q s s'"
proof -
  have "call_obs Q x \<Longrightarrow> run_obs Q x" for x by (cases x) auto
  then show "calls Q s s' \<Longrightarrow> mediated Q s s'" unfolding calls_def mediated_def by (blast intro: list.pred_mono_strong)
qed

interpretation mediation: runner_relation env c "mediated (passed_guards env c)"
  by unfold_locales
    (fastforce simp: mediated_def emit_def intro: calls_mediated calls_ctx_do split: option.splits if_splits)+

text \<open>The counters stay within the limits.\<close>

definition stays_in :: "guardrails \<Rightarrow> ('w, 't) sys \<Rightarrow> ('w, 't) sys \<Rightarrow> bool" where
  "stays_in g s s' \<longleftrightarrow> (in_limits g s \<longrightarrow> in_limits g s')"

lemma limits_relation:
  assumes "wf_guardrails g" "cx_guardrails c = Some g"
  shows "runner_relation env c (stays_in g)"
  by unfold_locales
    (use ctx_step_limits [OF assms] in \<open>auto simp: stays_in_def ctx_step_def in_limits_def emit_def split: option.splits\<close>)

section \<open>The log\<close>

lemma sink_loop_audit [simp]: "rl_audit (snd (sink_loop strict ty e sinks L)) = rl_audit L"
  by (induction strict ty e sinks L rule: sink_loop.induct) (auto simp: Let_def split: sum.splits prod.splits)

lemma sink_loop_lenient: "ordinary_sinks sinks \<Longrightarrow> fst (sink_loop False ty e sinks L) = Inr ()"
proof (induction sinks arbitrary: L)
  case (Cons x sinks)
  obtain n sink where x: "x = (n, sink)" by force
  obtain r k where r: "sink e (rl_sinks L) = (r, k)" by fastforce
  have "r = Inl ex \<Longrightarrow> is_Exception ex" for ex using Cons.prems r x by (auto simp: ordinary_sinks_def)
  moreover have "ordinary_sinks sinks" using Cons.prems by (simp add: ordinary_sinks_def)
  ultimately show ?case using Cons.IH r x by (cases r) (auto simp: Let_def)
qed simp

lemma log_write_memory:
  assumes "rn_audit_store r = memory_backend h hc" "ho_event h n = (eid, ts, i, now)"
  shows "rl_audit (snd (log_write h r c n ty p L)) =
    snd (mem_record (ho_sha h) (ho_float_repr h) (ho_object_repr h) eid ts (cx_correlation_id c) (cx_run_id c) ty
      (str_dict (redact_payload h (rn_redacted_keys r) p)) (rl_audit L))"
  by (simp add: log_write_def assms store_event_def memory_backend_def mem_record_def Let_def)

lemma log_write_lenient:
  assumes "rn_audit_store r = memory_backend h hc" "\<not> rn_fail_on_event_sink_error r" "ordinary_sinks (rn_event_sinks r)"
  shows "fst (log_write h r c n ty p L) = Inr ()"
  using assms sink_loop_lenient by (auto simp: log_write_def store_event_def memory_backend_def mem_record_def Let_def split: prod.splits)

text \<open>An in-memory store whose events verify and whose cache is the end of their chains.\<close>

definition chain_end :: "bool \<Rightarrow> (string \<rightharpoonup> json) \<Rightarrow> audit_event list \<Rightarrow> (string \<rightharpoonup> json)" where
  "chain_end hc m es = (if hc then foldl (\<lambda>m e. m(ae_correlation_id e \<mapsto> ae_hash e)) m es else m)"

definition mem_sound :: "host \<Rightarrow> mem_audit \<Rightarrow> bool" where
  "mem_sound h st \<longleftrightarrow> verify_events (ho_sha h) (ho_float_repr h) (ho_object_repr h) False (ma_hash_chain st) Map.empty (ma_events st) = Inr ()
     \<and> ma_last_hash_cache st = chain_end (ma_hash_chain st) Map.empty (ma_events st)"

lemma verify_events_snoc:
  "verify_events sha fr orr False hc m (es @ [e]) = Inr () \<longleftrightarrow> verify_events sha fr orr False hc m es = Inr ()
     \<and> ae_prev_hash e = cached (chain_end hc m es) (ae_correlation_id e)
     \<and> (if hc then JStr (sha (stable_json fr orr (hash_base e))) = ae_hash e else ae_hash e = JNull)"
  by (induction es arbitrary: m) (auto simp: chain_end_def)

lemma mem_sound_init: "mem_sound h (mem_audit_init hc)"
  by (simp add: mem_sound_def mem_audit_init_def chain_end_def)

lemma mem_sound_record:
  assumes "mem_sound h st" "\<And>x. ho_sha h x \<noteq> []"
  shows "mem_sound h (snd (mem_record (ho_sha h) (ho_float_repr h) (ho_object_repr h) eid ts corr run ty p st))"
  using assms
  by (auto simp: mem_sound_def mem_record_def mem_add_def Let_def verify_events_snoc audit_event_create_def hash_base_def chain_end_def)

lemma mem_sound_verify: "mem_sound h st \<Longrightarrow> mem_verify (ho_sha h) (ho_float_repr h) (ho_object_repr h) st = Inr (length (ma_events st))"
  by (simp add: mem_sound_def mem_verify_def)

text \<open>The events of a store as the runner wrote them.\<close>

definition written :: "host \<Rightarrow> ('w, 'a, 'k) runner \<Rightarrow> 'w ctx \<Rightarrow> string \<times> payload \<Rightarrow> string \<times> string \<times> string \<times> json_object" where
  "written h r c = (\<lambda>(ty, p). (cx_correlation_id c, cx_run_id c, ty,
     safe_payload (ho_float_repr h) (ho_object_repr h) (str_dict (redact_payload h (rn_redacted_keys r) p))))"

definition event_view :: "audit_event \<Rightarrow> string \<times> string \<times> string \<times> json_object" where
  "event_view e = (ae_correlation_id e, ae_run_id e, ae_event_type e, ae_payload e)"

lemma relog_memory:
  assumes st: "rn_audit_store r = memory_backend h hc" and sha: "\<And>x. ho_sha h x \<noteq> []" and "mem_sound h (rl_audit L)"
  shows "mem_sound h (rl_audit (relog h r c n es L))
    \<and> map event_view (ma_events (rl_audit (relog h r c n es L))) = map event_view (ma_events (rl_audit L)) @ map (written h r c) es"
  using assms(3)
proof (induction es arbitrary: n L)
  case (Cons x es)
  obtain ty p where x: "x = (ty, p)" by force
  obtain eid ts i now where ev: "ho_event h n = (eid, ts, i, now)" by (metis prod.exhaust)
  note w = log_write_memory [OF st ev, of c ty p L]
  let ?L = "snd (log_write h r c n ty p L)"
  have "mem_sound h (rl_audit ?L)" unfolding w by (rule mem_sound_record [OF Cons.prems sha])
  moreover have "map event_view (ma_events (rl_audit ?L)) = map event_view (ma_events (rl_audit L)) @ [written h r c x]"
    unfolding w by (simp add: mem_record_def mem_add_def Let_def audit_event_create_def event_view_def written_def x)
  ultimately show ?case using Cons.IH [of ?L "n + 1"] x by simp
qed simp

section \<open>The trail of a run\<close>

lemma emissions_append [simp]: "emissions (xs @ ys) = emissions xs @ emissions ys"
  by (induction xs rule: emissions.induct) auto

lemma emissions_calls: "list_all (call_obs Q) ys \<Longrightarrow> fst ` set (emissions ys) \<subseteq> set call_event_types"
  by (induction ys rule: emissions.induct) auto

definition completed_payload :: "string \<Rightarrow> int \<Rightarrow> payload \<Rightarrow> payload" where
  "completed_payload status elapsed snap = [(''status'', PStr status), (''elapsed_ms'', PInt elapsed), (''ctx'', str_dict snap)]"

text \<open>The last two events of a run and the answer of the runner.\<close>

definition decided :: "host \<Rightarrow> decision_policy \<Rightarrow> sentinel_result \<Rightarrow> payload \<Rightarrow> bool" where
  "decided h pol res p \<longleftrightarrow> (\<exists>inputs. score (ho_exp h) pol inputs = Inr (sr_confidence res) \<and> decide (ho_exp h) pol inputs = Inr (sr_outcome res)
     \<and> p = [(''confidence'', PFloat (sr_confidence res)), (''outcome'', PStr (outcome_value (sr_outcome res))), (''inputs'', str_dict (confidence_asdict inputs))])"

definition awaits_approval :: "sentinel_result \<Rightarrow> payload \<Rightarrow> bool" where
  "awaits_approval res p \<longleftrightarrow> sr_outcome res = HUMAN_REVIEW \<and> sr_confidence res = Fin 0
     \<and> (\<exists>ck. sr_output res = str_dict [(''approval_checkpoint'', str_dict (checkpoint_payload ck))]
       \<and> p = [(''confidence'', PFloat (Fin 0)), (''outcome'', PStr ''human_review''), (''reason'', PStr ''approval_required''),
              (''action_digest'', PStr (ck_action_digest ck))])"

definition closing :: "host \<Rightarrow> decision_policy \<Rightarrow> payload \<Rightarrow> exc + sentinel_result \<Rightarrow> (string \<times> payload) list \<Rightarrow> bool" where
  "closing h pol snap x tail \<longleftrightarrow> (case x of
     Inr res \<Rightarrow> sr_ctx_snapshot res = snap \<and> (\<exists>p elapsed.
         decided h pol res p \<and> tail = [(''decision_made'', p), (''run_completed'', completed_payload ''ok'' elapsed snap)]
       \<or> awaits_approval res p \<and> tail = [(''decision_made'', p), (''run_completed'', completed_payload ''pending_approval'' elapsed snap)])
   | Inl e \<Rightarrow> if is_Exception e
       then \<exists>elapsed. tail = [(''run_failed'', [(''error_type'', PStr (exc_type_name e)), (''elapsed_ms'', PInt elapsed), (''ctx'', str_dict snap)]),
              (''run_completed'', completed_payload ''error'' elapsed snap)]
       else tail = [])"

text \<open>With an emitter that does not fail.\<close>

locale open_emitter =
  fixes env :: "('w, 't) env" and c :: "'w ctx"
  assumes emitting: "cx_audit_emitter c" and faultless: "e_emit_fault env tr ty p = None"
begin

lemma emit_ok [simp]: "emit env c ty p s = (Inr (), s\<lparr>s_trace := s_trace s @ [Emitted ty p]\<rparr>)"
  by (simp add: emit_def emitting faultless)

lemma snapshot_trace [simp]: "snapshot c (s\<lparr>s_trace := tr\<rparr>) = snapshot c s" "snapshot c (s\<lparr>s_ticks := n\<rparr>) = snapshot c s"
  by (simp_all add: snapshot_def)

lemma success_trail:
  assumes "runner_success h r env c confidence v s = (x, s')"
  obtains (ok) p1 inputs elapsed res where "x = Inr res" "score (ho_exp h) (rn_decision_policy r) inputs = Inr (sr_confidence res)"
      "decide (ho_exp h) (rn_decision_policy r) inputs = Inr (sr_outcome res)" "sr_ctx_snapshot res = snapshot c s"
      "s' = s\<lparr>s_ticks := s_ticks s + 1, s_trace := s_trace s @ [Emitted ''agent_output'' p1,
         Emitted ''decision_made'' [(''confidence'', PFloat (sr_confidence res)), (''outcome'', PStr (outcome_value (sr_outcome res))), (''inputs'', str_dict (confidence_asdict inputs))],
         Emitted ''run_completed'' [(''status'', PStr ''ok''), (''elapsed_ms'', PInt elapsed), (''ctx'', str_dict (snapshot c s))]]\<rparr>"
  | (bad) e p1 where "x = Inl e" "score (ho_exp h) (rn_decision_policy r) (case confidence of Some y \<Rightarrow> y
        | None \<Rightarrow> (case snd (normalize_agent_return v) of Some y \<Rightarrow> y | None \<Rightarrow> no_confidence)) = Inl e"
      "s' = s\<lparr>s_trace := s_trace s @ [Emitted ''agent_output'' p1]\<rparr>"
proof -
  define inputs where "inputs = (case confidence of Some y \<Rightarrow> y | None \<Rightarrow> (case snd (normalize_agent_return v) of Some y \<Rightarrow> y | None \<Rightarrow> no_confidence))"
  show thesis
  proof (cases "score (ho_exp h) (rn_decision_policy r) inputs")
    case (Inl e)
    then show thesis using assms bad
      by (auto simp: runner_success_def Let_def split_beta inputs_def bnd_def lift_def)
  next
    case (Inr sc)
    then obtain d where "decide (ho_exp h) (rn_decision_policy r) inputs = Inr d" by (simp add: decide_def)
    then show thesis using assms Inr
      by (auto intro!: ok [of _ inputs] simp: runner_success_def Let_def split_beta bnd_def lift_def tick_def run_completed_def result_of_def inputs_def [symmetric])
  qed
qed

text \<open>The body of the \<^verbatim>\<open>try\<close> statement.\<close>

definition body_ends :: "host \<Rightarrow> ('w, 'a, 'k) runner \<Rightarrow> (sentinel_result, ('w, 't) sys) eff \<Rightarrow> bool" where
  "body_ends h r m \<longleftrightarrow> (\<forall>s x s'. m s = (x, s') \<longrightarrow> (\<exists>ys. list_all (call_obs (passed_guards env c)) ys \<and> (case x of
     Inr res \<Rightarrow> sr_ctx_snapshot res = snapshot c s' \<and> (\<exists>p1 p2 elapsed. decided h (rn_decision_policy r) res p2
       \<and> s_trace s' = s_trace s @ ys @ [Emitted ''agent_output'' p1, Emitted ''decision_made'' p2,
            Emitted ''run_completed'' (completed_payload ''ok'' elapsed (snapshot c s'))])
   | Inl e \<Rightarrow> s_trace s' = s_trace s @ ys \<or> (\<exists>p1. s_trace s' = s_trace s @ ys @ [Emitted ''agent_output'' p1]))))"

lemma body_ends_success: "body_ends h r (runner_success h r env c confidence v)"
  unfolding body_ends_def
proof (intro allI impI)
  fix s x s' assume "runner_success h r env c confidence v s = (x, s')"
  then show "\<exists>ys. list_all (call_obs (passed_guards env c)) ys \<and> (case x of
     Inr res \<Rightarrow> sr_ctx_snapshot res = snapshot c s' \<and> (\<exists>p1 p2 elapsed. decided h (rn_decision_policy r) res p2
       \<and> s_trace s' = s_trace s @ ys @ [Emitted ''agent_output'' p1, Emitted ''decision_made'' p2,
            Emitted ''run_completed'' (completed_payload ''ok'' elapsed (snapshot c s'))])
   | Inl e \<Rightarrow> s_trace s' = s_trace s @ ys \<or> (\<exists>p1. s_trace s' = s_trace s @ ys @ [Emitted ''agent_output'' p1]))"
    by (cases rule: success_trail) (auto intro!: exI [of _ "[]"] simp: decided_def completed_payload_def)
qed

lemma body_ends_raise: "body_ends h r (raise e)"
  by (auto simp: body_ends_def raise_def intro: exI [of _ "[]"])

lemma body_ends_bnd:
  assumes m: "\<And>s. calls (passed_guards env c) s (snd (m s))" and f: "\<And>v. body_ends h r (f v)"
  shows "body_ends h r (bnd m f)"
  unfolding body_ends_def
proof (intro allI impI)
  fix s x s' assume "bnd m f s = (x, s')"
  then show "\<exists>ys. list_all (call_obs (passed_guards env c)) ys \<and> (case x of
     Inr res \<Rightarrow> sr_ctx_snapshot res = snapshot c s' \<and> (\<exists>p1 p2 elapsed. decided h (rn_decision_policy r) res p2
       \<and> s_trace s' = s_trace s @ ys @ [Emitted ''agent_output'' p1, Emitted ''decision_made'' p2,
            Emitted ''run_completed'' (completed_payload ''ok'' elapsed (snapshot c s'))])
   | Inl e \<Rightarrow> s_trace s' = s_trace s @ ys \<or> (\<exists>p1. s_trace s' = s_trace s @ ys @ [Emitted ''agent_output'' p1]))"
  proof (cases rule: bnd_cases)
    case (1 e)
    then show ?thesis using m [of s] by (auto simp: calls_def)
  next
    case (2 v s1)
    obtain xs where xs: "s_trace s1 = s_trace s @ xs" "list_all (call_obs (passed_guards env c)) xs" using m [of s] 2(1) by (auto simp: calls_def)
    from f [of v, unfolded body_ends_def, rule_format, OF 2(2)] obtain ys where ys: "list_all (call_obs (passed_guards env c)) ys"
      "case x of Inr res \<Rightarrow> sr_ctx_snapshot res = snapshot c s' \<and> (\<exists>p1 p2 elapsed. decided h (rn_decision_policy r) res p2
       \<and> s_trace s' = s_trace s1 @ ys @ [Emitted ''agent_output'' p1, Emitted ''decision_made'' p2,
            Emitted ''run_completed'' (completed_payload ''ok'' elapsed (snapshot c s'))])
       | Inl e \<Rightarrow> s_trace s' = s_trace s1 @ ys \<or> (\<exists>p1. s_trace s' = s_trace s1 @ ys @ [Emitted ''agent_output'' p1])" by blast
    then show ?thesis using xs by (intro exI [of _ "xs @ ys"]) (auto split: sum.splits)
  qed
qed

lemma calls_agent: "calls (passed_guards env c) s (snd (run_agent env c cancels timeout a alarm s))"
  by (rule trail.kept_by_agent)

lemma body_ends_sync: "body_ends h r (sync_body h r env c alarm a confidence)"
  unfolding sync_body_def
  by (rule body_ends_bnd)
    (auto simp: calls_agent raise_def split: option.splits agent_outcome.splits intro: body_ends_success body_ends_raise)

lemma body_ends_async: "body_ends h r (async_body h r env c alarm co a confidence)"
proof -
  have tail: "body_ends h r (bnd (run_agent env c True e b al) (\<lambda>out. runner_success h r env c confidence (awaited out)))" for e b al
    by (rule body_ends_bnd [OF calls_agent body_ends_success])
  then show ?thesis unfolding async_body_def
    by (auto simp: calls_agent split: option.splits agent_outcome.splits intro!: body_ends_bnd body_ends_success body_ends_raise)
qed

lemma try_trail:
  assumes "body_ends h r m" "runner_try env c m s = (x, s')"
  shows "\<exists>mid tail. emissions (s_trace s') = emissions (s_trace s) @ mid @ tail \<and> fst ` set mid \<subseteq> insert ''agent_output'' (set call_event_types)
     \<and> closing h (rn_decision_policy r) (snapshot c s') x tail"
proof -
  obtain y s1 where m: "m s = (y, s1)" by fastforce
  obtain ys where ys: "list_all (call_obs (passed_guards env c)) ys" and y: "case y of
     Inr res \<Rightarrow> sr_ctx_snapshot res = snapshot c s1 \<and> (\<exists>p1 p2 elapsed. decided h (rn_decision_policy r) res p2
       \<and> s_trace s1 = s_trace s @ ys @ [Emitted ''agent_output'' p1, Emitted ''decision_made'' p2,
            Emitted ''run_completed'' (completed_payload ''ok'' elapsed (snapshot c s1))])
   | Inl e \<Rightarrow> s_trace s1 = s_trace s @ ys \<or> (\<exists>p1. s_trace s1 = s_trace s @ ys @ [Emitted ''agent_output'' p1])"
    using assms(1) m unfolding body_ends_def by blast
  note em = emissions_calls [OF ys]
  show ?thesis
  proof (cases y)
    case (Inr res)
    then have "x = Inr res" "s' = s1" using assms(2) m by (simp_all add: runner_try_def)
    moreover obtain p1 p2 elapsed where "sr_ctx_snapshot res = snapshot c s1" "decided h (rn_decision_policy r) res p2"
      "s_trace s1 = s_trace s @ ys @ [Emitted ''agent_output'' p1, Emitted ''decision_made'' p2, Emitted ''run_completed'' (completed_payload ''ok'' elapsed (snapshot c s1))]"
      using y Inr by auto
    ultimately show ?thesis using em
      by (intro exI [of _ "emissions ys @ [(''agent_output'', p1)]"] exI [of _ "[(''decision_made'', p2), (''run_completed'', completed_payload ''ok'' elapsed (snapshot c s1))]"])
        (auto simp: closing_def)
  next
    case (Inl e)
    obtain zs where zs: "emissions (s_trace s1) = emissions (s_trace s) @ emissions ys @ zs" "fst ` set zs \<subseteq> {''agent_output''}" using y Inl by auto
    have mid: "fst ` set (emissions ys @ zs) \<subseteq> insert ''agent_output'' (set call_event_types)" using em zs(2) by auto
    have "\<exists>tail. emissions (s_trace s') = emissions (s_trace s1) @ tail \<and> closing h (rn_decision_policy r) (snapshot c s') x tail"
    proof (cases "\<exists>ck. e = HumanApprovalRequired ck")
      case True
      then show ?thesis using assms(2) m Inl
        by (auto simp: runner_try_def runner_approval_result_def bnd_def tick_def run_completed_def result_of_def closing_def awaits_approval_def
            completed_payload_def outcome_value_def) blast
    next
      case False
      then have t: "runner_try env c m s = (if is_Exception e then bnd (runner_failure env c e) (\<lambda>_. raise e) s1 else (Inl e, s1))"
        using m Inl by (cases e) (simp_all add: runner_try_def)
      show ?thesis
      proof (cases "is_Exception e")
        case True
        then show ?thesis using assms(2) t
          by (auto simp: runner_failure_def bnd_def tick_def run_completed_def raise_def closing_def completed_payload_def)
      next
        case False
        then show ?thesis using assms(2) t by (auto simp: closing_def)
      qed
    qed
    then show ?thesis using zs(1) mid by (metis append.assoc)
  qed
qed

end

section \<open>Whole runs\<close>

text \<open>The default store without sinks never fails; neither does the emitter of a runner with ordinary sinks that only
  records their errors.\<close>

interpretation unobserved: open_emitter
    "emitter_env h (r\<lparr>rn_audit_store := memory_backend h hc, rn_event_sinks := []\<rparr>) (new_context corr run ms q) L env" "new_context corr run ms q"
  by unfold_locales
    (simp_all add: new_context_def emitter_env_def log_write_def store_event_def memory_backend_def mem_record_def Let_def split_beta)

lemma lenient_emitter:
  assumes "rn_audit_store r = memory_backend h hc" "\<not> rn_fail_on_event_sink_error r" "ordinary_sinks (rn_event_sinks r)"
  shows "open_emitter (emitter_env h r (new_context corr run ms q) L env) (new_context corr run ms q)"
proof -
  have "(case log_write h r c n ty p K of (Inl e, _) \<Rightarrow> Some e | (Inr _, _) \<Rightarrow> None) = None" for c :: "'a ctx" and n ty p K
    using log_write_lenient [OF assms, of c n ty p K] by (cases "log_write h r c n ty p K") auto
  then show ?thesis by unfold_locales (simp_all add: new_context_def emitter_env_def)
qed

lemma start_ok:
  assumes "open_emitter env c" "cx_guardrails c = Some g" "wf_guardrails g"
  shows "\<exists>s1 p0. runner_start h r env c input (fresh_counters s) = (Inr (), s1) \<and> s_trace s1 = [Emitted ''run_started'' p0]"
proof -
  have "limits_ok c 1 0 (Fin 0)" using limits_ok_within [OF assms(3,2)] assms(3) by (simp add: within_limits_def wf_guardrails_def)
  then have "check_limits c 1 0 (Fin 0) u = (Inr (), u)" for u :: "('a, 'b) sys" by (simp add: check_limits_Inr)
  then show ?thesis using open_emitter.emit_ok [OF assms(1)]
    by (simp add: runner_start_def Let_def bump_step_def bnd_def fresh_counters_def)
qed

text \<open>A run of the agent by \<^verbatim>\<open>run\<close> or by \<^verbatim>\<open>arun\<close>.\<close>

definition executed where
  "executed h r env corr run ms alarm f input confidence L s out \<longleftrightarrow>
     \<not> af_coroutine f \<and> runner_run h r env corr run ms alarm f input confidence L s = out
     \<or> runner_arun h r env corr run ms alarm f input confidence L s = out"

lemma session_run:
  "runner_session h r env c input body L s = (x, L', s') \<longleftrightarrow>
     bnd (runner_start h r (emitter_env h r c L env) c input) (\<lambda>_. runner_try (emitter_env h r c L env) c (body (emitter_env h r c L env) c)) (fresh_counters s) = (x, s')
     \<and> L' = log_after h r c L (s_trace s')"
  by (auto simp: runner_session_def Let_def split: prod.splits)

lemma executed_cases:
  assumes "executed h r env corr run ms alarm f input confidence L s (x, L', s')"
  obtains body where "runner_session h r env (new_context corr run ms r) input body L s = (x, L', s')"
    and "\<And>e c. body e c = sync_body h r e c alarm (af_body f input) confidence \<or> body e c = async_body h r e c alarm (af_coroutine f) (af_body f input) confidence"
  using assms unfolding executed_def runner_run_def runner_arun_def by (auto split: if_splits)

lemma executed_keeps:
  assumes "executed h r env corr run ms alarm f input confidence L s (x, L', s')"
    and "runner_relation (emitter_env h r (new_context corr run ms r) L env) (new_context corr run ms r) R"
  shows "R (fresh_counters s) s'"
proof -
  obtain body where b: "runner_session h r env (new_context corr run ms r) input body L s = (x, L', s')"
    "\<And>e c. body e c = sync_body h r e c alarm (af_body f input) confidence \<or> body e c = async_body h r e c alarm (af_coroutine f) (af_body f input) confidence"
    using executed_cases [OF assms(1)] by blast
  let ?c = "new_context corr run ms r" and ?e = "emitter_env h r (new_context corr run ms r) L env"
  have "keeps R (body ?e ?c)"
    using b(2) [of ?e ?c] runner_relation.kept_sync [OF assms(2)] runner_relation.kept_async [OF assms(2)] by fastforce
  from runner_relation.kept_run [OF assms(2) this] show ?thesis
    using b(1) unfolding session_run keeps_def by (metis snd_conv)
qed

lemma executed_in_limits:
  assumes "wf_guardrails (rn_guardrails r)" "executed h r env corr run ms alarm f input confidence L s (x, L', s')"
  shows "in_limits (rn_guardrails r) s'"
proof -
  have "in_limits (rn_guardrails r) (fresh_counters s)" using assms(1) by (simp add: in_limits_def within_limits_def wf_guardrails_def fresh_counters_def)
  moreover have "cx_guardrails (new_context corr run ms r) = Some (rn_guardrails r)" by (simp add: new_context_def)
  then have "stays_in (rn_guardrails r) (fresh_counters s) s'"
    using executed_keeps [OF assms(2)] limits_relation [OF assms(1)] by blast
  ultimately show ?thesis by (simp add: stays_in_def)
qed

section \<open>Properties\<close>

text \<open>C18: Whatever an agent does, and whether or not the sinks fail, the store of the runner afterwards holds exactly the events it
  held before and the redacted events of the run, in order and with the identifiers of the run, and it verifies.\<close>

theorem runs_recorded:
  assumes "rn_audit_store r = memory_backend h hc" and "\<And>x. ho_sha h x \<noteq> []" and "mem_sound h (rl_audit L)"
    and "executed h r env corr run ms alarm f input confidence L s (x, L', s')"
  shows "mem_sound h (rl_audit L')
    \<and> mem_verify (ho_sha h) (ho_float_repr h) (ho_object_repr h) (rl_audit L') = Inr (length (ma_events (rl_audit L')))
    \<and> map event_view (ma_events (rl_audit L')) = map event_view (ma_events (rl_audit L)) @ map (written h r (new_context corr run ms r)) (emissions (s_trace s'))"
proof -
  have "L' = log_after h r (new_context corr run ms r) L (s_trace s')" using executed_cases [OF assms(4)] session_run by metis
  then show ?thesis using relog_memory [OF assms(1,2,3)] mem_sound_verify by (simp add: log_after_def)
qed

text \<open>C12: With the in-memory audit store, guardrails that were accepted, and event sinks that are lenient (the runner does not fail on
  them) and raise only \<^verbatim>\<open>Exception\<close>s, every run of every agent is framed in the audit trail: it starts with one \<^verbatim>\<open>run_started\<close>, between come only the events of tool
  calls and at most the agent's output, and it ends with the decision and \<^verbatim>\<open>run_completed\<close> that fit the answer of the runner: a
  result carries the score and the decision of the policy, or a request for approval; an \<^verbatim>\<open>Exception\<close> is reported by
  \<^verbatim>\<open>run_failed\<close> and \<^verbatim>\<open>run_completed\<close>.  A run that ends in another \<^verbatim>\<open>BaseException\<close>, as a cancellation does, leaves nothing after the
  calls and the output.  The counters are within the guardrails.\<close>

theorem run_framed:
  assumes "rn_audit_store r = memory_backend h hc" "\<not> rn_fail_on_event_sink_error r" "ordinary_sinks (rn_event_sinks r)"
    and g: "guardrails_init p1 p2 p3 p4 p5 p6 p7 = Inr (rn_guardrails r)"
    and ex: "executed h r env corr run ms alarm f input confidence L s (x, L', s')"
  shows "(\<exists>p0 mid tail. emissions (s_trace s') = (''run_started'', p0) # mid @ tail \<and> fst ` set mid \<subseteq> insert ''agent_output'' (set call_event_types)
       \<and> closing h (rn_decision_policy r) (snapshot (new_context corr run ms r) s') x tail)
     \<and> within_limits (rn_guardrails r) (steps s') (tool_calls s') (cost_usd s')"
proof -
  define c where "c = new_context corr run ms r"
  define e where "e = emitter_env h r c L env"
  have wf: "wf_guardrails (rn_guardrails r)" using guardrails_init_wf [OF g] .
  have cg: "cx_guardrails c = Some (rn_guardrails r)" by (simp add: c_def new_context_def)
  have oe: "open_emitter e c" unfolding e_def c_def by (rule lenient_emitter [OF assms(1-3)])
  note lim = executed_in_limits [OF wf ex]
  obtain body where b: "runner_session h r env c input body L s = (x, L', s')"
    and "body e c = sync_body h r e c alarm (af_body f input) confidence \<or> body e c = async_body h r e c alarm (af_coroutine f) (af_body f input) confidence"
    using executed_cases [OF ex] unfolding c_def by metis
  then have be: "open_emitter.body_ends e c h r (body e c)"
    using open_emitter.body_ends_sync [OF oe] open_emitter.body_ends_async [OF oe] by fastforce
  obtain s1 p0 where st: "runner_start h r e c input (fresh_counters s) = (Inr (), s1)" "s_trace s1 = [Emitted ''run_started'' p0]"
    using start_ok [OF oe cg wf] by blast
  then have "runner_try e c (body e c) s1 = (x, s')" using b unfolding session_run e_def [symmetric] by (simp add: bnd_def)
  from open_emitter.try_trail [OF oe be this] show ?thesis using lim st(2) by (auto simp: in_limits_def c_def)
qed

text \<open>C2: Complete mediation, for a run that is configured for it: \<^verbatim>\<open>require_registered_tools\<close> is on (by default it is off), the run
  has a principal, and its authorizer is the one of the identity store, whose roles and bindings stay as they are during the run.
  Then every handler that ran in the run, called by any agent and with any sinks, is the registered handler of a tool that is allowlisted and for which a stored
  role of the principal grants \<^verbatim>\<open>tool.execute\<close> in the environment of the runner.\<close>

theorem run_mediated:
  assumes "(identity_step fr orr)\<^sup>*\<^sup>* identity_empty db" and "rn_authorizer r = Some (\<lambda>p. dynamic_authorize fr orr db (Some p))"
    and "rn_principal r = Some p" and "require_registered_tools (rn_guardrails r)"
    and "executed h r env corr run ms alarm f input confidence L s (x, L', s')" and "HandlerRun i a k \<in> set (s_trace s')"
  shows "\<exists>n t reg. rn_tool_registry r = Some reg \<and> registry_get n reg = Some t \<and> h_id (ts_handler t) = i
    \<and> (case allowed_tools (rn_guardrails r) of None \<Rightarrow> True | Some names \<Rightarrow> n \<in> names)
    \<and> granted (set (id_roles db)) (snd ` set (id_bindings db)) p (rn_environment r) ''tool.execute'' n"
proof -
  define c where "c = new_context corr run ms r"
  define e where "e = emitter_env h r c L env"
  have "mediated (passed_guards e c) (fresh_counters s) s'"
    using executed_keeps [OF assms(5)] mediation.runner_relation_axioms unfolding e_def c_def by blast
  then have "list_all (run_obs (passed_guards e c)) (s_trace s')" by (simp add: mediated_def fresh_counters_def)
  then have "passed_guards e c i a k" using assms(6) by (force simp: list_all_iff)
  then obtain am n q args cost u hd spec y where i: "i = h_id hd" and ad: "admitted e c am n q args k cost u hd a spec y"
    unfolding passed_guards_def by blast
  have c: "cx_guardrails c = Some (rn_guardrails r)" "cx_tool_registry c = rn_tool_registry r" "cx_principal c = Some (pr_subject p)"
      "cx_authorizer c = Some (\<lambda>_. dynamic_authorize fr orr db (Some p))" "cx_environment c = rn_environment r"
    using assms(2,3) by (simp_all add: c_def new_context_def)
  obtain t reg where t: "rn_tool_registry r = Some reg" "registry_get n reg = Some t" "hd = ts_handler t" "spec = Some t"
    using ad c(1,2) assms(4) by (auto simp: admitted_def resolve_tool_def split: option.splits if_splits first_arg.splits)
  have "context_environment fr orr (access_context c spec) = rn_environment r"
    by (simp add: context_environment_def access_context_def c)
  moreover have "dynamic_authorize fr orr db (Some p) ''tool.execute'' n (access_context c spec) = Inr True"
    using ad c(3,4) by (simp add: admitted_def access_allowed_def)
  ultimately have "granted (set (id_roles db)) (snd ` set (id_bindings db)) p (rn_environment r) ''tool.execute'' n"
    using dynamic_decision [OF reachable_roles [OF assms(1)], of fr orr p "''tool.execute''" n "access_context c spec"] by simp
  moreover have "case allowed_tools (rn_guardrails r) of None \<Rightarrow> True | Some names \<Rightarrow> n \<in> names"
    using ad c(1) by (auto simp: admitted_def validate_tool_allowed_Inr split: option.splits)
  ultimately show ?thesis using t i by blast
qed

section \<open>A sink that fails on the last event\<close>

definition failing_at_end :: "string \<Rightarrow> 'k event_sink" where
  "failing_at_end m e k = (if ce_type e = ''com.agentroi.run.completed'' then (Inl (delivery_error m), k) else (Inr (), k))"

lemma strict_emit:
  assumes "rn_audit_store r = memory_backend h hc" "rn_fail_on_event_sink_error r" "rn_event_sinks r = [(n, failing_at_end m)]" "cx_audit_emitter c"
  shows "emit (emitter_env h r c L env) c ty p s =
    (if replace_char CHR ''_'' ''.'' ty = ''run.completed'' then (Inl (delivery_error m), s\<lparr>s_trace := s_trace s @ [EmitFailed ty p]\<rparr>)
     else (Inr (), s\<lparr>s_trace := s_trace s @ [Emitted ty p]\<rparr>))"
proof -
  have "fst (log_write h r c j ty p K) = (if replace_char CHR ''_'' ''.'' ty = ''run.completed'' then Inl (delivery_error m) else Inr ())" for j K
    by (simp add: log_write_def assms store_event_def memory_backend_def mem_record_def Let_def split_beta failing_at_end_def runner_cloud_event_def runtime_event_def
        is_Exception_def)
  then have "(case log_write h r c j ty p K of (Inl e, _) \<Rightarrow> Some e | (Inr _, _) \<Rightarrow> None)
      = (if replace_char CHR ''_'' ''.'' ty = ''run.completed'' then Some (delivery_error m) else None)" for j K
    by (simp add: split_beta)
  then show ?thesis by (simp add: emit_def assms(4) emitter_env_def)
qed

lemma run_event_names [simp]:
  "replace_char CHR ''_'' ''.'' ''run_started'' = ''run.started''" "replace_char CHR ''_'' ''.'' ''agent_output'' = ''agent.output''"
  "replace_char CHR ''_'' ''.'' ''decision_made'' = ''decision.made''" "replace_char CHR ''_'' ''.'' ''run_completed'' = ''run.completed''"
  "replace_char CHR ''_'' ''.'' ''run_failed'' = ''run.failed''"
  by (simp_all add: replace_char_def)

text \<open>With sinks that are made to fail the run, a sink that refuses the last event makes the trail contradict itself: an agent that
  returned and was judged is recorded as completed with status \<^verbatim>\<open>ok\<close>, then as failed, then as completed with status \<^verbatim>\<open>error\<close>, and
  the caller gets the exception of the sink.\<close>

theorem strict_sink_completes_twice:
  assumes "rn_audit_store r = memory_backend h hc" "rn_fail_on_event_sink_error r" "rn_event_sinks r = [(n, failing_at_end m)]"
    and "guardrails_init p1 p2 p3 p4 p5 p6 p7 = Inr (rn_guardrails r)" and "rn_run_timeout_seconds r = None"
    and "\<not> af_coroutine f" and "af_body f input = Return (Plain v)" and "score (ho_exp h) (rn_decision_policy r) inputs = Inr q"
    and "runner_run h r env corr run ms alarm f input (Some inputs) L s = (x, L', s')"
  shows "x = Inl (delivery_error m)
    \<and> map fst (emissions (s_trace s')) = [''run_started'', ''agent_output'', ''decision_made'', ''run_completed'', ''run_failed'', ''run_completed'']
    \<and> map_of (snd (emissions (s_trace s') ! 3)) ''status'' = Some (PStr ''ok'') \<and> map_of (snd (emissions (s_trace s') ! 5)) ''status'' = Some (PStr ''error'')"
proof -
  define c where "c = new_context corr run ms r"
  have ca: "cx_audit_emitter c" and cg: "cx_guardrails c = Some (rn_guardrails r)" by (simp_all add: c_def new_context_def)
  note em = strict_emit [OF assms(1-3) ca]
  have wf: "wf_guardrails (rn_guardrails r)" using guardrails_init_wf [OF assms(4)] .
  have "limits_ok c 1 0 (Fin 0)" using limits_ok_within [OF wf cg] wf by (simp add: within_limits_def wf_guardrails_def)
  then have cl: "check_limits c 1 0 (Fin 0) u = (Inr (), u)" for u :: "('a, 'd) sys" by (simp add: check_limits_Inr)
  obtain d where d: "decide (ho_exp h) (rn_decision_policy r) inputs = Inr d" using assms(8) by (simp add: decide_def)
  have run: "bnd (runner_start h r (emitter_env h r c L env) c input) (\<lambda>_. runner_try (emitter_env h r c L env) c
      (sync_body h r (emitter_env h r c L env) c alarm (Return (Plain v)) (Some inputs))) (fresh_counters s) = (x, s')"
    using assms(6,7,9) unfolding runner_run_def c_def [symmetric] by (simp add: session_run)
  have "is_Exception (delivery_error m)" by (simp add: is_Exception_def)
  then show ?thesis using run
    by (auto simp: runner_start_def Let_def bnd_def em bump_step_def cl fresh_counters_def runner_try_def sync_body_def assms(5,8) d ret_def
        runner_success_def normalize_agent_return_def lift_def tick_def run_completed_def runner_failure_def)
qed

section \<open>Cost metrics\<close>

text \<open>The CloudEvents a runner makes of the events of a trace, the store taking every event.\<close>

primrec published :: "host \<Rightarrow> ('w, 'a, 'k) runner \<Rightarrow> 'w ctx \<Rightarrow> nat \<Rightarrow> (string \<times> payload) list \<Rightarrow> cloud_event list" where
  "published h r c n [] = []"
| "published h r c n (x # es) = (case ho_event h n of (eid, ts, new_id, now) \<Rightarrow>
     runner_cloud_event h r c new_id now (fst x) (redact_payload h (rn_redacted_keys r) (snd x)) eid) # published h r c (n + 1) es"

lemma published_append: "published h r c n (xs @ ys) = published h r c n xs @ published h r c (n + length xs) ys"
  by (induction xs arbitrary: n) auto

lemma redact_payload_cost:
  assumes "lower ''cost_usd'' \<notin> lower ` set (rn_redacted_keys r)" "map_of p ''cost_usd'' = Some (PFloat x)"
  shows "map_of (redact_payload h (rn_redacted_keys r) p) ''cost_usd'' = Some (PFloat x)"
  using assms by (induction p) (auto simp: redact_payload_def)

lemma published_cost:
  assumes "lower ''cost_usd'' \<notin> lower ` set (rn_redacted_keys r)" "map_of p ''cost_usd'' = Some (PFloat x)" "fle (Fin 0) x"
  shows "otel_costs (published h r c n [(ty, p)]) = [x]"
proof -
  obtain eid ts i now where ev: "ho_event h n = (eid, ts, i, now)" by (metis prod.exhaust)
  show ?thesis unfolding published.simps ev prod.case
    by (rule otel_cost_event [OF _ assms(3)])
      (simp add: runner_cloud_event_def runtime_event_def Let_def map_of_dict_merge redact_payload_cost [OF assms(1,2)])
qed

lemma prepare_call_base:
  "prepare_call env c n f args k cost am s = (Inr (h, a, spec, x, base), s') \<Longrightarrow> map_of base ''cost_usd'' = Some (PFloat x)"
  by (auto simp: prepare_call_def bnd_Inr Let_def event_base_def)

lemma registered_minimum_nonneg:
  "registered_minimum spec a k = Inr x \<Longrightarrow> (\<And>t. spec = Some t \<Longrightarrow> fle (Fin 0) (ts_default_cost_usd t)) \<Longrightarrow> fle (Fin 0) x"
  by (auto simp: registered_minimum_def validate_cost_amount_Inr fmax_def split: option.splits sum.splits if_splits)

lemma estimated_cost_nonneg:
  "estimated_cost spec a k cost = Inr x \<Longrightarrow> (\<And>t. spec = Some t \<Longrightarrow> fle (Fin 0) (ts_default_cost_usd t)) \<Longrightarrow> fle (Fin 0) x"
  using registered_minimum_nonneg [of spec a k]
  by (auto simp: estimated_cost_def validate_cost_amount_Inr fmax_def split: option.splits sum.splits if_splits)

text \<open>The cost counter of OpenTelemetry counts a tool call more than once: the events of a call that ran its handler all carry its
  cost, so that the counter grows by the cost for the authorization and again for the start of a call that was charged once.\<close>

theorem otel_counts_cost_twice:
  assumes "call_tool env c am n f args k cost s = (v, s')" "runs s < runs s'" "cx_audit_emitter c"
    and "lower ''cost_usd'' \<notin> lower ` set (rn_redacted_keys r)"
    and "\<And>reg t. cx_tool_registry c = Some reg \<Longrightarrow> registry_get n reg = Some t \<Longrightarrow> fle (Fin 0) (ts_default_cost_usd t)"
  shows "\<exists>x pre post. charged x s s' \<and> otel_costs (published h r c j (emissions (drop (length (s_trace s)) (s_trace s')))) = pre @ [x, x] @ post"
  using assms(1)
proof (cases rule: call_tool_cases)
  case (refused e)
  have "silent s s' []" using fronted_prepare [of c s env n f args k cost am] refused(1) by (simp add: fronted_def)
  then show ?thesis using assms(2) by (auto simp: silent_def runs_def list_all_iff filter_empty_conv)
next
  case (run hd a spec x base s1 r2 s2)
  have ad: "admitted env c am n f args k cost s hd a spec x" and ch: "charged x s s'" using call_tool_run [OF run] by auto
  obtain m where "call_trace c s s' base m (HandlerRun (h_id hd) a k)" using call_tool_run [OF run] by blast
  then obtain pre post where tr: "drop (length (s_trace s)) (s_trace s') = pre @ [Emitted ''tool_authorized'' base, Emitted ''tool_started'' base] @ post"
    using assms(3) by (auto simp: call_trace_def started_events_def)
  have "spec = Some t \<Longrightarrow> fle (Fin 0) (ts_default_cost_usd t)" for t
    using ad assms(5) by (auto simp: admitted_def resolve_tool_def split: option.splits if_splits first_arg.splits)
  then have x: "fle (Fin 0) x" using ad estimated_cost_nonneg [of spec a k cost x] by (auto simp: admitted_def)
  note one = published_cost [OF assms(4) prepare_call_base [OF run(1)] x]
  have "otel_costs (published h r c i [(t1, base), (t2, base)]) = [x, x]" for i t1 t2
    using published_append [of h r c i "[(t1, base)]" "[(t2, base)]"] one by (simp add: otel_costs_append del: published.simps)
  then have "otel_costs (published h r c j (emissions (drop (length (s_trace s)) (s_trace s')))) =
      otel_costs (published h r c j (emissions pre)) @ [x, x] @ otel_costs (published h r c (j + length (emissions pre) + 2) (emissions post))"
    unfolding tr using published_append [of h r c "j + length (emissions pre)" "[(''tool_authorized'', base), (''tool_started'', base)]" "emissions post"]
    by (simp add: published_append otel_costs_append del: published.simps)
  then show ?thesis using ch by blast
qed

section \<open>Witnesses\<close>

definition demo_host :: host where
  "demo_host = \<lparr>ho_float_repr = ratio_repr, ho_object_repr = (\<lambda>_. []), ho_repr = (\<lambda>_. None), ho_sha = (\<lambda>_. ''x''), ho_exp = (\<lambda>_. Fin 1),
     ho_event = (\<lambda>_. (''e'', 0, ''i'', ''t'')), ho_alarm_available = True, ho_fixed3 = ratio_repr\<rparr>"

definition run_role :: role_definition where
  "run_role = \<lparr>rd_name = ''r'', rd_permissions = [''*''], rd_description = []\<rparr>"

definition run_identity :: identity_db where
  "run_identity = identity_empty\<lparr>id_roles := [run_role]\<rparr>"

definition run_principal :: principal where
  "run_principal = demo_principal\<lparr>pr_roles := [''r'']\<rparr>"

definition run_tool :: tool_spec where
  "run_tool = (demo_tool ''a'')\<lparr>ts_requires_approval := False\<rparr>"

definition demo_runner :: "(unit, mem_audit, unit) runner" where
  "demo_runner = \<lparr>rn_name = ''n'', rn_guardrails = demo_guardrails, rn_decision_policy = prob_policy, rn_audit_store = memory_backend demo_host True,
     rn_audit_hash_chain = True, rn_metadata = [], rn_tool_registry = Some \<lparr>tr_tools = [(''a'', run_tool)], tr_frozen = True\<rparr>,
     rn_approval_callback = None, rn_capture_input = False, rn_capture_output = False, rn_redacted_keys = [''token''],
     rn_run_timeout_seconds = None, rn_organization_id = ''o'', rn_environment = ''p'', rn_agent_id = ''g'', rn_principal = Some run_principal,
     rn_authorizer = Some (\<lambda>p. dynamic_authorize ratio_repr (\<lambda>_. []) run_identity (Some p)), rn_event_sinks = [],
     rn_fail_on_event_sink_error = False, rn_event_source = ''s'', rn_policy_digest = ''d''\<rparr>"

definition demo_log :: "(mem_audit, unit) runner_log" where
  "demo_log = \<lparr>rl_audit = mem_audit_init True, rl_sinks = (), rl_sink_errors = []\<rparr>"

text \<open>An agent that calls the tool and fails.\<close>

definition demo_agent :: "unit agent_fn" where
  "demo_agent = \<lparr>af_coroutine = False, af_body = (\<lambda>_. Call (CallTool False ''a'' Missing [] [] None) (\<lambda>_. Fail (ValueError [])))\<rparr>"

lemma run_identity_reachable: "(identity_step fr orr)\<^sup>*\<^sup>* identity_empty run_identity"
proof -
  have "role_definition_init ''r'' [PStr ''*''] [] = Inr run_role"
    by (simp add: role_definition_init_def run_role_def clean_set_def clean_item_def frozen_def blank_def strip_def lstrip_def rstrip_def py_space_def)
  then have "identity_step fr orr identity_empty run_identity"
    using identity_step.save_role [of "''r''" "[PStr ''*'']" "[]" run_role fr orr identity_empty]
    by (simp add: save_role_def identity_empty_def run_identity_def run_role_def)
  then show ?thesis by (rule r_into_rtranclp)
qed

lemma demo_decision: "dynamic_authorize fr orr run_identity (Some run_principal) action resource context = Inr True"
  unfolding dynamic_decision [OF reachable_roles [OF run_identity_reachable]]
  by (simp add: granted_def holds_role_def run_identity_def run_role_def run_principal_def permits_def)

lemma demo_execution:
  "\<exists>x L' s'. executed demo_host demo_runner demo_env ''c'' ''r'' 0 None demo_agent PNone None demo_log demo_sys (x, L', s') \<and> HandlerRun 1 [] [] \<in> set (s_trace s')"
proof -
  define c where "c = new_context ''c'' ''r'' 0 demo_runner"
  define e where "e = emitter_env demo_host demo_runner c demo_log demo_env"
  have c: "cx_guardrails c = Some demo_guardrails" "cx_tool_registry c = Some \<lparr>tr_tools = [(''a'', run_tool)], tr_frozen = True\<rparr>" "cx_principal c = Some ''u''"
      "cx_authorizer c = Some (\<lambda>_. dynamic_authorize ratio_repr (\<lambda>_. []) run_identity (Some run_principal))"
    by (simp_all add: c_def new_context_def demo_runner_def run_principal_def demo_principal_def)
  have oe: "open_emitter e c" unfolding e_def c_def by (rule lenient_emitter) (simp_all add: demo_runner_def ordinary_sinks_def)
  note em = open_emitter.emit_ok [OF oe]
  have wf: "wf_guardrails demo_guardrails" using guardrails_init_wf [OF demo_guardrails_init] .
  have lim: "check_limits c 1 0 (Fin 0) u = (Inr (), u)" "check_limits c 1 1 (Fin 1) u = (Inr (), u)" for u :: "(unit, sqlite_idem_row list) sys"
    unfolding check_limits_Inr limits_ok_within [OF wf c(1)] by (simp_all add: within_limits_def demo_guardrails_def)
  have allow: "validate_tool_allowed demo_guardrails (PStr ''a'') = Inr ()"
    by (simp add: validate_tool_allowed_Inr demo_guardrails_def blank_def strip_def lstrip_def rstrip_def py_space_def)
  have tool: "ts_requires_approval run_tool = False" "ts_default_cost_usd run_tool = Fin 1" "ts_cost_estimator run_tool = None" "ts_timeout_seconds run_tool = None"
      "ts_retry_policy run_tool = None" "ts_circuit_breaker run_tool = None" "ts_idempotency_policy run_tool = None"
      "h_async (ts_handler run_tool) = False" "h_id (ts_handler run_tool) = 1"
    by (simp_all add: run_tool_def)
  have start: "\<exists>s1. runner_start demo_host demo_runner e c PNone (fresh_counters demo_sys) = (Inr (), s1) \<and> steps s1 = 1 \<and> tool_calls s1 = 0 \<and> cost_usd s1 = Fin 0"
    by (simp add: runner_start_def Let_def em bnd_def bump_step_def lim fresh_counters_def)
  then obtain s1 where s1: "runner_start demo_host demo_runner e c PNone (fresh_counters demo_sys) = (Inr (), s1)" "steps s1 = 1" "tool_calls s1 = 0" "cost_usd s1 = Fin 0"
    by (elim exE conjE)
  have env: "e_call e = e_call demo_env" "e_epoch_ms e = e_epoch_ms demo_env" "e_digest e = e_digest demo_env" by (simp_all add: e_def emitter_env_def)
  have call: "\<exists>s2. call_tool e c False ''a'' Missing [] [] None s1 = (Inr (PInt 7), s2) \<and> HandlerRun 1 [] [] \<in> set (s_trace s2)"
    using s1(2-4)
    by (simp add: call_tool_def prepare_call_def bnd_def check_allowed_def lift_def resolve_tool_def registry_get_def c tool allow em demo_decision
        authorize_access_def ret_def mode_check_def estimated_cost_def registered_minimum_def maybe_checkpoint_def tick_def Let_def charge_call_def authorize_def
        lim execute_def checked_call_def retried_call_def protected_call_def raw_call_def run_handler_def result_value_def close_call_def env demo_env_def)
  have "\<exists>x s'. bnd (runner_start demo_host demo_runner e c PNone) (\<lambda>_. runner_try e c (sync_body demo_host demo_runner e c None (af_body demo_agent PNone) None)) (fresh_counters demo_sys) = (x, s')
      \<and> HandlerRun 1 [] [] \<in> set (s_trace s')"
    using call s1(1)
    by (auto simp: bnd_def runner_try_def sync_body_def demo_agent_def demo_runner_def raise_def runner_failure_def tick_def em run_completed_def is_Exception_def)
  then obtain x s' where xs: "bnd (runner_start demo_host demo_runner e c PNone) (\<lambda>_. runner_try e c (sync_body demo_host demo_runner e c None (af_body demo_agent PNone) None)) (fresh_counters demo_sys) = (x, s')"
    "HandlerRun 1 [] [] \<in> set (s_trace s')" by blast
  then have "runner_session demo_host demo_runner demo_env c PNone (\<lambda>env' c. sync_body demo_host demo_runner env' c None (af_body demo_agent PNone) None) demo_log demo_sys
      = (x, log_after demo_host demo_runner c demo_log (s_trace s'), s')"
    unfolding session_run e_def by simp
  then show ?thesis using xs(2) unfolding executed_def runner_run_def c_def by (auto simp: demo_agent_def)
qed

theorem runs_recorded_witness:
  "\<exists>x L' s'. executed demo_host demo_runner demo_env ''c'' ''r'' 0 None demo_agent PNone None demo_log demo_sys (x, L', s')
     \<and> mem_verify (\<lambda>_. ''x'') ratio_repr (\<lambda>_. []) (rl_audit L') = Inr (length (ma_events (rl_audit L')))"
proof -
  obtain x L' s' where ex: "executed demo_host demo_runner demo_env ''c'' ''r'' 0 None demo_agent PNone None demo_log demo_sys (x, L', s')" using demo_execution by blast
  have "rn_audit_store demo_runner = memory_backend demo_host True" "\<And>x. ho_sha demo_host x \<noteq> []" "mem_sound demo_host (rl_audit demo_log)"
    by (simp_all add: demo_runner_def demo_host_def demo_log_def mem_sound_init)
  from runs_recorded [OF this ex] show ?thesis using ex by (auto simp: demo_host_def)
qed

theorem run_framed_witness:
  "\<exists>x L' s'. executed demo_host demo_runner demo_env ''c'' ''r'' 0 None demo_agent PNone None demo_log demo_sys (x, L', s')
     \<and> within_limits demo_guardrails (steps s') (tool_calls s') (cost_usd s')"
proof -
  obtain x L' s' where ex: "executed demo_host demo_runner demo_env ''c'' ''r'' 0 None demo_agent PNone None demo_log demo_sys (x, L', s')" using demo_execution by blast
  have r: "rn_audit_store demo_runner = memory_backend demo_host True" "\<not> rn_fail_on_event_sink_error demo_runner" "ordinary_sinks (rn_event_sinks demo_runner)"
      "rn_guardrails demo_runner = demo_guardrails"
    by (simp_all add: demo_runner_def ordinary_sinks_def)
  from run_framed [OF r(1-3) _ ex] demo_guardrails_init show ?thesis using ex unfolding r(4) by blast
qed

theorem run_mediated_witness:
  "\<exists>n. granted (set (id_roles run_identity)) (snd ` set (id_bindings run_identity)) run_principal ''p'' ''tool.execute'' n"
proof -
  obtain x L' s' where ex: "executed demo_host demo_runner demo_env ''c'' ''r'' 0 None demo_agent PNone None demo_log demo_sys (x, L', s')"
    and "HandlerRun 1 [] [] \<in> set (s_trace s')" using demo_execution by blast
  from run_mediated [OF run_identity_reachable [of ratio_repr "\<lambda>_. []"] _ _ _ this, of run_principal] show ?thesis
    by (auto simp: demo_runner_def demo_guardrails_def)
qed

theorem strict_sink_completes_twice_witness:
  "\<exists>x L' s'. runner_run demo_host (demo_runner\<lparr>rn_fail_on_event_sink_error := True, rn_event_sinks := [(''S'', failing_at_end ''m'')]\<rparr>) demo_env ''c'' ''r'' 0 None
       \<lparr>af_coroutine = False, af_body = (\<lambda>_. Return (Plain PNone))\<rparr> PNone (Some (prob_only 1)) demo_log demo_sys = (x, L', s')
     \<and> x = Inl (delivery_error ''m'')"
proof -
  let ?r = "demo_runner\<lparr>rn_fail_on_event_sink_error := True, rn_event_sinks := [(''S'', failing_at_end ''m'')]\<rparr>"
  let ?f = "\<lparr>af_coroutine = False, af_body = (\<lambda>_. Return (Plain PNone))\<rparr> :: unit agent_fn"
  obtain x L' s' where ex: "runner_run demo_host ?r demo_env ''c'' ''r'' 0 None ?f PNone (Some (prob_only 1)) demo_log demo_sys = (x, L', s')"
    by (metis prod.exhaust)
  have g: "guardrails_init (PInt 2) (PInt 2) (PFloat (Fin 2)) (PBool True) PNone (PBool True) (PBool True) = Inr (rn_guardrails ?r)"
    by (simp add: demo_guardrails_init demo_runner_def)
  have "score (ho_exp demo_host) (rn_decision_policy ?r) (prob_only 1) = Inr (clamp01 (rnd 1))"
    by (simp add: demo_runner_def prob_only_score)
  from strict_sink_completes_twice [OF _ _ _ g _ _ _ this ex] ex show ?thesis by (auto simp: demo_runner_def)
qed

theorem otel_counts_cost_twice_witness:
  "\<exists>s' x pre post. call_tool demo_env demo_ctx False ''a'' Missing [] [] None demo_sys = (Inr (PInt 7), s')
     \<and> otel_costs (published demo_host demo_runner demo_ctx 0 (emissions (drop (length (s_trace demo_sys)) (s_trace s')))) = pre @ [x, x] @ post"
proof -
  obtain s' where s': "call_tool demo_env demo_ctx False ''a'' Missing [] [] None demo_sys = (Inr (PInt 7), s')" "runs demo_sys < runs s'"
    by (rule demo_run)
  have "\<exists>x pre post. charged x demo_sys s' \<and>
      otel_costs (published demo_host demo_runner demo_ctx 0 (emissions (drop (length (s_trace demo_sys)) (s_trace s')))) = pre @ [x, x] @ post"
    by (rule otel_counts_cost_twice [OF s']) (auto simp: demo_runner_def lower_def lower_char_def registry_get_def split: if_splits)
  then show ?thesis using s'(1) by blast
qed

end
