(* ===== verification/Analyzers.thy ===== *)
theory Analyzers
  imports Policies Outbox
begin

text \<open>
  \<^verbatim>\<open>agent_roi/finops/analyzer.py\<close> and \<^verbatim>\<open>agent_roi/procurement/analyzer.py\<close>: the deterministic analyzers that turn cloud
  resources and invoices into recommendations.  A policy is what \<^verbatim>\<open>policy_from_mapping\<close> froze; a \<^verbatim>\<open>.get\<close> on a value that is no
  mapping raises.  Keys of mappings are compared as values, so that \<^verbatim>\<open>1\<close> and \<^verbatim>\<open>1.0\<close> differ; the text is that of code points
  below 128, where \<^verbatim>\<open>casefold\<close> is \<open>lower\<close>.  The built-in \<^verbatim>\<open>sum\<close> of floats, plain up to Python 3.11 and compensated since, is an
  argument.  The CSV exports are the rows handed to the \<^verbatim>\<open>csv\<close> writer, without the file around them.
\<close>

section \<open>Values\<close>

definition dget :: "string \<Rightarrow> pyval \<Rightarrow> pydict \<Rightarrow> pyval" where
  "dget k dflt d = (case map_of d (PStr k) of None \<Rightarrow> dflt | Some v \<Rightarrow> v)"

definition attr_get :: "string \<Rightarrow> pyval \<Rightarrow> pyval \<Rightarrow> exc + pyval" where
  "attr_get k dflt v = (case v of PDict d \<Rightarrow> Inr (dget k dflt d) | _ \<Rightarrow> Inl (AttributeError ''object has no attribute get''))"

definition py_or :: "pyval \<Rightarrow> pyval \<Rightarrow> pyval" where
  "py_or a b = (if py_truthy a then a else b)"

definition trunc :: "rat \<Rightarrow> int" where
  "trunc q = (if 0 \<le> q then \<lfloor>q\<rfloor> else \<lceil>q\<rceil>)"

definition int_of_float :: "pyfloat \<Rightarrow> exc + int" where
  "int_of_float x = (case x of Fin q \<Rightarrow> Inr (trunc q) | NaN \<Rightarrow> Inl (ValueError ''cannot convert float NaN to integer'')
     | _ \<Rightarrow> Inl (OverflowError ''cannot convert float infinity to integer''))"

fun py_int :: "pyval \<Rightarrow> exc + int" where
  "py_int (PInt i) = Inr i"
| "py_int (PBool b) = Inr (if b then 1 else 0)"
| "py_int (PFloat x) = int_of_float x"
| "py_int (PStr s) = (case int_of_string s of Some i \<Rightarrow> Inr i | None \<Rightarrow> Inl (ValueError ''invalid literal for int()''))"
| "py_int _ = Inl (TypeError ''int() argument must be a string or a real number'')"

text \<open>\<^verbatim>\<open>round(x, n)\<close>: the nearest decimal with \<open>n\<close> places, ties to even, and the float nearest to it.\<close>

definition py_round :: "nat \<Rightarrow> pyfloat \<Rightarrow> pyfloat" where
  "py_round n x = (case x of Fin q \<Rightarrow> rnd (of_int (rne (q * 10 ^ n)) / 10 ^ n) | _ \<Rightarrow> x)"

text \<open>The format \<^verbatim>\<open>.nf\<close>.\<close>

definition fixed :: "nat \<Rightarrow> pyfloat \<Rightarrow> string" where
  "fixed n x = (case x of
     Fin q \<Rightarrow> let k = nat \<bar>rne (q * 10 ^ n)\<bar>; ds = show_nat (k mod 10 ^ n) in
       (if q < 0 then ''-'' else []) @ show_nat (k div 10 ^ n) @ (if n = 0 then [] else ''.'' @ replicate (n - length ds) (CHR ''0'') @ ds)
   | _ \<Rightarrow> nonfinite_str x)"

definition nonnegative_float :: "pyval \<Rightarrow> string \<Rightarrow> exc + pyfloat" where
  "nonnegative_float v field_name =
     (case py_float v of
        Inl (OverflowError m) \<Rightarrow> Inl (OverflowError m)
      | Inl _ \<Rightarrow> Inl (ValueError (field_name @ '' must be numeric''))
      | Inr x \<Rightarrow> if \<not> is_finite x \<or> flt x (Fin 0) then Inl (ValueError (field_name @ '' must be finite and nonnegative'')) else Inr x)"

text \<open>A float literal.\<close>

definition lit :: "rat \<Rightarrow> pyval" where
  "lit q = PFloat (rnd q)"

definition limit_of :: "string \<Rightarrow> pyval \<Rightarrow> pyval \<Rightarrow> exc + pyfloat" where
  "limit_of k dflt section = ebind (attr_get k dflt section) py_float"

definition indexed :: "string \<Rightarrow> nat \<Rightarrow> string \<Rightarrow> string" where
  "indexed what i name = what @ ''['' @ show_nat i @ '']'' @ name"

fun over :: "nat \<Rightarrow> (nat \<Rightarrow> 'a \<Rightarrow> exc + 'b list) \<Rightarrow> 'a list \<Rightarrow> exc + 'b list" where
  "over i f [] = Inr []"
| "over i f (x # xs) = ebind (f i x) (\<lambda>ys. ebind (over (i + 1) f xs) (\<lambda>zs. Inr (ys @ zs)))"

fun hashable :: "pyval \<Rightarrow> bool" where
  "hashable (PList _) = False"
| "hashable (PDict _) = False"
| "hashable (PSet _) = False"
| "hashable (PTuple xs) = list_all hashable xs"
| "hashable _ = True"

definition hash_set :: "pyval \<Rightarrow> exc + pyval list" where
  "hash_set v = ebind (py_iter v) (\<lambda>xs. if list_all hashable xs then Inr xs else Inl (TypeError ''unhashable type''))"

section \<open>Cloud resources\<close>

record finops_finding =
  ff_type :: string
  ff_severity :: string
  ff_evidence :: "(string \<times> pyval) list"
  ff_recommendation :: "(string \<times> pyval) list"
  ff_resource :: pydict

record analyzer =
  an_ctx :: pydict
  an_multipliers :: pyval
  an_thresholds :: pyval
  an_routing :: pyval

text \<open>Both analyzers are constructed alike.\<close>

definition analyzer_init :: "policy \<Rightarrow> pydict \<Rightarrow> exc + analyzer" where
  "analyzer_init p business_context =
     ebind (attr_get ''scoring'' (PDict []) (pol_data p)) (\<lambda>scoring.
     ebind (attr_get ''savings_multipliers'' (PDict []) scoring) (\<lambda>multipliers.
     ebind (attr_get ''thresholds'' (PDict []) (pol_data p)) (\<lambda>thresholds.
     ebind (attr_get ''approval_routing'' (PDict []) (pol_data p)) (\<lambda>routing.
       Inr \<lparr>an_ctx = business_context, an_multipliers = multipliers, an_thresholds = thresholds, an_routing = routing\<rparr>))))"

text \<open>\<^verbatim>\<open>round(amount * float(self.multipliers.get(action, dflt)), 2)\<close>.\<close>

definition scaled :: "analyzer \<Rightarrow> string \<Rightarrow> rat \<Rightarrow> pyfloat \<Rightarrow> exc + pyfloat" where
  "scaled an action dflt amount = ebind (limit_of action (lit dflt) (an_multipliers an)) (\<lambda>m. Inr (py_round 2 (fmul amount m)))"

definition finops_approval_status :: "(pyfloat \<Rightarrow> string) \<Rightarrow> (pyval \<Rightarrow> string) \<Rightarrow> analyzer \<Rightarrow> pydict \<Rightarrow> string \<Rightarrow> exc + string" where
  "finops_approval_status fr orr an resource risk =
     (let environment = lower (str_of fr orr (py_or (dget ''environment'' PNone resource) (PStr []))); risk_value = lower risk in
      ebind (attr_get ''production_requires_approval_for_risk'' PNone (an_routing an)) (\<lambda>v.
      ebind (hash_set (py_or v (PList []))) (\<lambda>production_risks.
        Inr (if environment = ''production'' \<and> PStr risk_value \<in> set production_risks
          then ''owner_approval_required'' else ''auto_approve_candidate''))))"

definition recommend :: "string \<Rightarrow> pyfloat \<Rightarrow> string \<Rightarrow> string \<Rightarrow> (string \<times> pyval) list" where
  "recommend action savings risk rationale =
     [(''action'', PStr action), (''est_monthly_savings_usd'', PFloat savings), (''risk'', PStr risk), (''rationale'', PStr rationale)]"

definition section_of :: "analyzer \<Rightarrow> string \<Rightarrow> exc + pyval" where
  "section_of an name = attr_get name (PDict []) (an_thresholds an)"

text \<open>Two comparisons joined by \<^verbatim>\<open>and\<close>: the second limit is read only when the first holds.\<close>

definition both :: "exc + bool \<Rightarrow> exc + bool \<Rightarrow> exc + bool" where
  "both a b = ebind a (\<lambda>x. if x then b else Inr False)"

definition below :: "pyfloat \<Rightarrow> exc + pyfloat \<Rightarrow> exc + bool" where
  "below x l = ebind l (\<lambda>y. Inr (flt x y))"

definition above :: "pyfloat \<Rightarrow> exc + pyfloat \<Rightarrow> exc + bool" where
  "above x l = ebind l (\<lambda>y. Inr (flt y x))"

definition underutilized_compute ::
    "(pyfloat \<Rightarrow> string) \<Rightarrow> (pyval \<Rightarrow> string) \<Rightarrow> analyzer \<Rightarrow> pydict \<Rightarrow> pyfloat \<Rightarrow> pyfloat \<Rightarrow> exc + finops_finding list" where
  "underutilized_compute fr orr an resource cost utilization =
     ebind (section_of an ''underutilized_compute'') (\<lambda>t.
     ebind (both (below utilization (limit_of ''utilization_pct_lt'' (lit 10) t)) (above cost (limit_of ''monthly_cost_usd_gt'' (lit 200) t))) (\<lambda>hit.
     if \<not> hit then Inr []
     else ebind (scaled an ''rightsizing_recommendation'' (35 / 100) cost) (\<lambda>savings.
       Inr [\<lparr>ff_type = ''underutilized_compute'', ff_severity = ''high'',
         ff_evidence = [(''utilization_pct'', PFloat utilization), (''monthly_cost_usd'', PFloat cost)],
         ff_recommendation = recommend ''rightsizing_recommendation'' savings
           (if lower (str_of fr orr (dget ''environment'' (PStr []) resource)) = ''production'' then ''med'' else ''low'')
           (''Low utilization ('' @ fixed 1 utilization @ ''%). Recommend downsizing.''),
         ff_resource = resource\<rparr>])))"

definition idle_compute :: "analyzer \<Rightarrow> pydict \<Rightarrow> pyfloat \<Rightarrow> int \<Rightarrow> exc + finops_finding list" where
  "idle_compute an resource cost idle_days =
     ebind (section_of an ''idle_compute'') (\<lambda>t.
     ebind (both (ebind (ebind (attr_get ''idle_days_gte'' (PInt 14) t) py_int) (\<lambda>n. Inr (n \<le> idle_days)))
             (above cost (limit_of ''monthly_cost_usd_gt'' (lit 50) t))) (\<lambda>hit.
     if \<not> hit then Inr []
     else ebind (scaled an ''scheduled_stop'' (65 / 100) cost) (\<lambda>savings.
       Inr [\<lparr>ff_type = ''idle_compute'', ff_severity = ''medium'',
         ff_evidence = [(''days_idle'', PInt idle_days), (''monthly_cost_usd'', PFloat cost)],
         ff_recommendation = recommend ''scheduled_stop'' savings ''low'' (''Idle for '' @ show_int idle_days @ '' days. Recommend a stop schedule.''),
         ff_resource = resource\<rparr>])))"

definition orphaned_storage :: "analyzer \<Rightarrow> pydict \<Rightarrow> pyfloat \<Rightarrow> int \<Rightarrow> exc + finops_finding list" where
  "orphaned_storage an resource cost idle_days =
     (if py_truthy (dget ''attached'' (PBool True) resource) \<or> idle_days < 7 \<or> \<not> flt (Fin 10) cost then Inr []
      else ebind (scaled an ''snapshot_then_delete'' (90 / 100) cost) (\<lambda>savings.
        Inr [\<lparr>ff_type = ''orphaned_storage'', ff_severity = ''medium'',
          ff_evidence = [(''attached'', PBool False), (''days_idle'', PInt idle_days)],
          ff_recommendation = recommend ''snapshot_then_delete'' savings ''low'' ''Unattached volume. Snapshot, validate, then delete.'',
          ff_resource = resource\<rparr>]))"

definition underutilized_database :: "analyzer \<Rightarrow> pydict \<Rightarrow> pyfloat \<Rightarrow> pyfloat \<Rightarrow> exc + finops_finding list" where
  "underutilized_database an resource cost utilization =
     ebind (section_of an ''underutilized_database'') (\<lambda>t.
     ebind (both (below utilization (limit_of ''utilization_pct_lt'' (lit 5) t)) (above cost (limit_of ''monthly_cost_usd_gt'' (lit 300) t))) (\<lambda>hit.
     if \<not> hit then Inr []
     else ebind (scaled an ''rightsizing_recommendation'' (30 / 100) cost) (\<lambda>savings.
       Inr [\<lparr>ff_type = ''underutilized_database'', ff_severity = ''high'',
         ff_evidence = [(''utilization_pct'', PFloat utilization), (''monthly_cost_usd'', PFloat cost)],
         ff_recommendation = recommend ''rightsizing_recommendation'' savings ''high''
           (''Very low utilization ('' @ fixed 1 utilization @ ''%). Owner validation required.''),
         ff_resource = resource\<rparr>])))"

definition storage_tiering :: "analyzer \<Rightarrow> nat \<Rightarrow> pydict \<Rightarrow> pyfloat \<Rightarrow> exc + finops_finding list" where
  "storage_tiering an i resource cost =
     ebind (section_of an ''large_bucket'') (\<lambda>t.
     ebind (nonnegative_float (dget ''storage_gb'' (PInt 0) resource) (indexed ''resources'' i ''.storage_gb'')) (\<lambda>storage_gb.
     ebind (above storage_gb (limit_of ''storage_gb_gt'' (PInt 5000) t)) (\<lambda>hit.
     if \<not> hit then Inr []
     else ebind (scaled an ''lifecycle_policy_to_infrequent_access'' (20 / 100) cost) (\<lambda>savings.
       Inr [\<lparr>ff_type = ''storage_tiering_opportunity'', ff_severity = ''low'',
         ff_evidence = [(''storage_gb'', PFloat storage_gb), (''monthly_cost_usd'', PFloat cost)],
         ff_recommendation = recommend ''lifecycle_policy_to_infrequent_access'' savings ''low''
           ''Large bucket. Add a lifecycle policy for lower-cost storage tiers.'',
         ff_resource = resource\<rparr>]))))"

text \<open>The body of the loop over the resources.\<close>

definition finops_resource ::
    "(pyfloat \<Rightarrow> string) \<Rightarrow> (pyval \<Rightarrow> string) \<Rightarrow> analyzer \<Rightarrow> nat \<Rightarrow> pyval \<Rightarrow> exc + finops_finding list" where
  "finops_resource fr orr an i v =
     (case v of
        PDict resource \<Rightarrow>
          ebind (nonnegative_float (dget ''monthly_cost_usd'' (lit 0) resource) (indexed ''resources'' i ''.monthly_cost_usd'')) (\<lambda>cost.
          ebind (nonnegative_float (dget ''utilization_pct'' (lit 0) resource) (indexed ''resources'' i ''.utilization_pct'')) (\<lambda>utilization.
          ebind (ebind (nonnegative_float (dget ''days_idle'' (PInt 0) resource) (indexed ''resources'' i ''.days_idle'')) int_of_float) (\<lambda>idle_days.
          let resource_type = dget ''type'' PNone resource in
          if resource_type = PStr ''ec2_instance'' then
            ebind (underutilized_compute fr orr an resource cost utilization) (\<lambda>fs.
              if fs \<noteq> [] then Inr fs else idle_compute an resource cost idle_days)
          else if resource_type = PStr ''ebs_volume'' then orphaned_storage an resource cost idle_days
          else if resource_type = PStr ''rds_instance'' then underutilized_database an resource cost utilization
          else if resource_type = PStr ''s3_bucket'' then storage_tiering an i resource cost
          else Inr [])))
      | _ \<Rightarrow> Inl (TypeError (indexed ''resources'' i '' must be a mapping'')))"

definition finops_recommendation ::
    "(pyfloat \<Rightarrow> string) \<Rightarrow> (pyval \<Rightarrow> string) \<Rightarrow> analyzer \<Rightarrow> finops_finding \<Rightarrow> exc + (string \<times> pyval) list" where
  "finops_recommendation fr orr an f =
     (let resource = ff_resource f in
      ebind (finops_approval_status fr orr an resource (case map_of (ff_recommendation f) ''risk'' of Some (PStr r) \<Rightarrow> r | _ \<Rightarrow> [])) (\<lambda>status.
        Inr (dict_merge (ff_recommendation f) [(''resource_id'', dget ''id'' PNone resource), (''resource_type'', dget ''type'' PNone resource),
          (''environment'', dget ''environment'' PNone resource), (''owner'', dget ''owner'' (PStr ''unknown'') resource), (''approval_status'', PStr status)])))"

text \<open>The sum over the recommendations, each amount checked again.\<close>

definition total_of :: "(pyfloat list \<Rightarrow> pyfloat) \<Rightarrow> string \<Rightarrow> (string \<times> pyval) list list \<Rightarrow> exc + pyfloat" where
  "total_of psum field recs =
     ebind (collect (\<lambda>r. nonnegative_float (case map_of r field of Some v \<Rightarrow> v | None \<Rightarrow> lit 0) (''recommendation.'' @ field)) recs) (\<lambda>xs.
       Inr (py_round 2 (psum xs)))"

record finops_report =
  fo_program :: pyval
  fo_reporting_period :: pyval
  fo_currency :: pyval
  fo_num_resources_scanned :: nat
  fo_num_findings :: nat
  fo_total_monthly_savings :: pyfloat
  fo_recommendations :: "(string \<times> pyval) list list"
  fo_assumptions :: pyval

definition list_entry :: "string \<Rightarrow> pydict \<Rightarrow> exc + pyval list" where
  "list_entry k d = (case dget k (PList []) d of PList xs \<Rightarrow> Inr xs | _ \<Rightarrow> Inl (TypeError (''payload.'' @ k @ '' must be a list'')))"

definition finops_analyze ::
    "(pyfloat \<Rightarrow> string) \<Rightarrow> (pyval \<Rightarrow> string) \<Rightarrow> (pyfloat list \<Rightarrow> pyfloat) \<Rightarrow> analyzer \<Rightarrow> pyval \<Rightarrow> exc + finops_report" where
  "finops_analyze fr orr psum an v =
     (case v of
        PDict d \<Rightarrow>
          ebind (list_entry ''resources'' d) (\<lambda>resources.
          ebind (over 0 (finops_resource fr orr an) resources) (\<lambda>findings.
          ebind (collect (finops_recommendation fr orr an) findings) (\<lambda>recommendations.
          ebind (total_of psum ''est_monthly_savings_usd'' recommendations) (\<lambda>savings.
            Inr \<lparr>fo_program = dget ''program'' (PStr ''Cloud Cost Governance'') (an_ctx an), fo_reporting_period = dget ''reporting_period'' PNone (an_ctx an),
              fo_currency = dget ''currency'' (PStr ''USD'') (an_ctx an), fo_num_resources_scanned = length resources, fo_num_findings = length findings,
              fo_total_monthly_savings = savings, fo_recommendations = recommendations, fo_assumptions = dget ''assumptions'' (PList []) (an_ctx an)\<rparr>))))
      | _ \<Rightarrow> Inl (TypeError ''payload must be a mapping''))"

text \<open>The rows of an export.\<close>

definition export_rows :: "string list \<Rightarrow> pydict \<Rightarrow> exc + pyval list list" where
  "export_rows fieldnames output =
     (case py_or (dget ''recommendations'' (PList []) output) (PList []) of
        PList recs \<Rightarrow> ebind (collect (\<lambda>r. case r of
            PDict d \<Rightarrow> Inr (map (\<lambda>k. csv_safe (dget k (PStr []) d)) fieldnames)
          | _ \<Rightarrow> Inl (TypeError ''recommendations must contain mappings'')) recs) (\<lambda>rows. Inr (map PStr fieldnames # rows))
      | _ \<Rightarrow> Inl (TypeError ''agent_output.recommendations must be a list''))"

definition finops_fields :: "string list" where
  "finops_fields = [''resource_id'', ''resource_type'', ''environment'', ''owner'', ''action'', ''risk'', ''approval_status'', ''est_monthly_savings_usd'', ''rationale'']"

section \<open>Invoices\<close>

record leak_finding =
  lf_type :: string
  lf_severity :: string
  lf_evidence :: "(string \<times> pyval) list"
  lf_recommendation :: "(string \<times> pyval) list"
  lf_record :: pydict
  lf_index :: nat

definition priority :: "string \<Rightarrow> nat" where
  "priority action = (if action = ''duplicate_invoice'' then 0 else if action = ''price_variance'' then 1
     else if action = ''unapproved_vendor'' then 2 else if action = ''missing_invoice_id'' then 3 else 99)"

definition risk_set :: "(pyfloat \<Rightarrow> string) \<Rightarrow> (pyval \<Rightarrow> string) \<Rightarrow> string \<Rightarrow> pyval \<Rightarrow> exc + string list" where
  "risk_set fr orr k routing = ebind (attr_get k (PList []) routing) (\<lambda>v. ebind (py_iter v) (\<lambda>xs. Inr (map (\<lambda>x. lower (strip (str_of fr orr x))) xs)))"

definition procurement_approval_status :: "(pyfloat \<Rightarrow> string) \<Rightarrow> (pyval \<Rightarrow> string) \<Rightarrow> analyzer \<Rightarrow> pydict \<Rightarrow> string \<Rightarrow> exc + string" where
  "procurement_approval_status fr orr an invoice risk =
     (let risk0 = lower (strip risk); risk_value = (if risk0 = ''medium'' then ''med'' else risk0) in
      ebind (risk_set fr orr ''requires_approval_for_risk'' (an_routing an)) (\<lambda>general.
      ebind (risk_set fr orr ''production_requires_approval_for_risk'' (an_routing an)) (\<lambda>production.
      let environment = lower (strip (str_of fr orr (dget ''environment'' (dget ''environment'' (PStr []) (an_ctx an)) invoice))) in
        Inr (if risk_value \<in> set general \<or> environment = ''production'' \<and> risk_value \<in> set production
          then ''procurement_approval_required'' else ''auto_approve_candidate''))))"

definition approved_vendor_set :: "pyval \<Rightarrow> exc + string list" where
  "approved_vendor_set v =
     (case v of PNone \<Rightarrow> Inr []
      | PDict _ \<Rightarrow> Inl (TypeError ''payload.approved_vendors must be a list or set of vendor names'')
      | PStr _ \<Rightarrow> Inl (TypeError ''payload.approved_vendors must be a list or set of vendor names'')
      | PBytes _ \<Rightarrow> Inl (TypeError ''payload.approved_vendors must be a list or set of vendor names'')
      | _ \<Rightarrow> (case py_iter v of
          Inl _ \<Rightarrow> Inl (TypeError ''payload.approved_vendors must be a list or set of vendor names'')
        | Inr xs \<Rightarrow> ebind (collect (\<lambda>x. case x of PStr s \<Rightarrow> Inr s | _ \<Rightarrow> Inl (TypeError ''payload.approved_vendors must contain only strings'')) xs)
            (\<lambda>names. Inr (map (\<lambda>s. lower (strip s)) (filter (\<lambda>s. strip s \<noteq> []) names)))))"

definition leak :: "string \<Rightarrow> pyfloat \<Rightarrow> string \<Rightarrow> string \<Rightarrow> (string \<times> pyval) list" where
  "leak action gross risk rationale =
     [(''action'', PStr action), (''est_recoverable_value_usd'', PFloat gross), (''risk'', PStr risk), (''rationale'', PStr rationale)]"

type_synonym signature = "string \<times> string \<times> pyfloat"

text \<open>The four checks of an invoice, in the source's order.  The first also keeps the signatures seen so far.\<close>

definition duplicate_check ::
    "analyzer \<Rightarrow> pyfloat \<Rightarrow> nat \<Rightarrow> pydict \<Rightarrow> string \<Rightarrow> string \<Rightarrow> pyfloat \<Rightarrow> signature list \<Rightarrow> exc + leak_finding list \<times> signature list" where
  "duplicate_check an duplicate_amount i invoice vendor invoice_id amount seen =
     (if invoice_id = [] then
        Inr ([\<lparr>lf_type = ''invoice_data_quality'', lf_severity = ''medium'', lf_evidence = [(''missing_field'', PStr ''invoice_id''), (''vendor'', PStr vendor)],
          lf_recommendation = leak ''missing_invoice_id'' (Fin 0) ''med'' ''Invoice ID is missing. Resolve the data-quality issue before duplicate-payment analysis.'',
          lf_record = invoice, lf_index = i\<rparr>], seen)
      else let signature = (lower vendor, lower invoice_id, amount) in
        if signature \<in> set seen \<and> flt duplicate_amount amount then
          ebind (scaled an ''duplicate_invoice'' 1 amount) (\<lambda>gross.
            Inr ([\<lparr>lf_type = ''duplicate_payment_risk'', lf_severity = ''high'',
              lf_evidence = [(''vendor'', PStr vendor), (''invoice_id'', PStr invoice_id), (''amount_usd'', PFloat amount)],
              lf_recommendation = leak ''duplicate_invoice'' gross ''high'' ''Duplicate invoice signature detected. Validate payment status before placing any hold.'',
              lf_record = invoice, lf_index = i\<rparr>], seen))
        else Inr ([], List.insert signature seen))"

definition vendor_check :: "analyzer \<Rightarrow> string list \<Rightarrow> nat \<Rightarrow> pydict \<Rightarrow> string \<Rightarrow> pyfloat \<Rightarrow> exc + leak_finding list" where
  "vendor_check an approved i invoice vendor amount =
     ebind (section_of an ''unapproved_vendor'') (\<lambda>t. ebind (attr_get ''always_flag'' (PBool True) t) (\<lambda>flag.
       if py_truthy flag \<and> lower vendor \<notin> set approved \<and> lower vendor \<noteq> ''unknown'' then
         ebind (scaled an ''unapproved_vendor'' (40 / 100) amount) (\<lambda>gross.
           Inr [\<lparr>lf_type = ''vendor_compliance_risk'', lf_severity = ''medium'', lf_evidence = [(''vendor'', PStr vendor)],
             lf_recommendation = leak ''unapproved_vendor'' gross ''med'' ''Vendor is not on the approved list. Validate onboarding and contract status.'',
             lf_record = invoice, lf_index = i\<rparr>])
       else Inr []))"

definition percent_over :: "pyfloat \<Rightarrow> pyfloat \<Rightarrow> pyfloat" where
  "percent_over unit_price baseline =
     (if flt (Fin 0) baseline then (case fdiv (fsub unit_price baseline) baseline of Some x \<Rightarrow> fmul x (Fin 100) | None \<Rightarrow> NaN) else Fin 0)"

definition price_check :: "(pyval \<Rightarrow> string) \<Rightarrow> analyzer \<Rightarrow> pydict \<Rightarrow> nat \<Rightarrow> pydict \<Rightarrow> exc + leak_finding list" where
  "price_check prepr an baseline_prices i invoice =
     (let sku = dget ''sku'' PNone invoice in
      ebind (nonnegative_float (dget ''qty'' (PInt 0) invoice) (indexed ''invoices'' i ''.qty'')) (\<lambda>quantity.
      if \<not> hashable sku then Inl (TypeError ''unhashable type'')
      else case map_of baseline_prices sku of
        None \<Rightarrow> Inr []
      | Some price \<Rightarrow>
          if \<not> flt (Fin 0) quantity then Inr []
          else ebind (nonnegative_float price (''baseline_unit_prices['' @ prepr sku @ '']'')) (\<lambda>baseline.
            ebind (nonnegative_float (dget ''unit_price_usd'' (PInt 0) invoice) (indexed ''invoices'' i ''.unit_price_usd'')) (\<lambda>unit_price.
            let pct = percent_over unit_price baseline in
            ebind (section_of an ''price_variance'') (\<lambda>t.
            ebind (above pct (limit_of ''pct_gt'' (lit 15) t)) (\<lambda>hit.
            if \<not> hit then Inr []
            else ebind (scaled an ''price_variance'' (60 / 100) (fmax (Fin 0) (fmul (fsub unit_price baseline) quantity))) (\<lambda>gross.
              Inr [\<lparr>lf_type = ''price_variance'', lf_severity = ''high'',
                lf_evidence = [(''sku'', sku), (''baseline_unit_price'', PFloat baseline), (''unit_price'', PFloat unit_price), (''pct_over'', PFloat (py_round 1 pct))],
                lf_recommendation = leak ''price_variance'' gross ''high''
                  (''Unit price is '' @ fixed 1 pct @ ''% above baseline. Validate contract terms before initiating a dispute.''),
                lf_record = invoice, lf_index = i\<rparr>])))))))"

text \<open>The loop over the invoices, with the amounts by position.\<close>

fun scan_invoices ::
    "(pyfloat \<Rightarrow> string) \<Rightarrow> (pyval \<Rightarrow> string) \<Rightarrow> analyzer \<Rightarrow> pyfloat \<Rightarrow> string list \<Rightarrow> pydict \<Rightarrow> nat \<Rightarrow> pyval list \<Rightarrow> signature list
     \<Rightarrow> exc + leak_finding list \<times> pyfloat list" where
  "scan_invoices fr orr an duplicate_amount approved prices i [] seen = Inr ([], [])"
| "scan_invoices fr orr an duplicate_amount approved prices i (v # vs) seen =
     (case v of
        PDict invoice \<Rightarrow>
          let vendor = strip (str_of fr orr (dget ''vendor'' (PStr ''unknown'') invoice)); invoice_id = strip (str_of fr orr (dget ''invoice_id'' (PStr []) invoice)) in
          ebind (nonnegative_float (dget ''amount_usd'' (lit 0) invoice) (indexed ''invoices'' i ''.amount_usd'')) (\<lambda>amount.
          ebind (duplicate_check an duplicate_amount i invoice vendor invoice_id amount seen) (\<lambda>(fs1, seen').
          ebind (vendor_check an approved i invoice vendor amount) (\<lambda>fs2.
          ebind (price_check orr an prices i invoice) (\<lambda>fs3.
          ebind (scan_invoices fr orr an duplicate_amount approved prices (i + 1) vs seen') (\<lambda>(fs, amounts).
            Inr (fs1 @ fs2 @ fs3 @ fs, amount # amounts))))))
      | _ \<Rightarrow> Inl (TypeError (indexed ''invoices'' i '' must be a mapping'')))"

text \<open>The value of an invoice is allocated once: the findings of one invoice, in the order of their priority, share it.\<close>

definition lf_action :: "leak_finding \<Rightarrow> string" where
  "lf_action f = (case map_of (lf_recommendation f) ''action'' of Some (PStr s) \<Rightarrow> s | _ \<Rightarrow> [])"

definition lf_risk :: "leak_finding \<Rightarrow> string" where
  "lf_risk f = (case map_of (lf_recommendation f) ''risk'' of Some (PStr s) \<Rightarrow> s | _ \<Rightarrow> [])"

fun allocate_findings ::
    "(pyfloat \<Rightarrow> string) \<Rightarrow> (pyval \<Rightarrow> string) \<Rightarrow> analyzer \<Rightarrow> pyfloat \<Rightarrow> leak_finding list \<Rightarrow> exc + (string \<times> pyval) list list" where
  "allocate_findings fr orr an remaining [] = Inr []"
| "allocate_findings fr orr an remaining (f # fs) =
     (let invoice = lf_record f in
      ebind (nonnegative_float (case map_of (lf_recommendation f) ''est_recoverable_value_usd'' of Some v \<Rightarrow> v | None \<Rightarrow> lit 0)
        ''recommendation.est_recoverable_value_usd'') (\<lambda>gross.
      let allocated = py_round 2 (fmin gross remaining); remaining' = py_round 2 (fmax (Fin 0) (fsub remaining allocated)) in
      ebind (procurement_approval_status fr orr an invoice (lf_risk f)) (\<lambda>status.
      let rec = dict_merge (lf_recommendation f) [(''record_id'', dget ''record_id'' PNone invoice), (''vendor'', dget ''vendor'' PNone invoice),
            (''invoice_id'', dget ''invoice_id'' PNone invoice), (''business_unit'', dget ''business_unit'' (PStr ''unknown'') invoice),
            (''finding_type'', PStr (lf_type f)), (''approval_status'', PStr status), (''gross_est_recoverable_value_usd'', PFloat (py_round 2 gross)),
            (''est_recoverable_value_usd'', PFloat allocated), (''overlap_adjustment_usd'', PFloat (py_round 2 (fsub gross allocated)))] in
      ebind (allocate_findings fr orr an remaining' fs) (\<lambda>recs. Inr (rec # recs)))))"

definition grouped :: "leak_finding list \<Rightarrow> (nat \<times> leak_finding list) list" where
  "grouped fs = map (\<lambda>i. (i, filter (\<lambda>f. lf_index f = i) fs)) (rev (remdups (rev (map lf_index fs))))"

definition allocate_group ::
    "(pyfloat \<Rightarrow> string) \<Rightarrow> (pyval \<Rightarrow> string) \<Rightarrow> analyzer \<Rightarrow> pyfloat list \<Rightarrow> nat \<times> leak_finding list \<Rightarrow> exc + (string \<times> pyval) list list" where
  "allocate_group fr orr an amounts g =
     allocate_findings fr orr an (if fst g < length amounts then amounts ! fst g else Fin 0) (sort_key (\<lambda>f. priority (lf_action f)) (snd g))"

record leak_report =
  lr_program :: pyval
  lr_reporting_period :: pyval
  lr_currency :: pyval
  lr_num_records_scanned :: nat
  lr_num_findings :: nat
  lr_total_invoice_value :: pyfloat
  lr_total_recoverable :: pyfloat
  lr_recommendations :: "(string \<times> pyval) list list"
  lr_assumptions :: pyval

definition procurement_analyze ::
    "(pyfloat \<Rightarrow> string) \<Rightarrow> (pyval \<Rightarrow> string) \<Rightarrow> (pyfloat list \<Rightarrow> pyfloat) \<Rightarrow> analyzer \<Rightarrow> pyval \<Rightarrow> exc + leak_report" where
  "procurement_analyze fr orr psum an v =
     (case v of
        PDict d \<Rightarrow>
          ebind (list_entry ''invoices'' d) (\<lambda>invoices.
          ebind (approved_vendor_set (dget ''approved_vendors'' (PList []) d)) (\<lambda>approved.
          case dget ''baseline_unit_prices'' (PDict []) d of
            PDict prices \<Rightarrow>
              ebind (ebind (section_of an ''duplicate_invoice'') (limit_of ''amount_usd_gt'' (lit 1000))) (\<lambda>duplicate_amount.
              ebind (scan_invoices fr orr an duplicate_amount approved prices 0 invoices []) (\<lambda>(findings, amounts).
              ebind (collect (allocate_group fr orr an amounts) (grouped findings)) (\<lambda>groups.
              ebind (total_of psum ''est_recoverable_value_usd'' (concat groups)) (\<lambda>recoverable.
              let invoiced = py_round 2 (psum amounts) in
                Inr \<lparr>lr_program = dget ''program'' (PStr ''Procurement Spend Leakage'') (an_ctx an), lr_reporting_period = dget ''reporting_period'' PNone (an_ctx an),
                  lr_currency = dget ''currency'' (PStr ''USD'') (an_ctx an), lr_num_records_scanned = length invoices, lr_num_findings = length findings,
                  lr_total_invoice_value = invoiced, lr_total_recoverable = fmin recoverable invoiced, lr_recommendations = concat groups,
                  lr_assumptions = dget ''assumptions'' (PList []) (an_ctx an)\<rparr>))))
          | _ \<Rightarrow> Inl (TypeError ''payload.baseline_unit_prices must be a mapping'')))
      | _ \<Rightarrow> Inl (TypeError ''payload must be a mapping''))"

definition procurement_fields :: "string list" where
  "procurement_fields = [''record_id'', ''vendor'', ''invoice_id'', ''business_unit'', ''finding_type'', ''action'', ''risk'', ''approval_status'',
     ''gross_est_recoverable_value_usd'', ''overlap_adjustment_usd'', ''est_recoverable_value_usd'', ''rationale'']"

end
