(* ===== verification/Analyzer_Laws.thy ===== *)
theory Analyzer_Laws
  imports Analyzers Policy_Laws Money
begin

text \<open>
  What the analyzers guarantee about money: the recoverable value that procurement allocates to the findings of an invoice
  never exceeds the invoice, and the savings of a cloud recommendation never exceed the cost, both to the cent and for
  amounts up to \<open>2 ^ 40\<close> dollars.
\<close>

section \<open>Cents in binary floating point\<close>

definition cents :: "int \<Rightarrow> pyfloat" where
  "cents c = rnd (of_int c / 100)"

definition money_range :: "int \<Rightarrow> bool" where
  "money_range c \<longleftrightarrow> 0 \<le> c \<and> c \<le> 100 * 2 ^ 40"

lemma rnd_error_small:
  assumes "0 \<le> x" "x < 2 powi 41" "rnd x = Fin r"
  shows "\<bar>r - x\<bar> \<le> 1 / 8192"
proof (cases "x = 0")
  case False
  then have pos: "0 < x" using assms(1) by simp
  have "flog2 x < 41" using flog2_less pos assms(2) by blast
  then have "ulp_exp x \<le> -12" by (simp add: ulp_exp_def)
  then have "(2::rat) powi ulp_exp x \<le> 2 powi (-12)" by (simp only: powi2_le_iff)
  then have "(2::rat) powi ulp_exp x \<le> 1 / 4096" by (simp add: power_int_minus field_simps)
  then have "\<bar>rnd_pos x - x\<bar> \<le> 1 / 8192" using rnd_pos_error [OF pos] by linarith
  then show ?thesis using assms(3) pos by (auto simp: rnd_def split: if_splits)
qed (use assms(3) in simp)

lemma pow40_double: "is_double (2 powi 40)"
  by (rule is_double_dyadic [where m = 1 and f = 40]) auto

lemma small_double:
  assumes "0 \<le> x" "x \<le> 2 powi 40"
  obtains q where "rnd x = Fin q" "0 \<le> q" "q \<le> 2 powi 40" "is_double q" "\<bar>q - x\<bar> \<le> 1 / 8192"
proof -
  obtain q where q: "rnd x = Fin q" "0 \<le> q" "q \<le> 2 powi 40" "is_double q" using rnd_between [OF is_double_zero pow40_double assms] by blast
  have "x < 2 powi 41" using assms(2) by (rule le_less_trans) simp
  with rnd_error_small [OF assms(1) this q(1)] q show thesis using that by blast
qed

lemma money_range_le: "money_range c \<Longrightarrow> 0 \<le> (of_int c / 100 :: rat) \<and> (of_int c / 100 :: rat) \<le> 2 powi 40"
proof -
  assume m: "money_range c"
  then have "(of_int c :: rat) \<le> of_int (100 * 2 ^ 40)" by (simp only: of_int_le_iff money_range_def)
  then show ?thesis using m by (simp add: money_range_def)
qed

lemma cents_double:
  assumes "money_range c"
  obtains q where "cents c = Fin q" "0 \<le> q" "q \<le> 2 powi 40" "is_double q" "\<bar>q - of_int c / 100\<bar> \<le> 1 / 8192"
  using small_double [of "of_int c / 100"] money_range_le [OF assms] that unfolding cents_def by metis

lemma rne_close: "\<bar>x - of_int n\<bar> < 1 / 2 \<Longrightarrow> rne x = n"
  using rne_error [of x] by linarith

lemma py_round_close: "\<bar>q * 100 - of_int c\<bar> < 1 / 2 \<Longrightarrow> py_round 2 (Fin q) = cents c"
  by (simp add: py_round_def cents_def rne_close)

lemma py_round_cents: 
  assumes "money_range c"
  shows "py_round 2 (cents c) = cents c"
proof -
  obtain q where "cents c = Fin q" "\<bar>q - of_int c / 100\<bar> \<le> 1 / 8192" using cents_double [OF assms] by blast
  then show ?thesis using py_round_close [of q c] by (simp add: abs_if split: if_splits)
qed

lemma cents_mono: "a \<le> b \<Longrightarrow> fle (cents a) (cents b)"
  unfolding cents_def by (rule rnd_mono) (simp add: divide_right_mono)

lemma fle_antisym: "fle a b \<Longrightarrow> fle b a \<Longrightarrow> a = b"
  by (cases a; cases b) auto

lemma flt_not_fle: "flt a b \<Longrightarrow> \<not> fle b a"
  by (cases a; cases b) auto

lemma fmin_cents: "fmin (cents a) (cents b) = cents (min a b)"
proof (cases "a \<le> b")
  case True
  then show ?thesis using cents_mono [OF True] flt_not_fle [of "cents b" "cents a"] by (auto simp: fmin_def)
next
  case False
  then have "fle (cents b) (cents a)" by (intro cents_mono) simp
  moreover have "cents a \<noteq> NaN" "cents b \<noteq> NaN" by (simp_all add: cents_def)
  ultimately show ?thesis using False not_flt [of "cents b" "cents a"] fle_antisym [of "cents a" "cents b"] by (auto simp: fmin_def)
qed

text \<open>The rest of an invoice after an allocation.\<close>

lemma rest_cents:
  assumes "money_range a" "0 \<le> b" "b \<le> a"
  shows "py_round 2 (fmax (Fin 0) (fsub (cents a) (cents b))) = cents (a - b)"
proof -
  have rb: "money_range b" "money_range (a - b)" using assms by (auto simp: money_range_def)
  obtain x where x: "cents a = Fin x" "x \<le> 2 powi 40" "\<bar>x - of_int a / 100\<bar> \<le> 1 / 8192" using cents_double [OF assms(1)] by blast
  obtain y where y: "cents b = Fin y" "0 \<le> y" "\<bar>y - of_int b / 100\<bar> \<le> 1 / 8192" using cents_double [OF rb(1)] by blast
  have yx: "y \<le> x" using cents_mono [OF assms(3)] x y by simp
  have d: "0 \<le> x - y" "x - y \<le> 2 powi 40" using yx x(2) y(2) by linarith+
  obtain z where z: "rnd (x - y) = Fin z" "0 \<le> z" "\<bar>z - (x - y)\<bar> \<le> 1 / 8192" using small_double [OF d] by blast
  have "\<bar>z * 100 - of_int (a - b)\<bar> \<le> 300 / 8192" unfolding of_int_diff using x(3) y(3) z(3) by linarith
  then have "py_round 2 (Fin z) = cents (a - b)" by (intro py_round_close) linarith
  moreover have "fsub (cents a) (cents b) = Fin z" using x y z by (simp add: fsub_def)
  ultimately show ?thesis using z(2) by (cases "z = 0") (simp_all add: fmax_def)
qed

section \<open>The findings of an invoice share its amount\<close>

definition gross_of :: "leak_finding \<Rightarrow> pyval option" where
  "gross_of f = map_of (lf_recommendation f) ''est_recoverable_value_usd''"

definition allocated_of :: "(string \<times> pyval) list \<Rightarrow> pyval option" where
  "allocated_of r = map_of r ''est_recoverable_value_usd''"

definition from_invoice :: "pydict \<Rightarrow> (string \<times> pyval) list \<Rightarrow> bool" where
  "from_invoice invoice r \<longleftrightarrow>
     map_of r ''record_id'' = Some (dget ''record_id'' PNone invoice) \<and> map_of r ''invoice_id'' = Some (dget ''invoice_id'' PNone invoice)"

definition rounded_finding :: "(nat \<Rightarrow> pydict) \<Rightarrow> leak_finding \<Rightarrow> bool" where
  "rounded_finding iv f \<longleftrightarrow> (\<exists>x. gross_of f = Some (PFloat (py_round 2 x))) \<and> lf_record f = iv (lf_index f)"

lemma py_round_cases:
  assumes "nonnegative_float (PFloat (py_round 2 x)) m = Inr g"
  obtains k where "0 \<le> k" "g = cents k"
proof -
  from assms have g: "g = py_round 2 x" "is_finite g" "\<not> flt g (Fin 0)" by (auto simp: nonnegative_float_def split: if_splits)
  then obtain q where q: "g = cents (rne (q * 100))" by (cases x) (auto simp: py_round_def cents_def)
  show thesis
  proof (cases "0 \<le> rne (q * 100)")
    case True
    then show thesis using that q by blast
  next
    case False
    then have "fle g (cents 0)" unfolding q by (intro cents_mono) simp
    then have "g = cents 0" using g(2,3) by (cases g) (auto simp: cents_def)
    then show thesis using that [of 0] by simp
  qed
qed

lemma allocated_cents:
  assumes "money_range a" "0 \<le> k"
  shows "py_round 2 (fmin (cents k) (cents a)) = cents (min k a)"
proof -
  have "money_range (min k a)" using assms by (auto simp: money_range_def)
  then show ?thesis by (simp only: fmin_cents py_round_cents)
qed

lemma allocate_findings_bound:
  assumes "allocate_findings fr orr an (cents a) fs = Inr recs" "money_range a" "list_all (rounded_finding iv) fs" "list_all (\<lambda>f. lf_index f = i) fs"
  shows "list_all (from_invoice (iv i)) recs \<and>
    (\<exists>ks. map allocated_of recs = map (\<lambda>k. Some (PFloat (cents k))) ks \<and> list_all (\<lambda>k. 0 \<le> k) ks \<and> sum_list ks \<le> a)"
  using assms
proof (induction fs arbitrary: a recs)
  case Nil
  then show ?case by (auto simp: money_range_def)
next
  case (Cons f fs)
  from Cons.prems(3) obtain x where x: "gross_of f = Some (PFloat (py_round 2 x))" "lf_record f = iv i"
    using Cons.prems(4) by (auto simp: rounded_finding_def)
  from Cons.prems(1) x obtain g r rs where
    g: "nonnegative_float (PFloat (py_round 2 x)) ''recommendation.est_recoverable_value_usd'' = Inr g" and
    r: "recs = r # rs" "from_invoice (iv i) r" "allocated_of r = Some (PFloat (py_round 2 (fmin g (cents a))))" and
    rs: "allocate_findings fr orr an (py_round 2 (fmax (Fin 0) (fsub (cents a) (py_round 2 (fmin g (cents a)))))) fs = Inr rs"
    by (auto simp: ebind_Inr Let_def from_invoice_def allocated_of_def map_of_dict_merge gross_of_def)
  obtain k where k: "0 \<le> k" "g = cents k" using py_round_cases [OF g] .
  define m where "m = min k a"
  have m: "0 \<le> m" "m \<le> a" "money_range (a - m)" using k Cons.prems(2) by (auto simp: m_def money_range_def)
  have al: "py_round 2 (fmin g (cents a)) = cents m" using allocated_cents [OF Cons.prems(2) k(1)] k(2) by (simp add: m_def)
  have "allocate_findings fr orr an (cents (a - m)) fs = Inr rs" using rs rest_cents [OF Cons.prems(2) m(1,2)] by (simp only: al)
  from Cons.IH [OF this m(3)] Cons.prems(3,4) obtain ks where
    ks: "list_all (from_invoice (iv i)) rs" "map allocated_of rs = map (\<lambda>k. Some (PFloat (cents k))) ks" "list_all (\<lambda>k. 0 \<le> k) ks" "sum_list ks \<le> a - m" by auto
  show ?case using r al m ks by (auto intro!: exI [of _ "m # ks"])
qed

section \<open>The findings of the scan\<close>

definition leak_of :: "nat \<Rightarrow> pydict \<Rightarrow> leak_finding \<Rightarrow> bool" where
  "leak_of i invoice f \<longleftrightarrow> lf_index f = i \<and> lf_record f = invoice \<and> (\<exists>x. gross_of f = Some (PFloat (py_round 2 x)))"

lemma scaled_round: "scaled an action dflt amount = Inr g \<Longrightarrow> \<exists>x. g = py_round 2 x"
  by (auto simp: scaled_def ebind_Inr)

lemma py_round_zero: "py_round 2 (Fin 0) = Fin 0"
  by (simp add: py_round_def rne_close [of 0 0])

lemma gross_leak: "gross_of \<lparr>lf_type = t, lf_severity = sv, lf_evidence = ev, lf_recommendation = leak a g rk ra, lf_record = d, lf_index = i\<rparr> = Some (PFloat g)"
  by (simp add: gross_of_def leak_def)

lemmas leak_of_simps = leak_of_def gross_leak

lemma duplicate_check_leaks:
  assumes "duplicate_check an da i invoice vendor iid amount seen = Inr (fs, seen')" "f \<in> set fs"
  shows "leak_of i invoice f"
proof -
  have "\<exists>x. Fin 0 = py_round 2 x" using py_round_zero by metis
  then show ?thesis using assms
    by (auto simp: duplicate_check_def ebind_Inr leak_of_simps Let_def split: if_splits dest!: scaled_round)
qed

lemma vendor_check_leaks:
  "vendor_check an approved i invoice vendor amount = Inr fs \<Longrightarrow> f \<in> set fs \<Longrightarrow> leak_of i invoice f"
  by (auto simp: vendor_check_def ebind_Inr leak_of_simps split: if_splits dest!: scaled_round)

lemma price_check_leaks:
  "price_check pr an prices i invoice = Inr fs \<Longrightarrow> f \<in> set fs \<Longrightarrow> leak_of i invoice f"
  by (auto simp: price_check_def ebind_Inr leak_of_simps Let_def split: if_splits option.splits dest!: scaled_round)

definition invoice_amount :: "pyval \<Rightarrow> pyfloat option" where
  "invoice_amount v = (case v of PDict invoice \<Rightarrow> (case py_float (dget ''amount_usd'' (lit 0) invoice) of Inr x \<Rightarrow> Some x | Inl _ \<Rightarrow> None) | _ \<Rightarrow> None)"

lemma nonnegative_float_Inr: "nonnegative_float v m = Inr x \<Longrightarrow> py_float v = Inr x"
  by (auto simp: nonnegative_float_def split: sum.splits exc.splits if_splits)

lemma scan_invoices_cases:
  assumes "scan_invoices fr orr an da ap pr i (v # vs) seen = Inr (fs, am)"
  obtains invoice amount fs1 seen' fs2 am' where "v = PDict invoice" "invoice_amount v = Some amount" "am = amount # am'" "fs = fs1 @ fs2"
    "\<And>f. f \<in> set fs1 \<Longrightarrow> leak_of i invoice f" "scan_invoices fr orr an da ap pr (i + 1) vs seen' = Inr (fs2, am')"
proof -
  obtain invoice where v: "v = PDict invoice" using assms by (cases v) auto
  from assms [unfolded v] obtain amount a1 seen' a2 a3 a4 am' where
    a: "nonnegative_float (dget ''amount_usd'' (lit 0) invoice) (indexed ''invoices'' i ''.amount_usd'') = Inr amount"
    "fs = a1 @ a2 @ a3 @ a4" "am = amount # am'"
    "scan_invoices fr orr an da ap pr (i + 1) vs seen' = Inr (a4, am')" and
    ck: "\<exists>vendor iid. duplicate_check an da i invoice vendor iid amount seen = Inr (a1, seen')"
      "\<exists>vendor. vendor_check an ap i invoice vendor amount = Inr a2" "price_check orr an pr i invoice = Inr a3"
    by (simp add: ebind_Inr Let_def split: prod.splits) metis
  have "invoice_amount v = Some amount" using nonnegative_float_Inr [OF a(1)] by (simp add: invoice_amount_def v)
  moreover have "f \<in> set (a1 @ a2 @ a3) \<Longrightarrow> leak_of i invoice f" for f
    using ck by (auto dest: duplicate_check_leaks vendor_check_leaks price_check_leaks)
  ultimately show thesis using that [of invoice amount am' "a1 @ a2 @ a3" a4 seen'] v a by simp
qed

lemma scan_invoices_leaks:
  assumes "scan_invoices fr orr an da ap pr n vs seen = Inr (fs, am)"
  shows "map Some am = map invoice_amount vs \<and> list_all (\<lambda>f. \<exists>j < length vs. \<exists>invoice. vs ! j = PDict invoice \<and> leak_of (n + j) invoice f) fs"
  using assms
proof (induction vs arbitrary: n seen fs am)
  case (Cons v vs)
  from Cons.prems obtain invoice amount fs1 seen' fs2 am' where
    v: "v = PDict invoice" "invoice_amount v = Some amount" "am = amount # am'" "fs = fs1 @ fs2" and
    hd: "\<And>f. f \<in> set fs1 \<Longrightarrow> leak_of n invoice f" and tl: "scan_invoices fr orr an da ap pr (n + 1) vs seen' = Inr (fs2, am')"
    by (rule scan_invoices_cases) blast
  note IH = Cons.IH [OF tl]
  have "list_all (\<lambda>f. \<exists>j < length (v # vs). \<exists>invoice. (v # vs) ! j = PDict invoice \<and> leak_of (n + j) invoice f) fs1"
    unfolding list_all_iff using hd v(1) by (intro ballI exI [of _ 0]) simp
  moreover have "list_all (\<lambda>f. \<exists>j < length (v # vs). \<exists>invoice. (v # vs) ! j = PDict invoice \<and> leak_of (n + j) invoice f) fs2"
    using IH unfolding list_all_iff
  proof (intro ballI, goal_cases)
    case (1 f)
    then obtain j invoice where "j < length vs" "vs ! j = PDict invoice" "leak_of (n + 1 + j) invoice f" by blast
    then show ?case by (intro exI [of _ "Suc j"]) auto
  qed
  ultimately show ?case using v IH by simp
qed simp

section \<open>The groups of a report\<close>

definition shares_amount :: "pyval list \<Rightarrow> int list \<Rightarrow> nat \<times> (string \<times> pyval) list list \<Rightarrow> bool" where
  "shares_amount vs cs g \<longleftrightarrow> fst g < length cs \<and> (\<exists>invoice. vs ! fst g = PDict invoice \<and> list_all (from_invoice invoice) (snd g)) \<and>
     (\<exists>ks. map allocated_of (snd g) = map (\<lambda>k. Some (PFloat (cents k))) ks \<and> list_all (\<lambda>k. 0 \<le> k) ks \<and> sum_list ks \<le> cs ! fst g)"

lemma grouped_fst: "distinct (map fst (grouped fs)) \<and> set (map fst (grouped fs)) = lf_index ` set fs"
  by (simp add: grouped_def comp_def)

lemma grouped_snd: "g \<in> set (grouped fs) \<Longrightarrow> snd g = filter (\<lambda>f. lf_index f = fst g) fs"
  by (auto simp: grouped_def)

lemma cents_amounts:
  assumes "map Some am = map invoice_amount vs" "list_all2 (\<lambda>v c. money_range c \<and> invoice_amount v = Some (cents c)) vs cs"
  shows "am = map cents cs \<and> list_all money_range cs \<and> length vs = length cs"
proof -
  have "length vs = length cs" using assms(2) by (rule list_all2_lengthD)
  moreover have "map invoice_amount vs = map Some (map cents cs)" using assms(2) by (induction vs cs rule: list_all2_induct) auto
  moreover have "list_all money_range cs" using assms(2) by (induction vs cs rule: list_all2_induct) auto
  moreover have "am = map cents cs" using assms(1) calculation(2) inj_map_eq_map [OF inj_Some, of am] by (simp only:)
  ultimately show ?thesis by blast
qed

lemma allocate_group_shares:
  assumes g: "allocate_group fr orr an (map cents cs) g = Inr recs" "g \<in> set (grouped fs)" and cs: "list_all money_range cs" "length vs = length cs"
    and leaks: "list_all (\<lambda>f. \<exists>j < length vs. \<exists>invoice. vs ! j = PDict invoice \<and> leak_of j invoice f) fs"
  shows "shares_amount vs cs (fst g, recs)"
proof -
  define i where "i = fst g"
  have "i \<in> lf_index ` set fs" using g(2) grouped_fst [of fs] by (auto simp: i_def)
  then obtain invoice where i: "i < length cs" "vs ! i = PDict invoice" using leaks cs(2) by (auto simp: list_all_iff leak_of_def)
  define fs' where "fs' = sort_key (\<lambda>f. priority (lf_action f)) (snd g)"
  have fs': "list_all (rounded_finding (\<lambda>j. invoice)) fs'" "list_all (\<lambda>f. lf_index f = i) fs'"
    using leaks i(2) unfolding fs'_def grouped_snd [OF g(2)] i_def by (auto simp: list_all_iff leak_of_def rounded_finding_def)
  have "allocate_findings fr orr an (cents (cs ! i)) fs' = Inr recs" using g(1) i(1) by (simp add: allocate_group_def i_def fs'_def)
  from allocate_findings_bound [OF this _ fs'] cs(1) i show ?thesis by (auto simp: shares_amount_def i_def list_all_length)
qed

lemma procurement_analyze_cases:
  assumes "procurement_analyze fr orr psum an (PDict d) = Inr r"
  obtains vs da ap pr fs am groups where "list_entry ''invoices'' d = Inr vs" "scan_invoices fr orr an da ap pr 0 vs [] = Inr (fs, am)"
    "collect (allocate_group fr orr an am) (grouped fs) = Inr groups" "lr_recommendations r = concat groups"
    "lr_num_findings r = length fs" "lr_total_invoice_value r = py_round 2 (psum am)"
proof (cases "dget ''baseline_unit_prices'' (PDict []) d")
  case (PDict prices)
  show thesis using assms PDict by (auto simp: procurement_analyze_def ebind_Inr Let_def intro!: that)
qed (use assms in \<open>auto simp: procurement_analyze_def ebind_Inr\<close>)

text \<open>C20: The recoverable value of an invoice is given out once, when every invoice of the report has an amount in whole cents, up to
  \<open>2 ^ 40\<close> dollars (an amount with a fraction of a cent can be exceeded, see \<^verbatim>\<open>subcent_recovery_exceeds\<close>).  The recommendations of a procurement report fall into groups, one per
  invoice; within a group every recommendation names that invoice, every estimated recovery is a whole number of cents that is not
  negative, and together they are at most the amount of the invoice, whatever the multipliers.\<close>

theorem recovery_within_invoice:
  assumes "procurement_analyze fr orr psum an (PDict d) = Inr r" "list_entry ''invoices'' d = Inr vs"
    "list_all2 (\<lambda>v c. money_range c \<and> invoice_amount v = Some (cents c)) vs cs"
  shows "\<exists>gs. lr_recommendations r = concat (map snd gs) \<and> distinct (map fst gs) \<and> list_all (shares_amount vs cs) gs"
proof -
  from assms(1,2) obtain da ap pr fs am groups where
    s: "scan_invoices fr orr an da ap pr 0 vs [] = Inr (fs, am)" "collect (allocate_group fr orr an am) (grouped fs) = Inr groups"
    "lr_recommendations r = concat groups" by (auto elim!: procurement_analyze_cases)
  note leaks = scan_invoices_leaks [OF s(1)]
  have am: "am = map cents cs" "list_all money_range cs" "length vs = length cs" using cents_amounts [OF _ assms(3)] leaks by auto
  have al: "list_all2 (\<lambda>g recs. allocate_group fr orr an (map cents cs) g = Inr recs) (grouped fs) groups" using s(2) by (simp add: collect_Inr_iff am)
  define gs where "gs = zip (map fst (grouped fs)) groups"
  have len: "length (grouped fs) = length groups" using al by (rule list_all2_lengthD)
  have "map snd gs = groups" "map fst gs = map fst (grouped fs)" using len by (simp_all add: gs_def)
  moreover have "list_all (shares_amount vs cs) gs" unfolding list_all_length
  proof (intro allI impI)
    fix n assume "n < length gs"
    then have n: "n < length (grouped fs)" "gs ! n = (fst (grouped fs ! n), groups ! n)" using len by (simp_all add: gs_def)
    have "allocate_group fr orr an (map cents cs) (grouped fs ! n) = Inr (groups ! n)" using al n(1) by (rule list_all2_nthD)
    moreover have "list_all (\<lambda>f. \<exists>j < length vs. \<exists>invoice. vs ! j = PDict invoice \<and> leak_of j invoice f) fs" using leaks by simp
    ultimately show "shares_amount vs cs (gs ! n)" unfolding n(2) using allocate_group_shares [OF _ nth_mem [OF n(1)] am(2,3)] by blast
  qed
  ultimately show ?thesis using s(3) grouped_fst [of fs] by (intro exI [of _ gs]) simp
qed

text \<open>Two copies of an invoice of a vendor that is not approved.\<close>

definition demo_leak_analyzer :: analyzer where
  "demo_leak_analyzer = \<lparr>an_ctx = [], an_multipliers = PDict [(PStr ''unapproved_vendor'', PFloat (Fin (1 / 2)))], an_thresholds = PDict [], an_routing = PDict []\<rparr>"

definition demo_invoice :: pydict where
  "demo_invoice = [(PStr ''vendor'', PStr ''acme''), (PStr ''invoice_id'', PStr ''7''), (PStr ''amount_usd'', PInt 2000)]"

definition demo_invoices :: pydict where
  "demo_invoices = [(PStr ''invoices'', PList [PDict demo_invoice, PDict demo_invoice])]"

lemma demo_rnd: "rnd 2000 = Fin 2000" "rnd 1000 = Fin 1000" "rnd 1 = Fin 1"  "rnd 4000 = Fin 4000" "rnd 0 = Fin 0"
  using rnd_of_int [of 2000] rnd_of_int [of 1000] rnd_of_int [of 1] rnd_of_int [of 4000] by simp_all

lemma demo_round: "\<bar>c\<bar> \<le> 2 ^ 53 \<Longrightarrow> py_round 2 (Fin (of_int c)) = Fin (of_int c)"
  using rne_close [of "of_int c * 100" "c * 100"] by (simp add: py_round_def)

lemma demo_string: "strip ''acme'' = ''acme''" "lower ''acme'' = ''acme''" "strip ''7'' = ''7''" "lower ''7'' = ''7''"
  by (simp_all add: strip_def lstrip_def rstrip_def py_space_def lower_def lower_char_def)


lemma demo_report0: "rnd 3000 = Fin 3000" using rnd_of_int [of 3000] by simp
lemma demo_report: "\<exists>r. procurement_analyze (\<lambda>_. []) (\<lambda>_. []) (foldl fadd (Fin 0)) demo_leak_analyzer (PDict demo_invoices) = Inr r \<and> lr_num_findings r = 3 \<and> lr_total_recoverable r = Fin 3000"
  apply (simp add: procurement_analyze_def demo_invoices_def list_entry_def approved_vendor_set_def demo_invoice_def dget_def section_of_def demo_leak_analyzer_def attr_get_def limit_of_def
    duplicate_check_def vendor_check_def price_check_def scaled_def nonnegative_float_def Let_def demo_rnd demo_report0 demo_string lit_def demo_round [of 1000, simplified] demo_round [of 2000, simplified] demo_round [of 3000, simplified] demo_round [of 4000, simplified] demo_round [of 0, simplified]
    py_iter.simps leak_def grouped_def allocate_group_def lf_action_def lf_risk_def priority_def procurement_approval_status_def risk_set_def total_of_def dict_merge_def map_of_dict_merge fmin_def fmax_def fsub_def)
  done

theorem recovery_within_invoice_witness:
  "\<exists>gs r. procurement_analyze (\<lambda>_. []) (\<lambda>_. []) (foldl fadd (Fin 0)) demo_leak_analyzer (PDict demo_invoices) = Inr r \<and> lr_num_findings r = 3
     \<and> lr_total_recoverable r = Fin 3000 \<and> lr_recommendations r = concat (map snd gs) \<and> distinct (map fst gs)
     \<and> list_all (shares_amount [PDict demo_invoice, PDict demo_invoice] [200000, 200000]) gs"
proof -
  obtain r where r: "procurement_analyze (\<lambda>_. []) (\<lambda>_. []) (foldl fadd (Fin 0)) demo_leak_analyzer (PDict demo_invoices) = Inr r"
    "lr_num_findings r = 3" "lr_total_recoverable r = Fin 3000" using demo_report by blast
  have "list_entry ''invoices'' demo_invoices = Inr [PDict demo_invoice, PDict demo_invoice]" by (simp add: list_entry_def demo_invoices_def dget_def)
  moreover have "list_all2 (\<lambda>v c. money_range c \<and> invoice_amount v = Some (cents c)) [PDict demo_invoice, PDict demo_invoice] [200000, 200000]"
    by (simp add: money_range_def invoice_amount_def demo_invoice_def dget_def cents_def demo_rnd)
  ultimately show ?thesis using recovery_within_invoice [OF r(1)] r by blast
qed

section \<open>Multipliers of an accepted policy\<close>

definition unit_multipliers :: "pyval \<Rightarrow> bool" where
  "unit_multipliers v \<longleftrightarrow> (\<exists>items. v = PDict items \<and> (\<forall>k u. map_of items k = Some u \<longrightarrow> (\<exists>x. py_float u = Inr (Fin x) \<and> 0 \<le> x \<and> x \<le> 1)))"

lemma multiplier_item_ok: "multiplier_item kv = Inr [] \<Longrightarrow> \<exists>x. py_float (snd kv) = Inr (Fin x) \<and> 0 \<le> x \<and> x \<le> 1"
proof -
  assume "multiplier_item kv = Inr []"
  then obtain x where x: "py_float (snd kv) = Inr x" "fle (Fin 0) x \<and> fle x (Fin 1)" by (auto simp: multiplier_item_def ebind_Inr split: if_splits)
  then show ?thesis by (cases x) auto
qed

lemma collect_concat_Nil: "collect f xs = Inr ys \<Longrightarrow> concat ys = [] \<Longrightarrow> x \<in> set xs \<Longrightarrow> f x = Inr []"
  by (induction xs arbitrary: ys) (auto simp: ebind_Inr)

lemma validate_scoring_ok:
  assumes "validate_scoring sc = Inr []" "map_of sc (PStr ''savings_multipliers'') = Some v"
  shows "unit_multipliers v"
proof -
  from assms obtain items ys where v: "v = PDict items" "collect multiplier_item items = Inr ys" "concat ys = []"
    by (auto simp: validate_scoring_def ebind_Inr split: pyval.splits)
  have "map_of items k = Some u \<Longrightarrow> \<exists>x. py_float u = Inr (Fin x) \<and> 0 \<le> x \<and> x \<le> 1" for k u
    using multiplier_item_ok [OF collect_concat_Nil [OF v(2,3) map_of_SomeD [of items k u]]] by simp
  then show ?thesis using v(1) by (auto simp: unit_multipliers_def)
qed

lemma complaints_scoring:
  assumes "policy_complaints d = Inr []" "map_of d (PStr ''scoring'') = Some v"
  shows "\<exists>sc. v = PDict sc \<and> validate_scoring sc = Inr []"
proof -
  obtain e4 sc where sc: "require_mapping d ''scoring'' False = (e4, sc)" by (cases "require_mapping d ''scoring'' False")
  have "e4 = []" "validate_scoring sc = Inr []" using assms(1) sc by (auto simp: policy_complaints_def Let_def ebind_Inr split: prod.splits)
  then show ?thesis using sc assms(2) by (auto simp: require_mapping_def split: pyval.splits)
qed

lemma freeze_unit: "unit_multipliers (PDict items) \<Longrightarrow> str_keyed items \<Longrightarrow> unit_multipliers (freeze_value fr orr (PDict items))"
  by (auto simp: unit_multipliers_def freeze_dict map_of_frozen simp del: freeze_value.simps) (metis freeze_number)

lemma accepted_multipliers:
  assumes "policy_from_mapping fr orr name (jdict d) = Inr p" "wf_json (JObj d)" "analyzer_init p ctx = Inr an"
  shows "unit_multipliers (an_multipliers an)"
proof -
  let ?d = "normalize_policy fr orr (jdict d)"
  have p: "pol_data p = PDict (map (\<lambda>(k, v). (k, freeze_value fr orr v)) ?d)"
    using assms(1) freeze_dict [OF str_keyed_normalized] assms(2) by (auto simp: policy_from_mapping_def Let_def ebind_Inr split: if_splits)
  have sec: "map_of ?d (PStr ''scoring'') = map_option py_of_json (map_of d ''scoring'')" by (auto simp: normalize_policy_def split: option.splits pyval.splits)
  show ?thesis
  proof (cases "map_of d ''scoring''")
    case None
    then show ?thesis using assms(3) sec p by (auto simp: analyzer_init_def ebind_Inr attr_get_def dget_def map_of_frozen unit_multipliers_def)
  next
    case (Some j)
    have ok: "policy_complaints (jdict d) = Inr []" using assms(1) by (auto simp: policy_from_mapping_def validate_policy_def ebind_Inr split: if_splits)
    then obtain sm where j: "j = JObj sm" and v: "validate_scoring (jdict sm) = Inr []"
      using complaints_scoring [OF ok, of "py_of_json j"] Some by auto
    have keyed: "str_keyed (jdict sm)" using str_keyed_jdict [OF wf_json_section [OF assms(2)]] Some j by simp
    have fz: "freeze_value fr orr (py_of_json j) = PDict (map (\<lambda>(k, v). (k, freeze_value fr orr v)) (jdict sm))" using freeze_dict [OF keyed] j by (simp add: jdict_def)
    show ?thesis
    proof (cases "map_of sm ''savings_multipliers''")
      case None
      then show ?thesis using assms(3) sec p Some fz by (auto simp: analyzer_init_def ebind_Inr attr_get_def dget_def map_of_frozen unit_multipliers_def)
    next
      case (Some m)
      then have u: "unit_multipliers (py_of_json m)" using validate_scoring_ok [OF v] by simp
      then obtain mm where m: "m = JObj mm" by (cases m) (auto simp: unit_multipliers_def)
      have "wf_json j" using assms(2) \<open>map_of d ''scoring'' = Some j\<close> by (auto simp: list_all_iff dest!: map_of_SomeD)
      then have "str_keyed (jdict mm)" using str_keyed_jdict [OF wf_json_section] Some m j by blast
      moreover have mj: "py_of_json m = PDict (jdict mm)" using m by (simp add: jdict_def)
      ultimately have "unit_multipliers (freeze_value fr orr (py_of_json m))" using u unfolding mj by (intro freeze_unit)
      then show ?thesis using assms(3) sec p \<open>map_of d ''scoring'' = Some j\<close> fz Some
        by (auto simp: analyzer_init_def ebind_Inr attr_get_def dget_def map_of_frozen)
    qed
  qed
qed

section \<open>Savings of a resource\<close>

definition savings_of :: "(string \<times> pyval) list \<Rightarrow> pyval option" where
  "savings_of r = map_of r ''est_monthly_savings_usd''"

definition resource_cost :: "pyval \<Rightarrow> pyfloat option" where
  "resource_cost v = (case v of PDict resource \<Rightarrow> (case py_float (dget ''monthly_cost_usd'' (lit 0) resource) of Inr x \<Rightarrow> Some x | Inl _ \<Rightarrow> None) | _ \<Rightarrow> None)"

definition the_cost :: "pyval \<Rightarrow> pyfloat list" where
  "the_cost v = (case resource_cost v of None \<Rightarrow> [] | Some x \<Rightarrow> [x])"

definition saves_at_most :: "pydict \<Rightarrow> rat \<Rightarrow> finops_finding \<Rightarrow> bool" where
  "saves_at_most resource q f \<longleftrightarrow> ff_resource f = resource \<and> (\<exists>k. 0 \<le> k \<and> k \<le> rne (q * 100) \<and> savings_of (ff_recommendation f) = Some (PFloat (cents k)))"

lemma rnd_unit: "0 \<le> q \<Longrightarrow> q \<le> 1 \<Longrightarrow> \<exists>x. rnd q = Fin x \<and> 0 \<le> x \<and> x \<le> 1"
  using rnd_between_ex [OF is_double_zero, of 1 q] is_double_dyadic [where m = 1 and f = 0] by auto

lemma limit_unit:
  assumes "limit_of k (lit dflt) v = Inr m" "unit_multipliers v" "0 \<le> dflt" "dflt \<le> 1"
  shows "\<exists>x. m = Fin x \<and> 0 \<le> x \<and> x \<le> 1"
proof -
  obtain items where v: "v = PDict items" "\<And>k u. map_of items k = Some u \<Longrightarrow> \<exists>x. py_float u = Inr (Fin x) \<and> 0 \<le> x \<and> x \<le> 1"
    using assms(2) by (auto simp: unit_multipliers_def)
  show ?thesis
  proof (cases "map_of items (PStr k)")
    case None
    then show ?thesis using assms(1) v(1) rnd_unit [OF assms(3,4)] by (simp add: limit_of_def attr_get_def dget_def lit_def)
  next
    case (Some u)
    then show ?thesis using assms(1) v(1) v(2) [OF Some] by (auto simp: limit_of_def attr_get_def dget_def)
  qed
qed

lemma scaled_bound:
  assumes "unit_multipliers (an_multipliers an)" "scaled an action dflt (Fin q) = Inr s" "is_double q \<and> 0 \<le> q" "0 \<le> dflt" "dflt \<le> 1"
  shows "\<exists>k. 0 \<le> k \<and> k \<le> rne (q * 100) \<and> s = cents k"
proof -
  from assms(2) obtain m where m: "limit_of action (lit dflt) (an_multipliers an) = Inr m" "s = py_round 2 (fmul (Fin q) m)"
    by (auto simp: scaled_def ebind_Inr)
  obtain x where x: "m = Fin x" "0 \<le> x" "x \<le> 1" using limit_unit [OF m(1) assms(1,4,5)] by blast
  have "q * x \<le> q" using assms(3) x by (simp add: mult_left_le)
  moreover have "0 \<le> q * x" using assms(3) x(2) by simp
  ultimately obtain y where y: "rnd (q * x) = Fin y" "0 \<le> y" "y \<le> q" using rnd_between_ex [OF is_double_zero] assms(3) by blast
  then have "rne (y * 100) \<le> rne (q * 100)" "0 \<le> rne (y * 100)" using rne_mono [of "y * 100" "q * 100"] rne_nonneg [of "y * 100"] by auto
  moreover have "s = cents (rne (y * 100))" using m(2) x(1) y(1) by (simp add: py_round_def cents_def)
  ultimately show ?thesis by blast
qed

lemma finding_saves:
  assumes "unit_multipliers (an_multipliers an)" "scaled an action dflt (Fin q) = Inr s" "is_double q \<and> 0 \<le> q" "0 \<le> dflt" "dflt \<le> 1"
  shows "saves_at_most resource q \<lparr>ff_type = t, ff_severity = sv, ff_evidence = ev, ff_recommendation = recommend action s rk ra, ff_resource = resource\<rparr>"
  using scaled_bound [OF assms] by (auto simp: saves_at_most_def savings_of_def recommend_def)

lemma checks_save:
  assumes "unit_multipliers (an_multipliers an)" "is_double q \<and> 0 \<le> q"
  shows "underutilized_compute fr orr an resource (Fin q) u = Inr fs \<Longrightarrow> length fs \<le> 1 \<and> list_all (saves_at_most resource q) fs"
    "idle_compute an resource (Fin q) n = Inr fs \<Longrightarrow> length fs \<le> 1 \<and> list_all (saves_at_most resource q) fs"
    "orphaned_storage an resource (Fin q) n = Inr fs \<Longrightarrow> length fs \<le> 1 \<and> list_all (saves_at_most resource q) fs"
    "underutilized_database an resource (Fin q) u = Inr fs \<Longrightarrow> length fs \<le> 1 \<and> list_all (saves_at_most resource q) fs"
    "storage_tiering an i resource (Fin q) = Inr fs \<Longrightarrow> length fs \<le> 1 \<and> list_all (saves_at_most resource q) fs"
proof -
  note saves = finding_saves [OF assms(1) _ assms(2)]
  show "underutilized_compute fr orr an resource (Fin q) u = Inr fs \<Longrightarrow> length fs \<le> 1 \<and> list_all (saves_at_most resource q) fs"
    by (auto simp: underutilized_compute_def ebind_Inr intro!: saves split: if_splits)
  show "idle_compute an resource (Fin q) n = Inr fs \<Longrightarrow> length fs \<le> 1 \<and> list_all (saves_at_most resource q) fs"
    by (auto simp: idle_compute_def ebind_Inr intro!: saves split: if_splits)
  show "orphaned_storage an resource (Fin q) n = Inr fs \<Longrightarrow> length fs \<le> 1 \<and> list_all (saves_at_most resource q) fs"
    by (auto simp: orphaned_storage_def ebind_Inr intro!: saves split: if_splits)
  show "underutilized_database an resource (Fin q) u = Inr fs \<Longrightarrow> length fs \<le> 1 \<and> list_all (saves_at_most resource q) fs"
    by (auto simp: underutilized_database_def ebind_Inr intro!: saves split: if_splits)
  show "storage_tiering an i resource (Fin q) = Inr fs \<Longrightarrow> length fs \<le> 1 \<and> list_all (saves_at_most resource q) fs"
    by (auto simp: storage_tiering_def ebind_Inr intro!: saves split: if_splits)
qed

lemma finops_resource_saves:
  assumes "finops_resource fr orr an i v = Inr fs" "unit_multipliers (an_multipliers an)" "list_all wf_float (the_cost v)"
  shows "length fs \<le> 1 \<and> (\<exists>resource q. v = PDict resource \<and> resource_cost v = Some (Fin q) \<and> 0 \<le> q \<and> list_all (saves_at_most resource q) fs)"
proof -
  obtain resource where v: "v = PDict resource" using assms(1) by (cases v) (simp_all add: finops_resource_def)
  from assms(1) obtain x u n where x: "nonnegative_float (dget ''monthly_cost_usd'' (lit 0) resource) (indexed ''resources'' i ''.monthly_cost_usd'') = Inr x"
    and fs: "(let resource_type = dget ''type'' PNone resource in
          if resource_type = PStr ''ec2_instance'' then
            ebind (underutilized_compute fr orr an resource x u) (\<lambda>fs. if fs \<noteq> [] then Inr fs else idle_compute an resource x n)
          else if resource_type = PStr ''ebs_volume'' then orphaned_storage an resource x n
          else if resource_type = PStr ''rds_instance'' then underutilized_database an resource x u
          else if resource_type = PStr ''s3_bucket'' then storage_tiering an i resource x
          else Inr []) = Inr fs"
    unfolding finops_resource_def v pyval.case by (elim ebind_Inr [THEN iffD1, elim_format] exE conjE)
  obtain q where q: "x = Fin q" "0 \<le> q" using x by (cases x) (auto simp: nonnegative_float_def split: sum.splits exc.splits if_splits)
  have cost: "resource_cost v = Some (Fin q)" using nonnegative_float_Inr [OF x] by (simp add: resource_cost_def v q(1))
  then have "is_double q \<and> 0 \<le> q" using assms(3) q(2) by (simp add: the_cost_def wf_float_def)
  note saves = checks_save [OF assms(2) this]
  have "length fs \<le> 1 \<and> list_all (saves_at_most resource q) fs"
    using fs unfolding q(1) Let_def ebind_Inr by (auto dest: saves simp: ebind_Inr simp del: One_nat_def split: if_splits)
  then show ?thesis using v cost q(2) by blast
qed

text \<open>A loop that gives at most one result per item gives them in the order of the items.\<close>

lemma over_indices:
  assumes "over n f vs = Inr fs" "\<And>j ys. j < length vs \<Longrightarrow> f (n + j) (vs ! j) = Inr ys \<Longrightarrow> length ys \<le> 1 \<and> list_all (P j) ys"
  shows "\<exists>js. sorted_wrt (<) js \<and> list_all2 (\<lambda>j y. j < length vs \<and> P j y) js fs"
  using assms
proof (induction vs arbitrary: n fs P)
  case (Cons v vs)
  from Cons.prems(1) obtain ys zs where yz: "f n v = Inr ys" "over (n + 1) f vs = Inr zs" "fs = ys @ zs" by (auto simp: ebind_Inr)
  have "length zs' \<le> 1 \<and> list_all (P (Suc j)) zs'" if "j < length vs" "f (n + 1 + j) (vs ! j) = Inr zs'" for j zs'
    using Cons.prems(2) [of "Suc j" zs'] that by simp
  from Cons.IH [OF yz(2), of "\<lambda>j. P (Suc j)", OF this] obtain js where js: "sorted_wrt (<) js" "list_all2 (\<lambda>j y. j < length vs \<and> P (Suc j) y) js zs" by blast
  have ys: "ys = [] \<or> (\<exists>y. ys = [y] \<and> P 0 y)" using Cons.prems(2) [of 0 ys] yz(1) by (cases ys) auto
  have "list_all2 (\<lambda>j y. j < length (v # vs) \<and> P j y) (map Suc js) zs" using js(2) by (simp add: list_all2_map1)
  then have "list_all2 (\<lambda>j y. j < length (v # vs) \<and> P j y) (map (\<lambda>_. 0) ys @ map Suc js) fs" unfolding yz(3) using ys by auto
  moreover have "sorted_wrt (<) (map (\<lambda>_. 0) ys @ map Suc js)" using ys js(1) by (auto simp: sorted_wrt_map)
  ultimately show ?case by blast
qed simp

definition within_cost :: "pyval list \<Rightarrow> nat \<Rightarrow> (string \<times> pyval) list \<Rightarrow> bool" where
  "within_cost vs j r \<longleftrightarrow> (\<exists>resource q k. vs ! j = PDict resource \<and> map_of r ''resource_id'' = Some (dget ''id'' PNone resource)
     \<and> resource_cost (vs ! j) = Some (Fin q) \<and> 0 \<le> q \<and> 0 \<le> k \<and> k \<le> rne (q * 100) \<and> savings_of r = Some (PFloat (cents k)))"

lemma recommendation_within:
  assumes "finops_recommendation fr orr an f = Inr r" "vs ! j = PDict resource" "resource_cost (vs ! j) = Some (Fin q)" "0 \<le> q" "saves_at_most resource q f"
  shows "within_cost vs j r"
proof -
  have "map_of r ''resource_id'' = Some (dget ''id'' PNone resource)" "savings_of r = savings_of (ff_recommendation f)"
    using assms(1,5) by (auto simp: finops_recommendation_def ebind_Inr Let_def saves_at_most_def savings_of_def map_of_dict_merge)
  then show ?thesis using assms(2-5) unfolding within_cost_def saves_at_most_def by auto
qed

text \<open>C21: Under every policy document that \<^verbatim>\<open>policy_from_mapping\<close> accepts, a cloud report recommends at most one action per resource, in the order
  of the resources, and the savings of an action are a whole number of cents that is at least zero and at most what the resource costs,
  rounded to cents.  The costs are any doubles; a cost that is not in whole cents may be exceeded by the rounding.\<close>

theorem savings_within_cost:
  assumes "policy_from_mapping fr orr name (jdict d) = Inr p" "wf_json (JObj d)" "analyzer_init p ctx = Inr an"
    "finops_analyze fr orr psum an (PDict payload) = Inr r" "list_entry ''resources'' payload = Inr vs"
    "list_all wf_float (concat (map the_cost vs))"
  shows "\<exists>js. sorted_wrt (<) js \<and> list_all2 (within_cost vs) js (fo_recommendations r)"
proof -
  note unit = accepted_multipliers [OF assms(1-3)]
  from assms(4,5) obtain fs where fs: "over 0 (finops_resource fr orr an) vs = Inr fs" "collect (finops_recommendation fr orr an) fs = Inr (fo_recommendations r)"
    by (auto simp: finops_analyze_def ebind_Inr)
  define P where "P j f \<longleftrightarrow> (\<exists>resource q. vs ! j = PDict resource \<and> resource_cost (vs ! j) = Some (Fin q) \<and> 0 \<le> q \<and> saves_at_most resource q f)" for j f
  have "length ys \<le> 1 \<and> list_all (P j) ys" if j: "j < length vs" "finops_resource fr orr an (0 + j) (vs ! j) = Inr ys" for j ys
  proof -
    have "list_all wf_float (the_cost (vs ! j))" using assms(6) j(1) by (auto simp: list_all_iff)
    from finops_resource_saves [OF j(2) unit this] show ?thesis by (auto simp: P_def elim!: list.pred_mono_strong)
  qed
  from over_indices [OF fs(1), of P, OF this] obtain js where js: "sorted_wrt (<) js" "list_all2 (\<lambda>j f. j < length vs \<and> P j f) js fs" by blast
  have "list_all2 (\<lambda>f r. finops_recommendation fr orr an f = Inr r) fs (fo_recommendations r)" using fs(2) by (simp add: collect_Inr_iff)
  with js(2) have "list_all2 (within_cost vs) js (fo_recommendations r)"
    by (rule list_all2_trans [rotated]) (auto simp: P_def intro: recommendation_within)
  then show ?thesis using js(1) by blast
qed

text \<open>An underused virtual machine under the sample policy document.\<close>

definition demo_cloud_analyzer :: analyzer where
  "demo_cloud_analyzer = \<lparr>an_ctx = [], an_multipliers = PDict [], an_thresholds = PDict [], an_routing = PDict []\<rparr>"

definition demo_machine :: pydict where
  "demo_machine = [(PStr ''id'', PStr ''i-1''), (PStr ''type'', PStr ''ec2_instance''), (PStr ''monthly_cost_usd'', PInt 400)]"

lemma demo_cloud_policy: "\<exists>p. policy_from_mapping fr orr ''p'' (jdict demo_document) = Inr p \<and> analyzer_init p [] = Inr demo_cloud_analyzer"
proof -
  obtain p where p: "policy_from_mapping fr orr ''p'' (jdict demo_document) = Inr p" using demo_accepted by blast
  let ?d = "normalize_policy fr orr (jdict demo_document)"
  have "distinct (map fst demo_document)" by (simp add: demo_document_def)
  from freeze_dict [OF str_keyed_normalized [OF this]] have "pol_data p = PDict (map (\<lambda>(k, v). (k, freeze_value fr orr v)) ?d)"
    using p by (auto simp: policy_from_mapping_def Let_def ebind_Inr split: if_splits)
  moreover have "map_of ?d (PStr ''scoring'') = None" "map_of ?d (PStr ''thresholds'') = None" "map_of ?d (PStr ''approval_routing'') = None"
    by (simp_all add: normalize_policy_def demo_document_def jdict_def)
  ultimately have "analyzer_init p [] = Inr demo_cloud_analyzer"
    by (simp add: analyzer_init_def attr_get_def dget_def map_of_frozen demo_cloud_analyzer_def)
  then show ?thesis using p by blast
qed

lemma demo_cloud_report:
  "\<exists>r. finops_analyze (\<lambda>_. []) (\<lambda>_. []) (foldl fadd (Fin 0)) demo_cloud_analyzer (PDict [(PStr ''resources'', PList [PDict demo_machine])]) = Inr r
     \<and> length (fo_recommendations r) = 1"
proof -
  have rn: "rnd 400 = Fin 400" "rnd 200 = Fin 200" "rnd 10 = Fin 10" using rnd_of_int [of 400] rnd_of_int [of 200] rnd_of_int [of 10] by simp_all
  then have c: "cents 40000 = Fin 400" by (simp add: cents_def)
  obtain x where x: "rnd (7 / 20) = Fin x" using rnd_unit [of "7 / 20"] by auto
  obtain s where s: "scaled demo_cloud_analyzer ''rightsizing_recommendation'' (35 / 100) (Fin 400) = Inr s"
    by (simp add: scaled_def demo_cloud_analyzer_def limit_of_def attr_get_def dget_def lit_def)
  moreover have "is_double 400" "rne (400 * 100) = 40000" using rn(1) rne_of_int [of 40000] by (simp_all add: is_double_def)
  ultimately obtain k where k: "0 \<le> k" "k \<le> 40000" "s = cents k"
    using scaled_bound [of demo_cloud_analyzer _ _ 400, OF _ s] by (auto simp: demo_cloud_analyzer_def unit_multipliers_def)
  obtain q where q: "s = Fin q" "0 \<le> q" using cents_double [of k] k by (auto simp: money_range_def)
  show ?thesis using s q unfolding demo_cloud_analyzer_def
    by (simp add: finops_analyze_def list_entry_def dget_def demo_machine_def finops_resource_def nonnegative_float_def rn lit_def int_of_float_def trunc_def
      underutilized_compute_def section_of_def attr_get_def both_def below_def above_def limit_of_def Let_def lower_def
      finops_recommendation_def recommend_def finops_approval_status_def py_or_def hash_set_def total_of_def map_of_dict_merge)
qed

theorem savings_within_cost_witness:
  "\<exists>p r js. policy_from_mapping (\<lambda>_. []) (\<lambda>_. []) ''p'' (jdict demo_document) = Inr p
     \<and> finops_analyze (\<lambda>_. []) (\<lambda>_. []) (foldl fadd (Fin 0)) demo_cloud_analyzer (PDict [(PStr ''resources'', PList [PDict demo_machine])]) = Inr r
     \<and> length (fo_recommendations r) = 1 \<and> sorted_wrt (<) js \<and> list_all2 (within_cost [PDict demo_machine]) js (fo_recommendations r)"
proof -
  obtain p where p: "policy_from_mapping (\<lambda>_. []) (\<lambda>_. []) ''p'' (jdict demo_document) = Inr p" "analyzer_init p [] = Inr demo_cloud_analyzer"
    using demo_cloud_policy by blast
  obtain r where r: "finops_analyze (\<lambda>_. []) (\<lambda>_. []) (foldl fadd (Fin 0)) demo_cloud_analyzer (PDict [(PStr ''resources'', PList [PDict demo_machine])]) = Inr r"
    "length (fo_recommendations r) = 1" using demo_cloud_report by blast
  have "wf_json (JObj demo_document)" by (simp add: demo_document_def)
  moreover have "list_entry ''resources'' [(PStr ''resources'', PList [PDict demo_machine])] = Inr [PDict demo_machine]" by (simp add: list_entry_def dget_def)
  moreover have "list_all wf_float (concat (map the_cost [PDict demo_machine]))"
    using rnd_of_int [of 400] by (simp add: the_cost_def resource_cost_def demo_machine_def dget_def wf_float_def is_double_def)
  ultimately show ?thesis using savings_within_cost [OF p(1) _ p(2) r(1)] p r by blast
qed

section \<open>Routing by risk\<close>

definition routing_to :: "string \<Rightarrow> string \<Rightarrow> pydict" where
  "routing_to key risk = [(PStr key, PList [PStr risk])]"

definition routed :: "string \<Rightarrow> string \<Rightarrow> analyzer" where
  "routed key risk = \<lparr>an_ctx = [], an_multipliers = PDict [], an_thresholds = PDict [], an_routing = freeze_value (\<lambda>_. []) (\<lambda>_. []) (PDict (routing_to key risk))\<rparr>"

lemma risk_text: "strip ''med'' = ''med''" "strip ''medium'' = ''medium''" "lower ''med'' = ''med''" "lower ''medium'' = ''medium''"
    "strip ''production'' = ''production''" "lower ''production'' = ''production''"
  by (simp_all add: strip_def lstrip_def rstrip_def py_space_def lower_def lower_char_def)

text \<open>A routing that asks for approval of \<^verbatim>\<open>medium\<close> risk is a valid policy, as one that asks for \<^verbatim>\<open>med\<close> is.  Under the first a finding of
  medium risk, which both analyzers spell \<^verbatim>\<open>med\<close>, is a candidate for automatic approval, even in production; under the second it waits for an approval.\<close>

theorem medium_routing_ignored:
  "validate_routing_key (routing_to key ''medium'') key = [] \<and> validate_routing_key (routing_to key ''med'') key = []
   \<and> procurement_approval_status fr orr (routed ''requires_approval_for_risk'' ''medium'') invoice ''med'' = Inr ''auto_approve_candidate''
   \<and> procurement_approval_status fr orr (routed ''requires_approval_for_risk'' ''med'') invoice ''med'' = Inr ''procurement_approval_required''
   \<and> finops_approval_status fr orr (routed ''production_requires_approval_for_risk'' ''medium'') [(PStr ''environment'', PStr ''production'')] ''med'' = Inr ''auto_approve_candidate''
   \<and> finops_approval_status fr orr (routed ''production_requires_approval_for_risk'' ''med'') [(PStr ''environment'', PStr ''production'')] ''med'' = Inr ''owner_approval_required''"
  by (simp add: validate_routing_key_def check_risks_def routing_to_def routed_def procurement_approval_status_def risk_set_def attr_get_def dget_def Let_def
    finops_approval_status_def py_or_def hash_set_def risk_text)

section \<open>Amounts that are no whole cents\<close>

text \<open>The comment above the allocation says that the findings of an invoice cannot exceed its amount; the rounding to cents can.\<close>

lemma subcent_recovery_exceeds:
  "allocate_findings fr orr (routed ''requires_approval_for_risk'' ''med'') (Fin (2000 + 1 / 128))
     [\<lparr>lf_type = t, lf_severity = sv, lf_evidence = ev, lf_recommendation = leak ''duplicate_invoice'' (py_round 2 (Fin (2000 + 1 / 128))) ''high'' ra, lf_record = d, lf_index = i\<rparr>]
     = Inr [r] \<Longrightarrow> allocated_of r = Some (PFloat (cents 200001)) \<and> flt (Fin (2000 + 1 / 128)) (cents 200001)"
proof -
  have rd: "py_round 2 (Fin (2000 + 1 / 128)) = cents 200001" using rne_close [of "200000 + 100 / 128" 200001] by (simp add: py_round_def cents_def)
  obtain q where q: "cents 200001 = Fin q" "\<bar>q - 200001 / 100\<bar> \<le> 1 / 8192" using cents_double [of 200001] by (auto simp: money_range_def)
  have lt: "2000 + 1 / 128 < q" using q(2) by linarith
  assume "allocate_findings fr orr (routed ''requires_approval_for_risk'' ''med'') (Fin (2000 + 1 / 128))
     [\<lparr>lf_type = t, lf_severity = sv, lf_evidence = ev, lf_recommendation = leak ''duplicate_invoice'' (py_round 2 (Fin (2000 + 1 / 128))) ''high'' ra, lf_record = d, lf_index = i\<rparr>] = Inr [r]"
  then have "allocated_of r = Some (PFloat (py_round 2 (fmin (cents 200001) (Fin (2000 + 1 / 128)))))"
    unfolding rd using q(1) by (auto simp: ebind_Inr Let_def allocated_of_def map_of_dict_merge leak_def nonnegative_float_def split: if_splits)
  moreover have "fmin (cents 200001) (Fin (2000 + 1 / 128)) = Fin (2000 + 1 / 128)" using q(1) lt by (simp add: fmin_def)
  ultimately show ?thesis using q(1) lt rd by simp
qed

end
