(* ===== verification/Http_Api.thy ===== *)
theory Http_Api
  imports Control_Plane Scim Ledger Runner
begin

text \<open>
  \<^verbatim>\<open>create_fastapi_app\<close> of \<^verbatim>\<open>agent_roi/enterprise/control_plane.py\<close>: the HTTP interface to the control plane, the identity store, the
  ROI ledger and the audit store.  FastAPI finds the route, decodes the path and checks the shape of the request before a handler
  runs, so a request is a value of a datatype with one constructor per route, and a route of a part that was not configured is not
  found.  A body is a JSON object; where the handler spreads it over keyword arguments it is the record of these arguments, bodies
  that Python refuses as arguments being left out.  The identity store is the SQLite one.  Clock readings and fresh identifiers of
  a request come as a record.  The text of a \<^verbatim>\<open>KeyError\<close> is its key in quotes.
\<close>

section \<open>Requests and replies\<close>

record new_agent =
  na_agent_id :: string
  na_environment :: string
  na_owner :: string
  na_purpose :: string
  na_status :: string
  na_metadata :: json_object
  na_version :: string
  na_expected_revision :: "int option"

record value_body =
  vb_stage :: string
  vb_amount_usd :: pyval
  vb_evidence_key :: string
  vb_recorded_by :: "string option"
  vb_evidence_uri :: string
  vb_measurement_date :: string
  vb_notes :: string

record cost_body =
  cb_agent_id :: string
  cb_cost_type :: string
  cb_amount_usd :: pyval
  cb_currency_code :: string
  cb_evidence_key :: string
  cb_recorded_by :: "string option"
  cb_opportunity_id :: string
  cb_incurred_date :: string
  cb_notes :: string

datatype request =
    Health
  | Publish_Policy org_id env_name string policy_version json_object
  | Activate_Policy org_id env_name string policy_version string
  | Active_Policy org_id env_name string
  | Promote_Policy org_id env_name string policy_version env_name json_object
  | Rollback_Policy org_id env_name string policy_version
  | Start_Rollout org_id env_name string policy_version json_object string
  | Cancel_Rollout org_id env_name string
  | Resolve_Policy org_id env_name string agent_name
  | Register_Agent org_id new_agent string
  | Heartbeat org_id agent_name env_name json_object string
  | List_Agents org_id env_name string int int
  | Audit_Record json_object
  | Audit_Append json_object
  | Audit_Tail string
  | Audit_Verify string
  | Scim_Users int int
  | Scim_Create_User json_object
  | Scim_Get_User string
  | Scim_Replace_User string json_object
  | Scim_Delete_User string
  | Scim_Groups int int
  | Scim_Create_Group json_object
  | Scim_Get_Group string
  | Scim_Replace_Group string json_object
  | Scim_Delete_Group string
  | Rbac_Roles
  | Rbac_Save_Role string json_object
  | Rbac_Delete_Role string
  | Rbac_Bindings
  | Rbac_Save_Binding json_object
  | Rbac_Delete_Binding string
  | Roi_Summary org_id
  | Roi_Create org_id new_opportunity
  | Roi_List org_id agent_name string int int
  | Roi_Get org_id string
  | Roi_Transition org_id string json_object string
  | Roi_Record_Value org_id string value_body
  | Roi_Record_Cost org_id cost_body

text \<open>What a handler raises: an answer with a status, or an exception that the server turns into the status 500.\<close>

datatype http_error = HTTPException nat string | Unhandled exc

record 'a audit_service =
  au_backend :: "'a audit_backend"
  au_hash_chain :: bool
  au_verify :: "string option \<Rightarrow> 'a \<Rightarrow> exc + nat"

record ('w, 'a) api =
  ap_crypto :: crypto
  ap_host :: host
  ap_service :: "'w control_service"
  ap_verifier :: "(string \<Rightarrow> exc + principal) option"
  ap_authorizer :: "(identity_db \<Rightarrow> principal option \<Rightarrow> string \<Rightarrow> string \<Rightarrow> payload \<Rightarrow> exc + unit) option"
  ap_has_scim :: bool
  ap_has_ledger :: bool
  ap_audit :: "'a audit_service option"

record ('w, 'a) api_state =
  as_control :: "'w control_state"
  as_identity :: identity_db
  as_ledger :: ledger
  as_audit :: 'a

record readings =
  rg_now :: utc_text
  rg_now2 :: utc_text
  rg_today :: utc_text
  rg_ms :: int
  rg_uuid :: uuid_text

type_synonym ('r, 'w, 'a) handler = "('w, 'a) api_state \<Rightarrow> (http_error + 'r) \<times> ('w, 'a) api_state"

definition hret :: "'r \<Rightarrow> ('r, 'w, 'a) handler" where
  "hret x s = (Inr x, s)"

definition hraise :: "http_error \<Rightarrow> ('r, 'w, 'a) handler" where
  "hraise e s = (Inl e, s)"

definition hbnd :: "('r, 'w, 'a) handler \<Rightarrow> ('r \<Rightarrow> ('q, 'w, 'a) handler) \<Rightarrow> ('q, 'w, 'a) handler" where
  "hbnd f g s = (case f s of (Inl e, s') \<Rightarrow> (Inl e, s') | (Inr x, s') \<Rightarrow> g x s')"

definition http_detail :: "exc \<Rightarrow> string" where
  "http_detail e = (case e of KeyError k \<Rightarrow> [CHR 0x27] @ k @ [CHR 0x27] | _ \<Rightarrow> exc_message e)"

text \<open>The \<^verbatim>\<open>except\<close> clauses of a handler: the classes each catches, with its status.\<close>

definition caught :: "(string list \<times> nat) list \<Rightarrow> exc \<Rightarrow> http_error" where
  "caught clauses e = (case find (\<lambda>(cs, st). exc_isinstance e cs) clauses of
     Some (_, st) \<Rightarrow> HTTPException st (http_detail e) | None \<Rightarrow> Unhandled e)"

definition attempt :: "(string list \<times> nat) list \<Rightarrow> (('w, 'a) api_state \<Rightarrow> (exc + 'r) \<times> ('w, 'a) api_state) \<Rightarrow> ('r, 'w, 'a) handler" where
  "attempt clauses f s = (case f s of (Inl e, s') \<Rightarrow> (Inl (caught clauses e), s') | (Inr x, s') \<Rightarrow> (Inr x, s'))"

definition on_control :: "('r, 'w control_state) eff \<Rightarrow> ('w, 'a) api_state \<Rightarrow> (exc + 'r) \<times> ('w, 'a) api_state" where
  "on_control f s = (case f (as_control s) of (r, c) \<Rightarrow> (r, s\<lparr>as_control := c\<rparr>))"

definition on_identity :: "(identity_db \<Rightarrow> (exc + 'r) \<times> identity_db) \<Rightarrow> ('w, 'a) api_state \<Rightarrow> (exc + 'r) \<times> ('w, 'a) api_state" where
  "on_identity f s = (case f (as_identity s) of (r, d) \<Rightarrow> (r, s\<lparr>as_identity := d\<rparr>))"

definition on_ledger :: "(ledger \<Rightarrow> (exc + 'r) \<times> ledger) \<Rightarrow> ('w, 'a) api_state \<Rightarrow> (exc + 'r) \<times> ('w, 'a) api_state" where
  "on_ledger f s = (case f (as_ledger s) of (r, d) \<Rightarrow> (r, s\<lparr>as_ledger := d\<rparr>))"

definition on_audit :: "('a \<Rightarrow> (exc + 'r) \<times> 'a) \<Rightarrow> ('w, 'a) api_state \<Rightarrow> (exc + 'r) \<times> ('w, 'a) api_state" where
  "on_audit f s = (case f (as_audit s) of (r, a) \<Rightarrow> (r, s\<lparr>as_audit := a\<rparr>))"

definition reading :: "(('w, 'a) api_state \<Rightarrow> exc + 'r) \<Rightarrow> ('w, 'a) api_state \<Rightarrow> (exc + 'r) \<times> ('w, 'a) api_state" where
  "reading f s = (f s, s)"

definition answered :: "('r \<Rightarrow> pyval) \<Rightarrow> ('r, 'w, 'a) handler \<Rightarrow> (pyval, 'w, 'a) handler" where
  "answered f h = hbnd h (\<lambda>x. hret (f x))"

section \<open>Authentication and authorization\<close>

definition principal_dependency :: "('w, 'a) api \<Rightarrow> string \<Rightarrow> http_error + principal option" where
  "principal_dependency ap authorization =
     (case ap_verifier ap of
        None \<Rightarrow> Inr None
      | Some verify \<Rightarrow> (case verify authorization of
          Inr p \<Rightarrow> Inr (Some p)
        | Inl e \<Rightarrow> Inl (if is_Exception e then HTTPException 401 ''Authentication failed'' else Unhandled e)))"

definition api_require :: "('w, 'a) api \<Rightarrow> principal option \<Rightarrow> string \<Rightarrow> string \<Rightarrow> env_name \<Rightarrow> org_id \<Rightarrow> (unit, 'w, 'a) handler" where
  "api_require ap caller action resource environ org s =
     (if org \<noteq> [] \<and> (case caller of None \<Rightarrow> False | Some p \<Rightarrow> pr_organization_id p \<noteq> org)
      then hraise (HTTPException 403 ''Cross-organization access denied'') s
      else case ap_authorizer ap of
        None \<Rightarrow> hret () s
      | Some auth \<Rightarrow> (case auth (as_identity s) caller action resource [(''environment'', PStr environ)] of
          Inr _ \<Rightarrow> hret () s
        | Inl e \<Rightarrow> hraise (if is_Exception e then HTTPException 403 ''Authorization denied'' else Unhandled e) s))"

definition expected_revision :: "string \<Rightarrow> http_error + int option" where
  "expected_revision if_match =
     (let v1 = strip if_match;
          v2 = (if take 2 v1 = ''W/'' then strip (drop 2 v1) else v1);
          v3 = (if 2 \<le> length v2 \<and> hd v2 = CHR 0x22 \<and> List.last v2 = CHR 0x22 then butlast (tl v2) else v2) in
      if v3 = [] then Inr None
      else case int_of_string v3 of
        None \<Rightarrow> Inl (HTTPException 400 ''If-Match must contain an integer revision'')
      | Some n \<Rightarrow> if n < 1 then Inl (HTTPException 400 ''If-Match revision must be >= 1'') else Inr (Some n))"

definition lifted :: "http_error + 'r \<Rightarrow> ('r, 'w, 'a) handler" where
  "lifted r s = (r, s)"

definition subject_or :: "principal option \<Rightarrow> string \<Rightarrow> string" where
  "subject_or caller dflt = (case caller of Some p \<Rightarrow> pr_subject p | None \<Rightarrow> dflt)"

definition body_text :: "('w, 'a) api \<Rightarrow> string \<Rightarrow> string \<Rightarrow> json_object \<Rightarrow> string" where
  "body_text ap k dflt body = jstr (cr_float (ap_crypto ap)) (cr_repr (ap_crypto ap)) (jget_or (JStr dflt) k body)"

definition body_item_text :: "('w, 'a) api \<Rightarrow> string \<Rightarrow> json_object \<Rightarrow> exc + string" where
  "body_item_text ap k body = ebind (jitem k body) (\<lambda>v. Inr (jstr (cr_float (ap_crypto ap)) (cr_repr (ap_crypto ap)) v))"

section \<open>Policies and agents\<close>

definition json_reply :: "json_object \<Rightarrow> pyval" where
  "json_reply d = py_of_json (JObj d)"

text \<open>The service looks the signer up before it makes a dictionary of the policy.\<close>

definition policy_body :: "('w, 'a) api \<Rightarrow> json_object \<Rightarrow> exc + json_object" where
  "policy_body ap body =
     ebind (jitem ''policy'' body) (\<lambda>v.
       let given = body_text ap ''signer_key_id'' [] body; key = (if given = [] then sv_default_signer_key_id (ap_service ap) else given) in
       case map_of (sv_signers (ap_service ap)) key of None \<Rightarrow> Inl (KeyError key) | Some _ \<Rightarrow> jdict_of v)"

definition api_publish_policy ::
    "('w, 'a) api \<Rightarrow> readings \<Rightarrow> principal option \<Rightarrow> org_id \<Rightarrow> env_name \<Rightarrow> string \<Rightarrow> policy_version \<Rightarrow> json_object \<Rightarrow> (pyval, 'w, 'a) handler" where
  "api_publish_policy ap rg caller org environ name version body =
     hbnd (api_require ap caller ''policy.publish'' name environ org) (\<lambda>_.
       answered (\<lambda>b. json_reply (bundle_to_dict b)) (attempt [([''Exception''], 400)] (on_control (
         bnd (lift (policy_body ap body)) (\<lambda>policy.
           publish_policy (ap_crypto ap) (ap_service ap) (rg_now rg) org name environ version (jdict policy)
             (subject_or caller (body_text ap ''created_by'' ''api'' body)) (body_text ap ''signer_key_id'' [] body))))))"

definition with_revision :: "json_object \<Rightarrow> int \<Rightarrow> pyval" where
  "with_revision d n = json_reply (d @ [(''revision'', JInt n)])"

definition active_revision :: "org_id \<Rightarrow> string \<Rightarrow> env_name \<Rightarrow> (int, 'w control_state) eff" where
  "active_revision org name environ s = (get_active_revision org name environ (cs_db s), s)"

definition api_activate_policy ::
    "('w, 'a) api \<Rightarrow> readings \<Rightarrow> principal option \<Rightarrow> org_id \<Rightarrow> env_name \<Rightarrow> string \<Rightarrow> policy_version \<Rightarrow> string \<Rightarrow> (pyval, 'w, 'a) handler" where
  "api_activate_policy ap rg caller org environ name version if_match =
     hbnd (api_require ap caller ''policy.activate'' name environ org) (\<lambda>_.
     hbnd (lifted (expected_revision if_match)) (\<lambda>expected.
       answered (\<lambda>(b, n). with_revision (bundle_to_dict b) n) (attempt [([''KeyError''], 404), ([''ControlPlaneError''], 409)] (on_control (
         bnd (activate_policy (ap_crypto ap) (ap_service ap) (rg_now rg) org name environ version (subject_or caller ''api'') expected) (\<lambda>b.
         bnd (active_revision org name environ) (\<lambda>n. ret (b, n))))))))"

definition api_active_policy :: "('w, 'a) api \<Rightarrow> principal option \<Rightarrow> org_id \<Rightarrow> env_name \<Rightarrow> string \<Rightarrow> (pyval, 'w, 'a) handler" where
  "api_active_policy ap caller org environ name =
     hbnd (api_require ap caller ''policy.read'' name environ org) (\<lambda>_.
       answered (\<lambda>(b, n). with_revision (bundle_to_dict b) n) (attempt [([''KeyError''], 404)] (on_control (
         bnd (\<lambda>s. (active_policy (ap_crypto ap) (ap_service ap) org name environ (cs_db s), s)) (\<lambda>b.
         bnd (active_revision org name environ) (\<lambda>n. ret (b, n)))))))"

definition api_promote_policy ::
    "('w, 'a) api \<Rightarrow> readings \<Rightarrow> principal option \<Rightarrow> org_id \<Rightarrow> env_name \<Rightarrow> string \<Rightarrow> policy_version \<Rightarrow> env_name \<Rightarrow> json_object \<Rightarrow> (pyval, 'w, 'a) handler" where
  "api_promote_policy ap rg caller org source_environ name source_version target_environ body =
     hbnd (api_require ap caller ''policy.promote'' name target_environ org) (\<lambda>_.
       answered (\<lambda>b. json_reply (bundle_to_dict b)) (attempt [([''KeyError'', ''ValueError''], 400)] (on_control (
         promote_policy (ap_crypto ap) (ap_service ap) (rg_now rg) (rg_now2 rg) org name source_environ target_environ source_version
           (body_text ap ''target_version'' [] body) (subject_or caller (body_text ap ''promoted_by'' ''api'' body))
           (truthy (jget_or (JBool False) ''activate'' body)) (body_text ap ''signer_key_id'' [] body)))))"

definition api_rollback_policy ::
    "('w, 'a) api \<Rightarrow> readings \<Rightarrow> principal option \<Rightarrow> org_id \<Rightarrow> env_name \<Rightarrow> string \<Rightarrow> policy_version \<Rightarrow> (pyval, 'w, 'a) handler" where
  "api_rollback_policy ap rg caller org environ name version =
     hbnd (api_require ap caller ''policy.rollback'' name environ org) (\<lambda>_.
       answered (\<lambda>b. json_reply (bundle_to_dict b)) (attempt [([''KeyError''], 404)] (on_control (
         rollback_policy (ap_crypto ap) (ap_service ap) (rg_now rg) org name environ version (subject_or caller ''api'')))))"

text \<open>Here the revision is read inside the \<^verbatim>\<open>try\<close> statement, which catches its complaint and answers with the same status.\<close>

definition revision_inside :: "http_error + 'r \<Rightarrow> ('r, 'w, 'a) handler" where
  "revision_inside r = lifted (case r of Inl (HTTPException st m) \<Rightarrow> Inl (HTTPException 400 (show_nat st @ '': '' @ m)) | _ \<Rightarrow> r)"

definition api_start_rollout ::
    "('w, 'a) api \<Rightarrow> readings \<Rightarrow> principal option \<Rightarrow> org_id \<Rightarrow> env_name \<Rightarrow> string \<Rightarrow> policy_version \<Rightarrow> json_object \<Rightarrow> string \<Rightarrow> (pyval, 'w, 'a) handler" where
  "api_start_rollout ap rg caller org environ name candidate body if_match =
     hbnd (api_require ap caller ''policy.rollout'' name environ org) (\<lambda>_.
     hbnd (attempt [([''Exception''], 400)] (reading (\<lambda>_. ebind (jitem ''candidate_percentage'' body) jint_of))) (\<lambda>percentage.
     hbnd (revision_inside (expected_revision if_match)) (\<lambda>expected.
       answered (\<lambda>r. json_reply (rollout_to_dict r)) (attempt [([''Exception''], 400)] (on_control (
         service_start_rollout (ap_crypto ap) (ap_service ap) (rg_now rg) org name environ candidate percentage
           (subject_or caller (body_text ap ''updated_by'' ''api'' body)) (body_text ap ''seed'' [] body) expected))))))"

definition api_cancel_rollout :: "('w, 'a) api \<Rightarrow> principal option \<Rightarrow> org_id \<Rightarrow> env_name \<Rightarrow> string \<Rightarrow> (pyval, 'w, 'a) handler" where
  "api_cancel_rollout ap caller org environ name =
     hbnd (api_require ap caller ''policy.rollout'' name environ org) (\<lambda>_.
       answered (\<lambda>_. json_reply [(''status'', JStr ''cancelled'')]) (attempt [] (on_control (service_cancel_rollout (ap_service ap) org name environ))))"

definition api_resolve_policy :: "('w, 'a) api \<Rightarrow> principal option \<Rightarrow> org_id \<Rightarrow> env_name \<Rightarrow> string \<Rightarrow> agent_name \<Rightarrow> (pyval, 'w, 'a) handler" where
  "api_resolve_policy ap caller org environ name agent =
     hbnd (api_require ap caller ''policy.read'' name environ org) (\<lambda>_.
       answered (\<lambda>b. json_reply (bundle_to_dict b)) (attempt [([''KeyError''], 404)]
         (reading (\<lambda>s. policy_for_agent (ap_crypto ap) (ap_service ap) org name environ agent (cs_db (as_control s))))))"

definition optional_text :: "string option \<Rightarrow> json" where
  "optional_text v = (case v of None \<Rightarrow> JNull | Some s \<Rightarrow> JStr s)"

definition agent_to_dict :: "(json_object \<Rightarrow> string) \<Rightarrow> agent_row \<Rightarrow> json_object" where
  "agent_to_dict dumps r =
     [(''organization_id'', JStr (at_organization_id r)), (''agent_id'', JStr (at_agent_id r)), (''environment'', JStr (at_environment r)),
      (''owner'', JStr (at_owner r)), (''purpose'', JStr (at_purpose r)), (''status'', JStr (at_status r)),
      (''metadata_json'', JStr (dumps (at_metadata_json r))), (''registered_at_utc'', JStr (at_registered_at_utc r)),
      (''last_heartbeat_utc'', optional_text (at_last_heartbeat_utc r)), (''policy_digest'', optional_text (at_policy_digest r)),
      (''version'', JStr (at_version r)), (''revision'', JInt (at_revision r)), (''metadata'', JObj (at_metadata_json r))]"

definition metadata_text :: "('w, 'a) api \<Rightarrow> json_object \<Rightarrow> string" where
  "metadata_text ap d = stable_json (cr_float (ap_crypto ap)) (cr_repr (ap_crypto ap)) d"

definition api_register_agent ::
    "('w, 'a) api \<Rightarrow> readings \<Rightarrow> principal option \<Rightarrow> org_id \<Rightarrow> new_agent \<Rightarrow> string \<Rightarrow> (pyval, 'w, 'a) handler" where
  "api_register_agent ap rg caller org a if_match =
     hbnd (api_require ap caller ''agent.register'' (na_agent_id a) (na_environment a) org) (\<lambda>_.
     hbnd (revision_inside (expected_revision if_match)) (\<lambda>expected.
       answered (\<lambda>r. json_reply (agent_to_dict (metadata_text ap) r)) (attempt [([''ControlPlaneError''], 409), ([''Exception''], 400)] (on_control (on_db (
         register_agent (rg_now rg) org (na_agent_id a) (na_environment a) (na_owner a) (na_purpose a) (na_status a) (na_metadata a) (na_version a)
           (case expected of Some n \<Rightarrow> Some n | None \<Rightarrow> na_expected_revision a)))))))"

definition api_heartbeat ::
    "('w, 'a) api \<Rightarrow> readings \<Rightarrow> principal option \<Rightarrow> org_id \<Rightarrow> agent_name \<Rightarrow> env_name \<Rightarrow> json_object \<Rightarrow> string \<Rightarrow> (pyval, 'w, 'a) handler" where
  "api_heartbeat ap rg caller org agent environ body if_match =
     hbnd (api_require ap caller ''agent.heartbeat'' agent environ org) (\<lambda>_.
     hbnd (lifted (expected_revision if_match)) (\<lambda>expected.
       answered (\<lambda>r. json_reply (agent_to_dict (metadata_text ap) r)) (attempt [([''KeyError''], 404), ([''ControlPlaneError''], 409)] (on_control (on_db (
         agent_heartbeat (rg_now rg) org agent environ (body_text ap ''policy_digest'' [] body) (body_text ap ''version'' [] body)
           (body_text ap ''status'' ''production'' body) expected))))))"

definition api_list_agents :: "('w, 'a) api \<Rightarrow> principal option \<Rightarrow> org_id \<Rightarrow> env_name \<Rightarrow> string \<Rightarrow> int \<Rightarrow> int \<Rightarrow> (pyval, 'w, 'a) handler" where
  "api_list_agents ap caller org environ status limit offset =
     hbnd (api_require ap caller ''agent.read'' ''*'' ''*'' org) (\<lambda>_ s.
       hret (PList (map (\<lambda>r. json_reply (agent_to_dict (metadata_text ap) r))
         (list_agents org environ status (max 1 (min limit 500)) (max 0 offset) (cs_db (as_control s))))) s)"

section \<open>The audit store\<close>

definition api_audit_record :: "('w, 'a) api \<Rightarrow> 'a audit_service \<Rightarrow> readings \<Rightarrow> principal option \<Rightarrow> json_object \<Rightarrow> (pyval, 'w, 'a) handler" where
  "api_audit_record ap au rg caller body =
     hbnd (api_require ap caller ''audit.write'' (body_text ap ''event_type'' ''event'' body) ''*'' []) (\<lambda>_.
       answered (\<lambda>e. json_reply (event_to_dict e)) (attempt [([''Exception''], 400)] (\<lambda>s.
         case ebind (body_item_text ap ''correlation_id'' body) (\<lambda>corr. ebind (body_item_text ap ''run_id'' body) (\<lambda>run.
              ebind (body_item_text ap ''event_type'' body) (\<lambda>ty. ebind (jdict_of (jget_or (JObj []) ''payload'' body)) (\<lambda>p. Inr (corr, run, ty, p))))) of
           Inl e \<Rightarrow> (Inl e, s)
         | Inr (corr, run, ty, p) \<Rightarrow>
             on_audit (store_event (ap_host ap) (au_backend au) (au_hash_chain au) (rg_uuid rg) (rg_ms rg) corr run ty (PDict (jdict p))) s)))"

definition body_event :: "('w, 'a) api \<Rightarrow> json_object \<Rightarrow> exc + audit_event" where
  "body_event ap body =
     ebind (body_item_text ap ''event_id'' body) (\<lambda>eid. ebind (body_item_text ap ''correlation_id'' body) (\<lambda>corr.
     ebind (body_item_text ap ''run_id'' body) (\<lambda>run. ebind (ebind (jitem ''ts_epoch_ms'' body) jint_of) (\<lambda>ts.
     ebind (body_item_text ap ''event_type'' body) (\<lambda>ty. ebind (ebind (jitem ''payload'' body) jdict_of) (\<lambda>p.
       Inr \<lparr>ae_event_id = eid, ae_correlation_id = corr, ae_run_id = run, ae_ts_epoch_ms = ts, ae_event_type = ty, ae_payload = p,
         ae_prev_hash = jget_or JNull ''prev_hash'' body, ae_hash = jget_or JNull ''hash'' body\<rparr>))))))"

definition api_audit_append :: "('w, 'a) api \<Rightarrow> 'a audit_service \<Rightarrow> principal option \<Rightarrow> json_object \<Rightarrow> (pyval, 'w, 'a) handler" where
  "api_audit_append ap au caller body =
     hbnd (api_require ap caller ''audit.write'' (body_text ap ''event_type'' ''event'' body) ''*'' []) (\<lambda>_.
     hbnd (attempt [] (reading (\<lambda>_. body_event ap body))) (\<lambda>e.
       answered (\<lambda>_. json_reply (event_to_dict e)) (attempt [([''Exception''], 409)] (on_audit (bk_append (au_backend au) e)))))"

definition api_audit_tail :: "('w, 'a) api \<Rightarrow> 'a audit_service \<Rightarrow> principal option \<Rightarrow> string \<Rightarrow> (pyval, 'w, 'a) handler" where
  "api_audit_tail ap au caller corr =
     hbnd (api_require ap caller ''audit.read'' corr ''*'' []) (\<lambda>_.
       answered (\<lambda>h. json_reply [(''last_hash'', h)]) (attempt [] (reading (\<lambda>s. bk_last_hash (au_backend au) corr (as_audit s)))))"

definition api_audit_verify :: "('w, 'a) api \<Rightarrow> 'a audit_service \<Rightarrow> principal option \<Rightarrow> string \<Rightarrow> (pyval, 'w, 'a) handler" where
  "api_audit_verify ap au caller corr =
     hbnd (api_require ap caller ''audit.read'' (if corr \<noteq> [] then corr else ''*'') ''*'' []) (\<lambda>_.
       answered (\<lambda>n. json_reply [(''events_verified'', JInt (int n))]) (attempt [([''Exception''], 409)] (reading (\<lambda>s.
         case au_verify au (if corr \<noteq> [] then Some corr else None) (as_audit s) of
           Inl e \<Rightarrow> if exc_isinstance e [''TypeError''] then au_verify au None (as_audit s) else Inl e
         | Inr n \<Rightarrow> Inr n))))"

section \<open>Users, groups and roles\<close>

definition list_response :: "nat \<Rightarrow> int \<Rightarrow> json_object list \<Rightarrow> pyval" where
  "list_response total_count start resources = json_reply
     [(''schemas'', JList [JStr ''urn:ietf:params:scim:api:messages:2.0:ListResponse'']), (''totalResults'', JInt (int total_count)),
      (''startIndex'', JInt (max 1 start)), (''itemsPerPage'', JInt (int (length resources))), (''Resources'', JList (map JObj resources))]"

text \<open>A handler of the directory: the permission, the operation and the \<^verbatim>\<open>except\<close> clauses.\<close>

definition identity_handler ::
    "('w, 'a) api \<Rightarrow> principal option \<Rightarrow> string \<Rightarrow> string \<Rightarrow> (string list \<times> nat) list \<Rightarrow> (identity_db \<Rightarrow> (exc + 'r) \<times> identity_db) \<Rightarrow> ('r \<Rightarrow> pyval) \<Rightarrow> (pyval, 'w, 'a) handler" where
  "identity_handler ap caller action resource clauses f reply =
     hbnd (api_require ap caller action resource ''*'' []) (\<lambda>_. answered reply (attempt clauses (on_identity f)))"

definition looking_up :: "(identity_db \<Rightarrow> exc + 'r) \<Rightarrow> identity_db \<Rightarrow> (exc + 'r) \<times> identity_db" where
  "looking_up f db = (f db, db)"

definition no_reply :: "unit \<Rightarrow> pyval" where
  "no_reply x = PNone"

definition users_page :: "int \<Rightarrow> int \<Rightarrow> identity_db \<Rightarrow> exc + pyval" where
  "users_page start count db = ebind (sql_list_users (Some (max 1 (min count 500))) (max 0 (start - 1)) db) (\<lambda>us.
     Inr (list_response (sql_count_users db) start (map user_to_scim us)))"

definition groups_page :: "int \<Rightarrow> int \<Rightarrow> identity_db \<Rightarrow> exc + pyval" where
  "groups_page start count db = ebind (sql_list_groups (Some (max 1 (min count 500))) (max 0 (start - 1)) db) (\<lambda>gs.
     Inr (list_response (sql_count_groups db) start (map group_to_scim gs)))"

definition api_scim :: "('w, 'a) api \<Rightarrow> readings \<Rightarrow> principal option \<Rightarrow> request \<Rightarrow> (pyval, 'w, 'a) handler" where
  "api_scim ap rg caller req =
     (let fr = cr_float (ap_crypto ap); orr = cr_repr (ap_crypto ap); user = (\<lambda>u. json_reply (user_to_scim u)); grp = (\<lambda>g. json_reply (group_to_scim g)) in
      case req of
        Scim_Users start count \<Rightarrow> identity_handler ap caller ''identity.read'' ''users'' [] (looking_up (users_page start count)) id
      | Scim_Create_User body \<Rightarrow> identity_handler ap caller ''identity.write'' ''users'' [([''ValueError''], 409)] (sql_create_user fr orr (rg_uuid rg) body) user
      | Scim_Get_User i \<Rightarrow> identity_handler ap caller ''identity.read'' ''users'' [([''KeyError''], 404)] (looking_up (sql_get_user i)) user
      | Scim_Replace_User i body \<Rightarrow>
          identity_handler ap caller ''identity.write'' ''users'' [([''KeyError''], 404), ([''ValueError''], 409)] (sql_replace_user fr orr i body) user
      | Scim_Delete_User i \<Rightarrow> identity_handler ap caller ''identity.write'' ''users'' [([''KeyError''], 404)] (sql_delete_user i) no_reply
      | Scim_Groups start count \<Rightarrow> identity_handler ap caller ''identity.read'' ''groups'' [] (looking_up (groups_page start count)) id
      | Scim_Create_Group body \<Rightarrow> identity_handler ap caller ''identity.write'' ''groups'' [([''ValueError''], 409)] (sql_create_group fr orr (rg_uuid rg) body) grp
      | Scim_Get_Group i \<Rightarrow> identity_handler ap caller ''identity.read'' ''groups'' [([''KeyError''], 404)] (looking_up (sql_get_group i)) grp
      | Scim_Replace_Group i body \<Rightarrow>
          identity_handler ap caller ''identity.write'' ''groups'' [([''KeyError''], 404), ([''ValueError''], 409)] (sql_replace_group fr orr i body) grp
      | Scim_Delete_Group i \<Rightarrow> identity_handler ap caller ''identity.write'' ''groups'' [([''KeyError''], 404)] (sql_delete_group i) no_reply
      | _ \<Rightarrow> hraise (HTTPException 404 ''Not Found''))"

definition role_reply :: "role_definition \<Rightarrow> pyval" where
  "role_reply r = json_reply [(''name'', JStr (rd_name r)), (''permissions'', JList (map JStr (sort (rd_permissions r)))), (''description'', JStr (rd_description r))]"

definition binding_reply :: "string \<times> role_binding \<Rightarrow> pyval" where
  "binding_reply row = (case row of (i, b) \<Rightarrow> json_reply
     [(''binding_id'', JStr i), (''role'', JStr (rb_role b)), (''organization_id'', JStr (rb_organization_id b)), (''subject'', JStr (rb_subject b)),
      (''group'', JStr (rb_group b)), (''environment'', JStr (rb_environment b))])"

definition body_role :: "('w, 'a) api \<Rightarrow> string \<Rightarrow> json_object \<Rightarrow> exc + role_definition" where
  "body_role ap role_name body =
     ebind (json_iter (jget_or (JList []) ''permissions'' body)) (\<lambda>vs.
       role_definition_init role_name (map (\<lambda>v. PStr (jstr (cr_float (ap_crypto ap)) (cr_repr (ap_crypto ap)) v)) vs) (body_text ap ''description'' [] body))"

definition put_role :: "('w, 'a) api \<Rightarrow> string \<Rightarrow> json_object \<Rightarrow> identity_db \<Rightarrow> (exc + role_definition) \<times> identity_db" where
  "put_role ap role_name body db = (case body_role ap role_name body of
     Inl e \<Rightarrow> (Inl e, db) | Inr r \<Rightarrow> (case save_role r db of (Inl e, db') \<Rightarrow> (Inl e, db') | (Inr _, db') \<Rightarrow> (Inr r, db')))"

definition body_binding :: "('w, 'a) api \<Rightarrow> json_object \<Rightarrow> exc + role_binding" where
  "body_binding ap body =
     ebind (body_item_text ap ''role'' body) (\<lambda>role. ebind (body_item_text ap ''organization_id'' body) (\<lambda>org.
       role_binding_init role org (body_text ap ''subject'' [] body) (body_text ap ''group'' [] body) (body_text ap ''environment'' ''*'' body)))"

definition post_binding :: "('w, 'a) api \<Rightarrow> readings \<Rightarrow> json_object \<Rightarrow> identity_db \<Rightarrow> (exc + string) \<times> identity_db" where
  "post_binding ap rg body db = (case body_binding ap body of Inl e \<Rightarrow> (Inl e, db) | Inr b \<Rightarrow> save_binding (rg_uuid rg) b db)"

definition api_rbac :: "('w, 'a) api \<Rightarrow> readings \<Rightarrow> principal option \<Rightarrow> request \<Rightarrow> (pyval, 'w, 'a) handler" where
  "api_rbac ap rg caller req =
     (case req of
        Rbac_Roles \<Rightarrow> identity_handler ap caller ''identity.read'' ''roles'' [] (looking_up list_roles) (\<lambda>rs. PList (map role_reply rs))
      | Rbac_Save_Role n body \<Rightarrow> identity_handler ap caller ''identity.write'' ''roles'' [([''ValueError''], 400)] (put_role ap n body) role_reply
      | Rbac_Delete_Role n \<Rightarrow> identity_handler ap caller ''identity.write'' ''roles'' [([''KeyError''], 404)] (delete_role n) no_reply
      | Rbac_Bindings \<Rightarrow> identity_handler ap caller ''identity.read'' ''bindings'' [] (looking_up list_bindings) (\<lambda>bs. PList (map binding_reply bs))
      | Rbac_Save_Binding body \<Rightarrow> identity_handler ap caller ''identity.write'' ''bindings'' [([''KeyError'', ''ValueError''], 400)] (post_binding ap rg body)
          (\<lambda>i. json_reply [(''binding_id'', JStr i)])
      | Rbac_Delete_Binding i \<Rightarrow> identity_handler ap caller ''identity.write'' ''bindings'' [([''KeyError''], 404)] (delete_binding i) no_reply
      | _ \<Rightarrow> hraise (HTTPException 404 ''Not Found''))"

section \<open>The ledger\<close>

definition portfolio_reply :: "portfolio \<Rightarrow> pyval" where
  "portfolio_reply p = str_dict
     [(''organization_id'', PStr (pf_organization_id p)), (''agent_id'', case pf_agent_id p of None \<Rightarrow> PNone | Some a \<Rightarrow> PStr a),
      (''currency_code'', PStr (pf_currency_code p)), (''opportunity_count'', PInt (int (pf_opportunity_count p))),
      (''baseline_usd'', PFloat (pf_baseline_usd p)), (''forecast_value_usd'', PFloat (pf_forecast_value_usd p)),
      (''realized_value_usd'', PFloat (pf_realized_value_usd p)), (''validated_value_usd'', PFloat (pf_validated_value_usd p)),
      (''total_cost_usd'', PFloat (pf_total_cost_usd p)), (''net_validated_value_usd'', PFloat (pf_net_validated_value_usd p)),
      (''validated_roi_multiple'', case pf_validated_roi_multiple p of None \<Rightarrow> PNone | Some x \<Rightarrow> PFloat x),
      (''status_counts'', str_dict (map (\<lambda>(k, n). (k, PInt (int n))) (pf_status_counts p)))]"

definition opportunity_reply :: "value_opportunity \<Rightarrow> pyval" where
  "opportunity_reply o' = str_dict (opportunity_to_dict o')"

definition api_roi_summary :: "('w, 'a) api \<Rightarrow> principal option \<Rightarrow> org_id \<Rightarrow> (pyval, 'w, 'a) handler" where
  "api_roi_summary ap caller org =
     hbnd (api_require ap caller ''roi.read'' ''portfolio'' ''*'' org) (\<lambda>_.
       answered portfolio_reply (attempt [] (reading (\<lambda>s. portfolio_summary (cr_float (ap_crypto ap)) (cr_repr (ap_crypto ap)) org [] [] (as_ledger s)))))"

definition api_roi_create :: "('w, 'a) api \<Rightarrow> readings \<Rightarrow> principal option \<Rightarrow> org_id \<Rightarrow> new_opportunity \<Rightarrow> (pyval, 'w, 'a) handler" where
  "api_roi_create ap rg caller org a =
     hbnd (api_require ap caller ''roi.create'' ''portfolio'' ''*'' org) (\<lambda>_.
       answered opportunity_reply (attempt [([''KeyError'', ''TypeError'', ''ValueError''], 400)] (on_ledger (
         create_opportunity (cr_float (ap_crypto ap)) (cr_repr (ap_crypto ap)) (rg_uuid rg) (rg_now rg) (a\<lparr>no_organization_id := org\<rparr>)))))"

definition api_roi_list :: "('w, 'a) api \<Rightarrow> principal option \<Rightarrow> org_id \<Rightarrow> agent_name \<Rightarrow> string \<Rightarrow> int \<Rightarrow> int \<Rightarrow> (pyval, 'w, 'a) handler" where
  "api_roi_list ap caller org agent status limit offset =
     hbnd (api_require ap caller ''roi.read'' ''portfolio'' ''*'' org) (\<lambda>_.
       answered (\<lambda>xs. PList (map opportunity_reply xs)) (attempt [([''ValueError''], 400)] (reading (\<lambda>s.
         list_opportunities org agent (if status = [] then None else Some status) (max 1 (min limit 500)) (max 0 offset) (as_ledger s)))))"

definition api_roi_get :: "('w, 'a) api \<Rightarrow> principal option \<Rightarrow> org_id \<Rightarrow> string \<Rightarrow> (pyval, 'w, 'a) handler" where
  "api_roi_get ap caller org oid =
     hbnd (api_require ap caller ''roi.read'' oid ''*'' org) (\<lambda>_.
     hbnd (attempt [([''KeyError''], 404)] (reading (\<lambda>s. get_opportunity oid (as_ledger s)))) (\<lambda>p.
       if op_organization_id p \<noteq> org then hraise (HTTPException 404 ''ROI opportunity not found'') else hret (opportunity_reply p)))"

text \<open>An opportunity of another organization is like one that is not there.\<close>

definition owned_opportunity :: "org_id \<Rightarrow> string \<Rightarrow> (string list \<times> nat) list \<Rightarrow> (value_opportunity, 'w, 'a) handler" where
  "owned_opportunity org oid clauses = attempt clauses (reading (\<lambda>s. ebind (get_opportunity oid (as_ledger s)) (\<lambda>p.
     if op_organization_id p \<noteq> org then Inl (KeyError oid) else Inr p)))"

definition api_roi_transition :: "('w, 'a) api \<Rightarrow> readings \<Rightarrow> principal option \<Rightarrow> org_id \<Rightarrow> string \<Rightarrow> json_object \<Rightarrow> string \<Rightarrow> (pyval, 'w, 'a) handler" where
  "api_roi_transition ap rg caller org oid body if_match =
     (let clauses = [([''KeyError''], 404), ([''ValueError''], 400)] in
      hbnd (api_require ap caller ''roi.update'' oid ''*'' org) (\<lambda>_.
      hbnd (owned_opportunity org oid clauses) (\<lambda>_.
      hbnd (lifted (expected_revision if_match)) (\<lambda>expected.
      hbnd (attempt clauses (reading (\<lambda>_. body_item_text ap ''status'' body))) (\<lambda>status.
        answered opportunity_reply (attempt clauses (on_ledger (
          transition (rg_uuid rg) (rg_now rg) oid status (subject_or caller (body_text ap ''changed_by'' ''api'' body)) (body_text ap ''reason'' [] body) expected))))))))"

definition recorder :: "principal option \<Rightarrow> string option \<Rightarrow> string" where
  "recorder caller given = (case given of Some s \<Rightarrow> s | None \<Rightarrow> subject_or caller ''api'')"

definition api_roi_record_value :: "('w, 'a) api \<Rightarrow> readings \<Rightarrow> principal option \<Rightarrow> org_id \<Rightarrow> string \<Rightarrow> value_body \<Rightarrow> (pyval, 'w, 'a) handler" where
  "api_roi_record_value ap rg caller org oid v =
     (let clauses = [([''KeyError''], 404), ([''ValueError''], 400)] in
      hbnd (api_require ap caller (if vb_stage v = ''validated'' then ''roi.validate'' else ''roi.record'') oid ''*'' org) (\<lambda>_.
      hbnd (owned_opportunity org oid clauses) (\<lambda>_.
        answered str_dict (attempt clauses (on_ledger (
          record_value (cr_float (ap_crypto ap)) (cr_repr (ap_crypto ap)) (rg_uuid rg) (rg_now rg) (rg_today rg) oid (vb_stage v) (vb_amount_usd v) (vb_evidence_key v)
            (recorder caller (vb_recorded_by v)) (vb_evidence_uri v) (vb_measurement_date v) (vb_notes v)))))))"

definition api_roi_record_cost :: "('w, 'a) api \<Rightarrow> readings \<Rightarrow> principal option \<Rightarrow> org_id \<Rightarrow> cost_body \<Rightarrow> (pyval, 'w, 'a) handler" where
  "api_roi_record_cost ap rg caller org c =
     hbnd (api_require ap caller ''roi.record'' ''cost'' ''*'' org) (\<lambda>_.
       answered str_dict (attempt [([''KeyError'', ''TypeError'', ''ValueError''], 400)] (on_ledger (
         record_cost (cr_float (ap_crypto ap)) (cr_repr (ap_crypto ap)) (rg_uuid rg) (rg_now rg) (rg_today rg) org (cb_agent_id c) (cb_cost_type c) (cb_amount_usd c)
           (cb_currency_code c) (cb_evidence_key c) (recorder caller (cb_recorded_by c)) (cb_opportunity_id c) (cb_incurred_date c) (cb_notes c)))))"

section \<open>The application\<close>

fun is_scim :: "request \<Rightarrow> bool" where
  "is_scim (Scim_Users _ _) = True" | "is_scim (Scim_Create_User _) = True" | "is_scim (Scim_Get_User _) = True"
| "is_scim (Scim_Replace_User _ _) = True" | "is_scim (Scim_Delete_User _) = True" | "is_scim (Scim_Groups _ _) = True"
| "is_scim (Scim_Create_Group _) = True" | "is_scim (Scim_Get_Group _) = True" | "is_scim (Scim_Replace_Group _ _) = True"
| "is_scim (Scim_Delete_Group _) = True" | "is_scim _ = False"

fun is_rbac :: "request \<Rightarrow> bool" where
  "is_rbac Rbac_Roles = True" | "is_rbac (Rbac_Save_Role _ _) = True" | "is_rbac (Rbac_Delete_Role _) = True"
| "is_rbac Rbac_Bindings = True" | "is_rbac (Rbac_Save_Binding _) = True" | "is_rbac (Rbac_Delete_Binding _) = True" | "is_rbac _ = False"

definition control_route :: "('w, 'a) api \<Rightarrow> readings \<Rightarrow> principal option \<Rightarrow> request \<Rightarrow> (pyval, 'w, 'a) handler option" where
  "control_route ap rg caller req =
     (case req of
        Publish_Policy org environ name version body \<Rightarrow> Some (api_publish_policy ap rg caller org environ name version body)
      | Activate_Policy org environ name version if_match \<Rightarrow> Some (api_activate_policy ap rg caller org environ name version if_match)
      | Active_Policy org environ name \<Rightarrow> Some (api_active_policy ap caller org environ name)
      | Promote_Policy org environ name version target body \<Rightarrow> Some (api_promote_policy ap rg caller org environ name version target body)
      | Rollback_Policy org environ name version \<Rightarrow> Some (api_rollback_policy ap rg caller org environ name version)
      | Start_Rollout org environ name candidate body if_match \<Rightarrow> Some (api_start_rollout ap rg caller org environ name candidate body if_match)
      | Cancel_Rollout org environ name \<Rightarrow> Some (api_cancel_rollout ap caller org environ name)
      | Resolve_Policy org environ name agent \<Rightarrow> Some (api_resolve_policy ap caller org environ name agent)
      | Register_Agent org a if_match \<Rightarrow> Some (api_register_agent ap rg caller org a if_match)
      | Heartbeat org agent environ body if_match \<Rightarrow> Some (api_heartbeat ap rg caller org agent environ body if_match)
      | List_Agents org environ status limit offset \<Rightarrow> Some (api_list_agents ap caller org environ status limit offset)
      | _ \<Rightarrow> None)"

definition audit_route :: "('w, 'a) api \<Rightarrow> readings \<Rightarrow> principal option \<Rightarrow> request \<Rightarrow> (pyval, 'w, 'a) handler option" where
  "audit_route ap rg caller req =
     (case ap_audit ap of
        None \<Rightarrow> None
      | Some au \<Rightarrow>
         (case req of
            Audit_Record body \<Rightarrow> Some (api_audit_record ap au rg caller body)
          | Audit_Append body \<Rightarrow> Some (api_audit_append ap au caller body)
          | Audit_Tail corr \<Rightarrow> Some (api_audit_tail ap au caller corr)
          | Audit_Verify corr \<Rightarrow> Some (api_audit_verify ap au caller corr)
          | _ \<Rightarrow> None))"

definition ledger_route :: "('w, 'a) api \<Rightarrow> readings \<Rightarrow> principal option \<Rightarrow> request \<Rightarrow> (pyval, 'w, 'a) handler option" where
  "ledger_route ap rg caller req =
     (if \<not> ap_has_ledger ap then None
      else case req of
        Roi_Summary org \<Rightarrow> Some (api_roi_summary ap caller org)
      | Roi_Create org a \<Rightarrow> Some (api_roi_create ap rg caller org a)
      | Roi_List org agent status limit offset \<Rightarrow> Some (api_roi_list ap caller org agent status limit offset)
      | Roi_Get org oid \<Rightarrow> Some (api_roi_get ap caller org oid)
      | Roi_Transition org oid body if_match \<Rightarrow> Some (api_roi_transition ap rg caller org oid body if_match)
      | Roi_Record_Value org oid v \<Rightarrow> Some (api_roi_record_value ap rg caller org oid v)
      | Roi_Record_Cost org c \<Rightarrow> Some (api_roi_record_cost ap rg caller org c)
      | _ \<Rightarrow> None)"

definition identity_route :: "('w, 'a) api \<Rightarrow> readings \<Rightarrow> principal option \<Rightarrow> request \<Rightarrow> (pyval, 'w, 'a) handler option" where
  "identity_route ap rg caller req =
     (if \<not> ap_has_scim ap then None else if is_scim req then Some (api_scim ap rg caller req)
      else if is_rbac req then Some (api_rbac ap rg caller req) else None)"

definition api_route :: "('w, 'a) api \<Rightarrow> readings \<Rightarrow> principal option \<Rightarrow> request \<Rightarrow> (pyval, 'w, 'a) handler option" where
  "api_route ap rg caller req =
     (case control_route ap rg caller req of Some h \<Rightarrow> Some h
      | None \<Rightarrow> (case audit_route ap rg caller req of Some h \<Rightarrow> Some h
      | None \<Rightarrow> (case identity_route ap rg caller req of Some h \<Rightarrow> Some h
      | None \<Rightarrow> ledger_route ap rg caller req)))"

text \<open>The principal is a dependency of every route but \<^verbatim>\<open>/healthz\<close>: it is found before the handler runs.\<close>

definition api_handle :: "('w, 'a) api \<Rightarrow> readings \<Rightarrow> string \<Rightarrow> request \<Rightarrow> (pyval, 'w, 'a) handler" where
  "api_handle ap rg authorization req s =
     (case req of Health \<Rightarrow> hret (json_reply [(''status'', JStr ''ok'')]) s
      | _ \<Rightarrow> (case api_route ap rg None req of
          None \<Rightarrow> hraise (HTTPException 404 ''Not Found'') s
        | Some _ \<Rightarrow> (case principal_dependency ap authorization of
            Inl e \<Rightarrow> hraise e s
          | Inr caller \<Rightarrow> (case api_route ap rg caller req of None \<Rightarrow> hraise (HTTPException 404 ''Not Found'') s | Some h \<Rightarrow> h s))))"

end
