(* ===== verification/Api_Laws.thy ===== *)
theory Api_Laws
  imports Http_Api Ledger_Laws Rbac_Laws
begin

text \<open>
  What the HTTP interface guarantees: a request is answered or changes anything only for a principal with the permission of its
  route, and whatever a principal asks for, the policies, agents and ledger rows of the other organizations stay as they are.
  The routes of the identity store carry no organization, and their bindings reach across tenants.
\<close>

section \<open>The permission of a route\<close>

text \<open>Action, resource, environment and organization; the organization is empty where the route has none.\<close>

type_synonym permission = "string \<times> string \<times> env_name \<times> org_id"

fun permission_of :: "('w, 'a) api \<Rightarrow> request \<Rightarrow> permission" where
  "permission_of ap Health = ([], [], [], [])"
| "permission_of ap (Publish_Policy org environ name _ _) = (''policy.publish'', name, environ, org)"
| "permission_of ap (Activate_Policy org environ name _ _) = (''policy.activate'', name, environ, org)"
| "permission_of ap (Active_Policy org environ name) = (''policy.read'', name, environ, org)"
| "permission_of ap (Promote_Policy org _ name _ target _) = (''policy.promote'', name, target, org)"
| "permission_of ap (Rollback_Policy org environ name _) = (''policy.rollback'', name, environ, org)"
| "permission_of ap (Start_Rollout org environ name _ _ _) = (''policy.rollout'', name, environ, org)"
| "permission_of ap (Cancel_Rollout org environ name) = (''policy.rollout'', name, environ, org)"
| "permission_of ap (Resolve_Policy org environ name _) = (''policy.read'', name, environ, org)"
| "permission_of ap (Register_Agent org a _) = (''agent.register'', na_agent_id a, na_environment a, org)"
| "permission_of ap (Heartbeat org agent environ _ _) = (''agent.heartbeat'', agent, environ, org)"
| "permission_of ap (List_Agents org _ _ _ _) = (''agent.read'', ''*'', ''*'', org)"
| "permission_of ap (Audit_Record body) = (''audit.write'', body_text ap ''event_type'' ''event'' body, ''*'', [])"
| "permission_of ap (Audit_Append body) = (''audit.write'', body_text ap ''event_type'' ''event'' body, ''*'', [])"
| "permission_of ap (Audit_Tail corr) = (''audit.read'', corr, ''*'', [])"
| "permission_of ap (Audit_Verify corr) = (''audit.read'', if corr \<noteq> [] then corr else ''*'', ''*'', [])"
| "permission_of ap (Scim_Users _ _) = (''identity.read'', ''users'', ''*'', [])"
| "permission_of ap (Scim_Create_User _) = (''identity.write'', ''users'', ''*'', [])"
| "permission_of ap (Scim_Get_User _) = (''identity.read'', ''users'', ''*'', [])"
| "permission_of ap (Scim_Replace_User _ _) = (''identity.write'', ''users'', ''*'', [])"
| "permission_of ap (Scim_Delete_User _) = (''identity.write'', ''users'', ''*'', [])"
| "permission_of ap (Scim_Groups _ _) = (''identity.read'', ''groups'', ''*'', [])"
| "permission_of ap (Scim_Create_Group _) = (''identity.write'', ''groups'', ''*'', [])"
| "permission_of ap (Scim_Get_Group _) = (''identity.read'', ''groups'', ''*'', [])"
| "permission_of ap (Scim_Replace_Group _ _) = (''identity.write'', ''groups'', ''*'', [])"
| "permission_of ap (Scim_Delete_Group _) = (''identity.write'', ''groups'', ''*'', [])"
| "permission_of ap Rbac_Roles = (''identity.read'', ''roles'', ''*'', [])"
| "permission_of ap (Rbac_Save_Role _ _) = (''identity.write'', ''roles'', ''*'', [])"
| "permission_of ap (Rbac_Delete_Role _) = (''identity.write'', ''roles'', ''*'', [])"
| "permission_of ap Rbac_Bindings = (''identity.read'', ''bindings'', ''*'', [])"
| "permission_of ap (Rbac_Save_Binding _) = (''identity.write'', ''bindings'', ''*'', [])"
| "permission_of ap (Rbac_Delete_Binding _) = (''identity.write'', ''bindings'', ''*'', [])"
| "permission_of ap (Roi_Summary org) = (''roi.read'', ''portfolio'', ''*'', org)"
| "permission_of ap (Roi_Create org _) = (''roi.create'', ''portfolio'', ''*'', org)"
| "permission_of ap (Roi_List org _ _ _ _) = (''roi.read'', ''portfolio'', ''*'', org)"
| "permission_of ap (Roi_Get org oid) = (''roi.read'', oid, ''*'', org)"
| "permission_of ap (Roi_Transition org oid _ _) = (''roi.update'', oid, ''*'', org)"
| "permission_of ap (Roi_Record_Value org oid v) = (if vb_stage v = ''validated'' then ''roi.validate'' else ''roi.record'', oid, ''*'', org)"
| "permission_of ap (Roi_Record_Cost org _) = (''roi.record'', ''cost'', ''*'', org)"

definition required :: "('w, 'a) api \<Rightarrow> principal option \<Rightarrow> request \<Rightarrow> (unit, 'w, 'a) handler" where
  "required ap caller req = (case permission_of ap req of (action, resource, environ, org) \<Rightarrow> api_require ap caller action resource environ org)"

text \<open>Every handler starts with the check of its permission.\<close>

lemma route_guarded:
  assumes "api_route ap rg caller req = Some h"
  shows "\<exists>k. h = hbnd (required ap caller req) k"
  using assms
  by (cases req)
    (auto simp: api_route_def control_route_def audit_route_def identity_route_def ledger_route_def api_scim_def api_rbac_def identity_handler_def Let_def
      required_def api_publish_policy_def api_activate_policy_def api_active_policy_def api_promote_policy_def api_rollback_policy_def
      api_start_rollout_def api_cancel_rollout_def api_resolve_policy_def api_register_agent_def api_heartbeat_def api_list_agents_def
      api_audit_record_def api_audit_append_def api_audit_tail_def api_audit_verify_def
      api_roi_summary_def api_roi_create_def api_roi_list_def api_roi_get_def api_roi_transition_def api_roi_record_value_def api_roi_record_cost_def
      split: option.splits if_splits)

section \<open>Mediation\<close>

lemma api_require_same [simp]: "snd (api_require ap caller action resource environ org s) = s"
  by (auto simp: api_require_def hret_def hraise_def split: option.split sum.split)

lemma required_same [simp]: "snd (required ap caller req s) = s"
  by (simp add: required_def split_beta)

lemma api_handle_cases:
  assumes "api_handle ap rg authorization req s = (r, s')" "req \<noteq> Health"
  obtains (refused) e where "r = Inl e" "s' = s"
  | (handled) caller k where "principal_dependency ap authorization = Inr caller" "required ap caller req s = (Inr (), s)"
      "api_route ap rg caller req = Some (hbnd (required ap caller req) k)" "k () s = (r, s')"
proof (cases "api_route ap rg None req")
  case None
  then show thesis using assms refused by (auto simp: api_handle_def hraise_def split: request.splits)
next
  case (Some h0)
  show thesis
  proof (cases "principal_dependency ap authorization")
    case (Inl e)
    then show thesis using assms Some refused by (auto simp: api_handle_def hraise_def split: request.splits)
  next
    case (Inr caller)
    show thesis
    proof (cases "api_route ap rg caller req")
      case None
      then show thesis using assms Some Inr refused by (auto simp: api_handle_def hraise_def split: request.splits)
    next
      case h: (Some h)
      then obtain k where k: "h = hbnd (required ap caller req) k" using route_guarded by blast
      have "hbnd (required ap caller req) k s = (r, s')" using assms Some Inr h k by (auto simp: api_handle_def split: request.splits)
      moreover obtain x where x: "required ap caller req s = (x, s)" by (metis required_same prod.collapse)
      ultimately show thesis using handled [OF Inr _ h [unfolded k]] refused by (cases x) (auto simp: hbnd_def)
    qed
  qed
qed

lemma required_granted:
  assumes "required ap (Some p) req s = (Inr (), s)" "permission_of ap req = (action, resource, environ, org)"
    and "ap_authorizer ap = Some (dynamic_require fr orr)" "roles_ok (as_identity s)"
  shows "(org = [] \<or> pr_organization_id p = org)
    \<and> granted (set (id_roles (as_identity s))) (snd ` set (id_bindings (as_identity s))) p environ action resource"
proof -
  have "dynamic_require fr orr (as_identity s) (Some p) action resource [(''environment'', PStr environ)] = Inr ()" and "org = [] \<or> pr_organization_id p = org"
    using assms(1-3) by (auto simp: required_def api_require_def hret_def hraise_def split: sum.splits if_splits)
  moreover from this(1) have "dynamic_authorize fr orr (as_identity s) (Some p) action resource [(''environment'', PStr environ)] = Inr True"
    by (auto simp: dynamic_require_def dynamic_authorize_def ebind_Inr rbac_require_def split: if_splits)
  ultimately show ?thesis using dynamic_decision [OF assms(4)] by (simp add: context_environment_def)
qed

text \<open>C3: The interface is mediated.  With tokens verified and the authorizer that reads the identity store, a request to any route but
  the health check is refused and changes nothing, or its token gives a principal that belongs to the organization of the path, where there is one, and
  to which the stored roles and bindings grant the permission of that route.\<close>

theorem api_mediated:
  assumes "api_handle ap rg authorization req s = (r, s')" "req \<noteq> Health" "permission_of ap req = (action, resource, environ, org)"
    and "ap_verifier ap = Some verify" "ap_authorizer ap = Some (dynamic_require fr orr)" "(identity_step fr orr)\<^sup>*\<^sup>* identity_empty (as_identity s)"
  shows "(\<exists>e. r = Inl e) \<and> s' = s \<or> (\<exists>p. verify authorization = Inr p \<and> (org = [] \<or> pr_organization_id p = org)
    \<and> granted (set (id_roles (as_identity s))) (snd ` set (id_bindings (as_identity s))) p environ action resource)"
  using assms(1,2)
proof (cases rule: api_handle_cases)
  case (handled caller k)
  then obtain p where "verify authorization = Inr p" "caller = Some p" using assms(4) by (auto simp: principal_dependency_def split: sum.splits)
  then show ?thesis using required_granted [OF _ assms(3,5) reachable_roles [OF assms(6)]] handled(2) by blast
qed blast

section \<open>The rows of a tenant\<close>

definition control_view :: "org_id \<Rightarrow> control_db \<Rightarrow> policy_bundle list \<times> active_row list \<times> rollout_row list \<times> agent_row list" where
  "control_view org db = (filter (\<lambda>b. pb_organization_id b = org) (cd_bundles db), filter (\<lambda>r. av_organization_id r = org) (cd_active db),
     filter (\<lambda>r. ro_organization_id r = org) (cd_rollouts db), filter (\<lambda>r. at_organization_id r = org) (cd_agents db))"

definition owned_rows :: "org_id \<Rightarrow> ledger \<Rightarrow> opp_row list" where
  "owned_rows org L = filter (\<lambda>r. op_organization_id r = org) (ld_opportunities L)"

definition ledger_view :: "org_id \<Rightarrow> ledger \<Rightarrow> opp_row list \<times> value_row list \<times> cost_row list \<times> history_row list" where
  "ledger_view org L = (owned_rows org L, filter (\<lambda>v. vr_organization_id v = org) (ld_values L), filter (\<lambda>c. cr_organization_id c = org) (ld_costs L),
     filter (\<lambda>h. hr_opportunity_id h \<in> op_id ` set (owned_rows org L)) (ld_history L))"

lemma filter_sql_update: "(\<And>r. P r \<Longrightarrow> \<not> Q r \<and> \<not> Q (f r)) \<Longrightarrow> filter Q (sql_update P f t) = filter Q t"
  by (induction t) auto

lemma filter_sql_delete: "(\<And>r. P r \<Longrightarrow> \<not> Q r) \<Longrightarrow> filter Q (sql_delete P t) = filter Q t"
  by (induction t) (auto simp: sql_delete_def)

lemmas tenant_rows = filter_sql_update filter_sql_delete

text \<open>A second statement that only reads leaves the database of the first.\<close>

lemma snd_chain: "snd (case p of (Inl e, d) \<Rightarrow> (Inl e, d) | (Inr u, d) \<Rightarrow> (k u d, d)) = snd p"
  by (cases p; cases "fst p") auto

lemma ledger_create:
  assumes "strip (no_organization_id a) \<noteq> org"
  shows "ledger_view org (snd (create_opportunity fr orr uid now a L)) = ledger_view org L"
  by (cases fr orr uid now a L rule: create_cases) (use assms in \<open>auto simp: ledger_view_def owned_rows_def\<close>)

lemma owned_id:
  assumes "ledger_ok L" "get_opportunity oid L = Inr p" "op_organization_id p \<noteq> org" "r \<in> set (owned_rows org L)"
  shows "op_id r \<noteq> oid"
proof
  assume r: "op_id r = oid"
  obtain q where q: "q \<in> set (ld_opportunities L)" "op_id q = oid" "op_organization_id q = op_organization_id p"
    using assms(2) by (auto simp: get_opportunity_def row_to_opportunity_def split: option.splits dest: find_Some_prop)
  have "r = q" using distinct_key_unique [of op_id "ld_opportunities L" r q] assms(1,4) r q(1,2) by (auto simp: ledger_ok_def owned_rows_def)
  then show False using assms(3,4) q(3) by (simp add: owned_rows_def)
qed

lemma ledger_transition:
  assumes "ledger_ok L" "get_opportunity oid L = Inr p" "op_organization_id p \<noteq> org"
  shows "ledger_view org (snd (transition uid now oid st who why expected L)) = ledger_view org L"
proof -
  note other = owned_id [OF assms]
  have "ledger_view org (snd (transition_write uid now oid (old, new) who why expected L)) = ledger_view org L" for old new
  proof (rule transition_cases [of L uid now oid old new who why expected])
    show "distinct (map op_id (ld_opportunities L))" using assms(1) by (simp add: ledger_ok_def)
  next
    fix r h
    assume moved: "r \<in> set (ld_opportunities L)" "op_id r = oid" "op_status r = old"
      "snd (transition_write uid now oid (old, new) who why expected L) =
        L\<lparr>ld_opportunities := sql_update (\<lambda>x. op_id x = oid) (\<lambda>x. x\<lparr>op_status := new, op_revision := op_revision x + 1\<rparr>) (ld_opportunities L),
          ld_history := ld_history L @ [h]\<rparr>"
      "hr_opportunity_id h = oid"
    let ?up = "sql_update (\<lambda>x. op_id x = oid) (\<lambda>x. x\<lparr>op_status := new, op_revision := op_revision x + 1\<rparr>) (ld_opportunities L)"
    have eq: "filter (\<lambda>r. op_organization_id r = org) ?up = filter (\<lambda>r. op_organization_id r = org) (ld_opportunities L)"
      using other by (auto simp: sql_update_def filter_map comp_def owned_rows_def intro!: map_idI filter_cong)
    define M where "M = L\<lparr>ld_opportunities := ?up, ld_history := ld_history L @ [h]\<rparr>"
    have M: "ld_opportunities M = ?up" "ld_values M = ld_values L" "ld_costs M = ld_costs L" "ld_history M = ld_history L @ [h]"
      by (simp_all add: M_def)
    have own: "owned_rows org M = owned_rows org L" unfolding owned_rows_def M(1) by (rule eq)
    have "hr_opportunity_id h \<notin> op_id ` set (owned_rows org L)" using other moved(5) by (metis imageE)
    then show ?thesis unfolding moved(4) M_def [symmetric] ledger_view_def M(2-4) own by simp
  qed simp
  then show ?thesis by (cases "transition_read oid st L") (simp_all add: transition_def snd_chain split_paired_all)
qed

lemma ledger_value:
  assumes "get_opportunity oid L = Inr p" "op_organization_id p \<noteq> org"
  shows "ledger_view org (snd (record_value fr orr uid now today oid stage am ek rb uri day nt L)) = ledger_view org L"
proof -
  have "ledger_view org (snd (value_write fr orr uid now day' oid (p, st) am ek rb uri nt L)) = ledger_view org L" for day' st
    by (cases fr orr uid now day' oid p st am ek rb uri nt L rule: value_write_cases) (use assms(2) in \<open>auto simp: ledger_view_def owned_rows_def\<close>)
  then show ?thesis using assms(1) by (auto simp: record_value_def value_read_def split: sum.splits if_splits)
qed

lemma ledger_cost:
  assumes "org' \<noteq> org"
  shows "ledger_view org (snd (record_cost fr orr uid now today org' agent ct am cur ek rb oid inc nt L)) = ledger_view org L"
  by (cases fr orr uid now today org' agent ct am cur ek rb oid inc nt L rule: record_cost_cases)
    (use assms in \<open>auto simp: ledger_view_def owned_rows_def\<close>)

section \<open>The control plane\<close>

definition keeps_tenant :: "org_id \<Rightarrow> ('r, 'w control_state) eff \<Rightarrow> bool" where
  "keeps_tenant org f \<longleftrightarrow> (\<forall>c. control_view org (cs_db (snd (f c))) = control_view org (cs_db c))"

named_theorems tenant_intros

lemma view_ret [tenant_intros]: "keeps_tenant org (ret x)"
  by (simp add: keeps_tenant_def ret_def)

lemma keeps_raise [tenant_intros]: "keeps_tenant org (raise e)"
  by (simp add: keeps_tenant_def raise_def)

lemma keeps_lift [tenant_intros]: "keeps_tenant org (lift r)"
  by (simp add: keeps_tenant_def lift_def)

lemma keeps_look [tenant_intros]: "keeps_tenant org (\<lambda>c. (f c, c))"
  by (simp add: keeps_tenant_def)

lemma view_bnd [tenant_intros]: "keeps_tenant org f \<Longrightarrow> (\<And>x. keeps_tenant org (g x)) \<Longrightarrow> keeps_tenant org (bnd f g)"
  by (auto simp: keeps_tenant_def bnd_def split: sum.split prod.split) (metis snd_conv)+

lemma keeps_emit [tenant_intros]: "keeps_tenant org (cp_emit sv ty d)"
  by (simp add: keeps_tenant_def cp_emit_def split: option.split prod.split)

lemma keeps_db: "(\<And>db. control_view org (snd (f db)) = control_view org db) \<Longrightarrow> keeps_tenant org (on_db f)"
  by (simp add: keeps_tenant_def on_db_def split_beta)

lemma view_save_bundle: "pb_organization_id b \<noteq> org \<Longrightarrow> control_view org (snd (save_bundle b db)) = control_view org db"
  by (simp add: save_bundle_def control_view_def bundle_row_def)

lemma view_activate_write:
  assumes "org' \<noteq> org" shows "control_view org (snd (activate_write now org' name environ version who expected db)) = control_view org db"
proof -
  have up: "filter (\<lambda>r. av_organization_id r = org) (sql_update P f t) = filter (\<lambda>r. av_organization_id r = org) t"
    if "\<And>r. P r \<Longrightarrow> active_at org' name environ r" "\<And>r. av_organization_id (f r) = av_organization_id r" for P f t
    using that assms by (intro filter_sql_update) (force simp: active_at_def)
  have del: "filter (\<lambda>r. ro_organization_id r = org) (sql_delete (rollout_at org' name environ) t) = filter (\<lambda>r. ro_organization_id r = org) t" for t
    using assms by (intro filter_sql_delete) (auto simp: rollout_at_def)
  show ?thesis using assms by (cases expected) (auto simp: activate_write_def control_view_def Let_def del intro!: up)
qed

lemma view_activate: "org' \<noteq> org \<Longrightarrow> control_view org (snd (activate now org' name environ version who expected db)) = control_view org db"
  by (cases "get_bundle org' name environ version db") (simp_all add: activate_def snd_chain view_activate_write)

lemma view_rollout_write:
  assumes "org' \<noteq> org" shows "control_view org (snd (rollout_write now org' name environ prim cand pc seed who expected db)) = control_view org db"
proof -
  have up: "filter (\<lambda>r. ro_organization_id r = org) (sql_update P f t) = filter (\<lambda>r. ro_organization_id r = org) t"
    if "\<And>r. P r \<Longrightarrow> rollout_at org' name environ r" "\<And>r. ro_organization_id (f r) = ro_organization_id r" for P f t
    using that assms by (intro filter_sql_update) (force simp: rollout_at_def)
  show ?thesis using assms by (cases expected) (auto simp: rollout_write_def control_view_def Let_def intro!: up)
qed

lemma view_rollout: "org' \<noteq> org \<Longrightarrow> control_view org (snd (start_rollout fr orr sha now org' name environ cand pc who seed expected db)) = control_view org db"
  by (cases "rollout_read org' name environ cand pc db") (simp_all add: start_rollout_def snd_chain view_rollout_write)

lemma view_cancel: "org' \<noteq> org \<Longrightarrow> control_view org (snd (cancel_rollout org' name environ db)) = control_view org db"
  by (auto simp: cancel_rollout_def control_view_def rollout_at_def intro!: tenant_rows)

lemma agent_update:
  assumes "org' \<noteq> org" "\<And>r. P r \<Longrightarrow> agent_at org' agent environ r" "\<And>r. at_organization_id (f r) = at_organization_id r"
  shows "filter (\<lambda>r. at_organization_id r = org) (sql_update P f t) = filter (\<lambda>r. at_organization_id r = org) t"
  using assms by (intro filter_sql_update) (force simp: agent_at_def)

lemma view_register:
  assumes "org' \<noteq> org" shows "control_view org (snd (register_agent now org' agent environ own pu st me ve expected db)) = control_view org db"
  using assms by (cases expected) (auto simp: register_agent_def control_view_def Let_def intro!: agent_update [of org' org _ agent environ])

lemma view_heartbeat:
  assumes "org' \<noteq> org" shows "control_view org (snd (agent_heartbeat now org' agent environ dg ve st expected db)) = control_view org db"
  using assms by (auto simp: agent_heartbeat_def control_view_def Let_def intro!: agent_update [of org' org _ agent environ])

lemma keeps_publish [tenant_intros]:
  assumes "org' \<noteq> org" shows "keeps_tenant org (publish_policy cr sv now org' name environ version policy who key)"
proof -
  have core: "keeps_tenant org (bnd (lift (bundle_create fr orr sha now org' name environ version policy sg who)) (\<lambda>b. bnd (on_db (save_bundle b)) (h b)))"
    if h: "\<And>b x. keeps_tenant org (h b x :: (policy_bundle, 'b control_state) eff)" for fr orr sha sg h
  proof (cases "bundle_create fr orr sha now org' name environ version policy sg who")
    case (Inr b)
    then have "pb_organization_id b = org'" by (auto simp: bundle_create_def ebind_Inr Let_def split: if_splits)
    then have "keeps_tenant org (bnd (on_db (save_bundle b)) (h b))" using assms view_save_bundle h by (intro view_bnd keeps_db) auto
    then show ?thesis using Inr by (simp add: keeps_tenant_def bnd_def lift_def)
  qed (simp add: keeps_tenant_def bnd_def lift_def)
  have "keeps_tenant org (bnd (lift (bundle_create (cr_float cr) (cr_repr cr) (cr_sha cr) now org' name environ version policy sg who)) (\<lambda>b.
      bnd (on_db (save_bundle b)) (\<lambda>_. bnd (cp_emit sv ''published'' (bundle_to_dict b)) (\<lambda>_. ret b))))" for sg
    by (rule core) (intro tenant_intros)
  then show ?thesis unfolding publish_policy_def Let_def by (simp only: keeps_raise option.case split: option.split) simp
qed

lemma keeps_activate [tenant_intros]: "org' \<noteq> org \<Longrightarrow> keeps_tenant org (activate_policy cr sv now org' name environ version who expected)"
  unfolding activate_policy_def by (auto intro!: tenant_intros keeps_db view_activate)

lemma keeps_start [tenant_intros]: "org' \<noteq> org \<Longrightarrow> keeps_tenant org (service_start_rollout cr sv now org' name environ cand pc who seed expected)"
  unfolding service_start_rollout_def by (auto intro!: tenant_intros keeps_db view_rollout)

lemma keeps_cancel [tenant_intros]: "org' \<noteq> org \<Longrightarrow> keeps_tenant org (service_cancel_rollout sv org' name environ)"
  unfolding service_cancel_rollout_def by (auto intro!: tenant_intros keeps_db view_cancel)

lemma keeps_promote [tenant_intros]: "org' \<noteq> org \<Longrightarrow> keeps_tenant org (promote_policy cr sv now now2 org' name e1 e2 v1 v2 who act key)"
  unfolding promote_policy_def by (auto intro!: tenant_intros)

lemma keeps_rollback [tenant_intros]: "org' \<noteq> org \<Longrightarrow> keeps_tenant org (rollback_policy cr sv now org' name environ version who)"
  unfolding rollback_policy_def by (auto intro!: tenant_intros)

lemma keeps_register [tenant_intros]: "org' \<noteq> org \<Longrightarrow> keeps_tenant org (on_db (register_agent now org' agent environ own pu st me ve expected))"
  by (intro keeps_db view_register)

lemma keeps_heartbeat [tenant_intros]: "org' \<noteq> org \<Longrightarrow> keeps_tenant org (on_db (agent_heartbeat now org' agent environ dg ve st expected))"
  by (intro keeps_db view_heartbeat)

section \<open>Separation of tenants\<close>

definition tenant_view :: "org_id \<Rightarrow> ('w, 'a) api_state
    \<Rightarrow> (policy_bundle list \<times> active_row list \<times> rollout_row list \<times> agent_row list) \<times> opp_row list \<times> value_row list \<times> cost_row list \<times> history_row list" where
  "tenant_view org s = (control_view org (cs_db (as_control s)), ledger_view org (as_ledger s))"

named_theorems view_intros

lemma view_read [view_intros]:
  assumes "snd (f s) = s" "\<And>x. fst (f s) = Inr x \<Longrightarrow> tenant_view org (snd (g x s)) = tenant_view org s"
  shows "tenant_view org (snd (hbnd f g s)) = tenant_view org s"
  using assms by (cases "f s"; cases "fst (f s)") (auto simp: hbnd_def)

lemma view_answered [view_intros]: "tenant_view org (snd (h s)) = tenant_view org s \<Longrightarrow> tenant_view org (snd (answered f h s)) = tenant_view org s"
  by (cases "h s"; cases "fst (h s)") (auto simp: answered_def hbnd_def hret_def)

lemma view_attempt [view_intros]: "tenant_view org (snd (f s)) = tenant_view org s \<Longrightarrow> tenant_view org (snd (attempt cl f s)) = tenant_view org s"
  by (cases "f s"; cases "fst (f s)") (auto simp: attempt_def)

lemma view_on_control [view_intros]: "keeps_tenant org f \<Longrightarrow> tenant_view org (snd (on_control f s)) = tenant_view org s"
  by (simp add: tenant_view_def on_control_def keeps_tenant_def split_beta)

lemma view_on_identity [view_intros]: "tenant_view org (snd (on_identity f s)) = tenant_view org s"
  by (simp add: tenant_view_def on_identity_def split_beta)

lemma view_on_audit [view_intros]: "tenant_view org (snd (on_audit f s)) = tenant_view org s"
  by (simp add: tenant_view_def on_audit_def split_beta)

lemma view_on_ledger [view_intros]:
  "ledger_view org (snd (f (as_ledger s))) = ledger_view org (as_ledger s) \<Longrightarrow> tenant_view org (snd (on_ledger f s)) = tenant_view org s"
  by (simp add: tenant_view_def on_ledger_def split_beta)

lemma reading_same [simp]: "snd (reading f s) = s" "snd (lifted r s) = s" "snd (hret x s) = s" "snd (hraise e s) = s" "snd (revision_inside q s) = s"
  by (simp_all add: reading_def lifted_def hret_def hraise_def revision_inside_def)

lemma attempt_same [simp]: "snd (attempt cl (reading f) s) = s" "snd (owned_opportunity org oid cl s) = s"
  by (auto simp: attempt_def reading_def owned_opportunity_def split: sum.split)

lemma keeps_revision [tenant_intros]: "keeps_tenant org (active_revision org' name environ)"
  by (simp add: keeps_tenant_def active_revision_def)

lemma control_separated:
  assumes "control_route ap rg caller req = Some h" "snd (snd (snd (permission_of ap req))) \<noteq> org"
  shows "tenant_view org (snd (h s)) = tenant_view org s"
  using assms
  by (cases req)
    (auto simp: control_route_def api_publish_policy_def api_activate_policy_def api_active_policy_def api_promote_policy_def api_rollback_policy_def
      api_start_rollout_def api_cancel_rollout_def api_resolve_policy_def api_register_agent_def api_heartbeat_def api_list_agents_def active_revision_def
      intro!: view_intros tenant_intros)

lemma audit_separated: "audit_route ap rg caller req = Some h \<Longrightarrow> tenant_view org (snd (h s)) = tenant_view org s"
  by (cases req)
    (auto simp: audit_route_def api_audit_record_def api_audit_append_def api_audit_tail_def api_audit_verify_def
      intro!: view_intros split: option.splits sum.split)

lemma identity_separated: "identity_route ap rg caller req = Some h \<Longrightarrow> tenant_view org (snd (h s)) = tenant_view org s"
  by (cases req) (auto simp: identity_route_def api_scim_def api_rbac_def Let_def identity_handler_def intro!: view_intros split: if_splits)

lemma owned_opportunity_Inr: "fst (owned_opportunity org oid cl s) = Inr p \<Longrightarrow> get_opportunity oid (as_ledger s) = Inr p \<and> op_organization_id p = org"
  by (auto simp: owned_opportunity_def attempt_def reading_def ebind_Inr split: sum.splits if_splits)

lemma ledger_separated:
  assumes "ledger_route ap rg caller req = Some h" "ledger_ok (as_ledger s)"
    and org: "snd (snd (snd (permission_of ap req))) \<noteq> org" "strip (snd (snd (snd (permission_of ap req)))) \<noteq> org"
  shows "tenant_view org (snd (h s)) = tenant_view org s"
proof -
  have own: "\<exists>p. get_opportunity oid (as_ledger s) = Inr p \<and> op_organization_id p \<noteq> org"
    if "fst (owned_opportunity org' oid cl s) = Inr q" "org' \<noteq> org" for org' oid cl q
    using owned_opportunity_Inr [OF that(1)] that(2) by auto
  show ?thesis using assms(1) org
    by (cases req)
      (auto simp: ledger_route_def api_roi_summary_def api_roi_create_def api_roi_list_def api_roi_get_def api_roi_transition_def api_roi_record_value_def
        api_roi_record_cost_def Let_def intro!: view_intros ledger_create ledger_cost dest!: own split: if_splits
        intro: ledger_transition [OF assms(2)] ledger_value)
qed

lemma verified_org:
  assumes "verify_authorization_header fr orr decode cfg mapping header = Inr p"
  shows "strip (pr_organization_id p) = pr_organization_id p"
proof -
  have "principal_init a b c d e f g k = Inr p \<Longrightarrow> strip (pr_organization_id p) = pr_organization_id p" for a b c d e f g k
    by (auto simp: principal_init_def ebind_Inr split: if_splits)
  then show ?thesis using assms by (auto simp: verify_authorization_header_def oidc_verify_def Let_def ebind_Inr split: if_splits sum.splits)
qed

text \<open>C4: Tenants are separated.  Whatever request a verified principal sends, in any reachable state of the ledger, and whatever roles it has, the policy
  bundles, activations, rollouts and agents of every other organization and its opportunities, values, costs and status history stay as they are.\<close>

theorem api_separates_tenants:
  assumes "api_handle ap rg authorization req s = (r, s')"
    and "ap_verifier ap = Some (verify_authorization_header fr orr decode cfg mapping)" "verify_authorization_header fr orr decode cfg mapping authorization = Inr p"
    and "(ledger_step fr' orr')\<^sup>*\<^sup>* (ledger_init, []) (as_ledger s, F)" "org \<noteq> pr_organization_id p" "org \<noteq> []"
  shows "tenant_view org s' = tenant_view org s"
proof (cases "req = Health")
  case True
  then show ?thesis using assms(1) by (auto simp: api_handle_def hret_def)
next
  case False
  note ok = ledger_reachable_ok [OF assms(4)]
  from assms(1) False show ?thesis
  proof (cases rule: api_handle_cases)
    case (handled caller k)
    have caller: "caller = Some p" using handled(1) assms(2,3) by (simp add: principal_dependency_def)
    obtain action resource environ org' where perm: "permission_of ap req = (action, resource, environ, org')" by (metis prod_cases4)
    have "org' = [] \<or> org' = pr_organization_id p"
      using handled(2) by (auto simp: required_def perm caller api_require_def hret_def hraise_def split: option.splits if_splits)
    then have "org' \<noteq> org" "strip org' \<noteq> org" using assms(5,6) verified_org [OF assms(3)] by (auto simp: strip_def lstrip_def rstrip_def)
    then have "tenant_view org (snd (h s)) = tenant_view org s" if "api_route ap rg caller req = Some h" for h
      using that control_separated [of ap rg caller req h org s] audit_separated [of ap rg caller req h org s] identity_separated [of ap rg caller req h org s]
        ledger_separated [of ap rg caller req h s org] ok perm by (auto simp: api_route_def split: option.splits)
    from this [OF handled(3)] show ?thesis using handled(2,4) by (simp add: hbnd_def)
  qed simp
qed

section \<open>Bindings for other organizations\<close>

definition binding_request :: "string \<Rightarrow> org_id \<Rightarrow> subject_id \<Rightarrow> request" where
  "binding_request role org subject = Rbac_Save_Binding [(''role'', JStr role), (''organization_id'', JStr org), (''subject'', JStr subject)]"

lemma post_binding_request:
  assumes "r0 \<in> set (id_roles db)" "\<not> blank (rd_name r0)" "\<not> blank org" "\<not> blank subject" "rg_uuid rg \<notin> fst ` set (id_bindings db)"
  shows "post_binding ap rg [(''role'', JStr (rd_name r0)), (''organization_id'', JStr org), (''subject'', JStr subject)] db =
    (Inr (rg_uuid rg), db\<lparr>id_bindings := id_bindings db @ [(rg_uuid rg,
      \<lparr>rb_role = rd_name r0, rb_organization_id = org, rb_subject = subject, rb_group = [], rb_environment = ''*''\<rparr>)]\<rparr>)"
proof -
  have "blank []" by (simp add: blank_def strip_def lstrip_def rstrip_def)
  then show ?thesis using assms
    by (auto simp: post_binding_def body_binding_def body_item_text_def jitem_def ebind_def body_text_def jget_or_def jstr_def role_binding_init_def
        save_binding_def list_ex_iff image_iff)
qed

text \<open>C39: The routes of the identity store have no organization.  A principal of one organization to which \<^verbatim>\<open>identity.write\<close> is granted can bind any stored
  role to any subject of any other organization, and from then on that subject is granted there what the role permits.\<close>

theorem binding_crosses_tenants:
  assumes "ap_verifier ap = Some verify" "verify authorization = Inr p" "ap_authorizer ap = Some (dynamic_require fr orr)" "ap_has_scim ap"
    and "(identity_step fr orr)\<^sup>*\<^sup>* identity_empty (as_identity s)"
    and "granted (set (id_roles (as_identity s))) (snd ` set (id_bindings (as_identity s))) p ''*'' ''identity.write'' ''bindings''"
    and "r0 \<in> set (id_roles (as_identity s))" "q \<in> set (rd_permissions r0)" "permits q action resource"
    and "\<not> blank org" "\<not> blank subject" "rg_uuid rg \<notin> fst ` set (id_bindings (as_identity s))"
    and "pr_organization_id v = org" "pr_subject v = subject"
  shows "\<exists>x s'. api_handle ap rg authorization (binding_request (rd_name r0) org subject) s = (Inr x, s')
    \<and> dynamic_authorize fr orr (as_identity s') (Some v) action resource context = Inr True"
proof -
  define db where "db = as_identity s"
  define b where "b = \<lparr>rb_role = rd_name r0, rb_organization_id = org, rb_subject = subject, rb_group = [], rb_environment = ''*''\<rparr>"
  define db' where "db' = db\<lparr>id_bindings := id_bindings db @ [(rg_uuid rg, b)]\<rparr>"
  have ok: "roles_ok db" using reachable_roles [OF assms(5)] by (simp add: db_def)
  have name: "\<not> blank (rd_name r0)" using ok assms(7) by (auto simp: roles_ok_def role_row_ok_def db_def blank_def)
  have post: "post_binding ap rg [(''role'', JStr (rd_name r0)), (''organization_id'', JStr org), (''subject'', JStr subject)] db = (Inr (rg_uuid rg), db')"
    using post_binding_request [of r0 db org subject rg ap] assms(7,10-12) name by (simp add: db_def db'_def b_def)
  have "dynamic_require fr orr db (Some p) ''identity.write'' ''bindings'' [(''environment'', PStr ''*'')] = Inr ()"
    using dynamic_decision [OF ok, of fr orr p "''identity.write''" "''bindings''" "[(''environment'', PStr ''*'')]"] assms(6)
    by (auto simp: dynamic_require_def dynamic_authorize_def ebind_Inr rbac_require_def context_environment_def db_def)
  then have req: "api_require ap (Some p) ''identity.write'' ''bindings'' ''*'' [] s = (Inr (), s)" using assms(3) by (simp add: api_require_def hret_def db_def)
  have "api_handle ap rg authorization (binding_request (rd_name r0) org subject) s
      = (Inr (json_reply [(''binding_id'', JStr (rg_uuid rg))]), s\<lparr>as_identity := db'\<rparr>)"
    using assms(1,2,4) req post
    by (simp add: api_handle_def binding_request_def api_route_def control_route_def audit_route_def identity_route_def api_rbac_def principal_dependency_def
        identity_handler_def hbnd_def answered_def attempt_def on_identity_def hret_def db_def split: option.split)
  moreover have "roles_ok db'"
  proof -
    have "list_ex (\<lambda>x. rd_name x = rb_role b) (id_roles db)" "\<not> list_ex (\<lambda>x. fst x = rg_uuid rg) (id_bindings db)"
      using assms(7,12) by (auto simp: list_ex_iff b_def db_def image_iff)
    then have "snd (save_binding (rg_uuid rg) b db) = db'" by (simp add: save_binding_def db'_def)
    moreover have "binding_row_ok b"
      using assms(10,11) name by (intro binding_init_row [of "rd_name r0" org subject "[]" "''*''"]) (simp add: role_binding_init_def b_def)
    ultimately show ?thesis using roles_ok_binding [OF ok, of b "rg_uuid rg"] by simp
  qed
  moreover have "granted (set (id_roles db')) (snd ` set (id_bindings db')) v e action resource" for e
    unfolding granted_def using assms(7-9,11,13,14) by (intro bexI [of _ r0]) (auto simp: db'_def db_def b_def holds_role_def binding_applies_def blank_def strip_def lstrip_def rstrip_def)
  ultimately show ?thesis using dynamic_decision [of db' fr orr v action resource "context"] by auto
qed

section \<open>Witnesses\<close>

definition demo_oidc :: oidc_config where
  "demo_oidc = \<lparr>oc_issuer = ''i'', oc_audience = ''a'', oc_organization_claim = ''org'', oc_roles_claim = ''roles'', oc_groups_claim = ''groups'',
     oc_subject_claim = ''sub'', oc_algorithms = [''RS256''], oc_jwks_url = [], oc_leeway_seconds = 0, oc_required_claims = []\<rparr>"

definition demo_decode :: "oidc_config \<Rightarrow> string \<Rightarrow> exc + json_object" where
  "demo_decode c token = (if token = ''t'' then Inr [(oc_subject_claim c, JStr ''u''), (oc_organization_claim c, JStr ''o'')] else Inl (ValueError ''token''))"

definition demo_verifier :: "string \<Rightarrow> exc + principal" where
  "demo_verifier = verify_authorization_header ratio_repr (\<lambda>_. []) demo_decode demo_oidc []"

definition demo_caller :: principal where
  "demo_caller = \<lparr>pr_subject = ''u'', pr_organization_id = ''o'', pr_display_name = [], pr_email = [], pr_roles = [], pr_groups = [],
     pr_attributes = [(''sub'', JStr ''u''), (''org'', JStr ''o'')], pr_token_id = []\<rparr>"

definition demo_api :: "bool \<Rightarrow> (unit, unit) api" where
  "demo_api rbac = \<lparr>ap_crypto = \<lparr>cr_float = ratio_repr, cr_repr = (\<lambda>_. []), cr_sha = (\<lambda>s. s)\<rparr>,
     ap_host = \<lparr>ho_float_repr = ratio_repr, ho_object_repr = (\<lambda>_. []), ho_repr = (\<lambda>_. None), ho_sha = (\<lambda>s. s), ho_exp = (\<lambda>x. x),
       ho_event = (\<lambda>_. ([], 0, [], [])), ho_alarm_available = False, ho_fixed3 = ratio_repr\<rparr>,
     ap_service = \<lparr>sv_signers = [], sv_default_signer_key_id = [], sv_require_signed_bundles = False, sv_event_sink = None\<rparr>,
     ap_verifier = Some demo_verifier, ap_authorizer = (if rbac then Some (dynamic_require ratio_repr (\<lambda>_. [])) else None),
     ap_has_scim = True, ap_has_ledger = True, ap_audit = None\<rparr>"

definition demo_readings :: readings where
  "demo_readings = \<lparr>rg_now = ''t'', rg_now2 = ''t'', rg_today = ''d'', rg_ms = 0, rg_uuid = ''n''\<rparr>"

definition demo_api_state :: "identity_db \<Rightarrow> (unit, unit) api_state" where
  "demo_api_state db = \<lparr>as_control = \<lparr>cs_db = control_empty, cs_world = ()\<rparr>, as_identity = db, as_ledger = ledger_init, as_audit = ()\<rparr>"

definition demo_new_agent :: new_agent where
  "demo_new_agent = \<lparr>na_agent_id = ''g'', na_environment = ''prod'', na_owner = ''w'', na_purpose = ''p'', na_status = ''idle'', na_metadata = [],
     na_version = ''1'', na_expected_revision = None\<rparr>"

lemmas demo_strings = blank_def strip_def lstrip_def rstrip_def py_space_def lower_def lower_char_def

lemma demo_verifies_caller: "demo_verifier ''bearer t'' = Inr demo_caller"
  by (simp add: demo_verifier_def verify_authorization_header_def oidc_verify_def demo_decode_def demo_oidc_def demo_caller_def principal_init_def
      claim_values_def json_iter_def jget_or_def jstr_def frozen_def clean_set_def mapped_roles_def ebind_def Let_def demo_strings)

theorem api_separates_tenants_witness:
  "\<exists>r s'. api_handle (demo_api False) demo_readings ''bearer t'' (Register_Agent ''o'' demo_new_agent []) (demo_api_state identity_empty) = (r, s')
    \<and> tenant_view ''z'' s' = tenant_view ''z'' (demo_api_state identity_empty)"
proof -
  obtain r s' where run: "api_handle (demo_api False) demo_readings ''bearer t'' (Register_Agent ''o'' demo_new_agent []) (demo_api_state identity_empty) = (r, s')"
    by fastforce
  moreover have "tenant_view ''z'' s' = tenant_view ''z'' (demo_api_state identity_empty)"
    by (rule api_separates_tenants [OF run _ demo_verifies_caller [unfolded demo_verifier_def], where F = "[]" and fr' = ratio_repr and orr' = "\<lambda>_. []"])
      (simp_all add: demo_api_def demo_verifier_def demo_api_state_def demo_caller_def)
  ultimately show ?thesis by blast
qed

theorem api_mediated_witness:
  "\<exists>e. api_handle (demo_api True) demo_readings ''bearer t'' (Register_Agent ''o'' demo_new_agent []) (demo_api_state identity_empty)
     = (Inl e, demo_api_state identity_empty)"
proof -
  obtain r s' where run: "api_handle (demo_api True) demo_readings ''bearer t'' (Register_Agent ''o'' demo_new_agent []) (demo_api_state identity_empty) = (r, s')"
    by fastforce
  have "(\<exists>e. r = Inl e) \<and> s' = demo_api_state identity_empty \<or> (\<exists>p. demo_verifier ''bearer t'' = Inr p \<and> (''o'' = [] \<or> pr_organization_id p = ''o'')
     \<and> granted (set (id_roles (as_identity (demo_api_state identity_empty)))) (snd ` set (id_bindings (as_identity (demo_api_state identity_empty))))
       p ''prod'' ''agent.register'' ''g'')"
    by (rule api_mediated [OF run]) (simp_all add: demo_api_def demo_api_state_def demo_new_agent_def)
  then show ?thesis using run by (auto simp: demo_api_state_def identity_empty_def granted_def)
qed

definition demo_admin :: role_definition where
  "demo_admin = \<lparr>rd_name = ''adm'', rd_permissions = [''*''], rd_description = []\<rparr>"

definition demo_admin_binding :: role_binding where
  "demo_admin_binding = \<lparr>rb_role = ''adm'', rb_organization_id = ''o'', rb_subject = ''u'', rb_group = [], rb_environment = ''*''\<rparr>"

definition demo_admin_db :: identity_db where
  "demo_admin_db = identity_empty\<lparr>id_roles := [demo_admin], id_bindings := [(''b'', demo_admin_binding)]\<rparr>"

lemma demo_admin_reachable: "(identity_step fr orr)\<^sup>*\<^sup>* identity_empty demo_admin_db"
proof -
  have role: "role_definition_init ''adm'' [PStr ''*''] [] = Inr demo_admin"
    by (simp add: role_definition_init_def demo_admin_def clean_set_def clean_item_def frozen_def demo_strings)
  have bind: "role_binding_init ''adm'' ''o'' ''u'' [] ''*'' = Inr demo_admin_binding"
    by (simp add: role_binding_init_def demo_admin_binding_def demo_strings)
  have 1: "identity_step fr orr identity_empty (identity_empty\<lparr>id_roles := [demo_admin]\<rparr>)"
    using identity_step.save_role [OF role, of fr orr identity_empty] by (simp add: save_role_def identity_empty_def demo_admin_def)
  have 2: "identity_step fr orr (identity_empty\<lparr>id_roles := [demo_admin]\<rparr>) demo_admin_db"
    using identity_step.save_binding [OF bind, of fr orr "identity_empty\<lparr>id_roles := [demo_admin]\<rparr>" "''b''"]
    by (simp add: save_binding_def demo_admin_db_def demo_admin_def demo_admin_binding_def identity_empty_def)
  show ?thesis using 1 2 by (meson rtranclp.rtrancl_into_rtrancl rtranclp.rtrancl_refl)
qed

theorem binding_crosses_tenants_witness:
  "\<exists>x s'. api_handle (demo_api True) demo_readings ''bearer t'' (binding_request (rd_name demo_admin) ''z'' ''v'') (demo_api_state demo_admin_db) = (Inr x, s')
    \<and> dynamic_authorize ratio_repr (\<lambda>_. []) (as_identity s') (Some (demo_caller\<lparr>pr_organization_id := ''z'', pr_subject := ''v''\<rparr>)) ''policy.activate'' ''p'' [] = Inr True"
proof (rule binding_crosses_tenants [where verify = demo_verifier and p = demo_caller and q = "''*''"])
  show "(identity_step ratio_repr (\<lambda>_. []))\<^sup>*\<^sup>* identity_empty (as_identity (demo_api_state demo_admin_db))"
    using demo_admin_reachable by (simp add: demo_api_state_def)
  show "demo_verifier ''bearer t'' = Inr demo_caller" by (rule demo_verifies_caller)
qed (simp_all add: demo_api_def demo_api_state_def demo_admin_db_def demo_admin_def demo_admin_binding_def demo_caller_def demo_readings_def
    granted_def holds_role_def binding_applies_def permits_def demo_strings)

end
