(* ===== verification/Plane_Client.thy ===== *)
theory Plane_Client
  imports Http_Api
begin

text \<open>
  \<^verbatim>\<open>ControlPlaneClient\<close> of \<^verbatim>\<open>agent_roi/enterprise/control_plane.py\<close>, the HTTP client through which a runner reaches the control plane.
  The transport is an argument: it takes the method, the address, the headers and the body of a request and gives the content of the
  answer, a status with its text, or an exception.  So is the parser of JSON text.  \<^verbatim>\<open>quote\<close> and \<^verbatim>\<open>quote_plus\<close> of the standard
  library are written out for the characters a \<^typ>\<open>string\<close> has, which are one or two bytes in UTF-8.
\<close>

section \<open>Addresses\<close>

definition utf8 :: "char \<Rightarrow> nat list" where
  "utf8 c = (let n = of_char c in if n < 128 then [n] else [192 + n div 64, 128 + n mod 64])"

definition unreserved :: "nat \<Rightarrow> bool" where
  "unreserved n \<longleftrightarrow> 48 \<le> n \<and> n \<le> 57 \<or> 65 \<le> n \<and> n \<le> 90 \<or> 97 \<le> n \<and> n \<le> 122 \<or> n = 45 \<or> n = 46 \<or> n = 95 \<or> n = 126"

definition quote_digit :: "nat \<Rightarrow> char" where
  "quote_digit n = ''0123456789ABCDEF'' ! n"

definition quote_byte :: "nat \<Rightarrow> string" where
  "quote_byte n = (if unreserved n then [char_of n] else [CHR 0x25, quote_digit (n div 16), quote_digit (n mod 16)])"

definition url_quote :: "string \<Rightarrow> string" where
  "url_quote s = concat (map quote_byte (concat (map utf8 s)))"

definition quote_plus_byte :: "nat \<Rightarrow> string" where
  "quote_plus_byte n = (if n = 32 then ''+'' else quote_byte n)"

definition quote_plus :: "string \<Rightarrow> string" where
  "quote_plus s = concat (map quote_plus_byte (concat (map utf8 s)))"

section \<open>Requests\<close>

datatype http_outcome = Content string | Http_Error int string | Raised exc

record 'z plane_client =
  hc_base_url :: string
  hc_bearer_token :: string
  hc_signer :: "signer option"
  hc_crypto :: crypto
  hc_send :: "string \<Rightarrow> string \<Rightarrow> (string \<times> string) list \<Rightarrow> string option \<Rightarrow> 'z \<Rightarrow> http_outcome \<times> 'z"
  hc_loads :: "string \<Rightarrow> exc + json"

text \<open>The constructor, on a record with the arguments.\<close>

definition plane_client_init :: "'z plane_client \<Rightarrow> 'z plane_client" where
  "plane_client_init a = a\<lparr>hc_base_url := rstrip_slash (hc_base_url a)\<rparr>"

definition request_headers :: "'z plane_client \<Rightarrow> (string \<times> string) list \<Rightarrow> bool \<Rightarrow> (string \<times> string) list" where
  "request_headers hc extra has_body =
     (let h1 = foldl (\<lambda>h (k, v). AList.update k v h) [(''Accept'', ''application/json'')] extra;
          h2 = (if has_body then AList.update ''Content-Type'' ''application/json'' h1 else h1) in
      if hc_bearer_token hc \<noteq> [] then AList.update ''Authorization'' (''Bearer '' @ hc_bearer_token hc) h2 else h2)"

definition client_request :: "'z plane_client \<Rightarrow> string \<Rightarrow> string \<Rightarrow> payload option \<Rightarrow> (string \<times> string) list \<Rightarrow> (json, 'z) eff" where
  "client_request hc verb path body extra z =
     (let text_of = map_option (\<lambda>p. canonical_json (cr_float (hc_crypto hc)) (cr_repr (hc_crypto hc)) (str_dict p)) body in
      case hc_send hc verb (hc_base_url hc @ path) (request_headers hc extra (body \<noteq> None)) text_of z of
        (Content t, z') \<Rightarrow> (if t = [] then Inr JNull else hc_loads hc t, z')
      | (Http_Error code detail, z') \<Rightarrow> (Inl (ControlPlaneError (''Control plane returned HTTP '' @ show_int code @ '': '' @ detail)), z')
      | (Raised e, z') \<Rightarrow> (Inl (if exc_isinstance e [''OSError''] then ControlPlaneError ''Control plane is unavailable'' else e), z'))"

definition if_match_header :: "int option \<Rightarrow> (string \<times> string) list" where
  "if_match_header expected = (case expected of None \<Rightarrow> [] | Some n \<Rightarrow> [(''If-Match'', show_int n)])"

text \<open>\<^verbatim>\<open>PolicyBundle.from_dict\<close> on the answer, and its verification when the client has a signer.\<close>

definition received_bundle :: "'z plane_client \<Rightarrow> utc_text \<Rightarrow> json \<Rightarrow> exc + policy_bundle" where
  "received_bundle hc now data =
     (let fr = cr_float (hc_crypto hc); orr = cr_repr (hc_crypto hc); sha = cr_sha (hc_crypto hc) in
      ebind (case data of JObj d \<Rightarrow> bundle_from_dict fr orr now d | _ \<Rightarrow> Inl (TypeError ''object is not subscriptable'')) (\<lambda>b.
        case hc_signer hc of None \<Rightarrow> Inr b | Some sg \<Rightarrow> ebind (bundle_verify fr orr sha b sg) (\<lambda>_. Inr b)))"

definition receiving :: "'z plane_client \<Rightarrow> utc_text \<Rightarrow> (json, 'z) eff \<Rightarrow> (policy_bundle, 'z) eff" where
  "receiving hc now f = bnd f (\<lambda>data. lift (received_bundle hc now data))"

definition policies_path :: "org_id \<Rightarrow> env_name \<Rightarrow> string \<Rightarrow> string" where
  "policies_path org environ name = ''/v1/organizations/'' @ url_quote org @ ''/policies/'' @ url_quote environ @ ''/'' @ url_quote name"

definition version_path :: "org_id \<Rightarrow> env_name \<Rightarrow> string \<Rightarrow> policy_version \<Rightarrow> string" where
  "version_path org environ name version = policies_path org environ name @ ''/'' @ url_quote version"

section \<open>Operations\<close>

definition client_publish_policy ::
    "'z plane_client \<Rightarrow> utc_text \<Rightarrow> org_id \<Rightarrow> string \<Rightarrow> env_name \<Rightarrow> policy_version \<Rightarrow> pydict \<Rightarrow> subject_id \<Rightarrow> string \<Rightarrow> (policy_bundle, 'z) eff" where
  "client_publish_policy hc now org name environ version policy created_by key =
     receiving hc now (client_request hc ''POST'' (version_path org environ name version)
       (Some [(''policy'', PDict policy), (''created_by'', PStr created_by), (''signer_key_id'', PStr key)]) [])"

definition client_activate_policy ::
    "'z plane_client \<Rightarrow> utc_text \<Rightarrow> org_id \<Rightarrow> string \<Rightarrow> env_name \<Rightarrow> policy_version \<Rightarrow> int option \<Rightarrow> (policy_bundle, 'z) eff" where
  "client_activate_policy hc now org name environ version expected =
     receiving hc now (client_request hc ''POST'' (version_path org environ name version @ ''/activate'') (Some []) (if_match_header expected))"

definition client_promote_policy ::
    "'z plane_client \<Rightarrow> utc_text \<Rightarrow> org_id \<Rightarrow> string \<Rightarrow> env_name \<Rightarrow> policy_version \<Rightarrow> env_name \<Rightarrow> policy_version \<Rightarrow> bool \<Rightarrow> (policy_bundle, 'z) eff" where
  "client_promote_policy hc now org name source_environ source_version target_environ target_version act =
     receiving hc now (client_request hc ''POST'' (version_path org source_environ name source_version @ ''/promote/'' @ url_quote target_environ)
       (Some [(''target_version'', PStr target_version), (''activate'', PBool act)]) [])"

definition client_start_rollout ::
    "'z plane_client \<Rightarrow> org_id \<Rightarrow> string \<Rightarrow> env_name \<Rightarrow> policy_version \<Rightarrow> int \<Rightarrow> string \<Rightarrow> (json, 'z) eff" where
  "client_start_rollout hc org name environ candidate percentage seed =
     client_request hc ''POST'' (version_path org environ name candidate @ ''/rollout'')
       (Some [(''candidate_percentage'', PInt percentage), (''seed'', PStr seed)]) []"

definition client_cancel_rollout :: "'z plane_client \<Rightarrow> org_id \<Rightarrow> string \<Rightarrow> env_name \<Rightarrow> (unit, 'z) eff" where
  "client_cancel_rollout hc org name environ =
     bnd (client_request hc ''DELETE'' (policies_path org environ name @ ''/rollout'') None []) (\<lambda>_. ret ())"

definition client_register_agent :: "'z plane_client \<Rightarrow> org_id \<Rightarrow> new_agent \<Rightarrow> payload \<Rightarrow> (json, 'z) eff" where
  "client_register_agent hc org a metadata =
     client_request hc ''POST'' (''/v1/organizations/'' @ url_quote org @ ''/agents'')
       (Some [(''agent_id'', PStr (na_agent_id a)), (''environment'', PStr (na_environment a)), (''owner'', PStr (na_owner a)),
         (''purpose'', PStr (na_purpose a)), (''status'', PStr (na_status a)), (''version'', PStr (na_version a)), (''metadata'', str_dict metadata)])
       (if_match_header (na_expected_revision a))"

definition client_active_policy :: "'z plane_client \<Rightarrow> utc_text \<Rightarrow> org_id \<Rightarrow> string \<Rightarrow> env_name \<Rightarrow> (policy_bundle, 'z) eff" where
  "client_active_policy hc now org name environ =
     receiving hc now (client_request hc ''GET'' (policies_path org environ name @ ''/active'') None [])"

definition resolve_path :: "org_id \<Rightarrow> string \<Rightarrow> env_name \<Rightarrow> agent_name \<Rightarrow> string" where
  "resolve_path org name environ agent = policies_path org environ name @ ''/resolve?agent_id='' @ quote_plus agent"

definition client_policy_for_agent :: "'z plane_client \<Rightarrow> utc_text \<Rightarrow> org_id \<Rightarrow> string \<Rightarrow> env_name \<Rightarrow> agent_name \<Rightarrow> (policy_bundle, 'z) eff" where
  "client_policy_for_agent hc now org name environ agent =
     receiving hc now (client_request hc ''GET'' (resolve_path org name environ agent) None [])"

definition client_runtime_policy :: "'z plane_client \<Rightarrow> utc_text \<Rightarrow> org_id \<Rightarrow> string \<Rightarrow> env_name \<Rightarrow> (policy, 'z) eff" where
  "client_runtime_policy hc now org name environ =
     bnd (client_active_policy hc now org name environ) (\<lambda>b.
       lift (policy_from_mapping (cr_float (hc_crypto hc)) (cr_repr (hc_crypto hc)) (name @ ''@'' @ pb_version b) (jdict (pb_policy b))))"

definition client_heartbeat ::
    "'z plane_client \<Rightarrow> org_id \<Rightarrow> agent_name \<Rightarrow> env_name \<Rightarrow> string \<Rightarrow> policy_version \<Rightarrow> string \<Rightarrow> int option \<Rightarrow> (json, 'z) eff" where
  "client_heartbeat hc org agent environ digest version status expected =
     client_request hc ''POST'' (''/v1/organizations/'' @ url_quote org @ ''/agents/'' @ url_quote agent @ ''/'' @ url_quote environ @ ''/heartbeat'')
       (Some [(''policy_digest'', PStr digest), (''version'', PStr version), (''status'', PStr status)]) (if_match_header expected)"

end
