(* ===== verification/Enterprise.thy ===== *)
theory Enterprise
  imports Plane_Client
begin

text \<open>
  \<^verbatim>\<open>agent_roi/enterprise/runtime.py\<close>: the runner that takes its controls from a policy bundle of the control plane and reports to it before
  and after a run.  Its client is any object with the methods of \<^verbatim>\<open>ControlPlaneClient\<close>, over a state \<open>'z\<close>: the HTTP client, or the client with
  a verified cache in front of it.  The keyword arguments for the runner are a record of which the guardrails and the decision policy
  are not read.  A policy is a dictionary that came from JSON.
\<close>

section \<open>Clients\<close>

record 'z control_client =
  cc_policy_for_agent :: "(org_id \<Rightarrow> string \<Rightarrow> env_name \<Rightarrow> agent_name \<Rightarrow> (policy_bundle, 'z) eff) option"
  cc_active_policy :: "org_id \<Rightarrow> string \<Rightarrow> env_name \<Rightarrow> (policy_bundle, 'z) eff"
  cc_heartbeat :: "org_id \<Rightarrow> agent_name \<Rightarrow> env_name \<Rightarrow> string \<Rightarrow> policy_version \<Rightarrow> string \<Rightarrow> (unit, 'z) eff"

definition http_control_client :: "'z plane_client \<Rightarrow> utc_text \<Rightarrow> 'z control_client" where
  "http_control_client hc now =
     \<lparr>cc_policy_for_agent = Some (client_policy_for_agent hc now), cc_active_policy = client_active_policy hc now,
      cc_heartbeat = (\<lambda>org agent environ digest version status. bnd (client_heartbeat hc org agent environ digest version status None) (\<lambda>_. ret ()))\<rparr>"

text \<open>\<^verbatim>\<open>CachedControlPlaneClient\<close>, with the readings of the clock when it saves and when it loads; its state is that of the HTTP client and the
  cache directory.\<close>

definition cached_fetch ::
    "crypto \<Rightarrow> policy_cache \<Rightarrow> int \<Rightarrow> int \<Rightarrow> utc_text \<Rightarrow> bool \<Rightarrow> (policy_bundle, 'z) eff \<Rightarrow> org_id \<Rightarrow> string \<Rightarrow> env_name \<Rightarrow> agent_name
     \<Rightarrow> (policy_bundle, 'z \<times> (string \<rightharpoonup> json)) eff" where
  "cached_fetch cr pc now1 now2 now allow_stale f org name environ agent zf =
     (case zf of (z, files) \<Rightarrow> (case f z of (answer, z') \<Rightarrow>
        (case cached_policy cr pc now1 now2 now allow_stale answer org name environ agent files of (r, files') \<Rightarrow> (r, z', files'))))"

definition cached_control_client ::
    "crypto \<Rightarrow> policy_cache \<Rightarrow> int \<Rightarrow> int \<Rightarrow> bool \<Rightarrow> 'z plane_client \<Rightarrow> utc_text \<Rightarrow> ('z \<times> (string \<rightharpoonup> json)) control_client" where
  "cached_control_client cr pc now1 now2 allow_stale hc now =
     \<lparr>cc_policy_for_agent = Some (\<lambda>org name environ agent.
        cached_fetch cr pc now1 now2 now allow_stale (client_policy_for_agent hc now org name environ agent) org name environ agent),
      cc_active_policy = (\<lambda>org name environ.
        cached_fetch cr pc now1 now2 now allow_stale (client_active_policy hc now org name environ) org name environ []),
      cc_heartbeat = (\<lambda>org agent environ digest version status (z, files).
        case client_heartbeat hc org agent environ digest version status None z of (r, z') \<Rightarrow> (ebind r (\<lambda>_. Inr ()), z', files))\<rparr>"

section \<open>The runner\<close>

record ('w, 'a, 'k, 'z) enterprise_runner =
  en_runner :: "('w, 'a, 'k) runner"
  en_client :: "'z control_client"
  en_bundle :: policy_bundle
  en_fail_closed :: bool

definition enterprise_init ::
    "crypto \<Rightarrow> pyval option \<Rightarrow> ('w, 'a, 'k) runner \<Rightarrow> 'z control_client \<Rightarrow> policy_bundle \<Rightarrow> bool \<Rightarrow> exc + ('w, 'a, 'k, 'z) enterprise_runner" where
  "enterprise_init cr timeout a client b fail_closed =
     (let fr = cr_float cr; orr = cr_repr cr in
      ebind (policy_from_mapping fr orr (pb_name b @ ''@'' @ pb_version b) (jdict (pb_policy b))) (\<lambda>pol.
      ebind (policy_guardrails pol) (\<lambda>g.
      ebind (policy_decision fr orr pol) (\<lambda>dp.
      ebind (runner_init (digest_value (cr_sha cr) fr orr) timeout (a\<lparr>rn_guardrails := g, rn_decision_policy := dp\<rparr>)) (\<lambda>r.
      Inr \<lparr>en_runner = r, en_client = client, en_bundle = b, en_fail_closed = fail_closed\<rparr>)))))"

definition from_control_plane ::
    "crypto \<Rightarrow> pyval option \<Rightarrow> ('w, 'a, 'k) runner \<Rightarrow> 'z control_client \<Rightarrow> org_id \<Rightarrow> env_name \<Rightarrow> agent_name \<Rightarrow> string \<Rightarrow> bool
     \<Rightarrow> (('w, 'a, 'k, 'z) enterprise_runner, 'z) eff" where
  "from_control_plane cr timeout a client org environ agent policy_name fail_closed =
     bnd (case cc_policy_for_agent client of
            Some fetch \<Rightarrow> fetch org policy_name environ agent
          | None \<Rightarrow> cc_active_policy client org policy_name environ) (\<lambda>b.
       lift (enterprise_init cr timeout (a\<lparr>rn_organization_id := org, rn_environment := environ, rn_agent_id := agent,
         rn_metadata := dict_merge [(''policy_version'', PStr (pb_version b))] (rn_metadata a)\<rparr>) client b fail_closed))"

text \<open>The state is the list of heartbeat errors and the state of the client.\<close>

type_synonym 'z reporting = "string list \<times> 'z"

definition enterprise_heartbeat :: "policy_version \<Rightarrow> ('w, 'a, 'k, 'z) enterprise_runner \<Rightarrow> string \<Rightarrow> (unit, 'z reporting) eff" where
  "enterprise_heartbeat sdk_version er status hz =
     (let r = en_runner er in
      case cc_heartbeat (en_client er) (rn_organization_id r) (rn_agent_id r) (rn_environment r) (rn_policy_digest r) sdk_version status (snd hz) of
        (Inr _, z') \<Rightarrow> (Inr (), fst hz, z')
      | (Inl e, z') \<Rightarrow> if \<not> is_Exception e then (Inl e, fst hz, z')
          else (if en_fail_closed er then Inl e else Inr (), fst hz @ [http_detail e], z'))"

text \<open>\<^verbatim>\<open>run\<close> and \<^verbatim>\<open>arun\<close>, around the inherited method.\<close>

definition reported_run ::
    "policy_version \<Rightarrow> ('w, 'a, 'k, 'z) enterprise_runner \<Rightarrow> (('a, 'k) runner_log \<Rightarrow> ('w, 't) sys \<Rightarrow> (exc + sentinel_result) \<times> ('a, 'k) runner_log \<times> ('w, 't) sys)
     \<Rightarrow> 'z reporting \<Rightarrow> ('a, 'k) runner_log \<Rightarrow> ('w, 't) sys \<Rightarrow> (exc + sentinel_result) \<times> 'z reporting \<times> ('a, 'k) runner_log \<times> ('w, 't) sys" where
  "reported_run sdk_version er inherited hz L s =
     (case enterprise_heartbeat sdk_version er ''running'' hz of
        (Inl e, hz1) \<Rightarrow> (Inl e, hz1, L, s)
      | (Inr _, hz1) \<Rightarrow> (case inherited L s of
          (Inl e, L', s') \<Rightarrow>
            if \<not> is_Exception e then (Inl e, hz1, L', s')
            else (case enterprise_heartbeat sdk_version er ''error'' hz1 of (Inl e', hz2) \<Rightarrow> (Inl e', hz2, L', s') | (Inr _, hz2) \<Rightarrow> (Inl e, hz2, L', s'))
        | (Inr x, L', s') \<Rightarrow>
            (case enterprise_heartbeat sdk_version er ''production'' hz1 of (Inl e', hz2) \<Rightarrow> (Inl e', hz2, L', s') | (Inr _, hz2) \<Rightarrow> (Inr x, hz2, L', s'))))"

definition enterprise_run ::
    "policy_version \<Rightarrow> host \<Rightarrow> ('w, 'a, 'k, 'z) enterprise_runner \<Rightarrow> ('w, 't) env \<Rightarrow> uuid_text \<Rightarrow> uuid_text \<Rightarrow> int \<Rightarrow> nat option \<Rightarrow> 'w agent_fn \<Rightarrow> pyval \<Rightarrow> confidence_inputs option
     \<Rightarrow> 'z reporting \<Rightarrow> ('a, 'k) runner_log \<Rightarrow> ('w, 't) sys \<Rightarrow> (exc + sentinel_result) \<times> 'z reporting \<times> ('a, 'k) runner_log \<times> ('w, 't) sys" where
  "enterprise_run sdk_version h er env corr run ms alarm f input confidence =
     reported_run sdk_version er (runner_run h (en_runner er) env corr run ms alarm f input confidence)"

definition enterprise_arun ::
    "policy_version \<Rightarrow> host \<Rightarrow> ('w, 'a, 'k, 'z) enterprise_runner \<Rightarrow> ('w, 't) env \<Rightarrow> uuid_text \<Rightarrow> uuid_text \<Rightarrow> int \<Rightarrow> nat option \<Rightarrow> 'w agent_fn \<Rightarrow> pyval \<Rightarrow> confidence_inputs option
     \<Rightarrow> 'z reporting \<Rightarrow> ('a, 'k) runner_log \<Rightarrow> ('w, 't) sys \<Rightarrow> (exc + sentinel_result) \<times> 'z reporting \<times> ('a, 'k) runner_log \<times> ('w, 't) sys" where
  "enterprise_arun sdk_version h er env corr run ms alarm f input confidence =
     reported_run sdk_version er (runner_arun h (en_runner er) env corr run ms alarm f input confidence)"

end
