(* ===== verification/Enterprise_Laws.thy ===== *)
theory Enterprise_Laws
  imports Enterprise Control_Laws Runner_Laws
begin

text \<open>
  What a runner under the control plane guarantees: it runs within the limits of a signed document, its heartbeats do not change
  what a run does, and its client writes addresses from which every name can be read back.
\<close>

section \<open>Addresses\<close>

lemma prefix_code_inject:
  assumes "\<And>x y u v. P x \<Longrightarrow> P y \<Longrightarrow> f x @ u = f y @ v \<Longrightarrow> x = y" "\<And>x. P x \<Longrightarrow> f x \<noteq> []"
    and "list_all P xs" "list_all P ys" "concat (map f xs) = concat (map f ys)"
  shows "xs = ys"
  using assms(3-5)
proof (induction xs arbitrary: ys)
  case Nil
  then show ?case using assms(2) by (cases ys) auto
next
  case (Cons x xs)
  then obtain y ys' where ys: "ys = y # ys'" using assms(2) by (cases ys) auto
  then have "x = y" using Cons.prems assms(1) [of x y "concat (map f xs)" "concat (map f ys')"] by simp
  then show ?case using Cons ys by simp
qed

lemma utf8_prefix:
  assumes "utf8 c @ u = utf8 d @ v"
  shows "c = d"
proof -
  have "(of_char c :: nat) = of_char d"
  proof (cases "(of_char c :: nat) < 128"; cases "(of_char d :: nat) < 128")
    assume "\<not> (of_char c :: nat) < 128" "\<not> (of_char d :: nat) < 128"
    then have "(of_char c :: nat) div 64 = of_char d div 64" "(of_char c :: nat) mod 64 = of_char d mod 64" using assms by (auto simp: utf8_def Let_def)
    then show ?thesis by (metis div_mult_mod_eq)
  qed (use assms in \<open>auto simp: utf8_def Let_def\<close>)
  then show ?thesis by simp
qed

lemma utf8_bytes: "list_all (\<lambda>n. n < 256) (concat (map utf8 s))"
proof -
  have "list_all (\<lambda>n. n < 256) (utf8 c)" for c
  proof -
    have "(of_char c :: nat) \<in> {0..<256}" unfolding range_nat_of_char [symmetric] by (rule rangeI)
    then have "(of_char c :: nat) div 64 < 4" by (simp add: less_mult_imp_div_less)
    moreover have "(of_char c :: nat) mod 64 < 64" by simp
    ultimately show ?thesis unfolding utf8_def Let_def by auto
  qed
  then show ?thesis by (induction s) auto
qed

lemma quote_digit_inject: "i < 16 \<Longrightarrow> j < 16 \<Longrightarrow> quote_digit i = quote_digit j \<Longrightarrow> i = j"
  unfolding quote_digit_def by (rule nth_eq_iff_index_eq [THEN iffD1, of "''0123456789ABCDEF''"]) simp_all

lemma quote_byte_prefix:
  assumes "m < 256" "n < 256" "quote_byte m @ u = quote_byte n @ v"
  shows "m = n"
proof -
  have pct: "char_of k \<noteq> CHR 0x25" if "unreserved k" "k < 256" for k :: nat
  proof
    assume "char_of k = CHR 0x25"
    then have "(of_char (char_of k :: char) :: nat) = of_char (CHR 0x25)" by simp
    then have "k = 37" using that(2) by simp
    then show False using that(1) by (simp add: unreserved_def)
  qed
  show ?thesis
  proof (cases "unreserved m"; cases "unreserved n")
    assume "\<not> unreserved m" "\<not> unreserved n"
    then have "quote_digit (m div 16) = quote_digit (n div 16)" "quote_digit (m mod 16) = quote_digit (n mod 16)" using assms(3) by (auto simp: quote_byte_def)
    then have "m div 16 = n div 16" "m mod 16 = n mod 16" using quote_digit_inject assms(1,2) by (simp_all add: less_mult_imp_div_less)
    then show ?thesis by (metis div_mult_mod_eq)
  next
    assume "unreserved m" "unreserved n"
    then have "(char_of m :: char) = char_of n" using assms(3) by (simp add: quote_byte_def)
    then have "(of_char (char_of m :: char) :: nat) = of_char (char_of n :: char)" by simp
    then show ?thesis using assms(1,2) by simp
  qed (use assms pct in \<open>auto simp: quote_byte_def\<close>)
qed

lemma utf8_text_inject:
  assumes "concat (map utf8 s) = concat (map utf8 t)"
  shows "s = t"
proof (rule prefix_code_inject [where f = utf8 and P = "\<lambda>_. True"])
  show "concat (map utf8 s) = concat (map utf8 t)" by (fact assms)
  show "utf8 c @ u = utf8 d @ v \<Longrightarrow> c = d" for c d u v by (rule utf8_prefix)
  show "utf8 c \<noteq> []" for c by (simp add: utf8_def Let_def)
qed (simp_all add: list_all_iff)

lemma url_quote_inject:
  assumes "url_quote s = url_quote t"
  shows "s = t"
proof (rule utf8_text_inject, rule prefix_code_inject [where f = quote_byte and P = "\<lambda>n. n < 256"])
  show "concat (map quote_byte (concat (map utf8 s))) = concat (map quote_byte (concat (map utf8 t)))" using assms by (simp add: url_quote_def)
  show "m < 256 \<Longrightarrow> n < 256 \<Longrightarrow> quote_byte m @ u = quote_byte n @ v \<Longrightarrow> m = n" for m n u v by (rule quote_byte_prefix)
  show "quote_byte n \<noteq> []" for n by (simp add: quote_byte_def)
qed (rule utf8_bytes)+

lemma quote_digit_unreserved: "i < 16 \<Longrightarrow> unreserved (of_char (quote_digit i))"
proof -
  assume "i < 16"
  then have "quote_digit i \<in> set ''0123456789ABCDEF''" unfolding quote_digit_def by (intro nth_mem) simp
  moreover have "list_all (\<lambda>d. unreserved (of_char d)) ''0123456789ABCDEF''" by (simp add: unreserved_def)
  then have "\<forall>d\<in>set ''0123456789ABCDEF''. unreserved (of_char d)" unfolding list_all_iff .
  ultimately show ?thesis by (rule bspec [rotated])
qed

lemma quote_byte_chars:
  assumes "n < 256" "c \<in> set (quote_byte n)"
  shows "c = CHR 0x25 \<or> unreserved (of_char c)"
proof (cases "unreserved n")
  case True
  then show ?thesis using assms by (simp add: quote_byte_def)
next
  case False
  have "n div 16 < 16" "n mod 16 < 16" using assms(1) by (simp_all add: less_mult_imp_div_less)
  from this [THEN quote_digit_unreserved] show ?thesis using assms(2) False by (auto simp: quote_byte_def)
qed

lemma reserved_char: "c \<in> {CHR ''/'', CHR ''?'', CHR ''+''} \<Longrightarrow> \<not> (c = CHR 0x25 \<or> unreserved (of_char c))"
  by (auto simp: unreserved_def)

lemma url_quote_separators: "c \<in> {CHR ''/'', CHR ''?'', CHR ''+''} \<Longrightarrow> c \<notin> set (url_quote s)"
  using utf8_bytes [of s] quote_byte_chars reserved_char unfolding url_quote_def list_all_iff set_concat set_map by blast

lemma quote_plus_prefix:
  assumes "m < 256" "n < 256" "quote_plus_byte m @ u = quote_plus_byte n @ v"
  shows "m = n"
proof -
  have plus: "quote_byte k @ w \<noteq> ''+'' @ w'" if "k < 256" for k w w'
  proof
    assume "quote_byte k @ w = ''+'' @ w'"
    then have "CHR ''+'' \<in> set (quote_byte k)" by (cases "quote_byte k") (auto simp: quote_byte_def split: if_splits)
    then show False using quote_byte_chars [OF that] reserved_char by blast
  qed
  show ?thesis
  proof (cases "m = 32"; cases "n = 32")
    assume "m \<noteq> 32" "n \<noteq> 32"
    then show ?thesis using assms(3) by (intro quote_byte_prefix [OF assms(1,2)]) (simp add: quote_plus_byte_def)
  qed (use assms plus [OF assms(1)] plus [OF assms(2)] in \<open>simp_all add: quote_plus_byte_def eq_commute [of "CHR ''+'' # _"]\<close>)
qed

lemma quote_plus_inject:
  assumes "quote_plus s = quote_plus t"
  shows "s = t"
proof (rule utf8_text_inject, rule prefix_code_inject [where f = quote_plus_byte and P = "\<lambda>n. n < 256"])
  show "concat (map quote_plus_byte (concat (map utf8 s))) = concat (map quote_plus_byte (concat (map utf8 t)))" using assms by (simp add: quote_plus_def)
  show "m < 256 \<Longrightarrow> n < 256 \<Longrightarrow> quote_plus_byte m @ u = quote_plus_byte n @ v \<Longrightarrow> m = n" for m n u v by (rule quote_plus_prefix)
  show "quote_plus_byte n \<noteq> []" for n by (simp add: quote_plus_byte_def quote_byte_def)
qed (rule utf8_bytes)+

lemma segment_inject:
  assumes "url_quote s @ CHR ''/'' # u = url_quote t @ CHR ''/'' # v"
  shows "s = t \<and> u = v"
proof -
  have "takeWhile (\<lambda>c. c \<noteq> CHR ''/'') (url_quote x @ CHR ''/'' # w) = url_quote x" for x w
    using url_quote_separators [of "CHR ''/''" x] by (subst takeWhile_append2) auto
  then have "url_quote s = url_quote t" using assms by metis
  then show ?thesis using assms url_quote_inject by simp
qed

text \<open>Every name can be read back out of the address of a request: whatever characters they contain, two requests for the policy of an agent
  have the same address only if organization, policy, environment and agent are the same.\<close>

theorem resolve_path_unambiguous:
  assumes "resolve_path org name environ agent = resolve_path org' name' environ' agent'"
  shows "org = org' \<and> name = name' \<and> environ = environ' \<and> agent = agent'"
proof -
  have "url_quote org @ CHR ''/'' # ''policies/'' @ url_quote environ @ ''/'' @ url_quote name @ ''/resolve?agent_id='' @ quote_plus agent
      = url_quote org' @ CHR ''/'' # ''policies/'' @ url_quote environ' @ ''/'' @ url_quote name' @ ''/resolve?agent_id='' @ quote_plus agent'"
    using assms by (simp add: resolve_path_def policies_path_def)
  from segment_inject [OF this] have org: "org = org'"
    and rest: "url_quote environ @ CHR ''/'' # url_quote name @ CHR ''/'' # ''resolve?agent_id='' @ quote_plus agent
      = url_quote environ' @ CHR ''/'' # url_quote name' @ CHR ''/'' # ''resolve?agent_id='' @ quote_plus agent'" by simp_all
  from segment_inject [OF rest] have environ: "environ = environ'"
    and rest': "url_quote name @ CHR ''/'' # ''resolve?agent_id='' @ quote_plus agent = url_quote name' @ CHR ''/'' # ''resolve?agent_id='' @ quote_plus agent'"
    by simp_all
  from segment_inject [OF rest'] have "name = name'" "quote_plus agent = quote_plus agent'" by simp_all
  then show ?thesis using org environ quote_plus_inject by simp
qed

theorem resolve_path_unambiguous_witness:
  "resolve_path ''a/b'' ''c'' ''d'' ''e'' = resolve_path ''a/b'' ''c'' ''d'' ''e'' \<and> resolve_path ''a/b'' ''c'' ''d'' ''e'' \<noteq> resolve_path ''a'' ''b/c'' ''d'' ''e''"
  using resolve_path_unambiguous [of "''a/b''" "''c''" "''d''" "''e''" "''a''" "''b/c''" "''d''" "''e''"] by auto

section \<open>Signed sources of policies\<close>

text \<open>What a runner relies on: a client hands out only bundles that its signer verified, with policies that are JSON objects.\<close>

definition verified_by :: "crypto \<Rightarrow> signer \<Rightarrow> policy_bundle \<Rightarrow> bool" where
  "verified_by cr sg b \<longleftrightarrow> bundle_verify (cr_float cr) (cr_repr cr) (cr_sha cr) b sg = Inr () \<and> wf_json (JObj (pb_policy b))"

text \<open>The counters of a state are within the limits that a document states.\<close>

definition within_document :: "json_object \<Rightarrow> ('w, 't) sys \<Rightarrow> bool" where
  "within_document policy s \<longleftrightarrow> (\<exists>gm n m v c. map_of policy ''guardrails'' = Some (JObj gm)
     \<and> map_of gm ''max_steps'' = Some (JInt n) \<and> map_of gm ''max_tool_calls'' = Some (JInt m) \<and> map_of gm ''max_cost_usd'' = Some v
     \<and> py_float (py_of_json v) = Inr c \<and> steps s \<le> n \<and> tool_calls s \<le> m \<and> fle (cost_usd s) c)"

lemma enterprise_init_Inr:
  assumes "enterprise_init cr timeout a client b fail_closed = Inr er" "wf_json (JObj (pb_policy b))"
  obtains gm g where "en_bundle er = b" "en_client er = client" "en_fail_closed er = fail_closed" "rn_guardrails (en_runner er) = g"
    "map_of (pb_policy b) ''guardrails'' = Some (JObj gm)" "wf_guardrails g" "map_of gm ''max_steps'' = Some (JInt (max_steps g))"
    "map_of gm ''max_tool_calls'' = Some (JInt (max_tool_calls g))"
    "\<exists>v. map_of gm ''max_cost_usd'' = Some v \<and> py_float (py_of_json v) = Inr (max_cost_usd g)" "allowed_tools g = document_tools gm"
proof -
  obtain pol g dp r where pol: "policy_from_mapping (cr_float cr) (cr_repr cr) (pb_name b @ ''@'' @ pb_version b) (jdict (pb_policy b)) = Inr pol"
    and g: "policy_guardrails pol = Inr g"
    and r: "runner_init (digest_value (cr_sha cr) (cr_float cr) (cr_repr cr)) timeout (a\<lparr>rn_guardrails := g, rn_decision_policy := dp\<rparr>) = Inr r"
    and er: "er = \<lparr>en_runner = r, en_client = client, en_bundle = b, en_fail_closed = fail_closed\<rparr>"
    using assms(1) by (auto simp: enterprise_init_def Let_def ebind_Inr)
  have rg: "rn_guardrails r = g" using r by (auto simp: runner_init_def Let_def ebind_Inr split: if_splits)
  obtain gm g' where sec: "map_of (pb_policy b) ''guardrails'' = Some (JObj gm)"
    and req: "require_int_like (jdict gm) ''policy.guardrails'' ''max_steps'' 1 True = Inr []"
      "require_int_like (jdict gm) ''policy.guardrails'' ''max_tool_calls'' 0 True = Inr []"
      "require_number (jdict gm) ''policy.guardrails'' ''max_cost_usd'' (Some (Fin 0)) None True = Inr []"
      "validate_allowed_tools (jdict gm) = []"
    and g': "guardrails_of (normal_guardrails (cr_float cr) (cr_repr cr) gm) = Inr g'" "policy_guardrails pol = Inr g'"
    by (rule accepted_sections [OF pol assms(2)])
  have "g' = g" using g g'(2) by simp
  with that [of g gm] sec rg er document_guardrails [OF g'(1) req] show thesis by simp
qed

lemma reported_cases:
  assumes "reported_run v er inherited hz L s = (x, hz', L', s')"
  obtains "L' = L" "s' = s" | x' where "inherited L s = (x', L', s')"
  using assms unfolding reported_run_def by (auto split: prod.splits sum.splits if_splits)

text \<open>A run by \<^verbatim>\<open>run\<close> or \<^verbatim>\<open>arun\<close> of the enterprise runner.\<close>

definition enterprise_executed where
  "enterprise_executed v h er env corr run ms alarm f input confidence hz L s out \<longleftrightarrow>
     enterprise_run v h er env corr run ms alarm f input confidence hz L s = out
     \<or> enterprise_arun v h er env corr run ms alarm f input confidence hz L s = out"

lemma enterprise_executed_cases:
  assumes "enterprise_executed v h er env corr run ms alarm f input confidence hz L s (x, hz', L', s')"
  obtains "s' = s" | x' where "executed h (en_runner er) env corr run ms alarm f input confidence L s (x', L', s')"
proof (cases "enterprise_run v h er env corr run ms alarm f input confidence hz L s = (x, hz', L', s')")
  case True
  then show thesis unfolding enterprise_run_def
  proof (cases rule: reported_cases)
    case (2 x')
    then show thesis using that by (cases "af_coroutine f") (auto simp: runner_run_def executed_def)
  qed (use that in auto)
next
  case False
  then have "enterprise_arun v h er env corr run ms alarm f input confidence hz L s = (x, hz', L', s')" using assms by (simp add: enterprise_executed_def)
  then show thesis unfolding enterprise_arun_def by (cases rule: reported_cases) (use that in \<open>auto simp: executed_def\<close>)
qed

lemma built_within_document:
  assumes "enterprise_init cr timeout a client b fail_closed = Inr er" "wf_json (JObj (pb_policy b))"
    and "enterprise_executed v h er env corr run ms alarm f input confidence hz L s (x, hz', L', s')"
  shows "s' = s \<or> within_document (pb_policy b) s'"
proof -
  obtain gm g where rg: "rn_guardrails (en_runner er) = g" and "map_of (pb_policy b) ''guardrails'' = Some (JObj gm)" and wf: "wf_guardrails g"
    and "map_of gm ''max_steps'' = Some (JInt (max_steps g))" "map_of gm ''max_tool_calls'' = Some (JInt (max_tool_calls g))"
    and "\<exists>v. map_of gm ''max_cost_usd'' = Some v \<and> py_float (py_of_json v) = Inr (max_cost_usd g)"
    by (rule enterprise_init_Inr [OF assms(1,2)])
  moreover have "within_limits g (steps s') (tool_calls s') (cost_usd s')" if "executed h (en_runner er) env corr run ms alarm f input confidence L s (x', L', s')" for x'
    using executed_in_limits [OF wf [folded rg] that] by (simp add: in_limits_def rg)
  ultimately show ?thesis using enterprise_executed_cases [OF assms(3)] unfolding within_document_def within_limits_def by (metis (no_types))
qed

locale signed_source =
  fixes cr :: crypto and sg :: signer and trusted :: "'z \<Rightarrow> bool" and client :: "'z control_client"
  assumes per_agent: "cc_policy_for_agent client = Some fetch \<Longrightarrow> trusted z \<Longrightarrow> fetch org name environ agent z = (Inr b, z') \<Longrightarrow> verified_by cr sg b"
    and active: "trusted z \<Longrightarrow> cc_active_policy client org name environ z = (Inr b, z') \<Longrightarrow> verified_by cr sg b"
begin

lemma built_on_verified:
  assumes "trusted z" "from_control_plane cr timeout a client org environ agent policy_name fail_closed z = (Inr er, z')"
  shows "verified_by cr sg (en_bundle er) \<and> (\<exists>a'. enterprise_init cr timeout a' client (en_bundle er) fail_closed = Inr er)"
proof -
  obtain b where fetched: "(case cc_policy_for_agent client of Some fetch \<Rightarrow> fetch org policy_name environ agent
      | None \<Rightarrow> cc_active_policy client org policy_name environ) z = (Inr b, z')"
    and init: "\<exists>a'. enterprise_init cr timeout a' client b fail_closed = Inr er"
    using assms(2) unfolding from_control_plane_def by (auto simp: bnd_def lift_def split: prod.splits sum.splits)
  have "verified_by cr sg b" using fetched per_agent [OF _ assms(1)] active [OF assms(1)] by (cases "cc_policy_for_agent client") auto
  moreover have "en_bundle er = b" using init by (auto simp: enterprise_init_def Let_def ebind_Inr)
  ultimately show ?thesis using init by simp
qed

lemma signed_limits:
  assumes "trusted z" "from_control_plane cr timeout a client org environ agent policy_name fail_closed z = (Inr er, z')"
    and "enterprise_executed v h er env corr run ms alarm f input confidence hz L s (x, hz', L', s')"
  shows "verified_by cr sg (en_bundle er) \<and> (s' = s \<or> within_document (pb_policy (en_bundle er)) s')"
proof -
  obtain a' where built: "verified_by cr sg (en_bundle er)" "enterprise_init cr timeout a' client (en_bundle er) fail_closed = Inr er"
    using built_on_verified [OF assms(1,2)] by blast
  moreover have "wf_json (JObj (pb_policy (en_bundle er)))" using built(1) unfolding verified_by_def by (rule conjunct2)
  ultimately show ?thesis using built_within_document [OF built(2) _ assms(3)] by simp
qed

end

text \<open>What the parser of JSON promises: objects have distinct keys.\<close>

definition parses_json :: "(string \<Rightarrow> exc + json) \<Rightarrow> bool" where
  "parses_json loads \<longleftrightarrow> (\<forall>t j. loads t = Inr j \<longrightarrow> wf_json j)"

lemma wf_entry: "wf_json (JObj d) \<Longrightarrow> jitem k d = Inr j \<Longrightarrow> wf_json j"
  by (auto simp: jitem_def list_all_iff split: option.splits dest!: map_of_SomeD)

lemma wf_updated:
  assumes "wf_json (JObj d)" "wf_json v"
  shows "wf_json (JObj (AList.update k v d))"
proof -
  have "set (AList.update k v d) \<subseteq> insert (k, v) (set d)" by (induction d) auto
  then show ?thesis using assms distinct_update [of d k v] by (auto simp: list_all_iff)
qed

lemma wf_dict_pairs: "list_all wf_json xs \<Longrightarrow> dict_pairs xs = Some d \<Longrightarrow> wf_json (JObj d)"
proof (induction xs arbitrary: d rule: dict_pairs.induct)
  case 1
  then show ?case by simp
qed (auto simp del: wf_json.simps(3) simp: wf_updated)

lemma wf_jdict_of: "wf_json j \<Longrightarrow> jdict_of j = Inr d \<Longrightarrow> wf_json (JObj d)"
proof (cases j)
  case (JList xs)
  then show "wf_json j \<Longrightarrow> jdict_of j = Inr d \<Longrightarrow> wf_json (JObj d)" using wf_dict_pairs [of "rev xs" d] by (auto simp: jdict_of_def split: option.splits)
next
  case (JStr t)
  then show "wf_json j \<Longrightarrow> jdict_of j = Inr d \<Longrightarrow> wf_json (JObj d)" by (cases t) (auto simp: jdict_of_def)
qed (auto simp: jdict_of_def)

lemma from_dict_wf:
  assumes "bundle_from_dict fr orr now d = Inr b" "wf_json (JObj d)"
  shows "wf_json (JObj (pb_policy b))"
proof -
  obtain j where "jitem ''policy'' d = Inr j" "jdict_of j = Inr (pb_policy b)"
    using assms(1) by (auto simp: bundle_from_dict_def Let_def ebind_Inr)
  then show ?thesis using wf_entry [OF assms(2)] wf_jdict_of by blast
qed

lemma request_wf: "parses_json (hc_loads hc) \<Longrightarrow> client_request hc verb path body extra z = (Inr j, z') \<Longrightarrow> wf_json j"
  by (auto simp: client_request_def Let_def parses_json_def split: prod.splits http_outcome.splits if_splits)

lemma receiving_Inr:
  assumes "receiving hc now (client_request hc verb path body extra) z = (Inr b, z')" "parses_json (hc_loads hc)"
  shows "wf_json (JObj (pb_policy b)) \<and> (\<forall>sg. hc_signer hc = Some sg \<longrightarrow> verified_by (hc_crypto hc) sg b)"
proof -
  obtain j where j: "client_request hc verb path body extra z = (Inr j, z')" "received_bundle hc now j = Inr b"
    using assms(1) unfolding receiving_def by (auto simp: bnd_def lift_def split: prod.splits sum.splits)
  obtain d where d: "j = JObj d" "bundle_from_dict (cr_float (hc_crypto hc)) (cr_repr (hc_crypto hc)) now d = Inr b"
    and v: "\<And>sg. hc_signer hc = Some sg \<Longrightarrow> bundle_verify (cr_float (hc_crypto hc)) (cr_repr (hc_crypto hc)) (cr_sha (hc_crypto hc)) b sg = Inr ()"
    using j(2) by (auto simp: received_bundle_def Let_def ebind_Inr split: json.splits option.splits)
  have "wf_json (JObj (pb_policy b))" by (rule from_dict_wf [OF d(2) request_wf [OF assms(2) j(1), unfolded d(1)]])
  with v show ?thesis unfolding verified_by_def by blast
qed

lemma receiving_wf:
  assumes "receiving hc now (client_request hc verb path body extra) z = (Inr b, z')" "parses_json (hc_loads hc)"
  shows "wf_json (JObj (pb_policy b))"
  by (rule receiving_Inr [OF assms, THEN conjunct1])

lemma receiving_verified:
  assumes "receiving hc now (client_request hc verb path body extra) z = (Inr b, z')" "parses_json (hc_loads hc)" "hc_signer hc = Some sg"
  shows "verified_by (hc_crypto hc) sg b"
  by (rule receiving_Inr [OF assms(1,2), THEN conjunct2, rule_format, OF assms(3)])

interpretation http_source: signed_source "hc_crypto hc" sg "\<lambda>_. parses_json (hc_loads hc) \<and> hc_signer hc = Some sg" "http_control_client hc now" for hc sg now
  by unfold_locales (auto simp: http_control_client_def client_policy_for_agent_def client_active_policy_def intro: receiving_verified)

text \<open>The cache verifies what it saves and what it loads, whether or not the HTTP client does.\<close>

lemma cached_policy_verified:
  assumes "cached_policy cr pc now1 now2 now allow_stale answer org name environ agent files = (Inr b, files')"
    and "\<And>b. answer = Inr b \<Longrightarrow> wf_json (JObj (pb_policy b))" "\<And>path j. files path = Some j \<Longrightarrow> wf_json j"
  shows "verified_by cr (pc_signer pc) b"
proof -
  have load: "verified_by cr (pc_signer pc) b" if loaded: "cache_load cr pc now2 now org name environ agent allow_stale files = Inr b"
  proof -
    obtain j data j' d where "files (cache_path cr org name environ agent) = Some j" "jdict_of j = Inr data" "jitem ''bundle'' data = Inr j'" "jdict_of j' = Inr d"
      and b: "bundle_from_dict (cr_float cr) (cr_repr cr) now d = Inr b" "bundle_verify (cr_float cr) (cr_repr cr) (cr_sha cr) b (pc_signer pc) = Inr ()"
      using loaded unfolding cache_load_def Let_def by (auto simp: ebind_Inr split: option.splits if_splits)
    then have "wf_json (JObj d)" using assms(3) wf_jdict_of wf_entry by metis
    then show ?thesis unfolding verified_by_def using b(2) from_dict_wf [OF b(1)] by (intro conjI)
  qed
  show ?thesis
  proof (cases answer)
    case (Inl e)
    then show ?thesis using assms(1) load by (auto simp: cached_policy_def Let_def split: if_splits)
  next
    case (Inr b')
    then show ?thesis using assms(1,2) load
      by (auto simp: cached_policy_def Let_def cache_save_def verified_by_def split: if_splits sum.splits prod.splits)
  qed
qed

lemma cached_fetch_verified:
  assumes "cached_fetch cr pc now1 now2 now allow_stale (receiving hc now' (client_request hc verb path body extra)) org name environ agent (z, files) = (Inr b, z')"
    and "parses_json (hc_loads hc)" "\<forall>path j. files path = Some j \<longrightarrow> wf_json j"
  shows "verified_by cr (pc_signer pc) b"
proof -
  obtain answer y where y: "receiving hc now' (client_request hc verb path body extra) z = (answer, y)" by fastforce
  then obtain files' where "cached_policy cr pc now1 now2 now allow_stale answer org name environ agent files = (Inr b, files')"
    using assms(1) by (auto simp: cached_fetch_def split: prod.splits)
  then show ?thesis
  proof (rule cached_policy_verified)
    show "wf_json (JObj (pb_policy b'))" if "answer = Inr b'" for b' using receiving_wf [OF _ assms(2)] y that by metis
    show "wf_json j" if "files q = Some j" for q j using assms(3) that by blast
  qed
qed

interpretation cached_source: signed_source cr "pc_signer pc" "\<lambda>(z, files). parses_json (hc_loads hc) \<and> (\<forall>path j. files path = Some j \<longrightarrow> wf_json j)"
  "cached_control_client cr pc now1 now2 allow_stale hc now" for cr pc hc now1 now2 allow_stale now
  by unfold_locales (auto simp: cached_control_client_def client_policy_for_agent_def client_active_policy_def intro: cached_fetch_verified)

section \<open>Properties\<close>

text \<open>C11: A runner that was set up from the control plane through the caching client, on line or from the cache, runs within the limits of a signed
  document: the bundle it holds carries a signature that the signer of the cache accepts for exactly its organization, name, environment, version
  and policy, and after every run of every agent the steps, tool calls and cost are within the numbers written in that policy, unless a
  refused heartbeat kept the run from starting.\<close>

theorem signed_limits_bind_run:
  assumes "from_control_plane cr timeout a (cached_control_client cr pc now1 now2 allow_stale hc now) org environ agent policy_name fail_closed (z, files) = (Inr er, z')"
    and "parses_json (hc_loads hc)" "\<forall>path j. files path = Some j \<longrightarrow> wf_json j"
    and "enterprise_executed v h er env corr run ms alarm f input confidence hz L s (x, hz', L', s')"
  shows "sg_verify (pc_signer pc) (signing_payload (cr_float cr) (cr_repr cr) (en_bundle er)) (pb_signature (en_bundle er))
    \<and> (s' = s \<or> within_document (pb_policy (en_bundle er)) s')"
proof -
  from assms(2,3) have "case (z, files) of (z, files) \<Rightarrow> parses_json (hc_loads hc) \<and> (\<forall>path j. files path = Some j \<longrightarrow> wf_json j)" by simp
  from cached_source.signed_limits [OF this assms(1,4)] show ?thesis
    by (auto simp: verified_by_def bundle_verify_def Let_def split: if_splits)
qed

text \<open>C36: Heartbeats that may fail do not change a run: when the runner is not told to fail closed, \<^verbatim>\<open>run\<close> gives the result, the audit trail and the
  state of the inherited \<^verbatim>\<open>run\<close>, whatever exceptions the client raises, and keeps at most one text for each of the two heartbeats.\<close>

theorem heartbeats_transparent:
  assumes "\<not> en_fail_closed er" "\<And>org ag en digest ver status z e z'. cc_heartbeat (en_client er) org ag en digest ver status z = (Inl e, z') \<Longrightarrow> is_Exception e"
    and "enterprise_run v h er env corr run ms alarm f input confidence hz L s = (x, hz', L', s')"
  shows "runner_run h (en_runner er) env corr run ms alarm f input confidence L s = (x, L', s')
    \<and> (\<exists>new. fst hz' = fst hz @ new \<and> length new \<le> 2)"
proof -
  have beat: "\<exists>new y. enterprise_heartbeat v er status g = (Inr (), fst g @ new, y) \<and> length new \<le> 1" for status g
    using assms(1,2) by (auto simp: enterprise_heartbeat_def Let_def split: prod.splits sum.splits)
  obtain n1 y1 where b1: "enterprise_heartbeat v er ''running'' hz = (Inr (), fst hz @ n1, y1)" "length n1 \<le> 1" using beat by blast
  obtain n2 y2 where b2: "enterprise_heartbeat v er ''error'' (fst hz @ n1, y1) = (Inr (), (fst hz @ n1) @ n2, y2)" "length n2 \<le> 1"
    using beat [of "''error''" "(fst hz @ n1, y1)"] by auto
  obtain n3 y3 where b3: "enterprise_heartbeat v er ''production'' (fst hz @ n1, y1) = (Inr (), (fst hz @ n1) @ n3, y3)" "length n3 \<le> 1"
    using beat [of "''production''" "(fst hz @ n1, y1)"] by auto
  obtain x0 L0 s0 where r: "runner_run h (en_runner er) env corr run ms alarm f input confidence L s = (x0, L0, s0)" by (metis prod.exhaust)
  show ?thesis
  proof (cases x0)
    case (Inl e)
    then show ?thesis using assms(3) r b1 b2 by (auto simp: enterprise_run_def reported_run_def split: if_splits)
  next
    case (Inr q)
    then show ?thesis using assms(3) r b1 b3 by (auto simp: enterprise_run_def reported_run_def)
  qed
qed

lemma bundle_dict_roundtrip: "bundle_from_dict fr orr now (bundle_to_dict b) = Inr b"
  by (simp add: bundle_from_dict_def bundle_to_dict_def envelope_def jitem_def jget_or_def jstr_def jdict_of_def ebind_def Let_def)

text \<open>C38: The client checks the signature of a bundle and not that it is the bundle it asked for: any bundle signed under the key, of whatever
  organization, name and environment, is accepted for every request that the transport answers with it.\<close>

theorem client_takes_any_signed_bundle:
  assumes "hc_send hc ''GET'' (hc_base_url hc @ resolve_path org name environ agent) (request_headers hc [] False) None z = (Content t, z')"
    and "t \<noteq> []" "hc_loads hc t = Inr (JObj (bundle_to_dict b))" "hc_signer hc = Some sg"
    and "bundle_verify (cr_float (hc_crypto hc)) (cr_repr (hc_crypto hc)) (cr_sha (hc_crypto hc)) b sg = Inr ()"
  shows "client_policy_for_agent hc now org name environ agent z = (Inr b, z')"
  using assms bundle_dict_roundtrip
  by (simp add: client_policy_for_agent_def receiving_def client_request_def received_bundle_def bnd_def lift_def ebind_def Let_def)

section \<open>Witnesses\<close>

definition demo_client :: "policy_bundle \<Rightarrow> unit plane_client" where
  "demo_client b = \<lparr>hc_base_url = ''https://c'', hc_bearer_token = ''t'', hc_signer = Some demo_signer, hc_crypto = demo_crypto,
     hc_send = (\<lambda>_ _ _ _ z. (Content ''x'', z)), hc_loads = (\<lambda>t. if t = ''x'' then Inr (JObj (bundle_to_dict b)) else Inl (ValueError []))\<rparr>"

definition demo_cached_client :: "(unit \<times> (string \<rightharpoonup> json)) control_client" where
  "demo_cached_client = cached_control_client demo_crypto \<lparr>pc_signer = demo_signer, pc_max_stale_seconds = 0\<rparr> 0 0 False (demo_client (demo_bundle ''1'')) ''t''"

lemma demo_bundle_verify: "bundle_verify (cr_float demo_crypto) (cr_repr demo_crypto) (cr_sha demo_crypto) (demo_bundle v) demo_signer = Inr ()"
proof -
  have "pb_signer_key_id (demo_bundle v) = ''k''" by (simp add: demo_bundle_def Let_def)
  then show ?thesis using demo_verifies [of v] by (simp add: verify_bundle_def demo_service_def)
qed

lemma demo_parses: "parses_json (hc_loads (demo_client (demo_bundle v)))"
  using demo_document_wf by (auto simp: parses_json_def demo_client_def bundle_to_dict_def envelope_def demo_bundle_facts split: if_splits)

theorem client_takes_any_signed_bundle_witness:
  "client_policy_for_agent (demo_client (demo_bundle ''1'')) ''t'' ''other'' ''q'' ''dev'' ''g'' () = (Inr (demo_bundle ''1''), ())
   \<and> pb_environment (demo_bundle ''1'') = ''prod''"
proof
  show "client_policy_for_agent (demo_client (demo_bundle ''1'')) ''t'' ''other'' ''q'' ''dev'' ''g'' () = (Inr (demo_bundle ''1''), ())"
    by (rule client_takes_any_signed_bundle [where t = "''x''" and sg = demo_signer]) (simp_all add: demo_client_def demo_bundle_verify)
qed (simp add: demo_bundle_def Let_def)

lemma demo_enterprise: "\<exists>er z'. from_control_plane demo_crypto None demo_runner demo_cached_client ''o'' ''prod'' ''g'' ''p'' False ((), Map.empty) = (Inr er, z')
   \<and> en_client er = demo_cached_client \<and> \<not> en_fail_closed er"
proof -
  let ?b = "demo_bundle ''1''" and ?fr = "cr_float demo_crypto" and ?orr = "cr_repr demo_crypto"
  have fetched: "client_policy_for_agent (demo_client ?b) ''t'' ''o'' ''p'' ''prod'' ''g'' () = (Inr ?b, ())"
    using bundle_dict_roundtrip demo_bundle_verify
    by (simp add: client_policy_for_agent_def receiving_def client_request_def received_bundle_def bnd_def lift_def ebind_def Let_def demo_client_def)
  then obtain F z' where fetch: "cc_policy_for_agent demo_cached_client = Some F" "F ''o'' ''p'' ''prod'' ''g'' ((), Map.empty) = (Inr ?b, z')"
    using demo_bundle_verify by (simp add: demo_cached_client_def cached_control_client_def cached_fetch_def cached_policy_def cache_save_def Let_def)
  obtain p where p: "policy_from_mapping ?fr ?orr ''p'' (jdict demo_document) = Inr p" using demo_accepted by blast
  obtain pol where pol: "policy_from_mapping ?fr ?orr ''p@1'' (jdict demo_document) = Inr pol"
    using p by (auto simp: policy_from_mapping_def Let_def ebind_Inr demo_policy_text blank_def strip_def lstrip_def rstrip_def py_space_def split: if_splits)
  obtain g dp where g: "policy_guardrails pol = Inr g" "policy_decision ?fr ?orr pol = Inr dp" by (rule accepted_sections [OF pol demo_document_wf])
  let ?a = "demo_runner\<lparr>rn_organization_id := ''o'', rn_environment := ''prod'', rn_agent_id := ''g'',
      rn_metadata := dict_merge [(''policy_version'', PStr ''1'')] (rn_metadata demo_runner)\<rparr>"
  obtain r where r: "runner_init (digest_value (cr_sha demo_crypto) ?fr ?orr) None (?a\<lparr>rn_guardrails := g, rn_decision_policy := dp\<rparr>) = Inr r"
    by (simp add: runner_init_def demo_runner_def memory_backend_def runner_timeout_def run_principal_def demo_principal_def ebind_def Let_def
        strip_def lstrip_def rstrip_def py_space_def)
  have "pb_name ?b @ ''@'' @ pb_version ?b = ''p@1''" by (simp add: demo_bundle_def Let_def)
  then have "enterprise_init demo_crypto None ?a demo_cached_client ?b False
      = Inr \<lparr>en_runner = r, en_client = demo_cached_client, en_bundle = ?b, en_fail_closed = False\<rparr>"
    unfolding enterprise_init_def Let_def demo_bundle_facts using pol g r by (simp only: ebind_def sum.case)
  then have "from_control_plane demo_crypto None demo_runner demo_cached_client ''o'' ''prod'' ''g'' ''p'' False ((), Map.empty)
      = (Inr \<lparr>en_runner = r, en_client = demo_cached_client, en_bundle = ?b, en_fail_closed = False\<rparr>, z')"
    using fetch unfolding from_control_plane_def by (simp add: bnd_def lift_def demo_bundle_facts(3))
  moreover have "en_client \<lparr>en_runner = r, en_client = demo_cached_client, en_bundle = ?b, en_fail_closed = False\<rparr> = demo_cached_client"
    "\<not> en_fail_closed \<lparr>en_runner = r, en_client = demo_cached_client, en_bundle = ?b, en_fail_closed = False\<rparr>"
    by (rule enterprise_runner.simps, simp add: enterprise_runner.simps)
  ultimately show ?thesis by blast
qed

theorem signed_limits_bind_run_witness:
  "\<exists>er z' x hz' L' s'. from_control_plane demo_crypto None demo_runner demo_cached_client ''o'' ''prod'' ''g'' ''p'' False ((), Map.empty) = (Inr er, z')
     \<and> enterprise_run ''2'' demo_host er demo_env ''c'' ''r'' 0 None demo_agent PNone None ([], z') demo_log demo_sys = (x, hz', L', s')
     \<and> (s' = demo_sys \<or> within_document (pb_policy (en_bundle er)) s')"
proof -
  obtain er z' where er: "from_control_plane demo_crypto None demo_runner demo_cached_client ''o'' ''prod'' ''g'' ''p'' False ((), Map.empty) = (Inr er, z')"
    using demo_enterprise by blast
  obtain x hz' L' s' where run: "enterprise_run ''2'' demo_host er demo_env ''c'' ''r'' 0 None demo_agent PNone None ([], z') demo_log demo_sys = (x, hz', L', s')"
    by (metis prod.exhaust)
  then have ex: "enterprise_executed ''2'' demo_host er demo_env ''c'' ''r'' 0 None demo_agent PNone None ([], z') demo_log demo_sys (x, hz', L', s')"
    by (simp add: enterprise_executed_def)
  have "s' = demo_sys \<or> within_document (pb_policy (en_bundle er)) s'"
    using signed_limits_bind_run [OF er [unfolded demo_cached_client_def] demo_parses _ ex] by simp
  with er run show ?thesis by blast
qed

theorem heartbeats_transparent_witness:
  "\<exists>er z' x hz' L' s'. from_control_plane demo_crypto None demo_runner demo_cached_client ''o'' ''prod'' ''g'' ''p'' False ((), Map.empty) = (Inr er, z')
     \<and> enterprise_run ''2'' demo_host er demo_env ''c'' ''r'' 0 None demo_agent PNone None ([], z') demo_log demo_sys = (x, hz', L', s')
     \<and> runner_run demo_host (en_runner er) demo_env ''c'' ''r'' 0 None demo_agent PNone None demo_log demo_sys = (x, L', s')"
proof -
  obtain er z' where er: "from_control_plane demo_crypto None demo_runner demo_cached_client ''o'' ''prod'' ''g'' ''p'' False ((), Map.empty) = (Inr er, z')"
    and c: "en_client er = demo_cached_client" "\<not> en_fail_closed er" using demo_enterprise by blast
  obtain x hz' L' s' where run: "enterprise_run ''2'' demo_host er demo_env ''c'' ''r'' 0 None demo_agent PNone None ([], z') demo_log demo_sys = (x, hz', L', s')"
    by (metis prod.exhaust)
  have "is_Exception e" if "cc_heartbeat (en_client er) org ag en digest ver status z = (Inl e, y)" for org ag en digest ver status z e y
    using that unfolding c by (auto simp: demo_cached_client_def cached_control_client_def client_heartbeat_def client_request_def demo_client_def Let_def ebind_def
        is_Exception_def split: prod.splits)
  from heartbeats_transparent [OF c(2) _ run, OF this]
  have "runner_run demo_host (en_runner er) demo_env ''c'' ''r'' 0 None demo_agent PNone None demo_log demo_sys = (x, L', s')" by simp
  with er run show ?thesis by blast
qed

end
