(* ===== verification/Migrations.thy ===== *)
theory Migrations
  imports Pyval
begin

text \<open>
  \<^verbatim>\<open>agent_roi/db/core.py\<close>: the configuration of a PostgreSQL connection, the splitting of a migration script into statements and the
  manager that applies the packaged migrations under a lock.  What a statement does to the database is an argument; the table of applied
  migrations is kept apart from it.  The packaged files are a list of names and texts in the order of the directory.
\<close>

section \<open>Configuration\<close>

definition configuration_error :: "string \<Rightarrow> exc" where
  "configuration_error m = OtherExc [''DatabaseConfigurationError'', ''ValueError'', ''Exception''] m"

definition migration_error :: "string \<Rightarrow> exc" where
  "migration_error m = OtherExc [''MigrationError'', ''RuntimeError'', ''Exception''] m"

definition ident_start :: "char \<Rightarrow> bool" where
  "ident_start c \<longleftrightarrow> alpha_char c \<or> c = CHR ''_''"

definition ident_char :: "char \<Rightarrow> bool" where
  "ident_char c \<longleftrightarrow> alpha_char c \<or> digit_char c \<or> c = CHR ''_''"

definition is_identifier :: "string \<Rightarrow> bool" where
  "is_identifier s \<longleftrightarrow> s \<noteq> [] \<and> ident_start (hd s) \<and> list_all ident_char (tl s)"

record connection_factory =
  cf_dsn :: string
  cf_schema :: string

definition connection_factory_init :: "string \<Rightarrow> string \<Rightarrow> exc + connection_factory" where
  "connection_factory_init dsn schema =
     (if blank dsn then Inl (configuration_error ''PostgreSQL DSN must be a non-empty string'')
      else if \<not> is_identifier schema then Inl (configuration_error ''schema must be a valid PostgreSQL identifier'')
      else Inr \<lparr>cf_dsn = strip dsn, cf_schema = schema\<rparr>)"

text \<open>The statements \<^verbatim>\<open>connection\<close> starts with, and its transaction: what was done is kept only if nothing was raised.\<close>

definition session_statements :: "connection_factory \<Rightarrow> string list" where
  "session_statements cf =
     [''CREATE SCHEMA IF NOT EXISTS '' @ [CHR 0x22] @ cf_schema cf @ [CHR 0x22],
      ''SET search_path TO '' @ [CHR 0x22] @ cf_schema cf @ [CHR 0x22] @ '', public'']"

definition transaction :: "('d \<Rightarrow> (exc + 'r) \<times> 'd) \<Rightarrow> 'd \<Rightarrow> (exc + 'r) \<times> 'd" where
  "transaction f d = (case f d of (Inl e, _) \<Rightarrow> (Inl e, d) | (Inr x, d') \<Rightarrow> (Inr x, d'))"

section \<open>Splitting a script\<close>

record sql_scan =
  sx_statements :: "string list"
  sx_buffer :: string
  sx_quote :: string
  sx_dollar :: string
  sx_block :: bool
  sx_line :: bool

definition scan_init :: sql_scan where
  "scan_init = \<lparr>sx_statements = [], sx_buffer = [], sx_quote = [], sx_dollar = [], sx_block = False, sx_line = False\<rparr>"

text \<open>The tag of a dollar quote at the start of a text.\<close>

definition dollar_match :: "string \<Rightarrow> string option" where
  "dollar_match s = (case s of
     [] \<Rightarrow> None
   | c # r \<Rightarrow>
       if c \<noteq> CHR ''$'' then None
       else let name = takeWhile ident_char r; rest = dropWhile ident_char r in
         if name \<noteq> [] \<and> ident_start (hd name) \<and> rest \<noteq> [] \<and> hd rest = CHR ''$'' then Some (''$'' @ name @ ''$'')
         else if r \<noteq> [] \<and> hd r = CHR ''$'' then Some ''$$'' else None)"

definition keep :: "string \<Rightarrow> sql_scan \<Rightarrow> sql_scan" where
  "keep t st = st\<lparr>sx_buffer := sx_buffer st @ t\<rparr>"

definition end_statement :: "sql_scan \<Rightarrow> sql_scan" where
  "end_statement st = (let t = strip (sx_buffer st) in
     st\<lparr>sx_statements := sx_statements st @ (if t \<noteq> [] then [t] else []), sx_buffer := []\<rparr>)"

text \<open>One turn of the loop at the character \<open>c\<close>, with the rest of the text after it: the next state and the number of characters read.\<close>

definition scan_step :: "char \<Rightarrow> string \<Rightarrow> sql_scan \<Rightarrow> sql_scan \<times> nat" where
  "scan_step c rest st =
     (let nxt = take 1 rest in
      if sx_line st then ((keep [c] st)\<lparr>sx_line := c \<noteq> CHR 0x0A\<rparr>, 1)
      else if sx_block st then
        (if c = CHR ''*'' \<and> nxt = ''/'' then ((keep (c # nxt) st)\<lparr>sx_block := False\<rparr>, 2) else (keep [c] st, 1))
      else if sx_dollar st \<noteq> [] then
        (if take (length (sx_dollar st)) (c # rest) = sx_dollar st then ((keep (sx_dollar st) st)\<lparr>sx_dollar := []\<rparr>, length (sx_dollar st))
         else (keep [c] st, 1))
      else if sx_quote st \<noteq> [] then
        (if [c] = sx_quote st then (if nxt = sx_quote st then (keep (c # nxt) st, 2) else ((keep [c] st)\<lparr>sx_quote := []\<rparr>, 1))
         else if c = CHR 0x5C \<and> sx_quote st = [CHR 0x27] \<and> nxt \<noteq> [] then (keep (c # nxt) st, 2)
         else (keep [c] st, 1))
      else if c = CHR ''-'' \<and> nxt = ''-'' then ((keep (c # nxt) st)\<lparr>sx_line := True\<rparr>, 2)
      else if c = CHR ''/'' \<and> nxt = ''*'' then ((keep (c # nxt) st)\<lparr>sx_block := True\<rparr>, 2)
      else if c = CHR 0x27 \<or> c = CHR 0x22 then ((keep [c] st)\<lparr>sx_quote := [c]\<rparr>, 1)
      else case dollar_match (c # rest) of
        Some tag \<Rightarrow> ((keep tag st)\<lparr>sx_dollar := tag\<rparr>, length tag)
      | None \<Rightarrow> if c = CHR '';'' then (end_statement st, 1) else (keep [c] st, 1))"

lemma dollar_match_length: "dollar_match s = Some tag \<Longrightarrow> 2 \<le> length tag"
  by (auto simp: dollar_match_def Let_def split: list.splits if_splits)

lemma scan_step_progress: "scan_step c rest st = (st', n) \<Longrightarrow> 0 < n"
  by (auto simp: scan_step_def Let_def dest: dollar_match_length split: if_splits option.splits)

function scan_loop :: "string \<Rightarrow> sql_scan \<Rightarrow> sql_scan" where
  "scan_loop [] st = st"
| "scan_loop (c # rest) st = (let (st', n) = scan_step c rest st in scan_loop (drop n (c # rest)) st')"
  by pat_completeness auto
termination
proof (relation "measure (length \<circ> fst)")
  fix c rest st p st' n
  assume "p = scan_step c rest st" "(st', n) = p"
  then have "0 < n" using scan_step_progress [of c rest st st' n] by simp
  then show "((drop n (c # rest), st'), (c # rest, st)) \<in> measure (length \<circ> fst)" by simp
qed simp

definition split_sql_statements :: "string \<Rightarrow> exc + string list" where
  "split_sql_statements sql =
     (let st = scan_loop sql scan_init in
      if sx_quote st \<noteq> [] \<or> sx_dollar st \<noteq> [] \<or> sx_block st
      then Inl (migration_error ''Migration SQL contains an unterminated quoted value or comment'')
      else Inr (sx_statements (end_statement st)))"

section \<open>Migrations\<close>

record migration =
  mg_version :: int
  mg_name :: string
  mg_sql :: string

definition migration_init :: "int \<Rightarrow> string \<Rightarrow> string \<Rightarrow> exc + migration" where
  "migration_init version name sql =
     (if version < 1 then Inl (ValueError ''Migration version must be a positive integer'')
      else if blank name then Inl (ValueError ''Migration name must be non-empty'')
      else if blank sql then Inl (ValueError ''Migration SQL must be non-empty'')
      else Inr \<lparr>mg_version = version, mg_name = name, mg_sql = sql\<rparr>)"

text \<open>The version and the name in a file name of the form \<^verbatim>\<open>0001_name.sql\<close>.\<close>

definition migration_file :: "string \<Rightarrow> (int \<times> string) option" where
  "migration_file f =
     (let digits = take 4 f; body = drop 5 f; name = take (length body - 4) body in
      if length digits = 4 \<and> list_all digit_char digits \<and> take 1 (drop 4 f) = ''_'' \<and> 4 < length body
         \<and> drop (length body - 4) body = ''.sql'' \<and> list_all ident_char name
      then Some (int (digits_value digits), name) else None)"

fun migrations_of :: "(string \<times> string) list \<Rightarrow> exc + migration list" where
  "migrations_of [] = Inr []"
| "migrations_of ((f, sql) # fs) =
     (case migration_file f of
        None \<Rightarrow> migrations_of fs
      | Some (v, n) \<Rightarrow> (case migration_init v n sql of
          Inl e \<Rightarrow> Inl e
        | Inr m \<Rightarrow> (case migrations_of fs of Inl e \<Rightarrow> Inl e | Inr ms \<Rightarrow> Inr (m # ms))))"

definition load_postgres_migrations :: "(string \<times> string) list \<Rightarrow> exc + migration list" where
  "load_postgres_migrations directory =
     (case migrations_of (sort_key fst directory) of
        Inl e \<Rightarrow> Inl e
      | Inr ms \<Rightarrow>
          if map mg_version ms \<noteq> sorted_list_of_set (set (map mg_version ms))
          then Inl (migration_error ''PostgreSQL migration versions must be unique and ordered'') else Inr ms)"

definition manager_migrations :: "migration list \<Rightarrow> (string \<times> string) list \<Rightarrow> exc + migration list" where
  "manager_migrations given directory = (if given \<noteq> [] then Inr given else load_postgres_migrations directory)"

section \<open>Applying them\<close>

text \<open>The database: the rows of \<^verbatim>\<open>agent_roi_schema_migrations\<close> and everything else.\<close>

type_synonym 'd schema_state = "(int \<times> string) list \<times> 'd"

fun execute_all :: "(string \<Rightarrow> 'd \<Rightarrow> exc + 'd) \<Rightarrow> string list \<Rightarrow> 'd \<Rightarrow> exc + 'd" where
  "execute_all ex [] d = Inr d"
| "execute_all ex (s # ss) d = (case ex s d of Inl e \<Rightarrow> Inl e | Inr d' \<Rightarrow> execute_all ex ss d')"

definition current_version :: "'d schema_state \<Rightarrow> int" where
  "current_version db = (if fst db = [] then 0 else Max (fst ` set (fst db)))"

definition apply_migration :: "(string \<Rightarrow> 'd \<Rightarrow> exc + 'd) \<Rightarrow> migration \<Rightarrow> 'd schema_state \<Rightarrow> exc + 'd schema_state" where
  "apply_migration ex m db =
     (case split_sql_statements (mg_sql m) of
        Inl e \<Rightarrow> Inl e
      | Inr ss \<Rightarrow> (case execute_all ex ss (snd db) of
          Inl e \<Rightarrow> Inl e
        | Inr d \<Rightarrow> if mg_version m \<in> fst ` set (fst db) then Inl (OtherExc [''UniqueViolation'', ''IntegrityError'', ''Exception''] ''duplicate key'')
            else Inr (fst db @ [(mg_version m, mg_name m)], d)))"

text \<open>The \<^verbatim>\<open>repr\<close> of an ASCII text.\<close>

definition repr_digit :: "nat \<Rightarrow> char" where
  "repr_digit n = ''0123456789abcdef'' ! n"

definition repr_char :: "char \<Rightarrow> char \<Rightarrow> string" where
  "repr_char q c =
     (if c = q \<or> c = CHR 0x5C then [CHR 0x5C, c]
      else if c = CHR 0x0A then [CHR 0x5C, CHR ''n'']
      else if c = CHR 0x0D then [CHR 0x5C, CHR ''r'']
      else if c = CHR 0x09 then [CHR 0x5C, CHR ''t'']
      else if of_char c < (32 :: nat) \<or> of_char c = (127 :: nat)
        then [CHR 0x5C, CHR ''x'', repr_digit (of_char c div 16), repr_digit (of_char c mod 16)]
      else [c])"

definition py_repr :: "string \<Rightarrow> string" where
  "py_repr s = (let q = (if CHR 0x27 \<in> set s \<and> CHR 0x22 \<notin> set s then CHR 0x22 else CHR 0x27) in [q] @ concat (map (repr_char q) s) @ [q])"

text \<open>The loop; \<open>existing\<close> was read before it and is not changed by it.\<close>

fun migrate_loop ::
    "(string \<Rightarrow> 'd \<Rightarrow> exc + 'd) \<Rightarrow> (int \<times> string) list \<Rightarrow> migration list \<Rightarrow> int list \<Rightarrow> 'd schema_state \<Rightarrow> (exc + int list) \<times> 'd schema_state" where
  "migrate_loop ex existing [] applied db = (Inr applied, db)"
| "migrate_loop ex existing (m # ms) applied db =
     (case map_of existing (mg_version m) of
        Some prior \<Rightarrow>
          if prior \<noteq> mg_name m
          then (Inl (migration_error (''Migration '' @ show_int (mg_version m) @ '' was previously applied as '' @ py_repr prior @ '', not '' @ py_repr (mg_name m))), db)
          else migrate_loop ex existing ms applied db
      | None \<Rightarrow> (case apply_migration ex m db of
          Inl e \<Rightarrow> (Inl e, db)
        | Inr db' \<Rightarrow> migrate_loop ex existing ms (applied @ [mg_version m]) db'))"

definition selected_migrations :: "int option \<Rightarrow> migration list \<Rightarrow> migration list" where
  "selected_migrations target ms = filter (\<lambda>m. case target of None \<Rightarrow> True | Some t \<Rightarrow> mg_version m \<le> t) ms"

text \<open>An exception other than \<^verbatim>\<open>MigrationError\<close> becomes one.\<close>

definition as_migration_error :: "exc \<Rightarrow> exc" where
  "as_migration_error e = (if \<not> is_Exception e \<or> exc_isinstance e [''MigrationError''] then e else migration_error ''PostgreSQL migration failed'')"

definition migrate :: "(string \<Rightarrow> 'd \<Rightarrow> exc + 'd) \<Rightarrow> migration list \<Rightarrow> int option \<Rightarrow> 'd schema_state \<Rightarrow> (exc + int list) \<times> 'd schema_state" where
  "migrate ex ms target = transaction (\<lambda>db.
     case migrate_loop ex (fst db) (selected_migrations target ms) [] db of
       (Inl e, db') \<Rightarrow> (Inl (as_migration_error e), db') | (Inr vs, db') \<Rightarrow> (Inr vs, db'))"

section \<open>Rows\<close>

text \<open>A row as drivers return it: a mapping, or a tuple whose columns the cursor describes.\<close>

datatype driver_row = MappingRow "(string \<times> pyval) list" | TupleRow "pyval list"

definition row_to_mapping :: "string list \<Rightarrow> driver_row option \<Rightarrow> exc + (string \<times> pyval) list" where
  "row_to_mapping names row = (case row of
     None \<Rightarrow> Inl (ValueError ''row cannot be None'')
   | Some (MappingRow d) \<Rightarrow> Inr d
   | Some (TupleRow vs) \<Rightarrow>
       if names = [] then Inl (TypeError ''Database driver did not provide mapping rows or cursor metadata'')
       else Inr (foldl (\<lambda>d (k, v). AList.update k v d) [] (zip names vs)))"

definition fetchone_mapping :: "string list \<Rightarrow> driver_row option \<Rightarrow> exc + (string \<times> pyval) list option" where
  "fetchone_mapping names row =
     (if row = None then Inr None else case row_to_mapping names row of Inl e \<Rightarrow> Inl e | Inr d \<Rightarrow> Inr (Some d))"

fun fetchall_mappings :: "string list \<Rightarrow> driver_row list \<Rightarrow> exc + (string \<times> pyval) list list" where
  "fetchall_mappings names [] = Inr []"
| "fetchall_mappings names (r # rs) = (case row_to_mapping names (Some r) of
     Inl e \<Rightarrow> Inl e
   | Inr d \<Rightarrow> (case fetchall_mappings names rs of Inl e \<Rightarrow> Inl e | Inr ds \<Rightarrow> Inr (d # ds)))"

end
