(* ===== verification/Migration_Laws.thy ===== *)
theory Migration_Laws
  imports Migrations
begin

text \<open>
  The lexical structure of a script as a grammar, and that the splitter cuts a script exactly at the semicolons that are lexemes of their own,
  not at those inside quotes, dollar quotes or comments.  Migrations are applied once, in order, and all or none.
\<close>

section \<open>The lexical structure of a script\<close>

text \<open>What the splitter has to recognise, stated as a grammar and without reference to the scanner.  A script is a
  sequence of lexemes: quoted values, dollar-quoted bodies, line and block comments, semicolons, and single
  characters that start none of them.\<close>

datatype lexeme =
    Semicolon
  | Quoted char string
  | Dollar_Quoted string string
  | Line_Comment string
  | Block_Comment string
  | Plain char

fun lexeme_text :: "lexeme \<Rightarrow> string" where
  "lexeme_text Semicolon = '';''"
| "lexeme_text (Quoted q b) = q # b @ [q]"
| "lexeme_text (Dollar_Quoted t b) = t @ b @ t"
| "lexeme_text (Line_Comment b) = ''--'' @ b"
| "lexeme_text (Block_Comment b) = ''/*'' @ b @ ''*/''"
| "lexeme_text (Plain c) = [c]"

text \<open>Inside quotes a doubled quote stands for itself, and after a backslash in single quotes any character does.\<close>

inductive quote_body :: "char \<Rightarrow> string \<Rightarrow> bool" for q where
  quote_end: "quote_body q []"
| quote_plain: "c \<noteq> q \<Longrightarrow> c \<noteq> CHR 0x5C \<or> q \<noteq> CHR 0x27 \<Longrightarrow> quote_body q b \<Longrightarrow> quote_body q (c # b)"
| quote_doubled: "quote_body q b \<Longrightarrow> quote_body q (q # q # b)"
| quote_escaped: "q = CHR 0x27 \<Longrightarrow> quote_body q b \<Longrightarrow> quote_body q (CHR 0x5C # c # b)"

definition dollar_tag :: "string \<Rightarrow> bool" where
  "dollar_tag t \<longleftrightarrow> (\<exists>name. t = ''$'' @ name @ ''$'' \<and> (name = [] \<or> is_identifier name))"

text \<open>The closing text \<open>t\<close> does not occur before the end of the body.\<close>

definition closes_first :: "string \<Rightarrow> string \<Rightarrow> bool" where
  "closes_first t b \<longleftrightarrow> (\<forall>k<length b. take (length t) (drop k (b @ t)) \<noteq> t)"

text \<open>A lexeme in front of the rest of a script.\<close>

fun lexeme_at :: "lexeme \<Rightarrow> string \<Rightarrow> bool" where
  "lexeme_at Semicolon rest = True"
| "lexeme_at (Quoted q b) rest = ((q = CHR 0x27 \<or> q = CHR 0x22) \<and> quote_body q b \<and> take 1 rest \<noteq> [q])"
| "lexeme_at (Dollar_Quoted t b) rest = (dollar_tag t \<and> closes_first t b)"
| "lexeme_at (Line_Comment b) rest = ((\<exists>b'. b = b' @ [CHR 0x0A] \<and> CHR 0x0A \<notin> set b') \<or> CHR 0x0A \<notin> set b \<and> rest = [])"
| "lexeme_at (Block_Comment b) rest = closes_first ''*/'' b"
| "lexeme_at (Plain c) rest = (c \<notin> {CHR '';'', CHR 0x27, CHR 0x22} \<and> \<not> (c = CHR ''-'' \<and> take 1 rest = ''-'')
     \<and> \<not> (c = CHR ''/'' \<and> take 1 rest = ''*'') \<and> (\<forall>t u. dollar_tag t \<longrightarrow> c # rest \<noteq> t @ u))"

inductive lexes :: "string \<Rightarrow> lexeme list \<Rightarrow> bool" where
  lexes_end: "lexes [] []"
| lexes_next: "lexeme_at l rest \<Longrightarrow> lexes rest ls \<Longrightarrow> lexes (lexeme_text l @ rest) (l # ls)"

text \<open>The texts between the semicolons among the lexemes.\<close>

fun parts :: "lexeme list \<Rightarrow> string list" where
  "parts [] = [[]]"
| "parts (l # ls) = (if l = Semicolon then [] # parts ls else (lexeme_text l @ hd (parts ls)) # tl (parts ls))"

definition nonempty :: "string list \<Rightarrow> string list" where
  "nonempty ss = filter (\<lambda>s. s \<noteq> []) ss"

lemma parts_not_Nil [simp]: "parts ls \<noteq> []"
  by (cases ls) auto

lemma lexeme_text_not_Nil: "lexeme_at l rest \<Longrightarrow> lexeme_text l \<noteq> []"
  by (cases l) (auto simp: dollar_tag_def)

lemma lexes_Nil: "lexes [] ls \<Longrightarrow> ls = []"
proof (erule lexes.cases)
  fix l rest ks assume "[] = lexeme_text l @ rest" "lexeme_at l rest"
  then show "ls = []" using lexeme_text_not_Nil [of l rest] by simp
qed simp

lemma closes_first_Cons:
  assumes "closes_first t (c # b)"
  shows "take (length t) (c # b @ t @ r) \<noteq> t" "closes_first t b"
proof -
  have "take (length t) (c # b @ t @ r) = take (length t) (c # b @ t)" by (simp add: take_Cons')
  moreover have "take (length t) (c # b @ t) \<noteq> t" using assms by (auto simp: closes_first_def dest!: spec [of _ 0])
  ultimately show "take (length t) (c # b @ t @ r) \<noteq> t" by simp
  show "closes_first t b"
    unfolding closes_first_def
  proof (intro allI impI)
    fix k assume "k < length b"
    then show "take (length t) (drop k (b @ t)) \<noteq> t" using assms by (auto simp: closes_first_def dest!: spec [of _ "Suc k"])
  qed
qed

lemma closes_first_ConsI:
  assumes "closes_first t b" "take (length t) (c # b @ t) \<noteq> t"
  shows "closes_first t (c # b)"
  unfolding closes_first_def
proof (intro allI impI)
  fix k assume "k < length (c # b)"
  then show "take (length t) (drop k ((c # b) @ t)) \<noteq> t" using assms by (cases k) (auto simp: closes_first_def)
qed

section \<open>Dollar tags\<close>

lemma ident_char_special [simp]: "\<not> ident_char (CHR ''$'')" "ident_start c \<Longrightarrow> ident_char c"
  by (auto simp: ident_char_def ident_start_def alpha_char_def digit_char_def)

lemma dollar_match_tag:
  assumes "dollar_tag t"
  shows "dollar_match (t @ u) = Some t"
proof -
  obtain name where t: "t = ''$'' @ name @ ''$''" "name = [] \<or> is_identifier name" using assms by (auto simp: dollar_tag_def)
  have "\<forall>c\<in>set name. ident_char c" using t(2) by (cases name) (auto simp: is_identifier_def list_all_iff)
  then have "takeWhile ident_char (name @ CHR ''$'' # u) = name" "dropWhile ident_char (name @ CHR ''$'' # u) = CHR ''$'' # u"
    by (simp_all add: takeWhile_append dropWhile_append)
  then show ?thesis using t by (cases name) (auto simp: dollar_match_def Let_def is_identifier_def)
qed

lemma dollar_match_Some:
  assumes "dollar_match s = Some t"
  shows "dollar_tag t" "\<exists>u. s = t @ u"
proof -
  obtain r where s: "s = CHR ''$'' # r" using assms by (auto simp: dollar_match_def split: list.splits if_splits)
  define name where "name = takeWhile ident_char r"
  have r: "r = name @ dropWhile ident_char r" by (simp add: name_def)
  have "list_all ident_char (tl name)" unfolding name_def list_all_iff by (metis list.set_sel(2) set_takeWhileD tl_Nil)
  then consider "is_identifier name" "t = ''$'' @ name @ ''$''" "dropWhile ident_char r \<noteq> []" "hd (dropWhile ident_char r) = CHR ''$''"
    | "t = ''$$''" "r \<noteq> []" "hd r = CHR ''$''"
    using assms by (auto simp: s dollar_match_def Let_def name_def is_identifier_def split: if_splits)
  then have "dollar_tag t \<and> (\<exists>u. s = t @ u)"
  proof cases
    case 1
    then have "s = t @ tl (dropWhile ident_char r)" using r s by (cases "dropWhile ident_char r") auto
    then show ?thesis using 1 by (auto simp: dollar_tag_def)
  next
    case 2
    then have "s = t @ tl r" using s by (cases r) auto
    then show ?thesis using 2 by (auto simp: dollar_tag_def)
  qed
  then show "dollar_tag t" "\<exists>u. s = t @ u" by simp_all
qed

section \<open>The scanner in each mode\<close>

lemma scan_loop_step: "scan_step c rest st = (st', n) \<Longrightarrow> scan_loop (c # rest) st = scan_loop (drop n (c # rest)) st'"
  by simp

declare scan_loop.simps(2) [simp del]

definition neutral :: "sql_scan \<Rightarrow> bool" where
  "neutral st \<longleftrightarrow> sx_quote st = [] \<and> sx_dollar st = [] \<and> \<not> sx_block st \<and> \<not> sx_line st"

definition closed :: "sql_scan \<Rightarrow> bool" where
  "closed st \<longleftrightarrow> sx_quote st = [] \<and> sx_dollar st = [] \<and> \<not> sx_block st"

lemma keep_keep [simp]: "keep u (keep t st) = keep (t @ u) st" "keep [] st = st"
  by (simp_all add: keep_def)

lemma keep_fields [simp]:
  "sx_quote (keep t st) = sx_quote st" "sx_dollar (keep t st) = sx_dollar st" "sx_block (keep t st) = sx_block st"
  "sx_line (keep t st) = sx_line st" "sx_buffer (keep t st) = sx_buffer st @ t" "sx_statements (keep t st) = sx_statements st"
  by (simp_all add: keep_def)

lemma keep_update [simp]:
  "keep t (st\<lparr>sx_quote := q\<rparr>) = (keep t st)\<lparr>sx_quote := q\<rparr>" "keep t (st\<lparr>sx_dollar := d\<rparr>) = (keep t st)\<lparr>sx_dollar := d\<rparr>"
  "keep t (st\<lparr>sx_block := b\<rparr>) = (keep t st)\<lparr>sx_block := b\<rparr>" "keep t (st\<lparr>sx_line := b\<rparr>) = (keep t st)\<lparr>sx_line := b\<rparr>"
  by (simp_all add: keep_def)

text \<open>In quotes.\<close>

definition in_quote :: "char \<Rightarrow> sql_scan \<Rightarrow> bool" where
  "in_quote q st \<longleftrightarrow> sx_quote st = [q] \<and> sx_dollar st = [] \<and> \<not> sx_block st \<and> \<not> sx_line st"

lemma in_quote_keep [simp]: "in_quote q (keep t st) = in_quote q st"
  by (simp add: in_quote_def)

lemma quote_steps:
  assumes "in_quote q st"
  shows "scan_loop (q # q # r) st = scan_loop r (keep [q, q] st)"
    and "take 1 r \<noteq> [q] \<Longrightarrow> scan_loop (q # r) st = scan_loop r ((keep [q] st)\<lparr>sx_quote := []\<rparr>)"
    and "q = CHR 0x27 \<Longrightarrow> scan_loop (CHR 0x5C # c # r) st = scan_loop r (keep [CHR 0x5C, c] st)"
    and "c \<noteq> q \<Longrightarrow> c \<noteq> CHR 0x5C \<or> q \<noteq> CHR 0x27 \<or> r = [] \<Longrightarrow> scan_loop (c # r) st = scan_loop r (keep [c] st)"
proof -
  show "scan_loop (q # q # r) st = scan_loop r (keep [q, q] st)"
    using assms by (subst scan_loop_step [where n = 2]) (auto simp: scan_step_def Let_def in_quote_def)
  show "scan_loop (q # r) st = scan_loop r ((keep [q] st)\<lparr>sx_quote := []\<rparr>)" if "take 1 r \<noteq> [q]"
    using assms that by (subst scan_loop_step [where n = 1]) (auto simp: scan_step_def Let_def in_quote_def)
  show "scan_loop (CHR 0x5C # c # r) st = scan_loop r (keep [CHR 0x5C, c] st)" if "q = CHR 0x27"
    using assms that by (subst scan_loop_step [where n = 2]) (auto simp: scan_step_def Let_def in_quote_def)
  show "scan_loop (c # r) st = scan_loop r (keep [c] st)" if "c \<noteq> q" "c \<noteq> CHR 0x5C \<or> q \<noteq> CHR 0x27 \<or> r = []"
    using assms that by (subst scan_loop_step [where n = 1]) (auto simp: scan_step_def Let_def in_quote_def)
qed

lemma scan_quoted:
  assumes "quote_body q b" "in_quote q st" "take 1 r \<noteq> [q]"
  shows "scan_loop (b @ q # r) st = scan_loop r ((keep (b @ [q]) st)\<lparr>sx_quote := []\<rparr>)"
  using assms(1,2)
proof (induction arbitrary: st rule: quote_body.induct)
  case quote_end
  then show ?case using quote_steps(2) assms(3) by simp
next
  case (quote_plain c b)
  then show ?case using quote_steps(4) [of q st c "b @ q # r"] by simp
next
  case (quote_doubled b)
  then show ?case using quote_steps(1) [of q st] by simp
next
  case (quote_escaped b c)
  then show ?case using quote_steps(3) [of q st c] by simp
qed

lemma quoted_closes:
  assumes "in_quote q st" "closed (scan_loop s st)"
  shows "\<exists>b r. s = b @ q # r \<and> quote_body q b \<and> take 1 r \<noteq> [q]"
  using assms
proof (induction "length s" arbitrary: s st rule: less_induct)
  case less
  have go: ?case if u: "s = u @ r" "u \<noteq> []" "scan_loop s st = scan_loop r (keep u st)" "\<And>b. quote_body q b \<Longrightarrow> quote_body q (u @ b)" for u r
  proof -
    have "length r < length s" using u(1,2) by simp
    then obtain b r' where "r = b @ q # r'" "quote_body q b" "take 1 r' \<noteq> [q]"
      using less.hyps [of r "keep u st"] less.prems u(3) by auto
    then show ?thesis using u(1,4) by (intro exI [of _ "u @ b"] exI [of _ r']) simp
  qed
  show ?case
  proof (cases s)
    case Nil
    then show ?thesis using less.prems by (simp add: in_quote_def closed_def)
  next
    case (Cons c r)
    consider "c = q" "take 1 r = [q]" | "c = q" "take 1 r \<noteq> [q]" | d r' where "c \<noteq> q" "c = CHR 0x5C" "q = CHR 0x27" "r = d # r'"
      | "c \<noteq> q" "c \<noteq> CHR 0x5C \<or> q \<noteq> CHR 0x27 \<or> r = []"
      by (cases r) auto
    then show ?thesis
    proof cases
      case 1
      then obtain r' where "r = q # r'" by (cases r) auto
      then show ?thesis
        using go [of "[q, q]" r'] quote_steps(1) [OF less.prems(1)] 1 Cons by (simp add: quote_doubled)
    next
      case 2
      then show ?thesis using Cons quote_end by (intro exI [of _ "[]"] exI [of _ r]) simp
    next
      case 3
      then show ?thesis
        using go [of "[c, d]" r'] quote_steps(3) [OF less.prems(1)] Cons by (simp add: quote_escaped)
    next
      case 4
      have step: "scan_loop s st = scan_loop r (keep [c] st)" using quote_steps(4) [OF less.prems(1)] 4 Cons by simp
      show ?thesis
      proof (cases "r = []")
        case True
        then show ?thesis using step less.prems by (simp add: in_quote_def closed_def)
      next
        case False
        then show ?thesis using go [of "[c]" r] step 4 Cons by (simp add: quote_plain)
      qed
    qed
  qed
qed

text \<open>A mode that lasts until a closing text: dollar quotes and block comments.\<close>

definition until :: "string \<Rightarrow> (sql_scan \<Rightarrow> bool) \<Rightarrow> (sql_scan \<Rightarrow> sql_scan) \<Rightarrow> bool" where
  "until t M leave \<longleftrightarrow> t \<noteq> [] \<and> (\<forall>st c r u. M st \<longrightarrow> M (keep u st) \<and> \<not> closed st
     \<and> scan_loop (c # r) st = (if take (length t) (c # r) = t then scan_loop (drop (length t) (c # r)) (leave (keep t st))
         else scan_loop r (keep [c] st)))"

lemma scan_until:
  assumes "until t M leave" "M st" "closes_first t b"
  shows "scan_loop (b @ t @ r) st = scan_loop r (leave (keep (b @ t) st))"
  using assms(2,3)
proof (induction b arbitrary: st)
  case Nil
  obtain c u where t: "t = c # u" using assms(1) by (cases t) (auto simp: until_def)
  have "scan_loop (t @ r) st = scan_loop (drop (length t) (t @ r)) (leave (keep t st))"
    using assms(1) Nil(1) unfolding until_def t by simp
  then show ?case by simp
next
  case (Cons c b)
  have "scan_loop (c # b @ t @ r) st = scan_loop (b @ t @ r) (keep [c] st)"
    using assms(1) Cons.prems closes_first_Cons(1) unfolding until_def by simp
  moreover have "M (keep [c] st)" using assms(1) Cons.prems by (simp add: until_def)
  ultimately show ?case using Cons.IH [of "keep [c] st"] closes_first_Cons(2) [OF Cons.prems(2)] by simp
qed

lemma until_closes:
  assumes "until t M leave" "M st" "closed (scan_loop s st)"
  shows "\<exists>b r. s = b @ t @ r \<and> closes_first t b"
  using assms(2,3)
proof (induction s arbitrary: st)
  case Nil
  then show ?case using assms(1) by (simp add: until_def)
next
  case (Cons c s)
  show ?case
  proof (cases "take (length t) (c # s) = t")
    case True
    then have "c # s = [] @ t @ drop (length t) (c # s)" by (metis append_Nil append_take_drop_id)
    moreover have "closes_first t []" by (simp add: closes_first_def)
    ultimately show ?thesis by blast
  next
    case False
    have step: "scan_loop (c # s) st = scan_loop s (keep [c] st)" "M (keep [c] st)"
      using assms(1) Cons.prems(1) False by (simp_all add: until_def)
    then obtain b r where b: "s = b @ t @ r" "closes_first t b" using Cons.IH [of "keep [c] st"] Cons.prems(2) by auto
    have "take (length t) (c # s) = take (length t) (c # b @ t)" unfolding b(1) by (simp add: take_Cons')
    then have "closes_first t (c # b)" using b(2) False by (intro closes_first_ConsI) simp_all
    then show ?thesis using b(1) by (intro exI [of _ "c # b"] exI [of _ r]) simp
  qed
qed

definition in_dollar :: "string \<Rightarrow> sql_scan \<Rightarrow> bool" where
  "in_dollar t st \<longleftrightarrow> sx_dollar st = t \<and> t \<noteq> [] \<and> \<not> sx_block st \<and> \<not> sx_line st"

definition in_block :: "sql_scan \<Rightarrow> bool" where
  "in_block st \<longleftrightarrow> sx_block st \<and> \<not> sx_line st"

lemma until_dollar: "t \<noteq> [] \<Longrightarrow> until t (in_dollar t) (\<lambda>st. st\<lparr>sx_dollar := []\<rparr>)"
  unfolding until_def
  by (auto simp: in_dollar_def closed_def scan_loop.simps(2) scan_step_def Let_def)

lemma until_block: "until ''*/'' in_block (\<lambda>st. st\<lparr>sx_block := False\<rparr>)"
proof -
  have "(c = CHR ''*'' \<and> take 1 r = ''/'') = (take (length ''*/'') (c # r) = ''*/'')" for c r by (cases r) auto
  then show ?thesis
    unfolding until_def in_block_def closed_def
    by (auto simp: scan_loop.simps(2) scan_step_def Let_def)
qed

lemma scan_line:
  "sx_line st \<Longrightarrow> CHR 0x0A \<notin> set b \<Longrightarrow> scan_loop (b @ CHR 0x0A # r) st = scan_loop r ((keep (b @ [CHR 0x0A]) st)\<lparr>sx_line := False\<rparr>)"
  "sx_line st \<Longrightarrow> CHR 0x0A \<notin> set b \<Longrightarrow> scan_loop b st = keep b st"
proof -
  have step: "sx_line st \<Longrightarrow> scan_loop (c # r) st = scan_loop r ((keep [c] st)\<lparr>sx_line := c \<noteq> CHR 0x0A\<rparr>)" for c r and st :: sql_scan
    by (simp add: scan_loop.simps(2) scan_step_def)
  have same: "sx_line st \<Longrightarrow> st\<lparr>sx_line := True\<rparr> = st" for st :: sql_scan by simp
  show "sx_line st \<Longrightarrow> CHR 0x0A \<notin> set b \<Longrightarrow> scan_loop (b @ CHR 0x0A # r) st = scan_loop r ((keep (b @ [CHR 0x0A]) st)\<lparr>sx_line := False\<rparr>)"
    by (induction b arbitrary: st) (auto simp: step same)
  show "sx_line st \<Longrightarrow> CHR 0x0A \<notin> set b \<Longrightarrow> scan_loop b st = keep b st"
    by (induction b arbitrary: st) (auto simp: step same)
qed

section \<open>The scanner reads lexemes\<close>

lemma neutral_starts:
  assumes "neutral st"
  shows "scan_loop (CHR '';'' # r) st = scan_loop r (end_statement st)"
    and "q = CHR 0x27 \<or> q = CHR 0x22 \<Longrightarrow> scan_loop (q # r) st = scan_loop r ((keep [q] st)\<lparr>sx_quote := [q]\<rparr>)"
    and "dollar_tag t \<Longrightarrow> scan_loop (t @ r) st = scan_loop r ((keep t st)\<lparr>sx_dollar := t\<rparr>)"
    and "scan_loop (CHR ''-'' # CHR ''-'' # r) st = scan_loop r ((keep ''--'' st)\<lparr>sx_line := True\<rparr>)"
    and "scan_loop (CHR ''/'' # CHR ''*'' # r) st = scan_loop r ((keep ''/*'' st)\<lparr>sx_block := True\<rparr>)"
    and "lexeme_at (Plain c) r \<Longrightarrow> scan_loop (c # r) st = scan_loop r (keep [c] st)"
proof -
  note s = scan_loop.simps(2) scan_step_def Let_def
  have n: "sx_quote st = []" "sx_dollar st = []" "\<not> sx_block st" "\<not> sx_line st" using assms by (simp_all add: neutral_def)
  have no: "dollar_match (c # r) = None" if "c \<noteq> CHR ''$''" for c r using that by (simp add: dollar_match_def)
  show "scan_loop (CHR '';'' # r) st = scan_loop r (end_statement st)" by (simp add: s n no)
  show "scan_loop (q # r) st = scan_loop r ((keep [q] st)\<lparr>sx_quote := [q]\<rparr>)" if "q = CHR 0x27 \<or> q = CHR 0x22"
    using that by (elim disjE) (simp_all add: s n)
  show "scan_loop (t @ r) st = scan_loop r ((keep t st)\<lparr>sx_dollar := t\<rparr>)" if t: "dollar_tag t"
  proof -
    obtain u where u: "t = CHR ''$'' # u" using t by (auto simp: dollar_tag_def)
    have "dollar_match (CHR ''$'' # u @ r) = Some t" using dollar_match_tag [OF t] u by simp
    then show ?thesis unfolding u by (simp add: s n)
  qed
  show "scan_loop (CHR ''-'' # CHR ''-'' # r) st = scan_loop r ((keep ''--'' st)\<lparr>sx_line := True\<rparr>)" by (simp add: s n)
  show "scan_loop (CHR ''/'' # CHR ''*'' # r) st = scan_loop r ((keep ''/*'' st)\<lparr>sx_block := True\<rparr>)" by (simp add: s n)
  show "scan_loop (c # r) st = scan_loop r (keep [c] st)" if c: "lexeme_at (Plain c) r"
  proof -
    have "dollar_match (c # r) = None"
      using dollar_match_Some [of "c # r"] c by (cases "dollar_match (c # r)") auto
    then show ?thesis using c by (auto simp: s n)
  qed
qed

text \<open>The state after a lexeme.\<close>

fun advance :: "lexeme \<Rightarrow> sql_scan \<Rightarrow> sql_scan" where
  "advance Semicolon st = end_statement st"
| "advance l st = keep (lexeme_text l) st"

lemma advance_neutral [simp]: "neutral (advance l st) = neutral st"
  by (cases l) (simp_all add: neutral_def end_statement_def Let_def)

lemma neutral_same [simp]: "neutral st \<Longrightarrow> st\<lparr>sx_quote := []\<rparr> = st \<and> st\<lparr>sx_dollar := []\<rparr> = st \<and> st\<lparr>sx_block := False\<rparr> = st \<and> st\<lparr>sx_line := False\<rparr> = st"
  by (simp add: neutral_def)

lemma neutral_keep [simp]: "neutral (keep t st) = neutral st"
  by (simp add: neutral_def)

lemma scan_lexeme:
  assumes "neutral st" "lexeme_at l rest"
  shows "\<exists>b. scan_loop (lexeme_text l @ rest) st = scan_loop rest ((advance l st)\<lparr>sx_line := b\<rparr>) \<and> (b \<longrightarrow> rest = [])"
proof (cases l)
  case Semicolon
  then show ?thesis using neutral_starts(1) [OF assms(1)] assms(1) advance_neutral [of Semicolon st]
    by (intro exI [of _ False]) (simp del: advance.simps add: neutral_def advance.simps(1))
next
  case (Quoted q b)
  have "in_quote q ((keep [q] st)\<lparr>sx_quote := [q]\<rparr>)" using assms(1) by (simp add: in_quote_def neutral_def)
  then show ?thesis
    using Quoted assms neutral_starts(2) [OF assms(1), of q] scan_quoted [of q b "(keep [q] st)\<lparr>sx_quote := [q]\<rparr>" rest]
    by (intro exI [of _ False]) auto
next
  case (Dollar_Quoted t b)
  have t: "t \<noteq> []" using Dollar_Quoted assms(2) by (auto simp: dollar_tag_def)
  then have "in_dollar t ((keep t st)\<lparr>sx_dollar := t\<rparr>)" using assms(1) by (simp add: in_dollar_def neutral_def)
  then show ?thesis
    using Dollar_Quoted assms neutral_starts(3) [OF assms(1), of t] scan_until [OF until_dollar [OF t], of _ b rest]
    by (intro exI [of _ False]) auto
next
  case (Line_Comment b)
  then consider b' where "b = b' @ [CHR 0x0A]" "CHR 0x0A \<notin> set b'" | "CHR 0x0A \<notin> set b" "rest = []" using assms(2) by auto
  then show ?thesis
  proof cases
    case 1
    then show ?thesis using Line_Comment assms(1) neutral_starts(4) [OF assms(1)] scan_line(1) [of "(keep ''--'' st)\<lparr>sx_line := True\<rparr>" b' rest]
      by (intro exI [of _ False]) auto
  next
    case 2
    then show ?thesis using Line_Comment neutral_starts(4) [OF assms(1)] scan_line(2) [of "(keep ''--'' st)\<lparr>sx_line := True\<rparr>" b]
      by (intro exI [of _ True]) auto
  qed
next
  case (Block_Comment b)
  have "in_block ((keep ''/*'' st)\<lparr>sx_block := True\<rparr>)" using assms(1) by (simp add: in_block_def neutral_def)
  then show ?thesis
    using Block_Comment assms neutral_starts(5) [OF assms(1)] scan_until [OF until_block, of _ b rest]
    by (intro exI [of _ False]) auto
next
  case (Plain c)
  then show ?thesis using assms neutral_starts(6) [OF assms(1)] by (intro exI [of _ False]) (auto simp del: lexeme_at.simps)
qed

lemma scan_lexemes:
  "lexes sql ls \<Longrightarrow> neutral st \<Longrightarrow> \<exists>b. scan_loop sql st = (fold advance ls st)\<lparr>sx_line := b\<rparr>"
proof (induction arbitrary: st rule: lexes.induct)
  case lexes_end
  then show ?case by (intro exI [of _ False]) simp
next
  case (lexes_next l rest ls)
  obtain b where b: "scan_loop (lexeme_text l @ rest) st = scan_loop rest ((advance l st)\<lparr>sx_line := b\<rparr>)" "b \<longrightarrow> rest = []"
    using scan_lexeme [OF lexes_next.prems lexes_next.hyps(1)] by blast
  have neu: "neutral (advance l st)" using lexes_next.prems by simp
  show ?case
  proof (cases b)
    case True
    then have "rest = []" "ls = []" using b(2) lexes_next.hyps(2) lexes_Nil by auto
    then show ?thesis using b(1) by auto
  next
    case False
    then have "scan_loop (lexeme_text l @ rest) st = scan_loop rest (advance l st)" using b(1) neutral_same [OF neu] by simp
    then show ?thesis using lexes_next.IH [OF neu] by simp
  qed
qed

lemma first_lexeme:
  assumes "neutral st" "closed (scan_loop sql st)" "sql \<noteq> []"
  shows "\<exists>l rest. sql = lexeme_text l @ rest \<and> lexeme_at l rest"
proof -
  obtain c r where sql: "sql = c # r" using assms(3) by (cases sql) auto
  consider "lexeme_at (Plain c) r" | "c = CHR '';''" | "c = CHR 0x27 \<or> c = CHR 0x22" | r' where "sql = ''--'' @ r'"
    | r' where "sql = ''/*'' @ r'" | t r' where "dollar_tag t" "sql = t @ r'"
    unfolding sql by (cases r) auto
  then show ?thesis
  proof cases
    case 1
    then show ?thesis using sql by (intro exI [of _ "Plain c"] exI [of _ r]) simp
  next
    case 2
    then show ?thesis using sql by (intro exI [of _ Semicolon] exI [of _ r]) simp
  next
    case 3
    let ?st = "(keep [c] st)\<lparr>sx_quote := [c]\<rparr>"
    have "in_quote c ?st" "closed (scan_loop r ?st)"
      using assms(1,2) neutral_starts(2) [OF assms(1) 3] sql by (simp_all add: in_quote_def neutral_def)
    then obtain b r' where "r = b @ c # r'" "quote_body c b" "take 1 r' \<noteq> [c]" using quoted_closes by blast
    then show ?thesis using sql 3 by (intro exI [of _ "Quoted c b"] exI [of _ r']) simp
  next
    case 4
    show ?thesis
    proof (cases "CHR 0x0A \<in> set r'")
      case True
      then obtain b u where "r' = b @ CHR 0x0A # u" "CHR 0x0A \<notin> set b" using split_list_first [of "CHR 0x0A" r'] by blast
      then show ?thesis using 4 by (intro exI [of _ "Line_Comment (b @ [CHR 0x0A])"] exI [of _ u]) simp
    qed (use 4 in \<open>auto intro!: exI [of _ "Line_Comment r'"] exI [of _ "[]"]\<close>)
  next
    case 5
    let ?st = "(keep ''/*'' st)\<lparr>sx_block := True\<rparr>"
    have "in_block ?st" "closed (scan_loop r' ?st)"
      using assms(1,2) neutral_starts(5) [OF assms(1)] 5 by (simp_all add: in_block_def neutral_def)
    then obtain b u where "r' = b @ ''*/'' @ u" "closes_first ''*/'' b" using until_closes [OF until_block] by blast
    then show ?thesis using 5 by (intro exI [of _ "Block_Comment b"] exI [of _ u]) simp
  next
    case 6
    let ?st = "(keep t st)\<lparr>sx_dollar := t\<rparr>"
    have t: "t \<noteq> []" using 6(1) by (auto simp: dollar_tag_def)
    have "in_dollar t ?st" "closed (scan_loop r' ?st)"
      using assms(1,2) t neutral_starts(3) [OF assms(1) 6(1)] 6(2) by (simp_all add: in_dollar_def neutral_def)
    then obtain b u where "r' = b @ t @ u" "closes_first t b" using until_closes [OF until_dollar [OF t]] by blast
    then show ?thesis using 6 by (intro exI [of _ "Dollar_Quoted t b"] exI [of _ u]) simp
  qed
qed

lemma closed_lexes: "neutral st \<Longrightarrow> closed (scan_loop sql st) \<Longrightarrow> \<exists>ls. lexes sql ls"
proof (induction "length sql" arbitrary: sql st rule: less_induct)
  case less
  show ?case
  proof (cases "sql = []")
    case True
    then show ?thesis using lexes_end by blast
  next
    case False
    obtain l rest where l: "sql = lexeme_text l @ rest" "lexeme_at l rest" using first_lexeme [OF less.prems False] by blast
    obtain b where b: "scan_loop sql st = scan_loop rest ((advance l st)\<lparr>sx_line := b\<rparr>)" "b \<longrightarrow> rest = []"
      using scan_lexeme [OF less.prems(1) l(2)] l(1) by blast
    have "\<exists>ls. lexes rest ls"
    proof (cases b)
      case True
      then show ?thesis using b(2) lexes_end by blast
    next
      case False
      have neu: "neutral (advance l st)" using less.prems(1) by simp
      have "closed (scan_loop rest (advance l st))" using less.prems(2) b(1) False neutral_same [OF neu] by simp
      then show ?thesis using less.hyps [OF _ neu] l lexeme_text_not_Nil by simp
    qed
    then show ?thesis using lexes_next l by blast
  qed
qed

lemma fold_advance:
  "sx_statements (end_statement (fold advance ls st))
     = sx_statements st @ nonempty (map strip ((sx_buffer st @ hd (parts ls)) # tl (parts ls)))"
proof (induction ls arbitrary: st)
  case Nil
  then show ?case by (simp add: end_statement_def nonempty_def Let_def)
next
  case (Cons l ls)
  show ?case
  proof (cases "l = Semicolon")
    case True
    then show ?thesis using Cons.IH [of "end_statement st"] by (simp add: end_statement_def nonempty_def Let_def)
  next
    case False
    then have "advance l st = keep (lexeme_text l) st" by (cases l) auto
    then show ?thesis using Cons.IH [of "keep (lexeme_text l) st"] False by simp
  qed
qed

lemma split_lexed:
  assumes "lexes sql ls"
  shows "split_sql_statements sql = Inr (nonempty (map strip (parts ls)))"
proof -
  have neu: "neutral scan_init" by (simp add: neutral_def scan_init_def)
  obtain b where b: "scan_loop sql scan_init = (fold advance ls scan_init)\<lparr>sx_line := b\<rparr>" using scan_lexemes [OF assms neu] by blast
  have "neutral (fold advance ls st)" if "neutral st" for st using that by (induction ls arbitrary: st) auto
  then have "closed (scan_loop sql scan_init)" using neu unfolding b by (simp add: neutral_def closed_def)
  moreover have "sx_statements (end_statement (scan_loop sql scan_init)) = nonempty (map strip (parts ls))"
    using fold_advance [of ls scan_init] unfolding b by (simp add: end_statement_def scan_init_def Let_def)
  ultimately show ?thesis by (simp add: split_sql_statements_def closed_def Let_def)
qed

text \<open>C31: Splitting respects the lexical structure of a script: it succeeds exactly when the script is a sequence of lexemes (quoted values,
  dollar-quoted bodies, line and block comments, semicolons and other characters), and the statements are then the texts between the
  semicolons among these lexemes, without surrounding blanks and without the empty ones.  So no semicolon inside quotes, dollar quotes or
  comments ends a statement, every other one does, and no text is lost or added.\<close>

theorem split_keeps_text:
  "split_sql_statements sql = Inr ss \<longleftrightarrow>
     (\<exists>ls. lexes sql ls \<and> concat (map lexeme_text ls) = sql \<and> ss = nonempty (map strip (parts ls)))"
proof
  assume split: "split_sql_statements sql = Inr ss"
  then have "closed (scan_loop sql scan_init)" by (simp add: split_sql_statements_def closed_def Let_def split: if_splits)
  then obtain ls where ls: "lexes sql ls" using closed_lexes [of scan_init sql] by (auto simp: neutral_def scan_init_def)
  moreover from ls have "concat (map lexeme_text ls) = sql" by (induction rule: lexes.induct) simp_all
  ultimately show "\<exists>ls. lexes sql ls \<and> concat (map lexeme_text ls) = sql \<and> ss = nonempty (map strip (parts ls))"
    using split_lexed [OF ls] split by auto
qed (auto simp: split_lexed)

section \<open>Applying migrations\<close>

definition recorded :: "migration \<Rightarrow> int \<times> string" where
  "recorded m = (mg_version m, mg_name m)"

definition fresh :: "(int \<times> string) list \<Rightarrow> migration list \<Rightarrow> migration list" where
  "fresh existing ms = filter (\<lambda>m. map_of existing (mg_version m) = None) ms"

lemma apply_migration_rows:
  assumes "apply_migration ex m db = Inr db'"
  shows "fst db' = fst db @ [recorded m]" "mg_version m \<notin> fst ` set (fst db)"
  using assms by (auto simp: apply_migration_def recorded_def split: sum.splits if_splits)

lemma loop_rows:
  assumes "migrate_loop ex existing ms applied db = (Inr vs, db')"
  shows "fst db' = fst db @ map recorded (fresh existing ms)" "\<forall>m\<in>set ms. map_of existing (mg_version m) \<in> {None, Some (mg_name m)}"
    "distinct (map fst (fst db)) \<Longrightarrow> distinct (map fst (fst db'))"
proof -
  have "fst db' = fst db @ map recorded (fresh existing ms) \<and> (\<forall>m\<in>set ms. map_of existing (mg_version m) \<in> {None, Some (mg_name m)})
      \<and> (distinct (map fst (fst db)) \<longrightarrow> distinct (map fst (fst db')))"
    using assms
  proof (induction ms arbitrary: applied db)
    case (Cons m ms)
    show ?case
    proof (cases "map_of existing (mg_version m)")
      case None
      then obtain d where d: "apply_migration ex m db = Inr d" "migrate_loop ex existing ms (applied @ [mg_version m]) d = (Inr vs, db')"
        using Cons.prems by (auto split: sum.splits)
      note rows = apply_migration_rows [OF d(1)]
      note IH = Cons.IH [OF d(2)]
      have "fst db' = fst db @ map recorded (fresh existing (m # ms))" using IH rows(1) None by (simp add: fresh_def)
      moreover have "distinct (map fst (fst db'))" if "distinct (map fst (fst db))"
      proof -
        have "distinct (map fst (fst d))" using rows that by (simp add: recorded_def)
        then show ?thesis using IH by blast
      qed
      moreover have "\<forall>k\<in>set (m # ms). map_of existing (mg_version k) \<in> {None, Some (mg_name k)}" using IH None by simp
      ultimately show ?thesis by blast
    next
      case (Some n)
      then have "n = mg_name m" and next_loop: "migrate_loop ex existing ms applied db = (Inr vs, db')" using Cons.prems by (auto split: if_splits)
      moreover have "fresh existing (m # ms) = fresh existing ms" using Some by (simp add: fresh_def)
      ultimately show ?thesis using Cons.IH [OF next_loop] Some by (metis insert_iff list.set(2))
    qed
  qed (simp add: fresh_def)
  then show "fst db' = fst db @ map recorded (fresh existing ms)" "\<forall>m\<in>set ms. map_of existing (mg_version m) \<in> {None, Some (mg_name m)}"
    "distinct (map fst (fst db)) \<Longrightarrow> distinct (map fst (fst db'))" by blast+
qed

lemma loop_skip:
  assumes "\<forall>m\<in>set ms. map_of existing (mg_version m) = Some (mg_name m)"
  shows "migrate_loop ex existing (ms @ ms') applied db = migrate_loop ex existing ms' applied db"
  using assms by (induction ms) auto

lemma loop_append:
  "migrate_loop ex existing (ms @ ms') applied db = (case migrate_loop ex existing ms applied db of
     (Inl e, d) \<Rightarrow> (Inl e, d) | (Inr vs, d) \<Rightarrow> migrate_loop ex existing ms' vs d)"
  by (induction ms arbitrary: applied db) (auto split: option.splits sum.splits)

lemma loop_existing:
  assumes "\<forall>m\<in>set ms. map_of existing (mg_version m) = map_of existing' (mg_version m)"
  shows "migrate_loop ex existing ms applied db = migrate_loop ex existing' ms applied db"
  using assms by (induction ms arbitrary: applied db) (auto split: option.splits sum.splits)

lemma loop_applied:
  "migrate_loop ex existing ms (vs @ applied) db = (case migrate_loop ex existing ms applied db of
     (Inl e, d) \<Rightarrow> (Inl e, d) | (Inr ws, d) \<Rightarrow> (Inr (vs @ ws), d))"
proof (induction ms arbitrary: applied db)
  case (Cons m ms)
  show ?case using Cons [of "applied @ [mg_version m]"] Cons [of applied] by (auto split: option.splits sum.splits)
qed simp

lemma after_loop:
  assumes "migrate_loop ex (fst db) ms applied db = (Inr vs, db')" "distinct (map fst (fst db))"
  shows "\<forall>m\<in>set ms. map_of (fst db') (mg_version m) = Some (mg_name m)"
    and "mg_version k \<notin> mg_version ` set ms \<Longrightarrow> map_of (fst db') (mg_version k) = map_of (fst db) (mg_version k)"
proof -
  note rows = loop_rows [OF assms(1)]
  show "\<forall>m\<in>set ms. map_of (fst db') (mg_version m) = Some (mg_name m)"
  proof
    fix m assume m: "m \<in> set ms"
    have "(mg_version m, mg_name m) \<in> set (fst db')"
    proof (cases "map_of (fst db) (mg_version m)")
      case None
      then have "recorded m \<in> recorded ` set (fresh (fst db) ms)" using m by (simp add: fresh_def)
      then show ?thesis by (simp add: rows(1) recorded_def)
    next
      case (Some n)
      then have "n = mg_name m" using rows(2) m by fastforce
      then show ?thesis using Some map_of_SomeD [of "fst db"] by (simp add: rows(1))
    qed
    then show "map_of (fst db') (mg_version m) = Some (mg_name m)" using rows(3) [OF assms(2)] by (simp add: map_of_is_SomeI)
  qed
  assume "mg_version k \<notin> mg_version ` set ms"
  then have "map_of (map recorded (fresh (fst db) ms)) (mg_version k) = None"
    by (auto simp: map_of_eq_None_iff fresh_def recorded_def)
  then show "map_of (fst db') (mg_version k) = map_of (fst db) (mg_version k)" by (simp add: rows(1) map_add_def split: option.split)
qed

lemma selected_split:
  assumes "sorted_wrt (<) (map mg_version ms)"
  obtains later where "ms = selected_migrations target ms @ later" "\<forall>k\<in>set later. mg_version k \<notin> mg_version ` set (selected_migrations target ms)"
proof -
  have "\<exists>later. ms = selected_migrations target ms @ later \<and> (\<forall>k\<in>set later. mg_version k \<notin> mg_version ` set (selected_migrations target ms))"
    using assms
  proof (induction ms)
    case (Cons m ms)
    show ?case
    proof (cases "case target of None \<Rightarrow> True | Some t \<Rightarrow> mg_version m \<le> t")
      case True
      obtain later where later: "ms = selected_migrations target ms @ later"
        "\<forall>k\<in>set later. mg_version k \<notin> mg_version ` set (selected_migrations target ms)" using Cons by auto
      have sel: "selected_migrations target (m # ms) = m # selected_migrations target ms" using True by (simp add: selected_migrations_def)
      have "set later \<subseteq> set ms" using later(1) by (metis Un_upper2 set_append)
      then have "\<forall>k\<in>set later. mg_version k \<noteq> mg_version m" using Cons.prems by fastforce
      then show ?thesis unfolding sel using later by (intro exI [of _ later]) auto
    next
      case False
      then have "selected_migrations target (m # ms) = []"
        using Cons.prems by (auto simp: selected_migrations_def filter_empty_conv split: option.splits)
      then show ?thesis by simp
    qed
  qed (simp add: selected_migrations_def)
  then show thesis using that by blast
qed

text \<open>C32: A migration run either raises and leaves the database as it was, or it records exactly the selected migrations that were missing, in their order; then
  the same run again does nothing, and migrating in stages gives what migrating at once gives.\<close>

theorem migrate_once:
  assumes "sorted_wrt (<) (map mg_version ms)" "distinct (map fst (fst db))" "migrate ex ms target db = (r, db')"
  shows "(\<exists>e. r = Inl e) \<and> db' = db \<or> (\<exists>vs. r = Inr vs \<and> fst db' = fst db @ map recorded (fresh (fst db) (selected_migrations target ms))
    \<and> migrate ex ms target db' = (Inr [], db')
    \<and> migrate ex ms None db = (case migrate ex ms None db' of (Inl e, _) \<Rightarrow> (Inl e, db) | (Inr ws, db'') \<Rightarrow> (Inr (vs @ ws), db'')))"
proof (cases r)
  case (Inl e)
  then show ?thesis using assms(3) by (auto simp: migrate_def transaction_def split: prod.splits sum.splits)
next
  case (Inr vs)
  let ?sel = "selected_migrations target ms"
  have loop: "migrate_loop ex (fst db) ?sel [] db = (Inr vs, db')"
    using assms(3) Inr by (auto simp: migrate_def transaction_def split: prod.splits sum.splits)
  note after = after_loop [OF loop assms(2)]
  obtain later where later: "ms = ?sel @ later" "\<forall>k\<in>set later. mg_version k \<notin> mg_version ` set ?sel" by (rule selected_split [OF assms(1)])
  have again: "migrate ex ms target db' = (Inr [], db')"
    using loop_skip [OF after(1), of ex "[]" "[]" db'] by (simp add: migrate_def transaction_def)
  have all: "selected_migrations None ms = ms" by (simp add: selected_migrations_def)
  have rest: "migrate_loop ex (fst db') ms [] db' = migrate_loop ex (fst db) later [] db'"
  proof -
    have "\<forall>k\<in>set later. map_of (fst db') (mg_version k) = map_of (fst db) (mg_version k)" using after(2) later(2) by blast
    then show ?thesis using loop_skip [OF after(1), of ex later "[]" db'] loop_existing [of later "fst db'" "fst db" ex "[]" db'] later(1) by simp
  qed
  have "migrate_loop ex (fst db) ms [] db = migrate_loop ex (fst db) later vs db'"
    using loop_append [of ex "fst db" ?sel later "[]" db] loop later(1) by simp
  also have "\<dots> = (case migrate_loop ex (fst db') ms [] db' of (Inl e, d) \<Rightarrow> (Inl e, d) | (Inr ws, d) \<Rightarrow> (Inr (vs @ ws), d))"
    using loop_applied [of ex "fst db" later vs "[]" db'] rest by simp
  finally have "migrate ex ms None db = (case migrate ex ms None db' of (Inl e, _) \<Rightarrow> (Inl e, db) | (Inr ws, db'') \<Rightarrow> (Inr (vs @ ws), db''))"
    by (auto simp: migrate_def transaction_def all split: prod.splits sum.splits)
  then show ?thesis using Inr again loop_rows(1) [OF loop] by blast
qed

section \<open>Witnesses\<close>

lemma demo_script: "split_sql_statements ''a;b'' = Inr [''a'', ''b'']"
  by (simp add: split_sql_statements_def scan_loop.simps(2) scan_step_def dollar_match_def keep_def end_statement_def scan_init_def Let_def
      strip_def lstrip_def rstrip_def py_space_def)

text \<open>A semicolon in quotes and one in a comment, and one that ends a statement.\<close>

theorem split_keeps_text_witness:
  "split_sql_statements ([CHR 0x27] @ '';'' @ [CHR 0x27] @ ''--;'' @ [CHR 0x0A] @ '';b'')
     = Inr [[CHR 0x27] @ '';'' @ [CHR 0x27] @ ''--;'', ''b'']"
proof -
  let ?ls = "[Quoted (CHR 0x27) '';'', Line_Comment ('';'' @ [CHR 0x0A]), Semicolon, Plain (CHR ''b'')]"
  have "lexeme_at (Plain (CHR ''b'')) []" by (auto simp: dollar_tag_def)
  then have "lexes ''b'' [Plain (CHR ''b'')]" using lexes_next [of "Plain (CHR ''b'')" "[]"] lexes_end by (simp del: lexeme_at.simps)
  then have "lexes '';b'' [Semicolon, Plain (CHR ''b'')]" using lexes_next [of Semicolon "''b''"] by simp
  then have "lexes (''--;'' @ [CHR 0x0A] @ '';b'') (tl ?ls)"
    using lexes_next [of "Line_Comment ('';'' @ [CHR 0x0A])" "'';b''"] by simp
  moreover have "quote_body (CHR 0x27) '';''" by (intro quote_plain quote_end) simp_all
  ultimately have "lexes ([CHR 0x27] @ '';'' @ [CHR 0x27] @ ''--;'' @ [CHR 0x0A] @ '';b'') ?ls"
    using lexes_next [of "Quoted (CHR 0x27) '';''" "''--;'' @ [CHR 0x0A] @ '';b''" "tl ?ls"] by simp
  then show ?thesis
    unfolding split_keeps_text
    by (intro exI [of _ ?ls]) (simp add: nonempty_def strip_def lstrip_def rstrip_def py_space_def)
qed

definition demo_migrations :: "migration list" where
  "demo_migrations = [\<lparr>mg_version = 1, mg_name = ''x'', mg_sql = ''a;b''\<rparr>, \<lparr>mg_version = 2, mg_name = ''y'', mg_sql = ''a;b''\<rparr>]"

definition demo_execute :: "string \<Rightarrow> string list \<Rightarrow> exc + string list" where
  "demo_execute s d = Inr (d @ [s])"

lemma demo_migrated: "migrate demo_execute demo_migrations (Some 1) ([], []) = (Inr [1], [(1, ''x'')], [''a'', ''b''])"
  by (simp add: migrate_def transaction_def selected_migrations_def demo_migrations_def apply_migration_def demo_script demo_execute_def)

theorem migrate_once_witness: "migrate demo_execute demo_migrations (Some 1) ([(1, ''x'')], [''a'', ''b'']) = (Inr [], [(1, ''x'')], [''a'', ''b''])"
proof -
  have "sorted_wrt (<) (map mg_version demo_migrations)" "distinct (map fst (fst ([] :: (int \<times> string) list, [] :: string list)))"
    by (simp_all add: demo_migrations_def)
  from migrate_once [OF this demo_migrated] show ?thesis by blast
qed

end
