(* ===== verification/Pg_Server.thy ===== *)
theory Pg_Server
  imports Serialization
begin

text \<open>
  What the stores of the package rely on of a PostgreSQL server.  \<open>pg_server\<close> is what the server stores for a value of a column type, with the error it may
  raise: \<open>sv_uuid\<close>, \<open>sv_text\<close>, \<open>sv_char\<close> for \<^verbatim>\<open>CHAR(64)\<close> and \<open>sv_jsonb\<close>, as the driver reads it back.  The locale \<open>postgres_server\<close> states the documented
  behaviour.
\<close>

section \<open>The server\<close>

record pg_server =
  sv_uuid :: "string \<Rightarrow> exc + string"
  sv_text :: "string \<Rightarrow> exc + string"
  sv_char :: "json \<Rightarrow> exc + string option"
  sv_jsonb :: "json \<Rightarrow> exc + json"

definition sv_bigint :: "int \<Rightarrow> exc + int" where
  "sv_bigint i = (if - (2 ^ 63) \<le> i \<and> i < 2 ^ 63 then Inr i
     else Inl (OtherExc [''NumericValueOutOfRange'', ''DataError'', ''Exception''] ''bigint out of range''))"

section \<open>Documented behaviour\<close>

text \<open>A number is printed as a decimal without exponent, so that Python reads \<^verbatim>\<open>1e+16\<close> back as an integer.\<close>

fun numeric :: "(pyfloat \<Rightarrow> string) \<Rightarrow> json \<Rightarrow> json" where
  "numeric fr (JFloat x) = (case x of Fin q \<Rightarrow> if CHR ''+'' \<in> set (fr x) then JInt \<lfloor>q\<rfloor> else JFloat x | _ \<Rightarrow> JFloat x)"
| "numeric fr (JList xs) = JList (map (numeric fr) xs)"
| "numeric fr (JObj d) = JObj (map (\<lambda>(k, v). (k, numeric fr v)) d)"
| "numeric fr j = j"

fun no_exponent :: "(pyfloat \<Rightarrow> string) \<Rightarrow> json \<Rightarrow> bool" where
  "no_exponent fr (JFloat x) \<longleftrightarrow> (case x of Fin q \<Rightarrow> CHR ''+'' \<notin> set (fr x) | _ \<Rightarrow> True)"
| "no_exponent fr (JList xs) \<longleftrightarrow> list_all (no_exponent fr) xs"
| "no_exponent fr (JObj d) \<longleftrightarrow> list_all (\<lambda>(k, v). no_exponent fr v) d"
| "no_exponent fr j \<longleftrightarrow> True"

definition nul_free :: "string \<Rightarrow> bool" where
  "nul_free s \<longleftrightarrow> CHR 0x00 \<notin> set s"

text \<open>What \<^verbatim>\<open>JSONB\<close> takes without error: text without the NUL character, and numbers far from the limits.\<close>

fun jsonb_ok :: "json \<Rightarrow> bool" where
  "jsonb_ok (JStr s) \<longleftrightarrow> nul_free s"
| "jsonb_ok (JInt i) \<longleftrightarrow> - (2 ^ 63) \<le> i \<and> i < 2 ^ 63"
| "jsonb_ok (JList xs) \<longleftrightarrow> list_all jsonb_ok xs"
| "jsonb_ok (JObj d) \<longleftrightarrow> list_all (\<lambda>(k, v). nul_free k \<and> jsonb_ok v) d"
| "jsonb_ok j \<longleftrightarrow> True"

definition lower_hex :: "char \<Rightarrow> bool" where
  "lower_hex c \<longleftrightarrow> c \<in> set ''0123456789abcdef''"

definition is_uuid :: "string \<Rightarrow> bool" where
  "is_uuid s \<longleftrightarrow> length s = 36 \<and> (\<forall>i<36. if i \<in> {8, 13, 18, 23} then s ! i = CHR ''-'' else lower_hex (s ! i))"

locale postgres_server =
  fixes sv :: pg_server and fr :: "pyfloat \<Rightarrow> string"
  assumes uuid: "is_uuid s \<Longrightarrow> sv_uuid sv s = Inr s"
    and plain_text: "nul_free s \<Longrightarrow> sv_text sv s = Inr s"
    and char_null: "sv_char sv JNull = Inr None"
    and char_full: "nul_free s \<Longrightarrow> length s = 64 \<Longrightarrow> sv_char sv (JStr s) = Inr (Some s)"
    and jsonb: "wf_json j \<Longrightarrow> jsonb_ok j \<Longrightarrow> \<exists>j'. sv_jsonb sv (sort_keys j) = Inr j' \<and> wf_json j' \<and> sort_keys j' = sort_keys (numeric fr j)"

section \<open>Numbers\<close>

lemma numeric_id: "no_exponent fr j \<Longrightarrow> numeric fr j = j"
  by (induction j rule: no_exponent.induct) (auto simp: list_all_iff map_idI split: pyfloat.splits intro!: map_idI)

lemma no_exponent_numeric: "no_exponent fr (numeric fr j)"
  by (induction j rule: no_exponent.induct) (auto simp: list_all_iff split: pyfloat.splits)

lemma no_exponent_sort_keys: "no_exponent fr (sort_keys j) \<longleftrightarrow> no_exponent fr j"
  by (induction j rule: no_exponent.induct) (auto simp: list_all_iff)

lemma no_exponent_iff: "sort_keys (numeric fr j) = sort_keys j \<longleftrightarrow> no_exponent fr j"
  using numeric_id no_exponent_numeric no_exponent_sort_keys by metis

lemma wf_numeric: "wf_json j \<Longrightarrow> wf_json (numeric fr j)"
proof (induction j rule: no_exponent.induct)
  case (3 fr d)
  have "map fst (map (\<lambda>(k, v). (k, numeric fr v)) d) = map fst d" by auto
  then have "distinct (map fst (map (\<lambda>(k, v). (k, numeric fr v)) d))" using 3 by (simp only: wf_json.simps)
  then show ?case using 3 by (auto simp: list_all_iff simp del: map_map)
qed (auto simp: list_all_iff split: pyfloat.splits)

lemma numeric_sort_keys: "numeric fr (sort_keys j) = sort_keys (numeric fr j)"
proof (induction j rule: no_exponent.induct)
  case (3 fr d)
  have "map (\<lambda>(k, v). (k, numeric fr v)) (map (\<lambda>(k, v). (k, sort_keys v)) d) = map (\<lambda>(k, v). (k, sort_keys v)) (map (\<lambda>(k, v). (k, numeric fr v)) d)"
    if "set d \<subseteq> set e" "\<And>k v. (k, v) \<in> set e \<Longrightarrow> numeric fr (sort_keys v) = sort_keys (numeric fr v)" for d e :: json_object
    using that by auto
  from this [of "sort_key fst d" d] show ?case using 3 by (auto simp only: numeric.simps sort_keys.simps sort_key_fst_map set_sort)
qed (auto split: pyfloat.splits)

section \<open>A server\<close>

definition plain_server :: "(pyfloat \<Rightarrow> string) \<Rightarrow> pg_server" where
  "plain_server fr = \<lparr>sv_uuid = Inr, sv_text = Inr, sv_char = (\<lambda>j. case j of JStr s \<Rightarrow> Inr (Some s) | _ \<Rightarrow> Inr None), sv_jsonb = (\<lambda>j. Inr (numeric fr j))\<rparr>"

interpretation plain_server: postgres_server "plain_server fr" fr for fr
  by unfold_locales (auto simp: plain_server_def numeric_sort_keys intro: wf_sort_keys wf_numeric)

end
