(* ===== verification/Pg_Audit.thy ===== *)
theory Pg_Audit
  imports Audit_Log Pg_Server
begin

text \<open>
  \<^verbatim>\<open>agent_roi/audit/postgres.py\<close>: the audit store on a PostgreSQL server.  The table is the list of its rows in the order of \<^verbatim>\<open>sequence_id\<close>.  A
  transaction holds the advisory lock of its correlation from before it reads the tail until it commits, so that it is one function.
  What the server stores for a value of a column type is an argument, and so is the JSON parser.
\<close>

section \<open>Rows\<close>

record pg_audit_row =
  pa_event_id :: string
  pa_correlation_id :: string
  pa_run_id :: string
  pa_ts_epoch_ms :: int
  pa_event_type :: string
  pa_payload_json :: json
  pa_prev_hash :: "string option"
  pa_event_hash :: "string option"
  pa_event_json :: json

section \<open>Configuration\<close>

record pg_audit_config =
  pc_hash_chain :: bool
  pc_table :: string

definition word_like :: "string \<Rightarrow> bool" where
  "word_like s \<longleftrightarrow> (let t = filter (\<lambda>c. c \<noteq> CHR ''_'') s in t \<noteq> [] \<and> list_all (\<lambda>c. alpha_char c \<or> digit_char c) t)"

definition pg_audit_init :: "string \<Rightarrow> bool \<Rightarrow> string \<Rightarrow> string \<Rightarrow> bool \<Rightarrow> exc + pg_audit_config" where
  "pg_audit_init dsn hc table schema has_factory =
     (if \<not> word_like table then Inl (ValueError ''table_name must contain only letters, numbers, and underscores'')
      else if \<not> word_like schema then Inl (ValueError ''schema must contain only letters, numbers, and underscores'')
      else if \<not> has_factory \<and> blank dsn then Inl (ValueError ''dsn or connection_factory is required'')
      else Inr \<lparr>pc_hash_chain = hc, pc_table = [CHR 0x22] @ schema @ [CHR 0x22, CHR ''.'', CHR 0x22] @ table @ [CHR 0x22]\<rparr>)"

section \<open>Writing\<close>

definition hash_column :: "string option \<Rightarrow> json" where
  "hash_column v = (case v of None \<Rightarrow> JNull | Some s \<Rightarrow> JStr (strip s))"

definition pg_tail :: "string \<Rightarrow> pg_audit_row list \<Rightarrow> json" where
  "pg_tail corr rows = (case find (\<lambda>r. pa_correlation_id r = corr) (rev rows) of None \<Rightarrow> JNull | Some r \<Rightarrow> hash_column (pa_event_hash r))"

definition pg_row :: "pg_server \<Rightarrow> audit_event \<Rightarrow> exc + pg_audit_row" where
  "pg_row sv e =
     ebind (sv_uuid sv (ae_event_id e)) (\<lambda>eid.
     ebind (sv_text sv (ae_correlation_id e)) (\<lambda>corr.
     ebind (sv_text sv (ae_run_id e)) (\<lambda>run.
     ebind (sv_bigint (ae_ts_epoch_ms e)) (\<lambda>ts.
     ebind (sv_text sv (ae_event_type e)) (\<lambda>ty.
     ebind (sv_jsonb sv (sort_keys (JObj (ae_payload e)))) (\<lambda>p.
     ebind (sv_char sv (ae_prev_hash e)) (\<lambda>prev.
     ebind (sv_char sv (ae_hash e)) (\<lambda>hsh.
     ebind (sv_jsonb sv (sort_keys (JObj (event_to_dict e)))) (\<lambda>ev.
     Inr \<lparr>pa_event_id = eid, pa_correlation_id = corr, pa_run_id = run, pa_ts_epoch_ms = ts, pa_event_type = ty,
       pa_payload_json = p, pa_prev_hash = prev, pa_event_hash = hsh, pa_event_json = ev\<rparr>)))))))))"

definition pg_insert :: "pg_server \<Rightarrow> audit_event \<Rightarrow> pg_audit_row list \<Rightarrow> exc + pg_audit_row list" where
  "pg_insert sv e rows = ebind (pg_row sv e) (\<lambda>r.
     if pa_event_id r \<in> pa_event_id ` set rows
     then Inl (OtherExc [''UniqueViolation'', ''IntegrityError'', ''Exception''] ''duplicate key value violates unique constraint'')
     else Inr (rows @ [r]))"

definition pg_record ::
    "pg_server \<Rightarrow> (string \<Rightarrow> string) \<Rightarrow> (pyfloat \<Rightarrow> string) \<Rightarrow> (pyval \<Rightarrow> string) \<Rightarrow> bool \<Rightarrow> string \<Rightarrow> int \<Rightarrow> string \<Rightarrow> string \<Rightarrow> string \<Rightarrow> pyval
     \<Rightarrow> pg_audit_row list \<Rightarrow> (exc + audit_event) \<times> pg_audit_row list" where
  "pg_record sv sha fr orr hc eid ts corr run ty p rows =
     (let event = audit_event_create sha fr orr eid ts corr run ty p (pg_tail corr rows) hc in
      case pg_insert sv event rows of Inl e \<Rightarrow> (Inl e, rows) | Inr rows' \<Rightarrow> (Inr event, rows'))"

definition pg_append :: "pg_server \<Rightarrow> audit_event \<Rightarrow> pg_audit_row list \<Rightarrow> (exc + unit) \<times> pg_audit_row list" where
  "pg_append sv e rows =
     (if ae_prev_hash e \<noteq> pg_tail (ae_correlation_id e) rows
      then (Inl (AuditIntegrityError ''Audit append rejected because prev_hash is stale or invalid''), rows)
      else case pg_insert sv e rows of Inl ex \<Rightarrow> (Inl ex, rows) | Inr rows' \<Rightarrow> (Inr (), rows'))"

definition pg_last_hash :: "string \<Rightarrow> pg_audit_row list \<Rightarrow> json" where
  "pg_last_hash corr rows = pg_tail corr rows"

section \<open>Reading\<close>

text \<open>\<^verbatim>\<open>==\<close> of two values that \<^verbatim>\<open>json.loads\<close> returns: numbers and booleans compare by value, dictionaries without regard to order.\<close>

fun json_number :: "json \<Rightarrow> pyfloat option" where
  "json_number (JInt i) = Some (Fin (of_int i))"
| "json_number (JBool b) = Some (Fin (if b then 1 else 0))"
| "json_number (JFloat x) = Some x"
| "json_number _ = None"

fun json_eq :: "json \<Rightarrow> json \<Rightarrow> bool" where
  "json_eq (JObj d) j = (case j of
     JObj d' \<Rightarrow> fst ` set d = fst ` set d' \<and> list_all (\<lambda>(k, v). case map_of d' k of None \<Rightarrow> False | Some v' \<Rightarrow> json_eq v v') d
   | _ \<Rightarrow> False)"
| "json_eq (JList xs) j = (case j of JList ys \<Rightarrow> list_all2 json_eq xs ys | _ \<Rightarrow> False)"
| "json_eq i j = (case json_number i of None \<Rightarrow> i = j | Some x \<Rightarrow> json_number j = Some x \<and> x \<noteq> NaN)"

definition normalize_json :: "(string \<Rightarrow> json option) \<Rightarrow> json \<Rightarrow> exc + json_object" where
  "normalize_json loads v =
     ebind (case v of
         JStr s \<Rightarrow> (case loads s of None \<Rightarrow> Inl (AuditIntegrityError ''PostgreSQL audit event_json is not valid JSON'') | Some j \<Rightarrow> Inr j)
       | _ \<Rightarrow> Inr v)
     (\<lambda>j. case j of JObj d \<Rightarrow> Inr d | _ \<Rightarrow> Inl (AuditIntegrityError ''PostgreSQL audit event_json must be an object''))"

definition loaded_payload :: "(string \<Rightarrow> json option) \<Rightarrow> json \<Rightarrow> exc + json" where
  "loaded_payload loads v = (case v of
     JObj d \<Rightarrow> Inr v
   | JStr s \<Rightarrow> (case loads s of None \<Rightarrow> Inl (OtherExc [''JSONDecodeError'', ''ValueError'', ''Exception''] ''Expecting value'') | Some j \<Rightarrow> Inr j)
   | _ \<Rightarrow> Inl (TypeError ''the JSON object must be str, bytes or bytearray''))"

definition denormalized :: "pg_audit_row \<Rightarrow> json \<Rightarrow> json_object" where
  "denormalized r p =
     [(''event_id'', JStr (pa_event_id r)), (''correlation_id'', JStr (pa_correlation_id r)), (''run_id'', JStr (pa_run_id r)),
      (''ts_epoch_ms'', JInt (pa_ts_epoch_ms r)), (''event_type'', JStr (pa_event_type r)), (''payload'', p),
      (''prev_hash'', hash_column (pa_prev_hash r))]"

definition row_failure :: "nat \<Rightarrow> string \<Rightarrow> exc" where
  "row_failure index what = AuditIntegrityError (''PostgreSQL audit event '' @ show_int (int index) @ what)"

fun pg_verify_rows ::
    "(string \<Rightarrow> json option) \<Rightarrow> (string \<Rightarrow> string) \<Rightarrow> (pyfloat \<Rightarrow> string) \<Rightarrow> (pyval \<Rightarrow> string) \<Rightarrow> bool \<Rightarrow> (string \<rightharpoonup> json) \<Rightarrow> nat
     \<Rightarrow> pg_audit_row list \<Rightarrow> exc + unit" where
  "pg_verify_rows loads sha fr orr hc lst index [] = Inr ()"
| "pg_verify_rows loads sha fr orr hc lst index (r # rs) =
     ebind (normalize_json loads (pa_event_json r)) (\<lambda>event_json.
     ebind (loaded_payload loads (pa_payload_json r)) (\<lambda>p.
       let event_hash = hash_column (pa_event_hash r); base = denormalized r p in
       if \<not> json_eq (JObj event_json) (JObj (base @ [(''hash'', event_hash)]))
         then Inl (row_failure index '' denormalized columns do not match event_json'')
       else if hash_column (pa_prev_hash r) \<noteq> cached lst (pa_correlation_id r) then Inl (row_failure index '' has an invalid prev_hash'')
       else if hc then
         (if JStr (sha (stable_json fr orr base)) \<noteq> event_hash then Inl (row_failure index '' has an invalid hash'')
          else pg_verify_rows loads sha fr orr hc (lst(pa_correlation_id r \<mapsto> event_hash)) (Suc index) rs)
       else if event_hash \<noteq> JNull then Inl (row_failure index '' unexpectedly contains a hash'')
       else pg_verify_rows loads sha fr orr hc lst (Suc index) rs))"

definition audited_rows :: "string \<Rightarrow> pg_audit_row list \<Rightarrow> pg_audit_row list" where
  "audited_rows corr rows = (if corr \<noteq> [] then filter (\<lambda>r. pa_correlation_id r = corr) rows else rows)"

definition pg_verify ::
    "(string \<Rightarrow> json option) \<Rightarrow> (string \<Rightarrow> string) \<Rightarrow> (pyfloat \<Rightarrow> string) \<Rightarrow> (pyval \<Rightarrow> string) \<Rightarrow> bool \<Rightarrow> string \<Rightarrow> pg_audit_row list \<Rightarrow> exc + nat" where
  "pg_verify loads sha fr orr hc corr rows =
     ebind (pg_verify_rows loads sha fr orr hc Map.empty 1 (audited_rows corr rows)) (\<lambda>_. Inr (length (audited_rows corr rows)))"

definition pg_export_jsonl :: "(string \<Rightarrow> json option) \<Rightarrow> string \<Rightarrow> pg_audit_row list \<Rightarrow> exc + jline list" where
  "pg_export_jsonl loads corr rows = collect (\<lambda>r. ebind (normalize_json loads (pa_event_json r)) (\<lambda>d. Inr (written_line d))) (audited_rows corr rows)"

end
