(* ===== verification/Pg_Audit_Laws.thy ===== *)
theory Pg_Audit_Laws
  imports Pg_Audit Audit_Laws
begin


section \<open>Comparison of documents\<close>


section \<open>Stored events\<close>










section \<open>The store implements the interface\<close>

















section \<open>Theorems\<close>




section \<open>A witness\<close>












end
