(* ===== verification/Pg_Ledger.thy ===== *)
theory Pg_Ledger
  imports Ledger Audit_Log Pg_Server
begin

text \<open>
  \<^verbatim>\<open>agent_roi/roi/postgres.py\<close>: the ledger on a PostgreSQL server, on the same four tables.  A row is kept as it was written, except for the metadata,
  which is what the server stores of them; \<open>pl_iso\<close> is the text of a stored time as the driver gives it back, and \<open>pl_stamp\<close> the instant it is ordered by.
  Every text that is sent goes through \<open>sv_text\<close>, which refuses the NUL character; the texts of the enumerations are the package's own.
\<close>

record pg_ledger_conn =
  pl_server :: pg_server
  pl_iso :: "utc_text \<Rightarrow> utc_text"
  pl_stamp :: "utc_text \<Rightarrow> int"
  pl_loads :: "string \<Rightarrow> json option"

definition unique_violation :: exc where
  "unique_violation = OtherExc [''UniqueViolation'', ''IntegrityError'', ''Exception''] ''duplicate key value violates unique constraint''"

definition foreign_key_violation :: exc where
  "foreign_key_violation = OtherExc [''ForeignKeyViolation'', ''IntegrityError'', ''Exception''] ''insert or update violates foreign key constraint''"

text \<open>\<^verbatim>\<open>except Exception as exc: raise ValueError(message) from exc\<close>.\<close>

definition as_value_error :: "string \<Rightarrow> exc + 'a \<Rightarrow> exc + 'a" where
  "as_value_error msg r = (case r of Inl e \<Rightarrow> Inl (if is_Exception e then ValueError msg else e) | Inr x \<Rightarrow> Inr x)"

section \<open>Reading opportunities\<close>

definition json_value :: "(string \<Rightarrow> json option) \<Rightarrow> json \<Rightarrow> exc + json_object" where
  "json_value loads v =
     (let to_dict = (\<lambda>j. case json_dict j of None \<Rightarrow> Inl (TypeError ''not a mapping'') | Some d \<Rightarrow> Inr d) in
      case v of
        JStr s \<Rightarrow> (case loads s of None \<Rightarrow> Inl (OtherExc [''JSONDecodeError'', ''ValueError'', ''Exception''] ''Expecting value'') | Some j \<Rightarrow> to_dict j)
      | _ \<Rightarrow> if truthy v then to_dict v else Inr [])"

definition pg_row_to_opportunity :: "pg_ledger_conn \<Rightarrow> opp_row \<Rightarrow> exc + value_opportunity" where
  "pg_row_to_opportunity k r = ebind (json_value (pl_loads k) (op_metadata r)) (\<lambda>m. Inr
     \<lparr>op_id = op_id r, op_organization_id = op_organization_id r, op_agent_id = op_agent_id r,
      op_business_unit = op_business_unit r, op_business_owner = op_business_owner r, op_title = op_title r,
      op_value_type = op_value_type r, op_value_period = op_value_period r, op_status = op_status r,
      op_currency_code = op_currency_code r, op_confidence = op_confidence r, op_source_key = op_source_key r,
      op_measurement_start = op_measurement_start r, op_measurement_end = op_measurement_end r,
      op_created_at_utc = pl_iso k (op_created_at_utc r), op_created_by = op_created_by r, op_metadata = JObj m,
      op_revision = op_revision r, op_baseline_usd = cents_to_money (op_baseline_cents r),
      op_forecast_value_usd = cents_to_money (op_forecast_cents r)\<rparr>)"

definition pg_get_opportunity :: "pg_ledger_conn \<Rightarrow> string \<Rightarrow> ledger \<Rightarrow> exc + value_opportunity" where
  "pg_get_opportunity k oid led = ebind (sv_text (pl_server k) oid) (\<lambda>sent. case find (\<lambda>r. op_id r = sent) (ld_opportunities led) of
     None \<Rightarrow> Inl (KeyError oid) | Some r \<Rightarrow> pg_row_to_opportunity k r)"

definition pg_list_rows :: "pg_ledger_conn \<Rightarrow> org_id \<Rightarrow> agent_name \<Rightarrow> opportunity_status option \<Rightarrow> ledger \<Rightarrow> opp_row list" where
  "pg_list_rows k org agent st led = sort_key (\<lambda>r. pl_stamp k (op_created_at_utc r)) (filter (\<lambda>r. op_organization_id r = org
     \<and> (agent \<noteq> [] \<longrightarrow> op_agent_id r = agent) \<and> (case st of None \<Rightarrow> True | Some s \<Rightarrow> op_status r = s)) (ld_opportunities led))"

definition pg_list_opportunities ::
    "pg_ledger_conn \<Rightarrow> org_id \<Rightarrow> agent_name \<Rightarrow> string option \<Rightarrow> int \<Rightarrow> int \<Rightarrow> ledger \<Rightarrow> exc + value_opportunity list" where
  "pg_list_opportunities k org agent status limit offset led =
     (let query = (\<lambda>st. ebind (sv_text (pl_server k) org) (\<lambda>o'. ebind (if agent = [] then Inr [] else sv_text (pl_server k) agent) (\<lambda>a'.
        collect (pg_row_to_opportunity k) (sql_limit (max 1 (min limit 500)) (max 0 offset) (pg_list_rows k o' a' st led))))) in
      case status of None \<Rightarrow> query None | Some s \<Rightarrow> ebind (status_of s) (\<lambda>st. query (Some st)))"

section \<open>Creating opportunities\<close>

definition pg_opportunity_checks :: "new_opportunity \<Rightarrow> exc + pyfloat \<times> string \<times> value_type \<times> value_period" where
  "pg_opportunity_checks a =
     (case find (\<lambda>(n, v). blank v) (required_fields a) of
        Some (n, _) \<Rightarrow> Inl (ValueError (n @ '' must be a non-empty string''))
      | None \<Rightarrow> ebind (py_float (no_confidence a)) (\<lambda>conf.
          let currency = upper (strip (no_currency_code a)) in
          if \<not> (fle (Fin 0) conf \<and> fle conf (Fin 1)) then Inl (ValueError ''confidence must be between 0 and 1'')
          else if length currency \<noteq> 3 \<or> \<not> list_all alpha_char currency then Inl (ValueError ''currency_code must be a three-letter code'')
          else case (value_type_of (no_value_type a), value_period_of (no_value_period a)) of
            (Inr vt, Inr vp) \<Rightarrow> Inr (conf, currency, vt, vp)
          | _ \<Rightarrow> Inl (ValueError ''Invalid value_type or value_period'')))"

text \<open>The row is put together inside the \<^verbatim>\<open>try\<close>, amounts first, and stored by the server.\<close>

definition pg_opportunity_columns :: "pg_server \<Rightarrow> opp_row \<Rightarrow> exc + opp_row" where
  "pg_opportunity_columns sv r =
     ebind (sv_text sv (op_id r)) (\<lambda>i. ebind (sv_text sv (op_organization_id r)) (\<lambda>org. ebind (sv_text sv (op_agent_id r)) (\<lambda>agent.
     ebind (sv_text sv (op_business_unit r)) (\<lambda>unit. ebind (sv_text sv (op_business_owner r)) (\<lambda>owner. ebind (sv_text sv (op_title r)) (\<lambda>title.
     ebind (sv_text sv (op_currency_code r)) (\<lambda>cur. ebind (sv_text sv (op_source_key r)) (\<lambda>key. ebind (sv_text sv (op_measurement_start r)) (\<lambda>ms.
     ebind (sv_text sv (op_measurement_end r)) (\<lambda>me. ebind (sv_text sv (op_created_by r)) (\<lambda>creator.
     Inr (r\<lparr>op_id := i, op_organization_id := org, op_agent_id := agent, op_business_unit := unit, op_business_owner := owner, op_title := title,
       op_currency_code := cur, op_source_key := key, op_measurement_start := ms, op_measurement_end := me, op_created_by := creator\<rparr>))))))))))))"

definition pg_opportunity_row ::
    "pg_server \<Rightarrow> (pyfloat \<Rightarrow> string) \<Rightarrow> (pyval \<Rightarrow> string) \<Rightarrow> string \<Rightarrow> utc_text \<Rightarrow> new_opportunity \<Rightarrow> pyfloat \<times> string \<times> value_type \<times> value_period
     \<Rightarrow> exc + opp_row" where
  "pg_opportunity_row sv fr orr oid now a checked =
     (let (conf, currency, vt, vp) = checked in
      ebind (money_to_cents fr orr (no_baseline_usd a)) (\<lambda>b.
      ebind (money_to_cents fr orr (no_forecast_value_usd a)) (\<lambda>f.
      ebind (sv_bigint b) (\<lambda>baseline.
      ebind (sv_bigint f) (\<lambda>forecast.
      ebind (sv_jsonb sv (sort_keys (to_jsonable fr orr (PDict (no_metadata a))))) (\<lambda>m.
      pg_opportunity_columns sv \<lparr>op_id = oid, op_organization_id = strip (no_organization_id a), op_agent_id = strip (no_agent_id a),
         op_business_unit = strip (no_business_unit a), op_business_owner = strip (no_business_owner a),
         op_title = strip (no_title a), op_value_type = vt, op_value_period = vp, op_status = Proposed,
         op_currency_code = currency, op_confidence = conf, op_source_key = strip (no_source_key a),
         op_measurement_start = no_measurement_start a, op_measurement_end = no_measurement_end a,
         op_created_at_utc = now, op_created_by = strip (no_created_by a), op_metadata = m, op_revision = 1,
         op_baseline_cents = baseline, op_forecast_cents = forecast\<rparr>))))))"

definition pg_insert_opportunity :: "opp_row \<Rightarrow> ledger \<Rightarrow> exc + ledger" where
  "pg_insert_opportunity row led =
     (if list_ex (\<lambda>r. op_id r = op_id row \<or> op_organization_id r = op_organization_id row \<and> op_source_key r = op_source_key row) (ld_opportunities led)
      then Inl unique_violation else Inr (led\<lparr>ld_opportunities := ld_opportunities led @ [row]\<rparr>))"

definition pg_create_opportunity ::
    "pg_ledger_conn \<Rightarrow> (pyfloat \<Rightarrow> string) \<Rightarrow> (pyval \<Rightarrow> string) \<Rightarrow> uuid_text \<Rightarrow> utc_text \<Rightarrow> new_opportunity \<Rightarrow> ledger
     \<Rightarrow> (exc + value_opportunity) \<times> ledger" where
  "pg_create_opportunity k fr orr uid now a led =
     (case pg_opportunity_checks a of Inl e \<Rightarrow> (Inl e, led)
      | Inr checked \<Rightarrow>
          let oid = (if no_opportunity_id a = [] then uid else no_opportunity_id a) in
          case as_value_error ''An ROI opportunity with this source_key already exists for the organization''
              (ebind (pg_opportunity_row (pl_server k) fr orr oid now a checked) (\<lambda>row. pg_insert_opportunity row led)) of
            Inl e \<Rightarrow> (Inl e, led)
          | Inr led' \<Rightarrow> (pg_get_opportunity k oid led', led'))"

section \<open>Transitions\<close>

definition pg_transition_read :: "pg_ledger_conn \<Rightarrow> string \<Rightarrow> string \<Rightarrow> ledger \<Rightarrow> exc + opportunity_status \<times> opportunity_status" where
  "pg_transition_read k oid new_status led =
     ebind (status_of new_status) (\<lambda>new. ebind (pg_get_opportunity k oid led) (\<lambda>current.
       if new \<notin> set (allowed_transitions (op_status current))
       then Inl (ValueError (''Invalid ROI status transition: '' @ status_value (op_status current) @ '' -> '' @ status_value new))
       else Inr (op_status current, new)))"

definition pg_transition_write ::
    "pg_server \<Rightarrow> uuid_text \<Rightarrow> utc_text \<Rightarrow> string \<Rightarrow> opportunity_status \<times> opportunity_status \<Rightarrow> subject_id \<Rightarrow> string \<Rightarrow> int option \<Rightarrow> ledger
     \<Rightarrow> exc + ledger" where
  "pg_transition_write sv uid now oid moved changed_by reason expected led =
     (let (old, new) = moved;
          hit = (\<lambda>r. op_id r = oid \<and> op_status r = old \<and> (case expected of None \<Rightarrow> True | Some n \<Rightarrow> op_revision r = n)) in
      if rowcount hit (ld_opportunities led) \<noteq> 1 then Inl (ValueError ''ROI opportunity revision conflict'')
      else ebind (sv_text sv uid) (\<lambda>hid. ebind (sv_text sv oid) (\<lambda>op. ebind (sv_text sv changed_by) (\<lambda>who. ebind (sv_text sv reason) (\<lambda>why.
        if list_ex (\<lambda>h. hr_history_id h = hid) (ld_history led) then Inl unique_violation
        else Inr (led\<lparr>ld_opportunities := sql_update hit (\<lambda>r. r\<lparr>op_status := new, op_revision := op_revision r + 1\<rparr>) (ld_opportunities led),
          ld_history := ld_history led @ [\<lparr>hr_history_id = hid, hr_opportunity_id = op, hr_old_status = old, hr_new_status = new,
            hr_changed_at_utc = now, hr_changed_by = who, hr_reason = why\<rparr>]\<rparr>))))))"

definition pg_transition ::
    "pg_ledger_conn \<Rightarrow> uuid_text \<Rightarrow> utc_text \<Rightarrow> string \<Rightarrow> string \<Rightarrow> subject_id \<Rightarrow> string \<Rightarrow> int option \<Rightarrow> ledger \<Rightarrow> (exc + value_opportunity) \<times> ledger" where
  "pg_transition k uid now oid new_status changed_by reason expected led =
     (case ebind (pg_transition_read k oid new_status led) (\<lambda>moved. pg_transition_write (pl_server k) uid now oid moved changed_by reason expected led) of
        Inl e \<Rightarrow> (Inl e, led)
      | Inr led' \<Rightarrow> (pg_get_opportunity k oid led', led'))"

section \<open>Values and costs\<close>

definition pg_value_read :: "pg_ledger_conn \<Rightarrow> string \<Rightarrow> string \<Rightarrow> string \<Rightarrow> subject_id \<Rightarrow> ledger \<Rightarrow> exc + value_opportunity \<times> value_stage" where
  "pg_value_read k oid stage evidence_key recorded_by led =
     ebind (pg_get_opportunity k oid led) (\<lambda>opportunity. ebind (stage_of stage) (\<lambda>st.
       if st \<in> {Realized, Validated_Value} \<and> op_status opportunity \<notin> {In_Progress, Realizing, Validated}
       then Inl (ValueError ''Realized or validated value requires an in-progress opportunity'')
       else if blank evidence_key \<or> blank recorded_by then Inl (ValueError ''evidence_key and recorded_by are required'')
       else Inr (opportunity, st)))"

definition pg_value_columns :: "pg_server \<Rightarrow> value_row \<Rightarrow> exc + value_row" where
  "pg_value_columns sv r =
     ebind (sv_text sv (vr_measurement_id r)) (\<lambda>i. ebind (sv_text sv (vr_organization_id r)) (\<lambda>org. ebind (sv_text sv (vr_opportunity_id r)) (\<lambda>op.
     ebind (sv_text sv (vr_currency_code r)) (\<lambda>cur. ebind (sv_text sv (vr_evidence_key r)) (\<lambda>key. ebind (sv_text sv (vr_evidence_uri r)) (\<lambda>uri.
     ebind (sv_text sv (vr_measurement_date r)) (\<lambda>day. ebind (sv_text sv (vr_recorded_by r)) (\<lambda>who. ebind (sv_text sv (vr_notes r)) (\<lambda>nt.
     Inr (r\<lparr>vr_measurement_id := i, vr_organization_id := org, vr_opportunity_id := op, vr_currency_code := cur, vr_evidence_key := key,
       vr_evidence_uri := uri, vr_measurement_date := day, vr_recorded_by := who, vr_notes := nt\<rparr>))))))))))"

definition pg_value_insert :: "pg_server \<Rightarrow> value_row \<Rightarrow> ledger \<Rightarrow> exc + ledger" where
  "pg_value_insert sv sent led =
     ebind (pg_value_columns sv sent) (\<lambda>row. ebind (sv_bigint (vr_amount_cents row)) (\<lambda>_.
       if list_ex (\<lambda>v. vr_measurement_id v = vr_measurement_id row
           \<or> vr_organization_id v = vr_organization_id row \<and> vr_evidence_key v = vr_evidence_key row) (ld_values led) then Inl unique_violation
       else if \<not> list_ex (\<lambda>r. op_id r = vr_opportunity_id row) (ld_opportunities led) then Inl foreign_key_violation
       else Inr (led\<lparr>ld_values := ld_values led @ [row]\<rparr>)))"

definition pg_record_value ::
    "pg_ledger_conn \<Rightarrow> (pyfloat \<Rightarrow> string) \<Rightarrow> (pyval \<Rightarrow> string) \<Rightarrow> uuid_text \<Rightarrow> utc_text \<Rightarrow> utc_text \<Rightarrow> string \<Rightarrow> string \<Rightarrow> pyval \<Rightarrow> string \<Rightarrow> subject_id
     \<Rightarrow> string \<Rightarrow> string \<Rightarrow> string \<Rightarrow> ledger \<Rightarrow> (exc + receipt) \<times> ledger" where
  "pg_record_value k fr orr uid now today oid stage amount evidence_key recorded_by evidence_uri measurement_date notes led =
     (let date_value = (if measurement_date = [] then today else measurement_date) in
      case ebind (pg_value_read k oid stage evidence_key recorded_by led) (\<lambda>(opportunity, st).
           ebind (money_to_cents fr orr amount) (\<lambda>cents.
           ebind (as_value_error ''This evidence_key has already been counted''
             (pg_value_insert (pl_server k) \<lparr>vr_measurement_id = uid, vr_organization_id = op_organization_id opportunity, vr_opportunity_id = oid,
                vr_stage = st, vr_amount_cents = cents, vr_currency_code = op_currency_code opportunity,
                vr_evidence_key = strip evidence_key, vr_evidence_uri = evidence_uri, vr_measurement_date = date_value,
                vr_recorded_at_utc = now, vr_recorded_by = strip recorded_by, vr_notes = notes\<rparr> led)) (\<lambda>led'.
           Inr ([(''measurement_id'', PStr uid), (''opportunity_id'', PStr oid), (''stage'', PStr (stage_value st)),
                (''amount_usd'', PFloat (cents_to_money cents)), (''currency_code'', PStr (op_currency_code opportunity)),
                (''evidence_key'', PStr evidence_key), (''evidence_uri'', PStr evidence_uri), (''measurement_date'', PStr date_value)], led')))) of
        Inl e \<Rightarrow> (Inl e, led) | Inr (r, led') \<Rightarrow> (Inr r, led'))"

definition pg_cost_check :: "pg_ledger_conn \<Rightarrow> org_id \<Rightarrow> agent_name \<Rightarrow> string \<Rightarrow> ledger \<Rightarrow> exc + unit" where
  "pg_cost_check k org agent oid led =
     (if oid = [] then Inr ()
      else ebind (pg_get_opportunity k oid led) (\<lambda>opportunity.
        if op_organization_id opportunity \<noteq> org \<or> op_agent_id opportunity \<noteq> agent
        then Inl (ValueError ''Cost opportunity does not match organization and agent'') else Inr ()))"

definition pg_cost_columns :: "pg_server \<Rightarrow> cost_row \<Rightarrow> exc + cost_row" where
  "pg_cost_columns sv r =
     ebind (sv_text sv (cr_cost_id r)) (\<lambda>i. ebind (sv_text sv (cr_organization_id r)) (\<lambda>org. ebind (sv_text sv (cr_agent_id r)) (\<lambda>agent.
     ebind (case cr_opportunity_id r of None \<Rightarrow> Inr None | Some oid \<Rightarrow> ebind (sv_text sv oid) (\<lambda>s. Inr (Some s))) (\<lambda>op.
     ebind (sv_text sv (cr_currency_code r)) (\<lambda>cur. ebind (sv_text sv (cr_evidence_key r)) (\<lambda>key. ebind (sv_text sv (cr_incurred_date r)) (\<lambda>day.
     ebind (sv_text sv (cr_recorded_by r)) (\<lambda>who. ebind (sv_text sv (cr_notes r)) (\<lambda>nt.
     Inr (r\<lparr>cr_cost_id := i, cr_organization_id := org, cr_agent_id := agent, cr_opportunity_id := op, cr_currency_code := cur,
       cr_evidence_key := key, cr_incurred_date := day, cr_recorded_by := who, cr_notes := nt\<rparr>))))))))))"

definition pg_cost_insert :: "pg_server \<Rightarrow> cost_row \<Rightarrow> ledger \<Rightarrow> exc + ledger" where
  "pg_cost_insert sv sent led =
     ebind (pg_cost_columns sv sent) (\<lambda>row. ebind (sv_bigint (cr_amount_cents row)) (\<lambda>_.
       if list_ex (\<lambda>c. cr_cost_id c = cr_cost_id row
           \<or> cr_organization_id c = cr_organization_id row \<and> cr_evidence_key c = cr_evidence_key row) (ld_costs led) then Inl unique_violation
       else if (case cr_opportunity_id row of None \<Rightarrow> False | Some oid \<Rightarrow> \<not> list_ex (\<lambda>r. op_id r = oid) (ld_opportunities led))
         then Inl foreign_key_violation
       else Inr (led\<lparr>ld_costs := ld_costs led @ [row]\<rparr>)))"

definition pg_record_cost ::
    "pg_ledger_conn \<Rightarrow> (pyfloat \<Rightarrow> string) \<Rightarrow> (pyval \<Rightarrow> string) \<Rightarrow> uuid_text \<Rightarrow> utc_text \<Rightarrow> utc_text \<Rightarrow> org_id \<Rightarrow> agent_name \<Rightarrow> string \<Rightarrow> pyval \<Rightarrow> string
     \<Rightarrow> string \<Rightarrow> subject_id \<Rightarrow> string \<Rightarrow> string \<Rightarrow> string \<Rightarrow> ledger \<Rightarrow> (exc + receipt) \<times> ledger" where
  "pg_record_cost k fr orr uid now today org agent cost_type amount currency_code evidence_key recorded_by oid incurred_date notes led =
     (let currency = upper (strip currency_code); date_value = (if incurred_date = [] then today else incurred_date) in
      case ebind (pg_cost_check k org agent oid led) (\<lambda>_.
           if blank evidence_key \<or> blank recorded_by then Inl (ValueError ''evidence_key and recorded_by are required'')
           else ebind (money_to_cents fr orr amount) (\<lambda>cents.
             ebind (as_value_error ''This cost evidence_key has already been counted'' (ebind (cost_type_of cost_type) (\<lambda>ct.
               ebind (pg_cost_insert (pl_server k) \<lparr>cr_cost_id = uid, cr_organization_id = org, cr_agent_id = agent,
                 cr_opportunity_id = (if oid = [] then None else Some oid), cr_cost_type = ct, cr_amount_cents = cents,
                 cr_currency_code = currency, cr_evidence_key = strip evidence_key, cr_incurred_date = date_value,
                 cr_recorded_at_utc = now, cr_recorded_by = strip recorded_by, cr_notes = notes\<rparr> led) (\<lambda>led'. Inr (ct, led'))))) (\<lambda>(ct, led').
             Inr ([(''cost_id'', PStr uid), (''organization_id'', PStr org), (''agent_id'', PStr agent),
               (''cost_type'', PStr (cost_type_value ct)), (''amount_usd'', PFloat (cents_to_money cents)),
               (''currency_code'', PStr currency), (''evidence_key'', PStr evidence_key), (''incurred_date'', PStr date_value)], led')))) of
        Inl e \<Rightarrow> (Inl e, led) | Inr (r, led') \<Rightarrow> (Inr r, led'))"

section \<open>Portfolio summary\<close>

definition pg_portfolio_summary ::
    "pg_ledger_conn \<Rightarrow> (pyfloat \<Rightarrow> string) \<Rightarrow> (pyval \<Rightarrow> string) \<Rightarrow> org_id \<Rightarrow> string \<Rightarrow> agent_name \<Rightarrow> ledger \<Rightarrow> exc + portfolio" where
  "pg_portfolio_summary k fr orr org currency_code agent led =
     ebind (pg_list_opportunities k org agent None 500 0 led) (\<lambda>listed.
     ebind (select_currency currency_code listed) (\<lambda>selected.
       let ops = filter (\<lambda>p. op_currency_code p = selected) listed; ids = set (map op_id ops) in
       ebind (sum_cents fr orr (map op_forecast_value_usd ops)) (\<lambda>forecast.
       ebind (sum_cents fr orr (map op_baseline_usd ops)) (\<lambda>baseline. ebind (sv_text (pl_server k) selected) (\<lambda>_.
         let realized = values_total org selected ids Realized led;
             validated = values_total org selected ids Validated_Value led;
             cost = costs_total org selected agent ids led in
         ebind (roi_multiple validated cost) (\<lambda>multiple.
         Inr \<lparr>pf_organization_id = org, pf_agent_id = (if agent = [] then None else Some agent), pf_currency_code = selected,
           pf_opportunity_count = length ops, pf_baseline_usd = cents_to_money baseline, pf_forecast_value_usd = cents_to_money forecast,
           pf_realized_value_usd = cents_to_money realized, pf_validated_value_usd = cents_to_money validated,
           pf_total_cost_usd = cents_to_money cost, pf_net_validated_value_usd = cents_to_money (validated - cost),
           pf_validated_roi_multiple = multiple,
           pf_status_counts = map (\<lambda>st. (status_value st, length (filter (\<lambda>p. op_status p = st) ops))) all_statuses\<rparr>))))))"

end
