(* ===== verification/Spec2Isabelle.thy ===== *)
theory Spec2Isabelle
  imports Serialization Guardrails Decision Retry_Breaker Idempotency Tools Context_Laws Audit_Laws Ledger_Laws Broker_Laws Worker_Laws Policy_Laws Control_Laws
    Rbac_Laws Scim_Laws Runner_Laws Analyzer_Laws Api_Laws Enterprise_Laws Migration_Laws Pg_Audit_Laws Pg_Ledger_Laws
begin

text \<open>
  Verification of Agent-ROI, an enterprise control and value layer for Python agent workflows (\<^verbatim>\<open>src/src/agent_roi\<close>).

  \<^bold>\<open>The program.\<close>  A runner executes an agent.  The agent reaches its tools only through a context, which resolves the tool in the
  registry, asks the authorizer, checks the guardrails, obtains an approval where one is needed, charges the call, retries it behind a circuit
  breaker and writes an event for every step to an audit store; at the end a decision policy turns the score of the run into an outcome.  Around the
  runner stand an approval broker, a transactional outbox with its delivery worker, a ledger of measured value, two analyzers that produce
  recommendations, and a control plane that signs, stores, rolls out and serves the policies the limits of a run come from, behind an
  HTTP interface with OIDC principals and role-based access.

  \<^bold>\<open>Theories and sources\<close> (paths under \<^verbatim>\<open>src/src/agent_roi\<close>).
  \<^item> \<^verbatim>\<open>Prelude\<close>, \<^verbatim>\<open>Pyfloat\<close>, \<^verbatim>\<open>Pyval\<close>, \<^verbatim>\<open>Isotime\<close>, \<^verbatim>\<open>Fnmatch\<close>: what the sources use of Python: text, tables of rows with their
    statements, binary64 floats with correct rounding, values of unknown type, exceptions as a datatype, ISO timestamps, shell patterns.
  \<^item> \<^verbatim>\<open>Serialization\<close>: \<^verbatim>\<open>_serialization.py\<close>.  \<^verbatim>\<open>Guardrails\<close>, \<^verbatim>\<open>Decision\<close>: \<^verbatim>\<open>control/guardrails.py\<close>, \<^verbatim>\<open>control/decision.py\<close>.
  \<^item> \<^verbatim>\<open>Retry_Breaker\<close>, \<^verbatim>\<open>Idempotency\<close>: \<^verbatim>\<open>runtime/resilience.py\<close>.  \<^verbatim>\<open>Tools\<close>, \<^verbatim>\<open>Context\<close>, \<^verbatim>\<open>Runner\<close>: \<^verbatim>\<open>runtime/tools.py\<close>,
    \<^verbatim>\<open>context.py\<close>, \<^verbatim>\<open>executor.py\<close>.
  \<^item> \<^verbatim>\<open>Audit_Log\<close>: \<^verbatim>\<open>audit/event.py\<close>, \<^verbatim>\<open>redact.py\<close>, \<^verbatim>\<open>store.py\<close>.  \<^verbatim>\<open>Money\<close>, \<^verbatim>\<open>Ledger\<close>: \<^verbatim>\<open>roi/ledger.py\<close>.
  \<^item> \<^verbatim>\<open>Approvals\<close>, \<^verbatim>\<open>Broker\<close>: \<^verbatim>\<open>approvals/base.py\<close>, \<^verbatim>\<open>postgres.py\<close>.  \<^verbatim>\<open>Outbox\<close>: \<^verbatim>\<open>enterprise/outbox.py\<close>, \<^verbatim>\<open>approvals/outbox.py\<close>.
  \<^item> \<^verbatim>\<open>Policies\<close>: \<^verbatim>\<open>policies/validate.py\<close>, \<^verbatim>\<open>loader.py\<close>.  \<^verbatim>\<open>Control_Plane\<close>, \<^verbatim>\<open>Http_Api\<close>: \<^verbatim>\<open>enterprise/control_plane.py\<close>.
  \<^item> \<^verbatim>\<open>Identity\<close>, \<^verbatim>\<open>Scim\<close>: \<^verbatim>\<open>enterprise/identity.py\<close>.  \<^verbatim>\<open>Telemetry\<close>: \<^verbatim>\<open>enterprise/telemetry.py\<close>.
  \<^item> \<^verbatim>\<open>Analyzers\<close>: \<^verbatim>\<open>finops/analyzer.py\<close>, \<^verbatim>\<open>procurement/analyzer.py\<close>.
  \<^item> \<^verbatim>\<open>Plane_Client\<close>, \<^verbatim>\<open>Enterprise\<close>: the clients of \<^verbatim>\<open>enterprise/control_plane.py\<close> and \<^verbatim>\<open>enterprise/runtime.py\<close>.
  \<^item> \<^verbatim>\<open>Migrations\<close>: \<^verbatim>\<open>db/core.py\<close>.  \<^verbatim>\<open>Pg_Server\<close>, \<^verbatim>\<open>Pg_Audit\<close>, \<^verbatim>\<open>Pg_Ledger\<close>: \<^verbatim>\<open>audit/postgres.py\<close> and \<^verbatim>\<open>roi/postgres.py\<close>, on what a
    PostgreSQL server stores.
  The theories named \<^verbatim>\<open>..._Laws\<close> hold the invariants, the interfaces as locales with their interpretations, and the properties.

  \<^bold>\<open>How the code is represented.\<close>  An operation is a function of the same name where HOL allows it, with a prefix for the store it belongs to
  (\<^verbatim>\<open>sqlite_\<close>, \<^verbatim>\<open>pg_\<close>, \<^verbatim>\<open>jsonl_\<close>, \<^verbatim>\<open>mem_\<close>, \<^verbatim>\<open>sql_\<close>, \<^verbatim>\<open>dir_\<close>, \<^verbatim>\<open>api_\<close>).  A dataclass is a record with a constructor function \<open>..._init\<close> that
  makes the checks of \<^verbatim>\<open>__post_init__\<close>.  A result is \<open>exc + 'a\<close>; an operation with effects returns it together with the state, and what was written
  before an exception stays written.  A table is the list of its rows, with the primary keys, unique and foreign keys of its schema as the
  conditions under which a statement fails; a transaction is one function, and code that reads in one transaction and writes in
  another is two functions, so that other processes can come between them; \<^verbatim>\<open>sqlite_dead_letter\<close> takes what they do as an argument.  Hashes, keyed hashes, clocks, random numbers, fresh identifiers,
  the text of floats, JSON parsers, tokens and every callback are arguments.

  \<^bold>\<open>What is shown.\<close>
  \<^item> \<^emph>\<open>Execution\<close> (\<^verbatim>\<open>Context_Laws\<close>, \<^verbatim>\<open>Runner_Laws\<close>): every handler that runs was admitted by all guards of its context, in a single call and in a run of
    any agent; counters and cost stay within the limits; an approval is for the exact action; a call is charged once; a replayed
    request does not run again; a run is framed by its events, all of them recorded.  The facts about agents are proved once, for any
    relation that the operations of a context keep (\<open>agent_relation\<close>, \<open>runner_relation\<close>, \<open>open_emitter\<close>).
  \<^item> \<^emph>\<open>Resilience\<close>: attempts and delays of retries, the breaker, at most one start per idempotency key in both stores (\<open>idempotency_store\<close>).
  \<^item> \<^emph>\<open>Evidence\<close> (\<^verbatim>\<open>Serialization\<close>, \<^verbatim>\<open>Audit_Laws\<close>): a digest determines the value, secrets are redacted, three audit stores agree and
    verify (\<open>audit_store\<close>), and a verified log is the logged one or exhibits a collision (\<open>hash_chain\<close>).
  \<^item> \<^emph>\<open>Approvals\<close> (\<^verbatim>\<open>Broker_Laws\<close>): any number of brokers on either repository (\<open>approval_repository\<close>) hand out grants only with four eyes.
  \<^item> \<^emph>\<open>Outbox\<close> (\<^verbatim>\<open>Outbox_Laws\<close>, \<^verbatim>\<open>Worker_Laws\<close>): every interleaving on either store (\<open>outbox_contract\<close>), in which nobody touches an event between the
    read and the write of a SQLite \<^verbatim>\<open>dead_letter\<close>, refines the life cycle of an event: leases are exclusive, delivery is final, and a batch is settled.
    Without that condition a stale worker buries a delivered event (\<open>stale_burial\<close>).
  \<^item> \<^emph>\<open>Value\<close> (\<^verbatim>\<open>Ledger_Laws\<close>, \<^verbatim>\<open>Analyzer_Laws\<close>): the history explains the status of every opportunity, evidence counts once, the summary is the exact
    sum to the cent, and no analyzer promises more than was spent: recoveries for amounts in whole cents, savings up to rounding to cents.
  \<^item> \<^emph>\<open>Policies and control plane\<close> (\<^verbatim>\<open>Policy_Laws\<close>, \<^verbatim>\<open>Control_Laws\<close>): what was accepted builds the controls it says, what was published and activated is
    served, and what is served was signed for exactly that place or is a forgery of its signature.
  \<^item> \<^emph>\<open>Access\<close> (\<^verbatim>\<open>Rbac_Laws\<close>, \<^verbatim>\<open>Scim_Laws\<close>, \<^verbatim>\<open>Api_Laws\<close>): decisions are exactly those of the stored roles and bindings (\<open>role_source\<close>), the two directories
    refine one specification, exceptions included (\<open>scim_store\<close>, \<open>scim_faces\<close>), the HTTP interface is mediated and separates tenants, except for role bindings.
  \<^item> \<^emph>\<open>Composition\<close> (\<^verbatim>\<open>Enterprise_Laws\<close>): a runner set up from the control plane, on line or from the cache (\<open>signed_source\<close>), runs within the limits written in
    a document whose signature verifies, and its heartbeats leave a run as it is.
  \<^item> \<^emph>\<open>Schema\<close> (\<^verbatim>\<open>Migration_Laws\<close>): a script is split at the semicolons of its lexical grammar, which is stated apart from the scanner, and migrations are applied once, in order, all or none.
  \<^item> \<^emph>\<open>PostgreSQL\<close> (\<^verbatim>\<open>Pg_Audit_Laws\<close>, \<^verbatim>\<open>Pg_Ledger_Laws\<close>): on a server that behaves as documented (\<open>postgres_server\<close>, \<open>postgres_ledger\<close>) the audit store records the log
    of the local stores (\<open>audit_recorder\<close>) and verifies it exactly if no float of a payload needs a positive exponent, and the ledger refines the SQLite ledger on texts without NUL.
  Theorems of kind error state where the code does not do what it says; they hold of the code as it is.

  \<^bold>\<open>Termination and bounds.\<close>  There is no fuel: every loop is a recursion over a list, over the attempts left, or over an agent, which is
  a well-founded interaction tree, so that the model of a run returns.  Integers are unbounded as in Python; floats round to binary64 with one zero, so that what depends on the sign
  of a zero (the hash of a payload that PostgreSQL read back) is outside the theorems; and the money
  theorems carry the bound (\<open>2 ^ 40\<close> dollars, or exactness of the decimal context) under which no cent is lost.

  \<^bold>\<open>Not modelled.\<close>
  \<^item> Input and output around the logic: the command line (\<^verbatim>\<open>cli\<close>), file locking and permissions, the SQL files of \<^verbatim>\<open>migrations\<close>,
    the database drivers, the transport of the control plane client, the HTTP delivery handler of the outbox and the audit client (\<^verbatim>\<open>audit/remote.py\<close>).
  \<^item> Third-party services: key management (\<^verbatim>\<open>enterprise/signers.py\<close>), workload identity, chat and ticket providers of approvals
    (\<^verbatim>\<open>approvals/integrations.py\<close>), agent frameworks (\<^verbatim>\<open>adapters\<close>), PyJWT, the OpenTelemetry exporters.
  \<^item> The PostgreSQL stores of \<^verbatim>\<open>enterprise/postgres.py\<close>, whose statements repeat those of the SQLite control plane and directory on another
    server; the other PostgreSQL stores are modelled.
  \<^item> Report texts (\<^verbatim>\<open>roi/report.py\<close>, \<^verbatim>\<open>roi/executive.py\<close>, \<^verbatim>\<open>runtime/artifacts.py\<close>), whose number formats and non-ASCII symbols have no counterpart here.
  \<^item> Within the modelled parts: threads inside one process, a handler that calls back into its own context, and an agent that never returns.
\<close>

end
